(* ===== verification/Prelude.thy ===== *)
theory Prelude
  imports Main "HOL-Library.Char_ord" "HOL-Library.List_Lexorder" "HOL-Library.Sublist"
begin

text \<open>
  Shared vocabulary of the development.

  \<^item> Go's machine integers as HOL numbers with the wrap-around written out (\<open>wrap_u64\<close>,
    \<open>wrap_i64\<close>, \<open>wrap_i32\<close>).
  \<^item> Go strings are byte strings; HOL's \<^typ>\<open>string\<close> is a list of 8-bit characters, ordered
    bytewise by the library's lexicographic order, as Go's \<open><\<close> on strings is.
  \<^item> the pieces of the packages \<open>strings\<close>, \<open>unicode/utf8\<close>, \<open>strconv\<close> and
    \<open>encoding/hex\<close> that the modelled sources call.
  \<^item> \<open>step_system\<close>: a state type with a total step function and an invariant, from which the
    components get their properties of arbitrary operation sequences; \<open>monotone_system\<close> adds an
    observation that never decreases.
\<close>

named_theorems go_simps \<open>evaluation of Go library helpers\<close>

section \<open>Machine integers\<close>

definition wrap_u64 :: "nat \<Rightarrow> nat" where
  "wrap_u64 n = n mod 2 ^ 64"

definition wrap_i64 :: "int \<Rightarrow> int" where
  "wrap_i64 x = (x + 2 ^ 63) mod 2 ^ 64 - 2 ^ 63"

definition wrap_i32 :: "int \<Rightarrow> int" where
  "wrap_i32 x = (x + 2 ^ 31) mod 2 ^ 32 - 2 ^ 31"

lemma wrap_u64_id [simp]: "n < 2 ^ 64 \<Longrightarrow> wrap_u64 n = n"
  by (simp add: wrap_u64_def)

text \<open>Evaluation goes through binary integers.\<close>

lemma wrap_u64_code [code]: "wrap_u64 n = nat (int n mod 18446744073709551616)"
proof -
  have "int n mod 18446744073709551616 = int (n mod 18446744073709551616)" by (simp add: zmod_int)
  then show ?thesis by (simp add: wrap_u64_def)
qed

lemma wrap_u64_less [simp]: "wrap_u64 n < 2 ^ 64"
  by (simp add: wrap_u64_def)

lemma wrap_i64_id [simp]: "- (2 ^ 63) \<le> x \<Longrightarrow> x < 2 ^ 63 \<Longrightarrow> wrap_i64 x = x"
  by (simp add: wrap_i64_def)

lemma wrap_i32_id [simp]: "- (2 ^ 31) \<le> x \<Longrightarrow> x < 2 ^ 31 \<Longrightarrow> wrap_i32 x = x"
  by (simp add: wrap_i32_def)

section \<open>Results\<close>

text \<open>A fallible Go function returns \<open>Inl e\<close> for a non-nil error and \<open>Inr v\<close> otherwise.\<close>

fun is_ok :: "'e + 'a \<Rightarrow> bool" where
  "is_ok (Inl _) = False"
| "is_ok (Inr _) = True"

lemma is_ok_iff: "is_ok r \<longleftrightarrow> (\<exists>v. r = Inr v)"
  by (cases r) auto

text \<open>Go on with a result unless it is an error.\<close>

definition bind_result :: "'e + 'a \<Rightarrow> ('a \<Rightarrow> 'e + 'b) \<Rightarrow> 'e + 'b" where
  "bind_result r f = (case r of Inl e \<Rightarrow> Inl e | Inr v \<Rightarrow> f v)"

lemma bind_result_simps [simp]: "bind_result (Inl e) f = Inl e" "bind_result (Inr v) f = f v"
  by (simp_all add: bind_result_def)

lemma bind_result_Inr: "bind_result r f = Inr w \<longleftrightarrow> (\<exists>v. r = Inr v \<and> f v = Inr w)"
  by (cases r) auto

lemma bind_result_Inl: "bind_result r f = Inl e \<longleftrightarrow> r = Inl e \<or> (\<exists>v. r = Inr v \<and> f v = Inl e)"
  by (cases r) auto

section \<open>Strings\<close>

definition has_prefix :: "string \<Rightarrow> string \<Rightarrow> bool" where
  "has_prefix s p \<longleftrightarrow> take (length p) s = p"

definition has_suffix :: "string \<Rightarrow> string \<Rightarrow> bool" where
  "has_suffix s p \<longleftrightarrow> length p \<le> length s \<and> drop (length s - length p) s = p"

definition trim_suffix :: "string \<Rightarrow> string \<Rightarrow> string" where
  "trim_suffix s p = (if has_suffix s p then take (length s - length p) s else s)"

definition trim_prefix :: "string \<Rightarrow> string \<Rightarrow> string" where
  "trim_prefix s p = (if has_prefix s p then drop (length p) s else s)"

lemma has_suffix_append [simp]: "has_suffix (s @ p) p"
  by (simp add: has_suffix_def)

lemma trim_suffix_append [simp]: "trim_suffix (s @ p) p = s"
  by (simp add: trim_suffix_def)

lemma has_suffix_iff: "has_suffix s p \<longleftrightarrow> (\<exists>t. s = t @ p)"
proof
  assume a: "has_suffix s p"
  then have "s = take (length s - length p) s @ p"
    by (metis append_take_drop_id has_suffix_def)
  then show "\<exists>t. s = t @ p" ..
qed auto

lemma has_suffix_trim: "has_suffix s p \<Longrightarrow> s = trim_suffix s p @ p"
  by (auto simp: has_suffix_iff)

text \<open>\<open>strings.Split(s, sep)\<close> for a one-byte separator; the result is never empty.\<close>

fun split_on :: "char \<Rightarrow> string \<Rightarrow> string list" where
  "split_on c [] = [[]]"
| "split_on c (x # xs) =
     (if x = c then [] # split_on c xs
      else case split_on c xs of [] \<Rightarrow> [[x]] | y # ys \<Rightarrow> (x # y) # ys)"

fun join_with :: "char \<Rightarrow> string list \<Rightarrow> string" where
  "join_with c [] = []"
| "join_with c [x] = x"
| "join_with c (x # y # ys) = x @ c # join_with c (y # ys)"

lemma split_on_nonempty [simp]: "split_on c s \<noteq> []"
  by (induction s) (auto split: list.splits)

lemma join_split [simp]: "join_with c (split_on c s) = s"
proof (induction s)
  case (Cons x s)
  obtain y ys where "split_on c s = y # ys"
    by (meson neq_Nil_conv split_on_nonempty)
  with Cons show ?case by (cases ys) auto
qed simp

lemma split_on_no_sep: "w \<in> set (split_on c s) \<Longrightarrow> c \<notin> set w"
proof (induction s arbitrary: w)
  case (Cons x s)
  obtain y ys where "split_on c s = y # ys"
    by (meson neq_Nil_conv split_on_nonempty)
  with Cons show ?case by (auto split: if_splits)
qed simp

lemma split_on_append_sep:
  "c \<notin> set w \<Longrightarrow> split_on c (w @ c # s) = w # split_on c s"
  by (induction w) auto

lemma split_on_single: "c \<notin> set w \<Longrightarrow> split_on c w = [w]"
  by (induction w) auto

lemma split_on_join:
  "ws \<noteq> [] \<Longrightarrow> \<forall>w\<in>set ws. c \<notin> set w \<Longrightarrow> split_on c (join_with c ws) = ws"
  by (induction ws rule: join_with.induct) (auto simp: split_on_append_sep split_on_single)

lemma set_split_on: "w \<in> set (split_on c s) \<Longrightarrow> x \<in> set w \<Longrightarrow> x \<in> set s"
proof (induction s arbitrary: w)
  case (Cons a s)
  obtain y ys where "split_on c s = y # ys"
    by (meson neq_Nil_conv split_on_nonempty)
  with Cons.prems Cons.IH [of y] Cons.IH [of w] show ?case by (auto split: if_splits)
qed simp

text \<open>
  \<open>strings.TrimSpace\<close>: the white space of Unicode, as the byte sequences that encode it. A leading
  byte never continues a rune, so trimming encoded runes at the end is trimming suffixes.
\<close>

definition space_runes :: "string list" where
  "space_runes =
     [[CHR 0x09], [CHR 0x0A], [CHR 0x0B], [CHR 0x0C], [CHR 0x0D], [CHR 0x20],
      [CHR 0xC2, CHR 0x85], [CHR 0xC2, CHR 0xA0], [CHR 0xE1, CHR 0x9A, CHR 0x80]]
     @ map (\<lambda>c. [CHR 0xE2, CHR 0x80, c])
         [CHR 0x80, CHR 0x81, CHR 0x82, CHR 0x83, CHR 0x84, CHR 0x85, CHR 0x86, CHR 0x87,
          CHR 0x88, CHR 0x89, CHR 0x8A, CHR 0xA8, CHR 0xA9, CHR 0xAF]
     @ [[CHR 0xE2, CHR 0x81, CHR 0x9F], [CHR 0xE3, CHR 0x80, CHR 0x80]]"

function trim_runes :: "string list \<Rightarrow> string \<Rightarrow> string" where
  "trim_runes ps s =
     (case find (\<lambda>p. p \<noteq> [] \<and> has_prefix s p) ps of
        None \<Rightarrow> s
      | Some p \<Rightarrow> trim_runes ps (drop (length p) s))"
  by pat_completeness auto

termination
proof (relation "measure (length \<circ> snd)")
  fix ps s p
  assume "find (\<lambda>p. p \<noteq> [] \<and> has_prefix s p) ps = Some p"
  then have "p \<noteq> []" "has_prefix s p" by (auto simp: find_Some_iff)
  then show "((ps, drop (length p) s), (ps, s)) \<in> measure (length \<circ> snd)"
    by (cases s) (auto simp: has_prefix_def)
qed simp

declare trim_runes.simps [simp del]

definition TrimSpace :: "string \<Rightarrow> string" where
  "TrimSpace s = rev (trim_runes (map rev space_runes) (rev (trim_runes space_runes s)))"

definition code :: "char \<Rightarrow> nat" where
  "code c = of_char c"

lemma code_less [simp]: "code c < 256"
  by (simp add: code_def)

lemma char_of_code [simp]: "char_of (code c) = c"
  by (simp add: code_def)

text \<open>\<open>strings.ToLower\<close> on ASCII text.\<close>

definition ascii_lower_char :: "char \<Rightarrow> char" where
  "ascii_lower_char c = (if 65 \<le> code c \<and> code c \<le> 90 then char_of (code c + 32) else c)"

definition ascii_lower :: "string \<Rightarrow> string" where
  "ascii_lower s = map ascii_lower_char s"

section \<open>UTF-8 (package unicode/utf8)\<close>

definition continuation :: "char \<Rightarrow> bool" where
  "continuation c \<longleftrightarrow> 128 \<le> code c \<and> code c \<le> 191"

text \<open>
  \<open>rune_len s\<close> is the number of bytes of the valid UTF-8 sequence at the front of \<open>s\<close>, and 0 when
  the front is not one: the accept ranges of \<open>utf8.DecodeRune\<close> (no overlong forms, no surrogates,
  nothing above U+10FFFF).
\<close>

fun rune_len :: "string \<Rightarrow> nat" where
  "rune_len [] = 0"
| "rune_len (a # s) =
     (let x = code a in
      if x < 128 then 1
      else if 194 \<le> x \<and> x \<le> 223 then
        (case s of b # _ \<Rightarrow> if continuation b then 2 else 0 | [] \<Rightarrow> 0)
      else if 224 \<le> x \<and> x \<le> 239 then
        (case s of b # c # _ \<Rightarrow>
           if (if x = 224 then 160 \<le> code b \<and> code b \<le> 191
               else if x = 237 then 128 \<le> code b \<and> code b \<le> 159
               else continuation b) \<and> continuation c then 3 else 0
         | _ \<Rightarrow> 0)
      else if 240 \<le> x \<and> x \<le> 244 then
        (case s of b # c # d # _ \<Rightarrow>
           if (if x = 240 then 144 \<le> code b \<and> code b \<le> 191
               else if x = 244 then 128 \<le> code b \<and> code b \<le> 143
               else continuation b) \<and> continuation c \<and> continuation d then 4 else 0
         | _ \<Rightarrow> 0)
      else 0)"

function utf8_valid :: "string \<Rightarrow> bool" where
  "utf8_valid s =
     (if s = [] then True
      else if rune_len s = 0 then False
      else utf8_valid (drop (rune_len s) s))"
  by pat_completeness auto
termination
  by (relation "measure length") auto

text \<open>\<open>utf8.RuneCountInString\<close>: a byte that starts no valid sequence counts as one rune.\<close>

function rune_count :: "string \<Rightarrow> nat" where
  "rune_count s = (if s = [] then 0 else Suc (rune_count (drop (max 1 (rune_len s)) s)))"
  by pat_completeness auto
termination
  by (relation "measure length") auto

declare utf8_valid.simps [simp del] rune_count.simps [simp del]

lemma rune_count_zero_iff [simp]: "rune_count s = 0 \<longleftrightarrow> s = []"
  by (subst rune_count.simps) simp

lemma rune_count_le_length: "rune_count s \<le> length s"
proof (induction s rule: rune_count.induct)
  case (1 s)
  show ?case
  proof (cases "s = []")
    case False
    with 1 have "rune_count (drop (max 1 (rune_len s)) s) \<le> length s - max 1 (rune_len s)"
      by simp
    moreover from False have "0 < length s" by simp
    ultimately have "Suc (rune_count (drop (max 1 (rune_len s)) s)) \<le> length s" by arith
    with False show ?thesis by (subst rune_count.simps) simp
  qed (simp add: rune_count.simps)
qed

definition has_nul :: "string \<Rightarrow> bool" where
  "has_nul s \<longleftrightarrow> char_of (0::nat) \<in> set s"

section \<open>Decimal and hexadecimal text (packages strconv and encoding/hex)\<close>

definition hexDigit :: "nat \<Rightarrow> char" where
  "hexDigit n = (if n < 10 then char_of (48 + n) else char_of (87 + n))"

definition hex_encode :: "string \<Rightarrow> string" where
  "hex_encode s = concat (map (\<lambda>c. [hexDigit (code c div 16), hexDigit (code c mod 16)]) s)"

definition digit_char :: "nat \<Rightarrow> char" where
  "digit_char d = char_of (48 + d)"

fun format_nat :: "nat \<Rightarrow> string" where
  "format_nat n = (if n < 10 then [digit_char n] else format_nat (n div 10) @ [digit_char (n mod 10)])"

declare format_nat.simps [simp del]

definition is_digit :: "char \<Rightarrow> bool" where
  "is_digit c \<longleftrightarrow> 48 \<le> code c \<and> code c \<le> 57"

fun digits_value :: "nat \<Rightarrow> string \<Rightarrow> nat" where
  "digits_value acc [] = acc"
| "digits_value acc (c # cs) = digits_value (10 * acc + (code c - 48)) cs"

text \<open>\<open>strconv.ParseUint(s, 10, bits)\<close>: at least one digit, digits only, value below \<open>2 ^ bits\<close>.\<close>

definition parse_uint :: "nat \<Rightarrow> string \<Rightarrow> nat option" where
  "parse_uint bits s =
     (if s \<noteq> [] \<and> list_all is_digit s \<and> digits_value 0 s < 2 ^ bits
      then Some (digits_value 0 s) else None)"

lemma parse_uint_code [code]:
  "parse_uint bits s =
     (if s \<noteq> [] \<and> list_all is_digit s \<and> int (digits_value 0 s) < 2 ^ bits
      then Some (digits_value 0 s) else None)"
proof -
  have "int (digits_value 0 s) < 2 ^ bits \<longleftrightarrow> digits_value 0 s < 2 ^ bits"
    by (metis of_nat_less_iff of_nat_numeral of_nat_power)
  then show ?thesis by (simp add: parse_uint_def)
qed

lemma digits_value_append: "digits_value acc (s @ [c]) = 10 * digits_value acc s + (code c - 48)"
  by (induction s arbitrary: acc) auto

lemma code_digit_char [simp]: "d < 10 \<Longrightarrow> code (digit_char d) = 48 + d"
  by (simp add: code_def digit_char_def)

lemma is_digit_digit_char [simp]: "d < 10 \<Longrightarrow> is_digit (digit_char d)"
  by (simp add: is_digit_def)

lemma format_nat_nonempty [simp]: "format_nat n \<noteq> []"
  by (subst format_nat.simps) simp

lemma format_nat_digits: "list_all is_digit (format_nat n)"
proof (induction n rule: format_nat.induct)
  case (1 n)
  then show ?case by (subst format_nat.simps) auto
qed

lemma digits_value_format_nat: "digits_value 0 (format_nat n) = n"
proof (induction n rule: format_nat.induct)
  case (1 n)
  then show ?case by (subst format_nat.simps) (auto simp: digits_value_append)
qed

lemma parse_format_nat [simp]: "n < 2 ^ bits \<Longrightarrow> parse_uint bits (format_nat n) = Some n"
  by (simp add: parse_uint_def format_nat_digits digits_value_format_nat)

lemma format_nat_inject [simp]: "format_nat m = format_nat n \<longleftrightarrow> m = n"
  by (metis digits_value_format_nat)

lemma format_nat_no_char: "\<not> is_digit c \<Longrightarrow> c \<notin> set (format_nat n)"
  using format_nat_digits [of n] by (auto simp: list_all_iff)

text \<open>\<open>strconv.FormatInt(x, 10)\<close> and \<open>strconv.ParseInt(s, 10, 64)\<close>: an optional sign, then
  digits, the value in the int64 range.\<close>

definition format_int :: "int \<Rightarrow> string" where
  "format_int x = (if x < 0 then CHR ''-'' # format_nat (nat (- x)) else format_nat (nat x))"

definition int_digits :: "int \<Rightarrow> string \<Rightarrow> int option" where
  "int_digits sign s =
     (if s \<noteq> [] \<and> list_all is_digit s
      then (let x = sign * int (digits_value 0 s) in if - (2 ^ 63) \<le> x \<and> x < 2 ^ 63 then Some x else None)
      else None)"

definition parse_int :: "string \<Rightarrow> int option" where
  "parse_int s =
     (case s of
        [] \<Rightarrow> None
      | c # cs \<Rightarrow> if c = CHR ''-'' then int_digits (- 1) cs
                  else if c = CHR ''+'' then int_digits 1 cs else int_digits 1 s)"

lemma format_nat_hd:
  obtains c cs where "format_nat n = c # cs" "is_digit c"
proof -
  obtain c cs where "format_nat n = c # cs" by (meson format_nat_nonempty neq_Nil_conv)
  with format_nat_digits [of n] that show ?thesis by auto
qed

lemma parse_format_int:
  assumes "0 \<le> x" "x < 2 ^ 63"
  shows "parse_int (format_int x) = Some x"
proof -
  obtain c cs where f: "format_nat (nat x) = c # cs" and d: "is_digit c" by (rule format_nat_hd)
  from d have "c \<noteq> CHR ''-''" "c \<noteq> CHR ''+''" by (auto simp: is_digit_def code_def)
  moreover have "int_digits 1 (format_nat (nat x)) = Some x"
    using assms by (simp add: int_digits_def format_nat_digits digits_value_format_nat)
  ultimately show ?thesis using assms(1) f by (simp add: parse_int_def format_int_def)
qed

section \<open>Sorted lists without duplicates\<close>

lemma sorted_distinct_eqI:
  fixes xs ys :: "'a::linorder list"
  assumes "set xs = set ys" "distinct xs" "distinct ys" "sorted xs" "sorted ys"
  shows "xs = ys"
  using assms by (metis sorted_distinct_set_unique)

lemma sort_remdups_set: "set (sort (remdups xs)) = set xs"
  by simp

lemma count_update:
  "i < length xs \<Longrightarrow>
     int (length (filter P (xs[i := y]))) = int (length (filter P xs)) - of_bool (P (xs ! i)) + of_bool (P y)"
proof (induction xs arbitrary: i)
  case (Cons x xs)
  then show ?case by (cases i) auto
qed simp

section \<open>Go maps\<close>

text \<open>
  A Go map that the code measures with \<open>len\<close> or ranges over is an association list without duplicate
  keys (\<open>map_ok\<close>). The order of the list is not the source's: Go leaves iteration order open, and
  the properties below never depend on it. \<open>msum f m\<close> adds \<open>f\<close> over the stored values.
\<close>

definition mput :: "'k \<Rightarrow> 'v \<Rightarrow> ('k \<times> 'v) list \<Rightarrow> ('k \<times> 'v) list" where
  "mput k v m = (k, v) # filter (\<lambda>e. fst e \<noteq> k) m"

definition mdel :: "'k \<Rightarrow> ('k \<times> 'v) list \<Rightarrow> ('k \<times> 'v) list" where
  "mdel k m = filter (\<lambda>e. fst e \<noteq> k) m"

definition map_ok :: "('k \<times> 'v) list \<Rightarrow> bool" where
  "map_ok m \<longleftrightarrow> distinct (map fst m)"

definition msum :: "('v \<Rightarrow> 'n::comm_monoid_add) \<Rightarrow> ('k \<times> 'v) list \<Rightarrow> 'n" where
  "msum f m = sum_list (map (\<lambda>e. f (snd e)) m)"

lemma map_ok_Nil [simp]: "map_ok []"
  by (simp add: map_ok_def)

lemma map_ok_Cons [simp]: "map_ok ((k, v) # m) \<longleftrightarrow> map_of m k = None \<and> map_ok m"
  by (auto simp: map_ok_def map_of_eq_None_iff)

lemma map_of_mdel [simp]: "map_of (mdel k m) = (map_of m)(k := None)"
  by (induction m) (auto simp: mdel_def fun_eq_iff)

lemma map_of_mput [simp]: "map_of (mput k v m) = (map_of m)(k \<mapsto> v)"
  using map_of_mdel [of k m] by (auto simp: mput_def mdel_def fun_eq_iff)

lemma map_ok_mdel [simp]: "map_ok m \<Longrightarrow> map_ok (mdel k m)"
  by (induction m) (auto simp: map_ok_def mdel_def)

lemma map_ok_mput [simp]: "map_ok m \<Longrightarrow> map_ok (mput k v m)"
  using map_ok_mdel [of m k] map_of_mdel [of k m]
  by (simp add: mput_def mdel_def)

lemma mput_nonempty [simp]: "mput k v m \<noteq> []"
  by (simp add: mput_def)

lemma mdel_absent: "map_of m k = None \<Longrightarrow> mdel k m = m"
  by (auto simp: mdel_def map_of_eq_None_iff filter_id_conv)

lemma length_mdel:
  "map_ok m \<Longrightarrow> length (mdel k m) = (if map_of m k = None then length m else length m - 1)"
proof (induction m)
  case (Cons e m)
  obtain a b where [simp]: "e = (a, b)" by force
  have "map_of m k \<noteq> None \<Longrightarrow> 0 < length m" by (cases m) auto
  with Cons show ?case by (auto simp: mdel_def)
qed (simp add: mdel_def)

lemma length_mput:
  "map_ok m \<Longrightarrow> length (mput k v m) = (if map_of m k = None then Suc (length m) else length m)"
proof -
  assume ok: "map_ok m"
  have "map_of m k \<noteq> None \<Longrightarrow> 0 < length m" by (cases m) auto
  with length_mdel [OF ok, of k] show ?thesis
    by (auto simp: mput_def mdel_def)
qed

lemma msum_Nil [simp]: "msum f [] = 0"
  by (simp add: msum_def)

lemma msum_Cons [simp]: "msum f (e # m) = f (snd e) + msum f m"
  by (simp add: msum_def)

lemma msum_mdel_none: "map_of m k = None \<Longrightarrow> msum f (mdel k m) = msum f m"
  by (simp add: mdel_absent)

lemma msum_mdel: "map_ok m \<Longrightarrow> map_of m k = Some v \<Longrightarrow> f v + msum f (mdel k m) = msum f m"
proof (induction m)
  case (Cons e m)
  obtain a b where [simp]: "e = (a, b)" by force
  show ?case
  proof (cases "a = k")
    case True
    with Cons.prems have "map_of m k = None" and "b = v" by auto
    then show ?thesis using mdel_absent [of m k] True by (simp add: mdel_def)
  next
    case False
    with Cons have "f v + msum f (mdel k m) = msum f m" by auto
    then have "f b + (f v + msum f (mdel k m)) = f b + msum f m" by simp
    with False show ?thesis by (simp add: mdel_def algebra_simps)
  qed
qed simp

lemma msum_mput: "msum f (mput k v m) = f v + msum f (mdel k m)"
  by (simp add: mput_def mdel_def)

lemma msum_ge_member:
  fixes f :: "'v \<Rightarrow> nat"
  shows "map_of m k = Some v \<Longrightarrow> f v \<le> msum f m"
  by (induction m) (auto split: if_splits)

lemma mput_mem_iff: "map_ok m \<Longrightarrow> map_of m k = Some v \<longleftrightarrow> (k, v) \<in> set m"
  by (simp add: map_ok_def)

section \<open>Systems with an invariant\<close>

text \<open>
  \<open>step\<close> is total: an operation that the code refuses is a step that leaves the state as the code
  leaves it. The invariant lifts to every sequence of operations.
\<close>

locale step_system =
  fixes step :: "'s \<Rightarrow> 'e \<Rightarrow> 's"
    and invar :: "'s \<Rightarrow> bool"
  assumes step_invar: "invar s \<Longrightarrow> invar (step s e)"
begin

lemma run_invar: "invar s \<Longrightarrow> invar (foldl step s es)"
  by (induction es arbitrary: s) (auto intro: step_invar)

lemma run_prefix_invar: "invar s \<Longrightarrow> invar (foldl step s (take n es))"
  by (rule run_invar)

end

locale monotone_system = step_system +
  fixes observe :: "'s \<Rightarrow> 'o::preorder"
  assumes step_mono: "invar s \<Longrightarrow> observe s \<le> observe (step s e)"
begin

lemma run_mono: "invar s \<Longrightarrow> observe s \<le> observe (foldl step s es)"
proof (induction es arbitrary: s)
  case (Cons e es)
  from Cons.prems have "observe s \<le> observe (step s e)" by (rule step_mono)
  also have "\<dots> \<le> observe (foldl step (step s e) es)"
    by (rule Cons.IH) (rule step_invar [OF Cons.prems])
  finally show ?case by simp
qed simp

end

end
