(* ===== verification/Api_Types.thy ===== *)
theory Api_Types
  imports Prelude
begin

text \<open>
  The custom resources of \<open>src/api/v1alpha1\<close> that the modelled code reads and writes: the
  Environment with its lifecycle policy, requests and status, its services, portal routes, recovery
  and provisioning state, and the EnvironmentTemplate and Project it is provisioned from.

  A Go struct is a record whose fields carry a prefix for the struct; an embedded struct is record
  extension; a pointer is an option; \<open>int64\<close> and \<open>int32\<close> fields are \<^typ>\<open>int\<close>; a
  \<open>metav1.Time\<close> is an \<^typ>\<open>int\<close> (nanoseconds). String enums stay strings, because the
  API server, not the Go type, restricts them; their constants are abbreviations.
  \<open>resource.Quantity\<close> is library code: quantities are the type parameter \<open>'q\<close>.
\<close>

section \<open>String enums\<close>

type_synonym EnvironmentSuspensionReason = string
abbreviation "EnvironmentSuspensionReasonHold \<equiv> ''Hold''"
abbreviation "EnvironmentSuspensionReasonIdle \<equiv> ''Idle''"
abbreviation "EnvironmentSuspensionReasonRequested \<equiv> ''Requested''"

type_synonym EnvironmentActivitySource = string
abbreviation "EnvironmentActivitySourceTerminal \<equiv> ''Terminal''"
abbreviation "EnvironmentActivitySourcePortal \<equiv> ''Portal''"
abbreviation "EnvironmentActivitySourceInbox \<equiv> ''Inbox''"
abbreviation "EnvironmentActivitySourceAgent \<equiv> ''Agent''"
abbreviation "EnvironmentActivitySourceRun \<equiv> ''Run''"

type_synonym EnvironmentPhase = string
abbreviation "EnvironmentPhaseCreating \<equiv> ''Creating''"
abbreviation "EnvironmentPhaseSetup \<equiv> ''Setup''"
abbreviation "EnvironmentPhaseReady \<equiv> ''Ready''"
abbreviation "EnvironmentPhaseRunning \<equiv> ''Running''"
abbreviation "EnvironmentPhaseIdle \<equiv> ''Idle''"
abbreviation "EnvironmentPhasePaused \<equiv> ''Paused''"
abbreviation "EnvironmentPhaseResuming \<equiv> ''Resuming''"
abbreviation "EnvironmentPhaseFailed \<equiv> ''Failed''"
abbreviation "EnvironmentPhaseTerminated \<equiv> ''Terminated''"

type_synonym EnvironmentBackend = string
abbreviation "EnvironmentBackendPod \<equiv> ''pod''"
abbreviation "EnvironmentBackendKubeVirt \<equiv> ''kubevirt''"
abbreviation "EnvironmentBackendExternalRunner \<equiv> ''external-runner''"

abbreviation "EnvironmentConditionReady \<equiv> ''Ready''"
abbreviation "ConditionTrue \<equiv> ''True''"
abbreviation "ConditionFalse \<equiv> ''False''"

section \<open>Lifecycle requests and policy\<close>

record EnvironmentLifecycleRequest =
  lr_ID :: string
  lr_EnvironmentUID :: string
  lr_HoldPolicyRevision :: int

record EnvironmentSuspendRequest = EnvironmentLifecycleRequest +
  sr_Sequence :: int

record EnvironmentWakeRequest = EnvironmentLifecycleRequest +
  wr_ExpectedSuspensionReason :: EnvironmentSuspensionReason

record EnvironmentActivityRequest = EnvironmentLifecycleRequest +
  ar_Source :: EnvironmentActivitySource
  ar_ExecutionGeneration :: int

record EnvironmentActivityReceipt =
  rc_Source :: EnvironmentActivitySource
  rc_RequestID :: string
  rc_ExecutionGeneration :: int

record EnvironmentHoldPolicy =
  hp_Enabled :: bool
  hp_Revision :: int

record EnvironmentLifecycleSpec =
  lsp_Hold :: "EnvironmentHoldPolicy option"
  lsp_Wake :: "EnvironmentWakeRequest option"
  lsp_Suspend :: "EnvironmentSuspendRequest option"
  lsp_Activity :: "EnvironmentActivityRequest list"

record EnvironmentLifecycleStatus =
  lst_Suspended :: bool
  lst_SuspensionReason :: EnvironmentSuspensionReason
  lst_SuspensionRequestID :: string
  lst_Epoch :: int
  lst_ObservedHoldPolicyRevision :: int
  lst_LastWakeRequestID :: string
  lst_LastSuspendRequestID :: string
  lst_LastSuspendRequestSequence :: int
  lst_PendingSuspendRequestID :: string
  lst_ActivityReceipts :: "EnvironmentActivityReceipt list"

section \<open>Services, endpoints, portal routes\<close>

record EnvironmentServiceLaunch =
  la_Argv :: "string list"

record EnvironmentServiceDeclaration =
  sd_Name :: string
  sd_InstanceID :: string
  sd_Revision :: int
  sd_Source :: string
  sd_Launch :: "EnvironmentServiceLaunch option"
  sd_Protocol :: string
  sd_TargetPort :: int
  sd_Visibility :: string
  sd_Readiness :: string

record EnvironmentSpec =
  sp_ProjectRef :: string
  sp_ProjectUID :: string
  sp_TemplateRef :: string
  sp_Backend :: EnvironmentBackend
  sp_Lifecycle :: EnvironmentLifecycleSpec
  sp_Services :: "EnvironmentServiceDeclaration list"
  sp_Paused :: bool

record EnvironmentEndpoints =
  ep_Sandboxd :: string
  ep_Terminal :: string

record EnvironmentServiceObservation =
  ob_Name :: string
  ob_DeclarationRevision :: int
  ob_State :: string
  ob_Reason :: string

record EnvironmentServiceObservations =
  obs_ObservedGeneration :: int
  obs_ExecutionGeneration :: "int option"
  obs_LifecycleEpoch :: int
  obs_HoldRevision :: int
  obs_ObservedAt :: int
  obs_Records :: "EnvironmentServiceObservation list"

record EnvironmentPortalRoute =
  pr_Name :: string
  pr_PresentationID :: string
  pr_DeclarationInstanceID :: string
  pr_DeclarationRevision :: int
  pr_Locator :: string
  pr_Generation :: int
  pr_Active :: bool

section \<open>Recovery and provisioning\<close>

record EnvironmentRecoveryStatus =
  rv_Attempts :: int
  rv_Exhausted :: bool
  rv_ExecutionGeneration :: int
  rv_NextAttemptAt :: "int option"

record EnvironmentProvisioningTemplate =
  pt_Name :: string
  pt_UID :: string
  pt_Generation :: int

record EnvironmentProvisioningProject =
  pp_Name :: string
  pp_UID :: string
  pp_Generation :: int
  pp_Repository :: string

record 'q EnvironmentProvisioningSnapshot =
  ps_Template :: EnvironmentProvisioningTemplate
  ps_Backend :: EnvironmentBackend
  ps_Image :: string
  ps_Size :: string
  ps_Resources :: "(string \<times> 'q) list"
  ps_RuntimeClassName :: string
  ps_DiskSize :: 'q
  ps_LegacyWorkspacePVCUID :: string
  ps_Project :: "EnvironmentProvisioningProject option"
  ps_TemplateVerified :: bool
  ps_ProjectVerified :: bool

section \<open>Status and the Environment\<close>

text \<open>\<open>metav1.Condition\<close>, with its transition time.\<close>

record Condition =
  cd_Type :: string
  cd_Status :: string
  cd_ObservedGeneration :: int
  cd_LastTransitionTime :: int
  cd_Reason :: string
  cd_Message :: string

record RunReference =
  rr_Name :: string
  rr_UID :: string

record 'q EnvironmentStatus =
  st_ObservedGeneration :: int
  st_ExecutionGeneration :: int
  st_Provisioning :: "'q EnvironmentProvisioningSnapshot option"
  st_ProvisioningMigrationPVCUID :: string
  st_Phase :: EnvironmentPhase
  st_Lifecycle :: EnvironmentLifecycleStatus
  st_ClaimedBy :: "RunReference option"
  st_Endpoints :: EnvironmentEndpoints
  st_ServiceObservations :: "EnvironmentServiceObservations option"
  st_PortalRoutes :: "EnvironmentPortalRoute list"
  st_NextPortalRouteGeneration :: int
  st_PodName :: string
  st_ImageID :: string
  st_LastActiveAt :: "int option"
  st_Recovery :: EnvironmentRecoveryStatus
  st_PodRecoveryAttempts :: int
  st_PodRecoveryExhausted :: bool
  st_PodRecoveryUID :: string
  st_PodRecoveryNextAttemptAt :: "int option"
  st_Conditions :: "Condition list"

text \<open>The fields of \<open>metav1.OwnerReference\<close> and \<open>metav1.ObjectMeta\<close> the modelled code uses.\<close>

record OwnerReference =
  ow_APIVersion :: string
  ow_Kind :: string
  ow_Name :: string
  ow_UID :: string
  ow_Controller :: "bool option"

record ObjectMeta =
  om_Namespace :: string
  om_Name :: string
  om_UID :: string
  om_Generation :: int
  om_DeletionTimestamp :: "int option"
  om_Annotations :: "(string \<times> string) list"
  om_Finalizers :: "string list"
  om_Labels :: "(string \<times> string) list"
  om_OwnerReferences :: "OwnerReference list"
  om_ResourceVersion :: string
  om_CreationTimestamp :: int

text \<open>Indexing a Go map of strings: an absent key reads as the empty string.\<close>

definition annotation :: "(string \<times> string) list \<Rightarrow> string \<Rightarrow> string" where
  "annotation m k = (case map_of m k of None \<Rightarrow> [] | Some v \<Rightarrow> v)"

abbreviation "meta_annotation m k \<equiv> annotation (om_Annotations m) k"
abbreviation "meta_label m k \<equiv> annotation (om_Labels m) k"

text \<open>\<open>DeletionTimestamp.IsZero()\<close> is false.\<close>

abbreviation "deleting m \<equiv> om_DeletionTimestamp m \<noteq> None"

record 'q Environment =
  en_Meta :: ObjectMeta
  en_Spec :: EnvironmentSpec
  en_Status :: "'q EnvironmentStatus"

abbreviation "env_UID e \<equiv> om_UID (en_Meta e)"
abbreviation "env_Generation e \<equiv> om_Generation (en_Meta e)"
abbreviation "env_Lifecycle e \<equiv> sp_Lifecycle (en_Spec e)"
abbreviation "env_LStatus e \<equiv> st_Lifecycle (en_Status e)"

type_synonym NamespacedName = "string \<times> string"

text \<open>\<open>client.ObjectKeyFromObject\<close>.\<close>

definition objectKey :: "'q Environment \<Rightarrow> NamespacedName" where
  "objectKey e = (om_Namespace (en_Meta e), om_Name (en_Meta e))"

section \<open>Templates and Projects\<close>

record 'q EnvironmentTemplateSpec =
  ts_Image :: string
  ts_Size :: string
  ts_RuntimeClass :: string
  ts_Backend :: EnvironmentBackend
  ts_IdleTimeout :: "int option"
  ts_DiskSize :: "'q option"
  ts_WarmPool :: "int option"

record 'q EnvironmentTemplate =
  et_Meta :: ObjectMeta
  et_Spec :: "'q EnvironmentTemplateSpec"
  et_WarmPoolReady :: int

record ProjectSpec =
  pj_Repositories :: "string list"
  pj_TemplateRef :: string
  pj_ChangesWorkflow :: string
  pj_EgressAllowlist :: "string list"

record Project =
  pj_Meta :: ObjectMeta
  pj_Spec :: ProjectSpec

section \<open>Zero values\<close>

text \<open>The Go zero values, from which examples are built.\<close>

definition zero_lifecycle_spec :: EnvironmentLifecycleSpec where
  "zero_lifecycle_spec = \<lparr>lsp_Hold = None, lsp_Wake = None, lsp_Suspend = None, lsp_Activity = []\<rparr>"

definition zero_lifecycle_status :: EnvironmentLifecycleStatus where
  "zero_lifecycle_status =
     \<lparr>lst_Suspended = False, lst_SuspensionReason = [], lst_SuspensionRequestID = [],
      lst_Epoch = 0, lst_ObservedHoldPolicyRevision = 0, lst_LastWakeRequestID = [],
      lst_LastSuspendRequestID = [], lst_LastSuspendRequestSequence = 0,
      lst_PendingSuspendRequestID = [], lst_ActivityReceipts = []\<rparr>"

definition zero_recovery :: EnvironmentRecoveryStatus where
  "zero_recovery =
     \<lparr>rv_Attempts = 0, rv_Exhausted = False, rv_ExecutionGeneration = 0, rv_NextAttemptAt = None\<rparr>"

definition zero_spec :: EnvironmentSpec where
  "zero_spec =
     \<lparr>sp_ProjectRef = [], sp_ProjectUID = [], sp_TemplateRef = [], sp_Backend = [],
      sp_Lifecycle = zero_lifecycle_spec, sp_Services = [], sp_Paused = False\<rparr>"

definition zero_status :: "'q EnvironmentStatus" where
  "zero_status =
     \<lparr>st_ObservedGeneration = 0, st_ExecutionGeneration = 0, st_Provisioning = None,
      st_ProvisioningMigrationPVCUID = [], st_Phase = [], st_Lifecycle = zero_lifecycle_status,
      st_ClaimedBy = None, st_Endpoints = \<lparr>ep_Sandboxd = [], ep_Terminal = []\<rparr>,
      st_ServiceObservations = None, st_PortalRoutes = [], st_NextPortalRouteGeneration = 0,
      st_PodName = [], st_ImageID = [], st_LastActiveAt = None, st_Recovery = zero_recovery,
      st_PodRecoveryAttempts = 0, st_PodRecoveryExhausted = False, st_PodRecoveryUID = [],
      st_PodRecoveryNextAttemptAt = None, st_Conditions = []\<rparr>"

definition zero_meta :: ObjectMeta where
  "zero_meta =
     \<lparr>om_Namespace = [], om_Name = [], om_UID = [], om_Generation = 0,
      om_DeletionTimestamp = None, om_Annotations = [], om_Finalizers = [],
      om_Labels = [], om_OwnerReferences = [], om_ResourceVersion = [], om_CreationTimestamp = 0\<rparr>"

definition zero_environment :: "'q Environment" where
  "zero_environment = \<lparr>en_Meta = zero_meta, en_Spec = zero_spec, en_Status = zero_status\<rparr>"

lemmas zero_defs = zero_environment_def zero_meta_def zero_spec_def zero_status_def
  zero_lifecycle_spec_def zero_lifecycle_status_def zero_recovery_def

section \<open>Readiness and backend\<close>

text \<open>\<open>findCond\<close> stands for \<open>apimeta.FindStatusCondition\<close>, library code: the condition of a
  type in a list of conditions.\<close>

type_synonym find_condition = "Condition list \<Rightarrow> string \<Rightarrow> Condition option"

definition IsEnvironmentReady :: "find_condition \<Rightarrow> 'q Environment \<Rightarrow> bool" where
  "IsEnvironmentReady findCond e =
     (if om_DeletionTimestamp (en_Meta e) \<noteq> None then False
      else case findCond (st_Conditions (en_Status e)) EnvironmentConditionReady of
        None \<Rightarrow> False
      | Some c \<Rightarrow> 0 < st_ExecutionGeneration (en_Status e)
          \<and> st_ObservedGeneration (en_Status e) = env_Generation e
          \<and> cd_ObservedGeneration c = env_Generation e
          \<and> cd_Status c = ConditionTrue)"

text \<open>\<open>setCond\<close> stands for \<open>apimeta.SetStatusCondition\<close>, and \<open>getControllerOf\<close> for
  \<open>metav1.GetControllerOf\<close> on an object's metadata.\<close>

type_synonym set_condition = "Condition \<Rightarrow> Condition list \<Rightarrow> Condition list"
type_synonym get_controller = "ObjectMeta \<Rightarrow> OwnerReference option"

definition controllerOwnerIs ::
  "get_controller \<Rightarrow> ObjectMeta \<Rightarrow> string \<Rightarrow> string \<Rightarrow> string \<Rightarrow> string \<Rightarrow> bool" where
  "controllerOwnerIs getControllerOf obj apiVersion kind name uid =
     (case getControllerOf obj of
        None \<Rightarrow> False
      | Some ow \<Rightarrow> ow_APIVersion ow = apiVersion \<and> ow_Kind ow = kind \<and> ow_Name ow = name \<and> ow_UID ow = uid)"

abbreviation "platformGroupVersion \<equiv> ''swe.dev/v1alpha1''"

definition EffectiveEnvironmentBackend ::
  "'q Environment \<Rightarrow> 'q EnvironmentTemplate \<Rightarrow> EnvironmentBackend" where
  "EffectiveEnvironmentBackend e t =
     (if sp_Backend (en_Spec e) \<noteq> [] then sp_Backend (en_Spec e)
      else if ts_Backend (et_Spec t) \<noteq> [] then ts_Backend (et_Spec t)
      else EnvironmentBackendPod)"

lemma EffectiveEnvironmentBackend_nonempty: "EffectiveEnvironmentBackend e t \<noteq> []"
  by (simp add: EffectiveEnvironmentBackend_def)

end
