(* ===== verification/Lifecycle_Intent.thy ===== *)
theory Lifecycle_Intent
  imports Api_Types
begin

text \<open>
  The package \<open>src/internal/lifecycle\<close>: the execution fence (\<open>execution_fence.go\<close>) and the
  durable lifecycle intents that callers publish on an Environment (\<open>intent.go\<close>).

  The Kubernetes client is not part of the repository. It is a parameter: \<open>kget\<close> reads the
  Environment under a key, \<open>kpatch before after\<close> sends the optimistic-lock merge patch, both act on
  a world \<open>'w\<close> that other writers may change between calls, and \<open>retry\<close> is
  \<open>retry.RetryOnConflict\<close>. The JSON codec of activity requests is the pair \<open>marshal\<close>,
  \<open>unmarshal\<close>.
\<close>

section \<open>Errors\<close>

datatype fence_error =
  ErrEnvironmentIncarnationChanged
| ErrExecutionGenerationChanged
| ErrLifecycleEpochChanged
| ErrHoldPolicyChanged

datatype 'k lifecycle_error =
  FenceComponent fence_error
| ErrExecutionFenceChanged fence_error
| NotOrdinaryWakeable string
| SuspendSequenceNotPositive
| InvalidActivitySource string
| ActivityIDLength
| ActivityEnvironmentUIDEmpty
| ActivityExecutionGenerationNotPositive
| ActivityHoldRevisionNegative
| EncodeActivity
| KubeError 'k

section \<open>Execution fence\<close>

definition HoldPolicyRevision :: "'q Environment \<Rightarrow> int" where
  "HoldPolicyRevision e =
     (case lsp_Hold (env_Lifecycle e) of None \<Rightarrow> 0 | Some h \<Rightarrow> hp_Revision h)"

record ExecutionFence =
  fe_key :: NamespacedName
  fe_environmentUID :: string
  fe_executionGeneration :: int
  fe_lifecycleEpoch :: int
  fe_holdPolicyRevision :: int

definition CaptureExecutionFence :: "'q Environment \<Rightarrow> ExecutionFence" where
  "CaptureExecutionFence e =
     \<lparr>fe_key = objectKey e, fe_environmentUID = env_UID e,
      fe_executionGeneration = st_ExecutionGeneration (en_Status e),
      fe_lifecycleEpoch = lst_Epoch (env_LStatus e),
      fe_holdPolicyRevision = HoldPolicyRevision e\<rparr>"

definition Validate :: "ExecutionFence \<Rightarrow> 'q Environment \<Rightarrow> 'k lifecycle_error option" where
  "Validate f e =
     (if objectKey e \<noteq> fe_key f \<or> env_UID e \<noteq> fe_environmentUID f then
        Some (ErrExecutionFenceChanged ErrEnvironmentIncarnationChanged)
      else if fe_executionGeneration f < 1
           \<or> st_ExecutionGeneration (en_Status e) \<noteq> fe_executionGeneration f then
        Some (ErrExecutionFenceChanged ErrExecutionGenerationChanged)
      else if lst_Epoch (env_LStatus e) \<noteq> fe_lifecycleEpoch f then
        Some (ErrExecutionFenceChanged ErrLifecycleEpochChanged)
      else if HoldPolicyRevision e \<noteq> fe_holdPolicyRevision f then
        Some (ErrExecutionFenceChanged ErrHoldPolicyChanged)
      else None)"

definition Revalidate ::
  "(NamespacedName \<Rightarrow> 'w \<Rightarrow> ('k + 'q Environment) \<times> 'w) \<Rightarrow> ExecutionFence \<Rightarrow> 'w
     \<Rightarrow> ('k lifecycle_error + 'q Environment) \<times> 'w" where
  "Revalidate kget f w =
     (case kget (fe_key f) w of
        (Inl k, w') \<Rightarrow> (Inl (KubeError k), w')
      | (Inr e, w') \<Rightarrow> (case Validate f e of Some err \<Rightarrow> (Inl err, w') | None \<Rightarrow> (Inr e, w')))"

section \<open>Activity requests\<close>

definition activityAnnotationPrefix :: string where
  "activityAnnotationPrefix = ''lifecycle.swe.dev/activity-''"

definition activitySources :: "EnvironmentActivitySource list" where
  "activitySources =
     [EnvironmentActivitySourceTerminal, EnvironmentActivitySourcePortal,
      EnvironmentActivitySourceInbox, EnvironmentActivitySourceAgent,
      EnvironmentActivitySourceRun]"

definition activityAnnotation :: "EnvironmentActivitySource \<Rightarrow> string" where
  "activityAnnotation source = activityAnnotationPrefix @ ascii_lower source"

definition validateActivityRequest :: "EnvironmentActivityRequest \<Rightarrow> 'k lifecycle_error option" where
  "validateActivityRequest r =
     (let n = rune_count (lr_ID r) in
      if ar_Source r \<notin> set activitySources then Some (InvalidActivitySource (ar_Source r))
      else if n < 1 \<or> 128 < n then Some ActivityIDLength
      else if lr_EnvironmentUID r = [] then Some ActivityEnvironmentUIDEmpty
      else if ar_ExecutionGeneration r < 1 then Some ActivityExecutionGenerationNotPositive
      else if lr_HoldPolicyRevision r < 0 then Some ActivityHoldRevisionNegative
      else None)"

abbreviation "valid_activity r \<equiv> (validateActivityRequest r :: unit lifecycle_error option) = None"

text \<open>The two loops of \<open>ActivityRequests\<close>: legacy spec entries, then the metadata slots.\<close>

definition specActivity ::
  "EnvironmentActivityRequest \<Rightarrow> (string \<times> EnvironmentActivityRequest) list
     \<Rightarrow> (string \<times> EnvironmentActivityRequest) list" where
  "specActivity r m = (if valid_activity r then mput (ar_Source r) r m else m)"

definition slotActivity ::
  "(string \<Rightarrow> EnvironmentActivityRequest option) \<Rightarrow> 'q Environment \<Rightarrow> string
     \<Rightarrow> (string \<times> EnvironmentActivityRequest) list
     \<Rightarrow> (string \<times> EnvironmentActivityRequest) list" where
  "slotActivity unmarshal e source m =
     (case map_of (om_Annotations (en_Meta e)) (activityAnnotation source) of
        None \<Rightarrow> m
      | Some value \<Rightarrow>
          (case unmarshal value of
             None \<Rightarrow> m
           | Some r \<Rightarrow>
               if ar_Source r \<noteq> source \<or> \<not> valid_activity r
                  \<or> lr_EnvironmentUID r \<noteq> env_UID e
                  \<or> ar_ExecutionGeneration r \<noteq> st_ExecutionGeneration (en_Status e)
                  \<or> lr_HoldPolicyRevision r \<noteq> HoldPolicyRevision e
               then m else mput (ar_Source r) r m))"

definition ActivityRequests ::
  "(string \<Rightarrow> EnvironmentActivityRequest option) \<Rightarrow> 'q Environment
     \<Rightarrow> EnvironmentActivityRequest list" where
  "ActivityRequests unmarshal e =
     (let m1 = fold specActivity (lsp_Activity (env_Lifecycle e)) [];
          m2 = fold (slotActivity unmarshal e) activitySources m1
      in List.map_filter (map_of m2) activitySources)"

section \<open>Patching intents\<close>

text \<open>Two maps are equal when they hold the same entries.\<close>

definition same_map :: "('k \<times> 'v) list \<Rightarrow> ('k \<times> 'v) list \<Rightarrow> bool" where
  "same_map a b \<longleftrightarrow> set a = set b"

text \<open>The closure that \<open>patchIntent\<close> hands to \<open>RetryOnConflict\<close>, then the whole function.\<close>

definition patchIntentAttempt ::
  "(NamespacedName \<Rightarrow> 'w \<Rightarrow> ('k + 'q Environment) \<times> 'w) \<Rightarrow>
   ('q Environment \<Rightarrow> 'q Environment \<Rightarrow> 'w \<Rightarrow> 'k option \<times> 'w) \<Rightarrow>
   NamespacedName \<Rightarrow> string \<Rightarrow> int \<Rightarrow> ('q Environment \<Rightarrow> 'q Environment) \<Rightarrow>
   'w \<Rightarrow> 'k lifecycle_error option \<times> 'w" where
  "patchIntentAttempt kget kpatch key uid revision mutate w =
     (case kget key w of
        (Inl k, w') \<Rightarrow> (Some (KubeError k), w')
      | (Inr e, w') \<Rightarrow>
          if env_UID e \<noteq> uid then (Some (FenceComponent ErrEnvironmentIncarnationChanged), w')
          else if HoldPolicyRevision e \<noteq> revision then (Some (FenceComponent ErrHoldPolicyChanged), w')
          else let e' = mutate e in
            if en_Spec e = en_Spec e'
               \<and> same_map (om_Annotations (en_Meta e)) (om_Annotations (en_Meta e'))
            then (None, w')
            else (case kpatch e e' w' of (r, w'') \<Rightarrow> (map_option KubeError r, w'')))"

definition patchIntent where
  "patchIntent retry kget kpatch key uid revision mutate w =
     retry (patchIntentAttempt kget kpatch key uid revision mutate) w"

definition patchActivityAttempt ::
  "(NamespacedName \<Rightarrow> 'w \<Rightarrow> ('k + 'q Environment) \<times> 'w) \<Rightarrow>
   ('q Environment \<Rightarrow> 'q Environment \<Rightarrow> 'w \<Rightarrow> 'k option \<times> 'w) \<Rightarrow>
   ExecutionFence \<Rightarrow> ('q Environment \<Rightarrow> 'q Environment) \<Rightarrow>
   'w \<Rightarrow> 'k lifecycle_error option \<times> 'w" where
  "patchActivityAttempt kget kpatch f mutate w =
     (case kget (fe_key f) w of
        (Inl k, w') \<Rightarrow> (Some (KubeError k), w')
      | (Inr e, w') \<Rightarrow>
          (case Validate f e of
             Some err \<Rightarrow> (Some err, w')
           | None \<Rightarrow>
               let e' = mutate e in
               if same_map (om_Annotations (en_Meta e)) (om_Annotations (en_Meta e'))
               then (None, w')
               else (case kpatch e e' w' of (r, w'') \<Rightarrow> (map_option KubeError r, w''))))"

definition patchActivityIntent where
  "patchActivityIntent retry kget kpatch f mutate w =
     retry (patchActivityAttempt kget kpatch f mutate) w"

section \<open>Publishing intents\<close>

definition setWake :: "EnvironmentWakeRequest \<Rightarrow> 'q Environment \<Rightarrow> 'q Environment" where
  "setWake r e = e\<lparr>en_Spec := (en_Spec e)\<lparr>sp_Lifecycle := (env_Lifecycle e)\<lparr>lsp_Wake := Some r\<rparr>\<rparr>\<rparr>"

definition wakeRequest ::
  "string \<Rightarrow> int \<Rightarrow> string \<Rightarrow> EnvironmentSuspensionReason \<Rightarrow> EnvironmentWakeRequest" where
  "wakeRequest uid revision requestID reason =
     \<lparr>lr_ID = requestID, lr_EnvironmentUID = uid, lr_HoldPolicyRevision = revision,
      wr_ExpectedSuspensionReason = reason\<rparr>"

definition RequestWakeForReason where
  "RequestWakeForReason retry kget kpatch key uid revision requestID reason w =
     (if reason \<noteq> EnvironmentSuspensionReasonIdle \<and> reason \<noteq> EnvironmentSuspensionReasonRequested
      then (Some (NotOrdinaryWakeable reason), w)
      else patchIntent retry kget kpatch key uid revision
             (setWake (wakeRequest uid revision requestID reason)) w)"

definition RequestWake where
  "RequestWake retry kget kpatch key uid revision requestID w =
     RequestWakeForReason retry kget kpatch key uid revision requestID EnvironmentSuspensionReasonIdle w"

definition suspendRequest :: "string \<Rightarrow> int \<Rightarrow> string \<Rightarrow> int \<Rightarrow> EnvironmentSuspendRequest" where
  "suspendRequest uid revision requestID sequence =
     \<lparr>lr_ID = requestID, lr_EnvironmentUID = uid, lr_HoldPolicyRevision = revision,
      sr_Sequence = sequence\<rparr>"

definition setSuspend ::
  "string \<Rightarrow> int \<Rightarrow> string \<Rightarrow> int \<Rightarrow> 'q Environment \<Rightarrow> 'q Environment" where
  "setSuspend uid revision requestID sequence e =
     (if sequence \<le> lst_LastSuspendRequestSequence (env_LStatus e)
         \<or> (case lsp_Suspend (env_Lifecycle e) of
              None \<Rightarrow> False
            | Some c \<Rightarrow> sequence \<le> sr_Sequence c \<or> lr_ID c = requestID)
      then e
      else e\<lparr>en_Spec := (en_Spec e)\<lparr>sp_Lifecycle := (env_Lifecycle e)
             \<lparr>lsp_Suspend := Some (suspendRequest uid revision requestID sequence)\<rparr>\<rparr>\<rparr>)"

definition RequestSuspend where
  "RequestSuspend retry kget kpatch key uid revision requestID sequence w =
     (if sequence < 1 then (Some SuspendSequenceNotPositive, w)
      else patchIntent retry kget kpatch key uid revision (setSuspend uid revision requestID sequence) w)"

definition activityRequest ::
  "ExecutionFence \<Rightarrow> EnvironmentActivitySource \<Rightarrow> string \<Rightarrow> EnvironmentActivityRequest" where
  "activityRequest f source requestID =
     \<lparr>lr_ID = requestID, lr_EnvironmentUID = fe_environmentUID f,
      lr_HoldPolicyRevision = fe_holdPolicyRevision f,
      ar_Source = source, ar_ExecutionGeneration = fe_executionGeneration f\<rparr>"

definition setAnnotation :: "string \<Rightarrow> string \<Rightarrow> 'q Environment \<Rightarrow> 'q Environment" where
  "setAnnotation k v e =
     e\<lparr>en_Meta := (en_Meta e)\<lparr>om_Annotations := mput k v (om_Annotations (en_Meta e))\<rparr>\<rparr>"

definition RecordActivity where
  "RecordActivity marshal retry kget kpatch f source requestID w =
     (let r = activityRequest f source requestID in
      case validateActivityRequest r of
        Some err \<Rightarrow> (Some err, w)
      | None \<Rightarrow>
          (case marshal r of
             None \<Rightarrow> (Some EncodeActivity, w)
           | Some encoded \<Rightarrow>
               patchActivityIntent retry kget kpatch f
                 (setAnnotation (activityAnnotation source) encoded) w))"

section \<open>Fence lemmas\<close>

lemma Validate_None_iff:
  "Validate f e = None \<longleftrightarrow> CaptureExecutionFence e = f \<and> 1 \<le> fe_executionGeneration f"
  by (cases f) (auto simp: Validate_def CaptureExecutionFence_def)

lemma Validate_capture:
  "Validate (CaptureExecutionFence e) e =
     (if st_ExecutionGeneration (en_Status e) < 1
      then Some (ErrExecutionFenceChanged ErrExecutionGenerationChanged) else None)"
  by (auto simp: Validate_def CaptureExecutionFence_def)

lemma Revalidate_ok:
  "Revalidate kget f w = (Inr e, w') \<Longrightarrow>
     kget (fe_key f) w = (Inr e, w') \<and> CaptureExecutionFence e = f \<and> 1 \<le> fe_executionGeneration f"
  by (auto simp: Revalidate_def Validate_None_iff split: prod.splits sum.splits option.splits)

section \<open>Retries\<close>

text \<open>
  What the code relies on of \<open>retry.RetryOnConflict\<close>: the result is that of the last run of the
  closure, and every earlier run failed. \<open>retried f w r w'\<close> says that running \<open>f\<close> from \<open>w\<close>
  some positive number of times can end with \<open>r\<close> in \<open>w'\<close>.
\<close>

inductive retried :: "('w \<Rightarrow> 'e option \<times> 'w) \<Rightarrow> 'w \<Rightarrow> 'e option \<Rightarrow> 'w \<Rightarrow> bool" for f where
  last_run: "f w = (r, w') \<Longrightarrow> retried f w r w'"
| again: "f w = (Some err, w1) \<Longrightarrow> retried f w1 r w' \<Longrightarrow> retried f w r w'"

definition retry_ok :: "(('w \<Rightarrow> 'e option \<times> 'w) \<Rightarrow> 'w \<Rightarrow> 'e option \<times> 'w) \<Rightarrow> bool" where
  "retry_ok retry \<longleftrightarrow> (\<forall>f w. retried f w (fst (retry f w)) (snd (retry f w)))"

lemma retried_success_last:
  "retried f w r w' \<Longrightarrow> r = None \<Longrightarrow> \<exists>w1. f w1 = (None, w')"
  by (induction rule: retried.induct) auto

lemma retry_success_last:
  assumes "retry_ok retry" "retry f w = (None, w')"
  shows "\<exists>w1. f w1 = (None, w')"
  using assms retried_success_last [of f w "fst (retry f w)" w'] by (auto simp: retry_ok_def)
     (metis fst_conv snd_conv)

text \<open>Five attempts, the library's default budget, as a concrete retry.\<close>

fun retry_n :: "nat \<Rightarrow> ('w \<Rightarrow> 'e option \<times> 'w) \<Rightarrow> 'w \<Rightarrow> 'e option \<times> 'w" where
  "retry_n 0 f w = f w"
| "retry_n (Suc n) f w = (case f w of (None, w') \<Rightarrow> (None, w') | (Some _, w') \<Rightarrow> retry_n n f w')"

lemma retry_n_retried: "retried f w (fst (retry_n n f w)) (snd (retry_n n f w))"
proof (induction n arbitrary: w)
  case 0
  show ?case by (rule last_run) simp
next
  case (Suc n)
  obtain r w' where f: "f w = (r, w')" by force
  show ?case
  proof (cases r)
    case None
    with f show ?thesis by (auto intro: last_run)
  next
    case (Some err)
    with f have "retried f w (fst (retry_n n f w')) (snd (retry_n n f w'))"
      using Suc.IH by (auto intro: again)
    with f Some show ?thesis by simp
  qed
qed

lemma retry_n_first: "f w = (None, w') \<Longrightarrow> retry_n n f w = (None, w')"
  by (cases n) auto

lemma retry_n_ok: "retry_ok (retry_n n)"
  by (simp add: retry_ok_def retry_n_retried)

section \<open>Intent lemmas\<close>

definition published ::
  "('q Environment \<Rightarrow> 'q Environment) \<Rightarrow>
   ('q Environment \<Rightarrow> 'q Environment \<Rightarrow> 'w \<Rightarrow> 'k option \<times> 'w) \<Rightarrow> 'q Environment \<Rightarrow> 'w \<Rightarrow> 'w \<Rightarrow> bool" where
  "published mutate kpatch e w w' \<longleftrightarrow>
     w' = w \<and> en_Spec (mutate e) = en_Spec e
       \<and> set (om_Annotations (en_Meta (mutate e))) = set (om_Annotations (en_Meta e))
     \<or> kpatch e (mutate e) w = (None, w')"

lemma patchIntentAttempt_ok:
  assumes "patchIntentAttempt kget kpatch key uid revision mutate w = (None, w')"
  shows "\<exists>e w1. kget key w = (Inr e, w1) \<and> env_UID e = uid \<and> HoldPolicyRevision e = revision
           \<and> published mutate kpatch e w1 w'"
  using assms
  by (auto simp: patchIntentAttempt_def published_def same_map_def Let_def
      split: prod.splits sum.splits if_splits)

lemma patchActivityAttempt_ok:
  assumes "patchActivityAttempt kget kpatch f mutate w = (None, w')"
  shows "\<exists>e w1. kget (fe_key f) w = (Inr e, w1) \<and> CaptureExecutionFence e = f
           \<and> (w' = w1 \<or> kpatch e (mutate e) w1 = (None, w'))"
  using assms
  by (auto simp: patchActivityAttempt_def Let_def Validate_None_iff
      split: prod.splits sum.splits if_splits option.splits)

lemma setSuspend_idem:
  "setSuspend uid revision i s (setSuspend uid revision i s e) = setSuspend uid revision i s e"
  by (auto simp: setSuspend_def suspendRequest_def split: option.splits)

lemma setSuspend_sequence_mono:
  "lsp_Suspend (env_Lifecycle e) = Some c \<Longrightarrow>
     \<exists>c'. lsp_Suspend (env_Lifecycle (setSuspend uid revision i s e)) = Some c'
        \<and> sr_Sequence c \<le> sr_Sequence c' \<and> (c' = c \<or> sr_Sequence c < sr_Sequence c')"
  by (auto simp: setSuspend_def suspendRequest_def)

section \<open>Activity lemmas\<close>

lemma map_ok_fold_spec: "map_ok m \<Longrightarrow> map_ok (fold specActivity rs m)"
  by (induction rs arbitrary: m) (auto simp: specActivity_def)

definition keyed :: "(string \<times> EnvironmentActivityRequest) list \<Rightarrow> bool" where
  "keyed m \<longleftrightarrow> (\<forall>k r. map_of m k = Some r \<longrightarrow> ar_Source r = k \<and> valid_activity r)"

lemma keyed_spec: "keyed m \<Longrightarrow> keyed (specActivity r m)"
  by (auto simp: keyed_def specActivity_def)

lemma keyed_slot: "keyed m \<Longrightarrow> keyed (slotActivity unmarshal e s m)"
  by (auto simp: keyed_def slotActivity_def split: option.splits if_splits)

lemma keyed_fold_spec: "keyed m \<Longrightarrow> keyed (fold specActivity rs m)"
  by (induction rs arbitrary: m) (auto intro: keyed_spec)

lemma keyed_fold_slot: "keyed m \<Longrightarrow> keyed (fold (slotActivity unmarshal e) ss m)"
  by (induction ss arbitrary: m) (auto intro: keyed_slot)

lemma keyed_requests:
  "keyed (fold (slotActivity unmarshal e) activitySources
            (fold specActivity (lsp_Activity (env_Lifecycle e)) []))"
  by (intro keyed_fold_slot keyed_fold_spec) (simp add: keyed_def)

lemma set_map_filter: "set (List.map_filter f xs) = {y. \<exists>x\<in>set xs. f x = Some y}"
  by (induction xs) (auto simp: List.map_filter_def)

lemma ActivityRequests_valid:
  "r \<in> set (ActivityRequests unmarshal e) \<Longrightarrow> valid_activity r"
  using keyed_requests [of unmarshal e]
  by (auto simp: ActivityRequests_def set_map_filter keyed_def)

lemma map_filter_keyed_distinct:
  assumes "distinct xs" "\<And>x r. f x = Some r \<Longrightarrow> g r = x"
  shows "distinct (map g (List.map_filter f xs))"
  using assms
proof (induction xs)
  case (Cons x xs)
  have "f x = Some r \<Longrightarrow> g r \<notin> set (map g (List.map_filter f xs))" for r
    using Cons.prems by (auto simp: set_map_filter)
  with Cons show ?case by (auto simp: List.map_filter_simps split: option.splits)
qed (simp add: List.map_filter_simps)

lemma activitySources_distinct: "distinct activitySources"
  by (simp add: activitySources_def)

lemma ActivityRequests_distinct: "distinct (map ar_Source (ActivityRequests unmarshal e))"
  unfolding ActivityRequests_def Let_def
  by (rule map_filter_keyed_distinct [OF activitySources_distinct])
     (use keyed_requests [of unmarshal e] in \<open>auto simp: keyed_def\<close>)

lemma slot_other:
  "s \<noteq> k \<Longrightarrow> map_of (slotActivity unmarshal e s m) k = map_of m k"
  by (auto simp: slotActivity_def split: option.splits)

lemma fold_slot_other:
  "k \<notin> set ss \<Longrightarrow> map_of (fold (slotActivity unmarshal e) ss m) k = map_of m k"
  by (induction ss arbitrary: m) (auto simp: slot_other)

lemma slot_final:
  assumes "k \<in> set ss" "distinct ss"
    and "\<And>m. map_of (slotActivity unmarshal e k m) k = Some r"
  shows "map_of (fold (slotActivity unmarshal e) ss m) k = Some r"
  using assms(1,2)
proof (induction ss arbitrary: m)
  case (Cons s ss)
  then show ?case by (cases "s = k") (auto simp: fold_slot_other assms(3))
qed simp

lemma slot_reads_annotation:
  assumes "CaptureExecutionFence e = f" "valid_activity (activityRequest f source i)"
    and "unmarshal v = Some (activityRequest f source i)"
  shows "map_of (slotActivity unmarshal (setAnnotation (activityAnnotation source) v e) source m) source
           = Some (activityRequest f source i)"
  using assms
  by (auto simp: slotActivity_def setAnnotation_def activityRequest_def CaptureExecutionFence_def
      HoldPolicyRevision_def)

lemma setAnnotation_observed:
  assumes "CaptureExecutionFence e = f" "valid_activity (activityRequest f source i)"
    and "unmarshal v = Some (activityRequest f source i)"
  shows "activityRequest f source i
           \<in> set (ActivityRequests unmarshal (setAnnotation (activityAnnotation source) v e))"
proof -
  let ?e = "setAnnotation (activityAnnotation source) v e"
  from assms(2) have src: "source \<in> set activitySources"
    by (auto simp: validateActivityRequest_def activityRequest_def Let_def split: if_splits)
  have "map_of (fold (slotActivity unmarshal ?e) activitySources m) source
          = Some (activityRequest f source i)" for m
    by (rule slot_final [OF src activitySources_distinct]) (use assms in \<open>rule slot_reads_annotation\<close>)
  with src show ?thesis by (auto simp: ActivityRequests_def set_map_filter)
qed

lemma validateActivityRequest_poly:
  "(validateActivityRequest r :: 'a lifecycle_error option) = None \<longleftrightarrow> valid_activity r"
  by (auto simp: validateActivityRequest_def Let_def)

section \<open>Properties\<close>

text \<open>A fence accepts an Environment exactly when capturing that Environment yields the same
  fence (same namespaced name, UID, execution generation, lifecycle epoch and hold-policy revision)
  and the captured execution generation is positive: an uninitialised execution is never accepted.\<close>

theorem execution_fence_exact:
  "(Validate f e :: 'k lifecycle_error option) = None
     \<longleftrightarrow> CaptureExecutionFence e = f \<and> 1 \<le> fe_executionGeneration f"
  by (rule Validate_None_iff)

text \<open>A suspension request that returns without error was published under its fence: the
  Environment that the last attempt read had the expected UID and hold-policy revision, the write
  is the fenced mutation of that very read (or nothing had to change), the sequence is positive,
  and an already published suspension request is kept or replaced by one of higher sequence.\<close>

theorem request_suspend_fenced:
  assumes "retry_ok retry"
    and "RequestSuspend retry kget kpatch key uid revision i s w = (None, w')"
  shows "1 \<le> s \<and> (\<exists>e w0 w1. kget key w0 = (Inr e, w1) \<and> env_UID e = uid
            \<and> HoldPolicyRevision e = revision
            \<and> published (setSuspend uid revision i s) kpatch e w1 w'
            \<and> (\<forall>c. lsp_Suspend (env_Lifecycle e) = Some c \<longrightarrow>
                 (\<exists>c'. lsp_Suspend (env_Lifecycle (setSuspend uid revision i s e)) = Some c'
                    \<and> (c' = c \<or> sr_Sequence c < sr_Sequence c'))))"
proof -
  let ?f = "patchIntentAttempt kget kpatch key uid revision (setSuspend uid revision i s)"
  from assms(2) have s: "1 \<le> s" and run: "retry ?f w = (None, w')"
    by (auto simp: RequestSuspend_def patchIntent_def split: if_splits)
  obtain w0 where "?f w0 = (None, w')"
    using retry_success_last [OF assms(1) run] by blast
  from patchIntentAttempt_ok [OF this] obtain e w1
    where "kget key w0 = (Inr e, w1)" "env_UID e = uid" "HoldPolicyRevision e = revision"
      "published (setSuspend uid revision i s) kpatch e w1 w'"
    by blast
  moreover have "lsp_Suspend (env_Lifecycle e) = Some c \<Longrightarrow>
      \<exists>c'. lsp_Suspend (env_Lifecycle (setSuspend uid revision i s e)) = Some c'
         \<and> (c' = c \<or> sr_Sequence c < sr_Sequence c')" for c
    using setSuspend_sequence_mono [of e c uid revision i s] by auto
  ultimately show ?thesis using s by (intro conjI exI) auto
qed

definition example_environment :: "nat Environment" where
  "example_environment = zero_environment
     \<lparr>en_Meta := zero_meta\<lparr>om_Name := ''env'', om_Namespace := ''ns'', om_UID := ''u1''\<rparr>,
      en_Status := zero_status\<lparr>st_ExecutionGeneration := 1\<rparr>\<rparr>"

theorem request_suspend_fenced_witness:
  "RequestSuspend (retry_n 4) (\<lambda>_ e. (Inr e, e)) (\<lambda>_ e' _. (None :: unit option, e'))
     (''ns'', ''env'') ''u1'' 0 ''stop-1'' 1 example_environment
     = (None, setSuspend ''u1'' 0 ''stop-1'' 1 example_environment)
   \<and> (\<exists>e. env_UID e = ''u1''
        \<and> published (setSuspend ''u1'' 0 ''stop-1'' 1) (\<lambda>_ e' _. (None :: unit option, e'))
             (e :: nat Environment) e (setSuspend ''u1'' 0 ''stop-1'' 1 example_environment))"
proof -
  have run: "RequestSuspend (retry_n 4) (\<lambda>_ e. (Inr e, e)) (\<lambda>_ e' _. (None :: unit option, e'))
     (''ns'', ''env'') ''u1'' 0 ''stop-1'' 1 example_environment
     = (None, setSuspend ''u1'' 0 ''stop-1'' 1 example_environment)"
    by (simp add: RequestSuspend_def patchIntent_def patchIntentAttempt_def setSuspend_def
        example_environment_def zero_defs HoldPolicyRevision_def numeral_eq_Suc same_map_def)
  from request_suspend_fenced [OF retry_n_ok run] run show ?thesis by auto
qed

text \<open>Recorded activity is observable: when recording returns without error and the encoding
  round-trips, the last attempt read an Environment whose current fence is the caller's fence, and
  the Environment it wrote reports exactly that activity request in its source's slot.\<close>

theorem record_activity_observed:
  assumes "retry_ok retry"
    and "RecordActivity marshal retry kget kpatch f source i w = (None, w')"
    and "\<And>v. marshal (activityRequest f source i) = Some v \<Longrightarrow>
               unmarshal v = Some (activityRequest f source i)"
  shows "\<exists>e w0 w1 v. kget (fe_key f) w0 = (Inr e, w1) \<and> CaptureExecutionFence e = f
           \<and> activityRequest f source i
               \<in> set (ActivityRequests unmarshal (setAnnotation (activityAnnotation source) v e))
           \<and> (w' = w1 \<or> kpatch e (setAnnotation (activityAnnotation source) v e) w1 = (None, w'))"
proof -
  from assms(2) obtain v where valid: "valid_activity (activityRequest f source i)"
    and v: "marshal (activityRequest f source i) = Some v"
    and run: "retry (patchActivityAttempt kget kpatch f
                (setAnnotation (activityAnnotation source) v)) w = (None, w')"
    by (auto simp: RecordActivity_def Let_def patchActivityIntent_def
        dest: validateActivityRequest_poly [THEN iffD1] split: option.splits)
  obtain w0 where
    "patchActivityAttempt kget kpatch f (setAnnotation (activityAnnotation source) v) w0 = (None, w')"
    using retry_success_last [OF assms(1) run] by blast
  from patchActivityAttempt_ok [OF this] obtain e w1
    where e: "kget (fe_key f) w0 = (Inr e, w1)" "CaptureExecutionFence e = f"
      "w' = w1 \<or> kpatch e (setAnnotation (activityAnnotation source) v e) w1 = (None, w')"
    by blast
  from e(2) valid assms(3) [OF v]
  have "activityRequest f source i
      \<in> set (ActivityRequests unmarshal (setAnnotation (activityAnnotation source) v e))"
    by (rule setAnnotation_observed)
  with e show ?thesis by (intro exI conjI)
qed

theorem record_activity_observed_witness:
  "\<exists>e v. CaptureExecutionFence e = CaptureExecutionFence example_environment
     \<and> activityRequest (CaptureExecutionFence example_environment) ''Run'' ''beat''
         \<in> set (ActivityRequests
              (\<lambda>_. Some (activityRequest (CaptureExecutionFence example_environment) ''Run'' ''beat''))
              (setAnnotation (activityAnnotation ''Run'') v (e :: nat Environment)))"
proof -
  let ?f = "CaptureExecutionFence example_environment"
  let ?r = "activityRequest ?f ''Run'' ''beat''"
  have valid: "(validateActivityRequest ?r :: unit lifecycle_error option) = None"
    by (simp add: validateActivityRequest_def activityRequest_def CaptureExecutionFence_def
        activitySources_def example_environment_def zero_defs HoldPolicyRevision_def
        rune_count.simps code_def)
  have run: "RecordActivity (\<lambda>_. Some ''x'') (retry_n 4) (\<lambda>_ e. (Inr e, e))
      (\<lambda>_ e' _. (None :: unit option, e')) ?f ''Run'' ''beat'' example_environment
      = (None, setAnnotation (activityAnnotation ''Run'') ''x'' example_environment)"
    using valid
    by (simp add: RecordActivity_def Let_def patchActivityIntent_def patchActivityAttempt_def
        Validate_capture setAnnotation_def same_map_def mput_def numeral_eq_Suc)
       (simp add: example_environment_def zero_defs)
  show ?thesis
    using record_activity_observed [OF retry_n_ok run, of "\<lambda>_. Some ?r"] by auto
qed

end
