(* ===== verification/Environment_Lifecycle.thy ===== *)
theory Environment_Lifecycle
  imports Lifecycle_Intent
begin

text \<open>
  The lifecycle controller (\<open>src/internal/controllers/environment_lifecycle.go\<close>), the lifecycle
  phase of the Environment reconciler (\<open>reconcileEnvironmentLifecycleGate\<close>) and the acknowledgement
  of a completed backend fence (end of \<open>reconcilePaused\<close>).

  \<open>lifecycleTransition\<close> is the in-memory computation of \<open>reconcileLifecycleIntent\<close> up to the
  status update: activity consumption, then the suspension decision. The update itself, the
  patches of the gate and the metrics sink are parameters or results.
\<close>

section \<open>Activity receipts\<close>

fun activityReceipt :: "EnvironmentActivityReceipt list \<Rightarrow> string \<Rightarrow> int \<Rightarrow> string" where
  "activityReceipt [] source gen = []"
| "activityReceipt (r # rs) source gen =
     (if rc_Source r = source \<and> rc_ExecutionGeneration r = gen then rc_RequestID r
      else activityReceipt rs source gen)"

fun setActivityReceipt ::
  "EnvironmentActivityReceipt list \<Rightarrow> string \<Rightarrow> int \<Rightarrow> string \<Rightarrow> EnvironmentActivityReceipt list" where
  "setActivityReceipt [] source gen requestID =
     [\<lparr>rc_Source = source, rc_RequestID = requestID, rc_ExecutionGeneration = gen\<rparr>]"
| "setActivityReceipt (r # rs) source gen requestID =
     (if rc_Source r = source
      then r\<lparr>rc_RequestID := requestID, rc_ExecutionGeneration := gen\<rparr> # rs
      else r # setActivityReceipt rs source gen requestID)"

section \<open>Validity of a request\<close>

definition validLifecycleRequest ::
  "'q Environment \<Rightarrow> 'a EnvironmentLifecycleRequest_scheme \<Rightarrow> bool" where
  "validLifecycleRequest e r \<longleftrightarrow>
     lr_EnvironmentUID r = env_UID e \<and> lr_HoldPolicyRevision r = HoldPolicyRevision e"

section \<open>Consuming activity\<close>

definition consumeActivity ::
  "'q Environment \<Rightarrow> int \<Rightarrow> EnvironmentActivityRequest \<Rightarrow> 'q EnvironmentStatus
     \<Rightarrow> 'q EnvironmentStatus" where
  "consumeActivity e now r st =
     (if \<not> validLifecycleRequest e r
         \<or> ar_ExecutionGeneration r \<noteq> st_ExecutionGeneration st
         \<or> activityReceipt (lst_ActivityReceipts (st_Lifecycle st)) (ar_Source r)
              (ar_ExecutionGeneration r) = lr_ID r
      then st
      else st\<lparr>st_Lifecycle := (st_Lifecycle st)\<lparr>lst_ActivityReceipts :=
                 setActivityReceipt (lst_ActivityReceipts (st_Lifecycle st)) (ar_Source r)
                   (ar_ExecutionGeneration r) (lr_ID r)\<rparr>,
              st_LastActiveAt :=
                 (case st_LastActiveAt st of
                    None \<Rightarrow> Some now
                  | Some t \<Rightarrow> if t < now then Some now else Some t)\<rparr>)"

section \<open>The suspension decision\<close>

definition held :: "'q Environment \<Rightarrow> bool" where
  "held e = (case lsp_Hold (env_Lifecycle e) of None \<Rightarrow> False | Some h \<Rightarrow> hp_Enabled h)"

definition suspendInFlight :: "EnvironmentLifecycleStatus \<Rightarrow> bool" where
  "suspendInFlight ls \<longleftrightarrow> lst_PendingSuspendRequestID ls \<noteq> []"

definition suspendNew :: "'q Environment \<Rightarrow> EnvironmentLifecycleStatus \<Rightarrow> bool" where
  "suspendNew e ls =
     (case lsp_Suspend (env_Lifecycle e) of
        None \<Rightarrow> False
      | Some s \<Rightarrow> validLifecycleRequest e s \<and> \<not> suspendInFlight ls
          \<and> lst_LastSuspendRequestSequence ls < sr_Sequence s
          \<and> lr_ID s \<noteq> lst_LastSuspendRequestID ls)"

definition acceptSuspend ::
  "'q Environment \<Rightarrow> EnvironmentLifecycleStatus \<Rightarrow> EnvironmentLifecycleStatus" where
  "acceptSuspend e ls =
     (case lsp_Suspend (env_Lifecycle e) of
        None \<Rightarrow> ls
      | Some s \<Rightarrow>
          if suspendNew e ls
          then ls\<lparr>lst_LastSuspendRequestID := lr_ID s,
                  lst_LastSuspendRequestSequence := sr_Sequence s,
                  lst_PendingSuspendRequestID := lr_ID s\<rparr>
          else ls)"

definition wakeNew :: "'q Environment \<Rightarrow> EnvironmentLifecycleStatus \<Rightarrow> bool" where
  "wakeNew e ls =
     (case lsp_Wake (env_Lifecycle e) of
        None \<Rightarrow> False
      | Some w \<Rightarrow> validLifecycleRequest e w \<and> lr_ID w \<noteq> lst_LastWakeRequestID ls)"

text \<open>\<open>fencing\<close> is the condition \<open>suspendNew || suspendInFlight\<close> of the code.\<close>

definition wakeSuspensionReason ::
  "'q Environment \<Rightarrow> bool \<Rightarrow> EnvironmentLifecycleStatus \<Rightarrow> EnvironmentSuspensionReason" where
  "wakeSuspensionReason e fencing ls =
     (if held e then EnvironmentSuspensionReasonHold
      else if fencing then EnvironmentSuspensionReasonRequested
      else lst_SuspensionReason ls)"

definition expectedReason :: "EnvironmentWakeRequest \<Rightarrow> EnvironmentSuspensionReason" where
  "expectedReason w =
     (if wr_ExpectedSuspensionReason w = [] then EnvironmentSuspensionReasonIdle
      else wr_ExpectedSuspensionReason w)"

definition wakeReasonMatches ::
  "'q Environment \<Rightarrow> bool \<Rightarrow> EnvironmentLifecycleStatus \<Rightarrow> bool" where
  "wakeReasonMatches e fencing ls =
     (case lsp_Wake (env_Lifecycle e) of
        None \<Rightarrow> False
      | Some w \<Rightarrow> expectedReason w = wakeSuspensionReason e fencing ls)"

definition backendFencePending :: "'q Environment \<Rightarrow> EnvironmentLifecycleStatus \<Rightarrow> bool" where
  "backendFencePending e ls \<longleftrightarrow>
     lst_Suspended ls \<and> st_Phase (en_Status e) \<noteq> EnvironmentPhasePaused"

definition consumeWake :: "'q Environment \<Rightarrow> bool \<Rightarrow> EnvironmentLifecycleStatus \<Rightarrow> bool" where
  "consumeWake e fencing ls \<longleftrightarrow>
     wakeNew e ls \<and>
     (held e \<or> \<not> wakeReasonMatches e fencing ls \<or> \<not> fencing \<and> \<not> backendFencePending e ls)"

definition recordWake ::
  "'q Environment \<Rightarrow> bool \<Rightarrow> EnvironmentLifecycleStatus \<Rightarrow> EnvironmentLifecycleStatus" where
  "recordWake e fencing ls =
     (case lsp_Wake (env_Lifecycle e) of
        None \<Rightarrow> ls
      | Some w \<Rightarrow> if consumeWake e fencing ls then ls\<lparr>lst_LastWakeRequestID := lr_ID w\<rparr> else ls)"

text \<open>The final switch: (suspended, reason, request ID). \<open>consumed\<close> is \<open>consumeWake\<close>, computed
  before the wake was recorded.\<close>

definition decideSuspension ::
  "'q Environment \<Rightarrow> bool \<Rightarrow> bool \<Rightarrow> EnvironmentLifecycleStatus
     \<Rightarrow> bool \<times> EnvironmentSuspensionReason \<times> string" where
  "decideSuspension e fencing consumed ls =
     (if held e then (True, EnvironmentSuspensionReasonHold, [])
      else if fencing then
        (True, EnvironmentSuspensionReasonRequested, lst_PendingSuspendRequestID ls)
      else if lst_Suspended ls \<and> lst_SuspensionReason ls = EnvironmentSuspensionReasonHold
              \<and> \<not> backendFencePending e ls then (False, [], [])
      else if consumed \<and> wakeReasonMatches e fencing ls
              \<and> lst_SuspensionReason ls \<noteq> EnvironmentSuspensionReasonHold then (False, [], [])
      else (lst_Suspended ls, lst_SuspensionReason ls, lst_SuspensionRequestID ls))"

definition applySuspension ::
  "bool \<times> EnvironmentSuspensionReason \<times> string \<Rightarrow> EnvironmentLifecycleStatus
     \<Rightarrow> EnvironmentLifecycleStatus" where
  "applySuspension d ls =
     (case d of (suspended, reason, requestID) \<Rightarrow>
        ls\<lparr>lst_Epoch := (if suspended \<and> \<not> lst_Suspended ls then wrap_i64 (lst_Epoch ls + 1)
                          else lst_Epoch ls),
           lst_Suspended := suspended, lst_SuspensionReason := reason,
           lst_SuspensionRequestID := requestID\<rparr>)"

definition lifecycleDecision ::
  "'q Environment \<Rightarrow> EnvironmentLifecycleStatus \<Rightarrow> EnvironmentLifecycleStatus" where
  "lifecycleDecision e ls =
     (let fencing = suspendNew e ls \<or> suspendInFlight ls;
          ls1 = acceptSuspend e ls;
          consumed = consumeWake e fencing ls1;
          ls2 = recordWake e fencing ls1
      in applySuspension (decideSuspension e fencing consumed ls2) ls2)"

section \<open>The reconciler step\<close>

definition lifecycleTransition ::
  "(string \<Rightarrow> EnvironmentActivityRequest option) \<Rightarrow> int \<Rightarrow> 'q Environment
     \<Rightarrow> 'q EnvironmentStatus" where
  "lifecycleTransition unmarshal now e =
     (let st1 = (en_Status e)\<lparr>st_Lifecycle := (env_LStatus e)
                  \<lparr>lst_ObservedHoldPolicyRevision := HoldPolicyRevision e\<rparr>\<rparr>;
          st2 = fold (consumeActivity e now) (ActivityRequests unmarshal e) st1
      in st2\<lparr>st_Lifecycle := lifecycleDecision e (st_Lifecycle st2)\<rparr>)"

text \<open>The early return: nothing was ever requested and nothing was ever observed.\<close>

definition lifecycleUntouched ::
  "(string \<Rightarrow> EnvironmentActivityRequest option) \<Rightarrow> 'q Environment \<Rightarrow> bool" where
  "lifecycleUntouched unmarshal e \<longleftrightarrow>
     lsp_Hold (env_Lifecycle e) = None \<and> lsp_Wake (env_Lifecycle e) = None
     \<and> lsp_Suspend (env_Lifecycle e) = None \<and> ActivityRequests unmarshal e = []
     \<and> \<not> lst_Suspended (env_LStatus e) \<and> lst_Epoch (env_LStatus e) = 0
     \<and> lst_ObservedHoldPolicyRevision (env_LStatus e) = 0
     \<and> lst_LastWakeRequestID (env_LStatus e) = [] \<and> lst_LastSuspendRequestID (env_LStatus e) = []
     \<and> lst_LastSuspendRequestSequence (env_LStatus e) = 0
     \<and> lst_PendingSuspendRequestID (env_LStatus e) = [] \<and> lst_ActivityReceipts (env_LStatus e) = []"

datatype metric = LifecycleMetric string string

definition lifecycleMetric ::
  "EnvironmentLifecycleStatus \<Rightarrow> EnvironmentLifecycleStatus \<Rightarrow> metric list" where
  "lifecycleMetric before after =
     (if \<not> lst_Suspended before \<and> lst_Suspended after
      then [LifecycleMetric ''suspend'' (lst_SuspensionReason after)]
      else if lst_Suspended before \<and> \<not> lst_Suspended after
      then [LifecycleMetric ''resume'' (lst_SuspensionReason before)]
      else [])"

text \<open>Result: error or \<open>changed\<close>, the in-memory Environment, the metrics, and the world.\<close>

definition reconcileLifecycleIntent ::
  "(string \<Rightarrow> EnvironmentActivityRequest option) \<Rightarrow>
   ('q Environment \<Rightarrow> 'w \<Rightarrow> 'k option \<times> 'w) \<Rightarrow> int \<Rightarrow> 'q Environment \<Rightarrow> 'w
     \<Rightarrow> ('k + bool) \<times> 'q Environment \<times> metric list \<times> 'w" where
  "reconcileLifecycleIntent unmarshal kupdate now e w =
     (if lifecycleUntouched unmarshal e then (Inr False, e, [], w)
      else let st = lifecycleTransition unmarshal now e; e' = e\<lparr>en_Status := st\<rparr> in
        if en_Status e = st then (Inr False, e', [], w)
        else (case kupdate e' w of
                (Some k, w') \<Rightarrow> (Inl k, e', [], w')
              | (None, w') \<Rightarrow>
                  (Inr True, e', lifecycleMetric (env_LStatus e) (st_Lifecycle st), w')))"

section \<open>The lifecycle gate\<close>

datatype 'k gate_outcome =
  GateContinue
| GateRequeue
| GateError 'k

definition migratePaused :: "'q Environment \<Rightarrow> 'q Environment" where
  "migratePaused e =
     e\<lparr>en_Spec := (en_Spec e)\<lparr>
        sp_Lifecycle := (env_Lifecycle e)\<lparr>lsp_Hold :=
          (case lsp_Hold (env_Lifecycle e) of
             None \<Rightarrow> Some \<lparr>hp_Enabled = True, hp_Revision = 1\<rparr>
           | Some h \<Rightarrow>
               if \<not> hp_Enabled h
               then Some \<lparr>hp_Enabled = True, hp_Revision = wrap_i64 (hp_Revision h + 1)\<rparr>
               else Some h)\<rparr>,
        sp_Paused := False\<rparr>\<rparr>"

definition replayedSuspend :: "'q Environment \<Rightarrow> bool" where
  "replayedSuspend e =
     (case lsp_Suspend (env_Lifecycle e) of
        None \<Rightarrow> False
      | Some s \<Rightarrow>
          (lst_PendingSuspendRequestID (env_LStatus e) \<noteq> lr_ID s
             \<or> lst_LastSuspendRequestSequence (env_LStatus e) \<noteq> sr_Sequence s)
          \<and> (sr_Sequence s \<le> lst_LastSuspendRequestSequence (env_LStatus e)
             \<or> lr_ID s = lst_LastSuspendRequestID (env_LStatus e)
             \<or> \<not> validLifecycleRequest e s))"

definition discardSuspend :: "'q Environment \<Rightarrow> 'q Environment" where
  "discardSuspend e = e\<lparr>en_Spec := (en_Spec e)\<lparr>sp_Lifecycle := (env_Lifecycle e)\<lparr>lsp_Suspend := None\<rparr>\<rparr>\<rparr>"

definition patched ::
  "('q Environment \<Rightarrow> 'q Environment \<Rightarrow> 'w \<Rightarrow> 'k option \<times> 'w) \<Rightarrow> 'q Environment \<Rightarrow> 'q Environment
     \<Rightarrow> 'w \<Rightarrow> 'k gate_outcome \<times> 'q Environment \<times> metric list \<times> 'w" where
  "patched kpatch before after w =
     (case kpatch before after w of
        (Some k, w') \<Rightarrow> (GateError k, after, [], w')
      | (None, w') \<Rightarrow> (GateRequeue, after, [], w'))"

definition reconcileEnvironmentLifecycleGate ::
  "(string \<Rightarrow> EnvironmentActivityRequest option) \<Rightarrow>
   ('q Environment \<Rightarrow> 'q Environment \<Rightarrow> 'w \<Rightarrow> 'k option \<times> 'w) \<Rightarrow>
   ('q Environment \<Rightarrow> 'w \<Rightarrow> 'k option \<times> 'w) \<Rightarrow> int \<Rightarrow> 'q Environment \<Rightarrow> 'w
     \<Rightarrow> 'k gate_outcome \<times> 'q Environment \<times> metric list \<times> 'w" where
  "reconcileEnvironmentLifecycleGate unmarshal kpatch kupdate now e w =
     (if sp_Paused (en_Spec e) then patched kpatch e (migratePaused e) w
      else if replayedSuspend e then patched kpatch e (discardSuspend e) w
      else case reconcileLifecycleIntent unmarshal kupdate now e w of
             (Inl k, e', ms, w') \<Rightarrow> (GateError k, e', ms, w')
           | (Inr changed, e', ms, w') \<Rightarrow>
               (if changed then GateRequeue else GateContinue, e', ms, w'))"

text \<open>The last step of \<open>reconcilePaused\<close> once pod and credentials are gone: acknowledge the pending
  suspension request of a Paused Environment.\<close>

definition acknowledgeSuspension :: "'q Environment \<Rightarrow> 'q Environment" where
  "acknowledgeSuspension e =
     (if st_Phase (en_Status e) = EnvironmentPhasePaused
         \<and> lst_PendingSuspendRequestID (env_LStatus e) \<noteq> []
      then e\<lparr>en_Status := (en_Status e)\<lparr>st_Lifecycle := (env_LStatus e)
             \<lparr>lst_PendingSuspendRequestID := []\<rparr>\<rparr>\<rparr>
      else e)"

section \<open>Lemmas on receipts\<close>

lemma activityReceipt_set_same:
  "activityReceipt (setActivityReceipt rs source gen i) source gen = i"
  by (induction rs) auto

lemma activityReceipt_set_other:
  "source' \<noteq> source \<Longrightarrow>
     activityReceipt (setActivityReceipt rs source gen i) source' gen' = activityReceipt rs source' gen'"
  by (induction rs) auto

section \<open>Lemmas on activity consumption\<close>

definition receipted :: "'q Environment \<Rightarrow> EnvironmentActivityRequest \<Rightarrow> 'q EnvironmentStatus \<Rightarrow> bool" where
  "receipted e r st \<longleftrightarrow>
     \<not> validLifecycleRequest e r \<or> ar_ExecutionGeneration r \<noteq> st_ExecutionGeneration st
     \<or> activityReceipt (lst_ActivityReceipts (st_Lifecycle st)) (ar_Source r)
          (ar_ExecutionGeneration r) = lr_ID r"

lemma consumeActivity_receipted: "receipted e r st \<Longrightarrow> consumeActivity e now r st = st"
  by (auto simp: receipted_def consumeActivity_def)

lemma consumeActivity_receipts: "receipted e r (consumeActivity e now r st)"
  by (auto simp: receipted_def consumeActivity_def activityReceipt_set_same)

lemma consumeActivity_keeps_receipted:
  "ar_Source r' \<noteq> ar_Source r \<Longrightarrow> receipted e r' st \<Longrightarrow> receipted e r' (consumeActivity e now r st)"
  by (auto simp: receipted_def consumeActivity_def activityReceipt_set_other)

lemma fold_consume_keeps:
  "ar_Source r' \<notin> ar_Source ` set rs \<Longrightarrow> receipted e r' st
     \<Longrightarrow> receipted e r' (fold (consumeActivity e now) rs st)"
  by (induction rs arbitrary: st) (auto intro: consumeActivity_keeps_receipted)

lemma fold_consume_receipts:
  "distinct (map ar_Source rs) \<Longrightarrow> r \<in> set rs \<Longrightarrow> receipted e r (fold (consumeActivity e now) rs st)"
proof (induction rs arbitrary: st)
  case (Cons r' rs)
  show ?case
  proof (cases "r = r'")
    case True
    with Cons.prems have "ar_Source r \<notin> ar_Source ` set rs" by auto
    with True show ?thesis by (simp add: fold_consume_keeps consumeActivity_receipts)
  next
    case False
    with Cons show ?thesis by simp
  qed
qed simp

lemma fold_consume_id:
  "(\<And>r. r \<in> set rs \<Longrightarrow> receipted e r st) \<Longrightarrow> fold (consumeActivity e now) rs st = st"
  by (induction rs) (auto simp: consumeActivity_receipted)

text \<open>Activity changes receipts and the last-active time, nothing else.\<close>

definition activity_frame :: "'q EnvironmentStatus \<Rightarrow> 'q EnvironmentStatus \<Rightarrow> bool" where
  "activity_frame st st' \<longleftrightarrow>
     (\<exists>rs t. st' = st\<lparr>st_Lifecycle := (st_Lifecycle st)\<lparr>lst_ActivityReceipts := rs\<rparr>,
                      st_LastActiveAt := t\<rparr>)"

lemma activity_frame_refl: "activity_frame st st"
  unfolding activity_frame_def
  by (rule exI [of _ "lst_ActivityReceipts (st_Lifecycle st)"], rule exI [of _ "st_LastActiveAt st"])
     simp

lemma activity_frame_trans: "activity_frame a b \<Longrightarrow> activity_frame b c \<Longrightarrow> activity_frame a c"
  by (force simp: activity_frame_def)

lemma consume_frame: "activity_frame st (consumeActivity e now r st)"
proof (cases "receipted e r st")
  case True
  then show ?thesis by (simp add: consumeActivity_receipted activity_frame_refl)
next
  case False
  then show ?thesis unfolding activity_frame_def receipted_def consumeActivity_def by auto
qed

lemma fold_consume_frame: "activity_frame st (fold (consumeActivity e now) rs st)"
proof (induction rs arbitrary: st)
  case (Cons r rs)
  from activity_frame_trans [OF consume_frame Cons.IH] show ?case by simp
qed (simp add: activity_frame_refl)

lemma consume_env_cong:
  "en_Meta e' = en_Meta e \<Longrightarrow> en_Spec e' = en_Spec e \<Longrightarrow>
     consumeActivity e' now r st = consumeActivity e now r st"
  by (simp add: consumeActivity_def validLifecycleRequest_def HoldPolicyRevision_def)

lemma ActivityRequests_cong:
  "en_Meta e' = en_Meta e \<Longrightarrow> en_Spec e' = en_Spec e \<Longrightarrow>
     st_ExecutionGeneration (en_Status e') = st_ExecutionGeneration (en_Status e) \<Longrightarrow>
     ActivityRequests unmarshal e' = ActivityRequests unmarshal e"
proof -
  assume eq: "en_Meta e' = en_Meta e" "en_Spec e' = en_Spec e"
    "st_ExecutionGeneration (en_Status e') = st_ExecutionGeneration (en_Status e)"
  then have "slotActivity unmarshal e' = slotActivity unmarshal e"
    by (intro ext) (simp add: slotActivity_def HoldPolicyRevision_def split: option.splits)
  with eq show ?thesis by (simp add: ActivityRequests_def)
qed

section \<open>Lemmas on the decision\<close>

lemmas decision_defs = lifecycleDecision_def Let_def applySuspension_def decideSuspension_def
  recordWake_def acceptSuspend_def

lemma decision_receipts [simp]:
  "lst_ActivityReceipts (lifecycleDecision e ls) = lst_ActivityReceipts ls"
  by (simp add: decision_defs split: option.splits)

lemma decision_observed [simp]:
  "lst_ObservedHoldPolicyRevision (lifecycleDecision e ls) = lst_ObservedHoldPolicyRevision ls"
  by (simp add: decision_defs split: option.splits)

lemma accept_fields [simp]:
  "lst_Suspended (acceptSuspend e ls) = lst_Suspended ls"
  "lst_SuspensionReason (acceptSuspend e ls) = lst_SuspensionReason ls"
  "lst_SuspensionRequestID (acceptSuspend e ls) = lst_SuspensionRequestID ls"
  "lst_Epoch (acceptSuspend e ls) = lst_Epoch ls"
  "lst_LastWakeRequestID (acceptSuspend e ls) = lst_LastWakeRequestID ls"
  by (simp_all add: acceptSuspend_def split: option.splits)

lemma record_fields [simp]:
  "lst_Suspended (recordWake e c ls) = lst_Suspended ls"
  "lst_SuspensionReason (recordWake e c ls) = lst_SuspensionReason ls"
  "lst_SuspensionRequestID (recordWake e c ls) = lst_SuspensionRequestID ls"
  "lst_Epoch (recordWake e c ls) = lst_Epoch ls"
  "lst_PendingSuspendRequestID (recordWake e c ls) = lst_PendingSuspendRequestID ls"
  "lst_LastSuspendRequestID (recordWake e c ls) = lst_LastSuspendRequestID ls"
  "lst_LastSuspendRequestSequence (recordWake e c ls) = lst_LastSuspendRequestSequence ls"
  by (simp_all add: recordWake_def split: option.splits)

lemma backendFencePending_fields [simp]:
  "backendFencePending e (acceptSuspend e' ls) = backendFencePending e ls"
  "backendFencePending e (recordWake e' c ls) = backendFencePending e ls"
  by (simp_all add: backendFencePending_def)

lemma wakeReasonMatches_fields [simp]:
  "wakeReasonMatches e f (acceptSuspend e' ls) = wakeReasonMatches e f ls"
  "wakeReasonMatches e f (recordWake e' c ls) = wakeReasonMatches e f ls"
  by (simp_all add: wakeReasonMatches_def wakeSuspensionReason_def split: option.splits)

lemma consumeWake_accept [simp]: "consumeWake e f (acceptSuspend e' ls) = consumeWake e f ls"
  by (simp add: consumeWake_def wakeNew_def split: option.splits)

text \<open>The decision in one equation: which suspension state results.\<close>

abbreviation fencing :: "'q Environment \<Rightarrow> EnvironmentLifecycleStatus \<Rightarrow> bool" where
  "fencing e ls \<equiv> suspendNew e ls \<or> suspendInFlight ls"

definition releases :: "'q Environment \<Rightarrow> EnvironmentLifecycleStatus \<Rightarrow> bool" where
  "releases e ls \<longleftrightarrow> \<not> held e \<and> \<not> fencing e ls \<and>
     (lst_Suspended ls \<and> lst_SuspensionReason ls = EnvironmentSuspensionReasonHold
        \<and> \<not> backendFencePending e ls
      \<or> consumeWake e False ls \<and> wakeReasonMatches e False ls
        \<and> lst_SuspensionReason ls \<noteq> EnvironmentSuspensionReasonHold)"

lemma decision_suspended:
  "lst_Suspended (lifecycleDecision e ls) \<longleftrightarrow>
     held e \<or> fencing e ls \<or> lst_Suspended ls \<and> \<not> releases e ls"
  by (auto simp: lifecycleDecision_def Let_def applySuspension_def decideSuspension_def releases_def)

lemma decision_epoch:
  "lst_Epoch (lifecycleDecision e ls) =
     (if lst_Suspended (lifecycleDecision e ls) \<and> \<not> lst_Suspended ls
      then wrap_i64 (lst_Epoch ls + 1) else lst_Epoch ls)"
  by (auto simp: lifecycleDecision_def Let_def applySuspension_def split: prod.splits)

lemma decision_reason:
  "lst_SuspensionReason (lifecycleDecision e ls) =
     (if held e then EnvironmentSuspensionReasonHold
      else if fencing e ls then EnvironmentSuspensionReasonRequested
      else if releases e ls then [] else lst_SuspensionReason ls)"
  by (auto simp: lifecycleDecision_def Let_def applySuspension_def decideSuspension_def releases_def)

lemma decision_requestID:
  "lst_SuspensionRequestID (lifecycleDecision e ls) =
     (if held e then []
      else if fencing e ls then lst_PendingSuspendRequestID (acceptSuspend e ls)
      else if releases e ls then [] else lst_SuspensionRequestID ls)"
  by (auto simp: lifecycleDecision_def Let_def applySuspension_def decideSuspension_def releases_def)

lemma decision_pending:
  "lst_PendingSuspendRequestID (lifecycleDecision e ls) = lst_PendingSuspendRequestID (acceptSuspend e ls)"
  by (simp add: lifecycleDecision_def Let_def applySuspension_def split: prod.splits)

lemma decision_lastSuspend:
  "lst_LastSuspendRequestID (lifecycleDecision e ls) = lst_LastSuspendRequestID (acceptSuspend e ls)"
  "lst_LastSuspendRequestSequence (lifecycleDecision e ls)
     = lst_LastSuspendRequestSequence (acceptSuspend e ls)"
  by (simp_all add: lifecycleDecision_def Let_def applySuspension_def split: prod.splits)

lemma decision_lastWake:
  "lst_LastWakeRequestID (lifecycleDecision e ls) =
     (case lsp_Wake (env_Lifecycle e) of
        None \<Rightarrow> lst_LastWakeRequestID ls
      | Some w \<Rightarrow> if consumeWake e (fencing e ls) ls then lr_ID w else lst_LastWakeRequestID ls)"
  by (simp add: lifecycleDecision_def Let_def applySuspension_def recordWake_def
      split: prod.splits option.splits)

lemmas decision_fields = decision_suspended decision_epoch decision_reason decision_requestID
  decision_pending decision_lastSuspend decision_lastWake

lemma sequence_mono:
  "lst_LastSuspendRequestSequence ls \<le> lst_LastSuspendRequestSequence (acceptSuspend e ls)"
  by (auto simp: acceptSuspend_def suspendNew_def split: option.splits)

section \<open>The decision is stable\<close>

definition suspendNamed :: "'q Environment \<Rightarrow> bool" where
  "suspendNamed e \<longleftrightarrow> (\<forall>s. lsp_Suspend (env_Lifecycle e) = Some s \<longrightarrow> lr_ID s \<noteq> [])"

lemma expectedReason_nonempty [simp]: "expectedReason w \<noteq> []"
  by (simp add: expectedReason_def)

lemma suspendNew_after: "suspendNamed e \<Longrightarrow> \<not> suspendNew e (lifecycleDecision e ls)"
  by (auto simp: suspendNew_def suspendInFlight_def suspendNamed_def acceptSuspend_def
      decision_pending decision_lastSuspend split: option.splits)

lemma suspendInFlight_after:
  "suspendNamed e \<Longrightarrow> suspendInFlight (lifecycleDecision e ls) \<longleftrightarrow> fencing e ls"
  by (auto simp: suspendNew_def suspendInFlight_def suspendNamed_def acceptSuspend_def
      decision_pending split: option.splits)

lemma accept_after: "suspendNamed e \<Longrightarrow> acceptSuspend e (lifecycleDecision e ls) = lifecycleDecision e ls"
  using suspendNew_after [of e ls] by (simp add: acceptSuspend_def split: option.splits)

lemma wakeNew_after:
  "wakeNew e (lifecycleDecision e ls) \<longleftrightarrow> wakeNew e ls \<and> \<not> consumeWake e (fencing e ls) ls"
  by (auto simp: wakeNew_def decision_lastWake consumeWake_def split: option.splits)

lemma consumeWake_after: "\<not> consumeWake e (fencing e ls) (lifecycleDecision e ls)"
proof
  assume a: "consumeWake e (fencing e ls) (lifecycleDecision e ls)"
  then have "wakeNew e ls" and nc: "\<not> consumeWake e (fencing e ls) ls"
    by (auto simp: consumeWake_def wakeNew_after)
  then have h: "\<not> held e" and m: "wakeReasonMatches e (fencing e ls) ls"
    and p: "fencing e ls \<or> backendFencePending e ls"
    by (auto simp: consumeWake_def)
  from p nc have nr: "\<not> releases e ls" by (auto simp: releases_def)
  have "wakeReasonMatches e (fencing e ls) (lifecycleDecision e ls)"
    using m h nr by (auto simp: wakeReasonMatches_def wakeSuspensionReason_def decision_reason
        split: option.splits)
  moreover have "fencing e ls \<or> backendFencePending e (lifecycleDecision e ls)"
    using p nr by (auto simp: backendFencePending_def decision_suspended)
  ultimately show False using a h by (auto simp: consumeWake_def)
qed

lemma releases_after: "suspendNamed e \<Longrightarrow> \<not> releases e (lifecycleDecision e ls)"
proof
  assume n: "suspendNamed e" and r: "releases e (lifecycleDecision e ls)"
  then have nf: "\<not> fencing e ls" and h: "\<not> held e"
    using suspendInFlight_after [OF n] by (auto simp: releases_def)
  with consumeWake_after [of e ls] r
  have "lst_Suspended (lifecycleDecision e ls)"
    "lst_SuspensionReason (lifecycleDecision e ls) = EnvironmentSuspensionReasonHold"
    "\<not> backendFencePending e (lifecycleDecision e ls)"
    by (auto simp: releases_def)
  then show False
    using nf h
    by (auto simp: decision_suspended decision_reason releases_def backendFencePending_def
        split: if_splits)
qed

lemma decision_idem:
  assumes n: "suspendNamed e"
  shows "lifecycleDecision e (lifecycleDecision e ls) = lifecycleDecision e ls" (is "?DD = ?D")
proof (rule EnvironmentLifecycleStatus.equality)
  note after = suspendNew_after [OF n] suspendInFlight_after [OF n] accept_after [OF n]
    releases_after [OF n]
  show "lst_Suspended ?DD = lst_Suspended ?D"
    by (auto simp: decision_suspended [of e ?D] after) (auto simp: decision_suspended)
  then show "lst_Epoch ?DD = lst_Epoch ?D"
    by (simp add: decision_epoch [of e ?D])
  show "lst_SuspensionReason ?DD = lst_SuspensionReason ?D"
    by (simp add: decision_reason [of e ?D] after) (simp add: decision_reason)
  show "lst_SuspensionRequestID ?DD = lst_SuspensionRequestID ?D"
    by (simp add: decision_requestID [of e ?D] after)
       (simp add: decision_requestID decision_pending)
  show "lst_PendingSuspendRequestID ?DD = lst_PendingSuspendRequestID ?D"
    by (simp add: decision_pending [of e ?D] after)
  show "lst_LastSuspendRequestID ?DD = lst_LastSuspendRequestID ?D"
    by (simp add: decision_lastSuspend [of e ?D] after)
  show "lst_LastSuspendRequestSequence ?DD = lst_LastSuspendRequestSequence ?D"
    by (simp add: decision_lastSuspend [of e ?D] after)
  show "lst_LastWakeRequestID ?DD = lst_LastWakeRequestID ?D"
    using consumeWake_after [of e ls] by (simp add: decision_lastWake [of e ?D] after split: option.splits)
qed simp_all

section \<open>The transition\<close>

lemma valid_env_cong:
  "en_Meta e' = en_Meta e \<Longrightarrow> en_Spec e' = en_Spec e \<Longrightarrow>
     validLifecycleRequest e' r = validLifecycleRequest e r"
  by (simp add: validLifecycleRequest_def HoldPolicyRevision_def)

lemma decision_env_cong:
  assumes "en_Meta e' = en_Meta e" "en_Spec e' = en_Spec e"
    and "st_Phase (en_Status e') = st_Phase (en_Status e)"
  shows "lifecycleDecision e' ls = lifecycleDecision e ls"
proof -
  have spec: "env_Lifecycle e' = env_Lifecycle e" by (simp add: assms)
  have h: "held e' = held e" by (simp add: held_def spec)
  note v = valid_env_cong [OF assms(1,2)]
  have new: "suspendNew e' = suspendNew e"
    by (rule ext) (simp only: suspendNew_def spec v)
  have acc: "acceptSuspend e' = acceptSuspend e"
    by (rule ext) (simp only: acceptSuspend_def spec new)
  have pend: "backendFencePending e' = backendFencePending e"
    by (rule ext) (simp only: backendFencePending_def assms)
  have match: "wakeReasonMatches e' = wakeReasonMatches e"
    by (intro ext) (simp only: wakeReasonMatches_def wakeSuspensionReason_def spec h)
  have wake: "consumeWake e' = consumeWake e"
    by (intro ext) (simp only: consumeWake_def wakeNew_def spec v h match pend)
  have rw: "recordWake e' = recordWake e"
    by (intro ext) (simp only: recordWake_def spec wake)
  have decide: "decideSuspension e' = decideSuspension e"
    by (intro ext) (simp only: decideSuspension_def h pend match)
  show ?thesis by (simp only: lifecycleDecision_def new acc wake rw decide)
qed

text \<open>What activity consumption hands to the decision, and what the transition keeps.\<close>

lemma transition_frame:
  obtains rs t where
    "lifecycleTransition unmarshal now e = (en_Status e)
       \<lparr>st_LastActiveAt := t,
        st_Lifecycle := lifecycleDecision e ((env_LStatus e)
          \<lparr>lst_ObservedHoldPolicyRevision := HoldPolicyRevision e, lst_ActivityReceipts := rs\<rparr>)\<rparr>"
proof -
  let ?st1 = "(en_Status e)\<lparr>st_Lifecycle := (env_LStatus e)
                  \<lparr>lst_ObservedHoldPolicyRevision := HoldPolicyRevision e\<rparr>\<rparr>"
  obtain rs t where "fold (consumeActivity e now) (ActivityRequests unmarshal e) ?st1 =
      ?st1\<lparr>st_Lifecycle := (st_Lifecycle ?st1)\<lparr>lst_ActivityReceipts := rs\<rparr>, st_LastActiveAt := t\<rparr>"
    using fold_consume_frame [of ?st1 e now "ActivityRequests unmarshal e"]
    unfolding activity_frame_def by blast
  then show ?thesis by (intro that) (simp add: lifecycleTransition_def Let_def)
qed

lemma transition_keeps [simp]:
  "st_Phase (lifecycleTransition unmarshal now e) = st_Phase (en_Status e)"
  "st_ExecutionGeneration (lifecycleTransition unmarshal now e) = st_ExecutionGeneration (en_Status e)"
  "st_Recovery (lifecycleTransition unmarshal now e) = st_Recovery (en_Status e)"
  "st_Provisioning (lifecycleTransition unmarshal now e) = st_Provisioning (en_Status e)"
  by (rule transition_frame [of unmarshal now e], simp)+

text \<open>The decision reads neither the receipts nor the observed revision.\<close>

lemma decision_irrelevant:
  fixes ls :: EnvironmentLifecycleStatus and v :: int and rs :: "EnvironmentActivityReceipt list"
  defines "ls' \<equiv> ls\<lparr>lst_ObservedHoldPolicyRevision := v, lst_ActivityReceipts := rs\<rparr>"
  shows "suspendNew e ls' = suspendNew e ls" "suspendInFlight ls' = suspendInFlight ls"
    "releases e ls' = releases e ls" "backendFencePending e ls' = backendFencePending e ls"
    "lst_LastSuspendRequestSequence (acceptSuspend e ls') = lst_LastSuspendRequestSequence (acceptSuspend e ls)"
    "lst_PendingSuspendRequestID (acceptSuspend e ls') = lst_PendingSuspendRequestID (acceptSuspend e ls)"
  by (simp_all add: ls'_def suspendNew_def suspendInFlight_def releases_def backendFencePending_def
      consumeWake_def wakeNew_def wakeReasonMatches_def wakeSuspensionReason_def acceptSuspend_def
      split: option.splits)

lemma transition_suspended:
  "lst_Suspended (st_Lifecycle (lifecycleTransition unmarshal now e)) \<longleftrightarrow>
     held e \<or> fencing e (env_LStatus e) \<or> lst_Suspended (env_LStatus e) \<and> \<not> releases e (env_LStatus e)"
  by (rule transition_frame [of unmarshal now e]) (simp add: decision_suspended decision_irrelevant)

lemma transition_reason:
  "lst_SuspensionReason (st_Lifecycle (lifecycleTransition unmarshal now e)) =
     (if held e then EnvironmentSuspensionReasonHold
      else if fencing e (env_LStatus e) then EnvironmentSuspensionReasonRequested
      else if releases e (env_LStatus e) then [] else lst_SuspensionReason (env_LStatus e))"
  by (rule transition_frame [of unmarshal now e]) (simp add: decision_reason decision_irrelevant)

lemma transition_epoch:
  "lst_Epoch (st_Lifecycle (lifecycleTransition unmarshal now e)) =
     (if lst_Suspended (st_Lifecycle (lifecycleTransition unmarshal now e))
         \<and> \<not> lst_Suspended (env_LStatus e)
      then wrap_i64 (lst_Epoch (env_LStatus e) + 1) else lst_Epoch (env_LStatus e))"
  by (rule transition_frame [of unmarshal now e]) (simp add: decision_epoch)

lemma transition_sequence:
  "lst_LastSuspendRequestSequence (env_LStatus e)
     \<le> lst_LastSuspendRequestSequence (st_Lifecycle (lifecycleTransition unmarshal now e))"
  by (rule transition_frame [of unmarshal now e])
     (simp add: decision_lastSuspend decision_irrelevant sequence_mono)

lemma transition_pending:
  "lst_PendingSuspendRequestID (st_Lifecycle (lifecycleTransition unmarshal now e))
     = lst_PendingSuspendRequestID (acceptSuspend e (env_LStatus e))"
  by (rule transition_frame [of unmarshal now e]) (simp add: decision_pending decision_irrelevant)

lemma transition_not_new:
  assumes "suspendNamed e"
  shows "\<not> suspendNew e (st_Lifecycle (lifecycleTransition unmarshal now e))"
  by (rule transition_frame [of unmarshal now e]) (simp add: suspendNew_after assms)

lemma releases_paused:
  assumes "releases e ls" "lst_Suspended ls"
  shows "st_Phase (en_Status e) = EnvironmentPhasePaused"
  using assms by (auto simp: releases_def backendFencePending_def consumeWake_def)

lemma transition_idem:
  assumes n: "suspendNamed e"
  shows "lifecycleTransition unmarshal now' (e\<lparr>en_Status := lifecycleTransition unmarshal now e\<rparr>)
           = lifecycleTransition unmarshal now e"
proof -
  define rs where "rs = ActivityRequests unmarshal e"
  define st1 where "st1 = (en_Status e)\<lparr>st_Lifecycle := (env_LStatus e)
                  \<lparr>lst_ObservedHoldPolicyRevision := HoldPolicyRevision e\<rparr>\<rparr>"
  define st2 where "st2 = fold (consumeActivity e now) rs st1"
  define T where "T = st2\<lparr>st_Lifecycle := lifecycleDecision e (st_Lifecycle st2)\<rparr>"
  define e' where "e' = e\<lparr>en_Status := T\<rparr>"
  have T: "lifecycleTransition unmarshal now e = T"
    by (simp add: lifecycleTransition_def Let_def T_def st2_def st1_def rs_def)
  have st: "st_ExecutionGeneration st2 = st_ExecutionGeneration (en_Status e)"
    "st_Phase st2 = st_Phase (en_Status e)"
    "lst_ObservedHoldPolicyRevision (st_Lifecycle st2) = HoldPolicyRevision e"
    using fold_consume_frame [of st1 e now rs] unfolding st2_def [symmetric]
    by (auto simp: activity_frame_def st1_def)
  have acts: "ActivityRequests unmarshal e' = rs"
    unfolding rs_def by (rule ActivityRequests_cong) (simp_all add: e'_def T_def st)
  have hold: "HoldPolicyRevision e' = HoldPolicyRevision e"
    by (simp add: HoldPolicyRevision_def e'_def)
  have start: "T\<lparr>st_Lifecycle := (st_Lifecycle T)\<lparr>lst_ObservedHoldPolicyRevision := HoldPolicyRevision e\<rparr>\<rparr> = T"
    unfolding st(3) [symmetric] by (simp add: T_def)
  have rec: "receipted e r T" if "r \<in> set rs" for r
    using fold_consume_receipts [of rs r e now st1] that ActivityRequests_distinct [of unmarshal e]
    by (simp add: receipted_def T_def st2_def rs_def)
  have consume: "consumeActivity e' now' = consumeActivity e now'"
    by (intro ext consume_env_cong) (simp_all add: e'_def)
  have "lifecycleTransition unmarshal now' e'
          = T\<lparr>st_Lifecycle := lifecycleDecision e' (st_Lifecycle T)\<rparr>"
    using fold_consume_id [of rs e T now', OF rec] start
    by (simp add: lifecycleTransition_def acts hold consume Let_def) (simp add: e'_def)
  also have "lifecycleDecision e' (st_Lifecycle T) = st_Lifecycle T"
    using decision_env_cong [of e' e "st_Lifecycle T"] decision_idem [OF n]
    by (simp add: T_def e'_def st)
  finally show ?thesis by (simp add: T e'_def)
qed

section \<open>Runs of the lifecycle state machine\<close>

text \<open>
  What happens to one Environment between reads of the lifecycle controller: a user or a service
  replaces the spec or the annotations, the reconciler moves the phase and the execution
  generation, the lifecycle step runs, or a finished backend fence is acknowledged.
\<close>

datatype lifecycle_event =
  SetSpec EnvironmentSpec
| SetAnnotations "(string \<times> string) list"
| SetPhase string int
| Reconcile int
| Acknowledge

fun lifecycleStep ::
  "(string \<Rightarrow> EnvironmentActivityRequest option) \<Rightarrow> 'q Environment \<Rightarrow> lifecycle_event
     \<Rightarrow> 'q Environment" where
  "lifecycleStep unmarshal e (SetSpec sp) = e\<lparr>en_Spec := sp\<rparr>"
| "lifecycleStep unmarshal e (SetAnnotations as) = e\<lparr>en_Meta := (en_Meta e)\<lparr>om_Annotations := as\<rparr>\<rparr>"
| "lifecycleStep unmarshal e (SetPhase ph gen) =
     e\<lparr>en_Status := (en_Status e)\<lparr>st_Phase := ph, st_ExecutionGeneration := gen\<rparr>\<rparr>"
| "lifecycleStep unmarshal e (Reconcile now) = e\<lparr>en_Status := lifecycleTransition unmarshal now e\<rparr>"
| "lifecycleStep unmarshal e Acknowledge = acknowledgeSuspension e"

text \<open>A pending suspension request keeps the Environment suspended, and it is the last accepted.\<close>

definition pendingSuspended :: "'q Environment \<Rightarrow> bool" where
  "pendingSuspended e \<longleftrightarrow>
     lst_PendingSuspendRequestID (env_LStatus e) \<noteq> [] \<longrightarrow>
       lst_Suspended (env_LStatus e)
       \<and> lst_PendingSuspendRequestID (env_LStatus e) = lst_LastSuspendRequestID (env_LStatus e)"

lemma transition_lastSuspendID:
  "lst_LastSuspendRequestID (st_Lifecycle (lifecycleTransition unmarshal now e))
     = lst_LastSuspendRequestID (acceptSuspend e (env_LStatus e))"
  by (rule transition_frame [of unmarshal now e])
     (simp add: decision_lastSuspend acceptSuspend_def suspendNew_def suspendInFlight_def
        split: option.splits)

lemma transition_pendingSuspended:
  "pendingSuspended e \<Longrightarrow> pendingSuspended (e\<lparr>en_Status := lifecycleTransition unmarshal now e\<rparr>)"
  by (auto simp: pendingSuspended_def transition_pending transition_suspended
      transition_lastSuspendID acceptSuspend_def suspendInFlight_def split: option.splits if_splits)

lemma lifecycleStep_pendingSuspended:
  "pendingSuspended e \<Longrightarrow> pendingSuspended (lifecycleStep unmarshal e ev)"
proof (cases ev)
  case (Reconcile now)
  then show "pendingSuspended e \<Longrightarrow> ?thesis" by (simp add: transition_pendingSuspended)
qed (auto simp: pendingSuspended_def acknowledgeSuspension_def)

lemma lifecycleStep_sequence:
  "lst_LastSuspendRequestSequence (env_LStatus e)
     \<le> lst_LastSuspendRequestSequence (env_LStatus (lifecycleStep unmarshal e ev))"
  by (cases ev) (auto simp: acknowledgeSuspension_def transition_sequence)

interpretation lifecycle: monotone_system "lifecycleStep unmarshal" pendingSuspended
  "\<lambda>e. lst_LastSuspendRequestSequence (env_LStatus e)" for unmarshal
  by unfold_locales (auto simp: lifecycleStep_pendingSuspended lifecycleStep_sequence)

section \<open>Properties\<close>

text \<open>(C3) An Environment leaves suspension only when the backend fence is complete and nobody asks for
  the suspension: its phase is Paused, it is not held, no suspension request is new or in flight,
  and either the suspension was a hold (now lifted) or an unconsumed wake request of this
  Environment and hold-policy revision expects exactly the current suspension reason.\<close>

theorem resume_only_after_fence:
  assumes "lst_Suspended (env_LStatus e)"
    and "\<not> lst_Suspended (st_Lifecycle (lifecycleTransition unmarshal now e))"
  shows "st_Phase (en_Status e) = EnvironmentPhasePaused \<and> \<not> held e
    \<and> lst_PendingSuspendRequestID (env_LStatus e) = [] \<and> \<not> suspendNew e (env_LStatus e)
    \<and> (lst_SuspensionReason (env_LStatus e) = EnvironmentSuspensionReasonHold
       \<or> (\<exists>w. lsp_Wake (env_Lifecycle e) = Some w \<and> validLifecycleRequest e w
            \<and> lr_ID w \<noteq> lst_LastWakeRequestID (env_LStatus e)
            \<and> expectedReason w = lst_SuspensionReason (env_LStatus e)))"
proof -
  from assms have r: "releases e (env_LStatus e)" by (auto simp: transition_suspended)
  moreover from r assms(1) have "st_Phase (en_Status e) = EnvironmentPhasePaused"
    by (rule releases_paused)
  ultimately show ?thesis
    by (auto simp: releases_def suspendInFlight_def consumeWake_def wakeNew_def wakeReasonMatches_def
        wakeSuspensionReason_def split: option.splits)
qed

definition suspended_example :: "nat Environment" where
  "suspended_example = example_environment
     \<lparr>en_Status := zero_status\<lparr>st_ExecutionGeneration := 1, st_Phase := EnvironmentPhasePaused,
        st_Lifecycle := zero_lifecycle_status\<lparr>lst_Suspended := True,
          lst_SuspensionReason := EnvironmentSuspensionReasonHold\<rparr>\<rparr>\<rparr>"

theorem resume_only_after_fence_witness:
  "lst_Suspended (env_LStatus suspended_example)
   \<and> \<not> lst_Suspended (st_Lifecycle (lifecycleTransition (\<lambda>_. None) 7 suspended_example))
   \<and> \<not> held suspended_example"
proof -
  have a: "lst_Suspended (env_LStatus suspended_example)"
    by (simp add: suspended_example_def)
  have b: "\<not> lst_Suspended (st_Lifecycle (lifecycleTransition (\<lambda>_. None) 7 suspended_example))"
    by (simp add: transition_suspended suspended_example_def example_environment_def zero_defs
        held_def suspendNew_def suspendInFlight_def releases_def backendFencePending_def)
  from resume_only_after_fence [OF a b] a b show ?thesis by blast
qed

text \<open>(C15) A hold dominates: while the hold policy is enabled every lifecycle step leaves the
  Environment suspended with reason Hold, whatever suspension and wake requests are published,
  and the lifecycle epoch advances (by exactly one, at int64) precisely on the steps that enter
  suspension.\<close>

theorem hold_dominates_and_epoch_counts:
  "(held e \<longrightarrow> lst_Suspended (st_Lifecycle (lifecycleTransition unmarshal now e))
      \<and> lst_SuspensionReason (st_Lifecycle (lifecycleTransition unmarshal now e))
          = EnvironmentSuspensionReasonHold)
   \<and> lst_Epoch (st_Lifecycle (lifecycleTransition unmarshal now e)) =
       (if lst_Suspended (st_Lifecycle (lifecycleTransition unmarshal now e))
           \<and> \<not> lst_Suspended (env_LStatus e)
        then wrap_i64 (lst_Epoch (env_LStatus e) + 1) else lst_Epoch (env_LStatus e))"
  by (intro conjI impI transition_epoch) (simp_all add: transition_suspended transition_reason)

definition held_example :: "nat Environment" where
  "held_example = example_environment
     \<lparr>en_Spec := (en_Spec example_environment)\<lparr>sp_Lifecycle := (env_Lifecycle example_environment)
        \<lparr>lsp_Hold := Some \<lparr>hp_Enabled = True, hp_Revision = 1\<rparr>\<rparr>\<rparr>\<rparr>"

theorem hold_dominates_and_epoch_counts_witness:
  "held held_example
   \<and> lst_Suspended (st_Lifecycle (lifecycleTransition (\<lambda>_. None) 7 held_example))
   \<and> lst_Epoch (st_Lifecycle (lifecycleTransition (\<lambda>_. None) 7 held_example)) = 1"
proof -
  have h: "held held_example" by (simp add: held_def held_example_def)
  have z: "\<not> lst_Suspended (env_LStatus held_example)" "lst_Epoch (env_LStatus held_example) = 0"
    by (simp_all add: held_example_def example_environment_def zero_defs)
  from hold_dominates_and_epoch_counts [of held_example "\<lambda>_. None" 7] h z show ?thesis by simp
qed

text \<open>The lifecycle step is idempotent: with the spec unchanged, a second step at any later time
  computes the status the first step wrote, so the reconciler reports no change and writes nothing.
  (Published suspension requests carry a non-empty identifier, which the publishing call enforces
  through the API schema.)\<close>

theorem lifecycle_transition_idempotent:
  assumes "suspendNamed e"
  shows "lifecycleTransition unmarshal now' (e\<lparr>en_Status := lifecycleTransition unmarshal now e\<rparr>)
           = lifecycleTransition unmarshal now e
    \<and> fst (reconcileLifecycleIntent unmarshal kupdate now'
             (e\<lparr>en_Status := lifecycleTransition unmarshal now e\<rparr>) w) = Inr False"
  using transition_idem [OF assms, of unmarshal now' now]
  by (simp add: reconcileLifecycleIntent_def Let_def)

theorem lifecycle_transition_idempotent_witness:
  "lifecycleTransition (\<lambda>_. None) 9 (held_example\<lparr>en_Status := lifecycleTransition (\<lambda>_. None) 7 held_example\<rparr>)
     = lifecycleTransition (\<lambda>_. None) 7 held_example"
  using lifecycle_transition_idempotent [of held_example "\<lambda>_. None" 9 7 "\<lambda>_ w. (None :: unit option, w)" "()"]
  by (simp add: suspendNamed_def held_example_def example_environment_def zero_defs)

text \<open>(C16) Replay protection over whole runs: after any sequence of spec and annotation changes, phase
  moves, lifecycle steps and acknowledgements, the last accepted suspension sequence has not
  decreased, so no published request with a sequence at or below one accepted earlier is ever new
  again; and a request still in flight keeps the Environment suspended.\<close>

theorem suspend_replay_protection:
  assumes "pendingSuspended e"
    and "lsp_Suspend (env_Lifecycle (foldl (lifecycleStep unmarshal) e evs)) = Some s"
    and "sr_Sequence s \<le> lst_LastSuspendRequestSequence (env_LStatus e)"
  shows "\<not> suspendNew (foldl (lifecycleStep unmarshal) e evs)
             (env_LStatus (foldl (lifecycleStep unmarshal) e evs))
    \<and> (lst_PendingSuspendRequestID (env_LStatus (foldl (lifecycleStep unmarshal) e evs)) \<noteq> []
        \<longrightarrow> lst_Suspended (env_LStatus (foldl (lifecycleStep unmarshal) e evs)))"
  using lifecycle.run_mono [OF assms(1), of unmarshal evs] lifecycle.run_invar [OF assms(1), of unmarshal evs]
    assms(2,3)
  by (auto simp: suspendNew_def pendingSuspended_def)

definition replay_spec :: EnvironmentSpec where
  "replay_spec = (en_Spec example_environment)\<lparr>sp_Lifecycle := zero_lifecycle_spec
     \<lparr>lsp_Suspend := Some \<lparr>lr_ID = ''s'', lr_EnvironmentUID = ''u1'', lr_HoldPolicyRevision = 0,
        sr_Sequence = 3\<rparr>\<rparr>\<rparr>"

definition replay_example :: "nat Environment" where
  "replay_example = example_environment
     \<lparr>en_Status := zero_status\<lparr>st_Lifecycle := zero_lifecycle_status
        \<lparr>lst_LastSuspendRequestID := ''r'', lst_LastSuspendRequestSequence := 5\<rparr>\<rparr>\<rparr>"

theorem suspend_replay_protection_witness:
  "\<not> suspendNew (foldl (lifecycleStep (\<lambda>_. None)) replay_example [SetSpec replay_spec])
      (env_LStatus (foldl (lifecycleStep (\<lambda>_. None)) replay_example [SetSpec replay_spec]))"
  using suspend_replay_protection [of replay_example "\<lambda>_. None" "[SetSpec replay_spec]"]
  by (simp add: replay_example_def replay_spec_def pendingSuspended_def zero_defs)

text \<open>When the lifecycle gate lets reconciliation continue, it has written nothing and changed
  nothing, the legacy paused flag is clear, no replayed suspension request is left in the spec, and
  the observed status already agrees with the policy: a held Environment is suspended with reason
  Hold, and no suspension request is still waiting to be accepted.\<close>

theorem gate_continue_settled:
  assumes "suspendNamed e"
    and "reconcileEnvironmentLifecycleGate unmarshal kpatch kupdate now e w = (GateContinue, e', ms, w')"
  shows "e' = e \<and> w' = w \<and> ms = [] \<and> \<not> sp_Paused (en_Spec e) \<and> \<not> replayedSuspend e
    \<and> (held e \<longrightarrow> lst_Suspended (env_LStatus e)
         \<and> lst_SuspensionReason (env_LStatus e) = EnvironmentSuspensionReasonHold)
    \<and> \<not> suspendNew e (env_LStatus e)"
proof -
  from assms(2) have g: "\<not> sp_Paused (en_Spec e)" "\<not> replayedSuspend e"
    and r: "reconcileLifecycleIntent unmarshal kupdate now e w = (Inr False, e', ms, w')"
    by (auto simp: reconcileEnvironmentLifecycleGate_def patched_def
        split: if_splits prod.splits sum.splits option.splits)
  show ?thesis
  proof (cases "lifecycleUntouched unmarshal e")
    case True
    with r g show ?thesis
      by (auto simp: reconcileLifecycleIntent_def lifecycleUntouched_def held_def suspendNew_def)
  next
    case False
    with r have st: "lifecycleTransition unmarshal now e = en_Status e"
      and eq: "e' = e \<and> ms = [] \<and> w' = w"
      by (auto simp: reconcileLifecycleIntent_def Let_def split: if_splits prod.splits option.splits)
    have "held e \<Longrightarrow> lst_Suspended (env_LStatus e)"
      "held e \<Longrightarrow> lst_SuspensionReason (env_LStatus e) = EnvironmentSuspensionReasonHold"
      using transition_suspended [of unmarshal now e] transition_reason [of unmarshal now e] st by auto
    moreover have "\<not> suspendNew e (env_LStatus e)"
      using transition_not_new [OF assms(1), of unmarshal now] st by simp
    ultimately show ?thesis using eq g by blast
  qed
qed

theorem gate_continue_settled_witness:
  "reconcileEnvironmentLifecycleGate (\<lambda>_. None) (\<lambda>_ _ w. (None :: unit option, w)) (\<lambda>_ w. (None, w)) 7
     example_environment () = (GateContinue, example_environment, [], ())
   \<and> \<not> suspendNew example_environment (env_LStatus example_environment)"
proof -
  have "lifecycleUntouched (\<lambda>_. None) example_environment"
    by (simp add: lifecycleUntouched_def example_environment_def zero_defs ActivityRequests_def
        activitySources_def slotActivity_def List.map_filter_simps)
  then have g: "reconcileEnvironmentLifecycleGate (\<lambda>_. None) (\<lambda>_ _ w. (None :: unit option, w))
      (\<lambda>_ w. (None, w)) 7 example_environment () = (GateContinue, example_environment, [], ())"
    by (simp add: reconcileEnvironmentLifecycleGate_def replayedSuspend_def
        reconcileLifecycleIntent_def example_environment_def zero_defs)
  moreover have "suspendNamed example_environment"
    by (simp add: suspendNamed_def example_environment_def zero_defs)
  ultimately show ?thesis using gate_continue_settled [OF _ g] by blast
qed

end
