(* ===== verification/Environment_Status.thy ===== *)
theory Environment_Status
  imports Environment_Lifecycle
begin

text \<open>
  Status publication of the Environment reconciler: \<open>src/internal/controllers/environment_status.go\<close>
  (pod state classification, \<open>syncStatus\<close>, the fenced status update, \<open>fail\<close>) and the status
  helpers, child names, generation reservation and the paused and idle handlers of
  \<open>environment_controller.go\<close>.

  The Kubernetes client is library code. Its operations are the fields of the record \<open>api\<close>, over
  an arbitrary world \<open>'w\<close> and arbitrary client errors \<open>'k\<close>; \<open>retry.RetryOnConflict\<close> runs a
  closure whose captured variables (the re-read object and two flags) travel in the state.
\<close>

section \<open>Pods\<close>

record PodCondition =
  pc_Type :: string
  pc_Status :: string
  pc_Reason :: string
  pc_Message :: string

record ContainerStateTerminated =
  tm_ExitCode :: int
  tm_Message :: string

record ContainerStateWaiting =
  wt_Reason :: string
  wt_Message :: string

record ContainerStatus =
  cs_Name :: string
  cs_ImageID :: string
  cs_Waiting :: "ContainerStateWaiting option"
  cs_Terminated :: "ContainerStateTerminated option"
  cs_LastTerminated :: "ContainerStateTerminated option"

text \<open>\<open>po_InitEnv\<close> lists, per init container, its environment variables (name, value).\<close>

record Pod =
  po_Namespace :: string
  po_Name :: string
  po_UID :: string
  po_Annotations :: "(string \<times> string) list"
  po_InitEnv :: "(string \<times> string) list list"
  po_Phase :: string
  po_Message :: string
  po_PodIP :: string
  po_Conditions :: "PodCondition list"
  po_InitStatuses :: "ContainerStatus list"
  po_ContainerStatuses :: "ContainerStatus list"

definition podExecutionGeneration :: "Pod \<Rightarrow> int option" where
  "podExecutionGeneration pod =
     (let value = annotation (po_Annotations pod) ''swe.dev/execution-generation'' in
      case parse_int value of
        None \<Rightarrow> None
      | Some g \<Rightarrow> if 0 < g \<and> format_int g = value then Some g else None)"

definition podIsResume :: "Pod \<Rightarrow> bool" where
  "podIsResume pod = list_ex (list_ex (\<lambda>v. fst v = ''SWE_RESUMING'' \<and> snd v = ''true'')) (po_InitEnv pod)"

fun podReadyIn :: "PodCondition list \<Rightarrow> bool" where
  "podReadyIn [] = False"
| "podReadyIn (c # cs) = (if pc_Type c = ''Ready'' then pc_Status c = ConditionTrue else podReadyIn cs)"

definition podReady :: "Pod \<Rightarrow> bool" where
  "podReady pod = podReadyIn (po_Conditions pod)"

fun environmentImageIDIn :: "ContainerStatus list \<Rightarrow> string" where
  "environmentImageIDIn [] = []"
| "environmentImageIDIn (c # cs) =
     (if cs_Name c = ''environment'' then cs_ImageID c else environmentImageIDIn cs)"

definition environmentImageID :: "Pod \<Rightarrow> string" where
  "environmentImageID pod = environmentImageIDIn (po_ContainerStatuses pod)"

section \<open>Classification of a pod\<close>

definition messageOr :: "string \<Rightarrow> string \<Rightarrow> string" where
  "messageOr message fallback = (if message \<noteq> [] then message else fallback)"

definition imagePullFailure :: "string \<Rightarrow> bool" where
  "imagePullFailure reason \<longleftrightarrow>
     reason = ''ErrImagePull'' \<or> reason = ''ImagePullBackOff'' \<or> reason = ''InvalidImageName''"

definition setupReason :: "bool \<Rightarrow> string \<Rightarrow> string" where
  "setupReason resuming sfx = (if resuming then ''Resume'' @ sfx else ''Setup'' @ sfx)"

definition containerStatusMessage :: "string \<Rightarrow> string \<Rightarrow> string \<Rightarrow> string" where
  "containerStatusMessage name reason message =
     (if message = [] then ''container '' @ name @ '': '' @ reason
      else ''container '' @ name @ '': '' @ reason @ '': '' @ message)"

type_synonym pod_state = "EnvironmentPhase \<times> string \<times> string"

definition initContainerFailure :: "string \<Rightarrow> ContainerStateTerminated \<Rightarrow> bool \<Rightarrow> pod_state" where
  "initContainerFailure name t resuming =
     (EnvironmentPhaseFailed,
      (if tm_ExitCode t = 124 \<or> tm_ExitCode t = 137 then setupReason resuming ''HookTimedOut''
       else setupReason resuming ''Failed''),
      ''init container '' @ name @ '' exited with code '' @ format_int (tm_ExitCode t)
        @ (if tm_Message t \<noteq> [] then '': '' @ tm_Message t else []))"

text \<open>The three loops of \<open>environmentPodState\<close>; each yields the state it returns early, if any.\<close>

fun unschedulable :: "PodCondition list \<Rightarrow> pod_state option" where
  "unschedulable [] = None"
| "unschedulable (c # cs) =
     (if pc_Type c = ''PodScheduled'' \<and> pc_Status c = ConditionFalse \<and> pc_Reason c = ''Unschedulable''
      then Some (EnvironmentPhaseCreating, ''Unschedulable'',
             messageOr (pc_Message c) ''the scheduler cannot currently place the environment pod'')
      else unschedulable cs)"

definition failed :: "ContainerStateTerminated option \<Rightarrow> bool" where
  "failed t = (case t of None \<Rightarrow> False | Some x \<Rightarrow> tm_ExitCode x \<noteq> 0)"

fun waitingState :: "string \<Rightarrow> ContainerStatus \<Rightarrow> pod_state option" where
  "waitingState crashReason c =
     (case cs_Waiting c of
        None \<Rightarrow> None
      | Some w \<Rightarrow>
          if imagePullFailure (wt_Reason w)
          then Some (EnvironmentPhaseFailed, ''ImagePullFailed'',
                 containerStatusMessage (cs_Name c) (wt_Reason w) (wt_Message w))
          else if wt_Reason w = ''CrashLoopBackOff''
          then Some (EnvironmentPhaseFailed, crashReason,
                 containerStatusMessage (cs_Name c) (wt_Reason w) (wt_Message w))
          else None)"

fun initState :: "bool \<Rightarrow> ContainerStatus list \<Rightarrow> pod_state option" where
  "initState resuming [] = None"
| "initState resuming (c # cs) =
     (if failed (cs_Terminated c) then Some (initContainerFailure (cs_Name c) (the (cs_Terminated c)) resuming)
      else if cs_Waiting c \<noteq> None \<and> failed (cs_LastTerminated c)
      then Some (initContainerFailure (cs_Name c) (the (cs_LastTerminated c)) resuming)
      else case waitingState (setupReason resuming ''Failed'') c of
             Some s \<Rightarrow> Some s
           | None \<Rightarrow> initState resuming cs)"

fun containersState :: "ContainerStatus list \<Rightarrow> pod_state option" where
  "containersState [] = None"
| "containersState (c # cs) =
     (case waitingState ''SandboxdCrashLoopBackOff'' c of
        Some s \<Rightarrow> Some s
      | None \<Rightarrow> containersState cs)"

definition phaseState :: "bool \<Rightarrow> Pod \<Rightarrow> pod_state" where
  "phaseState resuming pod =
     (if po_Phase pod = ''Pending'' then
        (if resuming then (EnvironmentPhaseResuming, ''ResumeInProgress'',
                           ''repository resume and sandboxd startup are in progress'')
         else if po_InitEnv pod \<noteq> [] then (EnvironmentPhaseSetup, ''SetupInProgress'',
                           ''repository setup and sandboxd startup are in progress'')
         else (EnvironmentPhaseCreating, ''Provisioning'', ''environment pod is provisioning''))
      else if po_Phase pod = ''Running'' then
        (if podReady pod \<and> po_PodIP pod \<noteq> []
         then (EnvironmentPhaseReady, ''SandboxdReady'', ''setup is complete and sandboxd is ready'')
         else (EnvironmentPhaseCreating, ''SandboxdNotReady'', ''sandboxd has not passed its readiness probe''))
      else if po_Phase pod = ''Failed'' then
        (EnvironmentPhaseFailed, ''PodFailed'', messageOr (po_Message pod) ''environment pod failed'')
      else if po_Phase pod = ''Succeeded'' then
        (EnvironmentPhaseTerminated, ''PodTerminated'', ''environment pod terminated'')
      else (EnvironmentPhaseCreating, ''Provisioning'', ''environment pod is provisioning''))"

text \<open>The deferred function rewrites every phase but Ready while resuming.\<close>

definition resumingPhase :: "bool \<Rightarrow> pod_state \<Rightarrow> pod_state" where
  "resumingPhase resuming s =
     (case s of (phase, reason, message) \<Rightarrow>
        (if resuming \<and> phase \<noteq> EnvironmentPhaseReady then EnvironmentPhaseResuming else phase,
         reason, message))"

definition environmentPodState :: "'q Environment \<Rightarrow> Pod \<Rightarrow> pod_state" where
  "environmentPodState e pod =
     (let resuming = podIsResume pod \<or> st_Phase (en_Status e) = EnvironmentPhaseResuming in
      resumingPhase resuming
        (case unschedulable (po_Conditions pod) of
           Some s \<Rightarrow> s
         | None \<Rightarrow>
             (case initState resuming (po_InitStatuses pod) of
                Some s \<Rightarrow> s
              | None \<Rightarrow>
                  (case containersState (po_ContainerStatuses pod) of
                     Some s \<Rightarrow> s
                   | None \<Rightarrow> phaseState resuming pod))))"

section \<open>Child names\<close>

definition trimRight :: "char set \<Rightarrow> string \<Rightarrow> string" where
  "trimRight cs s = rev (dropWhile (\<lambda>c. c \<in> cs) (rev s))"

text \<open>\<open>sha\<close> stands for the hexadecimal SHA-256 digest of a byte string.\<close>

definition envChildName :: "(string \<Rightarrow> string) \<Rightarrow> 'q Environment \<Rightarrow> string \<Rightarrow> string" where
  "envChildName sha e sfx =
     (let name = om_Name (en_Meta e) in
      if length name \<le> 63 then ''env-'' @ name @ sfx
      else let incarnation = take 12 (sha (env_UID e));
               maxLen = 63 - length ''env-'' - 1 - length incarnation - length sfx
           in ''env-'' @ (if maxLen < length name then trimRight {CHR ''-'', CHR ''.''} (take maxLen name)
                          else name) @ ''-'' @ incarnation @ sfx)"

definition envPodName :: "(string \<Rightarrow> string) \<Rightarrow> 'q Environment \<Rightarrow> string" where
  "envPodName sha e = envChildName sha e []"

definition envPVCName :: "(string \<Rightarrow> string) \<Rightarrow> 'q Environment \<Rightarrow> string" where
  "envPVCName sha e = envChildName sha e []"

definition envCredentialName :: "(string \<Rightarrow> string) \<Rightarrow> 'q Environment \<Rightarrow> string" where
  "envCredentialName sha e = envChildName sha e ''-sandboxd''"

definition envNetworkPolicyName :: "(string \<Rightarrow> string) \<Rightarrow> 'q Environment \<Rightarrow> string" where
  "envNetworkPolicyName sha e = envChildName sha e ''-sandboxd''"

definition envSelectorLabel :: "(string \<Rightarrow> string) \<Rightarrow> 'q Environment \<Rightarrow> string" where
  "envSelectorLabel sha e =
     (if length (om_Name (en_Meta e)) \<le> 63 then om_Name (en_Meta e) else envPodName sha e)"

definition envLabels :: "(string \<Rightarrow> string) \<Rightarrow> 'q Environment \<Rightarrow> (string \<times> string) list" where
  "envLabels sha e = [(''app.kubernetes.io/managed-by'', ''swe-platform''),
                      (''swe.dev/environment'', envSelectorLabel sha e)]"

section \<open>Errors and the client\<close>

text \<open>Go errors as the reconciler tells them apart: \<open>EWrap\<close> is \<open>fmt.Errorf\<close> with \<open>%w\<close>.\<close>

datatype 'k err =
  EKube 'k
| EIncarnationChanged
| EExecutionChanged
| ERecoveryChanged
| ECollision string string
| ETerminal "'k err"
| EWrap string "'k err"
| EText string
| EPanic

primrec asCollision :: "'k err \<Rightarrow> (string \<times> string) option" where
  "asCollision (EKube k) = None"
| "asCollision EIncarnationChanged = None"
| "asCollision EExecutionChanged = None"
| "asCollision ERecoveryChanged = None"
| "asCollision (ECollision kind name) = Some (kind, name)"
| "asCollision (ETerminal x) = asCollision x"
| "asCollision (EWrap m x) = asCollision x"
| "asCollision (EText m) = None"
| "asCollision EPanic = None"

primrec asTerminal :: "'k err \<Rightarrow> bool" where
  "asTerminal (EKube k) = False"
| "asTerminal EIncarnationChanged = False"
| "asTerminal EExecutionChanged = False"
| "asTerminal ERecoveryChanged = False"
| "asTerminal (ECollision kind name) = False"
| "asTerminal (ETerminal x) = True"
| "asTerminal (EWrap m x) = asTerminal x"
| "asTerminal (EText m) = False"
| "asTerminal EPanic = False"

text \<open>The variables a status closure captures: the re-read object and two flags.\<close>

type_synonym ('w, 'q) captured = "'w \<times> 'q Environment \<times> bool \<times> bool"

record ('w, 'q, 'k) api =
  api_get :: "NamespacedName \<Rightarrow> 'w \<Rightarrow> ('k + 'q Environment) \<times> 'w"
  api_update :: "'q Environment \<Rightarrow> 'w \<Rightarrow> 'k option \<times> 'w"
  api_patch :: "'q Environment \<Rightarrow> 'q Environment \<Rightarrow> 'w \<Rightarrow> 'k option \<times> 'w"
  api_get_pod :: "NamespacedName \<Rightarrow> 'w \<Rightarrow> ('k + Pod) \<times> 'w"
  api_get_secret :: "NamespacedName \<Rightarrow> 'w \<Rightarrow> ('k + Pod) \<times> 'w"
  api_delete :: "Pod \<Rightarrow> 'w \<Rightarrow> 'k option \<times> 'w"
  api_not_found :: "'k \<Rightarrow> bool"
  api_owner :: "Pod \<Rightarrow> OwnerReference option"
  api_find :: find_condition
  api_set :: "Condition \<Rightarrow> Condition list \<Rightarrow> Condition list"
  api_retry :: "(('w, 'q) captured \<Rightarrow> 'k err option \<times> ('w, 'q) captured)
                  \<Rightarrow> ('w, 'q) captured \<Rightarrow> 'k err option \<times> ('w, 'q) captured"
  api_sha :: "string \<Rightarrow> string"
  api_time :: "int \<Rightarrow> string"

definition exactControllerOwner ::
  "('w, 'q, 'k) api \<Rightarrow> Pod \<Rightarrow> string \<Rightarrow> string \<Rightarrow> string \<Rightarrow> string \<Rightarrow> bool" where
  "exactControllerOwner api obj apiVersion kind name uid =
     (case api_owner api obj of
        None \<Rightarrow> False
      | Some ow \<Rightarrow> ow_APIVersion ow = apiVersion \<and> ow_Kind ow = kind \<and> ow_Name ow = name \<and> ow_UID ow = uid)"

abbreviation "ownedBy api obj e \<equiv>
  exactControllerOwner api obj ''swe.dev/v1alpha1'' ''Environment'' (om_Name (en_Meta e)) (env_UID e)"

definition deleteObservedChild ::
  "('w, 'q, 'k) api \<Rightarrow> Pod \<Rightarrow> 'w \<Rightarrow> 'k err option \<times> 'w" where
  "deleteObservedChild api obj w =
     (if po_UID obj = [] then (Some (EText ''refuse to delete without UID''), w)
      else case api_delete api obj w of (r, w') \<Rightarrow> (map_option EKube r, w'))"

definition isNotFound :: "('w, 'q, 'k) api \<Rightarrow> 'k err \<Rightarrow> bool" where
  "isNotFound api x = (case x of EKube k \<Rightarrow> api_not_found api k | _ \<Rightarrow> False)"

section \<open>Status helpers\<close>

definition boolConditionStatus :: "bool \<Rightarrow> string" where
  "boolConditionStatus value = (if value then ConditionTrue else ConditionFalse)"

definition newCondition :: "string \<Rightarrow> string \<Rightarrow> int \<Rightarrow> string \<Rightarrow> string \<Rightarrow> Condition" where
  "newCondition t status gen reason message =
     \<lparr>cd_Type = t, cd_Status = status, cd_ObservedGeneration = gen, cd_LastTransitionTime = 0,
      cd_Reason = reason, cd_Message = message\<rparr>"

definition laterActive :: "int option \<Rightarrow> int option \<Rightarrow> int option" where
  "laterActive lastActiveAt current =
     (case lastActiveAt of
        None \<Rightarrow> current
      | Some t \<Rightarrow> (case current of None \<Rightarrow> Some t | Some c \<Rightarrow> if c < t then Some t else Some c))"

definition applyEnvironmentStatus ::
  "set_condition \<Rightarrow> EnvironmentPhase \<Rightarrow> string \<Rightarrow> string \<Rightarrow> string \<Rightarrow> string \<Rightarrow> int option
     \<Rightarrow> 'q Environment \<Rightarrow> 'q Environment" where
  "applyEnvironmentStatus setCond phase podName sandboxdEndpoint reason message lastActiveAt e =
     (let st = en_Status e in
      e\<lparr>en_Status := st\<lparr>
          st_ObservedGeneration := env_Generation e,
          st_Phase := phase,
          st_PodName := podName,
          st_ImageID := [],
          st_Endpoints := (st_Endpoints st)\<lparr>ep_Sandboxd := sandboxdEndpoint\<rparr>,
          st_LastActiveAt := laterActive lastActiveAt (st_LastActiveAt st),
          st_Conditions := setCond
            (newCondition EnvironmentConditionReady
               (boolConditionStatus (phase = EnvironmentPhaseReady \<or> phase = EnvironmentPhaseRunning))
               (env_Generation e) reason message) (st_Conditions st)\<rparr>\<rparr>)"

definition phaseReadiness :: "EnvironmentPhase \<Rightarrow> string \<times> string" where
  "phaseReadiness phase =
     (if phase = EnvironmentPhaseSetup then (''SetupInProgress'', ''repository setup is in progress'')
      else if phase = EnvironmentPhaseResuming then
        (''ResumeInProgress'', ''repository resume is in progress'')
      else if phase = EnvironmentPhaseReady \<or> phase = EnvironmentPhaseRunning then
        (''SandboxdReady'', ''setup is complete and sandboxd is ready'')
      else if phase = EnvironmentPhaseIdle then
        (''PauseRequested'', ''environment is idle and pause was requested'')
      else if phase = EnvironmentPhasePaused then
        (''Paused'', ''environment is paused; workspace and transcript are retained'')
      else if phase = EnvironmentPhaseFailed then
        (''ReconcileFailed'', ''environment reconciliation failed'')
      else if phase = EnvironmentPhaseTerminated then
        (''PodTerminated'', ''environment pod terminated'')
      else (''Provisioning'', ''environment infrastructure is provisioning''))"

definition clearChildOwnershipCollision ::
  "('w, 'q, 'k) api \<Rightarrow> 'q Environment \<Rightarrow> 'q Environment" where
  "clearChildOwnershipCollision api e =
     (case api_find api (st_Conditions (en_Status e)) ''ChildOwnershipConflict'' of
        None \<Rightarrow> e
      | Some _ \<Rightarrow>
          e\<lparr>en_Status := (en_Status e)\<lparr>st_Conditions := api_set api
              (newCondition ''ChildOwnershipConflict'' ConditionFalse (env_Generation e)
                 ''CollisionResolved'' ''all child resources are owned by this Environment'')
              (st_Conditions (en_Status e))\<rparr>\<rparr>)"

definition projectProvisioningCurrent :: "'q Environment \<Rightarrow> bool" where
  "projectProvisioningCurrent e =
     (if sp_ProjectRef (en_Spec e) = [] then
        (case st_Provisioning (en_Status e) of None \<Rightarrow> True | Some p \<Rightarrow> ps_Project p = None)
      else
        (case st_Provisioning (en_Status e) of
           None \<Rightarrow> False
         | Some p \<Rightarrow>
             (case ps_Project p of
                None \<Rightarrow> False
              | Some j \<Rightarrow> pp_Name j = sp_ProjectRef (en_Spec e) \<and> ps_ProjectVerified p)))"

definition projectSetupPending :: "'q Environment \<Rightarrow> bool" where
  "projectSetupPending e \<longleftrightarrow> sp_ProjectRef (en_Spec e) \<noteq> [] \<and> \<not> projectProvisioningCurrent e"

definition isResumeReplacement :: "'q Environment \<Rightarrow> bool" where
  "isResumeReplacement e =
     (let st = en_Status e in
      if \<not> projectProvisioningCurrent e then False
      else if st_Phase st = EnvironmentPhaseResuming then True
      else if st_Phase st = EnvironmentPhaseCreating \<and> st_PodName st \<noteq> [] \<and> st_LastActiveAt st \<noteq> None
      then True
      else if st_PodName st = [] \<or> ep_Sandboxd (st_Endpoints st) = [] then False
      else st_Phase st = EnvironmentPhaseReady \<or> st_Phase st = EnvironmentPhaseRunning
           \<or> st_Phase st = EnvironmentPhaseIdle)"

section \<open>Fenced status updates\<close>

text \<open>The closure of \<open>updateEnvironmentStatus\<close>: a generation change ends it without a write.\<close>

definition updateStatusAttempt ::
  "('w, 'q, 'k) api \<Rightarrow> 'q Environment \<Rightarrow> ('q Environment \<Rightarrow> bool \<times> bool \<Rightarrow> 'q Environment \<times> bool \<times> bool)
     \<Rightarrow> ('w, 'q) captured \<Rightarrow> 'k err option \<times> ('w, 'q) captured" where
  "updateStatusAttempt api e mutate c =
     (case c of (w, updated, flags) \<Rightarrow>
        (case api_get api (objectKey e) w of
           (Inl k, w') \<Rightarrow> (Some (EKube k), w', updated, flags)
         | (Inr cur, w') \<Rightarrow>
             if env_UID cur \<noteq> env_UID e then (Some EIncarnationChanged, w', cur, flags)
             else if env_Generation cur \<noteq> env_Generation e then (None, w', cur, flags)
             else case mutate cur flags of
                    (cur', flags') \<Rightarrow>
                      if en_Status cur = en_Status cur' then (None, w', cur', flags')
                      else (case api_update api cur' w' of
                              (r, w'') \<Rightarrow> (map_option EKube r, w'', cur', flags'))))"

definition updateEnvironmentStatus ::
  "('w, 'q, 'k) api \<Rightarrow> 'q Environment \<Rightarrow> ('q Environment \<Rightarrow> bool \<times> bool \<Rightarrow> 'q Environment \<times> bool \<times> bool)
     \<Rightarrow> 'w \<Rightarrow> 'k err option \<times> 'q Environment \<times> (bool \<times> bool) \<times> 'w" where
  "updateEnvironmentStatus api e mutate w =
     (case api_retry api (updateStatusAttempt api e mutate) (w, zero_environment, False, False) of
        (None, w', updated, flags) \<Rightarrow> (None, e\<lparr>en_Status := en_Status updated\<rparr>, flags, w')
      | (Some x, w', updated, flags) \<Rightarrow> (Some x, e, flags, w'))"

definition setEnvironmentStatus ::
  "('w, 'q, 'k) api \<Rightarrow> 'q Environment \<Rightarrow> EnvironmentPhase \<Rightarrow> string \<Rightarrow> string \<Rightarrow> string \<Rightarrow> string \<Rightarrow> 'w
     \<Rightarrow> 'k err option \<times> 'q Environment \<times> 'w" where
  "setEnvironmentStatus api e phase podName sandboxdEndpoint reason message w =
     (case updateEnvironmentStatus api e
        (\<lambda>cur flags. (clearChildOwnershipCollision api
           (applyEnvironmentStatus (api_set api) phase podName sandboxdEndpoint reason message
              (st_LastActiveAt (en_Status e)) cur), flags)) w of
        (r, e', flags, w') \<Rightarrow> (r, e', w'))"

definition setPhase ::
  "('w, 'q, 'k) api \<Rightarrow> 'q Environment \<Rightarrow> EnvironmentPhase \<Rightarrow> string \<Rightarrow> string \<Rightarrow> 'w
     \<Rightarrow> 'k err option \<times> 'q Environment \<times> 'w" where
  "setPhase api e phase podName sandboxdEndpoint w =
     (case phaseReadiness phase of (reason, message) \<Rightarrow>
        setEnvironmentStatus api e phase podName sandboxdEndpoint reason message w)"

section \<open>Publishing the state of a pod\<close>

text \<open>\<open>net.JoinHostPort\<close>.\<close>

definition joinHostPort :: "string \<Rightarrow> string \<Rightarrow> string" where
  "joinHostPort host port =
     (if CHR '':'' \<in> set host then ''['' @ host @ '']:'' @ port else host @ '':'' @ port)"

definition clearRecovery :: "'q EnvironmentStatus \<Rightarrow> 'q EnvironmentStatus" where
  "clearRecovery st =
     st\<lparr>st_Recovery := zero_recovery, st_PodRecoveryAttempts := 0, st_PodRecoveryExhausted := False,
        st_PodRecoveryUID := [], st_PodRecoveryNextAttemptAt := None\<rparr>"

definition syncMutate ::
  "('w, 'q, 'k) api \<Rightarrow> Pod \<Rightarrow> int \<Rightarrow> pod_state \<Rightarrow> string \<Rightarrow> int option \<Rightarrow> 'q Environment
     \<Rightarrow> bool \<times> bool \<Rightarrow> 'q Environment \<times> bool \<times> bool" where
  "syncMutate api pod gen state endpoint lastActive cur flags =
     (case flags of (executionChanged, projectChanged) \<Rightarrow> case state of (phase, reason, message) \<Rightarrow>
        if st_ExecutionGeneration (en_Status cur) \<noteq> gen then (cur, True, projectChanged)
        else if annotation (po_Annotations pod) ''swe.dev/project'' \<noteq> sp_ProjectRef (en_Spec cur) then
          (case phaseReadiness EnvironmentPhaseSetup of (reason', message') \<Rightarrow>
             (clearChildOwnershipCollision api
                (applyEnvironmentStatus (api_set api) EnvironmentPhaseSetup [] [] reason' message'
                   (st_LastActiveAt (en_Status cur)) cur), executionChanged, True))
        else
          (let cur1 = applyEnvironmentStatus (api_set api) phase (po_Name pod) endpoint reason message lastActive cur;
               cur2 = cur1\<lparr>en_Status := (en_Status cur1)\<lparr>st_ImageID := environmentImageID pod\<rparr>\<rparr>;
               cur3 = (if phase = EnvironmentPhaseReady
                       then cur2\<lparr>en_Status := clearRecovery (en_Status cur2)\<rparr> else cur2)
           in (clearChildOwnershipCollision api cur3, executionChanged, projectChanged)))"

text \<open>\<open>syncActive\<close>: an Environment that becomes ready counts as active now.\<close>

definition syncActive :: "int \<Rightarrow> bool \<Rightarrow> 'q Environment \<Rightarrow> 'q Environment" where
  "syncActive now ready e =
     (let st = en_Status e in
      if ready \<and> (st_LastActiveAt st = None
                 \<or> st_Phase st \<noteq> EnvironmentPhaseReady \<and> st_Phase st \<noteq> EnvironmentPhaseRunning)
      then e\<lparr>en_Status := st\<lparr>st_LastActiveAt := Some now\<rparr>\<rparr> else e)"

definition syncStatus ::
  "('w, 'q, 'k) api \<Rightarrow> int \<Rightarrow> 'q Environment \<Rightarrow> Pod \<Rightarrow> 'w \<Rightarrow> 'k err option \<times> 'q Environment \<times> 'w" where
  "syncStatus api now e pod w =
     (case podExecutionGeneration pod of
        None \<Rightarrow> (Some (EText ''environment pod execution generation is not current''), e, w)
      | Some gen \<Rightarrow>
          if gen \<noteq> st_ExecutionGeneration (en_Status e)
          then (Some (EText ''environment pod execution generation is not current''), e, w)
          else
            (let state = environmentPodState e pod;
                 ready = fst state = EnvironmentPhaseReady;
                 endpoint = (if ready then joinHostPort (po_PodIP pod) ''50051'' else []);
                 e1 = syncActive now ready e
             in case updateEnvironmentStatus api e1
                       (syncMutate api pod gen state endpoint (st_LastActiveAt (en_Status e1))) w of
                  (Some x, e', flags, w') \<Rightarrow> (Some x, e', w')
                | (None, e', (executionChanged, projectChanged), w') \<Rightarrow>
                    if executionChanged \<or> projectChanged then (Some EExecutionChanged, e', w')
                    else (None, e', w')))"

text \<open>\<open>fail\<close>: \<open>errText\<close> is the error's text, \<open>invalid\<close> the client's \<open>IsInvalid\<close> or
  \<open>IsBadRequest\<close> verdict.\<close>

definition failReason :: "'k err \<Rightarrow> bool \<Rightarrow> EnvironmentPhase \<times> string" where
  "failReason x invalid =
     (if asTerminal x \<or> invalid then (EnvironmentPhaseFailed, ''InvalidConfiguration'')
      else if asCollision x \<noteq> None then (EnvironmentPhaseFailed, ''ResourceCollision'')
      else (EnvironmentPhaseCreating, ''OperationalError''))"

definition failMutate ::
  "('w, 'q, 'k) api \<Rightarrow> 'k err \<Rightarrow> bool \<Rightarrow> string \<Rightarrow> (string \<times> string \<Rightarrow> string) \<Rightarrow> int option
     \<Rightarrow> 'q Environment \<Rightarrow> bool \<times> bool \<Rightarrow> 'q Environment \<times> bool \<times> bool" where
  "failMutate api x invalid errText collisionText lastActive cur flags =
     (case failReason x invalid of (phase, reason) \<Rightarrow>
        (let currentPhase = (if reason = ''OperationalError'' \<and> isResumeReplacement cur
                             then EnvironmentPhaseResuming else phase);
             cur1 = applyEnvironmentStatus (api_set api) currentPhase [] [] reason errText lastActive cur
         in (case asCollision x of
               None \<Rightarrow> cur1
             | Some c \<Rightarrow> cur1\<lparr>en_Status := (en_Status cur1)\<lparr>st_Conditions := api_set api
                   (newCondition ''ChildOwnershipConflict'' ConditionTrue (env_Generation cur1)
                      ''ResourceCollision'' (collisionText c)) (st_Conditions (en_Status cur1))\<rparr>\<rparr>,
             flags)))"

definition fail_status ::
  "('w, 'q, 'k) api \<Rightarrow> 'q Environment \<Rightarrow> 'k err \<Rightarrow> bool \<Rightarrow> string \<Rightarrow> (string \<times> string \<Rightarrow> string) \<Rightarrow> 'w
     \<Rightarrow> 'k err option \<times> 'q Environment \<times> 'w" where
  "fail_status api e x invalid errText collisionText w =
     (case updateEnvironmentStatus api e
             (failMutate api x invalid errText collisionText (st_LastActiveAt (en_Status e))) w of
        (Some y, e', flags, w') \<Rightarrow> (Some y, e', w')
      | (None, e', flags, w') \<Rightarrow>
          if asCollision x \<noteq> None \<or> asTerminal x \<or> invalid then (None, e', w') else (Some x, e', w'))"

section \<open>Reserving an execution\<close>

definition reserveExecutionGeneration ::
  "('w, 'q, 'k) api \<Rightarrow> 'q Environment \<Rightarrow> 'w \<Rightarrow> ('k err + int) \<times> 'q Environment \<times> 'w" where
  "reserveExecutionGeneration api e w =
     (case api_get api (objectKey e) w of
        (Inl k, w') \<Rightarrow> (Inl (EKube k), e, w')
      | (Inr cur, w') \<Rightarrow>
          if env_UID cur \<noteq> env_UID e then (Inl EIncarnationChanged, e, w')
          else if env_Generation cur \<noteq> env_Generation e \<or> om_DeletionTimestamp (en_Meta cur) \<noteq> None
                  \<or> sp_Paused (en_Spec cur) \<or> lst_Suspended (env_LStatus cur)
          then (Inl (EText ''environment changed before backend creation''), e, w')
          else if st_ExecutionGeneration (en_Status cur) = 2 ^ 63 - 1
          then (Inl (ETerminal (EText ''execution generation is exhausted'')), e, w')
          else
            (let next = st_ExecutionGeneration (en_Status cur) + 1;
                 phase = (if st_Phase (en_Status cur) = EnvironmentPhaseResuming
                          then EnvironmentPhaseResuming else EnvironmentPhaseCreating);
                 cur1 = applyEnvironmentStatus (api_set api) phase [] [] ''ExecutionProvisioning''
                          (''backend execution generation '' @ format_int next @ '' is being provisioned'')
                          (st_LastActiveAt (en_Status cur)) cur;
                 cur2 = cur1\<lparr>en_Status := (en_Status cur1)\<lparr>st_ExecutionGeneration := next\<rparr>\<rparr>
             in case api_patch api cur cur2 w' of
                  (Some k, w'') \<Rightarrow> (Inl (EKube k), e, w'')
                | (None, w'') \<Rightarrow> (Inr next, e\<lparr>en_Status := en_Status cur2\<rparr>, w'')))"

section \<open>Pausing\<close>

datatype ctrl_result =
  Done
| Requeue
| RequeueAfter int

text \<open>Deletes an observed, owned child of the execution domain.\<close>

definition fenceChild ::
  "('w, 'q, 'k) api \<Rightarrow> 'q Environment \<Rightarrow> string \<Rightarrow> string \<Rightarrow> string \<Rightarrow> Pod \<Rightarrow> 'w
     \<Rightarrow> ('k err + ctrl_result) \<times> 'q Environment \<times> 'w" where
  "fenceChild api e kind name what obj w =
     (if \<not> ownedBy api obj e then (Inl (ECollision kind name), e, w)
      else case deleteObservedChild api obj w of
             (Some x, w') \<Rightarrow> if isNotFound api x then (Inr Requeue, e, w') else (Inl (EWrap what x), e, w')
           | (None, w') \<Rightarrow> (Inr Requeue, e, w'))"

definition reconcilePaused ::
  "('w, 'q, 'k) api \<Rightarrow> 'q Environment \<Rightarrow> 'w \<Rightarrow> ('k err + ctrl_result) \<times> 'q Environment \<times> 'w" where
  "reconcilePaused api e w =
     (if st_PodName (en_Status e) \<noteq> [] \<or> ep_Sandboxd (st_Endpoints (en_Status e)) \<noteq> []
         \<or> IsEnvironmentReady (api_find api) e
      then (case setEnvironmentStatus api e EnvironmentPhaseIdle [] [] ''PauseRequested''
                   ''environment suspension is fencing the current execution domain'' w of
              (Some x, e', w') \<Rightarrow> (Inl x, e', w')
            | (None, e', w') \<Rightarrow> (Inr Requeue, e', w'))
      else
        (let podName = envPodName (api_sha api) e in
         case api_get_pod api (om_Namespace (en_Meta e), podName) w of
           (Inr pod, w1) \<Rightarrow> fenceChild api e ''Pod'' podName ''delete pod for pause'' pod w1
         | (Inl k, w1) \<Rightarrow>
             if \<not> api_not_found api k then (Inl (EKube k), e, w1)
             else
               (case api_get_secret api (om_Namespace (en_Meta e), envCredentialName (api_sha api) e) w1 of
                  (Inr secret, w2) \<Rightarrow>
                    fenceChild api e ''Secret'' (po_Name secret) ''revoke sandboxd credentials'' secret w2
                | (Inl k2, w2) \<Rightarrow>
                    if \<not> api_not_found api k2 then (Inl (EKube k2), e, w2)
                    else if st_Phase (en_Status e) = EnvironmentPhasePaused
                            \<and> lst_PendingSuspendRequestID (env_LStatus e) \<noteq> []
                    then (let e' = acknowledgeSuspension e in
                          case api_update api e' w2 of
                            (Some k3, w3) \<Rightarrow> (Inl (EWrap ''acknowledge suspension request'' (EKube k3)), e', w3)
                          | (None, w3) \<Rightarrow> (Inr Requeue, e', w3))
                    else (case setPhase api e EnvironmentPhasePaused [] [] w2 of
                            (Some x, e', w3) \<Rightarrow> (Inl x, e', w3)
                          | (None, e', w3) \<Rightarrow> (Inr Done, e', w3)))))"

section \<open>Lemmas\<close>

lemma apply_fields [simp]:
  "en_Meta (applyEnvironmentStatus setCond ph p s r m l e) = en_Meta e"
  "en_Spec (applyEnvironmentStatus setCond ph p s r m l e) = en_Spec e"
  "st_Phase (en_Status (applyEnvironmentStatus setCond ph p s r m l e)) = ph"
  "st_PodName (en_Status (applyEnvironmentStatus setCond ph p s r m l e)) = p"
  "ep_Sandboxd (st_Endpoints (en_Status (applyEnvironmentStatus setCond ph p s r m l e))) = s"
  "st_Recovery (en_Status (applyEnvironmentStatus setCond ph p s r m l e)) = st_Recovery (en_Status e)"
  "st_ExecutionGeneration (en_Status (applyEnvironmentStatus setCond ph p s r m l e))
     = st_ExecutionGeneration (en_Status e)"
  "st_Lifecycle (en_Status (applyEnvironmentStatus setCond ph p s r m l e)) = st_Lifecycle (en_Status e)"
  "st_PodRecoveryAttempts (en_Status (applyEnvironmentStatus setCond ph p s r m l e))
     = st_PodRecoveryAttempts (en_Status e)"
  "st_PodRecoveryExhausted (en_Status (applyEnvironmentStatus setCond ph p s r m l e))
     = st_PodRecoveryExhausted (en_Status e)"
  "st_PodRecoveryUID (en_Status (applyEnvironmentStatus setCond ph p s r m l e))
     = st_PodRecoveryUID (en_Status e)"
  "st_PodRecoveryNextAttemptAt (en_Status (applyEnvironmentStatus setCond ph p s r m l e))
     = st_PodRecoveryNextAttemptAt (en_Status e)"
  by (simp_all add: applyEnvironmentStatus_def Let_def)

lemma clear_fields [simp]:
  "en_Meta (clearChildOwnershipCollision api e) = en_Meta e"
  "en_Spec (clearChildOwnershipCollision api e) = en_Spec e"
  "st_Phase (en_Status (clearChildOwnershipCollision api e)) = st_Phase (en_Status e)"
  "st_PodName (en_Status (clearChildOwnershipCollision api e)) = st_PodName (en_Status e)"
  "st_Endpoints (en_Status (clearChildOwnershipCollision api e)) = st_Endpoints (en_Status e)"
  "st_Recovery (en_Status (clearChildOwnershipCollision api e)) = st_Recovery (en_Status e)"
  "st_ExecutionGeneration (en_Status (clearChildOwnershipCollision api e))
     = st_ExecutionGeneration (en_Status e)"
  "st_Lifecycle (en_Status (clearChildOwnershipCollision api e)) = st_Lifecycle (en_Status e)"
  "st_PodRecoveryAttempts (en_Status (clearChildOwnershipCollision api e))
     = st_PodRecoveryAttempts (en_Status e)"
  "st_PodRecoveryExhausted (en_Status (clearChildOwnershipCollision api e))
     = st_PodRecoveryExhausted (en_Status e)"
  "st_PodRecoveryUID (en_Status (clearChildOwnershipCollision api e)) = st_PodRecoveryUID (en_Status e)"
  "st_PodRecoveryNextAttemptAt (en_Status (clearChildOwnershipCollision api e))
     = st_PodRecoveryNextAttemptAt (en_Status e)"
  by (simp_all add: clearChildOwnershipCollision_def split: option.splits)

lemma unschedulable_None_iff:
  "unschedulable cs = None \<longleftrightarrow>
     (\<forall>c\<in>set cs. \<not> (pc_Type c = ''PodScheduled'' \<and> pc_Status c = ConditionFalse
                    \<and> pc_Reason c = ''Unschedulable''))"
  by (induction cs) auto

definition stuckWaiting :: "ContainerStatus \<Rightarrow> bool" where
  "stuckWaiting c = (case cs_Waiting c of None \<Rightarrow> False
     | Some w \<Rightarrow> imagePullFailure (wt_Reason w) \<or> wt_Reason w = ''CrashLoopBackOff'')"

lemma waitingState_None_iff: "waitingState r c = None \<longleftrightarrow> \<not> stuckWaiting c"
  by (simp add: stuckWaiting_def split: option.splits)

lemma stuckWaiting_if: "waitingState r c = Some s \<Longrightarrow> stuckWaiting c"
  using waitingState_None_iff [of r c] by (cases "stuckWaiting c") (simp_all del: waitingState.simps)

lemma initState_None_iff:
  "initState resuming cs = None \<longleftrightarrow>
     (\<forall>c\<in>set cs. \<not> failed (cs_Terminated c) \<and> \<not> stuckWaiting c
        \<and> \<not> (cs_Waiting c \<noteq> None \<and> failed (cs_LastTerminated c)))"
  by (induction cs)
     (auto simp del: waitingState.simps simp: waitingState_None_iff dest: stuckWaiting_if split: option.splits)

lemma containersState_None_iff: "containersState cs = None \<longleftrightarrow> (\<forall>c\<in>set cs. \<not> stuckWaiting c)"
  by (induction cs)
     (auto simp del: waitingState.simps simp: waitingState_None_iff dest: stuckWaiting_if split: option.splits)

lemma waitingState_failed: "waitingState r c = Some s \<Longrightarrow> fst s = EnvironmentPhaseFailed"
  by (auto split: option.splits if_splits)

lemma unschedulable_creating: "unschedulable cs = Some s \<Longrightarrow> fst s = EnvironmentPhaseCreating"
  by (induction cs) (auto split: if_splits)

lemma initState_failed: "initState resuming cs = Some s \<Longrightarrow> fst s = EnvironmentPhaseFailed"
  by (induction cs) (auto simp del: waitingState.simps simp: initContainerFailure_def
      dest: waitingState_failed split: option.splits if_splits)

lemma containersState_failed: "containersState cs = Some s \<Longrightarrow> fst s = EnvironmentPhaseFailed"
  by (induction cs) (auto simp del: waitingState.simps dest: waitingState_failed split: option.splits)

lemma phaseState_ready_iff:
  "fst (phaseState resuming pod) = EnvironmentPhaseReady \<longleftrightarrow>
     po_Phase pod = ''Running'' \<and> podReady pod \<and> po_PodIP pod \<noteq> []"
  by (auto simp: phaseState_def)

lemma resumingPhase_ready: "fst (resumingPhase r s) = EnvironmentPhaseReady \<longleftrightarrow> fst s = EnvironmentPhaseReady"
  by (auto simp: resumingPhase_def split: prod.splits)

lemma updateStatusAttempt_ok:
  assumes "updateStatusAttempt api e mutate c = (None, c')"
  obtains w flags cur w1 where "c = (w, fst (snd c), flags)" "api_get api (objectKey e) w = (Inr cur, w1)"
    "env_UID cur = env_UID e"
    "env_Generation cur \<noteq> env_Generation e \<and> c' = (w1, cur, flags)
     \<or> env_Generation cur = env_Generation e \<and> snd c' = mutate cur flags
       \<and> (en_Status (fst (mutate cur flags)) = en_Status cur \<and> fst c' = w1
          \<or> api_update api (fst (mutate cur flags)) w1 = (None, fst c'))"
  using assms
  by (auto simp: updateStatusAttempt_def split: prod.splits sum.splits if_splits option.splits)

lemma updateEnvironmentStatus_ok:
  assumes "retry_ok (api_retry api)"
    and "updateEnvironmentStatus api e mutate w = (None, e', flags', w')"
  obtains flags cur w0 w1 where "api_get api (objectKey e) w0 = (Inr cur, w1)"
    "env_UID cur = env_UID e"
    "env_Generation cur \<noteq> env_Generation e \<and> e' = e\<lparr>en_Status := en_Status cur\<rparr> \<and> flags' = flags \<and> w' = w1
     \<or> env_Generation cur = env_Generation e
       \<and> e' = e\<lparr>en_Status := en_Status (fst (mutate cur flags))\<rparr> \<and> flags' = snd (mutate cur flags)
       \<and> (en_Status (fst (mutate cur flags)) = en_Status cur \<and> w' = w1
          \<or> api_update api (fst (mutate cur flags)) w1 = (None, w'))"
proof -
  from assms(2) obtain upd where
    run: "api_retry api (updateStatusAttempt api e mutate) (w, zero_environment, False, False)
            = (None, w', upd, flags')" and e': "e' = e\<lparr>en_Status := en_Status upd\<rparr>"
    by (auto simp: updateEnvironmentStatus_def split: prod.splits option.splits)
  obtain c where "updateStatusAttempt api e mutate c = (None, w', upd, flags')"
    using retry_success_last [OF assms(1) run] by blast
  then obtain w0 flags cur w1 where "api_get api (objectKey e) w0 = (Inr cur, w1)"
    "env_UID cur = env_UID e"
    "env_Generation cur \<noteq> env_Generation e \<and> (w', upd, flags') = (w1, cur, flags)
     \<or> env_Generation cur = env_Generation e \<and> snd (w', upd, flags') = mutate cur flags
       \<and> (en_Status (fst (mutate cur flags)) = en_Status cur \<and> fst (w', upd, flags') = w1
          \<or> api_update api (fst (mutate cur flags)) w1 = (None, fst (w', upd, flags')))"
    by (rule updateStatusAttempt_ok)
  with e' show ?thesis by (cases "mutate cur flags") (rule that [of w0 cur w1 flags], auto)
qed

lemma syncMutate_ok:
  assumes "syncMutate api pod gen (phase, reason, message) endpoint l cur flags = (cur', False, False)"
  shows "gen = st_ExecutionGeneration (en_Status cur) \<and> st_Phase (en_Status cur') = phase
    \<and> st_PodName (en_Status cur') = po_Name pod \<and> ep_Sandboxd (st_Endpoints (en_Status cur')) = endpoint
    \<and> st_Recovery (en_Status cur') =
        (if phase = EnvironmentPhaseReady then zero_recovery else st_Recovery (en_Status cur))"
proof -
  have "gen = st_ExecutionGeneration (en_Status cur)"
    using assms by (auto simp: syncMutate_def split: prod.splits if_splits)
  moreover have "annotation (po_Annotations pod) ''swe.dev/project'' = sp_ProjectRef (en_Spec cur)"
    using assms by (auto simp: syncMutate_def split: prod.splits if_splits)
  ultimately show ?thesis
    using assms by (auto simp: syncMutate_def Let_def clearRecovery_def split: prod.splits)
qed

lemma syncActive_meta [simp]: "en_Meta (syncActive now r e) = en_Meta e"
  by (simp add: syncActive_def Let_def)

lemma joinHostPort_nonempty [simp]: "joinHostPort h p \<noteq> []"
  by (simp add: joinHostPort_def)

lemma trimRight_length: "length (trimRight cs s) \<le> length s"
  using length_dropWhile_le [of "\<lambda>c. c \<in> cs" "rev s"] by (simp add: trimRight_def)

section \<open>Properties\<close>

text \<open>A pod is reported Ready exactly when it runs, its first readiness condition is true, it has an
  address, it is schedulable, no init container failed or is stuck, and no container is stuck in
  image pull or crash loop; and while the Environment resumes, every other verdict is Resuming.\<close>

theorem pod_state_ready_iff:
  "(fst (environmentPodState e pod) = EnvironmentPhaseReady \<longleftrightarrow>
      po_Phase pod = ''Running'' \<and> podReady pod \<and> po_PodIP pod \<noteq> []
      \<and> (\<forall>c\<in>set (po_Conditions pod). \<not> (pc_Type c = ''PodScheduled'' \<and> pc_Status c = ConditionFalse
            \<and> pc_Reason c = ''Unschedulable''))
      \<and> (\<forall>c\<in>set (po_InitStatuses pod). \<not> failed (cs_Terminated c) \<and> \<not> stuckWaiting c
            \<and> \<not> (cs_Waiting c \<noteq> None \<and> failed (cs_LastTerminated c)))
      \<and> (\<forall>c\<in>set (po_ContainerStatuses pod). \<not> stuckWaiting c))
   \<and> (podIsResume pod \<or> st_Phase (en_Status e) = EnvironmentPhaseResuming \<longrightarrow>
        fst (environmentPodState e pod) \<in> {EnvironmentPhaseReady, EnvironmentPhaseResuming})"
proof (rule conjI, goal_cases)
  case 1
  show ?case
    unfolding environmentPodState_def Let_def resumingPhase_ready
      unschedulable_None_iff [symmetric] initState_None_iff [of "podIsResume pod \<or> st_Phase (en_Status e) = EnvironmentPhaseResuming", symmetric]
      containersState_None_iff [symmetric]
    by (auto split: option.splits dest: unschedulable_creating initState_failed containersState_failed
        simp: phaseState_ready_iff)
next
  case 2
  show ?case
    by (auto simp: environmentPodState_def Let_def resumingPhase_def split: prod.splits)
qed

definition ready_pod :: Pod where
  "ready_pod =
     \<lparr>po_Namespace = ''ns'', po_Name = ''env-env'', po_UID = ''p1'',
      po_Annotations = [(''swe.dev/execution-generation'', ''1'')], po_InitEnv = [],
      po_Phase = ''Running'', po_Message = [], po_PodIP = ''10.0.0.7'',
      po_Conditions = [\<lparr>pc_Type = ''Ready'', pc_Status = ''True'', pc_Reason = [], pc_Message = []\<rparr>],
      po_InitStatuses = [], po_ContainerStatuses = []\<rparr>"

theorem pod_state_ready_iff_witness:
  "fst (environmentPodState example_environment ready_pod) = EnvironmentPhaseReady"
  using pod_state_ready_iff [of example_environment ready_pod]
  by (simp add: ready_pod_def podReady_def)


text \<open>A client with one stored Environment, no children, and the library's documented
  behaviour of conditions.\<close>

definition store_api :: "('q Environment, 'q, unit) api" where
  "store_api =
     \<lparr>api_get = (\<lambda>_ e. (Inr e, e)),
      api_update = (\<lambda>e' _. (None, e')),
      api_patch = (\<lambda>_ e' _. (None, e')),
      api_get_pod = (\<lambda>_ e. (Inl (), e)),
      api_get_secret = (\<lambda>_ e. (Inl (), e)),
      api_delete = (\<lambda>_ e. (None, e)),
      api_not_found = (\<lambda>_. True),
      api_owner = (\<lambda>_. None),
      api_find = (\<lambda>cs t. find (\<lambda>c. cd_Type c = t) cs),
      api_set = (\<lambda>c cs. c # filter (\<lambda>d. cd_Type d \<noteq> cd_Type c) cs),
      api_retry = retry_n 4,
      api_sha = (\<lambda>s. s @ replicate 64 (CHR ''0'')),
      api_time = (\<lambda>_. ''2025-01-01T00:00:00Z'')\<rparr>"

lemma store_api_simps [simp]:
  "api_get store_api k e = (Inr e, e)" "api_update store_api e' e = (None, e')"
  "api_patch store_api e0 e' e = (None, e')"
  "api_retry store_api = retry_n 4"
  "api_find store_api cs t = find (\<lambda>c. cd_Type c = t) cs"
  "api_set store_api c cs = c # filter (\<lambda>d. cd_Type d \<noteq> cd_Type c) cs"
  by (simp_all add: store_api_def)

lemma sync_example: "fst (syncStatus store_api 5 example_environment ready_pod example_environment) = None"
  by code_simp


text \<open>A reserved execution generation is fresh and lawful: the reservation read an object of the same
  UID and generation that is neither deleting nor paused nor suspended, the reserved number is one
  above every execution that object has seen and stays in int64, it is durably patched before it is
  returned, and the published status has no pod and no endpoint while it is being provisioned.\<close>

theorem reserve_execution_fresh:
  assumes "reserveExecutionGeneration api e w = (Inr g, e', w')"
  shows "\<exists>cur after w1. api_get api (objectKey e) w = (Inr cur, w1) \<and> env_UID cur = env_UID e
    \<and> env_Generation cur = env_Generation e \<and> om_DeletionTimestamp (en_Meta cur) = None
    \<and> \<not> sp_Paused (en_Spec cur) \<and> \<not> lst_Suspended (env_LStatus cur)
    \<and> g = st_ExecutionGeneration (en_Status cur) + 1 \<and> g \<noteq> 2 ^ 63
    \<and> api_patch api cur after w1 = (None, w') \<and> en_Status e' = en_Status after
    \<and> st_ExecutionGeneration (en_Status after) = g \<and> st_PodName (en_Status after) = []
    \<and> ep_Sandboxd (st_Endpoints (en_Status after)) = []
    \<and> st_Recovery (en_Status after) = st_Recovery (en_Status cur)"
proof -
  from assms obtain cur w1 where get: "api_get api (objectKey e) w = (Inr cur, w1)"
    by (auto simp: reserveExecutionGeneration_def split: prod.splits sum.splits)
  have guards: "env_UID cur = env_UID e" "env_Generation cur = env_Generation e"
    "om_DeletionTimestamp (en_Meta cur) = None" "\<not> sp_Paused (en_Spec cur)"
    "\<not> lst_Suspended (env_LStatus cur)" "st_ExecutionGeneration (en_Status cur) \<noteq> 2 ^ 63 - 1"
    using assms get by (auto simp: reserveExecutionGeneration_def split: if_splits)
  with assms get obtain after where
    "api_patch api cur after w1 = (None, w')" "en_Status e' = en_Status after"
    "g = st_ExecutionGeneration (en_Status cur) + 1" "st_ExecutionGeneration (en_Status after) = g"
    "st_PodName (en_Status after) = []" "ep_Sandboxd (st_Endpoints (en_Status after)) = []"
    "st_Recovery (en_Status after) = st_Recovery (en_Status cur)"
    by (auto simp: reserveExecutionGeneration_def Let_def split: prod.splits option.splits)
  with guards get show ?thesis by (intro exI conjI) (assumption | simp)+
qed

lemma reserve_example:
  "fst (reserveExecutionGeneration store_api example_environment example_environment) = Inr 2"
  by code_simp

theorem reserve_execution_fresh_witness:
  "fst (reserveExecutionGeneration store_api example_environment example_environment) = Inr 2
   \<and> (\<exists>cur :: nat Environment. env_UID cur = ''u1'' \<and> (2 :: int) = st_ExecutionGeneration (en_Status cur) + 1)"
proof -
  obtain e' w' where run: "reserveExecutionGeneration store_api example_environment example_environment = (Inr 2, e', w')"
    using reserve_example by (metis prod.collapse)
  have u: "env_UID example_environment = ''u1''" by (simp add: example_environment_def)
  from reserve_execution_fresh [OF run] u reserve_example show ?thesis by metis
qed

text \<open>Pausing never acknowledges a live execution domain: when no pod name or endpoint is published
  but the pod still exists, the handler leaves the Environment's status as it is, does not finish,
  and touches the pod only when this very Environment (name and UID) controls it and the observed
  pod has a UID to fence the deletion with.\<close>

theorem paused_keeps_pending_while_pod_exists:
  assumes "reconcilePaused api e w = (r, e', w')"
    and "st_PodName (en_Status e) = []" "ep_Sandboxd (st_Endpoints (en_Status e)) = []"
    and "\<not> IsEnvironmentReady (api_find api) e"
    and "api_get_pod api (om_Namespace (en_Meta e), envPodName (api_sha api) e) w = (Inr pod, w1)"
  shows "e' = e \<and> r \<noteq> Inr Done
    \<and> (w' = w1 \<or> ownedBy api pod e \<and> po_UID pod \<noteq> [] \<and> w' = snd (api_delete api pod w1))"
  using assms
  by (auto simp: reconcilePaused_def fenceChild_def deleteObservedChild_def
      split: prod.splits if_splits option.splits)

definition pausing_example :: "nat Environment" where
  "pausing_example = example_environment\<lparr>en_Status := zero_status\<lparr>st_Phase := EnvironmentPhasePaused,
     st_Lifecycle := zero_lifecycle_status\<lparr>lst_Suspended := True, lst_PendingSuspendRequestID := ''s''\<rparr>\<rparr>\<rparr>"

definition pausing_api :: "(nat Environment, nat, unit) api" where
  "pausing_api = store_api\<lparr>api_get_pod := (\<lambda>_ e. (Inr ready_pod, e))\<rparr>"

theorem paused_keeps_pending_while_pod_exists_witness:
  "reconcilePaused pausing_api pausing_example pausing_example
     = (Inl (ECollision ''Pod'' ''env-env''), pausing_example, pausing_example)"
proof -
  obtain r e' w' where run: "reconcilePaused pausing_api pausing_example pausing_example = (r, e', w')"
    by (metis prod_cases3)
  have st: "st_PodName (en_Status pausing_example) = []"
    "ep_Sandboxd (st_Endpoints (en_Status pausing_example)) = []"
    "\<not> IsEnvironmentReady (api_find pausing_api) pausing_example"
    by (simp_all add: pausing_example_def example_environment_def zero_defs IsEnvironmentReady_def
        pausing_api_def)
  have "e' = pausing_example \<and>
      (w' = pausing_example \<or> ownedBy pausing_api ready_pod pausing_example \<and> po_UID ready_pod \<noteq> []
         \<and> w' = snd (api_delete pausing_api ready_pod pausing_example))"
    using paused_keeps_pending_while_pod_exists [OF run st, of ready_pod pausing_example]
    by (auto simp: pausing_api_def)
  moreover have "\<not> ownedBy pausing_api ready_pod pausing_example"
    by (simp add: exactControllerOwner_def pausing_api_def store_api_def)
  moreover have "r = Inl (ECollision ''Pod'' ''env-env'')"
    using run st by (simp add: reconcilePaused_def fenceChild_def exactControllerOwner_def pausing_api_def store_api_def
        envPodName_def envChildName_def pausing_example_def example_environment_def zero_defs)
  ultimately show ?thesis using run by simp
qed

text \<open>(C40) Child names: an Environment name of more than 63 bytes yields child names of at most 63 bytes
  (for the suffixes the reconciler uses, with a digest of at least 12 digits), while a shorter name
  is kept whole, so the child name then has exactly four bytes more than name and suffix together
  and may exceed 63 bytes itself.\<close>

theorem child_name_length:
  "(length (om_Name (en_Meta e)) \<le> 63 \<longrightarrow>
      length (envChildName sha e sfx) = 4 + length (om_Name (en_Meta e)) + length sfx)
   \<and> (63 < length (om_Name (en_Meta e)) \<and> sfx \<in> {[], ''-sandboxd''} \<and> 12 \<le> length (sha (env_UID e)) \<longrightarrow>
      length (envChildName sha e sfx) \<le> 63)"
proof -
  let ?max = "63 - length ''env-'' - 1 - length (take 12 (sha (env_UID e))) - length sfx"
  let ?n = "trimRight {CHR ''-'', CHR ''.''} (take ?max (om_Name (en_Meta e)))"
  have "length ?n \<le> ?max"
    by (rule order_trans [OF trimRight_length]) simp
  then show ?thesis by (auto simp: envChildName_def Let_def)
qed

definition long_named :: "nat \<Rightarrow> nat Environment" where
  "long_named n = zero_environment\<lparr>en_Meta := zero_meta\<lparr>om_Name := replicate n (CHR ''a'')\<rparr>\<rparr>"

theorem child_name_length_witness:
  "length (envChildName (\<lambda>_. replicate 64 (CHR ''0'')) (long_named 63) ''-sandboxd'') = 76
   \<and> length (envChildName (\<lambda>_. replicate 64 (CHR ''0'')) (long_named 80) ''-sandboxd'') \<le> 63"
  using child_name_length [of "long_named 63" "\<lambda>_. replicate 64 (CHR ''0'')" "''-sandboxd''"]
    child_name_length [of "long_named 80" "\<lambda>_. replicate 64 (CHR ''0'')" "''-sandboxd''"]
  by (simp add: long_named_def)

end
