(* ===== verification/Environment_Recovery.thy ===== *)
theory Environment_Recovery
  imports Environment_Status
begin

text \<open>
  Automatic replacement of terminal environment pods:
  \<open>src/internal/controllers/environment_recovery.go\<close> with \<open>updatePodRecoveryStatus\<close> and
  \<open>samePodRecoveryState\<close> of \<open>environment_controller.go\<close>.

  Each phase returns the error or (result, handled), the in-memory Environment, the recovery
  metrics it observed, and the world. \<open>attempts\<close> is kept at int32 and durations at int64.
\<close>

section \<open>Budget\<close>

abbreviation "podRecoveryLimit \<equiv> (3 :: int)"
abbreviation "podRecoveryDelay \<equiv> (5000000000 :: int)"

text \<open>\<open>podRecoveryDelay * time.Duration(1 << attempts)\<close>; a negative shift count panics.\<close>

definition podRecoveryBackoff :: "int \<Rightarrow> int option" where
  "podRecoveryBackoff attempts =
     (if attempts < 0 then None
      else Some (wrap_i64 (podRecoveryDelay * (if 64 \<le> attempts then 0 else wrap_i64 (2 ^ nat attempts)))))"

definition nestedRecoveryMeaningful :: "EnvironmentRecoveryStatus \<Rightarrow> bool" where
  "nestedRecoveryMeaningful r \<longleftrightarrow>
     rv_Attempts r \<noteq> 0 \<or> rv_Exhausted r \<or> rv_ExecutionGeneration r \<noteq> 0 \<or> rv_NextAttemptAt r \<noteq> None"

definition legacyRecoveryMeaningful :: "'q EnvironmentStatus \<Rightarrow> bool" where
  "legacyRecoveryMeaningful st \<longleftrightarrow>
     st_PodRecoveryAttempts st \<noteq> 0 \<or> st_PodRecoveryExhausted st \<or> st_PodRecoveryUID st \<noteq> []
     \<or> st_PodRecoveryNextAttemptAt st \<noteq> None"

definition effectivePodRecovery :: "'q EnvironmentStatus \<Rightarrow> EnvironmentRecoveryStatus \<times> bool" where
  "effectivePodRecovery st =
     (if nestedRecoveryMeaningful (st_Recovery st) \<or> \<not> legacyRecoveryMeaningful st
      then (st_Recovery st, False)
      else (\<lparr>rv_Attempts = st_PodRecoveryAttempts st, rv_Exhausted = st_PodRecoveryExhausted st,
             rv_ExecutionGeneration = 0, rv_NextAttemptAt = st_PodRecoveryNextAttemptAt st\<rparr>, True))"

definition podRecoveryPhase :: "'q Environment \<Rightarrow> Pod option \<Rightarrow> EnvironmentPhase" where
  "podRecoveryPhase e pod =
     (if isResumeReplacement e \<or> (case pod of None \<Rightarrow> False | Some p \<Rightarrow> podIsResume p)
      then EnvironmentPhaseResuming else EnvironmentPhaseCreating)"

section \<open>Fenced recovery updates\<close>

definition samePodRecoveryState :: "'q EnvironmentStatus \<Rightarrow> 'q EnvironmentStatus \<Rightarrow> bool" where
  "samePodRecoveryState l r \<longleftrightarrow>
     st_ExecutionGeneration l = st_ExecutionGeneration r
     \<and> rv_Attempts (st_Recovery l) = rv_Attempts (st_Recovery r)
     \<and> rv_Exhausted (st_Recovery l) = rv_Exhausted (st_Recovery r)
     \<and> rv_ExecutionGeneration (st_Recovery l) = rv_ExecutionGeneration (st_Recovery r)
     \<and> rv_NextAttemptAt (st_Recovery l) = rv_NextAttemptAt (st_Recovery r)
     \<and> st_PodRecoveryAttempts l = st_PodRecoveryAttempts r
     \<and> st_PodRecoveryExhausted l = st_PodRecoveryExhausted r
     \<and> st_PodRecoveryUID l = st_PodRecoveryUID r
     \<and> st_PodRecoveryNextAttemptAt l = st_PodRecoveryNextAttemptAt r"

definition podRecoveryAttempt ::
  "('w, 'q, 'k) api \<Rightarrow> 'q Environment \<Rightarrow> ('q Environment \<Rightarrow> 'q Environment)
     \<Rightarrow> ('w, 'q) captured \<Rightarrow> 'k err option \<times> ('w, 'q) captured" where
  "podRecoveryAttempt api e mutate c =
     (case c of (w, updated, flags) \<Rightarrow>
        (case api_get api (objectKey e) w of
           (Inl k, w') \<Rightarrow> (Some (EKube k), w', updated, flags)
         | (Inr cur, w') \<Rightarrow>
             if env_UID cur \<noteq> env_UID e then (Some EIncarnationChanged, w', cur, flags)
             else if \<not> samePodRecoveryState (en_Status e) (en_Status cur)
             then (Some ERecoveryChanged, w', cur, flags)
             else let cur' = mutate cur in
               if en_Status cur = en_Status cur' then (None, w', cur', flags)
               else (case api_update api cur' w' of (r, w'') \<Rightarrow> (map_option EKube r, w'', cur', flags))))"

definition updatePodRecoveryStatus ::
  "('w, 'q, 'k) api \<Rightarrow> 'q Environment \<Rightarrow> ('q Environment \<Rightarrow> 'q Environment) \<Rightarrow> 'w
     \<Rightarrow> 'k err option \<times> 'q Environment \<times> 'w" where
  "updatePodRecoveryStatus api e mutate w =
     (case api_retry api (podRecoveryAttempt api e mutate) (w, zero_environment, False, False) of
        (None, w', updated, flags) \<Rightarrow> (None, e\<lparr>en_Status := en_Status updated\<rparr>, w')
      | (Some x, w', updated, flags) \<Rightarrow> (Some x, e, w'))"

text \<open>How every caller treats the outcome: a concurrent recovery transition is a requeue.\<close>

type_synonym ('w, 'q, 'k) recovery_outcome =
  "('k err + ctrl_result \<times> bool) \<times> 'q Environment \<times> string list \<times> 'w"

definition afterRecoveryUpdate ::
  "'k err option \<times> 'q Environment \<times> 'w \<Rightarrow> ctrl_result \<Rightarrow> string list \<Rightarrow> ('w, 'q, 'k) recovery_outcome" where
  "afterRecoveryUpdate u result metrics =
     (case u of
        (None, e, w) \<Rightarrow> (Inr (result, True), e, metrics, w)
      | (Some x, e, w) \<Rightarrow>
          (case x of ERecoveryChanged \<Rightarrow> (Inr (Requeue, True), e, [], w) | _ \<Rightarrow> (Inl x, e, [], w)))"

section \<open>Migration of the flat representation\<close>

definition migrateRecovery :: "int \<Rightarrow> 'q Environment \<Rightarrow> 'q Environment" where
  "migrateRecovery gen cur =
     (let st = en_Status cur;
          st1 = (if \<not> nestedRecoveryMeaningful (st_Recovery st)
                 then st\<lparr>st_Recovery := \<lparr>rv_Attempts = st_PodRecoveryAttempts st,
                        rv_Exhausted = st_PodRecoveryExhausted st, rv_ExecutionGeneration = gen,
                        rv_NextAttemptAt = st_PodRecoveryNextAttemptAt st\<rparr>\<rparr>
                 else st)
      in cur\<lparr>en_Status := st1\<lparr>st_PodRecoveryAttempts := 0, st_PodRecoveryExhausted := False,
               st_PodRecoveryUID := [], st_PodRecoveryNextAttemptAt := None\<rparr>\<rparr>)"

definition migratedGeneration :: "('w, 'q, 'k) api \<Rightarrow> 'q Environment \<Rightarrow> Pod \<Rightarrow> int" where
  "migratedGeneration api e pod =
     (case podExecutionGeneration pod of
        None \<Rightarrow> 0
      | Some g \<Rightarrow> if po_UID pod = st_PodRecoveryUID (en_Status e) \<and> ownedBy api pod e
                     \<and> g = st_ExecutionGeneration (en_Status e) then g else 0)"

definition reconcilePodRecoveryMigration ::
  "('w, 'q, 'k) api \<Rightarrow> 'q Environment \<Rightarrow> 'w \<Rightarrow> ('w, 'q, 'k) recovery_outcome" where
  "reconcilePodRecoveryMigration api e w =
     (if \<not> legacyRecoveryMeaningful (en_Status e) then (Inr (Done, False), e, [], w)
      else if nestedRecoveryMeaningful (st_Recovery (en_Status e))
      then afterRecoveryUpdate (updatePodRecoveryStatus api e (migrateRecovery 0) w) Requeue []
      else (case api_get_pod api (om_Namespace (en_Meta e), envPodName (api_sha api) e) w of
              (Inr pod, w1) \<Rightarrow>
                afterRecoveryUpdate
                  (updatePodRecoveryStatus api e (migrateRecovery (migratedGeneration api e pod)) w1) Requeue []
            | (Inl k, w1) \<Rightarrow>
                if api_not_found api k
                then afterRecoveryUpdate (updatePodRecoveryStatus api e (migrateRecovery 0) w1) Requeue []
                else (Inl (EKube k), e, [], w1)))"

section \<open>Pending recovery\<close>

definition conditionStale :: "'q Environment \<Rightarrow> Condition option \<Rightarrow> string \<Rightarrow> bool" where
  "conditionStale e ready reason =
     (case ready of
        None \<Rightarrow> True
      | Some c \<Rightarrow> cd_ObservedGeneration c \<noteq> env_Generation e \<or> cd_Status c \<noteq> ConditionFalse
          \<or> cd_Reason c \<noteq> reason)"

definition setRecovery ::
  "(EnvironmentRecoveryStatus \<Rightarrow> EnvironmentRecoveryStatus) \<Rightarrow> 'q Environment \<Rightarrow> 'q Environment" where
  "setRecovery f e = e\<lparr>en_Status := (en_Status e)\<lparr>st_Recovery := f (st_Recovery (en_Status e))\<rparr>\<rparr>"

definition startAttempt ::
  "('w, 'q, 'k) api \<Rightarrow> int \<Rightarrow> int \<Rightarrow> int option \<Rightarrow> 'q Environment \<Rightarrow> 'q Environment" where
  "startAttempt api attempts gen lastActive cur =
     clearChildOwnershipCollision api
       (setRecovery (\<lambda>r. r\<lparr>rv_Attempts := attempts, rv_ExecutionGeneration := gen, rv_NextAttemptAt := None\<rparr>)
          (applyEnvironmentStatus (api_set api) (podRecoveryPhase cur None) [] [] ''PodRecovering''
             (''replacing terminal environment pod (recovery attempt '' @ format_int attempts @ '' of ''
               @ format_int podRecoveryLimit @ '')'') lastActive cur))"

definition reconcilePendingPodRecovery ::
  "('w, 'q, 'k) api \<Rightarrow> int \<Rightarrow> 'q Environment \<Rightarrow> 'w \<Rightarrow> ('w, 'q, 'k) recovery_outcome" where
  "reconcilePendingPodRecovery api now e w =
     (let recovery = fst (effectivePodRecovery (en_Status e));
          ready = api_find api (st_Conditions (en_Status e)) EnvironmentConditionReady
      in if rv_Exhausted recovery then
           (if conditionStale e ready ''PodRecoveryExhausted''
            then (case setEnvironmentStatus api e EnvironmentPhaseFailed (st_PodName (en_Status e)) []
                         ''PodRecoveryExhausted''
                         (''automatic recovery is exhausted after '' @ format_int (rv_Attempts recovery)
                           @ '' terminal pod replacements'') w of
                    (Some x, e', w') \<Rightarrow> (Inl x, e', [], w')
                  | (None, e', w') \<Rightarrow> (Inr (Done, True), e', [], w'))
            else (Inr (Done, True), e, [], w))
         else case rv_NextAttemptAt recovery of
           None \<Rightarrow> (Inr (Done, False), e, [], w)
         | Some next \<Rightarrow>
             if now < next then
               (if conditionStale e ready ''PodRecoveryPending''
                then (case setEnvironmentStatus api e (podRecoveryPhase e None) [] [] ''PodRecoveryPending''
                             (''terminal pod recovery attempt '' @ format_int (wrap_i32 (rv_Attempts recovery + 1))
                               @ '' of '' @ format_int podRecoveryLimit @ '' is scheduled for ''
                               @ api_time api next) w of
                        (Some x, e', w') \<Rightarrow> (Inl x, e', [], w')
                      | (None, e', w') \<Rightarrow> (Inr (RequeueAfter (next - now), True), e', [], w'))
                else (Inr (RequeueAfter (next - now), True), e, [], w))
             else
               afterRecoveryUpdate
                 (updatePodRecoveryStatus api e
                    (startAttempt api (wrap_i32 (rv_Attempts recovery + 1)) (rv_ExecutionGeneration recovery)
                       (st_LastActiveAt (en_Status e))) w) Requeue [''attempt''])"

section \<open>A terminal pod\<close>

definition exhaustRecovery ::
  "('w, 'q, 'k) api \<Rightarrow> Pod \<Rightarrow> int \<Rightarrow> int \<Rightarrow> int option \<Rightarrow> 'q Environment \<Rightarrow> 'q Environment" where
  "exhaustRecovery api pod attempts gen lastActive cur =
     clearChildOwnershipCollision api
       (setRecovery (\<lambda>r. r\<lparr>rv_Exhausted := True, rv_ExecutionGeneration := gen\<rparr>)
          (applyEnvironmentStatus (api_set api) EnvironmentPhaseFailed (po_Name pod) [] ''PodRecoveryExhausted''
             (''environment pod '' @ ascii_lower (po_Phase pod) @ '' after '' @ format_int attempts
               @ '' recovery attempts; automatic recovery is exhausted'') lastActive cur))"

definition scheduleRecovery ::
  "('w, 'q, 'k) api \<Rightarrow> Pod \<Rightarrow> int \<Rightarrow> int \<Rightarrow> int \<Rightarrow> int option \<Rightarrow> 'q Environment \<Rightarrow> 'q Environment" where
  "scheduleRecovery api pod attempts gen next lastActive cur =
     clearChildOwnershipCollision api
       (setRecovery (\<lambda>r. r\<lparr>rv_Attempts := attempts, rv_Exhausted := False, rv_ExecutionGeneration := gen,
                          rv_NextAttemptAt := Some next\<rparr>)
          (applyEnvironmentStatus (api_set api) (podRecoveryPhase cur (Some pod)) [] [] ''PodRecoveryPending''
             (''environment pod '' @ ascii_lower (po_Phase pod) @ ''; recovery attempt ''
               @ format_int (wrap_i32 (attempts + 1)) @ '' of '' @ format_int podRecoveryLimit
               @ '' is scheduled for '' @ api_time api next) lastActive cur))"

definition reconcileTerminalPod ::
  "('w, 'q, 'k) api \<Rightarrow> int \<Rightarrow> 'q Environment \<Rightarrow> Pod \<Rightarrow> 'w \<Rightarrow> ('w, 'q, 'k) recovery_outcome" where
  "reconcileTerminalPod api now e pod w =
     (case podExecutionGeneration pod of
        None \<Rightarrow> (Inl (EText ''terminal environment pod has invalid execution generation''), e, [], w)
      | Some gen \<Rightarrow>
          if gen \<noteq> st_ExecutionGeneration (en_Status e) then (Inr (Requeue, True), e, [], w)
          else
            (let recovery = fst (effectivePodRecovery (en_Status e));
                 attempts = rv_Attempts recovery;
                 lastActive = st_LastActiveAt (en_Status e)
             in if rv_ExecutionGeneration recovery \<noteq> gen then
                  (if podRecoveryLimit \<le> attempts
                   then afterRecoveryUpdate
                          (updatePodRecoveryStatus api e (exhaustRecovery api pod attempts gen lastActive) w)
                          Done [''exhausted'']
                   else case podRecoveryBackoff attempts of
                          None \<Rightarrow> (Inl EPanic, e, [], w)
                        | Some delay \<Rightarrow>
                            afterRecoveryUpdate
                              (updatePodRecoveryStatus api e
                                 (scheduleRecovery api pod attempts gen (now + delay) lastActive) w)
                              (RequeueAfter delay) [])
                else case rv_NextAttemptAt recovery of
                       Some next \<Rightarrow>
                         (Inr (if now < next then RequeueAfter (next - now) else Requeue, True), e, [], w)
                     | None \<Rightarrow>
                         (case deleteObservedChild api pod w of
                            (Some x, w') \<Rightarrow>
                              if isNotFound api x then (Inr (Requeue, True), e, [], w')
                              else (Inl (EWrap ''delete terminal pod for recovery'' x), e, [], w')
                          | (None, w') \<Rightarrow> (Inr (Requeue, True), e, [], w'))))"

section \<open>Lemmas\<close>

lemma backoff_value:
  assumes "0 \<le> a" "a < podRecoveryLimit"
  shows "podRecoveryBackoff a = Some (podRecoveryDelay * 2 ^ nat a)"
proof -
  from assms have "a = 0 \<or> a = 1 \<or> a = 2" by auto
  then show ?thesis by (auto simp: podRecoveryBackoff_def)
qed

lemma setRecovery_fields [simp]:
  "en_Meta (setRecovery f e) = en_Meta e" "en_Spec (setRecovery f e) = en_Spec e"
  "st_Recovery (en_Status (setRecovery f e)) = f (st_Recovery (en_Status e))"
  "st_Phase (en_Status (setRecovery f e)) = st_Phase (en_Status e)"
  "st_ExecutionGeneration (en_Status (setRecovery f e)) = st_ExecutionGeneration (en_Status e)"
  "st_PodRecoveryAttempts (en_Status (setRecovery f e)) = st_PodRecoveryAttempts (en_Status e)"
  "st_PodRecoveryExhausted (en_Status (setRecovery f e)) = st_PodRecoveryExhausted (en_Status e)"
  "st_PodRecoveryUID (en_Status (setRecovery f e)) = st_PodRecoveryUID (en_Status e)"
  "st_PodRecoveryNextAttemptAt (en_Status (setRecovery f e)) = st_PodRecoveryNextAttemptAt (en_Status e)"
  by (simp_all add: setRecovery_def)

lemmas recovery_mutations = startAttempt_def exhaustRecovery_def scheduleRecovery_def

lemma effective_nested: "\<not> legacyRecoveryMeaningful st \<Longrightarrow> effectivePodRecovery st = (st_Recovery st, False)"
  by (simp add: effectivePodRecovery_def)

lemma updatePodRecoveryStatus_ok:
  assumes "retry_ok (api_retry api)" "updatePodRecoveryStatus api e mutate w = (None, e', w')"
  obtains cur w0 w1 where "api_get api (objectKey e) w0 = (Inr cur, w1)" "env_UID cur = env_UID e"
    "samePodRecoveryState (en_Status e) (en_Status cur)" "e' = e\<lparr>en_Status := en_Status (mutate cur)\<rparr>"
    "en_Status (mutate cur) = en_Status cur \<and> w' = w1 \<or> api_update api (mutate cur) w1 = (None, w')"
proof -
  from assms(2) obtain upd flags where
    run: "api_retry api (podRecoveryAttempt api e mutate) (w, zero_environment, False, False)
            = (None, w', upd, flags)" and e': "e' = e\<lparr>en_Status := en_Status upd\<rparr>"
    by (auto simp: updatePodRecoveryStatus_def split: prod.splits option.splits)
  obtain c where c: "podRecoveryAttempt api e mutate c = (None, w', upd, flags)"
    using retry_success_last [OF assms(1) run] by blast
  obtain w0 u fl where cc: "c = (w0, u, fl)" by (metis prod_cases3)
  from c obtain cur w1 where get: "api_get api (objectKey e) w0 = (Inr cur, w1)"
    and ok: "env_UID cur = env_UID e" "samePodRecoveryState (en_Status e) (en_Status cur)"
    by (auto simp: podRecoveryAttempt_def cc split: prod.splits sum.splits if_splits)
  from c get ok have "upd = mutate cur
      \<and> (en_Status (mutate cur) = en_Status cur \<and> w' = w1 \<or> api_update api (mutate cur) w1 = (None, w'))"
    by (auto simp: podRecoveryAttempt_def cc Let_def split: prod.splits if_splits)
  with get ok e' show ?thesis by (intro that [of w0 cur w1]) auto
qed

lemma afterRecoveryUpdate_ok:
  assumes "afterRecoveryUpdate u res ms = (Inr (res', True), e', ms', w')" "res' \<noteq> Requeue \<or> ms' \<noteq> []"
  shows "u = (None, e', w') \<and> res' = res \<and> ms' = ms"
  using assms by (auto simp: afterRecoveryUpdate_def split: prod.splits option.splits err.splits)

lemma same_recovery:
  "samePodRecoveryState l r \<Longrightarrow> st_Recovery l = st_Recovery r"
  by (auto simp: samePodRecoveryState_def)

section \<open>Runs against the stored object\<close>

text \<open>
  One Environment in the store, reconciled by any interleaving of the recovery phases, execution
  reservations, status synchronisations and spec edits. The ghost list collects the recovery
  metrics since the last time sandboxd was ready.
\<close>

datatype recovery_event =
  Pending int
| Terminal int Pod
| Migrate
| Reserve
| Sync int Pod
| EditSpec EnvironmentSpec int

fun recoveryStep ::
  "'q Environment \<times> string list \<Rightarrow> recovery_event \<Rightarrow> 'q Environment \<times> string list" where
  "recoveryStep (e, log) (Pending now) =
     (case reconcilePendingPodRecovery store_api now e e of (r, e', ms, w) \<Rightarrow> (w, log @ ms))"
| "recoveryStep (e, log) (Terminal now pod) =
     (case reconcileTerminalPod store_api now e pod e of (r, e', ms, w) \<Rightarrow> (w, log @ ms))"
| "recoveryStep (e, log) Migrate =
     (case reconcilePodRecoveryMigration store_api e e of (r, e', ms, w) \<Rightarrow> (w, log @ ms))"
| "recoveryStep (e, log) Reserve = (case reserveExecutionGeneration store_api e e of (r, e', w) \<Rightarrow> (w, log))"
| "recoveryStep (e, log) (Sync now pod) =
     (case syncStatus store_api now e pod e of (r, e', w) \<Rightarrow>
        (w, if st_Recovery (en_Status w) = zero_recovery then [] else log))"
| "recoveryStep (e, log) (EditSpec sp gen) =
     (e\<lparr>en_Spec := sp, en_Meta := (en_Meta e)\<lparr>om_Generation := gen\<rparr>\<rparr>, log)"

definition recoveryInv :: "'q Environment \<times> string list \<Rightarrow> bool" where
  "recoveryInv s = (case s of (e, log) \<Rightarrow>
     (let r = st_Recovery (en_Status e) in
      \<not> legacyRecoveryMeaningful (en_Status e)
      \<and> rv_Attempts r = int (length (filter (\<lambda>m. m = ''attempt'') log))
      \<and> rv_Attempts r \<le> podRecoveryLimit
      \<and> (rv_NextAttemptAt r \<noteq> None \<longrightarrow> rv_Attempts r < podRecoveryLimit)
      \<and> (rv_Exhausted r \<longrightarrow> rv_Attempts r = podRecoveryLimit)))"

lemma updatePodRecoveryStatus_store:
  assumes "en_Meta (mutate e) = en_Meta e" "en_Spec (mutate e) = en_Spec e"
  shows "updatePodRecoveryStatus store_api e mutate e = (None, mutate e, mutate e)"
proof -
  have eq: "e\<lparr>en_Status := en_Status (mutate e)\<rparr> = mutate e"
    using assms by (simp add: Environment.equality)
  have "en_Status e = en_Status (mutate e) \<Longrightarrow> mutate e = e" using eq by (metis Environment.surjective Environment.update_convs(3))
  then have "podRecoveryAttempt store_api e mutate (e, zero_environment, False, False)
      = (None, mutate e, mutate e, False, False)"
    by (auto simp: podRecoveryAttempt_def samePodRecoveryState_def Let_def)
  then show ?thesis
    by (simp add: updatePodRecoveryStatus_def eq retry_n_first)
qed

lemma updateEnvironmentStatus_store:
  assumes "en_Meta (fst (mutate e (False, False))) = en_Meta e" "en_Spec (fst (mutate e (False, False))) = en_Spec e"
  shows "updateEnvironmentStatus store_api e mutate e
           = (None, fst (mutate e (False, False)), snd (mutate e (False, False)), fst (mutate e (False, False)))"
proof -
  obtain m fl where m: "mutate e (False, False) = (m, fl)" by (metis surj_pair)
  have eq: "e\<lparr>en_Status := en_Status m\<rparr> = m"
    using assms m by (simp add: Environment.equality)
  have "en_Status e = en_Status m \<Longrightarrow> m = e" using eq by (metis Environment.surjective Environment.update_convs(3))
  then have "updateStatusAttempt store_api e mutate (e, zero_environment, False, False) = (None, m, m, fl)"
    by (auto simp: updateStatusAttempt_def m)
  then show ?thesis
    by (simp add: updateEnvironmentStatus_def eq m retry_n_first)
qed

lemma setEnvironmentStatus_store:
  "\<exists>e'. setEnvironmentStatus store_api e ph p s r m e = (None, e', e')
     \<and> st_Recovery (en_Status e') = st_Recovery (en_Status e)
     \<and> legacyRecoveryMeaningful (en_Status e') = legacyRecoveryMeaningful (en_Status e)"
  unfolding setEnvironmentStatus_def
  by (subst updateEnvironmentStatus_store) (simp_all add: legacyRecoveryMeaningful_def)

lemma pending_inv: "recoveryInv (e, log) \<Longrightarrow> recoveryInv (recoveryStep (e, log) (Pending now))"
proof -
  assume inv: "recoveryInv (e, log)"
  let ?r = "st_Recovery (en_Status e)"
  have leg: "\<not> legacyRecoveryMeaningful (en_Status e)" and a0: "0 \<le> rv_Attempts ?r"
    using inv by (auto simp: recoveryInv_def Let_def)
  have frame: "recoveryInv (e', log)"
    if "st_Recovery (en_Status e') = ?r"
      "legacyRecoveryMeaningful (en_Status e') = legacyRecoveryMeaningful (en_Status e)" for e' :: "'a Environment"
    using inv that by (auto simp: recoveryInv_def Let_def)
  have status: "recoveryInv (snd (snd (setEnvironmentStatus store_api e ph p s r m e)), log)" for ph p s r m
    using setEnvironmentStatus_store [of e ph p s r m] frame by auto
  show ?thesis
  proof (cases "\<not> rv_Exhausted ?r \<and> (\<exists>next. rv_NextAttemptAt ?r = Some next \<and> \<not> now < next)")
    case True
    then obtain nxt where n: "\<not> rv_Exhausted ?r" "rv_NextAttemptAt ?r = Some nxt" "\<not> now < nxt" by blast
    with inv have lim: "rv_Attempts ?r < podRecoveryLimit" by (auto simp: recoveryInv_def Let_def)
    have w: "wrap_i32 (rv_Attempts ?r + 1) = rv_Attempts ?r + 1" using lim a0 by simp
    have "updatePodRecoveryStatus store_api e (startAttempt store_api a g l) e
        = (None, startAttempt store_api a g l e, startAttempt store_api a g l e)" for a g l
      by (rule updatePodRecoveryStatus_store) (simp_all add: recovery_mutations)
    with n lim inv show ?thesis
      by (simp add: reconcilePendingPodRecovery_def effective_nested [OF leg] Let_def afterRecoveryUpdate_def w)
         (simp add: recoveryInv_def Let_def legacyRecoveryMeaningful_def recovery_mutations)
  next
    case False
    obtain r' e' w where run: "reconcilePendingPodRecovery store_api now e e = (r', e', [], w)"
      and w: "w = e \<or> (\<exists>ph p s r m. w = snd (snd (setEnvironmentStatus store_api e ph p s r m e)))"
    proof (cases "reconcilePendingPodRecovery store_api now e e")
      case (fields r' e' ms w)
      with False have "ms = []" "w = e \<or> (\<exists>ph p s r m. w = snd (snd (setEnvironmentStatus store_api e ph p s r m e)))"
        unfolding reconcilePendingPodRecovery_def effective_nested [OF leg] Let_def fst_conv
        by (auto split: prod.splits option.splits if_splits) (metis snd_conv)+
      with fields that show ?thesis by blast
    qed
    from w inv status have "recoveryInv (w, log)" by blast
    with run show ?thesis by simp
  qed
qed

lemma terminal_inv: "recoveryInv (e, log) \<Longrightarrow> recoveryInv (recoveryStep (e, log) (Terminal now pod))"
proof -
  assume inv: "recoveryInv (e, log)"
  let ?r = "st_Recovery (en_Status e)"
  have leg: "\<not> legacyRecoveryMeaningful (en_Status e)" and a0: "0 \<le> rv_Attempts ?r"
    using inv by (auto simp: recoveryInv_def Let_def)
  have ex: "updatePodRecoveryStatus store_api e (exhaustRecovery store_api pod a g l) e
        = (None, exhaustRecovery store_api pod a g l e, exhaustRecovery store_api pod a g l e)" for a g l
    by (rule updatePodRecoveryStatus_store) (simp_all add: recovery_mutations)
  have sc: "updatePodRecoveryStatus store_api e (scheduleRecovery store_api pod a g n l) e
        = (None, scheduleRecovery store_api pod a g n l e, scheduleRecovery store_api pod a g n l e)" for a g n l
    by (rule updatePodRecoveryStatus_store) (simp_all add: recovery_mutations)
  have inv1: "podRecoveryLimit \<le> rv_Attempts ?r \<Longrightarrow>
      recoveryInv (exhaustRecovery store_api pod (rv_Attempts ?r) g l e, log @ [''exhausted''])" for g l
    using inv by (auto simp: recoveryInv_def Let_def legacyRecoveryMeaningful_def recovery_mutations)
  have inv2: "rv_Attempts ?r < podRecoveryLimit \<Longrightarrow>
      recoveryInv (scheduleRecovery store_api pod (rv_Attempts ?r) g n l e, log)" for g n l
    using inv by (auto simp: recoveryInv_def Let_def legacyRecoveryMeaningful_def recovery_mutations)
  have del: "snd (deleteObservedChild store_api pod e) = e"
    by (simp add: deleteObservedChild_def store_api_def)
  show ?thesis
    using inv inv1 inv2 del
    by (auto simp: reconcileTerminalPod_def effective_nested [OF leg] Let_def ex sc afterRecoveryUpdate_def
        split: option.splits prod.splits)
qed

lemma migrate_inv: "recoveryInv (e, log) \<Longrightarrow> recoveryInv (recoveryStep (e, log) Migrate)"
  by (auto simp: reconcilePodRecoveryMigration_def recoveryInv_def Let_def)

lemma reserve_inv: "recoveryInv (e, log) \<Longrightarrow> recoveryInv (recoveryStep (e, log) Reserve)"
  by (auto simp: reserveExecutionGeneration_def recoveryInv_def Let_def legacyRecoveryMeaningful_def
      split: prod.splits)

lemma syncMutate_recovery:
  assumes "\<not> legacyRecoveryMeaningful (en_Status e)"
    and "syncMutate store_api pod g st ep l e fl = (e', fl')"
  shows "en_Meta e' = en_Meta e \<and> en_Spec e' = en_Spec e \<and> \<not> legacyRecoveryMeaningful (en_Status e')
    \<and> st_Recovery (en_Status e') \<in> {st_Recovery (en_Status e), zero_recovery}"
  using assms
  by (auto simp: syncMutate_def Let_def clearRecovery_def legacyRecoveryMeaningful_def
      split: prod.splits if_splits)

lemma syncStatus_store:
  fixes e :: "'q Environment"
  assumes "\<not> legacyRecoveryMeaningful (en_Status e)"
  shows "\<exists>r e' w. syncStatus store_api now e pod e = (r, e', w) \<and> \<not> legacyRecoveryMeaningful (en_Status w)
    \<and> st_Recovery (en_Status w) \<in> {st_Recovery (en_Status e), zero_recovery}"
proof -
  obtain r e' w where run: "syncStatus store_api now e pod e = (r, e', w)" by (metis prod_cases3)
  have "w = e \<or> (\<exists>m fl fl' g st ep l. syncMutate store_api pod g st ep l e fl = (m, fl') \<and> w = m)"
  proof (cases "podExecutionGeneration pod = Some (st_ExecutionGeneration (en_Status e))")
    case True
    let ?g = "st_ExecutionGeneration (en_Status e)"
    define st where "st = environmentPodState e pod"
    define ep where "ep = (if fst st = EnvironmentPhaseReady then joinHostPort (po_PodIP pod) ''50051'' else [])"
    define e1 where "e1 = syncActive now (fst st = EnvironmentPhaseReady) e"
    define mt :: "'q Environment \<Rightarrow> bool \<times> bool \<Rightarrow> 'q Environment \<times> bool \<times> bool" where "mt = syncMutate store_api pod ?g st ep (st_LastActiveAt (en_Status e1))"
    have key: "objectKey e1 = objectKey e" "en_Meta e1 = en_Meta e" by (simp_all add: e1_def objectKey_def)
    obtain m fl' where m: "mt e (False, False) = (m, fl')" by (metis surj_pair)
    have keep: "en_Meta m = en_Meta e" "en_Spec m = en_Spec e"
      using syncMutate_recovery [OF assms, of pod ?g st ep _ "(False, False)" m fl'] m by (auto simp: mt_def)
    then have same: "en_Status m = en_Status e \<Longrightarrow> m = e" by (simp add: Environment.equality)
    have "updateStatusAttempt store_api e1 mt (e, zero_environment, False, False) = (None, m, m, fl')"
      using same by (auto simp: updateStatusAttempt_def m key)
    then have "updateEnvironmentStatus store_api e1 mt e = (None, e1\<lparr>en_Status := en_Status m\<rparr>, fl', m)"
      by (simp add: updateEnvironmentStatus_def retry_n_first)
    with run True have "w = m"
      unfolding syncStatus_def Let_def st_def [symmetric] ep_def [symmetric] e1_def [symmetric]
      by (auto simp: mt_def split: prod.splits if_splits)
    with m show ?thesis unfolding mt_def by blast
  next
    case False
    with run show ?thesis by (auto simp: syncStatus_def split: option.splits)
  qed
  then have "\<not> legacyRecoveryMeaningful (en_Status w)
    \<and> st_Recovery (en_Status w) \<in> {st_Recovery (en_Status e), zero_recovery}"
    using assms syncMutate_recovery [OF assms] by blast
  with run show ?thesis by blast
qed

lemma sync_inv: "recoveryInv (e, log) \<Longrightarrow> recoveryInv (recoveryStep (e, log) (Sync now pod))"
proof -
  assume inv: "recoveryInv (e, log)"
  then have "\<not> legacyRecoveryMeaningful (en_Status e)" by (simp add: recoveryInv_def Let_def)
  from syncStatus_store [OF this, of now pod] obtain r e' w
    where "syncStatus store_api now e pod e = (r, e', w)" "\<not> legacyRecoveryMeaningful (en_Status w)"
      "st_Recovery (en_Status w) = st_Recovery (en_Status e) \<or> st_Recovery (en_Status w) = zero_recovery"
    by auto
  with inv show ?thesis by (auto simp: recoveryInv_def Let_def zero_recovery_def)
qed

lemma recoveryStep_inv: "recoveryInv s \<Longrightarrow> recoveryInv (recoveryStep s ev)"
proof (cases s)
  case (Pair e log)
  assume "recoveryInv s"
  then have inv: "recoveryInv (e, log)" by (simp only: Pair)
  show ?thesis
    unfolding Pair
  proof (cases ev)
    case (EditSpec sp gen)
    with inv show "recoveryInv (recoveryStep (e, log) ev)" by (simp add: recoveryInv_def)
  qed (simp_all only: pending_inv [OF inv] terminal_inv [OF inv] migrate_inv [OF inv]
      reserve_inv [OF inv] sync_inv [OF inv])
qed

interpretation recovery: step_system recoveryStep recoveryInv
  by unfold_locales (rule recoveryStep_inv)

section \<open>Properties\<close>


definition failed_pod :: "string \<Rightarrow> Pod" where
  "failed_pod g = ready_pod\<lparr>po_Phase := ''Failed'', po_Annotations := [(''swe.dev/execution-generation'', g)]\<rparr>"

definition recovery_run :: "recovery_event list" where
  "recovery_run = [Terminal 0 (failed_pod ''1''), Pending 5000000000, Reserve, Terminal 6000000000 (failed_pod ''2''),
     Pending 16000000000]"

lemma recovery_example:
  "rv_Attempts (st_Recovery (en_Status (fst (foldl recoveryStep (example_environment, []) recovery_run)))) = 2"
  by code_simp


text \<open>Accounting of one terminal pod, for any client: a pod of the current execution that was already
  accounted for changes no status and no metric; otherwise, when the update succeeds, either the
  budget is used up and the exhausted latch is set for this execution, or a replacement is scheduled
  exactly five seconds times two to the attempts so far after now, with the counter unchanged.\<close>

theorem terminal_pod_accounting:
  assumes "retry_ok (api_retry api)" "\<not> legacyRecoveryMeaningful (en_Status e)"
    and "podExecutionGeneration pod = Some (st_ExecutionGeneration (en_Status e))"
    and "0 \<le> rv_Attempts (st_Recovery (en_Status e))"
    and "reconcileTerminalPod api now e pod w = (Inr (res, True), e', ms, w')"
    and "rv_ExecutionGeneration (st_Recovery (en_Status e)) \<noteq> st_ExecutionGeneration (en_Status e) \<longrightarrow> res \<noteq> Requeue"
  shows "if rv_ExecutionGeneration (st_Recovery (en_Status e)) = st_ExecutionGeneration (en_Status e)
    then e' = e \<and> ms = []
    else st_Recovery (en_Status e') =
      (if podRecoveryLimit \<le> rv_Attempts (st_Recovery (en_Status e))
       then (st_Recovery (en_Status e))\<lparr>rv_Exhausted := True, rv_ExecutionGeneration := st_ExecutionGeneration (en_Status e)\<rparr>
       else (st_Recovery (en_Status e))\<lparr>rv_Exhausted := False,
              rv_ExecutionGeneration := st_ExecutionGeneration (en_Status e),
              rv_NextAttemptAt := Some (now + podRecoveryDelay * 2 ^ nat (rv_Attempts (st_Recovery (en_Status e))))\<rparr>)"
proof -
  let ?r = "st_Recovery (en_Status e)" and ?g = "st_ExecutionGeneration (en_Status e)"
  let ?l = "st_LastActiveAt (en_Status e)"
  have upd: "\<exists>cur. st_Recovery (en_Status cur) = ?r \<and> en_Status e' = en_Status (mutate cur)"
    if "updatePodRecoveryStatus api e mutate w = (None, e', w')" for mutate
    by (rule updatePodRecoveryStatus_ok [OF assms(1) that])
       (rule exI, rule conjI, erule same_recovery [symmetric], simp)
  consider (known) "rv_ExecutionGeneration ?r = ?g"
    | (exhausted) "rv_ExecutionGeneration ?r \<noteq> ?g" "podRecoveryLimit \<le> rv_Attempts ?r"
    | (schedule) "rv_ExecutionGeneration ?r \<noteq> ?g" "rv_Attempts ?r < podRecoveryLimit" by linarith
  then show ?thesis
  proof cases
    case known
    with assms(3,5) show ?thesis
      by (auto simp: reconcileTerminalPod_def effective_nested [OF assms(2)] Let_def
          split: option.splits prod.splits if_splits)
  next
    case exhausted
    with assms(3,5,6)
    have "updatePodRecoveryStatus api e (exhaustRecovery api pod (rv_Attempts ?r) ?g ?l) w = (None, e', w')"
      by (auto simp: reconcileTerminalPod_def effective_nested [OF assms(2)] Let_def dest: afterRecoveryUpdate_ok)
    from upd [OF this] exhausted show ?thesis by (auto simp: recovery_mutations)
  next
    case schedule
    with assms(3,5,6)
    have "updatePodRecoveryStatus api e (scheduleRecovery api pod (rv_Attempts ?r) ?g
            (now + podRecoveryDelay * 2 ^ nat (rv_Attempts ?r)) ?l) w = (None, e', w')"
      by (auto simp: reconcileTerminalPod_def effective_nested [OF assms(2)] Let_def
          backoff_value [OF assms(4)] dest: afterRecoveryUpdate_ok)
    from upd [OF this] schedule show ?thesis by (auto simp: recovery_mutations)
  qed
qed

lemma terminal_example:
  "fst (reconcileTerminalPod store_api 7 example_environment (failed_pod ''1'') example_environment)
     = Inr (RequeueAfter 5000000000, True)"
  by code_simp

theorem terminal_pod_accounting_witness:
  "\<exists>e' ms w'. reconcileTerminalPod store_api 7 example_environment (failed_pod ''1'') example_environment
      = (Inr (RequeueAfter 5000000000, True), e', ms, w')
    \<and> rv_NextAttemptAt (st_Recovery (en_Status e')) = Some 5000000007"
proof -
  obtain e' ms w' where run: "reconcileTerminalPod store_api 7 example_environment (failed_pod ''1'') example_environment
      = (Inr (RequeueAfter 5000000000, True), e', ms, w')"
    using terminal_example by (metis prod_cases4 fst_conv)
  have st: "\<not> legacyRecoveryMeaningful (en_Status example_environment)"
    "podExecutionGeneration (failed_pod ''1'') = Some (st_ExecutionGeneration (en_Status example_environment))"
    "st_Recovery (en_Status example_environment) = zero_recovery"
    "st_ExecutionGeneration (en_Status example_environment) = 1"
    by code_simp+
  from terminal_pod_accounting [OF _ st(1,2) _ run] st(3,4) run show ?thesis
    by (auto simp: zero_recovery_def retry_n_ok)
qed

text \<open>Migration of the deprecated flat recovery fields is lossless and idempotent: the recovery state
  in force after the migration has the attempts, exhaustion and deadline that were in force before,
  and no flat state remains, so a second migration does nothing.\<close>

theorem recovery_migration_lossless:
  "rv_Attempts (fst (effectivePodRecovery (en_Status (migrateRecovery g e))))
      = rv_Attempts (fst (effectivePodRecovery (en_Status e)))
   \<and> rv_Exhausted (fst (effectivePodRecovery (en_Status (migrateRecovery g e))))
      = rv_Exhausted (fst (effectivePodRecovery (en_Status e)))
   \<and> rv_NextAttemptAt (fst (effectivePodRecovery (en_Status (migrateRecovery g e))))
      = rv_NextAttemptAt (fst (effectivePodRecovery (en_Status e)))
   \<and> reconcilePodRecoveryMigration api (migrateRecovery g e) w = (Inr (Done, False), migrateRecovery g e, [], w)"
  by (auto simp: migrateRecovery_def effectivePodRecovery_def legacyRecoveryMeaningful_def
      nestedRecoveryMeaningful_def reconcilePodRecoveryMigration_def Let_def)

end
