(* ===== verification/Transcript_Types.thy ===== *)
theory Transcript_Types
  imports Prelude
begin

text \<open>
  Identities, events, results and errors of the transcript service
  (\<open>src/internal/controlplane/transcript.go\<close>), and the mapping of its errors to HTTP problem
  responses.
\<close>

section \<open>Types\<close>

record RunIdentity =
  ri_Namespace :: string
  ri_NamespaceUID :: string
  ri_UID :: string

record AppendTranscriptInput =
  ai_Source :: string
  ai_SourceSequence :: "nat option"
  ai_IdempotencyKey :: string
  ai_Type :: string
  ai_Data :: string

record TranscriptEvent =
  te_ID :: string
  te_Sequence :: nat
  te_Source :: string
  te_SourceSequence :: "nat option"
  te_Type :: string
  te_Data :: string
  te_CreatedAt :: int

record AppendTranscriptResult =
  ar_Event :: TranscriptEvent
  ar_Replayed :: bool

record DeleteTranscriptResult =
  dr_Deleted :: bool
  dr_ReclaimedEvents :: nat
  dr_ReclaimedBytes :: nat

record TranscriptGap =
  tg_ResumeAfter :: string
  tg_EarliestSequence :: nat
  tg_LatestSequence :: nat

datatype transcript_error =
  IncompleteIdentity string
| ErrIdempotencyConflict
| ErrTranscriptCapacity
| ErrSubscriberCapacity
| ErrReplayLimit
| ErrInvalidCursor
| ErrExpiredCursor
| ErrTranscriptIdentity
| ErrTranscriptCutoff
| ErrTranscriptGateLimit
| TranscriptCursorError transcript_error "TranscriptGap option"
| IndexOutOfRange
| OtherError string

section \<open>Errors as HTTP problems\<close>

record transcript_problem =
  tp_Type :: string
  tp_Title :: string
  tp_Status :: int
  tp_ResumeAfter :: string
  tp_Available :: "TranscriptGap option"
  tp_RetryAfter :: bool

text \<open>\<open>errors.Is\<close> through the wrapper, and the error's text.\<close>

primrec cause :: "transcript_error \<Rightarrow> transcript_error" where
  "cause (IncompleteIdentity m) = IncompleteIdentity m"
| "cause ErrIdempotencyConflict = ErrIdempotencyConflict"
| "cause ErrTranscriptCapacity = ErrTranscriptCapacity"
| "cause ErrSubscriberCapacity = ErrSubscriberCapacity"
| "cause ErrReplayLimit = ErrReplayLimit"
| "cause ErrInvalidCursor = ErrInvalidCursor"
| "cause ErrExpiredCursor = ErrExpiredCursor"
| "cause ErrTranscriptIdentity = ErrTranscriptIdentity"
| "cause ErrTranscriptCutoff = ErrTranscriptCutoff"
| "cause ErrTranscriptGateLimit = ErrTranscriptGateLimit"
| "cause (TranscriptCursorError e g) = cause e"
| "cause IndexOutOfRange = IndexOutOfRange"
| "cause (OtherError m) = OtherError m"

definition errorText :: "transcript_error \<Rightarrow> string" where
  "errorText err =
     (case cause err of
        ErrIdempotencyConflict \<Rightarrow> ''transcript idempotency key was reused with different content''
      | ErrTranscriptCapacity \<Rightarrow> ''transcript store capacity exceeded''
      | ErrSubscriberCapacity \<Rightarrow> ''transcript subscriber capacity exceeded''
      | ErrReplayLimit \<Rightarrow> ''transcript replay limit exceeded''
      | ErrInvalidCursor \<Rightarrow> ''invalid transcript cursor''
      | ErrExpiredCursor \<Rightarrow> ''transcript cursor expired''
      | ErrTranscriptIdentity \<Rightarrow> ''transcript namespace identity does not match''
      | ErrTranscriptCutoff \<Rightarrow> ''transcript retention cutoff has been reached''
      | ErrTranscriptGateLimit \<Rightarrow> ''transcript cutoff gate capacity exceeded''
      | IncompleteIdentity m \<Rightarrow> m @ '' transcript: complete namespace and Run identity is required''
      | OtherError m \<Rightarrow> m
      | _ \<Rightarrow> [])"

definition problemOf :: "transcript_error \<Rightarrow> int \<times> string \<times> string" where
  "problemOf err =
     (case cause err of
        ErrTranscriptIdentity \<Rightarrow> (409, ''transcript_identity_mismatch'', errorText err)
      | ErrIdempotencyConflict \<Rightarrow> (409, ''idempotency_conflict'', errorText err)
      | ErrInvalidCursor \<Rightarrow> (400, ''invalid_cursor'', errorText err)
      | ErrExpiredCursor \<Rightarrow> (410, ''cursor_expired'', errorText err)
      | ErrReplayLimit \<Rightarrow> (409, ''replay_limit_exceeded'', errorText err)
      | ErrSubscriberCapacity \<Rightarrow> (503, ''subscriber_capacity'', errorText err)
      | ErrTranscriptCapacity \<Rightarrow> (507, ''transcript_capacity'', errorText err)
      | ErrTranscriptCutoff \<Rightarrow> (410, ''transcript-retention-cutoff'', ''Transcript retention cutoff reached'')
      | ErrTranscriptGateLimit \<Rightarrow>
          (503, ''transcript-cutoff-capacity'', ''Transcript cutoff admission is unavailable'')
      | _ \<Rightarrow> (503, ''transcript_store_unavailable'', ''transcript store is unavailable''))"

text \<open>\<open>errors.As\<close> finds the outermost cursor error.\<close>

definition cursorGap :: "transcript_error \<Rightarrow> TranscriptGap option" where
  "cursorGap err = (case err of TranscriptCursorError e g \<Rightarrow> g | _ \<Rightarrow> None)"

definition writeTranscriptStoreError :: "transcript_error \<Rightarrow> transcript_problem" where
  "writeTranscriptStoreError err =
     (case problemOf err of (status, pcode, title) \<Rightarrow>
        \<lparr>tp_Type = ''https://swe-platform.dev/problems/'' @ pcode, tp_Title = title, tp_Status = status,
         tp_ResumeAfter = (case cursorGap err of None \<Rightarrow> [] | Some g \<Rightarrow> tg_ResumeAfter g),
         tp_Available = cursorGap err, tp_RetryAfter = (cause err = ErrSubscriberCapacity)\<rparr>)"

definition isTranscriptContractError :: "transcript_error \<Rightarrow> bool" where
  "isTranscriptContractError err \<longleftrightarrow>
     cause err \<in> {ErrTranscriptIdentity, ErrIdempotencyConflict, ErrTranscriptCapacity, ErrSubscriberCapacity,
                  ErrReplayLimit, ErrInvalidCursor, ErrExpiredCursor, ErrTranscriptCutoff, ErrTranscriptGateLimit}"

end
