(* ===== verification/Transcript_Store.thy ===== *)
theory Transcript_Store
  imports Transcript_Types
begin

text \<open>
  The bounded in-memory transcript store of the control plane
  (\<open>src/internal/controlplane/transcript.go\<close>): append with idempotency and eviction,
  subscription with replay and live fan-out, deletion and signed cursors. Its types, errors and
  their HTTP form are in \<open>Transcript_Types\<close>.

  Sequences are uint64 (\<open>wrap_u64\<close> on increment); sizes and counters are Go ints, whose bounds
  are part of the invariant. A subscriber pointer is a number; its channel is the list of events
  still buffered. SHA-256, HMAC and base64 are the parameter \<open>crypto\<close>: the encoded run hash and
  the encoded signature of a payload under a key.
\<close>

section \<open>State\<close>

record MemoryTranscriptStoreOptions =
  mo_MaxRuns :: int
  mo_MaxEventsPerRun :: int
  mo_MaxBytesPerRun :: int
  mo_MaxTotalEvents :: int
  mo_MaxTotalBytes :: int
  mo_MaxSubscribersPerRun :: int
  mo_MaxSubscribers :: int
  mo_SubscriberBuffer :: int
  mo_MaxReplayEvents :: int

type_synonym memoryIdempotencyKey = "string \<times> string"

record memoryEvent =
  me_event :: TranscriptEvent
  me_idempotencyKey :: memoryIdempotencyKey
  me_size :: int

record memoryRunTranscript =
  mr_highWater :: nat
  mr_events :: "memoryEvent list"
  mr_bytes :: int
  mr_idempotency :: "(memoryIdempotencyKey \<times> memoryEvent) list"

text \<open>\<open>sb_history\<close> is the replay handed to the subscriber and \<open>sb_received\<close> what it has taken
  from the channel: what the client has seen, which the store itself does not read.\<close>

record memorySubscriber =
  sb_events :: "TranscriptEvent list"
  sb_isDropped :: bool
  sb_history :: "TranscriptEvent list"
  sb_received :: "TranscriptEvent list"

record memoryTranscriptStore =
  ms_options :: MemoryTranscriptStoreOptions
  ms_generation :: string
  ms_cursorKey :: string
  ms_runs :: "(RunIdentity \<times> memoryRunTranscript) list"
  ms_subscribers :: "(RunIdentity \<times> (nat \<times> memorySubscriber) list) list"
  ms_totalEvents :: int
  ms_totalBytes :: int
  ms_totalSubscribers :: int
  ms_nextPointer :: nat

record TranscriptSubscription =
  ts_History :: "TranscriptEvent list"
  ts_Subscriber :: nat
  ts_Gap :: "TranscriptGap option"

record crypto =
  cr_runHash :: "string \<Rightarrow> string"
  cr_sign :: "string \<Rightarrow> string \<Rightarrow> string"

section \<open>Construction\<close>

definition DefaultMemoryTranscriptStoreOptions :: MemoryTranscriptStoreOptions where
  "DefaultMemoryTranscriptStoreOptions =
     \<lparr>mo_MaxRuns = 1024, mo_MaxEventsPerRun = 1024, mo_MaxBytesPerRun = 16777216,
      mo_MaxTotalEvents = 16384, mo_MaxTotalBytes = 134217728, mo_MaxSubscribersPerRun = 64,
      mo_MaxSubscribers = 1024, mo_SubscriberBuffer = 64, mo_MaxReplayEvents = 1024\<rparr>"

definition positive_or :: "int \<Rightarrow> int \<Rightarrow> int" where
  "positive_or d v = (if v \<le> 0 then d else v)"

definition normalizeOptions :: "MemoryTranscriptStoreOptions \<Rightarrow> MemoryTranscriptStoreOptions" where
  "normalizeOptions opts =
     (let d = DefaultMemoryTranscriptStoreOptions in
      \<lparr>mo_MaxRuns = positive_or (mo_MaxRuns d) (mo_MaxRuns opts),
       mo_MaxEventsPerRun = positive_or (mo_MaxEventsPerRun d) (mo_MaxEventsPerRun opts),
       mo_MaxBytesPerRun = positive_or (mo_MaxBytesPerRun d) (mo_MaxBytesPerRun opts),
       mo_MaxTotalEvents = positive_or (mo_MaxTotalEvents d) (mo_MaxTotalEvents opts),
       mo_MaxTotalBytes = positive_or (mo_MaxTotalBytes d) (mo_MaxTotalBytes opts),
       mo_MaxSubscribersPerRun = positive_or (mo_MaxSubscribersPerRun d) (mo_MaxSubscribersPerRun opts),
       mo_MaxSubscribers = positive_or (mo_MaxSubscribers d) (mo_MaxSubscribers opts),
       mo_SubscriberBuffer = positive_or (mo_SubscriberBuffer d) (mo_SubscriberBuffer opts),
       mo_MaxReplayEvents = positive_or (mo_MaxReplayEvents d) (mo_MaxReplayEvents opts)\<rparr>)"

text \<open>\<open>generation\<close> and \<open>key\<close> are the random bytes, already encoded.\<close>

definition NewMemoryTranscriptStore ::
  "MemoryTranscriptStoreOptions \<Rightarrow> string \<Rightarrow> string \<Rightarrow> memoryTranscriptStore" where
  "NewMemoryTranscriptStore opts generation key =
     \<lparr>ms_options = normalizeOptions opts, ms_generation = generation, ms_cursorKey = key,
      ms_runs = [], ms_subscribers = [], ms_totalEvents = 0, ms_totalBytes = 0,
      ms_totalSubscribers = 0, ms_nextPointer = 0\<rparr>"

section \<open>Cursors\<close>

definition nul :: char where
  "nul = char_of (0 :: nat)"

definition cursor :: "crypto \<Rightarrow> memoryTranscriptStore \<Rightarrow> RunIdentity \<Rightarrow> nat \<Rightarrow> string" where
  "cursor c s run sequence =
     (let runHash = cr_runHash c (ri_Namespace run @ nul # ri_NamespaceUID run @ nul # ri_UID run);
          payload = ''v1.'' @ ms_generation s @ ''.'' @ runHash @ ''.'' @ format_nat sequence
      in payload @ ''.'' @ cr_sign c (ms_cursorKey s) payload)"

definition parseCursor ::
  "crypto \<Rightarrow> memoryTranscriptStore \<Rightarrow> RunIdentity \<Rightarrow> string \<Rightarrow> transcript_error + nat" where
  "parseCursor c s run cur =
     (let parts = split_on (CHR ''.'') cur in
      if length parts \<noteq> 5 \<or> parts ! 0 \<noteq> ''v1'' then Inl ErrInvalidCursor
      else if parts ! 1 \<noteq> ms_generation s then Inl ErrInvalidCursor
      else case parse_uint 64 (parts ! 3) of
             None \<Rightarrow> Inl ErrInvalidCursor
           | Some sequence \<Rightarrow>
               if cursor c s run sequence \<noteq> cur then Inl ErrInvalidCursor else Inr sequence)"

definition gap :: "crypto \<Rightarrow> memoryTranscriptStore \<Rightarrow> RunIdentity \<Rightarrow> nat \<Rightarrow> nat \<Rightarrow> TranscriptGap" where
  "gap c s run earliest latest =
     \<lparr>tg_ResumeAfter = cursor c s run (if 0 < earliest then earliest - 1 else 0),
      tg_EarliestSequence = earliest, tg_LatestSequence = latest\<rparr>"

section \<open>Append\<close>

definition equalAppendInput :: "TranscriptEvent \<Rightarrow> AppendTranscriptInput \<Rightarrow> bool" where
  "equalAppendInput event input \<longleftrightarrow>
     te_Source event = ai_Source input \<and> te_Type event = ai_Type input
     \<and> te_SourceSequence event = ai_SourceSequence input \<and> te_Data event = ai_Data input"

definition transcriptEventSize :: "AppendTranscriptInput \<Rightarrow> int" where
  "transcriptEventSize input =
     int (length (ai_Source input) + length (ai_IdempotencyKey input) + length (ai_Type input)
          + length (ai_Data input) + 256)"

definition completeIdentity :: "RunIdentity \<Rightarrow> bool" where
  "completeIdentity run \<longleftrightarrow> ri_Namespace run \<noteq> [] \<and> ri_NamespaceUID run \<noteq> [] \<and> ri_UID run \<noteq> []"

text \<open>The eviction loop: it walks \<open>state.events\<close> (\<open>n\<close> events, \<open>b\<close> bytes) and yields how many of
  the oldest to evict and their bytes; walking past the end is an index panic.\<close>

fun evictLoop ::
  "MemoryTranscriptStoreOptions \<Rightarrow> int \<Rightarrow> int \<Rightarrow> int \<Rightarrow> memoryEvent list \<Rightarrow> nat \<Rightarrow> int
     \<Rightarrow> (nat \<times> int) option" where
  "evictLoop opts n b sz rest evict freed =
     (if mo_MaxEventsPerRun opts < n - int evict + 1 \<or> mo_MaxBytesPerRun opts < b - freed + sz
      then (case rest of
              [] \<Rightarrow> None
            | x # xs \<Rightarrow> evictLoop opts n b sz xs (Suc evict) (freed + me_size x))
      else Some (evict, freed))"

definition evictPlan ::
  "MemoryTranscriptStoreOptions \<Rightarrow> memoryRunTranscript option \<Rightarrow> int \<Rightarrow> (nat \<times> int) option" where
  "evictPlan opts state sz =
     (case state of
        None \<Rightarrow> Some (0, 0)
      | Some st \<Rightarrow> evictLoop opts (int (length (mr_events st))) (mr_bytes st) sz (mr_events st) 0 0)"

text \<open>One round of the removal loop, on the run and the store's totals.\<close>

definition evictOne ::
  "memoryEvent \<Rightarrow> memoryRunTranscript \<times> memoryTranscriptStore \<Rightarrow> memoryRunTranscript \<times> memoryTranscriptStore" where
  "evictOne old p =
     (case p of (st, s) \<Rightarrow>
        (st\<lparr>mr_idempotency := mdel (me_idempotencyKey old) (mr_idempotency st),
            mr_bytes := mr_bytes st - me_size old\<rparr>,
         s\<lparr>ms_totalBytes := ms_totalBytes s - me_size old, ms_totalEvents := ms_totalEvents s - 1\<rparr>))"

text \<open>Non-blocking send to one subscriber; a full channel drops it.\<close>

definition publish :: "int \<Rightarrow> TranscriptEvent \<Rightarrow> memorySubscriber \<Rightarrow> memorySubscriber" where
  "publish buffer event sb =
     (if sb_isDropped sb then sb
      else if int (length (sb_events sb)) < buffer then sb\<lparr>sb_events := sb_events sb @ [event]\<rparr>
      else sb\<lparr>sb_isDropped := True\<rparr>)"

definition publishAll ::
  "RunIdentity \<Rightarrow> TranscriptEvent \<Rightarrow> memoryTranscriptStore \<Rightarrow> memoryTranscriptStore" where
  "publishAll run event s =
     (case map_of (ms_subscribers s) run of
        None \<Rightarrow> s
      | Some subs \<Rightarrow> s\<lparr>ms_subscribers := mput run
          (map (\<lambda>(p, sb). (p, publish (mo_SubscriberBuffer (ms_options s)) event sb)) subs)
          (ms_subscribers s)\<rparr>)"

definition emptyRun :: memoryRunTranscript where
  "emptyRun = \<lparr>mr_highWater = 0, mr_events = [], mr_bytes = 0, mr_idempotency = []\<rparr>"

definition newEvent ::
  "crypto \<Rightarrow> memoryTranscriptStore \<Rightarrow> int \<Rightarrow> RunIdentity \<Rightarrow> nat \<Rightarrow> AppendTranscriptInput \<Rightarrow> TranscriptEvent" where
  "newEvent c s now run sequence input =
     \<lparr>te_ID = cursor c s run sequence, te_Sequence = sequence, te_Source = ai_Source input,
      te_SourceSequence = ai_SourceSequence input, te_Type = ai_Type input,
      te_Data = ai_Data input, te_CreatedAt = now\<rparr>"

text \<open>The part of \<open>Append\<close> that commits, once every check has passed.\<close>

definition commitAppend ::
  "crypto \<Rightarrow> int \<Rightarrow> RunIdentity \<Rightarrow> AppendTranscriptInput \<Rightarrow> nat \<Rightarrow> memoryRunTranscript
     \<Rightarrow> memoryTranscriptStore \<Rightarrow> TranscriptEvent \<times> memoryTranscriptStore" where
  "commitAppend c now run input evict state s =
     (case fold evictOne (take evict (mr_events state)) (state, s) of
        (st, s1) \<Rightarrow>
          (let key = (ai_Source input, ai_IdempotencyKey input);
               sz = transcriptEventSize input;
               sequence = wrap_u64 (mr_highWater state + 1);
               event = newEvent c s now run sequence input;
               stored = \<lparr>me_event = event, me_idempotencyKey = key, me_size = sz\<rparr>;
               st' = \<lparr>mr_highWater = sequence, mr_events = drop evict (mr_events state) @ [stored],
                      mr_bytes = mr_bytes st + sz, mr_idempotency = mput key stored (mr_idempotency st)\<rparr>;
               s2 = s1\<lparr>ms_runs := mput run st' (ms_runs s1), ms_totalBytes := ms_totalBytes s1 + sz,
                       ms_totalEvents := ms_totalEvents s1 + 1\<rparr>
           in (event, publishAll run event s2)))"

definition Append ::
  "crypto \<Rightarrow> int \<Rightarrow> RunIdentity \<Rightarrow> AppendTranscriptInput \<Rightarrow> memoryTranscriptStore
     \<Rightarrow> (transcript_error + AppendTranscriptResult) \<times> memoryTranscriptStore" where
  "Append c now run input s =
     (if \<not> completeIdentity run then (Inl (IncompleteIdentity ''append''), s)
      else
        (let state = map_of (ms_runs s) run;
             key = (ai_Source input, ai_IdempotencyKey input);
             sz = transcriptEventSize input;
             opts = ms_options s
         in case (case state of None \<Rightarrow> None | Some st \<Rightarrow> map_of (mr_idempotency st) key) of
              Some prior \<Rightarrow>
                if equalAppendInput (me_event prior) input
                then (Inr \<lparr>ar_Event = me_event prior, ar_Replayed = True\<rparr>, s)
                else (Inl ErrIdempotencyConflict, s)
            | None \<Rightarrow>
                if mo_MaxBytesPerRun opts < sz \<or> mo_MaxTotalBytes opts < sz
                then (Inl ErrTranscriptCapacity, s)
                else (case evictPlan opts state sz of
                        None \<Rightarrow> (Inl IndexOutOfRange, s)
                      | Some (evict, freed) \<Rightarrow>
                          if mo_MaxTotalEvents opts < ms_totalEvents s - int evict + 1
                             \<or> mo_MaxTotalBytes opts < ms_totalBytes s - freed + sz
                          then (Inl ErrTranscriptCapacity, s)
                          else if state = None \<and> mo_MaxRuns opts \<le> int (length (ms_runs s))
                          then (Inl ErrTranscriptCapacity, s)
                          else
                            (case commitAppend c now run input evict
                                    (case state of None \<Rightarrow> emptyRun | Some st \<Rightarrow> st) s of
                               (event, s') \<Rightarrow>
                                 (Inr \<lparr>ar_Event = event, ar_Replayed = False\<rparr>, s')))))"

section \<open>Subscribe, unsubscribe, receive, delete\<close>

definition earliestSequence :: "memoryRunTranscript option \<Rightarrow> nat" where
  "earliestSequence state =
     (case state of
        None \<Rightarrow> 1
      | Some st \<Rightarrow> (case mr_events st of [] \<Rightarrow> 1 | x # _ \<Rightarrow> te_Sequence (me_event x)))"

definition replayHistory :: "memoryRunTranscript option \<Rightarrow> nat \<Rightarrow> TranscriptEvent list" where
  "replayHistory state sequence =
     (case state of
        None \<Rightarrow> []
      | Some st \<Rightarrow> filter (\<lambda>ev. sequence < te_Sequence ev) (map me_event (mr_events st)))"

definition runSubscribers :: "memoryTranscriptStore \<Rightarrow> RunIdentity \<Rightarrow> (nat \<times> memorySubscriber) list" where
  "runSubscribers s run = (case map_of (ms_subscribers s) run of None \<Rightarrow> [] | Some subs \<Rightarrow> subs)"

definition addSubscriber ::
  "RunIdentity \<Rightarrow> TranscriptEvent list \<Rightarrow> memoryTranscriptStore \<Rightarrow> nat \<times> memoryTranscriptStore" where
  "addSubscriber run history s =
     (let p = ms_nextPointer s;
          sb = \<lparr>sb_events = [], sb_isDropped = False, sb_history = history, sb_received = []\<rparr>
      in (p, s\<lparr>ms_subscribers := mput run (mput p sb (runSubscribers s run)) (ms_subscribers s),
              ms_totalSubscribers := ms_totalSubscribers s + 1, ms_nextPointer := Suc p\<rparr>))"

definition subscribeAt ::
  "crypto \<Rightarrow> RunIdentity \<Rightarrow> bool \<Rightarrow> nat \<Rightarrow> memoryTranscriptStore
     \<Rightarrow> (transcript_error + TranscriptSubscription) \<times> memoryTranscriptStore" where
  "subscribeAt c run resumed sequence s =
     (let state = map_of (ms_runs s) run;
          highWater = (case state of None \<Rightarrow> 0 | Some st \<Rightarrow> mr_highWater st);
          earliest = earliestSequence state;
          history = replayHistory state sequence;
          opts = ms_options s
      in if resumed \<and> wrap_u64 (sequence + 1) < earliest
         then (Inl (TranscriptCursorError ErrExpiredCursor (Some (gap c s run earliest highWater))), s)
         else if mo_MaxReplayEvents opts < int (length history)
         then (Inl (TranscriptCursorError ErrReplayLimit
                 (Some \<lparr>tg_ResumeAfter = cursor c s run
                          (nat ((int highWater - mo_MaxReplayEvents opts) mod 2 ^ 64)),
                        tg_EarliestSequence = earliest, tg_LatestSequence = highWater\<rparr>)), s)
         else if mo_MaxSubscribersPerRun opts \<le> int (length (runSubscribers s run))
                 \<or> mo_MaxSubscribers opts \<le> ms_totalSubscribers s
         then (Inl ErrSubscriberCapacity, s)
         else (case addSubscriber run history s of
                 (p, s') \<Rightarrow>
                   (Inr \<lparr>ts_History = history, ts_Subscriber = p,
                         ts_Gap = (if \<not> resumed \<and> 1 < earliest then Some (gap c s run earliest highWater)
                                   else None)\<rparr>, s')))"

definition Subscribe ::
  "crypto \<Rightarrow> RunIdentity \<Rightarrow> string \<Rightarrow> memoryTranscriptStore
     \<Rightarrow> (transcript_error + TranscriptSubscription) \<times> memoryTranscriptStore" where
  "Subscribe c run cur s =
     (if \<not> completeIdentity run then (Inl (IncompleteIdentity ''subscribe''), s)
      else if cur = [] then subscribeAt c run False 0 s
      else (case parseCursor c s run cur of
              Inl err \<Rightarrow> (Inl err, s)
            | Inr sequence \<Rightarrow>
                if (case map_of (ms_runs s) run of None \<Rightarrow> 0 | Some st \<Rightarrow> mr_highWater st) < sequence
                then (Inl ErrInvalidCursor, s)
                else subscribeAt c run True sequence s))"

definition unsubscribe :: "RunIdentity \<Rightarrow> nat \<Rightarrow> memoryTranscriptStore \<Rightarrow> memoryTranscriptStore" where
  "unsubscribe run p s =
     (if map_of (runSubscribers s run) p = None then s
      else
        (let subs = mdel p (runSubscribers s run) in
         s\<lparr>ms_subscribers := (if subs = [] then mdel run (ms_subscribers s) else mput run subs (ms_subscribers s)),
           ms_totalSubscribers := ms_totalSubscribers s - 1\<rparr>))"

text \<open>The client side of the channel: take the next buffered event.\<close>

definition receive :: "RunIdentity \<Rightarrow> nat \<Rightarrow> memoryTranscriptStore \<Rightarrow> memoryTranscriptStore" where
  "receive run p s =
     (case map_of (runSubscribers s run) p of
        None \<Rightarrow> s
      | Some sb \<Rightarrow>
          (case sb_events sb of
             [] \<Rightarrow> s
           | ev # evs \<Rightarrow> s\<lparr>ms_subscribers := mput run
               (mput p (sb\<lparr>sb_events := evs, sb_received := sb_received sb @ [ev]\<rparr>) (runSubscribers s run))
               (ms_subscribers s)\<rparr>))"

definition Delete ::
  "RunIdentity \<Rightarrow> memoryTranscriptStore
     \<Rightarrow> (transcript_error + DeleteTranscriptResult) \<times> memoryTranscriptStore" where
  "Delete run s =
     (if \<not> completeIdentity run then (Inl (IncompleteIdentity ''delete''), s)
      else
        (let s1 = s\<lparr>ms_totalSubscribers := ms_totalSubscribers s - int (length (runSubscribers s run)),
                    ms_subscribers := mdel run (ms_subscribers s)\<rparr>
         in case map_of (ms_runs s) run of
              None \<Rightarrow> (Inr \<lparr>dr_Deleted = False, dr_ReclaimedEvents = 0, dr_ReclaimedBytes = 0\<rparr>, s1)
            | Some st \<Rightarrow>
                (Inr \<lparr>dr_Deleted = True, dr_ReclaimedEvents = length (mr_events st),
                      dr_ReclaimedBytes = nat (mr_bytes st)\<rparr>,
                 s1\<lparr>ms_runs := mdel run (ms_runs s),
                    ms_totalEvents := ms_totalEvents s - int (length (mr_events st)),
                    ms_totalBytes := ms_totalBytes s - mr_bytes st\<rparr>)))"

section \<open>Invariant\<close>

definition highWaterOf :: "memoryTranscriptStore \<Rightarrow> RunIdentity \<Rightarrow> nat" where
  "highWaterOf s run = (case map_of (ms_runs s) run of None \<Rightarrow> 0 | Some st \<Rightarrow> mr_highWater st)"

definition eventBytes :: "memoryEvent list \<Rightarrow> int" where
  "eventBytes evs = sum_list (map me_size evs)"

text \<open>A run: retained sequences are contiguous up to the high water, the byte count is exact, the
  limits hold, and the idempotency map holds exactly the retained events.\<close>

definition runBase :: "MemoryTranscriptStoreOptions \<Rightarrow> memoryRunTranscript \<Rightarrow> bool" where
  "runBase opts st \<longleftrightarrow>
     length (mr_events st) \<le> mr_highWater st
     \<and> map (te_Sequence \<circ> me_event) (mr_events st)
         = [mr_highWater st + 1 - length (mr_events st)..<mr_highWater st + 1]
     \<and> mr_bytes st = eventBytes (mr_events st) \<and> (\<forall>m\<in>set (mr_events st). 0 \<le> me_size m)
     \<and> int (length (mr_events st)) \<le> mo_MaxEventsPerRun opts \<and> mr_bytes st \<le> mo_MaxBytesPerRun opts
     \<and> distinct (map me_idempotencyKey (mr_events st))
     \<and> (\<forall>k m. map_of (mr_idempotency st) k = Some m \<longleftrightarrow> m \<in> set (mr_events st) \<and> me_idempotencyKey m = k)"

definition runOk :: "MemoryTranscriptStoreOptions \<Rightarrow> memoryRunTranscript \<Rightarrow> bool" where
  "runOk opts st \<longleftrightarrow> mr_events st \<noteq> [] \<and> runBase opts st"

definition sbSeen :: "memorySubscriber \<Rightarrow> nat list" where
  "sbSeen sb = map te_Sequence (sb_history sb @ sb_received sb @ sb_events sb)"

definition subscriberOk :: "MemoryTranscriptStoreOptions \<Rightarrow> nat \<Rightarrow> memorySubscriber \<Rightarrow> bool" where
  "subscriberOk opts hw sb \<longleftrightarrow>
     int (length (sb_events sb)) \<le> mo_SubscriberBuffer opts
     \<and> (\<exists>a b. sbSeen sb = [a..<b] \<and> a \<le> b \<and> b \<le> hw + 1 \<and> (\<not> sb_isDropped sb \<longrightarrow> b = hw + 1))"

definition optionsOk :: "MemoryTranscriptStoreOptions \<Rightarrow> bool" where
  "optionsOk opts \<longleftrightarrow> 0 < mo_MaxRuns opts \<and> 0 < mo_MaxEventsPerRun opts \<and> 0 < mo_MaxBytesPerRun opts
     \<and> 0 < mo_MaxTotalEvents opts \<and> 0 < mo_MaxTotalBytes opts \<and> 0 < mo_MaxSubscribersPerRun opts
     \<and> 0 < mo_MaxSubscribers opts \<and> 0 < mo_SubscriberBuffer opts \<and> 0 < mo_MaxReplayEvents opts"

definition runsOk :: "memoryTranscriptStore \<Rightarrow> bool" where
  "runsOk s \<longleftrightarrow>
     map_ok (ms_runs s) \<and> int (length (ms_runs s)) \<le> mo_MaxRuns (ms_options s)
     \<and> (\<forall>run st. map_of (ms_runs s) run = Some st \<longrightarrow> runOk (ms_options s) st)
     \<and> ms_totalEvents s = msum (\<lambda>st. int (length (mr_events st))) (ms_runs s)
     \<and> ms_totalBytes s = msum mr_bytes (ms_runs s)
     \<and> ms_totalEvents s \<le> mo_MaxTotalEvents (ms_options s)
     \<and> ms_totalBytes s \<le> mo_MaxTotalBytes (ms_options s)"

definition subsOk ::
  "MemoryTranscriptStoreOptions \<Rightarrow> nat \<Rightarrow> nat \<Rightarrow> (nat \<times> memorySubscriber) list \<Rightarrow> bool" where
  "subsOk opts hw fresh subs \<longleftrightarrow>
     map_ok subs \<and> subs \<noteq> [] \<and> int (length subs) \<le> mo_MaxSubscribersPerRun opts
     \<and> (\<forall>p sb. map_of subs p = Some sb \<longrightarrow> p < fresh \<and> subscriberOk opts hw sb)"

definition subscribersOk :: "memoryTranscriptStore \<Rightarrow> bool" where
  "subscribersOk s \<longleftrightarrow>
     map_ok (ms_subscribers s)
     \<and> (\<forall>run subs. map_of (ms_subscribers s) run = Some subs \<longrightarrow>
          subsOk (ms_options s) (highWaterOf s run) (ms_nextPointer s) subs)
     \<and> ms_totalSubscribers s = msum (\<lambda>subs. int (length subs)) (ms_subscribers s)
     \<and> ms_totalSubscribers s \<le> mo_MaxSubscribers (ms_options s)"

definition storeOk :: "memoryTranscriptStore \<Rightarrow> bool" where
  "storeOk s \<longleftrightarrow> optionsOk (ms_options s) \<and> runsOk s \<and> subscribersOk s"

section \<open>Eviction\<close>

declare evictLoop.simps [simp del]

lemma eventBytes_simps [simp]:
  "eventBytes [] = 0" "eventBytes (m # ms) = me_size m + eventBytes ms"
  "eventBytes (xs @ ys) = eventBytes xs + eventBytes ys"
  by (simp_all add: eventBytes_def)

lemma eventBytes_nonneg: "\<forall>m\<in>set ms. 0 \<le> me_size m \<Longrightarrow> 0 \<le> eventBytes ms"
  by (induction ms) auto

lemma eventBytes_split: "eventBytes (take k ms) + eventBytes (drop k ms) = eventBytes ms"
  by (metis append_take_drop_id eventBytes_simps(3))

lemma evictLoop_result:
  "evictLoop opts n b z rest e f = Some (e', f') \<Longrightarrow>
     \<exists>k \<le> length rest. e' = e + k \<and> f' = f + eventBytes (take k rest)
       \<and> n - int e' + 1 \<le> mo_MaxEventsPerRun opts \<and> b - f' + z \<le> mo_MaxBytesPerRun opts"
proof (induction rest arbitrary: e f)
  case Nil
  then show ?case by (subst (asm) evictLoop.simps) (auto split: if_splits)
next
  case (Cons x xs)
  show ?case
  proof (cases "mo_MaxEventsPerRun opts < n - int e + 1 \<or> mo_MaxBytesPerRun opts < b - f + z")
    case True
    with Cons.prems have "evictLoop opts n b z xs (Suc e) (f + me_size x) = Some (e', f')"
      by (subst (asm) evictLoop.simps) simp
    from Cons.IH [OF this] obtain k where "k \<le> length xs" "e' = Suc e + k"
      "f' = f + me_size x + eventBytes (take k xs)" "n - int e' + 1 \<le> mo_MaxEventsPerRun opts"
      "b - f' + z \<le> mo_MaxBytesPerRun opts" by blast
    then show ?thesis by (intro exI [of _ "Suc k"]) auto
  next
    case False
    with Cons.prems show ?thesis
      by (subst (asm) evictLoop.simps) (auto intro!: exI [of _ 0])
  qed
qed

lemma evictLoop_total:
  "n = int (e + length rest) \<Longrightarrow> b - f = eventBytes rest \<Longrightarrow> 0 < mo_MaxEventsPerRun opts \<Longrightarrow>
   z \<le> mo_MaxBytesPerRun opts \<Longrightarrow> \<exists>r. evictLoop opts n b z rest e f = Some r"
proof (induction rest arbitrary: e f)
  case Nil
  then show ?case by (subst evictLoop.simps) auto
next
  case (Cons x xs)
  then have "\<exists>r. evictLoop opts n b z xs (Suc e) (f + me_size x) = Some r" by (intro Cons.IH) auto
  then show ?case by (subst evictLoop.simps) auto
qed

lemma fold_evictOne:
  "fold evictOne xs (st, s) =
     (st\<lparr>mr_idempotency := fold (\<lambda>m. mdel (me_idempotencyKey m)) xs (mr_idempotency st),
         mr_bytes := mr_bytes st - eventBytes xs\<rparr>,
      s\<lparr>ms_totalBytes := ms_totalBytes s - eventBytes xs, ms_totalEvents := ms_totalEvents s - int (length xs)\<rparr>)"
  by (induction xs arbitrary: st s) (simp_all add: evictOne_def algebra_simps)

lemma map_of_fold_mdel:
  "map_of (fold (\<lambda>m. mdel (me_idempotencyKey m)) xs im) k
     = (if k \<in> me_idempotencyKey ` set xs then None else map_of im k)"
  by (induction xs arbitrary: im) auto

section \<open>Appending keeps the run well formed\<close>

lemma runBase_empty: "optionsOk opts \<Longrightarrow> runBase opts emptyRun"
  by (auto simp: runBase_def emptyRun_def optionsOk_def)

lemma appended_sequences:
  assumes "map f evs = [hw + 1 - length evs..<hw + 1]" "length evs \<le> hw" "k \<le> length evs"
    and "f new = hw + 1"
  shows "map f (drop k evs @ [new])
           = [(hw + 1) + 1 - length (drop k evs @ [new])..<(hw + 1) + 1]"
proof -
  have "map f (drop k evs) = [hw + 1 - length evs + k..<hw + 1]"
    using assms(1) by (metis drop_map drop_upt)
  moreover have "hw + 1 - length evs + k = (hw + 1) + 1 - length (drop k evs @ [new])"
    using assms(2,3) by simp
  ultimately show ?thesis using assms(2-4) by simp
qed

lemma appended_idempotency:
  assumes "distinct (map me_idempotencyKey evs)"
    and "\<forall>k m. map_of im k = Some m \<longleftrightarrow> m \<in> set evs \<and> me_idempotencyKey m = k"
    and "map_of im (me_idempotencyKey new) = None"
  shows "map_of (mput (me_idempotencyKey new) new
             (fold (\<lambda>m. mdel (me_idempotencyKey m)) (take j evs) im)) k = Some m
     \<longleftrightarrow> m \<in> set (drop j evs @ [new]) \<and> me_idempotencyKey m = k"
    and "distinct (map me_idempotencyKey (drop j evs @ [new]))"
proof -
  have fresh: "me_idempotencyKey m \<noteq> me_idempotencyKey new" if "m \<in> set evs" for m
    using assms(2,3) that by (metis option.distinct(1))
  have split: "distinct (map me_idempotencyKey (take j evs @ drop j evs))" using assms(1) by simp
  have disj: "me_idempotencyKey m \<notin> me_idempotencyKey ` set (take j evs)" if "m \<in> set (drop j evs)" for m
  proof -
    from split have "set (map me_idempotencyKey (take j evs)) \<inter> set (map me_idempotencyKey (drop j evs)) = {}"
      by (simp only: map_append distinct_append)
    with that show ?thesis by (auto simp only: set_map)
  qed
  have "m \<in> set evs \<and> me_idempotencyKey m \<notin> me_idempotencyKey ` set (take j evs) \<longleftrightarrow> m \<in> set (drop j evs)" for m
    using disj [of m] append_take_drop_id [of j evs] set_append [of "take j evs" "drop j evs"] by auto
  then show "map_of (mput (me_idempotencyKey new) new
             (fold (\<lambda>m. mdel (me_idempotencyKey m)) (take j evs) im)) k = Some m
     \<longleftrightarrow> m \<in> set (drop j evs @ [new]) \<and> me_idempotencyKey m = k"
    using assms(2) [rule_format, of k m] fresh in_set_dropD [of m j evs] by (auto simp: map_of_fold_mdel)
  show "distinct (map me_idempotencyKey (drop j evs @ [new]))"
  proof -
    have "distinct (map me_idempotencyKey (drop j evs))" using split by (simp only: map_append distinct_append)
    moreover have "me_idempotencyKey new \<notin> set (map me_idempotencyKey (drop j evs))"
      using fresh by (metis imageE in_set_dropD set_map)
    ultimately show ?thesis by simp
  qed
qed

definition appendedRun ::
  "crypto \<Rightarrow> memoryTranscriptStore \<Rightarrow> int \<Rightarrow> RunIdentity \<Rightarrow> AppendTranscriptInput \<Rightarrow> nat
     \<Rightarrow> memoryRunTranscript \<Rightarrow> memoryRunTranscript" where
  "appendedRun c s now run input k st =
     (let sequence = wrap_u64 (mr_highWater st + 1);
          stored = \<lparr>me_event = newEvent c s now run sequence input,
                    me_idempotencyKey = (ai_Source input, ai_IdempotencyKey input),
                    me_size = transcriptEventSize input\<rparr>
      in \<lparr>mr_highWater = sequence, mr_events = drop k (mr_events st) @ [stored],
          mr_bytes = mr_bytes st - eventBytes (take k (mr_events st)) + transcriptEventSize input,
          mr_idempotency = mput (ai_Source input, ai_IdempotencyKey input) stored
            (fold (\<lambda>m. mdel (me_idempotencyKey m)) (take k (mr_events st)) (mr_idempotency st))\<rparr>)"

lemma appendedRun_ok:
  assumes "runBase opts st" "k \<le> length (mr_events st)" "mr_highWater st + 1 < 2 ^ 64"
    and "int (length (mr_events st)) - int k + 1 \<le> mo_MaxEventsPerRun opts"
    and "mr_bytes st - eventBytes (take k (mr_events st)) + transcriptEventSize input \<le> mo_MaxBytesPerRun opts"
    and "map_of (mr_idempotency st) (ai_Source input, ai_IdempotencyKey input) = None"
  shows "runOk opts (appendedRun c s now run input k st)"
proof -
  define new where "new = \<lparr>me_event = newEvent c s now run (mr_highWater st + 1) input,
      me_idempotencyKey = (ai_Source input, ai_IdempotencyKey input), me_size = transcriptEventSize input\<rparr>"
  let ?st = "appendedRun c s now run input k st"
  have fields: "mr_highWater ?st = mr_highWater st + 1" "mr_events ?st = drop k (mr_events st) @ [new]"
    "mr_bytes ?st = mr_bytes st - eventBytes (take k (mr_events st)) + transcriptEventSize input"
    "mr_idempotency ?st = mput (me_idempotencyKey new) new
       (fold (\<lambda>m. mdel (me_idempotencyKey m)) (take k (mr_events st)) (mr_idempotency st))"
    using assms(3) by (simp_all add: appendedRun_def Let_def new_def)
  have new: "me_size new = transcriptEventSize input" "0 \<le> transcriptEventSize input"
    "(te_Sequence \<circ> me_event) new = mr_highWater st + 1"
    "me_idempotencyKey new = (ai_Source input, ai_IdempotencyKey input)"
    by (simp_all add: new_def newEvent_def transcriptEventSize_def)
  note base = assms(1) [unfolded runBase_def]
  have "map (te_Sequence \<circ> me_event) (mr_events ?st)
      = [mr_highWater ?st + 1 - length (mr_events ?st)..<mr_highWater ?st + 1]"
    unfolding fields using base assms(2) new(3) by (intro appended_sequences) auto
  moreover have "mr_bytes ?st = eventBytes (mr_events ?st)"
    using base eventBytes_split [of k "mr_events st"] new(1) by (simp add: fields)
  moreover have "distinct (map me_idempotencyKey (mr_events ?st))"
    and "\<forall>i m. map_of (mr_idempotency ?st) i = Some m \<longleftrightarrow> m \<in> set (mr_events ?st) \<and> me_idempotencyKey m = i"
    unfolding fields using base assms(6) appended_idempotency [of "mr_events st" "mr_idempotency st" new k] new(4)
    by auto
  ultimately show ?thesis
    using base assms(2,4,5) new
    by (auto simp: runOk_def runBase_def fields dest: in_set_dropD)
qed

lemma commitAppend_eq:
  "commitAppend c now run input k st s =
     (newEvent c s now run (wrap_u64 (mr_highWater st + 1)) input,
      publishAll run (newEvent c s now run (wrap_u64 (mr_highWater st + 1)) input)
        (s\<lparr>ms_runs := mput run (appendedRun c s now run input k st) (ms_runs s),
           ms_totalBytes := ms_totalBytes s - eventBytes (take k (mr_events st)) + transcriptEventSize input,
           ms_totalEvents := ms_totalEvents s - int (length (take k (mr_events st))) + 1\<rparr>))"
  by (simp add: commitAppend_def fold_evictOne Let_def appendedRun_def)

lemma appendedRun_fields [simp]:
  "mr_highWater (appendedRun c s now run input k st) = wrap_u64 (mr_highWater st + 1)"
  "mr_bytes (appendedRun c s now run input k st)
     = mr_bytes st - eventBytes (take k (mr_events st)) + transcriptEventSize input"
  "length (mr_events (appendedRun c s now run input k st)) = length (mr_events st) - k + 1"
  by (simp_all add: appendedRun_def Let_def)

section \<open>Operations keep the store well formed\<close>

lemma highWaterOf_mput:
  "highWaterOf (s\<lparr>ms_runs := mput run st (ms_runs s), ms_totalBytes := b, ms_totalEvents := n\<rparr>) run'
     = (if run' = run then mr_highWater st else highWaterOf s run')"
  by (simp add: highWaterOf_def)

lemma subscriberOkI:
  "int (length (sb_events sb)) \<le> mo_SubscriberBuffer opts \<Longrightarrow> sbSeen sb = [a..<b] \<Longrightarrow> a \<le> b \<Longrightarrow> b \<le> hw + 1
     \<Longrightarrow> (\<not> sb_isDropped sb \<Longrightarrow> b = hw + 1) \<Longrightarrow> subscriberOk opts hw sb"
  unfolding subscriberOk_def by blast

lemma publish_ok:
  assumes "subscriberOk opts hw sb" "te_Sequence event = hw + 1"
  shows "subscriberOk opts (hw + 1) (publish (mo_SubscriberBuffer opts) event sb)"
proof -
  from assms(1) obtain a b where ab: "sbSeen sb = [a..<b]" "a \<le> b" "b \<le> hw + 1"
    "\<not> sb_isDropped sb \<longrightarrow> b = hw + 1" and len: "int (length (sb_events sb)) \<le> mo_SubscriberBuffer opts"
    by (auto simp: subscriberOk_def)
  show ?thesis
  proof (cases "\<not> sb_isDropped sb \<and> int (length (sb_events sb)) < mo_SubscriberBuffer opts")
    case True
    let ?sb = "sb\<lparr>sb_events := sb_events sb @ [event]\<rparr>"
    have "sbSeen ?sb = sbSeen sb @ [hw + 1]" using assms(2) by (simp add: sbSeen_def)
    also have "\<dots> = [a..<hw + 1 + 1]" using ab True by simp
    finally have "sbSeen ?sb = [a..<hw + 1 + 1]" .
    then have "subscriberOk opts (hw + 1) ?sb" by (rule subscriberOkI [rotated]) (use True ab in auto)
    with True show ?thesis by (simp add: publish_def)
  next
    case False
    then have "sbSeen (publish (mo_SubscriberBuffer opts) event sb) = [a..<b]"
      "sb_isDropped (publish (mo_SubscriberBuffer opts) event sb)"
      "sb_events (publish (mo_SubscriberBuffer opts) event sb) = sb_events sb"
      using ab(1) by (auto simp: publish_def sbSeen_def)
    with ab len show ?thesis by (intro subscriberOkI [of _ _ a b]) auto
  qed
qed

lemma publishAll_fields [simp]:
  "ms_options (publishAll run ev s) = ms_options s" "ms_runs (publishAll run ev s) = ms_runs s"
  "ms_totalEvents (publishAll run ev s) = ms_totalEvents s"
  "ms_totalBytes (publishAll run ev s) = ms_totalBytes s"
  "ms_totalSubscribers (publishAll run ev s) = ms_totalSubscribers s"
  "ms_nextPointer (publishAll run ev s) = ms_nextPointer s"
  "ms_generation (publishAll run ev s) = ms_generation s"
  "ms_cursorKey (publishAll run ev s) = ms_cursorKey s"
  "highWaterOf (publishAll run ev s) r = highWaterOf s r"
  "runsOk (publishAll run ev s) = runsOk s"
  by (simp_all add: publishAll_def highWaterOf_def runsOk_def split: option.splits)

lemma map_of_map_snd: "map_of (map (\<lambda>(p, x). (p, f x)) xs) k = map_option f (map_of xs k)"
  by (induction xs) auto

lemma map_ok_map_snd: "map_ok (map (\<lambda>(p, x). (p, f x)) xs) = map_ok xs"
proof -
  have "map fst (map (\<lambda>(p, x). (p, f x)) xs) = map fst xs" by auto
  then show ?thesis by (simp only: map_ok_def)
qed

text \<open>Publishing advances the subscribers of one run together with its high water.\<close>

lemma publishAll_subscribers:
  assumes "subscribersOk s" "te_Sequence ev = highWaterOf s run + 1"
    and "ms_subscribers s' = ms_subscribers s" "ms_options s' = ms_options s"
    and "ms_nextPointer s' = ms_nextPointer s" "ms_totalSubscribers s' = ms_totalSubscribers s"
    and "\<And>r. highWaterOf s' r = (if r = run then highWaterOf s run + 1 else highWaterOf s r)"
  shows "subscribersOk (publishAll run ev s')"
proof (cases "map_of (ms_subscribers s) run")
  case None
  with assms show ?thesis by (auto simp: subscribersOk_def subsOk_def publishAll_def)
next
  case (Some subs)
  let ?subs = "map (\<lambda>(p, sb). (p, publish (mo_SubscriberBuffer (ms_options s)) ev sb)) subs"
  have ok: "map_ok subs" "subs \<noteq> []" "int (length subs) \<le> mo_MaxSubscribersPerRun (ms_options s)"
    and sb: "\<And>p sb. map_of subs p = Some sb \<Longrightarrow> p < ms_nextPointer s \<and> subscriberOk (ms_options s) (highWaterOf s run) sb"
    using assms(1) Some by (auto simp: subscribersOk_def subsOk_def)
  have eq: "publishAll run ev s' = s'\<lparr>ms_subscribers := mput run ?subs (ms_subscribers s)\<rparr>"
    using Some assms(3,4) by (simp add: publishAll_def)
  have tot: "msum (\<lambda>subs. int (length subs)) (mput run ?subs (ms_subscribers s))
      = msum (\<lambda>subs. int (length subs)) (ms_subscribers s)"
    using msum_mdel [of "ms_subscribers s" run subs "\<lambda>subs. int (length subs)"] assms(1) Some
    by (simp add: msum_mput subscribersOk_def subsOk_def)
  have "subscriberOk (ms_options s) (highWaterOf s run + 1) sb" "p < ms_nextPointer s"
    if "map_of ?subs p = Some sb" for p sb
    using that sb publish_ok [OF _ assms(2)] by (auto simp: map_of_map_snd)
  with ok tot assms show ?thesis
    unfolding eq by (auto simp: subscribersOk_def subsOk_def map_ok_map_snd highWaterOf_def)
qed

lemma evictPlan_ok:
  assumes "runOk opts st" "evictPlan opts (Some st) z = Some (k, freed)"
  shows "k \<le> length (mr_events st)" "freed = eventBytes (take k (mr_events st))"
    "int (length (mr_events st)) - int k + 1 \<le> mo_MaxEventsPerRun opts"
    "mr_bytes st - freed + z \<le> mo_MaxBytesPerRun opts"
  using evictLoop_result [of opts "int (length (mr_events st))" "mr_bytes st" z "mr_events st" 0 0 k freed] assms(2)
  by (auto simp: evictPlan_def)

lemma evictPlan_total:
  assumes "optionsOk opts" "\<forall>st. state = Some st \<longrightarrow> runOk opts st" "z \<le> mo_MaxBytesPerRun opts"
  shows "evictPlan opts state z \<noteq> None"
proof (cases state)
  case (Some st)
  with assms have "mr_bytes st = eventBytes (mr_events st)" by (simp add: runOk_def runBase_def)
  then have "\<exists>r. evictLoop opts (int (length (mr_events st))) (mr_bytes st) z (mr_events st) 0 0 = Some r"
    using assms by (intro evictLoop_total) (auto simp: optionsOk_def)
  with Some show ?thesis by (auto simp: evictPlan_def)
qed (simp add: evictPlan_def)

text \<open>What a committing append has established.\<close>

definition preRun :: "memoryTranscriptStore \<Rightarrow> RunIdentity \<Rightarrow> memoryRunTranscript" where
  "preRun s run = (case map_of (ms_runs s) run of None \<Rightarrow> emptyRun | Some st \<Rightarrow> st)"

definition appendable :: "memoryTranscriptStore \<Rightarrow> RunIdentity \<Rightarrow> AppendTranscriptInput \<Rightarrow> nat \<Rightarrow> bool" where
  "appendable s run input k \<longleftrightarrow>
     k \<le> length (mr_events (preRun s run))
     \<and> int (length (mr_events (preRun s run))) - int k + 1 \<le> mo_MaxEventsPerRun (ms_options s)
     \<and> mr_bytes (preRun s run) - eventBytes (take k (mr_events (preRun s run))) + transcriptEventSize input
         \<le> mo_MaxBytesPerRun (ms_options s)
     \<and> map_of (mr_idempotency (preRun s run)) (ai_Source input, ai_IdempotencyKey input) = None
     \<and> ms_totalEvents s - int k + 1 \<le> mo_MaxTotalEvents (ms_options s)
     \<and> ms_totalBytes s - eventBytes (take k (mr_events (preRun s run))) + transcriptEventSize input
         \<le> mo_MaxTotalBytes (ms_options s)
     \<and> (map_of (ms_runs s) run = None \<longrightarrow> int (length (ms_runs s)) < mo_MaxRuns (ms_options s))"

lemma preRun_base: "storeOk s \<Longrightarrow> runBase (ms_options s) (preRun s run)"
  by (auto simp: preRun_def storeOk_def runsOk_def runOk_def runBase_empty split: option.splits)

lemma preRun_highWater: "mr_highWater (preRun s run) = highWaterOf s run"
  by (simp add: preRun_def highWaterOf_def emptyRun_def split: option.splits)

definition priorEvent :: "memoryTranscriptStore \<Rightarrow> RunIdentity \<Rightarrow> AppendTranscriptInput \<Rightarrow> memoryEvent option" where
  "priorEvent s run input =
     (case map_of (ms_runs s) run of
        None \<Rightarrow> None
      | Some st \<Rightarrow> map_of (mr_idempotency st) (ai_Source input, ai_IdempotencyKey input))"

lemma priorEvent_stored:
  assumes "storeOk s" "priorEvent s run input = Some prior"
  obtains st where "map_of (ms_runs s) run = Some st" "prior \<in> set (mr_events st)"
    "me_idempotencyKey prior = (ai_Source input, ai_IdempotencyKey input)"
proof -
  from assms(2) obtain st where st: "map_of (ms_runs s) run = Some st"
    "map_of (mr_idempotency st) (ai_Source input, ai_IdempotencyKey input) = Some prior"
    by (auto simp: priorEvent_def split: option.splits)
  moreover from assms(1) st(1) have "runBase (ms_options s) st"
    by (auto simp: storeOk_def runsOk_def runOk_def)
  ultimately show ?thesis using that by (auto simp: runBase_def)
qed

lemma Append_commits:
  assumes ok: "storeOk s" and prior: "priorEvent s run input = None" and id: "completeIdentity run"
    and z: "transcriptEventSize input \<le> mo_MaxBytesPerRun (ms_options s)"
      "transcriptEventSize input \<le> mo_MaxTotalBytes (ms_options s)"
  shows "Append c now run input s = (Inl ErrTranscriptCapacity, s)
    \<or> (\<exists>k. appendable s run input k \<and> Append c now run input s =
          (case commitAppend c now run input k (preRun s run) s of
             (event, s') \<Rightarrow> (Inr \<lparr>ar_Event = event, ar_Replayed = False\<rparr>, s')))"
proof -
  let ?state = "map_of (ms_runs s) run" and ?z = "transcriptEventSize input"
  have runs: "\<forall>st. ?state = Some st \<longrightarrow> runOk (ms_options s) st" and opts: "optionsOk (ms_options s)"
    using ok by (auto simp: storeOk_def runsOk_def)
  from evictPlan_total [OF opts runs z(1)] obtain k freed
    where plan: "evictPlan (ms_options s) ?state ?z = Some (k, freed)" by auto
  have bounds: "k \<le> length (mr_events (preRun s run))
    \<and> freed = eventBytes (take k (mr_events (preRun s run)))
    \<and> int (length (mr_events (preRun s run))) - int k + 1 \<le> mo_MaxEventsPerRun (ms_options s)
    \<and> mr_bytes (preRun s run) - freed + ?z \<le> mo_MaxBytesPerRun (ms_options s)"
  proof (cases ?state)
    case None
    with plan opts z(1) show ?thesis
      by (simp add: evictPlan_def preRun_def emptyRun_def optionsOk_def)
  next
    case (Some st)
    with runs plan evictPlan_ok [of "ms_options s" st ?z k freed] show ?thesis
      by (simp add: preRun_def)
  qed
  have eq: "Append c now run input s =
     (if mo_MaxTotalEvents (ms_options s) < ms_totalEvents s - int k + 1
         \<or> mo_MaxTotalBytes (ms_options s) < ms_totalBytes s - freed + ?z
         \<or> ?state = None \<and> mo_MaxRuns (ms_options s) \<le> int (length (ms_runs s))
      then (Inl ErrTranscriptCapacity, s)
      else (case commitAppend c now run input k (preRun s run) s of
              (event, s') \<Rightarrow> (Inr \<lparr>ar_Event = event, ar_Replayed = False\<rparr>, s')))"
    using id prior z plan by (auto simp: Append_def Let_def priorEvent_def preRun_def)
  have fresh: "map_of (mr_idempotency (preRun s run)) (ai_Source input, ai_IdempotencyKey input) = None"
    using prior by (simp add: priorEvent_def preRun_def emptyRun_def split: option.splits)
  show ?thesis
    unfolding eq using bounds fresh by (auto simp: appendable_def not_less not_le)
qed

lemma Append_cases [consumes 1, case_names refused replayed committed]:
  assumes ok: "storeOk s"
  obtains (refused) err where "Append c now run input s = (Inl err, s)" "err \<noteq> IndexOutOfRange"
  | (replayed) st prior where "Append c now run input s = (Inr \<lparr>ar_Event = me_event prior, ar_Replayed = True\<rparr>, s)"
      "map_of (ms_runs s) run = Some st" "prior \<in> set (mr_events st)"
      "me_idempotencyKey prior = (ai_Source input, ai_IdempotencyKey input)"
      "equalAppendInput (me_event prior) input"
  | (committed) k where "appendable s run input k"
      "Append c now run input s =
         (case commitAppend c now run input k (preRun s run) s of
            (event, s') \<Rightarrow> (Inr \<lparr>ar_Event = event, ar_Replayed = False\<rparr>, s'))"
proof (cases "completeIdentity run")
  case False
  then show ?thesis by (intro refused [of "IncompleteIdentity ''append''"]) (simp_all add: Append_def)
next
  case id: True
  show ?thesis
  proof (cases "priorEvent s run input")
    case (Some prior)
    then have eq: "Append c now run input s =
        (if equalAppendInput (me_event prior) input
         then (Inr \<lparr>ar_Event = me_event prior, ar_Replayed = True\<rparr>, s) else (Inl ErrIdempotencyConflict, s))"
      using id by (simp add: Append_def Let_def priorEvent_def)
    show ?thesis
    proof (cases "equalAppendInput (me_event prior) input")
      case True
      from priorEvent_stored [OF ok Some] obtain st where "map_of (ms_runs s) run = Some st"
        "prior \<in> set (mr_events st)" "me_idempotencyKey prior = (ai_Source input, ai_IdempotencyKey input)"
        by blast
      with True eq show ?thesis by (intro replayed) auto
    next
      case False
      with eq show ?thesis by (intro refused) auto
    qed
  next
    case None
    show ?thesis
    proof (cases "transcriptEventSize input \<le> mo_MaxBytesPerRun (ms_options s)
        \<and> transcriptEventSize input \<le> mo_MaxTotalBytes (ms_options s)")
      case True
      with Append_commits [OF ok None id] refused committed show ?thesis by blast
    next
      case False
      with id None show ?thesis
        by (intro refused [of ErrTranscriptCapacity]) (auto simp: Append_def Let_def priorEvent_def)
    qed
  qed
qed

lemma msum_mput_some:
  fixes f :: "'v \<Rightarrow> int"
  shows "map_ok m \<Longrightarrow> map_of m k = Some v \<Longrightarrow> msum f (mput k v' m) = msum f m - f v + f v'"
  using msum_mdel [of m k v f] by (simp add: msum_mput)

lemma msum_mput_none:
  fixes f :: "'v \<Rightarrow> int"
  shows "map_of m k = None \<Longrightarrow> msum f (mput k v' m) = msum f m + f v'"
  by (simp add: msum_mput mdel_absent)

lemma preRun_msum:
  fixes f :: "memoryRunTranscript \<Rightarrow> int"
  assumes "map_ok (ms_runs s)" "f emptyRun = 0"
  shows "msum f (mput run st (ms_runs s)) = msum f (ms_runs s) - f (preRun s run) + f st"
  using assms by (auto simp: preRun_def msum_mput_some msum_mput_none split: option.splits)

lemma commitAppend_ok:
  assumes ok: "storeOk s" and ap: "appendable s run input k" and hw: "highWaterOf s run + 1 < 2 ^ 64"
  shows "storeOk (snd (commitAppend c now run input k (preRun s run) s))"
proof -
  let ?st = "preRun s run" and ?opts = "ms_options s"
  let ?new = "appendedRun c s now run input k ?st"
  let ?ev = "newEvent c s now run (wrap_u64 (mr_highWater ?st + 1)) input"
  define s' where "s' = s\<lparr>ms_runs := mput run ?new (ms_runs s),
      ms_totalBytes := ms_totalBytes s - eventBytes (take k (mr_events ?st)) + transcriptEventSize input,
      ms_totalEvents := ms_totalEvents s - int (length (take k (mr_events ?st))) + 1\<rparr>"
  have hw': "mr_highWater ?new = highWaterOf s run + 1" using hw by (simp add: preRun_highWater)
  have "runOk ?opts ?new"
    using ap hw by (intro appendedRun_ok preRun_base [OF ok]) (auto simp: appendable_def preRun_highWater)
  moreover have "int (length (mput run ?new (ms_runs s))) \<le> mo_MaxRuns ?opts"
    using ok ap by (auto simp: storeOk_def runsOk_def appendable_def length_mput)
  moreover have "int (length (take k (mr_events ?st))) = int k" using ap by (simp add: appendable_def)
  moreover have "msum mr_bytes (mput run ?new (ms_runs s)) = ms_totalBytes s'"
    "msum (\<lambda>st. int (length (mr_events st))) (mput run ?new (ms_runs s)) = ms_totalEvents s'"
    using ok ap by (simp_all add: storeOk_def runsOk_def preRun_msum emptyRun_def s'_def appendable_def)
  ultimately have "runsOk s'"
    using ok ap by (auto simp: runsOk_def storeOk_def appendable_def s'_def)
  moreover have "subscribersOk (publishAll run ?ev s')"
  proof (rule publishAll_subscribers)
    show "subscribersOk s" using ok by (simp add: storeOk_def)
    show "te_Sequence ?ev = highWaterOf s run + 1" using hw by (simp add: newEvent_def preRun_highWater)
    show "highWaterOf s' r = (if r = run then highWaterOf s run + 1 else highWaterOf s r)" for r
      using hw' by (simp add: s'_def highWaterOf_mput)
  qed (simp_all add: s'_def)
  ultimately show ?thesis
    using ok unfolding commitAppend_eq s'_def [symmetric] by (simp add: storeOk_def s'_def)
qed

lemma Append_ok:
  assumes "storeOk s" "highWaterOf s run + 1 < 2 ^ 64"
  shows "storeOk (snd (Append c now run input s))"
  using assms(1)
proof (cases rule: Append_cases [where c = c and now = now and run = run and input = input])
  case (committed k)
  then show ?thesis using commitAppend_ok [OF assms(1) committed(1) assms(2), of c now]
    by (simp split: prod.splits)
qed (use assms in auto)

lemma Append_highWater:
  assumes "storeOk s"
  shows "highWaterOf (snd (Append c now run input s)) r \<le> highWaterOf s r + 1"
  using assms
proof (cases rule: Append_cases [where c = c and now = now and run = run and input = input])
  case (committed k)
  then show ?thesis
    by (simp add: commitAppend_eq highWaterOf_mput preRun_highWater wrap_u64_def split: prod.splits)
qed auto

lemma sub_total: "subscribersOk s \<Longrightarrow> map_of (ms_subscribers s) run = Some subs \<Longrightarrow>
    msum (\<lambda>subs. int (length subs)) (mdel run (ms_subscribers s)) = ms_totalSubscribers s - int (length subs)"
  using msum_mdel [of "ms_subscribers s" run subs "\<lambda>subs. int (length subs)"]
  by (simp add: subscribersOk_def subsOk_def)

lemma filter_upt_gt: "filter (\<lambda>n. q < n) [a..<b] = [max a (q + 1)..<b]"
  by (induction b) (auto simp: max_def)

lemma replay_upto:
  assumes "storeOk s"
  shows "\<exists>a b. map te_Sequence (replayHistory (map_of (ms_runs s) run) q) = [a..<b] \<and> a \<le> b
     \<and> b = highWaterOf s run + 1"
proof (cases "map_of (ms_runs s) run")
  case None
  then show ?thesis by (auto simp: replayHistory_def highWaterOf_def)
next
  case (Some st)
  with assms have st: "runBase (ms_options s) st" by (auto simp: storeOk_def runsOk_def runOk_def)
  let ?a = "mr_highWater st + 1 - length (mr_events st)" and ?b = "mr_highWater st + 1"
  have "map te_Sequence (filter (\<lambda>ev. q < te_Sequence ev) (map me_event (mr_events st)))
      = filter (\<lambda>n. q < n) (map (te_Sequence \<circ> me_event) (mr_events st))"
    by (simp add: filter_map o_def)
  also have "\<dots> = filter (\<lambda>n. q < n) [?a..<?b]" using st by (simp add: runBase_def)
  also have "\<dots> = [max ?a (q + 1)..<?b]"
    by (rule filter_upt_gt)
  finally have "map te_Sequence (replayHistory (map_of (ms_runs s) run) q) = [max ?a (q + 1)..<?b]"
    using Some by (simp add: replayHistory_def)
  moreover have "[max ?a (q + 1)..<?b] = [min (max ?a (q + 1)) ?b..<?b]" by (simp add: min_def)
  ultimately show ?thesis using Some
    by (intro exI [of _ "min (max ?a (q + 1)) ?b"] exI [of _ ?b]) (simp add: highWaterOf_def)
qed

text \<open>Replacing or removing the subscribers of one run, the runs untouched.\<close>

lemma subsOk_mono: "subsOk opts hw n subs \<Longrightarrow> n \<le> n' \<Longrightarrow> subsOk opts hw n' subs"
  unfolding subsOk_def by (meson order_less_le_trans)

lemma subscribersOk_replace:
  assumes "subscribersOk s" "subsOk (ms_options s) (highWaterOf s run) fresh subs" "ms_nextPointer s \<le> fresh"
    and "tot = ms_totalSubscribers s - int (length (runSubscribers s run)) + int (length subs)"
    and "tot \<le> mo_MaxSubscribers (ms_options s)"
  shows "subscribersOk (s\<lparr>ms_subscribers := mput run subs (ms_subscribers s), ms_totalSubscribers := tot,
                          ms_nextPointer := fresh\<rparr>)"
proof -
  have ok: "map_ok (ms_subscribers s)"
    and sum: "ms_totalSubscribers s = msum (\<lambda>subs. int (length subs)) (ms_subscribers s)"
    using assms(1) by (simp_all add: subscribersOk_def)
  have "msum (\<lambda>subs. int (length subs)) (mput run subs (ms_subscribers s)) = tot"
    using assms(4) ok sum
    by (auto simp: runSubscribers_def msum_mput_some msum_mput_none split: option.splits)
  moreover have "highWaterOf (s\<lparr>ms_subscribers := mput run subs (ms_subscribers s), ms_totalSubscribers := tot,
                          ms_nextPointer := fresh\<rparr>) r = highWaterOf s r" for r
    by (simp add: highWaterOf_def)
  ultimately show ?thesis
    using assms subsOk_mono [OF _ assms(3)] ok unfolding subscribersOk_def by simp
qed

lemma subscribersOk_remove:
  assumes "subscribersOk s" "\<And>r. r \<noteq> run \<Longrightarrow> highWaterOf s' r = highWaterOf s r"
    and "ms_subscribers s' = mdel run (ms_subscribers s)" "ms_options s' = ms_options s"
    and "ms_nextPointer s' = ms_nextPointer s"
    and "ms_totalSubscribers s' = ms_totalSubscribers s - int (length (runSubscribers s run))"
  shows "subscribersOk s'"
proof (cases "map_of (ms_subscribers s) run")
  case None
  then show ?thesis using assms
    by (auto simp: subscribersOk_def subsOk_def mdel_absent runSubscribers_def) (metis option.distinct(1))+
next
  case (Some subs)
  with assms sub_total [OF assms(1) Some] show ?thesis
    by (auto simp: subscribersOk_def subsOk_def runSubscribers_def)
qed

lemma runSubscribers_ok:
  "subscribersOk s \<Longrightarrow> map_ok (runSubscribers s run)
     \<and> int (length (runSubscribers s run)) \<le> max 0 (mo_MaxSubscribersPerRun (ms_options s))
     \<and> (\<forall>p sb. map_of (runSubscribers s run) p = Some sb \<longrightarrow>
          p < ms_nextPointer s \<and> subscriberOk (ms_options s) (highWaterOf s run) sb)"
  by (force simp: subscribersOk_def subsOk_def runSubscribers_def split: option.splits)

lemma addSubscriber_ok:
  assumes ok: "storeOk s" and hist: "map te_Sequence history = [a..<highWaterOf s run + 1]" "a \<le> highWaterOf s run + 1"
    and room: "int (length (runSubscribers s run)) < mo_MaxSubscribersPerRun (ms_options s)"
      "ms_totalSubscribers s < mo_MaxSubscribers (ms_options s)"
  shows "storeOk (snd (addSubscriber run history s))"
proof -
  let ?sb = "\<lparr>sb_events = [], sb_isDropped = False, sb_history = history, sb_received = []\<rparr>"
  let ?p = "ms_nextPointer s" and ?subs = "runSubscribers s run"
  have subs: "subscribersOk s" using ok by (simp add: storeOk_def)
  note rs = runSubscribers_ok [OF subs, of run]
  have fresh: "map_of ?subs ?p = None"
  proof (cases "map_of ?subs ?p")
    case (Some sb)
    with rs have "?p < ?p" by blast
    then show ?thesis by simp
  qed simp
  have "subscriberOk (ms_options s) (highWaterOf s run) ?sb"
    using ok hist by (intro subscriberOkI [of _ _ a "highWaterOf s run + 1"])
      (auto simp: storeOk_def optionsOk_def sbSeen_def)
  with rs have "p < Suc ?p \<and> subscriberOk (ms_options s) (highWaterOf s run) sb"
    if "map_of (mput ?p ?sb ?subs) p = Some sb" for p sb
    using that by (auto split: if_splits dest: less_SucI)
  moreover have "length (mput ?p ?sb ?subs) = Suc (length ?subs)"
    using fresh rs by (simp add: length_mput)
  ultimately have "subscribersOk (s\<lparr>ms_subscribers := mput run (mput ?p ?sb ?subs) (ms_subscribers s),
      ms_totalSubscribers := ms_totalSubscribers s + 1, ms_nextPointer := Suc ?p\<rparr>)"
    using rs room by (intro subscribersOk_replace [OF subs]) (auto simp: subsOk_def)
  moreover have "runsOk (s\<lparr>ms_subscribers := x, ms_totalSubscribers := t, ms_nextPointer := n\<rparr>) = runsOk s" for x t n
    by (simp add: runsOk_def)
  ultimately show ?thesis using ok by (simp add: addSubscriber_def Let_def storeOk_def)
qed

lemma subscribeAt_ok:
  assumes "storeOk s"
  shows "storeOk (snd (subscribeAt c run resumed q s))"
proof -
  obtain a where "map te_Sequence (replayHistory (map_of (ms_runs s) run) q) = [a..<highWaterOf s run + 1]"
    "a \<le> highWaterOf s run + 1"
    using replay_upto [OF assms, of run q] by blast
  from addSubscriber_ok [OF assms this] assms show ?thesis
    by (auto simp: subscribeAt_def Let_def split: prod.splits)
qed

lemma Subscribe_ok: "storeOk s \<Longrightarrow> storeOk (snd (Subscribe c run cur s))"
  by (auto simp: Subscribe_def subscribeAt_ok split: sum.splits)

lemma unsubscribe_ok:
  assumes ok: "storeOk s"
  shows "storeOk (unsubscribe run p s)"
proof (cases "map_of (runSubscribers s run) p")
  case None
  with ok show ?thesis by (simp add: unsubscribe_def)
next
  case (Some sb)
  have subs: "subscribersOk s" using ok by (simp add: storeOk_def)
  note rs = runSubscribers_ok [OF subs, of run]
  let ?subs = "mdel p (runSubscribers s run)"
  have len: "int (length ?subs) = int (length (runSubscribers s run)) - 1"
    using rs Some by (cases "runSubscribers s run") (auto simp: length_mdel)
  have runs: "runsOk (s\<lparr>ms_subscribers := x, ms_totalSubscribers := t\<rparr>) = runsOk s" for x t
    by (simp add: runsOk_def)
  have hw: "highWaterOf (s\<lparr>ms_subscribers := x, ms_totalSubscribers := t\<rparr>) r = highWaterOf s r" for x t r
    by (simp add: highWaterOf_def)
  show ?thesis
  proof (cases "?subs = []")
    case True
    with Some have eq: "unsubscribe run p s = s\<lparr>ms_subscribers := mdel run (ms_subscribers s),
        ms_totalSubscribers := ms_totalSubscribers s - 1\<rparr>" by (simp add: unsubscribe_def Let_def)
    have "subscribersOk (unsubscribe run p s)"
      by (rule subscribersOk_remove [OF subs, of run]) (use len True in \<open>auto simp: eq hw\<close>)
    with ok show ?thesis by (simp add: storeOk_def eq runs)
  next
    case False
    with Some have eq: "unsubscribe run p s = s\<lparr>ms_subscribers := mput run ?subs (ms_subscribers s),
        ms_totalSubscribers := ms_totalSubscribers s - 1, ms_nextPointer := ms_nextPointer s\<rparr>"
      by (simp add: unsubscribe_def Let_def)
    have "mo_MaxSubscribersPerRun (ms_options s) > 0" using ok by (simp add: storeOk_def optionsOk_def)
    then have "subscribersOk (unsubscribe run p s)"
      unfolding eq
      by (intro subscribersOk_replace [OF subs]) (use rs len False subs in \<open>auto simp: subscribersOk_def subsOk_def\<close>)
    with ok show ?thesis by (simp add: storeOk_def eq runs)
  qed
qed

lemma receive_ok:
  assumes ok: "storeOk s"
  shows "storeOk (receive run p s)"
proof (cases "\<exists>sb ev evs. map_of (runSubscribers s run) p = Some sb \<and> sb_events sb = ev # evs")
  case True
  then obtain sb ev evs where sb: "map_of (runSubscribers s run) p = Some sb" "sb_events sb = ev # evs" by blast
  have subs: "subscribersOk s" using ok by (simp add: storeOk_def)
  note rs = runSubscribers_ok [OF subs, of run]
  let ?sb = "sb\<lparr>sb_events := evs, sb_received := sb_received sb @ [ev]\<rparr>"
  let ?subs = "mput p ?sb (runSubscribers s run)"
  have "sbSeen ?sb = sbSeen sb" using sb(2) by (simp add: sbSeen_def)
  moreover from rs sb(1) have old: "subscriberOk (ms_options s) (highWaterOf s run) sb" "p < ms_nextPointer s"
    by blast+
  moreover from old(1) sb(2) have "int (length evs) \<le> mo_SubscriberBuffer (ms_options s)"
    by (simp add: subscriberOk_def)
  ultimately have "subscriberOk (ms_options s) (highWaterOf s run) ?sb" "p < ms_nextPointer s"
    by (simp_all add: subscriberOk_def)
  moreover have "length ?subs = length (runSubscribers s run)" using rs sb by (simp add: length_mput)
  moreover have "0 < mo_MaxSubscribersPerRun (ms_options s)" using ok by (simp add: storeOk_def optionsOk_def)
  ultimately have "subscribersOk (s\<lparr>ms_subscribers := mput run ?subs (ms_subscribers s),
      ms_totalSubscribers := ms_totalSubscribers s, ms_nextPointer := ms_nextPointer s\<rparr>)"
    using rs subs by (intro subscribersOk_replace [OF subs]) (auto simp: subsOk_def subscribersOk_def)
  then have "subscribersOk (receive run p s)" using sb by (simp add: receive_def)
  moreover have "runsOk (receive run p s) = runsOk s" "ms_options (receive run p s) = ms_options s"
    using sb by (simp_all add: receive_def runsOk_def)
  ultimately show ?thesis using ok by (simp add: storeOk_def)
next
  case False
  then have "receive run p s = s" by (auto simp: receive_def split: option.splits list.splits)
  with ok show ?thesis by simp
qed

lemma Delete_highWater:
  "completeIdentity run \<Longrightarrow> highWaterOf (snd (Delete run s)) r = (if r = run then 0 else highWaterOf s r)"
  by (auto simp: Delete_def Let_def highWaterOf_def split: option.splits)

lemma Delete_ok:
  assumes ok: "storeOk s"
  shows "storeOk (snd (Delete run s))"
proof (cases "completeIdentity run")
  case False
  with ok show ?thesis by (simp add: Delete_def)
next
  case True
  have subs: "subscribersOk s" and runs: "runsOk s" using ok by (simp_all add: storeOk_def)
  have "subscribersOk (snd (Delete run s))"
    by (rule subscribersOk_remove [OF subs, of run])
       (use True in \<open>auto simp: Delete_highWater\<close>, auto simp: Delete_def Let_def split: option.splits)
  moreover have "runsOk (snd (Delete run s))"
  proof (cases "map_of (ms_runs s) run")
    case None
    with True runs show ?thesis by (simp add: Delete_def Let_def runsOk_def)
  next
    case (Some st)
    have "0 \<le> mr_bytes st" using runs Some eventBytes_nonneg [of "mr_events st"]
      by (auto simp: runsOk_def runOk_def runBase_def)
    moreover have "length (mdel run (ms_runs s)) \<le> length (ms_runs s)" by (simp add: mdel_def)
    ultimately show ?thesis
      using True Some runs
        msum_mdel [of "ms_runs s" run st mr_bytes] msum_mdel [of "ms_runs s" run st "\<lambda>st. int (length (mr_events st))"]
      by (auto simp: Delete_def Let_def runsOk_def)
  qed
  moreover have "ms_options (snd (Delete run s)) = ms_options s"
    by (auto simp: Delete_def Let_def split: option.splits)
  ultimately show ?thesis using ok by (simp add: storeOk_def)
qed

section \<open>Runs of the store\<close>

datatype transcript_op =
  OpAppend int RunIdentity AppendTranscriptInput
| OpSubscribe RunIdentity string
| OpUnsubscribe RunIdentity nat
| OpReceive RunIdentity nat
| OpDelete RunIdentity

fun transcriptStep :: "crypto \<Rightarrow> memoryTranscriptStore \<Rightarrow> transcript_op \<Rightarrow> memoryTranscriptStore" where
  "transcriptStep c s (OpAppend now run input) = snd (Append c now run input s)"
| "transcriptStep c s (OpSubscribe run cur) = snd (Subscribe c run cur s)"
| "transcriptStep c s (OpUnsubscribe run p) = unsubscribe run p s"
| "transcriptStep c s (OpReceive run p) = receive run p s"
| "transcriptStep c s (OpDelete run) = snd (Delete run s)"

text \<open>With the number of operations so far: no high water exceeds it, so sequences cannot wrap
  within the first \<open>2 ^ 64 - 1\<close> operations.\<close>

definition countedStep :: "crypto \<Rightarrow> memoryTranscriptStore \<times> nat \<Rightarrow> transcript_op \<Rightarrow> memoryTranscriptStore \<times> nat" where
  "countedStep c p op = (transcriptStep c (fst p) op, Suc (snd p))"

definition countedOk :: "memoryTranscriptStore \<times> nat \<Rightarrow> bool" where
  "countedOk p \<longleftrightarrow> (snd p < 2 ^ 64 \<longrightarrow> storeOk (fst p) \<and> (\<forall>run. highWaterOf (fst p) run \<le> snd p))"

lemma addSubscriber_highWater: "addSubscriber run h s = (p, s') \<Longrightarrow> highWaterOf s' r = highWaterOf s r"
  by (auto simp: addSubscriber_def Let_def highWaterOf_def)

lemma transcriptStep_highWater:
  assumes "storeOk s"
  shows "highWaterOf (transcriptStep c s op) r \<le> highWaterOf s r + 1"
proof (cases op)
  case (OpAppend now run input)
  with Append_highWater [OF assms, of c now run input r] show ?thesis by simp
next
  case (OpSubscribe run cur)
  have "highWaterOf (snd (subscribeAt c run b q s)) r = highWaterOf s r" for b q
    by (auto simp: subscribeAt_def Let_def dest: addSubscriber_highWater split: prod.splits)
  with OpSubscribe show ?thesis by (auto simp: Subscribe_def split: sum.splits)
next
  case (OpUnsubscribe run p)
  then show ?thesis by (simp add: unsubscribe_def highWaterOf_def Let_def)
next
  case (OpReceive run p)
  then show ?thesis by (simp add: receive_def highWaterOf_def split: option.splits list.splits)
next
  case (OpDelete run)
  then show ?thesis by (cases "completeIdentity run") (simp_all add: Delete_highWater, simp add: Delete_def)
qed

lemma countedStep_ok: "countedOk p \<Longrightarrow> countedOk (countedStep c p op)"
proof (cases "Suc (snd p) < 2 ^ 64")
  case True
  assume "countedOk p"
  with True have ok: "storeOk (fst p)" and hw: "\<And>run. highWaterOf (fst p) run \<le> snd p"
    by (auto simp: countedOk_def)
  from hw True have "highWaterOf (fst p) run + 1 < 2 ^ 64" for run
    by (metis Suc_eq_plus1 Suc_le_mono order_le_less_trans)
  then have "storeOk (transcriptStep c (fst p) op)"
    using ok by (cases op) (auto simp: Append_ok Subscribe_ok unsubscribe_ok receive_ok Delete_ok)
  moreover have "highWaterOf (transcriptStep c (fst p) op) run \<le> Suc (snd p)" for run
    using transcriptStep_highWater [OF ok, of c op run] hw [of run] by linarith
  ultimately show ?thesis by (simp add: countedOk_def countedStep_def)
qed (simp add: countedOk_def countedStep_def)

interpretation transcript: step_system "countedStep c" countedOk for c
  by unfold_locales (rule countedStep_ok)

lemma counted_run: "foldl (countedStep c) (s, n) ops = (foldl (transcriptStep c) s ops, n + length ops)"
  by (induction ops arbitrary: s n) (simp_all add: countedStep_def)

lemma optionsOk_normalize: "optionsOk (normalizeOptions opts)"
  by (simp add: optionsOk_def normalizeOptions_def positive_or_def DefaultMemoryTranscriptStoreOptions_def Let_def)

lemma new_store_ok: "storeOk (NewMemoryTranscriptStore opts g k)" "highWaterOf (NewMemoryTranscriptStore opts g k) r = 0"
  using optionsOk_normalize [of opts]
  by (auto simp: storeOk_def NewMemoryTranscriptStore_def runsOk_def subscribersOk_def highWaterOf_def optionsOk_def)

lemma run_storeOk:
  assumes "length ops < 2 ^ 64"
  shows "storeOk (foldl (transcriptStep c) (NewMemoryTranscriptStore opts g k) ops)"
proof -
  have "countedOk (NewMemoryTranscriptStore opts g k, 0)" by (simp add: countedOk_def new_store_ok)
  from transcript.run_invar [OF this, of c ops] assms show ?thesis
    by (simp add: counted_run countedOk_def)
qed

lemma storeOk_run:
  "storeOk s \<Longrightarrow> map_of (ms_runs s) run = Some st \<Longrightarrow> runBase (ms_options s) st"
  by (simp add: storeOk_def runsOk_def runOk_def)

section \<open>Cursors round-trip\<close>

text \<open>What base64 URL encoding guarantees of its outputs: no dot.\<close>

definition encoded :: "crypto \<Rightarrow> memoryTranscriptStore \<Rightarrow> bool" where
  "encoded c s \<longleftrightarrow>
     (\<forall>x. CHR ''.'' \<notin> set (cr_runHash c x)) \<and> (\<forall>k x. CHR ''.'' \<notin> set (cr_sign c k x))
     \<and> CHR ''.'' \<notin> set (ms_generation s)"

lemma cursor_parts:
  assumes "encoded c s"
  shows "\<exists>h g. split_on (CHR ''.'') (cursor c s run n) = [''v1'', ms_generation s, h, format_nat n, g]"
proof -
  let ?h = "cr_runHash c (ri_Namespace run @ nul # ri_NamespaceUID run @ nul # ri_UID run)"
  let ?p = "''v1.'' @ ms_generation s @ ''.'' @ ?h @ ''.'' @ format_nat n"
  let ?g = "cr_sign c (ms_cursorKey s) ?p"
  have dig: "CHR ''.'' \<notin> set (format_nat n)" by (rule format_nat_no_char) (simp add: is_digit_def code_def)
  have "cursor c s run n = join_with (CHR ''.'') [''v1'', ms_generation s, ?h, format_nat n, ?g]"
    by (simp add: cursor_def Let_def)
  moreover have "split_on (CHR ''.'') (join_with (CHR ''.'') [''v1'', ms_generation s, ?h, format_nat n, ?g])
      = [''v1'', ms_generation s, ?h, format_nat n, ?g]"
    by (rule split_on_join) (use assms dig in \<open>auto simp: encoded_def\<close>)
  ultimately show ?thesis by (metis (no_types))
qed

lemma parse_cursor:
  assumes "encoded c s" "n < 2 ^ 64"
  shows "parseCursor c s run (cursor c s run n) = Inr n"
  using cursor_parts [OF assms(1), of run n] assms(2) by (auto simp: parseCursor_def Let_def)

lemma parseCursor_sound:
  "parseCursor c s run cur = Inr n \<Longrightarrow> cur = cursor c s run n \<and> n < 2 ^ 64"
  by (auto simp: parseCursor_def Let_def parse_uint_def split: if_splits option.splits)

section \<open>Properties\<close>


definition plain_crypto :: crypto where
  "plain_crypto = \<lparr>cr_runHash = (\<lambda>_. ''h''), cr_sign = (\<lambda>_ _. ''m'')\<rparr>"

definition tiny_options :: MemoryTranscriptStoreOptions where
  "tiny_options = DefaultMemoryTranscriptStoreOptions\<lparr>mo_MaxEventsPerRun := 1\<rparr>"

definition example_run :: RunIdentity where
  "example_run = \<lparr>ri_Namespace = ''n'', ri_NamespaceUID = ''u'', ri_UID = ''r''\<rparr>"

definition example_input :: "string \<Rightarrow> AppendTranscriptInput" where
  "example_input k = \<lparr>ai_Source = ''a'', ai_SourceSequence = None, ai_IdempotencyKey = k,
                      ai_Type = ''t'', ai_Data = ''{}''\<rparr>"

definition example_ops :: "transcript_op list" where
  "example_ops = [OpSubscribe example_run [], OpAppend 1 example_run (example_input ''x''),
                  OpAppend 2 example_run (example_input ''y'')]"

definition example_store :: memoryTranscriptStore where
  "example_store = foldl (transcriptStep plain_crypto) (NewMemoryTranscriptStore tiny_options ''g'' ''k'') example_ops"

lemma example_store_totals: "ms_totalEvents example_store = 1" "highWaterOf example_store example_run = 2"
  by code_simp+


text \<open>Appends are idempotent: in every state reached by fewer than 2^64 - 1 operations, repeating an
  append that succeeded returns the same event, marks it replayed and leaves the store unchanged;
  the first append that commits takes exactly the next sequence number of its run.\<close>

theorem append_idempotent:
  assumes "Suc (length ops) < 2 ^ 64"
    and "s = foldl (transcriptStep c) (NewMemoryTranscriptStore opts g k) ops"
    and "Append c now run input s = (Inr r, s')"
  shows "Append c now' run input s' = (Inr \<lparr>ar_Event = ar_Event r, ar_Replayed = True\<rparr>, s')
    \<and> (\<not> ar_Replayed r \<longrightarrow> te_Sequence (ar_Event r) = highWaterOf s run + 1
          \<and> highWaterOf s' run = highWaterOf s run + 1)"
proof -
  have ok: "storeOk s" using run_storeOk [of ops c opts g k] assms(1,2) by simp
  have id: "completeIdentity run" using assms(3) by (auto simp: Append_def split: if_splits)
  have "countedOk (foldl (countedStep c) (NewMemoryTranscriptStore opts g k, 0) ops)"
    by (rule transcript.run_invar) (simp add: countedOk_def new_store_ok)
  then have hw: "highWaterOf s run + 1 < 2 ^ 64"
    using assms(1,2) by (auto simp: counted_run countedOk_def intro: order_le_less_trans)
  have replay: "Append c now' run input s'' = (Inr \<lparr>ar_Event = me_event prior, ar_Replayed = True\<rparr>, s'')"
    if "priorEvent s'' run input = Some prior" "equalAppendInput (me_event prior) input" for s'' prior
    using that id by (simp add: Append_def Let_def priorEvent_def)
  from ok show ?thesis
  proof (cases rule: Append_cases [where c = c and now = now and run = run and input = input])
    case (refused err)
    with assms(3) show ?thesis by simp
  next
    case (replayed st prior)
    then have "priorEvent s run input = Some prior"
      using ok by (auto simp: priorEvent_def storeOk_def runsOk_def runOk_def runBase_def)
    from replay [OF this replayed(5)] replayed(1) assms(3) show ?thesis by simp
  next
    case (committed j)
    let ?new = "appendedRun c s now run input j (preRun s run)"
    let ?ev = "newEvent c s now run (wrap_u64 (mr_highWater (preRun s run) + 1)) input"
    have s': "map_of (ms_runs s') run = Some ?new" and r: "r = \<lparr>ar_Event = ?ev, ar_Replayed = False\<rparr>"
      using committed(2) assms(3) by (auto simp: commitAppend_eq)
    then have "priorEvent s' run input = Some \<lparr>me_event = ?ev,
        me_idempotencyKey = (ai_Source input, ai_IdempotencyKey input), me_size = transcriptEventSize input\<rparr>"
      by (simp add: priorEvent_def appendedRun_def Let_def)
    moreover have "equalAppendInput ?ev input" by (simp add: equalAppendInput_def newEvent_def)
    moreover have "highWaterOf s' run = highWaterOf s run + 1"
      using s' hw by (simp add: highWaterOf_def [of s'] preRun_highWater)
    ultimately show ?thesis
      using replay [of s'] r hw by (simp add: newEvent_def preRun_highWater)
  qed
qed

theorem append_idempotent_witness:
  "\<exists>r s'. Append plain_crypto 3 example_run (example_input ''z'') example_store = (Inr r, s')
     \<and> Append plain_crypto 9 example_run (example_input ''z'') s'
         = (Inr \<lparr>ar_Event = ar_Event r, ar_Replayed = True\<rparr>, s')"
proof -
  have "is_ok (fst (Append plain_crypto 3 example_run (example_input ''z'') example_store))" by code_simp
  then obtain r s' where run: "Append plain_crypto 3 example_run (example_input ''z'') example_store = (Inr r, s')"
    by (metis is_ok_iff prod.collapse)
  have "Suc (length example_ops) < 2 ^ 64" by (simp add: example_ops_def)
  from append_idempotent [OF this example_store_def run] run show ?thesis by blast
qed

text \<open>(C10) Exactly-once delivery: in every state reached by fewer than 2^64 operations, what a registered
  and not dropped subscriber was handed at subscription, has received since and still has buffered
  is, in this order, an uninterrupted run of sequence numbers ending at the high water of its run:
  no committed event is missing, repeated or reordered; and its channel never exceeds the buffer.\<close>

theorem subscriber_sees_every_event:
  assumes "length ops < 2 ^ 64"
    and "s = foldl (transcriptStep c) (NewMemoryTranscriptStore opts g k) ops"
    and "map_of (runSubscribers s run) p = Some sb" "\<not> sb_isDropped sb"
  shows "\<exists>a. map te_Sequence (sb_history sb @ sb_received sb @ sb_events sb) = [a..<highWaterOf s run + 1]
    \<and> int (length (sb_events sb)) \<le> mo_SubscriberBuffer (ms_options s)"
proof -
  have ok: "subscribersOk s" using run_storeOk [OF assms(1), of c opts g k] by (simp add: assms(2) storeOk_def)
  from runSubscribers_ok [OF ok, of run] assms(3) have "subscriberOk (ms_options s) (highWaterOf s run) sb" by blast
  with assms(4) show ?thesis by (auto simp: subscriberOk_def sbSeen_def)
qed

theorem subscriber_sees_every_event_witness:
  "\<exists>sb a. map_of (runSubscribers example_store example_run) 0 = Some sb
     \<and> map te_Sequence (sb_history sb @ sb_received sb @ sb_events sb) = [a..<3]"
proof -
  have "map_option sb_isDropped (map_of (runSubscribers example_store example_run) 0) = Some False" by code_simp
  then obtain sb where sb: "map_of (runSubscribers example_store example_run) 0 = Some sb" "\<not> sb_isDropped sb"
    by auto
  have "length example_ops < 2 ^ 64" by (simp add: example_ops_def)
  from subscriber_sees_every_event [OF this example_store_def sb] obtain a
    where "map te_Sequence (sb_history sb @ sb_received sb @ sb_events sb)
        = [a..<highWaterOf example_store example_run + 1]" by blast
  moreover have "highWaterOf example_store example_run + 1 = 3" by (simp add: example_store_totals)
  ultimately show ?thesis using sb(1) by metis
qed

text \<open>Cursors round-trip and are bound to their run: with dot-free encodings, the cursor issued for
  a sequence number parses back to it, and a cursor is accepted for a run only if it is literally
  the cursor this store issues for that run and sequence.\<close>

theorem transcript_cursor_round_trip:
  assumes "encoded c s" "n < 2 ^ 64"
  shows "parseCursor c s run (cursor c s run n) = Inr n
    \<and> (\<forall>cur m. parseCursor c s run cur = Inr m \<longrightarrow> cur = cursor c s run m)"
  using parse_cursor [OF assms] parseCursor_sound by blast

theorem transcript_cursor_round_trip_witness:
  "parseCursor plain_crypto example_store example_run (cursor plain_crypto example_store example_run 5) = Inr 5"
proof -
  have "ms_generation example_store = ''g''" by code_simp
  then have "encoded plain_crypto example_store" by (simp add: encoded_def plain_crypto_def)
  from transcript_cursor_round_trip [OF this, of 5 example_run] show ?thesis by simp
qed

lemma resumed_history:
  assumes ok: "storeOk s" and sub: "subscribeAt c run True q s = (Inr sub, s')"
    and q: "q \<le> highWaterOf s run" "q + 1 < 2 ^ 64"
  shows "map te_Sequence (ts_History sub) = [q + 1..<highWaterOf s run + 1]"
proof -
  from sub have hist: "ts_History sub = replayHistory (map_of (ms_runs s) run) q"
    and early: "\<not> wrap_u64 (q + 1) < earliestSequence (map_of (ms_runs s) run)"
    by (auto simp: subscribeAt_def Let_def split: prod.splits if_splits)
  show ?thesis
  proof (cases "map_of (ms_runs s) run")
    case None
    with q show ?thesis by (simp add: hist replayHistory_def highWaterOf_def)
  next
    case (Some st)
    have run: "runOk (ms_options s) st" using ok Some by (simp add: storeOk_def runsOk_def)
    let ?a = "mr_highWater st + 1 - length (mr_events st)"
    from run obtain x xs where evs: "mr_events st = x # xs" by (auto simp: runOk_def neq_Nil_conv)
    with run have "(te_Sequence \<circ> me_event) x # map (te_Sequence \<circ> me_event) xs = [?a..<mr_highWater st + 1]"
      by (simp add: runOk_def runBase_def)
    then have "te_Sequence (me_event x) = ?a" by (metis comp_apply upt_eq_Cons_conv)
    with early q Some evs have a: "?a \<le> q + 1" by (simp add: earliestSequence_def)
    have "map te_Sequence (ts_History sub)
        = filter (\<lambda>n. q < n) (map (te_Sequence \<circ> me_event) (mr_events st))"
      using Some by (simp add: hist replayHistory_def filter_map o_def)
    also have "\<dots> = [max ?a (q + 1)..<mr_highWater st + 1]"
      using run unfolding runOk_def runBase_def by (metis filter_upt_gt)
    finally show ?thesis using a Some by (simp add: highWaterOf_def max_def)
  qed
qed

text \<open>Resuming from a cursor loses nothing: when a subscription with a non-empty cursor succeeds in
  a reachable state, the cursor is the store's cursor for some sequence number and the replayed
  history consists of exactly the sequence numbers after it up to the high water.\<close>

theorem subscribe_resumes_after_cursor:
  assumes "Suc (length ops) < 2 ^ 64"
    and "s = foldl (transcriptStep c) (NewMemoryTranscriptStore opts g k) ops"
    and "Subscribe c run cur s = (Inr sub, s')" "cur \<noteq> []"
  shows "\<exists>q. cur = cursor c s run q \<and> map te_Sequence (ts_History sub) = [q + 1..<highWaterOf s run + 1]"
proof -
  have ok: "storeOk s" using run_storeOk [of ops c opts g k] assms(1,2) by simp
  have "countedOk (foldl (countedStep c) (NewMemoryTranscriptStore opts g k, 0) ops)"
    by (rule transcript.run_invar) (simp add: countedOk_def new_store_ok)
  then have hw: "highWaterOf s run + 1 < 2 ^ 64"
    using assms(1,2) by (auto simp: counted_run countedOk_def intro: order_le_less_trans)
  from assms(3,4) obtain q where q: "parseCursor c s run cur = Inr q" "q \<le> highWaterOf s run"
    and sub: "subscribeAt c run True q s = (Inr sub, s')"
    by (auto simp: Subscribe_def highWaterOf_def not_less split: if_splits sum.splits)
  from q(2) hw have "q + 1 < 2 ^ 64" by linarith
  from resumed_history [OF ok sub q(2) this] parseCursor_sound [OF q(1)] show ?thesis by blast
qed

theorem subscribe_resumes_after_cursor_witness:
  "\<exists>sub s' q. Subscribe plain_crypto example_run (cursor plain_crypto example_store example_run 1) example_store = (Inr sub, s')
     \<and> map te_Sequence (ts_History sub) = [q + 1..<3]"
proof -
  let ?cur = "cursor plain_crypto example_store example_run 1"
  have "is_ok (fst (Subscribe plain_crypto example_run ?cur example_store))" by code_simp
  then obtain sub s' where run: "Subscribe plain_crypto example_run ?cur example_store = (Inr sub, s')"
    by (metis is_ok_iff prod.collapse)
  have "Suc (length example_ops) < 2 ^ 64" "?cur \<noteq> []" by (simp_all add: example_ops_def cursor_def Let_def)
  from subscribe_resumes_after_cursor [OF this(1) example_store_def run this(2)] obtain q
    where "map te_Sequence (ts_History sub) = [q + 1..<highWaterOf example_store example_run + 1]" by blast
  moreover have "highWaterOf example_store example_run + 1 = 3" by (simp add: example_store_totals)
  ultimately show ?thesis using run by metis
qed

text \<open>Deletion removes exactly one identity and is idempotent: afterwards the run has no events and no
  subscribers, every other run and its subscribers are as before, the reclaimed counts are what the
  global totals lost, and deleting again reports nothing deleted and changes nothing.\<close>

theorem delete_exact_and_idempotent:
  assumes "completeIdentity run" "storeOk s" "Delete run s = (Inr r, s')"
  shows "map_of (ms_runs s') run = None \<and> runSubscribers s' run = []
    \<and> (\<forall>other. other \<noteq> run \<longrightarrow> map_of (ms_runs s') other = map_of (ms_runs s) other
          \<and> runSubscribers s' other = runSubscribers s other)
    \<and> ms_totalEvents s' = ms_totalEvents s - int (dr_ReclaimedEvents r)
    \<and> ms_totalBytes s' = ms_totalBytes s - int (dr_ReclaimedBytes r)
    \<and> Delete run s' = (Inr \<lparr>dr_Deleted = False, dr_ReclaimedEvents = 0, dr_ReclaimedBytes = 0\<rparr>, s')"
proof -
  have bytes: "0 \<le> mr_bytes st" if "map_of (ms_runs s) run = Some st" for st
    using storeOk_run [OF assms(2) that] eventBytes_nonneg [of "mr_events st"] by (auto simp: runBase_def)
  have none: "map_of (ms_runs s') run = None" "map_of (ms_subscribers s') run = None"
    using assms(1,3) by (auto simp: Delete_def Let_def split: option.splits)
  then have "runSubscribers s' run = []" by (simp add: runSubscribers_def)
  moreover from this none have "Delete run s' = (Inr \<lparr>dr_Deleted = False, dr_ReclaimedEvents = 0, dr_ReclaimedBytes = 0\<rparr>, s')"
    using assms(1) by (simp add: Delete_def Let_def mdel_absent)
  moreover have "ms_runs s' = mdel run (ms_runs s)" "ms_subscribers s' = mdel run (ms_subscribers s)"
    using assms(1,3) by (auto simp: Delete_def Let_def mdel_absent split: option.splits)
  moreover have "ms_totalEvents s' = ms_totalEvents s - int (dr_ReclaimedEvents r)
      \<and> ms_totalBytes s' = ms_totalBytes s - int (dr_ReclaimedBytes r)"
    using assms(1,3) bytes by (cases "map_of (ms_runs s) run") (auto simp: Delete_def Let_def)
  ultimately show ?thesis using none(1) by (simp add: runSubscribers_def)
qed

theorem delete_exact_and_idempotent_witness:
  "\<exists>r s'. Delete example_run example_store = (Inr r, s') \<and> runSubscribers s' example_run = []
     \<and> ms_totalEvents s' = 1 - int (dr_ReclaimedEvents r)"
proof -
  have id: "completeIdentity example_run" by (simp add: completeIdentity_def example_run_def)
  then have "is_ok (fst (Delete example_run example_store))"
    by (simp add: Delete_def Let_def split: option.splits)
  then obtain r s' where run: "Delete example_run example_store = (Inr r, s')" by (metis is_ok_iff prod.collapse)
  have "storeOk example_store"
    using run_storeOk [of example_ops] by (simp add: example_store_def example_ops_def)
  from delete_exact_and_idempotent [OF id this run] run example_store_totals(1) show ?thesis by auto
qed

end
