(* ===== verification/Transcript_Gate.thy ===== *)
theory Transcript_Gate
  imports Transcript_Types
begin

text \<open>
  The process-local gate that makes transcript deletion safe
  (\<open>src/internal/controlplane/transcript_gate.go\<close>): requests are admitted until a cutoff, and a
  cleanup starts only when everything admitted before it has drained.

  Entries are heap objects (a removed entry can still be referenced by a cutoff handle), so
  \<open>ga_entries\<close> maps a run to an address and \<open>ga_heap\<close> an address to an entry. An admission is a
  number; once released it is gone from \<open>ga_admissions\<close>, which is what \<open>sync.Once\<close> achieves. Every
  operation runs under the gate's mutex, so operations are atomic steps; the waiting loop of
  \<open>beginCleanup\<close> is one step per round.
\<close>

section \<open>State\<close>

record transcriptGateEntry =
  ge_cutoff :: bool
  ge_completed :: bool
  ge_cleaning :: bool
  ge_appends :: int
  ge_streams :: "nat list"
  ge_signals :: nat

record transcriptAdmission =
  gd_run :: RunIdentity
  gd_entry :: nat
  gd_stream :: bool

record transcriptGate =
  ga_maxEntries :: int
  ga_entries :: "(RunIdentity \<times> nat) list"
  ga_heap :: "nat \<Rightarrow> transcriptGateEntry"
  ga_admissions :: "(nat \<times> transcriptAdmission) list"
  ga_cancelled :: "nat list"
  ga_nextEntry :: nat
  ga_nextAdmission :: nat

definition newEntry :: transcriptGateEntry where
  "newEntry = \<lparr>ge_cutoff = False, ge_completed = False, ge_cleaning = False, ge_appends = 0,
               ge_streams = [], ge_signals = 0\<rparr>"

definition newTranscriptGate :: "int \<Rightarrow> transcriptGate" where
  "newTranscriptGate maxEntries =
     \<lparr>ga_maxEntries = (if maxEntries \<le> 0 then 4096 else maxEntries), ga_entries = [],
      ga_heap = (\<lambda>_. newEntry), ga_admissions = [], ga_cancelled = [], ga_nextEntry = 0,
      ga_nextAdmission = 0\<rparr>"

section \<open>Operations\<close>

definition modifyEntry ::
  "nat \<Rightarrow> (transcriptGateEntry \<Rightarrow> transcriptGateEntry) \<Rightarrow> transcriptGate \<Rightarrow> transcriptGate" where
  "modifyEntry a f g = g\<lparr>ga_heap := (ga_heap g)(a := f (ga_heap g a))\<rparr>"

definition signal :: "nat \<Rightarrow> transcriptGate \<Rightarrow> transcriptGate" where
  "signal a g = modifyEntry a (\<lambda>e. e\<lparr>ge_signals := Suc (ge_signals e)\<rparr>) g"

definition removeIdle :: "RunIdentity \<Rightarrow> nat \<Rightarrow> transcriptGate \<Rightarrow> transcriptGate" where
  "removeIdle run a g =
     (if \<not> ge_cutoff (ga_heap g a) \<and> ge_appends (ga_heap g a) = 0 \<and> ge_streams (ga_heap g a) = []
         \<and> map_of (ga_entries g) run = Some a
      then g\<lparr>ga_entries := mdel run (ga_entries g)\<rparr> else g)"

text \<open>The entry of a run, created when there is room.\<close>

definition ensureEntry :: "RunIdentity \<Rightarrow> transcriptGate \<Rightarrow> transcript_error + nat \<times> transcriptGate" where
  "ensureEntry run g =
     (case map_of (ga_entries g) run of
        Some a \<Rightarrow> Inr (a, g)
      | None \<Rightarrow>
          if ga_maxEntries g \<le> int (length (ga_entries g)) then Inl ErrTranscriptGateLimit
          else Inr (ga_nextEntry g,
                    g\<lparr>ga_entries := mput run (ga_nextEntry g) (ga_entries g),
                      ga_heap := (ga_heap g)(ga_nextEntry g := newEntry),
                      ga_nextEntry := Suc (ga_nextEntry g)\<rparr>))"

definition addAdmission :: "RunIdentity \<Rightarrow> bool \<Rightarrow> nat \<Rightarrow> transcriptGate \<Rightarrow> nat \<times> transcriptGate" where
  "addAdmission run stream a g =
     (let i = ga_nextAdmission g;
          g1 = modifyEntry a (\<lambda>e. if stream then e\<lparr>ge_streams := i # ge_streams e\<rparr>
                                  else e\<lparr>ge_appends := ge_appends e + 1\<rparr>) g
      in (i, g1\<lparr>ga_admissions := mput i \<lparr>gd_run = run, gd_entry = a, gd_stream = stream\<rparr> (ga_admissions g),
               ga_nextAdmission := Suc i\<rparr>))"

definition admit ::
  "RunIdentity \<Rightarrow> bool \<Rightarrow> transcriptGate \<Rightarrow> (transcript_error + nat) \<times> transcriptGate" where
  "admit run stream g =
     (if (case map_of (ga_entries g) run of None \<Rightarrow> False | Some a \<Rightarrow> ge_cutoff (ga_heap g a))
      then (Inl ErrTranscriptCutoff, g)
      else case ensureEntry run g of
             Inl err \<Rightarrow> (Inl err, g)
           | Inr (a, g1) \<Rightarrow> (case addAdmission run stream a g1 of (i, g2) \<Rightarrow> (Inr i, g2)))"

definition release :: "nat \<Rightarrow> transcriptGate \<Rightarrow> transcriptGate" where
  "release i g =
     (case map_of (ga_admissions g) i of
        None \<Rightarrow> g
      | Some ad \<Rightarrow>
          (let a = gd_entry ad;
               g0 = g\<lparr>ga_admissions := mdel i (ga_admissions g)\<rparr>;
               g1 = (if gd_stream ad then
                       (if i \<in> set (ge_streams (ga_heap g a))
                        then signal a (modifyEntry a (\<lambda>e. e\<lparr>ge_streams := removeAll i (ge_streams e)\<rparr>)
                               (g0\<lparr>ga_cancelled := i # ga_cancelled g\<rparr>))
                        else g0)
                     else signal a (modifyEntry a (\<lambda>e. e\<lparr>ge_appends := ge_appends e - 1\<rparr>) g0))
           in removeIdle (gd_run ad) a g1))"

definition cutoff :: "RunIdentity \<Rightarrow> transcriptGate \<Rightarrow> (transcript_error + nat) \<times> transcriptGate" where
  "cutoff run g =
     (case ensureEntry run g of
        Inl err \<Rightarrow> (Inl err, g)
      | Inr (a, g1) \<Rightarrow>
          (Inr a, modifyEntry a (\<lambda>e. e\<lparr>ge_cutoff := True\<rparr>)
                    (g1\<lparr>ga_cancelled := ge_streams (ga_heap g1 a) @ ga_cancelled g1\<rparr>)))"

datatype cleanup_round =
  AlreadyCompleted
| Acquired
| Wait

definition beginCleanup :: "nat \<Rightarrow> transcriptGate \<Rightarrow> cleanup_round \<times> transcriptGate" where
  "beginCleanup a g =
     (let e = ga_heap g a in
      if ge_completed e then (AlreadyCompleted, g)
      else if ge_appends e = 0 \<and> ge_streams e = [] \<and> \<not> ge_cleaning e
      then (Acquired, modifyEntry a (\<lambda>e. e\<lparr>ge_cleaning := True\<rparr>) g)
      else (Wait, g))"

definition finish :: "RunIdentity \<Rightarrow> nat \<Rightarrow> bool \<Rightarrow> transcriptGate \<Rightarrow> transcriptGate" where
  "finish run a success g =
     (let g1 = modifyEntry a (\<lambda>e. e\<lparr>ge_cleaning := False\<rparr>) g;
          g2 = (if success then modifyEntry a (\<lambda>e. e\<lparr>ge_completed := True, ge_cutoff := False\<rparr>) g1 else g1);
          g3 = signal a g2
      in if success then removeIdle run a g3 else g3)"

section \<open>Invariant\<close>

text \<open>
  The outstanding admissions of an entry are exactly its counters; every entry in the map is live
  (cut off or in use) and not completed; an entry being cleaned is in the map, cut off and drained.
\<close>

definition outstanding :: "transcriptGate \<Rightarrow> nat \<Rightarrow> bool \<Rightarrow> nat set" where
  "outstanding g a stream =
     {i. \<exists>ad. map_of (ga_admissions g) i = Some ad \<and> gd_entry ad = a \<and> gd_stream ad = stream}"

definition entryOk :: "transcriptGate \<Rightarrow> nat \<Rightarrow> bool" where
  "entryOk g a \<longleftrightarrow>
     set (ge_streams (ga_heap g a)) = outstanding g a True
     \<and> ge_appends (ga_heap g a) = int (card (outstanding g a False))
     \<and> (ge_cleaning (ga_heap g a) \<longrightarrow>
          ge_cutoff (ga_heap g a) \<and> \<not> ge_completed (ga_heap g a)
          \<and> ge_appends (ga_heap g a) = 0 \<and> ge_streams (ga_heap g a) = []
          \<and> (\<exists>run. map_of (ga_entries g) run = Some a))
     \<and> (ge_cutoff (ga_heap g a) \<longrightarrow> (\<exists>run. map_of (ga_entries g) run = Some a))
     \<and> (ga_nextEntry g \<le> a \<longrightarrow> ga_heap g a = newEntry)"

definition gateOk :: "transcriptGate \<Rightarrow> bool" where
  "gateOk g \<longleftrightarrow>
     map_ok (ga_entries g) \<and> map_ok (ga_admissions g)
     \<and> 0 < ga_maxEntries g \<and> int (length (ga_entries g)) \<le> ga_maxEntries g
     \<and> (\<forall>run a. map_of (ga_entries g) run = Some a \<longrightarrow> a < ga_nextEntry g \<and> \<not> ge_completed (ga_heap g a))
     \<and> (\<forall>run run' a. map_of (ga_entries g) run = Some a \<and> map_of (ga_entries g) run' = Some a \<longrightarrow> run = run')
     \<and> (\<forall>i ad. map_of (ga_admissions g) i = Some ad \<longrightarrow>
          i < ga_nextAdmission g \<and> map_of (ga_entries g) (gd_run ad) = Some (gd_entry ad))
     \<and> (\<forall>a. entryOk g a)"

lemma gate_admission:
  "gateOk g \<Longrightarrow> map_of (ga_admissions g) i = Some ad \<Longrightarrow>
     i < ga_nextAdmission g \<and> map_of (ga_entries g) (gd_run ad) = Some (gd_entry ad)"
  by (simp add: gateOk_def)

lemma gate_entry:
  "gateOk g \<Longrightarrow> map_of (ga_entries g) run = Some a \<Longrightarrow> a < ga_nextEntry g \<and> \<not> ge_completed (ga_heap g a)"
  by (simp add: gateOk_def)

lemma gate_unique:
  "gateOk g \<Longrightarrow> map_of (ga_entries g) run = Some a \<Longrightarrow> map_of (ga_entries g) run' = Some a \<Longrightarrow> run' = run"
  by (simp add: gateOk_def)

lemma gate_entryOk: "gateOk g \<Longrightarrow> entryOk g a"
  by (simp add: gateOk_def)

lemma gate_maps:
  "gateOk g \<Longrightarrow> map_ok (ga_entries g)" "gateOk g \<Longrightarrow> map_ok (ga_admissions g)"
  "gateOk g \<Longrightarrow> 0 < ga_maxEntries g" "gateOk g \<Longrightarrow> int (length (ga_entries g)) \<le> ga_maxEntries g"
  by (simp_all add: gateOk_def)

lemma gateOkI:
  assumes "map_ok (ga_entries g)" "map_ok (ga_admissions g)" "0 < ga_maxEntries g"
    and "int (length (ga_entries g)) \<le> ga_maxEntries g"
    and "\<And>run a. map_of (ga_entries g) run = Some a \<Longrightarrow> a < ga_nextEntry g \<and> \<not> ge_completed (ga_heap g a)"
    and "\<And>run run' a. map_of (ga_entries g) run = Some a \<Longrightarrow> map_of (ga_entries g) run' = Some a \<Longrightarrow> run = run'"
    and "\<And>i ad. map_of (ga_admissions g) i = Some ad \<Longrightarrow>
           i < ga_nextAdmission g \<and> map_of (ga_entries g) (gd_run ad) = Some (gd_entry ad)"
    and "\<And>a. entryOk g a"
  shows "gateOk g"
  using assms unfolding gateOk_def by blast

lemma finite_outstanding [simp]: "finite (outstanding g a b)"
proof -
  have "outstanding g a b \<subseteq> dom (map_of (ga_admissions g))" by (auto simp: outstanding_def)
  then show ?thesis by (rule finite_subset) (rule finite_dom_map_of)
qed

lemma outstanding_cong: "ga_admissions g' = ga_admissions g \<Longrightarrow> outstanding g' = outstanding g"
  by (intro ext) (simp add: outstanding_def)

lemma outstanding_frame [simp]:
  "outstanding (g\<lparr>ga_heap := h\<rparr>) = outstanding g" "outstanding (g\<lparr>ga_cancelled := cs\<rparr>) = outstanding g"
  "outstanding (g\<lparr>ga_entries := es\<rparr>) = outstanding g"
  by (rule outstanding_cong, simp)+

lemma outstanding_add:
  assumes "map_of (ga_admissions g) i = None"
    and "ga_admissions g' = mput i \<lparr>gd_run = run, gd_entry = a, gd_stream = b\<rparr> (ga_admissions g)"
  shows "outstanding g' a' b' = (if a' = a \<and> b' = b then insert i (outstanding g a b) else outstanding g a' b')"
  using assms by (auto simp: outstanding_def)

lemma outstanding_remove:
  assumes "map_of (ga_admissions g) i = Some ad" "ga_admissions g' = mdel i (ga_admissions g)"
  shows "outstanding g' a b =
    (if a = gd_entry ad \<and> b = gd_stream ad then outstanding g a b - {i} else outstanding g a b)"
  using assms by (auto simp: outstanding_def split: if_splits)

lemmas modify_defs = modifyEntry_def signal_def

lemma gate_used_entry:
  assumes "gateOk g" "outstanding g a b \<noteq> {}"
  shows "\<exists>run. map_of (ga_entries g) run = Some a"
proof -
  from assms(2) obtain i ad where "map_of (ga_admissions g) i = Some ad" "gd_entry ad = a"
    by (auto simp: outstanding_def)
  with gate_admission [OF assms(1)] show ?thesis by blast
qed

lemma gate_fresh_entry:
  assumes "gateOk g" "ga_nextEntry g \<le> a"
  shows "outstanding g a b = {}" "ga_heap g a = newEntry" "map_of (ga_entries g) run \<noteq> Some a"
proof -
  show m: "map_of (ga_entries g) run \<noteq> Some a" for run
    using gate_entry [OF assms(1), of run a] assms(2) by auto
  show "outstanding g a b = {}" using gate_used_entry [OF assms(1), of a b] m by blast
  show "ga_heap g a = newEntry" using assms by (simp add: gateOk_def entryOk_def)
qed

lemma entryOk_keep:
  assumes "entryOk g b" "ga_heap g' b = ga_heap g b" "\<And>st. outstanding g' b st = outstanding g b st"
    and "\<exists>r. map_of (ga_entries g) r = Some b \<Longrightarrow> \<exists>r. map_of (ga_entries g') r = Some b"
    and "ga_nextEntry g \<le> ga_nextEntry g'"
  shows "entryOk g' b"
proof -
  from assms(5) have "ga_nextEntry g' \<le> b \<Longrightarrow> ga_nextEntry g \<le> b" by (rule order_trans)
  with assms(1,4) show ?thesis unfolding entryOk_def assms(2,3) by blast
qed

lemma ensureEntry_ok:
  assumes ok: "gateOk g" and res: "ensureEntry run g = Inr (a, g')"
  shows "gateOk g'" "map_of (ga_entries g') run = Some a"
    "ga_admissions g' = ga_admissions g" "ga_nextAdmission g' = ga_nextAdmission g"
    "\<And>r b. map_of (ga_entries g) r = Some b \<Longrightarrow> map_of (ga_entries g') r = Some b \<and> ga_heap g' b = ga_heap g b"
    "map_of (ga_entries g) run = None \<Longrightarrow> ga_heap g' a = newEntry"
    "ga_nextEntry g \<le> ga_nextEntry g'" "\<And>b. b < ga_nextEntry g \<Longrightarrow> ga_heap g' b = ga_heap g b"
    "ga_cancelled g' = ga_cancelled g"
proof -
  have fresh: "\<And>b. map_of (ga_entries g) b \<noteq> Some (ga_nextEntry g)" "\<And>b. outstanding g (ga_nextEntry g) b = {}"
    "ga_heap g (ga_nextEntry g) = newEntry"
    using gate_fresh_entry [OF ok, of "ga_nextEntry g"] by simp_all
  have "gateOk g' \<and> map_of (ga_entries g') run = Some a
    \<and> ga_admissions g' = ga_admissions g \<and> ga_nextAdmission g' = ga_nextAdmission g
    \<and> (\<forall>r b. map_of (ga_entries g) r = Some b \<longrightarrow> map_of (ga_entries g') r = Some b \<and> ga_heap g' b = ga_heap g b)
    \<and> (map_of (ga_entries g) run = None \<longrightarrow> ga_heap g' a = newEntry)
    \<and> ga_nextEntry g \<le> ga_nextEntry g' \<and> (\<forall>b < ga_nextEntry g. ga_heap g' b = ga_heap g b)
    \<and> ga_cancelled g' = ga_cancelled g"
  proof (cases "map_of (ga_entries g) run")
    case (Some b)
    with res ok show ?thesis by (auto simp: ensureEntry_def)
  next
    case None
    let ?n = "ga_nextEntry g"
    have a: "a = ?n" and room: "int (length (ga_entries g)) < ga_maxEntries g"
      and g': "g' = g\<lparr>ga_entries := mput run ?n (ga_entries g), ga_heap := (ga_heap g)(?n := newEntry),
                     ga_nextEntry := Suc ?n\<rparr>"
      using res None by (auto simp: ensureEntry_def split: if_splits)
    have heap: "ga_heap g' = ga_heap g" using fresh(3) by (simp add: g' fun_upd_idem)
    have out: "outstanding g' = outstanding g" by (rule outstanding_cong) (simp add: g')
    have ex: "\<exists>r. map_of (ga_entries g') r = Some b" if "\<exists>r. map_of (ga_entries g) r = Some b" for b
      using that None by (auto simp: g') (metis option.distinct(1))
    have entry: "entryOk g' b" for b
    proof -
      show ?thesis
        by (rule entryOk_keep [OF gate_entryOk [OF ok]]) (use ex [of b] in \<open>simp_all add: heap out\<close>, simp add: g')
    qed
    have "gateOk g'"
    proof (rule gateOkI)
      show "entryOk g' b" for b by (rule entry)
      show "map_of (ga_entries g') r = Some b \<Longrightarrow> b < ga_nextEntry g' \<and> \<not> ge_completed (ga_heap g' b)" for r b
        using gate_entry [OF ok, of r b] fresh(3) unfolding heap by (auto simp: g' newEntry_def split: if_splits)
      show "map_of (ga_entries g') r = Some b \<Longrightarrow> map_of (ga_entries g') r' = Some b \<Longrightarrow> r = r'" for r r' b
        using gate_unique [OF ok] fresh(1) by (auto simp: g' split: if_splits)
      show "map_of (ga_admissions g') i = Some ad \<Longrightarrow>
          i < ga_nextAdmission g' \<and> map_of (ga_entries g') (gd_run ad) = Some (gd_entry ad)" for i ad
        using gate_admission [OF ok, of i ad] None by (auto simp: g')
    qed (use gate_maps [OF ok] None room in \<open>auto simp: g' length_mput\<close>)
    with a None heap fresh(3) show ?thesis by (auto simp: g')
  qed
  then show "gateOk g'" "map_of (ga_entries g') run = Some a"
    "ga_admissions g' = ga_admissions g" "ga_nextAdmission g' = ga_nextAdmission g"
    "\<And>r b. map_of (ga_entries g) r = Some b \<Longrightarrow> map_of (ga_entries g') r = Some b \<and> ga_heap g' b = ga_heap g b"
    "map_of (ga_entries g) run = None \<Longrightarrow> ga_heap g' a = newEntry"
    "ga_nextEntry g \<le> ga_nextEntry g'" "\<And>b. b < ga_nextEntry g \<Longrightarrow> ga_heap g' b = ga_heap g b"
    "ga_cancelled g' = ga_cancelled g"
    by blast+
qed

text \<open>Changing one entry that stays in the map.\<close>

lemma modify_ok:
  assumes ok: "gateOk g" and a: "map_of (ga_entries g) run = Some a"
    and g': "ga_entries g' = ga_entries g" "ga_maxEntries g' = ga_maxEntries g" "ga_nextEntry g' = ga_nextEntry g"
      "map_ok (ga_admissions g')" "\<And>b. b \<noteq> a \<Longrightarrow> ga_heap g' b = ga_heap g b"
    and adm: "\<And>i ad. map_of (ga_admissions g') i = Some ad \<Longrightarrow>
       i < ga_nextAdmission g' \<and> map_of (ga_entries g) (gd_run ad) = Some (gd_entry ad)"
    and out: "\<And>b st. b \<noteq> a \<Longrightarrow> outstanding g' b st = outstanding g b st"
    and entry: "entryOk g' a" "\<not> ge_completed (ga_heap g' a)"
  shows "gateOk g'"
proof (rule gateOkI)
  show "entryOk g' b" for b
  proof (cases "b = a")
    case True
    with entry show ?thesis by simp
  next
    case False
    show ?thesis by (rule entryOk_keep [OF gate_entryOk [OF ok]]) (use False out g' in simp_all)
  qed
  show "map_of (ga_entries g') r = Some b \<Longrightarrow> b < ga_nextEntry g' \<and> \<not> ge_completed (ga_heap g' b)" for r b
    using gate_entry [OF ok, of r b] entry(2) g' by (cases "b = a") auto
  show "map_of (ga_entries g') r = Some b \<Longrightarrow> map_of (ga_entries g') r' = Some b \<Longrightarrow> r = r'" for r r' b
    using gate_unique [OF ok] g'(1) by simp
qed (use adm gate_maps [OF ok] g' in simp_all)

lemma addAdmission_ok:
  assumes ok: "gateOk g" and a: "map_of (ga_entries g) run = Some a" and open_entry: "\<not> ge_cutoff (ga_heap g a)"
  shows "gateOk (snd (addAdmission run stream a g))"
proof -
  let ?i = "ga_nextAdmission g" and ?g = "snd (addAdmission run stream a g)"
  have fresh: "map_of (ga_admissions g) ?i = None"
    using gate_admission [OF ok, of ?i] by (cases "map_of (ga_admissions g) ?i") auto
  have adm: "ga_admissions ?g = mput ?i \<lparr>gd_run = run, gd_entry = a, gd_stream = stream\<rparr> (ga_admissions g)"
    by (simp add: addAdmission_def Let_def modify_defs)
  note out = outstanding_add [OF fresh adm]
  have i: "?i \<notin> outstanding g a b" for b using fresh by (simp add: outstanding_def)
  note e = gate_entryOk [OF ok, of a, unfolded entryOk_def]
  have heap: "ga_heap ?g a = (if stream then (ga_heap g a)\<lparr>ge_streams := ?i # ge_streams (ga_heap g a)\<rparr>
      else (ga_heap g a)\<lparr>ge_appends := ge_appends (ga_heap g a) + 1\<rparr>)"
    by (simp add: addAdmission_def Let_def modify_defs)
  have g: "ga_entries ?g = ga_entries g" "ga_maxEntries ?g = ga_maxEntries g" "ga_nextEntry ?g = ga_nextEntry g"
    "ga_nextAdmission ?g = Suc ?i" "\<And>b. b \<noteq> a \<Longrightarrow> ga_heap ?g b = ga_heap g b"
    by (simp_all add: addAdmission_def Let_def modify_defs)
  have "entryOk ?g a"
    using e a open_entry gate_entry [OF ok a] i unfolding entryOk_def heap out g
    by (cases stream) auto
  moreover have "\<not> ge_completed (ga_heap ?g a)" using gate_entry [OF ok a] heap by (cases stream) auto
  ultimately show ?thesis
    by (intro modify_ok [OF ok a])
       (use gate_admission [OF ok] gate_maps [OF ok] out a in
         \<open>auto simp: g adm intro: less_SucI split: if_splits\<close>)
qed

lemma admit_ok: "gateOk g \<Longrightarrow> gateOk (snd (admit run stream g))"
proof -
  assume ok: "gateOk g"
  show ?thesis
  proof (cases "fst (admit run stream g)")
    case (Inl err)
    with ok show ?thesis by (auto simp: admit_def split: if_splits option.splits sum.splits prod.splits)
  next
    case (Inr i)
    then obtain a g1 where en: "ensureEntry run g = Inr (a, g1)"
      and res: "admit run stream g = (Inr i, snd (addAdmission run stream a g1))"
      and nc: "map_of (ga_entries g) run = Some b \<Longrightarrow> \<not> ge_cutoff (ga_heap g b)" for b
      by (auto simp: admit_def split: if_splits option.splits sum.splits prod.splits)
    note e = ensureEntry_ok [OF ok en]
    have "\<not> ge_cutoff (ga_heap g1 a)"
    proof (cases "map_of (ga_entries g) run")
      case None
      with e(6) show ?thesis by (simp add: newEntry_def)
    next
      case (Some b)
      with e(2,5) nc show ?thesis by fastforce
    qed
    with addAdmission_ok [OF e(1,2)] res show ?thesis by simp
  qed
qed

text \<open>Dropping an idle entry.\<close>

lemma removeIdle_ok:
  assumes ok: "gateOk g"
  shows "gateOk (removeIdle run a g)"
proof (cases "\<not> ge_cutoff (ga_heap g a) \<and> ge_appends (ga_heap g a) = 0 \<and> ge_streams (ga_heap g a) = []
         \<and> map_of (ga_entries g) run = Some a")
  case False
  then have "removeIdle run a g = g" by (auto simp: removeIdle_def)
  with ok show ?thesis by simp
next
  case True
  let ?g = "g\<lparr>ga_entries := mdel run (ga_entries g)\<rparr>"
  have eq: "removeIdle run a g = ?g" using True by (simp add: removeIdle_def)
  note e = gate_entryOk [OF ok, of a, unfolded entryOk_def]
  have none: "outstanding g a b = {}" for b using e True by (cases b) auto
  have out: "outstanding ?g = outstanding g" by (rule outstanding_cong) simp
  have "gateOk ?g"
  proof (rule gateOkI)
    show "entryOk ?g b" for b
    proof (cases "b = a")
      case True
      then show ?thesis using e \<open>\<not> ge_cutoff (ga_heap g a) \<and> _\<close> out by (auto simp: entryOk_def)
    next
      case False
      have "\<exists>r. map_of (ga_entries ?g) r = Some b" if "\<exists>r. map_of (ga_entries g) r = Some b"
        using that False True by (auto simp: fun_upd_def) (metis option.inject)
      then show ?thesis
        by (intro entryOk_keep [OF gate_entryOk [OF ok]]) (simp_all add: out)
    qed
    show "map_of (ga_admissions ?g) i = Some ad \<Longrightarrow>
        i < ga_nextAdmission ?g \<and> map_of (ga_entries ?g) (gd_run ad) = Some (gd_entry ad)" for i ad
    proof -
      assume ad: "map_of (ga_admissions ?g) i = Some ad"
      with gate_admission [OF ok, of i ad]
      have m: "i < ga_nextAdmission g" "map_of (ga_entries g) (gd_run ad) = Some (gd_entry ad)" by auto
      have "gd_entry ad \<noteq> a" using ad none [of "gd_stream ad"] by (auto simp: outstanding_def)
      with m True show ?thesis by auto
    qed
    show "map_of (ga_entries ?g) r = Some b \<Longrightarrow> b < ga_nextEntry ?g \<and> \<not> ge_completed (ga_heap ?g b)" for r b
      using gate_entry [OF ok, of r b] by (simp split: if_splits)
    show "map_of (ga_entries ?g) r = Some b \<Longrightarrow> map_of (ga_entries ?g) r' = Some b \<Longrightarrow> r = r'" for r r' b
      using gate_unique [OF ok, of r b r'] by (simp split: if_splits)
    show "int (length (ga_entries ?g)) \<le> ga_maxEntries ?g"
      using gate_maps [OF ok] by (auto simp: length_mdel)
  qed (use gate_maps [OF ok] in simp_all)
  then show ?thesis by (simp only: eq)
qed

lemma release_ok:
  assumes ok: "gateOk g"
  shows "gateOk (release i g)"
proof (cases "map_of (ga_admissions g) i")
  case None
  with ok show ?thesis by (simp add: release_def)
next
  case (Some ad)
  let ?a = "gd_entry ad" and ?run = "gd_run ad"
  define g0 where "g0 = g\<lparr>ga_admissions := mdel i (ga_admissions g)\<rparr>"
  define g1 where "g1 = (if gd_stream ad
      then signal ?a (modifyEntry ?a (\<lambda>e. e\<lparr>ge_streams := removeAll i (ge_streams e)\<rparr>)
             (g0\<lparr>ga_cancelled := i # ga_cancelled g\<rparr>))
      else signal ?a (modifyEntry ?a (\<lambda>e. e\<lparr>ge_appends := ge_appends e - 1\<rparr>) g0))"
  have a: "map_of (ga_entries g) ?run = Some ?a" using gate_admission [OF ok Some] by simp
  note e = gate_entryOk [OF ok, of ?a, unfolded entryOk_def]
  have i: "i \<in> outstanding g ?a (gd_stream ad)" using Some by (auto simp: outstanding_def)
  have adm: "ga_admissions g1 = mdel i (ga_admissions g)" by (simp add: g1_def g0_def modify_defs)
  note out = outstanding_remove [OF Some adm]
  have str: "gd_stream ad \<Longrightarrow> i \<in> set (ge_streams (ga_heap g ?a))" using i e by simp
  have rel: "release i g = removeIdle ?run ?a g1"
    using Some str by (simp add: release_def Let_def g1_def g0_def)
  have g: "ga_entries g1 = ga_entries g" "ga_maxEntries g1 = ga_maxEntries g" "ga_nextEntry g1 = ga_nextEntry g"
    "ga_nextAdmission g1 = ga_nextAdmission g" "\<And>b. b \<noteq> ?a \<Longrightarrow> ga_heap g1 b = ga_heap g b"
    by (simp_all add: g1_def g0_def modify_defs)
  have heap: "ge_cutoff (ga_heap g1 ?a) = ge_cutoff (ga_heap g ?a)"
    "ge_cleaning (ga_heap g1 ?a) = ge_cleaning (ga_heap g ?a)"
    "ge_completed (ga_heap g1 ?a) = ge_completed (ga_heap g ?a)"
    "set (ge_streams (ga_heap g1 ?a)) = (if gd_stream ad then set (ge_streams (ga_heap g ?a)) - {i}
                                         else set (ge_streams (ga_heap g ?a)))"
    "ge_appends (ga_heap g1 ?a) = (if gd_stream ad then ge_appends (ga_heap g ?a) else ge_appends (ga_heap g ?a) - 1)"
    by (simp_all add: g1_def g0_def modify_defs)
  have notclean: "\<not> ge_cleaning (ga_heap g ?a)" using e i by (cases "gd_stream ad") auto
  have card: "\<not> gd_stream ad \<Longrightarrow> int (card (outstanding g ?a False - {i})) = int (card (outstanding g ?a False)) - 1"
    using i card_Suc_Diff1 [of "outstanding g ?a False" i] by simp
  have "entryOk g1 ?a"
    unfolding entryOk_def heap out g using e a notclean card gate_entry [OF ok a] by (cases "gd_stream ad") auto
  moreover have "map_of (ga_admissions g1) j = Some ad' \<Longrightarrow>
      j < ga_nextAdmission g1 \<and> map_of (ga_entries g) (gd_run ad') = Some (gd_entry ad')" for j ad'
    using gate_admission [OF ok, of j ad'] by (simp add: adm g split: if_splits)
  moreover have "b \<noteq> ?a \<Longrightarrow> outstanding g1 b st = outstanding g b st" for b st by (simp add: out)
  moreover have "map_ok (ga_admissions g1)" using gate_maps [OF ok] by (simp add: adm)
  moreover have "\<not> ge_completed (ga_heap g1 ?a)" using gate_entry [OF ok a] by (simp add: heap)
  ultimately have "gateOk g1" using g by (intro modify_ok [OF ok a])
  then show ?thesis unfolding rel by (rule removeIdle_ok)
qed

text \<open>Changing only the flags of an entry in the map.\<close>

lemma flags_ok:
  assumes ok: "gateOk g" and a: "map_of (ga_entries g) run = Some a"
    and f: "ge_appends (f (ga_heap g a)) = ge_appends (ga_heap g a)" "ge_streams (f (ga_heap g a)) = ge_streams (ga_heap g a)"
      "\<not> ge_completed (f (ga_heap g a))"
      "ge_cleaning (f (ga_heap g a)) \<Longrightarrow> ge_cutoff (f (ga_heap g a))
         \<and> ge_appends (ga_heap g a) = 0 \<and> ge_streams (ga_heap g a) = []"
  shows "gateOk (modifyEntry a f (g\<lparr>ga_cancelled := cs\<rparr>))"
proof -
  let ?g = "modifyEntry a f (g\<lparr>ga_cancelled := cs\<rparr>)"
  have out: "outstanding ?g = outstanding g" by (rule outstanding_cong) (simp add: modify_defs)
  have heap: "ga_heap ?g a = f (ga_heap g a)" by (simp add: modify_defs)
  have g: "ga_entries ?g = ga_entries g" "ga_nextEntry ?g = ga_nextEntry g" by (simp_all add: modify_defs)
  have "entryOk ?g a"
    using gate_entryOk [OF ok, of a] gate_entry [OF ok a] a f unfolding entryOk_def out heap g by auto
  then show ?thesis
    by (intro modify_ok [OF ok a])
       (use gate_admission [OF ok] gate_maps [OF ok] f(3) in \<open>auto simp: out modify_defs\<close>)
qed

lemma cutoff_ok:
  assumes ok: "gateOk g"
  shows "gateOk (snd (cutoff run g))"
proof (cases "ensureEntry run g")
  case (Inl err)
  with ok show ?thesis by (simp add: cutoff_def)
next
  case (Inr p)
  obtain a g1 where p: "p = (a, g1)" by force
  note e = ensureEntry_ok [OF ok Inr [unfolded p]]
  have "gateOk (modifyEntry a (\<lambda>e. e\<lparr>ge_cutoff := True\<rparr>) (g1\<lparr>ga_cancelled := cs\<rparr>))" for cs
    by (rule flags_ok [OF e(1,2)]) (use gate_entry [OF e(1,2)] gate_entryOk [OF e(1), of a] in \<open>auto simp: entryOk_def\<close>)
  then show ?thesis by (simp add: cutoff_def Inr p)
qed

lemma beginCleanup_ok:
  assumes ok: "gateOk g" and a: "ge_completed (ga_heap g a) \<or> ge_cutoff (ga_heap g a) \<and> map_of (ga_entries g) run = Some a"
  shows "gateOk (snd (beginCleanup a g))"
proof (cases "fst (beginCleanup a g) = Acquired")
  case True
  then have e: "\<not> ge_completed (ga_heap g a)" "ge_appends (ga_heap g a) = 0" "ge_streams (ga_heap g a) = []"
    by (auto simp: beginCleanup_def Let_def split: if_splits)
  have "gateOk (modifyEntry a (\<lambda>e. e\<lparr>ge_cleaning := True\<rparr>) (g\<lparr>ga_cancelled := ga_cancelled g\<rparr>))"
    by (rule flags_ok [OF ok]) (use a e in auto)
  with True show ?thesis by (auto simp: beginCleanup_def Let_def split: if_splits)
next
  case False
  then have "snd (beginCleanup a g) = g" by (auto simp: beginCleanup_def Let_def split: if_splits)
  with ok show ?thesis by simp
qed

text \<open>A successful finish retires the entry: it is drained, so it leaves the map.\<close>

lemma finish_ok:
  assumes ok: "gateOk g" and a: "map_of (ga_entries g) run = Some a" and cl: "ge_cleaning (ga_heap g a)"
  shows "gateOk (finish run a success g)"
proof (cases success)
  case False
  have "gateOk (modifyEntry a (\<lambda>e. e\<lparr>ge_cleaning := False, ge_signals := Suc (ge_signals e)\<rparr>) (g\<lparr>ga_cancelled := ga_cancelled g\<rparr>))"
    by (rule flags_ok [OF ok a]) (use gate_entry [OF ok a] in auto)
  with False show ?thesis by (simp add: finish_def Let_def modify_defs)
next
  case True
  have drained: "ge_appends (ga_heap g a) = 0" "ge_streams (ga_heap g a) = []" and none: "\<And>b. outstanding g a b = {}"
  proof -
    show d: "ge_appends (ga_heap g a) = 0" "ge_streams (ga_heap g a) = []"
      using gate_entryOk [OF ok, of a] cl by (auto simp: entryOk_def)
    show "outstanding g a b = {}" for b using gate_entryOk [OF ok, of a] d by (cases b) (auto simp: entryOk_def)
  qed
  define idle where "idle = modifyEntry a (\<lambda>e. e\<lparr>ge_cleaning := False, ge_cutoff := False\<rparr>) (g\<lparr>ga_cancelled := ga_cancelled g\<rparr>)"
  have ok1: "gateOk idle" unfolding idle_def by (rule flags_ok [OF ok a]) (use gate_entry [OF ok a] in auto)
  have ok2: "gateOk (removeIdle run a idle)" by (rule removeIdle_ok [OF ok1])
  have rem: "removeIdle run a idle = idle\<lparr>ga_entries := mdel run (ga_entries g)\<rparr>"
    using a drained by (simp add: removeIdle_def idle_def modify_defs)
  let ?h = "(ga_heap g a)\<lparr>ge_cleaning := False, ge_completed := True, ge_cutoff := False,
               ge_signals := Suc (ge_signals (ga_heap g a))\<rparr>"
  have fin: "finish run a True g = (removeIdle run a idle)\<lparr>ga_heap := (ga_heap g)(a := ?h)\<rparr>"
    using a drained unfolding rem by (simp add: finish_def Let_def removeIdle_def idle_def modify_defs)
  have gone: "map_of (ga_entries (removeIdle run a idle)) r \<noteq> Some a" for r
    using gate_unique [OF ok a, of r] unfolding rem by auto
  let ?f = "finish run a True g"
  have out: "outstanding ?f = outstanding g" "outstanding (removeIdle run a idle) = outstanding g"
    unfolding fin rem by (simp_all add: idle_def modify_defs)
  have heap: "b \<noteq> a \<Longrightarrow> ga_heap ?f b = ga_heap (removeIdle run a idle) b" for b
    unfolding fin rem by (simp add: idle_def modify_defs)
  have "gateOk ?f"
  proof (rule gateOkI)
    show "entryOk ?f b" for b
    proof (cases "b = a")
      case True
      with drained none a gate_entry [OF ok a] show ?thesis
        unfolding entryOk_def out unfolding fin rem by (simp add: idle_def modify_defs)
    next
      case False
      show ?thesis
        by (rule entryOk_keep [OF gate_entryOk [OF ok2]]) (simp_all add: heap [OF False] out, simp_all add: fin)
    qed
    show "map_of (ga_entries ?f) r = Some b \<Longrightarrow> b < ga_nextEntry ?f \<and> \<not> ge_completed (ga_heap ?f b)" for r b
      using gate_entry [OF ok2, of r b] gone [of r] heap [of b] by (cases "b = a") (auto simp: fin)
  qed (use gate_maps [OF ok2] gate_unique [OF ok2] gate_admission [OF ok2] in \<open>simp_all add: fin\<close>)
  with True show ?thesis by simp
qed

section \<open>Runs of the gate\<close>

text \<open>
  The callers' protocol (\<open>server.go\<close>): a cleanup round is run only on a handle that \<open>cutoff\<close>
  returned, and \<open>finish\<close> is called only by the request that acquired the cleanup. The list holds
  the handles issued so far.
\<close>

datatype gate_op =
  GAdmit RunIdentity bool
| GRelease nat
| GCutoff RunIdentity
| GBegin RunIdentity nat
| GFinish RunIdentity nat bool

type_synonym gate_state = "transcriptGate \<times> (RunIdentity \<times> nat) list"

fun gateStep :: "gate_state \<Rightarrow> gate_op \<Rightarrow> gate_state" where
  "gateStep (g, hs) (GAdmit run stream) = (snd (admit run stream g), hs)"
| "gateStep (g, hs) (GRelease i) = (release i g, hs)"
| "gateStep (g, hs) (GCutoff run) =
     (case cutoff run g of (Inl err, g') \<Rightarrow> (g', hs) | (Inr a, g') \<Rightarrow> (g', (run, a) # hs))"
| "gateStep (g, hs) (GBegin run a) =
     (if (run, a) \<in> set hs then (snd (beginCleanup a g), hs) else (g, hs))"
| "gateStep (g, hs) (GFinish run a success) =
     (if (run, a) \<in> set hs \<and> ge_cleaning (ga_heap g a) then (finish run a success g, hs) else (g, hs))"

definition handleOk :: "transcriptGate \<Rightarrow> RunIdentity \<times> nat \<Rightarrow> bool" where
  "handleOk g h = (case h of (run, a) \<Rightarrow> a < ga_nextEntry g
     \<and> (ge_completed (ga_heap g a) \<or> ge_cutoff (ga_heap g a) \<and> map_of (ga_entries g) run = Some a))"

definition gateInv :: "gate_state \<Rightarrow> bool" where
  "gateInv s \<longleftrightarrow> gateOk (fst s) \<and> (\<forall>h\<in>set (snd s). handleOk (fst s) h)"

text \<open>Handles survive: completed and cutoff are only ever cleared by a successful finish, which
  completes, and a cut-off entry is never idle.\<close>

lemma removeIdle_handle: "handleOk g h \<Longrightarrow> handleOk (removeIdle run a g) h"
  by (auto simp: handleOk_def removeIdle_def split: prod.splits)

lemma modify_handle:
  assumes "handleOk g h" "ge_completed (f (ga_heap g a)) = ge_completed (ga_heap g a)"
    and "ge_cutoff (ga_heap g a) \<Longrightarrow> ge_cutoff (f (ga_heap g a))"
  shows "handleOk (modifyEntry a f g) h"
  using assms by (auto simp: handleOk_def modifyEntry_def split: prod.splits)

lemma frame_handle [simp]:
  "handleOk (g\<lparr>ga_cancelled := cs\<rparr>) h = handleOk g h" "handleOk (g\<lparr>ga_admissions := ads\<rparr>) h = handleOk g h"
  "handleOk (g\<lparr>ga_admissions := ads, ga_nextAdmission := n\<rparr>) h = handleOk g h"
  by (simp_all add: handleOk_def)

lemma signal_handle: "handleOk g h \<Longrightarrow> handleOk (signal a g) h"
  by (auto simp: signal_def intro: modify_handle)

lemma ensureEntry_handle:
  assumes "gateOk g" "ensureEntry run g = Inr (a, g')" "handleOk g h"
  shows "handleOk g' h"
proof -
  note e = ensureEntry_ok [OF assms(1,2)]
  obtain r b where h: "h = (r, b)" by force
  with assms(3) have b: "b < ga_nextEntry g" by (simp add: handleOk_def)
  with assms(3) e(5) [of r b] e(7) e(8) [OF b] show ?thesis by (auto simp: handleOk_def h)
qed

lemma admit_handle:
  assumes ok: "gateOk g" and h: "handleOk g h"
  shows "handleOk (snd (admit run stream g)) h"
proof (cases "\<exists>a g1. ensureEntry run g = Inr (a, g1)")
  case True
  then obtain a g1 where en: "ensureEntry run g = Inr (a, g1)" by blast
  have "handleOk g1 h" by (rule ensureEntry_handle [OF ok en h])
  then have "handleOk (modifyEntry a (\<lambda>e. if stream then e\<lparr>ge_streams := i # ge_streams e\<rparr>
                                  else e\<lparr>ge_appends := ge_appends e + 1\<rparr>) g1) h" for i
    by (rule modify_handle) simp_all
  then have "handleOk (snd (addAdmission run stream a g1)) h" by (simp add: addAdmission_def Let_def)
  with en h show ?thesis by (auto simp: admit_def split: prod.splits)
next
  case False
  with h show ?thesis by (auto simp: admit_def split: sum.splits)
qed

lemma release_handle: "handleOk g h \<Longrightarrow> handleOk (release i g) h"
  unfolding release_def Let_def
  by (auto split: option.splits intro!: removeIdle_handle signal_handle modify_handle)

lemma cutoff_handle:
  assumes ok: "gateOk g" and c: "cutoff run g = (r, g')"
  shows "handleOk g h \<Longrightarrow> handleOk g' h" "r = Inr a \<Longrightarrow> handleOk g' (run, a)"
proof -
  assume h: "handleOk g h"
  show "handleOk g' h"
  proof (cases "ensureEntry run g")
    case (Inl err)
    with c h show ?thesis by (simp add: cutoff_def)
  next
    case (Inr p)
    obtain b g1 where p: "p = (b, g1)" by force
    from ensureEntry_handle [OF ok Inr [unfolded p] h] Inr p c show ?thesis
      by (auto simp: cutoff_def intro!: modify_handle)
  qed
next
  assume "r = Inr a"
  with c obtain g1 where en: "ensureEntry run g = Inr (a, g1)"
    and g': "g' = modifyEntry a (\<lambda>e. e\<lparr>ge_cutoff := True\<rparr>) (g1\<lparr>ga_cancelled := ge_streams (ga_heap g1 a) @ ga_cancelled g1\<rparr>)"
    by (auto simp: cutoff_def split: sum.splits)
  note e = ensureEntry_ok [OF ok en]
  with gate_entry [OF e(1,2)] show "handleOk g' (run, a)" by (simp add: g' handleOk_def modify_defs)
qed

lemma begin_handle: "handleOk g h \<Longrightarrow> handleOk (snd (beginCleanup a g)) h"
  by (auto simp: beginCleanup_def Let_def intro!: modify_handle)

lemma finish_handle:
  assumes "handleOk g h"
  shows "handleOk (finish run a success g) h"
  using assms
  by (auto simp: finish_def Let_def removeIdle_def handleOk_def modify_defs split: prod.splits)

lemma gateStep_inv:
  assumes "gateInv s"
  shows "gateInv (gateStep s ev)"
proof -
  obtain g hs where s: "s = (g, hs)" by force
  from assms have ok: "gateOk g" and h: "\<And>h. h \<in> set hs \<Longrightarrow> handleOk g h" by (auto simp: gateInv_def s)
  show ?thesis
  proof (cases ev)
    case (GAdmit run stream)
    with ok h show ?thesis by (simp add: gateInv_def s admit_ok admit_handle)
  next
    case (GRelease i)
    with ok h show ?thesis by (simp add: gateInv_def s release_ok release_handle)
  next
    case (GCutoff run)
    obtain r g' where c: "cutoff run g = (r, g')" by force
    from cutoff_ok [OF ok, of run] c have "gateOk g'" by simp
    with GCutoff c h cutoff_handle [OF ok c] show ?thesis by (cases r) (auto simp: gateInv_def s)
  next
    case (GBegin run a)
    have "(run, a) \<in> set hs \<Longrightarrow> gateOk (snd (beginCleanup a g))"
      using h [of "(run, a)"] by (intro beginCleanup_ok [OF ok, of _ run]) (auto simp: handleOk_def)
    with GBegin ok h show ?thesis by (auto simp: gateInv_def s begin_handle)
  next
    case (GFinish run a success)
    have "gateOk (finish run a success g)" if "(run, a) \<in> set hs" "ge_cleaning (ga_heap g a)"
    proof -
      from that(2) gate_entryOk [OF ok, of a] have "\<not> ge_completed (ga_heap g a)" by (simp add: entryOk_def)
      with h [OF that(1)] have "map_of (ga_entries g) run = Some a" by (auto simp: handleOk_def)
      from finish_ok [OF ok this that(2)] show ?thesis .
    qed
    with GFinish ok h show ?thesis by (auto simp: gateInv_def s finish_handle)
  qed
qed

interpretation gate: step_system gateStep gateInv
  by unfold_locales (rule gateStep_inv)

lemma new_gate_inv: "gateInv (newTranscriptGate n, [])"
  by (auto simp: gateInv_def gateOk_def entryOk_def newTranscriptGate_def newEntry_def outstanding_def)

section \<open>Properties\<close>

text \<open>(C30) A cleanup is exclusive: after any interleaving of admissions, releases, cutoffs, cleanup rounds
  and finishes, the gate holds at most its configured number of entries, and while a cleanup of an
  entry is in progress no admission on that entry is outstanding and every new request of its run is
  refused with the cutoff error, whatever its kind.\<close>

theorem cleanup_excludes_requests:
  assumes "foldl gateStep (newTranscriptGate n, []) evs = (g, hs)"
  shows "int (length (ga_entries g)) \<le> ga_maxEntries g
    \<and> (\<forall>a. ge_cleaning (ga_heap g a) \<longrightarrow>
         (\<forall>i ad. map_of (ga_admissions g) i = Some ad \<longrightarrow> gd_entry ad \<noteq> a)
         \<and> (\<exists>run. map_of (ga_entries g) run = Some a
              \<and> (\<forall>stream. admit run stream g = (Inl ErrTranscriptCutoff, g))))"
proof -
  have "gateInv (g, hs)" using gate.run_invar [OF new_gate_inv, of n evs] assms by simp
  then have ok: "gateOk g" by (simp add: gateInv_def)
  have "(\<forall>i ad. map_of (ga_admissions g) i = Some ad \<longrightarrow> gd_entry ad \<noteq> a)
      \<and> (\<exists>run. map_of (ga_entries g) run = Some a \<and> (\<forall>stream. admit run stream g = (Inl ErrTranscriptCutoff, g)))"
    if c: "ge_cleaning (ga_heap g a)" for a
  proof -
    note e = gate_entryOk [OF ok, of a, unfolded entryOk_def]
    from e c have none: "outstanding g a b = {}" for b by (cases b) auto
    have "gd_entry ad \<noteq> a" if "map_of (ga_admissions g) i = Some ad" for i ad
      using that none [of "gd_stream ad"] by (auto simp: outstanding_def)
    moreover from e c obtain run where "map_of (ga_entries g) run = Some a" "ge_cutoff (ga_heap g a)" by blast
    then have "map_of (ga_entries g) run = Some a \<and> (\<forall>stream. admit run stream g = (Inl ErrTranscriptCutoff, g))"
      by (simp add: admit_def)
    ultimately show ?thesis by blast
  qed
  with gate_maps(4) [OF ok] show ?thesis by blast
qed

definition gate_ops :: "gate_op list" where
  "gate_ops =
     (let r = \<lparr>ri_Namespace = ''n'', ri_NamespaceUID = ''u'', ri_UID = ''r''\<rparr> in
      [GAdmit r False, GCutoff r, GBegin r 0, GRelease 0, GBegin r 0])"

definition gate_final :: gate_state where
  "gate_final = foldl gateStep (newTranscriptGate 2, []) gate_ops"

theorem cleanup_excludes_requests_witness:
  "ge_cleaning (ga_heap (fst gate_final) 0)
   \<and> (\<exists>run. admit run True (fst gate_final) = (Inl ErrTranscriptCutoff, fst gate_final))"
proof -
  have c: "ge_cleaning (ga_heap (fst gate_final) 0)" by code_simp
  have "foldl gateStep (newTranscriptGate 2, []) gate_ops = (fst gate_final, snd gate_final)"
    by (simp add: gate_final_def)
  from cleanup_excludes_requests [OF this] c show ?thesis by blast
qed

text \<open>A failed cleanup stays cut off and a successful one retires the entry: finishing with failure
  leaves the run refusing requests and the cleanup free to be acquired again at once, while
  finishing with success removes the run's entry, and every later round on the old handle reports
  completion.\<close>

theorem finish_outcome:
  assumes "foldl gateStep (newTranscriptGate n, []) evs = (g, hs)"
    and "(run, a) \<in> set hs" "ge_cleaning (ga_heap g a)"
  shows "admit run stream (finish run a False g) = (Inl ErrTranscriptCutoff, finish run a False g)
    \<and> fst (beginCleanup a (finish run a False g)) = Acquired
    \<and> map_of (ga_entries (finish run a True g)) run = None
    \<and> beginCleanup a (finish run a True g) = (AlreadyCompleted, finish run a True g)"
proof -
  have inv: "gateInv (g, hs)" using gate.run_invar [OF new_gate_inv, of n evs] assms(1) by simp
  then have ok: "gateOk g" and h: "handleOk g (run, a)" using assms(2) by (auto simp: gateInv_def)
  note e = gate_entryOk [OF ok, of a, unfolded entryOk_def]
  from e assms(3) have d: "ge_cutoff (ga_heap g a)" "\<not> ge_completed (ga_heap g a)"
    "ge_appends (ga_heap g a) = 0" "ge_streams (ga_heap g a) = []" by auto
  with h have "map_of (ga_entries g) run = Some a" by (auto simp: handleOk_def)
  with d show ?thesis
    by (simp add: finish_def Let_def modify_defs admit_def beginCleanup_def removeIdle_def)
qed

theorem finish_outcome_witness:
  "\<exists>run. fst (beginCleanup 0 (finish run 0 False (fst gate_final))) = Acquired
     \<and> fst (beginCleanup 0 (finish run 0 True (fst gate_final))) = AlreadyCompleted"
proof -
  let ?r = "\<lparr>ri_Namespace = ''n'', ri_NamespaceUID = ''u'', ri_UID = ''r''\<rparr>"
  have c: "ge_cleaning (ga_heap (fst gate_final) 0)" "snd gate_final = [(?r, 0)]" by code_simp+
  have "foldl gateStep (newTranscriptGate 2, []) gate_ops = (fst gate_final, [(?r, 0)])"
    using c(2) by (simp add: gate_final_def prod_eq_iff)
  from finish_outcome [OF this, of ?r 0] c(1) show ?thesis by (intro exI [of _ ?r]) simp
qed

end
