(* ===== verification/Process_Output.thy ===== *)
theory Process_Output
  imports Prelude "HOL-Library.Word"
begin

text \<open>
  Output capture and launch validation of the sandbox daemon
  (\<open>src/sandboxd/internal/server/process.go\<close>): the bounded output buffer with its 64-bit offsets
  and the read of \<open>ReadOutput\<close>, validation of managed specs and launch material, environment
  normalisation and merging, and the restart backoff.

  Offsets are \<^typ>\<open>64 word\<close>, as in the code; slices are lists, lengths are \<^typ>\<open>nat\<close>. The
  daemon is modelled on Linux, where environment names are case sensitive.
\<close>

section \<open>Output buffer\<close>

record outputBuffer =
  ob_data :: string
  ob_start :: "64 word"
  ob_total :: "64 word"
  ob_eof :: bool

definition emptyBuffer :: outputBuffer where
  "emptyBuffer = \<lparr>ob_data = [], ob_start = 0, ob_total = 0, ob_eof = False\<rparr>"

definition write_output :: "string \<Rightarrow> nat \<Rightarrow> outputBuffer \<Rightarrow> outputBuffer" where
  "write_output p cap b =
     (let tot = ob_total b + word_of_nat (length p) in
      if cap \<le> length p then
        (let d = drop (length p - cap) p in
         b\<lparr>ob_data := d, ob_total := tot, ob_start := tot - word_of_nat (length d)\<rparr>)
      else
        (let d = ob_data b @ p; n = length d - cap in
         if 0 < n then b\<lparr>ob_data := drop n d, ob_total := tot, ob_start := ob_start b + word_of_nat n\<rparr>
         else b\<lparr>ob_data := d, ob_total := tot\<rparr>))"

text \<open>The capacity that \<open>drain\<close> uses, and its loop over the chunks read from the pipe.\<close>

abbreviation "defaultOutputCapacity \<equiv> (1048576 :: int)"
abbreviation "defaultReadMax \<equiv> (65536 :: nat)"

definition drainCapacity :: "int \<Rightarrow> nat" where
  "drainCapacity capacity = nat (if capacity \<le> 0 then defaultOutputCapacity else capacity)"

definition drain :: "int \<Rightarrow> string list \<Rightarrow> outputBuffer \<Rightarrow> outputBuffer" where
  "drain capacity chunks b = fold (\<lambda>c. write_output c (drainCapacity capacity)) chunks b"

record ReadOutputResponse =
  rr_Data :: string
  rr_Offset :: "64 word"
  rr_NextOffset :: "64 word"
  rr_GapBytes :: "64 word"
  rr_Eof :: bool
  rr_RetainedStart :: "64 word"
  rr_ProducedEnd :: "64 word"

text \<open>\<open>ReadOutput\<close> from the chosen buffer on; \<open>None\<close> is the OutOfRange error.\<close>

definition readBuffer :: "64 word \<Rightarrow> 32 word \<Rightarrow> outputBuffer \<Rightarrow> ReadOutputResponse option" where
  "readBuffer offset maxBytes b =
     (let gap = (if offset < ob_start b then ob_start b - offset else 0);
          off = (if offset < ob_start b then ob_start b else offset)
      in if ob_total b < off then None
         else
           (let m = (if unat maxBytes = 0 \<or> defaultReadMax < unat maxBytes then defaultReadMax else unat maxBytes);
                i = unat (off - ob_start b);
                n = min m (length (ob_data b) - i);
                nxt = off + word_of_nat n
            in Some \<lparr>rr_Data = take n (drop i (ob_data b)), rr_Offset = off, rr_NextOffset = nxt,
                     rr_GapBytes = gap, rr_Eof = (ob_eof b \<and> nxt = ob_total b),
                     rr_RetainedStart = ob_start b, rr_ProducedEnd = ob_total b\<rparr>))"

section \<open>Launch validation\<close>

datatype envMode = ENVIRONMENT_MODE_UNSPECIFIED | ENVIRONMENT_MODE_INHERIT | ENVIRONMENT_MODE_REPLACE
  | ENVIRONMENT_MODE_UNKNOWN int

record ProcessSpec =
  px_Argv :: "string list"
  px_Cwd :: string
  px_Env :: "(string \<times> string) list"
  px_EnvMode :: envMode
  px_TimeoutMs :: nat

text \<open>Errors carry the gRPC code and the message's subject.\<close>

datatype rpc_error =
  InvalidArgument string
| FailedPrecondition string
| ResourceExhausted string
| Unavailable string
| NotFound string
| OutOfRange string
| Unimplemented string
| Internal string

definition validTimeout :: "nat \<Rightarrow> bool" where
  "validTimeout ms \<longleftrightarrow> ms \<le> (2 ^ 63 - 1) div 1000000"

definition argOk :: "string \<Rightarrow> bool" where
  "argOk arg \<longleftrightarrow> arg \<noteq> [] \<and> length arg \<le> 4096 \<and> utf8_valid arg \<and> \<not> has_nul arg"

definition envEntryOk :: "string \<times> string \<Rightarrow> bool" where
  "envEntryOk e \<longleftrightarrow> length (fst e) \<le> 256 \<and> utf8_valid (fst e) \<and> length (snd e) \<le> 65536 \<and> utf8_valid (snd e)"

definition validateManagedSpec :: "ProcessSpec option \<Rightarrow> rpc_error option" where
  "validateManagedSpec spec =
     (case spec of
        None \<Rightarrow> Some (InvalidArgument ''managed service spec argv must not be empty'')
      | Some sp \<Rightarrow>
          if px_Argv sp = [] then Some (InvalidArgument ''managed service spec argv must not be empty'')
          else if 64 < length (px_Argv sp) then Some (InvalidArgument ''argv exceeds maximum arguments'')
          else if \<not> list_all argOk (px_Argv sp) then Some (InvalidArgument ''argument encoding or size'')
          else if 16384 < sum_list (map length (px_Argv sp)) then Some (InvalidArgument ''argv exceeds aggregate bytes'')
          else if 4096 < length (px_Cwd sp) \<or> \<not> utf8_valid (px_Cwd sp) \<or> has_nul (px_Cwd sp)
          then Some (InvalidArgument ''cwd encoding or size'')
          else if 64 < length (px_Env sp) then Some (InvalidArgument ''environment exceeds maximum entries'')
          else if \<not> list_all envEntryOk (px_Env sp) then Some (InvalidArgument ''environment entry limits'')
          else if 262144 < sum_list (map (\<lambda>e. length (fst e) + length (snd e)) (px_Env sp))
          then Some (InvalidArgument ''environment exceeds aggregate bytes'')
          else None)"

definition isAlpha :: "char \<Rightarrow> bool" where
  "isAlpha c \<longleftrightarrow> 65 \<le> code c \<and> code c \<le> 90 \<or> 97 \<le> code c \<and> code c \<le> 122"

text \<open>The byte loop of \<open>portableEnvName\<close>: a digit is accepted after the first byte.\<close>

definition portableEnvName :: "string \<Rightarrow> bool" where
  "portableEnvName name =
     (if name = [] \<or> \<not> utf8_valid name \<or> 256 < length name then False
      else list_all (\<lambda>i. isAlpha (name ! i) \<or> name ! i = CHR ''_'' \<or> (0 < i \<and> is_digit (name ! i)))
             [0..<length name])"

text \<open>The loop over the secret map with its running total and the set of names seen.\<close>

fun secretLoop :: "(string \<times> string) list \<Rightarrow> nat \<Rightarrow> string list \<Rightarrow> rpc_error + string list" where
  "secretLoop [] acc names = Inr names"
| "secretLoop ((name, value) # es) acc names =
     (if \<not> portableEnvName name then Inl (InvalidArgument ''launch material name'')
      else if 65536 < length value \<or> has_nul value then Inl (InvalidArgument ''launch material value'')
      else if 262144 < acc + length name + length value then Inl (InvalidArgument ''launch material total'')
      else if name \<in> set names then Inl (InvalidArgument ''launch material duplicate name'')
      else secretLoop es (acc + length name + length value) (name # names))"

definition validateLaunchMaterial ::
  "(string \<times> string) list \<Rightarrow> (string \<times> string) list \<Rightarrow> rpc_error option" where
  "validateLaunchMaterial secret public =
     (if 64 < length secret then Some (InvalidArgument ''launch material entries'')
      else case secretLoop secret 0 [] of
             Inl err \<Rightarrow> Some err
           | Inr names \<Rightarrow>
               if list_ex (\<lambda>e. fst e \<in> set names) public
               then Some (InvalidArgument ''launch material conflicts with public environment'') else None)"

section \<open>Environments\<close>

text \<open>\<open>strings.Cut\<close> at the first equals sign, as \<open>IndexByte\<close> uses it.\<close>

fun cutEq :: "string \<Rightarrow> (string \<times> string) option" where
  "cutEq [] = None"
| "cutEq (c # cs) =
     (if c = CHR ''='' then Some ([], cs)
      else case cutEq cs of None \<Rightarrow> None | Some (a, b) \<Rightarrow> Some (c # a, b))"

definition entryText :: "string \<times> string \<Rightarrow> string" where
  "entryText e = fst e @ CHR ''='' # snd e"

definition overrideOk :: "string \<times> string \<Rightarrow> bool" where
  "overrideOk e \<longleftrightarrow> fst e \<noteq> [] \<and> CHR ''='' \<notin> set (fst e) \<and> \<not> has_nul (fst e) \<and> \<not> has_nul (snd e)"

text \<open>\<open>environ\<close> is \<open>os.Environ()\<close>. On Linux a name is its own canonical form.\<close>

definition inheritEnv :: "string list \<Rightarrow> (string \<times> string) list" where
  "inheritEnv environ =
     fold (\<lambda>item m. case cutEq item of None \<Rightarrow> m | Some (k, v) \<Rightarrow> mput k v m) environ []"

definition normalizeEnv ::
  "string list \<Rightarrow> envMode \<Rightarrow> (string \<times> string) list \<Rightarrow> rpc_error + string list" where
  "normalizeEnv environ mode overrides =
     (let mode' = (if mode = ENVIRONMENT_MODE_UNSPECIFIED then ENVIRONMENT_MODE_INHERIT else mode) in
      if mode' \<noteq> ENVIRONMENT_MODE_INHERIT \<and> mode' \<noteq> ENVIRONMENT_MODE_REPLACE
      then Inl (InvalidArgument ''unknown environment mode'')
      else if \<not> list_all overrideOk overrides then Inl (InvalidArgument ''invalid environment entry'')
      else
        (let base = (if mode' = ENVIRONMENT_MODE_INHERIT then inheritEnv environ else []);
             m = fold (\<lambda>(k, v) m. mput k v m) overrides base
         in Inr (map (\<lambda>k. entryText (k, the (map_of m k))) (sort (map fst m)))))"

definition mergeSecretEnv :: "string list \<Rightarrow> (string \<times> string) list \<Rightarrow> string list" where
  "mergeSecretEnv environment secret =
     filter (\<lambda>item. case cutEq item of None \<Rightarrow> False | Some (k, v) \<Rightarrow> k \<notin> fst ` set secret) environment
     @ map entryText secret"

definition normalizeSpec :: "string list \<Rightarrow> string \<Rightarrow> ProcessSpec option \<Rightarrow> rpc_error + ProcessSpec" where
  "normalizeSpec environ workspace spec =
     (case spec of
        None \<Rightarrow> Inl (InvalidArgument ''spec argv must not be empty'')
      | Some sp \<Rightarrow>
          if px_Argv sp = [] \<or> hd (px_Argv sp) = [] then Inl (InvalidArgument ''spec argv must not be empty'')
          else
            (let mode = (if px_EnvMode sp = ENVIRONMENT_MODE_UNSPECIFIED then ENVIRONMENT_MODE_INHERIT
                         else px_EnvMode sp)
             in case normalizeEnv environ mode (px_Env sp) of
                  Inl err \<Rightarrow> Inl err
                | Inr _ \<Rightarrow>
                    if \<not> validTimeout (px_TimeoutMs sp) then Inl (InvalidArgument ''timeout_ms overflows duration'')
                    else Inr (sp\<lparr>px_Cwd := (if px_Cwd sp = [] then workspace else px_Cwd sp), px_EnvMode := mode\<rparr>)))"

section \<open>Restart backoff\<close>

fun doubleLoop :: "int \<Rightarrow> nat \<Rightarrow> int \<Rightarrow> int" where
  "doubleLoop mx 0 delay = delay"
| "doubleLoop mx (Suc n) delay = (if mx - delay \<le> delay then mx else doubleLoop mx n (delay * 2))"

definition managedRestartDelay :: "int \<Rightarrow> int \<Rightarrow> nat \<Rightarrow> int" where
  "managedRestartDelay initial mx attempt = (if mx \<le> initial then mx else doubleLoop mx attempt initial)"

section \<open>Lemmas on the buffer\<close>

text \<open>The buffer holds the last \<open>cap\<close> bytes of the stream written so far.\<close>

definition captures :: "nat \<Rightarrow> string \<Rightarrow> outputBuffer \<Rightarrow> bool" where
  "captures cap stream b \<longleftrightarrow>
     ob_data b = drop (length stream - cap) stream
     \<and> ob_total b = word_of_nat (length stream)
     \<and> ob_start b = word_of_nat (length stream - cap)"

lemma captures_update:
  "captures cap stream (b\<lparr>ob_data := d, ob_total := t, ob_start := st\<rparr>) \<longleftrightarrow>
     d = drop (length stream - cap) stream \<and> t = word_of_nat (length stream)
     \<and> st = word_of_nat (length stream - cap)"
  by (simp add: captures_def)

lemma write_captures:
  assumes "captures cap stream b"
  shows "captures cap (stream @ p) (write_output p cap b)"
proof -
  have d: "ob_data b = drop (length stream - cap) stream" and t: "ob_total b = word_of_nat (length stream)"
    and s: "ob_start b = word_of_nat (length stream - cap)"
    using assms(1) by (auto simp: captures_def)
  have tot: "ob_total b + word_of_nat (length p) = word_of_nat (length (stream @ p))"
    by (simp add: t)
  show ?thesis
  proof (cases "cap \<le> length p")
    case True
    have w: "write_output p cap b = b\<lparr>ob_data := drop (length p - cap) p,
        ob_total := ob_total b + word_of_nat (length p),
        ob_start := ob_total b + word_of_nat (length p) - word_of_nat cap\<rparr>"
      using True by (simp add: write_output_def Let_def)
    have keep: "drop (length p - cap) p = drop (length (stream @ p) - cap) (stream @ p)" using True by simp
    have "word_of_nat (length (stream @ p)) - word_of_nat cap = (word_of_nat (length (stream @ p) - cap) :: 64 word)"
      by (subst of_nat_diff) (use True in simp_all)
    with keep show ?thesis unfolding w captures_update tot by blast
  next
    case False
    define e where "e = ob_data b @ p"
    define k where "k = length e - cap"
    have ld: "length e = min cap (length stream) + length p" by (simp add: e_def d min_def)
    have w: "write_output p cap b = b\<lparr>ob_data := drop k e, ob_total := ob_total b + word_of_nat (length p),
        ob_start := ob_start b + word_of_nat k\<rparr>"
      using False by (simp add: write_output_def Let_def e_def k_def)
    have n: "length (stream @ p) - cap = (length stream - cap) + k"
      using False ld by (auto simp: k_def min_def)
    have le: "length stream - cap + k \<le> length stream" "k \<le> length (drop (length stream - cap) stream)"
      using ld False by (auto simp: k_def min_def)
    have "drop k e = drop (length stream - cap + k) stream @ p" using le(2) by (simp add: e_def d add.commute)
    also have "\<dots> = drop (length (stream @ p) - cap) (stream @ p)"
      unfolding n drop_append using le(1) by simp
    finally have "drop k e = drop (length (stream @ p) - cap) (stream @ p)" .
    moreover have "ob_start b + word_of_nat k = word_of_nat (length (stream @ p) - cap)" by (simp only: s n of_nat_add)
    ultimately show ?thesis unfolding w captures_update tot by blast
  qed
qed

lemma drain_captures:
  "captures (drainCapacity capacity) stream b \<Longrightarrow>
     captures (drainCapacity capacity) (stream @ concat chunks) (drain capacity chunks b)"
proof (induction chunks arbitrary: stream b)
  case (Cons c chunks)
  from Cons.IH [OF write_captures [OF Cons.prems]] show ?case by (simp add: drain_def)
qed (simp add: drain_def)

lemma empty_captures: "captures cap [] emptyBuffer"
  by (simp add: captures_def emptyBuffer_def)

lemma unat_word_of_nat: "n < 2 ^ 64 \<Longrightarrow> unat (word_of_nat n :: 64 word) = n"
  by (simp add: unat_of_nat take_bit_nat_eq_self)

section \<open>Lemmas on validation and environments\<close>

lemma secretLoop_ok:
  "secretLoop es acc names = Inr names' \<longleftrightarrow>
     (\<forall>e\<in>set es. portableEnvName (fst e) \<and> length (snd e) \<le> 65536 \<and> \<not> has_nul (snd e))
     \<and> (es = [] \<or> acc + sum_list (map (\<lambda>e. length (fst e) + length (snd e)) es) \<le> 262144)
     \<and> distinct (map fst es) \<and> set (map fst es) \<inter> set names = {} \<and> names' = rev (map fst es) @ names"
proof (induction es arbitrary: acc names)
  case (Cons e es)
  obtain n v where e: "e = (n, v)" by force
  show ?case
    by (simp add: e Cons.IH) (cases es; auto)
qed auto

lemma validateLaunchMaterial_ok:
  "validateLaunchMaterial secret public = None \<longleftrightarrow>
     length secret \<le> 64
     \<and> (\<forall>e\<in>set secret. portableEnvName (fst e) \<and> length (snd e) \<le> 65536 \<and> \<not> has_nul (snd e))
     \<and> sum_list (map (\<lambda>e. length (fst e) + length (snd e)) secret) \<le> 262144
     \<and> distinct (map fst secret) \<and> fst ` set secret \<inter> fst ` set public = {}"
proof -
  let ?ok = "(\<forall>e\<in>set secret. portableEnvName (fst e) \<and> length (snd e) \<le> 65536 \<and> \<not> has_nul (snd e))
     \<and> sum_list (map (\<lambda>e. length (fst e) + length (snd e)) secret) \<le> 262144 \<and> distinct (map fst secret)"
  have loop: "secretLoop secret 0 [] = Inr names \<longleftrightarrow> ?ok \<and> names = rev (map fst secret)" for names
    using secretLoop_ok [of secret 0 "[]" names] by auto
  show ?thesis
  proof (cases "secretLoop secret 0 []")
    case (Inl err)
    with loop [of "rev (map fst secret)"] have "\<not> ?ok" by auto
    with Inl show ?thesis by (auto simp: validateLaunchMaterial_def)
  next
    case (Inr names)
    with loop [of names] have "?ok" "names = rev (map fst secret)" by auto
    with Inr show ?thesis
      by (auto simp: validateLaunchMaterial_def list_ex_iff not_less disjoint_iff image_iff) force+
  qed
qed

lemma filter_unique_key: "distinct (map fst xs) \<Longrightarrow> (k, v) \<in> set xs \<Longrightarrow> filter (\<lambda>e. fst e = k) xs = [(k, v)]"
  by (induction xs) (auto simp: filter_empty_conv image_iff)

lemma cutEq_entryText: "CHR ''='' \<notin> set k \<Longrightarrow> cutEq (entryText (k, v)) = Some (k, v)"
  by (induction k) (auto simp: entryText_def)

lemma portable_no_eq: "portableEnvName k \<Longrightarrow> CHR ''='' \<notin> set k"
proof
  assume p: "portableEnvName k" and "CHR ''='' \<in> set k"
  then obtain i where i: "i < length k" "k ! i = CHR ''=''" by (auto simp: in_set_conv_nth)
  from p i(1) have "isAlpha (k ! i) \<or> k ! i = CHR ''_'' \<or> (0 < i \<and> is_digit (k ! i))"
    by (auto simp: portableEnvName_def list_all_iff split: if_splits)
  with i(2) show False by (simp add: isAlpha_def is_digit_def code_def)
qed

lemma doubleLoop_min: "0 \<le> delay \<Longrightarrow> delay \<le> mx \<Longrightarrow> doubleLoop mx n delay = min mx (delay * 2 ^ n)"
proof (induction n arbitrary: delay)
  case (Suc n)
  show ?case
  proof (cases "mx - delay \<le> delay")
    case True
    have "delay * 2 \<le> delay * 2 ^ Suc n" using Suc.prems by (intro mult_left_mono) auto
    with True have "mx \<le> delay * 2 ^ Suc n" by linarith
    with True show ?thesis by (simp add: min_def)
  next
    case False
    with Suc show ?thesis by (simp add: mult.assoc)
  qed
qed simp

lemma readBuffer_exact:
  assumes cap: "captures cap stream b" and len: "length stream < 2 ^ 64" and r: "readBuffer offset maxBytes b = Some r"
  shows "unat (rr_Offset r) = max (unat offset) (length stream - cap)"
    and "unat (rr_GapBytes r) = unat (rr_Offset r) - unat offset"
    and "rr_Data r = take (length (rr_Data r)) (drop (unat (rr_Offset r)) stream)"
    and "unat (rr_NextOffset r) = unat (rr_Offset r) + length (rr_Data r)"
    and "length (rr_Data r) \<le> defaultReadMax"
    and "unat offset < length stream \<Longrightarrow> 0 < cap \<Longrightarrow> rr_Data r \<noteq> []"
    and "unat (rr_NextOffset r) \<le> length stream"
proof -
  define st where "st = length stream - cap"
  have us: "unat (ob_start b) = st" "unat (ob_total b) = length stream"
    using cap len unat_word_of_nat [of st] unat_word_of_nat [of "length stream"]
    by (simp_all add: captures_def st_def)
  have data: "ob_data b = drop st stream" using cap by (simp add: captures_def st_def)
  define off where "off = (if offset < ob_start b then ob_start b else offset)"
  define i where "i = unat (off - ob_start b)"
  define m where "m = (if unat maxBytes = 0 \<or> defaultReadMax < unat maxBytes then defaultReadMax else unat maxBytes)"
  define n where "n = min m (length (ob_data b) - i)"
  have le: "\<not> ob_total b < off" and fields: "rr_Offset r = off" "rr_Data r = take n (drop i (ob_data b))"
      "rr_NextOffset r = off + word_of_nat n"
      "rr_GapBytes r = (if offset < ob_start b then ob_start b - offset else 0)"
    using r by (auto simp: readBuffer_def Let_def off_def i_def m_def n_def split: if_splits)
  have uoff: "unat off = max (unat offset) st"
    by (simp add: off_def us word_less_nat_alt max_def)
  then have oge: "st \<le> unat off" and ole: "unat off \<le> length stream"
    using le us by (auto simp: word_less_nat_alt)
  have ui: "i = unat off - st"
    using oge us by (simp add: i_def unat_sub word_le_nat_alt)
  have dl: "length (ob_data b) - i = length stream - unat off" using oge by (simp add: data ui)
  have len_data: "length (rr_Data r) = n" using dl ui by (simp add: fields n_def data)
  have "drop i (ob_data b) = drop (unat off) stream" using oge by (simp add: data ui)
  then show "rr_Data r = take (length (rr_Data r)) (drop (unat (rr_Offset r)) stream)"
    using len_data by (simp add: fields)
  show "unat (rr_Offset r) = max (unat offset) (length stream - cap)" using uoff by (simp add: fields st_def)
  show "unat (rr_GapBytes r) = unat (rr_Offset r) - unat offset"
    by (simp add: fields off_def unat_sub word_less_nat_alt word_le_nat_alt)
  have nle: "unat off + n \<le> length stream" using ole dl by (simp add: n_def)
  have "unat (off + word_of_nat n) = unat off + n"
    using nle len by (simp add: unat_plus_simple word_le_nat_alt unat_word_of_nat
        unat_word_ariths take_bit_nat_eq_self)
  then show "unat (rr_NextOffset r) = unat (rr_Offset r) + length (rr_Data r)"
    and "unat (rr_NextOffset r) \<le> length stream"
    using nle len_data by (simp_all add: fields)
  show "length (rr_Data r) \<le> defaultReadMax" unfolding len_data by (simp add: n_def m_def min_def)
  show "unat offset < length stream \<Longrightarrow> 0 < cap \<Longrightarrow> rr_Data r \<noteq> []"
  proof -
    assume "unat offset < length stream" "0 < cap"
    then have "unat off < length stream" using uoff by (auto simp: st_def)
    then have "0 < n" using dl by (auto simp: n_def m_def)
    with len_data show ?thesis by auto
  qed
qed

section \<open>Properties\<close>

text \<open>(C38) The output buffer is exactly the tail of what the process wrote: after draining any chunks with
  any configured capacity, it holds the last bytes of the concatenated output up to the capacity,
  and its 64-bit offsets are the stream positions of its ends.\<close>

theorem output_buffer_is_tail:
  "ob_data (drain capacity chunks emptyBuffer)
      = drop (length (concat chunks) - drainCapacity capacity) (concat chunks)
   \<and> ob_total (drain capacity chunks emptyBuffer) = word_of_nat (length (concat chunks))
   \<and> ob_start (drain capacity chunks emptyBuffer)
      = word_of_nat (length (concat chunks) - drainCapacity capacity)"
  using drain_captures [OF empty_captures, of capacity chunks] by (simp add: captures_def)

text \<open>Reading output is exact: for an output shorter than 2^64 bytes, a successful read returns the
  bytes of the stream at the reported offset, never more than 64 KiB, makes progress whenever
  unread output exists, reports as gap exactly the requested bytes that were already dropped, and
  the next offset is where the data ends.\<close>

theorem read_output_exact:
  assumes "length (concat chunks) < 2 ^ 64"
    and "readBuffer offset maxBytes (drain capacity chunks emptyBuffer) = Some r"
  shows "rr_Data r = take (length (rr_Data r)) (drop (unat (rr_Offset r)) (concat chunks))
    \<and> unat (rr_Offset r) = max (unat offset) (length (concat chunks) - drainCapacity capacity)
    \<and> unat (rr_GapBytes r) = unat (rr_Offset r) - unat offset
    \<and> unat (rr_NextOffset r) = unat (rr_Offset r) + length (rr_Data r)
    \<and> unat (rr_NextOffset r) \<le> length (concat chunks)
    \<and> length (rr_Data r) \<le> defaultReadMax
    \<and> (unat offset < length (concat chunks) \<longrightarrow> rr_Data r \<noteq> [])"
proof -
  have cap: "captures (drainCapacity capacity) (concat chunks) (drain capacity chunks emptyBuffer)"
    using drain_captures [OF empty_captures, of capacity chunks] by simp
  have "0 < drainCapacity capacity" by (simp add: drainCapacity_def)
  then show ?thesis using readBuffer_exact [OF cap assms] by blast
qed

theorem read_output_exact_witness:
  "\<exists>r. readBuffer 1 2 (drain 4 [''ab'', ''cdef''] emptyBuffer) = Some r
     \<and> rr_Data r = take (length (rr_Data r)) (drop (unat (rr_Offset r)) ''abcdef'')"
proof -
  have "readBuffer 1 2 (drain 4 [''ab'', ''cdef''] emptyBuffer) \<noteq> None"
    by (simp add: readBuffer_def Let_def drain_def write_output_def emptyBuffer_def drainCapacity_def)
  then obtain r where r: "readBuffer 1 2 (drain 4 [''ab'', ''cdef''] emptyBuffer) = Some r" by auto
  have "length (concat [''ab'', ''cdef'']) < 2 ^ 64" by simp
  from read_output_exact [OF this r] have
    "rr_Data r = take (length (rr_Data r)) (drop (unat (rr_Offset r)) (concat [''ab'', ''cdef'']))" by blast
  with r show ?thesis by (metis append_Nil2 append_Cons append_Nil concat.simps)
qed

text \<open>Launch material is accepted exactly when it is within bounds: at most 64 entries, every name a
  portable identifier, every value at most 64 KiB and free of NUL, at most 256 KiB in all, no name
  repeated, and none shared with the public environment.\<close>

theorem launch_material_accepted_iff:
  "validateLaunchMaterial secret public = None \<longleftrightarrow>
     length secret \<le> 64
     \<and> (\<forall>e\<in>set secret. portableEnvName (fst e) \<and> length (snd e) \<le> 65536 \<and> \<not> has_nul (snd e))
     \<and> sum_list (map (\<lambda>e. length (fst e) + length (snd e)) secret) \<le> 262144
     \<and> distinct (map fst secret) \<and> fst ` set secret \<inter> fst ` set public = {}"
  by (rule validateLaunchMaterial_ok)

theorem launch_material_accepted_iff_witness:
  "validateLaunchMaterial [(''TOKEN'', ''s3'')] [(''PATH'', ''/bin'')] = None"
proof -
  have "portableEnvName ''TOKEN''" "\<not> has_nul ''s3''" by code_simp+
  then show ?thesis using launch_material_accepted_iff [of "[(''TOKEN'', ''s3'')]" "[(''PATH'', ''/bin'')]"]
    by (simp add: has_nul_def)
qed

text \<open>Secrets win and nothing else moves: for accepted launch material, the merged environment
  defines every secret name exactly once, with its secret value, and keeps, in order, exactly the
  well-formed entries whose name is not a secret.\<close>

theorem merged_environment_exact:
  assumes "validateLaunchMaterial secret public = None" "(k, v) \<in> set secret"
  shows "filter (\<lambda>item. \<exists>x. cutEq item = Some (k, x)) (mergeSecretEnv environment secret) = [entryText (k, v)]
    \<and> (\<forall>k'. k' \<notin> fst ` set secret \<longrightarrow>
         filter (\<lambda>item. \<exists>x. cutEq item = Some (k', x)) (mergeSecretEnv environment secret)
           = filter (\<lambda>item. \<exists>x. cutEq item = Some (k', x)) environment)"
proof -
  have ok: "\<And>e. e \<in> set secret \<Longrightarrow> CHR ''='' \<notin> set (fst e)" and d: "distinct (map fst secret)"
    using assms(1) unfolding validateLaunchMaterial_ok by (auto dest: portable_no_eq)
  have cut: "cutEq (entryText e) = Some e" if "e \<in> set secret" for e
    using cutEq_entryText [of "fst e" "snd e"] ok [OF that] by simp
  have named: "filter (\<lambda>item. \<exists>x. cutEq item = Some (n, x)) (map entryText secret)
      = map entryText (filter (\<lambda>e. fst e = n) secret)" for n
    unfolding filter_map by (rule arg_cong [of _ _ "map entryText"], rule filter_cong)
      (auto simp: cut prod_eq_iff)
  have one: "filter (\<lambda>e. fst e = k) secret = [(k, v)]"
    using d assms(2) by (rule filter_unique_key)
  have rest: "filter (\<lambda>item. \<exists>x. cutEq item = Some (n, x))
        (filter (\<lambda>item. case cutEq item of None \<Rightarrow> False | Some (a, b) \<Rightarrow> a \<notin> fst ` set secret) environment)
      = (if n \<in> fst ` set secret then [] else filter (\<lambda>item. \<exists>x. cutEq item = Some (n, x)) environment)" for n
    by (auto simp: filter_empty_conv image_iff intro!: filter_cong split: option.splits)
  have "filter (\<lambda>e. fst e = n) secret = []" if "n \<notin> fst ` set secret" for n
    using that by (auto simp: filter_empty_conv)
  moreover have "k \<in> fst ` set secret" using assms(2) by force
  ultimately show ?thesis
    unfolding mergeSecretEnv_def filter_append named rest one by simp
qed

theorem merged_environment_exact_witness:
  "filter (\<lambda>item. \<exists>x. cutEq item = Some (''TOKEN'', x))
     (mergeSecretEnv [''TOKEN=old'', ''HOME=/h''] [(''TOKEN'', ''s3'')]) = [''TOKEN=s3'']"
proof -
  have "portableEnvName ''TOKEN''" "\<not> has_nul ''s3''" by code_simp+
  then have "validateLaunchMaterial [(''TOKEN'', ''s3'')] [] = None"
    by (simp add: validateLaunchMaterial_ok)
  from merged_environment_exact [OF this, of "''TOKEN''" "''s3''" "[''TOKEN=old'', ''HOME=/h'']"]
  show ?thesis by (simp add: entryText_def)
qed

text \<open>The restart backoff is the capped exponential: for a non-negative initial delay, the loop
  computes the initial delay times two to the attempts, capped at the maximum, for every number of
  attempts, and never doubles past the cap on the way.\<close>

theorem restart_delay_capped_exponential:
  assumes "0 \<le> initial" "0 \<le> mx"
  shows "managedRestartDelay initial mx attempt = min mx (initial * 2 ^ attempt)"
proof (cases "mx \<le> initial")
  case True
  have "initial * 1 \<le> initial * 2 ^ attempt" using assms by (intro mult_left_mono) auto
  with True show ?thesis by (simp add: managedRestartDelay_def min_def)
next
  case False
  then show ?thesis using doubleLoop_min [OF assms(1), of mx attempt] by (simp add: managedRestartDelay_def)
qed

theorem restart_delay_capped_exponential_witness:
  "managedRestartDelay 25000000 5000000000 3 = 200000000 \<and> managedRestartDelay 25000000 5000000000 90 = 5000000000"
  using restart_delay_capped_exponential [of 25000000 5000000000 3]
    restart_delay_capped_exponential [of 25000000 5000000000 90] by simp

end
