(* ===== verification/Process_Server.thy ===== *)
theory Process_Server
  imports Process_Output
begin

text \<open>
  The process supervisor of the sandbox daemon
  (\<open>src/sandboxd/internal/server/process.go\<close> and \<open>supervisor.go\<close>): idempotent start, stop
  modes, the waiter and the output drains, managed services with their restarts, and shutdown.

  Process records are heap objects: \<open>ps_processes\<close> maps a key to an address and \<open>ps_heap\<close> an
  address to a record, because goroutines keep references to records that were replaced. The
  operating system is input: every launch attempt is given its outcome (\<open>launch\<close>), and the exit of
  the leader, every chunk read from a pipe and the end of each output stream are events. What was
  executed is collected in \<open>ps_launches\<close>, the signals sent to an execution domain in
  \<open>ps_signals\<close>. Handlers that hold \<open>reconcileMu\<close> are atomic steps, and the waiter, drains and timers
  are steps that may come between any two of them. \<open>timer.Stop\<close> does not recall a callback that
  already runs, so the model lets the timeout and grace callbacks run at any time after they were
  armed and gives \<open>Stop\<close> on those timers no effect; each callback checks the state by itself.
\<close>

section \<open>State\<close>

datatype processState = STATE_UNSPECIFIED | RUNNING | STOPPING | EXITED | FAILED

datatype terminationReason =
  REASON_UNSPECIFIED | REASON_EXITED | INTERRUPTED | TERMINATED | FORCED | TIMEOUT | DAEMON_CLOSED
| START_FAILED | WAIT_FAILED

datatype waitError = ExitError int | OtherWaitError string

type_synonym processKey = "string \<times> string"

record managedProcess =
  mp_key :: processKey
  mp_spec :: ProcessSpec
  mp_executionID :: string
  mp_started :: bool
  mp_state :: processState
  mp_exitCode :: "int option"
  mp_err :: string
  mp_reason :: terminationReason
  mp_stopRequested :: bool
  mp_gracefulStop :: bool
  mp_leaderWaited :: bool
  mp_waitErr :: "waitError option"
  mp_terminalRequested :: bool
  mp_stdout :: outputBuffer
  mp_stderr :: outputBuffer
  mp_drains :: int
  mp_secretLaunch :: bool
  mp_managed :: bool
  mp_managedGeneration :: nat
  mp_restartAttempt :: nat
  mp_startedAt :: int
  mp_managedSuppressed :: bool

record restartTimer =
  rt_id :: nat
  rt_attempt :: nat
  rt_delay :: int

text \<open>\<open>mw_address\<close> identifies the owner object: pointer comparison is comparison of addresses.\<close>

record managedOwner =
  mw_address :: nat
  mw_revision :: nat
  mw_routeRevision :: nat
  mw_desired :: "(string \<times> ProcessSpec) list"
  mw_restarts :: "(string \<times> restartTimer) list"
  mw_gen :: nat

datatype signal = Interrupt | Terminate | Force

text \<open>What the operating system is asked to run for the record at an address.\<close>

record execution =
  ex_address :: nat
  ex_argv :: "string list"
  ex_dir :: string
  ex_env :: "string list"

record ProcessServer =
  ps_environ :: "string list"
  ps_Workspace :: string
  ps_processes :: "(processKey \<times> nat) list"
  ps_heap :: "nat \<Rightarrow> managedProcess"
  ps_closed :: bool
  ps_OutputCapacity :: int
  ps_MaxRecords :: int
  ps_owners :: "(string \<times> managedOwner) list"
  ps_restartInitial :: int
  ps_restartMax :: int
  ps_restartStable :: int
  ps_next :: nat
  ps_signals :: "(nat \<times> signal) list"
  ps_supervisorClosed :: bool
  ps_domains :: "nat list"
  ps_launches :: "execution list"

text \<open>The outcome of a launch attempt: the generated execution ID, a failure before the record is
  published, then the result of starting the domain (\<open>None\<close> for success).\<close>

record launch =
  ln_id :: "string option"
  ln_resources :: "string option"
  ln_start :: "string option"

record Process =
  pc_key :: processKey
  pc_spec :: "ProcessSpec option"
  pc_state :: processState
  pc_exitCode :: "int option"
  pc_err :: string
  pc_executionID :: string
  pc_reason :: terminationReason

definition processResponse :: "managedProcess \<Rightarrow> Process" where
  "processResponse p = \<lparr>pc_key = mp_key p, pc_spec = Some (mp_spec p), pc_state = mp_state p, pc_exitCode = mp_exitCode p,
     pc_err = mp_err p, pc_executionID = mp_executionID p, pc_reason = mp_reason p\<rparr>"

definition newProcess :: "processKey \<Rightarrow> ProcessSpec \<Rightarrow> string \<Rightarrow> bool \<Rightarrow> managedProcess" where
  "newProcess key spec executionID secretLaunch =
     \<lparr>mp_key = key, mp_spec = spec, mp_executionID = executionID, mp_started = False,
      mp_state = STATE_UNSPECIFIED, mp_exitCode = None, mp_err = [], mp_reason = REASON_UNSPECIFIED,
      mp_stopRequested = False, mp_gracefulStop = False, mp_leaderWaited = False, mp_waitErr = None,
      mp_terminalRequested = False, mp_stdout = emptyBuffer, mp_stderr = emptyBuffer, mp_drains = 0,
      mp_secretLaunch = secretLaunch, mp_managed = False, mp_managedGeneration = 0,
      mp_restartAttempt = 0, mp_startedAt = 0, mp_managedSuppressed = False\<rparr>"

definition NewProcessServer :: "string list \<Rightarrow> string \<Rightarrow> ProcessServer" where
  "NewProcessServer environ workspace =
     \<lparr>ps_environ = environ, ps_Workspace = workspace, ps_processes = [],
      ps_heap = (\<lambda>_. newProcess ([], []) \<lparr>px_Argv = [], px_Cwd = [], px_Env = [],
        px_EnvMode = ENVIRONMENT_MODE_UNSPECIFIED, px_TimeoutMs = 0\<rparr> [] False),
      ps_closed = False, ps_OutputCapacity = defaultOutputCapacity, ps_MaxRecords = 1024, ps_owners = [], ps_restartInitial = 25000000,
      ps_restartMax = 5000000000, ps_restartStable = 30000000000, ps_next = 0, ps_signals = [],
      ps_supervisorClosed = False, ps_domains = [], ps_launches = []\<rparr>"

definition maxRecords :: "ProcessServer \<Rightarrow> int" where
  "maxRecords s = (if 0 < ps_MaxRecords s then ps_MaxRecords s else 1024)"

definition requestKey :: "processKey option \<Rightarrow> rpc_error + processKey" where
  "requestKey key =
     (case key of
        None \<Rightarrow> Inl (InvalidArgument ''key'')
      | Some (owner, role) \<Rightarrow> if owner = [] \<or> role = [] then Inl (InvalidArgument ''key'') else Inr (owner, role))"

text \<open>\<open>reflect.DeepEqual\<close> on Go maps and on specs. A decoded message has no empty non-nil map, and
  \<open>ReconcileManagedServices\<close> replaces one by nil, so the empty map stands for both.\<close>

definition mapDeepEqual :: "('v \<Rightarrow> 'v \<Rightarrow> bool) \<Rightarrow> (string \<times> 'v) list \<Rightarrow> (string \<times> 'v) list \<Rightarrow> bool" where
  "mapDeepEqual eq m n \<longleftrightarrow> length m = length n \<and>
     list_all (\<lambda>(k, v). case map_of n k of None \<Rightarrow> False | Some w \<Rightarrow> eq v w) m"

definition specDeepEqual :: "ProcessSpec \<Rightarrow> ProcessSpec \<Rightarrow> bool" where
  "specDeepEqual a b \<longleftrightarrow> px_Argv a = px_Argv b \<and> px_Cwd a = px_Cwd b \<and>
     mapDeepEqual (=) (px_Env a) (px_Env b) \<and> px_EnvMode a = px_EnvMode b \<and> px_TimeoutMs a = px_TimeoutMs b"

abbreviation "terminalState st \<equiv> st = EXITED \<or> st = FAILED"

definition modifyProcess :: "nat \<Rightarrow> (managedProcess \<Rightarrow> managedProcess) \<Rightarrow> ProcessServer \<Rightarrow> ProcessServer" where
  "modifyProcess a f s = s\<lparr>ps_heap := (ps_heap s)(a := f (ps_heap s a))\<rparr>"

definition send :: "nat \<Rightarrow> signal \<Rightarrow> ProcessServer \<Rightarrow> ProcessServer" where
  "send a sg s = s\<lparr>ps_signals := ps_signals s @ [(a, sg)]\<rparr>"

definition setOwner :: "string \<Rightarrow> managedOwner \<Rightarrow> ProcessServer \<Rightarrow> ProcessServer" where
  "setOwner ownerID ow s = s\<lparr>ps_owners := mput ownerID ow (ps_owners s)\<rparr>"

section \<open>Launching\<close>

definition rejectManagedKey :: "processKey option \<Rightarrow> ProcessServer \<Rightarrow> rpc_error option" where
  "rejectManagedKey keyRequest s =
     (case requestKey keyRequest of
        Inl err \<Rightarrow> Some err
      | Inr (owner, role) \<Rightarrow>
          (case map_of (ps_owners s) owner of
             None \<Rightarrow> None
           | Some ow \<Rightarrow>
               if map_of (mw_desired ow) role \<noteq> None
               then Some (FailedPrecondition ''process key is owned by managed service intent'') else None))"

text \<open>The rest of \<open>start\<close> once every pre-launch resource is allocated: publish the record, start the
  domain under the supervisor's admission lock, and start the goroutines of the execution.\<close>

definition launchEnv :: "string list \<Rightarrow> ProcessSpec \<Rightarrow> (string \<times> string) list \<Rightarrow> string list" where
  "launchEnv environ spec secretEnv =
     mergeSecretEnv (case normalizeEnv environ (px_EnvMode spec) (px_Env spec) of Inl _ \<Rightarrow> [] | Inr env \<Rightarrow> env) secretEnv"

definition launchProcess ::
  "processKey \<Rightarrow> ProcessSpec \<Rightarrow> (string \<times> string) list \<Rightarrow> string \<Rightarrow> bool \<Rightarrow> string option \<Rightarrow> ProcessServer
     \<Rightarrow> (rpc_error + Process) \<times> ProcessServer" where
  "launchProcess key spec secretEnv executionID secretLaunch startErr s =
     (let a = ps_next s;
          p = newProcess key spec executionID secretLaunch;
          s1 = s\<lparr>ps_heap := (ps_heap s)(a := p), ps_next := Suc a\<rparr>;
          x = \<lparr>ex_address = a, ex_argv = px_Argv spec, ex_dir = px_Cwd spec,
               ex_env = launchEnv (ps_environ s) spec secretEnv\<rparr>;
          s2 = s1\<lparr>ps_processes := mput key a (ps_processes s), ps_launches := ps_launches s @ [x]\<rparr>
      in if ps_supervisorClosed s then (Inl (Unavailable ''process supervisor epoch is closed''), s1)
         else case startErr of
                Some e \<Rightarrow>
                  (let p' = p\<lparr>mp_state := FAILED, mp_err := e, mp_reason := START_FAILED,
                              mp_stdout := emptyBuffer\<lparr>ob_eof := True\<rparr>, mp_stderr := emptyBuffer\<lparr>ob_eof := True\<rparr>\<rparr>
                   in (Inr (processResponse p'), s2\<lparr>ps_heap := (ps_heap s)(a := p')\<rparr>))
              | None \<Rightarrow>
                  (let p' = p\<lparr>mp_started := True, mp_state := RUNNING, mp_drains := 2\<rparr>
                   in (Inr (processResponse p'),
                       s2\<lparr>ps_heap := (ps_heap s)(a := p'), ps_domains := a # ps_domains s\<rparr>)))"

definition start_process ::
  "processKey option \<Rightarrow> ProcessSpec option \<Rightarrow> (string \<times> string) list \<Rightarrow> bool \<Rightarrow> launch \<Rightarrow> ProcessServer
     \<Rightarrow> (rpc_error + Process) \<times> ProcessServer" where
  "start_process keyRequest specRequest secretEnv secretLaunch l s =
     (case requestKey keyRequest of
        Inl err \<Rightarrow> (Inl err, s)
      | Inr key \<Rightarrow>
          (case normalizeSpec (ps_environ s) (ps_Workspace s) specRequest of
             Inl err \<Rightarrow> (Inl err, s)
           | Inr spec \<Rightarrow>
               (case (if secretLaunch then validateLaunchMaterial secretEnv (px_Env spec) else None) of
                  Some err \<Rightarrow> (Inl err, s)
                | None \<Rightarrow>
                    if ps_closed s then (Inl (Unavailable ''process supervisor epoch is closed''), s)
                    else
                      (case map_of (ps_processes s) key of
                         Some a \<Rightarrow>
                           if \<not> specDeepEqual (mp_spec (ps_heap s a)) spec
                           then (Inl (FailedPrecondition ''process key already has a different spec''), s)
                           else if mp_secretLaunch (ps_heap s a) \<noteq> secretLaunch
                           then (Inl (FailedPrecondition ''process key already has a different launch mode''), s)
                           else (Inr (processResponse (ps_heap s a)), s)
                       | None \<Rightarrow>
                           if maxRecords s \<le> int (length (ps_processes s))
                           then (Inl (ResourceExhausted ''process record limit reached''), s)
                           else
                             (case (ln_id l, ln_resources l) of
                                (None, _) \<Rightarrow> (Inl (Internal ''generate execution id''), s)
                              | (Some _, Some e) \<Rightarrow> (Inl (Internal e), s)
                              | (Some i, None) \<Rightarrow> launchProcess key spec secretEnv i secretLaunch (ln_start l) s)))))"

definition Start ::
  "processKey option \<Rightarrow> ProcessSpec option \<Rightarrow> launch \<Rightarrow> ProcessServer \<Rightarrow> (rpc_error + Process) \<times> ProcessServer" where
  "Start key spec l s =
     (case rejectManagedKey key s of
        Some err \<Rightarrow> (Inl err, s)
      | None \<Rightarrow> start_process key spec [] False l s)"

definition StartWithLaunchMaterial ::
  "processKey option \<Rightarrow> ProcessSpec option \<Rightarrow> (string \<times> string) list \<Rightarrow> launch \<Rightarrow> ProcessServer
     \<Rightarrow> (rpc_error + Process) \<times> ProcessServer" where
  "StartWithLaunchMaterial key spec secretEnv l s =
     (case rejectManagedKey key s of
        Some err \<Rightarrow> (Inl err, s)
      | None \<Rightarrow> start_process key spec secretEnv True l s)"

section \<open>Managed restarts\<close>

text \<open>\<open>scheduleManagedEnsureLocked\<close>: the timer of a role is replaced by a fresh one.\<close>

definition scheduleManagedEnsureLocked ::
  "string \<Rightarrow> string \<Rightarrow> managedOwner \<Rightarrow> nat \<Rightarrow> int \<Rightarrow> ProcessServer \<Rightarrow> ProcessServer" where
  "scheduleManagedEnsureLocked ownerID role ow attempt delay s =
     (let t = \<lparr>rt_id = ps_next s, rt_attempt = attempt, rt_delay = delay\<rparr> in
      setOwner ownerID (ow\<lparr>mw_restarts := mput role t (mw_restarts ow)\<rparr>) (s\<lparr>ps_next := Suc (ps_next s)\<rparr>))"

definition scheduleManagedRestartLocked :: "int \<Rightarrow> nat \<Rightarrow> ProcessServer \<Rightarrow> ProcessServer" where
  "scheduleManagedRestartLocked now a s =
     (let p = ps_heap s a; ownerID = fst (mp_key p); role = snd (mp_key p) in
      if \<not> mp_managed p \<or> ps_closed s then s
      else case map_of (ps_owners s) ownerID of
             None \<Rightarrow> s
           | Some ow \<Rightarrow>
               if mw_gen ow \<noteq> mp_managedGeneration p
                  \<or> (case map_of (mw_desired ow) role of None \<Rightarrow> True | Some d \<Rightarrow> \<not> specDeepEqual d (mp_spec p)) then s
               else
                 (let attempt = (if ps_restartStable s \<le> now - mp_startedAt p then 0 else mp_restartAttempt p)
                  in scheduleManagedEnsureLocked ownerID role ow (attempt + 1)
                       (managedRestartDelay (ps_restartInitial s) (ps_restartMax s) attempt) s))"

definition finishLocked :: "int \<Rightarrow> nat \<Rightarrow> ProcessServer \<Rightarrow> ProcessServer" where
  "finishLocked now a s =
     (let p = ps_heap s a in
      if mp_terminalRequested p \<and> mp_drains p = 0 then
        (let st = (if mp_reason p = START_FAILED \<or> mp_reason p = WAIT_FAILED then FAILED else EXITED);
             s1 = modifyProcess a (\<lambda>p. p\<lparr>mp_state := st\<rparr>) s;
             ownerID = fst (mp_key p); role = snd (mp_key p)
         in if mp_managed p then scheduleManagedRestartLocked now a s1
            else case map_of (ps_owners s1) ownerID of
                   None \<Rightarrow> s1
                 | Some ow \<Rightarrow>
                     if map_of (mw_desired ow) role \<noteq> None \<and> \<not> mp_managedSuppressed p \<and> \<not> ps_closed s1
                     then scheduleManagedEnsureLocked ownerID role ow 0 0 s1 else s1)
      else s)"

text \<open>\<open>supervisor.done\<close>, which both the drain and the finaliser call once everything is in.\<close>

definition supervisorDone :: "nat \<Rightarrow> ProcessServer \<Rightarrow> ProcessServer" where
  "supervisorDone a s =
     (if mp_terminalRequested (ps_heap s a) \<and> mp_drains (ps_heap s a) = 0
      then s\<lparr>ps_domains := removeAll a (ps_domains s)\<rparr> else s)"

section \<open>Completion\<close>

definition setReasonIfNone :: "terminationReason \<Rightarrow> managedProcess \<Rightarrow> managedProcess" where
  "setReasonIfNone r p = (if mp_reason p = REASON_UNSPECIFIED then p\<lparr>mp_reason := r\<rparr> else p)"

definition stopIfRunning :: "managedProcess \<Rightarrow> managedProcess" where
  "stopIfRunning p = (if mp_state p = RUNNING then p\<lparr>mp_state := STOPPING\<rparr> else p)"

definition recordExit :: "managedProcess \<Rightarrow> managedProcess" where
  "recordExit p =
     (case mp_waitErr p of
        None \<Rightarrow> p\<lparr>mp_exitCode := Some 0, mp_terminalRequested := True\<rparr>
      | Some (ExitError c) \<Rightarrow> p\<lparr>mp_exitCode := Some (wrap_i32 c), mp_terminalRequested := True\<rparr>
      | Some (OtherWaitError e) \<Rightarrow>
          (setReasonIfNone WAIT_FAILED p)\<lparr>mp_err := e, mp_exitCode := Some 0, mp_terminalRequested := True\<rparr>)"

definition finalizeWait :: "int \<Rightarrow> processKey \<Rightarrow> nat \<Rightarrow> ProcessServer \<Rightarrow> ProcessServer" where
  "finalizeWait now key a s =
     (let s1 = send a Force s in
      if map_of (ps_processes s1) key \<noteq> Some a \<or> mp_terminalRequested (ps_heap s1 a) then s1
      else supervisorDone a (finishLocked now a (modifyProcess a recordExit s1)))"

definition wait_exit :: "int \<Rightarrow> processKey \<Rightarrow> nat \<Rightarrow> waitError option \<Rightarrow> ProcessServer \<Rightarrow> ProcessServer" where
  "wait_exit now key a e s =
     (if map_of (ps_processes s) key \<noteq> Some a then s
      else
        (let s1 = modifyProcess a (\<lambda>p. (setReasonIfNone REASON_EXITED p)\<lparr>mp_leaderWaited := True, mp_waitErr := e\<rparr>) s;
             p = ps_heap s1 a
         in if mp_gracefulStop p \<and> mp_state p = STOPPING then s1 else finalizeWait now key a s1))"

text \<open>One round of the loop of \<open>drain\<close> that read bytes, and its end.\<close>

definition onStream :: "bool \<Rightarrow> (outputBuffer \<Rightarrow> outputBuffer) \<Rightarrow> managedProcess \<Rightarrow> managedProcess" where
  "onStream isStdout f p =
     (if isStdout then p\<lparr>mp_stdout := f (mp_stdout p)\<rparr> else p\<lparr>mp_stderr := f (mp_stderr p)\<rparr>)"

definition drain_write :: "nat \<Rightarrow> bool \<Rightarrow> string \<Rightarrow> ProcessServer \<Rightarrow> ProcessServer" where
  "drain_write a isStdout chunk s =
     modifyProcess a (onStream isStdout (drain (ps_OutputCapacity s) [chunk])) s"

definition drain_end :: "int \<Rightarrow> nat \<Rightarrow> bool \<Rightarrow> ProcessServer \<Rightarrow> ProcessServer" where
  "drain_end now a isStdout s =
     supervisorDone a (finishLocked now a
       (modifyProcess a (\<lambda>p. (onStream isStdout (ob_eof_update (\<lambda>_. True)) p)\<lparr>mp_drains := mp_drains p - 1\<rparr>) s))"

definition requestTermination ::
  "processKey \<Rightarrow> nat \<Rightarrow> terminationReason \<Rightarrow> bool \<Rightarrow> ProcessServer \<Rightarrow> ProcessServer" where
  "requestTermination key a reason force s =
     (if map_of (ps_processes s) key \<noteq> Some a \<or> mp_state (ps_heap s a) \<noteq> RUNNING then s
      else send a (if force then Force else Terminate)
             (modifyProcess a (\<lambda>p. setReasonIfNone reason (p\<lparr>mp_stopRequested := True, mp_state := STOPPING\<rparr>)) s))"

definition shutdownManaged :: "int \<Rightarrow> processKey \<Rightarrow> nat \<Rightarrow> ProcessServer \<Rightarrow> ProcessServer" where
  "shutdownManaged now key a s =
     (if map_of (ps_processes s) key \<noteq> Some a \<or> mp_terminalRequested (ps_heap s a) then s
      else
        (let s1 = modifyProcess a (\<lambda>p. (stopIfRunning (setReasonIfNone DAEMON_CLOSED p))\<lparr>mp_gracefulStop := False\<rparr>) s
         in if mp_leaderWaited (ps_heap s1 a) then finalizeWait now key a s1 else s1))"

section \<open>Requests on one process\<close>

definition Get :: "processKey option \<Rightarrow> ProcessServer \<Rightarrow> rpc_error + Process" where
  "Get keyRequest s =
     (case requestKey keyRequest of
        Inl err \<Rightarrow> Inl err
      | Inr k \<Rightarrow>
          (case map_of (ps_processes s) k of
             None \<Rightarrow> Inl (NotFound ''process not found'')
           | Some a \<Rightarrow> Inr (processResponse (ps_heap s a))))"

datatype stopMode =
  STOP_MODE_UNSPECIFIED | STOP_MODE_GRACEFUL | STOP_MODE_INTERRUPT | STOP_MODE_TERMINATE | STOP_MODE_FORCE
| STOP_MODE_UNKNOWN int

text \<open>On Linux, where the daemon runs: \<open>stopReason\<close> is the switch that chooses the cause.\<close>

fun stopReason :: "stopMode \<Rightarrow> terminationReason" where
  "stopReason STOP_MODE_GRACEFUL = INTERRUPTED"
| "stopReason STOP_MODE_INTERRUPT = INTERRUPTED"
| "stopReason STOP_MODE_TERMINATE = TERMINATED"
| "stopReason STOP_MODE_FORCE = FORCED"
| "stopReason _ = REASON_UNSPECIFIED"

definition markStop :: "stopMode \<Rightarrow> managedProcess \<Rightarrow> managedProcess" where
  "markStop mode p =
     (let startGrace = (mode = STOP_MODE_GRACEFUL \<and> \<not> mp_stopRequested p);
          hard = (mode = STOP_MODE_FORCE \<or> mode = STOP_MODE_TERMINATE);
          p1 = p\<lparr>mp_stopRequested := True,
                 mp_gracefulStop := (if hard then False else if startGrace then True else mp_gracefulStop p)\<rparr>
      in setReasonIfNone (stopReason mode) (stopIfRunning p1))"

definition unmanage :: "managedProcess \<Rightarrow> managedProcess" where
  "unmanage p = (if mp_managed p then p\<lparr>mp_managed := False, mp_managedSuppressed := True\<rparr> else p)"

definition Stop ::
  "int \<Rightarrow> processKey option \<Rightarrow> stopMode \<Rightarrow> ProcessServer \<Rightarrow> (rpc_error + Process) \<times> ProcessServer" where
  "Stop now keyRequest reqMode s =
     (case requestKey keyRequest of
        Inl err \<Rightarrow> (Inl err, s)
      | Inr k \<Rightarrow>
          (let mode = (if reqMode = STOP_MODE_UNSPECIFIED then STOP_MODE_GRACEFUL else reqMode) in
           if mode \<notin> {STOP_MODE_GRACEFUL, STOP_MODE_INTERRUPT, STOP_MODE_TERMINATE, STOP_MODE_FORCE}
           then (Inl (InvalidArgument ''unknown stop mode''), s)
           else case map_of (ps_processes s) k of
                  None \<Rightarrow>
                    (Inr \<lparr>pc_key = k, pc_spec = None, pc_state = EXITED, pc_exitCode = None, pc_err = [],
                          pc_executionID = [], pc_reason = REASON_UNSPECIFIED\<rparr>, s)
                | Some a \<Rightarrow>
                    (let s1 = modifyProcess a unmanage s; p = ps_heap s1 a in
                     if \<not> mp_started p \<or> terminalState (mp_state p) then (Inr (processResponse p), s1)
                     else
                       (let startGrace = (mode = STOP_MODE_GRACEFUL \<and> \<not> mp_stopRequested p);
                            s2 = modifyProcess a (markStop mode) s1;
                            resp = processResponse (ps_heap s2 a);
                            leaderWaited = mp_leaderWaited (ps_heap s2 a)
                        in (Inr resp,
                            (if mode = STOP_MODE_FORCE then
                               (if leaderWaited then finalizeWait now k a (send a Force s2) else send a Force s2)
                             else if mode = STOP_MODE_TERMINATE then
                               (if leaderWaited then finalizeWait now k a (send a Terminate s2) else send a Terminate s2)
                             else if mode = STOP_MODE_GRACEFUL then (if startGrace then send a Interrupt s2 else s2)
                             else send a Interrupt s2))))))"

text \<open>The callbacks of the two timers of an execution.\<close>

definition graceTimer :: "int \<Rightarrow> processKey \<Rightarrow> nat \<Rightarrow> ProcessServer \<Rightarrow> ProcessServer" where
  "graceTimer now k a s =
     (let p = ps_heap s a;
          forceNow = (map_of (ps_processes s) k = Some a \<and> mp_gracefulStop p \<and> mp_state p = STOPPING);
          s1 = modifyProcess a (\<lambda>p. p\<lparr>mp_gracefulStop := False\<rparr>) s
      in if forceNow then
           (let s2 = send a Force s1 in if mp_leaderWaited p then finalizeWait now k a s2 else s2)
         else s1)"

definition timeoutTimer :: "processKey \<Rightarrow> nat \<Rightarrow> ProcessServer \<Rightarrow> ProcessServer" where
  "timeoutTimer k a s =
     (if 0 < px_TimeoutMs (mp_spec (ps_heap s a)) then requestTermination k a TIMEOUT True s else s)"

datatype outputStream = OUTPUT_STREAM_UNSPECIFIED | STDOUT | STDERR | STREAM_UNKNOWN int

definition ReadOutput ::
  "processKey option \<Rightarrow> string \<Rightarrow> outputStream \<Rightarrow> 64 word \<Rightarrow> 32 word \<Rightarrow> ProcessServer
     \<Rightarrow> rpc_error + ReadOutputResponse" where
  "ReadOutput keyRequest executionId stream offset maxBytes s =
     (case requestKey keyRequest of
        Inl err \<Rightarrow> Inl err
      | Inr k \<Rightarrow>
          (case map_of (ps_processes s) k of
             None \<Rightarrow> Inl (NotFound ''process not found'')
           | Some a \<Rightarrow>
               if executionId \<noteq> mp_executionID (ps_heap s a)
               then Inl (FailedPrecondition ''execution_id does not match current epoch record'')
               else if stream \<noteq> STDOUT \<and> stream \<noteq> STDERR
               then Inl (InvalidArgument ''stream must be stdout or stderr'')
               else case readBuffer offset maxBytes
                           (if stream = STDOUT then mp_stdout (ps_heap s a) else mp_stderr (ps_heap s a)) of
                      None \<Rightarrow> Inl (OutOfRange ''offset is beyond output end'')
                    | Some r \<Rightarrow> Inr r))"

section \<open>Managed services\<close>

definition cancelManagedRestartsLocked :: "managedOwner \<Rightarrow> managedOwner" where
  "cancelManagedRestartsLocked ow = ow\<lparr>mw_restarts := []\<rparr>"

record managedResponse =
  mr_OwnerId :: string
  mr_IntentRevision :: nat
  mr_RouteRevision :: nat
  mr_Services :: "(string \<times> Process option) list"

definition managedResponseLocked :: "string \<Rightarrow> managedOwner \<Rightarrow> ProcessServer \<Rightarrow> managedResponse" where
  "managedResponseLocked ownerID ow s =
     \<lparr>mr_OwnerId = ownerID, mr_IntentRevision = mw_revision ow, mr_RouteRevision = mw_routeRevision ow,
      mr_Services = map (\<lambda>role. (role, map_option (\<lambda>a. processResponse (ps_heap s a))
                                          (map_of (ps_processes s) (ownerID, role))))
                      (sort (map fst (mw_desired ow)))\<rparr>"

text \<open>\<open>owner\<close> is a pointer: after the start it is compared with the current owner of the map by its
  address, and what is read through it are the fields of that current object.\<close>

definition adoptManaged :: "int \<Rightarrow> nat \<Rightarrow> nat \<Rightarrow> nat \<Rightarrow> ProcessServer \<Rightarrow> ProcessServer" where
  "adoptManaged now gen attempt a s =
     (let s1 = modifyProcess a (\<lambda>p. p\<lparr>mp_managed := True, mp_managedGeneration := gen, mp_restartAttempt := attempt,
                                    mp_startedAt := now\<rparr>) s
      in if terminalState (mp_state (ps_heap s1 a)) then scheduleManagedRestartLocked now a s1 else s1)"

definition ensureManagedUnderReconcile ::
  "int \<Rightarrow> string \<Rightarrow> string \<Rightarrow> nat \<Rightarrow> nat \<Rightarrow> launch \<Rightarrow> ProcessServer \<Rightarrow> ProcessServer" where
  "ensureManagedUnderReconcile now ownerID role gen attempt l s =
     (case map_of (ps_owners s) ownerID of
        None \<Rightarrow> s
      | Some ow \<Rightarrow>
          (case map_of (mw_desired ow) role of
             None \<Rightarrow> s
           | Some spec \<Rightarrow>
               (let key = (ownerID, role);
                    keep = (case map_of (ps_processes s) key of
                              None \<Rightarrow> False
                            | Some old \<Rightarrow> (mp_managedSuppressed (ps_heap s old) \<and> mp_managedGeneration (ps_heap s old) = gen)
                                \<or> \<not> terminalState (mp_state (ps_heap s old)))
                in if ps_closed s \<or> mw_gen ow \<noteq> gen \<or> keep then s
                   else
                     (let (r, s2) = start_process (Some key) (Some spec) [] False l
                                      (s\<lparr>ps_processes := mdel key (ps_processes s)\<rparr>)
                      in case map_of (ps_owners s2) ownerID of
                           None \<Rightarrow> s2
                         | Some cur \<Rightarrow>
                             (case r of
                                Inl _ \<Rightarrow>
                                  if mw_address cur = mw_address ow \<and> mw_gen cur = gen
                                     \<and> map_of (mw_desired cur) role \<noteq> None \<and> \<not> ps_closed s2
                                  then scheduleManagedEnsureLocked ownerID role cur (attempt + 1)
                                         (managedRestartDelay (ps_restartInitial s2) (ps_restartMax s2) attempt) s2
                                  else s2
                              | Inr _ \<Rightarrow>
                                  (case map_of (ps_processes s2) key of
                                     None \<Rightarrow> s2
                                   | Some a \<Rightarrow>
                                       if mw_address cur = mw_address ow \<and> mw_gen cur = gen
                                          \<and> specDeepEqual (mp_spec (ps_heap s2 a)) spec
                                       then adoptManaged now gen attempt a s2 else s2))))))"

text \<open>The timer callback of \<open>scheduleManagedEnsureLocked\<close>; \<open>owner\<close> is the address of the owner object and
  \<open>timer\<close> the identity of the timer that fires, \<open>busy\<close> says that \<open>reconcileMu\<close> is held.\<close>

definition timerValid :: "string \<Rightarrow> string \<Rightarrow> nat \<Rightarrow> nat \<Rightarrow> ProcessServer \<Rightarrow> (managedOwner \<times> restartTimer) option" where
  "timerValid ownerID role owner timer s =
     (case map_of (ps_owners s) ownerID of
        None \<Rightarrow> None
      | Some current \<Rightarrow>
          (case map_of (mw_restarts current) role of
             None \<Rightarrow> None
           | Some t \<Rightarrow>
               if mw_address current = owner \<and> \<not> ps_closed s \<and> rt_id t = timer
                  \<and> map_of (mw_desired current) role \<noteq> None
               then Some (current, t) else None))"

definition restartTimerFires ::
  "int \<Rightarrow> string \<Rightarrow> string \<Rightarrow> nat \<Rightarrow> nat \<Rightarrow> bool \<Rightarrow> launch \<Rightarrow> ProcessServer \<Rightarrow> ProcessServer" where
  "restartTimerFires now ownerID role owner timer busy l s =
     (case timerValid ownerID role owner timer s of
        None \<Rightarrow> s
      | Some (current, t) \<Rightarrow>
          if busy then scheduleManagedEnsureLocked ownerID role current (rt_attempt t) (ps_restartInitial s) s
          else ensureManagedUnderReconcile now ownerID role (mw_gen current) (rt_attempt t) l
                 (setOwner ownerID (current\<lparr>mw_restarts := mdel role (mw_restarts current)\<rparr>) s))"

record reconcileRequest =
  rq_OwnerId :: string
  rq_IntentRevision :: nat
  rq_RouteRevision :: nat
  rq_Services :: "(string \<times> ProcessSpec option) option list"

definition validRole :: "string \<Rightarrow> bool" where
  "validRole role \<longleftrightarrow> role \<noteq> [] \<and> length role \<le> 32 \<and> utf8_valid role \<and> \<not> has_nul role"

fun desiredLoop ::
  "string list \<Rightarrow> string \<Rightarrow> (string \<times> ProcessSpec option) option list \<Rightarrow> (string \<times> ProcessSpec) list
     \<Rightarrow> rpc_error + (string \<times> ProcessSpec) list" where
  "desiredLoop environ workspace [] desired = Inr desired"
| "desiredLoop environ workspace (None # svcs) desired = Inl (InvalidArgument ''service role'')"
| "desiredLoop environ workspace (Some (role, specRequest) # svcs) desired =
     (if \<not> validRole role then Inl (InvalidArgument ''service role'')
      else if map_of desired role \<noteq> None then Inl (InvalidArgument ''service roles must be unique'')
      else case validateManagedSpec specRequest of
             Some err \<Rightarrow> Inl err
           | None \<Rightarrow>
               (case normalizeSpec environ workspace specRequest of
                  Inl err \<Rightarrow> Inl err
                | Inr spec \<Rightarrow> desiredLoop environ workspace svcs (desired @ [(role, spec)])))"

text \<open>The loop over the existing records of the owner: what is no longer wanted as it is becomes
  unmanaged, and is stopped if it runs; what is kept moves to the new generation.\<close>

definition keptAsIs :: "(string \<times> ProcessSpec) list \<Rightarrow> string \<Rightarrow> managedProcess \<Rightarrow> bool" where
  "keptAsIs desired role p \<longleftrightarrow> mp_managed p \<and>
     (case map_of desired role of None \<Rightarrow> False | Some spec \<Rightarrow> specDeepEqual spec (mp_spec p))"

definition regenerate :: "(string \<times> ProcessSpec) list \<Rightarrow> nat \<Rightarrow> string \<Rightarrow> managedProcess \<Rightarrow> managedProcess" where
  "regenerate desired gen role p =
     (if keptAsIs desired role p then p\<lparr>mp_managedGeneration := gen\<rparr>
      else p\<lparr>mp_managed := False, mp_managedSuppressed := False\<rparr>)"

definition ownedRecords :: "string \<Rightarrow> ProcessServer \<Rightarrow> (string \<times> nat) list" where
  "ownedRecords ownerID s = map (\<lambda>(k, a). (snd k, a)) (filter (\<lambda>(k, a). fst k = ownerID) (ps_processes s))"

definition stopList :: "(string \<times> ProcessSpec) list \<Rightarrow> string \<Rightarrow> ProcessServer \<Rightarrow> nat list" where
  "stopList desired ownerID s =
     map snd (filter (\<lambda>(role, a). \<not> keptAsIs desired role (ps_heap s a) \<and> mp_state (ps_heap s a) = RUNNING)
                (ownedRecords ownerID s))"

definition toStartRoles :: "(string \<times> ProcessSpec) list \<Rightarrow> string \<Rightarrow> ProcessServer \<Rightarrow> string list" where
  "toStartRoles desired ownerID s =
     filter (\<lambda>role. case map_of (ps_processes s) (ownerID, role) of
                       None \<Rightarrow> True
                     | Some a \<Rightarrow> \<not> (keptAsIs desired role (ps_heap s a) \<and> \<not> terminalState (mp_state (ps_heap s a))))
       (map fst desired)"

text \<open>Everything after the request is accepted. \<open>launches\<close> gives the outcome of the launch of each role;
  the roles are started in the order of the request, where Go ranges over a map.\<close>

definition acceptIntent ::
  "int \<Rightarrow> (string \<Rightarrow> launch) \<Rightarrow> reconcileRequest \<Rightarrow> (string \<times> ProcessSpec) list \<Rightarrow> ProcessServer
     \<Rightarrow> managedOwner \<times> ProcessServer" where
  "acceptIntent now launches req desired s =
     (let ownerID = rq_OwnerId req;
          gen = (case map_of (ps_owners s) ownerID of None \<Rightarrow> 1 | Some ow \<Rightarrow> mw_gen ow + 1);
          owner = \<lparr>mw_address = ps_next s, mw_revision = rq_IntentRevision req,
                   mw_routeRevision = rq_RouteRevision req, mw_desired = desired, mw_restarts = [], mw_gen = gen\<rparr>;
          s1 = setOwner ownerID owner (s\<lparr>ps_next := Suc (ps_next s)\<rparr>);
          s2 = fold (\<lambda>(role, a). modifyProcess a (regenerate desired gen role)) (ownedRecords ownerID s1) s1;
          s3 = fold (\<lambda>a st. requestTermination (mp_key (ps_heap st a)) a TERMINATED True st) (stopList desired ownerID s1) s2;
          s4 = fold (\<lambda>role. ensureManagedUnderReconcile now ownerID role gen 0 (launches role))
                 (toStartRoles desired ownerID s1) s3
      in (owner, s4))"

definition ReconcileManagedServices ::
  "int \<Rightarrow> bool \<Rightarrow> (string \<Rightarrow> launch) \<Rightarrow> reconcileRequest option \<Rightarrow> ProcessServer
     \<Rightarrow> (rpc_error + managedResponse) \<times> ProcessServer" where
  "ReconcileManagedServices now busy launches reqOpt s =
     (case reqOpt of
        None \<Rightarrow> (Inl (InvalidArgument ''owner_id and positive intent_revision are required''), s)
      | Some req \<Rightarrow>
          let ownerID = rq_OwnerId req in
          if ownerID = [] \<or> rq_IntentRevision req = 0
          then (Inl (InvalidArgument ''owner_id and positive intent_revision are required''), s)
          else if 256 < length ownerID \<or> \<not> utf8_valid ownerID \<or> has_nul ownerID
          then (Inl (InvalidArgument ''owner_id''), s)
          else if 32 < length (rq_Services req) then (Inl (InvalidArgument ''services exceeds maximum''), s)
          else if busy then (Inl (ResourceExhausted ''managed service reconciliation is busy''), s)
          else
            (case desiredLoop (ps_environ s) (ps_Workspace s) (rq_Services req) [] of
               Inl err \<Rightarrow> (Inl err, s)
             | Inr desired \<Rightarrow>
                 if ps_closed s then (Inl (Unavailable ''process supervisor epoch is closed''), s)
                 else
                   let accept =
                     (if map_of (ps_owners s) ownerID = None \<and> maxRecords s \<le> int (length (ps_owners s))
                      then (Inl (ResourceExhausted ''managed service owner limit reached''), s)
                      else if maxRecords s < int (length desired +
                                sum_list (map (\<lambda>(o', ow). if o' \<noteq> ownerID then length (mw_desired ow) else 0) (ps_owners s)))
                      then (Inl (ResourceExhausted ''managed service desired record limit reached''), s)
                      else let (owner, s') = acceptIntent now launches req desired s
                           in (Inr (managedResponseLocked ownerID owner s'), s'))
                   in case map_of (ps_owners s) ownerID of
                        None \<Rightarrow> accept
                      | Some ow \<Rightarrow>
                          if rq_IntentRevision req < mw_revision ow
                             \<or> (rq_IntentRevision req = mw_revision ow \<and> rq_RouteRevision req < mw_routeRevision ow)
                          then (Inl (FailedPrecondition ''managed service revision is stale''), s)
                          else if rq_IntentRevision req = mw_revision ow \<and> rq_RouteRevision req = mw_routeRevision ow
                          then (if \<not> mapDeepEqual specDeepEqual desired (mw_desired ow)
                                then (Inl (FailedPrecondition ''intent_revision has a different desired set''), s)
                                else (Inr (managedResponseLocked ownerID ow s), s))
                          else accept))"

section \<open>Shutdown\<close>

text \<open>\<open>Supervisor.Close\<close> up to its wait for the domains to be done, and \<open>CloseContext\<close>.\<close>

definition closeSupervisor :: "int \<Rightarrow> ProcessServer \<Rightarrow> ProcessServer" where
  "closeSupervisor now s =
     (let domains = ps_domains s;
          s1 = s\<lparr>ps_supervisorClosed := True\<rparr>;
          s2 = fold (\<lambda>a st. shutdownManaged now (mp_key (ps_heap st a)) a st) domains s1
      in fold (\<lambda>a. send a Force) domains s2)"

definition CloseContext :: "int \<Rightarrow> ProcessServer \<Rightarrow> ProcessServer" where
  "CloseContext now s =
     (if ps_closed s then closeSupervisor now s
      else closeSupervisor now
             (s\<lparr>ps_closed := True,
                ps_owners := map (\<lambda>(o', ow). (o', cancelManagedRestartsLocked ow)) (ps_owners s)\<rparr>))"

end
