(* ===== verification/Process_Supervision.thy ===== *)
theory Process_Supervision
  imports Process_Server
begin

text \<open>
  What the process supervisor of \<open>Process_Server\<close> keeps over every interleaving of its requests with the
  waiters, drains and timers of the executions: the record of an execution is accounted for until its
  leader is reaped and both pipes are drained, the first cause of a termination stays, accepted
  intents only move forward, and a closed epoch launches nothing.
\<close>

section \<open>Events\<close>

datatype event =
  EvStart "processKey option" "ProcessSpec option" launch
| EvStartSecret "processKey option" "ProcessSpec option" "(string \<times> string) list" launch
| EvStop int "processKey option" stopMode
| EvReconcile int bool "string \<Rightarrow> launch" "reconcileRequest option"
| EvRestartTimer int string string nat nat bool launch
| EvWait int nat "waitError option"
| EvChunk nat bool string
| EvEOF int nat bool
| EvTimeout nat
| EvGrace int nat
| EvClose int

text \<open>The goroutines of an execution exist once it started: the waiter reports once, and a drain reads
  until the end of its stream.\<close>

fun serverStep :: "ProcessServer \<Rightarrow> event \<Rightarrow> ProcessServer" where
  "serverStep s (EvStart key spec l) = snd (Start key spec l s)"
| "serverStep s (EvStartSecret key spec secret l) = snd (StartWithLaunchMaterial key spec secret l s)"
| "serverStep s (EvStop now key mode) = snd (Stop now key mode s)"
| "serverStep s (EvReconcile now busy ls req) = snd (ReconcileManagedServices now busy ls req s)"
| "serverStep s (EvRestartTimer now ownerID role owner timer busy l) =
     restartTimerFires now ownerID role owner timer busy l s"
| "serverStep s (EvWait now a e) =
     (if mp_started (ps_heap s a) \<and> \<not> mp_leaderWaited (ps_heap s a)
      then wait_exit now (mp_key (ps_heap s a)) a e s else s)"
| "serverStep s (EvChunk a isStdout c) =
     (if mp_started (ps_heap s a) \<and> \<not> ob_eof (if isStdout then mp_stdout (ps_heap s a) else mp_stderr (ps_heap s a))
      then drain_write a isStdout c s else s)"
| "serverStep s (EvEOF now a isStdout) =
     (if mp_started (ps_heap s a) \<and> \<not> ob_eof (if isStdout then mp_stdout (ps_heap s a) else mp_stderr (ps_heap s a))
      then drain_end now a isStdout s else s)"
| "serverStep s (EvTimeout a) = (if mp_started (ps_heap s a) then timeoutTimer (mp_key (ps_heap s a)) a s else s)"
| "serverStep s (EvGrace now a) = (if mp_started (ps_heap s a) then graceTimer now (mp_key (ps_heap s a)) a s else s)"
| "serverStep s (EvClose now) = CloseContext now s"

section \<open>The invariant\<close>

abbreviation "complete p \<equiv> mp_terminalRequested p \<and> mp_drains p = 0"
abbreviation "live p \<equiv> mp_started p \<and> \<not> terminalState (mp_state p)"

text \<open>\<open>proc_pre\<close> holds even inside an operation; \<open>proc_ok\<close> adds that a completed execution is terminal
  and that a reaped leader waits for nothing but the grace timer.\<close>

definition openStreams :: "managedProcess \<Rightarrow> int" where
  "openStreams p =
     (if mp_started p then of_bool (\<not> ob_eof (mp_stdout p)) + of_bool (\<not> ob_eof (mp_stderr p)) else 0)"

definition proc_pre :: "managedProcess \<Rightarrow> bool" where
  "proc_pre p \<longleftrightarrow> mp_drains p = openStreams p
     \<and> (mp_started p \<longrightarrow> mp_state p \<in> {RUNNING, STOPPING, EXITED} \<and> mp_reason p \<notin> {START_FAILED, WAIT_FAILED}
          \<and> (mp_state p = EXITED \<longrightarrow> complete p))
     \<and> (\<not> mp_started p \<longrightarrow> mp_state p \<in> {STATE_UNSPECIFIED, FAILED} \<and> \<not> mp_leaderWaited p)
     \<and> (mp_terminalRequested p \<longrightarrow> mp_leaderWaited p \<and> mp_exitCode p \<noteq> None)
     \<and> (mp_leaderWaited p \<or> mp_state p = STOPPING \<longrightarrow> mp_reason p \<noteq> REASON_UNSPECIFIED)"

definition proc_ok :: "managedProcess \<Rightarrow> bool" where
  "proc_ok p \<longleftrightarrow> proc_pre p \<and> (complete p \<longrightarrow> mp_state p = EXITED)
     \<and> (mp_leaderWaited p \<and> \<not> mp_terminalRequested p \<longrightarrow> mp_gracefulStop p \<and> mp_state p = STOPPING)"

definition table_ok :: "ProcessServer \<Rightarrow> bool" where
  "table_ok s \<longleftrightarrow> map_ok (ps_processes s) \<and> int (length (ps_processes s)) \<le> maxRecords s
     \<and> (\<forall>a. ps_next s \<le> a \<longrightarrow> \<not> mp_started (ps_heap s a))
     \<and> (\<forall>k a. map_of (ps_processes s) k = Some a \<longrightarrow> a < ps_next s \<and> mp_key (ps_heap s a) = k)
     \<and> (\<forall>a. live (ps_heap s a) \<longrightarrow> map_of (ps_processes s) (mp_key (ps_heap s a)) = Some a)
     \<and> distinct (ps_domains s) \<and> (\<forall>a. a \<in> set (ps_domains s) \<longrightarrow> mp_started (ps_heap s a))
     \<and> (\<forall>a. live (ps_heap s a) \<longrightarrow> a \<in> set (ps_domains s))
     \<and> (ps_supervisorClosed s \<longrightarrow> ps_closed s)"

text \<open>Within an operation on the record at \<open>a\<close>, that record alone may be incomplete.\<close>

definition server_pre :: "nat \<Rightarrow> ProcessServer \<Rightarrow> bool" where
  "server_pre a s \<longleftrightarrow> table_ok s \<and> proc_pre (ps_heap s a) \<and> (\<forall>b. b \<noteq> a \<longrightarrow> proc_ok (ps_heap s b))
     \<and> (\<forall>b. b \<noteq> a \<and> b \<in> set (ps_domains s) \<longrightarrow> live (ps_heap s b))"

definition server_ok :: "ProcessServer \<Rightarrow> bool" where
  "server_ok s \<longleftrightarrow> table_ok s \<and> (\<forall>a. proc_ok (ps_heap s a)) \<and> (\<forall>a \<in> set (ps_domains s). live (ps_heap s a))"

lemma table_entry: "table_ok s \<Longrightarrow> map_of (ps_processes s) k = Some a \<Longrightarrow> a < ps_next s \<and> mp_key (ps_heap s a) = k"
  unfolding table_ok_def by blast

lemma table_live: "table_ok s \<Longrightarrow> live (ps_heap s a) \<Longrightarrow>
    map_of (ps_processes s) (mp_key (ps_heap s a)) = Some a \<and> a \<in> set (ps_domains s)"
  unfolding table_ok_def by blast

lemma table_started: "table_ok s \<Longrightarrow> a \<in> set (ps_domains s) \<Longrightarrow> mp_started (ps_heap s a)"
  unfolding table_ok_def by blast

lemma table_fresh: "table_ok s \<Longrightarrow> mp_started (ps_heap s a) \<Longrightarrow> a < ps_next s"
  unfolding table_ok_def by (meson not_le)

lemma table_rest: "table_ok s \<Longrightarrow> map_ok (ps_processes s) \<and> int (length (ps_processes s)) \<le> maxRecords s
    \<and> distinct (ps_domains s) \<and> (ps_supervisorClosed s \<longrightarrow> ps_closed s)"
  unfolding table_ok_def by blast

lemma table_okI:
  assumes "map_ok (ps_processes s)" and "int (length (ps_processes s)) \<le> maxRecords s"
    and "distinct (ps_domains s)" and "ps_supervisorClosed s \<Longrightarrow> ps_closed s"
    and "\<And>a. mp_started (ps_heap s a) \<Longrightarrow> a < ps_next s"
    and "\<And>k a. map_of (ps_processes s) k = Some a \<Longrightarrow> a < ps_next s \<and> mp_key (ps_heap s a) = k"
    and "\<And>a. live (ps_heap s a) \<Longrightarrow> map_of (ps_processes s) (mp_key (ps_heap s a)) = Some a"
    and "\<And>a. live (ps_heap s a) \<Longrightarrow> a \<in> set (ps_domains s)"
    and "\<And>a. a \<in> set (ps_domains s) \<Longrightarrow> mp_started (ps_heap s a)"
  shows "table_ok s"
  unfolding table_ok_def using assms by (meson not_le)

lemma openStreams_cong:
  "mp_started q = mp_started p \<Longrightarrow> ob_eof (mp_stdout q) = ob_eof (mp_stdout p) \<Longrightarrow>
     ob_eof (mp_stderr q) = ob_eof (mp_stderr p) \<Longrightarrow> openStreams q = openStreams p"
  by (simp add: openStreams_def)

lemma openStreams_simps [simp]:
  "openStreams (p\<lparr>mp_state := x1\<rparr>) = openStreams p" "openStreams (p\<lparr>mp_exitCode := x2\<rparr>) = openStreams p"
  "openStreams (p\<lparr>mp_err := x3\<rparr>) = openStreams p" "openStreams (p\<lparr>mp_reason := x4\<rparr>) = openStreams p"
  "openStreams (p\<lparr>mp_stopRequested := x5\<rparr>) = openStreams p" "openStreams (p\<lparr>mp_gracefulStop := x5\<rparr>) = openStreams p"
  "openStreams (p\<lparr>mp_leaderWaited := x5\<rparr>) = openStreams p" "openStreams (p\<lparr>mp_waitErr := x6\<rparr>) = openStreams p"
  "openStreams (p\<lparr>mp_terminalRequested := x5\<rparr>) = openStreams p" "openStreams (p\<lparr>mp_drains := x7\<rparr>) = openStreams p"
  by (simp_all add: openStreams_def)

text \<open>How a record, an owner and the server may develop.\<close>

definition later :: "managedProcess \<Rightarrow> managedProcess \<Rightarrow> bool" where
  "later p q \<longleftrightarrow> mp_key q = mp_key p \<and> mp_spec q = mp_spec p \<and> mp_executionID q = mp_executionID p
     \<and> mp_started q = mp_started p \<and> mp_secretLaunch q = mp_secretLaunch p
     \<and> (mp_reason p \<noteq> REASON_UNSPECIFIED \<longrightarrow> mp_reason q = mp_reason p)
     \<and> (mp_terminalRequested p \<longrightarrow> mp_terminalRequested q \<and> mp_exitCode q = mp_exitCode p)
     \<and> (terminalState (mp_state p) \<longrightarrow> mp_state q = mp_state p)"

definition owner_later :: "managedOwner \<Rightarrow> managedOwner \<Rightarrow> bool" where
  "owner_later o1 o2 \<longleftrightarrow>
     mw_revision o1 < mw_revision o2
     \<or> mw_revision o1 = mw_revision o2 \<and> mw_routeRevision o1 < mw_routeRevision o2
     \<or> mw_revision o1 = mw_revision o2 \<and> mw_routeRevision o1 = mw_routeRevision o2
        \<and> mw_desired o2 = mw_desired o1 \<and> mw_gen o2 = mw_gen o1 \<and> mw_address o2 = mw_address o1"

definition evolves :: "ProcessServer \<Rightarrow> ProcessServer \<Rightarrow> bool" where
  "evolves s s' \<longleftrightarrow> ps_next s \<le> ps_next s' \<and> (\<forall>a < ps_next s. later (ps_heap s a) (ps_heap s' a))
     \<and> (\<forall>k ow. map_of (ps_owners s) k = Some ow \<longrightarrow> (\<exists>ow'. map_of (ps_owners s') k = Some ow' \<and> owner_later ow ow'))
     \<and> (ps_closed s \<longrightarrow> ps_closed s' \<and> ps_launches s' = ps_launches s)"

definition good :: "ProcessServer \<Rightarrow> ProcessServer \<Rightarrow> bool" where
  "good s s' \<longleftrightarrow> server_ok s' \<and> evolves s s'"

lemma later_refl [simp]: "later p p"
  by (simp add: later_def)

lemma later_trans: "later p q \<Longrightarrow> later q r \<Longrightarrow> later p r"
  unfolding later_def by auto

lemma owner_later_refl [simp]: "owner_later ow ow"
  by (simp add: owner_later_def)

lemma owner_later_trans: "owner_later a b \<Longrightarrow> owner_later b c \<Longrightarrow> owner_later a c"
  unfolding owner_later_def by auto

lemma evolves_refl [simp]: "evolves s s"
  by (simp add: evolves_def)

lemma evolves_trans:
  assumes "evolves s t" and "evolves t u"
  shows "evolves s u"
proof -
  have "later (ps_heap s a) (ps_heap u a)" if "a < ps_next s" for a
    using that assms later_trans [of "ps_heap s a" "ps_heap t a" "ps_heap u a"] by (simp add: evolves_def)
  moreover have "\<exists>ow'. map_of (ps_owners u) k = Some ow' \<and> owner_later ow ow'"
    if "map_of (ps_owners s) k = Some ow" for k ow
    using that assms owner_later_trans unfolding evolves_def by metis
  ultimately show ?thesis using assms by (auto simp: evolves_def)
qed

lemma good_refl [simp]: "good s s \<longleftrightarrow> server_ok s"
  by (simp add: good_def)

lemma good_trans: "good s t \<Longrightarrow> good t u \<Longrightarrow> good s u"
  unfolding good_def using evolves_trans by blast

lemma good_ok: "good s t \<Longrightarrow> server_ok t"
  by (simp add: good_def)

lemma good_fold:
  assumes "\<And>x t. server_ok t \<Longrightarrow> good t (f x t)" and "server_ok s"
  shows "good s (fold f xs s)"
  using assms(2)
proof (induction xs arbitrary: s)
  case (Cons x xs)
  from assms(1) [OF Cons.prems] have g: "good s (f x s)" .
  from Cons.IH [OF good_ok [OF g]] have "good (f x s) (fold f xs (f x s))" .
  with g show ?case by (auto intro: good_trans)
qed simp

section \<open>Frame lemmas\<close>

lemma modifyProcess_simps [simp]:
  "ps_heap (modifyProcess a f s) = (ps_heap s)(a := f (ps_heap s a))"
  "ps_processes (modifyProcess a f s) = ps_processes s" "ps_next (modifyProcess a f s) = ps_next s"
  "ps_owners (modifyProcess a f s) = ps_owners s" "ps_closed (modifyProcess a f s) = ps_closed s"
  "ps_domains (modifyProcess a f s) = ps_domains s" "ps_launches (modifyProcess a f s) = ps_launches s"
  "ps_supervisorClosed (modifyProcess a f s) = ps_supervisorClosed s"
  "maxRecords (modifyProcess a f s) = maxRecords s"
  by (simp_all add: modifyProcess_def maxRecords_def)

lemma send_simps [simp]:
  "ps_heap (send a g s) = ps_heap s" "ps_processes (send a g s) = ps_processes s"
  "ps_next (send a g s) = ps_next s" "ps_owners (send a g s) = ps_owners s" "ps_closed (send a g s) = ps_closed s"
  "ps_domains (send a g s) = ps_domains s" "ps_launches (send a g s) = ps_launches s"
  "ps_supervisorClosed (send a g s) = ps_supervisorClosed s" "maxRecords (send a g s) = maxRecords s"
  by (simp_all add: send_def maxRecords_def)

lemma table_ok_send [simp]: "table_ok (send a g s) \<longleftrightarrow> table_ok s"
  by (simp add: table_ok_def)

lemma send_good: "server_ok s \<Longrightarrow> good s (send a g s)"
  by (simp add: good_def server_ok_def evolves_def)

lemma server_pre_send [simp]: "server_pre b (send a g s) \<longleftrightarrow> server_pre b s"
  by (simp add: server_pre_def)

lemma evolves_send [simp]: "evolves t (send a g s) \<longleftrightarrow> evolves t s"
  by (simp add: evolves_def)

lemma ok_pre: "server_ok s \<Longrightarrow> server_pre a s"
  by (simp add: server_ok_def server_pre_def proc_ok_def)

text \<open>An update of one record that keeps its key, whether it started and whether it is live.\<close>

lemma table_modify:
  assumes "table_ok s" and "mp_key (f (ps_heap s a)) = mp_key (ps_heap s a)"
    and "mp_started (f (ps_heap s a)) = mp_started (ps_heap s a)"
    and "live (f (ps_heap s a)) \<Longrightarrow> live (ps_heap s a)"
  shows "table_ok (modifyProcess a f s)"
proof (rule table_okI)
  let ?t = "modifyProcess a f s"
  have key: "mp_key (ps_heap ?t b) = mp_key (ps_heap s b)" for b using assms(2) by simp
  have st: "mp_started (ps_heap ?t b) = mp_started (ps_heap s b)" for b using assms(3) by simp
  have lv: "live (ps_heap ?t b) \<Longrightarrow> live (ps_heap s b)" for b
    using assms(3,4) by (cases "b = a") auto
  note t = assms(1)
  show "map_of (ps_processes ?t) (mp_key (ps_heap ?t b)) = Some b" "b \<in> set (ps_domains ?t)"
    if "live (ps_heap ?t b)" for b
    unfolding key using table_live [OF t lv [OF that]] by simp_all
  show "b < ps_next ?t \<and> mp_key (ps_heap ?t b) = k" if "map_of (ps_processes ?t) k = Some b" for k b
    unfolding key using table_entry [OF t] that by simp
  show "b < ps_next ?t" if "mp_started (ps_heap ?t b)" for b
    using table_fresh [OF t] that st by simp
  show "mp_started (ps_heap ?t b)" if "b \<in> set (ps_domains ?t)" for b
    unfolding st using table_started [OF t] that by simp
qed (use table_rest [OF assms(1)] in simp_all)

lemma evolves_modify: "later (ps_heap s a) (f (ps_heap s a)) \<Longrightarrow> evolves s (modifyProcess a f s)"
  by (simp add: evolves_def)

lemma pre_modify:
  assumes "server_pre a s" and "later (ps_heap s a) (f (ps_heap s a))" and "proc_pre (f (ps_heap s a))"
  shows "server_pre a (modifyProcess a f s)"
proof -
  from assms(2) have "live (f (ps_heap s a)) \<Longrightarrow> live (ps_heap s a)" unfolding later_def by auto
  with assms table_modify [of s f a] show ?thesis by (simp add: server_pre_def later_def)
qed

lemma modify_good:
  assumes "server_ok s" and "later (ps_heap s a) (f (ps_heap s a))" and "proc_ok (f (ps_heap s a))"
    and "live (ps_heap s a) \<Longrightarrow> live (f (ps_heap s a))"
  shows "good s (modifyProcess a f s)"
  unfolding good_def server_ok_def
proof (intro conjI allI)
  have "live (f (ps_heap s a)) \<Longrightarrow> live (ps_heap s a)" using assms(2) unfolding later_def by auto
  then show "table_ok (modifyProcess a f s)"
    by (intro table_modify) (use assms(1,2) in \<open>simp_all add: server_ok_def later_def\<close>)
  show "\<forall>b\<in>set (ps_domains (modifyProcess a f s)). live (ps_heap (modifyProcess a f s) b)"
    using assms(1,4) by (auto simp: server_ok_def)
qed (use assms evolves_modify in \<open>auto simp: server_ok_def\<close>)

text \<open>An update of fields that the invariant does not read.\<close>

definition core :: "managedProcess \<Rightarrow> _" where
  "core p = ((mp_key p, mp_spec p, mp_executionID p, mp_started p, mp_secretLaunch p, mp_state p),
             (mp_exitCode p, mp_reason p, mp_gracefulStop p, mp_leaderWaited p, mp_terminalRequested p),
             (ob_eof (mp_stdout p), ob_eof (mp_stderr p), mp_drains p))"

lemma core_proc_ok: "core q = core p \<Longrightarrow> proc_ok q = proc_ok p"
  using openStreams_cong [of q p] by (simp add: core_def proc_ok_def proc_pre_def)

lemma core_later: "core q = core p \<Longrightarrow> later p q"
  by (simp add: core_def later_def)

lemma core_good:
  assumes "server_ok s" and c: "core (f (ps_heap s a)) = core (ps_heap s a)"
  shows "good s (modifyProcess a f s)"
  by (rule modify_good)
    (use assms core_later [OF c] core_proc_ok [OF c] in \<open>auto simp: server_ok_def core_def\<close>)

section \<open>Scheduling and completion\<close>

text \<open>A change of the owners and of the allocation counter alone.\<close>

definition owners_only :: "ProcessServer \<Rightarrow> ProcessServer \<Rightarrow> bool" where
  "owners_only s t \<longleftrightarrow> (\<exists>ows n. t = s\<lparr>ps_owners := ows, ps_next := n\<rparr> \<and> ps_next s \<le> n
     \<and> (\<forall>k ow. map_of (ps_owners s) k = Some ow \<longrightarrow> (\<exists>ow'. map_of ows k = Some ow' \<and> owner_later ow ow')))"

lemma owners_only_refl [simp]: "owners_only s s"
proof -
  have "s = s\<lparr>ps_owners := ps_owners s, ps_next := ps_next s\<rparr>" by simp
  then show ?thesis unfolding owners_only_def using owner_later_refl by blast
qed

lemma owners_only_table: "owners_only s t \<Longrightarrow> table_ok s \<Longrightarrow> table_ok t"
  unfolding owners_only_def
proof (elim exE conjE)
  fix ows n assume t: "t = s\<lparr>ps_owners := ows, ps_next := n\<rparr>" and n: "ps_next s \<le> n" and ok: "table_ok s"
  show "table_ok t"
    by (rule table_okI)
      (use t n table_rest [OF ok] table_live [OF ok] table_started [OF ok] in
        \<open>auto simp: maxRecords_def dest: table_fresh [OF ok] table_entry [OF ok]\<close>)
qed

lemma owners_only_frame:
  assumes "owners_only s t"
  shows "ps_heap t = ps_heap s" "ps_domains t = ps_domains s" "ps_processes t = ps_processes s"
    "ps_closed t = ps_closed s" "evolves s t"
  using assms by (auto simp: owners_only_def evolves_def)

lemma owners_only_good: "owners_only s t \<Longrightarrow> server_ok s \<Longrightarrow> good s t"
  using owners_only_table owners_only_frame by (simp add: good_def server_ok_def)

lemma setOwner_only:
  assumes "map_of (ps_owners s) k = Some ow" and "owner_later ow ow'" and "ps_next s \<le> n"
  shows "owners_only s (setOwner k ow' (s\<lparr>ps_next := n\<rparr>))"
proof -
  have "setOwner k ow' (s\<lparr>ps_next := n\<rparr>) = s\<lparr>ps_owners := mput k ow' (ps_owners s), ps_next := n\<rparr>"
    by (simp add: setOwner_def)
  moreover have "\<exists>w'. map_of (mput k ow' (ps_owners s)) k' = Some w' \<and> owner_later w w'"
    if "map_of (ps_owners s) k' = Some w" for k' w
    using that assms(1,2) by (cases "k' = k") auto
  ultimately show ?thesis unfolding owners_only_def using assms(3) by blast
qed

lemma scheduleEnsure_only:
  "map_of (ps_owners s) ownerID = Some ow \<Longrightarrow> owners_only s (scheduleManagedEnsureLocked ownerID role ow n d s)"
  unfolding scheduleManagedEnsureLocked_def Let_def
  by (rule setOwner_only [where ow = ow]) (auto simp: owner_later_def)

lemma scheduleRestart_only: "owners_only s (scheduleManagedRestartLocked now a s)"
  by (auto simp: scheduleManagedRestartLocked_def Let_def scheduleEnsure_only split: option.split)

lemma finishLocked_only:
  assumes "complete (ps_heap s a)"
  shows "owners_only (modifyProcess a (\<lambda>p. p\<lparr>mp_state := if mp_reason (ps_heap s a) = START_FAILED
            \<or> mp_reason (ps_heap s a) = WAIT_FAILED then FAILED else EXITED\<rparr>) s) (finishLocked now a s)"
  using assms by (auto simp: finishLocked_def Let_def scheduleRestart_only intro: scheduleEnsure_only split: option.split)

text \<open>The pair of calls that ends \<open>drain\<close> and \<open>finalizeWait\<close>.\<close>

lemma finish_pending: "\<not> complete (ps_heap s a) \<Longrightarrow> supervisorDone a (finishLocked now a s) = s"
  by (simp add: finishLocked_def supervisorDone_def Let_def del: de_Morgan_conj)

lemma finish_good:
  assumes pre: "server_pre a s" and st: "mp_started (ps_heap s a)"
    and grace: "mp_leaderWaited (ps_heap s a) \<and> \<not> mp_terminalRequested (ps_heap s a) \<Longrightarrow>
      mp_gracefulStop (ps_heap s a) \<and> mp_state (ps_heap s a) = STOPPING"
  shows "good s (supervisorDone a (finishLocked now a s))"
proof (cases "complete (ps_heap s a)")
  case True
  define f where "f = (\<lambda>p :: managedProcess. p\<lparr>mp_state := EXITED\<rparr>)"
  define t where "t = finishLocked now a s"
  from pre st have r: "mp_reason (ps_heap s a) \<noteq> START_FAILED" "mp_reason (ps_heap s a) \<noteq> WAIT_FAILED"
    and p: "proc_pre (ps_heap s a)" by (auto simp: server_pre_def proc_pre_def)
  from finishLocked_only [OF True, of now] r have only: "owners_only (modifyProcess a f s) t"
    by (simp add: f_def t_def)
  have l: "later (ps_heap s a) (f (ps_heap s a))" using p st by (auto simp: later_def f_def proc_pre_def)
  have q: "proc_ok (f (ps_heap s a))" using p st True by (auto simp: proc_ok_def proc_pre_def f_def)
  have tab: "table_ok (modifyProcess a f s)"
    by (rule table_modify) (use pre in \<open>auto simp: server_pre_def f_def\<close>)
  note fr = owners_only_frame [OF only]
  define u where "u = supervisorDone a t"
  have u: "u = t\<lparr>ps_domains := removeAll a (ps_domains t)\<rparr>"
    using True fr by (simp add: u_def supervisorDone_def f_def)
  have ta: "table_ok t" by (rule owners_only_table [OF only tab])
  have na: "\<not> live (ps_heap t a)" using fr by (simp add: f_def)
  have "table_ok u"
  proof (rule table_okI)
    show "b \<in> set (ps_domains u)" if "live (ps_heap u b)" for b
      using that na table_live [OF ta, of b] u by (cases "b = a") auto
  qed (use u table_rest [OF ta] table_live [OF ta] table_started [OF ta] in
        \<open>auto simp: maxRecords_def distinct_removeAll dest: table_fresh [OF ta] table_entry [OF ta]\<close>)
  moreover have "proc_ok (ps_heap u b)" for b
    using pre q fr u by (simp add: server_pre_def)
  moreover have "live (ps_heap u b)" if "b \<in> set (ps_domains u)" for b
    using pre that fr u by (auto simp: server_pre_def)
  moreover have "evolves s u"
  proof -
    have "evolves s (modifyProcess a f s)" using l by (rule evolves_modify)
    then have "evolves s t" by (rule evolves_trans) (rule fr(5))
    then show ?thesis by (simp add: u evolves_def)
  qed
  ultimately show ?thesis by (simp add: good_def server_ok_def u_def t_def)
next
  case False
  have ok: "proc_ok (ps_heap s a)" using pre grace False by (auto simp: server_pre_def proc_ok_def)
  have "live (ps_heap s a)" using pre st False by (auto simp: server_pre_def proc_pre_def)
  then have "server_ok s"
    using pre ok unfolding server_pre_def server_ok_def by metis
  then show ?thesis by (simp add: finish_pending [OF False])
qed


section \<open>Operations on one execution\<close>

lemma live_running: "proc_pre p \<Longrightarrow> live p \<Longrightarrow> mp_state p = RUNNING \<or> mp_state p = STOPPING"
  unfolding proc_pre_def by blast

lemma ok_complete: "proc_ok p \<Longrightarrow> complete p \<Longrightarrow> mp_state p = EXITED"
  unfolding proc_ok_def by blast

lemma ok_reaped: "proc_ok p \<Longrightarrow> mp_leaderWaited p \<Longrightarrow> \<not> mp_terminalRequested p \<Longrightarrow>
    mp_gracefulStop p \<and> mp_state p = STOPPING"
  unfolding proc_ok_def by blast

lemma grace_irrelevant: "proc_pre (p\<lparr>mp_gracefulStop := g\<rparr>) = proc_pre p"
  by (simp add: proc_pre_def)

lemma stopping_pre:
  assumes "proc_pre p" and "live p" and "r \<notin> {REASON_UNSPECIFIED, START_FAILED, WAIT_FAILED}"
  shows "proc_pre (p\<lparr>mp_stopRequested := True, mp_gracefulStop := g, mp_state := STOPPING, mp_reason := r\<rparr>)"
  using assms unfolding proc_pre_def by simp

lemma started_reason: "proc_pre p \<Longrightarrow> mp_started p \<Longrightarrow> mp_reason p \<noteq> START_FAILED \<and> mp_reason p \<noteq> WAIT_FAILED"
  unfolding proc_pre_def by blast

lemma recordExit_pre:
  assumes "proc_pre p" and "mp_leaderWaited p" and "\<not> mp_terminalRequested p"
  shows "proc_pre (recordExit p)" and "later p (recordExit p)" and "mp_terminalRequested (recordExit p)"
    and "mp_started (recordExit p)"
  using assms
  by (auto simp: recordExit_def proc_pre_def later_def setReasonIfNone_def split: option.splits waitError.splits)

lemma finalizeWait_good:
  assumes pre: "server_pre a s" and lw: "mp_leaderWaited (ps_heap s a)"
    and c: "complete (ps_heap s a) \<Longrightarrow> mp_state (ps_heap s a) = EXITED"
    and key: "\<not> mp_terminalRequested (ps_heap s a) \<Longrightarrow> map_of (ps_processes s) key = Some a"
    and dom: "a \<in> set (ps_domains s) \<Longrightarrow> live (ps_heap s a)"
  shows "good s (finalizeWait now key a s)"
proof (cases "mp_terminalRequested (ps_heap s a)")
  case True
  then have "proc_ok (ps_heap s a)" using pre c by (auto simp: server_pre_def proc_ok_def)
  then have "server_ok s" using pre dom unfolding server_pre_def server_ok_def by metis
  then show ?thesis using True by (simp add: finalizeWait_def send_good)
next
  case False
  define t where "t = send a Force s"
  define u where "u = modifyProcess a recordExit t"
  have p: "proc_pre (ps_heap s a)" using pre by (simp add: server_pre_def)
  note r = recordExit_pre [OF p lw False]
  have "server_pre a u"
    unfolding u_def by (rule pre_modify) (use pre r in \<open>simp_all add: t_def\<close>)
  then have "good u (supervisorDone a (finishLocked now a u))"
    by (rule finish_good) (use r in \<open>simp_all add: u_def t_def\<close>)
  moreover have "evolves s u"
    using evolves_modify [of t a recordExit] r(2) by (simp add: u_def t_def evolves_def)
  ultimately have "good s (supervisorDone a (finishLocked now a u))"
    unfolding good_def using evolves_trans by blast
  moreover have "finalizeWait now key a s = supervisorDone a (finishLocked now a u)"
    using key False by (simp add: finalizeWait_def u_def t_def)
  ultimately show ?thesis by simp
qed

lemma good_after: "evolves s t \<Longrightarrow> good t u \<Longrightarrow> good s u"
  unfolding good_def using evolves_trans by blast

lemma ok_table: "server_ok s \<Longrightarrow> table_ok s"
  by (simp add: server_ok_def)

lemma okD:
  assumes "server_ok s"
  shows "proc_ok (ps_heap s a)" "proc_pre (ps_heap s a)"
    "a \<in> set (ps_domains s) \<Longrightarrow> live (ps_heap s a)"
  using assms by (auto simp: server_ok_def proc_ok_def)

text \<open>Every caller of \<open>finalizeWait\<close> first updates the record of a live execution.\<close>

lemma update_finalize_good:
  assumes ok: "server_ok s" and l: "live (ps_heap s a)" and k: "key = mp_key (ps_heap s a)"
    and q: "q = f (ps_heap s a)" "later (ps_heap s a) q" "proc_pre q" "mp_leaderWaited q" "live q"
      "complete q \<Longrightarrow> mp_state q = EXITED"
  shows "good s (finalizeWait now key a (modifyProcess a f s))"
    and "good s (finalizeWait now key a (send a g (modifyProcess a f s)))"
proof -
  let ?t = "modifyProcess a f s"
  have pre: "server_pre a ?t" by (rule pre_modify) (use ok_pre [OF ok] q in simp_all)
  have ev: "evolves s ?t" by (rule evolves_modify) (use q in simp)
  have key: "map_of (ps_processes ?t) key = Some a" using table_live [OF ok_table [OF ok] l] k by simp
  have "good ?t (finalizeWait now key a ?t)"
    by (rule finalizeWait_good) (use pre q key in auto)
  then show "good s (finalizeWait now key a ?t)" by (rule good_after [OF ev])
  have "good (send a g ?t) (finalizeWait now key a (send a g ?t))"
    by (rule finalizeWait_good) (use pre q key in auto)
  then show "good s (finalizeWait now key a (send a g ?t))" by (rule good_after [rotated]) (use ev in simp)
qed

lemma wait_exit_good:
  assumes ok: "server_ok s" and st: "mp_started (ps_heap s a)" and nw: "\<not> mp_leaderWaited (ps_heap s a)"
  shows "good s (wait_exit now (mp_key (ps_heap s a)) a e s)"
proof -
  define f where "f = (\<lambda>p :: managedProcess. (setReasonIfNone REASON_EXITED p)\<lparr>mp_leaderWaited := True, mp_waitErr := e\<rparr>)"
  note p = okD [OF ok, of a]
  have l: "live (ps_heap s a)" using p(2) st nw by (auto simp: proc_pre_def)
  have key: "map_of (ps_processes s) (mp_key (ps_heap s a)) = Some a" using table_live [OF ok_table [OF ok] l] by simp
  have q: "later (ps_heap s a) (f (ps_heap s a))" "proc_pre (f (ps_heap s a))" "mp_leaderWaited (f (ps_heap s a))"
    "live (f (ps_heap s a))" "\<not> complete (f (ps_heap s a))"
    using p(2) st nw l by (auto simp: f_def setReasonIfNone_def later_def proc_pre_def)
  show ?thesis
  proof (cases "mp_gracefulStop (f (ps_heap s a)) \<and> mp_state (f (ps_heap s a)) = STOPPING")
    case True
    have "good s (modifyProcess a f s)"
      by (rule modify_good [of s a f, OF ok q(1)]) (use q True in \<open>auto simp: proc_ok_def\<close>)
    then show ?thesis using True key by (simp add: wait_exit_def Let_def f_def)
  next
    case False
    have "good s (finalizeWait now (mp_key (ps_heap s a)) a (modifyProcess a f s))"
      by (rule update_finalize_good(1) [OF ok l refl refl]) (use q in simp_all)
    moreover have "wait_exit now (mp_key (ps_heap s a)) a e s
        = finalizeWait now (mp_key (ps_heap s a)) a (modifyProcess a f s)"
      using False key by (auto simp: wait_exit_def Let_def f_def)
    ultimately show ?thesis by simp
  qed
qed

lemma drain_keeps_eof [simp]: "ob_eof (drain cap chunks b) = ob_eof b"
  by (induction chunks arbitrary: b) (auto simp: drain_def write_output_def Let_def)

lemma drain_write_good: "server_ok s \<Longrightarrow> good s (drain_write a isStdout c s)"
  unfolding drain_write_def by (rule core_good) (auto simp: core_def onStream_def)

lemma drain_end_good:
  assumes ok: "server_ok s" and st: "mp_started (ps_heap s a)"
    and eof: "\<not> ob_eof (if isStdout then mp_stdout (ps_heap s a) else mp_stderr (ps_heap s a))"
  shows "good s (drain_end now a isStdout s)"
proof -
  define f where "f = (\<lambda>p. (onStream isStdout (ob_eof_update (\<lambda>_. True)) p)\<lparr>mp_drains := mp_drains p - 1\<rparr>)"
  note p = okD [OF ok, of a]
  have nc: "\<not> complete (ps_heap s a)"
    using p(2) st eof by (cases isStdout) (auto simp: proc_pre_def openStreams_def of_bool_def split: if_splits)
  have l: "later (ps_heap s a) (f (ps_heap s a))" by (auto simp: later_def f_def onStream_def)
  have q: "proc_pre (f (ps_heap s a))"
    using p(2) st eof nc by (cases isStdout) (auto simp: proc_pre_def f_def onStream_def openStreams_def)
  have pre: "server_pre a (modifyProcess a f s)"
    by (rule pre_modify [of a s f, OF ok_pre [OF ok] l q])
  have "good (modifyProcess a f s) (supervisorDone a (finishLocked now a (modifyProcess a f s)))"
    by (rule finish_good [OF pre]) (use p(1) st in \<open>cases isStdout; simp add: f_def onStream_def proc_ok_def\<close>)+
  then show ?thesis unfolding drain_end_def f_def [symmetric] by (rule good_after [OF evolves_modify [of s a f, OF l]])
qed

lemma requestTermination_good:
  assumes ok: "server_ok s" and r: "reason \<notin> {REASON_UNSPECIFIED, START_FAILED, WAIT_FAILED}"
  shows "good s (requestTermination key a reason force s)"
proof (cases "mp_state (ps_heap s a) = RUNNING")
  case True
  define f where "f = (\<lambda>p. setReasonIfNone reason (p\<lparr>mp_stopRequested := True, mp_state := STOPPING\<rparr>))"
  note p = okD [OF ok, of a]
  have "good s (modifyProcess a f s)"
    by (rule modify_good [OF ok])
      (use p(1) r True in \<open>auto simp: f_def setReasonIfNone_def later_def proc_ok_def proc_pre_def split: if_splits\<close>)
  then have "good s (send a g (modifyProcess a f s))" for g by (meson good_ok good_trans send_good)
  then show ?thesis using ok by (simp add: requestTermination_def f_def)
qed (use ok in \<open>simp add: requestTermination_def\<close>)

lemma timeoutTimer_good: "server_ok s \<Longrightarrow> good s (timeoutTimer key a s)"
  by (simp add: timeoutTimer_def requestTermination_good)

lemma shutdownManaged_good:
  assumes ok: "server_ok s" and k: "key = mp_key (ps_heap s a)"
  shows "good s (shutdownManaged now key a s)"
proof (cases "map_of (ps_processes s) key \<noteq> Some a \<or> mp_terminalRequested (ps_heap s a) \<or> \<not> mp_started (ps_heap s a)")
  case True
  define f where "f = (\<lambda>p. (stopIfRunning (setReasonIfNone DAEMON_CLOSED p))\<lparr>mp_gracefulStop := False\<rparr>)"
  note p = okD [OF ok, of a]
  have "good s (modifyProcess a f s)" if "\<not> mp_started (ps_heap s a)"
    by (rule modify_good [OF ok])
      (use p(1) that in \<open>auto simp: f_def setReasonIfNone_def stopIfRunning_def later_def proc_ok_def proc_pre_def\<close>)
  moreover have "\<not> mp_leaderWaited (f (ps_heap s a))" if "\<not> mp_started (ps_heap s a)"
    using p(2) that by (auto simp: proc_pre_def f_def stopIfRunning_def setReasonIfNone_def)
  ultimately show ?thesis using True ok by (auto simp: shutdownManaged_def Let_def f_def)
next
  case False
  define f where "f = (\<lambda>p. (stopIfRunning (setReasonIfNone DAEMON_CLOSED p))\<lparr>mp_gracefulStop := False\<rparr>)"
  note p = okD [OF ok, of a]
  have l: "live (ps_heap s a)" using p(2) False by (auto simp: proc_pre_def)
  have q: "later (ps_heap s a) (f (ps_heap s a))" "proc_pre (f (ps_heap s a))" "live (f (ps_heap s a))"
    "\<not> complete (f (ps_heap s a))" "mp_leaderWaited (f (ps_heap s a)) = mp_leaderWaited (ps_heap s a)"
    using p(2) False l by (auto simp: f_def stopIfRunning_def setReasonIfNone_def later_def proc_pre_def)
  have "good s (modifyProcess a f s)" if "\<not> mp_leaderWaited (ps_heap s a)"
    by (rule modify_good [of s a f, OF ok q(1)]) (use q that in \<open>auto simp: proc_ok_def proc_pre_def\<close>)
  moreover have "good s (finalizeWait now key a (modifyProcess a f s))" if "mp_leaderWaited (ps_heap s a)"
    by (rule update_finalize_good(1) [OF ok l k refl]) (use q that in simp_all)
  moreover have "shutdownManaged now key a s = (if mp_leaderWaited (ps_heap s a)
      then finalizeWait now key a (modifyProcess a f s) else modifyProcess a f s)"
    using False q(5) by (simp add: shutdownManaged_def Let_def f_def)
  ultimately show ?thesis by simp
qed

lemma graceTimer_good:
  assumes ok: "server_ok s" and st: "mp_started (ps_heap s a)"
  shows "good s (graceTimer now (mp_key (ps_heap s a)) a s)"
proof -
  define f where "f = (\<lambda>p :: managedProcess. p\<lparr>mp_gracefulStop := False\<rparr>)"
  define key where "key = mp_key (ps_heap s a)"
  define forceNow where
    "forceNow \<longleftrightarrow> map_of (ps_processes s) key = Some a \<and> mp_gracefulStop (ps_heap s a) \<and> mp_state (ps_heap s a) = STOPPING"
  note p = okD [OF ok, of a]
  have f: "later (ps_heap s a) (f (ps_heap s a))" "proc_pre (f (ps_heap s a))" "live (f (ps_heap s a)) = live (ps_heap s a)"
    "complete (f (ps_heap s a)) \<Longrightarrow> mp_state (f (ps_heap s a)) = EXITED"
    using p(2) grace_irrelevant [where p = "ps_heap s a" and g = False] ok_complete [OF p(1)] by (simp_all add: f_def later_def)
  have pend: "forceNow" if "mp_leaderWaited (ps_heap s a)" "\<not> mp_terminalRequested (ps_heap s a)"
    using that p(1) st table_live [OF ok_table [OF ok], of a] by (auto simp: forceNow_def proc_ok_def key_def)
  have m: "good s (modifyProcess a f s)" if "\<not> (mp_leaderWaited (ps_heap s a) \<and> \<not> mp_terminalRequested (ps_heap s a))"
    by (rule modify_good [of s a f, OF ok f(1)]) (use f that p(1) in \<open>auto simp: proc_ok_def f_def\<close>)
  have fin: "good s (finalizeWait now key a (send a Force (modifyProcess a f s)))"
    if "forceNow" "mp_leaderWaited (ps_heap s a)"
    by (rule update_finalize_good(2) [OF ok _ key_def refl]) (use f that st in \<open>auto simp: forceNow_def f_def\<close>)
  have sm: "good s (send a Force (modifyProcess a f s))" if "\<not> mp_leaderWaited (ps_heap s a)"
    using m that by (meson good_ok good_trans send_good)
  have "graceTimer now key a s = (if forceNow then
      (if mp_leaderWaited (ps_heap s a) then finalizeWait now key a (send a Force (modifyProcess a f s))
       else send a Force (modifyProcess a f s)) else modifyProcess a f s)"
    unfolding graceTimer_def forceNow_def f_def Let_def by simp
  then show ?thesis unfolding key_def [symmetric]
    by (cases forceNow; cases "mp_leaderWaited (ps_heap s a)") (use m fin sm pend in \<open>simp_all, blast\<close>)
qed

lemma unmanage_core: "core (unmanage p) = core p"
  by (simp add: unmanage_def core_def)

lemma markStop_pre:
  assumes "proc_ok p" and "live p" and "mode \<in> {STOP_MODE_GRACEFUL, STOP_MODE_INTERRUPT, STOP_MODE_TERMINATE, STOP_MODE_FORCE}"
  shows "later p (markStop mode p)" and "proc_pre (markStop mode p)" and "live (markStop mode p)"
    and "mp_leaderWaited (markStop mode p) = mp_leaderWaited p" and "\<not> complete (markStop mode p)"
    and "mode \<notin> {STOP_MODE_TERMINATE, STOP_MODE_FORCE} \<or> \<not> mp_leaderWaited p \<Longrightarrow> proc_ok (markStop mode p)"
proof -
  define r where "r = (if mp_reason p = REASON_UNSPECIFIED then stopReason mode else mp_reason p)"
  define g where "g = mp_gracefulStop (markStop mode p)"
  have st: "mp_state p = RUNNING \<or> mp_state p = STOPPING" by (rule live_running [OF _ assms(2)]) (use assms(1) in \<open>simp add: proc_ok_def\<close>)
  have eq: "markStop mode p = p\<lparr>mp_stopRequested := True, mp_gracefulStop := g, mp_state := STOPPING, mp_reason := r\<rparr>"
    using st by (cases p) (auto simp: markStop_def Let_def setReasonIfNone_def stopIfRunning_def r_def g_def)
  have r: "r \<notin> {REASON_UNSPECIFIED, START_FAILED, WAIT_FAILED}" "mp_reason p \<noteq> REASON_UNSPECIFIED \<Longrightarrow> r = mp_reason p"
    using assms(2,3) started_reason [of p] assms(1) by (auto simp: r_def proc_ok_def)
  have nc: "\<not> complete p" using assms(1) st by (auto simp: proc_ok_def)
  show "later p (markStop mode p)" using r st by (auto simp: eq later_def)
  have "proc_pre p" using assms(1) by (simp add: proc_ok_def)
  then show pre: "proc_pre (markStop mode p)"
    using assms(2) r(1) unfolding eq by (rule stopping_pre)
  show "live (markStop mode p)" using assms(2) by (simp add: eq)
  show "mp_leaderWaited (markStop mode p) = mp_leaderWaited p" "\<not> complete (markStop mode p)"
    using nc by (simp_all add: eq)
  show "proc_ok (markStop mode p)" if h: "mode \<notin> {STOP_MODE_TERMINATE, STOP_MODE_FORCE} \<or> \<not> mp_leaderWaited p"
  proof -
    have "g" if "mp_leaderWaited p" "\<not> mp_terminalRequested p"
      using that h assms(1) by (auto simp: g_def markStop_def Let_def setReasonIfNone_def stopIfRunning_def proc_ok_def)
    then show ?thesis using pre nc by (auto simp: eq proc_ok_def)
  qed
qed

text \<open>The state that \<open>Stop\<close> leaves for a live execution.\<close>

lemma stop_live_good:
  assumes ok: "server_ok s" and l: "live (ps_heap s a)"
    and m: "mode \<in> {STOP_MODE_GRACEFUL, STOP_MODE_INTERRUPT, STOP_MODE_TERMINATE, STOP_MODE_FORCE}"
  shows "mode \<in> {STOP_MODE_TERMINATE, STOP_MODE_FORCE} \<Longrightarrow> mp_leaderWaited (ps_heap s a) \<Longrightarrow>
      good s (finalizeWait now (mp_key (ps_heap s a)) a (send a g (modifyProcess a (markStop mode) s)))"
    and "mode \<notin> {STOP_MODE_TERMINATE, STOP_MODE_FORCE} \<or> \<not> mp_leaderWaited (ps_heap s a) \<Longrightarrow>
      good s (modifyProcess a (markStop mode) s) \<and> good s (send a g (modifyProcess a (markStop mode) s))"
proof -
  note q = markStop_pre [OF okD(1) [OF ok, of a] l m]
  show "good s (finalizeWait now (mp_key (ps_heap s a)) a (send a g (modifyProcess a (markStop mode) s)))"
    if "mp_leaderWaited (ps_heap s a)"
    by (rule update_finalize_good(2) [OF ok l refl refl]) (use q that in simp_all)
  show "good s (modifyProcess a (markStop mode) s) \<and> good s (send a g (modifyProcess a (markStop mode) s))"
    if h: "mode \<notin> {STOP_MODE_TERMINATE, STOP_MODE_FORCE} \<or> \<not> mp_leaderWaited (ps_heap s a)"
  proof -
    have "good s (modifyProcess a (markStop mode) s)"
      by (rule modify_good [of s a "markStop mode", OF ok q(1) q(6) [OF h]]) (use q(3) in simp)
    then show ?thesis by (meson good_ok good_trans send_good)
  qed
qed

lemma Stop_good:
  assumes ok: "server_ok s"
  shows "good s (snd (Stop now keyRequest reqMode s))"
proof (cases "requestKey keyRequest")
  case (Inr k)
  define mode where "mode = (if reqMode = STOP_MODE_UNSPECIFIED then STOP_MODE_GRACEFUL else reqMode)"
  show ?thesis
  proof (cases "mode \<in> {STOP_MODE_GRACEFUL, STOP_MODE_INTERRUPT, STOP_MODE_TERMINATE, STOP_MODE_FORCE}
      \<and> map_of (ps_processes s) k \<noteq> None")
    case True
    then obtain a where a: "map_of (ps_processes s) k = Some a" by auto
    define s1 where "s1 = modifyProcess a unmanage s"
    have g1: "good s s1" unfolding s1_def by (rule core_good [of s unmanage a, OF ok unmanage_core])
    have k: "k = mp_key (ps_heap s1 a)"
      using table_entry [OF ok_table [OF good_ok [OF g1]], of k a] a by (simp add: s1_def)
    note g = stop_live_good [OF good_ok [OF g1], of a mode, folded k]
    let ?t = "snd (Stop now keyRequest reqMode s)"
    have "good s1 ?t"
    proof (cases "live (ps_heap s1 a)")
      case live: True
      have "mp_leaderWaited (ps_heap (modifyProcess a (markStop mode) s1) a) = mp_leaderWaited (ps_heap s1 a)"
        using markStop_pre(4) [OF okD(1) [OF good_ok [OF g1], of a] live] True by simp
      with g [OF live] True show ?thesis
        using live a unfolding Stop_def Inr sum.case mode_def [symmetric] Let_def s1_def [symmetric]
        by (auto simp: s1_def [symmetric])
    next
      case False
      then show ?thesis using a True good_ok [OF g1]
        unfolding Stop_def Inr sum.case mode_def [symmetric] Let_def by (auto simp: s1_def [symmetric])
    qed
    with g1 show ?thesis by (rule good_trans)
  qed (use ok Inr in \<open>auto simp: Stop_def Let_def mode_def\<close>)
qed (use ok in \<open>simp add: Stop_def\<close>)

section \<open>Launching\<close>

lemma newProcess_ok:
  "proc_ok (newProcess key spec i sl)" "\<not> live (newProcess key spec i sl)" "\<not> mp_started (newProcess key spec i sl)"
  by (simp_all add: proc_ok_def proc_pre_def newProcess_def openStreams_def)

lemma launched_ok:
  "proc_ok ((newProcess key spec i sl)\<lparr>mp_started := True, mp_state := RUNNING, mp_drains := 2\<rparr>)"
  "proc_ok ((newProcess key spec i sl)\<lparr>mp_state := FAILED, mp_err := e, mp_reason := START_FAILED,
      mp_stdout := emptyBuffer\<lparr>ob_eof := True\<rparr>, mp_stderr := emptyBuffer\<lparr>ob_eof := True\<rparr>\<rparr>)"
  by (simp_all add: proc_ok_def proc_pre_def newProcess_def openStreams_def emptyBuffer_def)

text \<open>A record is placed at the next address; \<open>pub\<close> says whether it enters the table.\<close>

lemma place_good:
  assumes ok: "server_ok s" and new: "map_of (ps_processes s) key = None"
    and q: "proc_ok q" "mp_key q = key" "live q \<Longrightarrow> pub" "mp_started q = live q"
    and room: "pub \<Longrightarrow> int (length (ps_processes s)) < maxRecords s" and open_: "pub \<Longrightarrow> \<not> ps_closed s"
    and t: "ps_heap t = (ps_heap s)(ps_next s := q)" "ps_next t = Suc (ps_next s)"
      "ps_processes t = (if pub then mput key (ps_next s) (ps_processes s) else ps_processes s)"
      "ps_domains t = (if live q then ps_next s # ps_domains s else ps_domains s)"
      "ps_owners t = ps_owners s" "ps_closed t = ps_closed s" "ps_supervisorClosed t = ps_supervisorClosed s"
      "maxRecords t = maxRecords s" "pub \<or> ps_launches t = ps_launches s"
  shows "good s t"
proof -
  note tab = ok_table [OF ok]
  have ns: "\<not> mp_started (ps_heap s (ps_next s))" using table_fresh [OF tab] by blast
  then have nd: "ps_next s \<notin> set (ps_domains s)" using table_started [OF tab] by blast
  have "table_ok t"
  proof (rule table_okI)
    show "map_ok (ps_processes t)" "distinct (ps_domains t)" "ps_supervisorClosed t \<Longrightarrow> ps_closed t"
      using table_rest [OF tab] nd by (simp_all add: t)
    show "int (length (ps_processes t)) \<le> maxRecords t"
      using table_rest [OF tab] room new by (cases pub) (auto simp: t length_mput)
    show "b < ps_next t" if "mp_started (ps_heap t b)" for b
      using that table_fresh [OF tab, of b] by (cases "b = ps_next s") (auto simp: t)
    show "b < ps_next t \<and> mp_key (ps_heap t b) = k" if "map_of (ps_processes t) k = Some b" for k b
      using that q(2) table_entry [OF tab, of k b] by (cases "pub \<and> k = key") (auto simp: t split: if_splits)
    show "map_of (ps_processes t) (mp_key (ps_heap t b)) = Some b" if "live (ps_heap t b)" for b
    proof (cases "b = ps_next s")
      case False
      then have "live (ps_heap s b)" using that by (simp add: t)
      from table_live [OF tab this] new False show ?thesis by (auto simp: t)
    qed (use that q in \<open>auto simp: t\<close>)
    show "b \<in> set (ps_domains t)" if "live (ps_heap t b)" for b
      using that table_live [OF tab, of b] by (cases "b = ps_next s") (auto simp: t)
    show "mp_started (ps_heap t b)" if "b \<in> set (ps_domains t)" for b
      using that table_started [OF tab, of b] q(4) nd by (cases "b = ps_next s") (auto simp: t split: if_splits)
  qed
  moreover have "proc_ok (ps_heap t b)" for b using okD(1) [OF ok, of b] q(1) by (simp add: t)
  moreover have "live (ps_heap t b)" if "b \<in> set (ps_domains t)" for b
    using that okD(3) [OF ok, of b] nd by (cases "b = ps_next s") (auto simp: t split: if_splits)
  moreover have "evolves s t" using t(9) open_ by (cases pub) (auto simp: evolves_def t)
  ultimately show ?thesis by (simp add: good_def server_ok_def)
qed

lemma launchProcess_good:
  assumes ok: "server_ok s" and new: "map_of (ps_processes s) key = None"
    and room: "int (length (ps_processes s)) < maxRecords s" and op: "\<not> ps_closed s"
  shows "good s (snd (launchProcess key spec secretEnv i sl startErr s))"
proof (cases "ps_supervisorClosed s")
  case True
  show ?thesis
    by (rule place_good [OF ok new newProcess_ok(1), where pub = False and key1 = key])
      (use True newProcess_ok in \<open>auto simp: launchProcess_def Let_def newProcess_def maxRecords_def\<close>)
next
  case False
  show ?thesis
  proof (cases startErr)
    case None
    show ?thesis
      by (rule place_good [OF ok new launched_ok(1), where pub = True and key1 = key])
        (use False None op room in \<open>auto simp: launchProcess_def Let_def newProcess_def maxRecords_def\<close>)
  next
    case (Some e)
    show ?thesis
      by (rule place_good [OF ok new launched_ok(2), where pub = True and key1 = key])
        (use False Some op room in \<open>auto simp: launchProcess_def Let_def newProcess_def maxRecords_def\<close>)
  qed
qed

lemma start_good: "server_ok s \<Longrightarrow> good s (snd (start_process key spec secretEnv sl l s))"
  unfolding start_process_def
  by (auto intro!: launchProcess_good split: sum.split option.split)

lemma start_owners [simp]:
  "ps_owners (snd (start_process key spec secretEnv sl l s)) = ps_owners s"
  "ps_closed (snd (start_process key spec secretEnv sl l s)) = ps_closed s"
  by (auto simp: start_process_def launchProcess_def Let_def split: sum.split option.split)

text \<open>Only terminal records are removed.\<close>

lemma remove_good:
  assumes ok: "server_ok s" and d: "\<And>a. map_of (ps_processes s) key = Some a \<Longrightarrow> \<not> live (ps_heap s a)"
  shows "good s (s\<lparr>ps_processes := mdel key (ps_processes s)\<rparr>)"
proof -
  note tab = ok_table [OF ok]
  let ?t = "s\<lparr>ps_processes := mdel key (ps_processes s)\<rparr>"
  have "length (mdel key (ps_processes s)) \<le> length (ps_processes s)" by (simp add: mdel_def)
  then have len: "int (length (mdel key (ps_processes s))) \<le> maxRecords s" using table_rest [OF tab] by linarith
  have "table_ok ?t"
  proof (rule table_okI)
    show "map_of (ps_processes ?t) (mp_key (ps_heap ?t b)) = Some b" if "live (ps_heap ?t b)" for b
      using table_live [OF tab, of b] that d [of b] by auto
    show "b < ps_next ?t \<and> mp_key (ps_heap ?t b) = k" if "map_of (ps_processes ?t) k = Some b" for k b
      using table_entry [OF tab, of k b] that by (auto split: if_splits)
    show "int (length (ps_processes ?t)) \<le> maxRecords ?t" using len by (simp add: maxRecords_def split: if_splits)
  qed (use table_rest [OF tab] table_live [OF tab] table_started [OF tab] in
        \<open>auto dest: table_fresh [OF tab]\<close>)
  then show ?thesis using ok by (simp add: good_def server_ok_def evolves_def)
qed

lemma adopt_good: "server_ok s \<Longrightarrow> good s (adoptManaged now gen attempt a s)"
proof -
  assume ok: "server_ok s"
  define f where "f = (\<lambda>p :: managedProcess. p\<lparr>mp_managed := True, mp_managedGeneration := gen,
    mp_restartAttempt := attempt, mp_startedAt := now\<rparr>)"
  have "good s (modifyProcess a f s)"
    by (rule core_good [of s f a, OF ok]) (simp add: core_def f_def)
  moreover have "adoptManaged now gen attempt a s = modifyProcess a f s
      \<or> adoptManaged now gen attempt a s = scheduleManagedRestartLocked now a (modifyProcess a f s)"
    by (auto simp: adoptManaged_def Let_def f_def)
  ultimately show ?thesis
    using owners_only_good [OF scheduleRestart_only good_ok] good_trans by metis
qed

lemma ensure_good:
  assumes ok: "server_ok s"
  shows "good s (ensureManagedUnderReconcile now ownerID role gen attempt l s)"
proof -
  define key where "key = (ownerID, role)"
  define s0 where "s0 = s\<lparr>ps_processes := mdel key (ps_processes s)\<rparr>"
  let ?e = "ensureManagedUnderReconcile now ownerID role gen attempt l s"
  show ?thesis
  proof (cases "map_of (ps_owners s) ownerID")
    case (Some ow)
    show ?thesis
    proof (cases "map_of (mw_desired ow) role")
      case spec: (Some spec)
      define keep where "keep \<longleftrightarrow> (case map_of (ps_processes s) key of None \<Rightarrow> False
         | Some old \<Rightarrow> (mp_managedSuppressed (ps_heap s old) \<and> mp_managedGeneration (ps_heap s old) = gen)
              \<or> \<not> terminalState (mp_state (ps_heap s old)))"
      obtain r s2 where r: "start_process (Some key) (Some spec) [] False l s0 = (r, s2)" by (meson surj_pair)
      have e: "?e = (if ps_closed s \<or> mw_gen ow \<noteq> gen \<or> keep then s
          else case map_of (ps_owners s2) ownerID of None \<Rightarrow> s2
          | Some cur \<Rightarrow> (case r of
              Inl _ \<Rightarrow> if mw_address cur = mw_address ow \<and> mw_gen cur = gen \<and> map_of (mw_desired cur) role \<noteq> None \<and> \<not> ps_closed s2
                then scheduleManagedEnsureLocked ownerID role cur (attempt + 1)
                       (managedRestartDelay (ps_restartInitial s2) (ps_restartMax s2) attempt) s2
                else s2
            | Inr _ \<Rightarrow> (case map_of (ps_processes s2) key of None \<Rightarrow> s2
                | Some a \<Rightarrow> if mw_address cur = mw_address ow \<and> mw_gen cur = gen \<and> specDeepEqual (mp_spec (ps_heap s2 a)) spec
                    then adoptManaged now gen attempt a s2 else s2)))"
        unfolding ensureManagedUnderReconcile_def Some spec option.case Let_def
          key_def [symmetric] s0_def [symmetric] keep_def [symmetric] r prod.case ..
      have g2: "good s s2" if "\<not> keep"
      proof -
        have "good s s0" unfolding s0_def
          by (rule remove_good [OF ok]) (use that in \<open>auto simp: keep_def\<close>)
        moreover from start_good [OF good_ok [OF this], of "Some key" "Some spec" "[]" False l]
        have "good s0 s2" by (simp add: r)
        ultimately show ?thesis by (rule good_trans)
      qed
      have sch: "good s (scheduleManagedEnsureLocked ownerID role cur n d s2)"
        if "\<not> keep" "map_of (ps_owners s2) ownerID = Some cur" for cur n d
        by (rule good_trans [OF g2 [OF that(1)]])
          (rule owners_only_good [OF scheduleEnsure_only [OF that(2)] good_ok [OF g2 [OF that(1)]]])
      have ad: "good s (adoptManaged now gen attempt a s2)" if "\<not> keep" for a
        using good_trans [OF g2 [OF that] adopt_good [OF good_ok [OF g2 [OF that]]]] .
      show ?thesis unfolding e using ok g2 sch ad by (auto split: option.split sum.split)
    qed (use ok Some in \<open>simp add: ensureManagedUnderReconcile_def\<close>)
  qed (use ok in \<open>simp add: ensureManagedUnderReconcile_def\<close>)
qed

section \<open>Intents and shutdown\<close>

lemma restartTimer_good:
  assumes ok: "server_ok s"
  shows "good s (restartTimerFires now ownerID role owner timer busy l s)"
proof (cases "timerValid ownerID role owner timer s")
  case (Some ct)
  obtain current t where ct: "ct = (current, t)" by (meson surj_pair)
  with Some have cur: "map_of (ps_owners s) ownerID = Some current"
    by (auto simp: timerValid_def split: option.splits if_splits)
  define s1 where "s1 = setOwner ownerID (current\<lparr>mw_restarts := mdel role (mw_restarts current)\<rparr>) (s\<lparr>ps_next := ps_next s\<rparr>)"
  have "owners_only s s1" unfolding s1_def
    by (rule setOwner_only [OF cur]) (auto simp: owner_later_def)
  then have g: "good s s1" using ok by (rule owners_only_good)
  have e: "good s (ensureManagedUnderReconcile now ownerID role (mw_gen current) (rt_attempt t) l s1)"
    using good_trans [OF g ensure_good [OF good_ok [OF g]]] .
  have b: "good s (scheduleManagedEnsureLocked ownerID role current (rt_attempt t) (ps_restartInitial s) s)"
    by (rule owners_only_good [OF scheduleEnsure_only [OF cur] ok])
  show ?thesis using e b by (simp add: restartTimerFires_def Some ct s1_def)
qed (use ok in \<open>simp add: restartTimerFires_def\<close>)

lemma regenerate_core: "core (regenerate desired gen role p) = core p"
  by (simp add: regenerate_def core_def)

text \<open>The request is newer than what the owner accepted before.\<close>

definition newer :: "reconcileRequest \<Rightarrow> ProcessServer \<Rightarrow> bool" where
  "newer req s \<longleftrightarrow> (case map_of (ps_owners s) (rq_OwnerId req) of
       None \<Rightarrow> True
     | Some ow \<Rightarrow> mw_revision ow < rq_IntentRevision req
         \<or> (mw_revision ow = rq_IntentRevision req \<and> mw_routeRevision ow < rq_RouteRevision req))"

lemma newOwner_good:
  assumes ok: "server_ok s" and n: "newer req s"
    and ow: "mw_revision ow = rq_IntentRevision req" "mw_routeRevision ow = rq_RouteRevision req"
  shows "good s (setOwner (rq_OwnerId req) ow (s\<lparr>ps_next := Suc (ps_next s)\<rparr>))"
proof (cases "map_of (ps_owners s) (rq_OwnerId req)")
  case None
  let ?t = "setOwner (rq_OwnerId req) ow (s\<lparr>ps_next := Suc (ps_next s)\<rparr>)"
  have "?t = s\<lparr>ps_owners := mput (rq_OwnerId req) ow (ps_owners s), ps_next := Suc (ps_next s)\<rparr>"
    by (simp add: setOwner_def)
  moreover have "\<exists>w'. map_of (mput (rq_OwnerId req) ow (ps_owners s)) k = Some w' \<and> owner_later w w'"
    if "map_of (ps_owners s) k = Some w" for k w
    using that None by (cases "k = rq_OwnerId req") auto
  ultimately have "owners_only s ?t" unfolding owners_only_def using le_SucI by blast
  then show ?thesis using ok by (rule owners_only_good)
next
  case (Some old)
  then have "owner_later old ow" using n ow by (auto simp: newer_def owner_later_def)
  then show ?thesis using owners_only_good [OF setOwner_only [OF Some] ok] by (simp add: le_SucI)
qed

lemma acceptIntent_good:
  assumes ok: "server_ok s" and n: "newer req s"
  shows "good s (snd (acceptIntent now launches req desired s))"
proof -
  define gen where "gen = (case map_of (ps_owners s) (rq_OwnerId req) of None \<Rightarrow> 1 | Some ow \<Rightarrow> mw_gen ow + 1)"
  define owner where "owner = \<lparr>mw_address = ps_next s, mw_revision = rq_IntentRevision req,
     mw_routeRevision = rq_RouteRevision req, mw_desired = desired, mw_restarts = [], mw_gen = gen\<rparr>"
  define s1 where "s1 = setOwner (rq_OwnerId req) owner (s\<lparr>ps_next := Suc (ps_next s)\<rparr>)"
  define s2 where "s2 = fold (\<lambda>(role, a). modifyProcess a (regenerate desired gen role)) (ownedRecords (rq_OwnerId req) s1) s1"
  define s3 where "s3 = fold (\<lambda>a st. requestTermination (mp_key (ps_heap st a)) a TERMINATED True st)
     (stopList desired (rq_OwnerId req) s1) s2"
  have g1: "good s s1" unfolding s1_def by (rule newOwner_good [OF ok n]) (simp_all add: owner_def)
  have "good t (case x of (role, a) \<Rightarrow> modifyProcess a (regenerate desired gen role) t)" if "server_ok t" for x t
  proof -
    obtain role a where x: "x = (role, a)" by (meson surj_pair)
    show ?thesis using core_good [of t "regenerate desired gen role" a, OF that regenerate_core] by (simp add: x)
  qed
  then have g2: "good s1 s2" unfolding s2_def using good_fold [OF _ good_ok [OF g1]]
    by (metis (mono_tags, lifting) case_prod_unfold)
  have g3: "good s2 s3" unfolding s3_def
    by (rule good_fold [OF _ good_ok [OF g2]]) (simp add: requestTermination_good)
  have "good s3 (snd (acceptIntent now launches req desired s))"
    unfolding acceptIntent_def Let_def snd_conv gen_def [symmetric] owner_def [symmetric] s1_def [symmetric]
      s2_def [symmetric] s3_def [symmetric]
    by (rule good_fold [OF _ good_ok [OF g3]]) (rule ensure_good)
  with g1 g2 g3 show ?thesis by (meson good_trans)
qed

lemma Reconcile_cases:
  "ReconcileManagedServices now busy launches reqOpt s = (r, s') \<Longrightarrow>
     (s' = s) \<or>
     (\<exists>req desired owner. reqOpt = Some req \<and> newer req s \<and> \<not> ps_closed s
        \<and> desiredLoop (ps_environ s) (ps_Workspace s) (rq_Services req) [] = Inr desired
        \<and> acceptIntent now launches req desired s = (owner, s')
        \<and> r = Inr (managedResponseLocked (rq_OwnerId req) owner s'))"
  unfolding ReconcileManagedServices_def Let_def newer_def
  by (auto split: option.splits sum.splits if_splits prod.splits)

lemma Reconcile_good:
  assumes ok: "server_ok s"
  shows "good s (snd (ReconcileManagedServices now busy launches reqOpt s))"
proof -
  obtain r s' where r: "ReconcileManagedServices now busy launches reqOpt s = (r, s')" by (meson surj_pair)
  from Reconcile_cases [OF r] show ?thesis
    using ok acceptIntent_good [OF ok] unfolding r snd_conv by (metis good_refl snd_conv)
qed

lemma closeSupervisor_good:
  assumes ok: "server_ok s" and c: "ps_closed s"
  shows "good s (closeSupervisor now s)"
proof -
  define s1 where "s1 = s\<lparr>ps_supervisorClosed := True\<rparr>"
  have "table_ok s1"
    by (rule table_okI)
      (use c table_rest [OF ok_table [OF ok]] table_live [OF ok_table [OF ok]] table_started [OF ok_table [OF ok]] in
        \<open>auto simp: s1_def maxRecords_def dest: table_fresh [OF ok_table [OF ok]] table_entry [OF ok_table [OF ok]]\<close>)
  then have g1: "good s s1" using ok by (simp add: good_def server_ok_def evolves_def s1_def)
  define s2 where "s2 = fold (\<lambda>a st. shutdownManaged now (mp_key (ps_heap st a)) a st) (ps_domains s) s1"
  have g2: "good s1 s2" unfolding s2_def
    by (rule good_fold [OF _ good_ok [OF g1]]) (simp add: shutdownManaged_good)
  have "good s2 (fold (\<lambda>a. send a Force) (ps_domains s) s2)"
    by (rule good_fold [OF _ good_ok [OF g2]]) (rule send_good)
  with g1 g2 show ?thesis unfolding closeSupervisor_def Let_def s1_def [symmetric] s2_def [symmetric]
    by (meson good_trans)
qed

lemma CloseContext_good:
  assumes ok: "server_ok s"
  shows "good s (CloseContext now s)"
proof (cases "ps_closed s")
  case False
  define t where "t = s\<lparr>ps_closed := True,
     ps_owners := map (\<lambda>(o', ow). (o', cancelManagedRestartsLocked ow)) (ps_owners s)\<rparr>"
  have "table_ok t"
    by (rule table_okI)
      (use table_rest [OF ok_table [OF ok]] table_live [OF ok_table [OF ok]] table_started [OF ok_table [OF ok]] in
        \<open>auto simp: t_def maxRecords_def dest: table_fresh [OF ok_table [OF ok]] table_entry [OF ok_table [OF ok]]\<close>)
  moreover have "map_of (ps_owners t) k = map_option cancelManagedRestartsLocked (map_of (ps_owners s) k)" for k
    by (simp add: t_def map_of_map)
  then have "evolves s t"
    using False by (simp add: evolves_def t_def cancelManagedRestartsLocked_def owner_later_def)
  ultimately have g: "good s t" using ok by (simp add: good_def server_ok_def t_def)
  have "good t (closeSupervisor now t)" by (rule closeSupervisor_good [OF good_ok [OF g]]) (simp add: t_def)
  with g False show ?thesis by (simp add: CloseContext_def t_def good_trans)
qed (use closeSupervisor_good [OF ok] in \<open>simp add: CloseContext_def\<close>)

lemma serverStep_good: "server_ok s \<Longrightarrow> good s (serverStep s e)"
  by (cases e)
    (auto simp: Start_def StartWithLaunchMaterial_def start_good Stop_good Reconcile_good restartTimer_good
      wait_exit_good drain_write_good drain_end_good timeoutTimer_good graceTimer_good CloseContext_good
      split: option.split)

lemma new_server_ok: "server_ok (NewProcessServer environ workspace)"
  by (simp add: server_ok_def table_ok_def NewProcessServer_def maxRecords_def newProcess_ok)

interpretation server: step_system serverStep server_ok
  by unfold_locales (rule good_ok [OF serverStep_good])

lemma reachable_ok: "server_ok (foldl serverStep (NewProcessServer environ workspace) es)"
  by (rule server.run_invar [OF new_server_ok])

lemma run_good: "server_ok s \<Longrightarrow> good s (foldl serverStep s es)"
proof (induction es arbitrary: s)
  case (Cons e es)
  have g: "good s (serverStep s e)" by (rule serverStep_good [OF Cons.prems])
  from good_trans [OF g Cons.IH [OF good_ok [OF g]]] show ?case by simp
qed simp

lemma run_evolves: "server_ok s \<Longrightarrow> evolves s (foldl serverStep s es)"
  using run_good by (simp add: good_def)

section \<open>Start is idempotent\<close>

lemma specDeepEqual_refl: "map_ok (px_Env spec) \<Longrightarrow> specDeepEqual spec spec"
  by (auto simp: specDeepEqual_def mapDeepEqual_def list_all_iff map_ok_def)

lemma normalizeSpec_env: "normalizeSpec environ ws (Some sp) = Inr spec \<Longrightarrow> px_Env spec = px_Env sp"
  by (auto simp: normalizeSpec_def Let_def split: if_splits sum.splits)

lemma launchProcess_result:
  assumes "launchProcess key spec secretEnv i sl startErr s = (Inr r, s')"
  shows "map_of (ps_processes s') key = Some (ps_next s) \<and> r = processResponse (ps_heap s' (ps_next s))
    \<and> mp_spec (ps_heap s' (ps_next s)) = spec \<and> mp_secretLaunch (ps_heap s' (ps_next s)) = sl
    \<and> ps_closed s' = ps_closed s \<and> ps_environ s' = ps_environ s \<and> ps_Workspace s' = ps_Workspace s
    \<and> ps_owners s' = ps_owners s"
  using assms by (auto simp: launchProcess_def Let_def newProcess_def split: if_splits option.splits)

lemma start_again:
  assumes "start_process key (Some spec) secretEnv sl l s = (Inr r, s')" and "map_ok (px_Env spec)"
  shows "start_process key (Some spec) secretEnv sl l' s' = (Inr r, s') \<and> ps_owners s' = ps_owners s"
proof -
  from assms(1) obtain k sp where k: "requestKey key = Inr k"
    and sp: "normalizeSpec (ps_environ s) (ps_Workspace s) (Some spec) = Inr sp"
    and v: "(if sl then validateLaunchMaterial secretEnv (px_Env sp) else None) = None" and op: "\<not> ps_closed s"
    by (auto simp: start_process_def split: sum.splits option.splits if_splits)
  have eq: "specDeepEqual sp sp"
    by (rule specDeepEqual_refl) (use assms(2) normalizeSpec_env [OF sp] in simp)
  show ?thesis
  proof (cases "map_of (ps_processes s) k")
    case (Some a)
    with assms(1) k sp v op show ?thesis by (auto simp: start_process_def split: if_splits)
  next
    case None
    with assms(1) k sp v op obtain i where "launchProcess k sp secretEnv i sl (ln_start l) s = (Inr r, s')"
      by (auto simp: start_process_def split: if_splits option.splits)
    from launchProcess_result [OF this] k sp v op eq show ?thesis by (auto simp: start_process_def)
  qed
qed

section \<open>What the invariant says of one execution\<close>

lemma terminal_complete: "proc_ok p \<Longrightarrow> mp_started p \<Longrightarrow> terminalState (mp_state p) \<longleftrightarrow> complete p"
  unfolding proc_ok_def proc_pre_def by (cases "mp_state p") auto

lemma complete_eof:
  "proc_pre p \<Longrightarrow> mp_started p \<Longrightarrow>
     complete p \<longleftrightarrow> mp_terminalRequested p \<and> ob_eof (mp_stdout p) \<and> ob_eof (mp_stderr p)"
  by (auto simp: proc_pre_def openStreams_def)

lemma requested_facts:
  "proc_pre p \<Longrightarrow> mp_terminalRequested p \<Longrightarrow>
     mp_leaderWaited p \<and> mp_exitCode p \<noteq> None \<and> mp_reason p \<noteq> REASON_UNSPECIFIED"
  unfolding proc_pre_def by blast

lemma domain_iff:
  "server_ok s \<Longrightarrow> mp_started (ps_heap s a) \<Longrightarrow> a \<in> set (ps_domains s) \<longleftrightarrow> \<not> terminalState (mp_state (ps_heap s a))"
  using table_live [OF ok_table, of s a] okD(3) [of s a] by blast

section \<open>An execution\<close>

abbreviation "sleepSpec \<equiv> \<lparr>px_Argv = [''sleep''], px_Cwd = [], px_Env = [], px_EnvMode = ENVIRONMENT_MODE_UNSPECIFIED,
  px_TimeoutMs = 0\<rparr>"
abbreviation "launchOk \<equiv> \<lparr>ln_id = Some ''x1'', ln_resources = None, ln_start = None\<rparr>"
abbreviation "sleepKey \<equiv> (''o'', ''r'')"
text \<open>The server after the launch of the example.\<close>

abbreviation "launchedProcess \<equiv> (newProcess sleepKey (sleepSpec\<lparr>px_Cwd := ''/w'', px_EnvMode := ENVIRONMENT_MODE_INHERIT\<rparr>) ''x1'' False)
  \<lparr>mp_started := True, mp_state := RUNNING, mp_drains := 2\<rparr>"

definition launchedServer :: ProcessServer where
  "launchedServer = (NewProcessServer [] ''/w'')\<lparr>ps_processes := [(sleepKey, 0)],
     ps_heap := (ps_heap (NewProcessServer [] ''/w''))(0 := launchedProcess), ps_next := 1, ps_domains := [0],
     ps_launches := [\<lparr>ex_address = 0, ex_argv = [''sleep''], ex_dir = ''/w'', ex_env = []\<rparr>]\<rparr>"

abbreviation "launchRun \<equiv> [EvStart (Some sleepKey) (Some sleepSpec) launchOk]"
abbreviation "exitRun \<equiv> [EvWait 5 0 (Some (ExitError 3)), EvEOF 6 0 True, EvEOF 7 0 False]"
abbreviation "graceRun \<equiv> [EvStop 4 (Some sleepKey) STOP_MODE_GRACEFUL, EvWait 5 0 None, EvEOF 6 0 True, EvEOF 7 0 False]"

lemma launch_example:
  "Start (Some sleepKey) (Some sleepSpec) launchOk (NewProcessServer [] ''/w'') =
     (Inr (processResponse launchedProcess), launchedServer)"
  unfolding launchedServer_def
  by (simp add: Start_def rejectManagedKey_def requestKey_def start_process_def normalizeSpec_def normalizeEnv_def
      inheritEnv_def validTimeout_def NewProcessServer_def maxRecords_def launchProcess_def Let_def launchEnv_def
      mergeSecretEnv_def mput_def)

lemma launch_run: "foldl serverStep (NewProcessServer [] ''/w'') launchRun = launchedServer"
  by (simp add: launch_example)

lemma exit_example:
  "(let p = ps_heap (foldl serverStep launchedServer exitRun) 0
    in mp_started p \<and> mp_state p = EXITED \<and> mp_exitCode p = Some 3 \<and> mp_reason p = REASON_EXITED)"
  by code_simp

lemma grace_example:
  "(let p = ps_heap (foldl serverStep launchedServer graceRun) 0
    in mp_started p \<and> mp_state p = STOPPING \<and> mp_reason p = INTERRUPTED \<and> mp_leaderWaited p \<and> mp_gracefulStop p
       \<and> ob_eof (mp_stdout p) \<and> ob_eof (mp_stderr p))"
  by code_simp

lemma schedule_heap [simp]:
  "ps_heap (scheduleManagedEnsureLocked ownerID role ow n d s) = ps_heap s"
  "ps_heap (scheduleManagedRestartLocked now b s) = ps_heap s"
  by (auto simp: scheduleManagedRestartLocked_def scheduleManagedEnsureLocked_def setOwner_def Let_def split: option.split)

text \<open>What finalisation and the grace timer leave of a record.\<close>

definition flags :: "managedProcess \<Rightarrow> bool \<times> bool \<times> bool" where
  "flags p = (mp_leaderWaited p, ob_eof (mp_stdout p), ob_eof (mp_stderr p))"

lemma finish_flags:
  "flags (ps_heap (supervisorDone b (finishLocked now a s)) a) = flags (ps_heap s a)
   \<and> mp_gracefulStop (ps_heap (supervisorDone b (finishLocked now a s)) a) = mp_gracefulStop (ps_heap s a)"
  by (auto simp: supervisorDone_def finishLocked_def Let_def flags_def split: option.split)

lemma recordExit_flags: "flags (recordExit p) = flags p \<and> mp_gracefulStop (recordExit p) = mp_gracefulStop p"
  by (auto simp: flags_def recordExit_def setReasonIfNone_def split: option.split waitError.split)

lemma finalizeWait_flags:
  "flags (ps_heap (finalizeWait now key a s) a) = flags (ps_heap s a)
   \<and> mp_gracefulStop (ps_heap (finalizeWait now key a s) a) = mp_gracefulStop (ps_heap s a)"
  by (simp add: finalizeWait_def Let_def finish_flags recordExit_flags)

lemma graceTimer_flags:
  "flags (ps_heap (graceTimer now key a s) a) = flags (ps_heap s a) \<and> \<not> mp_gracefulStop (ps_heap (graceTimer now key a s) a)"
  by (simp add: graceTimer_def Let_def finalizeWait_flags) (simp add: flags_def)

section \<open>Properties\<close>





text \<open>(C29) The first cause of a termination is authoritative. From any reachable state, no later request,
  timer, exit or shutdown changes the recorded cause of an execution that has one, nor its identity,
  spec or execution ID, and an execution that is terminal keeps its state and exit code for good.\<close>

theorem first_cause_wins:
  assumes "s = foldl serverStep (NewProcessServer environ workspace) es" and "a < ps_next s"
    and "p = ps_heap s a" and "q = ps_heap (foldl serverStep s es') a"
  shows "(mp_reason p \<noteq> REASON_UNSPECIFIED \<longrightarrow> mp_reason q = mp_reason p)
    \<and> mp_key q = mp_key p \<and> mp_spec q = mp_spec p \<and> mp_executionID q = mp_executionID p
    \<and> (mp_started p \<and> terminalState (mp_state p) \<longrightarrow> mp_state q = mp_state p \<and> mp_exitCode q = mp_exitCode p)"
proof -
  have ok: "server_ok s" unfolding assms(1) by (rule reachable_ok)
  have "evolves s (foldl serverStep s es')" by (rule run_evolves [OF ok])
  then have l: "later p q" using assms(2-4) by (simp add: evolves_def)
  have "mp_started p \<and> terminalState (mp_state p) \<longrightarrow> mp_terminalRequested p"
    using terminal_complete [OF okD(1) [OF ok, of a]] assms(3) by blast
  with l show ?thesis unfolding later_def by blast
qed

lemma first_cause_wins_witness:
  "mp_reason (ps_heap (foldl serverStep (foldl serverStep (NewProcessServer [] ''/w'') (launchRun @ graceRun))
     [EvStop 8 (Some sleepKey) STOP_MODE_FORCE]) 0) = INTERRUPTED"
proof -
  have s: "foldl serverStep (NewProcessServer [] ''/w'') (launchRun @ graceRun) = foldl serverStep launchedServer graceRun"
    by (simp only: foldl_append launch_run)
  have n: "0 < ps_next (foldl serverStep launchedServer graceRun)" by code_simp
  show ?thesis unfolding s
    using first_cause_wins [of "foldl serverStep launchedServer graceRun" "[]" "''/w''" "launchRun @ graceRun" 0 _ _
        "[EvStop 8 (Some sleepKey) STOP_MODE_FORCE]", OF s [symmetric] n refl refl] grace_example
    by (simp only: Let_def simp_thms terminationReason.distinct)
qed

text \<open>Once the epoch is closed nothing is launched any more: whatever requests, timers and exits follow,
  the server stays closed and the list of executed commands does not change.\<close>

theorem closed_epoch_launches_nothing:
  assumes "s = foldl serverStep (NewProcessServer environ workspace) es" and "ps_closed s"
  shows "ps_closed (foldl serverStep s es') \<and> ps_launches (foldl serverStep s es') = ps_launches s"
  using run_evolves [OF reachable_ok, of environ workspace es es'] assms by (simp add: evolves_def)

abbreviation "closeRun \<equiv> [EvClose 3]"

lemma closed_epoch_launches_nothing_witness:
  "length (ps_launches (foldl serverStep (foldl serverStep (NewProcessServer [] ''/w'') (launchRun @ closeRun))
     [EvStart (Some (''o'', ''other'')) (Some sleepSpec) launchOk])) = 1"
proof -
  have s: "foldl serverStep (NewProcessServer [] ''/w'') (launchRun @ closeRun) = foldl serverStep launchedServer closeRun"
    by (simp only: foldl_append launch_run)
  have c: "ps_closed (foldl serverStep launchedServer closeRun) \<and> length (ps_launches (foldl serverStep launchedServer closeRun)) = 1"
    by code_simp
  show ?thesis unfolding s
    using closed_epoch_launches_nothing [OF s [symmetric]] c by (simp only: simp_thms)
qed

text \<open>Accepted service intents only move forward. For every owner, the pair of intent and route revision
  never decreases in lexicographic order over any run, and while it stays the same so do the desired
  services and their generation. A request older than what was accepted is refused without any effect.\<close>

theorem intents_move_forward:
  assumes "s = foldl serverStep (NewProcessServer environ workspace) es" and "map_of (ps_owners s) ownerID = Some ow"
  shows "(\<exists>ow'. map_of (ps_owners (foldl serverStep s es')) ownerID = Some ow'
      \<and> (mw_revision ow < mw_revision ow'
         \<or> mw_revision ow = mw_revision ow' \<and> mw_routeRevision ow < mw_routeRevision ow'
         \<or> mw_revision ow = mw_revision ow' \<and> mw_routeRevision ow = mw_routeRevision ow'
            \<and> mw_desired ow' = mw_desired ow \<and> mw_gen ow' = mw_gen ow))
    \<and> (\<forall>req now busy launches. rq_OwnerId req = ownerID
         \<and> (rq_IntentRevision req < mw_revision ow
            \<or> rq_IntentRevision req = mw_revision ow \<and> rq_RouteRevision req < mw_routeRevision ow)
         \<longrightarrow> (\<exists>err. ReconcileManagedServices now busy launches (Some req) s = (Inl err, s)))"
proof
  have "evolves s (foldl serverStep s es')" unfolding assms(1) by (rule run_evolves [OF reachable_ok])
  then obtain ow' where "map_of (ps_owners (foldl serverStep s es')) ownerID = Some ow'" "owner_later ow ow'"
    using assms(2) unfolding evolves_def by blast
  then show "\<exists>ow'. map_of (ps_owners (foldl serverStep s es')) ownerID = Some ow'
      \<and> (mw_revision ow < mw_revision ow'
         \<or> mw_revision ow = mw_revision ow' \<and> mw_routeRevision ow < mw_routeRevision ow'
         \<or> mw_revision ow = mw_revision ow' \<and> mw_routeRevision ow = mw_routeRevision ow'
            \<and> mw_desired ow' = mw_desired ow \<and> mw_gen ow' = mw_gen ow)"
    unfolding owner_later_def by blast
qed (auto simp: ReconcileManagedServices_def Let_def assms(2) split: sum.split)

abbreviation "intentRequest n \<equiv> \<lparr>rq_OwnerId = ''o'', rq_IntentRevision = n, rq_RouteRevision = 0, rq_Services = []\<rparr>"
abbreviation "intentRun \<equiv> [EvReconcile 0 False (\<lambda>_. launchOk) (Some (intentRequest 2))]"

lemma intents_move_forward_witness:
  "\<exists>err. ReconcileManagedServices 1 False (\<lambda>_. launchOk) (Some (intentRequest 1))
     (foldl serverStep (NewProcessServer [] ''/w'') intentRun) = (Inl err, foldl serverStep (NewProcessServer [] ''/w'') intentRun)"
proof -
  have v: "utf8_valid ''o''" "\<not> has_nul ''o''" by code_simp+
  have "\<exists>ow. map_of (ps_owners (foldl serverStep (NewProcessServer [] ''/w'') intentRun)) ''o'' = Some ow \<and> mw_revision ow = 2"
    by (simp add: ReconcileManagedServices_def NewProcessServer_def maxRecords_def acceptIntent_def ownedRecords_def
        stopList_def toStartRoles_def setOwner_def mput_def v Let_def)
  then obtain ow where "map_of (ps_owners (foldl serverStep (NewProcessServer [] ''/w'') intentRun)) ''o'' = Some ow" "mw_revision ow = 2"
    by blast
  from intents_move_forward [OF refl this(1), of "[]"] this(2) show ?thesis by simp
qed

text \<open>Start is idempotent: when it has answered with an execution, repeating the request answers with the
  same execution and changes nothing, whatever a second launch would have done.\<close>

theorem start_idempotent:
  assumes "Start key (Some spec) l s = (Inr r, s')" and "map_ok (px_Env spec)"
  shows "Start key (Some spec) l' s' = (Inr r, s')"
proof -
  from assms(1) have rej: "rejectManagedKey key s = None" and st: "start_process key (Some spec) [] False l s = (Inr r, s')"
    by (auto simp: Start_def split: option.splits)
  from start_again [OF st assms(2), of l'] have again: "start_process key (Some spec) [] False l' s' = (Inr r, s')"
    and o: "ps_owners s' = ps_owners s" by auto
  have "rejectManagedKey key s' = None" using rej unfolding rejectManagedKey_def o .
  with again show ?thesis by (simp add: Start_def)
qed

lemma start_idempotent_witness:
  "Start (Some sleepKey) (Some sleepSpec) \<lparr>ln_id = Some ''x2'', ln_resources = None, ln_start = None\<rparr> launchedServer
     = (Inr (processResponse launchedProcess), launchedServer)"
  using start_idempotent [OF launch_example] by simp

text \<open>(C39) An execution whose leader could not be waited for is never reported as failed: \<open>wait\<close> records the
  cause \<open>EXITED\<close> before \<open>finalizeWait\<close> looks for a missing cause, so the cause \<open>WAIT_FAILED\<close> and the
  state \<open>FAILED\<close> do not occur for any execution that was started.\<close>

theorem wait_failure_never_reported:
  assumes "s = foldl serverStep (NewProcessServer environ workspace) es" and "mp_started (ps_heap s a)"
  shows "mp_reason (ps_heap s a) \<noteq> WAIT_FAILED \<and> mp_state (ps_heap s a) \<noteq> FAILED"
proof -
  have "proc_pre (ps_heap s a)" unfolding assms(1) by (rule okD(2) [OF reachable_ok])
  with assms(2) show ?thesis unfolding proc_pre_def by auto
qed

lemma wait_failure_never_reported_witness:
  "(let p = ps_heap (foldl serverStep (NewProcessServer [] ''/w'')
       (launchRun @ [EvWait 5 0 (Some (OtherWaitError ''wait4: interrupted'')), EvEOF 6 0 True, EvEOF 7 0 False])) 0
    in mp_reason p \<noteq> WAIT_FAILED \<and> mp_state p \<noteq> FAILED \<and> mp_err p = ''wait4: interrupted'')"
proof -
  let ?es = "[EvWait 5 0 (Some (OtherWaitError ''wait4: interrupted'')), EvEOF 6 0 True, EvEOF 7 0 False]"
  have s: "foldl serverStep (NewProcessServer [] ''/w'') (launchRun @ ?es) = foldl serverStep launchedServer ?es"
    by (simp only: foldl_append launch_run)
  have p: "mp_started (ps_heap (foldl serverStep launchedServer ?es) 0)
      \<and> mp_err (ps_heap (foldl serverStep launchedServer ?es) 0) = ''wait4: interrupted''"
    by code_simp
  show ?thesis unfolding s Let_def
    using wait_failure_never_reported [OF s [symmetric], of 0] p by (simp only: simp_thms)
qed

end
