(* ===== verification/Egress_Policy.thy ===== *)
theory Egress_Policy
  imports Prelude "HOL-Library.Multiset"
begin

text \<open>
  The egress destination grammar and policy composition
  (\<open>src/internal/egresspolicy/policy.go\<close>): exact host names that no resolver reads as an IP literal,
  validated and sorted sets, and the effective set under the administrator's ceiling, with the runtime
  revision that identifies a policy. \<open>json.Marshal\<close> and SHA-256 are parameters of the revision.
\<close>

section \<open>Numbers in other bases\<close>

text \<open>\<open>strconv.ParseUint(s, base, bits)\<close> for an explicit base: no sign, no prefix, no underscore.\<close>

definition digit_of :: "char \<Rightarrow> nat option" where
  "digit_of c =
     (if is_digit c then Some (code c - 48)
      else if 97 \<le> code c \<and> code c \<le> 122 then Some (code c - 87)
      else if 65 \<le> code c \<and> code c \<le> 90 then Some (code c - 55) else None)"

fun base_value :: "nat \<Rightarrow> nat \<Rightarrow> string \<Rightarrow> nat option" where
  "base_value base acc [] = Some acc"
| "base_value base acc (c # cs) =
     (case digit_of c of
        None \<Rightarrow> None
      | Some d \<Rightarrow> if base \<le> d then None else base_value base (base * acc + d) cs)"

definition parse_uint_base :: "nat \<Rightarrow> nat \<Rightarrow> string \<Rightarrow> nat option" where
  "parse_uint_base base bits s =
     (if s = [] then None
      else case base_value base 0 s of
             None \<Rightarrow> None
           | Some v \<Rightarrow> if int v < 2 ^ bits then Some v else None)"

section \<open>Host names\<close>

datatype hostname_error =
  HostnameLength | HostnameNotASCII | TooFewLabels | LabelLength | IDNALabel | LabelEnds | LabelCharacters | IPLiteral

definition labelByte :: "char \<Rightarrow> bool" where
  "labelByte c \<longleftrightarrow> 97 \<le> code c \<and> code c \<le> 122 \<or> is_digit c \<or> c = CHR ''-''"

definition validateLabel :: "string \<Rightarrow> hostname_error option" where
  "validateLabel label =
     (if label = [] \<or> 63 < length label then Some LabelLength
      else if has_prefix label ''xn--'' then Some IDNALabel
      else if hd label = CHR ''-'' \<or> last label = CHR ''-'' then Some LabelEnds
      else if \<not> list_all labelByte label then Some LabelCharacters
      else None)"

text \<open>\<open>netip.ParseAddr\<close> on a text without colon and percent sign, which is all that
  \<open>ParseHostname\<close> passes to it: the dotted-decimal form with four fields, each of one to three digits, at
  most 255 and without a leading zero.\<close>

definition ipv4Field :: "string \<Rightarrow> bool" where
  "ipv4Field f \<longleftrightarrow> f \<noteq> [] \<and> list_all is_digit f \<and> (length f = 1 \<or> hd f \<noteq> CHR ''0'')
     \<and> length f \<le> 3 \<and> digits_value 0 f \<le> 255"

definition parseAddr :: "string \<Rightarrow> bool" where
  "parseAddr value \<longleftrightarrow>
     (let fields = split_on (CHR ''.'') value in length fields = 4 \<and> list_all ipv4Field fields)"

definition parseIPv4Number :: "string \<Rightarrow> nat option" where
  "parseIPv4Number value =
     (if value = ''0x'' then Some 0
      else if 2 < length value \<and> take 2 value = ''0x'' then parse_uint_base 16 32 (drop 2 value)
      else if 1 < length value \<and> hd value = CHR ''0'' then parse_uint_base 8 32 value
      else if value = [] then None
      else parse_uint_base 10 32 value)"

definition isIPLiteral :: "string \<Rightarrow> string list \<Rightarrow> bool" where
  "isIPLiteral value labels =
     (if parseAddr value then True
      else if 4 < length labels then False
      else if \<not> list_all (\<lambda>label. parseIPv4Number label \<noteq> None) labels then False
      else
        (case map (\<lambda>label. int (the (parseIPv4Number label))) labels of
           [a] \<Rightarrow> a \<le> 0xffffffff
         | [a, b] \<Rightarrow> a \<le> 0xff \<and> b \<le> 0xffffff
         | [a, b, c] \<Rightarrow> a \<le> 0xff \<and> b \<le> 0xff \<and> c \<le> 0xffff
         | [a, b, c, d] \<Rightarrow> a \<le> 0xff \<and> b \<le> 0xff \<and> c \<le> 0xff \<and> d \<le> 0xff
         | _ \<Rightarrow> False))"

fun firstLabelError :: "string list \<Rightarrow> hostname_error option" where
  "firstLabelError [] = None"
| "firstLabelError (l # ls) = (case validateLabel l of Some e \<Rightarrow> Some e | None \<Rightarrow> firstLabelError ls)"

definition ParseHostname :: "string \<Rightarrow> hostname_error + string" where
  "ParseHostname value =
     (if value = [] \<or> 253 < length value then Inl HostnameLength
      else if \<not> list_all (\<lambda>c. code c \<le> 127) value then Inl HostnameNotASCII
      else
        (let labels = split_on (CHR ''.'') value in
         if length labels < 2 then Inl TooFewLabels
         else case firstLabelError labels of
                Some e \<Rightarrow> Inl e
              | None \<Rightarrow> if isIPLiteral value labels then Inl IPLiteral else Inr value))"

section \<open>Policies\<close>

datatype policy_error =
  TooManyEntries string nat
| BadEntry string nat hostname_error
| DuplicateHostname string string
| OutsideCeiling string string
| MissingUID
| MissingDigest

record Policy =
  po_Ceiling :: "string list"
  po_Baseline :: "string list"
  po_ProjectSelection :: "string list"
  po_Effective :: "string list"

fun parseEntries :: "string \<Rightarrow> nat \<Rightarrow> string list \<Rightarrow> string list \<Rightarrow> policy_error + string list" where
  "parseEntries name i [] result = Inr result"
| "parseEntries name i (value # values) result =
     (case ParseHostname value of
        Inl e \<Rightarrow> Inl (BadEntry name i e)
      | Inr hostname \<Rightarrow>
          if hostname \<in> set result then Inl (DuplicateHostname name hostname)
          else parseEntries name (Suc i) values (result @ [hostname]))"

definition parseSet :: "string \<Rightarrow> string list \<Rightarrow> nat \<Rightarrow> policy_error + string list" where
  "parseSet name values maximum =
     (if maximum < length values then Inl (TooManyEntries name (length values))
      else case parseEntries name 0 values [] of
             Inl e \<Rightarrow> Inl e
           | Inr result \<Rightarrow> Inr (sort result))"

fun requireSubset :: "string \<Rightarrow> string list \<Rightarrow> string list \<Rightarrow> policy_error option" where
  "requireSubset name [] ceiling = None"
| "requireSubset name (v # vs) ceiling =
     (if v \<in> set ceiling then requireSubset name vs ceiling else Some (OutsideCeiling name v))"

definition Evaluate :: "string list \<Rightarrow> string list \<Rightarrow> string list \<Rightarrow> policy_error + Policy" where
  "Evaluate ceiling baseline projectSelection =
     (case parseSet ''ceiling'' ceiling 256 of
        Inl e \<Rightarrow> Inl e
      | Inr canonicalCeiling \<Rightarrow>
          (case parseSet ''baseline'' baseline 64 of
             Inl e \<Rightarrow> Inl e
           | Inr canonicalBaseline \<Rightarrow>
               (case parseSet ''project selection'' projectSelection 64 of
                  Inl e \<Rightarrow> Inl e
                | Inr canonicalSelection \<Rightarrow>
                    (case requireSubset ''baseline'' canonicalBaseline canonicalCeiling of
                       Some e \<Rightarrow> Inl e
                     | None \<Rightarrow>
                         (case requireSubset ''project selection'' canonicalSelection canonicalCeiling of
                            Some e \<Rightarrow> Inl e
                          | None \<Rightarrow>
                              Inr \<lparr>po_Ceiling = canonicalCeiling, po_Baseline = canonicalBaseline,
                                   po_ProjectSelection = canonicalSelection,
                                   po_Effective = sort (remdups (canonicalBaseline @ canonicalSelection))\<rparr>)))))"

section \<open>Runtime revision\<close>

record RuntimeRevisionInputs =
  ri_InstallationUID :: string
  ri_ConfigMapUID :: string
  ri_ConfigMapContentSHA256 :: string
  ri_ProjectUID :: string
  ri_Ceiling :: "string list"
  ri_Baseline :: "string list"
  ri_ProjectSelection :: "string list"

record canonicalInputs =
  ci_Domain :: string
  ci_InstallationUID :: string
  ci_ConfigMapUID :: string
  ci_ConfigMapContentSHA256 :: string
  ci_Ceiling :: "string list"
  ci_Baseline :: "string list"
  ci_ProjectUID :: string
  ci_ProjectSelection :: "string list"

definition CanonicalBytes ::
  "(canonicalInputs \<Rightarrow> string) \<Rightarrow> RuntimeRevisionInputs \<Rightarrow> policy_error + string" where
  "CanonicalBytes marshal inputs =
     (if ri_InstallationUID inputs = [] \<or> ri_ConfigMapUID inputs = [] \<or> ri_ProjectUID inputs = [] then Inl MissingUID
      else if ri_ConfigMapContentSHA256 inputs = replicate 32 (char_of (0::nat)) then Inl MissingDigest
      else case Evaluate (ri_Ceiling inputs) (ri_Baseline inputs) (ri_ProjectSelection inputs) of
             Inl e \<Rightarrow> Inl e
           | Inr policy \<Rightarrow>
               Inr (marshal \<lparr>ci_Domain = ''swe.dev/egress-policy/runtime-revision/v1'',
                      ci_InstallationUID = ri_InstallationUID inputs, ci_ConfigMapUID = ri_ConfigMapUID inputs,
                      ci_ConfigMapContentSHA256 = hex_encode (ri_ConfigMapContentSHA256 inputs),
                      ci_Ceiling = po_Ceiling policy, ci_Baseline = po_Baseline policy,
                      ci_ProjectUID = ri_ProjectUID inputs, ci_ProjectSelection = po_ProjectSelection policy\<rparr>))"

definition Revision ::
  "(string \<Rightarrow> string) \<Rightarrow> (canonicalInputs \<Rightarrow> string) \<Rightarrow> RuntimeRevisionInputs \<Rightarrow> policy_error + string" where
  "Revision sha256 marshal inputs =
     (case CanonicalBytes marshal inputs of Inl e \<Rightarrow> Inl e | Inr bytes \<Rightarrow> Inr (sha256 bytes))"

section \<open>Lemmas\<close>

lemma ParseHostname_same: "ParseHostname v = Inr h \<Longrightarrow> h = v"
  by (auto simp: ParseHostname_def Let_def split: if_splits option.splits)

lemma firstLabelError_None: "firstLabelError ls = None \<longleftrightarrow> (\<forall>l\<in>set ls. validateLabel l = None)"
  by (induction ls) (auto split: option.splits)

lemma parseEntries_ok:
  "parseEntries name i vs result = Inr r \<longleftrightarrow>
     (\<forall>v\<in>set vs. is_ok (ParseHostname v)) \<and> distinct vs \<and> set vs \<inter> set result = {} \<and> r = result @ vs"
proof (induction vs arbitrary: i result)
  case (Cons v vs)
  show ?case
  proof (cases "ParseHostname v")
    case (Inr h)
    then have h: "h = v" by (rule ParseHostname_same)
    with Inr Cons.IH [of "Suc i" "result @ [v]"] show ?thesis by auto
  qed simp
qed auto

definition valid_set :: "nat \<Rightarrow> string list \<Rightarrow> bool" where
  "valid_set maximum vs \<longleftrightarrow> length vs \<le> maximum \<and> distinct vs \<and> (\<forall>v\<in>set vs. is_ok (ParseHostname v))"

lemma parseSet_ok: "parseSet name vs maximum = Inr r \<longleftrightarrow> valid_set maximum vs \<and> r = sort vs"
proof (cases "parseEntries name 0 vs []")
  case (Inl e)
  with parseEntries_ok [of name 0 vs "[]" vs] show ?thesis by (auto simp: parseSet_def valid_set_def)
next
  case (Inr r')
  with parseEntries_ok [of name 0 vs "[]" r'] show ?thesis by (auto simp: parseSet_def valid_set_def)
qed

lemma requireSubset_None: "requireSubset name vs ceiling = None \<longleftrightarrow> set vs \<subseteq> set ceiling"
  by (induction vs) auto

lemma Evaluate_ok:
  "Evaluate c b s = Inr p \<longleftrightarrow>
     valid_set 256 c \<and> valid_set 64 b \<and> valid_set 64 s \<and> set b \<subseteq> set c \<and> set s \<subseteq> set c
     \<and> p = \<lparr>po_Ceiling = sort c, po_Baseline = sort b, po_ProjectSelection = sort s,
            po_Effective = sort (remdups (sort b @ sort s))\<rparr>"
proof -
  have f: "\<not> valid_set m vs \<Longrightarrow> \<exists>x. parseSet n vs m = Inl x" for n vs m
    using parseSet_ok [of n vs m] by (cases "parseSet n vs m") auto
  show ?thesis
  proof (cases "valid_set 256 c \<and> valid_set 64 b \<and> valid_set 64 s")
    case True
    then show ?thesis
      using parseSet_ok [of "''ceiling''" c 256 "sort c"] parseSet_ok [of "''baseline''" b 64 "sort b"]
        parseSet_ok [of "''project selection''" s 64 "sort s"]
        requireSubset_None [of "''baseline''" "sort b" "sort c"]
        requireSubset_None [of "''project selection''" "sort s" "sort c"]
      by (auto simp: Evaluate_def split: option.split)
  next
    case False
    then show ?thesis
      using f [of 256 c "''ceiling''"] f [of 64 b "''baseline''"] f [of 64 s "''project selection''"]
      by (auto simp: Evaluate_def split: sum.split)
  qed
qed

text \<open>What acceptance of a host name says.\<close>

lemma ParseHostname_ok:
  "ParseHostname v = Inr h \<longleftrightarrow>
     h = v \<and> v \<noteq> [] \<and> length v \<le> 253 \<and> (\<forall>c\<in>set v. code c \<le> 127) \<and> 2 \<le> length (split_on (CHR ''.'') v)
     \<and> (\<forall>l\<in>set (split_on (CHR ''.'') v). validateLabel l = None) \<and> \<not> isIPLiteral v (split_on (CHR ''.'') v)"
  by (auto simp: ParseHostname_def Let_def list_all_iff firstLabelError_None [symmetric] not_less split: option.splits)

lemma label_bytes: "validateLabel l = None \<Longrightarrow> c \<in> set l \<Longrightarrow> labelByte c"
  by (auto simp: validateLabel_def list_all_iff split: if_splits)

lemma set_split_join: "set s \<subseteq> (\<Union>w\<in>set (split_on c s). set w) \<union> {c}"
proof (induction s)
  case (Cons x s)
  obtain y ys where "split_on c s = y # ys" by (meson neq_Nil_conv split_on_nonempty)
  with Cons show ?case by (auto split: if_splits)
qed simp

lemma hostname_bytes:
  assumes "ParseHostname v = Inr h" and "c \<in> set v"
  shows "labelByte c \<or> c = CHR ''.''"
  using assms set_split_join [of v "CHR ''.''"] label_bytes unfolding ParseHostname_ok by blast

text \<open>Decimal numbers are read back.\<close>

lemma base_value_digits:
  "list_all is_digit s \<Longrightarrow> base_value 10 acc s = Some (digits_value acc s)"
proof (induction s arbitrary: acc)
  case (Cons c s)
  have "code c - 48 < 10" using Cons.prems by (auto simp: is_digit_def)
  with Cons show ?case by (simp add: digit_of_def)
qed simp

lemma format_nat_leading: "hd (format_nat n) = CHR ''0'' \<Longrightarrow> n = 0"
proof (induction n rule: format_nat.induct)
  case (1 n)
  show ?case
  proof (cases "n < 10")
    case True
    with 1(2) have "digit_char n = CHR ''0''" by (subst (asm) format_nat.simps) simp
    then have "code (digit_char n) = 48" by (simp add: code_def)
    with True show ?thesis by simp
  next
    case False
    with 1(2) have "hd (format_nat (n div 10)) = CHR ''0''" by (subst (asm) format_nat.simps) simp
    with 1(1) False show ?thesis by simp
  qed
qed

lemma parseIPv4Number_format:
  assumes n: "n < 2 ^ 32"
  shows "parseIPv4Number (format_nat n) = Some n"
proof -
  have "parse_uint_base 10 32 (format_nat n) = Some n"
    using n by (simp add: parse_uint_base_def base_value_digits format_nat_digits digits_value_format_nat)
  moreover have "CHR ''x'' \<notin> set (format_nat n)" by (rule format_nat_no_char) (simp add: is_digit_def code_def)
  then have "take 2 (format_nat n) \<noteq> ''0x''" using set_take_subset [of 2 "format_nat n"] by auto
  moreover from this have "format_nat n \<noteq> ''0x''" by auto
  moreover have "\<not> (1 < length (format_nat n) \<and> hd (format_nat n) = CHR ''0'')"
  proof
    assume a: "1 < length (format_nat n) \<and> hd (format_nat n) = CHR ''0''"
    then have "n = 0" using format_nat_leading by simp
    with a show False by (simp add: format_nat.simps [of 0])
  qed
  ultimately show ?thesis by (auto simp: parseIPv4Number_def)
qed

lemma decimal_parts_literal:
  assumes n: "\<forall>x\<in>set ns. x < 2 ^ 32"
    and form: "case map int ns of [a, b] \<Rightarrow> a \<le> 255 \<and> b \<le> 16777215 | [a, b, c] \<Rightarrow> a \<le> 255 \<and> b \<le> 255 \<and> c \<le> 65535
      | [a, b, c, d] \<Rightarrow> a \<le> 255 \<and> b \<le> 255 \<and> c \<le> 255 \<and> d \<le> 255 | _ \<Rightarrow> False"
  shows "isIPLiteral v (map format_nat ns)"
proof -
  have p: "list_all (\<lambda>l. parseIPv4Number l \<noteq> None) (map format_nat ns)"
    "map (\<lambda>l. int (the (parseIPv4Number l))) (map format_nat ns) = map int ns"
    using n parseIPv4Number_format by (auto simp: list_all_iff)
  have "\<not> 4 < length ns" using form by (auto split: list.splits)
  then show ?thesis using form p(1) unfolding isIPLiteral_def p(2) by (auto split: list.splits)
qed

section \<open>Properties\<close>

text \<open>(C35) The effective policy, exactly: evaluation succeeds precisely when the three lists are within their
  sizes, free of duplicates and consist of valid host names, and baseline and selection lie within the
  administrator's ceiling. The effective set is then the sorted union of baseline and selection, so no
  destination outside the ceiling is ever effective and the order of the inputs does not matter.\<close>

theorem evaluate_exact:
  "(is_ok (Evaluate c b s) \<longleftrightarrow> valid_set 256 c \<and> valid_set 64 b \<and> valid_set 64 s \<and> set b \<subseteq> set c \<and> set s \<subseteq> set c)
   \<and> (\<forall>p. Evaluate c b s = Inr p \<longrightarrow>
        po_Effective p = sorted_list_of_set (set b \<union> set s) \<and> set (po_Effective p) \<subseteq> set c
        \<and> po_Ceiling p = sorted_list_of_set (set c) \<and> po_Baseline p = sorted_list_of_set (set b)
        \<and> po_ProjectSelection p = sorted_list_of_set (set s))"
proof -
  have s: "valid_set n xs \<Longrightarrow> sort xs = sorted_list_of_set (set xs)" for n xs
    by (simp add: valid_set_def sorted_list_of_set_sort_remdups distinct_remdups_id)
  have e: "sort (remdups (sort b @ sort s)) = sorted_list_of_set (set b \<union> set s)"
    by (rule sorted_distinct_eqI) simp_all
  show ?thesis by (auto simp: is_ok_iff Evaluate_ok e s)
qed

lemma evaluate_exact_witness:
  "po_Effective (\<lparr>po_Ceiling = [''a.dev'', ''b.dev''], po_Baseline = [''b.dev''], po_ProjectSelection = [''a.dev''],
     po_Effective = [''a.dev'', ''b.dev'']\<rparr> :: Policy) = sorted_list_of_set (set [''b.dev''] \<union> set [''a.dev''])"
proof -
  have "Evaluate [''b.dev'', ''a.dev''] [''b.dev''] [''a.dev''] =
      Inr \<lparr>po_Ceiling = [''a.dev'', ''b.dev''], po_Baseline = [''b.dev''], po_ProjectSelection = [''a.dev''],
           po_Effective = [''a.dev'', ''b.dev'']\<rparr>" by code_simp
  with evaluate_exact [of "[''b.dev'', ''a.dev'']" "[''b.dev'']" "[''a.dev'']"] show ?thesis by blast
qed



text \<open>The runtime revision identifies a policy, not its spelling: reordering the ceiling, the baseline or
  the project selection leaves the revision unchanged, whatever the serialisation and the hash are.\<close>

theorem revision_order_independent:
  assumes "mset c' = mset c" and "mset b' = mset b" and "mset s' = mset s"
  shows "is_ok (Revision sha marshal (i\<lparr>ri_Ceiling := c, ri_Baseline := b, ri_ProjectSelection := s\<rparr>)) \<longrightarrow>
    Revision sha marshal (i\<lparr>ri_Ceiling := c', ri_Baseline := b', ri_ProjectSelection := s'\<rparr>)
      = Revision sha marshal (i\<lparr>ri_Ceiling := c, ri_Baseline := b, ri_ProjectSelection := s\<rparr>)"
proof
  assume ok: "is_ok (Revision sha marshal (i\<lparr>ri_Ceiling := c, ri_Baseline := b, ri_ProjectSelection := s\<rparr>))"
  have v: "valid_set n ys = valid_set n xs" if "mset ys = mset xs" for n xs ys
    using that mset_eq_setD [OF that] mset_eq_length [OF that] mset_eq_imp_distinct_iff [OF that] by (simp add: valid_set_def)
  have so: "sort ys = sort xs" if "mset ys = mset xs" for xs ys :: "string list"
    using that by (simp add: properties_for_sort)
  from ok obtain p where p: "Evaluate c b s = Inr p"
    by (auto simp: Revision_def CanonicalBytes_def is_ok_iff split: if_splits sum.splits)
  then have "Evaluate c' b' s' = Inr p"
    unfolding Evaluate_ok using assms mset_eq_setD [OF assms(1)] mset_eq_setD [OF assms(2)] mset_eq_setD [OF assms(3)]
      v [OF assms(1)] v [OF assms(2)] v [OF assms(3)] so [OF assms(1)] so [OF assms(2)] so [OF assms(3)] by simp
  with p show "Revision sha marshal (i\<lparr>ri_Ceiling := c', ri_Baseline := b', ri_ProjectSelection := s'\<rparr>)
      = Revision sha marshal (i\<lparr>ri_Ceiling := c, ri_Baseline := b, ri_ProjectSelection := s\<rparr>)"
    by (simp add: Revision_def CanonicalBytes_def)
qed

abbreviation "exampleInputs \<equiv> \<lparr>ri_InstallationUID = ''i'', ri_ConfigMapUID = ''m'', ri_ConfigMapContentSHA256 = ''d'',
  ri_ProjectUID = ''p'', ri_Ceiling = [], ri_Baseline = [], ri_ProjectSelection = []\<rparr>"

lemma revision_order_independent_witness:
  "Revision id ci_ProjectUID (exampleInputs\<lparr>ri_Ceiling := [''b.dev'', ''a.dev''], ri_Baseline := [], ri_ProjectSelection := [''a.dev'']\<rparr>)
   = Revision id ci_ProjectUID (exampleInputs\<lparr>ri_Ceiling := [''a.dev'', ''b.dev''], ri_Baseline := [], ri_ProjectSelection := [''a.dev'']\<rparr>)"
proof -
  have "is_ok (Revision id ci_ProjectUID (exampleInputs\<lparr>ri_Ceiling := [''a.dev'', ''b.dev''], ri_Baseline := [], ri_ProjectSelection := [''a.dev'']\<rparr>))"
    by code_simp
  then show ?thesis
    using revision_order_independent [of "[''b.dev'', ''a.dev'']" "[''a.dev'', ''b.dev'']" "[]" "[]" "[''a.dev'']" "[''a.dev'']"
        id ci_ProjectUID exampleInputs] by (simp only: add_mset_commute mset.simps refl simp_thms)
qed

end
