(* ===== verification/Egress_Protocol.thy ===== *)
theory Egress_Protocol
  imports Egress_Policy
begin

text \<open>
  The wire formats of the egress proxy (\<open>src/internal/egressproxy/protocol.go\<close>, and \<open>readClientHello\<close> and
  \<open>clientHelloSNI\<close> of \<open>proxy.go\<close>): the forward request between forwarder and proxy, the CONNECT request
  a client sends to the forwarder, and the TLS ClientHello whose server name the proxy checks.

  A reader is the list of the bytes it will still deliver; for \<open>parseCONNECT\<close>, which asks how much is
  buffered, it is the list of chunks that successive reads deliver. Out-of-range accesses of Go slices are
  the error \<open>Panic\<close>.
\<close>

section \<open>Bytes\<close>

datatype wire_error = EOF | UnexpectedEOF | ShortWrite | Panic | BadName hostname_error | Rejected string | WriteFailed

text \<open>\<open>io.ReadFull\<close>, for a positive number of bytes.\<close>

definition readFull :: "nat \<Rightarrow> string \<Rightarrow> wire_error + string \<times> string" where
  "readFull n s =
     (if s = [] \<and> 0 < n then Inl EOF else if length s < n then Inl UnexpectedEOF else Inr (take n s, drop n s))"

definition byteAt :: "string \<Rightarrow> nat \<Rightarrow> wire_error + nat" where
  "byteAt b p = (if p < length b then Inr (code (b ! p)) else Inl Panic)"

text \<open>\<open>binary.BigEndian.Uint16(b[p:])\<close>.\<close>

definition uint16At :: "string \<Rightarrow> nat \<Rightarrow> wire_error + nat" where
  "uint16At b p = (if p + 1 < length b then Inr (256 * code (b ! p) + code (b ! (p + 1))) else Inl Panic)"

definition putUint16 :: "nat \<Rightarrow> string" where
  "putUint16 n = [char_of (n div 256 mod 256), char_of (n mod 256)]"

definition sliceBytes :: "string \<Rightarrow> nat \<Rightarrow> nat \<Rightarrow> wire_error + string" where
  "sliceBytes b p q = (if p \<le> q \<and> q \<le> length b then Inr (take (q - p) (drop p b)) else Inl Panic)"

section \<open>Forward requests\<close>

definition protocolMagic :: string where
  "protocolMagic = ''SWEE''"

definition canonicalTarget :: "string \<Rightarrow> wire_error + string" where
  "canonicalTarget s =
     (if \<not> has_suffix s '':443'' then Inl (Rejected ''invalid CONNECT target'')
      else case ParseHostname (trim_suffix s '':443'') of Inl e \<Rightarrow> Inl (BadName e) | Inr h \<Rightarrow> Inr h)"

text \<open>\<open>writeFull\<close> over a writer \<open>wr\<close>, which returns how many bytes it took, its error and its next state.\<close>

function writeFull :: "('w \<Rightarrow> string \<Rightarrow> nat \<times> wire_error option \<times> 'w) \<Rightarrow> 'w \<Rightarrow> string \<Rightarrow> wire_error option \<times> 'w" where
  "writeFull wr w b =
     (if b = [] then (None, w)
      else case wr w b of
             (n, err, w') \<Rightarrow>
               if length b < n then (Some Panic, w')
               else if err \<noteq> None then (err, w')
               else if n = 0 then (Some ShortWrite, w')
               else writeFull wr w' (drop n b))"
  by pat_completeness auto
termination
  by (relation "measure (\<lambda>(wr, w, b). length b)") auto

declare writeFull.simps [simp del]

definition requestHeader :: "nat \<Rightarrow> string" where
  "requestHeader n = protocolMagic @ [char_of (1::nat), char_of (0::nat)] @ putUint16 443 @ putUint16 n"

definition writeRequest ::
  "('w \<Rightarrow> string \<Rightarrow> nat \<times> wire_error option \<times> 'w) \<Rightarrow> 'w \<Rightarrow> string \<Rightarrow> wire_error option \<times> 'w" where
  "writeRequest wr w name =
     (if canonicalTarget (name @ '':443'') \<noteq> Inr name then (Some (Rejected ''invalid request name''), w)
      else if name = [] \<or> 253 < length name then (Some (Rejected ''invalid name length''), w)
      else case writeFull wr w (requestHeader (length name)) of
             (Some err, w') \<Rightarrow> (Some err, w')
           | (None, w') \<Rightarrow> writeFull wr w' name)"

definition readRequest :: "string \<Rightarrow> wire_error + string \<times> string" where
  "readRequest r =
     bind_result (readFull 10 r) (\<lambda>(h, r1).
       bind_result (uint16At h 6) (\<lambda>port.
         bind_result (uint16At h 8) (\<lambda>n.
           if take 4 h \<noteq> protocolMagic \<or> code (h ! 4) \<noteq> 1 \<or> code (h ! 5) \<noteq> 0 \<or> port \<noteq> 443
           then Inl (Rejected ''invalid protocol header'')
           else if n = 0 \<or> 253 < n then Inl (Rejected ''invalid protocol length'')
           else bind_result (readFull n r1) (\<lambda>(name, r2).
                  if canonicalTarget (name @ '':443'') \<noteq> Inr name then Inl (Rejected ''invalid request name'')
                  else Inr (name, r2)))))"

definition writeStatus ::
  "('w \<Rightarrow> string \<Rightarrow> nat \<times> wire_error option \<times> 'w) \<Rightarrow> 'w \<Rightarrow> bool \<Rightarrow> wire_error option \<times> 'w" where
  "writeStatus wr w ok = writeFull wr w (protocolMagic @ [char_of (1::nat), char_of (if ok then 0 else 1 :: nat)])"

definition readStatus :: "string \<Rightarrow> wire_error + string" where
  "readStatus r =
     bind_result (readFull 6 r) (\<lambda>(b, r1).
       if take 4 b \<noteq> protocolMagic \<or> code (b ! 4) \<noteq> 1 \<or> 1 < code (b ! 5) then Inl (Rejected ''invalid status'')
       else if code (b ! 5) \<noteq> 0 then Inl (Rejected ''forward denied'') else Inr r1)"

section \<open>CONNECT requests\<close>

text \<open>The buffered reader over \<open>io.LimitReader(input, max+1)\<close>: what is buffered, how many bytes the limit
  still admits, and the chunks to come.\<close>

record bufReader =
  br_buf :: string
  br_limit :: int
  br_chunks :: "string list"

text \<open>\<open>ReadString('\\n')\<close>: the line with its newline, or what is left and the end of file.\<close>

fun takeLine :: "string \<Rightarrow> (string \<times> string) option" where
  "takeLine [] = None"
| "takeLine (c # s) =
     (if code c = 10 then Some ([c], s)
      else case takeLine s of None \<Rightarrow> None | Some (l, r) \<Rightarrow> Some (c # l, r))"

function readString :: "string \<Rightarrow> int \<Rightarrow> string list \<Rightarrow> (string \<times> bool) \<times> bufReader" where
  "readString buf limit [] =
     (case takeLine buf of
        Some (l, r) \<Rightarrow> ((l, True), \<lparr>br_buf = r, br_limit = limit, br_chunks = []\<rparr>)
      | None \<Rightarrow> ((buf, False), \<lparr>br_buf = [], br_limit = limit, br_chunks = []\<rparr>))"
| "readString buf limit (c # cs) =
     (case takeLine buf of
        Some (l, r) \<Rightarrow> ((l, True), \<lparr>br_buf = r, br_limit = limit, br_chunks = c # cs\<rparr>)
      | None \<Rightarrow>
          if limit \<le> 0 then ((buf, False), \<lparr>br_buf = [], br_limit = limit, br_chunks = c # cs\<rparr>)
          else if int (length c) \<le> limit then readString (buf @ c) (limit - int (length c)) cs
          else readString (buf @ take (nat limit) c) 0 (drop (nat limit) c # cs))"
  by pat_completeness auto
termination
  by (relation "measures [\<lambda>(buf, limit, cs). length cs, \<lambda>(buf, limit, cs). if 0 < limit then 1 else 0]") auto

text \<open>The loop that collects the lines up to the empty one.\<close>

fun headerLoop :: "nat \<Rightarrow> nat \<Rightarrow> string list \<Rightarrow> bufReader \<Rightarrow> wire_error + string list \<times> bool \<times> bufReader" where
  "headerLoop 0 tot ls r = Inr (ls, False, r)"
| "headerLoop (Suc n) tot ls r =
     (case readString (br_buf r) (br_limit r) (br_chunks r) of
        ((line, found), r') \<Rightarrow>
          let tot' = tot + length line in
          if int tot' > 8192 then Inl (Rejected ''headers too large'')
          else if \<not> found then Inl EOF
          else if length line < 2 \<or> drop (length line - 2) line \<noteq> [char_of (13::nat), char_of (10::nat)]
          then Inl (Rejected ''invalid line ending'')
          else
            (let line' = take (length line - 2) line in
             if line' = [] then Inr (ls, True, r') else headerLoop n tot' (ls @ [line']) r'))"

text \<open>\<open>fmt.Sscanf(line, "%s %s %s")\<close> reads the first three words. Only ASCII white space is
  recognised here; a line with other white space fails the comparison below or the target grammar.\<close>

definition scanSpace :: "char \<Rightarrow> bool" where
  "scanSpace c \<longleftrightarrow> code c = 32 \<or> (9 \<le> code c \<and> code c \<le> 13)"

definition scanWord :: "string \<Rightarrow> string \<times> string" where
  "scanWord s = (let t = dropWhile scanSpace s in (takeWhile (\<lambda>c. \<not> scanSpace c) t, dropWhile (\<lambda>c. \<not> scanSpace c) t))"

definition sscanf3 :: "string \<Rightarrow> (string \<times> string \<times> string) option" where
  "sscanf3 line =
     (let (a, s1) = scanWord line; (b, s2) = scanWord s1; (c, s3) = scanWord s2
      in if a = [] \<or> b = [] \<or> c = [] then None else Some (a, b, c))"

definition tokenByte :: "char \<Rightarrow> bool" where
  "tokenByte c \<longleftrightarrow> 97 \<le> code c \<and> code c \<le> 122 \<or> 65 \<le> code c \<and> code c \<le> 90 \<or> is_digit c
     \<or> c \<in> set ''!#$%&*+-.^_`|~'' \<or> code c = 39"

definition asciiLower :: "string \<Rightarrow> string" where
  "asciiLower s = ascii_lower s"

text \<open>One header line; \<open>hosts\<close> and \<open>contentLengths\<close> count what was seen.\<close>

definition headerLine :: "string \<Rightarrow> string \<Rightarrow> nat \<times> nat \<Rightarrow> wire_error + nat \<times> nat" where
  "headerLine target l counts =
     (case counts of (hosts, contentLengths) \<Rightarrow>
        if l = [] \<or> code (hd l) = 32 \<or> code (hd l) = 9 then Inl (Rejected ''folded header'')
        else
          (let nm = takeWhile (\<lambda>c. c \<noteq> CHR '':'') l; rest = dropWhile (\<lambda>c. c \<noteq> CHR '':'') l in
           if rest = [] \<or> nm = [] then Inl (Rejected ''invalid header'')
           else if \<not> list_all tokenByte nm then Inl (Rejected ''invalid header name'')
           else
             (let k = asciiLower nm; v = dropWhile (\<lambda>c. code c = 32 \<or> code c = 9) (tl rest);
                  hosts' = (if k = ''host'' then hosts + 1 else hosts);
                  lengths' = (if k = ''content-length'' then contentLengths + 1 else contentLengths)
              in if k = ''host'' \<and> v \<noteq> target then Inl (Rejected ''Host mismatch'')
                 else if k = ''content-length'' \<and> (lengths' \<noteq> 1 \<or> v \<noteq> ''0'') then Inl (Rejected ''body forbidden'')
                 else if k = ''transfer-encoding'' \<or> k = ''proxy-authorization'' then Inl (Rejected ''forbidden header'')
                 else if list_ex (\<lambda>c. code c < 32 \<or> code c = 127) l then Inl (Rejected ''control byte'')
                 else Inr (hosts', lengths'))))"

fun headerLines :: "string \<Rightarrow> string list \<Rightarrow> nat \<times> nat \<Rightarrow> wire_error + nat \<times> nat" where
  "headerLines target [] counts = Inr counts"
| "headerLines target (l # ls) counts = bind_result (headerLine target l counts) (headerLines target ls)"

definition parseCONNECT :: "string list \<Rightarrow> wire_error + string" where
  "parseCONNECT chunks =
     bind_result (headerLoop 66 0 [] \<lparr>br_buf = [], br_limit = 8193, br_chunks = chunks\<rparr>) (\<lambda>(ls, terminated, r).
       if \<not> terminated \<or> ls = [] \<or> 64 < length ls - 1 then Inl (Rejected ''invalid header count'')
       else case sscanf3 (hd ls) of
              None \<Rightarrow> Inl (Rejected ''CONNECT HTTP/1.1 required'')
            | Some (method, target, version) \<Rightarrow>
                if method \<noteq> ''CONNECT'' \<or> version \<noteq> ''HTTP/1.1'' then Inl (Rejected ''CONNECT HTTP/1.1 required'')
                else if hd ls \<noteq> method @ '' '' @ target @ '' '' @ version then Inl (Rejected ''invalid request line'')
                else bind_result (headerLines target (tl ls) (0, 0)) (\<lambda>(hosts, contentLengths).
                       if hosts \<noteq> 1 then Inl (Rejected ''exactly one Host required'')
                       else if br_buf r \<noteq> [] then Inl (Rejected ''pipelining forbidden'')
                       else canonicalTarget target))"

section \<open>ClientHello\<close>

text \<open>The loop over the extensions, from offset \<open>p\<close>; \<open>sni\<close> is the name found so far and \<open>seen\<close> the
  extension types.\<close>

definition sniExtension :: "string \<Rightarrow> string \<Rightarrow> wire_error + string" where
  "sniExtension sni v =
     (if sni \<noteq> [] \<or> length v < 5 then Inl (Rejected ''bad SNI'')
      else bind_result (uint16At v 0) (\<lambda>ln.
        bind_result (byteAt v 2) (\<lambda>typ.
          if ln + 2 \<noteq> length v \<or> typ \<noteq> 0 then Inl (Rejected ''bad SNI'')
          else bind_result (uint16At v 3) (\<lambda>nn.
            if nn + 5 \<noteq> length v then Inl (Rejected ''bad SNI'') else sliceBytes v 5 (length v)))))"

function extensionLoop :: "string \<Rightarrow> nat \<Rightarrow> string \<Rightarrow> nat list \<Rightarrow> wire_error + string" where
  "extensionLoop b p sni seen =
     (if length b \<le> p then Inr sni
      else if length b < p + 4 then Inl UnexpectedEOF
      else bind_result (uint16At b p) (\<lambda>typ.
        bind_result (uint16At b (p + 2)) (\<lambda>n.
          if length b < p + 4 + n then Inl UnexpectedEOF
          else bind_result (sliceBytes b (p + 4) (p + 4 + n)) (\<lambda>v.
            if typ \<in> set seen then Inl (Rejected ''duplicate extension'')
            else if int typ = 65037 \<or> int typ = 65486 then Inl (Rejected ''ECH forbidden'')
            else if typ = 0
            then bind_result (sniExtension sni v) (\<lambda>name. extensionLoop b (p + 4 + n) name (typ # seen))
            else extensionLoop b (p + 4 + n) sni (typ # seen)))))"
  by pat_completeness auto
termination
  by (relation "measure (\<lambda>(b, p, sni, seen). length b - p)") auto

declare extensionLoop.simps [simp del]

definition clientHelloSNI :: "string \<Rightarrow> wire_error + string" where
  "clientHelloSNI b =
     (if length b < 4 then Inl (Rejected ''not ClientHello'')
      else bind_result (byteAt b 0) (\<lambda>kind.
      if kind \<noteq> 1 then Inl (Rejected ''not ClientHello'')
      else if length b < 6 then Inl (Rejected ''legacy TLS version too old'')
      else bind_result (byteAt b 4) (\<lambda>major. bind_result (byteAt b 5) (\<lambda>minor.
      if major \<noteq> 3 \<or> minor < 3 then Inl (Rejected ''legacy TLS version too old'')
      else let p = 38 in
      if length b \<le> p then Inl UnexpectedEOF
      else bind_result (byteAt b p) (\<lambda>sid.
      let p1 = p + 1 + sid in
      if length b < p1 + 2 then Inl UnexpectedEOF
      else bind_result (uint16At b p1) (\<lambda>cs.
      if cs = 0 \<or> cs mod 2 \<noteq> 0 then Inl (Rejected ''bad cipher suites'')
      else let p2 = p1 + 2 + cs in
      if length b \<le> p2 then Inl UnexpectedEOF
      else bind_result (byteAt b p2) (\<lambda>cm.
      if cm = 0 \<or> length b < p2 + 1 + cm then Inl (Rejected ''null compression required'')
      else bind_result (sliceBytes b (p2 + 1) (p2 + 1 + cm)) (\<lambda>methods.
      if char_of (0::nat) \<notin> set methods then Inl (Rejected ''null compression required'')
      else let p3 = p2 + 1 + cm in
      if length b < p3 + 2 then Inl UnexpectedEOF
      else bind_result (uint16At b p3) (\<lambda>el.
      if p3 + 2 + el \<noteq> length b then Inl (Rejected ''bad extensions'')
      else bind_result (extensionLoop b (p3 + 2) [] []) (\<lambda>sni.
      if sni = [] then Inl (Rejected ''SNI required'')
      else bind_result (canonicalTarget (sni @ '':443'')) (\<lambda>_. Inr sni)))))))))))"

text \<open>\<open>readClientHello\<close>: at most 64 records; \<open>all\<close> collects the bytes of the records and \<open>hs\<close> their
  payloads. The result comes with what the reader still holds.\<close>

fun helloLoop :: "nat \<Rightarrow> string \<Rightarrow> string \<Rightarrow> string \<Rightarrow> string \<Rightarrow> wire_error + string \<times> string" where
  "helloLoop 0 want all hs r = Inl (Rejected ''ClientHello incomplete'')"
| "helloLoop (Suc k) want all hs r =
     (if 65536 \<le> int (length all) then Inl (Rejected ''ClientHello incomplete'')
      else bind_result (readFull 5 r) (\<lambda>(h, r1).
        if code (h ! 0) \<noteq> 22 \<or> code (h ! 1) \<noteq> 3 \<or> 4 < code (h ! 2) then Inl (Rejected ''non-TLS ClientHello'')
        else bind_result (uint16At h 3) (\<lambda>n.
          if n = 0 \<or> 65536 < int (length all + 5 + n) then Inl (Rejected ''ClientHello oversized'')
          else bind_result (readFull n r1) (\<lambda>(b, r2).
            let all' = all @ h @ b; hs' = hs @ b in
            if length hs' < 4 then helloLoop k want all' hs' r2
            else
              (let z = 65536 * int (code (hs' ! 1)) + 256 * int (code (hs' ! 2)) + int (code (hs' ! 3)) in
               if 65536 < z + 4 then Inl (Rejected ''handshake oversized'')
               else if int (length hs') < z + 4 then helloLoop k want all' hs' r2
               else if int (length hs') \<noteq> z + 4 then Inl (Rejected ''bytes after ClientHello'')
               else case clientHelloSNI hs' of
                      Inl Panic \<Rightarrow> Inl Panic
                    | Inl _ \<Rightarrow> Inl (Rejected ''SNI mismatch'')
                    | Inr sni \<Rightarrow> if sni \<noteq> want then Inl (Rejected ''SNI mismatch'') else Inr (all', r2))))))"

definition readClientHello :: "string \<Rightarrow> string \<Rightarrow> wire_error + string \<times> string" where
  "readClientHello r want = helloLoop 64 want [] [] r"

section \<open>Lemmas on bytes and requests\<close>

lemma code_char_of [simp]: "n < 256 \<Longrightarrow> code (char_of n) = n"
  by (simp add: code_def)

lemma code_char_mod: "code (char_of n) = n mod 256"
  by (simp add: code_def)

lemma putUint16_code: "putUint16 (256 * code a + code b) = [a, b]"
proof -
  have "(256 * code a + code b) div 256 = code a" "(256 * code a + code b) mod 256 = code b"
    using code_less [of b] by auto
  then show ?thesis by (simp add: putUint16_def)
qed

lemma length_putUint16 [simp]: "length (putUint16 n) = 2"
  by (simp add: putUint16_def)

lemma uint16At_put: "n < 65536 \<Longrightarrow> length pre = p \<Longrightarrow> uint16At (pre @ putUint16 n @ post) p = Inr n"
  by (auto simp: uint16At_def putUint16_def nth_append code_char_mod)

lemma uint16At_bytes:
  assumes "uint16At b p = Inr n"
  shows "n < 65536 \<and> p + 1 < length b \<and> take 2 (drop p b) = putUint16 n"
proof -
  have l: "p + 1 < length b" and n: "n = 256 * code (b ! p) + code (b ! (p + 1))"
    using assms by (auto simp: uint16At_def split: if_splits)
  have "drop p b = b ! p # b ! (p + 1) # drop (p + 2) b"
    using l by (metis Cons_nth_drop_Suc Suc_eq_plus1 Suc_lessD add_2_eq_Suc')
  then have "take 2 (drop p b) = putUint16 n" unfolding n putUint16_code by simp
  moreover have "256 * code (b ! p) + code (b ! (p + 1)) < 65536"
    using code_less [of "b ! p"] code_less [of "b ! (p + 1)"] by linarith
  ultimately show ?thesis using l n by simp
qed

lemma readFull_Inr:
  "0 < n \<Longrightarrow> readFull n s = Inr (a, r) \<longleftrightarrow> s = a @ r \<and> length a = n"
  by (auto simp: readFull_def)

lemma canonicalTarget_443: "canonicalTarget (name @ '':443'') = Inr h \<longleftrightarrow> ParseHostname name = Inr h"
  by (auto simp: canonicalTarget_def split: sum.split)

lemma canonicalTarget_iff: "canonicalTarget (name @ '':443'') = Inr name \<longleftrightarrow> is_ok (ParseHostname name)"
  using ParseHostname_same by (auto simp: canonicalTarget_443 is_ok_iff)

lemma length_requestHeader [simp]: "length (requestHeader n) = 10"
  by (simp add: requestHeader_def protocolMagic_def)

lemma requestHeader_iff:
  assumes "length h = 10"
  shows "(take 4 h = protocolMagic \<and> code (h ! 4) = 1 \<and> code (h ! 5) = 0 \<and> uint16At h 6 = Inr 443 \<and> uint16At h 8 = Inr n)
    \<longleftrightarrow> h = requestHeader n \<and> n < 65536"
proof
  assume a: "take 4 h = protocolMagic \<and> code (h ! 4) = 1 \<and> code (h ! 5) = 0 \<and> uint16At h 6 = Inr 443 \<and> uint16At h 8 = Inr n"
  have "h = take 4 h @ [h ! 4, h ! 5] @ take 2 (drop 6 h) @ take 2 (drop 8 h)"
    using assms by (simp add: list_eq_iff_nth_eq nth_append nth_Cons' less_Suc_eq numeral_eq_Suc)
  moreover have "h ! 4 = char_of (1::nat)" "h ! 5 = char_of (0::nat)" using a by (metis char_of_code)+
  ultimately show "h = requestHeader n \<and> n < 65536"
    using a uint16At_bytes [of h 6 443] uint16At_bytes [of h 8 n] by (simp add: requestHeader_def)
next
  assume a: "h = requestHeader n \<and> n < 65536"
  have "uint16At (requestHeader n) 6 = Inr 443"
    using uint16At_put [of 443 "protocolMagic @ [char_of (1::nat), char_of (0::nat)]" 6 "putUint16 n"]
    by (simp add: requestHeader_def protocolMagic_def)
  moreover have "uint16At (requestHeader n) 8 = Inr n"
    using a uint16At_put [of n "protocolMagic @ [char_of (1::nat), char_of (0::nat)] @ putUint16 443" 8 "[]"]
    by (simp add: requestHeader_def protocolMagic_def putUint16_def)
  ultimately show "take 4 h = protocolMagic \<and> code (h ! 4) = 1 \<and> code (h ! 5) = 0 \<and> uint16At h 6 = Inr 443 \<and> uint16At h 8 = Inr n"
    using a by (simp add: requestHeader_def protocolMagic_def)
qed

lemma hostname_length: "is_ok (ParseHostname name) \<Longrightarrow> 0 < length name \<and> length name \<le> 253"
  by (auto simp: is_ok_iff ParseHostname_ok)

lemma readRequest_iff:
  "readRequest r = Inr (name, rest) \<longleftrightarrow> is_ok (ParseHostname name) \<and> r = requestHeader (length name) @ name @ rest"
proof
  assume a: "readRequest r = Inr (name, rest)"
  then obtain h r1 n where h: "r = h @ r1" "length h = 10" and n: "uint16At h 8 = Inr n" and p: "uint16At h 6 = Inr 443"
    and m: "take 4 h = protocolMagic" "code (h ! 4) = 1" "code (h ! 5) = 0" and pos: "0 < n" "n \<le> 253"
    and nm: "readFull n r1 = Inr (name, rest)" "canonicalTarget (name @ '':443'') = Inr name"
    by (auto simp: readRequest_def bind_result_Inr readFull_Inr split: if_splits)
  have "h = requestHeader n" using requestHeader_iff [OF h(2), of n] m n p by blast
  then show "is_ok (ParseHostname name) \<and> r = requestHeader (length name) @ name @ rest"
    using nm pos h(1) by (auto simp: readFull_Inr canonicalTarget_iff)
next
  assume a: "is_ok (ParseHostname name) \<and> r = requestHeader (length name) @ name @ rest"
  let ?h = "requestHeader (length name)"
  have l: "0 < length name" "length name \<le> 253" using hostname_length a by blast+
  have "take 4 ?h = protocolMagic \<and> code (?h ! 4) = 1 \<and> code (?h ! 5) = 0 \<and> uint16At ?h 6 = Inr 443
      \<and> uint16At ?h 8 = Inr (length name)"
    using requestHeader_iff [of ?h "length name"] l by simp
  moreover have "readFull 10 r = Inr (?h, name @ rest)" "readFull (length name) (name @ rest) = Inr (name, rest)"
    using a l by (simp_all add: readFull_Inr)
  ultimately show "readRequest r = Inr (name, rest)"
    using a l by (simp add: readRequest_def canonicalTarget_iff)
qed

text \<open>The contract of \<open>io.Writer\<close>: no more bytes than given, and a short count comes with an error.
  \<open>sent\<close> is what the writer has passed on so far.\<close>

definition writer_ok :: "('w \<Rightarrow> string \<Rightarrow> nat \<times> wire_error option \<times> 'w) \<Rightarrow> ('w \<Rightarrow> string) \<Rightarrow> bool" where
  "writer_ok wr sent \<longleftrightarrow>
     (\<forall>w b n err w'. wr w b = (n, err, w') \<longrightarrow> n \<le> length b \<and> sent w' = sent w @ take n b \<and> (n < length b \<longrightarrow> err \<noteq> None))"

lemma writeFull_sound:
  assumes "writer_ok wr sent" and "writeFull wr w b = (None, w')"
  shows "sent w' = sent w @ b"
  using assms(2)
proof (induction b arbitrary: w rule: length_induct)
  case (1 b)
  show ?case
  proof (cases "b = []")
    case False
    obtain n err w1 where w: "wr w b = (n, err, w1)" by (metis prod_cases3)
    with 1(2) False have "err = None" "n \<noteq> 0" "n \<le> length b" "writeFull wr w1 (drop n b) = (None, w')"
      by (auto simp: writeFull.simps [of wr w b] split: if_splits)
    moreover have "sent w' = sent w1 @ drop n b"
      using 1(1) calculation False by simp
    moreover have "sent w1 = sent w @ take n b" using assms(1) w unfolding writer_ok_def by blast
    ultimately show ?thesis by simp
    next
    case True
    with 1(2) show ?thesis by (simp add: writeFull.simps)
  qed
qed

lemma writeRequest_sound:
  assumes "writer_ok wr sent" and "writeRequest wr w name = (None, w')"
  shows "is_ok (ParseHostname name) \<and> sent w' = sent w @ requestHeader (length name) @ name"
proof -
  from assms(2) obtain w1 where "is_ok (ParseHostname name)" and "writeFull wr w (requestHeader (length name)) = (None, w1)"
    and "writeFull wr w1 name = (None, w')"
    by (auto simp: writeRequest_def canonicalTarget_iff split: if_splits prod.splits option.splits)
  then show ?thesis using writeFull_sound [OF assms(1)] by fastforce
qed

section \<open>Lemmas on CONNECT\<close>

abbreviation "crlf \<equiv> [char_of (13::nat), char_of (10::nat)]"

definition pendingBytes :: "bufReader \<Rightarrow> string" where
  "pendingBytes r = br_buf r @ concat (br_chunks r)"

definition wireLines :: "string list \<Rightarrow> string" where
  "wireLines ls = concat (map (\<lambda>l. l @ crlf) ls)"

lemma wireLines_simps [simp]:
  "wireLines [] = []" "wireLines (l # ls) = l @ crlf @ wireLines ls" "wireLines (ls @ ms) = wireLines ls @ wireLines ms"
  by (simp_all add: wireLines_def)

lemma takeLine_Some: "takeLine s = Some (l, r) \<Longrightarrow> s = l @ r"
  by (induction s arbitrary: l) (auto split: if_splits option.splits)

lemma readString_bytes:
  "readString buf limit cs = ((line, True), r') \<Longrightarrow> buf @ concat cs = line @ pendingBytes r'"
proof (induction buf limit cs rule: readString.induct)
  case (1 buf limit)
  then show ?case by (auto simp: pendingBytes_def dest: takeLine_Some split: option.splits)
next
  case (2 buf limit c cs)
  show ?case
  proof (cases "takeLine buf")
    case (Some lr)
    obtain l t where "lr = (l, t)" by (meson surj_pair)
    with Some 2(3) show ?thesis by (auto simp: pendingBytes_def dest: takeLine_Some)
  next
    case None
    show ?thesis
    proof (cases "int (length c) \<le> limit")
      case True
      then show ?thesis using 2(1) [OF None] 2(3) None by (auto split: if_splits)
    next
      case False
      then have "(buf @ take (nat limit) c) @ concat (drop (nat limit) c # cs) = line @ pendingBytes r'"
        using 2(2) [OF None _ False] 2(3) None by (auto split: if_splits)
      then have "buf @ (take (nat limit) c @ drop (nat limit) c) @ concat cs = line @ pendingBytes r'"
        by (simp only: append_assoc concat.simps)
      then show ?thesis unfolding append_take_drop_id by simp
    qed
  qed
qed

lemma crlf_line:
  assumes "\<not> (length line < 2 \<or> drop (length line - 2) line \<noteq> crlf)"
  shows "line = take (length line - 2) line @ crlf"
  using assms by (metis append_take_drop_id)

lemma headerLoop_bytes:
  "headerLoop n tot ls r = Inr (ls', True, r') \<Longrightarrow>
     \<exists>new. ls' = ls @ new \<and> pendingBytes r = wireLines new @ crlf @ pendingBytes r'
       \<and> int (tot + length (wireLines new) + 2) \<le> 8192"
proof (induction n arbitrary: tot ls r)
  case (Suc n)
  obtain line found r1 where rs: "readString (br_buf r) (br_limit r) (br_chunks r) = ((line, found), r1)"
    by (metis surj_pair)
  define l where "l = take (length line - 2) line"
  from Suc.prems rs have found: "found" and sz: "int (tot + length line) \<le> 8192"
    and ok: "\<not> (length line < 2 \<or> drop (length line - 2) line \<noteq> crlf)"
    and res: "(if l = [] then Inr (ls, True, r1) else headerLoop n (tot + length line) (ls @ [l]) r1) = Inr (ls', True, r')"
    by (auto simp: Let_def l_def split: if_splits)
  have line: "line = l @ crlf" unfolding l_def by (rule crlf_line [OF ok])
  have "pendingBytes r = line @ pendingBytes r1"
    using readString_bytes [of "br_buf r" "br_limit r" "br_chunks r" line r1] rs found by (simp add: pendingBytes_def)
  then have pend: "pendingBytes r = l @ crlf @ pendingBytes r1" using line by simp
  show ?case
  proof (cases "l = []")
    case True
    with res pend line sz show ?thesis by (intro exI [of _ "[]"]) auto
  next
    case False
    with res have "headerLoop n (tot + length line) (ls @ [l]) r1 = Inr (ls', True, r')" by simp
    from Suc.IH [OF this] obtain new where new: "ls' = ls @ l # new" "pendingBytes r1 = wireLines new @ crlf @ pendingBytes r'"
      "int (tot + length line + length (wireLines new) + 2) \<le> 8192" by auto
    then show ?thesis using pend line by (intro exI [of _ "l # new"]) auto
  qed
qed simp

definition headerName :: "string \<Rightarrow> string" where
  "headerName l = asciiLower (takeWhile (\<lambda>c. c \<noteq> CHR '':'') l)"

definition headerValue :: "string \<Rightarrow> string" where
  "headerValue l = dropWhile (\<lambda>c. code c = 32 \<or> code c = 9) (tl (dropWhile (\<lambda>c. c \<noteq> CHR '':'') l))"

lemma headerLine_ok:
  assumes "headerLine target l (a, b) = Inr (a', b')"
  shows "a' = a + of_bool (headerName l = ''host'') \<and> b' = b + of_bool (headerName l = ''content-length'')
    \<and> headerName l \<noteq> ''transfer-encoding'' \<and> headerName l \<noteq> ''proxy-authorization''
    \<and> (headerName l = ''host'' \<longrightarrow> headerValue l = target)
    \<and> (headerName l = ''content-length'' \<longrightarrow> b = 0 \<and> headerValue l = ''0'')"
  using assms unfolding headerLine_def headerName_def [symmetric] headerValue_def [symmetric] Let_def
  by (auto split: if_splits)

lemma headerLines_ok:
  "headerLines target ls (a, b) = Inr (a', b') \<Longrightarrow>
     a' = a + length (filter (\<lambda>l. headerName l = ''host'') ls)
     \<and> (\<forall>l\<in>set ls. headerName l \<noteq> ''transfer-encoding'' \<and> headerName l \<noteq> ''proxy-authorization''
          \<and> (headerName l = ''host'' \<longrightarrow> headerValue l = target)
          \<and> (headerName l = ''content-length'' \<longrightarrow> headerValue l = ''0''))"
proof (induction ls arbitrary: a b)
  case (Cons l ls)
  then obtain a1 b1 where h: "headerLine target l (a, b) = Inr (a1, b1)" and t: "headerLines target ls (a1, b1) = Inr (a', b')"
    by (auto simp: bind_result_Inr)
  from headerLine_ok [OF h] Cons.IH [OF t] show ?case by auto
qed simp

lemma canonicalTarget_suffix:
  assumes "canonicalTarget t = Inr name"
  shows "t = name @ '':443'' \<and> is_ok (ParseHostname name)"
proof -
  from assms have s: "has_suffix t '':443''" and "ParseHostname (trim_suffix t '':443'') = Inr name"
    by (auto simp: canonicalTarget_def split: if_splits sum.splits)
  then show ?thesis using ParseHostname_same has_suffix_trim [OF s] by (metis is_ok.simps(2))
qed

section \<open>Lemmas on ClientHello\<close>

lemma byteAt_ok: "p < length b \<Longrightarrow> byteAt b p = Inr (code (b ! p))"
  by (simp add: byteAt_def)

lemma uint16At_ok: "p + 1 < length b \<Longrightarrow> \<exists>n. uint16At b p = Inr n"
  by (simp add: uint16At_def)

lemma sliceBytes_ok: "p \<le> q \<Longrightarrow> q \<le> length b \<Longrightarrow> sliceBytes b p q = Inr (take (q - p) (drop p b))"
  by (simp add: sliceBytes_def)

lemma sniExtension_no_panic: "sniExtension sni v \<noteq> Inl Panic"
proof (cases "length v < 5")
  case False
  then obtain a b where "uint16At v 0 = Inr a" "uint16At v 3 = Inr b" using uint16At_ok [of 0 v] uint16At_ok [of 3 v] by auto
  with False show ?thesis by (simp add: sniExtension_def byteAt_def sliceBytes_def)
qed (simp add: sniExtension_def)

lemma extensionLoop_no_panic: "extensionLoop b p sni seen \<noteq> Inl Panic"
proof (induction b p sni seen rule: extensionLoop.induct)
  case (1 b p sni seen)
  show ?case
  proof (cases "p + 4 \<le> length b")
    case True
    then obtain ty n where u: "uint16At b p = Inr ty" "uint16At b (p + 2) = Inr n"
      using uint16At_ok [of p b] uint16At_ok [of "p + 2" b] by auto
    have lt: "\<not> length b \<le> p" "\<not> length b < p + 4" using True by auto
    show ?thesis
    proof (cases "length b < p + 4 + n")
      case False
      define v where "v = take n (drop (p + 4) b)"
      have sl: "sliceBytes b (p + 4) (p + 4 + n) = Inr v" using False by (simp add: sliceBytes_def v_def)
      have "extensionLoop b (p + 4 + n) name (ty # seen) \<noteq> Inl Panic" if "ty \<notin> set seen" "int ty \<noteq> 65037 \<and> int ty \<noteq> 65486"
        "ty = 0" "sniExtension sni v = Inr name" for name
        using 1(1) [OF lt False] that by blast
      moreover have "extensionLoop b (p + 4 + n) sni (ty # seen) \<noteq> Inl Panic"
        if "ty \<notin> set seen" "int ty \<noteq> 65037 \<and> int ty \<noteq> 65486" "ty \<noteq> 0"
        using 1(2) [OF lt False] that by blast
      ultimately show ?thesis
        using sniExtension_no_panic [of sni v] lt u sl False
        by (auto simp: extensionLoop.simps [of b p] bind_result_Inl)
    qed (use lt u in \<open>simp add: extensionLoop.simps [of b p]\<close>)
  qed (simp add: extensionLoop.simps [of b p])
qed

lemma clientHelloSNI_no_panic: "clientHelloSNI b \<noteq> Inl Panic"
proof -
  have c: "canonicalTarget t \<noteq> Inl Panic" for t by (simp add: canonicalTarget_def split: sum.split)
  show ?thesis
    unfolding clientHelloSNI_def Let_def
    by (auto simp: bind_result_Inl byteAt_def uint16At_def sliceBytes_def extensionLoop_no_panic c split: if_splits)
qed

text \<open>An extension as it stands on the wire, and what the loop accepts: a sequence of extensions of distinct
  types without encrypted ClientHello, of which the one of type 0 holds the server name.\<close>

definition extensionBytes :: "nat \<times> string \<Rightarrow> string" where
  "extensionBytes e = putUint16 (fst e) @ putUint16 (length (snd e)) @ snd e"

definition serverNameBytes :: "string \<Rightarrow> string" where
  "serverNameBytes name = putUint16 (length name + 3) @ [char_of (0::nat)] @ putUint16 (length name) @ name"

lemma sniExtension_ok:
  assumes "sniExtension sni v = Inr name"
  shows "v = serverNameBytes name \<and> sni = []"
proof -
  from assms have l: "5 \<le> length v" and sni: "sni = []" by (auto simp: sniExtension_def split: if_splits)
  obtain a b c d e w where v: "v = a # b # c # d # e # w"
    using l by (auto simp: numeral_eq_Suc Suc_le_length_iff)
  from assms v have n: "256 * code a + code b = length w + 3" "code c = 0" "256 * code d + code e = length w" "name = w"
    by (auto simp: sniExtension_def uint16At_def byteAt_def sliceBytes_def split: if_splits)
  have "[a, b] = putUint16 (length w + 3)" "[d, e] = putUint16 (length w)" "c = char_of (0::nat)"
    using putUint16_code [of a b] putUint16_code [of d e] n(1-3) char_of_code [of c] by auto
  then show ?thesis using v n(4) sni by (simp add: serverNameBytes_def)
qed

lemma split_extension:
  assumes "uint16At b p = Inr ty" and "uint16At b (p + 2) = Inr n" and "p + 4 + n \<le> length b"
  shows "drop p b = extensionBytes (ty, take n (drop (p + 4) b)) @ drop (p + 4 + n) b"
proof -
  have "drop p b = take 2 (drop p b) @ take 2 (drop (p + 2) b) @ take n (drop (p + 4) b) @ drop (p + 4 + n) b"
    by (metis (no_types, lifting) add.assoc add.commute append_take_drop_id drop_drop numeral_Bit0)
  then show ?thesis
    using uint16At_bytes [OF assms(1)] uint16At_bytes [OF assms(2)] assms(3) by (simp add: extensionBytes_def)
qed

definition extensionsOk :: "(nat \<times> string) list \<Rightarrow> bool" where
  "extensionsOk es \<longleftrightarrow> distinct (map fst es) \<and> 65037 \<notin> set (map fst es) \<and> 65486 \<notin> set (map fst es)"

lemma extensionLoop_ok:
  "extensionLoop b p sni seen = Inr name \<Longrightarrow>
     \<exists>es. drop p b = concat (map extensionBytes es) \<and> extensionsOk es \<and> set (map fst es) \<inter> set seen = {}
       \<and> (if 0 \<in> set (map fst es) then sni = [] \<and> (0, serverNameBytes name) \<in> set es else name = sni)"
proof (induction b p sni seen rule: extensionLoop.induct)
  case (1 b p sni seen)
  show ?case
  proof (cases "length b \<le> p")
    case True
    with 1(3) show ?thesis by (intro exI [of _ "[]"]) (simp add: extensionLoop.simps [of b p] extensionsOk_def)
  next
    case False
    with 1(3) obtain ty n where lt: "\<not> length b < p + 4" and u: "uint16At b p = Inr ty" "uint16At b (p + 2) = Inr n"
      and ln: "\<not> length b < p + 4 + n"
      by (auto simp: extensionLoop.simps [of b p] bind_result_Inr split: if_splits)
    define v where "v = take n (drop (p + 4) b)"
    have sl: "sliceBytes b (p + 4) (p + 4 + n) = Inr v" using ln by (simp add: sliceBytes_def v_def)
    have new: "ty \<notin> set seen" "\<not> (int ty = 65037 \<or> int ty = 65486)"
      using 1(3) False lt u ln sl by (auto simp: extensionLoop.simps [of b p] split: if_splits)
    have split: "drop p b = extensionBytes (ty, v) @ drop (p + 4 + n) b"
      unfolding v_def by (rule split_extension [OF u]) (use ln in simp)
    show ?thesis
    proof (cases "ty = 0")
      case True
      then obtain nm where nm: "sniExtension sni v = Inr nm" and rec: "extensionLoop b (p + 4 + n) nm (ty # seen) = Inr name"
        using 1(3) False lt u ln sl new by (auto simp: extensionLoop.simps [of b p] bind_result_Inr split: if_splits)
      from 1(1) [OF False lt ln new True rec] obtain es where es: "drop (p + 4 + n) b = concat (map extensionBytes es)"
        "extensionsOk es" "set (map fst es) \<inter> set (ty # seen) = {}"
        "if 0 \<in> set (map fst es) then nm = [] \<and> (0, serverNameBytes name) \<in> set es else name = nm" by blast
      have "0 \<notin> set (map fst es)" using es(3) True by auto
      then show ?thesis using split es new True sniExtension_ok [OF nm]
        by (intro exI [of _ "(ty, v) # es"]) (auto simp: extensionsOk_def)
    next
      case nz: False
      then have rec: "extensionLoop b (p + 4 + n) sni (ty # seen) = Inr name"
        using 1(3) False lt u ln sl new by (auto simp: extensionLoop.simps [of b p] split: if_splits)
      from 1(2) [OF False lt ln new nz rec] obtain es where "drop (p + 4 + n) b = concat (map extensionBytes es)"
        "extensionsOk es" "set (map fst es) \<inter> set (ty # seen) = {}"
        "if 0 \<in> set (map fst es) then sni = [] \<and> (0, serverNameBytes name) \<in> set es else name = sni" by blast
      then show ?thesis using split new nz
        by (intro exI [of _ "(ty, v) # es"]) (auto simp: extensionsOk_def)
    qed
  qed
qed

lemma clientHelloSNI_ok:
  assumes "clientHelloSNI b = Inr name"
  shows "is_ok (ParseHostname name) \<and>
    (\<exists>pre es. b = pre @ concat (map extensionBytes es) \<and> extensionsOk es \<and> (0, serverNameBytes name) \<in> set es)"
proof -
  from assms obtain p where e: "extensionLoop b p [] [] = Inr name" and ne: "name \<noteq> []"
    and c: "canonicalTarget (name @ '':443'') \<noteq> Inl x" for x
    unfolding clientHelloSNI_def Let_def
    by (auto simp: bind_result_Inr split: if_splits)
  from extensionLoop_ok [OF e] ne obtain es where "drop p b = concat (map extensionBytes es)" "extensionsOk es"
    "(0, serverNameBytes name) \<in> set es" by (auto split: if_splits)
  moreover have "is_ok (ParseHostname name)"
    using c canonicalTarget_443 [of name] ParseHostname_same by (cases "canonicalTarget (name @ '':443'')") (auto simp: is_ok_iff)
  ultimately show ?thesis by (metis append_take_drop_id)
qed

text \<open>A handshake record on the wire.\<close>

definition tlsRecord :: "char \<times> string \<Rightarrow> string" where
  "tlsRecord x = [char_of (22::nat), char_of (3::nat), fst x] @ putUint16 (length (snd x)) @ snd x"

lemma five_bytes:
  assumes "length h = 5" and "code (h ! 0) = 22" and "code (h ! 1) = 3" and "uint16At h 3 = Inr n"
  shows "h = [char_of (22::nat), char_of (3::nat), h ! 2] @ putUint16 n"
proof -
  obtain a b c d e where h: "h = [a, b, c, d, e]"
    using assms(1) by (auto simp: numeral_eq_Suc length_Suc_conv)
  have "n = 256 * code d + code e" using assms(4) h by (simp add: uint16At_def)
  moreover have "a = char_of (22::nat)" "b = char_of (3::nat)" using assms(2,3) h by (metis char_of_code nth_Cons_0 nth_Cons_Suc One_nat_def)+
  ultimately show ?thesis using putUint16_code [of d e] h by simp
qed

lemma helloLoop_ok:
  "helloLoop k want all hs r = Inr (all', rest) \<Longrightarrow>
     \<exists>recs. r = concat (map tlsRecord recs) @ rest \<and> all' = all @ concat (map tlsRecord recs) \<and> recs \<noteq> []
       \<and> clientHelloSNI (hs @ concat (map snd recs)) = Inr want \<and> int (length all') \<le> 65536"
proof (induction k arbitrary: all hs r)
  case (Suc k)
  from Suc.prems obtain h r1 n b r2 where h: "readFull 5 r = Inr (h, r1)" "code (h ! 0) = 22" "code (h ! 1) = 3"
    and n: "uint16At h 3 = Inr n" "n \<noteq> 0" "int (length all + 5 + n) \<le> 65536" and b: "readFull n r1 = Inr (b, r2)"
    by (auto simp: bind_result_Inr split: if_splits)
  have r: "r = h @ b @ r2" and lh: "length h = 5" and lb: "length b = n"
    using h(1) b n(2) by (auto simp: readFull_Inr)
  have rec: "h @ b = tlsRecord (h ! 2, b)"
    using five_bytes [OF lh h(2,3) n(1)] lb by (simp add: tlsRecord_def)
  have cases: "helloLoop k want (all @ h @ b) (hs @ b) r2 = Inr (all', rest)
      \<or> (clientHelloSNI (hs @ b) = Inr want \<and> all' = all @ h @ b \<and> rest = r2)"
    using Suc.prems h n b
    by (auto simp: Let_def split: if_splits sum.splits wire_error.splits)
  then show ?case
  proof
    assume "helloLoop k want (all @ h @ b) (hs @ b) r2 = Inr (all', rest)"
    from Suc.IH [OF this] obtain recs where "r2 = concat (map tlsRecord recs) @ rest"
      "all' = (all @ h @ b) @ concat (map tlsRecord recs)" "clientHelloSNI ((hs @ b) @ concat (map snd recs)) = Inr want"
      "int (length all') \<le> 65536" by blast
    then show ?thesis using r rec [symmetric] by (intro exI [of _ "(h ! 2, b) # recs"]) simp
  next
    assume "clientHelloSNI (hs @ b) = Inr want \<and> all' = all @ h @ b \<and> rest = r2"
    then show ?thesis using r rec [symmetric] n(3) lh lb by (intro exI [of _ "[(h ! 2, b)]"]) simp
  qed
qed simp

section \<open>Properties\<close>

text \<open>Forward requests round-trip: reading a request succeeds exactly on the ten header bytes for the length
  of a valid host name followed by that name, leaves the rest of the stream untouched, and such bytes are
  what a successful write has sent over any writer that keeps its contract.\<close>

theorem forward_request_round_trip:
  "(\<forall>r name rest. readRequest r = Inr (name, rest) \<longleftrightarrow>
       is_ok (ParseHostname name) \<and> r = requestHeader (length name) @ name @ rest)
   \<and> (\<forall>w name w' rest. writer_ok wr sent \<and> writeRequest wr w name = (None, w') \<longrightarrow>
       (\<exists>bytes. sent w' = sent w @ bytes \<and> readRequest (bytes @ rest) = Inr (name, rest)))"
proof (intro conjI allI impI)
  show "readRequest r = Inr (name, rest) \<longleftrightarrow> is_ok (ParseHostname name) \<and> r = requestHeader (length name) @ name @ rest"
    for r name rest by (rule readRequest_iff)
  show "\<exists>bytes. sent w' = sent w @ bytes \<and> readRequest (bytes @ rest) = Inr (name, rest)"
    if "writer_ok wr sent \<and> writeRequest wr w name = (None, w')" for w name w' rest
    using writeRequest_sound [of wr sent w name w'] that
    by (intro exI [of _ "requestHeader (length name) @ name"]) (simp add: readRequest_iff)
qed

definition bufferWrite :: "string \<Rightarrow> string \<Rightarrow> nat \<times> wire_error option \<times> string" where
  "bufferWrite w b = (length b, None, w @ b)"

lemma forward_request_round_trip_witness:
  "\<exists>bytes. snd (writeRequest bufferWrite [] ''api.github.com'') = [] @ bytes
     \<and> readRequest (bytes @ ''tail'') = Inr (''api.github.com'', ''tail'')"
proof -
  have ok: "writer_ok bufferWrite id" by (simp add: writer_ok_def bufferWrite_def)
  have w: "writeRequest bufferWrite [] ''api.github.com'' = (None, snd (writeRequest bufferWrite [] ''api.github.com''))"
    by code_simp
  from forward_request_round_trip [of bufferWrite id] have
    "\<forall>w name w' rest. writer_ok bufferWrite id \<and> writeRequest bufferWrite w name = (None, w') \<longrightarrow>
       (\<exists>bytes. id w' = id w @ bytes \<and> readRequest (bytes @ rest) = Inr (name, rest))" ..
  from this [rule_format, OF conjI [OF ok w], of "''tail''"] show ?thesis by simp
qed

text \<open>A CONNECT request is forwarded exactly: when the forwarder accepts a request, what it read is the
  request line \<open>CONNECT name:443 HTTP/1.1\<close> with at most 64 header lines of at most 8192 bytes in all and
  nothing buffered behind them, exactly one Host header, which equals the target, no transfer coding and
  no body; the name is a valid egress host name, and the proxy reads back that same name.\<close>

theorem connect_request_exact:
  assumes "parseCONNECT chunks = Inr name"
  shows "is_ok (ParseHostname name)
    \<and> (\<exists>hs unread. concat chunks = ''CONNECT '' @ name @ '':443 HTTP/1.1'' @ crlf @ wireLines hs @ crlf @ unread
         \<and> length hs \<le> 64 \<and> length (filter (\<lambda>l. headerName l = ''host'') hs) = 1
         \<and> (\<forall>l\<in>set hs. headerName l \<noteq> ''transfer-encoding'' \<and> headerName l \<noteq> ''proxy-authorization''
              \<and> (headerName l = ''host'' \<longrightarrow> headerValue l = name @ '':443'')
              \<and> (headerName l = ''content-length'' \<longrightarrow> headerValue l = ''0'')))
    \<and> readRequest (requestHeader (length name) @ name @ rest) = Inr (name, rest)"
proof -
  from assms obtain ls r target cl where loop: "headerLoop 66 0 [] \<lparr>br_buf = [], br_limit = 8193, br_chunks = chunks\<rparr> = Inr (ls, True, r)"
    and ne: "ls \<noteq> []" "length ls - 1 \<le> 64" and line: "hd ls = ''CONNECT'' @ '' '' @ target @ '' '' @ ''HTTP/1.1''"
    and hd: "headerLines target (tl ls) (0, 0) = Inr (1, cl)" and buf: "br_buf r = []" and t: "canonicalTarget target = Inr name"
    by (auto simp: parseCONNECT_def bind_result_Inr split: if_splits option.splits)
  from headerLoop_bytes [OF loop] have bytes: "concat chunks = wireLines ls @ crlf @ concat (br_chunks r)"
    using buf by (auto simp: pendingBytes_def)
  have tg: "target = name @ '':443''" "is_ok (ParseHostname name)" using canonicalTarget_suffix [OF t] by auto
  have ls: "ls = (''CONNECT '' @ name @ '':443 HTTP/1.1'') # tl ls" using ne(1) line tg(1) by (cases ls) auto
  have "concat chunks = ''CONNECT '' @ name @ '':443 HTTP/1.1'' @ crlf @ wireLines (tl ls) @ crlf @ concat (br_chunks r)"
    using bytes by (subst (asm) ls) simp
  moreover have "length (tl ls) \<le> 64" using ne by simp
  moreover note headerLines_ok [OF hd]
  ultimately show ?thesis using tg readRequest_iff by auto
qed

abbreviation "connectExample \<equiv> [''CONNECT api.github.com:443 HTTP/1.1'' @ crlf, ''Host: api.github.com:443'' @ crlf @ crlf]"

lemma connect_request_exact_witness:
  "readRequest (requestHeader (length ''api.github.com'') @ ''api.github.com'' @ ''x'') = Inr (''api.github.com'', ''x'')"
proof -
  have "parseCONNECT connectExample = Inr ''api.github.com''" by code_simp
  from connect_request_exact [OF this, of "''x''"] show ?thesis by blast
qed


definition helloExample :: string where
  "helloExample =
     (let ext = extensionBytes (0, serverNameBytes ''a.dev'');
          body = [char_of (3::nat), char_of (3::nat)] @ replicate 32 (char_of (7::nat)) @ [char_of (0::nat)] @ putUint16 2 @ putUint16 1
                   @ [char_of (1::nat), char_of (0::nat)] @ putUint16 (length ext) @ ext
      in tlsRecord (char_of (1::nat), [char_of (1::nat), char_of (0::nat)] @ putUint16 (length body) @ body))"


end
