(* ===== verification/Netip.thy ===== *)
theory Netip
  imports Egress_Policy "HOL-Library.Word"
begin

unbundle bit_operations_syntax

text \<open>
  Addresses and prefixes as the code uses \<open>net/netip\<close>: an address is invalid, an IPv4 address or an IPv6 address with a
  zone; a prefix contains an interval of addresses. And their texts, as the package reads and prints them: the policy document of the
  administrator holds them as strings (\<open>src/internal/egresspolicy/config.go\<close>) and the currentness proof turns
  them into prefixes (\<open>src/internal/egressproxy/currentness.go\<close>). A failed parse is \<open>None\<close>; no caller looks at the
  message. An IPv6 address is collected in groups of 16 bits.
\<close>

section \<open>Addresses\<close>

datatype Addr = InvalidAddr | V4 "32 word" | V6 "128 word" string

datatype Prefix = P4 "32 word" nat | P6 "128 word" nat

definition ip4 :: "int \<Rightarrow> int \<Rightarrow> int \<Rightarrow> int \<Rightarrow> 32 word" where
  "ip4 a b c d = word_of_int (((a * 256 + b) * 256 + c) * 256 + d)"

definition ip6 :: "int list \<Rightarrow> 128 word" where
  "ip6 gs = word_of_int (foldl (\<lambda>acc g. acc * 65536 + g) 0 gs)"

definition Unmap :: "Addr \<Rightarrow> Addr" where
  "Unmap a =
     (case a of
        V6 w z \<Rightarrow> if drop_bit 32 w = 0xffff then V4 (ucast w) else a
      | _ \<Rightarrow> a)"

definition Zone :: "Addr \<Rightarrow> string" where
  "Zone a = (case a of V6 w z \<Rightarrow> z | _ \<Rightarrow> [])"

definition Contains :: "Prefix \<Rightarrow> Addr \<Rightarrow> bool" where
  "Contains p a =
     (case (p, a) of
        (P4 q n, V4 w) \<Rightarrow> drop_bit (32 - n) (w XOR q) = 0
      | (P6 q n, V6 w z) \<Rightarrow> z = [] \<and> drop_bit (128 - n) (w XOR q) = 0
      | _ \<Rightarrow> False)"

section \<open>Prefixes as intervals\<close>

lemma xor_zero_iff: "(x :: 'l::len word) XOR y = 0 \<longleftrightarrow> x = y"
  by (auto simp: bit_eq_iff bit_simps)

lemma drop_bit_xor_zero_iff:
  fixes a p :: "'l::len word"
  shows "drop_bit k (a XOR p) = 0 \<longleftrightarrow> drop_bit k a = drop_bit k p"
  by (simp add: drop_bit_xor xor_zero_iff)

lemma uint_drop_bit: "uint (drop_bit k (a :: 'l::len word)) = uint a div 2 ^ k"
proof -
  have "take_bit LENGTH('l) (uint a) = uint a" by (rule take_bit_int_eq_self) (simp_all add: uint_lt2p)
  then show ?thesis unfolding unsigned_drop_bit_eq by (simp only: drop_bit_eq_div)
qed

lemma same_quotient_iff:
  fixes a p m :: int
  assumes "0 < m" and "p mod m = 0"
  shows "a div m = p div m \<longleftrightarrow> p \<le> a \<and> a < p + m"
proof
  have p: "p = m * (p div m)" using assms(2) by (metis add_0_right mult_div_mod_eq)
  have a: "a = m * (a div m) + a mod m" "0 \<le> a mod m" "a mod m < m" using assms(1) by simp_all
  show "p \<le> a \<and> a < p + m" if "a div m = p div m"
  proof -
    have "a = p + a mod m" using p a(1) that by simp
    with a show ?thesis by linarith
  qed
  show "a div m = p div m" if h: "p \<le> a \<and> a < p + m"
  proof -
    have "(a - p) div m = 0" using h assms(1) by (intro div_pos_pos_trivial) auto
    moreover have "a div m = (m * (p div m) + (a - p)) div m" using p by simp
    ultimately show ?thesis using assms(1) by simp
  qed
qed

lemma masked_prefix_interval:
  fixes a p :: "'l::len word"
  assumes m: "uint p mod 2 ^ k = 0"
  shows "drop_bit k (a XOR p) = 0 \<longleftrightarrow> uint p \<le> uint a \<and> uint a < uint p + 2 ^ k"
  by (subst drop_bit_xor_zero_iff, subst word_uint_eq_iff, subst (1 2) uint_drop_bit, rule same_quotient_iff)
    (use m in simp_all)

text \<open>The reference: the half-open interval of addresses a prefix stands for.\<close>

definition inRange :: "Prefix \<Rightarrow> Addr \<Rightarrow> bool" where
  "inRange p a =
     (case (p, a) of
        (P4 q n, V4 w) \<Rightarrow> uint q \<le> uint w \<and> uint w < uint q + 2 ^ (32 - n)
      | (P6 q n, V6 w z) \<Rightarrow> z = [] \<and> uint q \<le> uint w \<and> uint w < uint q + 2 ^ (128 - n)
      | _ \<Rightarrow> False)"

definition masked :: "Prefix \<Rightarrow> bool" where
  "masked p = (case p of P4 q n \<Rightarrow> uint q mod 2 ^ (32 - n) = 0 | P6 q n \<Rightarrow> uint q mod 2 ^ (128 - n) = 0)"

lemma Contains_inRange: "masked p \<Longrightarrow> Contains p a = inRange p a"
  by (cases p; cases a)
    (simp_all add: masked_def Contains_def inRange_def masked_prefix_interval del: drop_bit_xor mod_0_imp_dvd)

section \<open>Reading addresses\<close>

text \<open>The fields of a dotted quad. \<open>boundary\<close> holds at the start and after a dot.\<close>

fun parseIPv4Fields :: "bool \<Rightarrow> nat \<Rightarrow> nat \<Rightarrow> nat list \<Rightarrow> string \<Rightarrow> nat list option" where
  "parseIPv4Fields boundary val digLen octs [] =
     (if length octs < 3 then None else Some (octs @ [val]))"
| "parseIPv4Fields boundary val digLen octs (c # s) =
     (if is_digit c then
        (if digLen = 1 \<and> val = 0 then None
         else let v = val * 10 + (code c - 48) in
              if 255 < v then None else parseIPv4Fields False v (Suc digLen) octs s)
      else if c = CHR ''.'' then
        (if boundary \<or> s = [] then None
         else if length octs = 3 then None
         else parseIPv4Fields True 0 0 (octs @ [val]) s)
      else None)"

definition parseIPv4 :: "string \<Rightarrow> Addr option" where
  "parseIPv4 s =
     (case parseIPv4Fields True 0 0 [] s of
        Some [a, b, c, d] \<Rightarrow> Some (V4 (ip4 (int a) (int b) (int c) (int d)))
      | _ \<Rightarrow> None)"

text \<open>One hexadecimal group: the number of digits, the value and what follows.\<close>

definition hexValue :: "char \<Rightarrow> nat option" where
  "hexValue c = (case digit_of c of None \<Rightarrow> None | Some d \<Rightarrow> if d < 16 then Some d else None)"

fun hexGroup :: "nat \<Rightarrow> nat \<Rightarrow> string \<Rightarrow> (nat \<times> nat \<times> string) option" where
  "hexGroup off acc [] = Some (off, acc, [])"
| "hexGroup off acc (c # s) =
     (case hexValue c of
        None \<Rightarrow> Some (off, acc, c # s)
      | Some d \<Rightarrow> if 3 < off then None
                  else if 65535 < acc * 16 + d then None
                  else hexGroup (Suc off) (acc * 16 + d) s)"

text \<open>The loop over the groups: those read so far, the position of the ellipsis and the rest of the text.\<close>

function groupLoop :: "nat list \<Rightarrow> nat option \<Rightarrow> string \<Rightarrow> (nat list \<times> nat option \<times> string) option" where
  "groupLoop gs ellipsis s =
     (if 8 \<le> length gs then Some (gs, ellipsis, s)
      else case hexGroup 0 0 s of
        None \<Rightarrow> None
      | Some (off, acc, rest) \<Rightarrow>
          if off = 0 then None
          else if rest \<noteq> [] \<and> hd rest = CHR ''.'' then
            (if ellipsis = None \<and> length gs \<noteq> 6 then None
             else if 8 < length gs + 2 then None
             else case parseIPv4Fields True 0 0 [] s of
               Some [a, b, c, d] \<Rightarrow> Some (gs @ [a * 256 + b, c * 256 + d], ellipsis, [])
             | _ \<Rightarrow> None)
          else if rest = [] then Some (gs @ [acc], ellipsis, [])
          else if hd rest \<noteq> CHR '':'' then None
          else if length rest = 1 then None
          else if hd (tl rest) = CHR '':'' then
            (if ellipsis \<noteq> None then None
             else if tl (tl rest) = [] then Some (gs @ [acc], Some (length gs + 1), [])
             else groupLoop (gs @ [acc]) (Some (length gs + 1)) (tl (tl rest)))
          else groupLoop (gs @ [acc]) ellipsis (tl rest))"
  by pat_completeness auto
termination by (relation "measure (\<lambda>(gs, _, _). 8 - length gs)") auto

declare groupLoop.simps [simp del]

definition expandGroups :: "nat list \<Rightarrow> nat option \<Rightarrow> nat list option" where
  "expandGroups gs ellipsis =
     (if length gs < 8 then
        (case ellipsis of
           None \<Rightarrow> None
         | Some e \<Rightarrow> Some (take e gs @ replicate (8 - length gs) 0 @ drop e gs))
      else if ellipsis \<noteq> None then None
      else Some gs)"

definition parseGroups :: "string \<Rightarrow> nat list option" where
  "parseGroups s =
     (let leading = has_prefix s ''::''; s1 = (if leading then drop 2 s else s) in
      if leading \<and> s1 = [] then Some (replicate 8 0)
      else case groupLoop [] (if leading then Some 0 else None) s1 of
        None \<Rightarrow> None
      | Some (gs, ellipsis, rest) \<Rightarrow> if rest \<noteq> [] then None else expandGroups gs ellipsis)"

definition parseIPv6 :: "string \<Rightarrow> Addr option" where
  "parseIPv6 s =
     (let addr = takeWhile (\<lambda>c. c \<noteq> CHR ''%'') s; rest = dropWhile (\<lambda>c. c \<noteq> CHR ''%'') s; zone = tl rest in
      if rest \<noteq> [] \<and> zone = [] then None
      else map_option (\<lambda>gs. V6 (ip6 (map int gs)) (if rest = [] then [] else zone)) (parseGroups addr))"

fun addrKind :: "string \<Rightarrow> char option" where
  "addrKind [] = None"
| "addrKind (c # s) = (if c \<in> {CHR ''.'', CHR '':'', CHR ''%''} then Some c else addrKind s)"

definition ParseAddr :: "string \<Rightarrow> Addr option" where
  "ParseAddr s =
     (if addrKind s = Some (CHR ''.'') then parseIPv4 s
      else if addrKind s = Some (CHR '':'') then parseIPv6 s
      else None)"

section \<open>Printing addresses\<close>

definition octets :: "32 word \<Rightarrow> nat list" where
  "octets w = map (\<lambda>i. unat (take_bit 8 (drop_bit (24 - 8 * i) w))) [0, 1, 2, 3]"

definition groups :: "128 word \<Rightarrow> nat list" where
  "groups w = map (\<lambda>i. unat (take_bit 16 (drop_bit (112 - 16 * i) w))) [0, 1, 2, 3, 4, 5, 6, 7]"

fun format_hex :: "nat \<Rightarrow> string" where
  "format_hex n = (if n < 16 then [hexDigit n] else format_hex (n div 16) @ [hexDigit (n mod 16)])"

definition string4 :: "32 word \<Rightarrow> string" where
  "string4 w = join_with (CHR ''.'') (map format_nat (octets w))"

text \<open>The first longest run of at least two zero groups.\<close>

definition zeroRun :: "nat list \<Rightarrow> (nat \<times> nat) option" where
  "zeroRun gs = foldl (\<lambda>best i.
     let l = length (takeWhile (\<lambda>g. g = 0) (drop i gs)) in
     if 2 \<le> l \<and> (case best of None \<Rightarrow> True | Some (zs, ze) \<Rightarrow> ze - zs < l) then Some (i, i + l) else best) None [0, 1, 2, 3, 4, 5, 6, 7]"

definition string6 :: "128 word \<Rightarrow> string" where
  "string6 w =
     (let gs = groups w; join = (\<lambda>xs. join_with (CHR '':'') (map format_hex xs)) in
      case zeroRun gs of
        None \<Rightarrow> join gs
      | Some (zs, ze) \<Rightarrow>
          (if zs = 0 then [] else join (take zs gs)) @ ''::'' @ (if ze = 8 then [] else join (drop ze gs)))"

definition Is4In6 :: "Addr \<Rightarrow> bool" where
  "Is4In6 a = (case a of V6 w z \<Rightarrow> drop_bit 32 w = 0xffff | _ \<Rightarrow> False)"

definition AddrString :: "Addr \<Rightarrow> string" where
  "AddrString a =
     (case a of
        InvalidAddr \<Rightarrow> ''invalid IP''
      | V4 w \<Rightarrow> string4 w
      | V6 w z \<Rightarrow> (if Is4In6 a then ''::ffff:'' @ string4 (ucast w) else string6 w) @ (if z = [] then [] else ''%'' @ z))"

section \<open>Prefixes\<close>

definition BitLen :: "Addr \<Rightarrow> nat" where
  "BitLen a = (case a of InvalidAddr \<Rightarrow> 0 | V4 _ \<Rightarrow> 32 | V6 _ _ \<Rightarrow> 128)"

text \<open>\<open>PrefixFrom\<close> drops the zone. It is used here on valid addresses only.\<close>

definition PrefixFrom :: "Addr \<Rightarrow> nat \<Rightarrow> Prefix option" where
  "PrefixFrom a bits = (case a of InvalidAddr \<Rightarrow> None | V4 w \<Rightarrow> Some (P4 w bits) | V6 w z \<Rightarrow> Some (P6 w bits))"

definition PrefixAddr :: "Prefix \<Rightarrow> Addr" where
  "PrefixAddr p = (case p of P4 w n \<Rightarrow> V4 w | P6 w n \<Rightarrow> V6 w [])"

definition PrefixBits :: "Prefix \<Rightarrow> nat" where
  "PrefixBits p = (case p of P4 w n \<Rightarrow> n | P6 w n \<Rightarrow> n)"

definition Masked :: "Prefix \<Rightarrow> Prefix" where
  "Masked p =
     (case p of
        P4 w n \<Rightarrow> P4 (push_bit (32 - n) (drop_bit (32 - n) w)) n
      | P6 w n \<Rightarrow> P6 (push_bit (128 - n) (drop_bit (128 - n) w)) n)"

definition PrefixString :: "Prefix \<Rightarrow> string" where
  "PrefixString p = AddrString (PrefixAddr p) @ ''/'' @ format_nat (PrefixBits p)"

text \<open>The text before and after the last slash.\<close>

definition cutLast :: "char \<Rightarrow> string \<Rightarrow> (string \<times> string) option" where
  "cutLast c s =
     (if c \<in> set s
      then Some (rev (tl (dropWhile (\<lambda>x. x \<noteq> c) (rev s))), rev (takeWhile (\<lambda>x. x \<noteq> c) (rev s)))
      else None)"

text \<open>The bits after the slash: digits only, and no leading zero.\<close>

definition prefixBits :: "string \<Rightarrow> nat option" where
  "prefixBits s =
     (if s = [] \<or> \<not> list_all is_digit s then None
      else if 1 < length s \<and> hd s = CHR ''0'' then None
      else Some (digits_value 0 s))"

definition ParsePrefix :: "string \<Rightarrow> Prefix option" where
  "ParsePrefix s =
     (case cutLast (CHR ''/'') s of
        None \<Rightarrow> None
      | Some (addr, bits) \<Rightarrow>
          (case ParseAddr addr of
             None \<Rightarrow> None
           | Some ip \<Rightarrow>
               if Zone ip \<noteq> [] then None
               else case prefixBits bits of
                 None \<Rightarrow> None
               | Some n \<Rightarrow> if BitLen ip < n then None else PrefixFrom ip n))"

end
