(* ===== verification/Egress_Resolve.thy ===== *)
theory Egress_Resolve
  imports Egress_Protocol Netip
begin

unbundle bit_operations_syntax

text \<open>
  Name resolution of the egress proxy (\<open>src/internal/egressproxy/policy.go\<close>): the address filter over the
  special-purpose registries, and the bounded resolution of a host name through CNAME chains.

  Addresses are those of \<open>Netip\<close>. The DNS client is a parameter \<open>query\<close> with its own state, and so is
  \<open>dnsmessage.NewName\<close>.
\<close>

section \<open>The address filter\<close>

text \<open>\<open>IsGlobalUnicast\<close> after \<open>Unmap\<close>: not unspecified, broadcast, loopback, multicast or link-local.\<close>

definition IsGlobalUnicast :: "Addr \<Rightarrow> bool" where
  "IsGlobalUnicast a =
     (case a of
        InvalidAddr \<Rightarrow> False
      | V4 w \<Rightarrow> w \<noteq> 0 \<and> w \<noteq> - 1 \<and> drop_bit 24 w \<noteq> 127 \<and> drop_bit 28 w \<noteq> 14 \<and> drop_bit 16 w \<noteq> 0xa9fe
      | V6 w z \<Rightarrow> \<not> (w = 0 \<and> z = []) \<and> w \<noteq> 1 \<and> drop_bit 120 w \<noteq> 0xff \<and> drop_bit 118 w \<noteq> 0x3fa)"

record ForbiddenPrefixEntry =
  fp_Prefix :: Prefix
  fp_Name :: string
  fp_Source :: string

definition forbidden :: "Prefix \<Rightarrow> string \<Rightarrow> string \<Rightarrow> ForbiddenPrefixEntry" where
  "forbidden p name source = \<lparr>fp_Prefix = p, fp_Name = name, fp_Source = source\<rparr>"

definition ForbiddenPrefixSnapshot :: "ForbiddenPrefixEntry list" where
  "ForbiddenPrefixSnapshot = [
     forbidden (P4 (ip4 0 0 0 0) 8) ''This network'' ''IANA IPv4'',
     forbidden (P4 (ip4 0 0 0 0) 32) ''This host on this network'' ''IANA IPv4'',
     forbidden (P4 (ip4 10 0 0 0) 8) ''Private-Use'' ''IANA IPv4'',
     forbidden (P4 (ip4 100 64 0 0) 10) ''Shared Address Space'' ''IANA IPv4'',
     forbidden (P4 (ip4 127 0 0 0) 8) ''Loopback'' ''IANA IPv4'',
     forbidden (P4 (ip4 169 254 0 0) 16) ''Link Local'' ''IANA IPv4'',
     forbidden (P4 (ip4 172 16 0 0) 12) ''Private-Use'' ''IANA IPv4'',
     forbidden (P4 (ip4 192 0 0 0) 24) ''IETF Protocol Assignments'' ''IANA IPv4'',
     forbidden (P4 (ip4 192 0 0 0) 29) ''IPv4 Service Continuity Prefix'' ''IANA IPv4'',
     forbidden (P4 (ip4 192 0 0 8) 32) ''IPv4 dummy address'' ''IANA IPv4'',
     forbidden (P4 (ip4 192 0 0 9) 32) ''Port Control Protocol Anycast'' ''IANA IPv4'',
     forbidden (P4 (ip4 192 0 0 10) 32) ''TURN Anycast'' ''IANA IPv4'',
     forbidden (P4 (ip4 192 0 0 170) 32) ''NAT64/DNS64 Discovery'' ''IANA IPv4'',
     forbidden (P4 (ip4 192 0 0 171) 32) ''NAT64/DNS64 Discovery'' ''IANA IPv4'',
     forbidden (P4 (ip4 192 0 2 0) 24) ''Documentation (TEST-NET-1)'' ''IANA IPv4'',
     forbidden (P4 (ip4 192 31 196 0) 24) ''AS112-v4'' ''IANA IPv4'',
     forbidden (P4 (ip4 192 52 193 0) 24) ''AMT'' ''IANA IPv4'',
     forbidden (P4 (ip4 192 88 99 0) 24) ''Deprecated (6to4 Relay Anycast)'' ''IANA IPv4'',
     forbidden (P4 (ip4 192 88 99 2) 32) ''6a44-relay anycast address'' ''IANA IPv4'',
     forbidden (P4 (ip4 192 168 0 0) 16) ''Private-Use'' ''IANA IPv4'',
     forbidden (P4 (ip4 192 175 48 0) 24) ''Direct Delegation AS112 Service'' ''IANA IPv4'',
     forbidden (P4 (ip4 198 18 0 0) 15) ''Benchmarking'' ''IANA IPv4'',
     forbidden (P4 (ip4 198 51 100 0) 24) ''Documentation (TEST-NET-2)'' ''IANA IPv4'',
     forbidden (P4 (ip4 203 0 113 0) 24) ''Documentation (TEST-NET-3)'' ''IANA IPv4'',
     forbidden (P4 (ip4 240 0 0 0) 4) ''Reserved'' ''IANA IPv4'',
     forbidden (P4 (ip4 255 255 255 255) 32) ''Limited Broadcast'' ''IANA IPv4'',
     forbidden (P6 (ip6 [0, 0, 0, 0, 0, 0, 0, 0x1]) 128) ''Loopback Address'' ''IANA IPv6'',
     forbidden (P6 (ip6 [0, 0, 0, 0, 0, 0, 0, 0]) 128) ''Unspecified Address'' ''IANA IPv6'',
     forbidden (P6 (ip6 [0, 0, 0, 0, 0, 0xffff, 0, 0]) 96) ''IPv4-mapped Address'' ''IANA IPv6'',
     forbidden (P6 (ip6 [0x64, 0xff9b, 0, 0, 0, 0, 0, 0]) 96) ''IPv4-IPv6 Translation'' ''IANA IPv6'',
     forbidden (P6 (ip6 [0x64, 0xff9b, 0x1, 0, 0, 0, 0, 0]) 48) ''IPv4-IPv6 Translation'' ''IANA IPv6'',
     forbidden (P6 (ip6 [0x100, 0, 0, 0, 0, 0, 0, 0]) 64) ''Discard-Only Address Block'' ''IANA IPv6'',
     forbidden (P6 (ip6 [0x100, 0, 0, 0x1, 0, 0, 0, 0]) 64) ''Dummy IPv6 Prefix'' ''IANA IPv6'',
     forbidden (P6 (ip6 [0x2001, 0, 0, 0, 0, 0, 0, 0]) 23) ''IETF Protocol Assignments'' ''IANA IPv6'',
     forbidden (P6 (ip6 [0x2001, 0, 0, 0, 0, 0, 0, 0]) 32) ''TEREDO'' ''IANA IPv6'',
     forbidden (P6 (ip6 [0x2001, 0x1, 0, 0, 0, 0, 0, 0x1]) 128) ''Port Control Protocol Anycast'' ''IANA IPv6'',
     forbidden (P6 (ip6 [0x2001, 0x1, 0, 0, 0, 0, 0, 0x2]) 128) ''TURN Anycast'' ''IANA IPv6'',
     forbidden (P6 (ip6 [0x2001, 0x1, 0, 0, 0, 0, 0, 0x3]) 128) ''DNS-SD Service Registration Anycast'' ''IANA IPv6'',
     forbidden (P6 (ip6 [0x2001, 0x2, 0, 0, 0, 0, 0, 0]) 48) ''Benchmarking'' ''IANA IPv6'',
     forbidden (P6 (ip6 [0x2001, 0x3, 0, 0, 0, 0, 0, 0]) 32) ''AMT'' ''IANA IPv6'',
     forbidden (P6 (ip6 [0x2001, 0x4, 0x112, 0, 0, 0, 0, 0]) 48) ''AS112-v6'' ''IANA IPv6'',
     forbidden (P6 (ip6 [0x2001, 0x10, 0, 0, 0, 0, 0, 0]) 28) ''Deprecated ORCHID'' ''IANA IPv6'',
     forbidden (P6 (ip6 [0x2001, 0x20, 0, 0, 0, 0, 0, 0]) 28) ''ORCHIDv2'' ''IANA IPv6'',
     forbidden (P6 (ip6 [0x2001, 0x30, 0, 0, 0, 0, 0, 0]) 28) ''Drone Remote ID DETs'' ''IANA IPv6'',
     forbidden (P6 (ip6 [0x2001, 0xdb8, 0, 0, 0, 0, 0, 0]) 32) ''Documentation'' ''IANA IPv6'',
     forbidden (P6 (ip6 [0x2002, 0, 0, 0, 0, 0, 0, 0]) 16) ''6to4'' ''IANA IPv6'',
     forbidden (P6 (ip6 [0x2620, 0x4f, 0x8000, 0, 0, 0, 0, 0]) 48) ''Direct Delegation AS112 Service'' ''IANA IPv6'',
     forbidden (P6 (ip6 [0x3fff, 0, 0, 0, 0, 0, 0, 0]) 20) ''Documentation'' ''IANA IPv6'',
     forbidden (P6 (ip6 [0x5f00, 0, 0, 0, 0, 0, 0, 0]) 16) ''Segment Routing SIDs'' ''IANA IPv6'',
     forbidden (P6 (ip6 [0xfc00, 0, 0, 0, 0, 0, 0, 0]) 7) ''Unique-Local'' ''IANA IPv6'',
     forbidden (P6 (ip6 [0xfe80, 0, 0, 0, 0, 0, 0, 0]) 10) ''Link-Local Unicast'' ''IANA IPv6'',
     forbidden (P4 (ip4 224 0 0 0) 4) ''IPv4 Multicast'' ''protocol-reserved'',
     forbidden (P6 (ip6 [0xff00, 0, 0, 0, 0, 0, 0, 0]) 8) ''IPv6 Multicast'' ''protocol-reserved''
   ]"

definition ForbiddenPrefixes :: "Prefix list" where
  "ForbiddenPrefixes = map fp_Prefix ForbiddenPrefixSnapshot"

definition ValidateAddress :: "Addr \<Rightarrow> Prefix list \<Rightarrow> string option" where
  "ValidateAddress addr extra =
     (if addr = InvalidAddr \<or> Zone addr \<noteq> [] then Some ''invalid address''
      else
        (let a = Unmap addr in
         if \<not> IsGlobalUnicast a then Some ''non-global address''
         else if list_ex (\<lambda>p. Contains p a) (ForbiddenPrefixes @ extra) then Some ''forbidden address''
         else None))"

section \<open>Resolution\<close>

datatype rbody = CNAMEResource string | AResource "32 word" | AAAAResource "128 word" | OtherResource

record resource =
  rr_Name :: string
  rr_Body :: rbody

datatype qtype = TypeA | TypeAAAA

datatype 'e resolve_error = DNS 'e | Refused string | BadTarget wire_error

record resolution =
  rs_edges :: "(string \<times> string) list"
  rs_addresses :: "(string \<times> Addr list) list"
  rs_queries :: nat
  rs_records :: nat

definition ensureRoot :: "string \<Rightarrow> string" where
  "ensureRoot s = (if has_suffix s ''.'' then s else s @ ''.'')"

definition addressesOf :: "resolution \<Rightarrow> string \<Rightarrow> Addr list" where
  "addressesOf st x = (case map_of (rs_addresses st) x of None \<Rightarrow> [] | Some as \<Rightarrow> as)"

definition addAddress :: "string \<Rightarrow> Addr \<Rightarrow> resolution \<Rightarrow> resolution" where
  "addAddress owner ip st = st\<lparr>rs_addresses := mput owner (addressesOf st owner @ [ip]) (rs_addresses st)\<rparr>"

text \<open>The loop over the answer records; \<open>respEdges\<close> are the aliases of this response.\<close>

fun answerLoop ::
  "Prefix list \<Rightarrow> resource list \<Rightarrow> (string \<times> string) list \<Rightarrow> resolution
     \<Rightarrow> 'e resolve_error + (string \<times> string) list \<times> resolution" where
  "answerLoop extra [] respEdges st = Inr (respEdges, st)"
| "answerLoop extra (rr # rrs) respEdges st =
     (let owner = rr_Name rr in
      case rr_Body rr of
        CNAMEResource n \<Rightarrow>
          if map_of respEdges owner \<noteq> None then Inl (Refused ''duplicate CNAME'')
          else if map_of (rs_edges st) owner \<noteq> None \<and> map_of (rs_edges st) owner \<noteq> Some n
          then Inl (Refused ''conflicting CNAME'')
          else answerLoop extra rrs (mput owner n respEdges) st
      | AResource w \<Rightarrow>
          (case ValidateAddress (V4 w) extra of
             Some e \<Rightarrow> Inl (Refused e)
           | None \<Rightarrow> answerLoop extra rrs respEdges (addAddress owner (V4 w) st))
      | AAAAResource w \<Rightarrow>
          (case ValidateAddress (Unmap (V6 w [])) extra of
             Some e \<Rightarrow> Inl (Refused e)
           | None \<Rightarrow> answerLoop extra rrs respEdges (addAddress owner (Unmap (V6 w [])) st))
      | OtherResource \<Rightarrow> Inl (Refused ''unexpected DNS answer''))"

fun reachable :: "nat \<Rightarrow> (string \<times> string) list \<Rightarrow> string \<Rightarrow> string \<Rightarrow> bool" where
  "reachable 0 edges x owner = False"
| "reachable (Suc i) edges x owner =
     (if x = owner then True
      else case map_of edges x of None \<Rightarrow> False | Some nxt \<Rightarrow> reachable i edges nxt owner)"

text \<open>One query of the current name and the treatment of its answer.\<close>

definition queryType ::
  "('r \<Rightarrow> 'n \<Rightarrow> qtype \<Rightarrow> ('e + resource list) \<times> 'r) \<Rightarrow> Prefix list \<Rightarrow> string \<Rightarrow> 'n \<Rightarrow> qtype \<Rightarrow> resolution \<Rightarrow> 'r
     \<Rightarrow> ('e resolve_error + resolution) \<times> 'r" where
  "queryType query extra cur dn ty st r =
     (if 18 \<le> rs_queries st then (Inl (Refused ''too many DNS queries''), r)
      else case query r dn ty of
             (Inl e, r') \<Rightarrow> (Inl (DNS e), r')
           | (Inr ans, r') \<Rightarrow>
               (let st1 = st\<lparr>rs_queries := Suc (rs_queries st), rs_records := rs_records st + length ans\<rparr> in
                if 64 < rs_records st1 then (Inl (Refused ''too many DNS answers''), r')
                else (bind_result (answerLoop extra ans [] st1) (\<lambda>(respEdges, st2).
                        let edges = fold (\<lambda>(k, v) m. mput k v m) respEdges (rs_edges st2) in
                        if list_all (\<lambda>rr. reachable 9 edges cur (rr_Name rr)) ans
                        then Inr (st2\<lparr>rs_edges := edges\<rparr>)
                        else Inl (Refused ''unrelated DNS answer'')), r')))"

text \<open>The walk along the aliases from the original name; \<open>Found\<close> is the result of \<open>Resolve\<close>.\<close>

datatype walk_result = Found "Addr list" | Continue string

fun walk :: "nat \<Rightarrow> resolution \<Rightarrow> string \<Rightarrow> string list \<Rightarrow> 'e resolve_error + walk_result" where
  "walk hopsLeft st x seen =
     (if x \<in> set seen then Inl (Refused ''CNAME loop'')
      else if addressesOf st x \<noteq> [] then
        (if map_of (rs_edges st) x \<noteq> None then Inl (Refused ''CNAME and address conflict'')
         else Inr (Found (addressesOf st x)))
      else case map_of (rs_edges st) x of
             None \<Rightarrow> Inr (Continue x)
           | Some nxt \<Rightarrow>
               (case hopsLeft of
                  0 \<Rightarrow> Inl (Refused ''CNAME chain too long'')
                | Suc h \<Rightarrow>
                    (case canonicalTarget (trim_suffix nxt ''.'' @ '':443'') of
                       Inl e \<Rightarrow> Inl (BadTarget e)
                     | Inr _ \<Rightarrow> walk h st nxt (x # seen))))"

declare walk.simps [simp del]

text \<open>The outer loop; its first argument is the number of names that may still be queried.\<close>

fun resolveLoop ::
  "nat \<Rightarrow> ('r \<Rightarrow> 'n \<Rightarrow> qtype \<Rightarrow> ('e + resource list) \<times> 'r) \<Rightarrow> (string \<Rightarrow> 'e + 'n) \<Rightarrow> Prefix list \<Rightarrow> string
     \<Rightarrow> string \<Rightarrow> string list \<Rightarrow> resolution \<Rightarrow> 'r \<Rightarrow> ('e resolve_error + Addr list) \<times> 'r" where
  "resolveLoop namesLeft query newName extra original cur queried st r =
     (if cur \<in> set queried then (Inl (Refused ''DNS resolution made no progress''), r)
      else case namesLeft of
             0 \<Rightarrow> (Inl (Refused ''too many DNS names''), r)
           | Suc k \<Rightarrow>
               (case newName cur of
                  Inl e \<Rightarrow> (Inl (DNS e), r)
                | Inr dn \<Rightarrow>
                    (case queryType query extra cur dn TypeA st r of
                       (Inl e, r1) \<Rightarrow> (Inl e, r1)
                     | (Inr st1, r1) \<Rightarrow>
                         (case queryType query extra cur dn TypeAAAA st1 r1 of
                            (Inl e, r2) \<Rightarrow> (Inl e, r2)
                          | (Inr st2, r2) \<Rightarrow>
                              (case walk 8 st2 original [] of
                                 Inl e \<Rightarrow> (Inl e, r2)
                               | Inr (Found addrs) \<Rightarrow> (Inr addrs, r2)
                               | Inr (Continue x) \<Rightarrow>
                                   if x = cur \<and> addressesOf st2 x = [] then (Inl (Refused ''no addresses''), r2)
                                   else resolveLoop k query newName extra original x (cur # queried) st2 r2)))))"

declare resolveLoop.simps [simp del]

definition emptyResolution :: resolution where
  "emptyResolution = \<lparr>rs_edges = [], rs_addresses = [], rs_queries = 0, rs_records = 0\<rparr>"

definition Resolve ::
  "('r \<Rightarrow> 'n \<Rightarrow> qtype \<Rightarrow> ('e + resource list) \<times> 'r) \<Rightarrow> (string \<Rightarrow> 'e + 'n) \<Rightarrow> string \<Rightarrow> Prefix list \<Rightarrow> 'r
     \<Rightarrow> ('e resolve_error + Addr list) \<times> 'r" where
  "Resolve query newName name extra r =
     resolveLoop 9 query newName extra (ensureRoot name) (ensureRoot name) [] emptyResolution r"

section \<open>The registry\<close>

lemma snapshot_masked: "list_all masked ForbiddenPrefixes"
  by code_simp

lemma Contains_shift4: "Contains (P4 q n) (V4 w) \<longleftrightarrow> drop_bit (32 - n) w = drop_bit (32 - n) q"
  by (simp add: Contains_def drop_bit_xor_zero_iff del: drop_bit_xor)

lemma Contains_shift6: "Contains (P6 q n) (V6 w []) \<longleftrightarrow> drop_bit (128 - n) w = drop_bit (128 - n) q"
  by (simp add: Contains_def drop_bit_xor_zero_iff del: drop_bit_xor)

text \<open>The non-global addresses are all in the snapshot, so the registry alone decides.\<close>

lemma registry_covers_non_global:
  assumes "a \<noteq> InvalidAddr" and "Zone a = []" and "\<not> IsGlobalUnicast a"
  shows "\<exists>p\<in>set ForbiddenPrefixes. Contains p a"
proof (cases a)
  case (V4 w)
  have mem: "P4 (ip4 0 0 0 0) 8 \<in> set ForbiddenPrefixes" "P4 (ip4 127 0 0 0) 8 \<in> set ForbiddenPrefixes"
    "P4 (ip4 169 254 0 0) 16 \<in> set ForbiddenPrefixes" "P4 (ip4 255 255 255 255) 32 \<in> set ForbiddenPrefixes"
    "P4 (ip4 224 0 0 0) 4 \<in> set ForbiddenPrefixes"
    by (simp_all add: ForbiddenPrefixes_def ForbiddenPrefixSnapshot_def forbidden_def)
  have q: "drop_bit 24 (ip4 127 0 0 0) = 127" "drop_bit 16 (ip4 169 254 0 0) = 0xa9fe"
    "drop_bit 28 (ip4 224 0 0 0) = 14" "ip4 255 255 255 255 = - 1" "ip4 0 0 0 0 = 0"
    by code_simp+
  have "w = 0 \<or> w = - 1 \<or> drop_bit 24 w = 127 \<or> drop_bit 28 w = 14 \<or> drop_bit 16 w = 0xa9fe"
    using assms(3) V4 by (simp add: IsGlobalUnicast_def)
  moreover have "w = 0 \<Longrightarrow> Contains (P4 (ip4 0 0 0 0) 8) a" "w = - 1 \<Longrightarrow> Contains (P4 (ip4 255 255 255 255) 32) a"
    "drop_bit 24 w = 127 \<Longrightarrow> Contains (P4 (ip4 127 0 0 0) 8) a"
    "drop_bit 28 w = 14 \<Longrightarrow> Contains (P4 (ip4 224 0 0 0) 4) a"
    "drop_bit 16 w = 0xa9fe \<Longrightarrow> Contains (P4 (ip4 169 254 0 0) 16) a"
    unfolding V4 by (simp_all add: Contains_shift4 q)
  ultimately show ?thesis using mem by blast
next
  case (V6 w z)
  have mem: "P6 (ip6 [0, 0, 0, 0, 0, 0, 0, 0x1]) 128 \<in> set ForbiddenPrefixes"
    "P6 (ip6 [0, 0, 0, 0, 0, 0, 0, 0]) 128 \<in> set ForbiddenPrefixes"
    "P6 (ip6 [0xfe80, 0, 0, 0, 0, 0, 0, 0]) 10 \<in> set ForbiddenPrefixes"
    "P6 (ip6 [0xff00, 0, 0, 0, 0, 0, 0, 0]) 8 \<in> set ForbiddenPrefixes"
    by (simp_all add: ForbiddenPrefixes_def ForbiddenPrefixSnapshot_def forbidden_def)
  have q: "ip6 [0, 0, 0, 0, 0, 0, 0, 0x1] = 1" "ip6 [0, 0, 0, 0, 0, 0, 0, 0] = 0"
    "drop_bit 118 (ip6 [0xfe80, 0, 0, 0, 0, 0, 0, 0]) = 0x3fa"
    "drop_bit 120 (ip6 [0xff00, 0, 0, 0, 0, 0, 0, 0]) = 0xff"
    by code_simp+
  have z: "z = []" using assms(2) V6 by (simp add: Zone_def)
  have "w = 0 \<or> w = 1 \<or> drop_bit 120 w = 0xff \<or> drop_bit 118 w = 0x3fa"
    using assms(3) V6 by (auto simp: IsGlobalUnicast_def)
  moreover have "w = 0 \<Longrightarrow> Contains (P6 (ip6 [0, 0, 0, 0, 0, 0, 0, 0]) 128) a"
    "w = 1 \<Longrightarrow> Contains (P6 (ip6 [0, 0, 0, 0, 0, 0, 0, 0x1]) 128) a"
    "drop_bit 120 w = 0xff \<Longrightarrow> Contains (P6 (ip6 [0xff00, 0, 0, 0, 0, 0, 0, 0]) 8) a"
    "drop_bit 118 w = 0x3fa \<Longrightarrow> Contains (P6 (ip6 [0xfe80, 0, 0, 0, 0, 0, 0, 0]) 10) a"
    unfolding V6 z by (simp_all add: Contains_shift6 q)
  ultimately show ?thesis using mem by blast
qed (use assms in simp)

lemma Unmap_valid [simp]: "Unmap a = InvalidAddr \<longleftrightarrow> a = InvalidAddr"
  by (cases a) (simp_all add: Unmap_def)

lemma Zone_Unmap: "Zone a = [] \<Longrightarrow> Zone (Unmap a) = []"
  by (cases a) (simp_all add: Unmap_def Zone_def)

lemma ValidateAddress_None_iff:
  "ValidateAddress a extra = None \<longleftrightarrow>
     a \<noteq> InvalidAddr \<and> Zone a = [] \<and> (\<forall>p\<in>set ForbiddenPrefixes \<union> set extra. \<not> Contains p (Unmap a))"
  using registry_covers_non_global [of "Unmap a"] Zone_Unmap [of a]
  by (auto simp: ValidateAddress_def Let_def list_ex_iff split: if_splits)

lemma Unmap_idem [simp]: "Unmap (Unmap a) = Unmap a"
  by (cases a) (simp_all add: Unmap_def)

text \<open>An address may be dialled exactly when it is a valid address without a zone that lies outside every
  address interval of the registry snapshot and of the operator's additional prefixes. The verdict is taken on
  the IPv4 address an IPv4-mapped IPv6 address stands for, so a mapped spelling never passes where the IPv4
  address itself is refused.\<close>

theorem validate_address_exact:
  assumes "list_all masked extra"
  shows "(ValidateAddress a extra = None \<longleftrightarrow>
            a \<noteq> InvalidAddr \<and> Zone a = [] \<and>
            (\<forall>p. p \<in> set (ForbiddenPrefixes @ extra) \<longrightarrow> \<not> inRange p (Unmap a))) \<and>
         (Zone a = [] \<longrightarrow> ValidateAddress (Unmap a) extra = ValidateAddress a extra)"
proof -
  have "Contains p b = inRange p b" if "p \<in> set (ForbiddenPrefixes @ extra)" for p b
    using that snapshot_masked assms Contains_inRange by (auto simp: list_all_iff)
  then have "ValidateAddress a extra = None \<longleftrightarrow> a \<noteq> InvalidAddr \<and> Zone a = [] \<and>
               (\<forall>p. p \<in> set (ForbiddenPrefixes @ extra) \<longrightarrow> \<not> inRange p (Unmap a))"
    unfolding ValidateAddress_None_iff by auto
  then show ?thesis using Zone_Unmap [of a] by (simp add: ValidateAddress_def)
qed

theorem validate_address_exact_witness:
  "list_all masked [P4 (ip4 93 184 0 0) 16] \<and>
   (ValidateAddress (V4 (ip4 8 8 8 8)) [P4 (ip4 93 184 0 0) 16] = None \<longleftrightarrow>
      V4 (ip4 8 8 8 8) \<noteq> InvalidAddr \<and> Zone (V4 (ip4 8 8 8 8)) = [] \<and>
      (\<forall>p. p \<in> set (ForbiddenPrefixes @ [P4 (ip4 93 184 0 0) 16]) \<longrightarrow> \<not> inRange p (Unmap (V4 (ip4 8 8 8 8))))) \<and>
   ValidateAddress (V4 (ip4 8 8 8 8)) [P4 (ip4 93 184 0 0) 16] = None \<and>
   ValidateAddress (V4 (ip4 93 184 216 34)) [P4 (ip4 93 184 0 0) 16] = Some ''forbidden address'' \<and>
   ValidateAddress (V6 (ip6 [0, 0, 0, 0, 0, 0xffff, 0x0a00, 0x1]) []) [] = Some ''forbidden address''"
proof -
  have m: "list_all masked [P4 (ip4 93 184 0 0) 16]" by code_simp
  have v: "ValidateAddress (V4 (ip4 8 8 8 8)) [P4 (ip4 93 184 0 0) 16] = None"
    "ValidateAddress (V4 (ip4 93 184 216 34)) [P4 (ip4 93 184 0 0) 16] = Some ''forbidden address''"
    "ValidateAddress (V6 (ip6 [0, 0, 0, 0, 0, 0xffff, 0x0a00, 0x1]) []) [] = Some ''forbidden address''"
    by code_simp+
  show ?thesis using m v validate_address_exact [OF m, of "V4 (ip4 8 8 8 8)"] by blast
qed

section \<open>Soundness of a resolution\<close>

text \<open>The ghost resolver records every answer; the history determines what a resolution may return.\<close>

definition logged ::
  "('r \<Rightarrow> 'n \<Rightarrow> qtype \<Rightarrow> ('e + resource list) \<times> 'r) \<Rightarrow> ('r \<times> resource list list) \<Rightarrow> 'n \<Rightarrow> qtype
     \<Rightarrow> ('e + resource list) \<times> ('r \<times> resource list list)" where
  "logged query r dn ty =
     (case query (fst r) dn ty of
        (Inl e, r') \<Rightarrow> (Inl e, r', snd r @ [[]])
      | (Inr ans, r') \<Rightarrow> (Inr ans, r', snd r @ [ans]))"

definition addressRecord :: "resource \<Rightarrow> Addr option" where
  "addressRecord rr =
     (case rr_Body rr of
        AResource w \<Rightarrow> Some (V4 w)
      | AAAAResource w \<Rightarrow> Some (Unmap (V6 w []))
      | _ \<Rightarrow> None)"

definition addressesIn :: "resource list \<Rightarrow> string \<Rightarrow> Addr list" where
  "addressesIn recs x = List.map_filter (\<lambda>rr. if rr_Name rr = x then addressRecord rr else None) recs"

definition aliasIn :: "resource list \<Rightarrow> string \<Rightarrow> string \<Rightarrow> bool" where
  "aliasIn recs x y = list_ex (\<lambda>rr. rr_Name rr = x \<and> rr_Body rr = CNAMEResource y) recs"

fun aliasPath :: "resource list \<Rightarrow> string list \<Rightarrow> bool" where
  "aliasPath recs (x # y # xs) = (aliasIn recs x y \<and> aliasPath recs (y # xs))"
| "aliasPath recs _ = True"

lemma addressesIn_simps [simp]:
  "addressesIn [] x = []"
  "addressesIn (rs @ rs') x = addressesIn rs x @ addressesIn rs' x"
  by (simp_all add: addressesIn_def map_filter_def)

lemma addressesIn_single:
  "addressRecord rr = None \<Longrightarrow> addressesIn [rr] x = []"
  "addressRecord rr = Some a \<Longrightarrow> addressesIn [rr] x = (if x = rr_Name rr then [a] else [])"
  by (simp_all add: addressesIn_def map_filter_def)

lemma set_addressesIn: "a \<in> set (addressesIn recs x) \<longleftrightarrow> (\<exists>rr\<in>set recs. rr_Name rr = x \<and> addressRecord rr = Some a)"
  by (auto simp: addressesIn_def map_filter_def image_iff split: if_splits)

lemma length_addressesIn: "length (addressesIn recs x) \<le> length recs"
  by (simp add: addressesIn_def map_filter_def)

lemma addressesOf_addAddress [simp]:
  "addressesOf (addAddress o' ip st) x = addressesOf st x @ (if x = o' then [ip] else [])"
  by (simp add: addressesOf_def addAddress_def)

lemma addAddress_frame [simp]:
  "rs_edges (addAddress o' ip st) = rs_edges st" "rs_queries (addAddress o' ip st) = rs_queries st"
  "rs_records (addAddress o' ip st) = rs_records st"
  by (simp_all add: addAddress_def)

text \<open>What a loop over the answers contributes, and that contributions compose.\<close>

definition answered ::
  "Prefix list \<Rightarrow> resource list \<Rightarrow> (string \<times> string) list \<times> resolution \<Rightarrow> (string \<times> string) list \<times> resolution \<Rightarrow> bool"
where
  "answered extra ans = (\<lambda>(re, st) (re', st').
     rs_edges st' = rs_edges st \<and> rs_queries st' = rs_queries st \<and> rs_records st' = rs_records st \<and>
     (\<forall>x. addressesOf st' x = addressesOf st x @ addressesIn ans x) \<and>
     (\<forall>x. \<forall>a\<in>set (addressesIn ans x). ValidateAddress a extra = None) \<and>
     (\<forall>k v. (k, v) \<in> set re' \<longrightarrow> (k, v) \<in> set re \<or> aliasIn ans k v))"

lemma aliasIn_append [simp]: "aliasIn (rs @ rs') x y \<longleftrightarrow> aliasIn rs x y \<or> aliasIn rs' x y"
  by (simp add: aliasIn_def)

lemma answered_trans: "answered extra as c d \<Longrightarrow> answered extra bs d e \<Longrightarrow> answered extra (as @ bs) c e"
  unfolding answered_def by (cases c, cases d, cases e) (simp add: ball_Un, blast)

lemma answered_alias:
  "rr_Body rr = CNAMEResource n \<Longrightarrow> answered extra [rr] (re, st) (mput (rr_Name rr) n re, st)"
  unfolding answered_def prod.case
  by (intro conjI allI) (auto simp: addressRecord_def aliasIn_def addressesIn_single(1) mput_def)

lemma answered_address:
  "addressRecord rr = Some ip \<Longrightarrow> ValidateAddress ip extra = None
     \<Longrightarrow> answered extra [rr] (re, st) (re, addAddress (rr_Name rr) ip st)"
  unfolding answered_def prod.case Ball_def set_addressesIn
  by (simp add: addressesIn_single(2))

lemma answerLoop_answered:
  "answerLoop extra ans re st = Inr c \<Longrightarrow> answered extra ans (re, st) c"
proof (induction extra ans re st rule: answerLoop.induct)
  case (1 extra re st)
  then show ?case by (auto simp: answered_def)
next
  case (2 extra rr rrs re st)
  show ?case
  proof (cases "rr_Body rr")
    case (CNAMEResource n)
    have "answered extra rrs (mput (rr_Name rr) n re, st) c"
      using 2(4) CNAMEResource by (intro 2(1) [OF refl CNAMEResource]) (simp_all add: Let_def split: if_splits)
    then show ?thesis using answered_trans [OF answered_alias [OF CNAMEResource]] by fastforce
  next
    case (AResource w)
    with 2(4) have v: "ValidateAddress (V4 w) extra = None"
      by (simp add: Let_def split: option.splits)
    then have "answered extra rrs (re, addAddress (rr_Name rr) (V4 w) st) c"
      using 2(4) AResource by (intro 2(2) [OF refl AResource]) (simp_all add: Let_def)
    moreover have "addressRecord rr = Some (V4 w)" using AResource by (simp add: addressRecord_def)
    ultimately show ?thesis using answered_trans [OF answered_address [OF _ v]] by fastforce
  next
    case (AAAAResource w)
    with 2(4) have v: "ValidateAddress (Unmap (V6 w [])) extra = None"
      by (simp add: Let_def split: option.splits)
    then have "answered extra rrs (re, addAddress (rr_Name rr) (Unmap (V6 w [])) st) c"
      using 2(4) AAAAResource by (intro 2(3) [OF refl AAAAResource]) (simp_all add: Let_def)
    moreover have "addressRecord rr = Some (Unmap (V6 w []))" using AAAAResource by (simp add: addressRecord_def)
    ultimately show ?thesis using answered_trans [OF answered_address [OF _ v]] by fastforce
  next
    case OtherResource
    then show ?thesis using 2 by (simp add: Let_def)
  qed
qed

text \<open>The state of a resolution agrees with the history of answers.\<close>

definition resolved :: "Prefix list \<Rightarrow> resource list list \<Rightarrow> resolution \<Rightarrow> bool" where
  "resolved extra log st =
     (rs_queries st = length log \<and> length log \<le> 18 \<and>
      rs_records st = length (concat log) \<and> rs_records st \<le> 64 \<and>
      (\<forall>k v. map_of (rs_edges st) k = Some v \<longrightarrow> aliasIn (concat log) k v) \<and>
      (\<forall>x. addressesOf st x = addressesIn (concat log) x) \<and>
      (\<forall>x. \<forall>a\<in>set (addressesIn (concat log) x). ValidateAddress a extra = None))"

lemma resolved_empty: "resolved extra [] emptyResolution"
  by (simp add: resolved_def emptyResolution_def addressesOf_def)

lemma map_of_merge:
  "map_of (fold (\<lambda>(k, v) m. mput k v m) es m) k = Some v \<Longrightarrow> map_of m k = Some v \<or> (k, v) \<in> set es"
proof (induction es arbitrary: m)
  case (Cons e es)
  show ?case
    using Cons.IH [of "mput (fst e) (snd e) m"] Cons.prems by (cases e) (auto split: if_splits)
qed simp

lemma addressesOf_frame [simp]:
  "addressesOf (st\<lparr>rs_edges := es\<rparr>) x = addressesOf st x"
  "addressesOf (st\<lparr>rs_queries := q, rs_records := n\<rparr>) x = addressesOf st x"
  by (simp_all add: addressesOf_def)

lemma resolved_answered:
  assumes r: "resolved extra log st" and q: "rs_queries st < 18" and l: "rs_records st + length ans \<le> 64"
    and a: "answered extra ans ([], st\<lparr>rs_queries := Suc (rs_queries st), rs_records := rs_records st + length ans\<rparr>) (re, st2)"
  shows "resolved extra (log @ [ans]) (st2\<lparr>rs_edges := fold (\<lambda>(k, v) m. mput k v m) re (rs_edges st2)\<rparr>)"
proof -
  let ?st' = "st2\<lparr>rs_edges := fold (\<lambda>(k, v) m. mput k v m) re (rs_edges st2)\<rparr>"
  have "map_of (rs_edges ?st') k = Some v \<Longrightarrow> aliasIn (concat (log @ [ans])) k v" for k v
    using map_of_merge [of re "rs_edges st2" k v] r a by (auto simp: resolved_def answered_def)
  moreover have "addressesOf ?st' x = addressesIn (concat (log @ [ans])) x" for x
    using r a by (simp add: resolved_def answered_def)
  moreover have "ValidateAddress b extra = None" if "b \<in> set (addressesIn (concat (log @ [ans])) x)" for x b
    using that r a unfolding resolved_def answered_def by auto
  ultimately show ?thesis using r a q l by (simp add: resolved_def answered_def)
qed

lemma queryType_sound:
  fixes res :: "'e resolve_error + resolution"
  assumes r: "resolved extra log st" and q: "queryType (logged query) extra cur dn ty st (w, log) = (res, w', log')"
  shows "length log' \<le> 18" and "\<And>st'. res = Inr st' \<Longrightarrow> resolved extra log' st'"
proof -
  show "length log' \<le> 18"
    using q r by (auto simp: queryType_def logged_def resolved_def Let_def split: if_splits sum.splits prod.splits)
  fix st' assume res: "res = Inr st'"
  obtain ans v where qu: "query w dn ty = (Inr ans, v)" and lim: "rs_queries st < 18"
    using q res by (cases "query w dn ty") (auto simp: queryType_def logged_def split: if_splits sum.splits)
  let ?st1 = "st\<lparr>rs_queries := Suc (rs_queries st), rs_records := rs_records st + length ans\<rparr>"
  have step: "rs_records st + length ans \<le> 64" "log' = log @ [ans]"
    "bind_result (answerLoop extra ans [] ?st1) (\<lambda>(respEdges, st2).
       let edges = fold (\<lambda>(k, v) m. mput k v m) respEdges (rs_edges st2) in
       if list_all (\<lambda>rr. reachable 9 edges cur (rr_Name rr)) ans
       then Inr (st2\<lparr>rs_edges := edges\<rparr>) else Inl (Refused ''unrelated DNS answer'')) = res"
    using q qu lim res unfolding queryType_def logged_def by (auto simp: Let_def split: if_splits)
  then obtain re st2 where al: "(answerLoop extra ans [] ?st1 :: 'e resolve_error + _) = Inr (re, st2)"
    and st': "st' = st2\<lparr>rs_edges := fold (\<lambda>(k, v) m. mput k v m) re (rs_edges st2)\<rparr>"
    using res by (cases "answerLoop extra ans [] ?st1 :: 'e resolve_error + _") (auto simp: Let_def split: if_splits)
  show "resolved extra log' st'"
    unfolding st' step(2) by (rule resolved_answered [OF r lim step(1) answerLoop_answered [OF al]])
qed

lemma walk_Found:
  assumes "\<forall>k v. map_of (rs_edges st) k = Some v \<longrightarrow> aliasIn recs k v"
    and "(walk h st x seen :: 'e resolve_error + walk_result) = Inr (Found as)"
  shows "\<exists>xs. aliasPath recs (x # xs) \<and> length xs \<le> h \<and> as = addressesOf st (last (x # xs)) \<and> as \<noteq> []"
  using assms(2)
proof (induction h arbitrary: x seen)
  case 0
  then show ?case
    unfolding walk.simps [of 0] by (intro exI [of _ "[]"]) (auto split: if_splits option.splits)
next
  case (Suc h)
  show ?case
  proof (cases "addressesOf st x = []")
    case True
    with Suc.prems obtain nxt where e: "map_of (rs_edges st) x = Some nxt" 
      and "(walk h st nxt (x # seen) :: 'e resolve_error + walk_result) = Inr (Found as)"
      unfolding walk.simps [of "Suc h"] by (auto split: if_splits option.splits sum.splits)
    from Suc.IH [OF this(2)] obtain xs where "aliasPath recs (nxt # xs)" "length xs \<le> h"
      "as = addressesOf st (last (nxt # xs))" "as \<noteq> []" by blast
    with e assms(1) have "aliasPath recs (x # nxt # xs) \<and> length (nxt # xs) \<le> Suc h \<and>
        as = addressesOf st (last (x # nxt # xs)) \<and> as \<noteq> []"
      by simp
    then show ?thesis by (rule exI)
  next
    case False
    with Suc.prems show ?thesis
      unfolding walk.simps [of "Suc h"] by (intro exI [of _ "[]"]) (auto split: if_splits)
  qed
qed

text \<open>What a resolution with the history \<open>log\<close> may answer for the name \<open>x\<close>.\<close>

definition justified :: "Prefix list \<Rightarrow> resource list list \<Rightarrow> string \<Rightarrow> 'e resolve_error + Addr list \<Rightarrow> bool" where
  "justified extra log x res =
     (length log \<le> 18 \<and>
      (\<forall>addrs. res = Inr addrs \<longrightarrow>
         addrs \<noteq> [] \<and> length addrs \<le> 64 \<and> (\<forall>a\<in>set addrs. ValidateAddress a extra = None) \<and>
         (\<exists>xs. aliasPath (concat log) (x # xs) \<and> length xs \<le> 8 \<and> addrs = addressesIn (concat log) (last (x # xs)))))"

lemma justified_Inl: "length log \<le> 18 \<Longrightarrow> justified extra log x (Inl e)"
  by (simp add: justified_def)

lemma justified_Found:
  assumes r: "resolved extra log st" and w: "walk 8 st x [] = Inr (Found addrs)"
  shows "justified extra log x (Inr addrs)"
proof -
  obtain xs where xs: "aliasPath (concat log) (x # xs)" "length xs \<le> 8" "addrs = addressesOf st (last (x # xs))" "addrs \<noteq> []"
    using walk_Found [OF _ w, of "concat log"] r unfolding resolved_def by blast
  moreover have "addressesOf st (last (x # xs)) = addressesIn (concat log) (last (x # xs))"
    using r unfolding resolved_def by blast
  moreover have "length (addressesIn (concat log) (last (x # xs))) \<le> 64"
    using length_addressesIn [of "concat log" "last (x # xs)"] r unfolding resolved_def by linarith
  ultimately show ?thesis using r unfolding justified_def resolved_def by auto
qed

lemma resolveLoop_justified:
  assumes "resolved extra log st"
    and "resolveLoop names (logged query) newName extra original cur queried st (w, log) = (res, w', log')"
  shows "justified extra log' original res"
  using assms
proof (induction names arbitrary: cur queried st w log)
  case 0
  then show ?case
    unfolding resolveLoop.simps [of 0] by (auto simp: resolved_def justified_def split: if_splits)
next
  case (Suc k)
  note res = Suc.prems(2) [unfolded resolveLoop.simps [of "Suc k"]]
  have lim: "length log \<le> 18" using Suc.prems(1) by (simp add: resolved_def)
  show ?case
  proof (cases "cur \<in> set queried \<or> (\<exists>e. newName cur = Inl e)")
    case True
    then show ?thesis using res lim by (auto intro: justified_Inl split: if_splits)
  next
    case False
    then obtain dn where dn: "newName cur = Inr dn" and nq: "cur \<notin> set queried" by (cases "newName cur") auto
    obtain ra wa loga where qa: "queryType (logged query) extra cur dn TypeA st (w, log) = (ra, wa, loga)"
      by (metis surj_pair)
    note a = queryType_sound [OF Suc.prems(1) qa]
    show ?thesis
    proof (cases ra)
      case (Inl e)
      then show ?thesis using res dn nq qa a(1) by (auto intro: justified_Inl)
    next
      case (Inr st1)
      obtain rb wb logb where qb: "queryType (logged query) extra cur dn TypeAAAA st1 (wa, loga) = (rb, wb, logb)"
        by (metis surj_pair)
      note b = queryType_sound [OF a(2) [OF Inr] qb]
      show ?thesis
      proof (cases rb)
        case (Inl e)
        then show ?thesis using res dn nq qa \<open>ra = Inr st1\<close> qb b(1) by (auto intro: justified_Inl)
      next
        case st2: (Inr st2)
        note fin = b(2) [OF st2]
        show ?thesis
          using res dn nq qa Inr qb st2 b(1) Suc.IH [OF fin] justified_Found [OF fin]
          by (auto intro: justified_Inl split: sum.splits walk_result.splits if_splits)
      qed
    qed
  qed
qed

text \<open>Recording the answers does not change the resolution.\<close>

lemma queryType_logged:
  "\<exists>log'. queryType (logged query) extra cur dn ty st (w, log) =
     (fst (queryType query extra cur dn ty st w), snd (queryType query extra cur dn ty st w), log')"
  by (auto simp: queryType_def logged_def Let_def split: sum.split prod.split)

lemma resolveLoop_logged:
  "\<exists>log'. resolveLoop names (logged query) newName extra original cur queried st (w, log) =
     (fst (resolveLoop names query newName extra original cur queried st w),
      snd (resolveLoop names query newName extra original cur queried st w), log')"
proof (induction names arbitrary: cur queried st w log)
  case 0
  then show ?case unfolding resolveLoop.simps [of 0] by simp
next
  case (Suc k)
  show ?case
  proof (cases "cur \<in> set queried \<or> (\<exists>e. newName cur = Inl e)")
    case True
    then show ?thesis unfolding resolveLoop.simps [of "Suc k"] by auto
  next
    case False
    then obtain dn where dn: "newName cur = Inr dn" and nq: "cur \<notin> set queried" by (cases "newName cur") auto
    obtain ra wa where a: "queryType query extra cur dn TypeA st w = (ra, wa)" by force
    obtain loga where la: "queryType (logged query) extra cur dn TypeA st (w, log) = (ra, wa, loga)"
      using queryType_logged [of query extra cur dn TypeA st w log] by (auto simp: a)
    show ?thesis
    proof (cases ra)
      case (Inl e)
      then show ?thesis unfolding resolveLoop.simps [of "Suc k"] by (simp add: dn nq a la)
    next
      case (Inr st1)
      obtain rb wb where b: "queryType query extra cur dn TypeAAAA st1 wa = (rb, wb)" by force
      obtain logb where lb: "queryType (logged query) extra cur dn TypeAAAA st1 (wa, loga) = (rb, wb, logb)"
        using queryType_logged [of query extra cur dn TypeAAAA st1 wa loga] by (auto simp: b)
      show ?thesis
        using Suc.IH unfolding resolveLoop.simps [of "Suc k"]
        by (auto simp: dn nq a la b lb Inr split: sum.split walk_result.split)
    qed
  qed
qed

lemma Resolve_logged:
  "\<exists>log. Resolve (logged query) newName name extra (w, []) =
     (fst (Resolve query newName name extra w), snd (Resolve query newName name extra w), log)"
  unfolding Resolve_def by (rule resolveLoop_logged)

lemma Resolve_justified:
  assumes "Resolve query newName name extra w = (res, w')"
  obtains log where "Resolve (logged query) newName name extra (w, []) = (res, w', log)"
    and "justified extra log (ensureRoot name) res"
proof -
  obtain log where l: "Resolve (logged query) newName name extra (w, []) = (res, w', log)"
    using Resolve_logged [of query newName name extra w] assms by auto
  from resolveLoop_justified [OF resolved_empty l [unfolded Resolve_def]] show ?thesis using that l by blast
qed

lemma Resolve_validated:
  assumes "Resolve query newName name extra w = (Inr addrs, w')" and "a \<in> set addrs"
  shows "ValidateAddress a extra = None"
  by (rule Resolve_justified [OF assms(1)]) (use assms(2) in \<open>auto simp: justified_def\<close>)

text \<open>(C32) A resolution asks the resolver at most 18 times. When it answers, the addresses are exactly the address
  records the resolver gave for one name, in their order; that name is reached from the requested one over at
  most eight CNAME records of the answers; there are between one and 64 addresses and each of them passed the
  address filter. The list \<open>log\<close> of the answers is recorded by a resolver that otherwise behaves the same.\<close>

theorem resolve_sound:
  assumes "Resolve query newName name extra w = (res, w')"
  shows "\<exists>log. Resolve (logged query) newName name extra (w, []) = (res, w', log) \<and> length log \<le> 18 \<and>
    (\<forall>addrs. res = Inr addrs \<longrightarrow>
       addrs \<noteq> [] \<and> length addrs \<le> 64 \<and> (\<forall>a\<in>set addrs. ValidateAddress a extra = None) \<and>
       (\<exists>xs. aliasPath (concat log) (ensureRoot name # xs) \<and> length xs \<le> 8 \<and>
             addrs = addressesIn (concat log) (last (ensureRoot name # xs))))"
  by (rule Resolve_justified [OF assms]) (auto simp: justified_def)

definition exampleQuery :: "unit \<Rightarrow> string \<Rightarrow> qtype \<Rightarrow> (unit + resource list) \<times> unit" where
  "exampleQuery u dn ty =
     (Inr (if ty = TypeA
           then [\<lparr>rr_Name = ''a.example.'', rr_Body = CNAMEResource ''b.example.''\<rparr>,
                 \<lparr>rr_Name = ''b.example.'', rr_Body = AResource (ip4 8 8 8 8)\<rparr>]
           else []), u)"

theorem resolve_sound_witness:
  "Resolve exampleQuery Inr ''a.example'' [] () = (Inr [V4 (ip4 8 8 8 8)], ()) \<and>
   (\<exists>log. Resolve (logged exampleQuery) Inr ''a.example'' [] ((), []) = (Inr [V4 (ip4 8 8 8 8)], (), log) \<and> length log \<le> 18) \<and>
   ValidateAddress (V4 (ip4 8 8 8 8)) [] = None"
proof -
  have r: "Resolve exampleQuery Inr ''a.example'' [] () = (Inr [V4 (ip4 8 8 8 8)], ())"
    by code_simp
  show ?thesis using resolve_sound [OF r] r by auto
qed

end
