(* ===== verification/Egress_Quota.thy ===== *)
theory Egress_Quota
  imports Prelude Complex_Main
begin

text \<open>
  Connection quotas of the egress proxy (\<open>src/internal/egressproxy/quota.go\<close>): a token bucket and a limit of
  pending reservations per execution, and limits of active tunnels per execution, per project and overall.

  The reservations handed out are a store indexed by the order of their creation, since the caller keeps a
  pointer to each. Every operation holds the manager's mutex from its first to its last access, so an
  interleaving of concurrent callers is a sequence of operations. The clock readings are arguments. Token
  counts are \<open>float64\<close>: rationals rounded to 53 significant bits, ties to even; the values that occur are far
  from the limits of the exponent. An entry of \<open>exec\<close> is never removed, so the nil entry that \<open>Activate\<close> and
  \<open>Release\<close> would dereference does not occur (\<open>entry_present\<close>).
\<close>

section \<open>Arithmetic on \<open>float64\<close>\<close>

function bitLength :: "int \<Rightarrow> int" where
  "bitLength n = (if n \<le> 0 then 0 else 1 + bitLength (n div 2))"
  by auto
termination
  by (relation "measure nat") auto

declare bitLength.simps [simp del]

definition pow2 :: "int \<Rightarrow> rat" where
  "pow2 k = (if 0 \<le> k then 2 ^ nat k else 1 / 2 ^ nat (- k))"

definition binaryExponent :: "rat \<Rightarrow> int" where
  "binaryExponent x =
     (let (n, d) = quotient_of x; e = bitLength n - bitLength d in if pow2 e \<le> x then e else e - 1)"

definition roundEven :: "rat \<Rightarrow> int" where
  "roundEven y =
     (let f = \<lfloor>y\<rfloor>; r = y - of_int f in
      if r < 1 / 2 then f else if 1 / 2 < r then f + 1 else if even f then f else f + 1)"

definition round64 :: "rat \<Rightarrow> rat" where
  "round64 x =
     (if x = 0 then 0
      else let u = pow2 (binaryExponent \<bar>x\<bar> - 52) in sgn x * of_int (roundEven (\<bar>x\<bar> / u)) * u)"

text \<open>\<open>Duration.Seconds\<close>, with Go's division that rounds towards zero.\<close>

definition quotTrunc :: "int \<Rightarrow> int \<Rightarrow> int" where
  "quotTrunc a b = sgn a * (\<bar>a\<bar> div b)"

definition Seconds :: "int \<Rightarrow> rat" where
  "Seconds d =
     (let s = quotTrunc d 1000000000; n = d - s * 1000000000 in
      round64 (round64 (of_int s) + round64 (round64 (of_int n) / 1000000000)))"

text \<open>\<open>Time.Sub\<close> saturates at the limits of \<open>int64\<close>.\<close>

definition timeSub :: "int \<Rightarrow> int \<Rightarrow> int" where
  "timeSub t u = max (- (2 ^ 63)) (min (2 ^ 63 - 1) (t - u))"

section \<open>State\<close>

datatype reservationState = reservationPending | reservationActive | reservationReleased

record quotaEntry =
  qe_active :: int
  qe_pending :: int
  qe_tokens :: rat
  qe_last :: int

record Reservation =
  rv_ex :: string
  rv_project :: string
  rv_state :: reservationState

record QuotaManager =
  qm_global :: int
  qm_projects :: "(string \<times> int) list"
  qm_exec :: "(string \<times> quotaEntry) list"
  qm_reservations :: "Reservation list"

datatype quota_error = IdentityKeysRequired | QuotaExceeded | ReservationGone | NilEntry

definition NewQuotaManager :: QuotaManager where
  "NewQuotaManager = \<lparr>qm_global = 0, qm_projects = [], qm_exec = [], qm_reservations = []\<rparr>"

definition projectCount :: "QuotaManager \<Rightarrow> string \<Rightarrow> int" where
  "projectCount q p = (case map_of (qm_projects q) p of None \<Rightarrow> 0 | Some n \<Rightarrow> n)"

section \<open>Operations\<close>

text \<open>\<open>created\<close> is the clock reading for a new entry, \<open>now\<close> the later one of the refill.\<close>

definition refill :: "int \<Rightarrow> quotaEntry \<Rightarrow> quotaEntry" where
  "refill now e =
     (let t = round64 (qe_tokens e + round64 (Seconds (timeSub now (qe_last e)) * 10)) in
      e\<lparr>qe_tokens := (if 20 < t then 20 else t), qe_last := now\<rparr>)"

definition Reserve :: "int \<Rightarrow> int \<Rightarrow> string \<Rightarrow> string \<Rightarrow> QuotaManager \<Rightarrow> (quota_error + nat) \<times> QuotaManager" where
  "Reserve created now ex project q =
     (if ex = [] \<or> project = [] then (Inl IdentityKeysRequired, q)
      else
        let e0 = (case map_of (qm_exec q) ex of
                    None \<Rightarrow> \<lparr>qe_active = 0, qe_pending = 0, qe_tokens = 20, qe_last = created\<rparr>
                  | Some e \<Rightarrow> e);
            e = refill now e0;
            q1 = q\<lparr>qm_exec := mput ex e (qm_exec q)\<rparr> in
        if qe_tokens e < 1 \<or> 16 \<le> qe_pending e then (Inl QuotaExceeded, q1)
        else
          (Inr (length (qm_reservations q)),
           q1\<lparr>qm_exec := mput ex (e\<lparr>qe_tokens := round64 (qe_tokens e - 1), qe_pending := qe_pending e + 1\<rparr>) (qm_exec q1),
              qm_reservations := qm_reservations q @ [\<lparr>rv_ex = ex, rv_project = project, rv_state = reservationPending\<rparr>]\<rparr>))"

definition setReservation :: "nat \<Rightarrow> reservationState \<Rightarrow> QuotaManager \<Rightarrow> QuotaManager" where
  "setReservation r st q = q\<lparr>qm_reservations := (qm_reservations q)[r := (qm_reservations q ! r)\<lparr>rv_state := st\<rparr>]\<rparr>"

definition Activate :: "nat \<Rightarrow> QuotaManager \<Rightarrow> quota_error option \<times> QuotaManager" where
  "Activate r q =
     (let rv = qm_reservations q ! r in
      if rv_state rv = reservationReleased then (Some ReservationGone, q)
      else if rv_state rv = reservationActive then (None, q)
      else case map_of (qm_exec q) (rv_ex rv) of
             None \<Rightarrow> (Some NilEntry, q)
           | Some e \<Rightarrow>
               if 32 \<le> qe_active e \<or> 256 \<le> projectCount q (rv_project rv) \<or> 2048 \<le> qm_global q
               then (Some QuotaExceeded, q)
               else
                 (None, setReservation r reservationActive
                   (q\<lparr>qm_exec := mput (rv_ex rv) (e\<lparr>qe_pending := qe_pending e - 1, qe_active := qe_active e + 1\<rparr>) (qm_exec q),
                      qm_projects := mput (rv_project rv) (projectCount q (rv_project rv) + 1) (qm_projects q),
                      qm_global := qm_global q + 1\<rparr>)))"

definition Release :: "nat \<Rightarrow> QuotaManager \<Rightarrow> QuotaManager" where
  "Release r q =
     (let rv = qm_reservations q ! r in
      if rv_state rv = reservationReleased then q
      else case map_of (qm_exec q) (rv_ex rv) of
             None \<Rightarrow> q
           | Some e \<Rightarrow>
               if rv_state rv = reservationActive then
                 (let n = projectCount q (rv_project rv) - 1 in
                  setReservation r reservationReleased
                    (q\<lparr>qm_exec := mput (rv_ex rv) (e\<lparr>qe_active := qe_active e - 1\<rparr>) (qm_exec q),
                       qm_projects := (if n = 0 then mdel (rv_project rv) (qm_projects q)
                                       else mput (rv_project rv) n (qm_projects q)),
                       qm_global := qm_global q - 1\<rparr>))
               else
                 setReservation r reservationReleased
                   (q\<lparr>qm_exec := mput (rv_ex rv) (e\<lparr>qe_pending := qe_pending e - 1\<rparr>) (qm_exec q)\<rparr>))"

definition Acquire :: "int \<Rightarrow> int \<Rightarrow> string \<Rightarrow> string \<Rightarrow> QuotaManager \<Rightarrow> (quota_error + nat) \<times> QuotaManager" where
  "Acquire created now ex project q =
     (case Reserve created now ex project q of
        (Inl e, q1) \<Rightarrow> (Inl e, q1)
      | (Inr r, q1) \<Rightarrow>
          (case Activate r q1 of
             (Some e, q2) \<Rightarrow> (Inl e, Release r q2)
           | (None, q2) \<Rightarrow> (Inr r, q2)))"

section \<open>Sequences of operations\<close>

datatype quota_op =
  OReserve int int string string | OActivate nat | ORelease nat | OAcquire int int string string

text \<open>A caller only holds reservations that were handed out.\<close>

definition quotaStep :: "QuotaManager \<Rightarrow> quota_op \<Rightarrow> QuotaManager" where
  "quotaStep q oper =
     (case oper of
        OReserve created now ex project \<Rightarrow> snd (Reserve created now ex project q)
      | OActivate r \<Rightarrow> if r < length (qm_reservations q) then snd (Activate r q) else q
      | ORelease r \<Rightarrow> if r < length (qm_reservations q) then Release r q else q
      | OAcquire created now ex project \<Rightarrow> snd (Acquire created now ex project q))"

text \<open>The number of reservations in a given state.\<close>

definition heldBy :: "string \<Rightarrow> reservationState \<Rightarrow> QuotaManager \<Rightarrow> int" where
  "heldBy ex st q = int (length (filter (\<lambda>rv. rv_ex rv = ex \<and> rv_state rv = st) (qm_reservations q)))"

definition heldIn :: "string \<Rightarrow> QuotaManager \<Rightarrow> int" where
  "heldIn p q = int (length (filter (\<lambda>rv. rv_project rv = p \<and> rv_state rv = reservationActive) (qm_reservations q)))"

definition heldAll :: "QuotaManager \<Rightarrow> int" where
  "heldAll q = int (length (filter (\<lambda>rv. rv_state rv = reservationActive) (qm_reservations q)))"

definition entryOf :: "(quotaEntry \<Rightarrow> int) \<Rightarrow> string \<Rightarrow> QuotaManager \<Rightarrow> int" where
  "entryOf f ex q = (case map_of (qm_exec q) ex of None \<Rightarrow> 0 | Some e \<Rightarrow> f e)"

definition counted :: "QuotaManager \<Rightarrow> bool" where
  "counted q =
     ((\<forall>ex. entryOf qe_active ex q = heldBy ex reservationActive q) \<and>
      (\<forall>ex. entryOf qe_pending ex q = heldBy ex reservationPending q) \<and>
      (\<forall>p. projectCount q p = heldIn p q) \<and>
      qm_global q = heldAll q \<and>
      (\<forall>p n. map_of (qm_projects q) p = Some n \<longrightarrow> 0 < n))"

definition limited :: "QuotaManager \<Rightarrow> bool" where
  "limited q =
     ((\<forall>ex. heldBy ex reservationActive q \<le> 32 \<and> heldBy ex reservationPending q \<le> 16) \<and>
      (\<forall>p. heldIn p q \<le> 256) \<and> heldAll q \<le> 2048)"

definition quota_ok :: "QuotaManager \<Rightarrow> bool" where
  "quota_ok q = (counted q \<and> limited q)"

section \<open>Counts\<close>

lemma held_setReservation:
  assumes "r < length (qm_reservations q)"
  shows "heldBy ex s (setReservation r st q) =
           heldBy ex s q - of_bool (rv_ex (qm_reservations q ! r) = ex \<and> rv_state (qm_reservations q ! r) = s)
                         + of_bool (rv_ex (qm_reservations q ! r) = ex \<and> st = s)"
    and "heldIn p (setReservation r st q) =
           heldIn p q - of_bool (rv_project (qm_reservations q ! r) = p \<and> rv_state (qm_reservations q ! r) = reservationActive)
                      + of_bool (rv_project (qm_reservations q ! r) = p \<and> st = reservationActive)"
    and "heldAll (setReservation r st q) =
           heldAll q - of_bool (rv_state (qm_reservations q ! r) = reservationActive) + of_bool (st = reservationActive)"
  unfolding heldBy_def heldIn_def heldAll_def setReservation_def
  using assms by (simp_all add: count_update)

lemma held_frame [simp]:
  "heldBy ex s (q\<lparr>qm_exec := m\<rparr>) = heldBy ex s q" "heldIn p (q\<lparr>qm_exec := m\<rparr>) = heldIn p q"
  "heldAll (q\<lparr>qm_exec := m\<rparr>) = heldAll q"
  "heldBy ex s (q\<lparr>qm_exec := m, qm_projects := ps, qm_global := g\<rparr>) = heldBy ex s q"
  "heldIn p (q\<lparr>qm_exec := m, qm_projects := ps, qm_global := g\<rparr>) = heldIn p q"
  "heldAll (q\<lparr>qm_exec := m, qm_projects := ps, qm_global := g\<rparr>) = heldAll q"
  by (simp_all add: heldBy_def heldIn_def heldAll_def)

lemma setReservation_frame [simp]:
  "qm_exec (setReservation r st q) = qm_exec q" "qm_projects (setReservation r st q) = qm_projects q"
  "qm_global (setReservation r st q) = qm_global q"
  "entryOf f ex (setReservation r st q) = entryOf f ex q" "projectCount (setReservation r st q) p = projectCount q p"
  by (simp_all add: setReservation_def entryOf_def projectCount_def)

lemma entryOf_put [simp]:
  "entryOf f ex (q\<lparr>qm_exec := mput ex' e m\<rparr>) = (if ex = ex' then f e else entryOf f ex (q\<lparr>qm_exec := m\<rparr>))"
  "entryOf f ex (q\<lparr>qm_exec := mput ex' e m, qm_projects := ps, qm_global := g\<rparr>) =
     (if ex = ex' then f e else entryOf f ex (q\<lparr>qm_exec := m\<rparr>))"
  by (simp_all add: entryOf_def)

lemma entryOf_same [simp]: "entryOf f ex (q\<lparr>qm_exec := qm_exec q\<rparr>) = entryOf f ex q"
  by (simp add: entryOf_def)

lemma entryOf_Some: "map_of (qm_exec q) ex = Some e \<Longrightarrow> entryOf f ex q = f e"
  by (simp add: entryOf_def)

lemma held_nonneg [simp]: "0 \<le> heldBy ex s q" "0 \<le> heldIn p q" "0 \<le> heldAll q"
  by (simp_all add: heldBy_def heldIn_def heldAll_def)

lemma held_pos:
  assumes "r < length (qm_reservations q)"
  shows "0 < heldBy (rv_ex (qm_reservations q ! r)) (rv_state (qm_reservations q ! r)) q"
  using assms by (auto simp: heldBy_def filter_empty_conv intro!: nth_mem)

text \<open>A reservation that is not released has an entry.\<close>

lemma entry_present:
  assumes "counted q" and "r < length (qm_reservations q)"
    and "rv_state (qm_reservations q ! r) \<noteq> reservationReleased"
  shows "\<exists>e. map_of (qm_exec q) (rv_ex (qm_reservations q ! r)) = Some e"
proof (rule ccontr)
  assume "\<nexists>e. map_of (qm_exec q) (rv_ex (qm_reservations q ! r)) = Some e"
  then have "entryOf f (rv_ex (qm_reservations q ! r)) q = 0" for f by (auto simp: entryOf_def split: option.split)
  then have "heldBy (rv_ex (qm_reservations q ! r)) s q = 0" if "s \<noteq> reservationReleased" for s
    using assms(1) that unfolding counted_def by (cases s) metis+
  with held_pos [OF assms(2)] assms(3) show False by force
qed

section \<open>Preservation\<close>

lemma refill_frame [simp]: "qe_active (refill now e) = qe_active e" "qe_pending (refill now e) = qe_pending e"
  by (simp_all add: refill_def Let_def)

definition entryFor :: "int \<Rightarrow> string \<Rightarrow> QuotaManager \<Rightarrow> quotaEntry" where
  "entryFor created ex q =
     (case map_of (qm_exec q) ex of
        None \<Rightarrow> \<lparr>qe_active = 0, qe_pending = 0, qe_tokens = 20, qe_last = created\<rparr>
      | Some e \<Rightarrow> e)"

lemma entryFor_counts:
  "qe_active (entryFor created ex q) = entryOf qe_active ex q"
  "qe_pending (entryFor created ex q) = entryOf qe_pending ex q"
  by (simp_all add: entryFor_def entryOf_def split: option.split)

text \<open>The two outcomes of a reservation with complete keys.\<close>

lemma Reserve_cases:
  fixes created now ex project q
  defines "e \<equiv> refill now (entryFor created ex q)"
  assumes "ex \<noteq> []" and "project \<noteq> []"
  shows "Reserve created now ex project q =
    (if qe_tokens e < 1 \<or> 16 \<le> qe_pending e then (Inl QuotaExceeded, q\<lparr>qm_exec := mput ex e (qm_exec q)\<rparr>)
     else (Inr (length (qm_reservations q)),
       q\<lparr>qm_exec := mput ex (e\<lparr>qe_tokens := round64 (qe_tokens e - 1), qe_pending := qe_pending e + 1\<rparr>)
                       (mput ex e (qm_exec q)),
          qm_reservations := qm_reservations q @ [\<lparr>rv_ex = ex, rv_project = project, rv_state = reservationPending\<rparr>]\<rparr>))"
  using assms unfolding Reserve_def e_def entryFor_def by (simp add: Let_def)

lemma held_append:
  "heldBy ex s (q\<lparr>qm_exec := m, qm_reservations := qm_reservations q @ [rv]\<rparr>) =
     heldBy ex s q + of_bool (rv_ex rv = ex \<and> rv_state rv = s)"
  "heldIn p (q\<lparr>qm_exec := m, qm_reservations := qm_reservations q @ [rv]\<rparr>) =
     heldIn p q + of_bool (rv_project rv = p \<and> rv_state rv = reservationActive)"
  "heldAll (q\<lparr>qm_exec := m, qm_reservations := qm_reservations q @ [rv]\<rparr>) =
     heldAll q + of_bool (rv_state rv = reservationActive)"
  by (simp_all add: heldBy_def heldIn_def heldAll_def)

lemma Reserve_ok:
  assumes q: "quota_ok q"
  shows "quota_ok (snd (Reserve created now ex project q))"
proof (cases "ex = [] \<or> project = []")
  case True
  then show ?thesis using q by (simp add: Reserve_def)
next
  case False
  define e where "e = refill now (entryFor created ex q)"
  have e: "qe_active e = entryOf qe_active ex q" "qe_pending e = entryOf qe_pending ex q"
    by (simp_all add: e_def entryFor_counts)
  have c: "counted q" and l: "limited q" using q by (simp_all add: quota_ok_def)
  have pc: "projectCount (q\<lparr>qm_exec := m\<rparr>) p = projectCount q p"
    "projectCount (q\<lparr>qm_exec := m, qm_reservations := rs\<rparr>) p = projectCount q p" for m rs p
    by (simp_all add: projectCount_def)
  show ?thesis
  proof (cases "qe_tokens e < 1 \<or> 16 \<le> qe_pending e")
    case True
    have "counted (q\<lparr>qm_exec := mput ex e (qm_exec q)\<rparr>)"
      using c unfolding counted_def by (simp add: e pc)
    moreover have "limited (q\<lparr>qm_exec := mput ex e (qm_exec q)\<rparr>)"
      using l unfolding limited_def by simp
    ultimately show ?thesis
      using True False Reserve_cases [of ex project created now q] by (simp add: e_def quota_ok_def)
  next
    case full: False
    define e' where "e' = e\<lparr>qe_tokens := round64 (qe_tokens e - 1), qe_pending := qe_pending e + 1\<rparr>"
    define q' where "q' = q\<lparr>qm_exec := mput ex e' (mput ex e (qm_exec q)),
      qm_reservations := qm_reservations q @ [\<lparr>rv_ex = ex, rv_project = project, rv_state = reservationPending\<rparr>]\<rparr>"
    have h: "heldBy x s q' = heldBy x s q + of_bool (ex = x \<and> reservationPending = s)"
      "heldIn p q' = heldIn p q" "heldAll q' = heldAll q" for x s p
      by (simp_all add: q'_def held_append)
    have en: "entryOf f x q' = (if x = ex then f e' else entryOf f x q)" for f x
      by (simp add: q'_def entryOf_def)
    have a: "qe_active e' = qe_active e" "qe_pending e' = qe_pending e + 1" by (simp_all add: e'_def)
    have rest: "qm_global q' = qm_global q" "qm_projects q' = qm_projects q" "projectCount q' p = projectCount q p" for p
      by (simp_all add: q'_def projectCount_def)
    have "counted q'"
      using c unfolding counted_def by (simp add: h en a e rest)
    moreover have "limited q'"
    proof -
      have "heldBy ex reservationPending q \<le> 15" using full e c by (simp add: counted_def)
      then show ?thesis using l unfolding limited_def by (simp add: h)
    qed
    ultimately show ?thesis
      using full False Reserve_cases [of ex project created now q] by (simp add: e_def e'_def q'_def quota_ok_def)
  qed
qed

lemma limited_pending: "limited q \<Longrightarrow> heldBy ex reservationPending q \<le> 16"
  by (simp add: limited_def)

lemma Activate_ok:
  assumes q: "quota_ok q" and r: "r < length (qm_reservations q)"
  shows "quota_ok (snd (Activate r q))"
proof -
  define rv where "rv = qm_reservations q ! r"
  have c: "counted q" and l: "limited q" using q by (simp_all add: quota_ok_def)
  show ?thesis
  proof (cases "rv_state rv = reservationPending")
    case True
    then obtain e where e: "map_of (qm_exec q) (rv_ex rv) = Some e"
      using entry_present [OF c r] by (auto simp: rv_def)
    have ea: "qe_active e = heldBy (rv_ex rv) reservationActive q" "qe_pending e = heldBy (rv_ex rv) reservationPending q"
      using c e unfolding counted_def by (metis entryOf_Some)+
    show ?thesis
    proof (cases "32 \<le> qe_active e \<or> 256 \<le> projectCount q (rv_project rv) \<or> 2048 \<le> qm_global q")
      case True
      then show ?thesis using q e \<open>rv_state rv = reservationPending\<close>
        by (simp add: Activate_def Let_def rv_def [symmetric])
    next
      case False
      define q1 where "q1 = q\<lparr>qm_exec := mput (rv_ex rv) (e\<lparr>qe_pending := qe_pending e - 1, qe_active := qe_active e + 1\<rparr>) (qm_exec q),
        qm_projects := mput (rv_project rv) (projectCount q (rv_project rv) + 1) (qm_projects q),
        qm_global := qm_global q + 1\<rparr>"
      have rs: "qm_reservations q1 = qm_reservations q" by (simp add: q1_def)
      note h = held_setReservation [where r = r and q = q1 and st = reservationActive, unfolded rs, OF r, folded rv_def]
      have hq: "heldBy x s q1 = heldBy x s q" "heldIn p q1 = heldIn p q" "heldAll q1 = heldAll q" for x s p
        by (simp_all add: q1_def)
      have pr: "projectCount q1 p = projectCount q p + of_bool (p = rv_project rv)" for p
        by (simp add: q1_def projectCount_def)
      have en: "entryOf qe_active x q1 = entryOf qe_active x q + of_bool (x = rv_ex rv)"
        "entryOf qe_pending x q1 = entryOf qe_pending x q - of_bool (x = rv_ex rv)" for x
        using e by (simp_all add: q1_def entryOf_def)
      have gl: "qm_global q1 = qm_global q + 1" by (simp add: q1_def)
      have pos: "\<forall>p n. map_of (qm_projects q1) p = Some n \<longrightarrow> 0 < n"
        using c held_nonneg(2) [of "rv_project rv" q] by (auto simp: q1_def counted_def)
      have "counted (setReservation r reservationActive q1)"
        using c True pos unfolding counted_def by (auto simp: h hq pr gl en)
      moreover have "heldBy (rv_ex rv) reservationPending q \<le> 17" using limited_pending [OF l, of "rv_ex rv"] by simp
      then have "limited (setReservation r reservationActive q1)"
        using c l True False ea unfolding counted_def limited_def by (auto simp: h hq)
      ultimately show ?thesis using False e True
        by (simp add: Activate_def Let_def rv_def [symmetric] quota_ok_def q1_def)
    qed
  next
    case False
    then show ?thesis using q by (cases "rv_state rv") (simp_all add: Activate_def Let_def rv_def)
  qed
qed

lemma Release_ok:
  assumes q: "quota_ok q" and r: "r < length (qm_reservations q)"
  shows "quota_ok (Release r q)"
proof -
  define rv where "rv = qm_reservations q ! r"
  have c: "counted q" and l: "limited q" using q by (simp_all add: quota_ok_def)
  have pc: "projectCount q p = heldIn p q" for p using c by (simp add: counted_def)
  show ?thesis
  proof (cases "rv_state rv = reservationReleased")
    case True
    then show ?thesis using q by (simp add: Release_def Let_def rv_def)
  next
    case False
    then obtain e where e: "map_of (qm_exec q) (rv_ex rv) = Some e"
      using entry_present [OF c r] by (auto simp: rv_def)
    define a where "a = (rv_state rv = reservationActive)"
    define n where "n = projectCount q (rv_project rv) - 1"
    define q1 where "q1 = (if a then
        q\<lparr>qm_exec := mput (rv_ex rv) (e\<lparr>qe_active := qe_active e - 1\<rparr>) (qm_exec q),
          qm_projects := (if n = 0 then mdel (rv_project rv) (qm_projects q) else mput (rv_project rv) n (qm_projects q)),
          qm_global := qm_global q - 1\<rparr>
        else q\<lparr>qm_exec := mput (rv_ex rv) (e\<lparr>qe_pending := qe_pending e - 1\<rparr>) (qm_exec q)\<rparr>)"
    have rel: "Release r q = setReservation r reservationReleased q1"
      using False e by (simp add: Release_def Let_def rv_def [symmetric] q1_def n_def a_def)
    have rs: "qm_reservations q1 = qm_reservations q" by (simp add: q1_def)
    note h = held_setReservation [where r = r and q = q1 and st = reservationReleased, unfolded rs, OF r, folded rv_def]
    have hq: "heldBy x s q1 = heldBy x s q" "heldIn p q1 = heldIn p q" "heldAll q1 = heldAll q" for x s p
      by (simp_all add: q1_def)
    have st: "rv_state rv = reservationPending \<longleftrightarrow> \<not> a" using False by (cases "rv_state rv") (auto simp: a_def)
    have en: "entryOf qe_active x q1 = entryOf qe_active x q - of_bool (x = rv_ex rv \<and> a)"
      "entryOf qe_pending x q1 = entryOf qe_pending x q - of_bool (x = rv_ex rv \<and> \<not> a)" for x
      using e by (simp_all add: q1_def entryOf_def)
    have "0 < heldIn (rv_project rv) q" if a
      using that nth_mem [OF r] by (auto simp: heldIn_def filter_empty_conv a_def rv_def)
    then have n: "0 \<le> n" if a using that by (simp add: n_def pc)
    have pr: "projectCount q1 p = projectCount q p - of_bool (p = rv_project rv \<and> a)" for p
      by (auto simp: q1_def projectCount_def n_def)
    have gl: "qm_global q1 = qm_global q - of_bool a" by (simp add: q1_def)
    have pos: "\<forall>p n. map_of (qm_projects q1) p = Some n \<longrightarrow> 0 < n"
      using c n by (auto simp: q1_def counted_def split: if_splits)
    have "counted (setReservation r reservationReleased q1)"
      using c st pos unfolding counted_def by (auto simp: h hq pr gl en a_def [symmetric])
    moreover have "heldBy x reservationActive (setReservation r reservationReleased q1) \<le> heldBy x reservationActive q"
      "heldBy x reservationPending (setReservation r reservationReleased q1) \<le> heldBy x reservationPending q"
      "heldIn p (setReservation r reservationReleased q1) \<le> heldIn p q"
      "heldAll (setReservation r reservationReleased q1) \<le> heldAll q" for x p
      by (simp_all add: h hq)
    then have "limited (setReservation r reservationReleased q1)"
      using l unfolding limited_def by (meson order_trans)
    ultimately show ?thesis by (simp add: rel quota_ok_def)
  qed
qed

lemma Reserve_length: "Reserve created now ex project q = (Inr r, q') \<Longrightarrow> r < length (qm_reservations q')"
  by (auto simp: Reserve_def Let_def split: if_splits)

lemma Activate_length [simp]: "length (qm_reservations (snd (Activate r q))) = length (qm_reservations q)"
  by (auto simp: Activate_def Let_def setReservation_def split: option.split)

lemma Acquire_ok:
  assumes "quota_ok q"
  shows "quota_ok (snd (Acquire created now ex project q))"
proof (cases "Reserve created now ex project q")
  case (Pair res q1)
  note q1 = Reserve_ok [OF assms, of created now ex project, unfolded Pair snd_conv]
  show ?thesis
  proof (cases res)
    case (Inr r)
    note len = Reserve_length [OF Pair [unfolded Inr]]
    have "quota_ok (snd (Activate r q1))" by (rule Activate_ok [OF q1 len])
    then show ?thesis
      using Pair Inr Release_ok [of "snd (Activate r q1)" r] len
      by (auto simp: Acquire_def split: prod.splits option.splits)
  qed (use Pair q1 in \<open>simp add: Acquire_def\<close>)
qed

lemma quotaStep_ok: "quota_ok q \<Longrightarrow> quota_ok (quotaStep q oper)"
  by (cases oper) (simp_all add: quotaStep_def Reserve_ok Activate_ok Release_ok Acquire_ok)

interpretation quota: step_system quotaStep quota_ok
  by unfold_locales (rule quotaStep_ok)

lemma quota_ok_new: "quota_ok NewQuotaManager"
  by (simp add: quota_ok_def counted_def limited_def NewQuotaManager_def entryOf_def projectCount_def
      heldBy_def heldIn_def heldAll_def)

section \<open>Rounding keeps integral bounds\<close>

lemma bitLength_bounds: "0 < n \<Longrightarrow> 0 < bitLength n \<and> 2 ^ nat (bitLength n - 1) \<le> n \<and> n < 2 ^ nat (bitLength n)"
proof (induction n rule: bitLength.induct)
  case (1 n)
  show ?case
  proof (cases "n = 1")
    case True
    then show ?thesis by (simp add: bitLength.simps)
  next
    case False
    define m where "m = n div 2"
    have m: "0 < m" "n = 2 * m \<or> n = 2 * m + 1" using False 1(2) by (auto simp: m_def)
    have b: "bitLength n = 1 + bitLength m" using 1(2) by (subst bitLength.simps) (simp add: m_def)
    have ih: "0 < bitLength m" "2 ^ nat (bitLength m - 1) \<le> m" "m < 2 ^ nat (bitLength m)"
      using 1(1) 1(2) m(1) by (auto simp: m_def)
    have "nat (bitLength m) = Suc (nat (bitLength m - 1))" using ih(1) by simp
    then have "(2::int) ^ nat (bitLength m) = 2 * 2 ^ nat (bitLength m - 1)" by simp
    moreover have "(2::int) ^ nat (1 + bitLength m) = 2 * 2 ^ nat (bitLength m)"
      using ih(1) by (simp add: nat_add_distrib)
    ultimately show ?thesis using ih m(2) b by auto
  qed
qed

lemma pow2_powi: "pow2 k = 2 powi k"
  by (simp add: pow2_def power_int_def power_one_over inverse_eq_divide)

lemma binaryExponent_le:
  assumes "0 < x"
  shows "pow2 (binaryExponent x) \<le> x"
proof -
  obtain n d where q: "quotient_of x = (n, d)" by force
  have d: "0 < d" using quotient_of_denom_pos [OF q] .
  have x: "x = of_int n / of_int d" by (rule quotient_of_div [OF q])
  have n: "0 < n" using assms d by (simp add: x zero_less_divide_iff)
  have "pow2 (bitLength n - bitLength d - 1) = 2 powi (bitLength n - 1) / 2 powi bitLength d"
    by (simp add: pow2_powi power_int_diff [symmetric] algebra_simps)
  also have "\<dots> \<le> of_int n / of_int d"
  proof (rule frac_le)
    have "(2 :: rat) powi (bitLength n - 1) = of_int (2 ^ nat (bitLength n - 1))"
      using bitLength_bounds [OF n] by (simp add: power_int_def)
    also have "\<dots> \<le> of_int n" using bitLength_bounds [OF n] by (simp only: of_int_le_iff)
    finally show "(2 :: rat) powi (bitLength n - 1) \<le> of_int n" .
    have "of_int d \<le> (of_int (2 ^ nat (bitLength d)) :: rat)"
      using bitLength_bounds [OF d] by (simp only: of_int_le_iff) simp
    then show "(of_int d :: rat) \<le> 2 powi bitLength d"
      using bitLength_bounds [OF d] by (simp add: power_int_def)
  qed (use d n in simp_all)
  finally show ?thesis unfolding x [symmetric] by (simp add: binaryExponent_def q Let_def)
qed

lemma roundEven_le: "y \<le> of_int k \<Longrightarrow> roundEven y \<le> k"
  unfolding roundEven_def Let_def by (auto simp: floor_le_iff)

lemma round64_le:
  assumes "x \<le> of_int k" and "0 \<le> k" and "k < 2 ^ 53"
  shows "round64 x \<le> of_int k"
proof (cases "0 < x")
  case True
  define e where "e = binaryExponent x"
  define u where "u = pow2 (e - 52)"
  have u: "0 < u" by (simp add: u_def pow2_def)
  have "e \<le> 52"
  proof (rule ccontr)
    assume "\<not> e \<le> 52"
    then have "(2::rat) powi 53 \<le> 2 powi e" by (intro power_int_increasing) auto
    also have "\<dots> \<le> x" using binaryExponent_le [OF True] by (simp add: e_def pow2_powi)
    also have "\<dots> \<le> of_int k" by (rule assms)
    also have "\<dots> < of_int (2 ^ 53)" using assms(3) by (simp only: of_int_less_iff)
    finally show False by simp
  qed
  then have "u = 1 / 2 ^ nat (52 - e)" by (auto simp: u_def pow2_def)
  then have ku: "of_int k / u = of_int (k * 2 ^ nat (52 - e))" by simp
  have "x / u \<le> of_int k / u" using assms(1) u by (simp add: divide_right_mono)
  then have "roundEven (x / u) \<le> k * 2 ^ nat (52 - e)" unfolding ku by (rule roundEven_le)
  then have "of_int (roundEven (x / u)) \<le> of_int k / u" unfolding ku by (simp only: of_int_le_iff)
  then have "of_int (roundEven (x / u)) * u \<le> of_int k" using u by (simp add: pos_le_divide_eq)
  then show ?thesis using True by (simp add: round64_def Let_def u_def e_def)
next
  case False
  have "0 \<le> roundEven y" if "0 \<le> y" for y
    using that unfolding roundEven_def Let_def by auto
  then have "0 \<le> roundEven (\<bar>x\<bar> / pow2 (binaryExponent \<bar>x\<bar> - 52))" by (simp add: pow2_def)
  then have "round64 x \<le> 0"
    using False by (auto simp: round64_def Let_def sgn_if pow2_def zero_le_mult_iff)
  also have "\<dots> \<le> of_int k" using assms(2) by simp
  finally show ?thesis .
qed

section \<open>The burst of one instant\<close>

definition made :: "string \<Rightarrow> QuotaManager \<Rightarrow> int" where
  "made ex q = int (count_list (map rv_ex (qm_reservations q)) ex)"

definition bucket :: "string \<Rightarrow> QuotaManager \<Rightarrow> (rat \<times> int) option" where
  "bucket ex q = map_option (\<lambda>e. (qe_tokens e, qe_last e)) (map_of (qm_exec q) ex)"

definition atInstant :: "int \<Rightarrow> string \<Rightarrow> quota_op \<Rightarrow> bool" where
  "atInstant t ex oper =
     (case oper of
        OReserve created now x project \<Rightarrow> x = ex \<longrightarrow> created = t \<and> now = t
      | OAcquire created now x project \<Rightarrow> x = ex \<longrightarrow> created = t \<and> now = t
      | _ \<Rightarrow> True)"

text \<open>What is left of the burst at the instant \<open>t\<close> after \<open>made ex q - base\<close> reservations.\<close>

definition spent :: "int \<Rightarrow> int \<Rightarrow> string \<Rightarrow> QuotaManager \<Rightarrow> bool" where
  "spent base t ex q =
     (base \<le> made ex q \<and> made ex q \<le> base + 20 \<and>
      (made ex q = base \<or> (\<exists>tok. bucket ex q = Some (tok, t) \<and> tok \<le> of_int (20 - (made ex q - base)))))"

lemma made_setReservation [simp]: "made ex (setReservation r st q) = made ex q"
proof (cases "r < length (qm_reservations q)")
  case True
  then have "(map rv_ex (qm_reservations q))[r := rv_ex (qm_reservations q ! r)] = map rv_ex (qm_reservations q)"
    by (metis length_map list_update_id nth_map)
  then show ?thesis by (simp add: made_def setReservation_def map_update)
qed (simp add: made_def setReservation_def list_update_beyond)

lemma Activate_frame [simp]: "made ex (snd (Activate r q)) = made ex q" "bucket ex (snd (Activate r q)) = bucket ex q"
  by (auto simp: Activate_def Let_def bucket_def split: option.split) (simp add: made_def)

lemma Release_frame [simp]: "made ex (Release r q) = made ex q" "bucket ex (Release r q) = bucket ex q"
  by (auto simp: Release_def Let_def bucket_def split: option.split) (simp_all add: made_def)

lemma Reserve_other:
  assumes "x \<noteq> ex"
  shows "made ex (snd (Reserve created now x project q)) = made ex q"
    and "bucket ex (snd (Reserve created now x project q)) = bucket ex q"
  using assms by (auto simp: Reserve_def Let_def made_def bucket_def)

lemma Seconds_zero [simp]: "Seconds 0 = 0"
  by (simp add: Seconds_def quotTrunc_def round64_def)

lemma timeSub_self [simp]: "timeSub t t = 0"
  by (simp add: timeSub_def)

lemma refill_le:
  assumes "k = 20 \<or> (qe_last e = t \<and> qe_tokens e \<le> of_int k)" and "0 \<le> k" and "k \<le> 20"
  shows "qe_tokens (refill t e) \<le> of_int k" and "qe_last (refill t e) = t"
proof -
  have "round64 (qe_tokens e) \<le> of_int k" if "qe_tokens e \<le> of_int k"
    using that assms by (intro round64_le) auto
  then show "qe_tokens (refill t e) \<le> of_int k"
    using assms by (auto simp: refill_def Let_def round64_def [of 0])
qed (simp add: refill_def Let_def)

lemma Reserve_spent:
  assumes sp: "spent base t ex q"
  shows "spent base t ex (snd (Reserve t t ex project q))"
proof (cases "ex = [] \<or> project = []")
  case True
  then show ?thesis using sp by (simp add: Reserve_def)
next
  case False
  define m where "m = made ex q - base"
  define e where "e = refill t (entryFor t ex q)"
  have m: "0 \<le> m" "m \<le> 20" using sp by (auto simp: spent_def m_def)
  have "20 - m = 20 \<or> (qe_last (entryFor t ex q) = t \<and> qe_tokens (entryFor t ex q) \<le> of_int (20 - m))"
    using sp by (auto simp: spent_def m_def bucket_def entryFor_def)
  note ref = refill_le [OF this, folded e_def]
  have tok: "qe_tokens e \<le> of_int (20 - m)" and last: "qe_last e = t" using ref m by auto
  show ?thesis
  proof (cases "qe_tokens e < 1 \<or> 16 \<le> qe_pending e")
    case True
    then have "snd (Reserve t t ex project q) = q\<lparr>qm_exec := mput ex e (qm_exec q)\<rparr>"
      using False Reserve_cases [of ex project t t q] by (simp add: e_def)
    then show ?thesis using m tok last by (simp add: spent_def made_def bucket_def m_def)
  next
    case ok: False
    define q' where "q' = snd (Reserve t t ex project q)"
    have "q' = q\<lparr>qm_exec := mput ex (e\<lparr>qe_tokens := round64 (qe_tokens e - 1), qe_pending := qe_pending e + 1\<rparr>)
                       (mput ex e (qm_exec q)),
          qm_reservations := qm_reservations q @ [\<lparr>rv_ex = ex, rv_project = project, rv_state = reservationPending\<rparr>]\<rparr>"
      using ok False Reserve_cases [of ex project t t q] by (simp add: q'_def e_def)
    then have q': "made ex q' = made ex q + 1" "bucket ex q' = Some (round64 (qe_tokens e - 1), t)"
      using last by (simp_all add: made_def bucket_def)
    have "(1 :: rat) \<le> of_int (20 - m)" using ok tok by auto
    then have m19: "m \<le> 19" by simp
    have "qe_tokens e - 1 \<le> of_int (20 - (m + 1))" using tok by simp
    then have "round64 (qe_tokens e - 1) \<le> of_int (20 - (m + 1))" using m m19 by (intro round64_le) auto
    moreover have "made ex q + 1 - base = m + 1" by (simp add: m_def)
    ultimately show ?thesis using m m19 unfolding q'_def [symmetric] spent_def q' by (auto simp: m_def)
  qed
qed

lemma Acquire_frame:
  "made ex (snd (Acquire created now x project q)) = made ex (snd (Reserve created now x project q))"
  "bucket ex (snd (Acquire created now x project q)) = bucket ex (snd (Reserve created now x project q))"
proof -
  obtain res q1 where r: "Reserve created now x project q = (res, q1)" by force
  show "made ex (snd (Acquire created now x project q)) = made ex (snd (Reserve created now x project q))"
    "bucket ex (snd (Acquire created now x project q)) = bucket ex (snd (Reserve created now x project q))"
    by (auto simp: Acquire_def r split: sum.split prod.split option.split dest!: arg_cong [of "Activate _ _" _ snd])
qed

lemma quotaStep_spent:
  assumes "atInstant t ex oper" and "spent base t ex q"
  shows "spent base t ex (quotaStep q oper)"
proof -
  have cong: "spent base t ex q'" if "made ex q' = made ex q''" "bucket ex q' = bucket ex q''" "spent base t ex q''" for q' q''
    using that by (simp add: spent_def)
  have res: "spent base t ex (snd (Reserve c n x p q))" if "x = ex \<longrightarrow> c = t \<and> n = t" for c n x p
    using that Reserve_spent [OF assms(2), of p] cong [OF Reserve_other(1) Reserve_other(2) assms(2)] by (cases "x = ex") auto
  show ?thesis
  proof (cases oper)
    case (OReserve c n x p)
    then show ?thesis using assms(1) res [of x c n p] by (simp add: quotaStep_def atInstant_def)
  next
    case (OAcquire c n x p)
    then show ?thesis
      using assms(1) cong [OF Acquire_frame res [of x c n p]] by (simp add: quotaStep_def atInstant_def)
  next
    case (OActivate r)
    then show ?thesis using cong [OF Activate_frame assms(2)] assms(2) by (simp add: quotaStep_def)
  next
    case (ORelease r)
    then show ?thesis using cong [OF Release_frame assms(2)] assms(2) by (simp add: quotaStep_def)
  qed
qed

lemma run_spent: "list_all (atInstant t ex) ops \<Longrightarrow> spent base t ex q \<Longrightarrow> spent base t ex (foldl quotaStep q ops)"
  by (induction ops arbitrary: q) (auto intro: quotaStep_spent)

section \<open>Properties\<close>

text \<open>(C12) The counters are exact and the limits hold after any sequence of operations: the active and pending counts of
  an execution, the count of a project and the global count are the numbers of reservations in that state, with
  at most 32 active and 16 pending reservations per execution, 256 active ones per project and 2048 overall. No
  project is kept with the count zero, and when every reservation is released all counts are back at zero.\<close>

theorem quota_counts_exact:
  fixes ops :: "quota_op list"
  defines "q \<equiv> foldl quotaStep NewQuotaManager ops"
  shows "(\<forall>ex. entryOf qe_active ex q = heldBy ex reservationActive q \<and> heldBy ex reservationActive q \<le> 32) \<and>
         (\<forall>ex. entryOf qe_pending ex q = heldBy ex reservationPending q \<and> heldBy ex reservationPending q \<le> 16) \<and>
         (\<forall>p. projectCount q p = heldIn p q \<and> heldIn p q \<le> 256) \<and>
         qm_global q = heldAll q \<and> heldAll q \<le> 2048 \<and>
         (list_all (\<lambda>rv. rv_state rv = reservationReleased) (qm_reservations q) \<longrightarrow>
            qm_global q = 0 \<and> map_of (qm_projects q) = Map.empty \<and>
            (\<forall>ex. entryOf qe_active ex q = 0 \<and> entryOf qe_pending ex q = 0))"
proof -
  have "quota_ok q" unfolding q_def by (rule quota.run_invar [OF quota_ok_new])
  then have c: "counted q" and l: "limited q" by (simp_all add: quota_ok_def)
  have "qm_global q = 0 \<and> map_of (qm_projects q) = Map.empty \<and>
        (\<forall>ex. entryOf qe_active ex q = 0 \<and> entryOf qe_pending ex q = 0)"
    if "list_all (\<lambda>rv. rv_state rv = reservationReleased) (qm_reservations q)"
  proof -
    have z: "heldAll q = 0" "heldIn p q = 0" "heldBy ex reservationActive q = 0" "heldBy ex reservationPending q = 0" for p ex
      using that by (auto simp: heldAll_def heldIn_def heldBy_def filter_empty_conv list_all_iff)
    have "map_of (qm_projects q) p = None" for p
    proof (cases "map_of (qm_projects q) p")
      case (Some n)
      then have "0 < n" "projectCount q p = n" using c by (auto simp: counted_def projectCount_def)
      then show ?thesis using c z(2) [of p] by (simp add: counted_def)
    qed
    then have "map_of (qm_projects q) = Map.empty" by (rule ext)
    then show ?thesis using c z by (simp add: counted_def)
  qed
  then show ?thesis using c l unfolding counted_def limited_def by auto
qed

theorem quota_counts_exact_witness:
  "heldAll (foldl quotaStep NewQuotaManager [OAcquire 0 0 ''e'' ''p'']) = 1 \<and>
   qm_global (foldl quotaStep NewQuotaManager [OAcquire 0 0 ''e'' ''p'', ORelease 0, ORelease 0]) = 0"
proof -
  have h: "heldAll (foldl quotaStep NewQuotaManager [OAcquire 0 0 ''e'' ''p'']) = 1"
    by code_simp
  have "list_all (\<lambda>rv. rv_state rv = reservationReleased)
          (qm_reservations (foldl quotaStep NewQuotaManager [OAcquire 0 0 ''e'' ''p'', ORelease 0, ORelease 0]))"
    by code_simp
  then show ?thesis
    using h quota_counts_exact [of "[OAcquire 0 0 ''e'' ''p'', ORelease 0, ORelease 0]"] by blast
qed

text \<open>The bucket limits bursts, with the rounding of \<open>float64\<close> taken into account: from any state, however the
  operations of other executions and at other times are interleaved, no more than 20 reservations are handed to
  an execution at one reading of the clock.\<close>

theorem quota_burst:
  assumes "list_all (atInstant t ex) ops"
  shows "made ex (foldl quotaStep q ops) \<le> made ex q + 20"
proof -
  have "spent (made ex q) t ex q" by (simp add: spent_def)
  from run_spent [OF assms this] show ?thesis by (simp add: spent_def)
qed

theorem quota_burst_witness:
  "list_all (atInstant 7 ''e'') (replicate 22 (OAcquire 7 7 ''e'' ''p'')) \<and>
   made ''e'' (foldl quotaStep NewQuotaManager (replicate 22 (OAcquire 7 7 ''e'' ''p''))) \<le> 20"
proof -
  have l: "list_all (atInstant 7 ''e'') (replicate 22 (OAcquire 7 7 ''e'' ''p''))" by (simp add: list_all_iff atInstant_def)
  moreover have "made ''e'' NewQuotaManager = 0" by (simp add: made_def NewQuotaManager_def)
  ultimately show ?thesis using quota_burst [OF l, of NewQuotaManager] by simp
qed

end
