(* ===== verification/Egress_Currentness.thy ===== *)
theory Egress_Currentness
  imports Prelude
begin

text \<open>
  The currentness leases of the egress proxy (\<open>src/internal/egressproxy/currentness.go\<close>): for every certificate
  fingerprint one execution record with a revocation signal, the calls of \<open>Authorize\<close> that use it, the leases it
  granted and the background loop that renews the proof.

  The goroutines interleave at the mutexes: a step of \<open>currentStep\<close> is one critical section, or one action of a
  goroutine between two of them. The outcome of the proof itself (\<open>authorize\<close>, which reads the Kubernetes API) is an
  input of the step. Records, signals, loops, calls and leases are stores indexed by their creation, as the
  pointers of the source are.
\<close>

section \<open>State\<close>

record executionRecord =
  xr_state :: nat
  xr_users :: int
  xr_leases :: int
  xr_loop :: "nat option"

datatype loop_phase = Running | Failing | LoopDone

record currentnessLoop =
  lp_record :: nat
  lp_state :: nat
  lp_cancelled :: bool
  lp_phase :: loop_phase

datatype call_phase = Proving | Leaving | Left

record authorizeCall =
  ac_fingerprint :: string
  ac_record :: nat
  ac_phase :: call_phase

datatype lease_phase = Held | Cancelling "nat option" | Waiting "nat option" | Freed

record currentnessLease =
  ls_fingerprint :: string
  ls_record :: nat
  ls_state :: nat
  ls_phase :: lease_phase

text \<open>\<open>ca_records\<close> is the map \<open>records\<close>, the others are the stores; a signal is \<open>True\<close> once its channel is closed.
  \<open>ca_configured\<close> abbreviates the tests for missing configuration at the head of \<open>Authorize\<close>.\<close>

record CurrentnessAuthorizer =
  ca_configured :: bool
  ca_records :: "(string \<times> nat) list"
  ca_heap :: "executionRecord list"
  ca_signals :: "bool list"
  ca_loops :: "currentnessLoop list"
  ca_calls :: "authorizeCall list"
  ca_leases :: "currentnessLease list"

definition MaxCurrentnessStates :: nat where
  "MaxCurrentnessStates = 2048"

definition noFingerprint :: string where
  "noFingerprint = replicate 32 (char_of (0 :: nat))"

section \<open>Operations\<close>

definition newExecutionState :: "CurrentnessAuthorizer \<Rightarrow> nat \<times> CurrentnessAuthorizer" where
  "newExecutionState s = (length (ca_signals s), s\<lparr>ca_signals := ca_signals s @ [False]\<rparr>)"

definition revoke :: "nat \<Rightarrow> CurrentnessAuthorizer \<Rightarrow> CurrentnessAuthorizer" where
  "revoke i s = s\<lparr>ca_signals := (ca_signals s)[i := True]\<rparr>"

definition isClosed :: "nat \<Rightarrow> CurrentnessAuthorizer \<Rightarrow> bool" where
  "isClosed i s = (ca_signals s ! i)"

definition setRecord :: "nat \<Rightarrow> executionRecord \<Rightarrow> CurrentnessAuthorizer \<Rightarrow> CurrentnessAuthorizer" where
  "setRecord r x s = s\<lparr>ca_heap := (ca_heap s)[r := x]\<rparr>"

definition setCall :: "nat \<Rightarrow> call_phase \<Rightarrow> CurrentnessAuthorizer \<Rightarrow> CurrentnessAuthorizer" where
  "setCall c ph s = s\<lparr>ca_calls := (ca_calls s)[c := (ca_calls s ! c)\<lparr>ac_phase := ph\<rparr>]\<rparr>"

definition setLease :: "nat \<Rightarrow> lease_phase \<Rightarrow> CurrentnessAuthorizer \<Rightarrow> CurrentnessAuthorizer" where
  "setLease k ph s = s\<lparr>ca_leases := (ca_leases s)[k := (ca_leases s ! k)\<lparr>ls_phase := ph\<rparr>]\<rparr>"

definition setLoop :: "nat \<Rightarrow> currentnessLoop \<Rightarrow> CurrentnessAuthorizer \<Rightarrow> CurrentnessAuthorizer" where
  "setLoop l x s = s\<lparr>ca_loops := (ca_loops s)[l := x]\<rparr>"

text \<open>The cancel function of a loop's context, which may be nil.\<close>

definition cancelLoop :: "nat option \<Rightarrow> CurrentnessAuthorizer \<Rightarrow> CurrentnessAuthorizer" where
  "cancelLoop lo s =
     (case lo of None \<Rightarrow> s | Some l \<Rightarrow> setLoop l ((ca_loops s ! l)\<lparr>lp_cancelled := True\<rparr>) s)"

text \<open>\<open>record\<close>: find or create the record of a fingerprint and count its user.\<close>

definition recordFor :: "string \<Rightarrow> CurrentnessAuthorizer \<Rightarrow> (string + nat) \<times> CurrentnessAuthorizer" where
  "recordFor fp s =
     (case map_of (ca_records s) fp of
        Some r \<Rightarrow> (Inr r, setRecord r ((ca_heap s ! r)\<lparr>xr_users := xr_users (ca_heap s ! r) + 1\<rparr>) s)
      | None \<Rightarrow>
          if MaxCurrentnessStates \<le> length (ca_records s) then (Inl ''currentness state capacity exceeded'', s)
          else
            (let (i, s1) = newExecutionState s; r = length (ca_heap s1) in
             (Inr r, s1\<lparr>ca_heap := ca_heap s1 @ [\<lparr>xr_state = i, xr_users = 1, xr_leases = 0, xr_loop = None\<rparr>],
                        ca_records := mput fp r (ca_records s1)\<rparr>)))"

text \<open>\<open>Authorize\<close> up to the proof.\<close>

definition authorizeBegin :: "string \<Rightarrow> CurrentnessAuthorizer \<Rightarrow> (string + nat) \<times> CurrentnessAuthorizer" where
  "authorizeBegin fp s =
     (if \<not> ca_configured s then (Inl ''currentness authorizer is not configured'', s)
      else if fp = noFingerprint then (Inl ''certificate fingerprint is required'', s)
      else case recordFor fp s of
             (Inl e, s1) \<Rightarrow> (Inl e, s1)
           | (Inr r, s1) \<Rightarrow>
               (Inr (length (ca_calls s1)),
                s1\<lparr>ca_calls := ca_calls s1 @ [\<lparr>ac_fingerprint = fp, ac_record = r, ac_phase = Proving\<rparr>]\<rparr>))"

definition acquireLeaseLocked :: "string \<Rightarrow> nat \<Rightarrow> CurrentnessAuthorizer \<Rightarrow> nat \<times> CurrentnessAuthorizer" where
  "acquireLeaseLocked fp r s =
     (let x = ca_heap s ! r;
          x1 = x\<lparr>xr_leases := xr_leases x + 1\<rparr>;
          s1 = (if xr_leases x1 = 1
                then s\<lparr>ca_heap := (ca_heap s)[r := x1\<lparr>xr_loop := Some (length (ca_loops s))\<rparr>],
                       ca_loops := ca_loops s @ [\<lparr>lp_record = r, lp_state = xr_state x, lp_cancelled = False, lp_phase = Running\<rparr>]\<rparr>
                else setRecord r x1 s) in
      (length (ca_leases s1),
       s1\<lparr>ca_leases := ca_leases s1 @ [\<lparr>ls_fingerprint = fp, ls_record = r, ls_state = xr_state x, ls_phase = Held\<rparr>]\<rparr>))"

text \<open>\<open>Authorize\<close> after the proof, under the record's mutex.\<close>

definition authorizeEnd :: "nat \<Rightarrow> bool \<Rightarrow> CurrentnessAuthorizer \<Rightarrow> (string + nat) \<times> CurrentnessAuthorizer" where
  "authorizeEnd c proved s =
     (let fp = ac_fingerprint (ca_calls s ! c); r = ac_record (ca_calls s ! c); x = ca_heap s ! r;
          s0 = setCall c Leaving s in
      if \<not> proved then (Inl ''proof failed'', cancelLoop (xr_loop x) (revoke (xr_state x) s0))
      else if isClosed (xr_state x) s0 then
        (if xr_leases x \<noteq> 0 then (Inl ''revoked currentness leases are still draining'', s0)
         else
           (let (i, s1) = newExecutionState s0;
                (k, s2) = acquireLeaseLocked fp r (setRecord r (x\<lparr>xr_state := i\<rparr>) s1) in (Inr k, s2)))
      else (let (k, s1) = acquireLeaseLocked fp r s0 in (Inr k, s1)))"

text \<open>\<open>release\<close>: the deferred end of \<open>Authorize\<close>.\<close>

definition authorizeLeave :: "nat \<Rightarrow> CurrentnessAuthorizer \<Rightarrow> CurrentnessAuthorizer" where
  "authorizeLeave c s =
     (let fp = ac_fingerprint (ca_calls s ! c); r = ac_record (ca_calls s ! c);
          x = (ca_heap s ! r)\<lparr>xr_users := xr_users (ca_heap s ! r) - 1\<rparr>;
          s1 = setCall c Left (setRecord r x s) in
      if xr_users x = 0 \<and> xr_leases x = 0 \<and> map_of (ca_records s1) fp = Some r
      then s1\<lparr>ca_records := mdel fp (ca_records s1)\<rparr> else s1)"

text \<open>\<open>runCurrentnessLoop\<close>: a failed proof, the revocation it leads to, and the end of a cancelled wait. A proof
  that succeeds changes nothing.\<close>

definition loopFail :: "nat \<Rightarrow> CurrentnessAuthorizer \<Rightarrow> CurrentnessAuthorizer" where
  "loopFail l s =
     (let x = ca_loops s ! l in
      setLoop l (x\<lparr>lp_phase := (if lp_cancelled x then LoopDone else Failing)\<rparr>) s)"

definition loopRevoke :: "nat \<Rightarrow> CurrentnessAuthorizer \<Rightarrow> CurrentnessAuthorizer" where
  "loopRevoke l s =
     (let x = ca_loops s ! l;
          s1 = (if xr_state (ca_heap s ! lp_record x) = lp_state x then revoke (lp_state x) s else s) in
      setLoop l (x\<lparr>lp_phase := LoopDone\<rparr>) s1)"

definition loopStop :: "nat \<Rightarrow> CurrentnessAuthorizer \<Rightarrow> CurrentnessAuthorizer" where
  "loopStop l s = setLoop l ((ca_loops s ! l)\<lparr>lp_phase := LoopDone\<rparr>) s"

text \<open>\<open>releaseLease\<close>: its first critical section, the cancellation between the two, and the second one, which
  waits for the loop. \<open>sync.OnceFunc\<close> runs it once per lease.\<close>

definition releaseLease :: "nat \<Rightarrow> CurrentnessAuthorizer \<Rightarrow> CurrentnessAuthorizer" where
  "releaseLease k s =
     (let r = ls_record (ca_leases s ! k); i = ls_state (ca_leases s ! k); x = ca_heap s ! r in
      if xr_state x \<noteq> i \<or> xr_leases x = 0 then setLease k Freed s
      else
        (let x1 = x\<lparr>xr_leases := xr_leases x - 1\<rparr> in
         if xr_leases x1 \<noteq> 0 then setLease k Freed (setRecord r x1 s)
         else setLease k (Cancelling (xr_loop x1)) (setRecord r (x1\<lparr>xr_loop := None\<rparr>) (revoke i s))))"

definition releaseCancel :: "nat \<Rightarrow> nat option \<Rightarrow> CurrentnessAuthorizer \<Rightarrow> CurrentnessAuthorizer" where
  "releaseCancel k lo s = setLease k (Waiting lo) (cancelLoop lo s)"

definition releaseFinish :: "nat \<Rightarrow> CurrentnessAuthorizer \<Rightarrow> CurrentnessAuthorizer" where
  "releaseFinish k s =
     (let fp = ls_fingerprint (ca_leases s ! k); r = ls_record (ca_leases s ! k); i = ls_state (ca_leases s ! k);
          x = ca_heap s ! r; s1 = setLease k Freed s in
      if xr_state x = i \<and> xr_users x = 0 \<and> xr_leases x = 0 \<and> map_of (ca_records s) fp = Some r
      then s1\<lparr>ca_records := mdel fp (ca_records s1)\<rparr> else s1)"

section \<open>Interleavings\<close>

datatype current_op =
  AuthorizeBegin string | AuthorizeEnd nat bool | AuthorizeLeave nat
| LoopFail nat | LoopRevoke nat | LoopStop nat
| ReleaseLease nat | ReleaseCancel nat | ReleaseFinish nat

definition callIn :: "call_phase \<Rightarrow> nat \<Rightarrow> CurrentnessAuthorizer \<Rightarrow> bool" where
  "callIn ph c s = (c < length (ca_calls s) \<and> ac_phase (ca_calls s ! c) = ph)"

definition loopIn :: "loop_phase \<Rightarrow> nat \<Rightarrow> CurrentnessAuthorizer \<Rightarrow> bool" where
  "loopIn ph l s = (l < length (ca_loops s) \<and> lp_phase (ca_loops s ! l) = ph)"

definition loopEnded :: "nat option \<Rightarrow> CurrentnessAuthorizer \<Rightarrow> bool" where
  "loopEnded lo s = (case lo of None \<Rightarrow> True | Some l \<Rightarrow> lp_phase (ca_loops s ! l) = LoopDone)"

definition currentStep :: "CurrentnessAuthorizer \<Rightarrow> current_op \<Rightarrow> CurrentnessAuthorizer" where
  "currentStep s oper =
     (case oper of
        AuthorizeBegin fp \<Rightarrow> snd (authorizeBegin fp s)
      | AuthorizeEnd c proved \<Rightarrow> if callIn Proving c s then snd (authorizeEnd c proved s) else s
      | AuthorizeLeave c \<Rightarrow> if callIn Leaving c s then authorizeLeave c s else s
      | LoopFail l \<Rightarrow> if loopIn Running l s then loopFail l s else s
      | LoopRevoke l \<Rightarrow> if loopIn Failing l s then loopRevoke l s else s
      | LoopStop l \<Rightarrow> if loopIn Running l s \<and> lp_cancelled (ca_loops s ! l) then loopStop l s else s
      | ReleaseLease k \<Rightarrow> if k < length (ca_leases s) \<and> ls_phase (ca_leases s ! k) = Held then releaseLease k s else s
      | ReleaseCancel k \<Rightarrow>
          if k < length (ca_leases s)
          then (case ls_phase (ca_leases s ! k) of Cancelling lo \<Rightarrow> releaseCancel k lo s | _ \<Rightarrow> s) else s
      | ReleaseFinish k \<Rightarrow>
          if k < length (ca_leases s)
          then (case ls_phase (ca_leases s ! k) of
                  Waiting lo \<Rightarrow> if loopEnded lo s then releaseFinish k s else s | _ \<Rightarrow> s) else s)"

definition newAuthorizer :: CurrentnessAuthorizer where
  "newAuthorizer = \<lparr>ca_configured = True, ca_records = [], ca_heap = [], ca_signals = [], ca_loops = [], ca_calls = [], ca_leases = []\<rparr>"

section \<open>The invariant\<close>

definition usersOf :: "nat \<Rightarrow> CurrentnessAuthorizer \<Rightarrow> int" where
  "usersOf r s = int (length (filter (\<lambda>c. ac_record c = r \<and> ac_phase c \<noteq> Left) (ca_calls s)))"

definition leasesOf :: "nat \<Rightarrow> CurrentnessAuthorizer \<Rightarrow> int" where
  "leasesOf r s = int (length (filter (\<lambda>k. ls_record k = r \<and> ls_phase k = Held) (ca_leases s)))"

definition releasing :: "currentnessLease \<Rightarrow> bool" where
  "releasing k = (ls_phase k \<noteq> Held \<and> ls_phase k \<noteq> Freed)"

text \<open>References are valid, and whoever uses a record finds it in the map under its fingerprint.\<close>

definition shape :: "CurrentnessAuthorizer \<Rightarrow> bool" where
  "shape s =
     (map_ok (ca_records s) \<and> length (ca_records s) \<le> MaxCurrentnessStates \<and>
      (\<forall>fp r. map_of (ca_records s) fp = Some r \<longrightarrow> r < length (ca_heap s)) \<and>
      (\<forall>fp fp' r. map_of (ca_records s) fp = Some r \<and> map_of (ca_records s) fp' = Some r \<longrightarrow> fp = fp') \<and>
      (\<forall>r<length (ca_heap s). xr_state (ca_heap s ! r) < length (ca_signals s)) \<and>
      (\<forall>c\<in>set (ca_calls s). ac_phase c \<noteq> Left \<longrightarrow> map_of (ca_records s) (ac_fingerprint c) = Some (ac_record c)) \<and>
      (\<forall>k\<in>set (ca_leases s). ls_phase k = Held \<longrightarrow>
         map_of (ca_records s) (ls_fingerprint k) = Some (ls_record k) \<and> ls_state k = xr_state (ca_heap s ! ls_record k)) \<and>
      (\<forall>k\<in>set (ca_leases s). releasing k \<longrightarrow>
         ls_record k < length (ca_heap s) \<and> ls_state k < length (ca_signals s) \<and> ca_signals s ! ls_state k))"

definition counts :: "CurrentnessAuthorizer \<Rightarrow> bool" where
  "counts s = (\<forall>r<length (ca_heap s). xr_users (ca_heap s ! r) = usersOf r s \<and> xr_leases (ca_heap s ! r) = leasesOf r s)"

text \<open>A record stays in the map only while someone is responsible for removing it.\<close>

definition responsible :: "CurrentnessAuthorizer \<Rightarrow> string \<Rightarrow> nat \<Rightarrow> bool" where
  "responsible s fp r =
     (usersOf r s \<noteq> 0 \<or> leasesOf r s \<noteq> 0 \<or>
      (\<exists>k\<in>set (ca_leases s). releasing k \<and> ls_record k = r \<and> ls_fingerprint k = fp \<and> ls_state k = xr_state (ca_heap s ! r)))"

definition kept :: "CurrentnessAuthorizer \<Rightarrow> bool" where
  "kept s = (\<forall>fp r. map_of (ca_records s) fp = Some r \<longrightarrow> responsible s fp r)"

text \<open>A record with leases has its loop, which is at work unless the signal is closed; other loops are or will be
  cancelled.\<close>

definition alive :: "currentnessLoop \<Rightarrow> bool" where
  "alive x = (\<not> lp_cancelled x \<and> lp_phase x \<noteq> LoopDone)"

definition looped :: "CurrentnessAuthorizer \<Rightarrow> bool" where
  "looped s =
     ((\<forall>r<length (ca_heap s). leasesOf r s = 0 \<longrightarrow> xr_loop (ca_heap s ! r) = None) \<and>
      (\<forall>r<length (ca_heap s). leasesOf r s \<noteq> 0 \<longrightarrow>
         (\<exists>l. xr_loop (ca_heap s ! r) = Some l \<and> l < length (ca_loops s) \<and> lp_record (ca_loops s ! l) = r \<and>
              lp_state (ca_loops s ! l) = xr_state (ca_heap s ! r) \<and>
              (ca_signals s ! xr_state (ca_heap s ! r) \<or> alive (ca_loops s ! l)))) \<and>
      (\<forall>k\<in>set (ca_leases s). \<forall>l. ls_phase k = Cancelling (Some l) \<or> ls_phase k = Waiting (Some l) \<longrightarrow>
         l < length (ca_loops s) \<and> (\<forall>r<length (ca_heap s). xr_loop (ca_heap s ! r) \<noteq> Some l)) \<and>
      (\<forall>l<length (ca_loops s). alive (ca_loops s ! l) \<longrightarrow>
         (lp_record (ca_loops s ! l) < length (ca_heap s) \<and> xr_loop (ca_heap s ! lp_record (ca_loops s ! l)) = Some l) \<or>
         (\<exists>k\<in>set (ca_leases s). ls_phase k = Cancelling (Some l))))"

definition current_ok :: "CurrentnessAuthorizer \<Rightarrow> bool" where
  "current_ok s = (shape s \<and> counts s \<and> kept s \<and> looped s)"

lemmas current_defs = current_ok_def shape_def counts_def kept_def responsible_def looped_def

lemma current_ok_new: "current_ok newAuthorizer"
  by (simp add: current_defs newAuthorizer_def usersOf_def leasesOf_def)

section \<open>Frames\<close>

lemma set_update_cases: "y \<in> set (xs[i := x]) \<Longrightarrow> y = x \<or> y \<in> set xs"
  using set_update_subset_insert [of xs i x] by blast

lemma mem_update_other: "y \<in> set xs \<Longrightarrow> y \<noteq> xs ! i \<Longrightarrow> y \<in> set (xs[i := x])"
  by (metis in_set_conv_nth length_list_update nth_list_update_neq)

lemma usersOf_setCall:
  assumes "c < length (ca_calls s)"
  shows "usersOf r (setCall c ph s) =
    usersOf r s - of_bool (ac_record (ca_calls s ! c) = r \<and> ac_phase (ca_calls s ! c) \<noteq> Left)
                + of_bool (ac_record (ca_calls s ! c) = r \<and> ph \<noteq> Left)"
  using assms by (simp add: usersOf_def setCall_def count_update)

lemma leasesOf_setLease:
  assumes "k < length (ca_leases s)"
  shows "leasesOf r (setLease k ph s) =
    leasesOf r s - of_bool (ls_record (ca_leases s ! k) = r \<and> ls_phase (ca_leases s ! k) = Held)
                 + of_bool (ls_record (ca_leases s ! k) = r \<and> ph = Held)"
  using assms by (simp add: leasesOf_def setLease_def count_update)

lemma usersOf_zero: "usersOf r s = 0 \<longleftrightarrow> (\<forall>c\<in>set (ca_calls s). ac_record c = r \<longrightarrow> ac_phase c = Left)"
  by (auto simp: usersOf_def filter_empty_conv)

lemma leasesOf_zero: "leasesOf r s = 0 \<longleftrightarrow> (\<forall>k\<in>set (ca_leases s). ls_record k = r \<longrightarrow> ls_phase k \<noteq> Held)"
  by (auto simp: leasesOf_def filter_empty_conv)

lemma counts_nonneg [simp]: "0 \<le> usersOf r s" "0 \<le> leasesOf r s"
  by (simp_all add: usersOf_def leasesOf_def)

lemma keptI: "(\<And>fp r. map_of (ca_records s) fp = Some r \<Longrightarrow> responsible s fp r) \<Longrightarrow> kept s"
  by (simp add: kept_def)

lemma responsible_mono:
  assumes "responsible s fp r" and "usersOf r s \<le> usersOf r s'" and "leasesOf r s \<le> leasesOf r s'"
    and "\<And>k. k \<in> set (ca_leases s) \<Longrightarrow> releasing k \<Longrightarrow> k \<in> set (ca_leases s')"
    and "xr_state (ca_heap s' ! r) = xr_state (ca_heap s ! r)"
  shows "responsible s' fp r"
  using assms counts_nonneg(1) [of r s] counts_nonneg(2) [of r s] unfolding responsible_def by force

lemma leasesOf_plus: "leasesOf r s + 1 \<noteq> 0"
  using counts_nonneg(2) [of r s] by linarith

text \<open>Removing the map entry of a record that nobody uses.\<close>

lemma shape_mdel:
  assumes "shape s" and "map_of (ca_records s) fp = Some r" and "usersOf r s = 0" and "leasesOf r s = 0"
  shows "shape (s\<lparr>ca_records := mdel fp (ca_records s)\<rparr>)"
proof -
  have "length (mdel fp (ca_records s)) \<le> length (ca_records s)" by (simp add: mdel_def)
  then show ?thesis
    using assms unfolding shape_def usersOf_zero leasesOf_zero by (auto split: if_splits)
qed

text \<open>Steps that leave the map, the heap and the counts alone.\<close>

lemma setCall_Leaving_ok:
  assumes ok: "current_ok s" and c: "callIn Proving c s"
  shows "current_ok (setCall c Leaving s)"
proof -
  have u: "usersOf r (setCall c Leaving s) = usersOf r s" for r
    using c by (simp add: usersOf_setCall callIn_def)
  have l: "leasesOf r (setCall c Leaving s) = leasesOf r s" for r by (simp add: leasesOf_def setCall_def)
  have mem: "ca_calls s ! c \<in> set (ca_calls s)" using c by (simp add: callIn_def)
  have fr: "ca_records (setCall c Leaving s) = ca_records s" "ca_heap (setCall c Leaving s) = ca_heap s"
    "ca_signals (setCall c Leaving s) = ca_signals s" "ca_loops (setCall c Leaving s) = ca_loops s"
    "ca_leases (setCall c Leaving s) = ca_leases s"
    by (simp_all add: setCall_def)
  have "shape (setCall c Leaving s)"
    using ok c mem unfolding current_ok_def shape_def fr
    by (auto simp: setCall_def callIn_def dest!: set_update_cases)
  moreover have "counts (setCall c Leaving s)" "kept (setCall c Leaving s)" "looped (setCall c Leaving s)"
    using ok unfolding current_ok_def counts_def kept_def responsible_def looped_def fr u l by blast+
  ultimately show ?thesis by (simp add: current_ok_def)
qed

lemma signals_ok:
  assumes ok: "current_ok s" and len: "length (ca_signals s) \<le> length sg"
    and mono: "\<forall>i<length (ca_signals s). ca_signals s ! i \<longrightarrow> sg ! i"
  shows "current_ok (s\<lparr>ca_signals := sg\<rparr>)"
proof -
  have ul: "usersOf r (s\<lparr>ca_signals := sg\<rparr>) = usersOf r s" "leasesOf r (s\<lparr>ca_signals := sg\<rparr>) = leasesOf r s" for r
    by (simp_all add: usersOf_def leasesOf_def)
  have sh: "shape s" using ok by (simp add: current_ok_def)
  have "shape (s\<lparr>ca_signals := sg\<rparr>)"
    using sh len mono unfolding shape_def by (auto intro: less_le_trans)
  moreover have "looped (s\<lparr>ca_signals := sg\<rparr>)"
    using ok mono sh unfolding current_ok_def looped_def ul shape_def
    by (simp add: releasing_def) meson
  moreover have "counts (s\<lparr>ca_signals := sg\<rparr>)" "kept (s\<lparr>ca_signals := sg\<rparr>)"
    using ok unfolding current_ok_def counts_def kept_def responsible_def ul by simp_all
  ultimately show ?thesis by (simp add: current_ok_def)
qed

lemma update_True: "j < length xs \<Longrightarrow> xs ! j \<Longrightarrow> xs[i := True] ! j"
  by (cases "i = j") auto

lemma revoke_ok: "current_ok s \<Longrightarrow> current_ok (revoke i s)"
  unfolding revoke_def by (rule signals_ok) (auto intro: update_True)

lemma newExecutionState_ok: "current_ok s \<Longrightarrow> current_ok (snd (newExecutionState s))"
  unfolding newExecutionState_def snd_conv by (rule signals_ok) (auto simp: nth_append)

text \<open>Steps of a loop: its record and state stay, and it only winds down.\<close>

lemma setLoop_ok:
  assumes ok: "current_ok s" and l: "l < length (ca_loops s)"
    and same: "lp_record x = lp_record (ca_loops s ! l)" "lp_state x = lp_state (ca_loops s ! l)"
    and down: "alive x \<longrightarrow> alive (ca_loops s ! l)"
    and free: "\<And>r. \<lbrakk>r < length (ca_heap s); xr_loop (ca_heap s ! r) = Some l; alive (ca_loops s ! l); \<not> alive x\<rbrakk>
                 \<Longrightarrow> ca_signals s ! xr_state (ca_heap s ! r)"
  shows "current_ok (setLoop l x s)"
proof -
  have ul: "usersOf r (setLoop l x s) = usersOf r s" "leasesOf r (setLoop l x s) = leasesOf r s" for r
    by (simp_all add: usersOf_def leasesOf_def setLoop_def)
  have fr: "ca_records (setLoop l x s) = ca_records s" "ca_heap (setLoop l x s) = ca_heap s"
    "ca_signals (setLoop l x s) = ca_signals s" "ca_calls (setLoop l x s) = ca_calls s"
    "ca_leases (setLoop l x s) = ca_leases s" "length (ca_loops (setLoop l x s)) = length (ca_loops s)"
    by (simp_all add: setLoop_def)
  have nth: "ca_loops (setLoop l x s) ! m = (if m = l then x else ca_loops s ! m)" for m
    using l by (simp add: setLoop_def nth_list_update)
  have L: "looped s" using ok by (simp add: current_ok_def)
  have "looped (setLoop l x s)"
    unfolding looped_def fr ul
  proof (intro conjI allI impI)
    fix r assume r: "r < length (ca_heap s)" "leasesOf r s \<noteq> 0"
    then obtain m where m: "xr_loop (ca_heap s ! r) = Some m" "m < length (ca_loops s)" "lp_record (ca_loops s ! m) = r"
      "lp_state (ca_loops s ! m) = xr_state (ca_heap s ! r)"
      "ca_signals s ! xr_state (ca_heap s ! r) \<or> alive (ca_loops s ! m)"
      using L unfolding looped_def by blast
    show "\<exists>la. xr_loop (ca_heap s ! r) = Some la \<and> la < length (ca_loops s) \<and> lp_record (ca_loops (setLoop l x s) ! la) = r \<and>
        lp_state (ca_loops (setLoop l x s) ! la) = xr_state (ca_heap s ! r) \<and>
        (ca_signals s ! xr_state (ca_heap s ! r) \<or> alive (ca_loops (setLoop l x s) ! la))"
      using m r(1) same free [of r] by (intro exI [of _ m]) (auto simp: nth)
  next
    fix m assume "m < length (ca_loops s)" "alive (ca_loops (setLoop l x s) ! m)"
    then show "(lp_record (ca_loops (setLoop l x s) ! m) < length (ca_heap s) \<and>
        xr_loop (ca_heap s ! lp_record (ca_loops (setLoop l x s) ! m)) = Some m) \<or>
        (\<exists>k\<in>set (ca_leases s). ls_phase k = Cancelling (Some m))"
      using L same down unfolding looped_def nth by (cases "m = l") auto
  qed (use L in \<open>auto simp: looped_def\<close>)
  moreover have "shape (setLoop l x s)" "counts (setLoop l x s)" "kept (setLoop l x s)"
    using ok unfolding current_ok_def shape_def counts_def kept_def responsible_def fr ul by blast+
  ultimately show ?thesis by (simp add: current_ok_def)
qed

lemma loopFail_ok:
  assumes ok: "current_ok s" and l: "loopIn Running l s"
  shows "current_ok (loopFail l s)"
  unfolding loopFail_def Let_def
  by (rule setLoop_ok [OF ok]) (use l in \<open>auto simp: loopIn_def alive_def split: if_splits\<close>)

lemma loopStop_ok:
  assumes ok: "current_ok s" and l: "loopIn Running l s" and "lp_cancelled (ca_loops s ! l)"
  shows "current_ok (loopStop l s)"
  unfolding loopStop_def
  by (rule setLoop_ok [OF ok]) (use assms in \<open>auto simp: loopIn_def alive_def\<close>)

text \<open>The loop of a record with leases proves the state of that record.\<close>

lemma loop_state:
  assumes ok: "current_ok s" and r: "r < length (ca_heap s)" and l: "xr_loop (ca_heap s ! r) = Some l"
  shows "lp_record (ca_loops s ! l) = r \<and> lp_state (ca_loops s ! l) = xr_state (ca_heap s ! r) \<and> l < length (ca_loops s)"
proof -
  have "leasesOf r s \<noteq> 0" using ok r l unfolding current_ok_def looped_def by force
  then show ?thesis using ok r l unfolding current_ok_def looped_def by fastforce
qed

lemma loopRevoke_ok:
  assumes ok: "current_ok s" and l: "loopIn Failing l s"
  shows "current_ok (loopRevoke l s)"
proof -
  define x where "x = ca_loops s ! l"
  define s1 where "s1 = (if xr_state (ca_heap s ! lp_record x) = lp_state x then revoke (lp_state x) s else s)"
  have ok1: "current_ok s1" using ok by (simp add: s1_def revoke_ok)
  have fr: "ca_loops s1 = ca_loops s" "ca_heap s1 = ca_heap s" by (simp_all add: s1_def revoke_def)
  have "ca_signals s1 ! xr_state (ca_heap s1 ! r)" if "r < length (ca_heap s1)" "xr_loop (ca_heap s1 ! r) = Some l" for r
  proof -
    have r: "lp_record x = r" "lp_state x = xr_state (ca_heap s ! r)"
      using loop_state [OF ok, of r l] that by (simp_all add: fr x_def)
    moreover have "xr_state (ca_heap s ! r) < length (ca_signals s)"
      using ok that(1) by (simp add: current_ok_def shape_def fr)
    ultimately show ?thesis by (simp add: s1_def revoke_def fr)
  qed
  then have "current_ok (setLoop l (x\<lparr>lp_phase := LoopDone\<rparr>) s1)"
    using l by (intro setLoop_ok [OF ok1]) (auto simp: fr x_def loopIn_def alive_def)
  then show ?thesis unfolding loopRevoke_def Let_def s1_def x_def .
qed

lemma cancelLoop_ok:
  assumes ok: "current_ok s"
    and "\<And>l. lo = Some l \<Longrightarrow> l < length (ca_loops s)"
    and "\<And>l r. \<lbrakk>lo = Some l; r < length (ca_heap s); xr_loop (ca_heap s ! r) = Some l\<rbrakk> \<Longrightarrow> ca_signals s ! xr_state (ca_heap s ! r)"
  shows "current_ok (cancelLoop lo s)"
proof (cases lo)
  case (Some l)
  show ?thesis
    unfolding cancelLoop_def Some option.case
    by (rule setLoop_ok [OF ok]) (use assms(2,3) Some in \<open>auto simp: alive_def\<close>)
qed (simp add: cancelLoop_def ok)

section \<open>Calls\<close>

lemma shapeD:
  assumes "current_ok s"
  shows "\<And>fp r. map_of (ca_records s) fp = Some r \<Longrightarrow> r < length (ca_heap s)"
    and "\<And>c. c \<in> set (ca_calls s) \<Longrightarrow> ac_phase c \<noteq> Left \<Longrightarrow> map_of (ca_records s) (ac_fingerprint c) = Some (ac_record c)"
    and "\<And>k. k \<in> set (ca_leases s) \<Longrightarrow> ls_phase k = Held \<Longrightarrow>
           map_of (ca_records s) (ls_fingerprint k) = Some (ls_record k) \<and> ls_state k = xr_state (ca_heap s ! ls_record k)"
    and "\<And>r. r < length (ca_heap s) \<Longrightarrow> xr_state (ca_heap s ! r) < length (ca_signals s)"
    and "\<And>fp fp' r. map_of (ca_records s) fp = Some r \<Longrightarrow> map_of (ca_records s) fp' = Some r \<Longrightarrow> fp = fp'"
  using assms unfolding current_ok_def shape_def by blast+

lemma countsD:
  assumes "current_ok s" and "r < length (ca_heap s)"
  shows "xr_users (ca_heap s ! r) = usersOf r s" and "xr_leases (ca_heap s ! r) = leasesOf r s"
  using assms unfolding current_ok_def counts_def by blast+

lemma authorizeBegin_known_ok:
  assumes ok: "current_ok s" and m: "map_of (ca_records s) fp = Some r"
  shows "current_ok ((setRecord r ((ca_heap s ! r)\<lparr>xr_users := xr_users (ca_heap s ! r) + 1\<rparr>) s)
           \<lparr>ca_calls := ca_calls s @ [\<lparr>ac_fingerprint = fp, ac_record = r, ac_phase = Proving\<rparr>]\<rparr>)" (is "current_ok ?s")
proof -
  have r: "r < length (ca_heap s)" using shapeD(1) [OF ok m] .
  have u: "usersOf q ?s = usersOf q s + of_bool (q = r)" and le: "leasesOf q ?s = leasesOf q s" for q
    by (simp_all add: usersOf_def leasesOf_def setRecord_def)
  have h: "ca_heap ?s ! q = (if q = r then (ca_heap s ! r)\<lparr>xr_users := xr_users (ca_heap s ! r) + 1\<rparr> else ca_heap s ! q)" for q
    using r by (simp add: setRecord_def nth_list_update)
  have st: "xr_state (ca_heap ?s ! q) = xr_state (ca_heap s ! q)" "xr_loop (ca_heap ?s ! q) = xr_loop (ca_heap s ! q)" for q
    unfolding h by simp_all
  have fr: "ca_records ?s = ca_records s" "length (ca_heap ?s) = length (ca_heap s)" "ca_signals ?s = ca_signals s"
    "ca_loops ?s = ca_loops s" "ca_leases ?s = ca_leases s"
    by (simp_all add: setRecord_def)
  have "shape ?s"
    using ok m unfolding current_ok_def shape_def fr st by (auto simp: setRecord_def)
  moreover have "counts ?s"
    using ok unfolding current_ok_def counts_def fr u le h by auto
  moreover have "kept ?s"
  proof (rule keptI, unfold fr)
    fix fp' q assume "map_of (ca_records s) fp' = Some q"
    then have "responsible s fp' q" using ok unfolding current_ok_def kept_def by blast
    then show "responsible ?s fp' q" by (rule responsible_mono) (unfold u le fr st, simp_all)
  qed
  moreover have "looped ?s"
    using ok unfolding current_ok_def looped_def fr u le st by blast
  ultimately show ?thesis by (simp add: current_ok_def)
qed

lemma authorizeBegin_new_ok:
  assumes ok: "current_ok s" and m: "map_of (ca_records s) fp = None" and cap: "length (ca_records s) < MaxCurrentnessStates"
    and s': "s' = s\<lparr>ca_signals := ca_signals s @ [False],
      ca_heap := ca_heap s @ [\<lparr>xr_state = length (ca_signals s), xr_users = 1, xr_leases = 0, xr_loop = None\<rparr>],
      ca_records := mput fp (length (ca_heap s)) (ca_records s),
      ca_calls := ca_calls s @ [\<lparr>ac_fingerprint = fp, ac_record = length (ca_heap s), ac_phase = Proving\<rparr>]\<rparr>"
  shows "current_ok s'"
proof -
  let ?n = "length (ca_heap s)"
  have sh: "shape s" using ok by (simp add: current_ok_def)
  have none: "ac_record c \<noteq> ?n" if "c \<in> set (ca_calls s)" "ac_phase c \<noteq> Left" for c
    using shapeD(1) [OF ok shapeD(2) [OF ok that]] by simp
  have noneL: "ls_record k < ?n" if "k \<in> set (ca_leases s)" "ls_phase k \<noteq> Freed" for k
  proof (cases "ls_phase k = Held")
    case True
    then show ?thesis using shapeD(1) [OF ok conjunct1 [OF shapeD(3) [OF ok that(1)]]] by simp
  next
    case False
    then show ?thesis using sh that unfolding shape_def releasing_def by blast
  qed
  have u: "usersOf q s' = (if q = ?n then 1 else usersOf q s)" and le: "leasesOf q s' = leasesOf q s" for q
    using none by (auto simp: s' usersOf_def leasesOf_def filter_empty_conv)
  have u0: "leasesOf ?n s = 0" unfolding leasesOf_zero using noneL by fastforce
  have h: "ca_heap s' ! q = (if q < ?n then ca_heap s ! q
      else [\<lparr>xr_state = length (ca_signals s), xr_users = 1, xr_leases = 0, xr_loop = None\<rparr>] ! (q - ?n))"
    "length (ca_heap s') = Suc ?n" for q
    by (simp_all add: s' nth_append)
  have fr: "ca_records s' = mput fp ?n (ca_records s)" "ca_signals s' = ca_signals s @ [False]"
    "ca_loops s' = ca_loops s" "ca_leases s' = ca_leases s"
    "ca_calls s' = ca_calls s @ [\<lparr>ac_fingerprint = fp, ac_record = ?n, ac_phase = Proving\<rparr>]"
    by (simp_all add: s')
  have "shape s'"
  proof -
    have "length (mput fp ?n (ca_records s)) \<le> MaxCurrentnessStates"
      using sh cap m by (simp add: length_mput shape_def)
    moreover have "map_of (ca_records s) x \<noteq> Some ?n" for x using shapeD(1) [OF ok, of x ?n] by auto
    ultimately show ?thesis
      using sh m noneL unfolding shape_def fr h(2) unfolding h(1) releasing_def
      by (auto simp: less_Suc_eq nth_append split: if_splits)
  qed
  moreover have "counts s'"
    using ok u0 unfolding current_ok_def counts_def u le h by (auto simp: less_Suc_eq)
  moreover have "kept s'"
  proof (rule keptI)
    fix fp' q assume q: "map_of (ca_records s') fp' = Some q"
    show "responsible s' fp' q"
    proof (cases "q = ?n")
      case False
      then have "map_of (ca_records s) fp' = Some q" using q by (simp add: fr split: if_splits)
      then have "responsible s fp' q" "q < ?n" using ok shapeD(1) [OF ok] unfolding current_ok_def kept_def by blast+
      then show ?thesis by (elim responsible_mono) (simp_all add: u le fr h)
    qed (simp add: responsible_def u)
  qed
  moreover have "looped s'"
    using ok u0 shapeD(4) [OF ok] unfolding current_ok_def looped_def u le fr h(2) unfolding h(1)
    by (auto simp: less_Suc_eq nth_append)
  ultimately show ?thesis by (simp add: current_ok_def)
qed

lemma acquireLeaseLocked_ok:
  assumes ok: "current_ok s" and m: "map_of (ca_records s) fp = Some r"
  shows "current_ok (snd (acquireLeaseLocked fp r s))"
proof -
  define s' where "s' = snd (acquireLeaseLocked fp r s)"
  define n where "n = length (ca_loops s)"
  define new where "new = (leasesOf r s = 0)"
  define x where "x = (ca_heap s ! r)\<lparr>xr_leases := leasesOf r s + 1,
    xr_loop := (if new then Some n else xr_loop (ca_heap s ! r))\<rparr>"
  define k where "k = \<lparr>ls_fingerprint = fp, ls_record = r, ls_state = xr_state (ca_heap s ! r), ls_phase = Held\<rparr>"
  define lp where "lp = \<lparr>lp_record = r, lp_state = xr_state (ca_heap s ! r), lp_cancelled = False, lp_phase = Running\<rparr>"
  have r: "r < length (ca_heap s)" using shapeD(1) [OF ok m] .
  have s': "s' = s\<lparr>ca_heap := (ca_heap s)[r := x], ca_loops := ca_loops s @ (if new then [lp] else []), ca_leases := ca_leases s @ [k]\<rparr>"
    by (simp add: s'_def acquireLeaseLocked_def Let_def setRecord_def countsD [OF ok r] new_def n_def x_def k_def lp_def)
  have u: "usersOf q s' = usersOf q s" and le: "leasesOf q s' = leasesOf q s + of_bool (q = r)" for q
    by (simp_all add: s' usersOf_def leasesOf_def k_def)
  have h: "ca_heap s' ! q = (if q = r then x else ca_heap s ! q)" "length (ca_heap s') = length (ca_heap s)" for q
    using r by (simp_all add: s' nth_list_update)
  have st: "xr_state (ca_heap s' ! q) = xr_state (ca_heap s ! q)" for q by (simp add: h x_def)
  have lo: "xr_loop (ca_heap s' ! q) = (if q = r \<and> new then Some n else xr_loop (ca_heap s ! q))" for q by (simp add: h x_def)
  have fr: "ca_records s' = ca_records s" "ca_signals s' = ca_signals s" "ca_leases s' = ca_leases s @ [k]" "ca_calls s' = ca_calls s"
    by (simp_all add: s')
  have lps: "ca_loops s' ! l = (if l < n then ca_loops s ! l else lp)" "length (ca_loops s') = n + (if new then 1 else 0)"
    if "l < length (ca_loops s')" for l
    using that by (auto simp: s' n_def nth_append split: if_splits)
  have lpo: "l < n \<Longrightarrow> ca_loops s' ! l = ca_loops s ! l" "n \<le> length (ca_loops s')" "new \<Longrightarrow> n < length (ca_loops s') \<and> ca_loops s' ! n = lp" for l
    by (auto simp: s' n_def nth_append)
  have L: "looped s" using ok by (simp add: current_ok_def)
  have none: "xr_loop (ca_heap s ! r) = None" if new using L r that unfolding looped_def new_def by blast
  have "shape s'"
    using ok m unfolding current_ok_def shape_def fr h(2) unfolding st by (auto simp: k_def releasing_def)
  moreover have "counts s'"
    unfolding counts_def u le h(2) using countsD [OF ok] by (auto simp: h x_def)
  moreover have "kept s'"
  proof (rule keptI, unfold fr)
    fix fp' q assume "map_of (ca_records s) fp' = Some q"
    then have "responsible s fp' q" using ok unfolding current_ok_def kept_def by blast
    then show "responsible s' fp' q" by (rule responsible_mono) (unfold u le fr st, simp_all)
  qed
  moreover have "looped s'"
    unfolding looped_def fr h(2) u le st lo
  proof (intro conjI allI impI ballI)
    fix q assume q: "q < length (ca_heap s)" "leasesOf q s + of_bool (q = r) = 0"
    have "q \<noteq> r" using q(2) leasesOf_plus [of r s] by auto
    then show "(if q = r \<and> new then Some n else xr_loop (ca_heap s ! q)) = None"
      using L q unfolding looped_def by auto
  next
    fix q assume q: "q < length (ca_heap s)" "leasesOf q s + of_bool (q = r) \<noteq> 0"
    show "\<exists>l. (if q = r \<and> new then Some n else xr_loop (ca_heap s ! q)) = Some l \<and> l < length (ca_loops s') \<and>
        lp_record (ca_loops s' ! l) = q \<and> lp_state (ca_loops s' ! l) = xr_state (ca_heap s ! q) \<and>
        (ca_signals s ! xr_state (ca_heap s ! q) \<or> alive (ca_loops s' ! l))"
    proof (cases "q = r \<and> new")
      case True
      then show ?thesis using lpo(3) by (auto simp: lp_def alive_def)
    next
      case False
      then have "leasesOf q s \<noteq> 0" using q(2) by (auto simp: new_def)
      then obtain l where "xr_loop (ca_heap s ! q) = Some l" "l < n" "lp_record (ca_loops s ! l) = q"
        "lp_state (ca_loops s ! l) = xr_state (ca_heap s ! q)"
        "ca_signals s ! xr_state (ca_heap s ! q) \<or> alive (ca_loops s ! l)"
        using L q(1) unfolding looped_def n_def by blast
      then show ?thesis using False lpo(1) [of l] lpo(2) by (intro exI [of _ l]) auto
    qed
  next
    fix k' l assume k': "k' \<in> set (ca_leases s @ [k])" "ls_phase k' = Cancelling (Some l) \<or> ls_phase k' = Waiting (Some l)"
    then have "k' \<in> set (ca_leases s)" by (auto simp: k_def)
    then have l: "l < n" "\<forall>q<length (ca_heap s). xr_loop (ca_heap s ! q) \<noteq> Some l"
      using L k'(2) unfolding looped_def n_def by blast+
    then show "l < length (ca_loops s')" using lpo(2) by simp
    fix q assume "q < length (ca_heap s)"
    then show "(if q = r \<and> new then Some n else xr_loop (ca_heap s ! q)) \<noteq> Some l" using l by auto
  next
    fix l assume l: "l < length (ca_loops s')" "alive (ca_loops s' ! l)"
    show "(lp_record (ca_loops s' ! l) < length (ca_heap s) \<and>
        (if lp_record (ca_loops s' ! l) = r \<and> new then Some n else xr_loop (ca_heap s ! lp_record (ca_loops s' ! l))) = Some l) \<or>
        (\<exists>k'\<in>set (ca_leases s @ [k]). ls_phase k' = Cancelling (Some l))"
    proof (cases "l < n")
      case True
      then show ?thesis using L l lpo(1) [OF True] none unfolding looped_def n_def by (auto split: if_splits)
    next
      case False
      then have "new" "l = n" using l(1) lps(2) [OF l(1)] by (auto split: if_splits)
      then show ?thesis using lpo(3) r by (simp add: lp_def)
    qed
  qed
  ultimately show ?thesis unfolding s'_def [symmetric] current_ok_def by blast
qed

lemma freshState_ok:
  assumes ok: "current_ok s" and r: "r < length (ca_heap s)" and z: "leasesOf r s = 0" and u: "usersOf r s \<noteq> 0"
    and i: "i < length (ca_signals s)" and s': "s' = setRecord r ((ca_heap s ! r)\<lparr>xr_state := i\<rparr>) s"
  shows "current_ok s'"
proof -
  have ul: "usersOf q s' = usersOf q s" "leasesOf q s' = leasesOf q s" for q
    by (simp_all add: s' usersOf_def leasesOf_def setRecord_def)
  have h: "ca_heap s' ! q = (if q = r then (ca_heap s ! r)\<lparr>xr_state := i\<rparr> else ca_heap s ! q)"
    "length (ca_heap s') = length (ca_heap s)" for q
    using r by (simp_all add: s' setRecord_def nth_list_update)
  have fr: "ca_records s' = ca_records s" "ca_signals s' = ca_signals s" "ca_loops s' = ca_loops s"
    "ca_leases s' = ca_leases s" "ca_calls s' = ca_calls s"
    by (simp_all add: s' setRecord_def)
  have lo: "xr_loop (ca_heap s' ! q) = xr_loop (ca_heap s ! q)" for q by (simp add: h)
  have "shape s'"
    using ok z i unfolding current_ok_def shape_def fr h(2) leasesOf_zero by (auto simp: h)
  moreover have "counts s'"
    unfolding counts_def ul h(2) using countsD [OF ok] by (auto simp: h)
  moreover have "kept s'"
  proof (rule keptI, unfold fr)
    fix fp q assume "map_of (ca_records s) fp = Some q"
    then have re: "responsible s fp q" using ok unfolding current_ok_def kept_def by blast
    show "responsible s' fp q"
    proof (cases "q = r")
      case False
      then show ?thesis using re by (elim responsible_mono) (simp_all add: ul fr h)
    qed (simp add: responsible_def ul u)
  qed
  moreover have "looped s'"
    using ok z unfolding current_ok_def looped_def fr h(2) ul lo by (auto simp: h)
  ultimately show ?thesis by (simp add: current_ok_def)
qed

text \<open>The end of \<open>Authorize\<close>.\<close>

lemma authorizeEnd_ok:
  assumes ok: "current_ok s" and c: "callIn Proving c s"
  shows "current_ok (snd (authorizeEnd c proved s))"
proof -
  define fp where "fp = ac_fingerprint (ca_calls s ! c)"
  define r where "r = ac_record (ca_calls s ! c)"
  define s0 where "s0 = setCall c Leaving s"
  note defs = fp_def [symmetric] r_def [symmetric] s0_def [symmetric]
  have ok0: "current_ok s0" unfolding s0_def by (rule setCall_Leaving_ok [OF ok c])
  have fr: "ca_heap s0 = ca_heap s" "ca_records s0 = ca_records s" "ca_loops s0 = ca_loops s" by (simp_all add: s0_def setCall_def)
  have m: "map_of (ca_records s0) fp = Some r"
    using shapeD(2) [OF ok, of "ca_calls s ! c"] c by (simp add: fr fp_def r_def callIn_def)
  note r = shapeD(1) [OF ok0 m]
  have "usersOf r s0 \<noteq> 0"
    unfolding usersOf_zero using c
    by (auto simp: s0_def setCall_def callIn_def r_def intro!: bexI [of _ "(ca_calls s ! c)\<lparr>ac_phase := Leaving\<rparr>"] set_update_memI)
  note users = this
  have fail: "current_ok (cancelLoop (xr_loop (ca_heap s0 ! r)) (revoke (xr_state (ca_heap s0 ! r)) s0))"
  proof (rule cancelLoop_ok [OF revoke_ok [OF ok0]])
    fix l assume l: "xr_loop (ca_heap s0 ! r) = Some l"
    show "l < length (ca_loops (revoke (xr_state (ca_heap s0 ! r)) s0))"
      using loop_state [OF ok0 r l] by (simp add: revoke_def)
    fix q assume "q < length (ca_heap (revoke (xr_state (ca_heap s0 ! r)) s0))"
      "xr_loop (ca_heap (revoke (xr_state (ca_heap s0 ! r)) s0) ! q) = Some l"
    then have "q = r" using loop_state [OF ok0 r l] loop_state [OF ok0, of q l] by (simp add: revoke_def)
    then show "ca_signals (revoke (xr_state (ca_heap s0 ! r)) s0) ! xr_state (ca_heap (revoke (xr_state (ca_heap s0 ! r)) s0) ! q)"
      using shapeD(4) [OF ok0 r] by (simp add: revoke_def)
  qed
  define s1 where "s1 = snd (newExecutionState s0)"
  have ok1: "current_ok s1" unfolding s1_def by (rule newExecutionState_ok [OF ok0])
  have fr1: "ca_heap s1 = ca_heap s0" "ca_records s1 = ca_records s0" "usersOf q s1 = usersOf q s0" "leasesOf q s1 = leasesOf q s0"
    "ca_signals s1 = ca_signals s0 @ [False]" for q
    by (simp_all add: s1_def newExecutionState_def usersOf_def leasesOf_def)
  have new: "newExecutionState s0 = (length (ca_signals s0), s1)" by (simp add: s1_def newExecutionState_def)
  define s2 where "s2 = setRecord r ((ca_heap s1 ! r)\<lparr>xr_state := length (ca_signals s0)\<rparr>) s1"
  have ok2: "current_ok s2" if "leasesOf r s0 = 0"
    by (rule freshState_ok [OF ok1 _ _ _ _ s2_def]) (use that users r in \<open>simp_all add: fr1\<close>)
  have m2: "map_of (ca_records s2) fp = Some r" using m by (simp add: s2_def setRecord_def fr1)
  show ?thesis
    using fail ok0 acquireLeaseLocked_ok [OF ok0 m] acquireLeaseLocked_ok [OF ok2 m2] countsD(2) [OF ok0 r]
    unfolding authorizeEnd_def Let_def defs fr [symmetric] new s2_def fr1
    by (auto simp: split_beta)
qed

lemma drop_ok:
  assumes "shape s" and "counts s" and "looped s" and m: "map_of (ca_records s) fp = Some r"
    and z: "usersOf r s = 0" "leasesOf r s = 0"
    and others: "\<And>fp' q. map_of (ca_records s) fp' = Some q \<Longrightarrow> fp' \<noteq> fp \<Longrightarrow> responsible s fp' q"
  shows "current_ok (s\<lparr>ca_records := mdel fp (ca_records s)\<rparr>)" (is "current_ok ?s")
proof -
  have ul: "usersOf q ?s = usersOf q s" "leasesOf q ?s = leasesOf q s" for q by (simp_all add: usersOf_def leasesOf_def)
  have "kept ?s"
    using others by (auto simp: kept_def responsible_def ul split: if_splits)
  moreover have "counts ?s" "looped ?s"
    using assms(2,3) by (simp_all add: counts_def looped_def ul)
  ultimately show ?thesis using shape_mdel [OF assms(1) m z] by (simp add: current_ok_def)
qed

lemma authorizeLeave_ok:
  assumes ok: "current_ok s" and c: "callIn Leaving c s"
  shows "current_ok (authorizeLeave c s)"
proof -
  define fp where "fp = ac_fingerprint (ca_calls s ! c)"
  define r where "r = ac_record (ca_calls s ! c)"
  define x where "x = (ca_heap s ! r)\<lparr>xr_users := xr_users (ca_heap s ! r) - 1\<rparr>"
  define s1 where "s1 = setCall c Left (setRecord r x s)"
  have m: "map_of (ca_records s) fp = Some r"
    using shapeD(2) [OF ok, of "ca_calls s ! c"] c by (simp add: fp_def r_def callIn_def)
  note r = shapeD(1) [OF ok m]
  have u: "usersOf q s1 = usersOf q s - of_bool (q = r)" for q
    unfolding s1_def by (subst usersOf_setCall) (use c in \<open>auto simp: callIn_def setRecord_def r_def usersOf_def\<close>)
  have le: "leasesOf q s1 = leasesOf q s" for q by (simp add: s1_def leasesOf_def setCall_def setRecord_def)
  have h: "ca_heap s1 ! q = (if q = r then x else ca_heap s ! q)" "length (ca_heap s1) = length (ca_heap s)" for q
    using r by (simp_all add: s1_def setCall_def setRecord_def nth_list_update)
  have st: "xr_state (ca_heap s1 ! q) = xr_state (ca_heap s ! q)" "xr_loop (ca_heap s1 ! q) = xr_loop (ca_heap s ! q)" for q
    by (simp_all add: h x_def)
  have fr: "ca_records s1 = ca_records s" "ca_signals s1 = ca_signals s" "ca_leases s1 = ca_leases s" "ca_loops s1 = ca_loops s"
    "ca_calls s1 = (ca_calls s)[c := (ca_calls s ! c)\<lparr>ac_phase := Left\<rparr>]"
    by (simp_all add: s1_def setCall_def setRecord_def)
  have sh: "shape s1"
    using ok unfolding current_ok_def shape_def fr h(2) unfolding st by (auto dest!: set_update_cases)
  have co: "counts s1"
    unfolding counts_def u le h(2) using countsD [OF ok] by (auto simp: h x_def)
  have lo: "looped s1"
    using ok unfolding current_ok_def looped_def fr h(2) u le st by blast
  have others: "responsible s1 fp' q" if "map_of (ca_records s1) fp' = Some q" "q \<noteq> r" for fp' q
  proof -
    have "responsible s fp' q" using ok that unfolding current_ok_def kept_def fr by blast
    then show ?thesis by (rule responsible_mono) (use that in \<open>simp_all add: u le fr st\<close>)
  qed
  have m1: "map_of (ca_records s1) fp = Some r" by (simp add: fr m)
  have xs: "xr_users x = usersOf r s1" "xr_leases x = leasesOf r s1"
    using countsD [OF ok r] by (simp_all add: x_def u le)
  show ?thesis
  proof (cases "usersOf r s1 = 0 \<and> leasesOf r s1 = 0")
    case True
    have "responsible s1 fp' q" if "map_of (ca_records s1) fp' = Some q" "fp' \<noteq> fp" for fp' q
      using others [OF that(1)] shapeD(5) [OF ok, of fp' q fp] that m by (auto simp: fr)
    then have "current_ok (s1\<lparr>ca_records := mdel fp (ca_records s1)\<rparr>)"
      using True by (intro drop_ok [OF sh co lo m1]) auto
    then show ?thesis
      using True m1 xs unfolding authorizeLeave_def Let_def fp_def [symmetric] r_def [symmetric] x_def [symmetric] s1_def [symmetric]
      by simp
  next
    case False
    have "kept s1" using others False by (auto simp: kept_def responsible_def)
    then have "current_ok s1" using sh co lo by (simp add: current_ok_def)
    then show ?thesis
      using False xs unfolding authorizeLeave_def Let_def fp_def [symmetric] r_def [symmetric] x_def [symmetric] s1_def [symmetric]
      by auto
  qed
qed

section \<open>Leases\<close>

text \<open>A lease that is released, with the record it counts in.\<close>

lemma releaseShared_ok:
  assumes ok: "current_ok s" and k: "k < length (ca_leases s)" and held: "ls_phase (ca_leases s ! k) = Held"
    and r: "r = ls_record (ca_leases s ! k)" and more: "leasesOf r s \<noteq> 1"
    and s': "s' = setLease k Freed (setRecord r ((ca_heap s ! r)\<lparr>xr_leases := xr_leases (ca_heap s ! r) - 1\<rparr>) s)"
  shows "current_ok s'"
proof -
  have mem: "ca_leases s ! k \<in> set (ca_leases s)" using k by simp
  have rl: "r < length (ca_heap s)" using shapeD(1) [OF ok conjunct1 [OF shapeD(3) [OF ok mem held]]] by (simp add: r)
  have u: "usersOf q s' = usersOf q s" for q by (simp add: s' usersOf_def setLease_def setRecord_def)
  have le: "leasesOf q s' = leasesOf q s - of_bool (q = r)" for q
    unfolding s' by (subst leasesOf_setLease) (use k held r in \<open>auto simp: setRecord_def leasesOf_def\<close>)
  have h: "ca_heap s' ! q = (if q = r then (ca_heap s ! r)\<lparr>xr_leases := xr_leases (ca_heap s ! r) - 1\<rparr> else ca_heap s ! q)"
    "length (ca_heap s') = length (ca_heap s)" for q
    using rl by (simp_all add: s' setLease_def setRecord_def nth_list_update)
  have st: "xr_state (ca_heap s' ! q) = xr_state (ca_heap s ! q)" "xr_loop (ca_heap s' ! q) = xr_loop (ca_heap s ! q)" for q
    by (simp_all add: h)
  have fr: "ca_records s' = ca_records s" "ca_signals s' = ca_signals s" "ca_calls s' = ca_calls s" "ca_loops s' = ca_loops s"
    "ca_leases s' = (ca_leases s)[k := (ca_leases s ! k)\<lparr>ls_phase := Freed\<rparr>]"
    by (simp_all add: s' setLease_def setRecord_def)
  have keep: "k' \<in> set (ca_leases s')" if "k' \<in> set (ca_leases s)" "ls_phase k' \<noteq> Held" for k'
    unfolding fr by (rule mem_update_other) (use that held in auto)
  have old: "k' \<in> set (ca_leases s)" if "k' \<in> set (ca_leases s')" "ls_phase k' \<noteq> Freed" for k'
    using that unfolding fr by (auto dest!: set_update_cases)
  have "shape s'"
    using ok unfolding current_ok_def shape_def fr(1-4) h(2) unfolding st by (auto simp: releasing_def dest!: old)
  moreover have "counts s'"
    unfolding counts_def u le h(2) using countsD [OF ok] by (auto simp: h)
  moreover have "kept s'"
  proof (rule keptI, unfold fr)
    fix fp q assume "map_of (ca_records s) fp = Some q"
    then have re: "responsible s fp q" using ok unfolding current_ok_def kept_def by blast
    show "responsible s' fp q"
    proof (cases "q = r")
      case False
      then show ?thesis using re
        by (elim responsible_mono) (auto simp: u le st releasing_def intro: keep)
    qed (use more in \<open>simp add: responsible_def le\<close>)
  qed
  moreover have "looped s'"
  proof -
    have L: "looped s" using ok by (simp add: current_ok_def)
    have nz: "leasesOf r s \<noteq> 0" using held mem r by (auto simp: leasesOf_zero)
    have zeq: "leasesOf q s - of_bool (q = r) = 0 \<longleftrightarrow> leasesOf q s = 0" for q using more nz by auto
    show ?thesis
      using L unfolding looped_def fr(1-4) h(2) u le zeq st
      by (auto dest!: old intro: keep) (metis keep lease_phase.distinct(1))+
  qed
  ultimately show ?thesis by (simp add: current_ok_def)
qed

lemma releaseLast_ok:
  assumes ok: "current_ok s" and k: "k < length (ca_leases s)" and held: "ls_phase (ca_leases s ! k) = Held"
    and r: "r = ls_record (ca_leases s ! k)" and one: "leasesOf r s = 1"
    and closed: "ca_signals s ! xr_state (ca_heap s ! r)"
    and s': "s' = setLease k (Cancelling (xr_loop (ca_heap s ! r)))
                 (setRecord r ((ca_heap s ! r)\<lparr>xr_leases := xr_leases (ca_heap s ! r) - 1, xr_loop := None\<rparr>) s)"
  shows "current_ok s'"
proof -
  define x where "x = (ca_heap s ! r)\<lparr>xr_leases := xr_leases (ca_heap s ! r) - 1, xr_loop := None\<rparr>"
  define k1 where "k1 = (ca_leases s ! k)\<lparr>ls_phase := Cancelling (xr_loop (ca_heap s ! r))\<rparr>"
  have mem: "ca_leases s ! k \<in> set (ca_leases s)" using k by simp
  note hd = shapeD(3) [OF ok mem held]
  have rl: "r < length (ca_heap s)" using shapeD(1) [OF ok conjunct1 [OF hd]] by (simp add: r)
  have u: "usersOf q s' = usersOf q s" for q by (simp add: s' usersOf_def setLease_def setRecord_def)
  have le: "leasesOf q s' = leasesOf q s - of_bool (q = r)" for q
    unfolding s' by (subst leasesOf_setLease) (use k held r in \<open>auto simp: setRecord_def leasesOf_def\<close>)
  have h: "ca_heap s' ! q = (if q = r then x else ca_heap s ! q)" "length (ca_heap s') = length (ca_heap s)" for q
    using rl by (simp_all add: s' setLease_def setRecord_def nth_list_update x_def)
  have st: "xr_state (ca_heap s' ! q) = xr_state (ca_heap s ! q)"
    "xr_loop (ca_heap s' ! q) = (if q = r then None else xr_loop (ca_heap s ! q))" for q
    by (simp_all add: h x_def)
  have fr: "ca_records s' = ca_records s" "ca_signals s' = ca_signals s" "ca_calls s' = ca_calls s" "ca_loops s' = ca_loops s"
    "ca_leases s' = (ca_leases s)[k := k1]"
    by (simp_all add: s' setLease_def setRecord_def k1_def)
  have keep: "k' \<in> set (ca_leases s')" if "k' \<in> set (ca_leases s)" "ls_phase k' \<noteq> Held" for k'
    unfolding fr by (rule mem_update_other) (use that held in auto)
  have old: "k' = k1 \<or> k' \<in> set (ca_leases s)" if "k' \<in> set (ca_leases s')" for k'
    using that unfolding fr by (rule set_update_cases)
  have new: "k1 \<in> set (ca_leases s')" unfolding fr using k by (rule set_update_memI)
  have k1: "releasing k1" "ls_record k1 = r" "ls_state k1 = xr_state (ca_heap s ! r)" "ls_phase k1 = Cancelling (xr_loop (ca_heap s ! r))"
    "ls_fingerprint k1 = ls_fingerprint (ca_leases s ! k)"
    using hd by (simp_all add: k1_def r releasing_def)
  have "shape s'"
    using ok closed shapeD(4) [OF ok rl] rl k1 unfolding current_ok_def shape_def fr(1-4) h(2) unfolding st
    by (auto dest!: old)
  moreover have "counts s'"
    unfolding counts_def u le h(2) using countsD [OF ok] by (auto simp: h x_def)
  moreover have "kept s'"
  proof (rule keptI, unfold fr)
    fix fp q assume m: "map_of (ca_records s) fp = Some q"
    then have re: "responsible s fp q" using ok unfolding current_ok_def kept_def by blast
    show "responsible s' fp q"
    proof (cases "q = r")
      case False
      then show ?thesis using re
        by (elim responsible_mono) (auto simp: u le st releasing_def intro: keep)
    next
      case True
      then have "fp = ls_fingerprint k1" using shapeD(5) [OF ok m] hd by (simp add: k1 r)
      then show ?thesis using new k1 True by (auto simp: responsible_def st)
    qed
  qed
  moreover have "looped s'"
    unfolding looped_def fr(1-4) h(2) le st
  proof (intro conjI allI impI ballI)
    have L: "looped s" using ok by (simp add: current_ok_def)
    fix q assume q: "q < length (ca_heap s)"
    show "leasesOf q s - of_bool (q = r) = 0 \<Longrightarrow> (if q = r then None else xr_loop (ca_heap s ! q)) = None"
      using L q unfolding looped_def by auto
    show "\<exists>l. (if q = r then None else xr_loop (ca_heap s ! q)) = Some l \<and> l < length (ca_loops s) \<and>
        lp_record (ca_loops s ! l) = q \<and> lp_state (ca_loops s ! l) = xr_state (ca_heap s ! q) \<and>
        (ca_signals s ! xr_state (ca_heap s ! q) \<or> alive (ca_loops s ! l))" if "leasesOf q s - of_bool (q = r) \<noteq> 0"
      using L q that one unfolding looped_def by (cases "q = r") auto
  next
    have L: "looped s" using ok by (simp add: current_ok_def)
    fix k' l assume k': "k' \<in> set (ca_leases s')" "ls_phase k' = Cancelling (Some l) \<or> ls_phase k' = Waiting (Some l)"
    have both: "l < length (ca_loops s) \<and> (\<forall>q<length (ca_heap s). q \<noteq> r \<longrightarrow> xr_loop (ca_heap s ! q) \<noteq> Some l)"
    proof (cases "k' \<in> set (ca_leases s)")
      case True
      then show ?thesis using L k'(2) unfolding looped_def by blast
    next
      case False
      then have "xr_loop (ca_heap s ! r) = Some l" using old [OF k'(1)] k'(2) k1(4) by auto
      then show ?thesis using loop_state [OF ok rl, of l] loop_state [OF ok, of _ l] by auto
    qed
    then show "l < length (ca_loops s)" by blast
    fix q assume "q < length (ca_heap s)"
    then show "(if q = r then None else xr_loop (ca_heap s ! q)) \<noteq> Some l" using both by simp
  next
    have L: "looped s" using ok by (simp add: current_ok_def)
    fix l assume l: "l < length (ca_loops s)" "alive (ca_loops s ! l)"
    then consider "lp_record (ca_loops s ! l) < length (ca_heap s)" "xr_loop (ca_heap s ! lp_record (ca_loops s ! l)) = Some l"
      | k' where "k' \<in> set (ca_leases s)" "ls_phase k' = Cancelling (Some l)"
      using L unfolding looped_def by blast
    then show "(lp_record (ca_loops s ! l) < length (ca_heap s) \<and>
        (if lp_record (ca_loops s ! l) = r then None else xr_loop (ca_heap s ! lp_record (ca_loops s ! l))) = Some l) \<or>
        (\<exists>k'\<in>set (ca_leases s'). ls_phase k' = Cancelling (Some l))"
    proof cases
      case 1
      then show ?thesis using new k1(4) by (cases "lp_record (ca_loops s ! l) = r") auto
    next
      case 2
      then have "k' \<in> set (ca_leases s')" by (intro keep) auto
      then show ?thesis using 2 by blast
    qed
  qed
  ultimately show ?thesis by (simp add: current_ok_def)
qed

lemma releaseLease_ok:
  assumes ok: "current_ok s" and k: "k < length (ca_leases s)" and held: "ls_phase (ca_leases s ! k) = Held"
  shows "current_ok (releaseLease k s)"
proof -
  define r where "r = ls_record (ca_leases s ! k)"
  have mem: "ca_leases s ! k \<in> set (ca_leases s)" using k by simp
  note hd = shapeD(3) [OF ok mem held, folded r_def]
  note rl = shapeD(1) [OF ok conjunct1 [OF hd]]
  have nz: "leasesOf r s \<noteq> 0" using held mem by (auto simp: leasesOf_zero r_def)
  have xs: "xr_state (ca_heap s ! r) = ls_state (ca_leases s ! k)" "xr_leases (ca_heap s ! r) = leasesOf r s"
    using hd countsD [OF ok rl] by simp_all
  show ?thesis
  proof (cases "leasesOf r s = 1")
    case False
    have "current_ok (setLease k Freed (setRecord r ((ca_heap s ! r)\<lparr>xr_leases := xr_leases (ca_heap s ! r) - 1\<rparr>) s))"
      by (rule releaseShared_ok [OF ok k held r_def False refl])
    then show ?thesis using nz False by (simp add: releaseLease_def Let_def r_def [symmetric] xs)
  next
    case True
    define s0 where "s0 = revoke (ls_state (ca_leases s ! k)) s"
    have ok0: "current_ok s0" unfolding s0_def by (rule revoke_ok [OF ok])
    have fr: "ca_leases s0 = ca_leases s" "ca_heap s0 = ca_heap s" "leasesOf r s0 = leasesOf r s"
      by (simp_all add: s0_def revoke_def leasesOf_def)
    have "ca_signals s0 ! xr_state (ca_heap s0 ! r)"
      using shapeD(4) [OF ok rl] by (simp add: s0_def revoke_def xs(1) [symmetric])
    then have "current_ok (setLease k (Cancelling (xr_loop (ca_heap s0 ! r)))
        (setRecord r ((ca_heap s0 ! r)\<lparr>xr_leases := xr_leases (ca_heap s0 ! r) - 1, xr_loop := None\<rparr>) s0))"
      using k held True by (intro releaseLast_ok [OF ok0 _ _ _ _ _ refl, of k]) (simp_all add: fr fr(3) [unfolded r_def] r_def)
    then have "current_ok (setLease k (Cancelling (xr_loop (ca_heap s ! r)))
        (setRecord r ((ca_heap s ! r)\<lparr>xr_leases := xr_leases (ca_heap s ! r) - 1, xr_loop := None\<rparr>) s0))"
      unfolding fr .
    then show ?thesis using True by (simp add: releaseLease_def Let_def r_def [symmetric] xs s0_def)
  qed
qed

text \<open>The later phases of a release do not count; only who cancels which loop changes.\<close>

lemma setPhase_ok:
  assumes ok: "current_ok s" and k: "k < length (ca_leases s)" and rel: "releasing (ca_leases s ! k)" and ph: "ph \<noteq> Held"
    and keepLoop: "\<And>l. ph = Cancelling (Some l) \<or> ph = Waiting (Some l) \<Longrightarrow>
       ls_phase (ca_leases s ! k) = Cancelling (Some l) \<or> ls_phase (ca_leases s ! k) = Waiting (Some l)"
    and dead: "\<And>l. ls_phase (ca_leases s ! k) = Cancelling (Some l) \<Longrightarrow> \<not> alive (ca_loops s ! l)"
    and s': "s' = setLease k ph s"
  shows "shape s'" and "counts s'" and "looped s'"
    and "\<And>fp q. responsible s fp q \<Longrightarrow>
           (ls_record (ca_leases s ! k) = q \<and> ls_fingerprint (ca_leases s ! k) = fp \<and> ls_state (ca_leases s ! k) = xr_state (ca_heap s ! q)
              \<Longrightarrow> ph \<noteq> Freed \<or> usersOf q s \<noteq> 0 \<or> leasesOf q s \<noteq> 0)
           \<Longrightarrow> responsible s' fp q"
proof -
  define k1 where "k1 = (ca_leases s ! k)\<lparr>ls_phase := ph\<rparr>"
  have mem: "ca_leases s ! k \<in> set (ca_leases s)" using k by simp
  have u: "usersOf q s' = usersOf q s" for q by (simp add: s' usersOf_def setLease_def)
  have le: "leasesOf q s' = leasesOf q s" for q
    unfolding s' by (subst leasesOf_setLease) (use k rel ph in \<open>auto simp: releasing_def\<close>)
  have fr: "ca_records s' = ca_records s" "ca_signals s' = ca_signals s" "ca_calls s' = ca_calls s" "ca_loops s' = ca_loops s"
    "ca_heap s' = ca_heap s" "ca_leases s' = (ca_leases s)[k := k1]"
    by (simp_all add: s' setLease_def k1_def)
  have old: "k' = k1 \<or> k' \<in> set (ca_leases s)" if "k' \<in> set (ca_leases s')" for k'
    using that unfolding fr by (rule set_update_cases)
  have new: "k1 \<in> set (ca_leases s')" unfolding fr using k by (rule set_update_memI)
  have keep: "k' \<in> set (ca_leases s')" if "k' \<in> set (ca_leases s)" "k' \<noteq> ca_leases s ! k" for k'
    unfolding fr using that by (rule mem_update_other)
  have k1: "ls_record k1 = ls_record (ca_leases s ! k)" "ls_state k1 = ls_state (ca_leases s ! k)"
    "ls_fingerprint k1 = ls_fingerprint (ca_leases s ! k)" "ls_phase k1 = ph"
    by (simp_all add: k1_def)
  show "shape s'"
    using ok mem rel ph unfolding current_ok_def shape_def fr(1-5) by (auto simp: k1 dest!: old)
  show "counts s'"
    using ok unfolding current_ok_def counts_def fr u le by blast
  show "responsible s' fp q" if re: "responsible s fp q" and last:
    "ls_record (ca_leases s ! k) = q \<and> ls_fingerprint (ca_leases s ! k) = fp \<and> ls_state (ca_leases s ! k) = xr_state (ca_heap s ! q)
       \<Longrightarrow> ph \<noteq> Freed \<or> usersOf q s \<noteq> 0 \<or> leasesOf q s \<noteq> 0" for fp q
  proof (cases "usersOf q s \<noteq> 0 \<or> leasesOf q s \<noteq> 0")
    case False
    then obtain k' where k': "k' \<in> set (ca_leases s)" "releasing k'" "ls_record k' = q" "ls_fingerprint k' = fp"
      "ls_state k' = xr_state (ca_heap s ! q)"
      using re unfolding responsible_def by blast
    show ?thesis
    proof (cases "k' = ca_leases s ! k")
      case True
      then have "releasing k1" using last k' False ph by (auto simp: releasing_def k1)
      then show ?thesis using new True k' by (auto simp: responsible_def fr(5) k1)
    next
      case neq: False
      then show ?thesis using keep [OF k'(1)] k' unfolding responsible_def fr(5) by blast
    qed
  qed (auto simp: responsible_def u le)
  have L: "looped s" using ok by (simp add: current_ok_def)
  show "looped s'"
    unfolding looped_def fr(1-5) le
  proof (intro conjI)
    show "\<forall>k\<in>set (ca_leases s'). \<forall>l. ls_phase k = Cancelling (Some l) \<or> ls_phase k = Waiting (Some l) \<longrightarrow>
        l < length (ca_loops s) \<and> (\<forall>r<length (ca_heap s). xr_loop (ca_heap s ! r) \<noteq> Some l)"
      using L mem keepLoop unfolding looped_def by (metis old k1(4))
    show "\<forall>l<length (ca_loops s). alive (ca_loops s ! l) \<longrightarrow>
        (lp_record (ca_loops s ! l) < length (ca_heap s) \<and> xr_loop (ca_heap s ! lp_record (ca_loops s ! l)) = Some l) \<or>
        (\<exists>k\<in>set (ca_leases s'). ls_phase k = Cancelling (Some l))"
      using L dead keep unfolding looped_def by metis
  qed (use L in \<open>auto simp: looped_def\<close>)
qed

lemma releaseCancel_ok:
  assumes ok: "current_ok s" and k: "k < length (ca_leases s)" and ph: "ls_phase (ca_leases s ! k) = Cancelling lo"
  shows "current_ok (releaseCancel k lo s)"
proof -
  define s1 where "s1 = cancelLoop lo s"
  have mem: "ca_leases s ! k \<in> set (ca_leases s)" using k by simp
  have free: "l < length (ca_loops s) \<and> (\<forall>r<length (ca_heap s). xr_loop (ca_heap s ! r) \<noteq> Some l)" if "lo = Some l" for l
    using ok mem ph that unfolding current_ok_def looped_def by blast
  have ok1: "current_ok s1" unfolding s1_def by (rule cancelLoop_ok [OF ok]) (use free in blast)+
  have fr: "ca_leases s1 = ca_leases s" by (simp add: s1_def cancelLoop_def setLoop_def split: option.split)
  have dead: "\<not> alive (ca_loops s1 ! l)" if "lo = Some l" for l
    using free [OF that] that by (simp add: s1_def cancelLoop_def setLoop_def alive_def)
  have k1: "k < length (ca_leases s1)" "releasing (ca_leases s1 ! k)" using k ph by (simp_all add: fr releasing_def)
  note step = setPhase_ok [OF ok1 k1, of "Waiting lo", OF _ _ _ refl]
  have "shape (setLease k (Waiting lo) s1)" "counts (setLease k (Waiting lo) s1)" "looped (setLease k (Waiting lo) s1)"
    by (rule step; use ph dead in \<open>simp add: fr\<close>)+
  moreover have "kept (setLease k (Waiting lo) s1)"
  proof (rule keptI)
    fix fp q assume "map_of (ca_records (setLease k (Waiting lo) s1)) fp = Some q"
    then have "responsible s1 fp q" using ok1 by (simp add: setLease_def current_ok_def kept_def)
    then show "responsible (setLease k (Waiting lo) s1) fp q" by (rule step(4) [rotated 3]) (use ph dead in \<open>simp_all add: fr\<close>)
  qed
  ultimately show ?thesis by (simp add: releaseCancel_def current_ok_def s1_def)
qed

lemma releaseFinish_ok:
  assumes ok: "current_ok s" and k: "k < length (ca_leases s)" and ph: "ls_phase (ca_leases s ! k) = Waiting lo"
  shows "current_ok (releaseFinish k s)"
proof -
  define fp where "fp = ls_fingerprint (ca_leases s ! k)"
  define r where "r = ls_record (ca_leases s ! k)"
  define s1 where "s1 = setLease k Freed s"
  have mem: "ca_leases s ! k \<in> set (ca_leases s)" using k by simp
  have rel: "releasing (ca_leases s ! k)" using ph by (simp add: releasing_def)
  have rl: "r < length (ca_heap s)" using ok mem rel unfolding current_ok_def shape_def r_def by blast
  note xs = countsD [OF ok rl]
  have fr: "ca_records s1 = ca_records s" by (simp add: s1_def setLease_def)
  have ul: "usersOf q s1 = usersOf q s" "leasesOf q s1 = leasesOf q s" for q
    unfolding s1_def using k ph by (simp_all add: leasesOf_setLease) (simp add: usersOf_def setLease_def)
  note step = setPhase_ok [OF ok k rel, of Freed, OF _ _ _ s1_def]
  have core: "shape s1" "counts s1" "looped s1" by (rule step; use ph in simp)+
  have resp: "responsible s1 fp' q" if "map_of (ca_records s1) fp' = Some q"
    "r = q \<and> fp = fp' \<and> ls_state (ca_leases s ! k) = xr_state (ca_heap s ! q) \<Longrightarrow> usersOf q s \<noteq> 0 \<or> leasesOf q s \<noteq> 0" for fp' q
  proof -
    have "responsible s fp' q" using ok that(1) by (simp add: fr current_ok_def kept_def)
    then show ?thesis by (rule step(4) [rotated 3]) (use ph that(2) in \<open>simp_all add: r_def fp_def\<close>)
  qed
  show ?thesis
  proof (cases "xr_state (ca_heap s ! r) = ls_state (ca_leases s ! k) \<and> usersOf r s = 0 \<and> leasesOf r s = 0 \<and> map_of (ca_records s) fp = Some r")
    case True
    have "current_ok (s1\<lparr>ca_records := mdel fp (ca_records s1)\<rparr>)"
      by (rule drop_ok [OF core]) (use True resp in \<open>auto simp: fr ul\<close>)
    then show ?thesis using True xs by (simp add: releaseFinish_def Let_def fp_def [symmetric] r_def [symmetric] s1_def [symmetric])
  next
    case False
    have "kept s1"
    proof (rule keptI)
      fix fp' q assume m: "map_of (ca_records s1) fp' = Some q"
      show "responsible s1 fp' q" by (rule resp [OF m]) (use False m in \<open>auto simp: fr\<close>)
    qed
    then have "current_ok s1" using core by (simp add: current_ok_def)
    then show ?thesis using False xs
      by (auto simp: releaseFinish_def Let_def fp_def [symmetric] r_def [symmetric] s1_def [symmetric])
  qed
qed

section \<open>All interleavings\<close>

lemma authorizeBegin_ok:
  assumes ok: "current_ok s"
  shows "current_ok (snd (authorizeBegin fp s))"
proof (cases "map_of (ca_records s) fp")
  case (Some r)
  then show ?thesis
    using ok authorizeBegin_known_ok [OF ok Some]
    by (simp add: authorizeBegin_def recordFor_def) (simp add: setRecord_def)
next
  case None
  then show ?thesis
    using ok authorizeBegin_new_ok [OF ok None _ refl]
    by (simp add: authorizeBegin_def recordFor_def newExecutionState_def Let_def)
qed

lemma currentStep_ok: "current_ok s \<Longrightarrow> current_ok (currentStep s oper)"
  by (cases oper)
    (auto simp: currentStep_def authorizeBegin_ok authorizeEnd_ok authorizeLeave_ok loopFail_ok loopRevoke_ok loopStop_ok
      releaseLease_ok releaseCancel_ok releaseFinish_ok split: lease_phase.split)

interpretation current: step_system currentStep current_ok
  by unfold_locales (rule currentStep_ok)

lemmas run_ok = current.run_invar [OF current_ok_new]

text \<open>A closed signal stays closed.\<close>

definition signalsGrow :: "CurrentnessAuthorizer \<Rightarrow> CurrentnessAuthorizer \<Rightarrow> bool" where
  "signalsGrow s s' =
     (length (ca_signals s) \<le> length (ca_signals s') \<and> (\<forall>i<length (ca_signals s). ca_signals s ! i \<longrightarrow> ca_signals s' ! i))"

lemma signalsGrow_refl [simp]: "signalsGrow s s"
  by (simp add: signalsGrow_def)

lemma signalsGrow_trans: "signalsGrow a b \<Longrightarrow> signalsGrow b c \<Longrightarrow> signalsGrow a c"
  by (auto simp: signalsGrow_def)

lemma signalsGrowI:
  "ca_signals s' = ca_signals s \<or> ca_signals s' = ca_signals s @ [False] \<or> (\<exists>i. ca_signals s' = (ca_signals s)[i := True])
     \<Longrightarrow> signalsGrow s s'"
  by (auto simp: signalsGrow_def nth_append intro: update_True)

lemmas signal_ops = setCall_def setLease_def setRecord_def setLoop_def cancelLoop_def revoke_def newExecutionState_def Let_def

lemma acquireLeaseLocked_signals: "ca_signals (snd (acquireLeaseLocked fp r s)) = ca_signals s"
  by (simp add: acquireLeaseLocked_def signal_ops)

lemma currentStep_signals: "signalsGrow s (currentStep s oper)"
proof (rule signalsGrowI, cases oper)
  case (AuthorizeBegin fp)
  then show "ca_signals (currentStep s oper) = ca_signals s \<or> ca_signals (currentStep s oper) = ca_signals s @ [False] \<or>
      (\<exists>i. ca_signals (currentStep s oper) = (ca_signals s)[i := True])"
    by (auto simp: currentStep_def authorizeBegin_def recordFor_def signal_ops split: option.split)
next
  case (AuthorizeEnd c proved)
  then show "ca_signals (currentStep s oper) = ca_signals s \<or> ca_signals (currentStep s oper) = ca_signals s @ [False] \<or>
      (\<exists>i. ca_signals (currentStep s oper) = (ca_signals s)[i := True])"
    by (auto simp: currentStep_def authorizeEnd_def split_beta acquireLeaseLocked_signals signal_ops split: option.split)
qed (auto simp: currentStep_def authorizeLeave_def loopFail_def loopRevoke_def loopStop_def releaseLease_def
    releaseCancel_def releaseFinish_def signal_ops split: lease_phase.split option.split)

lemma run_signals: "signalsGrow s (foldl currentStep s ops)"
  by (induction ops arbitrary: s) (auto intro: signalsGrow_trans currentStep_signals)

lemma closed_forever:
  "i < length (ca_signals s) \<Longrightarrow> ca_signals s ! i \<Longrightarrow> isClosed i (foldl currentStep s ops)"
  using run_signals [of s ops] by (simp add: signalsGrow_def isClosed_def)

section \<open>Properties\<close>

lemma held_lease:
  assumes ok: "current_ok s" and k: "k < length (ca_leases s)" and held: "ls_phase (ca_leases s ! k) = Held"
  shows "map_of (ca_records s) (ls_fingerprint (ca_leases s ! k)) = Some (ls_record (ca_leases s ! k))"
    and "ls_state (ca_leases s ! k) = xr_state (ca_heap s ! ls_record (ca_leases s ! k))"
    and "ls_record (ca_leases s ! k) < length (ca_heap s)"
    and "ls_state (ca_leases s ! k) < length (ca_signals s)"
    and "leasesOf (ls_record (ca_leases s ! k)) s \<noteq> 0"
proof -
  have mem: "ca_leases s ! k \<in> set (ca_leases s)" using k by simp
  note l = shapeD(3) [OF ok mem held]
  show "map_of (ca_records s) (ls_fingerprint (ca_leases s ! k)) = Some (ls_record (ca_leases s ! k))"
    and st: "ls_state (ca_leases s ! k) = xr_state (ca_heap s ! ls_record (ca_leases s ! k))" using l by auto
  then show r: "ls_record (ca_leases s ! k) < length (ca_heap s)" using shapeD(1) [OF ok] by blast
  then show "ls_state (ca_leases s ! k) < length (ca_signals s)" using shapeD(4) [OF ok] st by simp
  show "leasesOf (ls_record (ca_leases s ! k)) s \<noteq> 0" using mem held by (auto simp: leasesOf_zero)
qed

lemma revoked_closed:
  "i < length (ca_signals s) \<Longrightarrow> ca_signals (cancelLoop lo (revoke i (setCall c ph s))) ! i"
  by (simp add: signal_ops split: option.split)

text \<open>(C6) No authorisation survives uncertainty, over every interleaving: once a proof fails, in a new call of
  \<open>Authorize\<close> or in the background loop of the record, the signal of every lease that is held for that fingerprint
  is closed and stays closed whatever follows. A lease is granted with an open signal.\<close>

theorem revocation_reaches_every_lease:
  fixes ops :: "current_op list"
  defines "s \<equiv> foldl currentStep newAuthorizer ops"
  assumes "k < length (ca_leases s)" and "ls_phase (ca_leases s ! k) = Held"
  shows "(callIn Proving c s \<and> ac_fingerprint (ca_calls s ! c) = ls_fingerprint (ca_leases s ! k) \<longrightarrow>
            isClosed (ls_state (ca_leases s ! k)) (foldl currentStep (currentStep s (AuthorizeEnd c False)) later)) \<and>
         (loopIn Failing l s \<and> xr_loop (ca_heap s ! ls_record (ca_leases s ! k)) = Some l \<longrightarrow>
            isClosed (ls_state (ca_leases s ! k)) (foldl currentStep (currentStep s (LoopRevoke l)) later)) \<and>
         (callIn Proving c s \<and> fst (authorizeEnd c True s) = Inr g \<longrightarrow>
            \<not> isClosed (ls_state (ca_leases (currentStep s (AuthorizeEnd c True)) ! g)) (currentStep s (AuthorizeEnd c True)))"
proof (intro conjI impI)
  have ok: "current_ok s" unfolding s_def by (rule run_ok)
  note lease = held_lease [OF ok assms(2,3)]
  show "isClosed (ls_state (ca_leases s ! k)) (foldl currentStep (currentStep s (AuthorizeEnd c False)) later)"
    if call: "callIn Proving c s \<and> ac_fingerprint (ca_calls s ! c) = ls_fingerprint (ca_leases s ! k)"
  proof (rule closed_forever)
    have "map_of (ca_records s) (ac_fingerprint (ca_calls s ! c)) = Some (ac_record (ca_calls s ! c))"
      using shapeD(2) [OF ok, of "ca_calls s ! c"] call by (simp add: callIn_def)
    then have "ac_record (ca_calls s ! c) = ls_record (ca_leases s ! k)" using call lease(1) by simp
    then show "ca_signals (currentStep s (AuthorizeEnd c False)) ! ls_state (ca_leases s ! k)"
      using call lease(2,4) by (simp add: currentStep_def authorizeEnd_def Let_def revoked_closed)
    show "ls_state (ca_leases s ! k) < length (ca_signals (currentStep s (AuthorizeEnd c False)))"
      using currentStep_signals [of s "AuthorizeEnd c False"] lease(4) by (simp add: signalsGrow_def)
  qed
  show "isClosed (ls_state (ca_leases s ! k)) (foldl currentStep (currentStep s (LoopRevoke l)) later)"
    if lp: "loopIn Failing l s \<and> xr_loop (ca_heap s ! ls_record (ca_leases s ! k)) = Some l"
  proof (rule closed_forever)
    show "ca_signals (currentStep s (LoopRevoke l)) ! ls_state (ca_leases s ! k)"
      using lp lease loop_state [OF ok lease(3), of l] by (simp add: currentStep_def loopRevoke_def signal_ops)
    show "ls_state (ca_leases s ! k) < length (ca_signals (currentStep s (LoopRevoke l)))"
      using currentStep_signals [of s "LoopRevoke l"] lease(4) by (simp add: signalsGrow_def)
  qed
  assume g: "callIn Proving c s \<and> fst (authorizeEnd c True s) = Inr g"
  let ?r = "ac_record (ca_calls s ! c)"
  have r: "?r < length (ca_heap s)"
    using shapeD(1) [OF ok shapeD(2) [OF ok, of "ca_calls s ! c"]] g by (simp add: callIn_def)
  show "\<not> isClosed (ls_state (ca_leases (currentStep s (AuthorizeEnd c True)) ! g)) (currentStep s (AuthorizeEnd c True))"
    using g r by (auto simp: currentStep_def authorizeEnd_def acquireLeaseLocked_def isClosed_def signal_ops nth_append split: if_splits)
qed

text \<open>Two calls for one fingerprint: the first is granted a lease, the second one's proof fails.\<close>

definition leaseExample :: "current_op list" where
  "leaseExample = [AuthorizeBegin ''f'', AuthorizeEnd 0 True, AuthorizeLeave 0, AuthorizeBegin ''f'']"

theorem revocation_reaches_every_lease_witness:
  "isClosed 0 (foldl currentStep (currentStep (foldl currentStep newAuthorizer leaseExample) (AuthorizeEnd 1 False))
     [AuthorizeBegin ''f'', AuthorizeEnd 2 True])"
proof -
  let ?s = "foldl currentStep newAuthorizer leaseExample"
  have h: "0 < length (ca_leases ?s)" "ls_phase (ca_leases ?s ! 0) = Held"
    "callIn Proving 1 ?s \<and> ac_fingerprint (ca_calls ?s ! 1) = ls_fingerprint (ca_leases ?s ! 0)"
    "ls_state (ca_leases ?s ! 0) = 0"
    by code_simp+
  have "isClosed (ls_state (ca_leases ?s ! 0)) (foldl currentStep (currentStep ?s (AuthorizeEnd 1 False))
     [AuthorizeBegin ''f'', AuthorizeEnd 2 True])"
    by (rule mp [OF conjunct1 [OF revocation_reaches_every_lease [OF h(1,2)]] h(3)])
  then show ?thesis unfolding h(4) .
qed

text \<open>(C13) Leases are supervised and everything is reclaimed, over every interleaving: a lease with an open signal has
  a background loop at work on that signal, all leases held for one fingerprint share one record and one signal, and at
  most 2048 records are kept. When no call is in progress and every lease is fully released, the map of records is
  empty and no loop is left that was not told to stop.\<close>

theorem leases_supervised_and_reclaimed:
  fixes ops :: "current_op list"
  defines "s \<equiv> foldl currentStep newAuthorizer ops"
  shows "(\<forall>k<length (ca_leases s). ls_phase (ca_leases s ! k) = Held \<and> \<not> isClosed (ls_state (ca_leases s ! k)) s \<longrightarrow>
            (\<exists>l<length (ca_loops s). lp_record (ca_loops s ! l) = ls_record (ca_leases s ! k) \<and>
               lp_state (ca_loops s ! l) = ls_state (ca_leases s ! k) \<and> alive (ca_loops s ! l))) \<and>
         (\<forall>k<length (ca_leases s). \<forall>k'<length (ca_leases s).
            ls_phase (ca_leases s ! k) = Held \<and> ls_phase (ca_leases s ! k') = Held \<and>
            ls_fingerprint (ca_leases s ! k) = ls_fingerprint (ca_leases s ! k') \<longrightarrow>
            ls_record (ca_leases s ! k) = ls_record (ca_leases s ! k') \<and> ls_state (ca_leases s ! k) = ls_state (ca_leases s ! k')) \<and>
         length (ca_records s) \<le> MaxCurrentnessStates \<and>
         (list_all (\<lambda>c. ac_phase c = Left) (ca_calls s) \<and> list_all (\<lambda>k. ls_phase k = Freed) (ca_leases s) \<longrightarrow>
            ca_records s = [] \<and> list_all (\<lambda>x. \<not> alive x) (ca_loops s))"
proof -
  have ok: "current_ok s" unfolding s_def by (rule run_ok)
  have L: "looped s" and K: "kept s" using ok by (simp_all add: current_ok_def)
  have sup: "\<exists>l<length (ca_loops s). lp_record (ca_loops s ! l) = ls_record (ca_leases s ! k) \<and>
       lp_state (ca_loops s ! l) = ls_state (ca_leases s ! k) \<and> alive (ca_loops s ! l)"
    if "k < length (ca_leases s)" "ls_phase (ca_leases s ! k) = Held" "\<not> isClosed (ls_state (ca_leases s ! k)) s" for k
    using held_lease [OF ok that(1,2)] L that(3) unfolding looped_def isClosed_def by metis
  have same: "ls_record (ca_leases s ! k) = ls_record (ca_leases s ! k') \<and> ls_state (ca_leases s ! k) = ls_state (ca_leases s ! k')"
    if "k < length (ca_leases s)" "k' < length (ca_leases s)" "ls_phase (ca_leases s ! k) = Held"
      "ls_phase (ca_leases s ! k') = Held" "ls_fingerprint (ca_leases s ! k) = ls_fingerprint (ca_leases s ! k')" for k k'
    using held_lease(1,2) [OF ok that(1,3)] held_lease(1,2) [OF ok that(2,4)] that(5) by simp
  have clean: "ca_records s = [] \<and> list_all (\<lambda>x. \<not> alive x) (ca_loops s)"
    if "list_all (\<lambda>c. ac_phase c = Left) (ca_calls s)" "list_all (\<lambda>k. ls_phase k = Freed) (ca_leases s)"
  proof -
    have z: "usersOf r s = 0" "leasesOf r s = 0" for r
      using that by (auto simp: usersOf_zero leasesOf_zero list_all_iff)
    have "map_of (ca_records s) fp = None" for fp
      using K z that(2) unfolding kept_def responsible_def releasing_def list_all_iff by (metis option.exhaust)
    then have "map_of (ca_records s) = Map.empty" by (rule ext)
    moreover have "\<not> alive (ca_loops s ! l)" if "l < length (ca_loops s)" for l
      using L z that \<open>list_all (\<lambda>k. ls_phase k = Freed) (ca_leases s)\<close> unfolding looped_def list_all_iff by fastforce
    ultimately show ?thesis by (simp add: list_all_length)
  qed
  have "length (ca_records s) \<le> MaxCurrentnessStates" using ok by (simp add: current_ok_def shape_def)
  then show ?thesis using sup same clean by blast
qed

theorem leases_supervised_and_reclaimed_witness:
  "(\<exists>l<1. alive (ca_loops (foldl currentStep newAuthorizer leaseExample) ! l)) \<and>
   ca_records (foldl currentStep newAuthorizer
     (take 3 leaseExample @ [ReleaseLease 0, ReleaseCancel 0, LoopFail 0, ReleaseFinish 0])) = []"
proof -
  let ?s = "foldl currentStep newAuthorizer leaseExample"
  let ?ops = "take 3 leaseExample @ [ReleaseLease 0, ReleaseCancel 0, LoopFail 0, ReleaseFinish 0]"
  have h: "0 < length (ca_leases ?s)" "ls_phase (ca_leases ?s ! 0) = Held \<and> \<not> isClosed (ls_state (ca_leases ?s ! 0)) ?s"
    "length (ca_loops ?s) = 1"
    by code_simp+
  have d: "list_all (\<lambda>c. ac_phase c = Left) (ca_calls (foldl currentStep newAuthorizer ?ops))"
    "list_all (\<lambda>k. ls_phase k = Freed) (ca_leases (foldl currentStep newAuthorizer ?ops))"
    by code_simp+
  show ?thesis
    using leases_supervised_and_reclaimed [of leaseExample] leases_supervised_and_reclaimed [of ?ops] h d by metis
qed

end
