(* ===== verification/Egress_Proxy.thy ===== *)
theory Egress_Proxy
  imports Egress_Resolve Egress_Quota
begin

text \<open>
  The connection handlers of the egress proxy and of its forwarder (\<open>src/internal/egressproxy/proxy.go\<close>), which
  compose the wire protocol, the authorisation, the quotas and the resolution of the other theories.

  A handler is a function of what its environment does: the bytes the client sends, the verdict of the
  authoriser, the answers of the resolver, the outcome of each dial and of each write. It returns the world it
  leaves behind, with the trace of its actions; the deferred calls of the source are the actions wrapped around
  the rest of the body, so that they run in reverse order on every path. Deadlines, and the goroutine that closes
  the connection when the currentness signal closes, show as reads, dials and writes that fail.
\<close>

section \<open>The proxy\<close>

text \<open>\<open>az_Currentness\<close> is nil, or a signal that is closed or not; \<open>az_ReleaseCurrentness\<close> tells whether the
  function is present.\<close>

record Authorization =
  az_ExecutionKey :: string
  az_ProjectKey :: string
  az_DeniedPrefixes :: "Prefix list"
  az_Currentness :: "bool option"
  az_ReleaseCurrentness :: bool

datatype proxy_event =
  Authorizing string | FreedPreAuth | Denied | ReleasedCurrentness | Dialed Addr | Allowed | Activated
| Upstream string | Relaying | ClosedUpstream | ReleasedReservation | ClosedClient

record ('c, 'o, 'r, 'n, 'e, 'd) proxyEnv =
  pe_write :: "'c \<Rightarrow> string \<Rightarrow> nat \<times> wire_error option \<times> 'c"
  pe_authorize :: "string \<Rightarrow> string \<Rightarrow> 'e + Authorization"
  pe_query :: "'r \<Rightarrow> 'n \<Rightarrow> qtype \<Rightarrow> ('e + resource list) \<times> 'r"
  pe_newName :: "string \<Rightarrow> 'e + 'n"
  pe_dial :: "'d \<Rightarrow> Addr \<Rightarrow> 'o option \<times> 'd"
  pe_writeOut :: "'o \<Rightarrow> string \<Rightarrow> nat \<times> wire_error option \<times> 'o"
  pe_created :: int
  pe_now :: int

record ('c, 'r, 'd) proxyWorld =
  pw_client :: 'c
  pw_resolver :: 'r
  pw_dialer :: 'd
  pw_quota :: QuotaManager
  pw_preAuth :: bool
  pw_trace :: "proxy_event list"

definition emit :: "proxy_event \<Rightarrow> ('c, 'r, 'd) proxyWorld \<Rightarrow> ('c, 'r, 'd) proxyWorld" where
  "emit ev w = w\<lparr>pw_trace := pw_trace w @ [ev]\<rparr>"

text \<open>The slot of the unauthorised connections, freed once (\<open>sync.OnceFunc\<close>).\<close>

definition releasePreAuth :: "('c, 'r, 'd) proxyWorld \<Rightarrow> ('c, 'r, 'd) proxyWorld" where
  "releasePreAuth w = (if pw_preAuth w then emit FreedPreAuth (w\<lparr>pw_preAuth := False\<rparr>) else w)"

definition deny :: "('c, 'o, 'r, 'n, 'e, 'd) proxyEnv \<Rightarrow> ('c, 'r, 'd) proxyWorld \<Rightarrow> ('c, 'r, 'd) proxyWorld" where
  "deny env w = emit Denied (w\<lparr>pw_client := snd (writeStatus (pe_write env) (pw_client w) False)\<rparr>)"

definition validateCurrentAuthorization :: "Authorization \<Rightarrow> string option" where
  "validateCurrentAuthorization a =
     (if az_ExecutionKey a = [] \<or> az_ProjectKey a = [] \<or> az_Currentness a = None \<or> \<not> az_ReleaseCurrentness a
      then Some ''complete currentness authorization required''
      else if az_Currentness a = Some True then Some ''currentness authorization is already revoked''
      else None)"

text \<open>The loop over the resolved addresses.\<close>

fun dialLoop ::
  "('c, 'o, 'r, 'n, 'e, 'd) proxyEnv \<Rightarrow> Addr list \<Rightarrow> ('c, 'r, 'd) proxyWorld \<Rightarrow> 'o option \<times> ('c, 'r, 'd) proxyWorld" where
  "dialLoop env [] w = (None, w)"
| "dialLoop env (ip # ips) w =
     (case pe_dial env (pw_dialer w) ip of
        (Some out, d) \<Rightarrow> (Some out, emit (Dialed ip) (w\<lparr>pw_dialer := d\<rparr>))
      | (None, d) \<Rightarrow> dialLoop env ips (emit (Dialed ip) (w\<lparr>pw_dialer := d\<rparr>)))"

definition handleDialed ::
  "('c, 'o, 'r, 'n, 'e, 'd) proxyEnv \<Rightarrow> string \<Rightarrow> string \<Rightarrow> nat \<Rightarrow> 'o \<Rightarrow> ('c, 'r, 'd) proxyWorld \<Rightarrow> ('c, 'r, 'd) proxyWorld" where
  "handleDialed env name rest rid out w =
     (case writeStatus (pe_write env) (pw_client w) True of
        (Some _, c) \<Rightarrow> w\<lparr>pw_client := c\<rparr>
      | (None, c) \<Rightarrow>
          (let w1 = emit Allowed (w\<lparr>pw_client := c\<rparr>) in
           case readClientHello rest name of
             Inl _ \<Rightarrow> w1
           | Inr (hello, _) \<Rightarrow>
               (case Activate rid (pw_quota w1) of
                  (Some _, q) \<Rightarrow> w1\<lparr>pw_quota := q\<rparr>
                | (None, q) \<Rightarrow>
                    (let w2 = emit (Upstream hello) (emit Activated (w1\<lparr>pw_quota := q\<rparr>)) in
                     if fst (snd (pe_writeOut env out hello)) \<noteq> None then w2 else emit Relaying w2))))"

definition handleReserved ::
  "('c, 'o, 'r, 'n, 'e, 'd) proxyEnv \<Rightarrow> Authorization \<Rightarrow> string \<Rightarrow> string \<Rightarrow> nat \<Rightarrow> ('c, 'r, 'd) proxyWorld \<Rightarrow> ('c, 'r, 'd) proxyWorld" where
  "handleReserved env a name rest rid w =
     (case Resolve (pe_query env) (pe_newName env) name (az_DeniedPrefixes a) (pw_resolver w) of
        (Inl _, r) \<Rightarrow> deny env (w\<lparr>pw_resolver := r\<rparr>)
      | (Inr ips, r) \<Rightarrow>
          (case dialLoop env ips (w\<lparr>pw_resolver := r\<rparr>) of
             (None, w1) \<Rightarrow> deny env w1
           | (Some out, w1) \<Rightarrow> emit ClosedUpstream (handleDialed env name rest rid out w1)))"

definition releaseReservation :: "nat \<Rightarrow> ('c, 'r, 'd) proxyWorld \<Rightarrow> ('c, 'r, 'd) proxyWorld" where
  "releaseReservation rid w = emit ReleasedReservation (w\<lparr>pw_quota := Release rid (pw_quota w)\<rparr>)"

definition handleAuthorized ::
  "('c, 'o, 'r, 'n, 'e, 'd) proxyEnv \<Rightarrow> Authorization \<Rightarrow> string \<Rightarrow> string \<Rightarrow> ('c, 'r, 'd) proxyWorld \<Rightarrow> ('c, 'r, 'd) proxyWorld" where
  "handleAuthorized env a name rest w =
     (case Reserve (pe_created env) (pe_now env) (az_ExecutionKey a) (az_ProjectKey a) (pw_quota w) of
        (Inl _, q) \<Rightarrow> deny env (w\<lparr>pw_quota := q\<rparr>)
      | (Inr rid, q) \<Rightarrow> releaseReservation rid (handleReserved env a name rest rid (w\<lparr>pw_quota := q\<rparr>)))"

text \<open>The handler: \<open>ident\<close> is the certificate fingerprint, or \<open>None\<close> when there is no TLS connection, the
  handshake fails or the client has no certificate.\<close>

definition handleConn ::
  "('c, 'o, 'r, 'n, 'e, 'd) proxyEnv \<Rightarrow> string option \<Rightarrow> string \<Rightarrow> ('c, 'r, 'd) proxyWorld \<Rightarrow> ('c, 'r, 'd) proxyWorld" where
  "handleConn env ident input w =
     (case ident of
        None \<Rightarrow> w
      | Some fp \<Rightarrow>
          (case readRequest input of
             Inl _ \<Rightarrow> w
           | Inr (reqName, rest) \<Rightarrow>
               (case canonicalTarget (reqName @ '':443'') of
                  Inl _ \<Rightarrow> deny env w
                | Inr name \<Rightarrow>
                    (let w1 = releasePreAuth (emit (Authorizing name) w) in
                     case pe_authorize env fp name of
                       Inl _ \<Rightarrow> deny env w1
                     | Inr a \<Rightarrow>
                         if validateCurrentAuthorization a \<noteq> None
                         then deny env (if az_ReleaseCurrentness a then emit ReleasedCurrentness w1 else w1)
                         else emit ReleasedCurrentness (handleAuthorized env a name rest w1)))))"

definition handleWithPreAuth ::
  "('c, 'o, 'r, 'n, 'e, 'd) proxyEnv \<Rightarrow> string option \<Rightarrow> string \<Rightarrow> ('c, 'r, 'd) proxyWorld \<Rightarrow> ('c, 'r, 'd) proxyWorld" where
  "handleWithPreAuth env ident input w = emit ClosedClient (handleConn env ident input w)"

text \<open>The goroutine \<open>Serve\<close> starts for an accepted connection that got a slot.\<close>

definition serveConn ::
  "('c, 'o, 'r, 'n, 'e, 'd) proxyEnv \<Rightarrow> string option \<Rightarrow> string \<Rightarrow> ('c, 'r, 'd) proxyWorld \<Rightarrow> ('c, 'r, 'd) proxyWorld" where
  "serveConn env ident input w = releasePreAuth (handleWithPreAuth env ident input (w\<lparr>pw_preAuth := True\<rparr>))"

section \<open>The forwarder\<close>

datatype forward_event = Requesting string | Established | ForwardRelaying | ClosedProxy | ClosedLocal

record ('c, 'u) forwardEnv =
  fe_dialTLS :: "'u option"
  fe_writeUp :: "'u \<Rightarrow> string \<Rightarrow> nat \<times> wire_error option \<times> 'u"
  fe_readUp :: "'u \<Rightarrow> string"
  fe_writeClient :: "'c \<Rightarrow> string \<Rightarrow> nat \<times> wire_error option \<times> 'c"

definition establishedLine :: string where
  "establishedLine = ''HTTP/1.1 200 Connection Established'' @ crlf @ crlf"

text \<open>The upstream connection, for what was sent on it, and the trace.\<close>

definition forwardUp :: "('c, 'u) forwardEnv \<Rightarrow> string \<Rightarrow> 'c \<Rightarrow> 'u \<Rightarrow> 'u \<times> forward_event list" where
  "forwardUp env name c up =
     (case writeRequest (fe_writeUp env) up name of
        (Some _, up1) \<Rightarrow> (up1, [Requesting name])
      | (None, up1) \<Rightarrow>
          (case readStatus (fe_readUp env up1) of
             Inl _ \<Rightarrow> (up1, [Requesting name])
           | Inr _ \<Rightarrow>
               if fst (snd (fe_writeClient env c establishedLine)) \<noteq> None then (up1, [Requesting name])
               else (up1, [Requesting name, Established, ForwardRelaying])))"

definition forwardHandle :: "('c, 'u) forwardEnv \<Rightarrow> string list \<Rightarrow> 'c \<Rightarrow> 'u option \<times> forward_event list" where
  "forwardHandle env chunks c =
     (case parseCONNECT chunks of
        Inl _ \<Rightarrow> (None, [ClosedLocal])
      | Inr name \<Rightarrow>
          (case fe_dialTLS env of
             None \<Rightarrow> (None, [ClosedLocal])
           | Some up \<Rightarrow> (let (up1, evs) = forwardUp env name c up in (Some up1, evs @ [ClosedProxy, ClosedLocal]))))"

section \<open>Traces\<close>

named_theorems world \<open>fields of the world after an action\<close>

lemma emit_world [world, simp]:
  "pw_trace (emit ev w) = pw_trace w @ [ev]" "pw_quota (emit ev w) = pw_quota w" "pw_preAuth (emit ev w) = pw_preAuth w"
  by (simp_all add: emit_def)

lemma deny_world [world, simp]:
  "pw_trace (deny env w) = pw_trace w @ [Denied]" "pw_quota (deny env w) = pw_quota w" "pw_preAuth (deny env w) = pw_preAuth w"
  by (simp_all add: deny_def)

lemma releaseReservation_world [world, simp]:
  "pw_trace (releaseReservation r w) = pw_trace w @ [ReleasedReservation]"
  "pw_quota (releaseReservation r w) = Release r (pw_quota w)" "pw_preAuth (releaseReservation r w) = pw_preAuth w"
  by (simp_all add: releaseReservation_def)

lemma dialLoop_world:
  assumes "dialLoop env ips w = (res, w')"
  shows "\<exists>ds. set ds \<subseteq> set ips \<and> (res \<noteq> None \<longrightarrow> ds \<noteq> []) \<and> pw_trace w' = pw_trace w @ map Dialed ds \<and>
    pw_quota w' = pw_quota w \<and> pw_preAuth w' = pw_preAuth w"
  using assms
proof (induction ips arbitrary: w)
  case (Cons ip ips)
  obtain out d where d: "pe_dial env (pw_dialer w) ip = (out, d)" by force
  show ?case
  proof (cases out)
    case None
    then have "dialLoop env ips (emit (Dialed ip) (w\<lparr>pw_dialer := d\<rparr>)) = (res, w')" using Cons.prems d by simp
    from Cons.IH [OF this] obtain ds where "set ds \<subseteq> set ips \<and> (res \<noteq> None \<longrightarrow> ds \<noteq> []) \<and>
        pw_trace w' = pw_trace w @ [Dialed ip] @ map Dialed ds \<and> pw_quota w' = pw_quota w \<and> pw_preAuth w' = pw_preAuth w"
      by auto
    then show ?thesis by (intro exI [of _ "ip # ds"]) auto
  next
    case (Some x)
    then have "res = Some x" "w' = emit (Dialed ip) (w\<lparr>pw_dialer := d\<rparr>)" using Cons.prems d by auto
    then show ?thesis by (intro exI [of _ "[ip]"]) auto
  qed
qed auto

text \<open>How far a tunnel got: nothing, the allowing status, the ClientHello sent upstream, the relay.\<close>

abbreviation tunnel :: "string \<Rightarrow> proxy_event list" where
  "tunnel hello \<equiv> [Allowed, Activated, Upstream hello, Relaying]"

lemma handleDialed_world:
  "\<exists>n hello. pw_trace (handleDialed env name rest rid out w) = pw_trace w @ take n (tunnel hello) \<and>
     (n < 2 \<or> (\<exists>rest'. readClientHello rest name = Inr (hello, rest') \<and> fst (Activate rid (pw_quota w)) = None)) \<and>
     (pw_quota (handleDialed env name rest rid out w) = pw_quota w \<or>
      pw_quota (handleDialed env name rest rid out w) = snd (Activate rid (pw_quota w))) \<and>
     pw_preAuth (handleDialed env name rest rid out w) = pw_preAuth w"
proof -
  obtain err c where st: "writeStatus (pe_write env) (pw_client w) True = (err, c)" by force
  obtain e q where ac: "Activate rid (pw_quota w) = (e, q)" by force
  show ?thesis
  proof (cases err)
    case (Some x)
    then show ?thesis by (intro exI [of _ 0]) (simp add: handleDialed_def st)
  next
    case None
    show ?thesis
    proof (cases "readClientHello rest name")
      case (Inl x)
      then show ?thesis by (intro exI [of _ 1]) (simp add: handleDialed_def st None Let_def)
    next
      case (Inr hr)
      obtain hello rest' where hr: "hr = (hello, rest')" by force
      show ?thesis
      proof (cases e)
        case (Some x)
        then show ?thesis by (intro exI [of _ 1] exI [of _ hello]) (simp add: handleDialed_def st None Let_def Inr hr ac)
      next
        case e: None
        have "pw_trace (handleDialed env name rest rid out w) =
            pw_trace w @ take (if fst (snd (pe_writeOut env out hello)) \<noteq> None then 3 else 4) (tunnel hello)"
          by (simp add: handleDialed_def st None Let_def Inr hr ac e)
        then show ?thesis
          by (intro exI [of _ "if fst (snd (pe_writeOut env out hello)) \<noteq> None then 3 else 4"] exI [of _ hello])
            (simp add: Inr hr ac e, simp add: handleDialed_def st None Let_def Inr hr ac e)
      qed
    qed
  qed
qed

lemma tunnel_no_dial [simp]: "Dialed x \<notin> set (take n (tunnel hello))"
  by (auto dest!: in_set_takeD)

text \<open>The events of a handler that got as far as resolving the name.\<close>

definition tunnelEvents :: "Authorization \<Rightarrow> string \<Rightarrow> string \<Rightarrow> proxy_event list \<Rightarrow> bool" where
  "tunnelEvents a name rest evs =
     (\<exists>ds. (\<forall>ip\<in>set ds. ValidateAddress ip (az_DeniedPrefixes a) = None) \<and>
        (evs = map Dialed ds @ [Denied] \<or>
         (\<exists>n hello. ds \<noteq> [] \<and> evs = map Dialed ds @ take n (tunnel hello) @ [ClosedUpstream] \<and>
            (n < 2 \<or> (\<exists>rest'. readClientHello rest name = Inr (hello, rest'))))))"

lemma handleReserved_world:
  "\<exists>evs. pw_trace (handleReserved env a name rest rid w) = pw_trace w @ evs \<and> tunnelEvents a name rest evs \<and>
     (pw_quota (handleReserved env a name rest rid w) = pw_quota w \<or>
      pw_quota (handleReserved env a name rest rid w) = snd (Activate rid (pw_quota w))) \<and>
     pw_preAuth (handleReserved env a name rest rid w) = pw_preAuth w"
proof -
  obtain res r where rs: "Resolve (pe_query env) (pe_newName env) name (az_DeniedPrefixes a) (pw_resolver w) = (res, r)" by force
  show ?thesis
  proof (cases res)
    case (Inl e)
    have "tunnelEvents a name rest [Denied]" unfolding tunnelEvents_def by (intro exI [of _ "[]"]) simp
    then show ?thesis by (intro exI [of _ "[Denied]"]) (simp add: handleReserved_def rs Inl)
  next
    case (Inr ips)
    obtain out w1 where dl: "dialLoop env ips (w\<lparr>pw_resolver := r\<rparr>) = (out, w1)" by force
    from dialLoop_world [OF dl] obtain ds where ds: "set ds \<subseteq> set ips" "out \<noteq> None \<longrightarrow> ds \<noteq> []"
      "pw_trace w1 = pw_trace w @ map Dialed ds" "pw_quota w1 = pw_quota w" "pw_preAuth w1 = pw_preAuth w" by auto
    have v: "\<forall>ip\<in>set ds. ValidateAddress ip (az_DeniedPrefixes a) = None"
      using Resolve_validated [OF rs [unfolded Inr]] ds(1) by blast
    show ?thesis
    proof (cases out)
      case None
      have "tunnelEvents a name rest (map Dialed ds @ [Denied])" unfolding tunnelEvents_def using v by blast
      then show ?thesis
        by (intro exI [of _ "map Dialed ds @ [Denied]"]) (simp add: handleReserved_def rs Inr dl None ds)
    next
      case (Some o')
      from handleDialed_world [of env name rest rid o' w1] obtain n hello where
        t: "pw_trace (handleDialed env name rest rid o' w1) = pw_trace w1 @ take n (tunnel hello)"
          "n < 2 \<or> (\<exists>rest'. readClientHello rest name = Inr (hello, rest'))"
          "pw_quota (handleDialed env name rest rid o' w1) = pw_quota w1 \<or>
           pw_quota (handleDialed env name rest rid o' w1) = snd (Activate rid (pw_quota w1))"
          "pw_preAuth (handleDialed env name rest rid o' w1) = pw_preAuth w1"
        by blast
      have "tunnelEvents a name rest (map Dialed ds @ take n (tunnel hello) @ [ClosedUpstream])"
        unfolding tunnelEvents_def using v ds(2) Some t(2) by blast
      then show ?thesis
        using t by (intro exI [of _ "map Dialed ds @ take n (tunnel hello) @ [ClosedUpstream]"])
          (simp add: handleReserved_def rs Inr dl Some ds)
    qed
  qed
qed

section \<open>Reservations are given back\<close>

definition sameHeld :: "QuotaManager \<Rightarrow> QuotaManager \<Rightarrow> bool" where
  "sameHeld q q' =
     ((\<forall>ex. heldBy ex reservationActive q' = heldBy ex reservationActive q \<and>
            heldBy ex reservationPending q' = heldBy ex reservationPending q) \<and>
      (\<forall>p. heldIn p q' = heldIn p q) \<and> heldAll q' = heldAll q)"

lemma sameHeld_appended:
  "qm_reservations q' = qm_reservations q @ map (\<lambda>rv. rv\<lparr>rv_state := reservationReleased\<rparr>) rvs \<Longrightarrow> sameHeld q q'"
  by (simp add: sameHeld_def heldBy_def heldIn_def heldAll_def filter_map o_def)

lemma Release_reservations:
  assumes "counted q" and "r < length (qm_reservations q)"
  shows "qm_reservations (Release r q) =
    (qm_reservations q)[r := (qm_reservations q ! r)\<lparr>rv_state := reservationReleased\<rparr>]"
proof (cases "rv_state (qm_reservations q ! r) = reservationReleased")
  case True
  then have eq: "(qm_reservations q ! r)\<lparr>rv_state := reservationReleased\<rparr> = qm_reservations q ! r" by (simp add: Reservation.equality)
  have "Release r q = q" using True by (simp add: Release_def Let_def)
  then show ?thesis unfolding eq by simp
next
  case False
  from entry_present [OF assms False] obtain e where "map_of (qm_exec q) (rv_ex (qm_reservations q ! r)) = Some e" ..
  then show ?thesis using False by (simp add: Release_def Let_def setReservation_def)
qed

lemma Activate_reservations:
  "\<exists>st. qm_reservations (snd (Activate r q)) = (qm_reservations q)[r := (qm_reservations q ! r)\<lparr>rv_state := st\<rparr>]"
proof (cases "qm_reservations (snd (Activate r q)) = qm_reservations q")
  case True
  have "(qm_reservations q)[r := (qm_reservations q ! r)\<lparr>rv_state := rv_state (qm_reservations q ! r)\<rparr>] = qm_reservations q"
    by simp
  then show ?thesis using True by metis
next
  case False
  then show ?thesis by (auto simp: Activate_def Let_def setReservation_def split: option.splits if_splits)
qed

lemma reservation_returned:
  assumes ok: "quota_ok q" and rs: "Reserve created now ex project q = (Inr r, q1)"
    and q2: "q2 = q1 \<or> q2 = snd (Activate r q1)"
  shows "quota_ok (Release r q2) \<and> sameHeld q (Release r q2)"
proof -
  have ok1: "quota_ok q1" using Reserve_ok [OF ok, of created now ex project] rs by simp
  note len = Reserve_length [OF rs]
  obtain rv where rv: "qm_reservations q1 = qm_reservations q @ [rv]" "r = length (qm_reservations q)"
    using rs by (auto simp: Reserve_def Let_def split: if_splits)
  have ok2: "quota_ok q2" using q2 ok1 Activate_ok [OF ok1 len] by auto
  obtain st where st: "qm_reservations q2 = (qm_reservations q1)[r := (qm_reservations q1 ! r)\<lparr>rv_state := st\<rparr>]"
  proof (cases "q2 = q1")
    case True
    have "(qm_reservations q1)[r := (qm_reservations q1 ! r)\<lparr>rv_state := rv_state (qm_reservations q1 ! r)\<rparr>] = qm_reservations q1"
      by simp
    then show ?thesis using that True by metis
  next
    case False
    then show ?thesis using that q2 Activate_reservations [of r q1] by blast
  qed
  then have r2: "qm_reservations q2 = qm_reservations q @ [rv\<lparr>rv_state := st\<rparr>]" using rv by simp
  then have "qm_reservations (Release r q2) = qm_reservations q @ map (\<lambda>rv. rv\<lparr>rv_state := reservationReleased\<rparr>) [rv]"
    using Release_reservations [of q2 r] ok2 rv(2) by (simp add: quota_ok_def)
  then have "sameHeld q (Release r q2)" by (rule sameHeld_appended)
  then show ?thesis using Release_ok [OF ok2, of r] r2 rv(2) by simp
qed

section \<open>The whole handler\<close>

lemma handleAuthorized_world:
  "\<exists>evs. pw_trace (handleAuthorized env a name rest w) = pw_trace w @ evs \<and>
     (evs = [Denied] \<or> (\<exists>es. evs = es @ [ReleasedReservation] \<and> tunnelEvents a name rest es)) \<and>
     (quota_ok (pw_quota w) \<longrightarrow>
        quota_ok (pw_quota (handleAuthorized env a name rest w)) \<and>
        sameHeld (pw_quota w) (pw_quota (handleAuthorized env a name rest w))) \<and>
     pw_preAuth (handleAuthorized env a name rest w) = pw_preAuth w"
proof -
  obtain res q where rs: "Reserve (pe_created env) (pe_now env) (az_ExecutionKey a) (az_ProjectKey a) (pw_quota w) = (res, q)" by force
  show ?thesis
  proof (cases res)
    case (Inl e)
    then have "qm_reservations q = qm_reservations (pw_quota w)"
      using rs by (auto simp: Reserve_def Let_def split: if_splits)
    then have "sameHeld (pw_quota w) q" using sameHeld_appended [of q "pw_quota w" "[]"] by simp
    moreover have "quota_ok (pw_quota w) \<Longrightarrow> quota_ok q" using Reserve_ok rs by (metis snd_conv)
    ultimately show ?thesis by (intro exI [of _ "[Denied]"]) (simp add: handleAuthorized_def rs Inl)
  next
    case (Inr r)
    let ?w = "handleReserved env a name rest r (w\<lparr>pw_quota := q\<rparr>)"
    from handleReserved_world [of env a name rest r "w\<lparr>pw_quota := q\<rparr>"] obtain es where
      es: "pw_trace ?w = pw_trace w @ es" "tunnelEvents a name rest es" and qs: "pw_quota ?w = q \<or> pw_quota ?w = snd (Activate r q)"
      and pa: "pw_preAuth ?w = pw_preAuth w"
      by auto
    have "quota_ok (pw_quota w) \<Longrightarrow> quota_ok (Release r (pw_quota ?w)) \<and> sameHeld (pw_quota w) (Release r (pw_quota ?w))"
      by (rule reservation_returned [OF _ rs [unfolded Inr] qs])
    then show ?thesis
      using es pa by (intro exI [of _ "es @ [ReleasedReservation]"]) (simp add: handleAuthorized_def rs Inr)
  qed
qed

lemma sameHeld_refl [simp]: "sameHeld q q"
  by (simp add: sameHeld_def)

text \<open>The trace of one served connection: \<open>admitted\<close> says that the authoriser accepted the request.\<close>

definition admitted ::
  "('c, 'o, 'r, 'n, 'e, 'd) proxyEnv \<Rightarrow> string option \<Rightarrow> string \<Rightarrow> Authorization \<Rightarrow> string \<Rightarrow> string \<Rightarrow> bool" where
  "admitted env ident input a name rest =
     (\<exists>fp. ident = Some fp \<and> readRequest input = Inr (name, rest) \<and> pe_authorize env fp name = Inr a \<and>
        validateCurrentAuthorization a = None)"

text \<open>What the authoriser returned, when it was asked and did not fail.\<close>

definition granted :: "('c, 'o, 'r, 'n, 'e, 'd) proxyEnv \<Rightarrow> string option \<Rightarrow> string \<Rightarrow> Authorization option" where
  "granted env ident input =
     (case ident of
        None \<Rightarrow> None
      | Some fp \<Rightarrow>
          (case readRequest input of
             Inl _ \<Rightarrow> None
           | Inr (name, rest) \<Rightarrow> (case pe_authorize env fp name of Inl _ \<Rightarrow> None | Inr a \<Rightarrow> Some a)))"

definition servedEvents ::
  "('c, 'o, 'r, 'n, 'e, 'd) proxyEnv \<Rightarrow> string option \<Rightarrow> string \<Rightarrow> proxy_event list \<Rightarrow> bool" where
  "servedEvents env ident input evs =
     (granted env ident input = None \<and> evs = [ClosedClient, FreedPreAuth] \<or>
      (\<exists>name rest. readRequest input = Inr (name, rest) \<and> granted env ident input = None \<and> evs = [Authorizing name, FreedPreAuth, Denied, ClosedClient]) \<or>
      (\<exists>name rest a. readRequest input = Inr (name, rest) \<and> granted env ident input = Some a \<and> validateCurrentAuthorization a \<noteq> None \<and>
         evs = [Authorizing name, FreedPreAuth] @ (if az_ReleaseCurrentness a then [ReleasedCurrentness] else []) @ [Denied, ClosedClient]) \<or>
      (\<exists>name a rest. admitted env ident input a name rest \<and>
         evs = [Authorizing name, FreedPreAuth, Denied, ReleasedCurrentness, ClosedClient]) \<or>
      (\<exists>name a rest es. admitted env ident input a name rest \<and> tunnelEvents a name rest es \<and>
         evs = [Authorizing name, FreedPreAuth] @ es @ [ReleasedReservation, ReleasedCurrentness, ClosedClient]))"

lemma releasePreAuth_world:
  "pw_preAuth w \<Longrightarrow> pw_trace (releasePreAuth w) = pw_trace w @ [FreedPreAuth]"
  "\<not> pw_preAuth w \<Longrightarrow> releasePreAuth w = w" "pw_quota (releasePreAuth w) = pw_quota w" "\<not> pw_preAuth (releasePreAuth w)"
  by (simp_all add: releasePreAuth_def)

lemma readRequest_canonical: "readRequest input = Inr (name, rest) \<Longrightarrow> canonicalTarget (name @ '':443'') = Inr name"
  by (simp add: readRequest_iff canonicalTarget_iff)

lemma serveConn_world:
  "\<exists>evs. pw_trace (serveConn env ident input w) = pw_trace w @ evs \<and> servedEvents env ident input evs \<and>
     (quota_ok (pw_quota w) \<longrightarrow>
        quota_ok (pw_quota (serveConn env ident input w)) \<and> sameHeld (pw_quota w) (pw_quota (serveConn env ident input w)))"
proof (cases "ident = None \<or> (\<exists>e. readRequest input = Inl e)")
  case True
  then have "handleConn env ident input (w\<lparr>pw_preAuth := True\<rparr>) = w\<lparr>pw_preAuth := True\<rparr>"
    by (auto simp: handleConn_def split: option.split)
  then show ?thesis
    using True by (intro exI [of _ "[ClosedClient, FreedPreAuth]"])
      (auto simp: serveConn_def handleWithPreAuth_def releasePreAuth_world servedEvents_def granted_def split: option.split)
next
  case False
  then obtain fp name rest where fp: "ident = Some fp" and rq: "readRequest input = Inr (name, rest)"
    by (cases "readRequest input") auto
  define w1 where "w1 = releasePreAuth (emit (Authorizing name) (w\<lparr>pw_preAuth := True\<rparr>))"
  have w1: "pw_trace w1 = pw_trace w @ [Authorizing name, FreedPreAuth]" "pw_quota w1 = pw_quota w" "\<not> pw_preAuth w1"
    by (simp_all add: w1_def releasePreAuth_world)
  have conn: "handleConn env ident input (w\<lparr>pw_preAuth := True\<rparr>) =
      (case pe_authorize env fp name of
         Inl _ \<Rightarrow> deny env w1
       | Inr a \<Rightarrow>
           if validateCurrentAuthorization a \<noteq> None
           then deny env (if az_ReleaseCurrentness a then emit ReleasedCurrentness w1 else w1)
           else emit ReleasedCurrentness (handleAuthorized env a name rest w1))"
    unfolding w1_def by (simp add: handleConn_def fp rq readRequest_canonical [OF rq] Let_def)
  show ?thesis
  proof (cases "pe_authorize env fp name")
    case (Inl e)
    then have "granted env ident input = None" by (simp add: granted_def fp rq)
    then show ?thesis
      using w1 Inl by (intro exI [of _ "[Authorizing name, FreedPreAuth, Denied, ClosedClient]"])
        (simp add: serveConn_def handleWithPreAuth_def conn releasePreAuth_world servedEvents_def rq)
  next
    case (Inr a)
    show ?thesis
    proof (cases "validateCurrentAuthorization a = None")
      case False
      let ?evs = "[Authorizing name, FreedPreAuth] @ (if az_ReleaseCurrentness a then [ReleasedCurrentness] else []) @ [Denied, ClosedClient]"
      have "granted env ident input = Some a" by (simp add: granted_def fp rq Inr)
      then have "servedEvents env ident input ?evs" using False rq unfolding servedEvents_def by blast
      then show ?thesis
        using w1 False by (intro exI [of _ ?evs])
          (simp add: serveConn_def handleWithPreAuth_def conn Inr releasePreAuth_world)
    next
      case True
      then have ad: "admitted env ident input a name rest" using fp rq Inr by (simp add: admitted_def)
      from handleAuthorized_world [of env a name rest w1] obtain evs where
        t: "pw_trace (handleAuthorized env a name rest w1) = pw_trace w1 @ evs"
          "evs = [Denied] \<or> (\<exists>es. evs = es @ [ReleasedReservation] \<and> tunnelEvents a name rest es)"
          "quota_ok (pw_quota w1) \<longrightarrow> quota_ok (pw_quota (handleAuthorized env a name rest w1)) \<and>
             sameHeld (pw_quota w1) (pw_quota (handleAuthorized env a name rest w1))"
          "pw_preAuth (handleAuthorized env a name rest w1) = pw_preAuth w1"
        by blast
      have "servedEvents env ident input ([Authorizing name, FreedPreAuth] @ evs @ [ReleasedCurrentness, ClosedClient])"
        using t(2) ad unfolding servedEvents_def by fastforce
      then show ?thesis
        using t w1 True by (intro exI [of _ "[Authorizing name, FreedPreAuth] @ evs @ [ReleasedCurrentness, ClosedClient]"])
          (simp add: serveConn_def handleWithPreAuth_def conn Inr releasePreAuth_world)
    qed
  qed
qed

lemma tunnelEvents_no_name: "tunnelEvents a name rest es \<Longrightarrow> Authorizing n \<notin> set es"
  by (auto simp: tunnelEvents_def dest!: in_set_takeD)

lemma servedEvents_name:
  assumes "servedEvents env ident input evs" and "Authorizing n \<in> set evs" and "readRequest input = Inr (name, rest)"
  shows "n = name"
  using assms tunnelEvents_no_name unfolding servedEvents_def admitted_def by (auto split: if_splits)

lemma readStatus_ok:
  assumes "is_ok (readStatus r)"
  shows "\<exists>tail. r = protocolMagic @ [char_of (1::nat), char_of (0::nat)] @ tail"
proof -
  from assms obtain b r1 where b: "r = b @ r1" "length b = 6" and h: "take 4 b = protocolMagic" "code (b ! 4) = 1" "code (b ! 5) = 0"
    by (auto simp: is_ok_iff readStatus_def bind_result_Inr readFull_Inr split: if_splits)
  have "b = take 4 b @ [b ! 4, b ! 5]"
    using b(2) by (simp add: list_eq_iff_nth_eq nth_append nth_Cons' less_Suc_eq numeral_eq_Suc)
  moreover have "b ! 4 = char_of (1::nat)" "b ! 5 = char_of (0::nat)" using h by (metis char_of_code)+
  ultimately have "r = protocolMagic @ [char_of (1::nat), char_of (0::nat)] @ r1" using b(1) h(1) by simp
  then show ?thesis ..
qed

section \<open>Properties\<close>


definition exampleAuthorization :: Authorization where
  "exampleAuthorization =
     \<lparr>az_ExecutionKey = ''e'', az_ProjectKey = ''p'', az_DeniedPrefixes = [], az_Currentness = Some False, az_ReleaseCurrentness = True\<rparr>"

definition exampleEnv :: "(string, string, unit, string, unit, unit) proxyEnv" where
  "exampleEnv =
     \<lparr>pe_write = bufferWrite, pe_authorize = (\<lambda>fp name. Inr exampleAuthorization),
      pe_query = (\<lambda>u dn ty. (Inr (if ty = TypeA then [\<lparr>rr_Name = ''a.dev.'', rr_Body = AResource (ip4 8 8 8 8)\<rparr>] else []), u)),
      pe_newName = Inr, pe_dial = (\<lambda>d ip. (Some [], d)), pe_writeOut = bufferWrite, pe_created = 0, pe_now = 0\<rparr>"

definition exampleWorld :: "(string, unit, unit) proxyWorld" where
  "exampleWorld =
     \<lparr>pw_client = [], pw_resolver = (), pw_dialer = (), pw_quota = NewQuotaManager, pw_preAuth = False, pw_trace = []\<rparr>"

definition exampleInput :: string where
  "exampleInput = requestHeader 5 @ ''a.dev'' @ helloExample"

definition exampleQuota :: QuotaManager where
  "exampleQuota = snd (Reserve 0 0 ''e'' ''p'' NewQuotaManager)"

lemma example_stages:
  "readRequest exampleInput = Inr (''a.dev'', helloExample)"
  "canonicalTarget (''a.dev'' @ '':443'') = Inr ''a.dev''"
  "readClientHello helloExample ''a.dev'' = Inr (helloExample, [])"
  "Resolve (pe_query exampleEnv) (pe_newName exampleEnv) ''a.dev'' [] () = (Inr [V4 (ip4 8 8 8 8)], ())"
  "Reserve 0 0 ''e'' ''p'' NewQuotaManager = (Inr 0, exampleQuota)"
  "fst (Activate 0 exampleQuota) = None"
  "writeStatus bufferWrite [] True = (None, protocolMagic @ [char_of (1::nat), char_of (0::nat)])"
  by code_simp+

lemma example_trace:
  "pw_trace (serveConn exampleEnv (Some ''f'') exampleInput exampleWorld) =
     pw_trace exampleWorld @
       ([Authorizing ''a.dev'', FreedPreAuth, Dialed (V4 (ip4 8 8 8 8)), Allowed, Activated] @
        Upstream helloExample # [Relaying, ClosedUpstream, ReleasedReservation, ReleasedCurrentness, ClosedClient])"
proof -
  have env: "pe_authorize exampleEnv fp name = Inr exampleAuthorization" "pe_dial exampleEnv d ip = (Some [], d)"
    "pe_created exampleEnv = 0" "pe_now exampleEnv = 0" "pe_write exampleEnv = bufferWrite" "pe_writeOut exampleEnv = bufferWrite" for fp name d ip
    by (simp_all add: exampleEnv_def)
  have az: "validateCurrentAuthorization exampleAuthorization = None" "az_ExecutionKey exampleAuthorization = ''e''"
    "az_ProjectKey exampleAuthorization = ''p''" "az_DeniedPrefixes exampleAuthorization = []"
    by (simp_all add: exampleAuthorization_def validateCurrentAuthorization_def)
  obtain q where q: "Activate 0 exampleQuota = (None, q)" using example_stages(6) by (metis prod.collapse)
  have can: "canonicalTarget (''a.dev:443'') = Inr ''a.dev''" using example_stages(2) by simp
  have res: "Resolve (pe_query exampleEnv) (pe_newName exampleEnv) ''a.dev'' [] u = (Inr [V4 (ip4 8 8 8 8)], ())" for u
    using example_stages(4) by simp
  have bw: "bufferWrite x y = (length y, None, x @ y)" for x y by (simp add: bufferWrite_def)
  show ?thesis
    unfolding serveConn_def handleWithPreAuth_def handleConn_def handleAuthorized_def handleReserved_def handleDialed_def
      exampleWorld_def releasePreAuth_def
    by (simp add: example_stages(1,3,5,7) can res env az q bw Let_def emit_def releaseReservation_def)
qed




text \<open>From the client's CONNECT to the proxy's authorisation, one name: when the forwarder has confirmed a tunnel,
  the request it sent is read by the proxy as exactly the name the client asked for, whatever follows it on the
  connection, the proxy consults the authoriser for no other name, and the status the forwarder read is the allowing one.\<close>

theorem forwarded_name_is_authorized:
  assumes wr: "writer_ok (fe_writeUp fenv) sent" and up: "fe_dialTLS fenv = Some up"
    and fw: "forwardHandle fenv chunks c = (Some up', fevs)" and est: "Established \<in> set fevs"
  shows "\<exists>name bytes tail. parseCONNECT chunks = Inr name \<and> is_ok (ParseHostname name) \<and> sent up' = sent up @ bytes \<and>
     readRequest (bytes @ rest) = Inr (name, rest) \<and>
     fe_readUp fenv up' = protocolMagic @ [char_of (1::nat), char_of (0::nat)] @ tail \<and>
     (pw_trace (serveConn env ident (bytes @ rest) w) = pw_trace w @ evs \<longrightarrow> (\<forall>n. Authorizing n \<in> set evs \<longrightarrow> n = name))"
proof -
  obtain name where n: "parseCONNECT chunks = Inr name" using fw by (cases "parseCONNECT chunks") (auto simp: forwardHandle_def)
  obtain e u1 where w: "writeRequest (fe_writeUp fenv) up name = (e, u1)" by force
  have ok: "e = None" "u1 = up'" "is_ok (readStatus (fe_readUp fenv up'))"
    using fw est n up w unfolding forwardHandle_def forwardUp_def
    by (auto simp: is_ok_iff split: option.splits sum.splits if_splits)
  have bytes: "is_ok (ParseHostname name)" "sent up' = sent up @ requestHeader (length name) @ name"
    using writeRequest_sound [OF wr w [unfolded ok(1)]] ok(2) by auto
  have rr: "readRequest ((requestHeader (length name) @ name) @ rest) = Inr (name, rest)"
    using bytes(1) by (simp add: readRequest_iff)
  have auth: "n = name" if "pw_trace (serveConn env ident ((requestHeader (length name) @ name) @ rest) w) = pw_trace w @ evs"
    "Authorizing n \<in> set evs" for n
  proof -
    have "servedEvents env ident ((requestHeader (length name) @ name) @ rest) evs"
      using serveConn_world [of env ident "(requestHeader (length name) @ name) @ rest" w] that(1) by auto
    then show ?thesis using that(2) rr by (rule servedEvents_name)
  qed
  obtain tail where "fe_readUp fenv up' = protocolMagic @ [char_of (1::nat), char_of (0::nat)] @ tail"
    using ok(3) readStatus_ok by blast
  then show ?thesis using n bytes rr auth by blast
qed

definition exampleForward :: "(string, string) forwardEnv" where
  "exampleForward =
     \<lparr>fe_dialTLS = Some [], fe_writeUp = bufferWrite,
      fe_readUp = (\<lambda>u. protocolMagic @ [char_of (1::nat), char_of (0::nat)]), fe_writeClient = bufferWrite\<rparr>"

theorem forwarded_name_is_authorized_witness:
  "\<exists>name bytes. parseCONNECT connectExample = Inr name \<and>
     snd (writeRequest bufferWrite [] ''api.github.com'') = bytes \<and> readRequest (bytes @ ''x'') = Inr (name, ''x'')"
proof -
  let ?up = "snd (writeRequest bufferWrite [] ''api.github.com'')"
  have wr: "writer_ok (fe_writeUp exampleForward) id" by (simp add: writer_ok_def exampleForward_def bufferWrite_def)
  have up: "fe_dialTLS exampleForward = Some []" by (simp add: exampleForward_def)
  have fw: "forwardHandle exampleForward connectExample [] =
      (Some ?up, [Requesting ''api.github.com'', Established, ForwardRelaying, ClosedProxy, ClosedLocal])"
    by code_simp
  from forwarded_name_is_authorized [OF wr up fw, of "''x''" exampleEnv None exampleWorld "[]"] show ?thesis
    by auto
qed

end
