(* ===== verification/Environment_Provisioning.thy ===== *)
theory Environment_Provisioning
  imports Api_Types
begin

text \<open>
  Provisioning snapshots (\<open>src/api/v1alpha1/environment_provisioning.go\<close>): what an Environment is
  provisioned from is resolved from its EnvironmentTemplate and Project once, recorded, and validated
  before it is used.

  \<open>resource.Quantity\<close> and \<open>equality.Semantic\<close> are library code: \<open>quantities\<close> holds the sign
  of a quantity, \<open>resource.MustParse\<close> of the literals in the source, and the semantic comparison
  of snapshots.
\<close>

record 'q quantities =
  qo_Sign :: "'q \<Rightarrow> int"
  qo_MustParse :: "string \<Rightarrow> 'q"
  qo_SemanticEqual :: "'q EnvironmentProvisioningSnapshot \<Rightarrow> 'q EnvironmentProvisioningSnapshot \<Rightarrow> bool"

section \<open>Sizes and resources\<close>

definition environmentSizeResources :: "'q quantities \<Rightarrow> (string \<times> (string \<times> 'q) list) list" where
  "environmentSizeResources qo =
     [(''tiny'', [(''cpu'', qo_MustParse qo ''1''), (''memory'', qo_MustParse qo ''2Gi'')]),
      (''small'', [(''cpu'', qo_MustParse qo ''2''), (''memory'', qo_MustParse qo ''4Gi'')]),
      (''medium'', [(''cpu'', qo_MustParse qo ''8''), (''memory'', qo_MustParse qo ''16Gi'')]),
      (''large'', [(''cpu'', qo_MustParse qo ''16''), (''memory'', qo_MustParse qo ''32Gi'')])]"

definition validProvisioningBackend :: "EnvironmentBackend \<Rightarrow> bool" where
  "validProvisioningBackend backend \<longleftrightarrow>
     backend = EnvironmentBackendPod \<or> backend = EnvironmentBackendKubeVirt
     \<or> backend = EnvironmentBackendExternalRunner"

definition validProvisioningSize :: "'q quantities \<Rightarrow> string \<Rightarrow> bool" where
  "validProvisioningSize qo sz \<longleftrightarrow> map_of (environmentSizeResources qo) sz \<noteq> None"

text \<open>A resource map is an association list with one entry per name; \<open>len\<close> counts its entries.\<close>

definition validProvisioningResources :: "'q quantities \<Rightarrow> (string \<times> 'q) list \<Rightarrow> bool" where
  "validProvisioningResources qo resources =
     (if length resources \<noteq> 2 then False
      else case (map_of resources ''cpu'', map_of resources ''memory'') of
             (Some cpu, Some memory) \<Rightarrow> 0 < qo_Sign qo cpu \<and> 0 < qo_Sign qo memory
           | _ \<Rightarrow> False)"

definition provisioningResources :: "(string \<times> 'q) list \<Rightarrow> (string \<times> 'q) list" where
  "provisioningResources resources = map (\<lambda>(name, quantity). (name, quantity)) resources"

section \<open>Resolution\<close>

definition ResolveEnvironmentProvisioning ::
  "'q quantities \<Rightarrow> 'q Environment \<Rightarrow> 'q EnvironmentTemplate \<Rightarrow> Project option
     \<Rightarrow> 'q EnvironmentProvisioningSnapshot" where
  "ResolveEnvironmentProvisioning qo e tmpl project =
     (let backend = EffectiveEnvironmentBackend e tmpl;
          sz = (if map_of (environmentSizeResources qo) (ts_Size (et_Spec tmpl)) = None
                then ''medium'' else ts_Size (et_Spec tmpl));
          disk = (case ts_DiskSize (et_Spec tmpl) of None \<Rightarrow> qo_MustParse qo ''40Gi'' | Some d \<Rightarrow> d)
      in \<lparr>ps_Template = \<lparr>pt_Name = om_Name (et_Meta tmpl), pt_UID = om_UID (et_Meta tmpl),
                         pt_Generation = om_Generation (et_Meta tmpl)\<rparr>,
          ps_Backend = backend, ps_Image = ts_Image (et_Spec tmpl), ps_Size = sz,
          ps_Resources = provisioningResources (the (map_of (environmentSizeResources qo) sz)),
          ps_RuntimeClassName = ts_RuntimeClass (et_Spec tmpl), ps_DiskSize = disk,
          ps_LegacyWorkspacePVCUID = [],
          ps_Project =
            (case project of
               None \<Rightarrow> None
             | Some p \<Rightarrow>
                 (case pj_Repositories (pj_Spec p) of
                    [r] \<Rightarrow> Some \<lparr>pp_Name = om_Name (pj_Meta p), pp_UID = om_UID (pj_Meta p),
                                pp_Generation = om_Generation (pj_Meta p), pp_Repository = r\<rparr>
                  | _ \<Rightarrow> None)),
          ps_TemplateVerified = False, ps_ProjectVerified = False\<rparr>)"

section \<open>Validation\<close>

datatype snapshot_error =
  SnapshotMissing
| InvalidTemplateSource
| IncompleteInputs
| InvalidProjectSource
| UnexpectedProject
| VerificationWithoutProject
| TemplateUnverified
| MissingProject string
| ProjectUnverified

definition ValidateEnvironmentProvisioningTemplateSnapshot ::
  "'q quantities \<Rightarrow> 'q Environment \<Rightarrow> 'q EnvironmentProvisioningSnapshot option \<Rightarrow> snapshot_error option" where
  "ValidateEnvironmentProvisioningTemplateSnapshot qo e s =
     (case s of
        None \<Rightarrow> Some SnapshotMissing
      | Some p \<Rightarrow>
          let t = ps_Template p; sp = en_Spec e in
          if TrimSpace (pt_Name t) = [] \<or> pt_Name t \<noteq> sp_TemplateRef sp \<or> pt_UID t = []
             \<or> pt_Generation t < 1
          then Some InvalidTemplateSource
          else if \<not> validProvisioningBackend (ps_Backend p)
             \<or> sp_Backend sp \<noteq> [] \<and> ps_Backend p \<noteq> sp_Backend sp
             \<or> TrimSpace (ps_Image p) = [] \<or> \<not> validProvisioningSize qo (ps_Size p)
             \<or> qo_Sign qo (ps_DiskSize p) \<le> 0 \<or> \<not> validProvisioningResources qo (ps_Resources p)
          then Some IncompleteInputs
          else (case ps_Project p of
                  Some j \<Rightarrow>
                    if pp_Name j = [] \<or> pp_UID j = [] \<or> pp_Generation j < 1
                       \<or> TrimSpace (pp_Repository j) = []
                    then Some InvalidProjectSource
                    else if sp_ProjectUID sp \<noteq> []
                       \<and> (pp_Name j \<noteq> sp_ProjectRef sp \<or> pp_UID j \<noteq> sp_ProjectUID sp)
                    then Some UnexpectedProject
                    else None
                | None \<Rightarrow> if ps_ProjectVerified p then Some VerificationWithoutProject else None))"

definition ValidateEnvironmentProvisioningSnapshot ::
  "'q quantities \<Rightarrow> 'q Environment \<Rightarrow> 'q EnvironmentProvisioningSnapshot option \<Rightarrow> snapshot_error option" where
  "ValidateEnvironmentProvisioningSnapshot qo e s =
     (case ValidateEnvironmentProvisioningTemplateSnapshot qo e s of
        Some err \<Rightarrow> Some err
      | None \<Rightarrow>
          let p = the s; sp = en_Spec e in
          if \<not> ps_TemplateVerified p then Some TemplateUnverified
          else (case ps_Project p of
                  None \<Rightarrow> if sp_ProjectRef sp \<noteq> [] then Some (MissingProject (sp_ProjectRef sp)) else None
                | Some j \<Rightarrow>
                    if sp_ProjectRef sp = [] \<or> pp_Name j \<noteq> sp_ProjectRef sp \<or> pp_UID j = []
                       \<or> pp_Generation j < 1 \<or> TrimSpace (pp_Repository j) = []
                    then Some InvalidProjectSource
                    else if \<not> ps_ProjectVerified p then Some ProjectUnverified
                    else None))"

section \<open>Comparison\<close>

definition ProvisioningSnapshotsEqualIgnoringVerification ::
  "'q quantities \<Rightarrow> 'q EnvironmentProvisioningSnapshot option \<Rightarrow> 'q EnvironmentProvisioningSnapshot option
     \<Rightarrow> bool" where
  "ProvisioningSnapshotsEqualIgnoringVerification qo a b =
     (case (a, b) of
        (Some x, Some y) \<Rightarrow>
          qo_SemanticEqual qo (x\<lparr>ps_TemplateVerified := False, ps_ProjectVerified := False\<rparr>)
                              (y\<lparr>ps_TemplateVerified := False, ps_ProjectVerified := False\<rparr>)
      | _ \<Rightarrow> a = None \<and> b = None)"

definition ProvisioningSnapshotCurrentTemplate ::
  "'q quantities \<Rightarrow> 'q EnvironmentProvisioningSnapshot option \<Rightarrow> 'q EnvironmentTemplate \<Rightarrow> bool" where
  "ProvisioningSnapshotCurrentTemplate qo s tmpl =
     (case s of
        None \<Rightarrow> False
      | Some p \<Rightarrow>
          if \<not> ps_TemplateVerified p \<or> ps_Project p \<noteq> None
             \<or> pt_Name (ps_Template p) \<noteq> om_Name (et_Meta tmpl) \<or> pt_UID (ps_Template p) \<noteq> om_UID (et_Meta tmpl)
          then False
          else let e = zero_environment\<lparr>en_Spec := zero_spec\<lparr>sp_TemplateRef := om_Name (et_Meta tmpl),
                                                             sp_Backend := ps_Backend p\<rparr>\<rparr>
               in if ValidateEnvironmentProvisioningTemplateSnapshot qo e s \<noteq> None then False
                  else let projection = ResolveEnvironmentProvisioning qo e tmpl None
                       in ProvisioningSnapshotsEqualIgnoringVerification qo s
                            (Some (projection\<lparr>ps_Template := (ps_Template projection)
                               \<lparr>pt_Generation := pt_Generation (ps_Template p)\<rparr>\<rparr>)))"

section \<open>What a valid snapshot gives\<close>

text \<open>A verified snapshot with a Project names exactly the Project of the Environment's intent.\<close>

lemma valid_snapshot_project:
  assumes "ValidateEnvironmentProvisioningSnapshot qo e (Some p) = None" "ps_Project p = Some j"
  shows "pp_Name j = sp_ProjectRef (en_Spec e) \<and> pp_UID j \<noteq> [] \<and> ps_TemplateVerified p \<and> ps_ProjectVerified p
     \<and> (sp_ProjectUID (en_Spec e) \<noteq> [] \<longrightarrow> pp_UID j = sp_ProjectUID (en_Spec e))"
  using assms
  by (auto simp: ValidateEnvironmentProvisioningSnapshot_def
      ValidateEnvironmentProvisioningTemplateSnapshot_def Let_def split: option.splits if_splits)

lemma valid_snapshot_template:
  assumes "ValidateEnvironmentProvisioningSnapshot qo e s = None"
  shows "\<exists>p. s = Some p \<and> pt_Name (ps_Template p) = sp_TemplateRef (en_Spec e) \<and> ps_TemplateVerified p
     \<and> validProvisioningBackend (ps_Backend p) \<and> validProvisioningResources qo (ps_Resources p)"
  using assms
  by (auto simp: ValidateEnvironmentProvisioningSnapshot_def
      ValidateEnvironmentProvisioningTemplateSnapshot_def Let_def split: option.splits if_splits)

section \<open>Well-formedness of resolved snapshots\<close>

text \<open>What the code relies on of the quantities: its literals are positive, and a snapshot equals itself.\<close>

definition positiveLiterals :: "'q quantities \<Rightarrow> bool" where
  "positiveLiterals qo \<longleftrightarrow>
     (\<forall>l \<in> set [''1'', ''2'', ''8'', ''16'', ''2Gi'', ''4Gi'', ''16Gi'', ''32Gi'', ''40Gi''].
        0 < qo_Sign qo (qo_MustParse qo l))"

definition reflexiveEquality :: "'q quantities \<Rightarrow> bool" where
  "reflexiveEquality qo \<longleftrightarrow> (\<forall>s. qo_SemanticEqual qo s s)"

text \<open>The inputs a snapshot can be captured from.\<close>

definition capturable :: "'q quantities \<Rightarrow> 'q Environment \<Rightarrow> 'q EnvironmentTemplate \<Rightarrow> Project option \<Rightarrow> bool" where
  "capturable qo e tmpl project \<longleftrightarrow>
     TrimSpace (om_Name (et_Meta tmpl)) \<noteq> [] \<and> om_Name (et_Meta tmpl) = sp_TemplateRef (en_Spec e)
     \<and> om_UID (et_Meta tmpl) \<noteq> [] \<and> 1 \<le> om_Generation (et_Meta tmpl)
     \<and> validProvisioningBackend (EffectiveEnvironmentBackend e tmpl) \<and> TrimSpace (ts_Image (et_Spec tmpl)) \<noteq> []
     \<and> (case ts_DiskSize (et_Spec tmpl) of None \<Rightarrow> True | Some d \<Rightarrow> 0 < qo_Sign qo d)
     \<and> (case project of
          None \<Rightarrow> True
        | Some p \<Rightarrow>
            case pj_Repositories (pj_Spec p) of
              [r] \<Rightarrow> om_Name (pj_Meta p) \<noteq> [] \<and> om_UID (pj_Meta p) \<noteq> [] \<and> 1 \<le> om_Generation (pj_Meta p) \<and> TrimSpace r \<noteq> []
                \<and> (sp_ProjectUID (en_Spec e) \<noteq> [] \<longrightarrow>
                     om_Name (pj_Meta p) = sp_ProjectRef (en_Spec e) \<and> om_UID (pj_Meta p) = sp_ProjectUID (en_Spec e))
            | _ \<Rightarrow> True)"

lemma resolved_size:
  assumes "positiveLiterals qo"
  shows "validProvisioningSize qo (ps_Size (ResolveEnvironmentProvisioning qo e tmpl project))"
    and "validProvisioningResources qo (ps_Resources (ResolveEnvironmentProvisioning qo e tmpl project))"
  using assms
  by (simp_all add: ResolveEnvironmentProvisioning_def Let_def validProvisioningSize_def validProvisioningResources_def
      environmentSizeResources_def provisioningResources_def positiveLiterals_def)

lemma resolved_disk:
  assumes "positiveLiterals qo"
  shows "0 < qo_Sign qo (ps_DiskSize (ResolveEnvironmentProvisioning qo e tmpl project)) \<longleftrightarrow>
    (case ts_DiskSize (et_Spec tmpl) of None \<Rightarrow> True | Some d \<Rightarrow> 0 < qo_Sign qo d)"
  using assms by (simp add: ResolveEnvironmentProvisioning_def Let_def positiveLiterals_def split: option.splits)

lemma resolved_fields [simp]:
  "ps_Template (ResolveEnvironmentProvisioning qo e tmpl project) =
     \<lparr>pt_Name = om_Name (et_Meta tmpl), pt_UID = om_UID (et_Meta tmpl), pt_Generation = om_Generation (et_Meta tmpl)\<rparr>"
  "ps_Backend (ResolveEnvironmentProvisioning qo e tmpl project) = EffectiveEnvironmentBackend e tmpl"
  "ps_Image (ResolveEnvironmentProvisioning qo e tmpl project) = ts_Image (et_Spec tmpl)"
  "ps_Project (ResolveEnvironmentProvisioning qo e tmpl project) =
     (case project of
        None \<Rightarrow> None
      | Some p \<Rightarrow>
          (case pj_Repositories (pj_Spec p) of
             [r] \<Rightarrow> Some \<lparr>pp_Name = om_Name (pj_Meta p), pp_UID = om_UID (pj_Meta p),
                         pp_Generation = om_Generation (pj_Meta p), pp_Repository = r\<rparr>
           | _ \<Rightarrow> None))"
  "\<not> ps_ProjectVerified (ResolveEnvironmentProvisioning qo e tmpl project)"
  "\<not> ps_TemplateVerified (ResolveEnvironmentProvisioning qo e tmpl project)"
  by (simp_all add: ResolveEnvironmentProvisioning_def Let_def)

lemma template_snapshot_valid_iff:
  "ValidateEnvironmentProvisioningTemplateSnapshot qo e (Some p) = None \<longleftrightarrow>
     TrimSpace (pt_Name (ps_Template p)) \<noteq> [] \<and> pt_Name (ps_Template p) = sp_TemplateRef (en_Spec e)
     \<and> pt_UID (ps_Template p) \<noteq> [] \<and> 1 \<le> pt_Generation (ps_Template p)
     \<and> validProvisioningBackend (ps_Backend p) \<and> (sp_Backend (en_Spec e) \<noteq> [] \<longrightarrow> ps_Backend p = sp_Backend (en_Spec e))
     \<and> TrimSpace (ps_Image p) \<noteq> [] \<and> validProvisioningSize qo (ps_Size p) \<and> 0 < qo_Sign qo (ps_DiskSize p)
     \<and> validProvisioningResources qo (ps_Resources p)
     \<and> (case ps_Project p of
          None \<Rightarrow> \<not> ps_ProjectVerified p
        | Some j \<Rightarrow> pp_Name j \<noteq> [] \<and> pp_UID j \<noteq> [] \<and> 1 \<le> pp_Generation j \<and> TrimSpace (pp_Repository j) \<noteq> []
            \<and> (sp_ProjectUID (en_Spec e) \<noteq> [] \<longrightarrow> pp_Name j = sp_ProjectRef (en_Spec e) \<and> pp_UID j = sp_ProjectUID (en_Spec e)))"
  by (auto simp: ValidateEnvironmentProvisioningTemplateSnapshot_def Let_def split: option.splits)

lemma resolved_valid_iff:
  assumes "positiveLiterals qo"
  shows "ValidateEnvironmentProvisioningTemplateSnapshot qo e (Some (ResolveEnvironmentProvisioning qo e tmpl project)) = None
    \<longleftrightarrow> capturable qo e tmpl project"
  unfolding template_snapshot_valid_iff capturable_def resolved_disk [OF assms]
  using resolved_size [OF assms]
  by (auto simp: EffectiveEnvironmentBackend_def split: option.splits list.splits)

text \<open>A verified snapshot is current for its Template whatever the Template's generation became: only the
  resolved inputs count.\<close>

lemma verified_snapshot_current:
  assumes "positiveLiterals qo" "reflexiveEquality qo" "capturable qo e tmpl None"
  shows "ProvisioningSnapshotCurrentTemplate qo
     (Some ((ResolveEnvironmentProvisioning qo e tmpl None)\<lparr>ps_TemplateVerified := True\<rparr>))
     (tmpl\<lparr>et_Meta := (et_Meta tmpl)\<lparr>om_Generation := g\<rparr>\<rparr>)"
proof -
  let ?p = "(ResolveEnvironmentProvisioning qo e tmpl None)\<lparr>ps_TemplateVerified := True\<rparr>"
  let ?t = "tmpl\<lparr>et_Meta := (et_Meta tmpl)\<lparr>om_Generation := g\<rparr>\<rparr>"
  let ?e = "zero_environment\<lparr>en_Spec := zero_spec\<lparr>sp_TemplateRef := om_Name (et_Meta ?t), sp_Backend := ps_Backend ?p\<rparr>\<rparr>"
  have valid: "ValidateEnvironmentProvisioningTemplateSnapshot qo ?e (Some ?p) = None"
    using assms(3) resolved_size [OF assms(1), of e tmpl None] resolved_disk [OF assms(1), of e tmpl None]
    by (auto simp: template_snapshot_valid_iff capturable_def zero_spec_def)
  have backend: "EffectiveEnvironmentBackend ?e ?t = EffectiveEnvironmentBackend e tmpl"
    using EffectiveEnvironmentBackend_nonempty [of e tmpl] unfolding EffectiveEnvironmentBackend_def [of ?e ?t] by simp
  have same: "(ResolveEnvironmentProvisioning qo ?e ?t None)
       \<lparr>ps_Template := (ps_Template (ResolveEnvironmentProvisioning qo ?e ?t None))\<lparr>pt_Generation := pt_Generation (ps_Template ?p)\<rparr>\<rparr>
     = ResolveEnvironmentProvisioning qo e tmpl None"
    using backend by (simp add: ResolveEnvironmentProvisioning_def Let_def)
  have "qo_SemanticEqual qo (ResolveEnvironmentProvisioning qo e tmpl None\<lparr>ps_TemplateVerified := False, ps_ProjectVerified := False\<rparr>)
          (ResolveEnvironmentProvisioning qo e tmpl None\<lparr>ps_TemplateVerified := False, ps_ProjectVerified := False\<rparr>)"
    using assms(2) by (simp add: reflexiveEquality_def)
  then have "ProvisioningSnapshotsEqualIgnoringVerification qo (Some ?p) (Some (ResolveEnvironmentProvisioning qo e tmpl None))"
    by (simp add: ProvisioningSnapshotsEqualIgnoringVerification_def)
  then show ?thesis
    using valid same by (simp add: ProvisioningSnapshotCurrentTemplate_def Let_def)
qed

text \<open>(C28) Provisioning snapshots are well formed by construction: what is resolved from an Environment, its
  Template and Project always has a known size and two positive resources, passes the Template validation
  exactly when the inputs are capturable, and, once verified without a Project, stays current for its Template
  whatever generation that has moved to. Quantities are library code: their literals are positive and their
  comparison is reflexive.\<close>

theorem resolved_snapshot_well_formed:
  assumes "positiveLiterals qo" "reflexiveEquality qo"
  shows "validProvisioningSize qo (ps_Size (ResolveEnvironmentProvisioning qo e tmpl project))
     \<and> validProvisioningResources qo (ps_Resources (ResolveEnvironmentProvisioning qo e tmpl project))
     \<and> (ValidateEnvironmentProvisioningTemplateSnapshot qo e (Some (ResolveEnvironmentProvisioning qo e tmpl project)) = None
          \<longleftrightarrow> capturable qo e tmpl project)
     \<and> (capturable qo e tmpl None \<longrightarrow>
          ProvisioningSnapshotCurrentTemplate qo
            (Some ((ResolveEnvironmentProvisioning qo e tmpl None)\<lparr>ps_TemplateVerified := True\<rparr>))
            (tmpl\<lparr>et_Meta := (et_Meta tmpl)\<lparr>om_Generation := g\<rparr>\<rparr>))"
  using resolved_size [OF assms(1)] resolved_valid_iff [OF assms(1)] verified_snapshot_current [OF assms] by blast

definition example_quantities :: "nat quantities" where
  "example_quantities = \<lparr>qo_Sign = int, qo_MustParse = length, qo_SemanticEqual = (=)\<rparr>"

definition example_template :: "nat EnvironmentTemplate" where
  "example_template =
     \<lparr>et_Meta = zero_meta\<lparr>om_Name := ''go'', om_UID := ''t1'', om_Generation := 3\<rparr>,
      et_Spec = \<lparr>ts_Image = ''img'', ts_Size = ''huge'', ts_RuntimeClass = [], ts_Backend = [],
                 ts_IdleTimeout = None, ts_DiskSize = None, ts_WarmPool = None\<rparr>,
      et_WarmPoolReady = 0\<rparr>"

definition example_environment :: "nat Environment" where
  "example_environment = zero_environment\<lparr>en_Spec := zero_spec\<lparr>sp_TemplateRef := ''go''\<rparr>\<rparr>"

lemma example_quantities_lawful: "positiveLiterals example_quantities" "reflexiveEquality example_quantities"
  by (simp_all add: positiveLiterals_def reflexiveEquality_def example_quantities_def)

theorem resolved_snapshot_well_formed_witness:
  "ps_Size (ResolveEnvironmentProvisioning example_quantities example_environment example_template None) = ''medium''
   \<and> validProvisioningResources example_quantities
        (ps_Resources (ResolveEnvironmentProvisioning example_quantities example_environment example_template None))
   \<and> ProvisioningSnapshotCurrentTemplate example_quantities
        (Some ((ResolveEnvironmentProvisioning example_quantities example_environment example_template None)
           \<lparr>ps_TemplateVerified := True\<rparr>))
        (example_template\<lparr>et_Meta := (et_Meta example_template)\<lparr>om_Generation := 9\<rparr>\<rparr>)"
proof -
  have "capturable example_quantities example_environment example_template None"
    by code_simp
  moreover have "ps_Size (ResolveEnvironmentProvisioning example_quantities example_environment example_template None) = ''medium''"
    by code_simp
  ultimately show ?thesis
    using resolved_snapshot_well_formed [OF example_quantities_lawful, of example_environment example_template None 9] by blast
qed

end
