(* ===== verification/Go_Monad.thy ===== *)
theory Go_Monad
  imports Prelude "HOL-Library.State_Monad"
begin

text \<open>
  Go functions with effects, as computations of the library's state monad. A fallible function
  returns \<open>Inl e\<close> for a non-nil error; \<open>bindE\<close> is \<open>if err != nil { return err }\<close> and
  \<open>ifErr\<close> the general form with both branches written out.

  Two ways to reason about them: \<open>wp\<close>, the weakest precondition of a computation, with an equation
  per construct; and \<open>emits\<close>, for computations that write a log: every event they append satisfies a
  predicate. \<open>emits_intros\<close> collects the rules that follow the structure of a program.
\<close>

abbreviation ret :: "'a \<Rightarrow> ('s, 'a) state" where
  "ret \<equiv> State_Monad.return"

abbreviation returnOk :: "'a \<Rightarrow> ('s, 'e + 'a) state" where
  "returnOk a \<equiv> State_Monad.return (Inr a)"

abbreviation throwError :: "'e \<Rightarrow> ('s, 'e + 'a) state" where
  "throwError e \<equiv> State_Monad.return (Inl e)"

definition ifErr ::
  "('s, 'e + 'a) state \<Rightarrow> ('e \<Rightarrow> ('s, 'b) state) \<Rightarrow> ('a \<Rightarrow> ('s, 'b) state) \<Rightarrow> ('s, 'b) state" where
  "ifErr m f g = do { r \<leftarrow> m; case r of Inl e \<Rightarrow> f e | Inr a \<Rightarrow> g a }"

definition bindE ::
  "('s, 'e + 'a) state \<Rightarrow> ('a \<Rightarrow> ('s, 'e + 'b) state) \<Rightarrow> ('s, 'e + 'b) state" where
  "bindE m g = ifErr m throwError g"

definition mapErr :: "('e \<Rightarrow> 'f) \<Rightarrow> ('s, 'e + 'a) state \<Rightarrow> ('s, 'f + 'a) state" where
  "mapErr h m = ifErr m (\<lambda>e. throwError (h e)) returnOk"

text \<open>The state, and a change of it.\<close>

definition reads :: "('s \<Rightarrow> 'a) \<Rightarrow> ('s, 'a) state" where
  "reads f = State (\<lambda>s. (f s, s))"

definition modifies :: "('s \<Rightarrow> 's) \<Rightarrow> ('s, unit) state" where
  "modifies f = State (\<lambda>s. ((), f s))"

section \<open>Weakest preconditions\<close>

named_theorems wp_simps \<open>weakest preconditions\<close>

definition wp :: "('s, 'a) state \<Rightarrow> ('a \<Rightarrow> 's \<Rightarrow> bool) \<Rightarrow> 's \<Rightarrow> bool" where
  "wp m Q s = (case run_state m s of (a, s') \<Rightarrow> Q a s')"

lemma wp_State [wp_simps]: "wp (State f) Q s = (case f s of (a, s') \<Rightarrow> Q a s')"
  by (simp add: wp_def)

lemma wp_return [wp_simps]: "wp (ret a) Q s = Q a s"
  by (simp add: wp_def)

lemma wp_bind [wp_simps]: "wp (State_Monad.bind m f) Q s = wp m (\<lambda>a. wp (f a) Q) s"
  by (simp add: wp_def split: prod.split)

lemma wp_ifErr [wp_simps]:
  "wp (ifErr m f g) Q s = wp m (\<lambda>r. case r of Inl e \<Rightarrow> wp (f e) Q | Inr a \<Rightarrow> wp (g a) Q) s"
  by (simp add: ifErr_def wp_def split: prod.split sum.split)

lemma wp_bindE [wp_simps]:
  "wp (bindE m g) Q s = wp m (\<lambda>r. case r of Inl e \<Rightarrow> Q (Inl e) | Inr a \<Rightarrow> wp (g a) Q) s"
  by (simp add: bindE_def ifErr_def wp_def split: prod.split sum.split)

lemma wp_mapErr [wp_simps]:
  "wp (mapErr h m) Q s = wp m (\<lambda>r. case r of Inl e \<Rightarrow> Q (Inl (h e)) | Inr a \<Rightarrow> Q (Inr a)) s"
  by (simp add: mapErr_def ifErr_def wp_def split: prod.split sum.split)

lemma wp_reads [wp_simps]: "wp (reads f) Q s = Q (f s) s"
  by (simp add: reads_def wp_State)

lemma wp_modifies [wp_simps]: "wp (modifies f) Q s = Q () (f s)"
  by (simp add: modifies_def wp_State)

lemma wp_if [wp_simps]: "wp (if c then m else n) Q s = (if c then wp m Q s else wp n Q s)"
  by simp

lemma wp_case_option [wp_simps]:
  "wp (case x of None \<Rightarrow> m | Some y \<Rightarrow> f y) Q s = (case x of None \<Rightarrow> wp m Q s | Some y \<Rightarrow> wp (f y) Q s)"
  by (simp split: option.split)

lemma wp_case_sum [wp_simps]:
  "wp (case x of Inl y \<Rightarrow> f y | Inr z \<Rightarrow> g z) Q s
     = (case x of Inl y \<Rightarrow> wp (f y) Q s | Inr z \<Rightarrow> wp (g z) Q s)"
  by (simp split: sum.split)

lemma wp_case_prod [wp_simps]:
  "wp (case x of (y, z) \<Rightarrow> f y z) Q s = (case x of (y, z) \<Rightarrow> wp (f y z) Q s)"
  by (simp split: prod.split)

lemma wp_Let [wp_simps]: "wp (Let x f) Q s = (let y = x in wp (f y) Q s)"
  by (simp add: Let_def)

lemma wp_mono: "wp m Q s \<Longrightarrow> (\<And>a s'. Q a s' \<Longrightarrow> R a s') \<Longrightarrow> wp m R s"
  by (auto simp: wp_def)

lemma wp_conj: "wp m Q s \<Longrightarrow> wp m R s \<Longrightarrow> wp m (\<lambda>a s'. Q a s' \<and> R a s') s"
  by (simp add: wp_def split: prod.splits)

lemma wp_run: "wp m Q s \<longleftrightarrow> Q (fst (run_state m s)) (snd (run_state m s))"
  by (simp add: wp_def split: prod.split)

lemma wp_runD: "wp m Q s \<Longrightarrow> run_state m s = (a, s') \<Longrightarrow> Q a s'"
  by (simp add: wp_def)

section \<open>Logs\<close>

named_theorems emits_intros \<open>what a program appends to its log\<close>

definition emits :: "('s \<Rightarrow> 'e list) \<Rightarrow> ('e \<Rightarrow> bool) \<Rightarrow> ('s, 'a) state \<Rightarrow> bool" where
  "emits lg E m \<longleftrightarrow> (\<forall>s. \<exists>es. lg (snd (run_state m s)) = lg s @ es \<and> list_all E es)"

lemma emitsI:
  "(\<And>s. \<exists>es. lg (snd (run_state m s)) = lg s @ es \<and> list_all E es) \<Longrightarrow> emits lg E m"
  by (simp add: emits_def)

lemma emitsE:
  assumes "emits lg E m"
  obtains es where "lg (snd (run_state m s)) = lg s @ es" "list_all E es"
  using assms by (auto simp: emits_def)

lemma emits_quiet: "(\<And>s. lg (snd (run_state m s)) = lg s) \<Longrightarrow> emits lg E m"
  by (rule emitsI) (simp add: exI [of _ "[]"])

lemma emits_mono: "emits lg E m \<Longrightarrow> (\<And>e. E e \<Longrightarrow> F e) \<Longrightarrow> emits lg F m"
  unfolding emits_def by (meson list.pred_mono_strong)

lemma emits_return [emits_intros]: "emits lg E (ret a)"
  by (rule emits_quiet) simp

lemma emits_reads [emits_intros]: "emits lg E (reads f)"
  by (rule emits_quiet) (simp add: reads_def)

lemma emits_modifies [emits_intros]: "(\<And>s. lg (f s) = lg s) \<Longrightarrow> emits lg E (modifies f)"
  by (rule emits_quiet) (simp add: modifies_def)

lemma emits_bind [emits_intros]:
  assumes "emits lg E m" "\<And>a. emits lg E (f a)"
  shows "emits lg E (State_Monad.bind m f)"
proof (rule emitsI)
  fix s
  obtain a s1 where m: "run_state m s = (a, s1)" by force
  obtain es where es: "lg s1 = lg s @ es" "list_all E es"
    by (rule emitsE [OF assms(1), of s]) (use m in auto)
  obtain es' where es': "lg (snd (run_state (f a) s1)) = lg s1 @ es'" "list_all E es'"
    by (rule emitsE [OF assms(2), of a s1])
  show "\<exists>es. lg (snd (run_state (State_Monad.bind m f) s)) = lg s @ es \<and> list_all E es"
    using m es es' by (intro exI [of _ "es @ es'"]) simp
qed

lemma emits_case_sum [emits_intros]:
  "(\<And>y. x = Inl y \<Longrightarrow> emits lg E (f y)) \<Longrightarrow> (\<And>z. x = Inr z \<Longrightarrow> emits lg E (g z)) \<Longrightarrow>
     emits lg E (case x of Inl y \<Rightarrow> f y | Inr z \<Rightarrow> g z)"
  by (cases x) auto

lemma emits_case_option [emits_intros]:
  "(x = None \<Longrightarrow> emits lg E m) \<Longrightarrow> (\<And>y. x = Some y \<Longrightarrow> emits lg E (f y)) \<Longrightarrow>
     emits lg E (case x of None \<Rightarrow> m | Some y \<Rightarrow> f y)"
  by (cases x) auto

lemma emits_case_prod [emits_intros]:
  "(\<And>y z. x = (y, z) \<Longrightarrow> emits lg E (f y z)) \<Longrightarrow> emits lg E (case x of (y, z) \<Rightarrow> f y z)"
  by (cases x) auto

lemma emits_if [emits_intros]:
  "(c \<Longrightarrow> emits lg E m) \<Longrightarrow> (\<not> c \<Longrightarrow> emits lg E n) \<Longrightarrow> emits lg E (if c then m else n)"
  by simp

lemma emits_Let [emits_intros]: "(\<And>y. y = x \<Longrightarrow> emits lg E (f y)) \<Longrightarrow> emits lg E (Let x f)"
  by (simp add: Let_def)

lemma emits_ifErr [emits_intros]:
  "emits lg E m \<Longrightarrow> (\<And>e. emits lg E (f e)) \<Longrightarrow> (\<And>a. emits lg E (g a)) \<Longrightarrow> emits lg E (ifErr m f g)"
  unfolding ifErr_def by (intro emits_intros)

lemma emits_bindE [emits_intros]:
  "emits lg E m \<Longrightarrow> (\<And>a. emits lg E (g a)) \<Longrightarrow> emits lg E (bindE m g)"
  unfolding bindE_def by (intro emits_intros)

lemma emits_mapErr [emits_intros]: "emits lg E m \<Longrightarrow> emits lg E (mapErr h m)"
  unfolding mapErr_def by (intro emits_intros)

section \<open>A world with a log\<close>

text \<open>The state of a controller: the outside world, which only its calls change, and the log of what the
  controller did there. \<open>ask m ev\<close> makes the call \<open>m\<close> and logs \<open>ev\<close> of its answer.\<close>

record ('w, 'e) logged =
  lw_world :: 'w
  lw_log :: "'e list"

definition ask :: "('w, 'a) state \<Rightarrow> ('a \<Rightarrow> 'e list) \<Rightarrow> (('w, 'e, 'z) logged_scheme, 'a) state" where
  "ask m ev = State (\<lambda>s. case run_state m (lw_world s) of
     (a, w') \<Rightarrow> (a, s\<lparr>lw_world := w', lw_log := lw_log s @ ev a\<rparr>))"

lemma wp_ask [wp_simps]:
  "wp (ask m ev) Q s = (case run_state m (lw_world s) of
     (a, w') \<Rightarrow> Q a (s\<lparr>lw_world := w', lw_log := lw_log s @ ev a\<rparr>))"
  by (simp add: ask_def wp_def split: prod.split)

lemma emits_ask [emits_intros]: "(\<And>a. list_all E (ev a)) \<Longrightarrow> emits lw_log E (ask m ev)"
  by (rule emitsI) (simp add: ask_def split: prod.split)

text \<open>Events without a call.\<close>

definition note_event :: "'e \<Rightarrow> (('w, 'e, 'z) logged_scheme, unit) state" where
  "note_event e = modifies (\<lambda>s. s\<lparr>lw_log := lw_log s @ [e]\<rparr>)"

lemma wp_note_event [wp_simps]: "wp (note_event e) Q s = Q () (s\<lparr>lw_log := lw_log s @ [e]\<rparr>)"
  by (simp add: note_event_def wp_modifies)

lemma emits_note_event [emits_intros]: "E e \<Longrightarrow> emits lw_log E (note_event e)"
  by (rule emitsI) (simp add: note_event_def modifies_def)

section \<open>Results of a reconcile\<close>

text \<open>\<open>ctrl.Result\<close>.\<close>

record Result =
  res_Requeue :: bool
  res_RequeueAfter :: int

abbreviation "noResult \<equiv> \<lparr>res_Requeue = False, res_RequeueAfter = 0\<rparr>"
abbreviation "requeueNow \<equiv> \<lparr>res_Requeue = True, res_RequeueAfter = 0\<rparr>"
abbreviation "requeueAfter d \<equiv> \<lparr>res_Requeue = False, res_RequeueAfter = d\<rparr>"

text \<open>\<open>return result, err\<close>.\<close>

type_synonym 'e outcome = "Result \<times> 'e option"

definition finish :: "Result \<Rightarrow> ('s, 'e + 'a) state \<Rightarrow> ('s, 'e outcome) state" where
  "finish r m = ifErr m (\<lambda>e. ret (r, Some e)) (\<lambda>_. ret (r, None))"

lemma wp_finish [wp_simps]:
  "wp (finish r m) Q s = wp m (\<lambda>x. case x of Inl e \<Rightarrow> Q (r, Some e) | Inr _ \<Rightarrow> Q (r, None)) s"
  by (simp add: finish_def ifErr_def wp_def split: prod.split sum.split)

lemma emits_finish [emits_intros]: "emits lg E m \<Longrightarrow> emits lg E (finish r m)"
  unfolding finish_def by (intro emits_intros)

text \<open>\<open>if err != nil { return ctrl.Result{}, err }\<close>.\<close>

definition orFail :: "('s, 'e + 'a) state \<Rightarrow> ('a \<Rightarrow> ('s, 'e outcome) state) \<Rightarrow> ('s, 'e outcome) state" where
  "orFail m f = ifErr m (\<lambda>e. ret (noResult, Some e)) f"

lemma wp_orFail [wp_simps]:
  "wp (orFail m f) Q s = wp m (\<lambda>x. case x of Inl e \<Rightarrow> Q (noResult, Some e) | Inr a \<Rightarrow> wp (f a) Q) s"
  by (simp add: orFail_def ifErr_def wp_def split: prod.split sum.split)

lemma emits_orFail [emits_intros]:
  "emits lg E m \<Longrightarrow> (\<And>a. emits lg E (f a)) \<Longrightarrow> emits lg E (orFail m f)"
  unfolding orFail_def by (intro emits_intros)

text \<open>A handler that may end the reconcile: \<open>Inl\<close> of what to return, or \<open>Inr\<close> to go on.
  \<open>returns m\<close> is \<open>return m(), true, ...\<close>; \<open>proceed d m\<close> goes on with \<open>d\<close> unless \<open>m\<close> fails.\<close>

definition returns :: "('s, 'e outcome) state \<Rightarrow> ('s, 'e outcome + 'a) state" where
  "returns m = do { x \<leftarrow> m; throwError x }"

lemma wp_returns [wp_simps]: "wp (returns m) Q s = wp m (\<lambda>x. Q (Inl x)) s"
  by (simp add: returns_def wp_def split: prod.split)

lemma emits_returns [emits_intros]: "emits lg E m \<Longrightarrow> emits lg E (returns m)"
  unfolding returns_def by (intro emits_intros)

definition proceed :: "int \<Rightarrow> ('s, 'e + unit) state \<Rightarrow> ('s, 'e outcome + int) state" where
  "proceed d m = ifErr m (\<lambda>e. throwError (requeueAfter d, Some e)) (\<lambda>_. returnOk d)"

lemma wp_proceed [wp_simps]:
  "wp (proceed d m) Q s = wp m (\<lambda>x. case x of Inl e \<Rightarrow> Q (Inl (requeueAfter d, Some e)) | Inr _ \<Rightarrow> Q (Inr d)) s"
  by (simp add: proceed_def ifErr_def wp_def split: prod.split sum.split)

lemma emits_proceed [emits_intros]: "emits lg E m \<Longrightarrow> emits lg E (proceed d m)"
  unfolding proceed_def by (intro emits_intros)

text \<open>Unless it ended the reconcile.\<close>

definition unlessDone ::
  "('s, 'e outcome + 'a) state \<Rightarrow> ('a \<Rightarrow> ('s, 'e outcome) state) \<Rightarrow> ('s, 'e outcome) state" where
  "unlessDone m f = ifErr m ret f"

lemma wp_unlessDone [wp_simps]:
  "wp (unlessDone m f) Q s = wp m (\<lambda>x. case x of Inl r \<Rightarrow> Q r | Inr a \<Rightarrow> wp (f a) Q) s"
  by (simp add: unlessDone_def ifErr_def wp_def split: prod.split sum.split)

lemma emits_unlessDone [emits_intros]:
  "emits lg E m \<Longrightarrow> (\<And>a. emits lg E (f a)) \<Longrightarrow> emits lg E (unlessDone m f)"
  unfolding unlessDone_def by (intro emits_intros)

end
