(* ===== verification/Tenancy.thy ===== *)
theory Tenancy
  imports Api_Types Go_Monad
begin

text \<open>
  The tenancy boundary (\<open>src/internal/tenancy\<close>): the verification of a namespace claim against the
  live Installation, Namespace and Projects (\<open>authority.go\<close>), and the lease that a reconcile holds
  and every guarded mutation revalidates (\<open>reconcile.go\<close>).

  The Kubernetes reader is library code: \<open>tenancy_reader\<close> holds its calls over an arbitrary world
  \<open>'w\<close> with arbitrary client errors \<open>'k\<close>. The lease travels in Go's context, here as an argument.
\<close>

section \<open>Claims and leases\<close>

type_synonym Lifecycle = string
abbreviation "LifecycleActive \<equiv> ''active''"
abbreviation "LifecycleFencing \<equiv> ''fencing''"
abbreviation "LifecycleFenced \<equiv> ''fenced''"
abbreviation "OperationOnboarding \<equiv> ''onboarding''"
abbreviation "OperationOffboarding \<equiv> ''offboarding''"

type_synonym Mode = string
abbreviation "ModeScoped \<equiv> ''scoped''"
abbreviation "ModeTrustedAdmin \<equiv> ''trusted-admin''"

abbreviation "InstallationNamespaceAnnotation \<equiv> ''swe.dev/installation-namespace''"
abbreviation "InstallationNameAnnotation \<equiv> ''swe.dev/installation-name''"
abbreviation "InstallationUIDAnnotation \<equiv> ''swe.dev/installation-uid''"
abbreviation "ProjectNameAnnotation \<equiv> ''swe.dev/project-name''"
abbreviation "ProjectUIDAnnotation \<equiv> ''swe.dev/project-uid''"
abbreviation "LifecycleAnnotation \<equiv> ''swe.dev/project-namespace-lifecycle''"
abbreviation "LifecycleOperationAnnotation \<equiv> ''swe.dev/project-namespace-operation''"
abbreviation "CatalogSourceAnnotation \<equiv> ''swe.dev/catalog-source''"
abbreviation "CatalogNameAnnotation \<equiv> ''swe.dev/catalog-name''"
abbreviation "CatalogRevisionAnnotation \<equiv> ''swe.dev/catalog-revision''"
abbreviation "CatalogSourceUIDAnnotation \<equiv> ''swe.dev/catalog-source-uid''"

record InstallationIdentity =
  ii_Key :: NamespacedName
  ii_UID :: string

record Claim =
  cl_NamespaceUID :: string
  cl_ProjectName :: string
  cl_ProjectUID :: string
  cl_Lifecycle :: Lifecycle
  cl_Operation :: string

definition zero_claim :: Claim where
  "zero_claim = \<lparr>cl_NamespaceUID = [], cl_ProjectName = [], cl_ProjectUID = [], cl_Lifecycle = [], cl_Operation = []\<rparr>"

record mutationLease =
  ml_namespace :: string
  ml_claim :: Claim
  ml_fenceOnly :: bool
  ml_environmentName :: string
  ml_environmentUID :: string

text \<open>Errors: \<open>OutOfScope\<close> wraps \<open>ErrOutOfScope\<close>, \<open>Reader\<close> wraps a client error.\<close>

datatype 'k tenancy_error =
  OutOfScope string
| Reader string 'k
| Refused string

fun isOutOfScope :: "'k tenancy_error \<Rightarrow> bool" where
  "isOutOfScope (OutOfScope m) = True"
| "isOutOfScope _ = False"

record ('w, 'k) tenancy_reader =
  tr_Installation :: "NamespacedName \<Rightarrow> ('w, 'k + ObjectMeta) state"
  tr_Namespace :: "string \<Rightarrow> ('w, 'k + ObjectMeta) state"
  tr_Projects :: "string \<Rightarrow> ('w, 'k + Project list) state"

text \<open>\<open>vf_Reader\<close> is absent for a nil reader.\<close>

record ('w, 'k) Verifier =
  vf_Reader :: "('w, 'k) tenancy_reader option"
  vf_Installation :: InstallationIdentity
  vf_Mode :: Mode

section \<open>Verification of a namespace\<close>

definition ParseMode :: "string \<Rightarrow> 'k tenancy_error + Mode" where
  "ParseMode value =
     (let mode = TrimSpace value in
      if mode = ModeScoped \<or> mode = ModeTrustedAdmin then Inr mode
      else Inl (Refused ''tenancy mode must be scoped or trusted-admin''))"

definition LoadInstallation ::
  "('w, 'k) tenancy_reader option \<Rightarrow> NamespacedName
     \<Rightarrow> ('w, 'k tenancy_error + InstallationIdentity \<times> ObjectMeta) state" where
  "LoadInstallation reader key =
     (case reader of
        None \<Rightarrow> throwError (Refused ''installation reader is required'')
      | Some rd \<Rightarrow>
          if fst key = [] \<or> snd key = []
          then throwError (Refused ''installation namespace and name are required'')
          else bindE (mapErr (Reader ''get Installation'') (tr_Installation rd key)) (\<lambda>installation.
            if om_UID installation = [] \<or> deleting installation
            then throwError (Refused ''Installation has no stable live UID'')
            else returnOk (\<lparr>ii_Key = key, ii_UID = om_UID installation\<rparr>, installation)))"

definition VerifyInstallation :: "('w, 'k) Verifier \<Rightarrow> ('w, 'k tenancy_error + unit) state" where
  "VerifyInstallation v =
     (case vf_Reader v of
        None \<Rightarrow> throwError (Refused ''tenancy verifier reader is required'')
      | Some rd \<Rightarrow>
          bindE (mapErr (Reader ''revalidate Installation'') (tr_Installation rd (ii_Key (vf_Installation v))))
            (\<lambda>current.
              if om_UID current \<noteq> ii_UID (vf_Installation v) \<or> deleting current
              then throwError (OutOfScope ''Installation identity changed'')
              else returnOk ()))"

text \<open>The claim that the annotations of a Namespace spell out, and its internal consistency.\<close>

definition annotatedClaim :: "ObjectMeta \<Rightarrow> Claim" where
  "annotatedClaim ns =
     \<lparr>cl_NamespaceUID = om_UID ns,
      cl_ProjectName = TrimSpace (meta_annotation ns ProjectNameAnnotation),
      cl_ProjectUID = TrimSpace (meta_annotation ns ProjectUIDAnnotation),
      cl_Lifecycle = TrimSpace (meta_annotation ns LifecycleAnnotation),
      cl_Operation = TrimSpace (meta_annotation ns LifecycleOperationAnnotation)\<rparr>"

definition checkClaim :: "Claim \<Rightarrow> 'k tenancy_error + Claim" where
  "checkClaim claim =
     (if cl_ProjectName claim = [] \<or> cl_ProjectUID claim = []
      then Inl (OutOfScope ''incomplete Project identity'')
      else if cl_Lifecycle claim = LifecycleActive \<or> cl_Lifecycle claim = LifecycleFenced then
        (if cl_Operation claim \<noteq> [] then Inl (OutOfScope ''lifecycle must not have an operation'')
         else Inr claim)
      else if cl_Lifecycle claim = LifecycleFencing then
        (if cl_Operation claim \<noteq> OperationOnboarding \<and> cl_Operation claim \<noteq> OperationOffboarding
         then Inl (OutOfScope ''fencing operation is invalid'')
         else Inr claim)
      else Inl (OutOfScope ''invalid lifecycle''))"

definition claimedBy :: "InstallationIdentity \<Rightarrow> ObjectMeta \<Rightarrow> bool" where
  "claimedBy i ns \<longleftrightarrow>
     meta_annotation ns InstallationNamespaceAnnotation = fst (ii_Key i)
     \<and> meta_annotation ns InstallationNameAnnotation = snd (ii_Key i)
     \<and> meta_annotation ns InstallationUIDAnnotation = ii_UID i"

definition verifyNamespaceIdentity ::
  "('w, 'k) Verifier \<Rightarrow> string \<Rightarrow> ('w, 'k tenancy_error + Claim) state" where
  "verifyNamespaceIdentity v namespace =
     bindE (VerifyInstallation v) (\<lambda>_.
       if TrimSpace namespace = [] then throwError (OutOfScope ''namespace is required'')
       else bindE (mapErr (Reader ''revalidate Namespace'') (tr_Namespace (the (vf_Reader v)) namespace)) (\<lambda>ns.
         if om_UID ns = [] \<or> deleting ns then throwError (OutOfScope ''not a stable live identity'')
         else if \<not> claimedBy (vf_Installation v) ns then throwError (OutOfScope ''not claimed by Installation'')
         else ret (checkClaim (annotatedClaim ns))))"

definition verifyProjectClaim ::
  "('w, 'k) Verifier \<Rightarrow> string \<Rightarrow> Claim \<Rightarrow> ('w, 'k tenancy_error + unit) state" where
  "verifyProjectClaim v namespace claim =
     bindE (mapErr (Reader ''list Projects'') (tr_Projects (the (vf_Reader v)) namespace)) (\<lambda>projects.
       case projects of
         [p] \<Rightarrow>
           if om_Name (pj_Meta p) \<noteq> cl_ProjectName claim \<or> om_UID (pj_Meta p) \<noteq> cl_ProjectUID claim
              \<or> deleting (pj_Meta p)
           then throwError (OutOfScope ''must contain exactly the claimed Project'')
           else returnOk ()
       | _ \<Rightarrow> throwError (OutOfScope ''must contain exactly the claimed Project''))"

definition VerifyNamespace ::
  "('w, 'k) Verifier \<Rightarrow> string \<Rightarrow> ('w, 'k tenancy_error + Claim) state" where
  "VerifyNamespace v namespace =
     bindE (verifyNamespaceIdentity v namespace) (\<lambda>claim.
       bindE (verifyProjectClaim v namespace claim) (\<lambda>_. returnOk claim))"

fun validateNamespaces ::
  "('w, 'k) Verifier \<Rightarrow> string list \<Rightarrow> string list \<Rightarrow> ('w, 'k tenancy_error + unit) state" where
  "validateNamespaces v seen [] = returnOk ()"
| "validateNamespaces v seen (n # ns) =
     (let namespace = TrimSpace n in
      if namespace = [] then throwError (Refused ''tenancy namespace must not be blank'')
      else if namespace = fst (ii_Key (vf_Installation v))
      then throwError (Refused ''system namespace must not be configured as a Project namespace'')
      else if namespace \<in> set seen then throwError (Refused ''tenancy namespace is configured more than once'')
      else bindE (VerifyNamespace v namespace) (\<lambda>_. validateNamespaces v (namespace # seen) ns))"

definition ValidateConfiguredNamespaces ::
  "('w, 'k) Verifier \<Rightarrow> string list \<Rightarrow> ('w, 'k tenancy_error + unit) state" where
  "ValidateConfiguredNamespaces v namespaces =
     (if vf_Mode v \<noteq> ModeScoped then returnOk () else validateNamespaces v [] namespaces)"

section \<open>Templates\<close>

definition IsCatalogSource :: "'q EnvironmentTemplate \<Rightarrow> bool" where
  "IsCatalogSource t \<longleftrightarrow> meta_annotation (et_Meta t) CatalogSourceAnnotation = ''true''"

definition ValidateManagedTemplate ::
  "'q EnvironmentTemplate \<Rightarrow> InstallationIdentity \<Rightarrow> Claim \<Rightarrow> 'k tenancy_error option" where
  "ValidateManagedTemplate t i claim =
     (let m = et_Meta t in
      if IsCatalogSource t then Some (Refused ''catalog sources are not runnable Project templates'')
      else if \<not> claimedBy i m
         \<or> meta_annotation m ProjectNameAnnotation \<noteq> cl_ProjectName claim
         \<or> meta_annotation m ProjectUIDAnnotation \<noteq> cl_ProjectUID claim
         \<or> meta_annotation m CatalogNameAnnotation \<noteq> om_Name m
         \<or> TrimSpace (meta_annotation m CatalogRevisionAnnotation) = []
         \<or> TrimSpace (meta_annotation m CatalogSourceUIDAnnotation) = []
      then Some (OutOfScope ''not an exact managed copy'')
      else None)"

section \<open>Reconcile leases\<close>

definition permitsLifecycle :: "Lifecycle \<Rightarrow> Lifecycle list \<Rightarrow> bool" where
  "permitsLifecycle actual permitted \<longleftrightarrow> actual \<in> set permitted"

text \<open>A scope without a verifier permits everything. \<open>Begin\<close> returns the claim and, with a
  verifier, the lease it puts in the context.\<close>

definition Begin ::
  "('w, 'k) Verifier option \<Rightarrow> string \<Rightarrow> Lifecycle list
     \<Rightarrow> ('w, 'k tenancy_error + mutationLease option \<times> Claim) state" where
  "Begin scope namespace permitted =
     (case scope of
        None \<Rightarrow> returnOk (None, zero_claim\<lparr>cl_Lifecycle := LifecycleActive\<rparr>)
      | Some v \<Rightarrow>
          bindE (VerifyNamespace v namespace) (\<lambda>claim.
            if \<not> permitsLifecycle (cl_Lifecycle claim) permitted
            then throwError (OutOfScope ''Namespace lifecycle is not permitted'')
            else returnOk (Some \<lparr>ml_namespace = namespace, ml_claim = claim, ml_fenceOnly = False,
                                 ml_environmentName = [], ml_environmentUID = []\<rparr>, claim)))"

definition BeginEnvironmentStaleProjectFence ::
  "('w, 'k) Verifier option \<Rightarrow> string \<Rightarrow> string \<Rightarrow> string \<Rightarrow> Lifecycle list
     \<Rightarrow> ('w, 'k tenancy_error + mutationLease \<times> Claim) state" where
  "BeginEnvironmentStaleProjectFence scope namespace environmentName environmentUID permitted =
     (case scope of
        None \<Rightarrow> throwError (Refused ''stale-Project fence requires a tenancy verifier'')
      | Some v \<Rightarrow>
          if namespace = [] \<or> environmentName = [] \<or> environmentUID = []
          then throwError (OutOfScope ''complete Environment identity is required'')
          else bindE (verifyNamespaceIdentity v namespace) (\<lambda>claim.
            if \<not> permitsLifecycle (cl_Lifecycle claim) permitted
            then throwError (OutOfScope ''Namespace lifecycle is not permitted'')
            else ifErr (verifyProjectClaim v namespace claim)
              (\<lambda>projectErr.
                if \<not> isOutOfScope projectErr then throwError projectErr
                else returnOk (\<lparr>ml_namespace = namespace, ml_claim = claim, ml_fenceOnly = True,
                       ml_environmentName = environmentName, ml_environmentUID = environmentUID\<rparr>, claim))
              (\<lambda>_. throwError (OutOfScope ''Project claim remains valid''))))"

definition Scope_Revalidate ::
  "('w, 'k) Verifier option \<Rightarrow> mutationLease option \<Rightarrow> string \<Rightarrow> Lifecycle list
     \<Rightarrow> ('w, 'k tenancy_error + Claim) state" where
  "Scope_Revalidate scope lease namespace permitted =
     (case scope of
        None \<Rightarrow> returnOk (zero_claim\<lparr>cl_Lifecycle := LifecycleActive\<rparr>)
      | Some v \<Rightarrow>
          (case lease of
             None \<Rightarrow> throwError (Refused ''no matching reconcile lease'')
           | Some l \<Rightarrow>
               if ml_fenceOnly l \<or> ml_namespace l \<noteq> namespace
               then throwError (Refused ''no matching reconcile lease'')
               else bindE (VerifyNamespace v namespace) (\<lambda>claim.
                 if claim \<noteq> ml_claim l then throwError (OutOfScope ''claim changed during reconciliation'')
                 else if \<not> permitsLifecycle (cl_Lifecycle claim) permitted
                 then throwError (OutOfScope ''Namespace lifecycle is not permitted'')
                 else returnOk claim)))"

section \<open>The guarded client\<close>

text \<open>What the guard looks at in an object: its kind and its metadata.\<close>

datatype object_kind = KPod | KSecret | KEnvironment | KOther string

record client_object =
  co_Kind :: object_kind
  co_Meta :: ObjectMeta

definition authorize ::
  "('w, 'k) Verifier \<Rightarrow> mutationLease option \<Rightarrow> string \<Rightarrow> ('w, 'k tenancy_error + unit) state" where
  "authorize v lease namespace =
     (if namespace = [] then throwError (Refused ''mutation without a namespace'')
      else case lease of
        None \<Rightarrow> throwError (Refused ''no matching reconcile lease'')
      | Some l \<Rightarrow>
          if ml_namespace l \<noteq> namespace then throwError (Refused ''no matching reconcile lease'')
          else bindE (VerifyNamespace v namespace) (\<lambda>claim.
            if claim \<noteq> ml_claim l then throwError (OutOfScope ''claim changed during reconciliation'')
            else returnOk ()))"

definition exactFenceOwner :: "mutationLease \<Rightarrow> OwnerReference \<Rightarrow> bool" where
  "exactFenceOwner l ow \<longleftrightarrow>
     ow_Controller ow = Some True \<and> ow_APIVersion ow = ''swe.dev/v1alpha1'' \<and> ow_Kind ow = ''Environment''
     \<and> ow_Name ow = ml_environmentName l \<and> ow_UID ow = ml_environmentUID l"

definition authorizeFence ::
  "('w, 'k) Verifier \<Rightarrow> mutationLease option \<Rightarrow> client_object \<Rightarrow> bool \<Rightarrow> bool
     \<Rightarrow> ('w, 'k tenancy_error + unit) state" where
  "authorizeFence v lease obj status del =
     (case lease of
        None \<Rightarrow> throwError (Refused ''no matching fence lease'')
      | Some l \<Rightarrow>
          if \<not> ml_fenceOnly l \<or> om_Namespace (co_Meta obj) = [] \<or> om_Namespace (co_Meta obj) \<noteq> ml_namespace l
          then throwError (Refused ''no matching fence lease'')
          else bindE (verifyNamespaceIdentity v (ml_namespace l)) (\<lambda>claim.
            if claim \<noteq> ml_claim l then throwError (OutOfScope ''claim changed during fence'')
            else ifErr (verifyProjectClaim v (ml_namespace l) claim)
              (\<lambda>projectErr.
                if \<not> isOutOfScope projectErr then throwError projectErr
                else if status then
                  (if co_Kind obj \<noteq> KEnvironment \<or> om_Name (co_Meta obj) \<noteq> ml_environmentName l
                      \<or> om_UID (co_Meta obj) \<noteq> ml_environmentUID l
                   then throwError (Refused ''only the exact Environment'')
                   else returnOk ())
                else if del then
                  (if co_Kind obj \<noteq> KPod \<and> co_Kind obj \<noteq> KSecret
                   then throwError (Refused ''only Pod or Secret deletion'')
                   else if list_ex (exactFenceOwner l) (om_OwnerReferences (co_Meta obj)) then returnOk ()
                   else throwError (Refused ''child without exact Environment controller owner''))
                else throwError (Refused ''fence lease refuses this mutation''))
              (\<lambda>_. throwError (OutOfScope ''Project claim recovered during fence''))))"

definition fenceLease :: "mutationLease option \<Rightarrow> bool" where
  "fenceLease lease = (case lease of None \<Rightarrow> False | Some l \<Rightarrow> ml_fenceOnly l)"

text \<open>The mutations of the guarded client; \<open>call\<close> is the same mutation of the wrapped client.\<close>

datatype mutation =
  MApply | MCreate | MDelete | MUpdate | MPatch | MDeleteAllOf
| MStatusCreate | MStatusUpdate | MStatusPatch
| MSubCreate string | MSubUpdate string | MSubPatch string | MSubApply

definition guardMutation ::
  "('w, 'k) Verifier \<Rightarrow> mutationLease option \<Rightarrow> mutation \<Rightarrow> client_object
     \<Rightarrow> ('w, 'k tenancy_error + unit) state" where
  "guardMutation v lease m obj =
     (let ordinary = authorize v lease (om_Namespace (co_Meta obj));
          sub = (\<lambda>fenceStatus.
            if fenceLease lease then
              (if \<not> fenceStatus then throwError (Refused ''arbitrary subresource'')
               else authorizeFence v lease obj True False)
            else ordinary)
      in case m of
           MApply \<Rightarrow> throwError (Refused ''apply is unsupported'')
         | MDeleteAllOf \<Rightarrow> throwError (Refused ''DeleteAllOf is unsupported'')
         | MSubApply \<Rightarrow> throwError (Refused ''subresource apply is unsupported'')
         | MDelete \<Rightarrow> if fenceLease lease then authorizeFence v lease obj False True else ordinary
         | MCreate \<Rightarrow> ordinary | MUpdate \<Rightarrow> ordinary | MPatch \<Rightarrow> ordinary
         | MStatusCreate \<Rightarrow>
             if fenceLease lease then throwError (Refused ''subresource create'') else ordinary
         | MSubCreate name \<Rightarrow>
             if fenceLease lease then throwError (Refused ''subresource create'') else ordinary
         | MStatusUpdate \<Rightarrow> sub True | MStatusPatch \<Rightarrow> sub True
         | MSubUpdate name \<Rightarrow> sub (name = ''status'') | MSubPatch name \<Rightarrow> sub (name = ''status''))"

text \<open>A fence-only lease gives \<open>Create\<close>, \<open>Update\<close> and \<open>Patch\<close> the outcome of the fence check
  and never reaches the wrapped client.\<close>

definition guardedMutation ::
  "('w, 'k) Verifier \<Rightarrow> mutationLease option \<Rightarrow> mutation \<Rightarrow> client_object
     \<Rightarrow> ('w, 'k + 'a) state \<Rightarrow> ('w, 'k tenancy_error + 'a option) state" where
  "guardedMutation v lease m obj call =
     (if fenceLease lease \<and> (m = MCreate \<or> m = MUpdate \<or> m = MPatch)
      then bindE (authorizeFence v lease obj False False) (\<lambda>_. returnOk None)
      else bindE (guardMutation v lease m obj) (\<lambda>_.
             bindE (mapErr (Reader ''client'') call) (\<lambda>a. returnOk (Some a))))"

section \<open>What a verified claim rests on\<close>

lemmas run_simps = ifErr_def bindE_def mapErr_def

text \<open>The reads behind a verified namespace identity, in the order they are made.\<close>

definition identityProved ::
  "('w, 'k) Verifier \<Rightarrow> string \<Rightarrow> Claim \<Rightarrow> 'w \<Rightarrow> 'w \<Rightarrow> bool" where
  "identityProved v namespace claim w w' \<longleftrightarrow>
     (\<exists>rd inst ns w1. vf_Reader v = Some rd
        \<and> run_state (tr_Installation rd (ii_Key (vf_Installation v))) w = (Inr inst, w1)
        \<and> om_UID inst = ii_UID (vf_Installation v) \<and> \<not> deleting inst
        \<and> run_state (tr_Namespace rd namespace) w1 = (Inr ns, w')
        \<and> om_UID ns \<noteq> [] \<and> \<not> deleting ns \<and> claimedBy (vf_Installation v) ns
        \<and> claim = annotatedClaim ns \<and> checkClaim claim = (Inr claim :: unit tenancy_error + Claim))"

definition projectProved :: "('w, 'k) Verifier \<Rightarrow> string \<Rightarrow> Claim \<Rightarrow> 'w \<Rightarrow> 'w \<Rightarrow> bool" where
  "projectProved v namespace claim w w' \<longleftrightarrow>
     (\<exists>rd p. vf_Reader v = Some rd \<and> run_state (tr_Projects rd namespace) w = (Inr [p], w')
        \<and> om_Name (pj_Meta p) = cl_ProjectName claim \<and> om_UID (pj_Meta p) = cl_ProjectUID claim
        \<and> \<not> deleting (pj_Meta p))"

lemma checkClaim_ok: "checkClaim c = Inr c' \<Longrightarrow> c' = c \<and> checkClaim c = (Inr c :: unit tenancy_error + Claim)"
  by (auto simp: checkClaim_def split: if_splits)

lemma VerifyInstallation_ok:
  assumes "run_state (VerifyInstallation v) w = (Inr (), w1)"
  shows "\<exists>rd inst. vf_Reader v = Some rd
     \<and> run_state (tr_Installation rd (ii_Key (vf_Installation v))) w = (Inr inst, w1)
     \<and> om_UID inst = ii_UID (vf_Installation v) \<and> \<not> deleting inst"
  using assms
  by (auto simp: VerifyInstallation_def run_simps split: option.splits prod.splits sum.splits if_splits)

lemma verifyNamespaceIdentity_ok:
  fixes v :: "('w, 'k) Verifier"
  assumes "run_state (verifyNamespaceIdentity v namespace) w = (Inr claim, w')"
  shows "identityProved v namespace claim w w'"
proof -
  obtain w1 where i: "run_state (VerifyInstallation v) w = (Inr (), w1)"
    and rest: "run_state
      (if TrimSpace namespace = [] then throwError (OutOfScope ''namespace is required'')
       else bindE (mapErr (Reader ''revalidate Namespace'') (tr_Namespace (the (vf_Reader v)) namespace)) (\<lambda>ns.
         if om_UID ns = [] \<or> deleting ns then throwError (OutOfScope ''not a stable live identity'')
         else if \<not> claimedBy (vf_Installation v) ns then throwError (OutOfScope ''not claimed by Installation'')
         else ret (checkClaim (annotatedClaim ns)))) w1 = (Inr claim, w')"
    using assms unfolding verifyNamespaceIdentity_def bindE_def [of "VerifyInstallation v"] ifErr_def
    by (auto split: prod.splits sum.splits)
  from VerifyInstallation_ok [OF i] obtain rd inst where
    rd: "vf_Reader v = Some rd" "run_state (tr_Installation rd (ii_Key (vf_Installation v))) w = (Inr inst, w1)"
      "om_UID inst = ii_UID (vf_Installation v)" "\<not> deleting inst" by blast
  from rest rd(1) obtain ns where
    ns: "run_state (tr_Namespace rd namespace) w1 = (Inr ns, w')" "om_UID ns \<noteq> []" "\<not> deleting ns"
      "claimedBy (vf_Installation v) ns" "checkClaim (annotatedClaim ns) = (Inr claim :: 'k tenancy_error + Claim)"
    by (auto simp: run_simps split: prod.splits sum.splits if_splits)
  show ?thesis
    unfolding identityProved_def
    using rd ns(1-4) checkClaim_ok [OF ns(5)] by blast
qed

lemma verifyProjectClaim_ok:
  assumes "run_state (verifyProjectClaim v namespace claim) w = (Inr (), w')" "vf_Reader v \<noteq> None"
  shows "projectProved v namespace claim w w'"
  using assms
  by (auto simp: verifyProjectClaim_def projectProved_def run_simps
      split: prod.splits sum.splits if_splits list.splits)

lemma VerifyNamespace_ok:
  assumes "run_state (VerifyNamespace v namespace) w = (Inr claim, w')"
  shows "\<exists>w1. identityProved v namespace claim w w1 \<and> projectProved v namespace claim w1 w'"
proof -
  from assms obtain w1 where
    i: "run_state (verifyNamespaceIdentity v namespace) w = (Inr claim, w1)"
    and p: "run_state (verifyProjectClaim v namespace claim) w1 = (Inr (), w')"
    by (auto simp: VerifyNamespace_def run_simps split: prod.splits sum.splits)
  have id: "identityProved v namespace claim w w1" by (rule verifyNamespaceIdentity_ok [OF i])
  then have "vf_Reader v \<noteq> None" by (auto simp: identityProved_def)
  with id verifyProjectClaim_ok [OF p] show ?thesis by blast
qed

section \<open>What the guard lets through\<close>

text \<open>Ordinary authority: the whole claim is proved again and is the one the lease was issued for.\<close>

definition leaseProved ::
  "('w, 'k) Verifier \<Rightarrow> mutationLease option \<Rightarrow> string \<Rightarrow> 'w \<Rightarrow> 'w \<Rightarrow> bool" where
  "leaseProved v lease namespace w w' \<longleftrightarrow>
     (\<exists>l w1. lease = Some l \<and> ml_namespace l = namespace
        \<and> identityProved v namespace (ml_claim l) w w1 \<and> projectProved v namespace (ml_claim l) w1 w')"

text \<open>Fence authority: the namespace is still the claimed one, its Project is proved to be no longer the
  claimed one, and the object is the fenced Environment's status or an owned child to delete.\<close>

definition fenceProved ::
  "('w, 'k) Verifier \<Rightarrow> mutationLease option \<Rightarrow> mutation \<Rightarrow> client_object \<Rightarrow> 'w \<Rightarrow> 'w \<Rightarrow> bool" where
  "fenceProved v lease m obj w w' \<longleftrightarrow>
     (\<exists>l w1 e. lease = Some l \<and> om_Namespace (co_Meta obj) = ml_namespace l
        \<and> identityProved v (ml_namespace l) (ml_claim l) w w1
        \<and> run_state (verifyProjectClaim v (ml_namespace l) (ml_claim l)) w1 = (Inl e, w') \<and> isOutOfScope e
        \<and> (co_Kind obj = KEnvironment \<and> om_Name (co_Meta obj) = ml_environmentName l
             \<and> om_UID (co_Meta obj) = ml_environmentUID l
             \<and> m \<in> {MStatusUpdate, MStatusPatch, MSubUpdate ''status'', MSubPatch ''status''}
           \<or> m = MDelete \<and> co_Kind obj \<in> {KPod, KSecret}
             \<and> list_ex (exactFenceOwner l) (om_OwnerReferences (co_Meta obj))))"

lemma authorize_ok:
  assumes "run_state (authorize v lease namespace) w = (Inr (), w')"
  shows "namespace \<noteq> [] \<and> leaseProved v lease namespace w w'"
proof -
  from assms obtain l where l: "namespace \<noteq> []" "lease = Some l" "ml_namespace l = namespace"
    "run_state (VerifyNamespace v namespace) w = (Inr (ml_claim l), w')"
    by (auto simp: authorize_def run_simps split: option.splits prod.splits sum.splits if_splits)
  from VerifyNamespace_ok [OF l(4)] l show ?thesis by (auto simp: leaseProved_def)
qed

lemma authorizeFence_ok:
  assumes "run_state (authorizeFence v lease obj status del) w = (Inr (), w')"
  shows "\<exists>l w1 e. lease = Some l \<and> ml_fenceOnly l \<and> om_Namespace (co_Meta obj) = ml_namespace l
     \<and> identityProved v (ml_namespace l) (ml_claim l) w w1
     \<and> run_state (verifyProjectClaim v (ml_namespace l) (ml_claim l)) w1 = (Inl e, w') \<and> isOutOfScope e
     \<and> (if status then co_Kind obj = KEnvironment \<and> om_Name (co_Meta obj) = ml_environmentName l
            \<and> om_UID (co_Meta obj) = ml_environmentUID l
        else del \<and> co_Kind obj \<in> {KPod, KSecret}
            \<and> list_ex (exactFenceOwner l) (om_OwnerReferences (co_Meta obj)))"
proof -
  from assms obtain l w1 e where
    l: "lease = Some l" "ml_fenceOnly l" "om_Namespace (co_Meta obj) = ml_namespace l"
    and i: "run_state (verifyNamespaceIdentity v (ml_namespace l)) w = (Inr (ml_claim l), w1)"
    and p: "run_state (verifyProjectClaim v (ml_namespace l) (ml_claim l)) w1 = (Inl e, w')"
    and e: "isOutOfScope e"
    and k: "if status then co_Kind obj = KEnvironment \<and> om_Name (co_Meta obj) = ml_environmentName l
              \<and> om_UID (co_Meta obj) = ml_environmentUID l
            else del \<and> co_Kind obj \<in> {KPod, KSecret}
              \<and> list_ex (exactFenceOwner l) (om_OwnerReferences (co_Meta obj))"
    by (auto simp: authorizeFence_def run_simps split: option.splits prod.splits sum.splits if_splits)
  with verifyNamespaceIdentity_ok [OF i] show ?thesis by blast
qed

lemma guardMutation_ok:
  assumes "run_state (guardMutation v lease m obj) w = (Inr (), w')"
    "\<not> (fenceLease lease \<and> (m = MCreate \<or> m = MUpdate \<or> m = MPatch))"
  shows "if fenceLease lease then fenceProved v lease m obj w w'
         else leaseProved v lease (om_Namespace (co_Meta obj)) w w'"
proof (cases "fenceLease lease")
  case False
  with assms(1) have "run_state (authorize v lease (om_Namespace (co_Meta obj))) w = (Inr (), w')"
    by (auto simp: guardMutation_def Let_def split: mutation.splits)
  from authorize_ok [OF this] False show ?thesis by simp
next
  case True
  have "\<exists>status del. run_state (authorizeFence v lease obj status del) w = (Inr (), w')
      \<and> (if status then m \<in> {MStatusUpdate, MStatusPatch, MSubUpdate ''status'', MSubPatch ''status''}
         else m = MDelete)"
    using assms True
    by (auto simp: guardMutation_def Let_def split: mutation.splits if_splits)
  then obtain status del where s: "run_state (authorizeFence v lease obj status del) w = (Inr (), w')"
    "if status then m \<in> {MStatusUpdate, MStatusPatch, MSubUpdate ''status'', MSubPatch ''status''} else m = MDelete"
    by blast
  show ?thesis
    using authorizeFence_ok [OF s(1)] s(2) True
    by (auto simp: fenceProved_def split: if_splits)
qed

text \<open>A fence-only lease refuses every mutation but the two it is for.\<close>

lemma authorizeFence_refuses_run:
  "\<exists>e w'. run_state (authorizeFence v lease obj False False) w = (Inl e, w')"
proof -
  obtain r w' where r: "run_state (authorizeFence v lease obj False False) w = (r, w')" by force
  show ?thesis
  proof (cases r)
    case (Inr u)
    with r have "run_state (authorizeFence v lease obj False False) w = (Inr (), w')" by simp
    from authorizeFence_ok [OF this] show ?thesis by auto
  qed (use r in blast)
qed

definition afterCall :: "('k + 'a) \<times> 'w \<Rightarrow> ('k tenancy_error + 'a option) \<times> 'w" where
  "afterCall r = (case r of (Inl k, w) \<Rightarrow> (Inl (Reader ''client'' k), w) | (Inr a, w) \<Rightarrow> (Inr (Some a), w))"

text \<open>(C17) Every mutation through the guarded client is mediated. Either it is refused, with an outcome
  that does not depend on the wrapped client, so nothing was sent; or the wrapped client is called
  immediately after the authority was proved by fresh reads. With an ordinary lease, that is the exact live
  Installation, the claimed Namespace and its sole live Project, all equal to the claim the lease was
  issued for. With a fence-only lease it is the same namespace whose Project is proved to be no longer the
  claimed one, and the mutation is the status of the fenced Environment or the deletion of a Pod or Secret
  controlled by it, and nothing else.\<close>

theorem guarded_mutation_mediated:
  "(\<exists>e w'. \<forall>call. run_state (guardedMutation v lease m obj call) w = (Inl e, w'))
   \<or> (\<exists>w1. (if fenceLease lease then fenceProved v lease m obj w w1
            else leaseProved v lease (om_Namespace (co_Meta obj)) w w1)
        \<and> (\<forall>call. run_state (guardedMutation v lease m obj call) w = afterCall (run_state call w1)))"
proof (cases "fenceLease lease \<and> (m = MCreate \<or> m = MUpdate \<or> m = MPatch)")
  case True
  then show ?thesis
    using authorizeFence_refuses_run [of v lease obj w]
    by (auto simp: guardedMutation_def run_simps)
next
  case False
  obtain r w1 where g: "run_state (guardMutation v lease m obj) w = (r, w1)" by force
  show ?thesis
  proof (cases r)
    case (Inl e)
    with g False show ?thesis by (auto simp: guardedMutation_def run_simps)
  next
    case (Inr u)
    with g have ok: "run_state (guardMutation v lease m obj) w = (Inr (), w1)" by simp
    have "\<forall>call. run_state (guardedMutation v lease m obj call) w = afterCall (run_state call w1)"
      using ok False
      by (auto simp: guardedMutation_def run_simps afterCall_def split: prod.splits sum.splits)
    with guardMutation_ok [OF ok False] show ?thesis by blast
  qed
qed

end
