(* ===== verification/Tenancy_Catalog.thy ===== *)
theory Tenancy_Catalog
  imports Tenancy
begin

text \<open>
  The binding of catalog Templates to the live Installation (\<open>src/internal/tenancy/catalog.go\<close>). The state is the world of
  the API client with a log of the patches sent.
\<close>

section \<open>Binding\<close>

record ('w, 'q, 'k) catalog_client =
  cc_List :: "string \<Rightarrow> ('w, 'k + 'q EnvironmentTemplate list) state"
  cc_Patch :: "'q EnvironmentTemplate \<Rightarrow> 'q EnvironmentTemplate \<Rightarrow> ('w, 'k option) state"

text \<open>A patch: the object before, which the optimistic lock pins, and after.\<close>

type_synonym 'q catalog_patch = "'q EnvironmentTemplate \<times> 'q EnvironmentTemplate"
type_synonym ('w, 'q) catalog_state = "('w, 'q catalog_patch) logged"

datatype 'k catalog_error =
  CatalogClient string 'k
| IncompleteSource string
| ForeignSource string string
| ConflictingOwner string OwnerReference

definition sourceOf :: "ObjectMeta \<Rightarrow> ObjectMeta \<Rightarrow> bool" where
  "sourceOf installation m \<longleftrightarrow>
     meta_annotation m CatalogSourceAnnotation = ''true''
     \<and> meta_annotation m InstallationNamespaceAnnotation = om_Namespace installation
     \<and> meta_annotation m InstallationNameAnnotation = om_Name installation"

definition installationOwner :: "OwnerReference \<Rightarrow> bool" where
  "installationOwner ow \<longleftrightarrow> ow_APIVersion ow = platformGroupVersion \<and> ow_Kind ow = ''Installation''"

text \<open>The loop over the owners: the owner in conflict, or whether the Installation is an owner.\<close>

fun ownerFound :: "ObjectMeta \<Rightarrow> bool \<Rightarrow> OwnerReference list \<Rightarrow> OwnerReference + bool" where
  "ownerFound installation found [] = Inr found"
| "ownerFound installation found (ow # ows) =
     (if \<not> installationOwner ow then ownerFound installation found ows
      else if found \<or> ow_Name ow \<noteq> om_Name installation \<or> ow_UID ow \<noteq> om_UID installation then Inl ow
      else ownerFound installation True ows)"

definition ownerOf :: "ObjectMeta \<Rightarrow> OwnerReference" where
  "ownerOf installation = \<lparr>ow_APIVersion = platformGroupVersion, ow_Kind = ''Installation'', ow_Name = om_Name installation,
     ow_UID = om_UID installation, ow_Controller = None\<rparr>"

definition bindSource :: "ObjectMeta \<Rightarrow> bool \<Rightarrow> ObjectMeta \<Rightarrow> ObjectMeta" where
  "bindSource installation found m =
     m\<lparr>om_Annotations := mput InstallationUIDAnnotation (om_UID installation) (om_Annotations m),
       om_OwnerReferences := om_OwnerReferences m @ (if found then [] else [ownerOf installation])\<rparr>"

text \<open>\<open>reflect.DeepEqual\<close> of the annotations before and after compares Go maps: they are equal exactly when the entry was
  there. The owners are equal exactly when none was appended.\<close>

definition alreadyBound :: "ObjectMeta \<Rightarrow> bool \<Rightarrow> ObjectMeta \<Rightarrow> bool" where
  "alreadyBound installation found m \<longleftrightarrow>
     map_of (om_Annotations m) InstallationUIDAnnotation = Some (om_UID installation) \<and> found"

fun bindLoop ::
  "('w, 'q, 'k) catalog_client \<Rightarrow> ObjectMeta \<Rightarrow> 'q EnvironmentTemplate list
     \<Rightarrow> (('w, 'q) catalog_state, 'k catalog_error + unit) state" where
  "bindLoop kube installation [] = returnOk ()"
| "bindLoop kube installation (t # ts) =
     (let m = et_Meta t; value = meta_annotation m InstallationUIDAnnotation in
      if \<not> sourceOf installation m then bindLoop kube installation ts
      else if meta_annotation m CatalogNameAnnotation = [] \<or> meta_annotation m CatalogRevisionAnnotation = []
      then throwError (IncompleteSource (om_Name m))
      else if value \<noteq> [] \<and> value \<noteq> om_UID installation then throwError (ForeignSource (om_Name m) value)
      else case ownerFound installation False (om_OwnerReferences m) of
        Inl ow \<Rightarrow> throwError (ConflictingOwner (om_Name m) ow)
      | Inr found \<Rightarrow>
          if alreadyBound installation found m then bindLoop kube installation ts
          else
            let t' = t\<lparr>et_Meta := bindSource installation found m\<rparr> in
            do {
              r \<leftarrow> ask (cc_Patch kube t t') (\<lambda>_. [(t, t')]);
              case r of
                Some e \<Rightarrow> throwError (CatalogClient ''bind catalog source'' e)
              | None \<Rightarrow> bindLoop kube installation ts
            })"

definition PrepareCatalogSources ::
  "('w, 'q, 'k) catalog_client \<Rightarrow> ObjectMeta \<Rightarrow> (('w, 'q) catalog_state, 'k catalog_error + unit) state" where
  "PrepareCatalogSources kube installation =
     bindE (mapErr (CatalogClient ''list installation catalog sources'') (ask (cc_List kube (om_Namespace installation)) (\<lambda>_. [])))
       (bindLoop kube installation)"

section \<open>What is patched\<close>

text \<open>The loop accepts at most one Installation owner, and that one the Installation itself.\<close>

definition ownerIs :: "ObjectMeta \<Rightarrow> OwnerReference \<Rightarrow> bool" where
  "ownerIs i ow \<longleftrightarrow> ow_Name ow = om_Name i \<and> ow_UID ow = om_UID i"

lemma ownerFound_ok:
  "ownerFound i found ows = Inr r \<longleftrightarrow>
     (let mine = filter installationOwner ows in
      mine = [] \<and> r = found \<or> (\<exists>ow. mine = [ow] \<and> ownerIs i ow) \<and> \<not> found \<and> r)"
proof (induction ows arbitrary: found)
  case (Cons ow ows)
  then show ?case
    by (cases "installationOwner ow"; cases found; cases "ownerIs i ow") (auto simp: Let_def ownerIs_def)
qed auto

text \<open>A source is bound: it carries the UID of the Installation, which is its only Installation owner.\<close>

definition boundSource :: "ObjectMeta \<Rightarrow> ObjectMeta \<Rightarrow> bool" where
  "boundSource i m \<longleftrightarrow>
     map_of (om_Annotations m) InstallationUIDAnnotation = Some (om_UID i)
     \<and> (\<exists>ow. filter installationOwner (om_OwnerReferences m) = [ow] \<and> ownerIs i ow)"

lemma bindSource_bound:
  assumes "ownerFound i False (om_OwnerReferences m) = Inr found"
  shows "boundSource i (bindSource i found m)"
  using assms
  by (auto simp: ownerFound_ok Let_def boundSource_def bindSource_def ownerOf_def installationOwner_def ownerIs_def)

lemma bound_iff: "ownerFound i False (om_OwnerReferences m) = Inr found \<Longrightarrow> alreadyBound i found m \<longleftrightarrow> boundSource i m"
  by (auto simp: ownerFound_ok Let_def alreadyBound_def boundSource_def)

text \<open>Every patch turns an unbound source of this Installation, claimed by no other, into a bound one, and changes nothing
  but that annotation and the appended owner.\<close>

definition goodPatch :: "ObjectMeta \<Rightarrow> 'q catalog_patch \<Rightarrow> bool" where
  "goodPatch i p \<longleftrightarrow>
     (case p of (t, t') \<Rightarrow>
        sourceOf i (et_Meta t) \<and> meta_annotation (et_Meta t) InstallationUIDAnnotation \<in> {[], om_UID i}
        \<and> \<not> boundSource i (et_Meta t) \<and> boundSource i (et_Meta t')
        \<and> (\<exists>found. t' = t\<lparr>et_Meta := bindSource i found (et_Meta t)\<rparr>))"

lemma bindLoop_patches: "emits lw_log (goodPatch i) (bindLoop kube i ts)"
proof (induction ts)
  case (Cons t ts)
  have "goodPatch i (t, t\<lparr>et_Meta := bindSource i found (et_Meta t)\<rparr>)"
    if "sourceOf i (et_Meta t)" "meta_annotation (et_Meta t) InstallationUIDAnnotation \<in> {[], om_UID i}"
      "ownerFound i False (om_OwnerReferences (et_Meta t)) = Inr found" "\<not> alreadyBound i found (et_Meta t)" for found
    using that bindSource_bound [OF that(3)] bound_iff [OF that(3)] by (auto simp: goodPatch_def)
  then show ?case using Cons by (auto simp: Let_def intro!: emits_intros)
qed (simp add: emits_intros)

lemma catalog_patches_bind: "emits lw_log (goodPatch i) (PrepareCatalogSources kube i)"
  unfolding PrepareCatalogSources_def by (intro emits_intros bindLoop_patches) simp

text \<open>Over a list whose sources are all complete and bound nothing is patched: the preparation is idempotent.\<close>

lemma bound_ownerFound: "boundSource i m \<Longrightarrow> ownerFound i False (om_OwnerReferences m) = Inr True"
  by (auto simp: ownerFound_ok Let_def boundSource_def)

lemma bindLoop_idempotent:
  assumes "\<forall>t\<in>set ts. sourceOf i (et_Meta t) \<longrightarrow> boundSource i (et_Meta t)
      \<and> meta_annotation (et_Meta t) CatalogNameAnnotation \<noteq> [] \<and> meta_annotation (et_Meta t) CatalogRevisionAnnotation \<noteq> []"
  shows "run_state (bindLoop kube i ts) s = (Inr (), s)"
  using assms
proof (induction ts)
  case (Cons t ts)
  show ?case
  proof (cases "sourceOf i (et_Meta t)")
    case True
    with Cons.prems have b: "boundSource i (et_Meta t)" by simp
    note f = bound_ownerFound [OF b]
    have "meta_annotation (et_Meta t) InstallationUIDAnnotation = om_UID i" using b by (simp add: boundSource_def annotation_def)
    with Cons True b f bound_iff [OF f] show ?thesis by (simp add: Let_def)
  qed (use Cons in \<open>simp add: Let_def\<close>)
qed simp

end
