(* ===== verification/Egress_Config.thy ===== *)
theory Egress_Config
  imports Netip Api_Types
begin

text \<open>
  The administrator's egress policy document (\<open>src/internal/egresspolicy/config.go\<close>): the immutable,
  content-addressed ConfigMap that carries it, the strict parser with its canonical form, and the restricted
  network profile with its canonical addresses and prefixes; and the denied prefixes that the proxy derives from
  the profile (\<open>deniedPrefixes\<close> of \<open>src/internal/egressproxy/currentness.go\<close>).

  Library code is in \<open>config_lib\<close>: the JSON codec, SHA-256, the validation of DNS names and the reader of image
  references.
\<close>

section \<open>Documents\<close>

abbreviation "ConfigAPIVersion \<equiv> ''swe.dev/egress-policy/v1''"
abbreviation "ConfigDataKey \<equiv> ''policy.json''"
abbreviation "ConfigContentSHA256Annotation \<equiv> ''swe.dev/egress-policy-content-sha256''"
abbreviation "RestrictedProfileCalicoV1 \<equiv> ''calico-v3.32.1''"
abbreviation "ModeUnrestricted \<equiv> ''unrestricted''"
abbreviation "ModeRestricted \<equiv> ''restricted''"

record RestrictedProfile =
  rp_Name :: string
  rp_ResolverIPs :: "string list"
  rp_APIServerCIDRs :: "string list"
  rp_PodCIDRs :: "string list"
  rp_ServiceCIDRs :: "string list"
  rp_NodeCIDRs :: "string list"
  rp_ControlPlaneCIDRs :: "string list"
  rp_AdditionalDeniedCIDRs :: "string list"

text \<open>\<open>Config\<close>, and \<open>configWire\<close>, which has the same fields with host names not yet parsed.\<close>

record Config =
  cf_APIVersion :: string
  cf_Mode :: string
  cf_Ceiling :: "string list"
  cf_Baseline :: "string list"
  cf_RestrictedProfile :: "RestrictedProfile option"
  cf_TLSSecretName :: string
  cf_ProxyImage :: string

type_synonym configWire = Config

record ParsedConfig =
  pc_Config :: Config
  pc_ContentSHA256 :: string

text \<open>The fields of \<open>corev1.ConfigMap\<close> the parser reads; \<open>Data\<close> and \<open>BinaryData\<close> are Go maps.\<close>

record ConfigMap =
  cm_Meta :: ObjectMeta
  cm_Immutable :: "bool option"
  cm_Data :: "(string \<times> string) list"
  cm_BinaryData :: "(string \<times> string) list"

text \<open>What \<open>reference.ParseNormalizedNamed\<close> tells of an image: the algorithm of its digest, if it has one, whether
  it has a tag, and its familiar form.\<close>

record image_reference =
  im_Digest :: "string option"
  im_Tagged :: bool
  im_Familiar :: string

text \<open>\<open>ec_Decode\<close> is the strict decoder: an error, or the first value with whether the input ends after it.\<close>

record config_lib =
  ec_Decode :: "string \<Rightarrow> string + configWire \<times> bool"
  ec_Marshal :: "Config \<Rightarrow> string"
  ec_Sha256 :: "string \<Rightarrow> string"
  ec_Subdomain :: "string \<Rightarrow> string list"
  ec_Image :: "string \<Rightarrow> image_reference option"

datatype config_error =
  ConfigText string
| ConfigDecode string
| ConfigPolicy policy_error

section \<open>Canonical sets of addresses and prefixes\<close>

definition canonicalAddr :: "string \<Rightarrow> Addr option" where
  "canonicalAddr value =
     (case ParseAddr value of
        None \<Rightarrow> None
      | Some address \<Rightarrow>
          if Zone address \<noteq> [] \<or> Is4In6 address \<or> AddrString address \<noteq> value then None else Some address)"

definition canonicalPrefix :: "string \<Rightarrow> Prefix option" where
  "canonicalPrefix value =
     (case ParsePrefix value of
        None \<Rightarrow> None
      | Some p \<Rightarrow>
          if Zone (PrefixAddr p) \<noteq> [] \<or> Is4In6 (PrefixAddr p) \<or> p \<noteq> Masked p \<or> PrefixString p \<noteq> value
          then None else Some p)"

text \<open>The loop over the values that both sets share: a text that is not canonical, and one whose value was
  seen already, are errors.\<close>

fun canonicalLoop :: "string \<Rightarrow> string \<Rightarrow> (string \<Rightarrow> 'a option) \<Rightarrow> 'a list \<Rightarrow> string list \<Rightarrow> config_error option" where
  "canonicalLoop name what parse seen [] = None"
| "canonicalLoop name what parse seen (value # values) =
     (case parse value of
        None \<Rightarrow> Some (ConfigText (name @ '' contains a non-canonical '' @ what))
      | Some x \<Rightarrow>
          if x \<in> set seen then Some (ConfigText (name @ '' contains a duplicate''))
          else canonicalLoop name what parse (x # seen) values)"

definition canonicalSet ::
  "string \<Rightarrow> (string \<Rightarrow> 'a option) \<Rightarrow> string \<Rightarrow> string list \<Rightarrow> nat \<Rightarrow> nat \<Rightarrow> config_error + string list" where
  "canonicalSet what parse name values minimum maximum =
     (if length values < minimum \<or> maximum < length values
      then Inl (ConfigText (name @ '' must contain '' @ format_nat minimum @ ''-'' @ format_nat maximum @ '' entries''))
      else case canonicalLoop name what parse [] values of
             Some e \<Rightarrow> Inl e
           | None \<Rightarrow> Inr (sort values))"

definition canonicalIPs :: "string \<Rightarrow> string list \<Rightarrow> nat \<Rightarrow> nat \<Rightarrow> config_error + string list" where
  "canonicalIPs = canonicalSet ''IP literal'' canonicalAddr"

definition canonicalCIDRs :: "string \<Rightarrow> string list \<Rightarrow> nat \<Rightarrow> nat \<Rightarrow> config_error + string list" where
  "canonicalCIDRs = canonicalSet ''CIDR'' canonicalPrefix"

text \<open>The loop over the six sets of prefixes writes each canonical set back into the profile.\<close>

definition validateRestrictedProfile :: "RestrictedProfile \<Rightarrow> config_error + RestrictedProfile" where
  "validateRestrictedProfile profile =
     (if rp_Name profile \<noteq> RestrictedProfileCalicoV1
      then Inl (ConfigText ''restricted profile must be calico-v3.32.1'')
      else
        bind_result (canonicalIPs ''resolverIPs'' (rp_ResolverIPs profile) 1 4) (\<lambda>resolvers.
        bind_result (canonicalCIDRs ''apiServerCIDRs'' (rp_APIServerCIDRs profile) 1 8) (\<lambda>apiServer.
        bind_result (canonicalCIDRs ''podCIDRs'' (rp_PodCIDRs profile) 1 16) (\<lambda>pods.
        bind_result (canonicalCIDRs ''serviceCIDRs'' (rp_ServiceCIDRs profile) 1 16) (\<lambda>services.
        bind_result (canonicalCIDRs ''nodeCIDRs'' (rp_NodeCIDRs profile) 1 32) (\<lambda>nodes.
        bind_result (canonicalCIDRs ''controlPlaneCIDRs'' (rp_ControlPlaneCIDRs profile) 1 16) (\<lambda>controlPlane.
        bind_result (canonicalCIDRs ''additionalDeniedCIDRs'' (rp_AdditionalDeniedCIDRs profile) 0 32) (\<lambda>additional.
          Inr (profile\<lparr>rp_ResolverIPs := resolvers, rp_APIServerCIDRs := apiServer, rp_PodCIDRs := pods,
                 rp_ServiceCIDRs := services, rp_NodeCIDRs := nodes, rp_ControlPlaneCIDRs := controlPlane,
                 rp_AdditionalDeniedCIDRs := additional\<rparr>)))))))))"

section \<open>The parser\<close>

definition immutableImage :: "config_lib \<Rightarrow> string \<Rightarrow> bool" where
  "immutableImage lib proxyImage =
     (case ec_Image lib proxyImage of
        None \<Rightarrow> False
      | Some ref \<Rightarrow> im_Digest ref = Some ''sha256'' \<and> \<not> im_Tagged ref \<and> im_Familiar ref = proxyImage)"

text \<open>The switch on the mode: the profile of the configuration.\<close>

definition modeProfile :: "configWire \<Rightarrow> config_error + RestrictedProfile option" where
  "modeProfile wire =
     (if cf_Mode wire = ModeUnrestricted then
        (if cf_RestrictedProfile wire \<noteq> None
         then Inl (ConfigText ''unrestricted mode must not define a restricted profile'') else Inr None)
      else if cf_Mode wire = ModeRestricted then
        (case cf_RestrictedProfile wire of
           None \<Rightarrow> Inl (ConfigText ''restricted mode requires a profile'')
         | Some profile \<Rightarrow> bind_result (validateRestrictedProfile profile) (\<lambda>p. Inr (Some p)))
      else Inl (ConfigText ''mode must be unrestricted or restricted''))"

definition parseConfig :: "config_lib \<Rightarrow> string \<Rightarrow> config_error + Config \<times> string" where
  "parseConfig lib raw =
     (case ec_Decode lib raw of
        Inl e \<Rightarrow> Inl (ConfigDecode e)
      | Inr (wire, atEnd) \<Rightarrow>
          if \<not> atEnd then Inl (ConfigText ''policy.json has trailing content'')
          else if cf_APIVersion wire \<noteq> ConfigAPIVersion then Inl (ConfigText ''unsupported egress policy apiVersion'')
          else case Evaluate (cf_Ceiling wire) (cf_Baseline wire) [] of
            Inl e \<Rightarrow> Inl (ConfigPolicy e)
          | Inr policy \<Rightarrow>
              if ec_Subdomain lib (cf_TLSSecretName wire) \<noteq> []
              then Inl (ConfigText ''TLS Secret name must be a DNS-1123 subdomain'')
              else if \<not> immutableImage lib (cf_ProxyImage wire)
              then Inl (ConfigText ''proxy image must be an immutable repository@sha256 identity'')
              else bind_result (modeProfile wire) (\<lambda>profile.
                let config = \<lparr>cf_APIVersion = cf_APIVersion wire, cf_Mode = cf_Mode wire,
                      cf_Ceiling = po_Ceiling policy, cf_Baseline = po_Baseline policy,
                      cf_RestrictedProfile = profile, cf_TLSSecretName = cf_TLSSecretName wire,
                      cf_ProxyImage = cf_ProxyImage wire\<rparr> in
                Inr (config, ec_Marshal lib config)))"

text \<open>The pointer to the ConfigMap may be nil.\<close>

definition ParseConfigMap :: "config_lib \<Rightarrow> ConfigMap option \<Rightarrow> config_error + ParsedConfig" where
  "ParseConfigMap lib configMap =
     (case configMap of
        None \<Rightarrow> Inl (ConfigText ''stable live policy ConfigMap is required'')
      | Some cm \<Rightarrow>
          if om_UID (cm_Meta cm) = [] \<or> deleting (cm_Meta cm)
          then Inl (ConfigText ''stable live policy ConfigMap is required'')
          else if cm_Immutable cm \<noteq> Some True then Inl (ConfigText ''policy ConfigMap must be immutable'')
          else if length (cm_Data cm) \<noteq> 1 \<or> length (cm_BinaryData cm) \<noteq> 0
          then Inl (ConfigText ''policy ConfigMap must contain only policy.json'')
          else case map_of (cm_Data cm) ConfigDataKey of
            None \<Rightarrow> Inl (ConfigText ''policy ConfigMap has no policy.json'')
          | Some raw \<Rightarrow>
              if raw = [] then Inl (ConfigText ''policy ConfigMap has no policy.json'')
              else bind_result (parseConfig lib raw) (\<lambda>(parsed, canonical).
                if raw \<noteq> canonical then Inl (ConfigText ''policy.json is not canonical'')
                else
                  let digest = ec_Sha256 lib canonical in
                  if meta_annotation (cm_Meta cm) ConfigContentSHA256Annotation \<noteq> hex_encode digest
                  then Inl (ConfigText ''policy ConfigMap content address does not match canonical content'')
                  else Inr \<lparr>pc_Config = parsed, pc_ContentSHA256 = digest\<rparr>))"

section \<open>Denied prefixes\<close>

definition configuredCIDRs :: "RestrictedProfile \<Rightarrow> string list" where
  "configuredCIDRs p = rp_APIServerCIDRs p @ rp_PodCIDRs p @ rp_ServiceCIDRs p @ rp_NodeCIDRs p
     @ rp_ControlPlaneCIDRs p @ rp_AdditionalDeniedCIDRs p"

fun allSome :: "'a option list \<Rightarrow> 'a list option" where
  "allSome [] = Some []"
| "allSome (x # xs) = (case (x, allSome xs) of (Some y, Some ys) \<Rightarrow> Some (y # ys) | _ \<Rightarrow> None)"

text \<open>\<open>MustParsePrefix\<close> and \<open>MustParseAddr\<close> panic on a text they cannot read, here \<open>None\<close>.\<close>

definition hostPrefix :: "string \<Rightarrow> Prefix option" where
  "hostPrefix value =
     (case ParseAddr value of None \<Rightarrow> None | Some address \<Rightarrow> PrefixFrom address (BitLen address))"

definition deniedPrefixes :: "RestrictedProfile \<Rightarrow> Prefix list option" where
  "deniedPrefixes profile =
     allSome (map ParsePrefix (configuredCIDRs profile) @ map hostPrefix (rp_ResolverIPs profile))"

section \<open>Canonical documents\<close>

lemma canonicalLoop_None:
  "canonicalLoop name what parse seen vs = None \<longleftrightarrow>
     (\<forall>v\<in>set vs. parse v \<noteq> None) \<and> distinct (map parse vs) \<and> Some ` set seen \<inter> parse ` set vs = {}"
  by (induction vs arbitrary: seen) (auto split: option.split)

lemma canonicalAddr_text: "canonicalAddr v = Some a \<Longrightarrow> AddrString a = v"
  by (auto simp: canonicalAddr_def split: option.splits if_splits)

lemma canonicalPrefix_text: "canonicalPrefix v = Some p \<Longrightarrow> PrefixString p = v"
  by (auto simp: canonicalPrefix_def split: option.splits if_splits)

text \<open>A set is accepted exactly when it has as many entries as it may, all canonical and no two equal.\<close>

definition canonical_texts :: "(string \<Rightarrow> 'a option) \<Rightarrow> nat \<Rightarrow> nat \<Rightarrow> string list \<Rightarrow> bool" where
  "canonical_texts parse minimum maximum vs \<longleftrightarrow>
     minimum \<le> length vs \<and> length vs \<le> maximum \<and> distinct vs \<and> (\<forall>v\<in>set vs. parse v \<noteq> None)"

lemma canonicalSet_ok:
  assumes "\<And>v x. parse v = Some x \<Longrightarrow> text x = v"
  shows "canonicalSet what parse name vs m n = Inr r \<longleftrightarrow> canonical_texts parse m n vs \<and> r = sort vs"
proof -
  have "distinct (map parse vs) \<longleftrightarrow> distinct vs" if "\<forall>v\<in>set vs. parse v \<noteq> None"
  proof -
    have "inj_on parse (set vs)" using that assms by (auto intro!: inj_onI) metis
    then show ?thesis by (simp add: distinct_map)
  qed
  then show ?thesis
    using canonicalLoop_None [of name what parse "[]" vs]
    by (auto simp: canonicalSet_def canonical_texts_def split: option.split)
qed

lemmas canonicalIPs_ok = canonicalSet_ok [where parse = canonicalAddr and what = "''IP literal''",
  OF canonicalAddr_text, folded canonicalIPs_def]

lemmas canonicalCIDRs_ok = canonicalSet_ok [where parse = canonicalPrefix and what = "''CIDR''",
  OF canonicalPrefix_text, folded canonicalCIDRs_def]

definition valid_profile :: "RestrictedProfile \<Rightarrow> bool" where
  "valid_profile p \<longleftrightarrow>
     rp_Name p = RestrictedProfileCalicoV1
     \<and> canonical_texts canonicalAddr 1 4 (rp_ResolverIPs p)
     \<and> canonical_texts canonicalPrefix 1 8 (rp_APIServerCIDRs p)
     \<and> canonical_texts canonicalPrefix 1 16 (rp_PodCIDRs p)
     \<and> canonical_texts canonicalPrefix 1 16 (rp_ServiceCIDRs p)
     \<and> canonical_texts canonicalPrefix 1 32 (rp_NodeCIDRs p)
     \<and> canonical_texts canonicalPrefix 1 16 (rp_ControlPlaneCIDRs p)
     \<and> canonical_texts canonicalPrefix 0 32 (rp_AdditionalDeniedCIDRs p)"

definition sort_profile :: "RestrictedProfile \<Rightarrow> RestrictedProfile" where
  "sort_profile p = p\<lparr>rp_ResolverIPs := sort (rp_ResolverIPs p), rp_APIServerCIDRs := sort (rp_APIServerCIDRs p),
     rp_PodCIDRs := sort (rp_PodCIDRs p), rp_ServiceCIDRs := sort (rp_ServiceCIDRs p),
     rp_NodeCIDRs := sort (rp_NodeCIDRs p), rp_ControlPlaneCIDRs := sort (rp_ControlPlaneCIDRs p),
     rp_AdditionalDeniedCIDRs := sort (rp_AdditionalDeniedCIDRs p)\<rparr>"

lemma validateRestrictedProfile_ok:
  "validateRestrictedProfile p = Inr q \<longleftrightarrow> valid_profile p \<and> q = sort_profile p"
  by (auto simp: validateRestrictedProfile_def valid_profile_def sort_profile_def bind_result_Inr
      canonicalIPs_ok canonicalCIDRs_ok)

lemma canonical_texts_sort [simp]: "canonical_texts parse m n (sort vs) = canonical_texts parse m n vs"
  by (simp add: canonical_texts_def)

lemma sort_profile_idem [simp]: "sort_profile (sort_profile p) = sort_profile p"
  by (simp add: sort_profile_def sorted_sort_id)

lemma valid_sort_profile [simp]: "valid_profile (sort_profile p) = valid_profile p"
  by (simp add: valid_profile_def sort_profile_def)

text \<open>The canonical configurations: every set valid and in order, and a profile exactly in restricted mode.\<close>

definition canonical_mode :: "string \<Rightarrow> RestrictedProfile option \<Rightarrow> bool" where
  "canonical_mode mode profile \<longleftrightarrow>
     mode = ModeUnrestricted \<and> profile = None
     \<or> mode = ModeRestricted \<and> (\<exists>p. profile = Some p \<and> valid_profile p \<and> sort_profile p = p)"

definition canonical_config :: "config_lib \<Rightarrow> Config \<Rightarrow> bool" where
  "canonical_config lib c \<longleftrightarrow>
     cf_APIVersion c = ConfigAPIVersion
     \<and> valid_set 256 (cf_Ceiling c) \<and> sorted (cf_Ceiling c)
     \<and> valid_set 64 (cf_Baseline c) \<and> sorted (cf_Baseline c) \<and> set (cf_Baseline c) \<subseteq> set (cf_Ceiling c)
     \<and> ec_Subdomain lib (cf_TLSSecretName c) = [] \<and> immutableImage lib (cf_ProxyImage c)
     \<and> canonical_mode (cf_Mode c) (cf_RestrictedProfile c)"

lemma valid_set_sort [simp]: "valid_set n (sort vs) = valid_set n vs"
  by (simp add: valid_set_def)

lemma valid_set_Nil [simp]: "valid_set n []"
  by (simp add: valid_set_def)

lemma modeProfile_canonical: "modeProfile wire = Inr profile \<Longrightarrow> canonical_mode (cf_Mode wire) profile"
  by (auto simp: modeProfile_def canonical_mode_def bind_result_Inr validateRestrictedProfile_ok
      split: if_splits option.splits)

lemma modeProfile_fixed:
  "canonical_mode (cf_Mode c) (cf_RestrictedProfile c) \<Longrightarrow> modeProfile c = Inr (cf_RestrictedProfile c)"
  by (auto simp: modeProfile_def canonical_mode_def bind_result_Inr validateRestrictedProfile_ok)

lemma parseConfig_canonical:
  assumes "parseConfig lib raw = Inr (c, bytes)"
  shows "canonical_config lib c \<and> bytes = ec_Marshal lib c"
proof -
  obtain wire policy where w: "cf_APIVersion wire = ConfigAPIVersion"
      "Evaluate (cf_Ceiling wire) (cf_Baseline wire) [] = Inr policy"
      "ec_Subdomain lib (cf_TLSSecretName wire) = []" "immutableImage lib (cf_ProxyImage wire)"
      "modeProfile wire = Inr (cf_RestrictedProfile c)" "bytes = ec_Marshal lib c"
      and c: "cf_APIVersion c = cf_APIVersion wire" "cf_Mode c = cf_Mode wire" "cf_Ceiling c = po_Ceiling policy"
        "cf_Baseline c = po_Baseline policy" "cf_TLSSecretName c = cf_TLSSecretName wire"
        "cf_ProxyImage c = cf_ProxyImage wire"
    using assms by (auto simp: parseConfig_def bind_result_Inr Let_def split: sum.splits if_splits)
  have "canonical_mode (cf_Mode c) (cf_RestrictedProfile c)"
    using modeProfile_canonical [OF w(5)] c by simp
  then show ?thesis using w c by (auto simp: canonical_config_def Evaluate_ok)
qed

lemma parseConfig_fixed:
  assumes "canonical_config lib c" and "ec_Decode lib raw = Inr (c, True)"
  shows "parseConfig lib raw = Inr (c, ec_Marshal lib c)"
proof -
  obtain p where "Evaluate (cf_Ceiling c) (cf_Baseline c) [] = Inr p"
      and "po_Ceiling p = cf_Ceiling c" "po_Baseline p = cf_Baseline c"
    using assms(1) by (auto simp: canonical_config_def Evaluate_ok sorted_sort_id)
  then show ?thesis
    using assms modeProfile_fixed [of c] by (cases c) (auto simp: parseConfig_def canonical_config_def Let_def)
qed

text \<open>The ConfigMap of a configuration: live, immutable, with the one entry that encodes it, under its content
  address.\<close>

definition policy_map_of :: "config_lib \<Rightarrow> Config \<Rightarrow> ConfigMap \<Rightarrow> bool" where
  "policy_map_of lib c cm \<longleftrightarrow>
     om_UID (cm_Meta cm) \<noteq> [] \<and> \<not> deleting (cm_Meta cm) \<and> cm_Immutable cm = Some True
     \<and> cm_Data cm = [(ConfigDataKey, ec_Marshal lib c)] \<and> cm_BinaryData cm = []
     \<and> meta_annotation (cm_Meta cm) ConfigContentSHA256Annotation = hex_encode (ec_Sha256 lib (ec_Marshal lib c))"

lemma single_entry: "length m = 1 \<Longrightarrow> map_of m k = Some v \<longleftrightarrow> m = [(k, v)]"
  by (cases m) auto

lemma ParseConfigMap_sound:
  assumes "ParseConfigMap lib (Some cm) = Inr p"
  shows "canonical_config lib (pc_Config p) \<and> policy_map_of lib (pc_Config p) cm
    \<and> pc_ContentSHA256 p = ec_Sha256 lib (ec_Marshal lib (pc_Config p))"
  using assms parseConfig_canonical
  by (auto simp: ParseConfigMap_def policy_map_of_def bind_result_Inr Let_def single_entry
      split: if_splits option.splits)

text \<open>A concrete document: the configuration of the package's own tests.\<close>

definition sample_profile :: RestrictedProfile where
  "sample_profile = \<lparr>rp_Name = RestrictedProfileCalicoV1, rp_ResolverIPs = [''10.96.0.10''],
     rp_APIServerCIDRs = [''10.0.0.1/32''], rp_PodCIDRs = [''10.244.0.0/16''], rp_ServiceCIDRs = [''10.96.0.0/12''],
     rp_NodeCIDRs = [''192.168.0.0/16''], rp_ControlPlaneCIDRs = [''172.16.0.0/16''], rp_AdditionalDeniedCIDRs = []\<rparr>"

definition sample_config :: Config where
  "sample_config = \<lparr>cf_APIVersion = ConfigAPIVersion, cf_Mode = ModeRestricted,
     cf_Ceiling = [''api.example.com'', ''git.example.com''], cf_Baseline = [''git.example.com''],
     cf_RestrictedProfile = Some sample_profile, cf_TLSSecretName = ''egress-proxy-tls'',
     cf_ProxyImage = ''registry.example.com/swe/egress-proxy@sha256:aa''\<rparr>"

definition sample_lib :: config_lib where
  "sample_lib = \<lparr>ec_Decode = (\<lambda>raw. if raw = ''{}'' then Inr (sample_config, True) else Inl ''invalid''),
     ec_Marshal = (\<lambda>c. if c = sample_config then ''{}'' else ''{other}''), ec_Sha256 = (\<lambda>s. s),
     ec_Subdomain = (\<lambda>s. []),
     ec_Image = (\<lambda>s. Some \<lparr>im_Digest = Some ''sha256'', im_Tagged = False, im_Familiar = s\<rparr>)\<rparr>"

definition sample_map :: ConfigMap where
  "sample_map = \<lparr>cm_Meta = zero_meta\<lparr>om_UID := ''config-uid'', om_ResourceVersion := ''7'',
       om_Annotations := [(ConfigContentSHA256Annotation, hex_encode ''{}'')]\<rparr>,
     cm_Immutable = Some True, cm_Data = [(ConfigDataKey, ''{}'')], cm_BinaryData = []\<rparr>"

definition sample_parsed :: ParsedConfig where
  "sample_parsed = \<lparr>pc_Config = sample_config, pc_ContentSHA256 = ''{}''\<rparr>"

lemma sample_profile_valid: "valid_profile sample_profile" "sort_profile sample_profile = sample_profile"
  by code_simp+

lemma sample_sets:
  "valid_set 256 (cf_Ceiling sample_config)" "valid_set 64 (cf_Baseline sample_config)"
  by code_simp+

lemma sample_config_canonical: "canonical_config sample_lib sample_config"
  using sample_profile_valid sample_sets
  by (auto simp: canonical_config_def canonical_mode_def immutableImage_def sample_lib_def sample_config_def)

lemma sample_document: "policy_map_of sample_lib sample_config sample_map"
  by (simp add: policy_map_of_def sample_lib_def sample_map_def annotation_def zero_meta_def)

text \<open>(C34) Acceptance of a policy document is exact. Given that the JSON decoder reads back what the encoder wrote for a
  canonical configuration, a ConfigMap is accepted with a configuration precisely when the configuration is
  canonical (valid sorted host names within their bounds, the baseline under the ceiling, a digest-pinned image,
  and exactly in restricted mode a profile of canonical masked prefixes) and the live immutable ConfigMap holds
  its encoding and nothing else, under the digest of that encoding. So one configuration has one document, and a
  document that decodes to it in any other spelling is refused.\<close>

theorem policy_document_exact:
  assumes "canonical_config lib (pc_Config p) \<Longrightarrow>
    ec_Decode lib (ec_Marshal lib (pc_Config p)) = Inr (pc_Config p, True) \<and> ec_Marshal lib (pc_Config p) \<noteq> []"
  shows "ParseConfigMap lib (Some cm) = Inr p \<longleftrightarrow>
    canonical_config lib (pc_Config p) \<and> policy_map_of lib (pc_Config p) cm
    \<and> pc_ContentSHA256 p = ec_Sha256 lib (ec_Marshal lib (pc_Config p))"
proof
  assume "canonical_config lib (pc_Config p) \<and> policy_map_of lib (pc_Config p) cm
    \<and> pc_ContentSHA256 p = ec_Sha256 lib (ec_Marshal lib (pc_Config p))"
  then show "ParseConfigMap lib (Some cm) = Inr p"
    using assms parseConfig_fixed [of lib "pc_Config p"]
    by (auto simp: ParseConfigMap_def policy_map_of_def)
qed (rule ParseConfigMap_sound)

theorem policy_document_exact_witness:
  "ParseConfigMap sample_lib (Some sample_map) = Inr sample_parsed \<and> canonical_config sample_lib sample_config"
proof -
  have "ec_Decode sample_lib (ec_Marshal sample_lib (pc_Config sample_parsed)) = Inr (pc_Config sample_parsed, True)
      \<and> ec_Marshal sample_lib (pc_Config sample_parsed) \<noteq> []"
    by (simp add: sample_lib_def sample_parsed_def)
  then show ?thesis
    using policy_document_exact [of sample_lib sample_parsed sample_map] sample_config_canonical sample_document
    by (simp add: sample_parsed_def sample_lib_def)
qed

lemma sample_accepted: "ParseConfigMap sample_lib (Some sample_map) = Inr sample_parsed"
  using parseConfig_fixed [OF sample_config_canonical, of "''{}''"] sample_document
  by (simp add: ParseConfigMap_def policy_map_of_def sample_map_def sample_parsed_def sample_lib_def)

section \<open>The denied prefixes of an accepted policy\<close>

lemma mod_of_masked:
  fixes w :: "'l::len word"
  assumes "w = push_bit k (drop_bit k w)"
  shows "uint w mod 2 ^ k = 0"
proof -
  have "take_bit k w = 0" by (subst assms) (simp add: take_bit_push_bit)
  then have "take_bit k (uint w) = 0" by (metis unsigned_0 unsigned_take_bit_eq)
  then show ?thesis by (simp only: take_bit_eq_mod)
qed

lemma masked_of_Masked: "p = Masked p \<Longrightarrow> masked p"
  by (cases p) (auto simp: Masked_def masked_def intro: mod_of_masked simp del: mod_0_imp_dvd)

lemma canonicalPrefix_Some:
  assumes "canonicalPrefix v = Some p"
  shows "ParsePrefix v = Some p" "masked p"
  using assms masked_of_Masked [of p] by (auto simp: canonicalPrefix_def split: option.splits if_splits)

lemma canonicalAddr_Some:
  assumes "canonicalAddr v = Some a"
  shows "ParseAddr v = Some a" "Zone a = []"
  using assms by (auto simp: canonicalAddr_def split: option.splits if_splits)

lemma ParseAddr_valid: "ParseAddr v \<noteq> Some InvalidAddr"
  by (auto simp: ParseAddr_def parseIPv4_def parseIPv6_def Let_def split: if_splits option.splits list.splits)

text \<open>The prefix of a single address is that address.\<close>

lemma word_range_one: "uint (a :: 'l::len word) \<le> uint b \<and> uint b < uint a + 1 \<longleftrightarrow> a = b"
  by (auto simp: word_uint_eq_iff)

lemma hostPrefix_exact:
  assumes "canonicalAddr v = Some a"
  obtains p where "hostPrefix v = Some p" "masked p" "\<And>b. inRange p b \<longleftrightarrow> b = a"
proof (cases a)
  case (V4 w)
  with assms show ?thesis
    using word_range_one [of w]
    by (intro that [of "P4 w 32"])
      (auto simp: hostPrefix_def canonicalAddr_Some BitLen_def PrefixFrom_def masked_def inRange_def split: Addr.splits)
next
  case (V6 w z)
  with assms show ?thesis
    using word_range_one [of w] canonicalAddr_Some(2) [OF assms]
    by (intro that [of "P6 w 128"])
      (auto simp: hostPrefix_def canonicalAddr_Some BitLen_def PrefixFrom_def masked_def inRange_def Zone_def split: Addr.splits)
qed (use canonicalAddr_Some(1) [OF assms] ParseAddr_valid [of v] in auto)

lemma allSome_the: "\<forall>x\<in>set xs. x \<noteq> None \<Longrightarrow> allSome xs = Some (map the xs)"
  by (induction xs) auto

text \<open>An address is named by a profile: by one of its prefixes or as a resolver.\<close>

definition named_by :: "RestrictedProfile \<Rightarrow> Addr \<Rightarrow> bool" where
  "named_by profile a \<longleftrightarrow>
     (\<exists>v\<in>set (configuredCIDRs profile). \<exists>q. ParsePrefix v = Some q \<and> inRange q a)
     \<or> (\<exists>v\<in>set (rp_ResolverIPs profile). ParseAddr v = Some a)"

lemma valid_profile_texts:
  assumes "valid_profile p"
  shows "\<forall>v\<in>set (configuredCIDRs p). canonicalPrefix v \<noteq> None" "\<forall>v\<in>set (rp_ResolverIPs p). canonicalAddr v \<noteq> None"
  using assms by (auto simp: valid_profile_def configuredCIDRs_def canonical_texts_def)

lemma deniedPrefixes_valid:
  assumes "valid_profile profile"
  shows "\<exists>ps. deniedPrefixes profile = Some ps \<and> list_all masked ps \<and>
    (\<forall>a. (\<exists>p\<in>set ps. inRange p a) \<longleftrightarrow> named_by profile a)"
proof -
  let ?xs = "map ParsePrefix (configuredCIDRs profile) @ map hostPrefix (rp_ResolverIPs profile)"
  have c: "\<exists>q. ParsePrefix v = Some q \<and> masked q" if "v \<in> set (configuredCIDRs profile)" for v
    using valid_profile_texts(1) [OF assms] that canonicalPrefix_Some [of v] by (cases "canonicalPrefix v") auto
  have h: "\<exists>p. hostPrefix v = Some p \<and> masked p \<and> (\<forall>b. inRange p b \<longleftrightarrow> ParseAddr v = Some b)"
    if v: "v \<in> set (rp_ResolverIPs profile)" for v
  proof -
    obtain a where a: "canonicalAddr v = Some a" using valid_profile_texts(2) [OF assms] v by blast
    show ?thesis by (rule hostPrefix_exact [OF a]) (use canonicalAddr_Some(1) [OF a] in auto)
  qed
  have s: "\<forall>x\<in>set ?xs. x \<noteq> None" using c h by fastforce
  show ?thesis
  proof (intro exI [of _ "map the ?xs"] conjI allI)
    show "deniedPrefixes profile = Some (map the ?xs)"
      unfolding deniedPrefixes_def by (rule allSome_the [OF s])
    show "list_all masked (map the ?xs)" using c h by (fastforce simp: list_all_iff)
    show "(\<exists>p\<in>set (map the ?xs). inRange p a) \<longleftrightarrow> named_by profile a" for a
    proof -
      have "(\<exists>v\<in>set (configuredCIDRs profile). inRange (the (ParsePrefix v)) a)
          \<longleftrightarrow> (\<exists>v\<in>set (configuredCIDRs profile). \<exists>q. ParsePrefix v = Some q \<and> inRange q a)"
        by (rule bex_cong [OF refl]) (use c in force)
      moreover have "(\<exists>v\<in>set (rp_ResolverIPs profile). inRange (the (hostPrefix v)) a)
          \<longleftrightarrow> (\<exists>v\<in>set (rp_ResolverIPs profile). ParseAddr v = Some a)"
        by (rule bex_cong [OF refl]) (use h in force)
      ultimately show ?thesis unfolding named_by_def by (simp add: bex_Un)
    qed
  qed
qed

end
