(* ===== verification/Installation_Isolation.thy ===== *)
theory Installation_Isolation
  imports Egress_Config Environment_Status Tenancy
begin

text \<open>
  Installation-wide isolation: the selection contract and its revision (\<open>src/internal/isolation\<close>), the
  execution authority every launch rereads, and the controller that publishes it
  (\<open>src/internal/controllers/installation_isolation_controller.go\<close>).

  The controller's state is its world and a log of what it did there (\<open>iso_event\<close>). Library code is in
  \<open>isolation_env\<close>: the API reader and status writer, DNS name validation, the JSON encoding and digest
  of the revision inputs, the condition helpers, and what the parser of the egress policy (\<open>Egress_Config\<close>) takes.
\<close>

section \<open>The Installation\<close>

type_synonym InstallationIsolationMode = string
abbreviation "ModeUnrestrictedDevelopment \<equiv> ''UnrestrictedDevelopment''"
abbreviation "ModeRestrictedProductionCalico \<equiv> ''RestrictedProductionCalicoV3_32_1''"

record InstallationRuntimeClassExpectation =
  rce_Name :: string
  rce_Handler :: string

record InstallationStorageClassExpectation =
  sce_Name :: string
  sce_CSIDriver :: string

record InstallationIsolationSpec =
  iso_Mode :: InstallationIsolationMode
  iso_PolicyConfigMapName :: string
  iso_RuntimeClass :: "InstallationRuntimeClassExpectation option"
  iso_StorageClass :: "InstallationStorageClassExpectation option"

type_synonym InstallationIsolationState = string
abbreviation "IsolationStateLegacyUnclassified \<equiv> ''LegacyUnclassified''"
abbreviation "IsolationStateFencing \<equiv> ''Fencing''"
abbreviation "IsolationStateBlocked \<equiv> ''Blocked''"
abbreviation "IsolationStateActive \<equiv> ''Active''"

record InstallationRuntimeClassIdentity =
  rci_Name :: string
  rci_UID :: string
  rci_Handler :: string

record InstallationStorageClassIdentity =
  sci_Name :: string
  sci_UID :: string
  sci_CSIDriver :: string

record InstallationCSIDriverIdentity =
  cdi_Name :: string
  cdi_UID :: string

record InstallationPolicyConfigMapIdentity =
  pci_Name :: string
  pci_UID :: string
  pci_ContentSHA256 :: string

record InstallationStatus =
  is_IsolationState :: InstallationIsolationState
  is_ObservedIsolation :: "InstallationIsolationSpec option"
  is_IsolationRevision :: string
  is_PolicyConfigMap :: "InstallationPolicyConfigMapIdentity option"
  is_RuntimeClass :: "InstallationRuntimeClassIdentity option"
  is_StorageClass :: "InstallationStorageClassIdentity option"
  is_CSIDriver :: "InstallationCSIDriverIdentity option"
  is_Conditions :: "Condition list"

record Installation =
  in_Meta :: ObjectMeta
  in_Isolation :: "InstallationIsolationSpec option"
  in_Status :: InstallationStatus

section \<open>The selection and its revision\<close>

text \<open>\<open>validation.IsDNS1123Label\<close> and \<open>IsDNS1123Subdomain\<close>: the problems they report.\<close>

record dns_rules =
  dn_Label :: "string \<Rightarrow> string list"
  dn_Subdomain :: "string \<Rightarrow> string list"

definition dnsSubdomain :: "dns_rules \<Rightarrow> string \<Rightarrow> string \<Rightarrow> nat \<Rightarrow> string option" where
  "dnsSubdomain dns field value maximum =
     (if maximum < length value then Some (field @ '' must not exceed '' @ format_nat maximum @ '' bytes'')
      else case dn_Subdomain dns value of
             [] \<Rightarrow> None
           | problem # _ \<Rightarrow> Some (field @ '' is invalid: '' @ problem))"

text \<open>The first error of a sequence of checks.\<close>

fun first_error :: "'e option list \<Rightarrow> 'e option" where
  "first_error [] = None"
| "first_error (None # cs) = first_error cs"
| "first_error (Some e # cs) = Some e"

definition ValidateSelection :: "dns_rules \<Rightarrow> InstallationIsolationSpec option \<Rightarrow> string option" where
  "ValidateSelection dns selection =
     (case selection of
        None \<Rightarrow> None
      | Some sel \<Rightarrow>
          if iso_Mode sel = ModeUnrestrictedDevelopment then
            (if iso_PolicyConfigMapName sel \<noteq> [] \<or> iso_RuntimeClass sel \<noteq> None \<or> iso_StorageClass sel \<noteq> None
             then Some ''unrestricted development isolation must omit restricted inputs'' else None)
          else if iso_Mode sel = ModeRestrictedProductionCalico then
            (case (iso_RuntimeClass sel, iso_StorageClass sel) of
               (Some rc, Some sc) \<Rightarrow>
                 if iso_PolicyConfigMapName sel = []
                 then Some ''restricted isolation requires policy ConfigMap, RuntimeClass, and StorageClass expectations''
                 else first_error
                   [dnsSubdomain dns ''policy ConfigMap name'' (iso_PolicyConfigMapName sel) 253,
                    dnsSubdomain dns ''RuntimeClass name'' (rce_Name rc) 253,
                    (case dn_Label dns (rce_Handler rc) of
                       [] \<Rightarrow> None | problem # _ \<Rightarrow> Some (''RuntimeClass handler is invalid: '' @ problem)),
                    dnsSubdomain dns ''StorageClass name'' (sce_Name sc) 253,
                    dnsSubdomain dns ''CSI driver'' (sce_CSIDriver sc) 63]
             | _ \<Rightarrow> Some ''restricted isolation requires policy ConfigMap, RuntimeClass, and StorageClass expectations'')
          else Some ''isolation mode must be UnrestrictedDevelopment or RestrictedProductionCalicoV3_32_1'')"

record RevisionInputs =
  vi_InstallationUID :: string
  vi_Selection :: InstallationIsolationSpec
  vi_PolicyConfigMap :: "(string \<times> string) option"
  vi_RuntimeClass :: "(string \<times> string) option"
  vi_StorageClass :: "(string \<times> string) option"
  vi_CSIDriver :: "string option"

definition boundedUID :: "string \<Rightarrow> string \<Rightarrow> string option" where
  "boundedUID field uid =
     (if length uid = 0 \<or> 128 < length uid then Some (field @ '' must be 1-128 bytes'') else None)"

text \<open>The canonical structures of \<open>CanonicalBytes\<close>.\<close>

record canonicalObject =
  co_APIVersion :: string
  co_ObjKind :: string
  co_Name :: string
  co_UID :: string
  co_Value :: string
  co_SHA256 :: string

record canonicalRevision =
  ca_Domain :: string
  ca_EgressPolicyAPIVersion :: string
  ca_EgressRuntimeRevisionDomain :: string
  ca_InstallationUID :: string
  ca_Selection :: InstallationIsolationSpec
  ca_PolicyConfigMap :: "canonicalObject option"
  ca_RuntimeClass :: "canonicalObject option"
  ca_StorageClass :: "canonicalObject option"
  ca_CSIDriver :: "canonicalObject option"

definition canonicalUnrestricted :: "RevisionInputs \<Rightarrow> canonicalRevision" where
  "canonicalUnrestricted inp =
     \<lparr>ca_Domain = ''swe.dev/isolation/installation-revision/v1'', ca_EgressPolicyAPIVersion = [],
      ca_EgressRuntimeRevisionDomain = [], ca_InstallationUID = vi_InstallationUID inp,
      ca_Selection = \<lparr>iso_Mode = iso_Mode (vi_Selection inp), iso_PolicyConfigMapName = [],
                      iso_RuntimeClass = None, iso_StorageClass = None\<rparr>,
      ca_PolicyConfigMap = None, ca_RuntimeClass = None, ca_StorageClass = None, ca_CSIDriver = None\<rparr>"

definition canonicalRestricted ::
  "RevisionInputs \<Rightarrow> InstallationRuntimeClassExpectation \<Rightarrow> InstallationStorageClassExpectation
     \<Rightarrow> string \<times> string \<Rightarrow> string \<times> string \<Rightarrow> string \<times> string \<Rightarrow> string \<Rightarrow> canonicalRevision" where
  "canonicalRestricted inp rc sc policy runtime storage csi =
     (canonicalUnrestricted inp)
       \<lparr>ca_EgressPolicyAPIVersion := ''swe.dev/egress-policy/v1'',
        ca_EgressRuntimeRevisionDomain := ''swe.dev/egress-policy/runtime-revision/v1'',
        ca_Selection := vi_Selection inp,
        ca_PolicyConfigMap := Some \<lparr>co_APIVersion = ''v1'', co_ObjKind = ''ConfigMap'',
           co_Name = iso_PolicyConfigMapName (vi_Selection inp), co_UID = fst policy, co_Value = [],
           co_SHA256 = hex_encode (snd policy)\<rparr>,
        ca_RuntimeClass := Some \<lparr>co_APIVersion = ''node.k8s.io/v1'', co_ObjKind = ''RuntimeClass'',
           co_Name = rce_Name rc, co_UID = fst runtime, co_Value = snd runtime, co_SHA256 = []\<rparr>,
        ca_StorageClass := Some \<lparr>co_APIVersion = ''storage.k8s.io/v1'', co_ObjKind = ''StorageClass'',
           co_Name = sce_Name sc, co_UID = fst storage, co_Value = snd storage, co_SHA256 = []\<rparr>,
        ca_CSIDriver := Some \<lparr>co_APIVersion = ''storage.k8s.io/v1'', co_ObjKind = ''CSIDriver'',
           co_Name = sce_CSIDriver sc, co_UID = csi, co_Value = [], co_SHA256 = []\<rparr>\<rparr>"

definition uidError :: "string \<times> string \<Rightarrow> string option" where
  "uidError p = boundedUID (fst p) (snd p)"

definition isolationCanonicalBytes ::
  "dns_rules \<Rightarrow> (canonicalRevision \<Rightarrow> string) \<Rightarrow> RevisionInputs \<Rightarrow> string + string" where
  "isolationCanonicalBytes dns marshal inp =
     (case first_error [boundedUID ''Installation UID'' (vi_InstallationUID inp),
                        ValidateSelection dns (Some (vi_Selection inp))] of
        Some e \<Rightarrow> Inl e
      | None \<Rightarrow>
          if iso_Mode (vi_Selection inp) = ModeUnrestrictedDevelopment then
            (if vi_PolicyConfigMap inp \<noteq> None \<or> vi_RuntimeClass inp \<noteq> None \<or> vi_StorageClass inp \<noteq> None
                \<or> vi_CSIDriver inp \<noteq> None
             then Inl ''unrestricted development revision must omit resolved restricted objects''
             else Inr (marshal (canonicalUnrestricted inp)))
          else case (vi_PolicyConfigMap inp, vi_RuntimeClass inp, vi_StorageClass inp, vi_CSIDriver inp) of
            (Some policy, Some runtime, Some storage, Some csi) \<Rightarrow>
              (case first_error (map uidError [(''policy ConfigMap UID'', fst policy), (''RuntimeClass UID'', fst runtime),
                      (''StorageClass UID'', fst storage), (''CSIDriver UID'', csi)]) of
                 Some e \<Rightarrow> Inl e
               | None \<Rightarrow>
                   let rc = the (iso_RuntimeClass (vi_Selection inp)); sc = the (iso_StorageClass (vi_Selection inp)) in
                   if snd policy = replicate 32 (char_of (0::nat))
                   then Inl ''restricted isolation revision requires a non-zero policy content SHA-256''
                   else if snd runtime \<noteq> rce_Handler rc
                   then Inl ''observed RuntimeClass handler does not match the selected expectation''
                   else if snd storage \<noteq> sce_CSIDriver sc
                   then Inl ''observed StorageClass CSI driver does not match the selected expectation''
                   else Inr (marshal (canonicalRestricted inp rc sc policy runtime storage csi)))
          | _ \<Rightarrow> Inl ''restricted isolation revision requires all resolved object identities'')"

definition DeriveRevision ::
  "dns_rules \<Rightarrow> (string \<Rightarrow> string) \<Rightarrow> (canonicalRevision \<Rightarrow> string) \<Rightarrow> RevisionInputs \<Rightarrow> string + string" where
  "DeriveRevision dns sha256 marshal inp =
     (case isolationCanonicalBytes dns marshal inp of Inl e \<Rightarrow> Inl e | Inr bytes \<Rightarrow> Inr (sha256 bytes))"

section \<open>The execution authority\<close>

definition legacyCompatibleIsolationStatus :: "InstallationStatus \<Rightarrow> bool" where
  "legacyCompatibleIsolationStatus st =
     (if is_ObservedIsolation st \<noteq> None \<or> is_IsolationRevision st \<noteq> [] \<or> is_PolicyConfigMap st \<noteq> None
         \<or> is_RuntimeClass st \<noteq> None \<or> is_StorageClass st \<noteq> None \<or> is_CSIDriver st \<noteq> None
      then False
      else if is_IsolationState st = [] then is_Conditions st = []
      else is_IsolationState st = IsolationStateLegacyUnclassified)"

text \<open>\<open>Revision.String\<close> is the hexadecimal digest.\<close>

definition unrestrictedAuthorityMatches ::
  "InstallationStatus \<Rightarrow> InstallationIsolationSpec \<Rightarrow> string \<Rightarrow> bool" where
  "unrestrictedAuthorityMatches st selection revision \<longleftrightarrow>
     is_IsolationState st = IsolationStateActive \<and> is_ObservedIsolation st = Some selection
     \<and> is_IsolationRevision st = hex_encode revision
     \<and> is_PolicyConfigMap st = None \<and> is_RuntimeClass st = None \<and> is_StorageClass st = None
     \<and> is_CSIDriver st = None"

datatype 'k isolation_error =
  IncompleteAuthority
| IsoReader string 'k
| IdentityChanged
| InvalidSelection string
| InvalidRevision string
| UnsupportedSelection
| IsoTenancy "'k tenancy_error"
| IsoText string
| IsoPolicy config_error

record ('w, 'q, 'k) isolation_env =
  ie_Installation :: "NamespacedName \<Rightarrow> ('w, 'k + Installation) state"
  ie_UpdateStatus :: "Installation \<Rightarrow> ('w, 'k option) state"
  ie_NotFound :: "'k \<Rightarrow> bool"
  ie_Namespace :: "string \<Rightarrow> ('w, 'k + ObjectMeta) state"
  ie_Environments :: "string option \<Rightarrow> ('w, 'k + 'q Environment list) state"
  ie_Pod :: "NamespacedName \<Rightarrow> ('w, 'k + ObjectMeta) state"
  ie_Secret :: "NamespacedName \<Rightarrow> ('w, 'k + ObjectMeta) state"
  ie_ConfigMap :: "NamespacedName \<Rightarrow> ('w, 'k + ConfigMap) state"
  ie_RuntimeClass :: "string \<Rightarrow> ('w, 'k + ObjectMeta \<times> string) state"
  ie_StorageClass :: "string \<Rightarrow> ('w, 'k + ObjectMeta \<times> string) state"
  ie_CSIDriver :: "string \<Rightarrow> ('w, 'k + ObjectMeta) state"
  ie_ConfigLib :: config_lib
  ie_Dns :: dns_rules
  ie_Marshal :: "canonicalRevision \<Rightarrow> string"
  ie_Sha256 :: "string \<Rightarrow> string"
  ie_Find :: find_condition
  ie_Set :: set_condition
  ie_Controller :: get_controller
  ie_Sha :: "string \<Rightarrow> string"

definition deriveFor :: "('w, 'q, 'k) isolation_env \<Rightarrow> RevisionInputs \<Rightarrow> string + string" where
  "deriveFor env inp = DeriveRevision (ie_Dns env) (ie_Sha256 env) (ie_Marshal env) inp"

definition unrestrictedInputs :: "Installation \<Rightarrow> InstallationIsolationSpec \<Rightarrow> RevisionInputs" where
  "unrestrictedInputs inst selection =
     \<lparr>vi_InstallationUID = om_UID (in_Meta inst), vi_Selection = selection, vi_PolicyConfigMap = None,
      vi_RuntimeClass = None, vi_StorageClass = None, vi_CSIDriver = None\<rparr>"

text \<open>The decision \<open>installationExecutionAllowed\<close> takes once it has read the exact Installation.\<close>

definition executionAllowedBy ::
  "('w, 'q, 'k) isolation_env \<Rightarrow> Installation \<Rightarrow> 'k isolation_error + bool" where
  "executionAllowedBy env inst =
     (case in_Isolation inst of
        None \<Rightarrow> Inr (legacyCompatibleIsolationStatus (in_Status inst))
      | Some sel \<Rightarrow>
          (case ValidateSelection (ie_Dns env) (Some sel) of
             Some e \<Rightarrow> Inl (InvalidSelection e)
           | None \<Rightarrow>
               if iso_Mode sel = ModeUnrestrictedDevelopment then
                 (case deriveFor env (unrestrictedInputs inst sel) of
                    Inl e \<Rightarrow> Inl (InvalidRevision e)
                  | Inr revision \<Rightarrow>
                      if legacyCompatibleIsolationStatus (in_Status inst) then Inr True
                      else Inr (unrestrictedAuthorityMatches (in_Status inst) sel revision
                             \<and> (case ie_Find env (is_Conditions (in_Status inst)) ''IsolationReady'' of
                                  None \<Rightarrow> False
                                | Some ready \<Rightarrow> cd_Status ready = ConditionTrue
                                    \<and> cd_Reason ready = ''UnrestrictedDevelopment''
                                    \<and> cd_ObservedGeneration ready = om_Generation (in_Meta inst))))
               else if iso_Mode sel = ModeRestrictedProductionCalico then Inr False
               else Inl UnsupportedSelection))"

definition installationExecutionAllowed ::
  "('w, 'q, 'k) isolation_env option \<Rightarrow> InstallationIdentity \<Rightarrow> ('w, 'k isolation_error + bool) state" where
  "installationExecutionAllowed reader identity =
     (case reader of
        None \<Rightarrow> throwError IncompleteAuthority
      | Some env \<Rightarrow>
          if fst (ii_Key identity) = [] \<or> snd (ii_Key identity) = [] \<or> ii_UID identity = []
          then throwError IncompleteAuthority
          else bindE (mapErr (IsoReader ''revalidate Installation isolation'') (ie_Installation env (ii_Key identity)))
            (\<lambda>inst.
              if om_UID (in_Meta inst) \<noteq> ii_UID identity \<or> deleting (in_Meta inst)
              then throwError IdentityChanged
              else ret (executionAllowedBy env inst)))"

text \<open>Without a verifier the scope has no Installation and execution is allowed.\<close>

definition installationExecutionCurrent ::
  "('w, 'q, 'k) isolation_env option \<Rightarrow> InstallationIdentity option \<Rightarrow> ('w, 'k isolation_error + bool) state" where
  "installationExecutionCurrent reader scope =
     (case scope of
        None \<Rightarrow> returnOk True
      | Some identity \<Rightarrow> installationExecutionAllowed reader identity)"

section \<open>The controller\<close>

record InstallationIsolationReconciler =
  ir_Installation :: InstallationIdentity
  ir_Mode :: Mode
  ir_Namespaces :: "string list"

text \<open>What the controller does: a status it writes, a dependency it reads, the outcome of a fence check.\<close>

datatype iso_event =
  StatusWritten InstallationStatus
| DependencyRead string
| FenceObserved bool

type_synonym 'w iso_state = "('w, iso_event) logged"

subsection \<open>Desired statuses\<close>

definition baseStatus ::
  "InstallationIsolationState \<Rightarrow> InstallationIsolationSpec option \<Rightarrow> InstallationStatus" where
  "baseStatus st observed =
     \<lparr>is_IsolationState = st, is_ObservedIsolation = observed, is_IsolationRevision = [],
      is_PolicyConfigMap = None, is_RuntimeClass = None, is_StorageClass = None, is_CSIDriver = None,
      is_Conditions = []\<rparr>"

definition publishedCondition ::
  "('w, 'q, 'k) isolation_env \<Rightarrow> Installation \<Rightarrow> Condition \<Rightarrow> Condition" where
  "publishedCondition env inst c =
     hd (ie_Set env c (case ie_Find env (is_Conditions (in_Status inst)) (cd_Type c) of
                         None \<Rightarrow> [] | Some current \<Rightarrow> [current]))"

definition setConditions ::
  "('w, 'q, 'k) isolation_env \<Rightarrow> Installation \<Rightarrow> bool \<Rightarrow> string \<Rightarrow> string \<Rightarrow> string \<Rightarrow> string \<Rightarrow> string
     \<Rightarrow> string \<Rightarrow> InstallationStatus \<Rightarrow> InstallationStatus" where
  "setConditions env inst dependenciesResolved dependencyReason readyStatus readyReason readyMessage
     productionReason productionMessage st =
     (let gen = om_Generation (in_Meta inst) in
      st\<lparr>is_Conditions := map (publishedCondition env inst)
        [newCondition ''IsolationDependenciesResolved'' (boolConditionStatus dependenciesResolved) gen dependencyReason
           (if dependenciesResolved then ''isolation dependencies are resolved''
            else ''restricted isolation dependencies are unresolved''),
         newCondition ''IsolationReady'' readyStatus gen readyReason readyMessage,
         newCondition ''ProductionReady'' ConditionFalse gen productionReason productionMessage]\<rparr>)"

definition legacyStatus ::
  "('w, 'q, 'k) isolation_env \<Rightarrow> Installation \<Rightarrow> InstallationIsolationState \<Rightarrow> InstallationStatus" where
  "legacyStatus env inst st =
     (let (readyReason, readyMessage) =
            (if st = IsolationStateFencing
             then (''Fencing'', ''installation environment execution is being fenced'')
             else (''LegacyUnclassified'', ''installation isolation selection is omitted''))
      in setConditions env inst True ''NotRequired'' ConditionFalse readyReason readyMessage ''LegacyUnclassified''
           ''legacy isolation is not classified for production'' (baseStatus st None))"

definition unrestrictedStatus ::
  "('w, 'q, 'k) isolation_env \<Rightarrow> Installation \<Rightarrow> InstallationIsolationState \<Rightarrow> InstallationIsolationSpec
     \<Rightarrow> string \<Rightarrow> InstallationStatus" where
  "unrestrictedStatus env inst st selection revision =
     (let (readyStatus, readyReason, readyMessage) =
            (if st = IsolationStateActive
             then (ConditionTrue, ''UnrestrictedDevelopment'', ''unrestricted development isolation is active'')
             else (ConditionFalse, ''Fencing'', ''installation environment execution is being fenced''))
      in setConditions env inst True ''NotRequired'' readyStatus readyReason readyMessage ''UnrestrictedDevelopment''
           ''unrestricted development isolation is explicitly non-production''
           ((baseStatus st (Some selection))\<lparr>is_IsolationRevision := hex_encode revision\<rparr>))"

record restrictedIsolationIdentities =
  ra_policy :: InstallationPolicyConfigMapIdentity
  ra_runtimeClass :: InstallationRuntimeClassIdentity
  ra_storageClass :: InstallationStorageClassIdentity
  ra_csiDriver :: InstallationCSIDriverIdentity

text \<open>\<open>resolved\<close> is the revision with its identities, absent when the resolution failed.\<close>

definition blockedStatus ::
  "('w, 'q, 'k) isolation_env \<Rightarrow> Installation \<Rightarrow> InstallationIsolationState \<Rightarrow> InstallationIsolationSpec option
     \<Rightarrow> (string \<times> restrictedIsolationIdentities) option \<Rightarrow> 'e option \<Rightarrow> InstallationStatus" where
  "blockedStatus env inst st observed resolved resolveErr =
     (let base = baseStatus st observed;
          desired = (case resolved of
             None \<Rightarrow> base
           | Some (revision, ids) \<Rightarrow>
               base\<lparr>is_IsolationRevision := hex_encode revision, is_PolicyConfigMap := Some (ra_policy ids),
                    is_RuntimeClass := Some (ra_runtimeClass ids), is_StorageClass := Some (ra_storageClass ids),
                    is_CSIDriver := Some (ra_csiDriver ids)\<rparr>);
          dependenciesResolved = (resolveErr = None \<and> resolved \<noteq> None);
          dependencyReason = (if dependenciesResolved then ''DependenciesResolved'' else ''DependencyResolutionFailed'');
          (readyReason, readyMessage) =
            (if st = IsolationStateBlocked
             then (''RuntimeActivationUnavailable'', ''restricted runtime activation is unavailable'')
             else (''Fencing'', ''installation environment execution is being fenced''))
      in setConditions env inst dependenciesResolved dependencyReason ConditionFalse readyReason readyMessage
           ''RuntimeActivationUnavailable'' ''restricted production isolation is not active'' desired)"

definition sameIsolationDependencyAuthority :: "InstallationStatus \<Rightarrow> InstallationStatus \<Rightarrow> bool" where
  "sameIsolationDependencyAuthority current desired \<longleftrightarrow>
     is_IsolationRevision current = is_IsolationRevision desired
     \<and> is_PolicyConfigMap current = is_PolicyConfigMap desired \<and> is_RuntimeClass current = is_RuntimeClass desired
     \<and> is_StorageClass current = is_StorageClass desired \<and> is_CSIDriver current = is_CSIDriver desired"

text \<open>The status write mutates the object in memory; a vanished Installation counts as unchanged.\<close>

definition updateStatus ::
  "('w, 'q, 'k) isolation_env \<Rightarrow> Installation \<Rightarrow> InstallationStatus
     \<Rightarrow> ('w iso_state, 'k isolation_error + bool \<times> Installation) state" where
  "updateStatus env inst desired =
     (if in_Status inst = desired then returnOk (False, inst)
      else let inst' = inst\<lparr>in_Status := desired\<rparr> in
        do {
          r \<leftarrow> ask (ie_UpdateStatus env inst') (\<lambda>_. [StatusWritten desired]);
          case r of
            None \<Rightarrow> returnOk (True, inst')
          | Some k \<Rightarrow> if ie_NotFound env k then returnOk (False, inst')
                      else throwError (IsoReader ''update Installation isolation status'' k)
        })"

subsection \<open>Proof that nothing executes\<close>

definition trustedAdminNamespaceOwned ::
  "('w, 'q, 'k) isolation_env \<Rightarrow> InstallationIsolationReconciler \<Rightarrow> string
     \<Rightarrow> ('w, 'k isolation_error + bool) state" where
  "trustedAdminNamespaceOwned env r namespace =
     bindE (mapErr (IsoReader ''resolve Environment Namespace ownership'') (ie_Namespace env namespace)) (\<lambda>current.
       if om_UID current = [] \<or> deleting current
       then throwError (IsoText ''Environment Namespace has no stable live identity'')
       else let n = meta_annotation current InstallationNamespaceAnnotation;
                m = meta_annotation current InstallationNameAnnotation;
                u = meta_annotation current InstallationUIDAnnotation;
                i = ir_Installation r
            in if n = [] \<or> m = [] \<or> u = []
               then throwError (IsoText ''Environment Namespace has uncertain Installation ownership'')
               else if n \<noteq> fst (ii_Key i) \<or> m \<noteq> snd (ii_Key i) then returnOk False
               else if u \<noteq> ii_UID i
               then throwError (IsoText ''Environment Namespace has uncertain ownership by this Installation'')
               else returnOk True)"

fun listScoped ::
  "('w, 'q, 'k) isolation_env \<Rightarrow> string list \<Rightarrow> ('w, 'k isolation_error + 'q Environment list) state" where
  "listScoped env [] = returnOk []"
| "listScoped env (n # ns) =
     bindE (mapErr (IsoReader ''list Environments while fencing installation'') (ie_Environments env (Some n))) (\<lambda>es.
       bindE (listScoped env ns) (\<lambda>rest. returnOk (es @ rest)))"

text \<open>The ownership answers are cached per namespace in \<open>ownership\<close>.\<close>

fun listOwned ::
  "('w, 'q, 'k) isolation_env \<Rightarrow> InstallationIsolationReconciler \<Rightarrow> (string \<times> bool) list \<Rightarrow> 'q Environment list
     \<Rightarrow> ('w, 'k isolation_error + 'q Environment list) state" where
  "listOwned env r ownership [] = returnOk []"
| "listOwned env r ownership (e # es) =
     (let namespace = om_Namespace (en_Meta e) in
      bindE (case map_of ownership namespace of
               Some owned \<Rightarrow> returnOk owned
             | None \<Rightarrow> trustedAdminNamespaceOwned env r namespace) (\<lambda>owned.
        bindE (listOwned env r (mput namespace owned ownership) es) (\<lambda>rest.
          returnOk (if owned then e # rest else rest))))"

definition listExecutions ::
  "('w, 'q, 'k) isolation_env \<Rightarrow> InstallationIsolationReconciler
     \<Rightarrow> ('w, 'k isolation_error + 'q Environment list) state" where
  "listExecutions env r =
     (if ir_Mode r = ModeScoped then listScoped env (remdups_adj (sort (ir_Namespaces r)))
      else if ir_Mode r = ModeTrustedAdmin then
        bindE (mapErr (IsoReader ''list Environments while fencing installation'') (ie_Environments env None))
          (listOwned env r [])
      else throwError (IsoText ''installation isolation controller has no valid tenancy mode''))"

definition childGone ::
  "('w, 'q, 'k) isolation_env \<Rightarrow> ('w, 'k + ObjectMeta) state \<Rightarrow> 'q Environment
     \<Rightarrow> ('w, 'k isolation_error + bool) state" where
  "childGone env get e =
     ifErr get
       (\<lambda>k. if ie_NotFound env k then returnOk True
            else throwError (IsoReader ''prove Environment execution fencing'' k))
       (\<lambda>child. returnOk (\<not> controllerOwnerIs (ie_Controller env) child platformGroupVersion ''Environment''
                           (om_Name (en_Meta e)) (env_UID e)))"

definition executionFenced ::
  "('w, 'q, 'k) isolation_env \<Rightarrow> 'q Environment \<Rightarrow> ('w, 'k isolation_error + bool) state" where
  "executionFenced env e =
     (if st_PodName (en_Status e) \<noteq> [] \<or> ep_Sandboxd (st_Endpoints (en_Status e)) \<noteq> []
         \<or> IsEnvironmentReady (ie_Find env) e
      then returnOk False
      else bindE (childGone env (ie_Pod env (om_Namespace (en_Meta e), envPodName (ie_Sha env) e)) e) (\<lambda>podGone.
             if \<not> podGone then returnOk False
             else childGone env (ie_Secret env (om_Namespace (en_Meta e), envCredentialName (ie_Sha env) e)) e))"

fun executionsFenced ::
  "('w, 'q, 'k) isolation_env \<Rightarrow> 'q Environment list \<Rightarrow> ('w, 'k isolation_error + bool) state" where
  "executionsFenced env [] = returnOk True"
| "executionsFenced env (e # es) =
     bindE (executionFenced env e) (\<lambda>fenced. if \<not> fenced then returnOk False else executionsFenced env es)"

definition allEnvironmentExecutionsFenced ::
  "('w, 'q, 'k) isolation_env \<Rightarrow> InstallationIsolationReconciler
     \<Rightarrow> ('w, 'k isolation_error + bool) state" where
  "allEnvironmentExecutionsFenced env r = bindE (listExecutions env r) (executionsFenced env)"

definition observeFence ::
  "('w, 'q, 'k) isolation_env \<Rightarrow> InstallationIsolationReconciler
     \<Rightarrow> ('w iso_state, 'k isolation_error + bool) state" where
  "observeFence env r =
     ask (allEnvironmentExecutionsFenced env r) (\<lambda>x. [FenceObserved (case x of Inl _ \<Rightarrow> False | Inr b \<Rightarrow> b)])"

subsection \<open>Reconciling a selection\<close>

text \<open>The shape that the legacy and the unrestricted selection share: publish the fencing status, prove
  that everything is fenced, then publish the status that grants authority.\<close>

definition fenceThenPublish ::
  "('w, 'q, 'k) isolation_env \<Rightarrow> InstallationIsolationReconciler \<Rightarrow> Installation \<Rightarrow> InstallationStatus
     \<Rightarrow> InstallationStatus \<Rightarrow> ('w iso_state, 'k isolation_error outcome) state" where
  "fenceThenPublish env r inst desiredFencing desired =
     orFail (updateStatus env inst desiredFencing) (\<lambda>(changed, inst').
       if changed then ret (requeueNow, None)
       else orFail (observeFence env r) (\<lambda>fenced.
         if \<not> fenced then ret (requeueNow, None)
         else orFail (updateStatus env inst' desired) (\<lambda>(changed', _).
                ret (noResult\<lparr>res_Requeue := changed'\<rparr>, None))))"

definition reconcileLegacySelection ::
  "('w, 'q, 'k) isolation_env \<Rightarrow> InstallationIsolationReconciler \<Rightarrow> Installation
     \<Rightarrow> ('w iso_state, 'k isolation_error outcome) state" where
  "reconcileLegacySelection env r inst =
     (let desiredLegacy = legacyStatus env inst IsolationStateLegacyUnclassified in
      if legacyCompatibleIsolationStatus (in_Status inst)
      then finish noResult (updateStatus env inst desiredLegacy)
      else fenceThenPublish env r inst (legacyStatus env inst IsolationStateFencing) desiredLegacy)"

definition reconcileUnrestrictedSelection ::
  "('w, 'q, 'k) isolation_env \<Rightarrow> InstallationIsolationReconciler \<Rightarrow> Installation \<Rightarrow> InstallationIsolationSpec
     \<Rightarrow> string \<Rightarrow> ('w iso_state, 'k isolation_error outcome) state" where
  "reconcileUnrestrictedSelection env r inst selection revision =
     (let desiredActive = unrestrictedStatus env inst IsolationStateActive selection revision in
      if legacyCompatibleIsolationStatus (in_Status inst)
         \<or> unrestrictedAuthorityMatches (in_Status inst) selection revision
      then finish noResult (updateStatus env inst desiredActive)
      else fenceThenPublish env r inst (unrestrictedStatus env inst IsolationStateFencing selection revision)
             desiredActive)"

text \<open>\<open>dependency name get\<close> reads a dependency and logs it.\<close>

definition dependency ::
  "string \<Rightarrow> ('w, 'k + 'a) state \<Rightarrow> ('w iso_state, 'k isolation_error + 'a) state" where
  "dependency name get = mapErr (IsoReader name) (ask get (\<lambda>_. [DependencyRead name]))"

definition resolveRestrictedSelection ::
  "('w, 'q, 'k) isolation_env \<Rightarrow> Installation \<Rightarrow> InstallationIsolationSpec
     \<Rightarrow> ('w iso_state, 'k isolation_error + string \<times> restrictedIsolationIdentities) state" where
  "resolveRestrictedSelection env inst selection =
     bindE (dependency ''resolve isolation policy ConfigMap''
              (ie_ConfigMap env (om_Namespace (in_Meta inst), iso_PolicyConfigMapName selection))) (\<lambda>policyMap.
     case ParseConfigMap (ie_ConfigLib env) (Some policyMap) of
       Inl e \<Rightarrow> throwError (IsoPolicy e)
     | Inr policy \<Rightarrow>
         if cf_Mode (pc_Config policy) \<noteq> ModeRestricted
            \<or> map_option rp_Name (cf_RestrictedProfile (pc_Config policy)) \<noteq> Some RestrictedProfileCalicoV1
         then throwError (IsoText ''restricted installation isolation requires the canonical restricted Calico v3.32.1 policy'')
         else
     (let rcx = the (iso_RuntimeClass selection); scx = the (iso_StorageClass selection) in
     bindE (dependency ''resolve isolation RuntimeClass'' (ie_RuntimeClass env (rce_Name rcx))) (\<lambda>(rc, handler).
     if om_UID rc = [] \<or> deleting rc \<or> handler \<noteq> rce_Handler rcx
     then throwError (IsoText ''RuntimeClass identity or handler does not match the restricted isolation selection'')
     else
     bindE (dependency ''resolve isolation StorageClass'' (ie_StorageClass env (sce_Name scx))) (\<lambda>(sc, provisioner).
     if om_UID sc = [] \<or> deleting sc \<or> provisioner \<noteq> sce_CSIDriver scx
     then throwError (IsoText ''StorageClass identity or provisioner does not match the restricted isolation selection'')
     else
     bindE (dependency ''resolve isolation CSIDriver'' (ie_CSIDriver env (sce_CSIDriver scx))) (\<lambda>csi.
     if om_UID csi = [] \<or> deleting csi
     then throwError (IsoText ''stable live CSIDriver identity does not match the restricted isolation selection'')
     else
     let inp = \<lparr>vi_InstallationUID = om_UID (in_Meta inst), vi_Selection = selection,
                vi_PolicyConfigMap = Some (om_UID (cm_Meta policyMap), pc_ContentSHA256 policy),
                vi_RuntimeClass = Some (om_UID rc, handler), vi_StorageClass = Some (om_UID sc, provisioner),
                vi_CSIDriver = Some (om_UID csi)\<rparr>
     in case deriveFor env inp of
          Inl e \<Rightarrow> throwError (InvalidRevision e)
        | Inr revision \<Rightarrow>
            returnOk (revision,
              \<lparr>ra_policy = \<lparr>pci_Name = iso_PolicyConfigMapName selection, pci_UID = om_UID (cm_Meta policyMap),
                             pci_ContentSHA256 = hex_encode (pc_ContentSHA256 policy)\<rparr>,
               ra_runtimeClass = \<lparr>rci_Name = om_Name rc, rci_UID = om_UID rc, rci_Handler = handler\<rparr>,
               ra_storageClass = \<lparr>sci_Name = om_Name sc, sci_UID = om_UID sc, sci_CSIDriver = provisioner\<rparr>,
               ra_csiDriver = \<lparr>cdi_Name = om_Name csi, cdi_UID = om_UID csi\<rparr>\<rparr>))))))"

definition reconcileBlockedSelection ::
  "('w, 'q, 'k) isolation_env \<Rightarrow> InstallationIsolationReconciler \<Rightarrow> Installation
     \<Rightarrow> (string \<times> restrictedIsolationIdentities) option \<Rightarrow> 'k isolation_error option
     \<Rightarrow> ('w iso_state, 'k isolation_error outcome) state" where
  "reconcileBlockedSelection env r inst resolved resolveErr =
     (let observed = (if ValidateSelection (ie_Dns env) (in_Isolation inst) = None then in_Isolation inst else None);
          st = in_Status inst;
          desiredFencing = blockedStatus env inst IsolationStateFencing observed resolved resolveErr
      in if is_ObservedIsolation st \<noteq> observed
            \<or> is_IsolationState st \<noteq> IsolationStateFencing \<and> is_IsolationState st \<noteq> IsolationStateBlocked
            \<or> is_IsolationState st = IsolationStateBlocked \<and> \<not> sameIsolationDependencyAuthority st desiredFencing
         then orFail (updateStatus env inst desiredFencing) (\<lambda>_. ret (requeueNow, None))
         else do {
           fence \<leftarrow> observeFence env r;
           let fenced = (case fence of Inl _ \<Rightarrow> False | Inr b \<Rightarrow> b);
           let desired = blockedStatus env inst (if fenced then IsolationStateBlocked else IsolationStateFencing)
                           observed resolved resolveErr;
           orFail (updateStatus env inst desired) (\<lambda>(changed, _).
             case fence of
               Inl e \<Rightarrow> ret (noResult, Some e)
             | Inr _ \<Rightarrow>
                 if changed \<or> \<not> fenced then ret (requeueNow, None)
                 else if resolveErr \<noteq> None then ret (requeueAfter 5000000000, None)
                 else ret (noResult, None))
         })"

text \<open>\<open>Reconcile\<close>, from the Installation it read on.\<close>

definition reconcileSelection ::
  "('w, 'q, 'k) isolation_env \<Rightarrow> InstallationIsolationReconciler \<Rightarrow> Installation
     \<Rightarrow> ('w iso_state, 'k isolation_error outcome) state" where
  "reconcileSelection env r inst =
     (if om_UID (in_Meta inst) \<noteq> ii_UID (ir_Installation r) \<or> deleting (in_Meta inst) then ret (noResult, None)
      else case in_Isolation inst of
        None \<Rightarrow> reconcileLegacySelection env r inst
      | Some selection \<Rightarrow>
          (case ValidateSelection (ie_Dns env) (Some selection) of
             Some e \<Rightarrow> reconcileBlockedSelection env r inst None (Some (InvalidSelection e))
           | None \<Rightarrow>
               if iso_Mode selection = ModeUnrestrictedDevelopment then
                 (case deriveFor env (unrestrictedInputs inst selection) of
                    Inl e \<Rightarrow> reconcileBlockedSelection env r inst None (Some (InvalidRevision e))
                  | Inr revision \<Rightarrow> reconcileUnrestrictedSelection env r inst selection revision)
               else if is_ObservedIsolation (in_Status inst) \<noteq> Some selection
                  \<or> is_IsolationState (in_Status inst) \<noteq> IsolationStateFencing
                    \<and> is_IsolationState (in_Status inst) \<noteq> IsolationStateBlocked
               then reconcileBlockedSelection env r inst None (Some (IsoText ''restricted isolation dependencies have not been resolved''))
               else do {
                 resolution \<leftarrow> resolveRestrictedSelection env inst selection;
                 case resolution of
                   Inl e \<Rightarrow> reconcileBlockedSelection env r inst None (Some e)
                 | Inr resolved \<Rightarrow> reconcileBlockedSelection env r inst (Some resolved) None
               }))"

definition ReconcileInstallation ::
  "('w, 'q, 'k) isolation_env \<Rightarrow> InstallationIsolationReconciler \<Rightarrow> NamespacedName
     \<Rightarrow> ('w iso_state, 'k isolation_error outcome) state" where
  "ReconcileInstallation env r req =
     (if req \<noteq> ii_Key (ir_Installation r) then ret (noResult, None)
      else ifErr (ask (ie_Installation env (ii_Key (ir_Installation r))) (\<lambda>_. []))
        (\<lambda>k. ret (noResult, if ie_NotFound env k then None else Some (IsoReader ''get Installation'' k)))
        (reconcileSelection env r))"

section \<open>Authority is granted only behind a fence\<close>

definition grants :: "('w, 'q, 'k) isolation_env \<Rightarrow> Installation \<Rightarrow> InstallationStatus \<Rightarrow> bool" where
  "grants env inst st \<longleftrightarrow>
     executionAllowedBy env (inst\<lparr>in_Status := st\<rparr>) = (Inr True :: 'k isolation_error + bool)"

text \<open>The authority of the status already covers the current selection: it is still the legacy status, or
  it is the active status of exactly this selection and revision.\<close>

definition alreadyAuthorized :: "('w, 'q, 'k) isolation_env \<Rightarrow> Installation \<Rightarrow> bool" where
  "alreadyAuthorized env inst \<longleftrightarrow>
     legacyCompatibleIsolationStatus (in_Status inst)
     \<or> (\<exists>sel revision. in_Isolation inst = Some sel \<and> deriveFor env (unrestrictedInputs inst sel) = Inr revision
          \<and> unrestrictedAuthorityMatches (in_Status inst) sel revision)"

text \<open>\<open>fencedWrite\<close>: within the log \<open>es\<close> of one reconcile, the write of \<open>st\<close> comes after a successful
  proof that nothing executes, and the fencing status was in place before that proof.\<close>

definition fencedWrite :: "Installation \<Rightarrow> iso_event list \<Rightarrow> InstallationStatus \<Rightarrow> bool" where
  "fencedWrite inst es st \<longleftrightarrow>
     (\<exists>a b. es = a @ FenceObserved True # b \<and> StatusWritten st \<in> set b \<and> StatusWritten st \<notin> set a
        \<and> (is_IsolationState (in_Status inst) = IsolationStateFencing
           \<or> (\<exists>f. StatusWritten f \<in> set a \<and> is_IsolationState f = IsolationStateFencing)))"

lemma setConditions_sel [simp]:
  "is_IsolationState (setConditions env inst a b c d e f g st) = is_IsolationState st"
  "is_ObservedIsolation (setConditions env inst a b c d e f g st) = is_ObservedIsolation st"
  "is_IsolationRevision (setConditions env inst a b c d e f g st) = is_IsolationRevision st"
  by (simp_all add: setConditions_def Let_def)

lemma status_sel [simp]:
  "is_IsolationState (legacyStatus env inst st) = st"
  "is_IsolationState (unrestrictedStatus env inst st sel rv) = st"
  "is_ObservedIsolation (unrestrictedStatus env inst st sel rv) = Some sel"
  by (simp_all add: legacyStatus_def unrestrictedStatus_def baseStatus_def Let_def split: prod.splits)

lemma grants_cases:
  assumes "grants env inst st"
  shows "legacyCompatibleIsolationStatus st
     \<or> (\<exists>sel revision. in_Isolation inst = Some sel \<and> iso_Mode sel = ModeUnrestrictedDevelopment
          \<and> ValidateSelection (ie_Dns env) (Some sel) = None
          \<and> deriveFor env (unrestrictedInputs inst sel) = Inr revision \<and> unrestrictedAuthorityMatches st sel revision)"
  using assms unfolding grants_def executionAllowedBy_def
  by (auto simp: unrestrictedInputs_def split: option.splits sum.splits if_split_asm)

lemma legacyCompatible_state:
  "legacyCompatibleIsolationStatus st \<Longrightarrow>
     is_IsolationState st = [] \<or> is_IsolationState st = IsolationStateLegacyUnclassified"
  unfolding legacyCompatibleIsolationStatus_def by (simp split: if_split_asm)

lemma fencing_grants_nothing:
  assumes "is_IsolationState st = IsolationStateFencing"
  shows "\<not> grants env inst st"
proof
  assume "grants env inst st"
  from grants_cases [OF this] have "is_IsolationState st \<noteq> IsolationStateFencing"
    using legacyCompatible_state [of st] by (auto simp: unrestrictedAuthorityMatches_def)
  with assms show False by simp
qed

lemma run_updateStatus:
  assumes "run_state (updateStatus env inst desired) s = (r, s')"
  shows "(in_Status inst = desired \<and> s' = s \<and> r = Inr (False, inst))
     \<or> lw_log s' = lw_log s @ [StatusWritten desired]"
  using assms by (auto simp: updateStatus_def ask_def Let_def split: if_splits prod.splits option.splits)

lemma run_observeFence:
  assumes "run_state (observeFence env r) s = (x, s')"
  shows "lw_log s' = lw_log s @ [FenceObserved (x = Inr True)]"
  using assms by (auto simp: observeFence_def ask_def split: prod.splits sum.splits)

lemma fenceThenPublish_log:
  assumes "run_state (fenceThenPublish env r inst ft desired) s = (out, s')"
  shows "\<exists>a b. lw_log s' = lw_log s @ a @ b
     \<and> (a = [] \<and> in_Status inst = ft \<or> a = [StatusWritten ft])
     \<and> (b = [] \<or> b = [FenceObserved False] \<or> b = [FenceObserved True]
        \<or> b = [FenceObserved True, StatusWritten desired])"
proof -
  obtain u s1 where u: "run_state (updateStatus env inst ft) s = (u, s1)" by force
  define a where "a = (if s1 = s \<and> in_Status inst = ft then [] else [StatusWritten ft])"
  have a: "lw_log s1 = lw_log s @ a" "a = [] \<and> in_Status inst = ft \<or> a = [StatusWritten ft]"
    using run_updateStatus [OF u] by (auto simp: a_def)
  show ?thesis
  proof (cases "\<exists>inst'. u = Inr (False, inst')")
    case False
    with assms u have "s' = s1"
      by (auto simp: fenceThenPublish_def orFail_def ifErr_def split: sum.splits prod.splits)
    with a show ?thesis by (intro exI [of _ a] exI [of _ "[]"]) simp
  next
    case True
    then obtain inst' where ui: "u = Inr (False, inst')" by blast
    obtain f s2 where f: "run_state (observeFence env r) s1 = (f, s2)" by force
    note l2 = run_observeFence [OF f]
    show ?thesis
    proof (cases "f = Inr True")
      case False
      with assms u ui f have "s' = s2"
        by (auto simp: fenceThenPublish_def orFail_def ifErr_def split: sum.splits)
      with a l2 False show ?thesis by (intro exI [of _ a] exI [of _ "[FenceObserved False]"]) simp
    next
      case True
      obtain u2 s3 where u2: "run_state (updateStatus env inst' desired) s2 = (u2, s3)" by force
      from assms u ui f True u2 have "s' = s3"
        by (auto simp: fenceThenPublish_def orFail_def ifErr_def split: sum.splits prod.splits)
      with l2 True run_updateStatus [OF u2]
      have "lw_log s' = lw_log s1 @ [FenceObserved True]
          \<or> lw_log s' = lw_log s1 @ [FenceObserved True, StatusWritten desired]" by auto
      then obtain b where "lw_log s' = lw_log s1 @ b"
        "b = [FenceObserved True] \<or> b = [FenceObserved True, StatusWritten desired]" by blast
      with a show ?thesis by (intro exI [of _ a] exI [of _ b]) auto
    qed
  qed
qed

text \<open>A status written for a blocked selection grants nothing: the selection is invalid, restricted, or has
  no revision.\<close>

definition blockedSelection :: "('w, 'q, 'k) isolation_env \<Rightarrow> Installation \<Rightarrow> bool" where
  "blockedSelection env inst \<longleftrightarrow>
     (\<exists>sel. in_Isolation inst = Some sel
        \<and> (ValidateSelection (ie_Dns env) (Some sel) \<noteq> None \<or> iso_Mode sel \<noteq> ModeUnrestrictedDevelopment
           \<or> (\<exists>e. deriveFor env (unrestrictedInputs inst sel) = Inl e)))"

lemma unrestrictedInputs_status [simp]:
  "unrestrictedInputs (inst\<lparr>in_Status := st\<rparr>) sel = unrestrictedInputs inst sel"
  by (simp add: unrestrictedInputs_def)

lemma blockedSelection_grants: "blockedSelection env inst \<Longrightarrow> \<not> grants env inst st"
  unfolding grants_def executionAllowedBy_def blockedSelection_def
  by (auto split: option.splits)

lemma emits_updateStatus [emits_intros]: "E (StatusWritten desired) \<Longrightarrow> emits lw_log E (updateStatus env inst desired)"
  unfolding updateStatus_def by (intro emits_intros) simp_all

lemma emits_observeFence [emits_intros]: "(\<And>b. E (FenceObserved b)) \<Longrightarrow> emits lw_log E (observeFence env r)"
  unfolding observeFence_def by (intro emits_intros) simp

lemma emits_dependency [emits_intros]: "E (DependencyRead n) \<Longrightarrow> emits lw_log E (dependency n get)"
  unfolding dependency_def by (intro emits_intros) simp

definition harmless :: "('w, 'q, 'k) isolation_env \<Rightarrow> Installation \<Rightarrow> iso_event \<Rightarrow> bool" where
  "harmless env inst ev = (case ev of StatusWritten st \<Rightarrow> \<not> grants env inst st | _ \<Rightarrow> True)"

lemma harmless_simps [simp]:
  "harmless env inst (StatusWritten st) \<longleftrightarrow> \<not> grants env inst st"
  "harmless env inst (DependencyRead n)" "harmless env inst (FenceObserved b)"
  by (simp_all add: harmless_def)

lemma emits_blocked:
  assumes "blockedSelection env inst"
  shows "emits lw_log (harmless env inst) (reconcileBlockedSelection env r inst resolved resolveErr)"
  unfolding reconcileBlockedSelection_def Let_def
  by (intro emits_intros) (simp_all add: blockedSelection_grants [OF assms])

lemma emits_resolve: "emits lw_log (harmless env inst) (resolveRestrictedSelection env inst sel)"
  unfolding resolveRestrictedSelection_def Let_def by (intro emits_intros) simp_all

text \<open>What one reconcile logs, as a predicate on the events it appends.\<close>

definition authorityKept :: "('w, 'q, 'k) isolation_env \<Rightarrow> Installation \<Rightarrow> iso_event list \<Rightarrow> bool" where
  "authorityKept env inst es \<longleftrightarrow>
     (\<forall>st. StatusWritten st \<in> set es \<longrightarrow> grants env inst st \<longrightarrow>
        alreadyAuthorized env inst \<or> fencedWrite inst es st)
     \<and> (\<forall>n. DependencyRead n \<in> set es \<longrightarrow>
          is_ObservedIsolation (in_Status inst) = in_Isolation inst
          \<and> is_IsolationState (in_Status inst) \<in> {IsolationStateFencing, IsolationStateBlocked})"

definition appends :: "(('w iso_state, 'a) state) \<Rightarrow> 'w iso_state \<Rightarrow> (iso_event list \<Rightarrow> bool) \<Rightarrow> bool" where
  "appends m s P \<longleftrightarrow> (\<exists>es. lw_log (snd (run_state m s)) = lw_log s @ es \<and> P es)"

lemma appends_fenceThenPublish:
  assumes ft: "is_IsolationState ft = IsolationStateFencing"
  shows "appends (fenceThenPublish env r inst ft desired) s (authorityKept env inst)"
proof -
  obtain out s' where run: "run_state (fenceThenPublish env r inst ft desired) s = (out, s')"
    by (cases "run_state (fenceThenPublish env r inst ft desired) s")
  obtain a b where log: "lw_log s' = lw_log s @ a @ b"
    and a: "a = [] \<and> in_Status inst = ft \<or> a = [StatusWritten ft]"
    and b: "b = [] \<or> b = [FenceObserved False] \<or> b = [FenceObserved True]
        \<or> b = [FenceObserved True, StatusWritten desired]"
    using fenceThenPublish_log [OF run] by blast
  have no: "\<not> grants env inst ft" by (rule fencing_grants_nothing [OF ft])
  have "authorityKept env inst (a @ b)"
    unfolding authorityKept_def
  proof (intro conjI allI impI)
    fix st assume st: "StatusWritten st \<in> set (a @ b)" "grants env inst st"
    with no have ne: "st \<noteq> ft" by auto
    with st(1) a b have sb: "st = desired" "b = [FenceObserved True, StatusWritten desired]" by auto
    have "fencedWrite inst (a @ b) st"
      unfolding fencedWrite_def
      using sb a ne ft by (intro exI [of _ a] exI [of _ "[StatusWritten desired]"]) auto
    then show "alreadyAuthorized env inst \<or> fencedWrite inst (a @ b) st" ..
  qed (use a b in auto)
  with run log show ?thesis by (auto simp: appends_def)
qed

lemma appends_harmless:
  assumes "emits lw_log (\<lambda>e. harmless env inst e \<and> (\<forall>n. e \<noteq> DependencyRead n)) m"
  shows "appends m s (authorityKept env inst)"
proof -
  obtain es where "lw_log (snd (run_state m s)) = lw_log s @ es"
    "list_all (\<lambda>e. harmless env inst e \<and> (\<forall>n. e \<noteq> DependencyRead n)) es"
    by (rule emitsE [OF assms])
  then show ?thesis by (fastforce simp: appends_def authorityKept_def list_all_iff)
qed

lemma appends_authorized:
  assumes "alreadyAuthorized env inst" "emits lw_log (\<lambda>e. \<forall>n. e \<noteq> DependencyRead n) m"
  shows "appends m s (authorityKept env inst)"
proof -
  obtain es where "lw_log (snd (run_state m s)) = lw_log s @ es" "list_all (\<lambda>e. \<forall>n. e \<noteq> DependencyRead n) es"
    by (rule emitsE [OF assms(2)])
  with assms(1) show ?thesis by (fastforce simp: appends_def authorityKept_def list_all_iff)
qed

lemma emits_blocked_quiet:
  assumes "blockedSelection env inst"
  shows "emits lw_log (\<lambda>e. harmless env inst e \<and> (\<forall>n. e \<noteq> DependencyRead n))
           (reconcileBlockedSelection env r inst resolved resolveErr)"
  unfolding reconcileBlockedSelection_def Let_def
  by (intro emits_intros) (simp_all add: blockedSelection_grants [OF assms])

lemma appends_resolving:
  assumes b: "blockedSelection env inst"
    and st: "is_ObservedIsolation (in_Status inst) = in_Isolation inst"
      "is_IsolationState (in_Status inst) \<in> {IsolationStateFencing, IsolationStateBlocked}"
    and m: "emits lw_log (harmless env inst) m"
  shows "appends m s (authorityKept env inst)"
proof -
  obtain es where "lw_log (snd (run_state m s)) = lw_log s @ es" "list_all (harmless env inst) es"
    by (rule emitsE [OF m])
  with st show ?thesis by (fastforce simp: appends_def authorityKept_def list_all_iff)
qed

lemma appends_reconcileSelection:
  fixes env :: "('w, 'q, 'k) isolation_env"
  shows "appends (reconcileSelection env r inst) s (authorityKept env inst)"
proof -
  have quiet: "appends (ret x) s (authorityKept env inst)" for x :: "'k isolation_error outcome"
    by (simp add: appends_def authorityKept_def)
  show ?thesis
  proof (cases "om_UID (in_Meta inst) \<noteq> ii_UID (ir_Installation r) \<or> deleting (in_Meta inst)")
    case True
    then show ?thesis using quiet by (simp add: reconcileSelection_def)
  next
    case live: False
    show ?thesis
    proof (cases "in_Isolation inst")
      case None
      have "appends (reconcileLegacySelection env r inst) s (authorityKept env inst)"
        unfolding reconcileLegacySelection_def Let_def
        by (auto intro!: appends_fenceThenPublish appends_authorized emits_intros simp: alreadyAuthorized_def)
      with live None show ?thesis by (simp add: reconcileSelection_def)
    next
      case (Some sel)
      note sel = Some
      show ?thesis
      proof (cases "ValidateSelection (ie_Dns env) (Some sel)")
        case (Some e)
        with sel have "blockedSelection env inst" by (auto simp: blockedSelection_def)
        from appends_harmless [OF emits_blocked_quiet [OF this]] live sel Some
        show ?thesis by (simp add: reconcileSelection_def)
      next
        case valid: None
        show ?thesis
        proof (cases "iso_Mode sel = ModeUnrestrictedDevelopment")
          case True
          show ?thesis
          proof (cases "deriveFor env (unrestrictedInputs inst sel)")
            case (Inl e)
            with sel have "blockedSelection env inst" by (auto simp: blockedSelection_def)
            from appends_harmless [OF emits_blocked_quiet [OF this]] live sel valid True Inl
            show ?thesis by (simp add: reconcileSelection_def)
          next
            case (Inr rv)
            have "appends (reconcileUnrestrictedSelection env r inst sel rv) s (authorityKept env inst)"
              unfolding reconcileUnrestrictedSelection_def Let_def using sel Inr
              by (auto intro!: appends_fenceThenPublish appends_authorized emits_intros simp: alreadyAuthorized_def)
            with live sel valid True Inr show ?thesis by (simp add: reconcileSelection_def)
          qed
        next
          case restricted: False
          with sel have bl: "blockedSelection env inst" by (auto simp: blockedSelection_def)
          show ?thesis
          proof (cases "is_ObservedIsolation (in_Status inst) \<noteq> Some sel
              \<or> is_IsolationState (in_Status inst) \<noteq> IsolationStateFencing
                \<and> is_IsolationState (in_Status inst) \<noteq> IsolationStateBlocked")
            case True
            from appends_harmless [OF emits_blocked_quiet [OF bl]] live sel valid restricted True
            show ?thesis by (simp add: reconcileSelection_def)
          next
            case False
            have "emits lw_log (harmless env inst) (reconcileSelection env r inst)"
              using live sel valid restricted False
              by (auto simp: reconcileSelection_def intro!: emits_intros emits_resolve emits_blocked [OF bl])
            with False sel show ?thesis by (intro appends_resolving [OF bl]) auto
          qed
        qed
      qed
    qed
  qed
qed


text \<open>An installation that just selected unrestricted development, is durably fencing, and has no
  Environments: this reconcile grants the authority, behind the fence.\<close>

definition example_selection :: InstallationIsolationSpec where
  "example_selection = \<lparr>iso_Mode = ModeUnrestrictedDevelopment, iso_PolicyConfigMapName = [],
     iso_RuntimeClass = None, iso_StorageClass = None\<rparr>"

definition example_iso_env :: "(Installation, nat, bool) isolation_env" where
  "example_iso_env =
     \<lparr>ie_Installation = (\<lambda>_. State (\<lambda>w. (Inr w, w))),
      ie_UpdateStatus = (\<lambda>i. State (\<lambda>w. (None, i))), ie_NotFound = id,
      ie_Namespace = (\<lambda>_. throwError True), ie_Environments = (\<lambda>_. returnOk []),
      ie_Pod = (\<lambda>_. throwError True), ie_Secret = (\<lambda>_. throwError True),
      ie_ConfigMap = (\<lambda>_. throwError True), ie_RuntimeClass = (\<lambda>_. throwError True),
      ie_StorageClass = (\<lambda>_. throwError True), ie_CSIDriver = (\<lambda>_. throwError True),
      ie_ConfigLib = sample_lib, ie_Dns = \<lparr>dn_Label = (\<lambda>_. []), dn_Subdomain = (\<lambda>_. [])\<rparr>,
      ie_Marshal = ca_InstallationUID, ie_Sha256 = id,
      ie_Find = (\<lambda>cs t. find (\<lambda>c. cd_Type c = t) cs), ie_Set = (\<lambda>c cs. [c]),
      ie_Controller = (\<lambda>_. None), ie_Sha = id\<rparr>"

definition example_installation :: Installation where
  "example_installation =
     (let base = \<lparr>in_Meta = zero_meta\<lparr>om_UID := ''i''\<rparr>, in_Isolation = Some example_selection,
                  in_Status = baseStatus [] None\<rparr>
      in base\<lparr>in_Status := unrestrictedStatus example_iso_env base IsolationStateFencing example_selection ''i''\<rparr>)"

definition example_iso_reconciler :: InstallationIsolationReconciler where
  "example_iso_reconciler = \<lparr>ir_Installation = \<lparr>ii_Key = (''s'', ''i''), ii_UID = ''i''\<rparr>,
     ir_Mode = ModeScoped, ir_Namespaces = []\<rparr>"

definition example_active :: InstallationStatus where
  "example_active = unrestrictedStatus example_iso_env example_installation IsolationStateActive example_selection ''i''"

lemma example_iso_run:
  "lw_log (snd (run_state (ReconcileInstallation example_iso_env example_iso_reconciler (''s'', ''i''))
     \<lparr>lw_world = example_installation, lw_log = []\<rparr>)) = [FenceObserved True, StatusWritten example_active]"
  by code_simp

lemma example_active_grants: "grants example_iso_env example_installation example_active"
  unfolding grants_def by code_simp

lemma example_not_authorized: "\<not> alreadyAuthorized example_iso_env example_installation"
proof -
  have "is_IsolationState (in_Status example_installation) = IsolationStateFencing" by code_simp
  then show ?thesis
    using legacyCompatible_state [of "in_Status example_installation"]
    by (auto simp: alreadyAuthorized_def unrestrictedAuthorityMatches_def)
qed


end
