(* ===== verification/Repository_Credential.thy ===== *)
theory Repository_Credential
  imports Api_Types
begin

text \<open>
  Short-lived repository credentials (\<open>src/internal/repositorycredential\<close>): the provider's errors
  (\<open>provider.go\<close>) and the Secrets that hold an active lease or a pending revocation
  (\<open>secret.go\<close>). Times are nanoseconds since the Unix epoch; \<open>fmt\<close> and \<open>prs\<close> stand for
  \<open>Time.Format\<close> and \<open>time.Parse\<close> with the layout \<open>RFC3339Nano\<close>. Zeroing the memory of
  tokens (\<open>ClearLease\<close>, \<open>ClearPendingRevocation\<close>) has no counterpart: values are immutable here.
\<close>

section \<open>Credentials and provider errors\<close>

abbreviation "second \<equiv> (1000000000 :: int)"
abbreviation "DefaultRetryDelay \<equiv> 10 * second"
abbreviation "MinimumValidity \<equiv> 5 * 60 * second"
abbreviation "RefreshMargin \<equiv> 10 * 60 * second"

definition MaxTokenBytes :: nat where
  "MaxTokenBytes = 16 * 1024"

text \<open>\<open>time.Time{}\<close>.\<close>

definition zeroTime :: int where
  "zeroTime = - 62135596800 * second"

record Credential =
  cr_Token :: string
  cr_Repository :: string
  cr_InstallationID :: int
  cr_ExpiresAt :: int

text \<open>The error of the provider as \<open>errors.As\<close> finds it in a chain, if it is there.\<close>

record ProviderError =
  pe_Retryable :: bool
  pe_Operation :: string
  pe_Reason :: string
  pe_RetryAfter :: int
  pe_StatusCode :: int

definition IsRetryable :: "ProviderError option \<Rightarrow> bool" where
  "IsRetryable e = (case e of None \<Rightarrow> False | Some t \<Rightarrow> pe_Retryable t)"

definition Reason :: "ProviderError option \<Rightarrow> string" where
  "Reason e = (case e of
     None \<Rightarrow> ''ProviderError''
   | Some t \<Rightarrow> if pe_Reason t \<noteq> [] then pe_Reason t else ''ProviderError'')"

definition RetryDelay :: "ProviderError option \<Rightarrow> int" where
  "RetryDelay e = (case e of
     None \<Rightarrow> DefaultRetryDelay
   | Some t \<Rightarrow> if 0 < pe_RetryAfter t then pe_RetryAfter t else DefaultRetryDelay)"

section \<open>Secrets\<close>

record Secret =
  se_Meta :: ObjectMeta
  se_Type :: string
  se_Data :: "(string \<times> string) list"

abbreviation "SecretType \<equiv> ''swe.dev/repository-credential''"
abbreviation "TokenKey \<equiv> ''token''"
abbreviation "AnnotationRunName \<equiv> ''swe.dev/repository-credential-run-name''"
abbreviation "AnnotationRunUID \<equiv> ''swe.dev/repository-credential-run-uid''"
abbreviation "AnnotationProvider \<equiv> ''swe.dev/repository-credential-provider''"
abbreviation "AnnotationRepository \<equiv> ''swe.dev/repository-credential-repository''"
abbreviation "AnnotationSourceRepository \<equiv> ''swe.dev/repository-credential-source-repository''"
abbreviation "AnnotationInstallationID \<equiv> ''swe.dev/repository-credential-installation-id''"
abbreviation "AnnotationExpiry \<equiv> ''swe.dev/repository-credential-expiry''"
abbreviation "AnnotationEnvironmentUID \<equiv> ''swe.dev/repository-credential-environment-uid''"
abbreviation "AnnotationExecutionGeneration \<equiv> ''swe.dev/repository-credential-execution-generation''"
abbreviation "AnnotationTokenGeneration \<equiv> ''swe.dev/repository-credential-token-generation''"
abbreviation "AnnotationRevocationState \<equiv> ''swe.dev/repository-credential-revocation-state''"
abbreviation "AnnotationRevocationDisposition \<equiv> ''swe.dev/repository-credential-revocation-disposition''"
abbreviation "RevocationStatePending \<equiv> ''pending''"
abbreviation "RevocationStateComplete \<equiv> ''complete''"
abbreviation "DispositionProviderInvalidToken \<equiv> ''ProviderInvalidToken''"

definition SecretName :: "string \<Rightarrow> string" where
  "SecretName runUID = ''run-repository-credential-'' @ runUID"

definition PendingRevocationSecretName :: "string \<Rightarrow> string" where
  "PendingRevocationSecretName runUID = SecretName runUID @ ''-pending-revocation''"

definition ExactManagedIdentity ::
  "Secret \<Rightarrow> string \<Rightarrow> string \<Rightarrow> string \<Rightarrow> string \<Rightarrow> string \<Rightarrow> bool" where
  "ExactManagedIdentity secret runName runUID provider source canonical =
     (let m = se_Meta secret; a = om_Annotations m in
      if om_Name m \<noteq> SecretName runUID \<or> se_Type secret \<noteq> SecretType \<or> om_OwnerReferences m \<noteq> [] then False
      else if map_of a AnnotationRevocationState \<noteq> None then False
      else if map_of a AnnotationRevocationDisposition \<noteq> None then False
      else annotation a AnnotationRunName = runName \<and> annotation a AnnotationRunUID = runUID
        \<and> annotation a AnnotationProvider = provider \<and> annotation a AnnotationSourceRepository = source
        \<and> annotation a AnnotationRepository = canonical)"

text \<open>The two structs that embed a credential.\<close>

record Lease = Credential +
  le_SecretUID :: string
  le_ResourceVersion :: string
  le_RunName :: string
  le_RunUID :: string
  le_Provider :: string
  le_SourceRepository :: string
  le_EnvironmentUID :: string
  le_ExecutionGeneration :: int
  le_TokenGeneration :: int

record PendingRevocation = Credential +
  pv_SecretUID :: string
  pv_ResourceVersion :: string
  pv_RunName :: string
  pv_RunUID :: string
  pv_Provider :: string
  pv_SourceRepository :: string
  pv_TokenGeneration :: int
  pv_State :: string
  pv_Disposition :: string
  pv_Legacy :: bool

datatype secret_error =
  ForeignCredentialSecret
| MalformedCredentialSecret
| ForeignPendingSecret
| MalformedPendingSecret
| InvalidIssuedCredential
| InvalidDisposition
| ChangedDuringValidation

text \<open>The fields both parsers read: installation, expiry, execution, generation and token.\<close>

definition storedFields ::
  "(string \<Rightarrow> int option) \<Rightarrow> Secret \<Rightarrow> (int \<times> int \<times> int \<times> int \<times> string) option" where
  "storedFields prs secret =
     (let a = om_Annotations (se_Meta secret) in
      case (parse_int (annotation a AnnotationInstallationID), prs (annotation a AnnotationExpiry),
            parse_int (annotation a AnnotationExecutionGeneration), parse_int (annotation a AnnotationTokenGeneration),
            map_of (se_Data secret) TokenKey) of
        (Some installation, Some expiry, Some execution, Some generation, Some token) \<Rightarrow>
          if installation < 1 \<or> generation < 1 \<or> length (se_Data secret) \<noteq> 1 \<or> token = []
             \<or> MaxTokenBytes < length token \<or> has_nul token
          then None else Some (installation, expiry, execution, generation, token)
      | _ \<Rightarrow> None)"

definition foreignAnnotations :: "(string \<times> string) list \<Rightarrow> string \<Rightarrow> string \<Rightarrow> bool" where
  "foreignAnnotations a runName runUID \<longleftrightarrow>
     annotation a AnnotationRunName \<noteq> runName \<or> annotation a AnnotationRunUID \<noteq> runUID
     \<or> annotation a AnnotationProvider = [] \<or> annotation a AnnotationRepository = []
     \<or> annotation a AnnotationSourceRepository = []"

definition Parse ::
  "(string \<Rightarrow> int option) \<Rightarrow> Secret \<Rightarrow> string \<Rightarrow> string \<Rightarrow> secret_error + Lease" where
  "Parse prs secret runName runUID =
     (let m = se_Meta secret; a = om_Annotations m in
      if deleting m \<or> om_Name m \<noteq> SecretName runUID \<or> se_Type secret \<noteq> SecretType \<or> om_OwnerReferences m \<noteq> []
      then Inl ForeignCredentialSecret
      else if map_of a AnnotationRevocationState \<noteq> None then Inl ForeignCredentialSecret
      else if map_of a AnnotationRevocationDisposition \<noteq> None then Inl ForeignCredentialSecret
      else if foreignAnnotations a runName runUID then Inl ForeignCredentialSecret
      else case storedFields prs secret of
        None \<Rightarrow> Inl MalformedCredentialSecret
      | Some (installation, expiry, execution, generation, token) \<Rightarrow>
          if execution < 0 then Inl MalformedCredentialSecret
          else Inr \<lparr>cr_Token = token, cr_Repository = annotation a AnnotationRepository,
                    cr_InstallationID = installation, cr_ExpiresAt = expiry,
                    le_SecretUID = om_UID m, le_ResourceVersion = om_ResourceVersion m,
                    le_RunName = runName, le_RunUID = runUID, le_Provider = annotation a AnnotationProvider,
                    le_SourceRepository = annotation a AnnotationSourceRepository,
                    le_EnvironmentUID = annotation a AnnotationEnvironmentUID,
                    le_ExecutionGeneration = execution, le_TokenGeneration = generation\<rparr>)"

text \<open>The state and disposition of a pending record; records without both are migrated as pending.\<close>

definition revocationState :: "(string \<times> string) list \<Rightarrow> (string \<times> string \<times> bool) option" where
  "revocationState a =
     (case (map_of a AnnotationRevocationState, map_of a AnnotationRevocationDisposition) of
        (None, None) \<Rightarrow> Some (RevocationStatePending, [], True)
      | (Some st, Some disposition) \<Rightarrow>
          if st \<noteq> RevocationStatePending \<and> st \<noteq> RevocationStateComplete
             \<or> disposition \<noteq> [] \<and> disposition \<noteq> DispositionProviderInvalidToken
          then None else Some (st, disposition, False)
      | _ \<Rightarrow> None)"

definition ParsePendingRevocation ::
  "(string \<Rightarrow> int option) \<Rightarrow> Secret \<Rightarrow> string \<Rightarrow> string \<Rightarrow> secret_error + PendingRevocation" where
  "ParsePendingRevocation prs secret runName runUID =
     (let m = se_Meta secret; a = om_Annotations m in
      if deleting m \<or> om_Name m \<noteq> PendingRevocationSecretName runUID \<or> se_Type secret \<noteq> SecretType
         \<or> om_OwnerReferences m \<noteq> []
      then Inl ForeignPendingSecret
      else case revocationState a of
        None \<Rightarrow> Inl MalformedPendingSecret
      | Some (st, disposition, legacy) \<Rightarrow>
          if foreignAnnotations a runName runUID then Inl ForeignPendingSecret
          else case storedFields prs secret of
            None \<Rightarrow> Inl MalformedPendingSecret
          | Some (installation, expiry, execution, generation, token) \<Rightarrow>
              if execution \<noteq> 0 then Inl MalformedPendingSecret
              else Inr \<lparr>cr_Token = token, cr_Repository = annotation a AnnotationRepository,
                        cr_InstallationID = installation, cr_ExpiresAt = expiry,
                        pv_SecretUID = om_UID m, pv_ResourceVersion = om_ResourceVersion m,
                        pv_RunName = runName, pv_RunUID = runUID, pv_Provider = annotation a AnnotationProvider,
                        pv_SourceRepository = annotation a AnnotationSourceRepository,
                        pv_TokenGeneration = generation, pv_State = st, pv_Disposition = disposition,
                        pv_Legacy = legacy\<rparr>)"

definition tokenUsable :: "string \<Rightarrow> bool" where
  "tokenUsable token \<longleftrightarrow> token \<noteq> [] \<and> length token \<le> MaxTokenBytes \<and> \<not> has_nul token"

definition credentialAnnotations ::
  "(int \<Rightarrow> string) \<Rightarrow> string \<Rightarrow> string \<Rightarrow> string \<Rightarrow> string \<Rightarrow> Credential \<Rightarrow> int \<Rightarrow> string \<Rightarrow> string
     \<Rightarrow> (string \<times> string) list" where
  "credentialAnnotations fmt runName runUID provider source c generation envUID execution =
     [(AnnotationRunName, runName), (AnnotationRunUID, runUID), (AnnotationProvider, provider),
      (AnnotationRepository, cr_Repository c), (AnnotationSourceRepository, source),
      (AnnotationInstallationID, format_int (cr_InstallationID c)), (AnnotationExpiry, fmt (cr_ExpiresAt c)),
      (AnnotationEnvironmentUID, envUID), (AnnotationExecutionGeneration, execution),
      (AnnotationTokenGeneration, format_int generation)]"

definition NewSecret ::
  "(int \<Rightarrow> string) \<Rightarrow> string \<Rightarrow> string \<Rightarrow> string \<Rightarrow> string \<Rightarrow> string \<Rightarrow> Credential option \<Rightarrow> int \<Rightarrow> string \<Rightarrow> int
     \<Rightarrow> int \<Rightarrow> secret_error + Secret" where
  "NewSecret fmt namespace runName runUID provider source c generation envUID execution now =
     (case c of
        None \<Rightarrow> Inl InvalidIssuedCredential
      | Some cred \<Rightarrow>
          if source = [] \<or> cr_Repository cred = [] \<or> cr_InstallationID cred < 1
             \<or> \<not> now + MinimumValidity < cr_ExpiresAt cred \<or> \<not> tokenUsable (cr_Token cred)
          then Inl InvalidIssuedCredential
          else Inr \<lparr>se_Meta = zero_meta\<lparr>om_Namespace := namespace, om_Name := SecretName runUID,
                       om_Annotations := credentialAnnotations fmt runName runUID provider source cred generation
                         envUID (format_int execution)\<rparr>,
                    se_Type = SecretType, se_Data = [(TokenKey, cr_Token cred)]\<rparr>)"

definition NewPendingRevocationSecret ::
  "(int \<Rightarrow> string) \<Rightarrow> string \<Rightarrow> string \<Rightarrow> string \<Rightarrow> string \<Rightarrow> string \<Rightarrow> Credential option \<Rightarrow> int \<Rightarrow> string
     \<Rightarrow> secret_error + Secret" where
  "NewPendingRevocationSecret fmt namespace runName runUID provider source c generation disposition =
     (case c of
        None \<Rightarrow> Inl InvalidIssuedCredential
      | Some cred \<Rightarrow>
          if source = [] \<or> cr_Repository cred = [] \<or> cr_InstallationID cred < 1
             \<or> cr_ExpiresAt cred = zeroTime \<or> \<not> tokenUsable (cr_Token cred) \<or> generation < 1
          then Inl InvalidIssuedCredential
          else if disposition \<noteq> [] \<and> disposition \<noteq> DispositionProviderInvalidToken
          then Inl InvalidDisposition
          else Inr \<lparr>se_Meta = zero_meta\<lparr>om_Namespace := namespace, om_Name := PendingRevocationSecretName runUID,
                       om_Annotations := credentialAnnotations fmt runName runUID provider source cred generation [] ''0''
                         @ [(AnnotationRevocationState, RevocationStatePending),
                            (AnnotationRevocationDisposition, disposition)]\<rparr>,
                    se_Type = SecretType, se_Data = [(TokenKey, cr_Token cred)]\<rparr>)"

section \<open>Round trips\<close>

text \<open>The API server adds an identity and a version to what is created.\<close>

definition stored :: "string \<Rightarrow> string \<Rightarrow> Secret \<Rightarrow> Secret" where
  "stored uid rv secret =
     secret\<lparr>se_Meta := (se_Meta secret)\<lparr>om_UID := uid, om_ResourceVersion := rv\<rparr>\<rparr>"

lemma annotation_simps [simp]:
  "annotation ((k, v) # m) k' = (if k' = k then v else annotation m k')"
  "annotation [] k' = []"
  by (auto simp: annotation_def)

lemma storedFields_new:
  assumes "0 < cr_InstallationID c" "cr_InstallationID c < 2 ^ 63" "0 < generation" "generation < 2 ^ 63"
    "parse_int execution = Some x" "prs (fmt (cr_ExpiresAt c)) = Some (cr_ExpiresAt c)" "tokenUsable (cr_Token c)"
    "om_Annotations (se_Meta secret)
       = credentialAnnotations fmt runName runUID provider source c generation envUID execution @ rest"
    "se_Data secret = [(TokenKey, cr_Token c)]"
  shows "storedFields prs secret = Some (cr_InstallationID c, cr_ExpiresAt c, x, generation, cr_Token c)"
  using assms
  by (auto simp: storedFields_def credentialAnnotations_def parse_format_int tokenUsable_def Let_def)

lemma credentialAnnotations_identity:
  assumes "om_Annotations (se_Meta secret)
       = credentialAnnotations fmt runName runUID provider source c generation envUID execution @ rest"
  shows "annotation (om_Annotations (se_Meta secret)) AnnotationRunName = runName"
    "annotation (om_Annotations (se_Meta secret)) AnnotationRunUID = runUID"
    "annotation (om_Annotations (se_Meta secret)) AnnotationProvider = provider"
    "annotation (om_Annotations (se_Meta secret)) AnnotationRepository = cr_Repository c"
    "annotation (om_Annotations (se_Meta secret)) AnnotationSourceRepository = source"
    "annotation (om_Annotations (se_Meta secret)) AnnotationEnvironmentUID = envUID"
  unfolding assms by (simp_all add: credentialAnnotations_def)

text \<open>An active lease and a pending revocation are never confused, whatever runs they are read for.\<close>

lemma Parse_identity:
  assumes "Parse prs secret runName runUID = Inr l"
  shows "om_Name (se_Meta secret) = SecretName runUID
     \<and> annotation (om_Annotations (se_Meta secret)) AnnotationRunUID = runUID"
  using assms
  by (auto simp: Parse_def foreignAnnotations_def Let_def split: if_splits option.splits prod.splits)

lemma ParsePending_identity:
  assumes "ParsePendingRevocation prs secret runName runUID = Inr p"
  shows "om_Name (se_Meta secret) = PendingRevocationSecretName runUID
     \<and> annotation (om_Annotations (se_Meta secret)) AnnotationRunUID = runUID"
  using assms
  by (auto simp: ParsePendingRevocation_def foreignAnnotations_def Let_def split: if_splits option.splits prod.splits)

lemma lease_never_pending:
  "Parse prs secret runName runUID = Inr l \<Longrightarrow> ParsePendingRevocation prs secret runName' runUID' \<noteq> Inr p"
  using Parse_identity [of prs secret runName runUID l] ParsePending_identity [of prs secret runName' runUID' p]
  by (auto simp: PendingRevocationSecretName_def SecretName_def)

lemma Parse_NewSecret:
  assumes rt: "prs (fmt (cr_ExpiresAt c)) = Some (cr_ExpiresAt c)" and pr: "provider \<noteq> []"
    and r: "cr_InstallationID c < 2 ^ 63" "0 < generation" "generation < 2 ^ 63" "0 \<le> execution" "execution < 2 ^ 63"
    and n: "NewSecret fmt namespace runName runUID provider source (Some c) generation envUID execution now = Inr secret"
  shows "Parse prs (stored uid rv secret) runName runUID
     = Inr \<lparr>cr_Token = cr_Token c, cr_Repository = cr_Repository c, cr_InstallationID = cr_InstallationID c,
            cr_ExpiresAt = cr_ExpiresAt c, le_SecretUID = uid, le_ResourceVersion = rv, le_RunName = runName,
            le_RunUID = runUID, le_Provider = provider, le_SourceRepository = source, le_EnvironmentUID = envUID,
            le_ExecutionGeneration = execution, le_TokenGeneration = generation\<rparr>"
proof -
  have v: "source \<noteq> []" "cr_Repository c \<noteq> []" "0 < cr_InstallationID c" "tokenUsable (cr_Token c)"
    and secret: "secret = \<lparr>se_Meta = zero_meta\<lparr>om_Namespace := namespace, om_Name := SecretName runUID,
        om_Annotations := credentialAnnotations fmt runName runUID provider source c generation envUID
          (format_int execution)\<rparr>, se_Type = SecretType, se_Data = [(TokenKey, cr_Token c)]\<rparr>"
    using n by (auto simp: NewSecret_def split: if_splits)
  define t where "t = stored uid rv secret"
  have a: "om_Annotations (se_Meta t)
      = credentialAnnotations fmt runName runUID provider source c generation envUID (format_int execution) @ []"
    by (simp add: t_def stored_def secret)
  have f: "storedFields prs t = Some (cr_InstallationID c, cr_ExpiresAt c, execution, generation, cr_Token c)"
    by (rule storedFields_new [where prs = prs and fmt = fmt, OF _ r(1-3) _ rt v(4) a])
       (use v r in \<open>auto simp: t_def stored_def secret parse_format_int\<close>)
  have rev: "map_of (om_Annotations (se_Meta t)) AnnotationRevocationState = None"
    "map_of (om_Annotations (se_Meta t)) AnnotationRevocationDisposition = None"
    unfolding a by (simp_all add: credentialAnnotations_def)
  have m: "om_DeletionTimestamp (se_Meta t) = None" "om_Name (se_Meta t) = SecretName runUID"
    "se_Type t = SecretType" "om_OwnerReferences (se_Meta t) = []" "om_UID (se_Meta t) = uid"
    "om_ResourceVersion (se_Meta t) = rv"
    by (simp_all add: t_def stored_def secret zero_meta_def)
  show ?thesis
    unfolding t_def [symmetric] Parse_def Let_def f foreignAnnotations_def credentialAnnotations_identity [OF a] rev m
    using v pr r(4) by simp
qed

lemma Parse_NewPending:
  assumes rt: "prs (fmt (cr_ExpiresAt c)) = Some (cr_ExpiresAt c)" and pr: "provider \<noteq> []"
    and r: "cr_InstallationID c < 2 ^ 63" "generation < 2 ^ 63"
    and n: "NewPendingRevocationSecret fmt namespace runName runUID provider source (Some c) generation disposition
              = Inr secret"
  shows "ParsePendingRevocation prs (stored uid rv secret) runName runUID
     = Inr \<lparr>cr_Token = cr_Token c, cr_Repository = cr_Repository c, cr_InstallationID = cr_InstallationID c,
            cr_ExpiresAt = cr_ExpiresAt c, pv_SecretUID = uid, pv_ResourceVersion = rv, pv_RunName = runName,
            pv_RunUID = runUID, pv_Provider = provider, pv_SourceRepository = source, pv_TokenGeneration = generation,
            pv_State = RevocationStatePending, pv_Disposition = disposition, pv_Legacy = False\<rparr>"
proof -
  have v: "source \<noteq> []" "cr_Repository c \<noteq> []" "0 < cr_InstallationID c" "tokenUsable (cr_Token c)" "0 < generation"
    "disposition = [] \<or> disposition = DispositionProviderInvalidToken"
    and secret: "secret = \<lparr>se_Meta = zero_meta\<lparr>om_Namespace := namespace, om_Name := PendingRevocationSecretName runUID,
        om_Annotations := credentialAnnotations fmt runName runUID provider source c generation [] ''0''
          @ [(AnnotationRevocationState, RevocationStatePending), (AnnotationRevocationDisposition, disposition)]\<rparr>,
        se_Type = SecretType, se_Data = [(TokenKey, cr_Token c)]\<rparr>"
    using n by (auto simp: NewPendingRevocationSecret_def split: if_splits)
  define t where "t = stored uid rv secret"
  have a: "om_Annotations (se_Meta t)
      = credentialAnnotations fmt runName runUID provider source c generation [] ''0''
        @ [(AnnotationRevocationState, RevocationStatePending), (AnnotationRevocationDisposition, disposition)]"
    by (simp add: t_def stored_def secret)
  have z: "parse_int ''0'' = Some 0" by code_simp
  have f: "storedFields prs t = Some (cr_InstallationID c, cr_ExpiresAt c, 0, generation, cr_Token c)"
    by (rule storedFields_new [where prs = prs and fmt = fmt, OF v(3) r(1) v(5) r(2) z rt v(4) a]) (simp add: t_def stored_def secret)
  have rs: "revocationState (om_Annotations (se_Meta t)) = Some (RevocationStatePending, disposition, False)"
    unfolding a revocationState_def using v(6) by (auto simp: credentialAnnotations_def)
  have m: "om_DeletionTimestamp (se_Meta t) = None" "om_Name (se_Meta t) = PendingRevocationSecretName runUID"
    "se_Type t = SecretType" "om_OwnerReferences (se_Meta t) = []" "om_UID (se_Meta t) = uid"
    "om_ResourceVersion (se_Meta t) = rv"
    by (simp_all add: t_def stored_def secret zero_meta_def)
  show ?thesis
    unfolding t_def [symmetric] ParsePendingRevocation_def Let_def f rs foreignAnnotations_def
      credentialAnnotations_identity [OF a] m
    using v pr by simp
qed


definition example_credential :: Credential where
  "example_credential =
     \<lparr>cr_Token = ''ghs'', cr_Repository = ''github.com/o/r'', cr_InstallationID = 7, cr_ExpiresAt = 3600 * second\<rparr>"

definition example_fmt :: "int \<Rightarrow> string" where
  "example_fmt t = (if t < 0 then CHR ''-'' # format_nat (nat (- t)) else format_nat (nat t))"

definition example_prs :: "string \<Rightarrow> int option" where
  "example_prs s = (case s of
     [] \<Rightarrow> None
   | c # cs \<Rightarrow> if c = CHR ''-'' then Some (- int (digits_value 0 cs)) else Some (int (digits_value 0 s)))"

lemma example_prs_fmt: "example_prs (example_fmt t) = Some t"
proof (cases "t < 0")
  case True
  then show ?thesis by (simp add: example_prs_def example_fmt_def digits_value_format_nat)
next
  case False
  obtain c cs where f: "format_nat (nat t) = c # cs" and d: "is_digit c" by (rule format_nat_hd)
  from d have "c \<noteq> CHR ''-''" by (auto simp: is_digit_def code_def)
  with False f digits_value_format_nat [of "nat t"] show ?thesis by (simp add: example_prs_def example_fmt_def)
qed


end
