(* ===== verification/Run_Types.thy ===== *)
theory Run_Types
  imports Environment_Status Environment_Provisioning Repository_Credential Installation_Isolation
begin

text \<open>
  The Run resource (\<open>src/api/v1alpha1/run_types.go\<close>), the adapter contract
  (\<open>src/internal/agent/adapter.go\<close>), and the world of the Run controller: the calls it makes
  (\<open>run_env\<close>), the errors they return, and the log it keeps (\<open>run_event\<close>).

  Library code and the components behind the controller's interfaces (API client and uncached reader,
  adapters, connector, change capture, transcript cleanup, repository credential provider, clock) are
  fields of \<open>run_env\<close>, over an arbitrary world \<open>'w\<close> that other writers may change between calls.
  Every write and every call that matters for authority leaves an event with its outcome.
\<close>

section \<open>Runs\<close>

type_synonym RunState = string
abbreviation "RunStateAllocating \<equiv> ''Allocating''"
abbreviation "RunStateEnvironmentReady \<equiv> ''EnvironmentReady''"
abbreviation "RunStateAdapterAccepted \<equiv> ''AdapterAccepted''"
abbreviation "RunStateRunning \<equiv> ''Running''"
abbreviation "RunStateNeedsInput \<equiv> ''NeedsInput''"
abbreviation "RunStatePaused \<equiv> ''Paused''"
abbreviation "RunStateSucceeded \<equiv> ''Succeeded''"
abbreviation "RunStateFailed \<equiv> ''Failed''"
abbreviation "RunStateCancelled \<equiv> ''Cancelled''"

abbreviation "RepositoryCredentialGitHubApp \<equiv> ''GitHubApp''"

record RunSpec =
  rs_EnvironmentRef :: string
  rs_ProjectRef :: string
  rs_ProjectUID :: string
  rs_TemplateRef :: string
  rs_CredentialProfileRef :: string
  rs_RepositoryCredential :: string
  rs_Agent :: string
  rs_Prompt :: string
  rs_Cancel :: bool
  rs_Notify :: "string list"
  rs_ParentRef :: string

type_synonym EnvironmentOwnership = string
abbreviation "EnvironmentOwnershipOwned \<equiv> ''Owned''"
abbreviation "EnvironmentOwnershipClaimed \<equiv> ''Claimed''"

record RunEnvironmentReference =
  rer_Name :: string
  rer_UID :: string
  rer_Ownership :: EnvironmentOwnership

record RunCredentialProfileReference =
  rcp_Name :: string
  rcp_UID :: string

record RunUsage =
  us_CPUSeconds :: int
  us_TokensIn :: int
  us_TokensOut :: int

record RunStatus =
  rst_State :: RunState
  rst_StartedAt :: "int option"
  rst_FinishedAt :: "int option"
  rst_EnvironmentRef :: "RunEnvironmentReference option"
  rst_CredentialProfileRef :: "RunCredentialProfileReference option"
  rst_ObservedGeneration :: int
  rst_AcceptedEnvironmentEpoch :: "int option"
  rst_AcceptedEnvironmentExecutionGeneration :: "int option"
  rst_Branch :: string
  rst_TranscriptRef :: string
  rst_Usage :: RunUsage
  rst_Conditions :: "Condition list"

record Run =
  rn_Meta :: ObjectMeta
  rn_Spec :: RunSpec
  rn_Status :: RunStatus

abbreviation "run_Namespace r \<equiv> om_Namespace (rn_Meta r)"
abbreviation "run_Name r \<equiv> om_Name (rn_Meta r)"
abbreviation "run_UID r \<equiv> om_UID (rn_Meta r)"
abbreviation "run_Generation r \<equiv> om_Generation (rn_Meta r)"
abbreviation "run_State r \<equiv> rst_State (rn_Status r)"
abbreviation "run_Conditions r \<equiv> rst_Conditions (rn_Status r)"

definition RunProjectBindingMatches :: "Run \<Rightarrow> 'q Environment \<Rightarrow> bool" where
  "RunProjectBindingMatches r e \<longleftrightarrow>
     rs_ProjectUID (rn_Spec r) = []
     \<or> sp_ProjectRef (en_Spec e) = rs_ProjectRef (rn_Spec r) \<and> sp_ProjectUID (en_Spec e) = rs_ProjectUID (rn_Spec r)"

record AgentCredentialProfile =
  ac_Meta :: ObjectMeta
  ac_Adapter :: string
  ac_CredentialType :: string

abbreviation "AgentCredentialTypeAPIKey \<equiv> ''APIKey''"

section \<open>Adapters\<close>

type_synonym AdapterObservation = string
abbreviation "AdapterObservationAccepted \<equiv> ''Accepted''"
abbreviation "AdapterObservationRunning \<equiv> ''Running''"
abbreviation "AdapterObservationNeedsInput \<equiv> ''NeedsInput''"
abbreviation "AdapterObservationSucceeded \<equiv> ''Succeeded''"
abbreviation "AdapterObservationFailed \<equiv> ''Failed''"

definition StatusMessage :: "AdapterObservation \<Rightarrow> string" where
  "StatusMessage ob =
     (if ob = AdapterObservationAccepted then ''adapter accepted the task''
      else if ob = AdapterObservationRunning then ''adapter is running''
      else if ob = AdapterObservationNeedsInput then ''adapter needs input''
      else if ob = AdapterObservationSucceeded then ''adapter completed successfully''
      else if ob = AdapterObservationFailed then ''adapter reported failure''
      else [])"

record AdapterTask =
  tk_ID :: string
  tk_Prompt :: string

record AdapterCredential =
  ak_Type :: string
  ak_APIKey :: string

record AdapterLaunchMaterial =
  lm_AgentCredential :: "AdapterCredential option"
  lm_RepositorySecretEnv :: "(string \<times> string) list"

record AdapterEvent =
  ae_Source :: string
  ae_IdempotencyKey :: string
  ae_Type :: string
  ae_Data :: string

text \<open>
  Errors as the controller tells them apart. \<open>RWrap\<close> is \<open>fmt.Errorf\<close> with \<open>%w\<close>; the sentinel
  errors of the controller are constructors that carry what their messages print.
\<close>

datatype 'k run_error =
  RKube 'k
| RWrap string "'k run_error"
| RAllocatedGone string "string list"
| RExplicitClaimed string string
| RExplicitHeld string int
| RExplicitNotWakeable string string
| RProjectSelectionUnavailable
| RRepositoryInvalid string
| RRepositoryPending
| RIsolationBlocked
| RTenancy "'k tenancy_error"
| RIsolation "'k isolation_error"
| RLifecycle "'k lifecycle_error"
| RSecret secret_error
| RProvider "ProviderError option"
| RAdapterTaskRejected string
| RAdapterCancellationPending
| RPanic
| RText string
| RTextf string "string list"

text \<open>
  An adapter reaches the platform only through the two functions of its sandbox handle. What it does is a
  script: it dials the process service and goes on with the connection it got, emits a transcript event,
  or finishes. An adapter is any function into such scripts.
\<close>

datatype ('k, 'c, 'r) script =
  Finish 'r
| Dial "'k run_error + 'c \<Rightarrow> ('k, 'c, 'r) script"
| Emit AdapterEvent "'k run_error option \<Rightarrow> ('k, 'c, 'r) script"

text \<open>\<open>EmitEvent\<close> is nil without an event sink; an adapter can see whether it is.\<close>

record AdapterSandboxView =
  sv_EnvironmentName :: string
  sv_EnvironmentUID :: string
  sv_CanEmit :: bool

record ('w, 'k, 'c) AdapterLifecycle =
  al_EnsureAccepted :: "AdapterTask \<Rightarrow> AdapterSandboxView \<Rightarrow> AdapterLaunchMaterial
     \<Rightarrow> ('w, ('k, 'c, 'k run_error option) script) state"
  al_Observe :: "AdapterTask \<Rightarrow> AdapterSandboxView
     \<Rightarrow> ('w, ('k, 'c, 'k run_error + AdapterObservation \<times> string) script) state"
  al_Cancel :: "AdapterTask \<Rightarrow> AdapterSandboxView \<Rightarrow> ('w, ('k, 'c, 'k run_error option) script) state"
  al_SupportsCredentialProfiles :: "bool option"

section \<open>The repository credential provider\<close>

record ('w, 'k) Provider =
  pv_CanonicalRepository :: "string \<Rightarrow> ProviderError option + string"
  pv_Issue :: "string \<Rightarrow> ('w, Credential option \<times> ProviderError option option) state"
  pv_Revoke :: "Credential \<Rightarrow> ('w, ProviderError option option) state"

record repositoryRotationRecord =
  rr_OldSecretUID :: string
  rr_TargetGeneration :: int
  rr_Wake :: bool

record repositoryProvisioningRecord =
  pn_SecretUID :: string
  pn_ExecutionGeneration :: int

section \<open>Events\<close>

record CaptureChangesRequest =
  cc_Baseline :: bool
  cc_Final :: bool
  cc_EnvironmentUID :: string
  cc_ExecutionGeneration :: int
  cc_LifecycleEpoch :: int
  cc_HoldPolicyRevision :: int

text \<open>Writes carry what was sent and whether it succeeded, status writes of an Environment also the object
  they were made from; \<open>EvEnvironmentRead\<close> is an uncached read.\<close>

datatype 'q run_event =
  EvRunStatus Run bool
| EvRunUpdate Run bool
| EvRunPatch Run bool
| EvEnvironmentRead NamespacedName "'q Environment option"
| EvEnvironmentStatus "'q Environment" "'q Environment" bool
| EvEnvironmentCreate "'q Environment" bool
| EvEnvironmentPatch "'q Environment" bool
| EvSuspend "'q Environment" string int bool
| EvWake "'q Environment" string EnvironmentSuspensionReason bool
| EvSecretCreate Secret bool
| EvSecretUpdate Secret bool
| EvSecretDelete NamespacedName string string bool
| EvTenancy bool
| EvIsolation bool
| EvResolve ExecutionFence bool
| EvCurrent ExecutionFence bool
| EvDial ExecutionFence bool
| EvEmit AdapterEvent bool
| EvEnsureAccepted AdapterTask ExecutionFence AdapterLaunchMaterial
| EvObserve AdapterTask ExecutionFence
| EvCancel AdapterTask ExecutionFence
| EvCancelled bool
| EvCapture CaptureChangesRequest bool
| EvTranscriptDelete string string string string bool
| EvIssue string bool
| EvRevoke Credential bool

section \<open>The environment of the controller\<close>

record ('w, 'q, 'k, 'c, 'x) run_env =
  re_Run :: "NamespacedName \<Rightarrow> ('w, 'k + Run) state"
  re_RunNow :: "NamespacedName \<Rightarrow> ('w, 'k + Run) state"
  re_Environment :: "NamespacedName \<Rightarrow> ('w, 'k + 'q Environment) state"
  re_EnvironmentNow :: "NamespacedName \<Rightarrow> ('w, 'k + 'q Environment) state"
  re_Environments :: "string \<Rightarrow> (string \<times> string) option \<Rightarrow> ('w, 'k + 'q Environment list) state"
  re_Project :: "NamespacedName \<Rightarrow> ('w, 'k + Project) state"
  re_ProjectNow :: "NamespacedName \<Rightarrow> ('w, 'k + Project) state"
  re_Template :: "NamespacedName \<Rightarrow> ('w, 'k + 'q EnvironmentTemplate) state"
  re_TemplateNow :: "NamespacedName \<Rightarrow> ('w, 'k + 'q EnvironmentTemplate) state"
  re_ProfileNow :: "NamespacedName \<Rightarrow> ('w, 'k + AgentCredentialProfile) state"
  re_SecretMetaNow :: "NamespacedName \<Rightarrow> ('w, 'k + ObjectMeta) state"
  re_SecretNow :: "NamespacedName \<Rightarrow> ('w, 'k + Secret) state"
  re_NamespaceNow :: "string \<Rightarrow> ('w, 'k + ObjectMeta) state"
  re_PodNow :: "NamespacedName \<Rightarrow> ('w, 'k + Pod) state"
  re_RunUpdate :: "Run \<Rightarrow> ('w, 'k + Run) state"
  re_RunStatusUpdate :: "Run \<Rightarrow> ('w, 'k + Run) state"
  re_RunPatch :: "Run \<Rightarrow> Run \<Rightarrow> ('w, 'k + Run) state"
  re_EnvironmentCreate :: "'q Environment \<Rightarrow> ('w, 'k + 'q Environment) state"
  re_EnvironmentStatusUpdate :: "'q Environment \<Rightarrow> ('w, 'k + 'q Environment) state"
  re_EnvironmentPatch :: "'q Environment \<Rightarrow> 'q Environment \<Rightarrow> ('w, 'k + 'q Environment) state"
  re_SecretCreate :: "Secret \<Rightarrow> ('w, 'k option) state"
  re_SecretUpdate :: "Secret \<Rightarrow> ('w, 'k option) state"
  re_SecretDelete :: "NamespacedName \<Rightarrow> string \<Rightarrow> string \<Rightarrow> ('w, 'k option) state"
  re_Retry :: "('w \<Rightarrow> 'k lifecycle_error option \<times> 'w) \<Rightarrow> 'w \<Rightarrow> 'k lifecycle_error option \<times> 'w"
  re_NotFound :: "'k \<Rightarrow> bool"
  re_Conflict :: "'k \<Rightarrow> bool"
  re_AlreadyExists :: "'k \<Rightarrow> bool"
  re_Find :: find_condition
  re_Set :: "int \<Rightarrow> set_condition"
  re_Controller :: get_controller
  re_SetController :: "Run \<Rightarrow> 'q Environment \<Rightarrow> 'k run_error + 'q Environment"
  re_ErrText :: "'k run_error \<Rightarrow> string"
  re_Quote :: "string \<Rightarrow> string"
  re_Now :: "('w, int) state"
  re_Quantities :: "'q quantities"
  re_Sha :: "string \<Rightarrow> string"
  re_ParseTime :: "string \<Rightarrow> int option"
  re_FormatTime :: "int \<Rightarrow> string"
  re_RotationDecode :: "string \<Rightarrow> repositoryRotationRecord option"
  re_RotationEncode :: "repositoryRotationRecord \<Rightarrow> string"
  re_ProvisioningDecode :: "string \<Rightarrow> repositoryProvisioningRecord option"
  re_Base64 :: "string \<Rightarrow> string"
  re_Scope :: "('w, 'k) Verifier option"
  re_Isolation :: "('w, 'q, 'k) isolation_env"
  re_Adapters :: "string \<Rightarrow> ('w, 'k, 'c) AdapterLifecycle option"
  re_EventSink :: "(string \<Rightarrow> string \<Rightarrow> string \<Rightarrow> AdapterEvent \<Rightarrow> ('w, 'k run_error option) state) option"
  re_Changes :: "(string \<Rightarrow> string \<Rightarrow> string \<Rightarrow> CaptureChangesRequest \<Rightarrow> ('w, 'k run_error option) state) option"
  re_TranscriptsDisabled :: bool
  re_TranscriptCleanup :: "(string \<Rightarrow> string \<Rightarrow> string \<Rightarrow> string \<Rightarrow> ('w, 'k run_error option) state) option"
  re_ResolveExecution :: "ExecutionFence \<Rightarrow> ('w, 'k run_error + 'x) state"
  re_ExecutionCurrent :: "ExecutionFence \<Rightarrow> 'x \<Rightarrow> ('w, 'k run_error + bool) state"
  re_DialProcess :: "ExecutionFence \<Rightarrow> ('w, 'k run_error + 'c) state"
  re_RepositoryCredentials :: "('w, 'k) Provider option"
  re_RepositoryCanonicalizer :: "(string \<Rightarrow> ProviderError option + string) option"

section \<open>The state of a reconcile\<close>

text \<open>The Run object that the handlers share through a pointer, and the lease in the context.\<close>

record ('w, 'q) run_ctl = "('w, 'q run_event) logged" +
  rc_run :: Run
  rc_lease :: "mutationLease option"

type_synonym ('w, 'q, 'a) ctl = "(('w, 'q) run_ctl, 'a) state"

end
