(* ===== verification/Run_State.thy ===== *)
theory Run_State
  imports Run_Types
begin

text \<open>
  The ground of the Run controller (\<open>src/internal/controllers/run_controller.go\<close>): its calls with their
  log entries, the predicates on Runs and Environments, the writes of the Run's status
  (\<open>setRunState\<close> and the condition setters), the claim release and the fence request.
\<close>

section \<open>Errors\<close>

primrec isNotFoundError :: "('k \<Rightarrow> bool) \<Rightarrow> 'k run_error \<Rightarrow> bool" where
  "isNotFoundError nf (RKube k) = nf k"
| "isNotFoundError nf (RWrap m e) = isNotFoundError nf e"
| "isNotFoundError nf (RAllocatedGone m xs) = False"
| "isNotFoundError nf (RExplicitClaimed a b) = False"
| "isNotFoundError nf (RExplicitHeld a b) = False"
| "isNotFoundError nf (RExplicitNotWakeable a b) = False"
| "isNotFoundError nf RProjectSelectionUnavailable = False"
| "isNotFoundError nf (RRepositoryInvalid m) = False"
| "isNotFoundError nf RRepositoryPending = False"
| "isNotFoundError nf RIsolationBlocked = False"
| "isNotFoundError nf (RTenancy e) = (case e of Reader _ k \<Rightarrow> nf k | _ \<Rightarrow> False)"
| "isNotFoundError nf (RIsolation e) = (case e of IsoReader _ k \<Rightarrow> nf k | _ \<Rightarrow> False)"
| "isNotFoundError nf (RLifecycle e) = (case e of KubeError k \<Rightarrow> nf k | _ \<Rightarrow> False)"
| "isNotFoundError nf (RSecret e) = False"
| "isNotFoundError nf (RProvider e) = False"
| "isNotFoundError nf (RAdapterTaskRejected m) = False"
| "isNotFoundError nf RAdapterCancellationPending = False"
| "isNotFoundError nf RPanic = False"
| "isNotFoundError nf (RText m) = False"
| "isNotFoundError nf (RTextf m xs) = False"

text \<open>\<open>errors.Is\<close> for a sentinel: look through the wrappers.\<close>

fun rootError :: "'k run_error \<Rightarrow> 'k run_error" where
  "rootError (RWrap m e) = rootError e"
| "rootError e = e"

definition isAllocatedGone :: "'k run_error \<Rightarrow> bool" where
  "isAllocatedGone e = (case rootError e of RAllocatedGone _ _ \<Rightarrow> True | _ \<Rightarrow> False)"

definition isExplicitClaimed :: "'k run_error \<Rightarrow> bool" where
  "isExplicitClaimed e = (case rootError e of RExplicitClaimed _ _ \<Rightarrow> True | _ \<Rightarrow> False)"

definition isExplicitHeld :: "'k run_error \<Rightarrow> bool" where
  "isExplicitHeld e = (case rootError e of RExplicitHeld _ _ \<Rightarrow> True | _ \<Rightarrow> False)"

definition isExplicitNotWakeable :: "'k run_error \<Rightarrow> bool" where
  "isExplicitNotWakeable e = (case rootError e of RExplicitNotWakeable _ _ \<Rightarrow> True | _ \<Rightarrow> False)"

definition isProjectSelectionUnavailable :: "'k run_error \<Rightarrow> bool" where
  "isProjectSelectionUnavailable e = (case rootError e of RProjectSelectionUnavailable \<Rightarrow> True | _ \<Rightarrow> False)"

definition isTaskRejected :: "'k run_error \<Rightarrow> bool" where
  "isTaskRejected e = (case rootError e of RAdapterTaskRejected _ \<Rightarrow> True | _ \<Rightarrow> False)"

definition isCancellationPending :: "'k run_error \<Rightarrow> bool" where
  "isCancellationPending e = (case rootError e of RAdapterCancellationPending \<Rightarrow> True | _ \<Rightarrow> False)"

definition isFenceChanged :: "'k run_error \<Rightarrow> bool" where
  "isFenceChanged e = (case rootError e of RLifecycle (ErrExecutionFenceChanged _) \<Rightarrow> True | _ \<Rightarrow> False)"

section \<open>Calls\<close>

definition now :: "('w, 'q, 'k, 'c, 'x) run_env \<Rightarrow> ('w, 'q, int) ctl" where
  "now env = ask (re_Now env) (\<lambda>_. [])"

definition theRun :: "('w, 'q, Run) ctl" where
  "theRun = reads rc_run"

definition setRun :: "Run \<Rightarrow> ('w, 'q, unit) ctl" where
  "setRun r = modifies (\<lambda>s. s\<lparr>rc_run := r\<rparr>)"

definition onStatus :: "(RunStatus \<Rightarrow> RunStatus) \<Rightarrow> ('w, 'q, unit) ctl" where
  "onStatus f = modifies (\<lambda>s. s\<lparr>rc_run := (rc_run s)\<lparr>rn_Status := f (rn_Status (rc_run s))\<rparr>\<rparr>)"

text \<open>A plain read, without an event.\<close>

definition kread :: "('w, 'k + 'a) state \<Rightarrow> ('w, 'q, 'k run_error + 'a) ctl" where
  "kread m = mapErr RKube (ask m (\<lambda>_. []))"

text \<open>An uncached read of an Environment.\<close>

definition freshEnvironment ::
  "('w, 'q, 'k, 'c, 'x) run_env \<Rightarrow> NamespacedName \<Rightarrow> ('w, 'q, 'k run_error + 'q Environment) ctl" where
  "freshEnvironment env key =
     mapErr RKube (ask (re_EnvironmentNow env key)
       (\<lambda>r. [EvEnvironmentRead key (case r of Inl _ \<Rightarrow> None | Inr e \<Rightarrow> Some e)]))"

text \<open>The writes of the Run; the object takes the server's answer.\<close>

definition runStatusUpdate :: "('w, 'q, 'k, 'c, 'x) run_env \<Rightarrow> ('w, 'q, 'k run_error + unit) ctl" where
  "runStatusUpdate env = do {
     r \<leftarrow> theRun;
     bindE (mapErr RKube (ask (re_RunStatusUpdate env r) (\<lambda>x. [EvRunStatus r (is_ok x)])))
       (\<lambda>r'. do { setRun r'; returnOk () })
   }"

definition runUpdate :: "('w, 'q, 'k, 'c, 'x) run_env \<Rightarrow> ('w, 'q, 'k run_error + unit) ctl" where
  "runUpdate env = do {
     r \<leftarrow> theRun;
     bindE (mapErr RKube (ask (re_RunUpdate env r) (\<lambda>x. [EvRunUpdate r (is_ok x)])))
       (\<lambda>r'. do { setRun r'; returnOk () })
   }"

definition environmentStatusUpdate ::
  "('w, 'q, 'k, 'c, 'x) run_env \<Rightarrow> 'q Environment \<Rightarrow> 'q Environment
     \<Rightarrow> ('w, 'q, 'k run_error + 'q Environment) ctl" where
  "environmentStatusUpdate env before e =
     mapErr RKube (ask (re_EnvironmentStatusUpdate env e) (\<lambda>x. [EvEnvironmentStatus before e (is_ok x)]))"

definition environmentPatch ::
  "('w, 'q, 'k, 'c, 'x) run_env \<Rightarrow> 'q Environment \<Rightarrow> 'q Environment
     \<Rightarrow> ('w, 'q, 'k run_error + 'q Environment) ctl" where
  "environmentPatch env before e =
     mapErr RKube (ask (re_EnvironmentPatch env before e) (\<lambda>x. [EvEnvironmentPatch e (is_ok x)]))"

text \<open>The client that \<open>lifecycle\<close> is handed: reads and patches of the cached client.\<close>

definition lifecycleGet :: "('w, 'q, 'k, 'c, 'x) run_env \<Rightarrow> NamespacedName \<Rightarrow> 'w \<Rightarrow> ('k + 'q Environment) \<times> 'w" where
  "lifecycleGet env key w = run_state (re_Environment env key) w"

definition lifecyclePatch ::
  "('w, 'q, 'k, 'c, 'x) run_env \<Rightarrow> 'q Environment \<Rightarrow> 'q Environment \<Rightarrow> 'w \<Rightarrow> 'k option \<times> 'w" where
  "lifecyclePatch env before e w =
     (case run_state (re_EnvironmentPatch env before e) w of
        (Inl k, w') \<Rightarrow> (Some k, w') | (Inr _, w') \<Rightarrow> (None, w'))"

definition optionError :: "('s, 'e option) state \<Rightarrow> ('s, 'e + unit) state" where
  "optionError m = do { r \<leftarrow> m; case r of None \<Rightarrow> returnOk () | Some e \<Rightarrow> throwError e }"

definition requestSuspend ::
  "('w, 'q, 'k, 'c, 'x) run_env \<Rightarrow> 'q Environment \<Rightarrow> string \<Rightarrow> int \<Rightarrow> ('w, 'q, 'k run_error + unit) ctl" where
  "requestSuspend env e requestID sequence =
     mapErr RLifecycle (optionError (ask (State (\<lambda>w. RequestSuspend (re_Retry env) (lifecycleGet env) (lifecyclePatch env)
        (objectKey e) (env_UID e) (HoldPolicyRevision e) requestID sequence w))
        (\<lambda>r. [EvSuspend e requestID sequence (r = None)])))"

definition requestWake ::
  "('w, 'q, 'k, 'c, 'x) run_env \<Rightarrow> 'q Environment \<Rightarrow> string \<Rightarrow> EnvironmentSuspensionReason
     \<Rightarrow> ('w, 'q, 'k run_error + unit) ctl" where
  "requestWake env e requestID reason =
     mapErr RLifecycle (optionError (ask (State (\<lambda>w. RequestWakeForReason (re_Retry env) (lifecycleGet env)
        (lifecyclePatch env) (objectKey e) (env_UID e) (HoldPolicyRevision e) requestID reason w))
        (\<lambda>r. [EvWake e requestID reason (r = None)])))"

section \<open>Predicates\<close>

definition terminalRunState :: "RunState \<Rightarrow> bool" where
  "terminalRunState st \<longleftrightarrow> st = RunStateSucceeded \<or> st = RunStateFailed \<or> st = RunStateCancelled"

definition conditionTrue :: "('w, 'q, 'k, 'c, 'x) run_env \<Rightarrow> Run \<Rightarrow> string \<Rightarrow> bool" where
  "conditionTrue env r t =
     (case re_Find env (run_Conditions r) t of None \<Rightarrow> False | Some c \<Rightarrow> cd_Status c = ConditionTrue)"

definition runAccepted :: "('w, 'q, 'k, 'c, 'x) run_env \<Rightarrow> Run \<Rightarrow> bool" where
  "runAccepted env r = conditionTrue env r ''AdapterAccepted''"

definition acceptanceAttempted :: "('w, 'q, 'k, 'c, 'x) run_env \<Rightarrow> Run \<Rightarrow> bool" where
  "acceptanceAttempted env r = conditionTrue env r ''AdapterAcceptanceAttempted''"

definition runMayHaveAccepted :: "('w, 'q, 'k, 'c, 'x) run_env \<Rightarrow> Run \<Rightarrow> bool" where
  "runMayHaveAccepted env r \<longleftrightarrow> acceptanceAttempted env r \<or> runAccepted env r"

definition environmentSuspended :: "'q Environment \<Rightarrow> bool" where
  "environmentSuspended e \<longleftrightarrow> sp_Paused (en_Spec e) \<or> lst_Suspended (env_LStatus e)"

definition environmentFenced :: "'q Environment \<Rightarrow> bool" where
  "environmentFenced e \<longleftrightarrow>
     environmentSuspended e \<and> st_Phase (en_Status e) = EnvironmentPhasePaused \<and> st_PodName (en_Status e) = []
     \<and> ep_Sandboxd (st_Endpoints (en_Status e)) = []"

definition environmentReachable :: "('w, 'q, 'k, 'c, 'x) run_env \<Rightarrow> 'q Environment \<Rightarrow> bool" where
  "environmentReachable env e \<longleftrightarrow>
     0 < st_ExecutionGeneration (en_Status e) \<and> \<not> environmentSuspended e \<and> IsEnvironmentReady (re_Find env) e
     \<and> st_PodName (en_Status e) \<noteq> [] \<and> ep_Sandboxd (st_Endpoints (en_Status e)) \<noteq> []"

definition explicitHoldEnabled :: "'q Environment \<Rightarrow> bool" where
  "explicitHoldEnabled e \<longleftrightarrow>
     sp_Paused (en_Spec e)
     \<or> (case lsp_Hold (env_Lifecycle e) of None \<Rightarrow> False | Some h \<Rightarrow> hp_Enabled h)"

definition acceptedEnvironmentEpochCurrent :: "Run \<Rightarrow> 'q Environment \<Rightarrow> bool" where
  "acceptedEnvironmentEpochCurrent r e =
     (case rst_AcceptedEnvironmentEpoch (rn_Status r) of
        None \<Rightarrow> lst_Epoch (env_LStatus e) = 0
      | Some epoch \<Rightarrow> epoch = lst_Epoch (env_LStatus e))"

definition acceptedEnvironmentExecutionCurrent :: "Run \<Rightarrow> 'q Environment \<Rightarrow> bool" where
  "acceptedEnvironmentExecutionCurrent r e \<longleftrightarrow>
     0 < st_ExecutionGeneration (en_Status e)
     \<and> rst_AcceptedEnvironmentExecutionGeneration (rn_Status r) = Some (st_ExecutionGeneration (en_Status e))
     \<and> acceptedEnvironmentEpochCurrent r e"

definition claimIs :: "Run \<Rightarrow> 'q Environment \<Rightarrow> bool" where
  "claimIs r e =
     (case st_ClaimedBy (en_Status e) of
        None \<Rightarrow> False | Some c \<Rightarrow> rr_Name c = run_Name r \<and> rr_UID c = run_UID r)"

definition ownedByRun :: "('w, 'q, 'k, 'c, 'x) run_env \<Rightarrow> Run \<Rightarrow> 'q Environment \<Rightarrow> bool" where
  "ownedByRun env r e =
     controllerOwnerIs (re_Controller env) (en_Meta e) platformGroupVersion ''Run'' (run_Name r) (run_UID r)"

text \<open>The authority check of selection is skipped on cleanup paths.\<close>

definition selectionDemanded :: "Run \<Rightarrow> bool" where
  "selectionDemanded r \<longleftrightarrow> \<not> rs_Cancel (rn_Spec r) \<and> \<not> deleting (rn_Meta r) \<and> \<not> terminalRunState (run_State r)"

definition runRelevantEnvironmentUpdate :: "'q Environment \<Rightarrow> 'q Environment \<Rightarrow> bool" where
  "runRelevantEnvironmentUpdate old new =
     (let spec = (\<lambda>e. (en_Spec e)\<lparr>sp_Lifecycle := (env_Lifecycle e)\<lparr>lsp_Activity := []\<rparr>\<rparr>);
          stat = (\<lambda>e. (en_Status e)\<lparr>st_LastActiveAt := None,
                    st_Lifecycle := (env_LStatus e)\<lparr>lst_ActivityReceipts := []\<rparr>, st_ServiceObservations := None\<rparr>)
      in env_Generation old \<noteq> env_Generation new \<and> spec old \<noteq> spec new
         \<or> env_UID old \<noteq> env_UID new
         \<or> om_DeletionTimestamp (en_Meta old) \<noteq> om_DeletionTimestamp (en_Meta new)
         \<or> om_OwnerReferences (en_Meta old) \<noteq> om_OwnerReferences (en_Meta new)
         \<or> om_Labels (en_Meta old) \<noteq> om_Labels (en_Meta new)
         \<or> stat old \<noteq> stat new)"

section \<open>Status writes\<close>

definition setCondition ::
  "('w, 'q, 'k, 'c, 'x) run_env \<Rightarrow> string \<Rightarrow> string \<Rightarrow> string \<Rightarrow> string \<Rightarrow> ('w, 'q, unit) ctl" where
  "setCondition env t status reason message = do {
     r \<leftarrow> theRun;
     tm \<leftarrow> now env;
     onStatus (\<lambda>st. st\<lparr>rst_Conditions :=
       re_Set env tm (newCondition t status (run_Generation r) reason message) (rst_Conditions st)\<rparr>)
   }"

text \<open>\<open>if reflect.DeepEqual(*before, run.Status) { return nil }; return r.Status().Update(ctx, run)\<close>.\<close>

definition updateIfChanged ::
  "('w, 'q, 'k, 'c, 'x) run_env \<Rightarrow> RunStatus \<Rightarrow> ('w, 'q, 'k run_error + unit) ctl" where
  "updateIfChanged env before = do {
     r \<leftarrow> theRun;
     if rn_Status r = before then returnOk () else runStatusUpdate env
   }"

definition adapterConfirmed :: "RunState \<Rightarrow> string \<Rightarrow> bool" where
  "adapterConfirmed st reason \<longleftrightarrow>
     st = RunStateAdapterAccepted \<or> st = RunStateRunning \<or> st = RunStateNeedsInput \<or> st = RunStateSucceeded
     \<or> st = RunStateFailed \<and> reason = AdapterObservationFailed"

definition setRunState ::
  "('w, 'q, 'k, 'c, 'x) run_env \<Rightarrow> RunState \<Rightarrow> string \<Rightarrow> string \<Rightarrow> bool \<Rightarrow> ('w, 'q, 'k run_error + unit) ctl" where
  "setRunState env st reason message environmentReady = do {
     r \<leftarrow> theRun;
     let before = rn_Status r;
     let adapterAccepted = (runAccepted env r \<or> adapterConfirmed st reason);
     onStatus (\<lambda>s. s\<lparr>rst_State := st, rst_ObservedGeneration := run_Generation r\<rparr>);
     (if adapterAccepted \<and> rst_StartedAt before = None
      then do { t \<leftarrow> now env; onStatus (\<lambda>s. s\<lparr>rst_StartedAt := Some t\<rparr>) } else ret ());
     (if terminalRunState st \<and> rst_FinishedAt before = None
      then do { t \<leftarrow> now env; onStatus (\<lambda>s. s\<lparr>rst_FinishedAt := Some t\<rparr>) } else ret ());
     setCondition env ''EnvironmentReady'' (boolConditionStatus environmentReady)
       (if environmentReady then ''EnvironmentReady'' else reason)
       (if environmentReady then ''sandboxd is ready'' else message);
     setCondition env ''AdapterAccepted'' (boolConditionStatus adapterAccepted) reason message;
     updateIfChanged env before
   }"

definition setEnvironmentReadyCondition ::
  "('w, 'q, 'k, 'c, 'x) run_env \<Rightarrow> bool \<Rightarrow> string \<Rightarrow> string \<Rightarrow> ('w, 'q, 'k run_error + unit) ctl" where
  "setEnvironmentReadyCondition env ready reason message = do {
     r \<leftarrow> theRun;
     setCondition env ''EnvironmentReady'' (boolConditionStatus ready) reason message;
     updateIfChanged env (rn_Status r)
   }"

definition setRepositoryCredentialCondition ::
  "('w, 'q, 'k, 'c, 'x) run_env \<Rightarrow> string \<Rightarrow> string \<Rightarrow> string \<Rightarrow> ('w, 'q, 'k run_error + unit) ctl" where
  "setRepositoryCredentialCondition env status reason message = do {
     r \<leftarrow> theRun;
     setCondition env ''RepositoryCredentialReady'' status reason message;
     updateIfChanged env (rn_Status r)
   }"

definition markAcceptanceAttempted :: "('w, 'q, 'k, 'c, 'x) run_env \<Rightarrow> ('w, 'q, 'k run_error + unit) ctl" where
  "markAcceptanceAttempted env = do {
     r \<leftarrow> theRun;
     setCondition env ''AdapterAcceptanceAttempted'' ConditionTrue ''AcceptancePending''
       ''adapter acceptance may be attempted idempotently'';
     updateIfChanged env (rn_Status r)
   }"

text \<open>\<open>condition.Message = message\<close> writes through the pointer into the list of conditions: the first
  condition of the type, as \<open>FindStatusCondition\<close> returns it.\<close>

fun setMessage :: "string \<Rightarrow> string \<Rightarrow> Condition list \<Rightarrow> Condition list" where
  "setMessage t message [] = []"
| "setMessage t message (c # cs) =
     (if cd_Type c = t then c\<lparr>cd_Message := message\<rparr> # cs else c # setMessage t message cs)"

definition normalizedMessage :: "string \<Rightarrow> string option" where
  "normalizedMessage reason =
     (if reason = AdapterObservationAccepted \<or> reason = AdapterObservationRunning
         \<or> reason = AdapterObservationNeedsInput \<or> reason = AdapterObservationSucceeded
         \<or> reason = AdapterObservationFailed
      then Some (StatusMessage reason)
      else if reason = ''AdapterRejected'' then Some ''adapter rejected the task''
      else None)"

definition normalizeAdapterStatusCondition ::
  "('w, 'q, 'k, 'c, 'x) run_env \<Rightarrow> ('w, 'q, 'k run_error + bool) ctl" where
  "normalizeAdapterStatusCondition env = do {
     r \<leftarrow> theRun;
     case re_Find env (run_Conditions r) ''AdapterAccepted'' of
       None \<Rightarrow> returnOk False
     | Some c \<Rightarrow>
         (case normalizedMessage (cd_Reason c) of
            None \<Rightarrow> returnOk False
          | Some message \<Rightarrow>
              if cd_Message c = message then returnOk False
              else do {
                onStatus (\<lambda>st. st\<lparr>rst_Conditions := setMessage ''AdapterAccepted'' message (rst_Conditions st)\<rparr>);
                bindE (runStatusUpdate env) (\<lambda>_. returnOk True)
              })
   }"

section \<open>Environments\<close>

definition releaseClaim ::
  "('w, 'q, 'k, 'c, 'x) run_env \<Rightarrow> 'q Environment \<Rightarrow> ('w, 'q, 'k run_error + unit) ctl" where
  "releaseClaim env e = do {
     r \<leftarrow> theRun;
     if \<not> claimIs r e then returnOk ()
     else bindE (environmentStatusUpdate env e (e\<lparr>en_Status := (en_Status e)\<lparr>st_ClaimedBy := None\<rparr>\<rparr>)) (\<lambda>_. returnOk ())
   }"

abbreviation "adapterPollInterval \<equiv> 2 * second"

definition requestEnvironmentFence ::
  "('w, 'q, 'k, 'c, 'x) run_env \<Rightarrow> 'q Environment \<Rightarrow> ('w, 'q, 'k run_error outcome) ctl" where
  "requestEnvironmentFence env e =
     (if \<not> environmentSuspended e then
        (let nextSequence = wrap_i64 (max (lst_Epoch (env_LStatus e)) (lst_LastSuspendRequestSequence (env_LStatus e)) + 1);
             requestID = (case st_ClaimedBy (en_Status e) of
                None \<Rightarrow> ''environment/'' @ env_UID e @ ''/fence/'' @ format_int nextSequence
              | Some c \<Rightarrow> ''run/'' @ rr_UID c @ ''/fence/'' @ format_int nextSequence)
         in orFail (requestSuspend env e requestID nextSequence) (\<lambda>_. ret (requeueAfter adapterPollInterval, None)))
      else ret (requeueAfter adapterPollInterval, None))"

text \<open>
  \<open>getAllocatedEnvironment\<close> over either reader: the exact Environment of the Run's reference, still owned
  or claimed by the exact Run. A replaced object is returned beside the error for the metric only.
\<close>

definition allocationError ::
  "('w, 'q, 'k, 'c, 'x) run_env \<Rightarrow> Run \<Rightarrow> RunEnvironmentReference \<Rightarrow> 'q Environment \<Rightarrow> 'k run_error option" where
  "allocationError env r ref e =
     (if env_UID e \<noteq> rer_UID ref then Some (RAllocatedGone ''environment was replaced'' [om_Name (en_Meta e), rer_UID ref, env_UID e])
      else if rer_Ownership ref = EnvironmentOwnershipOwned \<and> \<not> ownedByRun env r e
      then Some (RAllocatedGone ''environment is not owned by run UID'' [om_Name (en_Meta e), run_UID r])
      else if rer_Ownership ref = EnvironmentOwnershipClaimed
         \<and> (re_Controller env (en_Meta e) \<noteq> None \<or> \<not> claimIs r e)
      then Some (RAllocatedGone ''environment claim does not match run UID'' [om_Name (en_Meta e), run_UID r])
      else if rer_Ownership ref \<noteq> EnvironmentOwnershipOwned \<and> rer_Ownership ref \<noteq> EnvironmentOwnershipClaimed
      then Some (RAllocatedGone ''environment has unknown ownership'' [om_Name (en_Meta e)])
      else if selectionDemanded r \<and> \<not> RunProjectBindingMatches r e
      then Some (RAllocatedGone ''expected Project binding does not match'' [])
      else None)"

definition getAllocatedEnvironment ::
  "('w, 'q, 'k, 'c, 'x) run_env \<Rightarrow> (NamespacedName \<Rightarrow> ('w, 'q, 'k run_error + 'q Environment) ctl) \<Rightarrow> Run
     \<Rightarrow> ('w, 'q, 'k run_error + 'q Environment) ctl" where
  "getAllocatedEnvironment env reader r =
     (case rst_EnvironmentRef (rn_Status r) of
        None \<Rightarrow> throwError RPanic
      | Some ref \<Rightarrow>
          bindE (reader (run_Namespace r, rer_Name ref)) (\<lambda>e.
            case allocationError env r ref e of Some x \<Rightarrow> throwError x | None \<Rightarrow> returnOk e))"

text \<open>With the cached client, and with the uncached reader.\<close>

definition cachedAllocation ::
  "('w, 'q, 'k, 'c, 'x) run_env \<Rightarrow> Run \<Rightarrow> ('w, 'q, 'k run_error + 'q Environment) ctl" where
  "cachedAllocation env r = getAllocatedEnvironment env (\<lambda>key. kread (re_Environment env key)) r"

definition freshAllocation ::
  "('w, 'q, 'k, 'c, 'x) run_env \<Rightarrow> Run \<Rightarrow> ('w, 'q, 'k run_error + 'q Environment) ctl" where
  "freshAllocation env r = getAllocatedEnvironment env (freshEnvironment env) r"

end
