(* ===== verification/Run_Execution.thy ===== *)
theory Run_Execution
  imports Run_State
begin

text \<open>
  How the Run controller reaches an execution: the adapter's sandbox handle with its dial functions, the
  run of an adapter's script through them, the proof of currentness before an adapter call and after it,
  and the capture of changes (\<open>run_changes.go\<close>).

  The metrics of the controller (\<open>fenceRejectionRecorder\<close>, \<open>observeAdapter\<close>) never influence what it
  does and have no counterpart.
\<close>

section \<open>Authority\<close>

definition revalidateScope ::
  "('w, 'q, 'k, 'c, 'x) run_env \<Rightarrow> Lifecycle list \<Rightarrow> ('w, 'q, 'k run_error + Claim) ctl" where
  "revalidateScope env permitted = do {
     r \<leftarrow> theRun;
     lease \<leftarrow> reads rc_lease;
     mapErr RTenancy (ask (Scope_Revalidate (re_Scope env) lease (run_Namespace r) permitted)
       (\<lambda>x. [EvTenancy (is_ok x)]))
   }"

definition isolationCurrent :: "('w, 'q, 'k, 'c, 'x) run_env \<Rightarrow> ('w, 'q, 'k run_error + bool) ctl" where
  "isolationCurrent env =
     mapErr RIsolation (ask (installationExecutionCurrent (Some (re_Isolation env))
         (map_option vf_Installation (re_Scope env)))
       (\<lambda>x. [EvIsolation (case x of Inl _ \<Rightarrow> False | Inr b \<Rightarrow> b)]))"

section \<open>The sandbox handle\<close>

text \<open>\<open>DialProcess\<close> of \<open>adapterSandbox\<close>: the exact allocation is read anew and the captured fence
  validated before the connector dials.\<close>

definition dialProcess ::
  "('w, 'q, 'k, 'c, 'x) run_env \<Rightarrow> ExecutionFence \<Rightarrow> ('w, 'q, 'k run_error + 'c) ctl" where
  "dialProcess env fence = do {
     r \<leftarrow> theRun;
     bindE (freshAllocation env r) (\<lambda>current.
       case Validate fence current of
         Some e \<Rightarrow> throwError (RLifecycle e)
       | None \<Rightarrow> ask (re_DialProcess env fence) (\<lambda>x. [EvDial fence (is_ok x)]))
   }"

text \<open>\<open>DialProcess\<close> of \<open>adapterAcceptanceSandbox\<close>, which may start a process with credentials.\<close>

definition acceptanceDial ::
  "('w, 'q, 'k, 'c, 'x) run_env \<Rightarrow> ExecutionFence \<Rightarrow> ('w, 'q, 'k run_error + 'c) ctl" where
  "acceptanceDial env fence =
     bindE (revalidateScope env [LifecycleActive]) (\<lambda>_.
       bindE (isolationCurrent env) (\<lambda>allowed.
         if \<not> allowed then throwError RIsolationBlocked else dialProcess env fence))"

definition emitEvent ::
  "('w, 'q, 'k, 'c, 'x) run_env \<Rightarrow> AdapterEvent \<Rightarrow> ('w, 'q, 'k run_error option) ctl" where
  "emitEvent env event = do {
     r \<leftarrow> theRun;
     case re_EventSink env of
       None \<Rightarrow> ret (Some RPanic)
     | Some sink \<Rightarrow> ask (sink (run_Namespace r) (run_Name r) (run_UID r) event) (\<lambda>x. [EvEmit event (x = None)])
   }"

primrec runScript ::
  "('w, 'q, 'k run_error + 'c) ctl \<Rightarrow> (AdapterEvent \<Rightarrow> ('w, 'q, 'k run_error option) ctl) \<Rightarrow> ('k, 'c, 'r) script
     \<Rightarrow> ('w, 'q, 'r) ctl" where
  "runScript dial emit (Finish x) = ret x"
| "runScript dial emit (Dial k) = State_Monad.bind dial (\<lambda>x. runScript dial emit (k x))"
| "runScript dial emit (Emit event k) = State_Monad.bind (emit event) (\<lambda>x. runScript dial emit (k x))"

definition adapterTask :: "Run \<Rightarrow> AdapterTask" where
  "adapterTask r = \<lparr>tk_ID = run_UID r, tk_Prompt = rs_Prompt (rn_Spec r)\<rparr>"

definition sandboxView :: "('w, 'q, 'k, 'c, 'x) run_env \<Rightarrow> 'q Environment \<Rightarrow> AdapterSandboxView" where
  "sandboxView env e =
     \<lparr>sv_EnvironmentName = om_Name (en_Meta e), sv_EnvironmentUID = env_UID e,
      sv_CanEmit = (re_EventSink env \<noteq> None)\<rparr>"

definition callEnsureAccepted ::
  "('w, 'q, 'k, 'c, 'x) run_env \<Rightarrow> ('w, 'k, 'c) AdapterLifecycle \<Rightarrow> 'q Environment \<Rightarrow> ExecutionFence
     \<Rightarrow> AdapterLaunchMaterial \<Rightarrow> ('w, 'q, 'k run_error option) ctl" where
  "callEnsureAccepted env adapter e fence material = do {
     r \<leftarrow> theRun;
     sc \<leftarrow> ask (al_EnsureAccepted adapter (adapterTask r) (sandboxView env e) material)
            (\<lambda>_. [EvEnsureAccepted (adapterTask r) fence material]);
     runScript (acceptanceDial env fence) (emitEvent env) sc
   }"

definition callObserve ::
  "('w, 'q, 'k, 'c, 'x) run_env \<Rightarrow> ('w, 'k, 'c) AdapterLifecycle \<Rightarrow> 'q Environment \<Rightarrow> ExecutionFence
     \<Rightarrow> ('w, 'q, 'k run_error + AdapterObservation \<times> string) ctl" where
  "callObserve env adapter e fence = do {
     r \<leftarrow> theRun;
     sc \<leftarrow> ask (al_Observe adapter (adapterTask r) (sandboxView env e)) (\<lambda>_. [EvObserve (adapterTask r) fence]);
     runScript (dialProcess env fence) (emitEvent env) sc
   }"

definition callCancel ::
  "('w, 'q, 'k, 'c, 'x) run_env \<Rightarrow> ('w, 'k, 'c) AdapterLifecycle \<Rightarrow> 'q Environment \<Rightarrow> ExecutionFence
     \<Rightarrow> ('w, 'q, 'k run_error option) ctl" where
  "callCancel env adapter e fence = do {
     r \<leftarrow> theRun;
     sc \<leftarrow> ask (al_Cancel adapter (adapterTask r) (sandboxView env e)) (\<lambda>_. [EvCancel (adapterTask r) fence]);
     x \<leftarrow> runScript (dialProcess env fence) (emitEvent env) sc;
     note_event (EvCancelled (x = None));
     ret x
   }"

section \<open>Proofs of currentness\<close>

text \<open>The part both proofs share: the exact allocation read anew, the fence of the expected Environment
  valid for it, reachable, and execution permitted; \<open>None\<close> when it is no longer current.\<close>

definition currentAllocation ::
  "('w, 'q, 'k, 'c, 'x) run_env \<Rightarrow> Run \<Rightarrow> 'q Environment \<Rightarrow> ('w, 'q, 'k run_error + bool) ctl" where
  "currentAllocation env r expected =
     ifErr (freshAllocation env r)
       (\<lambda>e. if isNotFoundError (re_NotFound env) e \<or> isAllocatedGone e then returnOk False else throwError e)
       (\<lambda>current.
          case (Validate (CaptureExecutionFence expected) current :: 'k lifecycle_error option) of
            Some _ \<Rightarrow> returnOk False
          | None \<Rightarrow>
              if \<not> environmentReachable env current then returnOk False
              else isolationCurrent env)"

definition resolveAllocatedExecution ::
  "('w, 'q, 'k, 'c, 'x) run_env \<Rightarrow> Run \<Rightarrow> 'q Environment \<Rightarrow> ('w, 'q, 'k run_error + 'x option) ctl" where
  "resolveAllocatedExecution env r expected =
     bindE (currentAllocation env r expected) (\<lambda>current.
       if \<not> current then returnOk None
       else let fence = CaptureExecutionFence expected in
         bindE (ask (re_ResolveExecution env fence) (\<lambda>x. [EvResolve fence (is_ok x)])) (\<lambda>execution.
           returnOk (Some execution)))"

definition allocatedExecutionCurrent ::
  "('w, 'q, 'k, 'c, 'x) run_env \<Rightarrow> Run \<Rightarrow> 'q Environment \<Rightarrow> 'x \<Rightarrow> ('w, 'q, 'k run_error + bool) ctl" where
  "allocatedExecutionCurrent env r expected execution =
     bindE (currentAllocation env r expected) (\<lambda>current.
       if \<not> current then returnOk False
       else let fence = CaptureExecutionFence expected in
         ifErr (ask (re_ExecutionCurrent env fence execution)
                  (\<lambda>x. [EvCurrent fence (case x of Inl _ \<Rightarrow> False | Inr b \<Rightarrow> b)]))
           (\<lambda>e. if isFenceChanged e then returnOk False else throwError e)
           returnOk)"

section \<open>Capturing changes\<close>

abbreviation "changesBaselineCondition \<equiv> ''ChangesBaselineCaptured''"
abbreviation "changesFinalCondition \<equiv> ''ChangesFinalCaptured''"

definition captureRequest :: "Run \<Rightarrow> 'q Environment option \<Rightarrow> bool \<Rightarrow> bool \<Rightarrow> CaptureChangesRequest" where
  "captureRequest r e baseline final =
     (let base = \<lparr>cc_Baseline = baseline, cc_Final = final,
                  cc_EnvironmentUID = (case rst_EnvironmentRef (rn_Status r) of None \<Rightarrow> [] | Some ref \<Rightarrow> rer_UID ref),
                  cc_ExecutionGeneration = 0, cc_LifecycleEpoch = 0, cc_HoldPolicyRevision = 0\<rparr>
      in case e of
           None \<Rightarrow> base
         | Some x \<Rightarrow>
             let fence = CaptureExecutionFence x in
             base\<lparr>cc_EnvironmentUID := fe_environmentUID fence, cc_ExecutionGeneration := fe_executionGeneration fence,
                  cc_LifecycleEpoch := fe_lifecycleEpoch fence, cc_HoldPolicyRevision := fe_holdPolicyRevision fence\<rparr>)"

definition captureChanges ::
  "('w, 'q, 'k, 'c, 'x) run_env \<Rightarrow> 'q Environment option \<Rightarrow> bool \<Rightarrow> bool \<Rightarrow> ('w, 'q, 'k run_error + unit) ctl" where
  "captureChanges env e baseline final =
     (case re_Changes env of
        None \<Rightarrow> returnOk ()
      | Some capture \<Rightarrow> do {
          r \<leftarrow> theRun;
          let condition = (if final then changesFinalCondition else if baseline then changesBaselineCondition else []);
          if condition \<noteq> [] \<and> conditionTrue env r condition then returnOk ()
          else bindE (revalidateScope env [LifecycleActive, LifecycleFencing, LifecycleFenced]) (\<lambda>claim.
            if cl_Lifecycle claim \<noteq> LifecycleActive then
              (if \<not> final \<or> baseline \<or> \<not> terminalRunState (run_State r)
                  \<or> cl_Lifecycle claim \<noteq> LifecycleFenced \<and> cl_Operation claim \<noteq> OperationOffboarding
               then throwError (RText ''Changes capture requires active tenancy'')
               else do {
                 setCondition env changesFinalCondition ConditionTrue ''OffboardingUnavailable''
                   ''final capture unavailable after tenancy fencing; last observation remains retained, not final'';
                 runStatusUpdate env
               })
            else let request = captureRequest r e baseline final in
              bindE (optionError (ask (capture (run_Namespace r) (run_Name r) (run_UID r) request)
                       (\<lambda>x. [EvCapture request (x = None)]))) (\<lambda>_.
                if condition \<noteq> [] then do {
                  setCondition env condition ConditionTrue ''Retained''
                    ''bounded changes capture outcome retained for review'';
                  runStatusUpdate env
                }
                else returnOk ()))
        })"

end
