(* ===== verification/Run_Allocation.thy ===== *)
theory Run_Allocation
  imports Run_Execution
begin

text \<open>
  Allocation of an Environment to a Run (\<open>run_controller.go\<close>): the selected Project and template, an
  explicit claim, a warm Environment of the template's pool, or an owned Environment with a deterministic
  name; and the recovery of an allocation whose status write was lost.
\<close>

abbreviation "warmPoolLabel \<equiv> ''swe.dev/warm-pool''"

section \<open>Project and template\<close>

definition resolveSelectedProject ::
  "('w, 'q, 'k, 'c, 'x) run_env \<Rightarrow> Run \<Rightarrow> ('w, 'q, 'k run_error + Project option) ctl" where
  "resolveSelectedProject env r =
     (let spec = rn_Spec r in
      if rs_ProjectUID spec = [] then returnOk None
      else ifErr (kread (re_ProjectNow env (run_Namespace r, rs_ProjectRef spec)))
        (\<lambda>e. if isNotFoundError (re_NotFound env) e then throwError RProjectSelectionUnavailable else throwError e)
        (\<lambda>project.
           if rs_ProjectRef spec = [] \<or> rs_EnvironmentRef spec \<noteq> [] \<or> om_UID (pj_Meta project) \<noteq> rs_ProjectUID spec
              \<or> deleting (pj_Meta project)
           then throwError RProjectSelectionUnavailable
           else returnOk (Some project)))"

definition templateNameOf ::
  "('w, 'q, 'k, 'c, 'x) run_env \<Rightarrow> Run \<Rightarrow> Project option \<Rightarrow> ('w, 'q, 'k run_error + string) ctl" where
  "templateNameOf env r selected =
     (let spec = rn_Spec r in
      if rs_TemplateRef spec \<noteq> [] then returnOk (rs_TemplateRef spec)
      else case selected of
        Some project \<Rightarrow> returnOk (pj_TemplateRef (pj_Spec project))
      | None \<Rightarrow>
          if rs_ProjectRef spec \<noteq> []
          then bindE (mapErr (RWrap (''get project '' @ re_Quote env (rs_ProjectRef spec)))
                 (kread (re_Project env (run_Namespace r, rs_ProjectRef spec)))) (\<lambda>project.
                 returnOk (pj_TemplateRef (pj_Spec project)))
          else returnOk (rs_TemplateRef spec))"

definition checkManagedTemplate ::
  "('w, 'q, 'k, 'c, 'x) run_env \<Rightarrow> Run \<Rightarrow> 'q EnvironmentTemplate \<Rightarrow> ('w, 'q, 'k run_error + unit) ctl" where
  "checkManagedTemplate env r template =
     (case re_Scope env of
        None \<Rightarrow> returnOk ()
      | Some verifier \<Rightarrow>
          bindE (mapErr RTenancy (ask (VerifyNamespace verifier (run_Namespace r)) (\<lambda>_. []))) (\<lambda>claim.
            case ValidateManagedTemplate template (vf_Installation verifier) claim of
              Some e \<Rightarrow> throwError (RTenancy e)
            | None \<Rightarrow> returnOk ()))"

definition resolveTemplate ::
  "('w, 'q, 'k, 'c, 'x) run_env \<Rightarrow> Run \<Rightarrow> ('w, 'q, 'k run_error + string) ctl" where
  "resolveTemplate env r =
     bindE (resolveSelectedProject env r) (\<lambda>selected.
     bindE (templateNameOf env r selected) (\<lambda>templateName.
       if templateName = [] then returnOk []
       else ifErr (kread (re_Template env (run_Namespace r, templateName)))
         (\<lambda>e. if \<not> isNotFoundError (re_NotFound env) e
              then throwError (RWrap (''get template '' @ re_Quote env templateName) e)
              else returnOk templateName)
         (\<lambda>template.
            if IsCatalogSource template
            then throwError (RTextf ''template is an inert installation catalog source'' [templateName])
            else bindE (checkManagedTemplate env r template) (\<lambda>_. returnOk templateName))))"

section \<open>Warm Environments\<close>

definition warmPoolMember ::
  "get_controller \<Rightarrow> 'q Environment \<Rightarrow> 'q EnvironmentTemplate \<Rightarrow> bool" where
  "warmPoolMember getControllerOf e tmpl \<longleftrightarrow>
     meta_label (en_Meta e) warmPoolLabel = om_Name (et_Meta tmpl)
     \<and> sp_TemplateRef (en_Spec e) = om_Name (et_Meta tmpl)
     \<and> controllerOwnerIs getControllerOf (en_Meta e) platformGroupVersion ''EnvironmentTemplate''
         (om_Name (et_Meta tmpl)) (om_UID (et_Meta tmpl))"

definition warmPoolMemberCurrent ::
  "get_controller \<Rightarrow> 'q quantities \<Rightarrow> 'q Environment \<Rightarrow> 'q EnvironmentTemplate \<Rightarrow> bool" where
  "warmPoolMemberCurrent getControllerOf qo e tmpl \<longleftrightarrow>
     warmPoolMember getControllerOf e tmpl \<and> sp_ProjectRef (en_Spec e) = []
     \<and> ProvisioningSnapshotCurrentTemplate qo (st_Provisioning (en_Status e)) tmpl"

definition warmMember ::
  "('w, 'q, 'k, 'c, 'x) run_env \<Rightarrow> 'q Environment \<Rightarrow> 'q EnvironmentTemplate \<Rightarrow> bool" where
  "warmMember env e tmpl = warmPoolMemberCurrent (re_Controller env) (re_Quantities env) e tmpl"

definition currentUnpromotedWarmClaim ::
  "('w, 'q, 'k, 'c, 'x) run_env \<Rightarrow> 'q Environment \<Rightarrow> Run \<Rightarrow> ('w, 'q, 'k run_error + bool) ctl" where
  "currentUnpromotedWarmClaim env e r =
     (let templateName = meta_label (en_Meta e) warmPoolLabel in
      if templateName = [] \<or> sp_TemplateRef (en_Spec e) \<noteq> templateName \<or> \<not> claimIs r e then returnOk False
      else ifErr (kread (re_TemplateNow env (om_Namespace (en_Meta e), templateName)))
        (\<lambda>x. if isNotFoundError (re_NotFound env) x then returnOk False else throwError x)
        (\<lambda>template. if deleting (et_Meta template) then returnOk False else returnOk (warmMember env e template)))"

text \<open>The label and the controller reference of the pool go, the Run's Project comes.\<close>

definition poolOwner :: "string \<Rightarrow> OwnerReference \<Rightarrow> bool" where
  "poolOwner templateRef ow \<longleftrightarrow>
     ow_Controller ow = Some True \<and> ow_Kind ow = ''EnvironmentTemplate'' \<and> ow_Name ow = templateRef"

definition promoted :: "Run \<Rightarrow> 'q Environment \<Rightarrow> 'q Environment" where
  "promoted r e =
     (let m = en_Meta e in
      e\<lparr>en_Meta := m\<lparr>om_Labels := filter (\<lambda>(k, _). k \<noteq> warmPoolLabel) (om_Labels m),
                     om_OwnerReferences := filter (\<lambda>ow. \<not> poolOwner (sp_TemplateRef (en_Spec e)) ow) (om_OwnerReferences m)\<rparr>,
        en_Spec := (en_Spec e)\<lparr>sp_ProjectRef := rs_ProjectRef (rn_Spec r), sp_ProjectUID := rs_ProjectUID (rn_Spec r)\<rparr>\<rparr>)"

text \<open>A warm pod may still be the generic one: readiness goes before the Run records the allocation.\<close>

definition withdrawReadiness ::
  "('w, 'q, 'k, 'c, 'x) run_env \<Rightarrow> 'q Environment \<Rightarrow> ('w, 'q, 'k run_error + 'q Environment) ctl" where
  "withdrawReadiness env e =
     (if st_Phase (en_Status e) = EnvironmentPhaseReady \<or> st_Phase (en_Status e) = EnvironmentPhaseRunning
      then do {
        t \<leftarrow> now env;
        mapErr (RWrap (''withdraw warm environment '' @ re_Quote env (om_Name (en_Meta e)) @ '' readiness''))
          (environmentStatusUpdate env e (applyEnvironmentStatus (re_Set env t) EnvironmentPhaseSetup [] []
             ''SetupInProgress'' ''warm environment is being configured for its project''
             (st_LastActiveAt (en_Status e)) e))
      }
      else returnOk e)"

definition promoteWarmEnvironment ::
  "('w, 'q, 'k, 'c, 'x) run_env \<Rightarrow> 'q Environment \<Rightarrow> ('w, 'q, 'k run_error + 'q Environment) ctl" where
  "promoteWarmEnvironment env e = do {
     r \<leftarrow> theRun;
     if sp_ProjectRef (en_Spec e) \<noteq> [] \<and> \<not> RunProjectBindingMatches r e then throwError RProjectSelectionUnavailable
     else ifErr (resolveSelectedProject env r)
       (\<lambda>x. if sp_ProjectRef (en_Spec e) = [] then bindE (releaseClaim env e) (\<lambda>_. throwError x) else throwError x)
       (\<lambda>_. let next = promoted r e in
          bindE (if en_Meta e \<noteq> en_Meta next \<or> en_Spec e \<noteq> en_Spec next
                 then mapErr (RWrap (''promote warm environment '' @ re_Quote env (om_Name (en_Meta e))))
                        (environmentPatch env e next)
                 else returnOk next) (\<lambda>e'.
            if \<not> RunProjectBindingMatches r e' then throwError RProjectSelectionUnavailable
            else withdrawReadiness env e'))
   }"

definition claimedReference :: "'q Environment \<Rightarrow> RunEnvironmentReference" where
  "claimedReference e =
     \<lparr>rer_Name = om_Name (en_Meta e), rer_UID = env_UID e, rer_Ownership = EnvironmentOwnershipClaimed\<rparr>"

definition ownedReference :: "'q Environment \<Rightarrow> RunEnvironmentReference" where
  "ownedReference e =
     \<lparr>rer_Name = om_Name (en_Meta e), rer_UID = env_UID e, rer_Ownership = EnvironmentOwnershipOwned\<rparr>"

definition runReference :: "Run \<Rightarrow> RunReference" where
  "runReference r = \<lparr>rr_Name = run_Name r, rr_UID = run_UID r\<rparr>"

text \<open>The write that claims an Environment, with the activity time it records.\<close>

definition takeClaim ::
  "('w, 'q, 'k, 'c, 'x) run_env \<Rightarrow> 'q Environment \<Rightarrow> int option \<Rightarrow> ('w, 'q, 'k run_error + 'q Environment) ctl" where
  "takeClaim env e lastActiveAt = do {
     r \<leftarrow> theRun;
     environmentStatusUpdate env e
       (e\<lparr>en_Status := (en_Status e)\<lparr>st_ClaimedBy := Some (runReference r), st_LastActiveAt := lastActiveAt\<rparr>\<rparr>)
   }"

text \<open>\<open>err != nil || deleted || !current\<close> for the template confirmed after the claim.\<close>

definition templateChanged ::
  "('w, 'q, 'k, 'c, 'x) run_env \<Rightarrow> 'q Environment \<Rightarrow> 'k run_error + 'q EnvironmentTemplate \<Rightarrow> bool" where
  "templateChanged env e x =
     (case x of Inl _ \<Rightarrow> True | Inr t \<Rightarrow> deleting (et_Meta t) \<or> \<not> warmMember env e t)"

fun claimFirstWarm ::
  "('w, 'q, 'k, 'c, 'x) run_env \<Rightarrow> string \<Rightarrow> 'q EnvironmentTemplate \<Rightarrow> 'q Environment list
     \<Rightarrow> ('w, 'q, 'k run_error + RunEnvironmentReference option) ctl" where
  "claimFirstWarm env template currentTemplate [] = returnOk None"
| "claimFirstWarm env template currentTemplate (e # es) =
     (if environmentSuspended e \<or> \<not> IsEnvironmentReady (re_Find env) e \<or> st_ClaimedBy (en_Status e) \<noteq> None
         \<or> \<not> warmMember env e currentTemplate
      then claimFirstWarm env template currentTemplate es
      else do {
        r \<leftarrow> theRun;
        t \<leftarrow> now env;
        ifErr (takeClaim env e (Some t))
          (\<lambda>x. case x of
                 RKube k \<Rightarrow>
                   if re_Conflict env k \<or> re_NotFound env k then claimFirstWarm env template currentTemplate es
                   else throwError (RWrap (''claim warm environment '' @ re_Quote env (om_Name (en_Meta e))) x)
               | _ \<Rightarrow> throwError (RWrap (''claim warm environment '' @ re_Quote env (om_Name (en_Meta e))) x))
          (\<lambda>e'. do {
             confirmed \<leftarrow> kread (re_TemplateNow env (run_Namespace r, template));
             if templateChanged env e' confirmed then
               bindE (mapErr (RWrap (''release warm environment '' @ re_Quote env (om_Name (en_Meta e')) @ '' after template changed''))
                        (releaseClaim env e')) (\<lambda>_.
                 case confirmed of
                   Inl x \<Rightarrow>
                     if \<not> isNotFoundError (re_NotFound env) x
                     then throwError (RWrap (''confirm warm environment template '' @ re_Quote env template) x)
                     else claimFirstWarm env template currentTemplate es
                 | Inr _ \<Rightarrow> claimFirstWarm env template currentTemplate es)
             else bindE (promoteWarmEnvironment env e') (\<lambda>e''. returnOk (Some (claimedReference e'')))
           })
      })"

definition claimWarmEnvironment ::
  "('w, 'q, 'k, 'c, 'x) run_env \<Rightarrow> string \<Rightarrow> ('w, 'q, 'k run_error + RunEnvironmentReference option) ctl" where
  "claimWarmEnvironment env template = do {
     r \<leftarrow> theRun;
     bindE (mapErr (RWrap ''list warm environments'')
              (kread (re_Environments env (run_Namespace r) (Some (warmPoolLabel, template))))) (\<lambda>environments.
       if environments = [] then returnOk None
       else bindE (mapErr (RWrap (''get warm environment template '' @ re_Quote env template))
              (kread (re_TemplateNow env (run_Namespace r, template)))) (\<lambda>currentTemplate.
         if deleting (et_Meta currentTemplate) then returnOk None
         else claimFirstWarm env template currentTemplate environments))
   }"

section \<open>Explicit claims\<close>

definition explicitClaimWakeReason :: "'q Environment \<Rightarrow> 'k run_error + EnvironmentSuspensionReason" where
  "explicitClaimWakeReason e =
     (if \<not> environmentSuspended e then Inr []
      else let reason = lst_SuspensionReason (env_LStatus e) in
        if reason = EnvironmentSuspensionReasonIdle \<or> reason = EnvironmentSuspensionReasonRequested then Inr reason
        else Inl (RExplicitNotWakeable (om_Name (en_Meta e)) reason))"

definition wakeExplicitClaim ::
  "('w, 'q, 'k, 'c, 'x) run_env \<Rightarrow> 'q Environment \<Rightarrow> Run \<Rightarrow> ('w, 'q, 'k run_error + unit) ctl" where
  "wakeExplicitClaim env e r =
     (if explicitHoldEnabled e then throwError (RExplicitHeld (om_Name (en_Meta e)) (HoldPolicyRevision e))
      else if \<not> environmentSuspended e then returnOk ()
      else case explicitClaimWakeReason e of
        Inl x \<Rightarrow> throwError x
      | Inr reason \<Rightarrow> requestWake env e (''run/'' @ run_UID r @ ''/wake'') reason)"

definition claimedByOther :: "Run \<Rightarrow> 'q Environment \<Rightarrow> RunReference option" where
  "claimedByOther r e =
     (case st_ClaimedBy (en_Status e) of
        None \<Rightarrow> None
      | Some c \<Rightarrow> if rr_Name c \<noteq> run_Name r \<or> rr_UID c \<noteq> run_UID r then Some c else None)"

definition claimExplicit ::
  "('w, 'q, 'k, 'c, 'x) run_env \<Rightarrow> Run \<Rightarrow> ('w, 'q, 'k run_error + RunEnvironmentReference option) ctl" where
  "claimExplicit env r =
     (let name = rs_EnvironmentRef (rn_Spec r) in
      bindE (mapErr (RWrap (''get claimed environment '' @ re_Quote env name))
               (kread (re_Environment env (run_Namespace r, name)))) (\<lambda>e.
        case re_Controller env (en_Meta e) of
          Some owner \<Rightarrow>
            throwError (RTextf ''environment is controller-owned and cannot be claimed''
              [om_Name (en_Meta e), ow_Kind owner, ow_Name owner])
        | None \<Rightarrow>
            if explicitHoldEnabled e then throwError (RExplicitHeld (om_Name (en_Meta e)) (HoldPolicyRevision e))
            else case explicitClaimWakeReason e of
              Inl x \<Rightarrow> throwError x
            | Inr _ \<Rightarrow>
                (case claimedByOther r e of
                   Some other \<Rightarrow> throwError (RExplicitClaimed (om_Name (en_Meta e)) (rr_Name other))
                 | None \<Rightarrow>
                     bindE (if st_ClaimedBy (en_Status e) = None
                            then takeClaim env e (st_LastActiveAt (en_Status e))
                            else returnOk e) (\<lambda>e'.
                     bindE (if environmentSuspended e' then wakeExplicitClaim env e' r else returnOk ()) (\<lambda>_.
                       returnOk (Some (claimedReference e')))))))"

section \<open>Owned Environments\<close>

definition ownedEnvironment :: "Run \<Rightarrow> string \<Rightarrow> 'q Environment" where
  "ownedEnvironment r template =
     zero_environment\<lparr>en_Meta := zero_meta\<lparr>om_Namespace := run_Namespace r, om_Name := ''run-'' @ run_UID r\<rparr>,
       en_Spec := zero_spec\<lparr>sp_ProjectRef := rs_ProjectRef (rn_Spec r), sp_ProjectUID := rs_ProjectUID (rn_Spec r),
                            sp_TemplateRef := template\<rparr>\<rparr>"

definition createOwned ::
  "('w, 'q, 'k, 'c, 'x) run_env \<Rightarrow> Run \<Rightarrow> string \<Rightarrow> ('w, 'q, 'k run_error + 'q Environment) ctl" where
  "createOwned env r template =
     (let key = (run_Namespace r, ''run-'' @ run_UID r) in
      case re_SetController env r (ownedEnvironment r template) of
        Inl x \<Rightarrow> throwError x
      | Inr e \<Rightarrow> do {
          x \<leftarrow> ask (re_EnvironmentCreate env e) (\<lambda>x. [EvEnvironmentCreate e (is_ok x)]);
          case x of
            Inr created \<Rightarrow> returnOk created
          | Inl k \<Rightarrow> if \<not> re_AlreadyExists env k then throwError (RKube k) else kread (re_Environment env key)
        })"

definition allocateOwned ::
  "('w, 'q, 'k, 'c, 'x) run_env \<Rightarrow> Run \<Rightarrow> string \<Rightarrow> ('w, 'q, 'k run_error + RunEnvironmentReference option) ctl" where
  "allocateOwned env r template =
     bindE (ifErr (kread (re_Environment env (run_Namespace r, ''run-'' @ run_UID r)))
              (\<lambda>x. if isNotFoundError (re_NotFound env) x then createOwned env r template else throwError x) returnOk)
       (\<lambda>e. if \<not> ownedByRun env r e
            then throwError (RTextf ''deterministic environment is not owned by run UID'' [om_Name (en_Meta e), run_UID r])
            else if \<not> RunProjectBindingMatches r e then throwError RProjectSelectionUnavailable
            else returnOk (Some (ownedReference e)))"

definition allocateEnvironment ::
  "('w, 'q, 'k, 'c, 'x) run_env \<Rightarrow> ('w, 'q, 'k run_error + RunEnvironmentReference option) ctl" where
  "allocateEnvironment env = do {
     r \<leftarrow> theRun;
     if rs_EnvironmentRef (rn_Spec r) \<noteq> [] then claimExplicit env r
     else bindE (resolveTemplate env r) (\<lambda>template.
       if template = [] then throwError (RText ''run has no environment template'')
       else bindE (claimWarmEnvironment env template) (\<lambda>ref.
         if ref \<noteq> None then returnOk ref else allocateOwned env r template))
   }"

section \<open>Recovering an allocation\<close>

definition recoverExplicit ::
  "('w, 'q, 'k, 'c, 'x) run_env \<Rightarrow> Run \<Rightarrow> ('w, 'q, 'k run_error + RunEnvironmentReference option) ctl" where
  "recoverExplicit env r =
     ifErr (kread (re_Environment env (run_Namespace r, rs_EnvironmentRef (rn_Spec r))))
       (\<lambda>x. if isNotFoundError (re_NotFound env) x then returnOk None else throwError x)
       (\<lambda>e. if claimIs r e then
              (if re_Controller env (en_Meta e) \<noteq> None then returnOk None else returnOk (Some (claimedReference e)))
            else returnOk None)"

text \<open>Which listed Environment the Run claims: \<open>Inr None\<close> when none is to be adopted.\<close>

fun recoverClaimed ::
  "('w, 'q, 'k, 'c, 'x) run_env \<Rightarrow> Run \<Rightarrow> 'q Environment list
     \<Rightarrow> ('w, 'q, 'k run_error + RunEnvironmentReference option) ctl" where
  "recoverClaimed env r [] = returnOk None"
| "recoverClaimed env r (e # es) =
     (if \<not> claimIs r e then recoverClaimed env r es
      else if meta_label (en_Meta e) warmPoolLabel \<noteq> [] then
        bindE (currentUnpromotedWarmClaim env e r) (\<lambda>current.
          if \<not> current then recoverClaimed env r es else returnOk (Some (claimedReference e)))
      else if re_Controller env (en_Meta e) \<noteq> None then recoverClaimed env r es
      else if selectionDemanded r \<and> \<not> RunProjectBindingMatches r e then throwError RProjectSelectionUnavailable
      else returnOk (Some (claimedReference e)))"

definition recoverOwned ::
  "('w, 'q, 'k, 'c, 'x) run_env \<Rightarrow> Run \<Rightarrow> ('w, 'q, 'k run_error + RunEnvironmentReference option) ctl" where
  "recoverOwned env r =
     ifErr (kread (re_Environment env (run_Namespace r, ''run-'' @ run_UID r)))
       (\<lambda>x. if isNotFoundError (re_NotFound env) x then returnOk None else throwError x)
       (\<lambda>e. if \<not> ownedByRun env r e then returnOk None
            else if selectionDemanded r \<and> \<not> RunProjectBindingMatches r e then throwError RProjectSelectionUnavailable
            else returnOk (Some (ownedReference e)))"

definition recoverEnvironmentReference ::
  "('w, 'q, 'k, 'c, 'x) run_env \<Rightarrow> Run \<Rightarrow> ('w, 'q, 'k run_error + RunEnvironmentReference option) ctl" where
  "recoverEnvironmentReference env r =
     (if rs_EnvironmentRef (rn_Spec r) \<noteq> [] then recoverExplicit env r
      else bindE (kread (re_Environments env (run_Namespace r) None)) (\<lambda>environments.
        bindE (recoverClaimed env r environments) (\<lambda>ref.
          if ref \<noteq> None then returnOk ref else recoverOwned env r)))"

text \<open>\<open>RSelectionUnavailable\<close> as a Run failure: cleanup authority over a lost allocation is recovered
  first, and an unpromoted warm claim given back.\<close>

definition adoptForCleanup :: "('w, 'q, 'k, 'c, 'x) run_env \<Rightarrow> ('w, 'q, 'k run_error + unit) ctl" where
  "adoptForCleanup env = do {
     r \<leftarrow> theRun;
     let cleanup = r\<lparr>rn_Spec := (rn_Spec r)\<lparr>rs_Cancel := True\<rparr>\<rparr>;
     bindE (recoverEnvironmentReference env cleanup) (\<lambda>ref.
       bindE (case ref of
                None \<Rightarrow> returnOk None
              | Some x \<Rightarrow>
                  if rer_Ownership x = EnvironmentOwnershipClaimed
                  then bindE (kread (re_Environment env (run_Namespace r, rer_Name x))) (\<lambda>e.
                    if meta_label (en_Meta e) warmPoolLabel \<noteq> []
                    then bindE (releaseClaim env e) (\<lambda>_. returnOk None)
                    else returnOk ref)
                  else returnOk ref) (\<lambda>ref'. do {
         onStatus (\<lambda>st. st\<lparr>rst_EnvironmentRef := ref'\<rparr>);
         returnOk ()
       }))
   }"

abbreviation "projectSelectionUnavailableText \<equiv>
  ''expected Project selection is unavailable; rediscover and reselect the Project''"

definition rejectProjectSelection ::
  "('w, 'q, 'k, 'c, 'x) run_env \<Rightarrow> ('w, 'q, 'k run_error + unit) ctl" where
  "rejectProjectSelection env = do {
     r \<leftarrow> theRun;
     bindE (if rst_EnvironmentRef (rn_Status r) = None then adoptForCleanup env else returnOk ()) (\<lambda>_.
       setRunState env RunStateFailed ''ProjectSelectionUnavailable'' projectSelectionUnavailableText False)
   }"

end
