(* ===== verification/Run_Credential.thy ===== *)
theory Run_Credential
  imports Run_Execution
begin

text \<open>
  Agent credentials of a Run (\<open>run_controller.go\<close>): binding the selected profile by identity before
  anything is allocated, waiting a bounded time for it, and resolving the key from the exactly owned Secret
  right before acceptance.

  A handler that may end the reconcile returns \<open>Inl\<close> of the outcome to return, or \<open>Inr\<close> to go on.
\<close>

abbreviation "credentialReadyTimeout \<equiv> 60 * second"
abbreviation "AgentCredentialAPIKeySecretType \<equiv> ''swe.dev/agent-api-key''"
abbreviation "AgentCredentialAPIKeySecretKey \<equiv> ''apiKey''"

definition AgentCredentialAPIKeyMaxBytes :: nat where
  "AgentCredentialAPIKeyMaxBytes = 16 * 1024"

definition AgentCredentialSecretName :: "('w, 'q, 'k, 'c, 'x) run_env \<Rightarrow> string \<Rightarrow> string" where
  "AgentCredentialSecretName env profileUID = ''agent-credential-'' @ take 32 (re_Sha env profileUID)"

definition exactCredentialSecretOwner ::
  "('w, 'q, 'k, 'c, 'x) run_env \<Rightarrow> AgentCredentialProfile \<Rightarrow> ObjectMeta \<Rightarrow> bool" where
  "exactCredentialSecretOwner env profile obj \<longleftrightarrow>
     length (om_OwnerReferences obj) = 1
     \<and> controllerOwnerIs (re_Controller env) obj platformGroupVersion ''AgentCredentialProfile''
         (om_Name (ac_Meta profile)) (om_UID (ac_Meta profile))"

definition bytesContainNUL :: "string \<Rightarrow> bool" where
  "bytesContainNUL value = list_ex (\<lambda>b. code b = 0) value"

definition usableAPIKey :: "Secret \<Rightarrow> string option" where
  "usableAPIKey secret =
     (case map_of (se_Data secret) AgentCredentialAPIKeySecretKey of
        None \<Rightarrow> None
      | Some value \<Rightarrow>
          if se_Type secret \<noteq> AgentCredentialAPIKeySecretType \<or> length (se_Data secret) \<noteq> 1 \<or> value = []
             \<or> AgentCredentialAPIKeyMaxBytes < length value \<or> \<not> utf8_valid value \<or> bytesContainNUL value
          then None else Some value)"

text \<open>An error with the reason the code returns beside it; the empty reason marks a transient error.\<close>

definition credentialRead ::
  "('w, 'q, 'k, 'c, 'x) run_env \<Rightarrow> string \<Rightarrow> string \<Rightarrow> ('w, 'k + 'a) state
     \<Rightarrow> ('w, 'q, (string \<times> 'k run_error) + 'a) ctl" where
  "credentialRead env reason message get =
     mapErr (\<lambda>e. if isNotFoundError (re_NotFound env) e then (reason, RText message) else ([], e)) (kread get)"

definition resolveCredential ::
  "('w, 'q, 'k, 'c, 'x) run_env \<Rightarrow> Run \<Rightarrow> ('w, 'q, (string \<times> 'k run_error) + AdapterCredential option) ctl" where
  "resolveCredential env r =
     (if rs_CredentialProfileRef (rn_Spec r) = [] then returnOk None
      else case rst_CredentialProfileRef (rn_Status r) of
        None \<Rightarrow> throwError (''MalformedSecret'', RText ''credential profile is not bound'')
      | Some bound \<Rightarrow>
          bindE (credentialRead env ''ProfileNotFound'' ''bound credential profile is not ready''
                   (re_ProfileNow env (run_Namespace r, rcp_Name bound))) (\<lambda>profile.
          if om_UID (ac_Meta profile) \<noteq> rcp_UID bound
          then throwError (''ProfileReplaced'', RText ''bound credential profile was replaced'')
          else if ac_Adapter profile \<noteq> rs_Agent (rn_Spec r)
          then throwError (''AdapterMismatch'', RText ''credential profile does not permit this adapter'')
          else if ac_CredentialType profile \<noteq> AgentCredentialTypeAPIKey
          then throwError (''UnsupportedCredentialType'', RText ''credential profile type is unsupported'')
          else let key = (run_Namespace r, AgentCredentialSecretName env (om_UID (ac_Meta profile))) in
            bindE (credentialRead env ''SecretNotReady'' ''credential secret is not ready'' (re_SecretMetaNow env key))
              (\<lambda>metadata.
            if \<not> exactCredentialSecretOwner env profile metadata
            then throwError (''ForeignSecret'', RText ''credential secret is not controlled by the bound profile'')
            else bindE (credentialRead env ''SecretNotReady'' ''credential secret is not ready'' (re_SecretNow env key))
              (\<lambda>secret.
            if om_UID (se_Meta secret) \<noteq> om_UID metadata
               \<or> om_ResourceVersion (se_Meta secret) \<noteq> om_ResourceVersion metadata
            then throwError (''SecretNotReady'', RText ''credential secret changed during validation'')
            else if \<not> exactCredentialSecretOwner env profile (se_Meta secret)
            then throwError (''ForeignSecret'', RText ''credential secret is not controlled by the bound profile'')
            else case usableAPIKey secret of
                   None \<Rightarrow> throwError (''MalformedSecret'', RText ''credential secret is malformed'')
                 | Some value \<Rightarrow> returnOk (Some \<lparr>ak_Type = AgentCredentialTypeAPIKey, ak_APIKey = value\<rparr>)))))"

definition failCredential ::
  "('w, 'q, 'k, 'c, 'x) run_env \<Rightarrow> string \<Rightarrow> string \<Rightarrow> ('w, 'q, 'k run_error + unit) ctl" where
  "failCredential env reason message = do {
     setCondition env ''CredentialProfileBound'' ConditionFalse reason message;
     r \<leftarrow> theRun;
     setRunState env RunStateFailed reason message (rst_EnvironmentRef (rn_Status r) \<noteq> None)
   }"

definition waitForCredential ::
  "('w, 'q, 'k, 'c, 'x) run_env \<Rightarrow> string \<Rightarrow> string \<Rightarrow> ('w, 'q, 'k run_error outcome) ctl" where
  "waitForCredential env reason message = do {
     r \<leftarrow> theRun;
     let waiting = re_Find env (run_Conditions r) ''CredentialProfileBound'';
     case waiting of
       Some c \<Rightarrow>
         if cd_Status c = ConditionFalse \<and> cd_Reason c = reason then do {
           t \<leftarrow> now env;
           let remaining = credentialReadyTimeout - (t - cd_LastTransitionTime c);
           if remaining \<le> 0 then finish noResult (failCredential env reason message)
           else ret (requeueAfter remaining, None)
         }
         else do {
           setCondition env ''CredentialProfileBound'' ConditionFalse reason message;
           finish (requeueAfter credentialReadyTimeout) (runStatusUpdate env)
         }
     | None \<Rightarrow> do {
         setCondition env ''CredentialProfileBound'' ConditionFalse reason message;
         finish (requeueAfter credentialReadyTimeout) (runStatusUpdate env)
       }
   }"

definition boundReady :: "('w, 'q, 'k, 'c, 'x) run_env \<Rightarrow> Run \<Rightarrow> string \<Rightarrow> bool" where
  "boundReady env r reason =
     (case re_Find env (run_Conditions r) ''CredentialProfileBound'' of
        None \<Rightarrow> False
      | Some c \<Rightarrow> cd_Status c = ConditionTrue \<and> cd_Reason c = reason)"

definition checkBoundProfile ::
  "('w, 'q, 'k, 'c, 'x) run_env \<Rightarrow> ('w, 'q, 'k run_error outcome + unit) ctl" where
  "checkBoundProfile env = do {
     r \<leftarrow> theRun;
     ifErr (resolveCredential env r)
       (\<lambda>(reason, e).
          if reason = ''SecretNotReady'' then returns (waitForCredential env reason ''credential secret is not ready'')
          else if reason = [] then returns (ret (noResult, Some e))
          else returns (finish noResult (failCredential env reason (re_ErrText env e))))
       (\<lambda>_. if boundReady env r ''Bound'' then returnOk ()
            else do {
              setCondition env ''CredentialProfileBound'' ConditionTrue ''Bound'' ''credential profile identity is bound'';
              returns (finish requeueNow (runStatusUpdate env))
            })
   }"

definition bindProfile ::
  "('w, 'q, 'k, 'c, 'x) run_env \<Rightarrow> AgentCredentialProfile \<Rightarrow> ('w, 'q, 'k run_error outcome + unit) ctl" where
  "bindProfile env profile = do {
     r \<leftarrow> theRun;
     if (case rst_CredentialProfileRef (rn_Status r) of None \<Rightarrow> False | Some b \<Rightarrow> rcp_UID b \<noteq> om_UID (ac_Meta profile))
     then returns (finish noResult (failCredential env ''ProfileReplaced'' ''bound credential profile was replaced''))
     else if ac_Adapter profile \<noteq> rs_Agent (rn_Spec r)
     then returns (finish noResult (failCredential env ''AdapterMismatch'' ''credential profile does not permit this adapter''))
     else if ac_CredentialType profile \<noteq> AgentCredentialTypeAPIKey
     then returns (finish noResult (failCredential env ''UnsupportedCredentialType'' ''credential profile type is unsupported''))
     else if rst_CredentialProfileRef (rn_Status r) = None then do {
       onStatus (\<lambda>st. st\<lparr>rst_CredentialProfileRef :=
         Some \<lparr>rcp_Name = om_Name (ac_Meta profile), rcp_UID = om_UID (ac_Meta profile)\<rparr>\<rparr>);
       setCondition env ''CredentialProfileBound'' ConditionTrue ''Bound'' ''credential profile identity is bound'';
       r' \<leftarrow> theRun;
       if rn_Status r' \<noteq> rn_Status r then returns (finish requeueNow (runStatusUpdate env))
       else checkBoundProfile env
     }
     else checkBoundProfile env
   }"

definition ensureCredentialBinding ::
  "('w, 'q, 'k, 'c, 'x) run_env \<Rightarrow> ('w, 'q, 'k run_error outcome + unit) ctl" where
  "ensureCredentialBinding env = do {
     r \<leftarrow> theRun;
     let selected = rs_CredentialProfileRef (rn_Spec r);
     if selected = [] then do {
       (if boundReady env r ''Credentialless'' then ret ()
        else setCondition env ''CredentialProfileBound'' ConditionTrue ''Credentialless'' ''no credential profile selected'');
       returnOk ()
     }
     else if (case rst_CredentialProfileRef (rn_Status r) of None \<Rightarrow> False | Some b \<Rightarrow> rcp_Name b \<noteq> selected)
     then returns (finish noResult (failCredential env ''ProfileReplaced'' ''bound credential profile does not match the selected profile''))
     else ifErr (kread (re_ProfileNow env (run_Namespace r, selected)))
       (\<lambda>e. if isNotFoundError (re_NotFound env) e
            then returns (waitForCredential env ''ProfileNotFound'' ''credential profile is not ready'')
            else returns (ret (noResult, Some e)))
       (bindProfile env)
   }"

end
