(* ===== verification/Run_Repository.thy ===== *)
theory Run_Repository
  imports Run_Execution
begin

text \<open>
  The repository credential of a Run (\<open>run_controller.go\<close>): issuing a short-lived lease into a Secret,
  rotating it around a fence of the execution that holds it, the write-ahead record of a revocation that is
  pending, the launch material for the adapter, and the cleanup.

  Strict JSON decoding (\<open>encoding/json\<close>, one value without unknown fields) and base64 are fields of
  \<open>run_env\<close>. Durations and times are integers in nanoseconds. The clock is not read where the code
  passes it to a parameter that is ignored (\<open>NewPendingRevocationSecret\<close>).
\<close>

abbreviation "repositoryRefreshAnnotation \<equiv> ''credentials.swe.dev/repository-refresh''"
abbreviation "repositoryProvisioningAnnotation \<equiv> ''credentials.swe.dev/repository-provisioning''"
abbreviation "repositoryCredentialRequeueDelay \<equiv> 5 * second"

section \<open>Rotation and provisioning records\<close>

definition parseRepositoryRotationRecord ::
  "('w, 'q, 'k, 'c, 'x) run_env \<Rightarrow> string \<Rightarrow> repositoryRotationRecord option" where
  "parseRepositoryRotationRecord env value =
     (if value = [] then None
      else case re_RotationDecode env value of
        None \<Rightarrow> None
      | Some rec \<Rightarrow>
          if rr_OldSecretUID rec = [] \<or> TrimSpace (rr_OldSecretUID rec) \<noteq> rr_OldSecretUID rec \<or> rr_TargetGeneration rec < 2
          then None else Some rec)"

definition repositoryRotation ::
  "('w, 'q, 'k, 'c, 'x) run_env \<Rightarrow> Run \<Rightarrow> repositoryRotationRecord option" where
  "repositoryRotation env r = parseRepositoryRotationRecord env (meta_annotation (rn_Meta r) repositoryRefreshAnnotation)"

definition rotationRecorded :: "Run \<Rightarrow> bool" where
  "rotationRecorded r \<longleftrightarrow> meta_annotation (rn_Meta r) repositoryRefreshAnnotation \<noteq> []"

definition validateActiveRepositoryRotation ::
  "('w, 'q, 'k, 'c, 'x) run_env \<Rightarrow> Run \<Rightarrow> string \<Rightarrow> int \<Rightarrow> 'k run_error option" where
  "validateActiveRepositoryRotation env r secretUID tokenGeneration =
     (if \<not> rotationRecorded r then None
      else case repositoryRotation env r of
        None \<Rightarrow> Some (RText ''repository credential cleanup blocked: rotation record is malformed'')
      | Some rec \<Rightarrow>
          if \<not> (secretUID = rr_OldSecretUID rec \<and> wrap_i64 (tokenGeneration + 1) = rr_TargetGeneration rec)
             \<and> \<not> (secretUID \<noteq> rr_OldSecretUID rec \<and> tokenGeneration = rr_TargetGeneration rec)
          then Some (RText ''repository credential cleanup blocked: active Secret does not match rotation generation'')
          else None)"

definition withAnnotation :: "string \<Rightarrow> string \<Rightarrow> ObjectMeta \<Rightarrow> ObjectMeta" where
  "withAnnotation k v m = m\<lparr>om_Annotations := (k, v) # filter (\<lambda>(k', _). k' \<noteq> k) (om_Annotations m)\<rparr>"

definition withoutAnnotation :: "string \<Rightarrow> ObjectMeta \<Rightarrow> ObjectMeta" where
  "withoutAnnotation k m = m\<lparr>om_Annotations := filter (\<lambda>(k', _). k' \<noteq> k) (om_Annotations m)\<rparr>"

definition persistRepositoryRotation ::
  "('w, 'q, 'k, 'c, 'x) run_env \<Rightarrow> Lease \<Rightarrow> bool \<Rightarrow> ('w, 'q, 'k run_error + unit) ctl" where
  "persistRepositoryRotation env lease wake =
     (if le_SecretUID lease = [] then throwError (RText ''repository credential Secret has no UID'')
      else do {
        r \<leftarrow> theRun;
        let value = re_RotationEncode env \<lparr>rr_OldSecretUID = le_SecretUID lease,
              rr_TargetGeneration = wrap_i64 (le_TokenGeneration lease + 1), rr_Wake = wake\<rparr>;
        setRun (r\<lparr>rn_Meta := withAnnotation repositoryRefreshAnnotation value (rn_Meta r)\<rparr>);
        runUpdate env
      })"

definition forgetRotation :: "('w, 'q, 'k, 'c, 'x) run_env \<Rightarrow> ('w, 'q, 'k run_error + unit) ctl" where
  "forgetRotation env = do {
     r \<leftarrow> theRun;
     setRun (r\<lparr>rn_Meta := withoutAnnotation repositoryRefreshAnnotation (rn_Meta r)\<rparr>);
     runUpdate env
   }"

text \<open>\<open>Inl\<close> for an invalid record, \<open>Inr None\<close> for none.\<close>

definition parseRepositoryProvisioningRecord ::
  "('w, 'q, 'k, 'c, 'x) run_env \<Rightarrow> string \<Rightarrow> 'k run_error + repositoryProvisioningRecord option" where
  "parseRepositoryProvisioningRecord env value =
     (if value = [] then Inr None
      else case re_ProvisioningDecode env value of
        None \<Rightarrow> Inl (RText ''invalid repository provisioning record'')
      | Some rec \<Rightarrow>
          if pn_SecretUID rec = [] \<or> pn_ExecutionGeneration rec < 1
          then Inl (RText ''invalid repository provisioning record'')
          else Inr (Some rec))"

definition repositoryProvisioning ::
  "('w, 'q, 'k, 'c, 'x) run_env \<Rightarrow> 'q Environment \<Rightarrow> 'k run_error + repositoryProvisioningRecord option" where
  "repositoryProvisioning env e =
     parseRepositoryProvisioningRecord env (meta_annotation (en_Meta e) repositoryProvisioningAnnotation)"

section \<open>The repository of a Run\<close>

definition isRepositoryInvalid :: "'k run_error \<Rightarrow> bool" where
  "isRepositoryInvalid e = (case rootError e of RRepositoryInvalid _ \<Rightarrow> True | _ \<Rightarrow> False)"

definition isRepositoryPending :: "'k run_error \<Rightarrow> bool" where
  "isRepositoryPending e = (case rootError e of RRepositoryPending \<Rightarrow> True | _ \<Rightarrow> False)"

text \<open>The verified Project of the frozen provisioning snapshot.\<close>

definition frozenProject ::
  "('w, 'q, 'k, 'c, 'x) run_env \<Rightarrow> 'q Environment \<Rightarrow> EnvironmentProvisioningProject option" where
  "frozenProject env e =
     (case st_Provisioning (en_Status e) of
        None \<Rightarrow> None
      | Some p \<Rightarrow>
          (case ps_Project p of
             None \<Rightarrow> None
           | Some project \<Rightarrow>
               if ValidateEnvironmentProvisioningSnapshot (re_Quantities env) e (Some p) \<noteq> None \<or> \<not> ps_ProjectVerified p
               then None else Some project))"

definition repositoryForRun ::
  "('w, 'q, 'k, 'c, 'x) run_env \<Rightarrow> Run \<Rightarrow> ('w, 'q, 'k run_error + string) ctl" where
  "repositoryForRun env r =
     (if rst_EnvironmentRef (rn_Status r) = None
      then throwError (RRepositoryInvalid ''run has no frozen environment association'')
      else ifErr (freshAllocation env r)
        (\<lambda>e. if isAllocatedGone e then throwError (RRepositoryInvalid ''environment association is malformed'')
             else throwError e)
        (\<lambda>e. if deleting (en_Meta e) then throwError (RRepositoryInvalid ''environment is deleting'')
             else case frozenProject env e of
               None \<Rightarrow> throwError RRepositoryPending
             | Some ref \<Rightarrow>
                 bindE (kread (re_ProjectNow env (run_Namespace r, pp_Name ref))) (\<lambda>project.
                   if om_UID (pj_Meta project) \<noteq> pp_UID ref \<or> deleting (pj_Meta project)
                   then throwError (RRepositoryInvalid ''environment project association was replaced'')
                   else returnOk (pp_Repository ref))))"

definition frozenRepositoryForRun ::
  "('w, 'q, 'k, 'c, 'x) run_env \<Rightarrow> Run \<Rightarrow> ('w, 'q, 'k run_error + string \<times> EnvironmentProvisioningProject) ctl" where
  "frozenRepositoryForRun env r =
     (case rst_EnvironmentRef (rn_Status r) of
        None \<Rightarrow> throwError (RRepositoryInvalid ''run has no frozen environment association'')
      | Some ref \<Rightarrow>
          bindE (freshEnvironment env (run_Namespace r, rer_Name ref)) (\<lambda>e.
            if env_UID e \<noteq> rer_UID ref \<or> deleting (en_Meta e)
            then throwError (RRepositoryInvalid ''environment repository association is malformed'')
            else case frozenProject env e of
              None \<Rightarrow> throwError RRepositoryPending
            | Some p \<Rightarrow> returnOk (pp_Repository p, p)))"

definition getExactEnvironment ::
  "('w, 'q, 'k, 'c, 'x) run_env \<Rightarrow> Run \<Rightarrow> ('w, 'q, 'k run_error + 'q Environment) ctl" where
  "getExactEnvironment env r =
     (case rst_EnvironmentRef (rn_Status r) of
        None \<Rightarrow> throwError (RText ''run has no allocated environment'')
      | Some ref \<Rightarrow>
          bindE (freshEnvironment env (run_Namespace r, rer_Name ref)) (\<lambda>e.
            if env_UID e \<noteq> rer_UID ref then throwError (RAllocatedGone [] []) else returnOk e))"

definition repositoryCanonicalizer ::
  "('w, 'q, 'k, 'c, 'x) run_env \<Rightarrow> (string \<Rightarrow> ProviderError option + string) option" where
  "repositoryCanonicalizer env =
     (case re_RepositoryCanonicalizer env of
        Some c \<Rightarrow> Some c
      | None \<Rightarrow> map_option pv_CanonicalRepository (re_RepositoryCredentials env))"

section \<open>Reading and writing the Secrets\<close>

abbreviation "leaseKey r \<equiv> (run_Namespace r, SecretName (run_UID r))"
abbreviation "pendingKey r \<equiv> (run_Namespace r, PendingRevocationSecretName (run_UID r))"

definition readRepositoryLease ::
  "('w, 'q, 'k, 'c, 'x) run_env \<Rightarrow> Run \<Rightarrow> ('w, 'q, 'k run_error + Lease) ctl" where
  "readRepositoryLease env r =
     bindE (kread (re_SecretMetaNow env (leaseKey r))) (\<lambda>metadata.
     bindE (kread (re_SecretNow env (leaseKey r))) (\<lambda>secret.
       if om_UID (se_Meta secret) \<noteq> om_UID metadata
          \<or> om_ResourceVersion (se_Meta secret) \<noteq> om_ResourceVersion metadata
       then throwError (RSecret ChangedDuringValidation)
       else case Parse (re_ParseTime env) secret (run_Name r) (run_UID r) of
         Inl e \<Rightarrow> throwError (RSecret e)
       | Inr lease \<Rightarrow> returnOk lease))"

definition readPendingRepositoryRevocation ::
  "('w, 'q, 'k, 'c, 'x) run_env \<Rightarrow> Run \<Rightarrow> ('w, 'q, 'k run_error + PendingRevocation) ctl" where
  "readPendingRepositoryRevocation env r =
     bindE (kread (re_SecretNow env (pendingKey r))) (\<lambda>secret.
       case ParsePendingRevocation (re_ParseTime env) secret (run_Name r) (run_UID r) of
         Inl e \<Rightarrow> throwError (RSecret e)
       | Inr pending \<Rightarrow> returnOk pending)"

definition createSecret ::
  "('w, 'q, 'k, 'c, 'x) run_env \<Rightarrow> Secret \<Rightarrow> ('w, 'q, 'k run_error + unit) ctl" where
  "createSecret env secret =
     mapErr RKube (optionError (ask (re_SecretCreate env secret) (\<lambda>x. [EvSecretCreate secret (x = None)])))"

definition updateSecret ::
  "('w, 'q, 'k, 'c, 'x) run_env \<Rightarrow> Secret \<Rightarrow> ('w, 'q, 'k run_error + unit) ctl" where
  "updateSecret env secret =
     mapErr RKube (optionError (ask (re_SecretUpdate env secret) (\<lambda>x. [EvSecretUpdate secret (x = None)])))"

text \<open>A delete with preconditions; a Secret that is gone counts as deleted.\<close>

definition deleteSecret ::
  "('w, 'q, 'k, 'c, 'x) run_env \<Rightarrow> NamespacedName \<Rightarrow> string \<Rightarrow> string \<Rightarrow> ('w, 'q, 'k run_error + unit) ctl" where
  "deleteSecret env key uid rv =
     ifErr (mapErr RKube (optionError (ask (re_SecretDelete env key uid rv) (\<lambda>x. [EvSecretDelete key uid rv (x = None)]))))
       (\<lambda>e. if isNotFoundError (re_NotFound env) e then returnOk () else throwError e) returnOk"

text \<open>A lost delete response is safe only if the exact name is absent.\<close>

definition deleteConfirmed ::
  "('w, 'q, 'k, 'c, 'x) run_env \<Rightarrow> NamespacedName \<Rightarrow> string \<Rightarrow> string \<Rightarrow> ('w, 'q, 'k run_error + unit) ctl" where
  "deleteConfirmed env key uid rv =
     ifErr (deleteSecret env key uid rv)
       (\<lambda>e. ifErr (kread (re_SecretNow env key))
              (\<lambda>x. if isNotFoundError (re_NotFound env) x then returnOk () else throwError e)
              (\<lambda>_. throwError e))
       returnOk"

section \<open>The write-ahead record of a revocation\<close>

definition sameCredential :: "Credential \<Rightarrow> Credential \<Rightarrow> bool" where
  "sameCredential a b \<longleftrightarrow>
     cr_Repository a = cr_Repository b \<and> cr_InstallationID a = cr_InstallationID b
     \<and> cr_ExpiresAt a = cr_ExpiresAt b \<and> cr_Token a = cr_Token b"

definition samePendingLease :: "PendingRevocation \<Rightarrow> PendingRevocation \<Rightarrow> bool" where
  "samePendingLease a b \<longleftrightarrow>
     pv_SecretUID a = pv_SecretUID b \<and> pv_RunName a = pv_RunName b \<and> pv_RunUID a = pv_RunUID b
     \<and> pv_Provider a = pv_Provider b \<and> pv_SourceRepository a = pv_SourceRepository b
     \<and> sameCredential (Credential.truncate a) (Credential.truncate b)
     \<and> pv_TokenGeneration a = pv_TokenGeneration b \<and> pv_Disposition a = pv_Disposition b"

definition persistPendingRepositoryRevocation ::
  "('w, 'q, 'k, 'c, 'x) run_env \<Rightarrow> string \<Rightarrow> Credential \<Rightarrow> int \<Rightarrow> string \<Rightarrow> ('w, 'q, 'k run_error + unit) ctl" where
  "persistPendingRepositoryRevocation env source credential generation disposition = do {
     r \<leftarrow> theRun;
     let provider = rs_RepositoryCredential (rn_Spec r);
     case NewPendingRevocationSecret (re_FormatTime env) (run_Namespace r) (run_Name r) (run_UID r) provider source
            (Some credential) generation disposition of
       Inl e \<Rightarrow> throwError (RSecret e)
     | Inr secret \<Rightarrow>
         ifErr (createSecret env secret)
           (\<lambda>e. ifErr (readPendingRepositoryRevocation env r) (\<lambda>_. throwError e)
             (\<lambda>p. if pv_Provider p = provider \<and> pv_SourceRepository p = source
                     \<and> sameCredential (Credential.truncate p) credential \<and> pv_TokenGeneration p = generation
                     \<and> pv_State p = RevocationStatePending \<and> pv_Disposition p = disposition \<and> \<not> pv_Legacy p
                  then returnOk () else throwError e))
           returnOk
   }"

definition validatePendingRepositoryIdentity ::
  "('w, 'q, 'k, 'c, 'x) run_env \<Rightarrow> Run \<Rightarrow> PendingRevocation \<Rightarrow> ('w, 'q, string + unit) ctl" where
  "validatePendingRepositoryIdentity env r pending =
     (if pv_Provider pending \<noteq> rs_RepositoryCredential (rn_Spec r)
      then throwError ''pending repository credential cleanup blocked: provider identity does not match''
      else ifErr (frozenRepositoryForRun env r)
        (\<lambda>_. throwError ''pending repository credential cleanup blocked: frozen provisioning source cannot be proven'')
        (\<lambda>(source, _).
          if source \<noteq> pv_SourceRepository pending
          then throwError ''pending repository credential cleanup blocked: frozen provisioning source cannot be proven''
          else case repositoryCanonicalizer env of
            None \<Rightarrow> throwError ''pending repository credential cleanup blocked: canonical repository identity cannot be proven''
          | Some canonicalize \<Rightarrow>
              if canonicalize source \<noteq> Inr (cr_Repository pending)
              then throwError ''pending repository credential cleanup blocked: canonical repository identity does not match''
              else case (if rotationRecorded r then map_option rr_TargetGeneration (repositoryRotation env r) else Some 1) of
                None \<Rightarrow> throwError ''pending repository credential cleanup blocked: issuance generation cannot be proven''
              | Some expected \<Rightarrow>
                  if pv_TokenGeneration pending \<noteq> expected
                  then throwError ''pending repository credential cleanup blocked: issuance generation does not match''
                  else returnOk ()))"

definition validateActiveRepositoryIdentity ::
  "('w, 'q, 'k, 'c, 'x) run_env \<Rightarrow> Run \<Rightarrow> Lease \<Rightarrow> ('w, 'q, 'k run_error + unit) ctl" where
  "validateActiveRepositoryIdentity env r lease =
     (if le_Provider lease \<noteq> rs_RepositoryCredential (rn_Spec r)
      then throwError (RText ''repository credential cleanup blocked: provider identity does not match'')
      else ifErr (frozenRepositoryForRun env r)
        (\<lambda>_. throwError (RText ''repository credential cleanup blocked: frozen provisioning source cannot be proven''))
        (\<lambda>(source, _).
          if source \<noteq> le_SourceRepository lease
          then throwError (RText ''repository credential cleanup blocked: frozen provisioning source cannot be proven'')
          else case repositoryCanonicalizer env of
            None \<Rightarrow> throwError (RText ''repository credential cleanup blocked: canonical repository identity cannot be proven'')
          | Some canonicalize \<Rightarrow>
              if canonicalize source \<noteq> Inr (cr_Repository lease)
              then throwError (RText ''repository credential cleanup blocked: canonical repository identity does not match'')
              else returnOk ()))"

definition repositoryCredentialDispositionDurable ::
  "('w, 'q, 'k, 'c, 'x) run_env \<Rightarrow> Run \<Rightarrow> string \<Rightarrow> bool" where
  "repositoryCredentialDispositionDurable env r disposition =
     (case re_Find env (run_Conditions r) ''RepositoryCredentialReady'' of
        None \<Rightarrow> False
      | Some c \<Rightarrow>
          run_State r = RunStateFailed \<and> rst_ObservedGeneration (rn_Status r) = run_Generation r
          \<and> cd_Status c = ConditionFalse \<and> cd_Reason c = disposition \<and> cd_ObservedGeneration c = run_Generation r)"

definition failRepositoryCredential ::
  "('w, 'q, 'k, 'c, 'x) run_env \<Rightarrow> string \<Rightarrow> ('w, 'q, 'k run_error + unit) ctl" where
  "failRepositoryCredential env reason = do {
     setCondition env ''RepositoryCredentialReady'' ConditionFalse reason ''repository credential is unavailable'';
     setRunState env RunStateFailed reason ''repository credential is unavailable'' False
   }"

definition blockPendingRepositoryCleanup ::
  "('w, 'q, 'k, 'c, 'x) run_env \<Rightarrow> string \<Rightarrow> ('w, 'q, 'k run_error outcome) ctl" where
  "blockPendingRepositoryCleanup env message = do {
     r \<leftarrow> theRun;
     if repositoryCredentialDispositionDurable env r DispositionProviderInvalidToken
     then ret (requeueAfter DefaultRetryDelay, None)
     else orFail (setRepositoryCredentialCondition env ConditionFalse ''ForeignPendingSecret'' message)
       (\<lambda>_. ret (requeueAfter DefaultRetryDelay, None))
   }"

definition completePendingRepositoryRevocation ::
  "('w, 'q, 'k, 'c, 'x) run_env \<Rightarrow> PendingRevocation \<Rightarrow> ('w, 'q, 'k run_error + unit) ctl" where
  "completePendingRepositoryRevocation env pending = do {
     r \<leftarrow> theRun;
     bindE (kread (re_SecretNow env (pendingKey r))) (\<lambda>secret.
       case ParsePendingRevocation (re_ParseTime env) secret (run_Name r) (run_UID r) of
         Inl e \<Rightarrow> throwError (RSecret e)
       | Inr current \<Rightarrow>
           if pv_ResourceVersion current \<noteq> pv_ResourceVersion pending \<or> \<not> samePendingLease current pending
              \<or> pv_State current \<noteq> RevocationStatePending \<or> pv_Legacy current
           then throwError (RText ''pending repository credential changed before completion'')
           else
             (let m = withAnnotation AnnotationRevocationState RevocationStateComplete (se_Meta secret);
                  m' = (if map_of (om_Annotations m) AnnotationRevocationDisposition = None
                        then withAnnotation AnnotationRevocationDisposition [] m else m)
              in ifErr (updateSecret env (secret\<lparr>se_Meta := m'\<rparr>))
                   (\<lambda>e. ifErr (readPendingRepositoryRevocation env r) (\<lambda>_. throwError e)
                     (\<lambda>completed.
                        if pv_State completed = RevocationStateComplete
                           \<and> pv_Disposition completed = pv_Disposition pending \<and> samePendingLease completed pending
                        then returnOk () else throwError e))
                   returnOk))
   }"

text \<open>\<open>Revoke\<close>, where a failure counts only while the token is unexpired.\<close>

definition revokeUnexpired ::
  "('w, 'q, 'k, 'c, 'x) run_env \<Rightarrow> ('w, 'k) Provider \<Rightarrow> Credential \<Rightarrow> ('w, 'q, ProviderError option option) ctl" where
  "revokeUnexpired env provider credential = do {
     x \<leftarrow> ask (pv_Revoke provider credential) (\<lambda>x. [EvRevoke credential (x = None)]);
     case x of
       None \<Rightarrow> ret None
     | Some e \<Rightarrow> do { t \<leftarrow> now env; ret (if t < cr_ExpiresAt credential then Some e else None) }
   }"

definition migrateLegacyPending ::
  "('w, 'q, 'k, 'c, 'x) run_env \<Rightarrow> PendingRevocation \<Rightarrow> ('w, 'q, 'k run_error outcome) ctl" where
  "migrateLegacyPending env pending = do {
     r \<leftarrow> theRun;
     ifErr (kread (re_SecretNow env (pendingKey r)))
       (\<lambda>_. blockPendingRepositoryCleanup env ''legacy pending repository credential changed before migration'')
       (\<lambda>secret.
         if om_UID (se_Meta secret) \<noteq> pv_SecretUID pending
            \<or> om_ResourceVersion (se_Meta secret) \<noteq> pv_ResourceVersion pending
         then blockPendingRepositoryCleanup env ''legacy pending repository credential changed before migration''
         else orFail (updateSecret env (secret\<lparr>se_Meta :=
                withAnnotation AnnotationRevocationDisposition []
                  (withAnnotation AnnotationRevocationState RevocationStatePending (se_Meta secret))\<rparr>))
           (\<lambda>_. ret (requeueNow, None)))
   }"

text \<open>The Run must show the failure durably before the record of an invalid token may go.\<close>

definition dispositionShown ::
  "('w, 'q, 'k, 'c, 'x) run_env \<Rightarrow> PendingRevocation \<Rightarrow> ('w, 'q, 'k run_error outcome + unit) ctl" where
  "dispositionShown env pending = do {
     r \<leftarrow> theRun;
     if pv_Disposition pending \<noteq> DispositionProviderInvalidToken then returnOk ()
     else if \<not> repositoryCredentialDispositionDurable env r (pv_Disposition pending)
     then returns (finish requeueNow (failRepositoryCredential env DispositionProviderInvalidToken))
     else ifErr (kread (re_RunNow env (run_Namespace r, run_Name r)))
       (\<lambda>e. throwError (noResult, Some e))
       (\<lambda>durable.
         if run_UID durable \<noteq> run_UID r \<or> \<not> repositoryCredentialDispositionDurable env durable (pv_Disposition pending)
         then throwError (requeueNow, None) else returnOk ())
   }"

definition removeCompletedPending ::
  "('w, 'q, 'k, 'c, 'x) run_env \<Rightarrow> PendingRevocation \<Rightarrow> ('w, 'q, 'k run_error outcome) ctl" where
  "removeCompletedPending env pending = do {
     r \<leftarrow> theRun;
     ifErr (readRepositoryLease env r)
       (\<lambda>e. if \<not> isNotFoundError (re_NotFound env) e
            then blockPendingRepositoryCleanup env ''pending repository credential cleanup blocked: active Secret is foreign or malformed''
            else orFail (deleteConfirmed env (pendingKey r) (pv_SecretUID pending) (pv_ResourceVersion pending))
              (\<lambda>_. ret (requeueNow, None)))
       (\<lambda>active.
         if \<not> (le_Provider active = pv_Provider pending \<and> le_SourceRepository active = pv_SourceRepository pending
               \<and> sameCredential (Credential.truncate active) (Credential.truncate pending)
               \<and> le_TokenGeneration active = pv_TokenGeneration pending)
            \<or> le_SecretUID active = [] \<or> le_ResourceVersion active = []
         then blockPendingRepositoryCleanup env ''pending repository credential cleanup blocked: active Secret does not match completed revocation''
         else orFail (deleteConfirmed env (leaseKey r) (le_SecretUID active) (le_ResourceVersion active))
           (\<lambda>_. ret (requeueNow, None)))
   }"

definition revokePending ::
  "('w, 'q, 'k, 'c, 'x) run_env \<Rightarrow> PendingRevocation \<Rightarrow> ('w, 'q, 'k run_error outcome) ctl" where
  "revokePending env pending =
     (let complete = orFail (completePendingRepositoryRevocation env pending) (\<lambda>_. ret (requeueNow, None)) in
      case re_RepositoryCredentials env of
        None \<Rightarrow> do {
          t \<leftarrow> now env;
          if t < cr_ExpiresAt pending
          then finish (requeueAfter (min DefaultRetryDelay (cr_ExpiresAt pending - t)))
                 (setRepositoryCredentialCondition env ConditionFalse ''RevocationPending'' ''repository credential revocation is pending'')
          else complete
        }
      | Some provider \<Rightarrow> do {
          x \<leftarrow> revokeUnexpired env provider (Credential.truncate pending);
          case x of
            Some e \<Rightarrow>
              orFail (setRepositoryCredentialCondition env ConditionFalse ''RevocationPending'' ''repository credential revocation is pending'')
                (\<lambda>_. ret (requeueAfter (RetryDelay e), None))
          | None \<Rightarrow> complete
        })"

text \<open>\<open>Inr ()\<close> when nothing is pending; otherwise the result to return.\<close>

definition cleanupPendingRepositoryRevocation ::
  "('w, 'q, 'k, 'c, 'x) run_env \<Rightarrow> ('w, 'q, 'k run_error outcome + unit) ctl" where
  "cleanupPendingRepositoryRevocation env = do {
     r \<leftarrow> theRun;
     ifErr (readPendingRepositoryRevocation env r)
       (\<lambda>e. if isNotFoundError (re_NotFound env) e then returnOk ()
            else returns (blockPendingRepositoryCleanup env ''pending repository credential cleanup blocked: Secret is foreign or malformed''))
       (\<lambda>pending.
         ifErr (validatePendingRepositoryIdentity env r pending)
           (\<lambda>message. returns (blockPendingRepositoryCleanup env message))
           (\<lambda>_. if pv_SecretUID pending = [] \<or> pv_ResourceVersion pending = []
                then returns (blockPendingRepositoryCleanup env ''pending repository credential cleanup blocked: exact Secret identity cannot be proven'')
                else if pv_Legacy pending then returns (migrateLegacyPending env pending)
                else if pv_State pending = RevocationStateComplete
                then bindE (dispositionShown env pending) (\<lambda>_. returns (removeCompletedPending env pending))
                else returns (revokePending env pending)))
   }"

end
