(* ===== verification/Run_Lease.thy ===== *)
theory Run_Lease
  imports Run_Repository
begin

text \<open>
  The life of a repository lease (\<open>run_controller.go\<close>): \<open>ensureRepositoryCredential\<close> before an
  execution, \<open>repositoryLaunchMaterial\<close> for the adapter, \<open>cleanupRepositoryCredential\<close> at the end.
  \<open>ensureRepositoryCredential\<close> goes on with the delay after which the lease is to be refreshed.
\<close>

section \<open>Rotation\<close>

definition secretChanged ::
  "('w, 'q, 'k, 'c, 'x) run_env \<Rightarrow> ('w, 'q, 'k run_error outcome + 'a) ctl" where
  "secretChanged env = returns (finish noResult (failRepositoryCredential env ''SecretChanged''))"

definition forgetAndRequeue ::
  "('w, 'q, 'k, 'c, 'x) run_env \<Rightarrow> ('w, 'q, 'k run_error outcome) ctl" where
  "forgetAndRequeue env = orFail (forgetRotation env) (\<lambda>_. ret (requeueNow, None))"

definition wakePublished :: "'q Environment \<Rightarrow> string \<Rightarrow> bool" where
  "wakePublished e requestID \<longleftrightarrow>
     (case lsp_Wake (env_Lifecycle e) of None \<Rightarrow> False | Some wake \<Rightarrow> lr_ID wake = requestID)
     \<or> lst_LastWakeRequestID (env_LStatus e) = requestID"

text \<open>The replacement Secret exists: wake the execution that was fenced for it, then forget the record.\<close>

definition rotationReplaced ::
  "('w, 'q, 'k, 'c, 'x) run_env \<Rightarrow> Lease \<Rightarrow> repositoryRotationRecord
     \<Rightarrow> ('w, 'q, 'k run_error outcome + int) ctl" where
  "rotationReplaced env lease rotation =
     (if le_TokenGeneration lease \<noteq> rr_TargetGeneration rotation then secretChanged env
      else if rr_Wake rotation then do {
        r \<leftarrow> theRun;
        ifErr (getExactEnvironment env r) (\<lambda>x. throwError (noResult, Some x)) (\<lambda>e.
          let requestID = ''run/'' @ run_UID r @ ''/repository-refresh/'' @ le_SecretUID lease in
          if wakePublished e requestID then returns (forgetAndRequeue env)
          else if explicitHoldEnabled e
          then proceed 0 (setRepositoryCredentialCondition env ConditionTrue ''Ready''
                 ''fresh repository credential is ready while environment is held'')
          else if \<not> environmentFenced e then returns (requestEnvironmentFence env e)
          else ifErr (requestWake env e requestID EnvironmentSuspensionReasonRequested)
                 (\<lambda>x. throwError (noResult, Some x)) (\<lambda>_. returns (forgetAndRequeue env)))
      }
      else returns (forgetAndRequeue env))"

definition revokeRotated ::
  "('w, 'q, 'k, 'c, 'x) run_env \<Rightarrow> ('w, 'k) Provider \<Rightarrow> Lease \<Rightarrow> ('w, 'q, 'k run_error outcome) ctl" where
  "revokeRotated env provider lease = do {
     r \<leftarrow> theRun;
     x \<leftarrow> revokeUnexpired env provider (Credential.truncate lease);
     case x of
       Some e \<Rightarrow> ret (requeueAfter (RetryDelay e), None)
     | None \<Rightarrow>
         if le_SecretUID lease = [] \<or> le_ResourceVersion lease = []
         then ret (noResult, Some (RText ''repository credential rotation exact Secret identity unavailable''))
         else orFail (kread (re_SecretNow env (leaseKey r))) (\<lambda>current.
           if om_UID (se_Meta current) \<noteq> le_SecretUID lease
              \<or> om_ResourceVersion (se_Meta current) \<noteq> le_ResourceVersion lease
           then ret (noResult, Some (RText ''repository credential secret changed during rotation''))
           else orFail (deleteSecret env (leaseKey r) (le_SecretUID lease) (le_ResourceVersion lease)) (\<lambda>_.
             finish requeueNow (setRepositoryCredentialCondition env ConditionFalse ''Issuing''
               ''repository credential lease is being issued'')))
   }"

definition conditionReason :: "('w, 'q, 'k, 'c, 'x) run_env \<Rightarrow> Run \<Rightarrow> string \<Rightarrow> string option" where
  "conditionReason env r t = map_option cd_Reason (re_Find env (run_Conditions r) t)"

text \<open>The old Secret is still there: the execution that holds it is fenced before it is revoked.\<close>

definition rotationOld ::
  "('w, 'q, 'k, 'c, 'x) run_env \<Rightarrow> ('w, 'k) Provider \<Rightarrow> Lease \<Rightarrow> repositoryRotationRecord
     \<Rightarrow> ('w, 'q, 'k run_error outcome + int) ctl" where
  "rotationOld env provider lease rotation =
     (if wrap_i64 (le_TokenGeneration lease + 1) \<noteq> rr_TargetGeneration rotation then secretChanged env
      else if rr_Wake rotation then do {
        r \<leftarrow> theRun;
        if conditionReason env r ''RepositoryCredentialReady'' \<noteq> Some ''Refreshing''
        then returns (finish requeueNow (setRepositoryCredentialCondition env ConditionFalse ''Refreshing''
               ''repository credential refresh is fencing the current execution''))
        else ifErr (getExactEnvironment env r) (\<lambda>x. throwError (noResult, Some x)) (\<lambda>e.
          if \<not> environmentFenced e then returns (requestEnvironmentFence env e)
          else returns (revokeRotated env provider lease))
      }
      else returns (revokeRotated env provider lease))"

section \<open>An active lease\<close>

definition provisioningCurrent ::
  "repositoryProvisioningRecord option \<Rightarrow> Lease \<Rightarrow> 'q Environment \<Rightarrow> bool" where
  "provisioningCurrent provisioning lease e =
     (case provisioning of
        None \<Rightarrow> False
      | Some p \<Rightarrow> pn_SecretUID p = le_SecretUID lease \<and> pn_ExecutionGeneration p = le_ExecutionGeneration lease
          \<and> le_EnvironmentUID lease = env_UID e)"

text \<open>A bound lease whose execution has no Pod is rotated before the Environment resumes.\<close>

definition rotateUnlessPod ::
  "('w, 'q, 'k, 'c, 'x) run_env \<Rightarrow> Lease \<Rightarrow> 'q Environment \<Rightarrow> ('w, 'q, 'k run_error outcome + unit) ctl" where
  "rotateUnlessPod env lease e =
     ifErr (kread (re_PodNow env (om_Namespace (en_Meta e), envPodName (re_Sha env) e)))
       (\<lambda>podErr.
         if isNotFoundError (re_NotFound env) podErr then
           (case repositoryProvisioning env e of
              Inl x \<Rightarrow> throwError (noResult, Some x)
            | Inr provisioning \<Rightarrow>
                if \<not> provisioningCurrent provisioning lease e
                then returns (orFail (persistRepositoryRotation env lease False) (\<lambda>_. ret (requeueNow, None)))
                else returnOk ())
         else throwError (noResult, Some podErr))
       (\<lambda>_. returnOk ())"

definition checkBoundLease ::
  "('w, 'q, 'k, 'c, 'x) run_env \<Rightarrow> Lease \<Rightarrow> ('w, 'q, 'k run_error outcome + unit) ctl" where
  "checkBoundLease env lease = do {
     r \<leftarrow> theRun;
     case rst_EnvironmentRef (rn_Status r) of
       None \<Rightarrow> returnOk ()
     | Some ref \<Rightarrow>
         if le_EnvironmentUID lease = [] then returnOk ()
         else ifErr (freshEnvironment env (run_Namespace r, rer_Name ref))
           (\<lambda>x. if \<not> isNotFoundError (re_NotFound env) x then throwError (noResult, Some x) else returnOk ())
           (\<lambda>e. if env_UID e = rer_UID ref then rotateUnlessPod env lease e else returnOk ())
   }"

definition keepLease ::
  "('w, 'q, 'k, 'c, 'x) run_env \<Rightarrow> Lease \<Rightarrow> ('w, 'q, 'k run_error outcome + int) ctl" where
  "keepLease env lease =
     bindE (checkBoundLease env lease) (\<lambda>_. do {
       r \<leftarrow> theRun;
       t \<leftarrow> now env;
       if cr_ExpiresAt lease - t \<le> RefreshMargin \<and> rst_EnvironmentRef (rn_Status r) \<noteq> None
       then returns (orFail (persistRepositoryRotation env lease True) (\<lambda>_. ret (requeueNow, None)))
       else do {
         t' \<leftarrow> now env;
         proceed (max 0 (cr_ExpiresAt lease - RefreshMargin - t'))
           (setRepositoryCredentialCondition env ConditionTrue ''Ready'' ''repository credential lease is ready'')
       }
     })"

definition ensureLease ::
  "('w, 'q, 'k, 'c, 'x) run_env \<Rightarrow> ('w, 'k) Provider \<Rightarrow> string \<Rightarrow> string \<Rightarrow> repositoryRotationRecord option \<Rightarrow> Lease
     \<Rightarrow> ('w, 'q, 'k run_error outcome + int) ctl" where
  "ensureLease env provider repository canonical rotation lease = do {
     r \<leftarrow> theRun;
     if le_Provider lease \<noteq> rs_RepositoryCredential (rn_Spec r) \<or> le_SourceRepository lease \<noteq> repository
        \<or> cr_Repository lease \<noteq> canonical
     then secretChanged env
     else case rotation of
       None \<Rightarrow> keepLease env lease
     | Some rec \<Rightarrow>
         if le_SecretUID lease \<noteq> rr_OldSecretUID rec then rotationReplaced env lease rec
         else rotationOld env provider lease rec
   }"

section \<open>Issuing\<close>

fun containsText :: "string \<Rightarrow> string \<Rightarrow> bool" where
  "containsText [] t = (t = [])"
| "containsText (c # cs) t = (take (length t) (c # cs) = t \<or> containsText cs t)"

definition unreadableReason :: "('w, 'q, 'k, 'c, 'x) run_env \<Rightarrow> 'k run_error \<Rightarrow> string" where
  "unreadableReason env e =
     (if containsText (re_ErrText env e) ''foreign repository credential secret'' then ''ForeignSecret''
      else if containsText (re_ErrText env e) ''changed during validation'' then ''SecretChanged''
      else ''MalformedSecret'')"

text \<open>A handle that cannot be made durable is revoked at once, as well as may be.\<close>

definition persistOrRevoke ::
  "('w, 'q, 'k, 'c, 'x) run_env \<Rightarrow> ('w, 'k) Provider \<Rightarrow> string \<Rightarrow> Credential \<Rightarrow> int \<Rightarrow> string
     \<Rightarrow> ('w, 'q, 'k run_error outcome) ctl" where
  "persistOrRevoke env provider repository credential generation disposition =
     ifErr (persistPendingRepositoryRevocation env repository credential generation disposition)
       (\<lambda>_. do {
          _ \<leftarrow> ask (pv_Revoke provider credential) (\<lambda>x. [EvRevoke credential (x = None)]);
          finish noResult (failRepositoryCredential env ''SecretPersistenceFailed'')
        })
       (\<lambda>_. ret (requeueNow, None))"

definition issueRejected ::
  "('w, 'q, 'k, 'c, 'x) run_env \<Rightarrow> ('w, 'k) Provider \<Rightarrow> string \<Rightarrow> int \<Rightarrow> Credential option \<Rightarrow> ProviderError option
     \<Rightarrow> ('w, 'q, 'k run_error outcome) ctl" where
  "issueRejected env provider repository generation credential issueErr =
     (let invalid = (Reason issueErr = DispositionProviderInvalidToken);
          reason = (if invalid then ''ProviderInvalidResponse'' else Reason issueErr);
          refuse = (if IsRetryable issueErr
                    then orFail (setRepositoryCredentialCondition env ConditionFalse reason
                           ''repository credential provider is temporarily unavailable'')
                           (\<lambda>_. ret (requeueAfter (RetryDelay issueErr), None))
                    else finish noResult (failRepositoryCredential env reason))
      in case credential of
           Some c \<Rightarrow>
             if invalid then persistOrRevoke env provider repository c generation DispositionProviderInvalidToken
             else refuse
         | None \<Rightarrow> refuse)"

definition storeIssued ::
  "('w, 'q, 'k, 'c, 'x) run_env \<Rightarrow> string \<Rightarrow> int \<Rightarrow> Credential option \<Rightarrow> ('w, 'q, 'k run_error + unit) ctl" where
  "storeIssued env repository generation credential = do {
     r \<leftarrow> theRun;
     t \<leftarrow> now env;
     let provider = rs_RepositoryCredential (rn_Spec r);
     case NewSecret (re_FormatTime env) (run_Namespace r) (run_Name r) (run_UID r) provider repository credential
            generation [] 0 t of
       Inl e \<Rightarrow> throwError (RSecret e)
     | Inr secret \<Rightarrow>
         ifErr (createSecret env secret)
           (\<lambda>e. ifErr (readRepositoryLease env r) (\<lambda>_. throwError e)
             (\<lambda>p. case credential of
                    None \<Rightarrow> throwError RPanic
                  | Some c \<Rightarrow>
                      if le_Provider p = provider \<and> le_SourceRepository p = repository
                         \<and> sameCredential (Credential.truncate p) c \<and> le_TokenGeneration p = generation
                      then returnOk () else throwError e))
           returnOk
   }"

definition issueLease ::
  "('w, 'q, 'k, 'c, 'x) run_env \<Rightarrow> ('w, 'k) Provider \<Rightarrow> string \<Rightarrow> string \<Rightarrow> repositoryRotationRecord option
     \<Rightarrow> ('w, 'q, 'k run_error outcome) ctl" where
  "issueLease env provider repository canonical rotation = do {
     let generation = (case rotation of None \<Rightarrow> 1 | Some rec \<Rightarrow> rr_TargetGeneration rec);
     (credential, issueErr) \<leftarrow> ask (pv_Issue provider canonical) (\<lambda>x. [EvIssue canonical (snd x = None)]);
     case issueErr of
       Some e \<Rightarrow> issueRejected env provider repository generation credential e
     | None \<Rightarrow>
         ifErr (storeIssued env repository generation credential)
           (\<lambda>createErr. case credential of
                Some c \<Rightarrow> persistOrRevoke env provider repository c generation []
              | None \<Rightarrow>
                  finish noResult (failRepositoryCredential env
                    (case createErr of
                       RKube k \<Rightarrow> if re_AlreadyExists env k then ''SecretChanged'' else ''SecretPersistenceFailed''
                     | _ \<Rightarrow> ''SecretPersistenceFailed'')))
           (\<lambda>_. ret (requeueNow, None))
   }"

definition ensureIssued ::
  "('w, 'q, 'k, 'c, 'x) run_env \<Rightarrow> ('w, 'k) Provider \<Rightarrow> string \<Rightarrow> string \<Rightarrow> repositoryRotationRecord option
     \<Rightarrow> ('w, 'q, 'k run_error outcome) ctl" where
  "ensureIssued env provider repository canonical rotation = do {
     r \<leftarrow> theRun;
     let reason = conditionReason env r ''RepositoryCredentialReady'';
     if reason \<noteq> Some ''Issuing'' \<and> reason \<noteq> Some ''Refreshing''
     then finish requeueNow (setRepositoryCredentialCondition env ConditionFalse ''Issuing''
            ''repository credential lease is being issued'')
     else issueLease env provider repository canonical rotation
   }"

definition ensureFromProvider ::
  "('w, 'q, 'k, 'c, 'x) run_env \<Rightarrow> ('w, 'k) Provider \<Rightarrow> string \<Rightarrow> ('w, 'q, 'k run_error outcome + int) ctl" where
  "ensureFromProvider env provider repository = do {
     r \<leftarrow> theRun;
     case pv_CanonicalRepository provider repository of
       Inl e \<Rightarrow> returns (finish noResult (failRepositoryCredential env (Reason e)))
     | Inr canonical \<Rightarrow>
         if rotationRecorded r \<and> repositoryRotation env r = None
         then returns (finish noResult (failRepositoryCredential env ''MalformedRotationRecord''))
         else (let rotation = (if rotationRecorded r then repositoryRotation env r else None) in
           ifErr (readRepositoryLease env r)
             (\<lambda>e. if \<not> isNotFoundError (re_NotFound env) e
                  then returns (finish noResult (failRepositoryCredential env (unreadableReason env e)))
                  else returns (ensureIssued env provider repository canonical rotation))
             (ensureLease env provider repository canonical rotation))
   }"

definition ensureRepositoryCredential ::
  "('w, 'q, 'k, 'c, 'x) run_env \<Rightarrow> ('w, 'q, 'k run_error outcome + int) ctl" where
  "ensureRepositoryCredential env = do {
     r \<leftarrow> theRun;
     if rs_RepositoryCredential (rn_Spec r) = []
     then proceed 0 (setRepositoryCredentialCondition env ConditionTrue ''NotRequested'' ''repository credential was not requested'')
     else if rs_RepositoryCredential (rn_Spec r) \<noteq> RepositoryCredentialGitHubApp
     then returns (finish noResult (failRepositoryCredential env ''RepositoryUnsupported''))
     else bindE (cleanupPendingRepositoryRevocation env) (\<lambda>_.
       case re_RepositoryCredentials env of
         None \<Rightarrow> returns (finish noResult (failRepositoryCredential env ''ProviderDisabled''))
       | Some provider \<Rightarrow> do {
           r' \<leftarrow> theRun;
           ifErr (repositoryForRun env r')
             (\<lambda>e. if isRepositoryPending e
                  then returns (finish (requeueAfter repositoryCredentialRequeueDelay)
                         (setRepositoryCredentialCondition env ConditionFalse ''Issuing''
                           ''repository credential is waiting for the frozen provisioning snapshot''))
                  else if isRepositoryInvalid e
                  then returns (finish noResult (failRepositoryCredential env ''RepositoryUnsupported''))
                  else throwError (noResult, Some e))
             (ensureFromProvider env provider)
         })
   }"

section \<open>Launch material\<close>

definition repositoryLaunchMaterial ::
  "('w, 'q, 'k, 'c, 'x) run_env \<Rightarrow> Run \<Rightarrow> 'q Environment \<Rightarrow> ('w, 'q, 'k run_error + (string \<times> string) list) ctl" where
  "repositoryLaunchMaterial env r e =
     (if rs_RepositoryCredential (rn_Spec r) = [] then returnOk []
      else bindE (readRepositoryLease env r) (\<lambda>lease. do {
        t \<leftarrow> now env;
        let mismatch = throwError (RText ''repository credential does not match frozen provisioning authority'');
        case st_Provisioning (en_Status e) of
          None \<Rightarrow> mismatch
        | Some p \<Rightarrow>
            (case ps_Project p of
               None \<Rightarrow> mismatch
             | Some project \<Rightarrow>
                 if \<not> t < cr_ExpiresAt lease \<or> le_SourceRepository lease \<noteq> pp_Repository project then mismatch
                 else case re_RepositoryCredentials env of
                   None \<Rightarrow> throwError RPanic
                 | Some provider \<Rightarrow>
                     if pv_CanonicalRepository provider (pp_Repository project) \<noteq> Inr (cr_Repository lease)
                     then throwError (RText ''repository credential canonical repository mismatch'')
                     else if le_EnvironmentUID lease = [] \<or> le_EnvironmentUID lease \<noteq> env_UID e
                        \<or> le_ExecutionGeneration lease \<noteq> st_ExecutionGeneration (en_Status e)
                     then throwError (RText ''repository credential is not bound to the exact environment execution'')
                     else returnOk [(''GH_TOKEN'', cr_Token lease), (''GIT_CONFIG_COUNT'', ''1''),
                       (''GIT_CONFIG_KEY_0'', ''http.https://github.com/.extraheader''),
                       (''GIT_CONFIG_VALUE_0'',
                         ''AUTHORIZATION: basic '' @ re_Base64 env (''x-access-token:'' @ cr_Token lease))])
      }))"

section \<open>Cleanup\<close>

text \<open>The end of the lease's life is recorded as well as may be.\<close>

definition recordRevoked :: "('w, 'q, 'k, 'c, 'x) run_env \<Rightarrow> ('w, 'q, unit) ctl" where
  "recordRevoked env = do {
     r \<leftarrow> theRun;
     if \<not> repositoryCredentialDispositionDurable env r DispositionProviderInvalidToken
     then do {
       _ \<leftarrow> setRepositoryCredentialCondition env ConditionTrue ''Revoked'' ''repository credential lifecycle is complete'';
       ret ()
     }
     else ret ()
   }"

definition completeCleanup ::
  "('w, 'q, 'k, 'c, 'x) run_env \<Rightarrow> ('w, 'q, 'k run_error outcome + unit) ctl" where
  "completeCleanup env = do {
     r \<leftarrow> theRun;
     ifErr (if rotationRecorded r then forgetRotation env else returnOk ())
       (\<lambda>e. throwError (noResult, Some e))
       (\<lambda>_. do { recordRevoked env; returnOk () })
   }"

definition failWith :: "'k run_error \<Rightarrow> ('w, 'q, 'k run_error outcome + 'a) ctl" where
  "failWith e = throwError (noResult, Some e)"

text \<open>An unreadable Secret goes once it is exactly the managed one and expired.\<close>

definition deleteExpired ::
  "('w, 'q, 'k, 'c, 'x) run_env \<Rightarrow> Run \<Rightarrow> 'k run_error \<Rightarrow> Secret \<Rightarrow> string \<Rightarrow> string
     \<Rightarrow> ('w, 'q, 'k run_error outcome + unit) ctl" where
  "deleteExpired env r err secret source canonical =
     (let a = om_Annotations (se_Meta secret); uid = om_UID (se_Meta secret); rv = om_ResourceVersion (se_Meta secret) in
      if \<not> ExactManagedIdentity secret (run_Name r) (run_UID r) (rs_RepositoryCredential (rn_Spec r)) source canonical
      then failWith (RText ''repository credential cleanup blocked by foreign Secret collision'')
      else case re_ParseTime env (annotation a AnnotationExpiry) of
        None \<Rightarrow> failWith err
      | Some expires \<Rightarrow> do {
          t \<leftarrow> now env;
          if t < expires then failWith err
          else if uid = [] \<or> rv = []
          then failWith (RText ''repository credential cleanup exact Secret identity unavailable'')
          else case parse_int (annotation a AnnotationTokenGeneration) of
            None \<Rightarrow> failWith (RText ''repository credential cleanup token generation unavailable'')
          | Some generation \<Rightarrow>
              if generation < 1 then failWith (RText ''repository credential cleanup token generation unavailable'')
              else case validateActiveRepositoryRotation env r uid generation of
                Some e \<Rightarrow> failWith e
              | None \<Rightarrow>
                  ifErr (deleteSecret env (om_Namespace (se_Meta secret), om_Name (se_Meta secret)) uid rv)
                    failWith (\<lambda>_. returnOk ())
        })"

definition cleanupUnreadable ::
  "('w, 'q, 'k, 'c, 'x) run_env \<Rightarrow> Run \<Rightarrow> 'k run_error \<Rightarrow> ('w, 'q, 'k run_error outcome + unit) ctl" where
  "cleanupUnreadable env r err =
     ifErr (kread (re_SecretNow env (leaseKey r))) failWith (\<lambda>secret.
     ifErr (frozenRepositoryForRun env r)
       (\<lambda>e. failWith (RWrap ''repository credential cleanup identity unavailable'' e))
       (\<lambda>(source, _).
         case repositoryCanonicalizer env of
           None \<Rightarrow> failWith (RText ''repository credential cleanup canonical identity unavailable'')
         | Some canonicalize \<Rightarrow>
             (case canonicalize source of
                Inl e \<Rightarrow> failWith (RWrap ''repository credential cleanup canonical identity unavailable'' (RProvider e))
              | Inr canonical \<Rightarrow> deleteExpired env r err secret source canonical)))"

text \<open>Revocation by the provider; without one, or when it fails, an unexpired lease waits.\<close>

definition revokeLease ::
  "('w, 'q, 'k, 'c, 'x) run_env \<Rightarrow> Lease \<Rightarrow> ('w, 'q, 'k run_error outcome + unit) ctl" where
  "revokeLease env lease =
     (let pending = (\<lambda>delay. do {
            _ \<leftarrow> setRepositoryCredentialCondition env ConditionFalse ''RevocationPending'' ''repository credential revocation is pending'';
            throwError (requeueAfter delay, None)
          })
      in case re_RepositoryCredentials env of
           None \<Rightarrow> do {
             t \<leftarrow> now env;
             if t < cr_ExpiresAt lease then pending DefaultRetryDelay else returnOk ()
           }
         | Some provider \<Rightarrow> do {
             x \<leftarrow> revokeUnexpired env provider (Credential.truncate lease);
             case x of Some e \<Rightarrow> pending (RetryDelay e) | None \<Rightarrow> returnOk ()
           })"

definition cleanupLease ::
  "('w, 'q, 'k, 'c, 'x) run_env \<Rightarrow> Run \<Rightarrow> Lease \<Rightarrow> ('w, 'q, 'k run_error outcome + unit) ctl" where
  "cleanupLease env r lease =
     ifErr (validateActiveRepositoryIdentity env r lease) failWith (\<lambda>_.
       if le_SecretUID lease = [] \<or> le_ResourceVersion lease = []
       then failWith (RText ''repository credential cleanup exact Secret identity unavailable'')
       else case validateActiveRepositoryRotation env r (le_SecretUID lease) (le_TokenGeneration lease) of
         Some e \<Rightarrow> failWith e
       | None \<Rightarrow>
           bindE (revokeLease env lease) (\<lambda>_.
             ifErr (deleteSecret env (leaseKey r) (le_SecretUID lease) (le_ResourceVersion lease))
               failWith (\<lambda>_. completeCleanup env)))"

definition cleanupRepositoryCredential ::
  "('w, 'q, 'k, 'c, 'x) run_env \<Rightarrow> 'q Environment option \<Rightarrow> ('w, 'q, 'k run_error outcome + unit) ctl" where
  "cleanupRepositoryCredential env e = do {
     r \<leftarrow> theRun;
     if rs_RepositoryCredential (rn_Spec r) = [] then returnOk ()
     else if (case e of None \<Rightarrow> False | Some x \<Rightarrow> \<not> environmentFenced x)
     then returns (requestEnvironmentFence env (the e))
     else bindE (cleanupPendingRepositoryRevocation env) (\<lambda>_. do {
       r' \<leftarrow> theRun;
       ifErr (readRepositoryLease env r')
         (\<lambda>x. if isNotFoundError (re_NotFound env) x then completeCleanup env else cleanupUnreadable env r' x)
         (cleanupLease env r')
     })
   }"

end
