(* ===== verification/Run_Controller.thy ===== *)
theory Run_Controller
  imports Run_Allocation Run_Credential Run_Lease
begin

text \<open>
  \<open>RunReconciler.Reconcile\<close> (\<open>src/internal/controllers/run_controller.go\<close>) with its terminal
  cleanup and its finalizer, composed from the theories of the Run controller. One call of
  \<open>ReconcileRun\<close> is one reconcile of one Run, from the read of the object to the returned result.
\<close>

abbreviation "runFinalizer \<equiv> ''swe.dev/run-cleanup''"

section \<open>Cancelling an execution\<close>

text \<open>\<open>Cancel\<close> of the adapter between two proofs of currentness.\<close>

definition cancelExecution ::
  "('w, 'q, 'k, 'c, 'x) run_env \<Rightarrow> ('w, 'k, 'c) AdapterLifecycle \<Rightarrow> 'q Environment
     \<Rightarrow> ('w, 'q, 'k run_error outcome + unit) ctl" where
  "cancelExecution env adapter e = do {
     r \<leftarrow> theRun;
     ifErr (resolveAllocatedExecution env r e) failWith (\<lambda>x.
       case x of
         None \<Rightarrow> throwError (requeueNow, None)
       | Some execution \<Rightarrow> do {
           cancelErr \<leftarrow> callCancel env adapter e (CaptureExecutionFence e);
           case cancelErr of
             Some err \<Rightarrow>
               if isCancellationPending err then throwError (requeueAfter adapterPollInterval, None) else failWith err
           | None \<Rightarrow>
               ifErr (allocatedExecutionCurrent env r e execution) failWith (\<lambda>current.
                 if \<not> current then throwError (requeueNow, None) else returnOk ())
         })
   }"

text \<open>A Run that may have been accepted goes on only fenced or cancelled; \<open>beforeFence\<close> is what the caller
  does before it asks for the fence.\<close>

definition cancelAccepted ::
  "('w, 'q, 'k, 'c, 'x) run_env \<Rightarrow> 'q Environment \<Rightarrow> ('w, 'q, 'k run_error + unit) ctl
     \<Rightarrow> ('w, 'q, 'k run_error outcome + unit) ctl" where
  "cancelAccepted env e beforeFence = do {
     r \<leftarrow> theRun;
     if runMayHaveAccepted env r \<and> \<not> environmentFenced e then
       (case re_Adapters env (rs_Agent (rn_Spec r)) of
          None \<Rightarrow> returns (orFail beforeFence (\<lambda>_. requestEnvironmentFence env e))
        | Some adapter \<Rightarrow>
            if \<not> environmentReachable env e then returns (orFail beforeFence (\<lambda>_. requestEnvironmentFence env e))
            else cancelExecution env adapter e)
     else returnOk ()
   }"

section \<open>Terminal cleanup\<close>

definition suspendPending :: "'q Environment \<Rightarrow> bool" where
  "suspendPending e \<longleftrightarrow>
     lsp_Suspend (env_Lifecycle e) \<noteq> None \<or> lst_PendingSuspendRequestID (env_LStatus e) \<noteq> []"

definition cleanupWithout ::
  "('w, 'q, 'k, 'c, 'x) run_env \<Rightarrow> string \<Rightarrow> string \<Rightarrow> ('w, 'q, 'k run_error outcome) ctl" where
  "cleanupWithout env reason message =
     orFail (captureChanges env None False True) (\<lambda>_.
     unlessDone (cleanupRepositoryCredential env None) (\<lambda>_.
       finish noResult (setEnvironmentReadyCondition env False reason message)))"

definition settleEnvironment ::
  "('w, 'q, 'k, 'c, 'x) run_env \<Rightarrow> 'q Environment \<Rightarrow> ('w, 'q, 'k run_error outcome) ctl" where
  "settleEnvironment env e = do {
     r \<leftarrow> theRun;
     case rst_EnvironmentRef (rn_Status r) of
       None \<Rightarrow> ret (noResult, Some RPanic)
     | Some ref \<Rightarrow>
         if rer_Ownership ref = EnvironmentOwnershipOwned then
           (if \<not> environmentSuspended e then requestEnvironmentFence env e
            else if environmentFenced e
            then finish noResult (setEnvironmentReadyCondition env False ''EnvironmentFenced'' ''owned environment is paused and fenced'')
            else ret (noResult, None))
         else orFail (releaseClaim env e) (\<lambda>_.
           finish noResult (setEnvironmentReadyCondition env False ''EnvironmentReleased'' ''claimed environment was released''))
   }"

definition cleanupAllocated ::
  "('w, 'q, 'k, 'c, 'x) run_env \<Rightarrow> 'q Environment \<Rightarrow> ('w, 'q, 'k run_error outcome) ctl" where
  "cleanupAllocated env e =
     orFail (if \<not> environmentReachable env e
             then setEnvironmentReadyCondition env False ''EnvironmentNotReady'' ''allocated environment is not reachable''
             else returnOk ()) (\<lambda>_.
     unlessDone (cancelAccepted env e (captureChanges env (Some e) False True)) (\<lambda>_.
     orFail (captureChanges env (Some e) False True) (\<lambda>_. do {
       r \<leftarrow> theRun;
       if rs_RepositoryCredential (rn_Spec r) \<noteq> [] \<and> \<not> environmentFenced e then requestEnvironmentFence env e
       else if suspendPending e then ret (requeueAfter adapterPollInterval, None)
       else unlessDone (cleanupRepositoryCredential env (Some e)) (\<lambda>_. settleEnvironment env e)
     })))"

definition released :: "('w, 'q, 'k, 'c, 'x) run_env \<Rightarrow> Run \<Rightarrow> bool" where
  "released env r =
     (case re_Find env (run_Conditions r) ''EnvironmentReady'' of
        None \<Rightarrow> False
      | Some c \<Rightarrow> cd_Status c = ConditionFalse \<and> cd_Reason c = ''EnvironmentReleased'')"

definition cleanupTerminal :: "('w, 'q, 'k, 'c, 'x) run_env \<Rightarrow> ('w, 'q, 'k run_error outcome) ctl" where
  "cleanupTerminal env = do {
     r \<leftarrow> theRun;
     case rst_EnvironmentRef (rn_Status r) of
       None \<Rightarrow> cleanupWithout env ''EnvironmentReleased'' ''Run has no allocated environment''
     | Some ref \<Rightarrow>
         if rer_Ownership ref = EnvironmentOwnershipClaimed \<and> released env r
         then finish noResult (setEnvironmentReadyCondition env False ''EnvironmentReleased'' ''claimed environment was released'')
         else ifErr (cachedAllocation env r)
           (\<lambda>e. if isNotFoundError (re_NotFound env) e \<or> isAllocatedGone e
                then cleanupWithout env ''EnvironmentLost'' (re_ErrText env e)
                else ret (noResult, Some e))
           (cleanupAllocated env)
   }"

section \<open>Finalizer\<close>

text \<open>An unpromoted warm claim that was recovered is given back; another one is kept for cleanup.\<close>

definition recoverForFinalize :: "('w, 'q, 'k, 'c, 'x) run_env \<Rightarrow> ('w, 'q, 'k run_error + unit) ctl" where
  "recoverForFinalize env = do {
     r \<leftarrow> theRun;
     if rst_EnvironmentRef (rn_Status r) \<noteq> None then returnOk ()
     else bindE (recoverEnvironmentReference env r) (\<lambda>ref.
       bindE (case ref of
                None \<Rightarrow> returnOk None
              | Some x \<Rightarrow>
                  if rer_Ownership x \<noteq> EnvironmentOwnershipClaimed then returnOk ref
                  else bindE (kread (re_Environment env (run_Namespace r, rer_Name x))) (\<lambda>recovered.
                    bindE (currentUnpromotedWarmClaim env recovered r) (\<lambda>currentWarmClaim.
                      if meta_label (en_Meta recovered) warmPoolLabel \<noteq> [] \<and> \<not> currentWarmClaim then returnOk None
                      else if currentWarmClaim then bindE (releaseClaim env recovered) (\<lambda>_. returnOk None)
                      else returnOk ref))) (\<lambda>ref'. do {
         onStatus (\<lambda>st. st\<lparr>rst_EnvironmentRef := ref'\<rparr>);
         returnOk ()
       }))
   }"

definition finalizeEnvironment ::
  "('w, 'q, 'k, 'c, 'x) run_env \<Rightarrow> 'q Environment
     \<Rightarrow> ('w, 'q, 'k run_error outcome + unit) ctl" where
  "finalizeEnvironment env e =
     bindE (cancelAccepted env e (returnOk ())) (\<lambda>_. do {
       r \<leftarrow> theRun;
       if rs_RepositoryCredential (rn_Spec r) \<noteq> [] \<and> \<not> environmentFenced e then returns (requestEnvironmentFence env e)
       else if suspendPending e then throwError (requeueAfter adapterPollInterval, None)
       else bindE (cleanupRepositoryCredential env (Some e)) (\<lambda>_. do {
         r' \<leftarrow> theRun;
         case rst_EnvironmentRef (rn_Status r') of
           None \<Rightarrow> failWith RPanic
         | Some ref \<Rightarrow>
             if rer_Ownership ref = EnvironmentOwnershipClaimed
             then ifErr (releaseClaim env e) failWith (\<lambda>_. returnOk ())
             else returnOk ()
       })
     })"

definition finalizeReferenced ::
  "('w, 'q, 'k, 'c, 'x) run_env \<Rightarrow> ('w, 'q, 'k run_error outcome + unit) ctl" where
  "finalizeReferenced env = do {
     r \<leftarrow> theRun;
     if rst_EnvironmentRef (rn_Status r) = None then returnOk ()
     else ifErr (cachedAllocation env r)
       (\<lambda>e. if \<not> isNotFoundError (re_NotFound env) e \<and> \<not> isAllocatedGone e then failWith e
            else cleanupRepositoryCredential env None)
       (finalizeEnvironment env)
   }"

definition finalizeAllocation ::
  "('w, 'q, 'k, 'c, 'x) run_env \<Rightarrow> ('w, 'q, 'k run_error outcome + unit) ctl" where
  "finalizeAllocation env =
     bindE (finalizeReferenced env) (\<lambda>_. do {
       r \<leftarrow> theRun;
       if rst_EnvironmentRef (rn_Status r) = None then cleanupRepositoryCredential env None else returnOk ()
     })"

definition deleteTranscript ::
  "('w, 'q, 'k, 'c, 'x) run_env \<Rightarrow> ('w, 'q, 'k run_error + unit) ctl" where
  "deleteTranscript env =
     (if re_TranscriptsDisabled env then returnOk ()
      else case re_TranscriptCleanup env of
        None \<Rightarrow> throwError (RText ''transcript cleanup transport is not configured'')
      | Some delete \<Rightarrow> do {
          r \<leftarrow> theRun;
          bindE (mapErr (RWrap ''resolve transcript cleanup Namespace'') (kread (re_NamespaceNow env (run_Namespace r)))) (\<lambda>ns.
            if om_UID ns = [] \<or> run_UID r = [] then throwError (RText ''transcript cleanup identity is incomplete'')
            else optionError (ask (delete (run_Namespace r) (om_UID ns) (run_Name r) (run_UID r))
              (\<lambda>x. [EvTranscriptDelete (run_Namespace r) (om_UID ns) (run_Name r) (run_UID r) (x = None)])))
        })"

definition removeFinalizer :: "('w, 'q, 'k, 'c, 'x) run_env \<Rightarrow> ('w, 'q, 'k run_error + unit) ctl" where
  "removeFinalizer env = do {
     r \<leftarrow> theRun;
     setRun (r\<lparr>rn_Meta := (rn_Meta r)\<lparr>om_Finalizers := filter (\<lambda>f. f \<noteq> runFinalizer) (om_Finalizers (rn_Meta r))\<rparr>\<rparr>);
     runUpdate env
   }"

text \<open>The last two steps of the finalizer.\<close>

definition releaseRun :: "('w, 'q, 'k, 'c, 'x) run_env \<Rightarrow> ('w, 'q, 'k run_error outcome) ctl" where
  "releaseRun env = orFail (deleteTranscript env) (\<lambda>_. finish noResult (removeFinalizer env))"

definition finalizeRun :: "('w, 'q, 'k, 'c, 'x) run_env \<Rightarrow> ('w, 'q, 'k run_error outcome) ctl" where
  "finalizeRun env = do {
     r \<leftarrow> theRun;
     if runFinalizer \<notin> set (om_Finalizers (rn_Meta r)) then ret (noResult, None)
     else orFail (recoverForFinalize env) (\<lambda>_.
       unlessDone (finalizeAllocation env) (\<lambda>_. releaseRun env))
   }"

section \<open>Before allocation\<close>

definition cancelUnallocated :: "('w, 'q, 'k, 'c, 'x) run_env \<Rightarrow> ('w, 'q, 'k run_error outcome) ctl" where
  "cancelUnallocated env = do {
     r \<leftarrow> theRun;
     let cancelled = (\<lambda>message. finish noResult (setRunState env RunStateCancelled ''Cancelled'' message False));
     let adopt = (\<lambda>ref. do {
       onStatus (\<lambda>st. st\<lparr>rst_EnvironmentRef := Some ref\<rparr>);
       finish requeueNow (setRunState env RunStateAllocating ''EnvironmentRecovered''
         (''recovered environment '' @ rer_Name ref @ '' before cancellation'') False)
     });
     orFail (recoverEnvironmentReference env r) (\<lambda>ref.
       case ref of
         None \<Rightarrow> cancelled ''cancelled before allocation''
       | Some x \<Rightarrow>
           if rer_Ownership x \<noteq> EnvironmentOwnershipClaimed then adopt x
           else orFail (kread (re_Environment env (run_Namespace r, rer_Name x))) (\<lambda>recovered.
             orFail (currentUnpromotedWarmClaim env recovered r) (\<lambda>currentWarmClaim.
               if meta_label (en_Meta recovered) warmPoolLabel \<noteq> [] \<and> \<not> currentWarmClaim
               then cancelled ''cancelled before allocation''
               else if currentWarmClaim
               then orFail (releaseClaim env recovered) (\<lambda>_. cancelled ''cancelled before warm environment promotion'')
               else adopt x)))
   }"

text \<open>What a recovered reference still needs; \<open>None\<close> when it is not to be adopted after all.\<close>

definition adoptRecovered ::
  "('w, 'q, 'k, 'c, 'x) run_env \<Rightarrow> RunEnvironmentReference
     \<Rightarrow> ('w, 'q, 'k run_error + RunEnvironmentReference option) ctl" where
  "adoptRecovered env ref = do {
     r \<leftarrow> theRun;
     if rer_Ownership ref \<noteq> EnvironmentOwnershipClaimed then returnOk (Some ref)
     else bindE (kread (re_Environment env (run_Namespace r, rer_Name ref))) (\<lambda>recovered.
       if rs_EnvironmentRef (rn_Spec r) \<noteq> [] then
         ifErr (wakeExplicitClaim env recovered r)
           (\<lambda>e. if isExplicitHeld e \<or> isExplicitNotWakeable e
                then bindE (releaseClaim env recovered) (\<lambda>_. throwError e) else throwError e)
           (\<lambda>_. returnOk (Some ref))
       else bindE (currentUnpromotedWarmClaim env recovered r) (\<lambda>currentWarmClaim.
         if meta_label (en_Meta recovered) warmPoolLabel \<noteq> [] \<and> \<not> currentWarmClaim then returnOk None
         else if currentWarmClaim then bindE (promoteWarmEnvironment env recovered) (\<lambda>_. returnOk (Some ref))
         else returnOk (Some ref)))
   }"

definition obtainReference ::
  "('w, 'q, 'k, 'c, 'x) run_env \<Rightarrow> RunEnvironmentReference option
     \<Rightarrow> ('w, 'q, 'k run_error + RunEnvironmentReference option) ctl" where
  "obtainReference env recovered =
     bindE (case recovered of None \<Rightarrow> allocateEnvironment env | Some ref \<Rightarrow> adoptRecovered env ref) (\<lambda>ref.
       if ref = None then allocateEnvironment env else returnOk ref)"

definition selectionFailed ::
  "('w, 'q, 'k, 'c, 'x) run_env \<Rightarrow> 'k run_error \<Rightarrow> ('w, 'q, 'k run_error outcome) ctl" where
  "selectionFailed env e =
     (if isProjectSelectionUnavailable e then finish noResult (rejectProjectSelection env)
      else ret (noResult, Some e))"

definition allocationFailed ::
  "('w, 'q, 'k, 'c, 'x) run_env \<Rightarrow> 'k run_error \<Rightarrow> ('w, 'q, 'k run_error outcome) ctl" where
  "allocationFailed env e =
     (if isProjectSelectionUnavailable e then finish noResult (rejectProjectSelection env)
      else if isExplicitClaimed e \<or> isExplicitHeld e \<or> isExplicitNotWakeable e
      then finish noResult (setRunState env RunStateFailed ''EnvironmentUnavailable'' (re_ErrText env e) False)
      else ret (noResult, Some e))"

definition recordAllocation ::
  "('w, 'q, 'k, 'c, 'x) run_env \<Rightarrow> RunEnvironmentReference option \<Rightarrow> ('w, 'q, 'k run_error outcome) ctl" where
  "recordAllocation env ref =
     (case ref of
        None \<Rightarrow> ret (noResult, Some RPanic)
      | Some x \<Rightarrow> do {
          onStatus (\<lambda>st. st\<lparr>rst_EnvironmentRef := ref\<rparr>);
          finish requeueNow (setRunState env RunStateAllocating ''EnvironmentAllocated''
            (''environment '' @ rer_Name x @ '' allocated'') False)
        })"

definition credentialProfilesRefused :: "('w, 'q, 'k, 'c, 'x) run_env \<Rightarrow> Run \<Rightarrow> bool" where
  "credentialProfilesRefused env r \<longleftrightarrow>
     rs_CredentialProfileRef (rn_Spec r) \<noteq> []
     \<and> (case re_Adapters env (rs_Agent (rn_Spec r)) of
          None \<Rightarrow> False | Some adapter \<Rightarrow> al_SupportsCredentialProfiles adapter = Some False)"

definition reconcileUnallocated ::
  "('w, 'q, 'k, 'c, 'x) run_env \<Rightarrow> ('w, 'q, 'k run_error outcome) ctl" where
  "reconcileUnallocated env = do {
     r \<leftarrow> theRun;
     if credentialProfilesRefused env r
     then finish noResult (failCredential env ''CredentialProfilesUnsupported''
            (''adapter '' @ re_Quote env (rs_Agent (rn_Spec r)) @ '' does not support credential profiles''))
     else unlessDone (ensureCredentialBinding env) (\<lambda>_. do {
       r' \<leftarrow> theRun;
       ifErr (recoverEnvironmentReference env r') (selectionFailed env) (\<lambda>recovered.
         ifErr (obtainReference env recovered) (allocationFailed env) (recordAllocation env))
     })
   }"

section \<open>Driving the adapter\<close>

definition recordAcceptance ::
  "('w, 'q, 'k, 'c, 'x) run_env \<Rightarrow> ExecutionFence \<Rightarrow> 'k run_error option \<Rightarrow> ('w, 'q, 'k run_error outcome) ctl" where
  "recordAcceptance env fence acceptErr =
     (case acceptErr of
        Some err \<Rightarrow>
          if isTaskRejected err
          then finish noResult (setRunState env RunStateFailed ''AdapterRejected'' ''adapter rejected the task'' True)
          else ret (noResult, Some err)
      | None \<Rightarrow> do {
          onStatus (\<lambda>st. st\<lparr>rst_AcceptedEnvironmentEpoch := Some (fe_lifecycleEpoch fence),
                            rst_AcceptedEnvironmentExecutionGeneration := Some (fe_executionGeneration fence)\<rparr>);
          finish requeueNow (setRunState env RunStateAdapterAccepted ''AdapterAccepted'' ''adapter accepted the task'' True)
        })"

definition acceptNow ::
  "('w, 'q, 'k, 'c, 'x) run_env \<Rightarrow> ('w, 'k, 'c) AdapterLifecycle \<Rightarrow> 'q Environment \<Rightarrow> AdapterCredential option
     \<Rightarrow> ('w, 'q, 'k run_error outcome) ctl" where
  "acceptNow env adapter e credential = do {
     r \<leftarrow> theRun;
     orFail (resolveAllocatedExecution env r e) (\<lambda>x.
       case x of
         None \<Rightarrow> ret (requeueNow, None)
       | Some execution \<Rightarrow>
           orFail (repositoryLaunchMaterial env r e) (\<lambda>secretEnv. do {
             acceptErr \<leftarrow> callEnsureAccepted env adapter e (CaptureExecutionFence e)
               \<lparr>lm_AgentCredential = credential, lm_RepositorySecretEnv = secretEnv\<rparr>;
             orFail (allocatedExecutionCurrent env r e execution) (\<lambda>current.
               if \<not> current then ret (requeueNow, None)
               else recordAcceptance env (CaptureExecutionFence e) acceptErr)
           }))
   }"

definition acceptTask ::
  "('w, 'q, 'k, 'c, 'x) run_env \<Rightarrow> ('w, 'k, 'c) AdapterLifecycle \<Rightarrow> 'q Environment
     \<Rightarrow> ('w, 'q, 'k run_error outcome) ctl" where
  "acceptTask env adapter e = do {
     r \<leftarrow> theRun;
     if \<not> acceptanceAttempted env r
     then orFail (captureChanges env (Some e) True False) (\<lambda>_. finish requeueNow (markAcceptanceAttempted env))
     else ifErr (resolveCredential env r)
       (\<lambda>(reason, err).
          if reason = ''ProfileNotFound'' \<or> reason = ''SecretNotReady'' then waitForCredential env reason (re_ErrText env err)
          else if reason = [] then ret (noResult, Some err)
          else finish noResult (failCredential env reason (re_ErrText env err)))
       (acceptNow env adapter e)
   }"

definition observedState :: "AdapterObservation \<Rightarrow> RunState option" where
  "observedState ob =
     (if ob = AdapterObservationAccepted then Some RunStateAdapterAccepted
      else if ob = AdapterObservationRunning then Some RunStateRunning
      else if ob = AdapterObservationNeedsInput then Some RunStateNeedsInput
      else if ob = AdapterObservationSucceeded then Some RunStateSucceeded
      else if ob = AdapterObservationFailed then Some RunStateFailed
      else None)"

definition publishObservation ::
  "('w, 'q, 'k, 'c, 'x) run_env \<Rightarrow> AdapterObservation \<Rightarrow> RunState \<Rightarrow> ('w, 'q, 'k run_error outcome) ctl" where
  "publishObservation env ob st =
     orFail (setRunState env st ob (StatusMessage ob) True) (\<lambda>_.
       if terminalRunState st then ret (noResult, None) else ret (requeueAfter adapterPollInterval, None))"

definition recordObservation ::
  "('w, 'q, 'k, 'c, 'x) run_env \<Rightarrow> 'q Environment \<Rightarrow> 'x \<Rightarrow> AdapterObservation \<Rightarrow> ('w, 'q, 'k run_error outcome) ctl" where
  "recordObservation env e execution observation = do {
     r \<leftarrow> theRun;
     case observedState observation of
       None \<Rightarrow>
         ret (noResult, Some (RTextf ''adapter returned unknown observation'' [rs_Agent (rn_Spec r), observation]))
     | Some st \<Rightarrow>
         if re_Changes env \<noteq> None \<and> \<not> terminalRunState st
         then orFail (captureChanges env (Some e) False False) (\<lambda>_. do {
           r' \<leftarrow> theRun;
           ifErr (allocatedExecutionCurrent env r' e execution) (\<lambda>err. ret (requeueNow, Some err)) (\<lambda>current'.
             if \<not> current' then ret (requeueNow, None) else publishObservation env observation st)
         })
         else publishObservation env observation st
   }"

definition observeTask ::
  "('w, 'q, 'k, 'c, 'x) run_env \<Rightarrow> ('w, 'k, 'c) AdapterLifecycle \<Rightarrow> 'q Environment
     \<Rightarrow> ('w, 'q, 'k run_error outcome) ctl" where
  "observeTask env adapter e = do {
     r \<leftarrow> theRun;
     orFail (resolveAllocatedExecution env r e) (\<lambda>x.
       case x of
         None \<Rightarrow> ret (requeueNow, None)
       | Some execution \<Rightarrow>
           orFail (callObserve env adapter e (CaptureExecutionFence e)) (\<lambda>(observation, _).
             orFail (allocatedExecutionCurrent env r e execution) (\<lambda>current.
               if \<not> current then ret (requeueNow, None) else recordObservation env e execution observation)))
   }"

definition driveReachable ::
  "('w, 'q, 'k, 'c, 'x) run_env \<Rightarrow> 'q Environment \<Rightarrow> ('w, 'q, 'k run_error outcome) ctl" where
  "driveReachable env e = do {
     r \<leftarrow> theRun;
     if runAccepted env r \<and> \<not> acceptedEnvironmentExecutionCurrent r e \<and> run_State r \<noteq> RunStateEnvironmentReady
     then finish requeueNow (setRunState env RunStateEnvironmentReady ''EnvironmentExecutionChanged''
            ''fresh environment execution requires adapter acceptance'' True)
     else if run_State r = RunStateAllocating \<or> run_State r = RunStatePaused \<or> run_State r = []
     then finish requeueNow (setRunState env RunStateEnvironmentReady ''EnvironmentReady'' ''sandboxd is ready'' True)
     else case re_Adapters env (rs_Agent (rn_Spec r)) of
       None \<Rightarrow> finish noResult (setRunState env RunStateFailed ''AdapterUnavailable''
                 (''adapter '' @ re_Quote env (rs_Agent (rn_Spec r)) @ '' is not registered'') True)
     | Some adapter \<Rightarrow>
         if run_State r = RunStateEnvironmentReady then acceptTask env adapter e else observeTask env adapter e
   }"

definition environmentFailure :: "('w, 'q, 'k, 'c, 'x) run_env \<Rightarrow> 'q Environment \<Rightarrow> string" where
  "environmentFailure env e =
     (case re_Find env (st_Conditions (en_Status e)) EnvironmentConditionReady of
        None \<Rightarrow> ''environment phase is '' @ st_Phase (en_Status e)
      | Some c \<Rightarrow>
          if cd_Message c \<noteq> [] then cd_Reason c @ '': '' @ cd_Message c
          else ''environment phase is '' @ st_Phase (en_Status e))"

definition driveAllocated ::
  "('w, 'q, 'k, 'c, 'x) run_env \<Rightarrow> 'q Environment \<Rightarrow> int \<Rightarrow> ('w, 'q, 'k run_error outcome) ctl" where
  "driveAllocated env e repositoryRefreshAfter = do {
     r \<leftarrow> theRun;
     let phase = st_Phase (en_Status e);
     if st_ObservedGeneration (en_Status e) \<noteq> env_Generation e then
       (if runAccepted env r then ret (requeueAfter adapterPollInterval, None)
        else finish noResult (setRunState env RunStateAllocating ''EnvironmentStatusStale''
               ''environment status has not observed the current generation'' False))
     else if phase = EnvironmentPhasePaused \<or> phase = EnvironmentPhaseResuming
     then finish (requeueAfter repositoryRefreshAfter) (setRunState env RunStatePaused ''EnvironmentPaused''
            ''managed processes stop; workspace and transcript are retained'' False)
     else if phase = EnvironmentPhaseFailed \<or> phase = EnvironmentPhaseTerminated
     then finish noResult (setRunState env RunStateFailed ''EnvironmentFailed'' (environmentFailure env e) False)
     else if phase \<noteq> EnvironmentPhaseReady \<and> phase \<noteq> EnvironmentPhaseRunning
     then finish (requeueAfter repositoryRefreshAfter) (setRunState env RunStateAllocating ''EnvironmentNotReady''
            (''environment phase is '' @ phase) False)
     else if \<not> environmentReachable env e
     then finish (requeueAfter adapterPollInterval) (setRunState env RunStateAllocating ''EnvironmentNotReachable''
            ''sandboxd endpoint is not currently reachable'' False)
     else driveReachable env e
   }"

definition reconcileAllocated ::
  "('w, 'q, 'k, 'c, 'x) run_env \<Rightarrow> ('w, 'q, 'k run_error outcome) ctl" where
  "reconcileAllocated env = do {
     r \<leftarrow> theRun;
     unlessDone (if rs_Cancel (rn_Spec r) then returnOk 0 else ensureRepositoryCredential env) (\<lambda>refreshAfter. do {
       r' \<leftarrow> theRun;
       ifErr (cachedAllocation env r')
         (\<lambda>err. if isNotFoundError (re_NotFound env) err \<or> isAllocatedGone err
                then unlessDone (cleanupRepositoryCredential env None) (\<lambda>_.
                  finish noResult (setRunState env RunStateFailed ''EnvironmentLost'' (re_ErrText env err) False))
                else ret (noResult, Some err))
         (\<lambda>e. if rs_Cancel (rn_Spec r')
              then unlessDone (cancelAccepted env e (returnOk ())) (\<lambda>_.
                finish noResult (setRunState env RunStateCancelled ''Cancelled'' ''cancellation completed''
                  (environmentReachable env e)))
              else driveAllocated env e refreshAfter)
     })
   }"

section \<open>Reconcile\<close>

definition reconcileLive :: "('w, 'q, 'k, 'c, 'x) run_env \<Rightarrow> ('w, 'q, 'k run_error outcome) ctl" where
  "reconcileLive env = do {
     r \<leftarrow> theRun;
     if rs_Cancel (rn_Spec r) \<and> rst_EnvironmentRef (rn_Status r) = None then cancelUnallocated env
     else ifErr (if rs_Cancel (rn_Spec r) then returnOk None else resolveSelectedProject env r) (selectionFailed env) (\<lambda>_.
       if rst_EnvironmentRef (rn_Status r) = None then reconcileUnallocated env else reconcileAllocated env)
   }"

definition addFinalizer :: "('w, 'q, 'k, 'c, 'x) run_env \<Rightarrow> ('w, 'q, 'k run_error + unit) ctl" where
  "addFinalizer env = do {
     r \<leftarrow> theRun;
     if runFinalizer \<in> set (om_Finalizers (rn_Meta r)) then returnOk ()
     else do {
       setRun (r\<lparr>rn_Meta := (rn_Meta r)\<lparr>om_Finalizers := om_Finalizers (rn_Meta r) @ [runFinalizer]\<rparr>\<rparr>);
       runUpdate env
     }
   }"

definition reconcileUnfenced :: "('w, 'q, 'k, 'c, 'x) run_env \<Rightarrow> ('w, 'q, 'k run_error outcome) ctl" where
  "reconcileUnfenced env =
     orFail (normalizeAdapterStatusCondition env) (\<lambda>normalized.
       if normalized then ret (requeueNow, None)
       else do {
         r \<leftarrow> theRun;
         if deleting (rn_Meta r) then finalizeRun env
         else if terminalRunState (run_State r) then cleanupTerminal env
         else orFail (addFinalizer env) (\<lambda>_. reconcileLive env)
       })"

definition offboardRun :: "('w, 'q, 'k, 'c, 'x) run_env \<Rightarrow> ('w, 'q, 'k run_error outcome) ctl" where
  "offboardRun env = do {
     r \<leftarrow> theRun;
     let cancelled = r\<lparr>rn_Spec := (rn_Spec r)\<lparr>rs_Cancel := True\<rparr>\<rparr>;
     orFail (mapErr (\<lambda>k. RWrap ''cancel Run for Project offboarding'' (RKube k))
               (ask (re_RunPatch env r cancelled) (\<lambda>x. [EvRunPatch cancelled (is_ok x)])))
       (\<lambda>r'. do { setRun r'; ret (requeueNow, None) })
   }"

definition reconcileClaimed ::
  "('w, 'q, 'k, 'c, 'x) run_env \<Rightarrow> Claim \<Rightarrow> ('w, 'q, 'k run_error outcome) ctl" where
  "reconcileClaimed env claim = do {
     r \<leftarrow> theRun;
     if cl_Lifecycle claim = LifecycleFenced then
       (if terminalRunState (run_State r) \<and> \<not> deleting (rn_Meta r) then cleanupTerminal env else ret (noResult, None))
     else if cl_Lifecycle claim = LifecycleFencing \<and> cl_Operation claim \<noteq> OperationOffboarding then ret (noResult, None)
     else if cl_Lifecycle claim = LifecycleFencing \<and> \<not> deleting (rn_Meta r) \<and> \<not> rs_Cancel (rn_Spec r)
     then offboardRun env
     else reconcileUnfenced env
   }"

definition ReconcileRun ::
  "('w, 'q, 'k, 'c, 'x) run_env \<Rightarrow> NamespacedName \<Rightarrow> ('w, 'q, 'k run_error outcome) ctl" where
  "ReconcileRun env key =
     ifErr (ask (re_Run env key) (\<lambda>_. []))
       (\<lambda>k. ret (noResult, if re_NotFound env k then None else Some (RKube k)))
       (\<lambda>r. do {
          setRun r;
          ifErr (ask (Begin (re_Scope env) (run_Namespace r) [LifecycleActive, LifecycleFencing, LifecycleFenced]) (\<lambda>_. []))
            (\<lambda>e. ret (noResult, if isOutOfScope e then None else Some (RTenancy e)))
            (\<lambda>(lease, claim). do {
               modifies (\<lambda>s. s\<lparr>rc_lease := lease\<rparr>);
               reconcileClaimed env claim
             })
        })"

end
