(* ===== verification/Ordered_Log.thy ===== *)
theory Ordered_Log
  imports Go_Monad
begin

text \<open>
  Safety of programs that keep a log: every event is good for the events before it. \<open>keeps P m\<close> says
  that \<open>m\<close> keeps the invariant \<open>P\<close>, with a rule per construct; the locale \<open>discipline\<close> turns a
  statement on single events into such an invariant.
\<close>

section \<open>Ordered logs\<close>

text \<open>Every event of the log is good for what came before it.\<close>

definition ordered :: "('e list \<Rightarrow> 'e \<Rightarrow> bool) \<Rightarrow> 'e list \<Rightarrow> bool" where
  "ordered Good log \<longleftrightarrow> (\<forall>i < length log. Good (take i log) (log ! i))"

lemma ordered_Nil [simp]: "ordered Good []"
  by (simp add: ordered_def)

lemma ordered_snoc [simp]: "ordered Good (log @ [e]) \<longleftrightarrow> ordered Good log \<and> Good log e"
  by (auto simp: ordered_def nth_append less_Suc_eq)

lemma ordered_appendD:
  assumes "ordered Good (log @ es)"
  shows "ordered Good log"
  using assms by (induction es rule: rev_induct) (auto simp flip: append_assoc)

lemma orderedD: "ordered Good log \<Longrightarrow> log = pre @ e # post \<Longrightarrow> Good pre e"
  by (auto simp: ordered_def dest!: spec [of _ "length pre"])

section \<open>Invariants of programs\<close>

named_theorems keeps_intros \<open>programs that keep an invariant of the state\<close>

definition keeps :: "('s \<Rightarrow> bool) \<Rightarrow> ('s, 'a) state \<Rightarrow> bool" where
  "keeps P m \<longleftrightarrow> (\<forall>s. P s \<longrightarrow> P (snd (run_state m s)))"

lemma keepsD: "keeps P m \<Longrightarrow> P s \<Longrightarrow> P (snd (run_state m s))"
  by (simp add: keeps_def)

lemma keeps_wp: "keeps P m \<longleftrightarrow> (\<forall>s. P s \<longrightarrow> wp m (\<lambda>_. P) s)"
  by (simp add: keeps_def wp_run)

lemma keeps_return [keeps_intros]: "keeps P (ret a)"
  by (simp add: keeps_def)

lemma keeps_reads [keeps_intros]: "keeps P (reads f)"
  by (simp add: keeps_def reads_def)

lemma keeps_bind [keeps_intros]:
  "keeps P m \<Longrightarrow> (\<And>a. keeps P (f a)) \<Longrightarrow> keeps P (State_Monad.bind m f)"
  by (simp add: keeps_def split: prod.split) (metis snd_conv)

lemma keeps_if [keeps_intros]:
  "(c \<Longrightarrow> keeps P m) \<Longrightarrow> (\<not> c \<Longrightarrow> keeps P n) \<Longrightarrow> keeps P (if c then m else n)"
  by simp

lemma keeps_case_sum [keeps_intros]:
  "(\<And>y. x = Inl y \<Longrightarrow> keeps P (f y)) \<Longrightarrow> (\<And>z. x = Inr z \<Longrightarrow> keeps P (g z)) \<Longrightarrow>
     keeps P (case x of Inl y \<Rightarrow> f y | Inr z \<Rightarrow> g z)"
  by (cases x) auto

lemma keeps_case_option [keeps_intros]:
  "(x = None \<Longrightarrow> keeps P m) \<Longrightarrow> (\<And>y. x = Some y \<Longrightarrow> keeps P (f y)) \<Longrightarrow>
     keeps P (case x of None \<Rightarrow> m | Some y \<Rightarrow> f y)"
  by (cases x) auto

lemma keeps_case_prod [keeps_intros]:
  "(\<And>y z. x = (y, z) \<Longrightarrow> keeps P (f y z)) \<Longrightarrow> keeps P (case x of (y, z) \<Rightarrow> f y z)"
  by (cases x) auto

lemma keeps_Let [keeps_intros]: "(\<And>y. y = x \<Longrightarrow> keeps P (f y)) \<Longrightarrow> keeps P (Let x f)"
  by (simp add: Let_def)

lemma keeps_ifErr [keeps_intros]:
  "keeps P m \<Longrightarrow> (\<And>e. keeps P (f e)) \<Longrightarrow> (\<And>a. keeps P (g a)) \<Longrightarrow> keeps P (ifErr m f g)"
  unfolding ifErr_def by (intro keeps_intros)

lemma keeps_bindE [keeps_intros]:
  "keeps P m \<Longrightarrow> (\<And>a. keeps P (g a)) \<Longrightarrow> keeps P (bindE m g)"
  unfolding bindE_def by (intro keeps_intros)

lemma keeps_mapErr [keeps_intros]: "keeps P m \<Longrightarrow> keeps P (mapErr h m)"
  unfolding mapErr_def by (intro keeps_intros)

lemma keeps_finish [keeps_intros]: "keeps P m \<Longrightarrow> keeps P (finish r m)"
  unfolding finish_def by (intro keeps_intros)

lemma keeps_orFail [keeps_intros]:
  "keeps P m \<Longrightarrow> (\<And>a. keeps P (f a)) \<Longrightarrow> keeps P (orFail m f)"
  unfolding orFail_def by (intro keeps_intros)

lemma keeps_returns [keeps_intros]: "keeps P m \<Longrightarrow> keeps P (returns m)"
  unfolding returns_def by (intro keeps_intros)

lemma keeps_proceed [keeps_intros]: "keeps P m \<Longrightarrow> keeps P (proceed d m)"
  unfolding proceed_def by (intro keeps_intros)

lemma keeps_unlessDone [keeps_intros]:
  "keeps P m \<Longrightarrow> (\<And>a. keeps P (f a)) \<Longrightarrow> keeps P (unlessDone m f)"
  unfolding unlessDone_def by (intro keeps_intros)

section \<open>Programs that may end a reconcile\<close>

text \<open>
  A reconcile may end where the invariant does not hold any more, if only \<open>R\<close> does. \<open>ends P R m\<close> is
  for a program in tail position; \<open>guards P R m\<close> for one that either ends the reconcile (\<open>Inl\<close>) or goes
  on with the invariant.
\<close>

named_theorems ends_intros \<open>programs that may end a reconcile\<close>

definition ends :: "('s \<Rightarrow> bool) \<Rightarrow> ('s \<Rightarrow> bool) \<Rightarrow> ('s, 'a) state \<Rightarrow> bool" where
  "ends P R m \<longleftrightarrow> (\<forall>s. P s \<longrightarrow> R (snd (run_state m s)))"

definition guards :: "('s \<Rightarrow> bool) \<Rightarrow> ('s \<Rightarrow> bool) \<Rightarrow> ('s, 'e + 'a) state \<Rightarrow> bool" where
  "guards P R m \<longleftrightarrow> (\<forall>s. P s \<longrightarrow> wp m (\<lambda>x s'. case x of Inl _ \<Rightarrow> R s' | Inr _ \<Rightarrow> P s') s)"

lemma endsD: "ends P R m \<Longrightarrow> P s \<Longrightarrow> R (snd (run_state m s))"
  by (simp add: ends_def)

lemma guardsD:
  "guards P R m \<Longrightarrow> P s \<Longrightarrow> run_state m s = (x, s') \<Longrightarrow> (case x of Inl _ \<Rightarrow> R s' | Inr _ \<Rightarrow> P s')"
  by (auto simp: guards_def wp_def)

lemma ends_keeps: "(\<And>s. P s \<Longrightarrow> R s) \<Longrightarrow> keeps P m \<Longrightarrow> ends P R m"
  by (simp add: ends_def keeps_def)

lemma guards_keeps: "(\<And>s. P s \<Longrightarrow> R s) \<Longrightarrow> keeps P m \<Longrightarrow> guards P R m"
  by (auto simp: guards_def keeps_def wp_run split: sum.split)

lemma ends_bind [ends_intros]: "keeps P m \<Longrightarrow> (\<And>a. ends P R (f a)) \<Longrightarrow> ends P R (State_Monad.bind m f)"
  by (simp add: ends_def keeps_def split: prod.split) (metis snd_conv)

lemma ends_ifErr [ends_intros]:
  "keeps P m \<Longrightarrow> (\<And>e. ends P R (f e)) \<Longrightarrow> (\<And>a. ends P R (g a)) \<Longrightarrow> ends P R (ifErr m f g)"
  unfolding ifErr_def by (rule ends_bind) (simp_all split: sum.split)

lemma ends_unlessDone [ends_intros]:
  assumes "guards P R m" "\<And>a. ends P R (f a)"
  shows "ends P R (unlessDone m f)"
  unfolding ends_def
proof (intro allI impI)
  fix s assume s: "P s"
  obtain x s1 where m: "run_state m s = (x, s1)" by force
  show "R (snd (run_state (unlessDone m f) s))"
    using guardsD [OF assms(1) s m] endsD [OF assms(2), of s1] m
    by (cases x) (simp_all add: unlessDone_def ifErr_def)
qed

lemma guards_bindE [ends_intros]:
  assumes "guards P R m" "\<And>a. guards P R (f a)"
  shows "guards P R (bindE m f)"
  unfolding guards_def
proof (intro allI impI)
  fix s assume s: "P s"
  obtain x s1 where m: "run_state m s = (x, s1)" by force
  show "wp (bindE m f) (\<lambda>x s'. case x of Inl _ \<Rightarrow> R s' | Inr _ \<Rightarrow> P s') s"
  proof (cases x)
    case (Inl e)
    then show ?thesis using guardsD [OF assms(1) s m] m by (simp add: wp_bindE) (simp add: wp_def)
  next
    case (Inr a)
    then have "P s1" using guardsD [OF assms(1) s m] by simp
    then show ?thesis using assms(2) [of a] Inr m by (simp add: wp_bindE guards_def) (simp add: wp_def)
  qed
qed

lemma guards_bind [ends_intros]: "keeps P m \<Longrightarrow> (\<And>a. guards P R (f a)) \<Longrightarrow> guards P R (State_Monad.bind m f)"
  unfolding guards_def keeps_def wp_bind by (auto simp: wp_run)

lemma guards_ifErr [ends_intros]:
  "keeps P m \<Longrightarrow> (\<And>e. guards P R (f e)) \<Longrightarrow> (\<And>a. guards P R (g a)) \<Longrightarrow> guards P R (ifErr m f g)"
  unfolding ifErr_def by (rule guards_bind) (simp_all split: sum.split)

lemma guards_returns [ends_intros]: "ends P R m \<Longrightarrow> guards P R (returns m)"
  unfolding guards_def ends_def wp_returns by (simp add: wp_run)

lemma ends_orFail [ends_intros]:
  fixes m :: "('s, 'e + 'a) state"
  assumes "\<And>e :: 'e. ends P R (ret (noResult, Some e))" "keeps P m" "\<And>a. ends P R (f a)"
  shows "ends P R (orFail m f)"
  unfolding orFail_def using assms by (intro ends_ifErr)

lemma ends_if [ends_intros]:
  "(c \<Longrightarrow> ends P R m) \<Longrightarrow> (\<not> c \<Longrightarrow> ends P R n) \<Longrightarrow> ends P R (if c then m else n)"
  by simp

lemma guards_if [ends_intros]:
  "(c \<Longrightarrow> guards P R m) \<Longrightarrow> (\<not> c \<Longrightarrow> guards P R n) \<Longrightarrow> guards P R (if c then m else n)"
  by simp

lemma ends_case_option [ends_intros]:
  "(x = None \<Longrightarrow> ends P R m) \<Longrightarrow> (\<And>y. x = Some y \<Longrightarrow> ends P R (f y)) \<Longrightarrow>
     ends P R (case x of None \<Rightarrow> m | Some y \<Rightarrow> f y)"
  by (cases x) auto

lemma guards_case_option [ends_intros]:
  "(x = None \<Longrightarrow> guards P R m) \<Longrightarrow> (\<And>y. x = Some y \<Longrightarrow> guards P R (f y)) \<Longrightarrow>
     guards P R (case x of None \<Rightarrow> m | Some y \<Rightarrow> f y)"
  by (cases x) auto

lemma ends_case_prod [ends_intros]:
  "(\<And>y z. x = (y, z) \<Longrightarrow> ends P R (f y z)) \<Longrightarrow> ends P R (case x of (y, z) \<Rightarrow> f y z)"
  by (cases x) auto

lemma ends_Let [ends_intros]: "(\<And>y. y = x \<Longrightarrow> ends P R (f y)) \<Longrightarrow> ends P R (Let x f)"
  by (simp add: Let_def)

section \<open>Disciplines\<close>

text \<open>
  \<open>Good h e\<close>: the event \<open>e\<close> may come after the history \<open>h\<close>. Quiet events may come after every
  history that is \<open>ready\<close>, and leave it so. A program that emits quiet events only keeps a log ordered
  and ready, whatever else it does.
\<close>

locale discipline =
  fixes Good :: "'e list \<Rightarrow> 'e \<Rightarrow> bool" and quiet :: "'e \<Rightarrow> bool" and ready :: "'e list \<Rightarrow> bool"
  assumes ready_Nil: "ready []"
    and quiet_Good: "quiet e \<Longrightarrow> ready h \<Longrightarrow> Good h e"
    and quiet_ready: "quiet e \<Longrightarrow> ready h \<Longrightarrow> ready (h @ [e])"
begin

lemma quiet_append:
  assumes "ordered Good h" "ready h" "list_all quiet es"
  shows "ordered Good (h @ es) \<and> ready (h @ es)"
  using assms(3)
proof (induction es rule: rev_induct)
  case (snoc e es)
  then have q: "quiet e" and es: "ordered Good (h @ es)" "ready (h @ es)" by auto
  have "Good (h @ es) e" "ready ((h @ es) @ [e])"
    using q es quiet_Good quiet_ready by blast+
  with es show ?case by (simp flip: append_assoc)
qed (use assms in simp)

lemma emits_keeps:
  "emits lw_log quiet m \<Longrightarrow> keeps (\<lambda>s. ordered Good (lw_log s) \<and> ready (lw_log s)) m"
  unfolding keeps_def emits_def using quiet_append by metis

lemma ends_ordered:
  "ends (\<lambda>s. ordered Good (lw_log s) \<and> ready (lw_log s)) (\<lambda>s. ordered Good (lw_log s)) m \<Longrightarrow> lw_log s = [] \<Longrightarrow>
     ordered Good (lw_log (snd (run_state m s)))"
  by (simp add: ends_def ready_Nil)

end

end
