(* ===== verification/Run_Programs.thy ===== *)
theory Run_Programs
  imports Run_Controller Ordered_Log
begin

text \<open>
  Invariants of the Run controller. The handlers are composed from a few programs that change what an
  invariant can speak of: writes of the Run, claims of an Environment, the release of the Run, and the three adapter calls.
  The locale \<open>run_writes\<close> lists what an invariant has to promise of the writes, and \<open>run_program\<close> what
  it has to promise of the calls; their lemmas carry the invariant through every handler up to
  \<open>reconcileClaimed\<close>. \<open>Run_Safety\<close> and \<open>Run_Ownership\<close> interpret them.
\<close>

text \<open>An adapter's script keeps what its two functions keep.\<close>

lemma keeps_runScript:
  "keeps P dial \<Longrightarrow> (\<And>ev. keeps P (emit ev)) \<Longrightarrow> keeps P (runScript dial emit sc)"
  by (induction sc) (auto intro!: keeps_intros)

text \<open>Events that no special program emits.\<close>

fun ordinary :: "'q run_event \<Rightarrow> bool" where
  "ordinary (EvRunStatus r b) = False"
| "ordinary (EvRunUpdate r b) = False"
| "ordinary (EvRunPatch r b) = False"
| "ordinary (EvEnvironmentStatus e e' b) = False"
| "ordinary (EvDial f b) = False"
| "ordinary (EvEnsureAccepted t f m) = False"
| "ordinary (EvObserve t f) = False"
| "ordinary (EvCancel t f) = False"
| "ordinary (EvTranscriptDelete n1 n2 n3 n4 b) = False"
| "ordinary _ = True"

locale run_writes =
  fixes env :: "('w, 'q, 'k, 'c, 'x) run_env" and P :: "('w, 'q) run_ctl \<Rightarrow> bool"
  assumes world: "P s \<Longrightarrow> P (s\<lparr>lw_world := w\<rparr>)"
    and event: "ordinary ev \<Longrightarrow> P s \<Longrightarrow> P (s\<lparr>lw_log := lw_log s @ [ev]\<rparr>)"
    and status: "P s \<Longrightarrow> P (s\<lparr>rc_run := (rc_run s)\<lparr>rn_Status := st\<rparr>\<rparr>)"
    and keeps_runStatusUpdate: "keeps P (runStatusUpdate env)"
    and keeps_forgetRotation: "keeps P (forgetRotation env)"
    and keeps_persistRotation: "keeps P (persistRepositoryRotation env lease wake)"
    and keeps_addFinalizer: "keeps P (addFinalizer env)"
    and keeps_offboardRun: "keeps P (offboardRun env)"
    and keeps_releaseClaim: "keeps P (releaseClaim env e)"
    and keeps_takeClaim: "st_ClaimedBy (en_Status e) = None \<Longrightarrow> keeps P (takeClaim env e t)"
    and keeps_withdrawReadiness: "keeps P (withdrawReadiness env e)"
begin

lemmas keeps_laws [keeps_intros] = keeps_runStatusUpdate keeps_forgetRotation keeps_persistRotation
  keeps_addFinalizer keeps_offboardRun keeps_releaseClaim keeps_takeClaim
  keeps_withdrawReadiness

lemma events: "list_all ordinary es \<Longrightarrow> P s \<Longrightarrow> P (s\<lparr>lw_log := lw_log s @ es\<rparr>)"
proof (induction es arbitrary: s)
  case (Cons e es)
  then show ?case using Cons.IH [of "s\<lparr>lw_log := lw_log s @ [e]\<rparr>"] event by simp
qed simp

lemma keeps_ask [keeps_intros]: "(\<And>a. list_all ordinary (ev a)) \<Longrightarrow> keeps P (ask m ev)"
  using events [OF _ world] by (simp add: keeps_def ask_def split: prod.split)

lemma keeps_theRun [keeps_intros]: "keeps P theRun"
  unfolding theRun_def by (intro keeps_intros)

lemma keeps_onStatus [keeps_intros]: "keeps P (onStatus f)"
  unfolding keeps_def onStatus_def modifies_def by (simp add: status)

lemma keeps_optionError [keeps_intros]: "keeps P m \<Longrightarrow> keeps P (optionError m)"
  unfolding optionError_def by (intro keeps_intros)

text \<open>Calls and status writes.\<close>

lemma keeps_now [keeps_intros]: "keeps P (now env)"
  unfolding now_def by (intro keeps_intros) simp_all

lemma keeps_kread [keeps_intros]: "keeps P (kread m)"
  unfolding kread_def by (intro keeps_intros) simp_all

lemma keeps_freshEnvironment [keeps_intros]: "keeps P (freshEnvironment env key)"
  unfolding freshEnvironment_def by (intro keeps_intros) simp_all

lemma keeps_environmentPatch [keeps_intros]: "keeps P (environmentPatch env e e')"
  unfolding environmentPatch_def by (intro keeps_intros) simp_all

lemma keeps_requestSuspend [keeps_intros]: "keeps P (requestSuspend env e i n)"
  unfolding requestSuspend_def by (intro keeps_intros) simp_all

lemma keeps_requestWake [keeps_intros]: "keeps P (requestWake env e i n)"
  unfolding requestWake_def by (intro keeps_intros) simp_all

lemma keeps_setCondition [keeps_intros]: "keeps P (setCondition env t st re ms)"
  unfolding setCondition_def by (intro keeps_intros)

lemma keeps_updateIfChanged [keeps_intros]: "keeps P (updateIfChanged env b)"
  unfolding updateIfChanged_def by (intro keeps_intros)

lemma keeps_setRunState [keeps_intros]: "keeps P (setRunState env st re ms b)"
  unfolding setRunState_def by (intro keeps_intros)

lemma keeps_setEnvironmentReadyCondition [keeps_intros]: "keeps P (setEnvironmentReadyCondition env b re ms)"
  unfolding setEnvironmentReadyCondition_def by (intro keeps_intros)

lemma keeps_setRepositoryCredentialCondition [keeps_intros]: "keeps P (setRepositoryCredentialCondition env st re ms)"
  unfolding setRepositoryCredentialCondition_def by (intro keeps_intros)

lemma keeps_markAcceptanceAttempted [keeps_intros]: "keeps P (markAcceptanceAttempted env)"
  unfolding markAcceptanceAttempted_def by (intro keeps_intros)

lemma keeps_normalizeAdapterStatusCondition [keeps_intros]: "keeps P (normalizeAdapterStatusCondition env)"
  unfolding normalizeAdapterStatusCondition_def by (intro keeps_intros)

lemma keeps_requestEnvironmentFence [keeps_intros]: "keeps P (requestEnvironmentFence env e)"
  unfolding requestEnvironmentFence_def by (intro keeps_intros)

lemma keeps_cachedAllocation [keeps_intros]: "keeps P (cachedAllocation env r)"
  unfolding cachedAllocation_def getAllocatedEnvironment_def by (intro keeps_intros)

lemma keeps_freshAllocation [keeps_intros]: "keeps P (freshAllocation env r)"
  unfolding freshAllocation_def getAllocatedEnvironment_def by (intro keeps_intros)

text \<open>Execution.\<close>

lemma keeps_revalidateScope [keeps_intros]: "keeps P (revalidateScope env ls)"
  unfolding revalidateScope_def by (intro keeps_intros) simp_all

lemma keeps_isolationCurrent [keeps_intros]: "keeps P (isolationCurrent env)"
  unfolding isolationCurrent_def by (intro keeps_intros) simp_all

lemma keeps_currentAllocation [keeps_intros]: "keeps P (currentAllocation env r e)"
  unfolding currentAllocation_def by (intro keeps_intros)

lemma keeps_resolveAllocatedExecution [keeps_intros]: "keeps P (resolveAllocatedExecution env r e)"
  unfolding resolveAllocatedExecution_def by (intro keeps_intros) simp_all

lemma keeps_allocatedExecutionCurrent [keeps_intros]: "keeps P (allocatedExecutionCurrent env r e x)"
  unfolding allocatedExecutionCurrent_def by (intro keeps_intros) simp_all

lemma keeps_captureChanges [keeps_intros]: "keeps P (captureChanges env e b b')"
  unfolding captureChanges_def by (intro keeps_intros) simp_all

text \<open>Agent credentials.\<close>

lemma keeps_credentialRead [keeps_intros]: "keeps P (credentialRead env re ms m)"
  unfolding credentialRead_def by (intro keeps_intros)

lemma keeps_resolveCredential [keeps_intros]: "keeps P (resolveCredential env r)"
  unfolding resolveCredential_def by (intro keeps_intros)

lemma keeps_failCredential [keeps_intros]: "keeps P (failCredential env re ms)"
  unfolding failCredential_def by (intro keeps_intros)

lemma keeps_waitForCredential [keeps_intros]: "keeps P (waitForCredential env re ms)"
  unfolding waitForCredential_def by (intro keeps_intros)

lemma keeps_checkBoundProfile [keeps_intros]: "keeps P (checkBoundProfile env)"
  unfolding checkBoundProfile_def by (intro keeps_intros)

lemma keeps_bindProfile [keeps_intros]: "keeps P (bindProfile env p)"
  unfolding bindProfile_def by (intro keeps_intros)

lemma keeps_ensureCredentialBinding [keeps_intros]: "keeps P (ensureCredentialBinding env)"
  unfolding ensureCredentialBinding_def by (intro keeps_intros)

text \<open>Allocation.\<close>

lemma keeps_resolveSelectedProject [keeps_intros]: "keeps P (resolveSelectedProject env r)"
  unfolding resolveSelectedProject_def by (intro keeps_intros)

lemma keeps_templateNameOf [keeps_intros]: "keeps P (templateNameOf env r p)"
  unfolding templateNameOf_def by (intro keeps_intros)

lemma keeps_checkManagedTemplate [keeps_intros]: "keeps P (checkManagedTemplate env r t)"
  unfolding checkManagedTemplate_def by (intro keeps_intros) simp_all

lemma keeps_resolveTemplate [keeps_intros]: "keeps P (resolveTemplate env r)"
  unfolding resolveTemplate_def by (intro keeps_intros)

lemma keeps_currentUnpromotedWarmClaim [keeps_intros]: "keeps P (currentUnpromotedWarmClaim env e r)"
  unfolding currentUnpromotedWarmClaim_def by (intro keeps_intros)

lemma keeps_promoteWarmEnvironment [keeps_intros]: "keeps P (promoteWarmEnvironment env e)"
  unfolding promoteWarmEnvironment_def by (intro keeps_intros)

lemma keeps_claimFirstWarm [keeps_intros]: "keeps P (claimFirstWarm env t tmpl es)"
proof (induction es)
  case (Cons e es)
  show ?case
    by (simp only: claimFirstWarm.simps, (intro keeps_intros Cons.IH | simp add: keeps_return Cons.IH split: run_error.split)+)
qed (simp add: keeps_return)

lemma keeps_claimWarmEnvironment [keeps_intros]: "keeps P (claimWarmEnvironment env t)"
  unfolding claimWarmEnvironment_def by (intro keeps_intros)

lemma keeps_wakeExplicitClaim [keeps_intros]: "keeps P (wakeExplicitClaim env e r)"
  unfolding wakeExplicitClaim_def by (intro keeps_intros)

lemma keeps_claimExplicit [keeps_intros]: "keeps P (claimExplicit env r)"
  unfolding claimExplicit_def by (intro keeps_intros)

lemma keeps_createOwned [keeps_intros]: "keeps P (createOwned env r t)"
  unfolding createOwned_def by (intro keeps_intros) simp_all

lemma keeps_allocateOwned [keeps_intros]: "keeps P (allocateOwned env r t)"
  unfolding allocateOwned_def by (intro keeps_intros)

lemma keeps_allocateEnvironment [keeps_intros]: "keeps P (allocateEnvironment env)"
  unfolding allocateEnvironment_def by (intro keeps_intros)

lemma keeps_recoverExplicit [keeps_intros]: "keeps P (recoverExplicit env r)"
  unfolding recoverExplicit_def by (intro keeps_intros)

lemma keeps_recoverClaimed [keeps_intros]: "keeps P (recoverClaimed env r es)"
proof (induction es)
  case (Cons e es)
  show ?case by (simp only: recoverClaimed.simps, intro keeps_intros Cons.IH)
qed (simp add: keeps_return)

lemma keeps_recoverOwned [keeps_intros]: "keeps P (recoverOwned env r)"
  unfolding recoverOwned_def by (intro keeps_intros)

lemma keeps_recoverEnvironmentReference [keeps_intros]: "keeps P (recoverEnvironmentReference env r)"
  unfolding recoverEnvironmentReference_def by (intro keeps_intros)

lemma keeps_adoptForCleanup [keeps_intros]: "keeps P (adoptForCleanup env)"
  unfolding adoptForCleanup_def by (intro keeps_intros)

lemma keeps_rejectProjectSelection [keeps_intros]: "keeps P (rejectProjectSelection env)"
  unfolding rejectProjectSelection_def by (intro keeps_intros)

text \<open>Repository credentials.\<close>

lemma keeps_repositoryForRun [keeps_intros]: "keeps P (repositoryForRun env r)"
  unfolding repositoryForRun_def by (intro keeps_intros)

lemma keeps_frozenRepositoryForRun [keeps_intros]: "keeps P (frozenRepositoryForRun env r)"
  unfolding frozenRepositoryForRun_def by (intro keeps_intros)

lemma keeps_getExactEnvironment [keeps_intros]: "keeps P (getExactEnvironment env r)"
  unfolding getExactEnvironment_def by (intro keeps_intros)

lemma keeps_readRepositoryLease [keeps_intros]: "keeps P (readRepositoryLease env r)"
  unfolding readRepositoryLease_def by (intro keeps_intros)

lemma keeps_readPendingRepositoryRevocation [keeps_intros]: "keeps P (readPendingRepositoryRevocation env r)"
  unfolding readPendingRepositoryRevocation_def by (intro keeps_intros)

lemma keeps_createSecret [keeps_intros]: "keeps P (createSecret env x)"
  unfolding createSecret_def by (intro keeps_intros) simp_all

lemma keeps_updateSecret [keeps_intros]: "keeps P (updateSecret env x)"
  unfolding updateSecret_def by (intro keeps_intros) simp_all

lemma keeps_deleteSecret [keeps_intros]: "keeps P (deleteSecret env key u v)"
  unfolding deleteSecret_def by (intro keeps_intros) simp_all

lemma keeps_deleteConfirmed [keeps_intros]: "keeps P (deleteConfirmed env key u v)"
  unfolding deleteConfirmed_def by (intro keeps_intros)

lemma keeps_persistPendingRepositoryRevocation [keeps_intros]: "keeps P (persistPendingRepositoryRevocation env so c g d)"
  unfolding persistPendingRepositoryRevocation_def by (intro keeps_intros)

lemma keeps_validatePendingRepositoryIdentity [keeps_intros]: "keeps P (validatePendingRepositoryIdentity env r p)"
  unfolding validatePendingRepositoryIdentity_def by (intro keeps_intros)

lemma keeps_validateActiveRepositoryIdentity [keeps_intros]: "keeps P (validateActiveRepositoryIdentity env r l)"
  unfolding validateActiveRepositoryIdentity_def by (intro keeps_intros)

lemma keeps_failRepositoryCredential [keeps_intros]: "keeps P (failRepositoryCredential env re)"
  unfolding failRepositoryCredential_def by (intro keeps_intros)

lemma keeps_blockPendingRepositoryCleanup [keeps_intros]: "keeps P (blockPendingRepositoryCleanup env ms)"
  unfolding blockPendingRepositoryCleanup_def by (intro keeps_intros)

lemma keeps_completePendingRepositoryRevocation [keeps_intros]: "keeps P (completePendingRepositoryRevocation env p)"
  unfolding completePendingRepositoryRevocation_def by (intro keeps_intros)

lemma keeps_revokeUnexpired [keeps_intros]: "keeps P (revokeUnexpired env pr c)"
  unfolding revokeUnexpired_def by (intro keeps_intros) simp_all

lemma keeps_migrateLegacyPending [keeps_intros]: "keeps P (migrateLegacyPending env p)"
  unfolding migrateLegacyPending_def by (intro keeps_intros)

lemma keeps_dispositionShown [keeps_intros]: "keeps P (dispositionShown env p)"
  unfolding dispositionShown_def by (intro keeps_intros)

lemma keeps_removeCompletedPending [keeps_intros]: "keeps P (removeCompletedPending env p)"
  unfolding removeCompletedPending_def by (intro keeps_intros)

lemma keeps_revokePending [keeps_intros]: "keeps P (revokePending env p)"
  unfolding revokePending_def Let_def by (intro keeps_intros)

lemma keeps_cleanupPendingRepositoryRevocation [keeps_intros]: "keeps P (cleanupPendingRepositoryRevocation env)"
  unfolding cleanupPendingRepositoryRevocation_def by (intro keeps_intros)

lemma keeps_secretChanged [keeps_intros]: "keeps P (secretChanged env)"
  unfolding secretChanged_def by (intro keeps_intros)

lemma keeps_forgetAndRequeue [keeps_intros]: "keeps P (forgetAndRequeue env)"
  unfolding forgetAndRequeue_def by (intro keeps_intros)

lemma keeps_rotationReplaced [keeps_intros]: "keeps P (rotationReplaced env l ro)"
  unfolding rotationReplaced_def by (intro keeps_intros)

lemma keeps_revokeRotated [keeps_intros]: "keeps P (revokeRotated env pr l)"
  unfolding revokeRotated_def by (intro keeps_intros)

lemma keeps_rotationOld [keeps_intros]: "keeps P (rotationOld env pr l ro)"
  unfolding rotationOld_def by (intro keeps_intros)

lemma keeps_rotateUnlessPod [keeps_intros]: "keeps P (rotateUnlessPod env l e)"
  unfolding rotateUnlessPod_def by (intro keeps_intros)

lemma keeps_checkBoundLease [keeps_intros]: "keeps P (checkBoundLease env l)"
  unfolding checkBoundLease_def by (intro keeps_intros)

lemma keeps_keepLease [keeps_intros]: "keeps P (keepLease env l)"
  unfolding keepLease_def by (intro keeps_intros)

lemma keeps_ensureLease [keeps_intros]: "keeps P (ensureLease env pr re ca ro l)"
  unfolding ensureLease_def by (intro keeps_intros)

lemma keeps_persistOrRevoke [keeps_intros]: "keeps P (persistOrRevoke env pr re c g d)"
  unfolding persistOrRevoke_def by (intro keeps_intros) simp_all

lemma keeps_issueRejected [keeps_intros]: "keeps P (issueRejected env pr re g c er)"
  unfolding issueRejected_def Let_def by (intro keeps_intros)

lemma keeps_storeIssued [keeps_intros]: "keeps P (storeIssued env re g c)"
  unfolding storeIssued_def by (intro keeps_intros)

lemma keeps_issueLease [keeps_intros]: "keeps P (issueLease env pr re ca ro)"
  unfolding issueLease_def by (intro keeps_intros) simp_all

lemma keeps_ensureIssued [keeps_intros]: "keeps P (ensureIssued env pr re ca ro)"
  unfolding ensureIssued_def by (intro keeps_intros)

lemma keeps_ensureFromProvider [keeps_intros]: "keeps P (ensureFromProvider env pr re)"
  unfolding ensureFromProvider_def by (intro keeps_intros)

lemma keeps_ensureRepositoryCredential [keeps_intros]: "keeps P (ensureRepositoryCredential env)"
  unfolding ensureRepositoryCredential_def by (intro keeps_intros)

lemma keeps_repositoryLaunchMaterial [keeps_intros]: "keeps P (repositoryLaunchMaterial env r e)"
  unfolding repositoryLaunchMaterial_def Let_def by (intro keeps_intros)

lemma keeps_recordRevoked [keeps_intros]: "keeps P (recordRevoked env)"
  unfolding recordRevoked_def by (intro keeps_intros)

lemma keeps_completeCleanup [keeps_intros]: "keeps P (completeCleanup env)"
  unfolding completeCleanup_def by (intro keeps_intros)

lemma keeps_failWith [keeps_intros]: "keeps P (failWith er)"
  unfolding failWith_def by (intro keeps_intros)

lemma keeps_deleteExpired [keeps_intros]: "keeps P (deleteExpired env r er x so ca)"
  unfolding deleteExpired_def by (intro keeps_intros)

lemma keeps_cleanupUnreadable [keeps_intros]: "keeps P (cleanupUnreadable env r er)"
  unfolding cleanupUnreadable_def by (intro keeps_intros)

lemma keeps_revokeLease [keeps_intros]: "keeps P (revokeLease env l)"
  unfolding revokeLease_def Let_def by (intro keeps_intros)

lemma keeps_cleanupLease [keeps_intros]: "keeps P (cleanupLease env r l)"
  unfolding cleanupLease_def by (intro keeps_intros)

lemma keeps_cleanupRepositoryCredential [keeps_intros]: "keeps P (cleanupRepositoryCredential env e)"
  unfolding cleanupRepositoryCredential_def by (intro keeps_intros)

text \<open>Cleanup and allocation.\<close>

lemma keeps_cleanupWithout [keeps_intros]: "keeps P (cleanupWithout env re ms)"
  unfolding cleanupWithout_def by (intro keeps_intros)

lemma keeps_settleEnvironment [keeps_intros]: "keeps P (settleEnvironment env e)"
  unfolding settleEnvironment_def by (intro keeps_intros)

lemma keeps_recoverForFinalize [keeps_intros]: "keeps P (recoverForFinalize env)"
  unfolding recoverForFinalize_def by (intro keeps_intros)

lemma keeps_cancelUnallocated [keeps_intros]: "keeps P (cancelUnallocated env)"
  unfolding cancelUnallocated_def Let_def by (intro keeps_intros)

lemma keeps_adoptRecovered [keeps_intros]: "keeps P (adoptRecovered env ref)"
  unfolding adoptRecovered_def by (intro keeps_intros)

lemma keeps_obtainReference [keeps_intros]: "keeps P (obtainReference env ref)"
  unfolding obtainReference_def by (intro keeps_intros)

lemma keeps_selectionFailed [keeps_intros]: "keeps P (selectionFailed env er)"
  unfolding selectionFailed_def by (intro keeps_intros)

lemma keeps_allocationFailed [keeps_intros]: "keeps P (allocationFailed env er)"
  unfolding allocationFailed_def by (intro keeps_intros)

lemma keeps_recordAllocation [keeps_intros]: "keeps P (recordAllocation env ref)"
  unfolding recordAllocation_def by (intro keeps_intros)

lemma keeps_reconcileUnallocated [keeps_intros]: "keeps P (reconcileUnallocated env)"
  unfolding reconcileUnallocated_def by (intro keeps_intros)

lemma keeps_publishObservation [keeps_intros]: "keeps P (publishObservation env ob st)"
  unfolding publishObservation_def by (intro keeps_intros)

lemma keeps_recordObservation [keeps_intros]: "keeps P (recordObservation env e x ob)"
  unfolding recordObservation_def by (intro keeps_intros)

lemma keeps_recordAcceptance [keeps_intros]: "keeps P (recordAcceptance env f er)"
  unfolding recordAcceptance_def by (intro keeps_intros)

end

section \<open>Handlers that call adapters\<close>

text \<open>With \<open>R\<close> for the end of a reconcile, the handlers that may call an adapter; everything else they are
  composed of keeps the invariant.\<close>

locale run_program = run_writes +
  fixes R :: "('a, 'b) run_ctl \<Rightarrow> bool"
  assumes final: "P s \<Longrightarrow> R s"
    and ends_releaseRun: "ends P R (releaseRun env)"
    and ends_acceptTask: "ends P R (acceptTask env adapter e)"
    and ends_observeTask: "ends P R (observeTask env adapter e)"
    and guards_cancelExecution: "guards P R (cancelExecution env adapter e)"
begin

lemma ends_quiet: "keeps P m \<Longrightarrow> ends P R m"
  using ends_keeps final by blast

lemma guards_quiet: "keeps P m \<Longrightarrow> guards P R m"
  using guards_keeps final by blast

lemma guards_cancelAccepted:
  assumes "keeps P m"
  shows "guards P R (cancelAccepted env e m)"
  unfolding cancelAccepted_def
  by (intro ends_intros keeps_intros guards_cancelExecution assms) (rule ends_quiet guards_quiet, intro keeps_intros)+

lemma ends_cleanupAllocated: "ends P R (cleanupAllocated env e)"
  unfolding cleanupAllocated_def
  by (intro ends_intros keeps_intros guards_cancelAccepted) (rule ends_quiet guards_quiet, intro keeps_intros)+

lemma ends_cleanupTerminal: "ends P R (cleanupTerminal env)"
  unfolding cleanupTerminal_def
  by (intro ends_intros keeps_intros ends_cleanupAllocated) (rule ends_quiet guards_quiet, intro keeps_intros)+

lemma guards_finalizeEnvironment: "guards P R (finalizeEnvironment env e)"
  unfolding finalizeEnvironment_def
  by (intro ends_intros keeps_intros guards_cancelAccepted) (rule ends_quiet guards_quiet, intro keeps_intros)+

lemma guards_finalizeAllocation: "guards P R (finalizeAllocation env)"
  unfolding finalizeAllocation_def finalizeReferenced_def
  by (intro ends_intros keeps_intros guards_finalizeEnvironment) (rule ends_quiet guards_quiet, intro keeps_intros)+

lemma ends_finalizeRun: "ends P R (finalizeRun env)"
  unfolding finalizeRun_def
  by (intro ends_intros keeps_intros guards_finalizeAllocation ends_releaseRun) (rule ends_quiet guards_quiet, intro keeps_intros)+

lemma ends_driveReachable: "ends P R (driveReachable env e)"
  unfolding driveReachable_def
  by (intro ends_intros keeps_intros ends_acceptTask ends_observeTask) (rule ends_quiet guards_quiet, intro keeps_intros)+

lemma ends_driveAllocated: "ends P R (driveAllocated env e d)"
  unfolding driveAllocated_def Let_def
  by (intro ends_intros keeps_intros ends_driveReachable) (rule ends_quiet guards_quiet, intro keeps_intros)+

lemma ends_reconcileAllocated: "ends P R (reconcileAllocated env)"
  unfolding reconcileAllocated_def
  by (intro ends_intros keeps_intros guards_cancelAccepted ends_driveAllocated) (rule ends_quiet guards_quiet, intro keeps_intros)+

lemma ends_reconcileLive: "ends P R (reconcileLive env)"
  unfolding reconcileLive_def
  by (intro ends_intros keeps_intros ends_reconcileAllocated) (rule ends_quiet guards_quiet, intro keeps_intros)+

lemma ends_reconcileUnfenced: "ends P R (reconcileUnfenced env)"
  unfolding reconcileUnfenced_def
  by (intro ends_intros keeps_intros ends_finalizeRun ends_cleanupTerminal ends_reconcileLive) (rule ends_quiet guards_quiet, intro keeps_intros)+

lemma ends_reconcileClaimed: "ends P R (reconcileClaimed env claim)"
  unfolding reconcileClaimed_def
  by (intro ends_intros keeps_intros ends_cleanupTerminal ends_reconcileUnfenced) (rule ends_quiet guards_quiet, intro keeps_intros)+

end

end
