(* ===== verification/Run_Safety.thy ===== *)
theory Run_Safety
  imports Run_Programs
begin

text \<open>
  How the Run controller uses adapters. The log of the model lists every write and every call that
  matters for authority; this theory shows in which order they come: no adapter is called without a fresh
  proof that the execution is current, nothing is dialled without one, and nothing is written after a
  call before the same fence has been proved current again.
\<close>

section \<open>The discipline of adapter calls\<close>

fun callFence :: "'q run_event \<Rightarrow> ExecutionFence option" where
  "callFence (EvEnsureAccepted t f m) = Some f"
| "callFence (EvObserve t f) = Some f"
| "callFence (EvCancel t f) = Some f"
| "callFence _ = None"

fun callTask :: "'q run_event \<Rightarrow> AdapterTask option" where
  "callTask (EvEnsureAccepted t f m) = Some t"
| "callTask (EvObserve t f) = Some t"
| "callTask (EvCancel t f) = Some t"
| "callTask _ = None"

fun isAcceptance :: "'q run_event \<Rightarrow> bool" where
  "isAcceptance (EvEnsureAccepted t f m) = True"
| "isAcceptance _ = False"

fun isDial :: "'q run_event \<Rightarrow> bool" where
  "isDial (EvDial f ok) = True"
| "isDial _ = False"

text \<open>Events that change nothing outside: reads, checks, calls.\<close>

fun writes :: "'q run_event \<Rightarrow> bool" where
  "writes (EvEnvironmentRead k x) = False"
| "writes (EvTenancy b) = False"
| "writes (EvIsolation b) = False"
| "writes (EvResolve f b) = False"
| "writes (EvCurrent f b) = False"
| "writes (EvDial f b) = False"
| "writes (EvEmit ev b) = False"
| "writes (EvEnsureAccepted t f m) = False"
| "writes (EvObserve t f) = False"
| "writes (EvCancel t f) = False"
| "writes (EvCancelled b) = False"
| "writes _ = True"

text \<open>Every call is followed by a proof that its fence is still current.\<close>

fun settled :: "'q run_event list \<Rightarrow> bool" where
  "settled [] = True"
| "settled (e # es) =
     ((case callFence e of None \<Rightarrow> True | Some f \<Rightarrow> EvCurrent f True \<in> set es) \<and> settled es)"

text \<open>The Environment read anew is the exact one of the Run.\<close>

definition allocationIs ::
  "('w, 'q, 'k, 'c, 'x) run_env \<Rightarrow> Run \<Rightarrow> NamespacedName \<Rightarrow> 'q Environment \<Rightarrow> bool" where
  "allocationIs env r key e =
     (case rst_EnvironmentRef (rn_Status r) of
        None \<Rightarrow> False
      | Some ref \<Rightarrow> key = (run_Namespace r, rer_Name ref) \<and> allocationError env r ref e = None)"

text \<open>The history ends with the proof that the fence is current.\<close>

definition provedCurrent ::
  "('w, 'q, 'k, 'c, 'x) run_env \<Rightarrow> Run \<Rightarrow> ExecutionFence \<Rightarrow> 'q run_event list \<Rightarrow> bool" where
  "provedCurrent env r f h \<longleftrightarrow>
     (\<exists>p key e. h = p @ [EvEnvironmentRead key (Some e), EvIsolation True, EvResolve f True]
        \<and> allocationIs env r key e \<and> (Validate f e :: 'k lifecycle_error option) = None \<and> environmentReachable env e)"

definition lastCall :: "'q run_event list \<Rightarrow> 'q run_event option" where
  "lastCall h = List.find (\<lambda>e. callFence e \<noteq> None) (rev h)"

text \<open>A dial belongs to the last call, uses its fence, and comes right after a fresh read of the exact
  allocation for which the fence is valid; during acceptance tenancy and isolation were proved right before.\<close>

definition provedDial ::
  "('w, 'q, 'k, 'c, 'x) run_env \<Rightarrow> ExecutionFence \<Rightarrow> 'q run_event list \<Rightarrow> bool" where
  "provedDial env f h \<longleftrightarrow>
     (\<exists>p key e r c. h = p @ [EvEnvironmentRead key (Some e)] \<and> allocationIs env r key e
        \<and> (Validate f e :: 'k lifecycle_error option) = None
        \<and> lastCall p = Some c \<and> callFence c = Some f \<and> callTask c = Some (adapterTask r)
        \<and> (isAcceptance c \<longrightarrow> (\<exists>p'. p = p' @ [EvTenancy True, EvIsolation True])))"

definition adapterGood :: "('w, 'q, 'k, 'c, 'x) run_env \<Rightarrow> 'q run_event list \<Rightarrow> 'q run_event \<Rightarrow> bool" where
  "adapterGood env h e \<longleftrightarrow>
     (writes e \<longrightarrow> settled h)
     \<and> (isDial e \<longrightarrow> (\<exists>f ok. e = EvDial f ok \<and> provedDial env f h))
     \<and> (\<forall>f. callFence e = Some f \<longrightarrow>
          settled h
          \<and> (\<exists>r. provedCurrent env r f h \<and> callTask e = Some (adapterTask r)
              \<and> (isAcceptance e \<longrightarrow> acceptanceAttempted env r)))"

definition quiet :: "'q run_event \<Rightarrow> bool" where
  "quiet e \<longleftrightarrow> callFence e = None \<and> \<not> isDial e"

lemma settled_append: "callFence e = None \<Longrightarrow> settled h \<Longrightarrow> settled (h @ [e])"
  by (induction h) (auto split: option.splits)

text \<open>A call is settled by the proof that follows it.\<close>

lemma settled_call:
  assumes "settled h" "callFence c = Some f" "list_all (\<lambda>e. callFence e = None) rest" "EvCurrent f True \<in> set rest"
  shows "settled (h @ c # rest)"
proof -
  have rest: "settled rest" using assms(3) by (induction rest) auto
  show ?thesis using assms(1) by (induction h) (use assms rest in \<open>auto split: option.splits\<close>)
qed

interpretation adapter: discipline "adapterGood env" quiet settled for env
  by unfold_locales (auto simp: adapterGood_def quiet_def settled_append)

definition inOrder :: "('w, 'q, 'k, 'c, 'x) run_env \<Rightarrow> ('w, 'q) run_ctl \<Rightarrow> bool" where
  "inOrder env s \<longleftrightarrow> ordered (adapterGood env) (lw_log s) \<and> settled (lw_log s)"

lemma ordinary_quiet: "ordinary e \<Longrightarrow> quiet e"
  by (cases e) (simp_all add: quiet_def)

section \<open>What the proofs of currentness leave in the log\<close>

definition inert :: "'q run_event \<Rightarrow> bool" where
  "inert e \<longleftrightarrow> callFence e = None \<and> \<not> isDial e \<and> \<not> writes e"

lemma inert_simps [simp]:
  "inert (EvEnvironmentRead k x)" "inert (EvTenancy b)" "inert (EvIsolation b)" "inert (EvResolve f b)"
  "inert (EvCurrent f b)" "inert (EvEmit ev b)" "inert (EvCancelled b)"
  by (simp_all add: inert_def)

lemma inert_quiet: "inert e \<Longrightarrow> quiet e"
  by (simp add: inert_def quiet_def)

text \<open>A program that only reads: it keeps the Run and leaves inert events.\<close>

definition inspects :: "('w, 'q, 'a) ctl \<Rightarrow> ('a \<Rightarrow> 'q run_event list \<Rightarrow> bool) \<Rightarrow> bool" where
  "inspects m Q \<longleftrightarrow>
     (\<forall>s. \<exists>es. rc_run (snd (run_state m s)) = rc_run s \<and> lw_log (snd (run_state m s)) = lw_log s @ es
        \<and> list_all inert es \<and> Q (fst (run_state m s)) es)"

lemma inspectsI:
  "(\<And>s. wp m (\<lambda>x s'. \<exists>es. rc_run s' = rc_run s \<and> lw_log s' = lw_log s @ es \<and> list_all inert es \<and> Q x es) s)
     \<Longrightarrow> inspects m Q"
  by (simp add: inspects_def wp_run)

lemma inspectsE:
  assumes "inspects m Q" "run_state m s = (x, s')"
  obtains es where "rc_run s' = rc_run s" "lw_log s' = lw_log s @ es" "list_all inert es" "Q x es"
  using assms unfolding inspects_def by (metis fst_conv snd_conv)

lemma inspects_freshAllocation:
  "inspects (freshAllocation env r) (\<lambda>x es. \<forall>e. x = Inr e \<longrightarrow>
     (\<exists>key. es = [EvEnvironmentRead key (Some e)] \<and> allocationIs env r key e))"
  by (rule inspectsI)
    (auto simp: freshAllocation_def getAllocatedEnvironment_def freshEnvironment_def allocationIs_def wp_simps
        split: option.splits sum.splits prod.splits)

lemma inspects_isolationCurrent:
  "inspects (isolationCurrent env) (\<lambda>x es. x = Inr True \<longrightarrow> es = [EvIsolation True])"
  by (rule inspectsI) (auto simp: isolationCurrent_def wp_simps split: sum.splits prod.splits)

lemma inspects_revalidateScope:
  "inspects (revalidateScope env ls) (\<lambda>x es. \<forall>c. x = Inr c \<longrightarrow> es = [EvTenancy True])"
  by (rule inspectsI) (auto simp: revalidateScope_def theRun_def wp_simps split: sum.splits prod.splits)

text \<open>Sequencing: the second part starts from the log of the first.\<close>

lemma inspects_ifErr:
  assumes "inspects m A" "\<And>e. inspects (g e) (C e)" "\<And>a. inspects (f a) (B a)"
    "\<And>e es x es'. A (Inl e) es \<Longrightarrow> C e x es' \<Longrightarrow> Q x (es @ es')"
    "\<And>a es x es'. A (Inr a) es \<Longrightarrow> B a x es' \<Longrightarrow> Q x (es @ es')"
  shows "inspects (ifErr m g f) Q"
proof (rule inspectsI)
  fix s
  obtain x s1 where m: "run_state m s = (x, s1)" by force
  obtain es where es: "rc_run s1 = rc_run s" "lw_log s1 = lw_log s @ es" "list_all inert es" "A x es"
    by (rule inspectsE [OF assms(1) m])
  define k where "k = (case x of Inl e \<Rightarrow> g e | Inr a \<Rightarrow> f a)"
  define K where "K = (case x of Inl e \<Rightarrow> C e | Inr a \<Rightarrow> B a)"
  have k: "inspects k K" using assms(2,3) by (cases x) (simp_all add: k_def K_def)
  obtain y s2 where f: "run_state k s1 = (y, s2)" by force
  obtain es' where es': "rc_run s2 = rc_run s1" "lw_log s2 = lw_log s1 @ es'" "list_all inert es'" "K y es'"
    by (rule inspectsE [OF k f])
  have "Q y (es @ es')" using es(4) es'(4) assms(4,5) by (cases x) (simp_all add: K_def)
  then show "wp (ifErr m g f) (\<lambda>x s'. \<exists>es. rc_run s' = rc_run s \<and> lw_log s' = lw_log s @ es \<and> list_all inert es \<and> Q x es) s"
    using m f es es' by (auto simp: ifErr_def wp_def k_def)
qed

lemma inspects_mono: "inspects m Q \<Longrightarrow> (\<And>x es. Q x es \<Longrightarrow> R x es) \<Longrightarrow> inspects m R"
  unfolding inspects_def by meson

lemma inspects_return: "Q x [] \<Longrightarrow> inspects (ret x) Q"
  by (rule inspectsI) (auto simp: wp_simps)

lemma inspects_bindE:
  assumes "inspects m A" "\<And>a. inspects (f a) (B a)"
    "\<And>e es. A (Inl e) es \<Longrightarrow> Q (Inl e) es" "\<And>a es x es'. A (Inr a) es \<Longrightarrow> B a x es' \<Longrightarrow> Q x (es @ es')"
  shows "inspects (bindE m f) Q"
  unfolding bindE_def
  by (rule inspects_ifErr [OF assms(1) _ assms(2), where C = "\<lambda>e x es. x = Inl e \<and> es = []"])
    (auto intro: inspects_return assms(3,4))

lemma inspects_currentAllocation:
  fixes env :: "('w, 'q, 'k, 'c, 'x) run_env"
  shows "inspects (currentAllocation env r e) (\<lambda>x es. x = Inr True \<longrightarrow>
     (\<exists>key e'. es = [EvEnvironmentRead key (Some e'), EvIsolation True] \<and> allocationIs env r key e'
        \<and> (Validate (CaptureExecutionFence e) e' :: 'k lifecycle_error option) = None \<and> environmentReachable env e'))"
  unfolding currentAllocation_def
proof (rule inspects_ifErr [OF inspects_freshAllocation])
  fix err
  show "inspects (if isNotFoundError (re_NotFound env) err \<or> isAllocatedGone err then returnOk False else throwError err)
     (\<lambda>x es. x \<noteq> Inr True)"
    by (simp add: inspects_return)
next
  fix current
  show "inspects
     (case Validate (CaptureExecutionFence e) current :: 'k lifecycle_error option of
        None \<Rightarrow> if \<not> environmentReachable env current then returnOk False else isolationCurrent env
      | Some _ \<Rightarrow> returnOk False)
     (\<lambda>x es. x = Inr True \<longrightarrow> es = [EvIsolation True] \<and> environmentReachable env current
        \<and> (Validate (CaptureExecutionFence e) current :: 'k lifecycle_error option) = None)"
    using inspects_isolationCurrent [of env]
    by (auto simp: inspects_return split: option.split intro: inspects_mono)
qed auto

lemma inspects_resolve:
  "inspects (resolveAllocatedExecution env r e) (\<lambda>x es. \<forall>ex. x = Inr (Some ex) \<longrightarrow>
     (\<forall>h. provedCurrent env r (CaptureExecutionFence e) (h @ es)))"
  unfolding resolveAllocatedExecution_def
proof (rule inspects_bindE [OF inspects_currentAllocation])
  fix current
  show "inspects (if \<not> current then returnOk None
      else let fence = CaptureExecutionFence e in
        bindE (ask (re_ResolveExecution env fence) (\<lambda>x. [EvResolve fence (is_ok x)])) (\<lambda>ex. returnOk (Some ex)))
     (\<lambda>x es. \<forall>ex. x = Inr (Some ex) \<longrightarrow> current \<and> es = [EvResolve (CaptureExecutionFence e) True])"
    by (auto simp: inspects_return Let_def wp_simps split: sum.splits prod.splits intro!: inspectsI)
qed (force simp: provedCurrent_def)+

lemma inspects_current:
  "inspects (allocatedExecutionCurrent env r e ex)
     (\<lambda>x es. x = Inr True \<longrightarrow> EvCurrent (CaptureExecutionFence e) True \<in> set es)"
  unfolding allocatedExecutionCurrent_def
proof (rule inspects_bindE [OF inspects_currentAllocation])
  fix current
  show "inspects (if \<not> current then returnOk False
      else let fence = CaptureExecutionFence e in
        ifErr (ask (re_ExecutionCurrent env fence ex) (\<lambda>x. [EvCurrent fence (case x of Inl _ \<Rightarrow> False | Inr b \<Rightarrow> b)]))
          (\<lambda>e. if isFenceChanged e then returnOk False else throwError e) returnOk)
     (\<lambda>x es. x = Inr True \<longrightarrow> EvCurrent (CaptureExecutionFence e) True \<in> set es)"
    by (auto simp: inspects_return Let_def wp_simps split: sum.splits prod.splits intro!: inspectsI)
qed auto

section \<open>During a call\<close>

text \<open>The log of a running call \<open>c\<close> for the Run \<open>r\<close>, begun after the history \<open>h\<close>.\<close>

definition inCall ::
  "('w, 'q, 'k, 'c, 'x) run_env \<Rightarrow> 'q run_event list \<Rightarrow> 'q run_event \<Rightarrow> Run \<Rightarrow> ('w, 'q) run_ctl \<Rightarrow> bool" where
  "inCall env h c r s \<longleftrightarrow>
     (\<exists>rest. lw_log s = h @ c # rest \<and> list_all (\<lambda>e. callFence e = None) rest)
     \<and> ordered (adapterGood env) (lw_log s) \<and> rc_run s = r"

lemma ordered_inert: "list_all inert es \<Longrightarrow> ordered (adapterGood env) h \<Longrightarrow> ordered (adapterGood env) (h @ es)"
  by (induction es rule: rev_induct) (auto simp: adapterGood_def inert_def simp flip: append_assoc)

lemma inCall_inert:
  assumes "inCall env h c r s" "rc_run s' = rc_run s" "lw_log s' = lw_log s @ es" "list_all inert es"
  shows "inCall env h c r s'"
proof -
  have "list_all (\<lambda>e. callFence e = None) es"
    using assms(4) by (auto simp: list_all_iff inert_def)
  then show ?thesis
    using assms ordered_inert [OF assms(4), of env "lw_log s"] by (auto simp: inCall_def)
qed

lemma inCall_inspects: "inspects m Q \<Longrightarrow> keeps (inCall env h c r) m"
  unfolding keeps_def using inCall_inert [of env h c r] by (metis inspectsE prod.collapse)

lemma lastCall_append:
  "list_all (\<lambda>e. callFence e = None) rest \<Longrightarrow> callFence c \<noteq> None \<Longrightarrow> lastCall (h @ c # rest) = Some c"
proof (induction rest rule: rev_induct)
  case (snoc e es)
  then show ?case by (simp add: lastCall_def)
qed (simp add: lastCall_def)

lemma inCall_dialProcess:
  fixes env :: "('w, 'q, 'k, 'c, 'x) run_env"
  assumes s: "inCall env h c r s" and c: "callFence c = Some f" "callTask c = Some (adapterTask r)"
    and acc: "isAcceptance c \<Longrightarrow> \<exists>p. lw_log s = p @ [EvTenancy True, EvIsolation True]"
  shows "inCall env h c r (snd (run_state (dialProcess env f) s))"
proof -
  obtain x s1 where m: "run_state (freshAllocation env r) s = (x, s1)" by force
  obtain es where es: "rc_run s1 = rc_run s" "lw_log s1 = lw_log s @ es" "list_all inert es"
      "\<forall>e. x = Inr e \<longrightarrow> (\<exists>key. es = [EvEnvironmentRead key (Some e)] \<and> allocationIs env r key e)"
    by (rule inspectsE [OF inspects_freshAllocation m])
  have s1: "inCall env h c r s1" using inCall_inert [OF s es(1-3)] .
  have r: "rc_run s = r" using s by (simp add: inCall_def)
  show ?thesis
  proof (cases "\<exists>e. x = Inr e \<and> (Validate f e :: 'k lifecycle_error option) = None")
    case False
    then show ?thesis using s1 m r
      by (auto simp: dialProcess_def theRun_def reads_def bindE_def ifErr_def split: sum.split option.split)
  next
    case True
    then obtain e where e: "x = Inr e" "(Validate f e :: 'k lifecycle_error option) = None" by blast
    obtain key where key: "es = [EvEnvironmentRead key (Some e)]" "allocationIs env r key e" using es(4) e(1) by blast
    have last: "lastCall (lw_log s) = Some c"
      using s c(1) lastCall_append by (force simp: inCall_def)
    have dial: "provedDial env f (lw_log s1)"
      unfolding provedDial_def using es(2) key e(2) last c acc by (auto intro!: exI [of _ r])
    obtain y w where y: "run_state (re_DialProcess env f) (lw_world s1) = (y, w)" by force
    have "run_state (dialProcess env f) s = (y, s1\<lparr>lw_world := w, lw_log := lw_log s1 @ [EvDial f (is_ok y)]\<rparr>)"
      using m r e y by (simp add: dialProcess_def theRun_def reads_def bindE_def ifErr_def ask_def)
    then show ?thesis using s1 dial by (auto simp: inCall_def adapterGood_def)
  qed
qed

lemma inCall_acceptanceDial_kept:
  fixes env :: "('w, 'q, 'k, 'c, 'x) run_env"
  assumes c: "callFence c = Some f" "callTask c = Some (adapterTask r)"
  shows "keeps (inCall env h c r) (acceptanceDial env f)"
  unfolding keeps_def
proof (intro allI impI)
  fix s assume s: "inCall env h c r s"
  obtain x s1 where m: "run_state (revalidateScope env [LifecycleActive]) s = (x, s1)" by force
  obtain es where es: "rc_run s1 = rc_run s" "lw_log s1 = lw_log s @ es" "list_all inert es"
      "\<forall>c. x = Inr c \<longrightarrow> es = [EvTenancy True]"
    by (rule inspectsE [OF inspects_revalidateScope m])
  obtain y s2 where n: "run_state (isolationCurrent env) s1 = (y, s2)" by force
  obtain es' where es': "rc_run s2 = rc_run s1" "lw_log s2 = lw_log s1 @ es'" "list_all inert es'"
      "y = Inr True \<longrightarrow> es' = [EvIsolation True]"
    by (rule inspectsE [OF inspects_isolationCurrent n])
  have s1: "inCall env h c r s1" using inCall_inert [OF s es(1-3)] .
  have s2: "inCall env h c r s2" using inCall_inert [OF s1 es'(1-3)] .
  have dial: "inCall env h c r (snd (run_state (dialProcess env f) s2))" if "x = Inr a" "y = Inr True" for a
    by (rule inCall_dialProcess [OF s2 c]) (use es es' that in auto)
  show "inCall env h c r (snd (run_state (acceptanceDial env f) s))"
    using m n s1 s2 dial by (auto simp: acceptanceDial_def bindE_def ifErr_def split: sum.split)
qed

lemma inCall_emitEvent_kept: "keeps (inCall env h c r) (emitEvent env ev)"
  by (rule inCall_inspects [where Q = "\<lambda>_ _. True"], rule inspectsI)
    (auto simp: emitEvent_def theRun_def wp_simps split: option.split prod.split)

section \<open>The three calls\<close>

text \<open>A call begins with its event; then the adapter's script runs.\<close>

lemma inCall_begin:
  assumes s: "inOrder env s" and r: "rc_run s = r" and c: "callFence c = Some f" "callTask c = Some (adapterTask r)"
    and p: "provedCurrent env r f (lw_log s)" "isAcceptance c \<Longrightarrow> acceptanceAttempted env r"
    and w: "\<not> writes c" "\<not> isDial c"
  shows "inCall env (lw_log s) c r (s\<lparr>lw_world := w, lw_log := lw_log s @ [c]\<rparr>)"
  using assms by (auto simp: inCall_def inOrder_def adapterGood_def)

lemma inCall_callEnsureAccepted:
  assumes s: "inOrder env s" and r: "rc_run s = r"
    and p: "provedCurrent env r f (lw_log s)" "acceptanceAttempted env r"
  shows "inCall env (lw_log s) (EvEnsureAccepted (adapterTask r) f material) r
     (snd (run_state (callEnsureAccepted env adapter e f material) s))"
proof -
  define c :: "'b run_event" where "c = EvEnsureAccepted (adapterTask r) f material"
  obtain sc w where a: "run_state (al_EnsureAccepted adapter (adapterTask r) (sandboxView env e) material) (lw_world s) = (sc, w)"
    by force
  have b: "inCall env (lw_log s) c r (s\<lparr>lw_world := w, lw_log := lw_log s @ [c]\<rparr>)"
    by (rule inCall_begin [OF s r _ _ p(1)]) (simp_all add: c_def p)
  have "keeps (inCall env (lw_log s) c r) (runScript (acceptanceDial env f) (emitEvent env) sc)"
    by (intro keeps_runScript inCall_acceptanceDial_kept inCall_emitEvent_kept) (simp_all add: c_def)
  from keepsD [OF this b] show ?thesis
    using a r by (simp add: callEnsureAccepted_def theRun_def reads_def ask_def c_def)
qed

lemma inCall_dialProcess_kept:
  assumes "callFence c = Some f" "callTask c = Some (adapterTask r)" "\<not> isAcceptance c"
  shows "keeps (inCall env h c r) (dialProcess env f)"
  unfolding keeps_def using inCall_dialProcess [OF _ assms(1,2)] assms(3) by blast

lemma inCall_callObserve:
  assumes s: "inOrder env s" and r: "rc_run s = r" and p: "provedCurrent env r f (lw_log s)"
  shows "inCall env (lw_log s) (EvObserve (adapterTask r) f) r (snd (run_state (callObserve env adapter e f) s))"
proof -
  define c :: "'b run_event" where "c = EvObserve (adapterTask r) f"
  obtain sc w where a: "run_state (al_Observe adapter (adapterTask r) (sandboxView env e)) (lw_world s) = (sc, w)"
    by force
  have b: "inCall env (lw_log s) c r (s\<lparr>lw_world := w, lw_log := lw_log s @ [c]\<rparr>)"
    by (rule inCall_begin [OF s r _ _ p(1)]) (simp_all add: c_def p)
  have "keeps (inCall env (lw_log s) c r) (runScript (dialProcess env f) (emitEvent env) sc)"
    by (intro keeps_runScript inCall_dialProcess_kept inCall_emitEvent_kept) (simp_all add: c_def)
  from keepsD [OF this b] show ?thesis
    using a r by (simp add: callObserve_def theRun_def reads_def ask_def c_def)
qed

lemma inCall_callCancel:
  assumes s: "inOrder env s" and r: "rc_run s = r" and p: "provedCurrent env r f (lw_log s)"
  shows "inCall env (lw_log s) (EvCancel (adapterTask r) f) r (snd (run_state (callCancel env adapter e f) s))"
proof -
  define c :: "'b run_event" where "c = EvCancel (adapterTask r) f"
  obtain sc w where a: "run_state (al_Cancel adapter (adapterTask r) (sandboxView env e)) (lw_world s) = (sc, w)"
    by force
  have b: "inCall env (lw_log s) c r (s\<lparr>lw_world := w, lw_log := lw_log s @ [c]\<rparr>)"
    by (rule inCall_begin [OF s r _ _ p(1)]) (simp_all add: c_def p)
  have n: "keeps (inCall env (lw_log s) c r) (note_event (EvCancelled y))" for y
    by (rule inCall_inspects [where Q = "\<lambda>_ _. True"], rule inspectsI) (auto simp: wp_simps)
  have "keeps (inCall env (lw_log s) c r) (do { x \<leftarrow> runScript (dialProcess env f) (emitEvent env) sc;
      note_event (EvCancelled (x = None)); ret x })"
    by (intro keeps_intros n keeps_runScript inCall_dialProcess_kept inCall_emitEvent_kept) (simp_all add: c_def)
  from keepsD [OF this b] show ?thesis
    using a r by (simp add: callCancel_def theRun_def reads_def ask_def c_def)
qed

text \<open>The proof after the call: a log is in order again, or at least no event of it is out of order.\<close>

lemma after_call:
  assumes s: "inCall env h c r s" and h: "settled h" and c: "callFence c = Some (CaptureExecutionFence e)"
    and m: "run_state (allocatedExecutionCurrent env r' e ex) s = (x, s')"
  shows "ordered (adapterGood env) (lw_log s')" "rc_run s' = r" "x = Inr True \<Longrightarrow> inOrder env s'"
proof -
  obtain es where es: "rc_run s' = rc_run s" "lw_log s' = lw_log s @ es" "list_all inert es"
      "x = Inr True \<longrightarrow> EvCurrent (CaptureExecutionFence e) True \<in> set es"
    by (rule inspectsE [OF inspects_current m])
  have s': "inCall env h c r s'" using inCall_inert [OF s es(1-3)] .
  then show "ordered (adapterGood env) (lw_log s')" "rc_run s' = r" by (simp_all add: inCall_def)
  assume "x = Inr True"
  then have cur: "EvCurrent (CaptureExecutionFence e) True \<in> set es" using es(4) by simp
  obtain rest where rest: "lw_log s = h @ c # rest" "list_all (\<lambda>e. callFence e = None) rest"
    using s by (auto simp: inCall_def)
  have "settled (h @ c # rest @ es)"
    by (rule settled_call [OF h c]) (use rest(2) es(3) cur in \<open>auto simp: list_all_iff inert_def\<close>)
  with s' es(2) rest(1) show "inOrder env s'" by (simp add: inOrder_def inCall_def)
qed

section \<open>The handlers\<close>

lemma quiet_simps [simp]:
  "quiet (EvRunStatus r b)" "quiet (EvRunUpdate r b)" "quiet (EvRunPatch r b)"
  "quiet (EvEnvironmentStatus e e' b)" "quiet (EvTranscriptDelete n1 n2 n3 n4 b)"
  by (simp_all add: quiet_def)

lemma quiet_keeps: "emits lw_log quiet m \<Longrightarrow> keeps (inOrder env) m"
  using adapter.emits_keeps [of m env] by (simp add: keeps_def inOrder_def)

lemmas write_defs = runStatusUpdate_def runUpdate_def forgetRotation_def persistRepositoryRotation_def
  addFinalizer_def offboardRun_def releaseRun_def deleteTranscript_def removeFinalizer_def releaseClaim_def
  takeClaim_def withdrawReadiness_def environmentStatusUpdate_def theRun_def setRun_def onStatus_def now_def kread_def
  optionError_def

interpretation writes: run_writes env "inOrder env" for env
proof unfold_locales
  fix s :: "('a, 'b) run_ctl" and ev :: "'b run_event" assume "ordinary ev" "inOrder env s"
  then show "inOrder env (s\<lparr>lw_log := lw_log s @ [ev]\<rparr>)"
    using adapter.quiet_append [of env "lw_log s" "[ev]"] by (simp add: inOrder_def ordinary_quiet)
qed (auto simp: inOrder_def write_defs intro!: quiet_keeps emits_intros)

text \<open>A program that only reads keeps a log in order.\<close>

lemma inOrder_inspects:
  assumes "inOrder env s" "rc_run s' = rc_run s" "lw_log s' = lw_log s @ es" "list_all inert es"
  shows "inOrder env s'"
proof -
  have "list_all quiet es" using assms(4) by (auto simp: list_all_iff intro: inert_quiet)
  then show ?thesis using assms adapter.quiet_append [of env "lw_log s" es] by (simp add: inOrder_def)
qed

text \<open>The proof before the call.\<close>

lemma before_call:
  assumes s: "inOrder env s" and m: "run_state (resolveAllocatedExecution env r e) s = (x, s')"
  shows "inOrder env s'" "rc_run s' = rc_run s"
    "x = Inr (Some ex) \<Longrightarrow> provedCurrent env r (CaptureExecutionFence e) (lw_log s')"
proof -
  obtain es where es: "rc_run s' = rc_run s" "lw_log s' = lw_log s @ es" "list_all inert es"
      "\<forall>ex. x = Inr (Some ex) \<longrightarrow> (\<forall>h. provedCurrent env r (CaptureExecutionFence e) (h @ es))"
    by (rule inspectsE [OF inspects_resolve m])
  show "inOrder env s'" "rc_run s' = rc_run s" by (rule inOrder_inspects [OF s es(1-3)]) (rule es(1))
  show "x = Inr (Some ex) \<Longrightarrow> provedCurrent env r (CaptureExecutionFence e) (lw_log s')" using es(2,4) by simp
qed

lemma ordered_of: "inOrder env s \<Longrightarrow> ordered (adapterGood env) (lw_log s)"
  by (simp add: inOrder_def)

lemma settled_of: "inOrder env s \<Longrightarrow> settled (lw_log s)"
  by (simp add: inOrder_def)

lemma inCall_ordered: "inCall env h c r s \<Longrightarrow> ordered (adapterGood env) (lw_log s)"
  by (simp add: inCall_def)

lemma order_cancelExecution:
  "guards (inOrder env) (\<lambda>s. ordered (adapterGood env) (lw_log s)) (cancelExecution env adapter e)"
  unfolding guards_def
proof (intro allI impI)
  fix s assume s: "inOrder env s"
  define r where "r = rc_run s"
  obtain x s1 where m: "run_state (resolveAllocatedExecution env r e) s = (x, s1)" by force
  note s1 = before_call [OF s m]
  show "wp (cancelExecution env adapter e)
     (\<lambda>x s'. case x of Inl _ \<Rightarrow> ordered (adapterGood env) (lw_log s') | Inr _ \<Rightarrow> inOrder env s') s"
  proof (cases "\<exists>ex. x = Inr (Some ex)")
    case False
    then show ?thesis using m ordered_of [OF s1(1)]
      by (auto simp: cancelExecution_def theRun_def wp_simps failWith_def r_def [symmetric] split: sum.splits option.splits)
        (auto simp: wp_def wp_simps failWith_def split: sum.splits option.splits)
  next
    case True
    then obtain ex where ex: "x = Inr (Some ex)" by blast
    obtain y s2 where c: "run_state (callCancel env adapter e (CaptureExecutionFence e)) s1 = (y, s2)" by force
    have call: "inCall env (lw_log s1) (EvCancel (adapterTask r) (CaptureExecutionFence e)) r s2"
      using inCall_callCancel [OF s1(1) _ s1(3) [OF ex], of adapter e] c s1(2) by (simp add: r_def)
    obtain z s3 where n: "run_state (allocatedExecutionCurrent env r e ex) s2 = (z, s3)" by force
    note s3 = after_call [OF call settled_of [OF s1(1)] _ n]
    show ?thesis
      using m ex c n s3 inCall_ordered [OF call]
      by (auto simp: cancelExecution_def theRun_def wp_simps r_def [symmetric])
        (auto simp: wp_def ifErr_def failWith_def split: option.splits sum.splits)
  qed
qed

text \<open>Programs that leave the log and the Run alone.\<close>

definition untouched :: "'q run_event list \<Rightarrow> Run \<Rightarrow> ('w, 'q) run_ctl \<Rightarrow> bool" where
  "untouched l r s \<longleftrightarrow> lw_log s = l \<and> rc_run s = r"

lemma untouched_kread: "keeps (untouched l r) (kread m)"
  by (auto simp: keeps_def kread_def mapErr_def ifErr_def ask_def untouched_def split: prod.split sum.split)

lemma untouched_now: "keeps (untouched l r) (now env)"
  by (auto simp: keeps_def now_def ask_def untouched_def split: prod.split)

lemma untouched_resolveCredential: "keeps (untouched l r) (resolveCredential env r')"
  unfolding resolveCredential_def credentialRead_def by (intro keeps_intros untouched_kread)

lemma untouched_repositoryLaunchMaterial: "keeps (untouched l r) (repositoryLaunchMaterial env r' e)"
  unfolding repositoryLaunchMaterial_def readRepositoryLease_def Let_def
  by (intro keeps_intros untouched_kread untouched_now)

lemma untouchedD:
  "keeps (untouched (lw_log s) (rc_run s)) m \<Longrightarrow> run_state m s = (x, s') \<Longrightarrow> lw_log s' = lw_log s \<and> rc_run s' = rc_run s"
  using keepsD [of "untouched (lw_log s) (rc_run s)" m s] by (simp add: untouched_def)

lemma inOrder_untouched: "inOrder env s \<Longrightarrow> lw_log s' = lw_log s \<Longrightarrow> inOrder env s'"
  by (simp add: inOrder_def)

text \<open>What follows a proof: only with a current execution is anything written.\<close>

lemma ordered_ends: "keeps (inOrder env) m \<Longrightarrow> inOrder env s \<Longrightarrow> ordered (adapterGood env) (lw_log (snd (run_state m s)))"
  by (rule ordered_of, rule keepsD)

lemma ordered_acceptNow:
  assumes s: "inOrder env s" and acc: "acceptanceAttempted env (rc_run s)"
  shows "ordered (adapterGood env) (lw_log (snd (run_state (acceptNow env adapter e credential) s)))"
proof -
  define r where "r = rc_run s"
  define f where "f = CaptureExecutionFence e"
  obtain x s1 where m: "run_state (resolveAllocatedExecution env r e) s = (x, s1)" by force
  note s1 = before_call [OF s m]
  obtain y s2 where l: "run_state (repositoryLaunchMaterial env r e) s1 = (y, s2)" by force
  note s2 = untouchedD [OF untouched_repositoryLaunchMaterial l]
  have ord: "ordered (adapterGood env) (lw_log s1)" "ordered (adapterGood env) (lw_log s2)"
    using ordered_of [OF s1(1)] s2 by simp_all
  show ?thesis
  proof (cases "\<exists>ex secretEnv. x = Inr (Some ex) \<and> y = Inr secretEnv")
    case False
    then show ?thesis using m l ord
      by (auto simp: acceptNow_def theRun_def reads_def orFail_def ifErr_def r_def [symmetric] split: sum.split option.split)
  next
    case True
    then obtain ex secretEnv where ex: "x = Inr (Some ex)" and y: "y = Inr secretEnv" by blast
    define material where "material = \<lparr>lm_AgentCredential = credential, lm_RepositorySecretEnv = secretEnv\<rparr>"
    obtain z s3 where c: "run_state (callEnsureAccepted env adapter e f material) s2 = (z, s3)" by force
    have o2: "inOrder env s2" using inOrder_untouched [OF s1(1)] s2 by simp
    have r2: "rc_run s2 = r" using s2 s1(2) by (simp add: r_def)
    have call: "inCall env (lw_log s2) (EvEnsureAccepted (adapterTask r) f material) r s3"
      using inCall_callEnsureAccepted [OF o2 r2, of f material adapter e] c s1(3) [OF ex] s2 acc
      by (simp add: f_def r_def)
    obtain v s4 where n: "run_state (allocatedExecutionCurrent env r e ex) s3 = (v, s4)" by force
    note s4 = after_call [OF call settled_of [OF o2] _ n]
    have fin: "v = Inr True \<Longrightarrow> ordered (adapterGood env) (lw_log (snd (run_state (recordAcceptance env f z) s4)))"
      by (rule ordered_ends) (auto simp: f_def intro: writes.keeps_recordAcceptance s4(3))
    have "run_state (acceptNow env adapter e credential) s =
       (case v of Inl err \<Rightarrow> ((noResult, Some err), s4)
        | Inr current \<Rightarrow> if \<not> current then ((requeueNow, None), s4) else run_state (recordAcceptance env f z) s4)"
      using m l c n ex y
      by (simp add: acceptNow_def theRun_def reads_def orFail_def ifErr_def r_def [symmetric] f_def [symmetric]
          material_def [symmetric] split: sum.split)
    then show ?thesis using s4(1) fin by (auto simp: f_def split: sum.split)
  qed
qed

lemma order_acceptTask:
  "ends (inOrder env) (\<lambda>s. ordered (adapterGood env) (lw_log s)) (acceptTask env adapter e)"
  unfolding ends_def
proof (intro allI impI)
  fix s assume s: "inOrder env s"
  define r where "r = rc_run s"
  show "ordered (adapterGood env) (lw_log (snd (run_state (acceptTask env adapter e) s)))"
  proof (cases "acceptanceAttempted env r")
    case False
    define m where "m = orFail (captureChanges env (Some e) True False) (\<lambda>_. finish requeueNow (markAcceptanceAttempted env))"
    have "keeps (inOrder env) m" unfolding m_def by (intro keeps_intros)
    then show ?thesis using False ordered_ends [OF _ s, of m]
      by (simp add: acceptTask_def theRun_def reads_def r_def m_def)
  next
    case True
    obtain x s1 where m: "run_state (resolveCredential env r) s = (x, s1)" by force
    note s1 = untouchedD [OF untouched_resolveCredential m]
    have o1: "inOrder env s1" using inOrder_untouched [OF s] s1 by simp
    show ?thesis
    proof (cases x)
      case (Inr credential)
      then show ?thesis using True m s1 ordered_acceptNow [OF o1, of adapter e credential]
        by (simp add: acceptTask_def theRun_def reads_def ifErr_def r_def)
    next
      case (Inl p)
      define n where "n = (\<lambda>(reason, err).
          if reason = ''ProfileNotFound'' \<or> reason = ''SecretNotReady'' then waitForCredential env reason (re_ErrText env err)
          else if reason = [] then ret (noResult, Some err)
          else finish noResult (failCredential env reason (re_ErrText env err))) p"
      have "keeps (inOrder env) n" unfolding n_def by (intro keeps_intros)
      then show ?thesis using True m Inl ordered_ends [OF _ o1, of n]
        by (simp add: acceptTask_def theRun_def reads_def ifErr_def r_def n_def)
    qed
  qed
qed

lemma order_observeTask:
  "ends (inOrder env) (\<lambda>s. ordered (adapterGood env) (lw_log s)) (observeTask env adapter e)"
  unfolding ends_def
proof (intro allI impI)
  fix s assume s: "inOrder env s"
  define r where "r = rc_run s"
  define f where "f = CaptureExecutionFence e"
  obtain x s1 where m: "run_state (resolveAllocatedExecution env r e) s = (x, s1)" by force
  note s1 = before_call [OF s m]
  obtain y s2 where c: "run_state (callObserve env adapter e f) s1 = (y, s2)" by force
  show "ordered (adapterGood env) (lw_log (snd (run_state (observeTask env adapter e) s)))"
  proof (cases "\<exists>ex. x = Inr (Some ex)")
    case False
    then show ?thesis using m ordered_of [OF s1(1)]
      by (auto simp: observeTask_def theRun_def reads_def orFail_def ifErr_def r_def [symmetric] split: sum.split option.split)
  next
    case True
    then obtain ex where ex: "x = Inr (Some ex)" by blast
    have call: "inCall env (lw_log s1) (EvObserve (adapterTask r) f) r s2"
      using inCall_callObserve [OF s1(1) _ s1(3) [OF ex], of adapter e] c s1(2) by (simp add: r_def f_def)
    show ?thesis
    proof (cases y)
      case (Inl err)
      then show ?thesis using m ex c inCall_ordered [OF call]
        by (simp add: observeTask_def theRun_def reads_def orFail_def ifErr_def r_def f_def)
    next
      case (Inr p)
      obtain ob d where p: "p = (ob, d)" by force
      obtain v s3 where n: "run_state (allocatedExecutionCurrent env r e ex) s2 = (v, s3)" by force
      note s3 = after_call [OF call settled_of [OF s1(1)] _ n]
      have fin: "v = Inr True \<Longrightarrow> ordered (adapterGood env) (lw_log (snd (run_state (recordObservation env e ex ob) s3)))"
        by (rule ordered_ends) (auto simp: f_def intro: writes.keeps_recordObservation s3(3))
      show ?thesis using m ex c Inr p n s3(1) fin
        by (auto simp: observeTask_def theRun_def reads_def orFail_def ifErr_def r_def [symmetric] f_def split: sum.split)
    qed
  qed
qed

lemma order_releaseRun: "ends (inOrder env) (\<lambda>s. ordered (adapterGood env) (lw_log s)) (releaseRun env)"
  by (rule ends_keeps [OF ordered_of]) (auto simp: write_defs intro!: quiet_keeps emits_intros)

interpretation calls: run_program env "inOrder env" "\<lambda>s. ordered (adapterGood env) (lw_log s)" for env
  by unfold_locales (rule ordered_of order_releaseRun order_acceptTask order_observeTask order_cancelExecution; assumption?)+


end
