(* ===== verification/Run_Example.thy ===== *)
theory Run_Example
  imports Run_Controller
begin

text \<open>
  A small concrete world for the Run controller, in which the hypotheses of its theorems are evaluated: an
  API server that finds nothing but one Run, answers every write with the object written, and permits
  what it is asked. Examples change single fields of it.
\<close>

definition absent :: "('w, unit + 'a) state" where
  "absent = throwError ()"

definition example_find :: find_condition where
  "example_find cs t = List.find (\<lambda>c. cd_Type c = t) cs"

definition example_set :: "int \<Rightarrow> set_condition" where
  "example_set t c cs = filter (\<lambda>x. cd_Type x \<noteq> cd_Type c) cs @ [c\<lparr>cd_LastTransitionTime := t\<rparr>]"

definition example_controller :: get_controller where
  "example_controller m = List.find (\<lambda>ow. ow_Controller ow = Some True) (om_OwnerReferences m)"

definition example_isolation :: "(unit, unit, unit) isolation_env" where
  "example_isolation =
     \<lparr>ie_Installation = (\<lambda>_. absent), ie_UpdateStatus = (\<lambda>_. ret None), ie_NotFound = (\<lambda>_. True),
      ie_Namespace = (\<lambda>_. absent), ie_Environments = (\<lambda>_. returnOk []), ie_Pod = (\<lambda>_. absent), ie_Secret = (\<lambda>_. absent),
      ie_ConfigMap = (\<lambda>_. absent), ie_RuntimeClass = (\<lambda>_. absent), ie_StorageClass = (\<lambda>_. absent), ie_CSIDriver = (\<lambda>_. absent),
      ie_ConfigLib = sample_lib, ie_Dns = \<lparr>dn_Label = (\<lambda>_. []), dn_Subdomain = (\<lambda>_. [])\<rparr>, ie_Marshal = (\<lambda>_. []), ie_Sha256 = (\<lambda>x. x),
      ie_Find = example_find, ie_Set = example_set 0, ie_Controller = example_controller, ie_Sha = (\<lambda>x. x)\<rparr>"

definition example_run_env :: "Run \<Rightarrow> (unit, unit, unit, unit, unit) run_env" where
  "example_run_env r =
     \<lparr>re_Run = (\<lambda>_. returnOk r), re_RunNow = (\<lambda>_. returnOk r), re_Environment = (\<lambda>_. absent), re_EnvironmentNow = (\<lambda>_. absent),
      re_Environments = (\<lambda>_ _. returnOk []), re_Project = (\<lambda>_. absent), re_ProjectNow = (\<lambda>_. absent), re_Template = (\<lambda>_. absent),
      re_TemplateNow = (\<lambda>_. absent), re_ProfileNow = (\<lambda>_. absent), re_SecretMetaNow = (\<lambda>_. absent), re_SecretNow = (\<lambda>_. absent),
      re_NamespaceNow = (\<lambda>n. returnOk (zero_meta\<lparr>om_Name := n, om_UID := ''ns-uid''\<rparr>)), re_PodNow = (\<lambda>_. absent),
      re_RunUpdate = returnOk, re_RunStatusUpdate = returnOk, re_RunPatch = (\<lambda>_. returnOk),
      re_EnvironmentCreate = returnOk, re_EnvironmentStatusUpdate = returnOk, re_EnvironmentPatch = (\<lambda>_. returnOk),
      re_SecretCreate = (\<lambda>_. ret None), re_SecretUpdate = (\<lambda>_. ret None), re_SecretDelete = (\<lambda>_ _ _. ret None),
      re_Retry = (\<lambda>f. f), re_NotFound = (\<lambda>_. True), re_Conflict = (\<lambda>_. False), re_AlreadyExists = (\<lambda>_. False),
      re_Find = example_find, re_Set = example_set, re_Controller = example_controller, re_SetController = (\<lambda>_. Inr),
      re_ErrText = (\<lambda>_. ''error''), re_Quote = (\<lambda>x. x), re_Now = ret 0,
      re_Quantities = \<lparr>qo_Sign = (\<lambda>_. 1), qo_MustParse = (\<lambda>_. ()), qo_SemanticEqual = (\<lambda>_ _. True)\<rparr>,
      re_Sha = (\<lambda>x. x), re_ParseTime = (\<lambda>_. None), re_FormatTime = (\<lambda>_. []), re_RotationDecode = (\<lambda>_. None),
      re_RotationEncode = (\<lambda>_. []), re_ProvisioningDecode = (\<lambda>_. None), re_Base64 = (\<lambda>x. x), re_Scope = None,
      re_Isolation = example_isolation, re_Adapters = (\<lambda>_. None), re_EventSink = None, re_Changes = None,
      re_TranscriptsDisabled = False, re_TranscriptCleanup = Some (\<lambda>_ _ _ _. ret None),
      re_ResolveExecution = (\<lambda>_. returnOk ()), re_ExecutionCurrent = (\<lambda>_ _. returnOk True), re_DialProcess = (\<lambda>_. returnOk ()),
      re_RepositoryCredentials = None, re_RepositoryCanonicalizer = None\<rparr>"

definition zero_run_status :: RunStatus where
  "zero_run_status =
     \<lparr>rst_State = [], rst_StartedAt = None, rst_FinishedAt = None, rst_EnvironmentRef = None, rst_CredentialProfileRef = None,
      rst_ObservedGeneration = 0, rst_AcceptedEnvironmentEpoch = None, rst_AcceptedEnvironmentExecutionGeneration = None,
      rst_Branch = [], rst_TranscriptRef = [], rst_Usage = \<lparr>us_CPUSeconds = 0, us_TokensIn = 0, us_TokensOut = 0\<rparr>,
      rst_Conditions = []\<rparr>"

definition example_run :: Run where
  "example_run =
     \<lparr>rn_Meta = zero_meta\<lparr>om_Namespace := ''ns'', om_Name := ''run'', om_UID := ''run-uid'', om_Finalizers := [runFinalizer]\<rparr>,
      rn_Spec = \<lparr>rs_EnvironmentRef = [], rs_ProjectRef = [], rs_ProjectUID = [], rs_TemplateRef = ''tmpl'', rs_CredentialProfileRef = [],
                 rs_RepositoryCredential = [], rs_Agent = ''agent'', rs_Prompt = ''prompt'', rs_Cancel = False, rs_Notify = [],
                 rs_ParentRef = []\<rparr>,
      rn_Status = zero_run_status\<rparr>"

definition example_ctl :: "(unit, unit) run_ctl" where
  "example_ctl = \<lparr>lw_world = (), lw_log = [], rc_run = example_run, rc_lease = None\<rparr>"

end
