(* ===== verification/Run_Ownership.thy ===== *)
theory Run_Ownership
  imports Run_Programs Run_Example
begin

text \<open>
  What a Run owns. One reconcile of a Run writes no Run but its own, takes only Environments that nobody
  claims, gives back only its own claim, and removes the finalizer of a deleted Run only right after the
  Run's transcript was deleted.

  The API server is assumed to answer a successful write with the object that was written, as far as its
  identity goes: namespace, name, UID, deletion timestamp and finalizers.
\<close>

section \<open>The discipline of ownership\<close>

definition sameIdentity :: "Run \<Rightarrow> Run \<Rightarrow> bool" where
  "sameIdentity r r' \<longleftrightarrow>
     run_Namespace r' = run_Namespace r \<and> run_Name r' = run_Name r \<and> run_UID r' = run_UID r
     \<and> om_DeletionTimestamp (rn_Meta r') = om_DeletionTimestamp (rn_Meta r)
     \<and> om_Finalizers (rn_Meta r') = om_Finalizers (rn_Meta r)"

definition answersIdentity :: "('w, 'k + Run) state \<Rightarrow> Run \<Rightarrow> bool" where
  "answersIdentity m r \<longleftrightarrow> (\<forall>w. case fst (run_state m w) of Inl _ \<Rightarrow> True | Inr r' \<Rightarrow> sameIdentity r r')"

definition faithfulServer :: "('w, 'q, 'k, 'c, 'x) run_env \<Rightarrow> bool" where
  "faithfulServer env \<longleftrightarrow>
     (\<forall>r. answersIdentity (re_RunStatusUpdate env r) r \<and> answersIdentity (re_RunUpdate env r) r
        \<and> (\<forall>before. answersIdentity (re_RunPatch env before r) r))"

text \<open>A write of an Environment's status keeps the claim, takes a free one, or gives back its own.\<close>

definition claimStep :: "RunReference \<Rightarrow> 'q Environment \<Rightarrow> 'q Environment \<Rightarrow> bool" where
  "claimStep own e e' \<longleftrightarrow>
     st_ClaimedBy (en_Status e') = st_ClaimedBy (en_Status e)
     \<or> st_ClaimedBy (en_Status e) = None \<and> st_ClaimedBy (en_Status e') = Some own
     \<or> st_ClaimedBy (en_Status e) = Some own \<and> st_ClaimedBy (en_Status e') = None"

definition transcriptDeleted :: "('w, 'q, 'k, 'c, 'x) run_env \<Rightarrow> Run \<Rightarrow> 'q run_event list \<Rightarrow> bool" where
  "transcriptDeleted env r h \<longleftrightarrow>
     re_TranscriptsDisabled env
     \<or> (\<exists>p nsUID. h = p @ [EvTranscriptDelete (run_Namespace r) nsUID (run_Name r) (run_UID r) True])"

abbreviation "holdsFinalizer r \<equiv> runFinalizer \<in> set (om_Finalizers (rn_Meta r))"

text \<open>The events of a reconcile of the Run that was read as \<open>r0\<close>.\<close>

fun ownerGood :: "('w, 'q, 'k, 'c, 'x) run_env \<Rightarrow> Run \<Rightarrow> 'q run_event list \<Rightarrow> 'q run_event \<Rightarrow> bool" where
  "ownerGood env r0 h (EvRunStatus r ok) =
     (run_Namespace r = run_Namespace r0 \<and> run_Name r = run_Name r0 \<and> run_UID r = run_UID r0)"
| "ownerGood env r0 h (EvRunUpdate r ok) =
     (run_Namespace r = run_Namespace r0 \<and> run_Name r = run_Name r0 \<and> run_UID r = run_UID r0
      \<and> (holdsFinalizer r0 \<and> \<not> holdsFinalizer r \<longrightarrow> transcriptDeleted env r0 h))"
| "ownerGood env r0 h (EvRunPatch r ok) =
     (run_Namespace r = run_Namespace r0 \<and> run_Name r = run_Name r0 \<and> run_UID r = run_UID r0
      \<and> rs_Cancel (rn_Spec r))"
| "ownerGood env r0 h (EvEnvironmentStatus e e' ok) = claimStep (runReference r0) e e'"
| "ownerGood env r0 h _ = True"

definition owned :: "('w, 'q, 'k, 'c, 'x) run_env \<Rightarrow> Run \<Rightarrow> ('w, 'q) run_ctl \<Rightarrow> bool" where
  "owned env r0 s \<longleftrightarrow>
     ordered (ownerGood env r0) (lw_log s)
     \<and> run_Namespace (rc_run s) = run_Namespace r0 \<and> run_Name (rc_run s) = run_Name r0
     \<and> run_UID (rc_run s) = run_UID r0 \<and> om_DeletionTimestamp (rn_Meta (rc_run s)) = om_DeletionTimestamp (rn_Meta r0)
     \<and> (holdsFinalizer r0 \<longrightarrow> holdsFinalizer (rc_run s))"

section \<open>Writes\<close>

lemma runReference_owned: "owned env r0 s \<Longrightarrow> runReference (rc_run s) = runReference r0"
  by (simp add: owned_def runReference_def)

text \<open>A write of the Run: the event is good, and the answer keeps the identity.\<close>

lemma owned_answer:
  assumes "owned env r0 s" "answersIdentity m r" "run_state m (lw_world s) = (x, w)"
    "sameIdentity (rc_run s) r \<or> om_Finalizers (rn_Meta r) = om_Finalizers (rn_Meta (rc_run s)) @ [runFinalizer]
       \<and> sameIdentity (rc_run s) (r\<lparr>rn_Meta := (rn_Meta r)\<lparr>om_Finalizers := om_Finalizers (rn_Meta (rc_run s))\<rparr>\<rparr>)"
    "ownerGood env r0 (lw_log s) (ev (is_ok x))"
  shows "owned env r0 (s\<lparr>lw_world := w, lw_log := lw_log s @ [ev (is_ok x)]\<rparr>)"
    "x = Inr r' \<Longrightarrow> owned env r0 (s\<lparr>lw_world := w, lw_log := lw_log s @ [ev (is_ok x)], rc_run := r'\<rparr>)"
proof -
  show "owned env r0 (s\<lparr>lw_world := w, lw_log := lw_log s @ [ev (is_ok x)]\<rparr>)"
    using assms by (simp add: owned_def)
  assume "x = Inr r'"
  then have "sameIdentity r r'" using assms(2,3) unfolding answersIdentity_def by (metis fst_conv sum.simps(6))
  then show "owned env r0 (s\<lparr>lw_world := w, lw_log := lw_log s @ [ev (is_ok x)], rc_run := r'\<rparr>)"
    using assms(1,4,5) by (auto simp: owned_def sameIdentity_def)
qed

lemma owns_runStatusUpdate:
  assumes "faithfulServer env"
  shows "keeps (owned env r0) (runStatusUpdate env)"
  unfolding keeps_def
proof (intro allI impI)
  fix s assume s: "owned env r0 s"
  obtain x w where m: "run_state (re_RunStatusUpdate env (rc_run s)) (lw_world s) = (x, w)" by force
  have a: "answersIdentity (re_RunStatusUpdate env (rc_run s)) (rc_run s)" using assms by (simp add: faithfulServer_def)
  have i: "sameIdentity (rc_run s) (rc_run s)" by (simp add: sameIdentity_def)
  have g: "ownerGood env r0 (lw_log s) (EvRunStatus (rc_run s) (is_ok x))" using s by (simp add: owned_def)
  note o = owned_answer [OF s a m disjI1 [OF i], where ev = "EvRunStatus (rc_run s)", OF g]
  show "owned env r0 (snd (run_state (runStatusUpdate env) s))"
    using o m by (cases x) (simp_all add: runStatusUpdate_def theRun_def reads_def bindE_def mapErr_def ifErr_def ask_def
        setRun_def modifies_def)
qed

text \<open>\<open>runUpdate\<close> of a changed Run.\<close>

lemma owned_runUpdate:
  assumes "faithfulServer env" and s: "owned env r0 s"
    and r: "sameIdentity (rc_run s) r \<or> om_Finalizers (rn_Meta r) = om_Finalizers (rn_Meta (rc_run s)) @ [runFinalizer]
       \<and> sameIdentity (rc_run s) (r\<lparr>rn_Meta := (rn_Meta r)\<lparr>om_Finalizers := om_Finalizers (rn_Meta (rc_run s))\<rparr>\<rparr>)"
  shows "owned env r0 (snd (run_state (do { setRun r; runUpdate env }) s))"
proof -
  obtain x w where m: "run_state (re_RunUpdate env r) (lw_world s) = (x, w)" by force
  have a: "answersIdentity (re_RunUpdate env r) r" using assms by (simp add: faithfulServer_def)
  have g: "ownerGood env r0 (lw_log s) (EvRunUpdate r (is_ok x))"
    using s r by (auto simp: owned_def sameIdentity_def)
  note o = owned_answer [OF s a m r, where ev = "EvRunUpdate r", OF g]
  have "owned env r0 (s\<lparr>lw_world := w, lw_log := lw_log s @ [EvRunUpdate r (is_ok x)], rc_run := r\<rparr>)"
    using o(1) r s by (auto simp: owned_def sameIdentity_def)
  with o m show ?thesis
    by (cases x) (simp_all add: runUpdate_def theRun_def reads_def bindE_def mapErr_def ifErr_def ask_def setRun_def
        modifies_def owned_def)
qed

lemma owns_forgetRotation: "faithfulServer env \<Longrightarrow> keeps (owned env r0) (forgetRotation env)"
  unfolding keeps_def
proof (intro allI impI)
  fix s assume f: "faithfulServer env" and s: "owned env r0 s"
  show "owned env r0 (snd (run_state (forgetRotation env) s))"
    using owned_runUpdate [OF f s, of "(rc_run s)\<lparr>rn_Meta := withoutAnnotation repositoryRefreshAnnotation (rn_Meta (rc_run s))\<rparr>"]
    by (simp add: forgetRotation_def theRun_def reads_def sameIdentity_def withoutAnnotation_def)
qed

lemma owns_persistRotation: "faithfulServer env \<Longrightarrow> keeps (owned env r0) (persistRepositoryRotation env lease wake)"
  unfolding keeps_def
proof (intro allI impI)
  fix s assume f: "faithfulServer env" and s: "owned env r0 s"
  have "owned env r0 (snd (run_state (do {
      setRun ((rc_run s)\<lparr>rn_Meta := withAnnotation repositoryRefreshAnnotation v (rn_Meta (rc_run s))\<rparr>); runUpdate env }) s))" for v
    by (rule owned_runUpdate [OF f s]) (simp add: sameIdentity_def withAnnotation_def)
  then show "owned env r0 (snd (run_state (persistRepositoryRotation env lease wake) s))"
    using s by (simp add: persistRepositoryRotation_def theRun_def reads_def)
qed

lemma owns_addFinalizer: "faithfulServer env \<Longrightarrow> keeps (owned env r0) (addFinalizer env)"
  unfolding keeps_def
proof (intro allI impI)
  fix s assume f: "faithfulServer env" and s: "owned env r0 s"
  show "owned env r0 (snd (run_state (addFinalizer env) s))"
    using s owned_runUpdate [OF f s, of "(rc_run s)\<lparr>rn_Meta := (rn_Meta (rc_run s))
        \<lparr>om_Finalizers := om_Finalizers (rn_Meta (rc_run s)) @ [runFinalizer]\<rparr>\<rparr>"]
    by (simp add: addFinalizer_def theRun_def reads_def sameIdentity_def)
qed

lemma owns_offboardRun: 
  assumes "faithfulServer env"
  shows "keeps (owned env r0) (offboardRun env)"
  unfolding keeps_def
proof (intro allI impI)
  fix s assume s: "owned env r0 s"
  define r where "r = (rc_run s)\<lparr>rn_Spec := (rn_Spec (rc_run s))\<lparr>rs_Cancel := True\<rparr>\<rparr>"
  obtain x w where m: "run_state (re_RunPatch env (rc_run s) r) (lw_world s) = (x, w)" by force
  have a: "answersIdentity (re_RunPatch env (rc_run s) r) r" using assms by (simp add: faithfulServer_def)
  have i: "sameIdentity (rc_run s) r" by (simp add: sameIdentity_def r_def)
  have g: "ownerGood env r0 (lw_log s) (EvRunPatch r (is_ok x))" using s by (simp add: owned_def r_def)
  note o = owned_answer [OF s a m disjI1 [OF i], where ev = "EvRunPatch r", OF g]
  show "owned env r0 (snd (run_state (offboardRun env) s))"
    using o m by (cases x) (simp_all add: offboardRun_def theRun_def reads_def orFail_def mapErr_def ifErr_def ask_def
        setRun_def modifies_def r_def [symmetric])
qed

section \<open>Claims\<close>

lemma owned_environmentStatusUpdate:
  "owned env r0 s \<Longrightarrow> claimStep (runReference r0) e e' \<Longrightarrow>
     owned env r0 (snd (run_state (environmentStatusUpdate env e e') s))"
  by (auto simp: environmentStatusUpdate_def mapErr_def ifErr_def ask_def owned_def split: prod.split sum.split)

lemma owns_releaseClaim: "keeps (owned env r0) (releaseClaim env e)"
  unfolding keeps_def
proof (intro allI impI)
  fix s assume s: "owned env r0 s"
  define e' where "e' = e\<lparr>en_Status := (en_Status e)\<lparr>st_ClaimedBy := None\<rparr>\<rparr>"
  have step: "claimStep (runReference r0) e e'" if c: "claimIs (rc_run s) e"
  proof -
    obtain c where "st_ClaimedBy (en_Status e) = Some c" "rr_Name c = run_Name (rc_run s)" "rr_UID c = run_UID (rc_run s)"
      using c by (auto simp: claimIs_def split: option.splits)
    then show ?thesis
      using s by (cases c) (simp add: claimStep_def e'_def owned_def runReference_def)
  qed
  obtain x s1 where m: "run_state (environmentStatusUpdate env e e') s = (x, s1)" by force
  show "owned env r0 (snd (run_state (releaseClaim env e) s))"
    using s step owned_environmentStatusUpdate [OF s, of e e'] m
    by (cases x) (auto simp: releaseClaim_def theRun_def reads_def bindE_def ifErr_def e'_def)
qed

lemma owns_takeClaim: "st_ClaimedBy (en_Status e) = None \<Longrightarrow> keeps (owned env r0) (takeClaim env e t)"
  unfolding keeps_def
  by (auto simp: takeClaim_def theRun_def reads_def runReference_owned claimStep_def intro!: owned_environmentStatusUpdate)

lemma owns_silent: "(\<And>a. ev a = []) \<Longrightarrow> keeps (owned env r0) (ask m ev)"
  by (auto simp: keeps_def ask_def owned_def split: prod.split)

lemma owns_withdrawReadiness: "keeps (owned env r0) (withdrawReadiness env e)"
proof -
  have "keeps (owned env r0) (environmentStatusUpdate env e (applyEnvironmentStatus sc ph p ep re ms l e))" for sc ph p ep re ms l
    unfolding keeps_def
    by (auto simp: claimStep_def applyEnvironmentStatus_def Let_def intro!: owned_environmentStatusUpdate)
  then show ?thesis
    unfolding withdrawReadiness_def now_def by (intro keeps_intros owns_silent) auto
qed

text \<open>The assumption on the server, as part of the invariant.\<close>

definition ownedIf :: "('w, 'q, 'k, 'c, 'x) run_env \<Rightarrow> Run \<Rightarrow> ('w, 'q) run_ctl \<Rightarrow> bool" where
  "ownedIf env r0 s \<longleftrightarrow> (faithfulServer env \<longrightarrow> owned env r0 s)"

lemma owns_If: "(faithfulServer env \<Longrightarrow> keeps (owned env r0) m) \<Longrightarrow> keeps (ownedIf env r0) m"
  by (auto simp: keeps_def ownedIf_def)

interpretation owner: run_writes env "ownedIf env r0" for env r0
proof unfold_locales
  fix s :: "('a, 'b) run_ctl" and ev :: "'b run_event" assume "ordinary ev" "ownedIf env r0 s"
  then show "ownedIf env r0 (s\<lparr>lw_log := lw_log s @ [ev]\<rparr>)"
    by (cases ev) (simp_all add: ownedIf_def owned_def)
qed (auto simp: ownedIf_def owned_def intro!: owns_If owns_runStatusUpdate owns_forgetRotation owns_persistRotation
      owns_addFinalizer owns_offboardRun owns_releaseClaim owns_takeClaim owns_withdrawReadiness)

section \<open>Calls\<close>

lemma owns_harmless:
  assumes "\<And>a. list_all (\<lambda>e. \<forall>h. ownerGood env r0 h e) (ev a)"
  shows "keeps (ownedIf env r0) (ask m ev)"
proof -
  have "list_all (\<lambda>e. \<forall>h. ownerGood env r0 h e) es \<Longrightarrow> ordered (ownerGood env r0) h \<Longrightarrow>
      ordered (ownerGood env r0) (h @ es)" for h es
    by (induction es rule: rev_induct) (auto simp flip: append_assoc)
  then show ?thesis using assms by (auto simp: keeps_def ask_def ownedIf_def owned_def split: prod.split)
qed

lemma owns_note_harmless: "(\<And>h. ownerGood env r0 h e) \<Longrightarrow> keeps (ownedIf env r0) (note_event e)"
  by (auto simp: keeps_def note_event_def modifies_def ownedIf_def owned_def)

lemma owns_dials:
  "keeps (ownedIf env r0) (dialProcess env f)" "keeps (ownedIf env r0) (acceptanceDial env f)"
  "keeps (ownedIf env r0) (emitEvent env ev)"
proof -
  show d: "keeps (ownedIf env r0) (dialProcess env f)"
    unfolding dialProcess_def by (intro keeps_intros owns_harmless) simp
  show "keeps (ownedIf env r0) (acceptanceDial env f)"
    unfolding acceptanceDial_def by (intro keeps_intros d)
  show "keeps (ownedIf env r0) (emitEvent env ev)"
    unfolding emitEvent_def by (intro keeps_intros owns_harmless) simp
qed

lemma owns_calls:
  "keeps (ownedIf env r0) (callEnsureAccepted env a e f m)" "keeps (ownedIf env r0) (callObserve env a e f)"
  "keeps (ownedIf env r0) (callCancel env a e f)"
proof -
  show "keeps (ownedIf env r0) (callEnsureAccepted env a e f m)"
    unfolding callEnsureAccepted_def by (intro keeps_bind owns_harmless keeps_runScript owns_dials owner.keeps_theRun) simp
  show "keeps (ownedIf env r0) (callObserve env a e f)"
    unfolding callObserve_def by (intro keeps_bind owns_harmless keeps_runScript owns_dials owner.keeps_theRun) simp
  show "keeps (ownedIf env r0) (callCancel env a e f)"
    unfolding callCancel_def
    by (intro keeps_bind keeps_return owns_harmless owns_note_harmless keeps_runScript owns_dials owner.keeps_theRun) simp_all
qed

lemma owns_tasks:
  "keeps (ownedIf env r0) (acceptTask env a e)" "keeps (ownedIf env r0) (observeTask env a e)"
  "keeps (ownedIf env r0) (cancelExecution env a e)"
  unfolding acceptTask_def acceptNow_def observeTask_def cancelExecution_def
  by (intro keeps_intros owns_calls)+

section \<open>The finalizer\<close>

definition orderedIf :: "('w, 'q, 'k, 'c, 'x) run_env \<Rightarrow> Run \<Rightarrow> ('w, 'q) run_ctl \<Rightarrow> bool" where
  "orderedIf env r0 s \<longleftrightarrow> (faithfulServer env \<longrightarrow> ordered (ownerGood env r0) (lw_log s))"

lemma deleteTranscript_owned:
  assumes "owned env r0 s" "run_state (deleteTranscript env) s = (x, s')"
  shows "owned env r0 s'" "x = Inr u \<Longrightarrow> transcriptDeleted env r0 (lw_log s')"
  using assms
  by (auto simp: deleteTranscript_def theRun_def reads_def bindE_def mapErr_def kread_def ifErr_def optionError_def ask_def
      owned_def transcriptDeleted_def split: if_splits option.splits prod.splits sum.splits)

lemma owns_releaseRun: "ends (ownedIf env r0) (orderedIf env r0) (releaseRun env)"
  unfolding ends_def
proof (intro allI impI)
  fix s assume s: "ownedIf env r0 s"
  show "orderedIf env r0 (snd (run_state (releaseRun env) s))"
  proof (cases "faithfulServer env")
    case True
    then have o: "owned env r0 s" using s by (simp add: ownedIf_def)
    obtain x s1 where m: "run_state (deleteTranscript env) s = (x, s1)" by force
    note s1 = deleteTranscript_owned [OF o m]
    define r where "r = (rc_run s1)\<lparr>rn_Meta := (rn_Meta (rc_run s1))
        \<lparr>om_Finalizers := filter (\<lambda>f. f \<noteq> runFinalizer) (om_Finalizers (rn_Meta (rc_run s1)))\<rparr>\<rparr>"
    obtain y w where n: "run_state (re_RunUpdate env r) (lw_world s1) = (y, w)" by force
    have g: "ownerGood env r0 (lw_log s1) (EvRunUpdate r b)" if "x = Inr ()" for b
      using s1 that by (simp add: owned_def r_def)
    have l: "lw_log (snd (run_state (removeFinalizer env) s1)) = lw_log s1 @ [EvRunUpdate r (is_ok y)]"
      using n by (cases y) (simp_all add: removeFinalizer_def runUpdate_def theRun_def reads_def setRun_def modifies_def
          bindE_def mapErr_def ifErr_def ask_def r_def)
    have "lw_log (snd (run_state (releaseRun env) s))
       = (case x of Inl _ \<Rightarrow> lw_log s1 | Inr _ \<Rightarrow> lw_log s1 @ [EvRunUpdate r (is_ok y)])"
      using m l
      by (cases "run_state (removeFinalizer env) s1")
        (auto simp: releaseRun_def orFail_def finish_def ifErr_def split: sum.split)
    then show ?thesis using s1(1) g by (cases x) (auto simp: orderedIf_def owned_def)
  qed (simp add: orderedIf_def)
qed

interpretation ownership: run_program env "ownedIf env r0" "orderedIf env r0" for env r0
proof unfold_locales
  fix s :: "('a, 'b) run_ctl" assume "ownedIf env r0 s"
  then show "orderedIf env r0 s" by (simp add: ownedIf_def orderedIf_def owned_def)
next
  have final: "\<And>s :: ('a, 'b) run_ctl. ownedIf env r0 s \<Longrightarrow> orderedIf env r0 s"
    by (simp add: ownedIf_def orderedIf_def owned_def)
  show "ends (ownedIf env r0) (orderedIf env r0) (releaseRun env)" by (rule owns_releaseRun)
  show "ends (ownedIf env r0) (orderedIf env r0) (acceptTask env adapter e)"
    "ends (ownedIf env r0) (orderedIf env r0) (observeTask env adapter e)" for adapter e
    by (rule ends_keeps [OF final]; simp add: owns_tasks)+
  show "guards (ownedIf env r0) (orderedIf env r0) (cancelExecution env adapter e)" for adapter e
    by (rule guards_keeps [OF final]; simp add: owns_tasks)
qed

text \<open>(C2) One reconcile of the Run read as \<open>r0\<close>, on a server that answers its writes faithfully: every write
  of a Run is a write of this one, offboarding patches it only to be cancelled; every write of an
  Environment's status leaves its claim as it was read, claims it for this Run when nobody did, or gives back
  this Run's own claim; and the finalizer is removed only right after the deletion of the Run's
  transcript succeeded, unless transcripts are disabled.\<close>

theorem run_writes_owned:
  fixes env :: "('w, 'q, 'k, 'c, 'x) run_env"
  assumes "faithfulServer env" "run_state (re_Run env key) w = (Inr r0, w1)"
  shows "ordered (ownerGood env r0)
     (lw_log (snd (run_state (ReconcileRun env key) \<lparr>lw_world = w, lw_log = [], rc_run = r, rc_lease = l\<rparr>)))"
proof -
  define s where "s = (\<lparr>lw_world = w1, lw_log = [], rc_run = r0, rc_lease = l\<rparr> :: ('w, 'q) run_ctl)"
  define m where "m = ifErr (ask (Begin (re_Scope env) (run_Namespace r0) [LifecycleActive, LifecycleFencing, LifecycleFenced]) (\<lambda>_. []))
            (\<lambda>e. ret (noResult, if isOutOfScope e then None else Some (RTenancy e)))
            (\<lambda>(lease, claim). do {
               modifies (\<lambda>s. s\<lparr>rc_lease := lease\<rparr>);
               reconcileClaimed env claim
             })"
  have lease: "keeps (ownedIf env r0) (modifies (\<lambda>s. s\<lparr>rc_lease := x\<rparr>))" for x
    by (simp add: keeps_def modifies_def ownedIf_def owned_def)
  have "ends (ownedIf env r0) (orderedIf env r0) m"
    unfolding m_def
    by (intro ends_intros owns_harmless lease ownership.ends_reconcileClaimed) (auto intro: ownership.ends_quiet keeps_return)
  moreover have "ownedIf env r0 s" by (simp add: ownedIf_def owned_def s_def)
  ultimately have "orderedIf env r0 (snd (run_state m s))" by (rule endsD)
  moreover have "run_state (ReconcileRun env key) \<lparr>lw_world = w, lw_log = [], rc_run = r, rc_lease = l\<rparr> = run_state m s"
    using assms(2) by (simp add: ReconcileRun_def m_def s_def ask_def ifErr_def setRun_def modifies_def)
  ultimately show ?thesis using assms(1) by (simp add: orderedIf_def)
qed

text \<open>A deleted Run that has its finalizer and no Environment: the transcript goes, then the finalizer.\<close>

definition deleted_run :: Run where
  "deleted_run = example_run\<lparr>rn_Meta := (rn_Meta example_run)\<lparr>om_DeletionTimestamp := Some 1\<rparr>\<rparr>"

lemma faithful_example: "faithfulServer (example_run_env r)"
  by (simp add: faithfulServer_def answersIdentity_def example_run_env_def sameIdentity_def)

lemma deleted_run_log:
  "lw_log (snd (run_state (ReconcileRun (example_run_env deleted_run) (''ns'', ''run'')) example_ctl)) =
     [EvTranscriptDelete ''ns'' ''ns-uid'' ''run'' ''run-uid'' True,
      EvRunUpdate (deleted_run\<lparr>rn_Meta := (rn_Meta deleted_run)\<lparr>om_Finalizers := []\<rparr>\<rparr>) True]"
  by code_simp

theorem run_writes_owned_witness:
  "ordered (ownerGood (example_run_env deleted_run) deleted_run)
     [EvTranscriptDelete ''ns'' ''ns-uid'' ''run'' ''run-uid'' True,
      EvRunUpdate (deleted_run\<lparr>rn_Meta := (rn_Meta deleted_run)\<lparr>om_Finalizers := []\<rparr>\<rparr>) True]"
  using run_writes_owned [OF faithful_example, of deleted_run "(''ns'', ''run'')" "()" deleted_run "()" example_run None]
    deleted_run_log
  by (simp add: example_ctl_def example_run_env_def)

end
