(* ===== verification/Warm_Pool.thy ===== *)
theory Warm_Pool
  imports Run_Example Ordered_Log "HOL-Library.Multiset"
begin

text \<open>
  The warm pool of an EnvironmentTemplate (\<open>src/internal/controllers/warmpool_controller.go\<close>): one reconcile
  counts the ready members, quarantines and removes unusable ones after a grace period, creates what is
  missing and removes what is in excess. The membership tests are in \<open>Run_Allocation\<close>, where the Run
  controller claims by them.

  The API server is the record \<open>pool_env\<close>; every write and every proof that the Template is current is
  logged. \<open>sort.Slice\<close> is not stable, so the order it leaves among equal timestamps is a parameter. The
  counters are \<open>int32\<close>; numbers of listed objects stay below that, the sum that the configuration alone
  can make overflow is wrapped.
\<close>

section \<open>State\<close>

abbreviation "warmPoolCleanupAnnotation \<equiv> ''swe.dev/warm-pool-unusable-since''"
abbreviation "warmPoolCleanupGrace \<equiv> 300000000000 :: int"

datatype 'k pool_error =
  PoolKube 'k
| PoolWrap string 'k
| PoolTenancy "'k tenancy_error"
| PoolIsolation "'k isolation_error"
| PoolOwner string
| PoolPanic

datatype 'q pool_event =
  EvTemplateCurrent bool
| EvPoolList "'q EnvironmentTemplate" "'q Environment list"
| EvPoolStatus int bool
| EvPoolMark "'q Environment" "'q Environment option"
| EvPoolUnmark "'q Environment" "'q Environment option"
| EvPoolCreate "'q Environment" "'q Environment option"
| EvPoolDelete "'q Environment" bool

record ('w, 'q, 'k) pool_env =
  pl_Template :: "NamespacedName \<Rightarrow> ('w, 'k + 'q EnvironmentTemplate) state"
  pl_TemplateNow :: "NamespacedName \<Rightarrow> ('w, 'k + 'q EnvironmentTemplate) state"
  pl_EnvironmentsNow :: "string \<Rightarrow> string \<times> string \<Rightarrow> ('w, 'k + 'q Environment list) state"
  pl_EnvironmentNow :: "NamespacedName \<Rightarrow> ('w, 'k + 'q Environment) state"
  pl_TemplateStatusPatch :: "'q EnvironmentTemplate \<Rightarrow> 'q EnvironmentTemplate \<Rightarrow> ('w, 'k + 'q EnvironmentTemplate) state"
  pl_EnvironmentPatch :: "'q Environment \<Rightarrow> 'q Environment \<Rightarrow> ('w, 'k + 'q Environment) state"
  pl_EnvironmentCreate :: "string \<Rightarrow> 'q Environment \<Rightarrow> ('w, 'k + 'q Environment) state"
  pl_EnvironmentDelete :: "NamespacedName \<Rightarrow> string \<Rightarrow> string \<Rightarrow> ('w, 'k option) state"
  pl_NotFound :: "'k \<Rightarrow> bool"
  pl_Conflict :: "'k \<Rightarrow> bool"
  pl_Find :: find_condition
  pl_Controller :: get_controller
  pl_SetController :: "'q EnvironmentTemplate \<Rightarrow> 'q Environment \<Rightarrow> string + 'q Environment"
  pl_Quantities :: "'q quantities"
  pl_Now :: "('w, int) state"
  pl_ParseTime :: "string \<Rightarrow> int option"
  pl_FormatTime :: "int \<Rightarrow> string"
  pl_SortNewest :: "'q Environment list \<Rightarrow> 'q Environment list"
  pl_Scope :: "('w, 'k) Verifier option"
  pl_Isolation :: "('w, 'q, 'k) isolation_env"

type_synonym ('w, 'q, 'a) pool_ctl = "(('w, 'q pool_event) logged, 'a) state"

abbreviation env_key :: "'q Environment \<Rightarrow> NamespacedName" where
  "env_key e \<equiv> (om_Namespace (en_Meta e), om_Name (en_Meta e))"

section \<open>Helpers\<close>

definition warmPoolUnusableSince :: "('w, 'q, 'k) pool_env \<Rightarrow> 'q Environment \<Rightarrow> int option" where
  "warmPoolUnusableSince env e =
     (let v = meta_annotation (en_Meta e) warmPoolCleanupAnnotation in
      if v = [] then None else pl_ParseTime env v)"

definition templateCurrent ::
  "('w, 'q, 'k) pool_env \<Rightarrow> 'q EnvironmentTemplate \<Rightarrow> ('w, 'q, 'k pool_error + bool) pool_ctl" where
  "templateCurrent env observed =
     do {
       answer \<leftarrow> ask (pl_TemplateNow env (om_Namespace (et_Meta observed), om_Name (et_Meta observed)))
         (\<lambda>x. [EvTemplateCurrent (case x of
            Inl _ \<Rightarrow> False
          | Inr t \<Rightarrow> om_UID (et_Meta t) = om_UID (et_Meta observed)
              \<and> om_Generation (et_Meta t) = om_Generation (et_Meta observed) \<and> \<not> deleting (et_Meta t))]);
       ret (case answer of
              Inl k \<Rightarrow> if pl_NotFound env k then Inr False else Inl (PoolWrap ''revalidate environment template'' k)
            | Inr t \<Rightarrow> Inr (om_UID (et_Meta t) = om_UID (et_Meta observed)
                \<and> om_Generation (et_Meta t) = om_Generation (et_Meta observed) \<and> \<not> deleting (et_Meta t)))
     }"

text \<open>The two early returns around every write: a Template that is not current any more, and a write that lost
  a race, end the reconcile and ask for another.\<close>

definition requireCurrent ::
  "('w, 'q, 'k) pool_env \<Rightarrow> 'q EnvironmentTemplate \<Rightarrow> ('w, 'q, 'k pool_error outcome + unit) pool_ctl" where
  "requireCurrent env tmpl =
     ifErr (templateCurrent env tmpl) (\<lambda>e. throwError (noResult, Some e))
       (\<lambda>current. if current then returnOk () else throwError (requeueNow, None))"

definition commit ::
  "('w, 'q, 'k) pool_env \<Rightarrow> string \<Rightarrow> ('w, 'q, 'k + 'a) pool_ctl \<Rightarrow> ('w, 'q, 'k pool_error outcome + 'a) pool_ctl" where
  "commit env message m =
     ifErr m
       (\<lambda>k. throwError (if pl_Conflict env k \<or> pl_NotFound env k then (requeueNow, None)
                        else (noResult, Some (PoolWrap message k))))
       returnOk"

definition setWarmPoolReady ::
  "('w, 'q, 'k) pool_env \<Rightarrow> string \<Rightarrow> int \<Rightarrow> 'q EnvironmentTemplate
     \<Rightarrow> ('w, 'q, 'k pool_error outcome + 'q EnvironmentTemplate) pool_ctl" where
  "setWarmPoolReady env message n tmpl =
     bindE (requireCurrent env tmpl) (\<lambda>_.
       commit env message (ask (pl_TemplateStatusPatch env tmpl (tmpl\<lparr>et_WarmPoolReady := n\<rparr>)) (\<lambda>x. [EvPoolStatus n (is_ok x)])))"

definition deleteExact ::
  "('w, 'q, 'k) pool_env \<Rightarrow> 'q Environment \<Rightarrow> ('w, 'q, 'k option) pool_ctl" where
  "deleteExact env e =
     ask (pl_EnvironmentDelete env (env_key e) (om_UID (en_Meta e)) (om_ResourceVersion (en_Meta e)))
       (\<lambda>x. [EvPoolDelete e (x = None)])"

definition deleteMember ::
  "('w, 'q, 'k) pool_env \<Rightarrow> 'q EnvironmentTemplate \<Rightarrow> string \<Rightarrow> 'q Environment
     \<Rightarrow> ('w, 'q, 'k pool_error outcome + unit) pool_ctl" where
  "deleteMember env tmpl message e =
     bindE (requireCurrent env tmpl) (\<lambda>_. commit env message (do {
       x \<leftarrow> deleteExact env e;
       ret (case x of None \<Rightarrow> Inr () | Some k \<Rightarrow> Inl k)
     }))"

section \<open>Classification of the members\<close>

text \<open>An exact member that nobody claimed and that is not being deleted.\<close>

definition unclaimedMember :: "('w, 'q, 'k) pool_env \<Rightarrow> 'q EnvironmentTemplate \<Rightarrow> 'q Environment \<Rightarrow> bool" where
  "unclaimedMember env tmpl e \<longleftrightarrow>
     warmPoolMember (pl_Controller env) e tmpl \<and> st_ClaimedBy (en_Status e) = None \<and> \<not> deleting (en_Meta e)"

definition readyMember :: "('w, 'q, 'k) pool_env \<Rightarrow> 'q EnvironmentTemplate \<Rightarrow> 'q Environment \<Rightarrow> bool" where
  "readyMember env tmpl e \<longleftrightarrow>
     warmPoolMemberCurrent (pl_Controller env) (pl_Quantities env) e tmpl
     \<and> IsEnvironmentReady (pl_Find env) e \<and> st_ClaimedBy (en_Status e) = None"

definition unusableMember :: "('w, 'q, 'k) pool_env \<Rightarrow> 'q EnvironmentTemplate \<Rightarrow> 'q Environment \<Rightarrow> bool" where
  "unusableMember env tmpl e \<longleftrightarrow>
     \<not> warmPoolMemberCurrent (pl_Controller env) (pl_Quantities env) e tmpl \<or> environmentSuspended e
     \<or> (st_ObservedGeneration (en_Status e) = env_Generation e
         \<and> (st_Phase (en_Status e) = EnvironmentPhaseFailed \<or> st_Phase (en_Status e) = EnvironmentPhaseTerminated))"

definition markUnusable ::
  "('w, 'q, 'k) pool_env \<Rightarrow> 'q EnvironmentTemplate \<Rightarrow> int \<Rightarrow> 'q Environment
     \<Rightarrow> ('w, 'q, 'k pool_error outcome + 'q Environment) pool_ctl" where
  "markUnusable env tmpl t e =
     bindE (requireCurrent env tmpl) (\<lambda>_.
       commit env ''mark unusable warm environment'' (ask (pl_EnvironmentPatch env e
           (e\<lparr>en_Meta := withAnnotation warmPoolCleanupAnnotation (pl_FormatTime env t) (en_Meta e)\<rparr>))
         (\<lambda>x. [EvPoolMark e (case x of Inl _ \<Rightarrow> None | Inr e' \<Rightarrow> Some e')])))"

definition clearMark ::
  "('w, 'q, 'k) pool_env \<Rightarrow> 'q EnvironmentTemplate \<Rightarrow> 'q Environment
     \<Rightarrow> ('w, 'q, 'k pool_error outcome + 'q Environment) pool_ctl" where
  "clearMark env tmpl e =
     bindE (requireCurrent env tmpl) (\<lambda>_.
       commit env ''clear warm environment cleanup marker'' (ask (pl_EnvironmentPatch env e
           (e\<lparr>en_Meta := withoutAnnotation warmPoolCleanupAnnotation (en_Meta e)\<rparr>))
         (\<lambda>x. [EvPoolUnmark e (case x of Inl _ \<Rightarrow> None | Inr e' \<Rightarrow> Some e')])))"

text \<open>The accumulators are the active members, the number of quarantined ones and the shortest remaining grace.\<close>

fun classify ::
  "('w, 'q, 'k) pool_env \<Rightarrow> 'q EnvironmentTemplate \<Rightarrow> int \<Rightarrow> 'q Environment list \<Rightarrow> 'q Environment list \<Rightarrow> int \<Rightarrow> int
     \<Rightarrow> ('w, 'q, 'k pool_error outcome + 'q Environment list \<times> int \<times> int) pool_ctl" where
  "classify env tmpl t [] active quarantined after = returnOk (active, quarantined, after)"
| "classify env tmpl t (e # es) active quarantined after =
     (if \<not> unclaimedMember env tmpl e then classify env tmpl t es active quarantined after
      else if unusableMember env tmpl e then
        bindE (case warmPoolUnusableSince env e of
                 Some since \<Rightarrow>
                   if t < since then bindE (markUnusable env tmpl t e) (\<lambda>e'. returnOk (e', t)) else returnOk (e, since)
               | None \<Rightarrow> bindE (markUnusable env tmpl t e) (\<lambda>e'. returnOk (e', t))) (\<lambda>(e', since).
          let remaining = since + warmPoolCleanupGrace - t in
          if 0 < remaining
          then classify env tmpl t es active (quarantined + 1) (if after = 0 \<or> remaining < after then remaining else after)
          else bindE (deleteMember env tmpl ''delete unusable warm environment'' e') (\<lambda>_.
            classify env tmpl t es active quarantined after))
      else
        bindE (if warmPoolUnusableSince env e \<noteq> None then clearMark env tmpl e else returnOk e) (\<lambda>e'.
          classify env tmpl t es (active @ [e']) quarantined after))"

section \<open>Filling and draining\<close>

definition newMember :: "'q EnvironmentTemplate \<Rightarrow> 'q Environment" where
  "newMember tmpl =
     zero_environment
       \<lparr>en_Meta := zero_meta\<lparr>om_Namespace := om_Namespace (et_Meta tmpl), om_Labels := [(warmPoolLabel, om_Name (et_Meta tmpl))]\<rparr>,
        en_Spec := zero_spec\<lparr>sp_TemplateRef := om_Name (et_Meta tmpl)\<rparr>\<rparr>"

text \<open>A member created while the Template changed is removed again, if it is still there.\<close>

definition removeStale ::
  "('w, 'q, 'k) pool_env \<Rightarrow> 'q Environment \<Rightarrow> ('w, 'q, 'k pool_error outcome + 'q Environment) pool_ctl" where
  "removeStale env e =
     ifErr (ask (pl_EnvironmentNow env (env_key e)) (\<lambda>_. []))
       (\<lambda>k. throwError (if pl_NotFound env k then (requeueNow, None) else (noResult, Some (PoolWrap ''re-read stale warm environment'' k))))
       (\<lambda>created. do {
          x \<leftarrow> deleteExact env created;
          throwError (case x of
            Some k \<Rightarrow> if pl_NotFound env k \<or> pl_Conflict env k then (requeueNow, None)
                      else (noResult, Some (PoolWrap ''delete stale warm environment'' k))
          | None \<Rightarrow> (requeueNow, None))
        })"

definition createMember ::
  "('w, 'q, 'k) pool_env \<Rightarrow> 'q EnvironmentTemplate \<Rightarrow> ('w, 'q, 'k pool_error outcome + 'q Environment) pool_ctl" where
  "createMember env tmpl =
     bindE (requireCurrent env tmpl) (\<lambda>_.
       case pl_SetController env tmpl (newMember tmpl) of
         Inl e \<Rightarrow> throwError (noResult, Some (PoolOwner e))
       | Inr e \<Rightarrow>
           ifErr (ask (pl_EnvironmentCreate env (''warm-'' @ om_Name (et_Meta tmpl) @ ''-'') e)
                    (\<lambda>x. [EvPoolCreate e (case x of Inl _ \<Rightarrow> None | Inr e' \<Rightarrow> Some e')]))
             (\<lambda>k. throwError (noResult, Some (PoolWrap ''create warm environment'' k)))
             (\<lambda>created.
                ifErr (templateCurrent env tmpl) (\<lambda>err. throwError (noResult, Some err))
                  (\<lambda>current. if current then returnOk created else removeStale env created)))"

text \<open>The condition of the loop: fewer than the minimum, and members and quarantined ones within the surge.\<close>

definition missingMembers :: "int \<Rightarrow> int \<Rightarrow> 'q Environment list \<Rightarrow> bool" where
  "missingMembers minimum quarantined active \<longleftrightarrow>
     int (length active) < minimum \<and> int (length active) + quarantined < wrap_i32 (minimum + minimum)"

text \<open>Every turn adds a member, so \<open>nat (minimum - length active)\<close> turns are enough (\<open>fill_turns\<close>).\<close>

fun fillPool ::
  "('w, 'q, 'k) pool_env \<Rightarrow> 'q EnvironmentTemplate \<Rightarrow> int \<Rightarrow> int \<Rightarrow> nat \<Rightarrow> 'q Environment list
     \<Rightarrow> ('w, 'q, 'k pool_error outcome + 'q Environment list) pool_ctl" where
  "fillPool env tmpl minimum quarantined 0 active = returnOk active"
| "fillPool env tmpl minimum quarantined (Suc turns) active =
     (if missingMembers minimum quarantined active
      then bindE (createMember env tmpl) (\<lambda>e. fillPool env tmpl minimum quarantined turns (active @ [e]))
      else returnOk active)"

fun drainPool ::
  "('w, 'q, 'k) pool_env \<Rightarrow> 'q EnvironmentTemplate \<Rightarrow> 'q Environment list
     \<Rightarrow> ('w, 'q, 'k pool_error outcome + unit) pool_ctl" where
  "drainPool env tmpl [] = returnOk ()"
| "drainPool env tmpl (e # es) =
     bindE (deleteMember env tmpl ''delete excess warm environment'' e) (\<lambda>_. drainPool env tmpl es)"

text \<open>\<open>active[:len(active)-minimum]\<close>: a negative minimum asks for more than the slice holds. Up to the capacity
  Go gives the \<open>nil\<close> pointers behind it, and the first of them panics once it is reached; beyond the capacity
  the slice expression panics at once.\<close>

definition drainExcess ::
  "('w, 'q, 'k) pool_env \<Rightarrow> 'q EnvironmentTemplate \<Rightarrow> int \<Rightarrow> nat \<Rightarrow> 'q Environment list
     \<Rightarrow> ('w, 'q, 'k pool_error outcome + unit) pool_ctl" where
  "drainExcess env tmpl minimum capacity active =
     (if minimum < int (length active)
      then (if 0 \<le> minimum then drainPool env tmpl (take (length active - nat minimum) (pl_SortNewest env active))
            else if int capacity < int (length active) - minimum then throwError (noResult, Some PoolPanic)
            else bindE (drainPool env tmpl (pl_SortNewest env active)) (\<lambda>_.
              bindE (requireCurrent env tmpl) (\<lambda>_. throwError (noResult, Some PoolPanic))))
      else returnOk ())"

section \<open>Reconcile\<close>

definition poolMinimum :: "'q EnvironmentTemplate \<Rightarrow> int" where
  "poolMinimum tmpl = (case ts_WarmPool (et_Spec tmpl) of None \<Rightarrow> 0 | Some n \<Rightarrow> n)"

definition keepPool ::
  "('w, 'q, 'k) pool_env \<Rightarrow> int \<Rightarrow> 'q EnvironmentTemplate \<Rightarrow> 'q Environment list \<Rightarrow> ('w, 'q, 'k pool_error outcome) pool_ctl" where
  "keepPool env minimum tmpl environments = do {
     t \<leftarrow> ask (pl_Now env) (\<lambda>_. []);
     unlessDone (classify env tmpl t environments [] 0 0) (\<lambda>(active, quarantined, after).
     unlessDone (fillPool env tmpl minimum quarantined (nat (minimum - int (length active))) active) (\<lambda>active'.
     unlessDone (drainExcess env tmpl minimum (length environments) active') (\<lambda>_.
       ret (requeueAfter after, None))))
   }"

definition reconcileMembers ::
  "('w, 'q, 'k) pool_env \<Rightarrow> 'q EnvironmentTemplate \<Rightarrow> ('w, 'q, 'k pool_error outcome) pool_ctl" where
  "reconcileMembers env tmpl =
     ifErr (ask (pl_EnvironmentsNow env (om_Namespace (et_Meta tmpl)) (warmPoolLabel, om_Name (et_Meta tmpl)))
              (\<lambda>x. case x of Inl _ \<Rightarrow> [] | Inr es \<Rightarrow> [EvPoolList tmpl es]))
       (\<lambda>k. ret (noResult, Some (PoolWrap ''list warm environments'' k)))
       (\<lambda>environments.
          let ready = int (length (filter (readyMember env tmpl) environments)) in
          unlessDone (if et_WarmPoolReady tmpl \<noteq> ready then setWarmPoolReady env ''update warm pool status'' ready tmpl
                      else returnOk tmpl) (\<lambda>tmpl'.
            keepPool env (poolMinimum tmpl) tmpl' environments))"

definition reconcilePermitted ::
  "('w, 'q, 'k) pool_env \<Rightarrow> Claim \<Rightarrow> 'q EnvironmentTemplate \<Rightarrow> ('w, 'q, 'k pool_error outcome) pool_ctl" where
  "reconcilePermitted env claim tmpl =
     (if cl_Lifecycle claim \<noteq> LifecycleActive then ret (noResult, None)
      else if EffectiveEnvironmentBackend zero_environment tmpl \<noteq> EnvironmentBackendPod
      then unlessDone (if et_WarmPoolReady tmpl \<noteq> 0 then setWarmPoolReady env ''clear unsupported warm pool status'' 0 tmpl
                       else returnOk tmpl) (\<lambda>_. ret (noResult, None))
      else reconcileMembers env tmpl)"

definition reconcileIsolated ::
  "('w, 'q, 'k) pool_env \<Rightarrow> Claim \<Rightarrow> 'q EnvironmentTemplate \<Rightarrow> ('w, 'q, 'k pool_error outcome) pool_ctl" where
  "reconcileIsolated env claim tmpl =
     (case pl_Scope env of
        None \<Rightarrow> reconcilePermitted env claim tmpl
      | Some v \<Rightarrow> do {
          answer \<leftarrow> ask (installationExecutionAllowed (Some (pl_Isolation env)) (vf_Installation v)) (\<lambda>_. []);
          (if answer = Inr True then reconcilePermitted env claim tmpl
           else if et_WarmPoolReady tmpl \<noteq> 0
           then unlessDone (setWarmPoolReady env ''clear isolation-blocked warm pool status'' 0 tmpl) (\<lambda>_. ret (requeueNow, None))
           else ret (noResult, case answer of Inl e \<Rightarrow> Some (PoolIsolation e) | Inr _ \<Rightarrow> None))
        })"

definition ReconcileWarmPool ::
  "('w, 'q, 'k) pool_env \<Rightarrow> NamespacedName \<Rightarrow> ('w, 'q, 'k pool_error outcome) pool_ctl" where
  "ReconcileWarmPool env key =
     ifErr (ask (pl_Template env key) (\<lambda>_. []))
       (\<lambda>k. ret (noResult, if pl_NotFound env k then None else Some (PoolKube k)))
       (\<lambda>tmpl.
          if IsCatalogSource tmpl then ret (noResult, None)
          else ifErr (ask (Begin (pl_Scope env) (om_Namespace (et_Meta tmpl)) [LifecycleActive, LifecycleFencing]) (\<lambda>_. []))
            (\<lambda>e. ret (noResult, if isOutOfScope e then None else Some (PoolTenancy e)))
            (\<lambda>(_, claim).
               case (case pl_Scope env of None \<Rightarrow> None | Some v \<Rightarrow> ValidateManagedTemplate tmpl (vf_Installation v) claim) of
                 Some e \<Rightarrow> ret (noResult, Some (PoolTenancy e))
               | None \<Rightarrow> reconcileIsolated env claim tmpl))"

section \<open>Writes are proved and exact\<close>

definition provedTemplate :: "'q pool_event list \<Rightarrow> bool" where
  "provedTemplate h \<longleftrightarrow> (\<exists>h'. h = h' @ [EvTemplateCurrent True])"

text \<open>An unclaimed exact member of the Template in the list that this reconcile read.\<close>

definition listedMember :: "('w, 'q, 'k) pool_env \<Rightarrow> 'q pool_event set \<Rightarrow> 'q Environment \<Rightarrow> bool" where
  "listedMember env X e \<longleftrightarrow> (\<exists>tmpl es. EvPoolList tmpl es \<in> X \<and> e \<in> set es \<and> unclaimedMember env tmpl e)"

text \<open>What may be deleted: a listed member, as it was listed or as the server answered when its mark was
  changed, or one that this reconcile created.\<close>

definition deletable :: "('w, 'q, 'k) pool_env \<Rightarrow> 'q pool_event set \<Rightarrow> 'q Environment \<Rightarrow> bool" where
  "deletable env X e \<longleftrightarrow>
     listedMember env X e
     \<or> (\<exists>e0. listedMember env X e0 \<and> (EvPoolMark e0 (Some e) \<in> X \<or> EvPoolUnmark e0 (Some e) \<in> X))
     \<or> (\<exists>e0. EvPoolCreate e0 (Some e) \<in> X)"

fun poolGood :: "('w, 'q, 'k) pool_env \<Rightarrow> 'q pool_event list \<Rightarrow> 'q pool_event \<Rightarrow> bool" where
  "poolGood env h (EvTemplateCurrent c) = True"
| "poolGood env h (EvPoolList tmpl es) = True"
| "poolGood env h (EvPoolStatus n ok) = provedTemplate h"
| "poolGood env h (EvPoolMark e answer) = (provedTemplate h \<and> listedMember env (set h) e)"
| "poolGood env h (EvPoolUnmark e answer) = (provedTemplate h \<and> listedMember env (set h) e)"
| "poolGood env h (EvPoolCreate e answer) = provedTemplate h"
| "poolGood env h (EvPoolDelete e ok) =
     ((provedTemplate h \<and> deletable env (set h) e)
      \<or> (\<exists>h' e0 created. h = h' @ [EvPoolCreate e0 (Some created), EvTemplateCurrent False] \<and> env_key e = env_key created))"

lemma listedMember_mono: "listedMember env X e \<Longrightarrow> X \<subseteq> Y \<Longrightarrow> listedMember env Y e"
  by (auto simp: listedMember_def)

lemma deletable_mono: "deletable env X e \<Longrightarrow> X \<subseteq> Y \<Longrightarrow> deletable env Y e"
  unfolding deletable_def using listedMember_mono by (metis subsetD)

text \<open>What the server keeps: a status patch does not rename or replace the Template, a read answers with the object
  of the name asked for; sorting only reorders.\<close>

definition keepsIdentity :: "('w, 'q, 'k) pool_env \<Rightarrow> bool" where
  "keepsIdentity env \<longleftrightarrow>
     (\<forall>a b w c w'. run_state (pl_TemplateStatusPatch env a b) w = (Inr c, w') \<longrightarrow>
        om_Name (et_Meta c) = om_Name (et_Meta a) \<and> om_UID (et_Meta c) = om_UID (et_Meta a))
     \<and> (\<forall>key w e w'. run_state (pl_EnvironmentNow env key) w = (Inr e, w') \<longrightarrow> env_key e = key)
     \<and> (\<forall>xs. mset (pl_SortNewest env xs) = mset xs)"

lemma unclaimedMember_identity:
  "om_Name (et_Meta t') = om_Name (et_Meta t) \<Longrightarrow> om_UID (et_Meta t') = om_UID (et_Meta t) \<Longrightarrow>
     unclaimedMember env t' e = unclaimedMember env t e"
  by (simp add: unclaimedMember_def warmPoolMember_def)

text \<open>The log is ordered and holds the events of \<open>X\<close>.\<close>

definition poolLog :: "('w, 'q, 'k) pool_env \<Rightarrow> 'q pool_event set \<Rightarrow> ('w, 'q pool_event) logged \<Rightarrow> bool" where
  "poolLog env X s \<longleftrightarrow> ordered (poolGood env) (lw_log s) \<and> X \<subseteq> set (lw_log s)"

lemma poolLogD: "poolLog env X s \<Longrightarrow> ordered (poolGood env) (lw_log s)"
  by (simp add: poolLog_def)

lemma poolLog_subset: "poolLog env Y s \<Longrightarrow> X \<subseteq> Y \<Longrightarrow> poolLog env X s"
  by (auto simp: poolLog_def)

lemma poolLog_event:
  "poolLog env X s \<Longrightarrow> poolGood env (lw_log s) e \<Longrightarrow> poolLog env (insert e X) (s\<lparr>lw_world := w, lw_log := lw_log s @ [e]\<rparr>)"
  by (auto simp: poolLog_def)

lemma poolLog_quiet: "poolLog env X s \<Longrightarrow> poolLog env X (s\<lparr>lw_world := w\<rparr>)"
  by (simp add: poolLog_def)

lemma templateCurrent_wp:
  assumes "poolLog env X s"
  shows "wp (templateCurrent env tmpl) (\<lambda>x s'. poolLog env X s'
     \<and> (case x of Inl _ \<Rightarrow> True | Inr c \<Rightarrow> lw_log s' = lw_log s @ [EvTemplateCurrent c])) s"
proof -
  have "poolLog env X (s\<lparr>lw_world := w, lw_log := lw_log s @ [EvTemplateCurrent c]\<rparr>)" for w c
    using poolLog_subset [OF poolLog_event [OF assms, of "EvTemplateCurrent c" w]] by auto
  then show ?thesis by (auto simp: templateCurrent_def wp_simps split: prod.split sum.split)
qed

lemma requireCurrent_wp:
  assumes "poolLog env X s"
  shows "wp (requireCurrent env tmpl) (\<lambda>x s'. poolLog env X s' \<and> (x = Inr () \<longrightarrow> provedTemplate (lw_log s'))) s"
  unfolding requireCurrent_def wp_ifErr
  by (rule wp_mono [OF templateCurrent_wp [OF assms, of tmpl]])
    (auto simp: wp_simps provedTemplate_def split: sum.splits)

lemma wp_requireCurrent:
  assumes "poolLog env X s"
    and "\<And>r s'. poolLog env X s' \<Longrightarrow> Q (Inl r) s'"
    and "\<And>s'. poolLog env X s' \<Longrightarrow> provedTemplate (lw_log s') \<Longrightarrow> wp (f ()) Q s'"
  shows "wp (bindE (requireCurrent env tmpl) f) Q s"
  unfolding wp_bindE
  by (rule wp_mono [OF requireCurrent_wp [OF assms(1), of tmpl]]) (auto split: sum.split intro: assms(2,3))

lemma wp_commit_ask:
  assumes "\<And>x w. run_state m (lw_world s) = (x, w) \<Longrightarrow>
      (case x of Inl _ \<Rightarrow> \<forall>r. Q (Inl r) (s\<lparr>lw_world := w, lw_log := lw_log s @ ev x\<rparr>)
       | Inr a \<Rightarrow> Q (Inr a) (s\<lparr>lw_world := w, lw_log := lw_log s @ ev x\<rparr>))"
  shows "wp (commit env message (ask m ev)) Q s"
  using assms by (auto simp: commit_def wp_simps split: prod.split sum.splits)

lemma markUnusable_wp:
  assumes "poolLog env X s" "listedMember env X e"
  shows "wp (markUnusable env tmpl t e) (\<lambda>x s'. case x of
     Inl _ \<Rightarrow> poolLog env X s' | Inr e' \<Rightarrow> poolLog env (insert (EvPoolMark e (Some e')) X) s') s"
  unfolding markUnusable_def
proof (rule wp_requireCurrent [OF assms(1)])
  fix s' assume s': "poolLog env X s'" "provedTemplate (lw_log s')"
  then have "poolGood env (lw_log s') (EvPoolMark e answer)" for answer
    using assms(2) by (auto simp: poolLog_def intro: listedMember_mono)
  note ev = poolLog_event [OF s'(1) this]
  show "wp (commit env ''mark unusable warm environment'' (ask (pl_EnvironmentPatch env e
           (e\<lparr>en_Meta := withAnnotation warmPoolCleanupAnnotation (pl_FormatTime env t) (en_Meta e)\<rparr>))
         (\<lambda>x. [EvPoolMark e (case x of Inl _ \<Rightarrow> None | Inr e' \<Rightarrow> Some e')])))
     (\<lambda>x s'. case x of
     Inl _ \<Rightarrow> poolLog env X s' | Inr e' \<Rightarrow> poolLog env (insert (EvPoolMark e (Some e')) X) s') s'"
    by (rule wp_commit_ask) (auto split: sum.split intro: poolLog_subset [OF ev] ev)
qed simp

lemma clearMark_wp:
  assumes "poolLog env X s" "listedMember env X e"
  shows "wp (clearMark env tmpl e) (\<lambda>x s'. case x of
     Inl _ \<Rightarrow> poolLog env X s' | Inr e' \<Rightarrow> poolLog env (insert (EvPoolUnmark e (Some e')) X) s') s"
  unfolding clearMark_def
proof (rule wp_requireCurrent [OF assms(1)])
  fix s' assume s': "poolLog env X s'" "provedTemplate (lw_log s')"
  then have "poolGood env (lw_log s') (EvPoolUnmark e answer)" for answer
    using assms(2) by (auto simp: poolLog_def intro: listedMember_mono)
  note ev = poolLog_event [OF s'(1) this]
  show "wp (commit env ''clear warm environment cleanup marker'' (ask (pl_EnvironmentPatch env e
           (e\<lparr>en_Meta := withoutAnnotation warmPoolCleanupAnnotation (en_Meta e)\<rparr>))
         (\<lambda>x. [EvPoolUnmark e (case x of Inl _ \<Rightarrow> None | Inr e' \<Rightarrow> Some e')])))
     (\<lambda>x s'. case x of
     Inl _ \<Rightarrow> poolLog env X s' | Inr e' \<Rightarrow> poolLog env (insert (EvPoolUnmark e (Some e')) X) s') s'"
    by (rule wp_commit_ask) (auto split: sum.split intro: poolLog_subset [OF ev] ev)
qed simp

lemma deleteMember_wp:
  assumes "poolLog env X s" "deletable env X e"
  shows "wp (deleteMember env tmpl message e) (\<lambda>_ s'. poolLog env X s') s"
  unfolding deleteMember_def
proof (rule wp_requireCurrent [OF assms(1)])
  fix s' assume s': "poolLog env X s'" "provedTemplate (lw_log s')"
  then have "poolGood env (lw_log s') (EvPoolDelete e ok)" for ok
    using assms(2) by (auto simp: poolLog_def intro: deletable_mono)
  then have "poolLog env X (s'\<lparr>lw_world := w, lw_log := lw_log s' @ [EvPoolDelete e ok]\<rparr>)" for w ok
    by (rule poolLog_subset [OF poolLog_event [OF s'(1)]]) blast
  then show "wp (commit env message (do {
       x \<leftarrow> deleteExact env e;
       ret (case x of None \<Rightarrow> Inr () | Some k \<Rightarrow> Inl k)
     })) (\<lambda>_ s'. poolLog env X s') s'"
    by (simp add: commit_def deleteExact_def wp_simps split: prod.split option.split sum.split)
qed simp

text \<open>The members that go on as active ones may all be deleted again.\<close>

definition poolPost :: "('w, 'q, 'k) pool_env \<Rightarrow> ('a \<Rightarrow> 'q Environment list) \<Rightarrow> 'r + 'a \<Rightarrow> ('w, 'q pool_event) logged \<Rightarrow> bool" where
  "poolPost env members x s \<longleftrightarrow> (case x of
     Inl _ \<Rightarrow> poolLog env {} s
   | Inr a \<Rightarrow> \<exists>Y. poolLog env Y s \<and> (\<forall>e \<in> set (members a). deletable env Y e))"

lemma poolPost_Inl: "poolLog env X s \<Longrightarrow> poolPost env f (Inl r) s"
  by (auto simp: poolPost_def intro: poolLog_subset)

lemma poolPost_Inr: "poolLog env X s \<Longrightarrow> (\<And>e. e \<in> set (f a) \<Longrightarrow> deletable env X e) \<Longrightarrow> poolPost env f (Inr a) s"
  by (auto simp: poolPost_def)

lemma poolPost_mono: "poolPost env f (Inr a) s \<Longrightarrow> set (g b) \<subseteq> set (f a) \<Longrightarrow> poolPost env g (Inr b) s"
  by (auto simp: poolPost_def)

text \<open>A step on one member, after which the walk goes on with more events known.\<close>

lemma wp_member:
  assumes step: "wp m (\<lambda>x s'. case x of Inl _ \<Rightarrow> poolLog env X s' | Inr a \<Rightarrow> \<exists>Y. X \<subseteq> Y \<and> poolLog env Y s' \<and> deletable env Y (member a)) s"
    and rest: "\<And>a Y s'. X \<subseteq> Y \<Longrightarrow> poolLog env Y s' \<Longrightarrow> deletable env Y (member a) \<Longrightarrow> wp (f a) (poolPost env members) s'"
  shows "wp (bindE m f) (poolPost env members) s"
  unfolding wp_bindE
proof (rule wp_mono [OF step], goal_cases)
  case (1 x s')
  then show ?case using rest by (cases x) (auto intro: poolPost_Inl)
qed

lemma markUnusable_member:
  assumes "poolLog env X s" "listedMember env X e"
  shows "wp (bindE (markUnusable env tmpl t e) (\<lambda>e'. returnOk (e', t))) (\<lambda>x s'. case x of
     Inl _ \<Rightarrow> poolLog env X s' | Inr a \<Rightarrow> \<exists>Y. X \<subseteq> Y \<and> poolLog env Y s' \<and> deletable env Y (fst a)) s"
  unfolding wp_bindE
proof (rule wp_mono [OF markUnusable_wp [OF assms]], goal_cases)
  case (1 x s')
  show ?case
  proof (cases x)
    case (Inr e')
    let ?Y = "insert (EvPoolMark e (Some e')) X"
    have "deletable env ?Y e'"
      unfolding deletable_def using listedMember_mono [OF assms(2), of ?Y] by blast
    with 1 Inr show ?thesis by (auto simp: wp_return intro!: exI [of _ ?Y])
  qed (use 1 in simp)
qed

lemma clearMark_member:
  assumes "poolLog env X s" "listedMember env X e"
  shows "wp (clearMark env tmpl e) (\<lambda>x s'. case x of
     Inl _ \<Rightarrow> poolLog env X s' | Inr e' \<Rightarrow> \<exists>Y. X \<subseteq> Y \<and> poolLog env Y s' \<and> deletable env Y e') s"
proof (rule wp_mono [OF clearMark_wp [OF assms]], goal_cases)
  case (1 x s')
  show ?case
  proof (cases x)
    case (Inr e')
    let ?Y = "insert (EvPoolUnmark e (Some e')) X"
    have "deletable env ?Y e'"
      unfolding deletable_def using listedMember_mono [OF assms(2), of ?Y] by blast
    with 1 Inr show ?thesis by (auto intro!: exI [of _ ?Y])
  qed (use 1 in simp)
qed

lemma returnOk_member:
  assumes "poolLog env X s" "listedMember env X (member a)"
  shows "wp (returnOk a) (\<lambda>x s'. case x of
     Inl _ \<Rightarrow> poolLog env X s' | Inr a \<Rightarrow> \<exists>Y. X \<subseteq> Y \<and> poolLog env Y s' \<and> deletable env Y (member a)) s"
  using assms by (auto simp: wp_return deletable_def)

lemma classify_wp:
  assumes "poolLog env X s" "\<forall>e \<in> set es. unclaimedMember env tmpl e \<longrightarrow> listedMember env X e" "\<forall>e \<in> set active. deletable env X e"
  shows "wp (classify env tmpl t es active q after) (poolPost env fst) s"
  using assms
proof (induction es arbitrary: s X active q after)
  case Nil
  then show ?case by (auto simp: wp_return intro: poolPost_Inr)
next
  case (Cons e es)
  have go: "wp (classify env tmpl t es active' q' after') (poolPost env fst) s'"
    if "X \<subseteq> Y" "poolLog env Y s'" "\<forall>e \<in> set active'. deletable env Y e" for Y s' active' q' after'
    using that Cons.prems(2) by (intro Cons.IH [of Y]) (auto intro: listedMember_mono)
  have old: "\<forall>e \<in> set active. deletable env Y e" if "X \<subseteq> Y" for Y
    using that Cons.prems(3) by (auto intro: deletable_mono)
  show ?case
  proof (cases "unclaimedMember env tmpl e")
    case False
    then show ?thesis using go [OF _ Cons.prems(1,3)] by simp
  next
    case member: True
    then have listed: "listedMember env X e" using Cons.prems(2) by simp
    note step = markUnusable_member [OF Cons.prems(1) listed, of tmpl t]
      returnOk_member [OF Cons.prems(1), of fst "(e, since)" for since, simplified, OF listed]
    show ?thesis
    proof (cases "unusableMember env tmpl e")
      case True
      have drop: "wp (bindE (deleteMember env tmpl message e') (\<lambda>_. classify env tmpl t es active q after')) (poolPost env fst) s'"
        if "X \<subseteq> Y" "poolLog env Y s'" "deletable env Y e'" for Y s' e' message after'
        unfolding wp_bindE
        by (rule wp_mono [OF deleteMember_wp [OF that(2,3)]])
          (auto split: sum.split intro: poolPost_Inl go [OF that(1) _ old [OF that(1)]])
      have rest: "wp (let remaining = since + warmPoolCleanupGrace - t in
          if 0 < remaining
          then classify env tmpl t es active (q + 1) (if after = 0 \<or> remaining < after then remaining else after)
          else bindE (deleteMember env tmpl ''delete unusable warm environment'' e') (\<lambda>_.
            classify env tmpl t es active q after)) (poolPost env fst) s'"
        if "X \<subseteq> Y" "poolLog env Y s'" "deletable env Y e'" for Y s' e' since
        unfolding Let_def wp_if using go [OF that(1,2) old [OF that(1)]] drop [OF that] by simp
      have "wp (bindE (case warmPoolUnusableSince env e of
                 Some since \<Rightarrow>
                   if t < since then bindE (markUnusable env tmpl t e) (\<lambda>e'. returnOk (e', t)) else returnOk (e, since)
               | None \<Rightarrow> bindE (markUnusable env tmpl t e) (\<lambda>e'. returnOk (e', t))) (\<lambda>(e', since).
          let remaining = since + warmPoolCleanupGrace - t in
          if 0 < remaining
          then classify env tmpl t es active (q + 1) (if after = 0 \<or> remaining < after then remaining else after)
          else bindE (deleteMember env tmpl ''delete unusable warm environment'' e') (\<lambda>_.
            classify env tmpl t es active q after))) (poolPost env fst) s"
      proof (rule wp_member [where member = fst and X = X], goal_cases)
        case 1
        show ?case by (simp add: step split: option.split)
      next
        case (2 a Y s')
        then show ?case using rest [of Y s' "fst a" "snd a"] by (simp add: case_prod_unfold)
      qed
      with member True show ?thesis by simp
    next
      case False
      have "wp (if warmPoolUnusableSince env e \<noteq> None then clearMark env tmpl e else returnOk e) (\<lambda>x s'. case x of
         Inl _ \<Rightarrow> poolLog env X s' | Inr e' \<Rightarrow> \<exists>Y. X \<subseteq> Y \<and> poolLog env Y s' \<and> deletable env Y e') s"
        unfolding wp_if
        by (simp add: clearMark_member [OF Cons.prems(1) listed]
            returnOk_member [OF Cons.prems(1), of "\<lambda>e. e", OF listed])
      then have "wp (bindE (if warmPoolUnusableSince env e \<noteq> None then clearMark env tmpl e else returnOk e) (\<lambda>e'.
          classify env tmpl t es (active @ [e']) q after)) (poolPost env fst) s"
        by (rule wp_member) (rule go, auto simp: old)
      with member False show ?thesis by simp
    qed
  qed
qed

lemma removeStale_wp:
  assumes "keepsIdentity env" "poolLog env X s" "lw_log s = h @ [EvPoolCreate e0 (Some created), EvTemplateCurrent False]"
  shows "wp (removeStale env created) (\<lambda>x s'. case x of Inl _ \<Rightarrow> poolLog env X s' | Inr _ \<Rightarrow> False) s"
proof -
  have key: "run_state (pl_EnvironmentNow env key) w = (Inr e', w') \<Longrightarrow> env_key e' = key" for key w e' w'
    using assms(1) unfolding keepsIdentity_def by blast
  have "poolGood env (lw_log s) (EvPoolDelete e' ok)" if "env_key e' = env_key created" for e' ok
    using assms(3) that by auto
  then have ev: "poolLog env X (s\<lparr>lw_world := w, lw_log := lw_log s @ [EvPoolDelete e' ok]\<rparr>)"
    if "env_key e' = env_key created" for e' ok w
    using that by (intro poolLog_subset [OF poolLog_event [OF assms(2)]]) auto
  show ?thesis
    using key ev by (auto simp: removeStale_def deleteExact_def wp_simps split: prod.split sum.split option.split
        intro!: poolLog_quiet [OF assms(2)])
qed

lemma createMember_wp:
  assumes "keepsIdentity env" "poolLog env X s"
  shows "wp (createMember env tmpl) (\<lambda>x s'. case x of
     Inl _ \<Rightarrow> poolLog env X s' | Inr e \<Rightarrow> \<exists>Y. X \<subseteq> Y \<and> poolLog env Y s' \<and> deletable env Y e) s"
  unfolding createMember_def
proof (rule wp_requireCurrent [OF assms(2)], goal_cases)
  case (2 s1)
  have ev: "poolLog env (insert (EvPoolCreate e answer) X) (s1\<lparr>lw_world := w, lw_log := lw_log s1 @ [EvPoolCreate e answer]\<rparr>)" for e answer w
    by (rule poolLog_event [OF 2(1)]) (simp add: 2(2))
  have fresh: "deletable env (insert (EvPoolCreate e (Some e')) X) e'" for e e'
    unfolding deletable_def by blast
  have after: "wp (ifErr (templateCurrent env tmpl) (\<lambda>err. throwError (noResult, Some err))
                  (\<lambda>current. if current then returnOk created else removeStale env created)) (\<lambda>x s'. case x of
     Inl _ \<Rightarrow> poolLog env X s' | Inr e \<Rightarrow> \<exists>Y. X \<subseteq> Y \<and> poolLog env Y s' \<and> deletable env Y e)
     (s1\<lparr>lw_world := w, lw_log := lw_log s1 @ [EvPoolCreate e (Some created)]\<rparr>)" (is "wp _ ?Q _") for e created w
    unfolding wp_ifErr
  proof (rule wp_mono [OF templateCurrent_wp [OF ev]], goal_cases)
    case (1 x s2)
    show ?case
    proof (cases x)
      case (Inl err)
      with 1 show ?thesis by (auto simp: wp_return intro: poolLog_subset)
    next
      case (Inr c)
      with 1 have s2: "poolLog env (insert (EvPoolCreate e (Some created)) X) s2"
        "lw_log s2 = lw_log s1 @ [EvPoolCreate e (Some created), EvTemplateCurrent c]" by auto
      have "wp (removeStale env created) ?Q s2" if "\<not> c"
        using s2 that by (intro wp_mono [OF removeStale_wp [OF assms(1) poolLog_subset [OF s2(1)]]])
          (auto split: sum.splits)
      moreover have "?Q (Inr created) s2" using s2(1) fresh by (auto intro!: exI [of _ "insert (EvPoolCreate e (Some created)) X"])
      ultimately show ?thesis using Inr by (simp add: wp_return)
    qed
  qed
  show ?case
    using 2(1) poolLog_subset [OF ev] after
    by (auto simp: wp_case_sum wp_ifErr wp_ask wp_return split: sum.split prod.split)
qed simp

lemma fillPool_wp:
  assumes "keepsIdentity env" "poolLog env X s" "\<forall>e \<in> set active. deletable env X e"
  shows "wp (fillPool env tmpl minimum q turns active) (poolPost env (\<lambda>es. es)) s"
  using assms(2,3)
proof (induction turns arbitrary: s X active)
  case 0
  then show ?case by (auto simp: wp_return intro: poolPost_Inr)
next
  case (Suc turns)
  have "wp (bindE (createMember env tmpl) (\<lambda>e. fillPool env tmpl minimum q turns (active @ [e]))) (poolPost env (\<lambda>es. es)) s"
  proof (rule wp_member [where member = "\<lambda>e. e" and X = X], goal_cases)
    case 1
    show ?case by (rule createMember_wp [OF assms(1) Suc.prems(1)])
  next
    case (2 e Y s')
    then show ?case using Suc.prems(2) by (intro Suc.IH [of Y]) (auto intro: deletable_mono)
  qed
  with Suc.prems show ?case by (auto simp: wp_return intro: poolPost_Inr)
qed

lemma drainPool_wp:
  assumes "poolLog env X s" "\<forall>e \<in> set es. deletable env X e"
  shows "wp (drainPool env tmpl es) (\<lambda>_ s'. poolLog env X s') s"
  using assms
proof (induction es arbitrary: s)
  case Nil
  then show ?case by (simp add: wp_return)
next
  case (Cons e es)
  then show ?case
    by (auto simp: wp_bindE intro!: wp_mono [OF deleteMember_wp [of env X s e]] split: sum.split)
qed

lemma drainExcess_wp:
  assumes "keepsIdentity env" "poolLog env X s" "\<forall>e \<in> set active. deletable env X e"
  shows "wp (drainExcess env tmpl minimum capacity active) (\<lambda>_ s'. poolLog env X s') s"
proof -
  have "mset (pl_SortNewest env active) = mset active" using assms(1) by (simp add: keepsIdentity_def)
  then have all: "\<forall>e \<in> set (pl_SortNewest env active). deletable env X e"
    using assms(3) by (metis set_mset_mset)
  then have "\<forall>e \<in> set (take n (pl_SortNewest env active)). deletable env X e" for n
    by (meson in_set_takeD)
  note drain = drainPool_wp [OF assms(2) all] drainPool_wp [OF assms(2) this]
  have stop: "wp (bindE (requireCurrent env tmpl) (\<lambda>_. throwError (noResult, Some PoolPanic))) (\<lambda>_ s'. poolLog env X s') s'"
    if "poolLog env X s'" for s' by (rule wp_requireCurrent [OF that]) (simp_all add: wp_return)
  show ?thesis
    using assms(2) drain(2)
    by (auto simp: drainExcess_def wp_if wp_return wp_bindE [of "drainPool env tmpl xs" for xs] split: sum.split
      intro!: wp_mono [OF drain(1)] stop)
qed

lemma setWarmPoolReady_wp:
  assumes "keepsIdentity env" "poolLog env X s"
  shows "wp (setWarmPoolReady env message n tmpl) (\<lambda>x s'. poolLog env X s' \<and> (case x of
     Inl _ \<Rightarrow> True | Inr tmpl' \<Rightarrow> unclaimedMember env tmpl' = unclaimedMember env tmpl)) s"
  unfolding setWarmPoolReady_def
proof (rule wp_requireCurrent [OF assms(2)], goal_cases)
  case (2 s1)
  have ev: "poolLog env X (s1\<lparr>lw_world := w, lw_log := lw_log s1 @ [EvPoolStatus n ok]\<rparr>)" for ok w
    by (rule poolLog_subset [OF poolLog_event [OF 2(1)]]) (use 2(2) in auto)
  have "unclaimedMember env tmpl' = unclaimedMember env tmpl"
    if "run_state (pl_TemplateStatusPatch env tmpl new) w = (Inr tmpl', w')" for new w tmpl' w'
    using assms(1) that unclaimedMember_identity [of tmpl' tmpl env] unfolding keepsIdentity_def by blast
  with ev show ?case by (intro wp_commit_ask) (auto split: sum.split)
qed simp

lemma keepPool_wp:
  assumes "keepsIdentity env" "poolLog env X s" "\<forall>e \<in> set es. unclaimedMember env tmpl e \<longrightarrow> listedMember env X e"
  shows "wp (keepPool env minimum tmpl es) (\<lambda>_ s'. poolLog env {} s') s"
proof -
  have drained: "wp (unlessDone (drainExcess env tmpl minimum c active) (\<lambda>_. ret (requeueAfter after, None))) (\<lambda>_ s'. poolLog env {} s') s'"
    if "poolPost env (\<lambda>es. es) (Inr active) s'" for active c after s'
  proof -
    from that obtain Y where "poolLog env Y s'" "\<forall>e \<in> set active. deletable env Y e"
      by (auto simp: poolPost_def)
    from drainExcess_wp [OF assms(1) this] show ?thesis
      unfolding wp_unlessDone by (rule wp_mono) (auto simp: wp_return split: sum.split intro: poolLog_subset)
  qed
  have filled: "wp (unlessDone (fillPool env tmpl minimum q turns active) (\<lambda>active'.
     unlessDone (drainExcess env tmpl minimum c active') (\<lambda>_. ret (requeueAfter after, None)))) (\<lambda>_ s'. poolLog env {} s') s'"
    if "poolPost env fst (Inr (active, q, after)) s'" for active q after turns c s'
  proof -
    from that obtain Y where "poolLog env Y s'" "\<forall>e \<in> set active. deletable env Y e"
      by (auto simp: poolPost_def)
    from fillPool_wp [OF assms(1) this] show ?thesis
      unfolding wp_unlessDone [of "fillPool env tmpl minimum q turns active"]
      by (rule wp_mono) (auto split: sum.split intro: drained simp: poolPost_def [of _ _ "Inl _"])
  qed
  have "wp (classify env tmpl t es [] 0 0) (poolPost env fst) (s\<lparr>lw_world := w\<rparr>)" for t w
    using assms(3) by (intro classify_wp [OF poolLog_quiet [OF assms(2)]]) auto
  then have "wp (unlessDone (classify env tmpl t es [] 0 0) (\<lambda>(active, quarantined, after).
     unlessDone (fillPool env tmpl minimum quarantined (nat (minimum - int (length active))) active) (\<lambda>active'.
     unlessDone (drainExcess env tmpl minimum (length es) active') (\<lambda>_.
       ret (requeueAfter after, None))))) (\<lambda>_ s'. poolLog env {} s') (s\<lparr>lw_world := w\<rparr>)" for t w
    unfolding wp_unlessDone [of "classify env tmpl t es [] 0 0"]
    by (rule wp_mono) (auto split: sum.split intro: filled simp: poolPost_def [of _ _ "Inl _"])
  then show ?thesis by (simp add: keepPool_def wp_bind wp_ask split: prod.split)
qed

lemma reconcileMembers_wp:
  assumes "keepsIdentity env" "poolLog env {} s"
  shows "wp (reconcileMembers env tmpl) (\<lambda>_ s'. poolLog env {} s') s"
proof -
  have kept: "wp (unlessDone (if et_WarmPoolReady tmpl \<noteq> ready then setWarmPoolReady env message ready tmpl else returnOk tmpl)
      (\<lambda>tmpl'. keepPool env (poolMinimum tmpl) tmpl' es)) (\<lambda>_ s'. poolLog env {} s') s1"
    if s1: "poolLog env {EvPoolList tmpl es} s1" for es ready message s1
  proof -
    have keep: "wp (keepPool env (poolMinimum tmpl) tmpl' es) (\<lambda>_ s'. poolLog env {} s') s2"
      if "poolLog env {EvPoolList tmpl es} s2" "unclaimedMember env tmpl' = unclaimedMember env tmpl" for tmpl' s2
      by (rule keepPool_wp [OF assms(1) that(1)]) (auto simp: that(2) listedMember_def)
    have "wp (if et_WarmPoolReady tmpl \<noteq> ready then setWarmPoolReady env message ready tmpl else returnOk tmpl)
      (\<lambda>x s'. poolLog env {EvPoolList tmpl es} s' \<and> (case x of
       Inl _ \<Rightarrow> True | Inr tmpl' \<Rightarrow> unclaimedMember env tmpl' = unclaimedMember env tmpl)) s1"
      using s1 setWarmPoolReady_wp [OF assms(1) s1] by (simp add: wp_return)
    then show ?thesis
      unfolding wp_unlessDone by (rule wp_mono) (auto split: sum.splits intro: keep poolLog_subset)
  qed
  have "poolLog env {EvPoolList tmpl es} (s\<lparr>lw_world := w, lw_log := lw_log s @ [EvPoolList tmpl es]\<rparr>)" for w es
    by (rule poolLog_event [OF assms(2)]) simp
  then show ?thesis
    using kept poolLog_quiet [OF assms(2)]
    by (simp add: reconcileMembers_def wp_ifErr wp_ask wp_return Let_def split: prod.split sum.split)
qed

lemma setWarmPoolReady_done:
  assumes "keepsIdentity env" "poolLog env {} s"
  shows "wp (unlessDone (setWarmPoolReady env message n tmpl) (\<lambda>_. ret r)) (\<lambda>_ s'. poolLog env {} s') s"
  unfolding wp_unlessDone
  by (rule wp_mono [OF setWarmPoolReady_wp [OF assms]]) (auto simp: wp_return split: sum.split)

lemma reconcilePermitted_wp:
  assumes "keepsIdentity env" "poolLog env {} s"
  shows "wp (reconcilePermitted env claim tmpl) (\<lambda>_ s'. poolLog env {} s') s"
  using reconcileMembers_wp [OF assms] setWarmPoolReady_done [OF assms] assms(2)
  by (simp add: reconcilePermitted_def wp_return wp_unlessDone [of "returnOk _"])

lemma reconcileIsolated_wp:
  assumes "keepsIdentity env" "poolLog env {} s"
  shows "wp (reconcileIsolated env claim tmpl) (\<lambda>_ s'. poolLog env {} s') s"
  using reconcilePermitted_wp [OF assms(1)] setWarmPoolReady_done [OF assms(1)] assms(2)
  by (auto simp: reconcileIsolated_def wp_return wp_bind wp_ask poolLog_quiet split: option.split prod.split)

lemma ReconcileWarmPool_wp:
  assumes "keepsIdentity env" "poolLog env {} s"
  shows "wp (ReconcileWarmPool env key) (\<lambda>_ s'. poolLog env {} s') s"
  using reconcileIsolated_wp [OF assms(1)] assms(2)
  by (auto simp: ReconcileWarmPool_def wp_return wp_ifErr wp_ask poolLog_quiet wp_if wp_case_option
      split: option.split prod.split sum.split)


section \<open>The filling loop\<close>

lemma fillPool_full: "\<not> missingMembers minimum q active \<Longrightarrow> fillPool env tmpl minimum q turns active = returnOk active"
  by (cases turns) simp_all

lemma fill_turns:
  assumes "minimum - int (length active) \<le> int turns"
  shows "fillPool env tmpl minimum q (turns + k) active = fillPool env tmpl minimum q turns active"
  using assms
proof (induction turns arbitrary: active)
  case 0
  then have "\<not> missingMembers minimum q active" by (simp add: missingMembers_def)
  then show ?case by (simp add: fillPool_full)
next
  case (Suc turns)
  then have "fillPool env tmpl minimum q (turns + k) (active @ [e]) = fillPool env tmpl minimum q turns (active @ [e])" for e
    by simp
  then show ?case by simp
qed

lemma fill_result:
  assumes "minimum - int (length active) \<le> int turns"
  shows "wp (fillPool env tmpl minimum q turns active)
     (\<lambda>x _. case x of Inl _ \<Rightarrow> True | Inr active' \<Rightarrow> \<not> missingMembers minimum q active') s"
  using assms
proof (induction turns arbitrary: active s)
  case 0
  then show ?case by (simp add: missingMembers_def wp_return)
next
  case (Suc turns active s)
  have "wp (bindE m (\<lambda>e. fillPool env tmpl minimum q turns (active @ [e])))
     (\<lambda>x _. case x of Inl _ \<Rightarrow> True | Inr active' \<Rightarrow> \<not> missingMembers minimum q active') s" for m
    unfolding wp_bindE
    by (rule wp_mono [of _ "\<lambda>_ _. True"]) (simp add: wp_def split: prod.split, use Suc in \<open>simp split: sum.split\<close>)
  then show ?case by (simp add: wp_return)
qed


text \<open>The attempts to create a member in a list of events.\<close>

fun creations :: "'q pool_event list \<Rightarrow> nat" where
  "creations [] = 0"
| "creations (EvPoolCreate e answer # es) = Suc (creations es)"
| "creations (_ # es) = creations es"

lemma creations_append [simp]: "creations (es @ es') = creations es + creations es'"
  by (induction es rule: creations.induct) simp_all

lemma createMember_creations:
  "wp (createMember env tmpl) (\<lambda>_ s'. \<exists>es. lw_log s' = lw_log s @ es \<and> creations es \<le> 1) s"
  by (auto simp: createMember_def requireCurrent_def templateCurrent_def removeStale_def deleteExact_def wp_simps
      split: prod.split sum.split option.split)

lemma fillPool_creations:
  assumes "minimum < 2 ^ 30"
  shows "wp (fillPool env tmpl minimum q turns active) (\<lambda>_ s'. \<exists>es. lw_log s' = lw_log s @ es
     \<and> (creations es = 0 \<or> int (length active + creations es) \<le> minimum \<and> int (length active + creations es) + q \<le> 2 * minimum)) s"
proof (induction turns arbitrary: active s)
  case 0
  then show ?case by (simp add: wp_return)
next
  case (Suc turns active s)
  show ?case
  proof (cases "missingMembers minimum q active")
    case False
    then show ?thesis by (simp add: wp_return)
  next
    case True
    then have room: "int (length active) < minimum" "int (length active) + q < 2 * minimum"
      using assms by (auto simp: missingMembers_def wrap_i32_def)
    have "wp (bindE (createMember env tmpl) (\<lambda>e. fillPool env tmpl minimum q turns (active @ [e]))) (\<lambda>_ s'. \<exists>es. lw_log s' = lw_log s @ es
     \<and> (creations es = 0 \<or> int (length active + creations es) \<le> minimum \<and> int (length active + creations es) + q \<le> 2 * minimum)) s"
      unfolding wp_bindE
    proof (rule wp_mono [OF createMember_creations], goal_cases)
      case (1 x s')
      then obtain es where es: "lw_log s' = lw_log s @ es" "creations es \<le> 1" by blast
      show ?case
      proof (cases x)
        case Inl
        then show ?thesis using es room by auto
      next
        case (Inr e)
        then show ?thesis
          using es room by (simp, intro wp_mono [OF Suc.IH [of "active @ [e]" s']]) (force simp: le_Suc_eq)
      qed
    qed
    with True show ?thesis by simp
  qed
qed

text \<open>The surge is bounded: for a minimum below \<open>2 ^ 30\<close>, however the filling loop ends, the members counted as
  active together with all attempts to create one stay within the minimum, and together with the
  quarantined ones within twice the minimum, as soon as one member is created.
\<close>

theorem warm_pool_surge_bounded:
  assumes "minimum < 2 ^ 30"
  shows "\<exists>es. lw_log (snd (run_state (fillPool env tmpl minimum q turns active) s)) = lw_log s @ es
     \<and> (creations es = 0 \<or> int (length active + creations es) \<le> minimum \<and> int (length active + creations es) + q \<le> 2 * minimum)"
  using fillPool_creations [OF assms, of env tmpl q turns active s] by (simp add: wp_run)

text \<open>From \<open>2 ^ 30\<close> on the sum of the loop condition wraps to a negative number: no member is ever missing, and the pool stays
  empty.\<close>

lemma surge_overflow:
  assumes "2 ^ 30 \<le> minimum" "minimum < 2 ^ 31" "0 \<le> q"
  shows "\<not> missingMembers minimum q active"
proof -
  have "(minimum + minimum + 2 ^ 31) mod 2 ^ 32 = minimum + minimum - 2 ^ 31"
    using mod_pos_pos_trivial [of "minimum + minimum - 2 ^ 31" "2 ^ 32"] mod_add_self2 [of "minimum + minimum - 2 ^ 31" "2 ^ 32 :: int"] assms
    by (simp add: add.commute)
  with assms show ?thesis by (simp add: missingMembers_def wrap_i32_def)
qed

section \<open>An example\<close>

definition example_pool_template :: "unit EnvironmentTemplate" where
  "example_pool_template =
     \<lparr>et_Meta = zero_meta\<lparr>om_Namespace := ''ns'', om_Name := ''go'', om_UID := ''t1'', om_Generation := 3\<rparr>,
      et_Spec = \<lparr>ts_Image = ''img'', ts_Size = ''small'', ts_RuntimeClass = [], ts_Backend = [],
                 ts_IdleTimeout = None, ts_DiskSize = None, ts_WarmPool = Some 1\<rparr>,
      et_WarmPoolReady = 0\<rparr>"

definition example_owned :: "unit EnvironmentTemplate \<Rightarrow> unit Environment \<Rightarrow> unit Environment" where
  "example_owned tmpl e = e\<lparr>en_Meta := (en_Meta e)\<lparr>om_OwnerReferences :=
     [\<lparr>ow_APIVersion = platformGroupVersion, ow_Kind = ''EnvironmentTemplate'', ow_Name = om_Name (et_Meta tmpl),
       ow_UID = om_UID (et_Meta tmpl), ow_Controller = Some True\<rparr>]\<rparr>\<rparr>"

definition example_member :: "unit Environment" where
  "example_member = (let e = example_owned example_pool_template (newMember example_pool_template) in
     e\<lparr>en_Meta := (en_Meta e)\<lparr>om_Name := ''warm-go-1'', om_UID := ''e1''\<rparr>\<rparr>)"

text \<open>One member without a provisioning snapshot, not yet marked: it is marked, and a replacement is created.\<close>

definition example_pool_env :: "(unit, unit, unit) pool_env" where
  "example_pool_env =
     \<lparr>pl_Template = (\<lambda>_. returnOk example_pool_template), pl_TemplateNow = (\<lambda>_. returnOk example_pool_template),
      pl_EnvironmentsNow = (\<lambda>_ _. returnOk [example_member]), pl_EnvironmentNow = (\<lambda>_. absent),
      pl_TemplateStatusPatch = (\<lambda>a b. returnOk a), pl_EnvironmentPatch = (\<lambda>_. returnOk), pl_EnvironmentCreate = (\<lambda>_. returnOk),
      pl_EnvironmentDelete = (\<lambda>_ _ _. ret None), pl_NotFound = (\<lambda>_. True), pl_Conflict = (\<lambda>_. False),
      pl_Find = example_find, pl_Controller = example_controller, pl_SetController = (\<lambda>t e. Inr (example_owned t e)),
      pl_Quantities = \<lparr>qo_Sign = (\<lambda>_. 1), qo_MustParse = (\<lambda>_. ()), qo_SemanticEqual = (\<lambda>_ _. True)\<rparr>,
      pl_Now = ret 0, pl_ParseTime = (\<lambda>_. None), pl_FormatTime = (\<lambda>_. ''0''), pl_SortNewest = (\<lambda>es. es),
      pl_Scope = None, pl_Isolation = example_isolation\<rparr>"

lemma example_pool_identity: "keepsIdentity example_pool_env"
  by (simp add: keepsIdentity_def example_pool_env_def absent_def)

fun isPoolMark :: "'q pool_event \<Rightarrow> bool" where
  "isPoolMark (EvPoolMark _ _) = True"
| "isPoolMark _ = False"

lemma example_pool_log:
  "(let l = lw_log (snd (run_state (ReconcileWarmPool example_pool_env (''ns'', ''go'')) \<lparr>lw_world = (), lw_log = []\<rparr>)) in
     creations l = 1 \<and> length (filter isPoolMark l) = 1)"
  by code_simp


theorem warm_pool_surge_bounded_witness:
  "\<exists>es. lw_log (snd (run_state (fillPool example_pool_env example_pool_template 1 0 5 []) \<lparr>lw_world = (), lw_log = []\<rparr>)) = [] @ es
     \<and> creations es = 1 \<and> int (creations es) \<le> 1"
proof -
  have "creations (lw_log (snd (run_state (fillPool example_pool_env example_pool_template 1 0 5 []) \<lparr>lw_world = (), lw_log = []\<rparr>))) = 1"
    by code_simp
  then show ?thesis
    using warm_pool_surge_bounded [of 1 example_pool_env example_pool_template 0 5 "[]" "\<lparr>lw_world = (), lw_log = []\<rparr>"] by auto
qed

end
