(* ===== verification/Base64.thy ===== *)
theory Base64
  imports Prelude
begin

text \<open>
  \<open>encoding/base64\<close> as the code uses it: \<open>RawURLEncoding\<close>, the URL alphabet without padding. The
  decoder skips carriage returns and newlines and ignores the unused bits of a last short group, as the
  library does.
\<close>

definition base64Alphabet :: string where
  "base64Alphabet = ''ABCDEFGHIJKLMNOPQRSTUVWXYZabcdefghijklmnopqrstuvwxyz0123456789-_''"

definition base64Digit :: "nat \<Rightarrow> char" where
  "base64Digit n = base64Alphabet ! n"

fun indexIn :: "char \<Rightarrow> string \<Rightarrow> nat option" where
  "indexIn c [] = None"
| "indexIn c (d # ds) = (if c = d then Some 0 else map_option Suc (indexIn c ds))"

definition base64Value :: "char \<Rightarrow> nat option" where
  "base64Value c = indexIn c base64Alphabet"

fun base64Encode :: "string \<Rightarrow> string" where
  "base64Encode [] = []"
| "base64Encode [a] = [base64Digit (code a div 4), base64Digit (code a mod 4 * 16)]"
| "base64Encode [a, b] =
     [base64Digit (code a div 4), base64Digit (code a mod 4 * 16 + code b div 16), base64Digit (code b mod 16 * 4)]"
| "base64Encode (a # b # c # r) =
     [base64Digit (code a div 4), base64Digit (code a mod 4 * 16 + code b div 16),
      base64Digit (code b mod 16 * 4 + code c div 64), base64Digit (code c mod 64)] @ base64Encode r"

fun base64Groups :: "nat list \<Rightarrow> string option" where
  "base64Groups [] = Some []"
| "base64Groups [w] = None"
| "base64Groups [w, x] = Some [char_of (w * 4 + x div 16)]"
| "base64Groups [w, x, y] = Some [char_of (w * 4 + x div 16), char_of (x mod 16 * 16 + y div 4)]"
| "base64Groups (w # x # y # z # r) =
     map_option (\<lambda>s. char_of (w * 4 + x div 16) # char_of (x mod 16 * 16 + y div 4) # char_of (y mod 4 * 64 + z) # s)
       (base64Groups r)"

fun traverse :: "('a \<Rightarrow> 'b option) \<Rightarrow> 'a list \<Rightarrow> 'b list option" where
  "traverse f [] = Some []"
| "traverse f (x # xs) = (case f x of None \<Rightarrow> None | Some y \<Rightarrow> map_option (Cons y) (traverse f xs))"

definition base64Decode :: "string \<Rightarrow> string option" where
  "base64Decode s =
     (case traverse base64Value (filter (\<lambda>c. code c \<noteq> 10 \<and> code c \<noteq> 13) s) of
        None \<Rightarrow> None | Some ns \<Rightarrow> base64Groups ns)"

section \<open>Round trip\<close>

lemma base64_digits:
  "list_all (\<lambda>n. base64Value (base64Digit n) = Some n \<and> code (base64Digit n) \<noteq> 10 \<and> code (base64Digit n) \<noteq> 13
     \<and> base64Digit n \<noteq> CHR ''.'') [0..<64]"
  by code_simp

lemma base64Value_Digit [simp]: "n < 64 \<Longrightarrow> base64Value (base64Digit n) = Some n"
  and base64Digit_plain [simp]: "n < 64 \<Longrightarrow> code (base64Digit n) \<noteq> 10" "n < 64 \<Longrightarrow> code (base64Digit n) \<noteq> 13"
  using base64_digits by (simp_all add: list_all_iff)

lemma char_of_byte_code [simp]: "char_of (code c) = c"
  by (simp add: code_def)

fun base64Numbers :: "string \<Rightarrow> nat list" where
  "base64Numbers [] = []"
| "base64Numbers [a] = [code a div 4, code a mod 4 * 16]"
| "base64Numbers [a, b] = [code a div 4, code a mod 4 * 16 + code b div 16, code b mod 16 * 4]"
| "base64Numbers (a # b # c # r) =
     [code a div 4, code a mod 4 * 16 + code b div 16, code b mod 16 * 4 + code c div 64, code c mod 64] @ base64Numbers r"

lemma base64Encode_Numbers: "base64Encode s = map base64Digit (base64Numbers s)"
  by (induction s rule: base64Encode.induct) simp_all

lemma code_parts: "code a div 4 < 64" "code a mod 4 * 16 + code b div 16 < 64" "code b mod 16 * 4 + code c div 64 < 64"
  "code a mod 4 * 16 < 64" "code b mod 16 * 4 < 64" "code c mod 64 < 64"
  using code_less [of a] code_less [of b] code_less [of c] by linarith+

lemma base64Numbers_small: "list_all (\<lambda>n. n < 64) (base64Numbers s)"
  by (induction s rule: base64Numbers.induct) (simp_all add: code_parts)

lemma traverse_digits: "list_all (\<lambda>n. n < 64) ns \<Longrightarrow> traverse base64Value (map base64Digit ns) = Some ns"
  by (induction ns) simp_all

lemma byte_parts: "code b div 16 div 16 = 0" "code b div 16 mod 16 = code b div 16" "code c div 64 div 4 = 0" "code c div 64 mod 4 = code c div 64"
  using code_less [of b] code_less [of c] by (simp_all add: less_mult_imp_div_less)

lemma base64Groups_Numbers: "base64Groups (base64Numbers s) = Some s"
  by (induction s rule: base64Numbers.induct) (simp_all add: byte_parts)

lemma base64Decode_Encode [simp]: "base64Decode (base64Encode s) = Some s"
proof -
  have "filter (\<lambda>c. code c \<noteq> 10 \<and> code c \<noteq> 13) (map base64Digit (base64Numbers s)) = map base64Digit (base64Numbers s)"
    using base64Numbers_small [of s] by (auto simp: filter_id_conv list_all_iff)
  then show ?thesis
    by (simp add: base64Decode_def base64Encode_Numbers traverse_digits base64Numbers_small base64Groups_Numbers)
qed

lemma base64Encode_inject [simp]: "base64Encode s = base64Encode t \<longleftrightarrow> s = t"
  by (metis base64Decode_Encode option.inject)

lemma base64Encode_empty [simp]: "base64Encode s = [] \<longleftrightarrow> s = []"
  by (cases s rule: base64Encode.cases) simp_all

lemma length_base64Encode: "length (base64Encode s) = (4 * length s + 2) div 3"
  by (induction s rule: base64Encode.induct) (simp_all add: algebra_simps)

end
