(* ===== verification/Session_Store.thy ===== *)
theory Session_Store
  imports Base64
begin

text \<open>
  Browser sessions kept in memory (\<open>src/internal/controlplane/session_store.go\<close>). A session keeps a
  Kubernetes credential behind a random identifier; the store holds only the hash of the identifier,
  drops expired sessions when it makes room, and is bounded.

  SHA-256 is the parameter \<open>sx_hash\<close>; the random source is a state that answers a read of 32 bytes
  or fails. The clock is read once per operation and is an argument. The identifier is the base64 text of the
  random bytes.

  The specification is a table of grants that never forgets by itself; the store refines it.
\<close>

section \<open>Errors and state\<close>

datatype sessionStoreErrorKind =
  sessionStoreUnauthenticated
| sessionStoreNotFound
| sessionStoreExpired
| sessionStoreCapacity
| sessionStoreUnavailable

record memorySession =
  se_token :: string
  se_createdAt :: int
  se_expiresAt :: int

record MemorySessionStoreOptions =
  so_AbsoluteTTL :: int
  so_MaxTokenBytes :: int
  so_MaxActiveSessions :: int

record 'h MemorySessionStore =
  sm_sessions :: "('h \<times> memorySession) list"
  sm_absoluteTTL :: int
  sm_maxTokenBytes :: int
  sm_maxActiveSessions :: int

text \<open>What the store calls: the hash of an identifier and a read of 32 random bytes.\<close>

record ('h, 'r) session_env =
  sx_hash :: "string \<Rightarrow> 'h"
  sx_random :: "'r \<Rightarrow> string option \<times> 'r"

abbreviation "defaultSessionAbsoluteTTL \<equiv> 3600000000000 :: int"
abbreviation "defaultMaxSessionTokenBytes \<equiv> 16384 :: int"
abbreviation "defaultMaxActiveSessions \<equiv> 10000 :: int"

section \<open>Operations\<close>

definition NewMemorySessionStore :: "MemorySessionStoreOptions \<Rightarrow> 'h MemorySessionStore" where
  "NewMemorySessionStore options =
     \<lparr>sm_sessions = [],
      sm_absoluteTTL = (if so_AbsoluteTTL options \<le> 0 then defaultSessionAbsoluteTTL else so_AbsoluteTTL options),
      sm_maxTokenBytes = (if so_MaxTokenBytes options \<le> 0 then defaultMaxSessionTokenBytes else so_MaxTokenBytes options),
      sm_maxActiveSessions =
        (if so_MaxActiveSessions options \<le> 0 then defaultMaxActiveSessions else so_MaxActiveSessions options)\<rparr>"

definition ValidateToken :: "'h MemorySessionStore \<Rightarrow> string \<Rightarrow> sessionStoreErrorKind option" where
  "ValidateToken s token =
     (if token = [] \<or> sm_maxTokenBytes s < int (length token) then Some sessionStoreUnauthenticated else None)"

text \<open>\<open>!now.Before(session.expiresAt)\<close>.\<close>

definition expiredAt :: "int \<Rightarrow> memorySession \<Rightarrow> bool" where
  "expiredAt now x \<longleftrightarrow> \<not> now < se_expiresAt x"

definition purgeExpired :: "int \<Rightarrow> 'h MemorySessionStore \<Rightarrow> 'h MemorySessionStore" where
  "purgeExpired now s = s\<lparr>sm_sessions := filter (\<lambda>e. \<not> expiredAt now (snd e)) (sm_sessions s)\<rparr>"

fun createLoop ::
  "('h, 'r) session_env \<Rightarrow> int \<Rightarrow> string \<Rightarrow> nat \<Rightarrow> 'h MemorySessionStore \<Rightarrow> 'r
     \<Rightarrow> (sessionStoreErrorKind + string) \<times> 'h MemorySessionStore \<times> 'r" where
  "createLoop env now token 0 s r = (Inl sessionStoreUnavailable, s, r)"
| "createLoop env now token (Suc n) s r =
     (case sx_random env r of
        (None, r') \<Rightarrow> (Inl sessionStoreUnavailable, s, r')
      | (Some raw, r') \<Rightarrow>
          let i = base64Encode raw; key = sx_hash env i in
          if map_of (sm_sessions s) key \<noteq> None then createLoop env now token n s r'
          else (Inr i,
                s\<lparr>sm_sessions := mput key \<lparr>se_token = token, se_createdAt = now, se_expiresAt = now + sm_absoluteTTL s\<rparr>
                   (sm_sessions s)\<rparr>, r'))"

definition Create ::
  "('h, 'r) session_env \<Rightarrow> int \<Rightarrow> string \<Rightarrow> 'h MemorySessionStore \<Rightarrow> 'r
     \<Rightarrow> (sessionStoreErrorKind + string) \<times> 'h MemorySessionStore \<times> 'r" where
  "Create env now token s r =
     (case ValidateToken s token of
        Some e \<Rightarrow> (Inl e, s, r)
      | None \<Rightarrow>
          let s1 = purgeExpired now s in
          if sm_maxActiveSessions s \<le> int (length (sm_sessions s1)) then (Inl sessionStoreCapacity, s1, r)
          else createLoop env now token 4 s1 r)"

definition Resolve ::
  "('h, 'r) session_env \<Rightarrow> int \<Rightarrow> string \<Rightarrow> 'h MemorySessionStore
     \<Rightarrow> (sessionStoreErrorKind + string) \<times> 'h MemorySessionStore" where
  "Resolve env now i s =
     (if i = [] then (Inl sessionStoreUnauthenticated, s)
      else let key = sx_hash env i in
        case map_of (sm_sessions s) key of
          None \<Rightarrow> (Inl sessionStoreNotFound, s)
        | Some x \<Rightarrow>
            if expiredAt now x then (Inl sessionStoreExpired, s\<lparr>sm_sessions := mdel key (sm_sessions s)\<rparr>)
            else (Inr (se_token x), s))"

definition Delete :: "('h, 'r) session_env \<Rightarrow> string \<Rightarrow> 'h MemorySessionStore \<Rightarrow> 'h MemorySessionStore" where
  "Delete env i s = s\<lparr>sm_sessions := mdel (sx_hash env i) (sm_sessions s)\<rparr>"

section \<open>Runs\<close>

datatype session_call =
  CallCreate int string
| CallResolve int string
| CallDelete string

datatype session_answer =
  Created "sessionStoreErrorKind + string"
| Resolved "sessionStoreErrorKind + string"
| Deleted

fun sessionStep ::
  "('h, 'r) session_env \<Rightarrow> session_call \<Rightarrow> 'h MemorySessionStore \<times> 'r \<Rightarrow> session_answer \<times> 'h MemorySessionStore \<times> 'r" where
  "sessionStep env (CallCreate now token) (s, r) = (case Create env now token s r of (a, s', r') \<Rightarrow> (Created a, s', r'))"
| "sessionStep env (CallResolve now i) (s, r) = (case Resolve env now i s of (a, s') \<Rightarrow> (Resolved a, s', r))"
| "sessionStep env (CallDelete i) (s, r) = (Deleted, Delete env i s, r)"

fun sessionRun ::
  "('h, 'r) session_env \<Rightarrow> session_call list \<Rightarrow> 'h MemorySessionStore \<times> 'r \<Rightarrow> session_answer list" where
  "sessionRun env [] st = []"
| "sessionRun env (c # cs) st = (case sessionStep env c st of (a, st') \<Rightarrow> a # sessionRun env cs st')"

section \<open>Specification\<close>

text \<open>A grant is a credential with its expiry. \<open>live g t\<close> are the identifiers that give access at time \<open>t\<close>.\<close>

type_synonym grant_table = "string \<Rightarrow> (string \<times> int) option"

definition liveGrants :: "grant_table \<Rightarrow> int \<Rightarrow> string set" where
  "liveGrants g t = {i. \<exists>token expires. g i = Some (token, expires) \<and> t < expires}"

text \<open>What an answer promises, given the grants before it.\<close>

fun answerAllowed :: "int \<Rightarrow> int \<Rightarrow> grant_table \<Rightarrow> session_call \<Rightarrow> session_answer \<Rightarrow> bool" where
  "answerAllowed maxBytes maxActive g (CallCreate now token) (Created (Inr i)) \<longleftrightarrow>
     token \<noteq> [] \<and> int (length token) \<le> maxBytes \<and> i \<noteq> [] \<and> i \<notin> liveGrants g now \<and> int (card (liveGrants g now)) < maxActive"
| "answerAllowed maxBytes maxActive g (CallCreate now token) (Created (Inl e)) \<longleftrightarrow>
     (e = sessionStoreUnauthenticated \<and> (token = [] \<or> maxBytes < int (length token)))
     \<or> (e = sessionStoreCapacity \<and> maxActive \<le> int (card (liveGrants g now))) \<or> e = sessionStoreUnavailable"
| "answerAllowed maxBytes maxActive g (CallResolve now i) (Resolved (Inr token)) \<longleftrightarrow>
     i \<noteq> [] \<and> i \<in> liveGrants g now \<and> map_option fst (g i) = Some token"
| "answerAllowed maxBytes maxActive g (CallResolve now i) (Resolved (Inl e)) \<longleftrightarrow>
     e \<in> {sessionStoreUnauthenticated, sessionStoreNotFound, sessionStoreExpired} \<and> (i = [] \<or> i \<notin> liveGrants g now)"
| "answerAllowed maxBytes maxActive g (CallDelete i) Deleted \<longleftrightarrow> True"
| "answerAllowed maxBytes maxActive g _ _ \<longleftrightarrow> False"

fun grantsAfter :: "int \<Rightarrow> grant_table \<Rightarrow> session_call \<Rightarrow> session_answer \<Rightarrow> grant_table" where
  "grantsAfter ttl g (CallCreate now token) (Created (Inr i)) = g(i \<mapsto> (token, now + ttl))"
| "grantsAfter ttl g (CallDelete i) a = g(i := None)"
| "grantsAfter ttl g c a = g"

fun conforms :: "int \<Rightarrow> int \<Rightarrow> int \<Rightarrow> grant_table \<Rightarrow> session_call list \<Rightarrow> session_answer list \<Rightarrow> bool" where
  "conforms ttl maxBytes maxActive g [] [] \<longleftrightarrow> True"
| "conforms ttl maxBytes maxActive g (c # cs) (a # answers) \<longleftrightarrow>
     answerAllowed maxBytes maxActive g c a \<and> conforms ttl maxBytes maxActive (grantsAfter ttl g c a) cs answers"
| "conforms ttl maxBytes maxActive g _ _ \<longleftrightarrow> False"

text \<open>The clock never goes back, and the identifiers of a run do not collide under the hash.\<close>

fun callTime :: "session_call \<Rightarrow> int option" where
  "callTime (CallCreate now _) = Some now"
| "callTime (CallResolve now _) = Some now"
| "callTime (CallDelete _) = None"

fun clockForward :: "int \<Rightarrow> session_call list \<Rightarrow> bool" where
  "clockForward t [] \<longleftrightarrow> True"
| "clockForward t (c # cs) \<longleftrightarrow>
     (case callTime c of None \<Rightarrow> clockForward t cs | Some now \<Rightarrow> t \<le> now \<and> clockForward now cs)"

fun callIdentifiers :: "session_call \<Rightarrow> string set" where
  "callIdentifiers (CallResolve _ i) = {i}"
| "callIdentifiers (CallDelete i) = {i}"
| "callIdentifiers (CallCreate _ _) = {}"

fun answerIdentifiers :: "session_answer \<Rightarrow> string set" where
  "answerIdentifiers (Created (Inr i)) = {i}"
| "answerIdentifiers _ = {}"

definition runIdentifiers :: "session_call list \<Rightarrow> session_answer list \<Rightarrow> string set" where
  "runIdentifiers cs answers = (\<Union>c \<in> set cs. callIdentifiers c) \<union> (\<Union>a \<in> set answers. answerIdentifiers a)"

definition fillsBuffer :: "('h, 'r) session_env \<Rightarrow> bool" where
  "fillsBuffer env \<longleftrightarrow> (\<forall>r raw r'. sx_random env r = (Some raw, r') \<longrightarrow> length raw = 32)"

section \<open>Simulation\<close>

text \<open>The store and the table of grants at time \<open>t\<close>: every stored session is a grant, and every grant that is still
  live is stored. Expired grants may be gone.\<close>

definition simulates ::
  "('h, 'r) session_env \<Rightarrow> string set \<Rightarrow> int \<Rightarrow> 'h MemorySessionStore \<Rightarrow> grant_table \<Rightarrow> bool" where
  "simulates env ids t s g \<longleftrightarrow>
     map_ok (sm_sessions s) \<and> dom g \<subseteq> ids
     \<and> (\<forall>k x. map_of (sm_sessions s) k = Some x \<longrightarrow> (\<exists>i \<in> ids. k = sx_hash env i \<and> g i = Some (se_token x, se_expiresAt x)))
     \<and> (\<forall>i token expires. g i = Some (token, expires) \<longrightarrow> t < expires \<longrightarrow>
          (\<exists>x. map_of (sm_sessions s) (sx_hash env i) = Some x \<and> se_token x = token \<and> se_expiresAt x = expires))"

lemma simulates_later: "simulates env ids t s g \<Longrightarrow> t \<le> t' \<Longrightarrow> simulates env ids t' s g"
  unfolding simulates_def by (meson less_le_trans linorder_not_le order.strict_trans1)

lemma simulates_new: "simulates env ids t (NewMemorySessionStore options) Map.empty"
  by (simp add: simulates_def NewMemorySessionStore_def)

lemma simulates_stored:
  assumes "simulates env ids t s g" "inj_on (sx_hash env) ids" "i \<in> ids" "map_of (sm_sessions s) (sx_hash env i) = Some x"
  shows "g i = Some (se_token x, se_expiresAt x)"
  using assms unfolding simulates_def inj_on_def by metis

lemma simulates_absent:
  assumes "simulates env ids t s g" "map_of (sm_sessions s) (sx_hash env i) = None"
  shows "i \<notin> liveGrants g t"
  using assms unfolding simulates_def liveGrants_def by fastforce

lemma simulates_restrict:
  assumes "simulates env ids t s g" "map_ok m"
    and "\<And>k x. map_of m k = Some x \<Longrightarrow> map_of (sm_sessions s) k = Some x"
    and "\<And>k x. map_of (sm_sessions s) k = Some x \<Longrightarrow> t < se_expiresAt x \<Longrightarrow> map_of m k = Some x"
  shows "simulates env ids t (s\<lparr>sm_sessions := m\<rparr>) g"
  unfolding simulates_def
proof (intro conjI allI impI)
  show "map_ok (sm_sessions (s\<lparr>sm_sessions := m\<rparr>))" using assms(2) by simp
  show "dom g \<subseteq> ids" using assms(1) by (simp add: simulates_def)
next
  fix k x assume "map_of (sm_sessions (s\<lparr>sm_sessions := m\<rparr>)) k = Some x"
  then show "\<exists>i \<in> ids. k = sx_hash env i \<and> g i = Some (se_token x, se_expiresAt x)"
    using assms(1,3) by (simp add: simulates_def)
next
  fix i token expires assume g: "g i = Some (token, expires)" and t: "t < expires"
  then obtain x where "map_of (sm_sessions s) (sx_hash env i) = Some x" "se_token x = token" "se_expiresAt x = expires"
    using assms(1) unfolding simulates_def by blast
  then show "\<exists>x. map_of (sm_sessions (s\<lparr>sm_sessions := m\<rparr>)) (sx_hash env i) = Some x \<and> se_token x = token \<and> se_expiresAt x = expires"
    using assms(4) t by auto
qed

lemma map_ok_filter: "map_ok m \<Longrightarrow> map_ok (filter P m)"
  by (auto simp: map_ok_def distinct_map_filter)

lemma purge_lookup:
  assumes "map_ok (sm_sessions s)"
  shows "map_of (sm_sessions (purgeExpired t s)) k = Some x \<longleftrightarrow> map_of (sm_sessions s) k = Some x \<and> t < se_expiresAt x"
    and "map_ok (sm_sessions (purgeExpired t s))"
  using assms by (auto simp: purgeExpired_def mput_mem_iff map_ok_filter expiredAt_def)

lemma simulates_purge:
  assumes "simulates env ids t s g"
  shows "simulates env ids t (purgeExpired t s) g"
proof -
  have ok: "map_ok (sm_sessions s)" using assms by (simp add: simulates_def)
  have "simulates env ids t (s\<lparr>sm_sessions := sm_sessions (purgeExpired t s)\<rparr>) g"
    using assms purge_lookup [OF ok] by (intro simulates_restrict) auto
  then show ?thesis by (simp add: purgeExpired_def)
qed

lemma live_count:
  assumes sim: "simulates env ids t s g" and inj: "inj_on (sx_hash env) ids"
  shows "card (liveGrants g t) = length (sm_sessions (purgeExpired t s))"
proof -
  let ?m = "sm_sessions (purgeExpired t s)"
  have sim': "simulates env ids t (purgeExpired t s) g" by (rule simulates_purge [OF sim])
  have ok: "map_ok ?m" using sim' by (simp add: simulates_def)
  have fresh: "t < se_expiresAt x" if "map_of ?m k = Some x" for k x
    using that purge_lookup(1) [of s t k x] sim by (simp add: simulates_def)
  have "sx_hash env ` liveGrants g t = set (map fst ?m)"
  proof (intro set_eqI iffI)
    fix k assume "k \<in> sx_hash env ` liveGrants g t"
    then obtain i where "i \<in> liveGrants g t" "k = sx_hash env i" by blast
    then have "map_of ?m k \<noteq> None" using simulates_absent [OF sim', of i] by blast
    then show "k \<in> set (map fst ?m)" by (simp add: map_of_eq_None_iff)
  next
    fix k assume "k \<in> set (map fst ?m)"
    then obtain x where x: "map_of ?m k = Some x" by (metis list.set_map map_of_eq_None_iff not_None_eq)
    then obtain i where "i \<in> ids" "k = sx_hash env i" "g i = Some (se_token x, se_expiresAt x)"
      using sim' unfolding simulates_def by blast
    then show "k \<in> sx_hash env ` liveGrants g t" using fresh [OF x] by (auto simp: liveGrants_def)
  qed
  moreover have "liveGrants g t \<subseteq> ids" using sim by (auto simp: simulates_def liveGrants_def)
  then have "card (sx_hash env ` liveGrants g t) = card (liveGrants g t)"
    by (intro card_image inj_on_subset [OF inj])
  ultimately have "card (liveGrants g t) = card (set (map fst ?m))" by simp
  also have "\<dots> = length ?m" using ok distinct_card [of "map fst ?m"] by (simp add: map_ok_def)
  finally show ?thesis .
qed

text \<open>What the loop of \<open>Create\<close> does: it stores one session under a fresh key, or fails.\<close>

lemma createLoop_cases:
  assumes "fillsBuffer env" "createLoop env now token n s r = (a, s', r')"
  shows "(a = Inl sessionStoreUnavailable \<and> s' = s)
     \<or> (\<exists>i. a = Inr i \<and> i \<noteq> [] \<and> map_of (sm_sessions s) (sx_hash env i) = None
          \<and> s' = s\<lparr>sm_sessions := mput (sx_hash env i)
               \<lparr>se_token = token, se_createdAt = now, se_expiresAt = now + sm_absoluteTTL s\<rparr> (sm_sessions s)\<rparr>)"
  using assms(2)
proof (induction n arbitrary: r)
  case (Suc n)
  obtain x r1 where x: "sx_random env r = (x, r1)" by force
  show ?case
  proof (cases x)
    case None
    with Suc.prems x show ?thesis by simp
  next
    case (Some raw)
    with x assms(1) have "length raw = 32" by (auto simp: fillsBuffer_def)
    then have "base64Encode raw \<noteq> []" by auto
    with Suc x Some show ?thesis by (auto simp: Let_def split: if_splits)
  qed
qed simp

lemma simulates_create:
  assumes "simulates env ids t s g" "inj_on (sx_hash env) ids" "i \<in> ids" "map_of (sm_sessions s) (sx_hash env i) = None"
  shows "simulates env ids t
     (s\<lparr>sm_sessions := mput (sx_hash env i) \<lparr>se_token = token, se_createdAt = c, se_expiresAt = e\<rparr> (sm_sessions s)\<rparr>)
     (g(i \<mapsto> (token, e)))"
proof -
  have other: "sx_hash env j \<noteq> sx_hash env i" if "j \<in> ids" "j \<noteq> i" for j
    using that assms(2,3) by (auto dest: inj_onD)
  have dom: "g j = Some p \<Longrightarrow> j \<in> ids" for j p using assms(1) by (auto simp: simulates_def)
  have kept: "\<exists>j \<in> ids. k = sx_hash env j \<and> (g(i \<mapsto> (token, e))) j = Some (se_token x, se_expiresAt x)"
    if "map_of (sm_sessions s) k = Some x" for k x
  proof -
    obtain j where "j \<in> ids" "k = sx_hash env j" "g j = Some (se_token x, se_expiresAt x)"
      using assms(1) \<open>map_of (sm_sessions s) k = Some x\<close> unfolding simulates_def by blast
    moreover have "j \<noteq> i" using assms(4) that calculation(2) by auto
    ultimately show ?thesis by auto
  qed
  show ?thesis
    unfolding simulates_def
    using assms(1,3) other dom kept by (auto simp: simulates_def)
qed

lemma simulates_delete:
  assumes "simulates env ids t s g" "inj_on (sx_hash env) ids" "i \<in> ids"
  shows "simulates env ids t (Delete env i s) (g(i := None))"
proof -
  have other: "sx_hash env j \<noteq> sx_hash env i" if "j \<in> ids" "j \<noteq> i" for j
    using that assms(2,3) by (auto dest: inj_onD)
  have dom: "g j = Some p \<Longrightarrow> j \<in> ids" for j p using assms(1) by (auto simp: simulates_def)
  have kept: "\<exists>j \<in> ids. k = sx_hash env j \<and> (g(i := None)) j = Some (se_token x, se_expiresAt x)"
    if "k \<noteq> sx_hash env i" "map_of (sm_sessions s) k = Some x" for k x
    using assms(1) that unfolding simulates_def by (metis fun_upd_apply)
  show ?thesis
    unfolding simulates_def Delete_def
    using assms(1) other dom kept by (auto simp: simulates_def)
qed

text \<open>The limits of a store never change.\<close>

definition sameLimits :: "'h MemorySessionStore \<Rightarrow> 'h MemorySessionStore \<Rightarrow> bool" where
  "sameLimits s s' \<longleftrightarrow>
     sm_absoluteTTL s' = sm_absoluteTTL s \<and> sm_maxTokenBytes s' = sm_maxTokenBytes s
     \<and> sm_maxActiveSessions s' = sm_maxActiveSessions s"

lemma create_conforms:
  assumes sim: "simulates env ids now s g" and inj: "inj_on (sx_hash env) ids" and fills: "fillsBuffer env"
    and run: "Create env now token s r = (a, s', r')" and ids: "answerIdentifiers (Created a) \<subseteq> ids"
  shows "answerAllowed (sm_maxTokenBytes s) (sm_maxActiveSessions s) g (CallCreate now token) (Created a)
     \<and> simulates env ids now s' (grantsAfter (sm_absoluteTTL s) g (CallCreate now token) (Created a)) \<and> sameLimits s s'"
proof (cases "token = [] \<or> sm_maxTokenBytes s < int (length token)")
  case True
  with run sim show ?thesis by (auto simp: Create_def ValidateToken_def sameLimits_def)
next
  case valid: False
  define s1 where "s1 = purgeExpired now s"
  have limits: "sm_absoluteTTL s1 = sm_absoluteTTL s" "sameLimits s s1" by (simp_all add: s1_def purgeExpired_def sameLimits_def)
  have sim1: "simulates env ids now s1 g" unfolding s1_def by (rule simulates_purge [OF sim])
  have count: "card (liveGrants g now) = length (sm_sessions s1)" unfolding s1_def by (rule live_count [OF sim inj])
  show ?thesis
  proof (cases "sm_maxActiveSessions s \<le> int (length (sm_sessions s1))")
    case True
    with run valid sim1 limits count show ?thesis by (auto simp: Create_def ValidateToken_def s1_def Let_def)
  next
    case False
    with run valid have loop: "createLoop env now token 4 s1 r = (a, s', r')"
      by (simp add: Create_def ValidateToken_def s1_def Let_def)
    consider (failed) "a = Inl sessionStoreUnavailable" "s' = s1"
      | (issued) i where "a = Inr i" "i \<noteq> []" "map_of (sm_sessions s1) (sx_hash env i) = None"
          "s' = s1\<lparr>sm_sessions := mput (sx_hash env i)
             \<lparr>se_token = token, se_createdAt = now, se_expiresAt = now + sm_absoluteTTL s1\<rparr> (sm_sessions s1)\<rparr>"
      using createLoop_cases [OF fills loop] by blast
    then show ?thesis
    proof cases
      case failed
      with sim1 limits show ?thesis by simp
    next
      case issued
      have "simulates env ids now s' (g(i \<mapsto> (token, now + sm_absoluteTTL s)))"
        unfolding issued(4) limits(1) using simulates_create [OF sim1 inj _ issued(3)] ids issued(1) by simp
      moreover have "i \<notin> liveGrants g now" by (rule simulates_absent [OF sim1 issued(3)])
      moreover have "sameLimits s s'" using limits(2) unfolding issued(4) by (simp add: sameLimits_def)
      ultimately show ?thesis using issued(1,2) valid False count by simp
    qed
  qed
qed

lemma resolve_conforms:
  assumes sim: "simulates env ids now s g" and inj: "inj_on (sx_hash env) ids" and i: "i \<in> ids"
    and run: "Resolve env now i s = (a, s')"
  shows "answerAllowed (sm_maxTokenBytes s) (sm_maxActiveSessions s) g (CallResolve now i) (Resolved a)
     \<and> simulates env ids now s' g \<and> sameLimits s s'"
proof (cases "i = []")
  case True
  with run sim show ?thesis by (auto simp: Resolve_def sameLimits_def)
next
  case named: False
  show ?thesis
  proof (cases "map_of (sm_sessions s) (sx_hash env i)")
    case None
    with run named sim simulates_absent [OF sim None] show ?thesis by (auto simp: Resolve_def sameLimits_def)
  next
    case (Some x)
    have g: "g i = Some (se_token x, se_expiresAt x)" by (rule simulates_stored [OF sim inj i Some])
    show ?thesis
    proof (cases "expiredAt now x")
      case True
      have "simulates env ids now (s\<lparr>sm_sessions := mdel (sx_hash env i) (sm_sessions s)\<rparr>) g"
        using sim True Some by (intro simulates_restrict) (auto simp: simulates_def expiredAt_def split: if_splits)
      with True run named Some g show ?thesis
        by (auto simp: Resolve_def Let_def sameLimits_def liveGrants_def expiredAt_def)
    next
      case False
      with run named Some g sim show ?thesis
        by (auto simp: Resolve_def Let_def sameLimits_def liveGrants_def expiredAt_def)
    qed
  qed
qed

lemma run_conforms:
  assumes "fillsBuffer env" "inj_on (sx_hash env) ids"
    and "simulates env ids t s g" "clockForward t cs" "runIdentifiers cs (sessionRun env cs (s, r)) \<subseteq> ids"
  shows "conforms (sm_absoluteTTL s) (sm_maxTokenBytes s) (sm_maxActiveSessions s) g cs (sessionRun env cs (s, r))"
  using assms(3-5)
proof (induction cs arbitrary: t s g r)
  case (Cons c cs)
  obtain a s' r' where step: "sessionStep env c (s, r) = (a, s', r')" by (metis prod_cases3)
  let ?t = "case callTime c of None \<Rightarrow> t | Some now \<Rightarrow> now"
  have sim: "simulates env ids ?t s g"
    using Cons.prems(1,2) by (auto split: option.splits intro: simulates_later)
  have ids: "callIdentifiers c \<subseteq> ids" "answerIdentifiers a \<subseteq> ids" "runIdentifiers cs (sessionRun env cs (s', r')) \<subseteq> ids"
    using Cons.prems(3) step by (auto simp: runIdentifiers_def)
  have one: "answerAllowed (sm_maxTokenBytes s) (sm_maxActiveSessions s) g c a
      \<and> simulates env ids ?t s' (grantsAfter (sm_absoluteTTL s) g c a) \<and> sameLimits s s'"
  proof (cases c)
    case (CallCreate now token)
    with step obtain b where "Create env now token s r = (b, s', r')" "a = Created b" by (auto split: prod.splits)
    with create_conforms [OF _ assms(2,1), of now s g token r b s' r'] sim ids(2) CallCreate show ?thesis by simp
  next
    case (CallResolve now i)
    with step obtain b where "Resolve env now i s = (b, s')" "a = Resolved b" by (auto split: prod.splits)
    with resolve_conforms [OF _ assms(2), of now s g i b s'] sim ids(1) CallResolve show ?thesis by simp
  next
    case (CallDelete i)
    with step simulates_delete [OF _ assms(2), of t s g i] sim ids(1) show ?thesis
      by (auto simp: sameLimits_def Delete_def)
  qed
  have "clockForward ?t cs" using Cons.prems(2) by (auto split: option.splits)
  with Cons.IH [of ?t s' "grantsAfter (sm_absoluteTTL s) g c a" r'] one ids(3) step show ?case
    by (simp add: sameLimits_def)
qed simp

text \<open>(C23) The session store refines a table of grants. For every sequence of calls on a new store, with a clock
  that does not go back and identifiers that do not collide under the hash, every answer is the one the
  table allows: \<open>Resolve\<close> returns a credential exactly for an identifier that \<open>Create\<close> issued with it, that was
  not deleted since and has not expired; \<open>Create\<close> issues an identifier that gives no access yet, only for a
  usable credential, and refuses for capacity exactly when that many sessions are live.\<close>

theorem session_store_refines:
  assumes "fillsBuffer env" "clockForward t cs"
    and "inj_on (sx_hash env) (runIdentifiers cs (sessionRun env cs (NewMemorySessionStore options, r)))"
  shows "conforms (sm_absoluteTTL (NewMemorySessionStore options :: 'h MemorySessionStore))
     (sm_maxTokenBytes (NewMemorySessionStore options :: 'h MemorySessionStore))
     (sm_maxActiveSessions (NewMemorySessionStore options :: 'h MemorySessionStore)) Map.empty cs
     (sessionRun env cs (NewMemorySessionStore options :: 'h MemorySessionStore, r))"
  by (rule run_conforms [OF assms(1,3) simulates_new assms(2)]) simp

text \<open>A session is created, used, and refused once it has expired.\<close>

definition example_session_env :: "(string, nat) session_env" where
  "example_session_env = \<lparr>sx_hash = (\<lambda>i. i), sx_random = (\<lambda>n. (Some (replicate 32 (char_of n)), Suc n))\<rparr>"

definition example_session_calls :: "session_call list" where
  "example_session_calls =
     [CallCreate 0 ''tok'', CallResolve 5 (base64Encode (replicate 32 (char_of (7::nat)))), CallCreate 6 ''other'',
      CallResolve 10 (base64Encode (replicate 32 (char_of (7::nat))))]"

definition example_session_options :: MemorySessionStoreOptions where
  "example_session_options = \<lparr>so_AbsoluteTTL = 10, so_MaxTokenBytes = 0, so_MaxActiveSessions = 1\<rparr>"

lemma example_session_run:
  "sessionRun example_session_env example_session_calls (NewMemorySessionStore example_session_options, 7) =
     [Created (Inr (base64Encode (replicate 32 (char_of (7::nat))))), Resolved (Inr ''tok''), Created (Inl sessionStoreCapacity),
      Resolved (Inl sessionStoreExpired)]"
  by code_simp

theorem session_store_refines_witness:
  "conforms 10 16384 1 Map.empty example_session_calls
     [Created (Inr (base64Encode (replicate 32 (char_of (7::nat))))), Resolved (Inr ''tok''), Created (Inl sessionStoreCapacity),
      Resolved (Inl sessionStoreExpired)]"
proof -
  have "fillsBuffer example_session_env" by (simp add: fillsBuffer_def example_session_env_def)
  moreover have "clockForward 0 example_session_calls" by (simp add: example_session_calls_def)
  moreover have "inj_on (sx_hash example_session_env) X" for X by (simp add: example_session_env_def inj_on_def)
  ultimately show ?thesis
    using session_store_refines [of example_session_env 0 example_session_calls example_session_options 7]
      example_session_run
    by (simp add: NewMemorySessionStore_def example_session_options_def)
qed

end
