(* ===== verification/Access_Control.thy ===== *)
theory Access_Control
  imports Go_Monad Session_Store
begin

text \<open>
  Authentication, authorization and browser sessions of the control plane
  (\<open>src/internal/controlplane/auth.go\<close> and \<open>session.go\<close>). The Kubernetes client and the session
  store are the interfaces of the code, records of operations on the world; \<open>nil\<close> is \<open>None\<close>. Every call is
  logged. \<open>url.Parse\<close> and \<open>strings.EqualFold\<close> on a host are parameters; metrics are left out.

  The contract of \<open>SessionStore\<close> is the locale \<open>revocable_sessions\<close>, interpreted on the store in memory.
\<close>

section \<open>Interfaces\<close>

record ResourceAccess =
  ra_Namespace :: string
  ra_Verb :: string
  ra_Resource :: string
  ra_Subresource :: string
  ra_Name :: string

record principal =
  pr_name :: string
  pr_uid :: string
  pr_groups :: "string list"
  pr_extra :: "(string \<times> string list) list"
  pr_bootstrap :: bool

definition zero_principal :: principal where
  "zero_principal = \<lparr>pr_name = [], pr_uid = [], pr_groups = [], pr_extra = [], pr_bootstrap = False\<rparr>"

text \<open>The parts of \<open>TokenReview\<close> and \<open>SubjectAccessReview\<close> that the code sets and reads.\<close>

record TokenReviewStatus =
  tr_Error :: string
  tr_Authenticated :: bool
  tr_Audiences :: "string list"
  tr_Username :: string
  tr_UID :: string
  tr_Groups :: "string list"
  tr_Extra :: "(string \<times> string list) list"

record AccessReviewSpec =
  as_User :: string
  as_UID :: string
  as_Groups :: "string list"
  as_Extra :: "(string \<times> string list) list"
  as_Group :: string
  as_Version :: string
  as_Access :: ResourceAccess

record AccessReviewStatus =
  ar_EvaluationError :: string
  ar_Allowed :: bool

record 'w kube_client =
  kc_TokenReview :: "string \<Rightarrow> string list \<Rightarrow> ('w, string + TokenReviewStatus) state"
  kc_SubjectAccessReview :: "AccessReviewSpec \<Rightarrow> ('w, string + AccessReviewStatus) state"

record 'w SessionStore =
  st_ValidateToken :: "string \<Rightarrow> 'w \<Rightarrow> sessionStoreErrorKind option"
  st_Create :: "string \<Rightarrow> ('w, sessionStoreErrorKind + string) state"
  st_Resolve :: "string \<Rightarrow> ('w, sessionStoreErrorKind + string) state"
  st_Delete :: "string \<Rightarrow> ('w, sessionStoreErrorKind option) state"

record 'w KubernetesAccessController =
  ac_Client :: "'w kube_client option"
  ac_BootstrapToken :: string
  ac_Audience :: string
  ac_Sessions :: "'w SessionStore option"

text \<open>A request: the first \<open>Authorization\<close> value, the session cookie, and what the origin checks read.\<close>

record Request =
  rq_Method :: string
  rq_Authorization :: string
  rq_Cookie :: "string option"
  rq_Origins :: "string list"
  rq_TLS :: bool
  rq_Host :: string
  rq_ForwardedHosts :: "string list"
  rq_ForwardedProtos :: "string list"

record Session =
  sn_Authenticated :: bool
  sn_Username :: string

datatype access_error =
  errUnauthenticated
| errForbidden
| SessionFailure sessionStoreErrorKind
| AccessFailure string string
| Joined access_error access_error

fun isUnauthenticated :: "access_error \<Rightarrow> bool" where
  "isUnauthenticated errUnauthenticated = True"
| "isUnauthenticated (Joined a b) = (isUnauthenticated a \<or> isUnauthenticated b)"
| "isUnauthenticated _ = False"

datatype access_event =
  EvTokenReview string "string list" "string + TokenReviewStatus"
| EvAccessReview AccessReviewSpec "string + AccessReviewStatus"
| EvResolve string "sessionStoreErrorKind + string"
| EvStore string "sessionStoreErrorKind + string"
| EvRevoke string "sessionStoreErrorKind option"

type_synonym 'w access_state = "('w, access_event) logged"

section \<open>Credentials of a request\<close>

fun cutSpace :: "string \<Rightarrow> (string \<times> string) option" where
  "cutSpace [] = None"
| "cutSpace (c # cs) =
     (if c = CHR '' '' then Some ([], cs) else map_option (\<lambda>(a, b). (c # a, b)) (cutSpace cs))"

definition requestBearerToken :: "Request \<Rightarrow> access_error + string" where
  "requestBearerToken r =
     (if rq_Authorization r \<noteq> [] then
        (case cutSpace (rq_Authorization r) of
           None \<Rightarrow> Inl errUnauthenticated
         | Some (scheme, token) \<Rightarrow>
             if ascii_lower scheme \<noteq> ''bearer'' \<or> TrimSpace token = [] then Inl errUnauthenticated
             else Inr (TrimSpace token))
      else Inl errUnauthenticated)"

definition sessionStoreAccessError :: "sessionStoreErrorKind \<Rightarrow> access_error" where
  "sessionStoreAccessError e =
     (if e = sessionStoreUnauthenticated \<or> e = sessionStoreNotFound \<or> e = sessionStoreExpired
      then errUnauthenticated else SessionFailure e)"

definition resolveSession :: "'w SessionStore \<Rightarrow> string \<Rightarrow> ('w access_state, access_error + string) state" where
  "resolveSession st i = mapErr sessionStoreAccessError (ask (st_Resolve st i) (\<lambda>a. [EvResolve i a]))"

definition revokeSession :: "'w SessionStore \<Rightarrow> string \<Rightarrow> ('w access_state, sessionStoreErrorKind option) state" where
  "revokeSession st i = ask (st_Delete st i) (\<lambda>a. [EvRevoke i a])"

text \<open>The token, whether it came as a bearer, and the session identifier (empty for a bearer).\<close>

definition requestCredential ::
  "'w KubernetesAccessController \<Rightarrow> Request \<Rightarrow> bool \<Rightarrow> ('w access_state, access_error + string \<times> bool \<times> string) state" where
  "requestCredential a r allowSession =
     (if rq_Authorization r \<noteq> [] then ret (map_sum id (\<lambda>token. (token, True, [])) (requestBearerToken r))
      else case (ac_Sessions a, rq_Cookie r) of
        (Some st, Some cookie) \<Rightarrow>
          if \<not> allowSession \<or> cookie = [] then throwError errUnauthenticated
          else bindE (resolveSession st cookie) (\<lambda>token. returnOk (token, False, cookie))
      | _ \<Rightarrow> throwError errUnauthenticated)"

section \<open>Authentication\<close>

abbreviation "defaultTokenAudience \<equiv> ''swe-platform''"

definition audienceOf :: "'w KubernetesAccessController \<Rightarrow> string" where
  "audienceOf a = (if ac_Audience a = [] then defaultTokenAudience else ac_Audience a)"

definition reviewedPrincipal :: "TokenReviewStatus \<Rightarrow> principal" where
  "reviewedPrincipal t =
     \<lparr>pr_name = tr_Username t, pr_uid = tr_UID t, pr_groups = tr_Groups t, pr_extra = tr_Extra t, pr_bootstrap = False\<rparr>"

definition acceptReview :: "string \<Rightarrow> string + TokenReviewStatus \<Rightarrow> access_error + principal" where
  "acceptReview audience answer =
     (case answer of
        Inl e \<Rightarrow> Inl (AccessFailure ''authenticate request'' e)
      | Inr t \<Rightarrow>
          if tr_Error t \<noteq> [] then Inl (AccessFailure ''authenticate request'' (tr_Error t))
          else if \<not> tr_Authenticated t \<or> audience \<notin> set (tr_Audiences t) then Inl errUnauthenticated
          else Inr (reviewedPrincipal t))"

definition authenticate ::
  "'w KubernetesAccessController \<Rightarrow> string \<Rightarrow> bool \<Rightarrow> ('w access_state, access_error + principal) state" where
  "authenticate a token bearer =
     (if ac_BootstrapToken a \<noteq> [] \<and> token = ac_BootstrapToken a then
        (if \<not> bearer then throwError errUnauthenticated
         else returnOk (zero_principal\<lparr>pr_name := ''swe-platform:bootstrap'', pr_bootstrap := True\<rparr>))
      else case ac_Client a of
        None \<Rightarrow> throwError (AccessFailure ''authenticate request'' ''Kubernetes client is unavailable'')
      | Some c \<Rightarrow> do {
          answer \<leftarrow> ask (kc_TokenReview c token [audienceOf a]) (\<lambda>x. [EvTokenReview token [audienceOf a] x]);
          ret (acceptReview (audienceOf a) answer)
        })"

text \<open>A session whose credential is no longer accepted is revoked.\<close>

definition revokeRejected ::
  "'w SessionStore \<Rightarrow> string \<Rightarrow> access_error \<Rightarrow> ('w access_state, access_error) state" where
  "revokeRejected st i err = do {
     deleteErr \<leftarrow> revokeSession st i;
     ret (case deleteErr of None \<Rightarrow> err | Some d \<Rightarrow> Joined err (sessionStoreAccessError d))
   }"

definition authenticateRequest ::
  "'w KubernetesAccessController \<Rightarrow> Request \<Rightarrow> bool \<Rightarrow> ('w access_state, access_error + principal) state" where
  "authenticateRequest a r allowSession =
     bindE (requestCredential a r allowSession) (\<lambda>(token, bearer, sessionID).
       ifErr (authenticate a token bearer)
         (\<lambda>err. case ac_Sessions a of
            Some st \<Rightarrow> if sessionID \<noteq> [] \<and> isUnauthenticated err
                       then do { e \<leftarrow> revokeRejected st sessionID err; throwError e } else throwError err
          | None \<Rightarrow> throwError err)
         returnOk)"

definition principalKey :: "principal \<Rightarrow> string" where
  "principalKey user = (if pr_uid user \<noteq> [] then pr_uid user else pr_name user)"

definition AuthenticatePrincipal ::
  "'w KubernetesAccessController \<Rightarrow> Request \<Rightarrow> bool \<Rightarrow> ('w access_state, access_error + string) state" where
  "AuthenticatePrincipal a r allowSession =
     bindE (authenticateRequest a r allowSession) (\<lambda>user.
       returnOk (if pr_bootstrap user then ''bootstrap'' else principalKey user))"

section \<open>Authorization\<close>

definition accessReview :: "principal \<Rightarrow> ResourceAccess \<Rightarrow> AccessReviewSpec" where
  "accessReview user access =
     \<lparr>as_User = pr_name user, as_UID = pr_uid user, as_Groups = pr_groups user, as_Extra = pr_extra user,
      as_Group = ''swe.dev'', as_Version = ''v1alpha1'', as_Access = access\<rparr>"

definition accessAnswer :: "principal \<Rightarrow> string + AccessReviewStatus \<Rightarrow> access_error + string" where
  "accessAnswer user answer =
     (case answer of
        Inl e \<Rightarrow> Inl (AccessFailure ''authorize request'' e)
      | Inr s \<Rightarrow>
          if ar_EvaluationError s \<noteq> [] then Inl (AccessFailure ''authorize request'' (ar_EvaluationError s))
          else if \<not> ar_Allowed s then Inl errForbidden
          else Inr (principalKey user))"

definition AuthorizePrincipal ::
  "'w KubernetesAccessController \<Rightarrow> Request \<Rightarrow> ResourceAccess \<Rightarrow> bool \<Rightarrow> ('w access_state, access_error + string) state" where
  "AuthorizePrincipal a r access allowSession =
     bindE (authenticateRequest a r allowSession) (\<lambda>user.
       if pr_bootstrap user then returnOk ''bootstrap''
       else case ac_Client a of
         None \<Rightarrow> throwError (AccessFailure ''authorize request'' ''Kubernetes client is unavailable'')
       | Some c \<Rightarrow> do {
           answer \<leftarrow> ask (kc_SubjectAccessReview c (accessReview user access)) (\<lambda>x. [EvAccessReview (accessReview user access) x]);
           ret (accessAnswer user answer)
         })"

definition Authorize ::
  "'w KubernetesAccessController \<Rightarrow> Request \<Rightarrow> ResourceAccess \<Rightarrow> bool \<Rightarrow> ('w access_state, access_error + unit) state" where
  "Authorize a r access allowSession = bindE (AuthorizePrincipal a r access allowSession) (\<lambda>_. returnOk ())"

section \<open>Browser sessions\<close>

definition CreateSession ::
  "'w KubernetesAccessController \<Rightarrow> Request \<Rightarrow> ('w access_state, access_error + Session \<times> string) state" where
  "CreateSession a r =
     (case requestBearerToken r of
        Inl e \<Rightarrow> throwError e
      | Inr token \<Rightarrow>
          (case ac_Sessions a of
             None \<Rightarrow> throwError (AccessFailure ''create session'' ''session store is unavailable'')
           | Some st \<Rightarrow> do {
               invalid \<leftarrow> reads (\<lambda>s. st_ValidateToken st token (lw_world s));
               (case invalid of
                  Some e \<Rightarrow> throwError (sessionStoreAccessError e)
                | None \<Rightarrow>
                    bindE (authenticate a token True) (\<lambda>user.
                      if pr_bootstrap user then throwError errForbidden
                      else bindE (mapErr sessionStoreAccessError (ask (st_Create st token) (\<lambda>x. [EvStore token x]))) (\<lambda>sessionID.
                        returnOk (\<lparr>sn_Authenticated = True, sn_Username = pr_name user\<rparr>, sessionID))))
             }))"

definition CurrentSession ::
  "'w KubernetesAccessController \<Rightarrow> Request \<Rightarrow> ('w access_state, access_error + Session) state" where
  "CurrentSession a r =
     (case (rq_Cookie r, ac_Sessions a) of
        (Some cookie, Some st) \<Rightarrow>
          if cookie = [] then throwError errUnauthenticated
          else bindE (resolveSession st cookie) (\<lambda>token.
            ifErr (authenticate a token False)
              (\<lambda>err. if isUnauthenticated err then do { e \<leftarrow> revokeRejected st cookie err; throwError e } else throwError err)
              (\<lambda>user. returnOk \<lparr>sn_Authenticated = True, sn_Username = pr_name user\<rparr>))
      | _ \<Rightarrow> throwError errUnauthenticated)"

definition DeleteSession ::
  "'w KubernetesAccessController \<Rightarrow> Request \<Rightarrow> ('w access_state, access_error option) state" where
  "DeleteSession a r =
     (case ac_Sessions a of
        None \<Rightarrow> ret (Some (SessionFailure sessionStoreUnavailable))
      | Some st \<Rightarrow>
          (case rq_Cookie r of
             None \<Rightarrow> ret None
           | Some cookie \<Rightarrow> do {
               e \<leftarrow> revokeSession st cookie;
               ret (map_option sessionStoreAccessError e)
             }))"

section \<open>The session endpoint\<close>

text \<open>The parts of a parsed URL that the origin check reads.\<close>

record parsed_url =
  pu_Scheme :: string
  pu_Host :: string
  pu_User :: bool
  pu_Path :: string
  pu_RawQuery :: string
  pu_Fragment :: string

record Cookie =
  ck_Value :: string
  ck_Path :: string
  ck_MaxAge :: int
  ck_HttpOnly :: bool
  ck_Secure :: bool
  ck_SameSiteStrict :: bool

datatype response_body =
  NoBody
| SessionBody Session
| ProblemBody string string string

record Response =
  rp_Status :: nat
  rp_Body :: response_body
  rp_Cookie :: "Cookie option"
  rp_Allow :: string
  rp_WWWAuthenticate :: string

record 'w session_server =
  sv_sessions :: "'w KubernetesAccessController option"
  sv_trustProxy :: bool
  sv_allowInsecureSessions :: bool
  sv_parseURL :: "string \<Rightarrow> parsed_url option"
  sv_EqualFold :: "string \<Rightarrow> string \<Rightarrow> bool"

definition writeProblem :: "nat \<Rightarrow> string \<Rightarrow> string \<Rightarrow> string \<Rightarrow> Response" where
  "writeProblem status problem title detail =
     \<lparr>rp_Status = status, rp_Body = ProblemBody (''https://swe-platform.dev/problems/'' @ problem) title detail,
      rp_Cookie = None, rp_Allow = [], rp_WWWAuthenticate = []\<rparr>"

fun isForbidden :: "access_error \<Rightarrow> bool" where
  "isForbidden errForbidden = True"
| "isForbidden (Joined a b) = (isForbidden a \<or> isForbidden b)"
| "isForbidden _ = False"

definition writeRESTAccessError :: "access_error \<Rightarrow> Response" where
  "writeRESTAccessError e =
     (if isUnauthenticated e
      then (writeProblem 401 ''authentication-required'' ''Authentication required'' ''provide a valid Kubernetes credential'')
             \<lparr>rp_WWWAuthenticate := ''Bearer''\<rparr>
      else if isForbidden e
      then writeProblem 403 ''access-denied'' ''Access denied'' ''Kubernetes authorization denied this operation''
      else writeProblem 503 ''authorization-unavailable'' ''Authorization unavailable''
             ''Kubernetes authentication or authorization is unavailable'')"

definition effectiveRequestOrigin :: "Request \<Rightarrow> bool \<Rightarrow> (string \<times> string) option" where
  "effectiveRequestOrigin r trustProxy =
     (let direct = (if rq_TLS r then ''https'' else ''http'', rq_Host r) in
      if trustProxy \<and> (rq_ForwardedHosts r \<noteq> [] \<or> rq_ForwardedProtos r \<noteq> []) then
        (case (rq_ForwardedHosts r, rq_ForwardedProtos r) of
           ([h], [p]) \<Rightarrow>
             if CHR '','' \<in> set h \<or> CHR '','' \<in> set p then None
             else let host = TrimSpace h; scheme = ascii_lower (TrimSpace p) in
               if host = [] \<or> (scheme \<noteq> ''http'' \<and> scheme \<noteq> ''https'') then None else Some (scheme, host)
         | _ \<Rightarrow> None)
      else Some direct)"

definition sameOrigin :: "'w session_server \<Rightarrow> Request \<Rightarrow> bool" where
  "sameOrigin sv r =
     (case rq_Origins r of
        [origin] \<Rightarrow>
          if CHR '','' \<in> set origin then False
          else (case sv_parseURL sv origin of
            None \<Rightarrow> False
          | Some u \<Rightarrow>
              if pu_Host u = [] \<or> pu_User u \<or> pu_Path u \<noteq> [] \<or> pu_RawQuery u \<noteq> [] \<or> pu_Fragment u \<noteq> [] then False
              else (case effectiveRequestOrigin r (sv_trustProxy sv) of
                None \<Rightarrow> False
              | Some (scheme, host) \<Rightarrow> pu_Scheme u = scheme \<and> sv_EqualFold sv (pu_Host u) host))
      | _ \<Rightarrow> False)"

definition invalidOrigin :: Response where
  "invalidOrigin = writeProblem 403 ''invalid-origin'' ''Invalid origin''
     ''cookie-authenticated mutations require an exact same-origin Origin header''"

definition requireMutationOrigin :: "'w session_server \<Rightarrow> Request \<Rightarrow> Response option" where
  "requireMutationOrigin sv r =
     (if rq_Authorization r \<noteq> [] then None else if sameOrigin sv r then None else Some invalidOrigin)"

definition sessionCookie :: "'w session_server \<Rightarrow> string \<Rightarrow> int \<Rightarrow> Cookie" where
  "sessionCookie sv v age =
     \<lparr>ck_Value = v, ck_Path = ''/'', ck_MaxAge = age, ck_HttpOnly = True, ck_Secure = (\<not> sv_allowInsecureSessions sv),
      ck_SameSiteStrict = True\<rparr>"

definition createSession ::
  "'w session_server \<Rightarrow> 'w KubernetesAccessController \<Rightarrow> Request \<Rightarrow> ('w access_state, Response) state" where
  "createSession sv a r =
     (case effectiveRequestOrigin r (sv_trustProxy sv) of
        None \<Rightarrow> ret (writeProblem 400 ''invalid-forwarded-origin'' ''Invalid forwarded origin''
                  ''trusted forwarded host and protocol headers must be single-valued and valid'')
      | Some (scheme, _) \<Rightarrow>
          if \<not> sv_allowInsecureSessions sv \<and> scheme \<noteq> ''https''
          then ret (writeProblem 400 ''https-required'' ''HTTPS required'' ''browser sessions may only be created over HTTPS'')
          else ifErr (CreateSession a r) (\<lambda>e. ret (writeRESTAccessError e)) (\<lambda>(session, sessionID).
            ret \<lparr>rp_Status = 200, rp_Body = SessionBody session, rp_Cookie = Some (sessionCookie sv sessionID 0),
                 rp_Allow = [], rp_WWWAuthenticate = []\<rparr>))"

definition getSession ::
  "'w KubernetesAccessController \<Rightarrow> Request \<Rightarrow> ('w access_state, Response) state" where
  "getSession a r =
     ifErr (CurrentSession a r) (\<lambda>e. ret (writeRESTAccessError e)) (\<lambda>session.
       ret \<lparr>rp_Status = 200, rp_Body = SessionBody session, rp_Cookie = None, rp_Allow = [], rp_WWWAuthenticate = []\<rparr>)"

definition deleteSession ::
  "'w session_server \<Rightarrow> 'w KubernetesAccessController \<Rightarrow> Request \<Rightarrow> ('w access_state, Response) state" where
  "deleteSession sv a r =
     (if rq_Cookie r \<noteq> None \<and> \<not> sameOrigin sv r then ret invalidOrigin
      else do {
        e \<leftarrow> DeleteSession a r;
        ret (case e of
               Some _ \<Rightarrow> writeProblem 503 ''session-unavailable'' ''Session service unavailable''
                           ''browser session revocation could not be committed''
             | None \<Rightarrow> \<lparr>rp_Status = 204, rp_Body = NoBody, rp_Cookie = Some (sessionCookie sv [] (- 1)),
                         rp_Allow = [], rp_WWWAuthenticate = []\<rparr>)
      })"

definition handleSession :: "'w session_server \<Rightarrow> Request \<Rightarrow> ('w access_state, Response) state" where
  "handleSession sv r =
     (case sv_sessions sv of
        None \<Rightarrow> ret (writeProblem 503 ''session-unavailable'' ''Session service unavailable''
                  ''browser session exchange is not configured'')
      | Some a \<Rightarrow>
          if rq_Method r = ''POST'' then createSession sv a r
          else if rq_Method r = ''GET'' then getSession a r
          else if rq_Method r = ''DELETE'' then deleteSession sv a r
          else ret ((writeProblem 405 ''method-not-allowed'' ''Method not allowed'' ''session supports POST, GET, and DELETE'')
                 \<lparr>rp_Allow := ''POST, GET, DELETE''\<rparr>))"

section \<open>What is granted\<close>

lemma wp_ret: "wp (ret x) Q = Q x"
  by (simp add: fun_eq_iff wp_return)

text \<open>The credential of a request and the calls made to obtain it.\<close>

definition presents ::
  "'w KubernetesAccessController \<Rightarrow> Request \<Rightarrow> bool \<Rightarrow> string \<Rightarrow> bool \<Rightarrow> access_event list \<Rightarrow> bool" where
  "presents a r allowSession token bearer calls \<longleftrightarrow>
     (bearer \<and> requestBearerToken r = Inr token \<and> calls = [])
     \<or> (\<not> bearer \<and> rq_Authorization r = [] \<and> allowSession
         \<and> (\<exists>cookie. rq_Cookie r = Some cookie \<and> cookie \<noteq> [] \<and> calls = [EvResolve cookie (Inr token)]))"

text \<open>The review of a token that makes its user known.\<close>

definition reviewed ::
  "'w KubernetesAccessController \<Rightarrow> string \<Rightarrow> TokenReviewStatus \<Rightarrow> access_event list \<Rightarrow> bool" where
  "reviewed a token t calls \<longleftrightarrow>
     calls = [EvTokenReview token [audienceOf a] (Inr t)] \<and> tr_Error t = [] \<and> tr_Authenticated t
     \<and> audienceOf a \<in> set (tr_Audiences t) \<and> (ac_BootstrapToken a = [] \<or> token \<noteq> ac_BootstrapToken a)"

lemma acceptReview_iff:
  "acceptReview audience answer = Inr user \<longleftrightarrow>
     (\<exists>t. answer = Inr t \<and> tr_Error t = [] \<and> tr_Authenticated t \<and> audience \<in> set (tr_Audiences t) \<and> user = reviewedPrincipal t)"
  by (auto simp: acceptReview_def split: sum.splits if_splits)

lemma reviewedPrincipal_user [simp]: "\<not> pr_bootstrap (reviewedPrincipal t)" "pr_name (reviewedPrincipal t) = tr_Username t"
  by (simp_all add: reviewedPrincipal_def)

lemma authenticate_wp:
  "wp (authenticate a token bearer) (\<lambda>x s'.
     case x of
       Inl e \<Rightarrow> \<exists>calls. lw_log s' = lw_log s @ calls
     | Inr user \<Rightarrow>
         if pr_bootstrap user then bearer \<and> ac_BootstrapToken a \<noteq> [] \<and> token = ac_BootstrapToken a \<and> lw_log s' = lw_log s
         else \<exists>t calls. reviewed a token t calls \<and> user = reviewedPrincipal t \<and> lw_log s' = lw_log s @ calls) s"
  by (auto simp: authenticate_def wp_simps zero_principal_def acceptReview_iff reviewed_def
      split: option.splits prod.splits sum.splits)

lemma requestCredential_wp:
  "wp (requestCredential a r allowSession) (\<lambda>x s'.
     case x of
       Inl e \<Rightarrow> True
     | Inr (token, bearer, sessionID) \<Rightarrow> \<exists>calls. presents a r allowSession token bearer calls \<and> lw_log s' = lw_log s @ calls) s"
  by (cases "requestBearerToken r")
    (auto simp: requestCredential_def resolveSession_def wp_simps presents_def
      split: option.splits prod.splits sum.splits)

text \<open>How a principal was established, with all calls made for it.\<close>

definition established ::
  "'w KubernetesAccessController \<Rightarrow> Request \<Rightarrow> bool \<Rightarrow> principal \<Rightarrow> access_event list \<Rightarrow> bool" where
  "established a r allowSession user calls \<longleftrightarrow>
     (if pr_bootstrap user
      then ac_BootstrapToken a \<noteq> [] \<and> requestBearerToken r = Inr (ac_BootstrapToken a) \<and> calls = []
      else \<exists>token bearer t before review.
        presents a r allowSession token bearer before \<and> reviewed a token t review
        \<and> user = reviewedPrincipal t \<and> calls = before @ review)"

lemma authenticateRequest_wp:
  "wp (authenticateRequest a r allowSession) (\<lambda>x s'.
     case x of
       Inl e \<Rightarrow> True
     | Inr user \<Rightarrow> \<exists>calls. established a r allowSession user calls \<and> lw_log s' = lw_log s @ calls) s"
  unfolding authenticateRequest_def wp_bindE
proof (rule wp_mono [OF requestCredential_wp], goal_cases)
  case (1 x s1)
  show ?case
  proof (cases x)
    case (Inl e)
    then show ?thesis by simp
  next
    case (Inr c)
    obtain token bearer sessionID where c: "c = (token, bearer, sessionID)" by (metis prod_cases3)
    with 1 Inr obtain before where before: "presents a r allowSession token bearer before" "lw_log s1 = lw_log s @ before" by auto
    have "wp (ifErr (authenticate a token bearer)
         (\<lambda>err. case ac_Sessions a of
            Some st \<Rightarrow> if sessionID \<noteq> [] \<and> isUnauthenticated err
                       then do { e \<leftarrow> revokeRejected st sessionID err; throwError e } else throwError err
          | None \<Rightarrow> throwError err)
         returnOk) (\<lambda>x s'.
     case x of
       Inl e \<Rightarrow> True
     | Inr user \<Rightarrow> \<exists>calls. established a r allowSession user calls \<and> lw_log s' = lw_log s @ calls) s1"
      unfolding wp_ifErr
    proof (rule wp_mono [OF authenticate_wp], goal_cases)
      case (1 y s2)
      then show ?case
      proof (cases y)
        case (Inl e)
        then show ?thesis by (simp add: wp_simps revokeRejected_def wp_def split: option.splits prod.splits)
      next
        case (Inr user)
        have "\<exists>calls. established a r allowSession user calls \<and> lw_log s2 = lw_log s @ calls"
        proof (cases "pr_bootstrap user")
          case True
          with 1 Inr have "bearer" "ac_BootstrapToken a \<noteq> []" "token = ac_BootstrapToken a" "lw_log s2 = lw_log s1" by auto
          with before have "established a r allowSession user []" "lw_log s2 = lw_log s @ []"
            by (auto simp: established_def presents_def True)
          then show ?thesis by blast
        next
          case False
          with 1 Inr obtain t review where review: "reviewed a token t review" "user = reviewedPrincipal t" "lw_log s2 = lw_log s1 @ review"
            by auto
          have "established a r allowSession user (before @ review)"
            unfolding established_def using False before(1) review(1,2) by (metis (full_types))
          moreover have "lw_log s2 = lw_log s @ (before @ review)" using review(3) before(2) by simp
          ultimately show ?thesis by blast
        qed
        with Inr show ?thesis by (simp add: wp_simps)
      qed
    qed
    with Inr c show ?thesis by simp
  qed
qed

lemma AuthorizePrincipal_wp:
  "wp (AuthorizePrincipal a r access allowSession) (\<lambda>x s'.
     case x of
       Inl e \<Rightarrow> True
     | Inr key \<Rightarrow> \<exists>user calls. established a r allowSession user calls
         \<and> (if pr_bootstrap user then key = ''bootstrap'' \<and> lw_log s' = lw_log s @ calls
            else key = principalKey user
              \<and> (\<exists>verdict. ar_EvaluationError verdict = [] \<and> ar_Allowed verdict
                   \<and> lw_log s' = lw_log s @ calls @ [EvAccessReview (accessReview user access) (Inr verdict)]))) s"
  unfolding AuthorizePrincipal_def wp_bindE
proof (rule wp_mono [OF authenticateRequest_wp], goal_cases)
  case (1 x s1)
  then show ?case
    by (cases x) (fastforce simp: wp_simps accessAnswer_def split: option.splits prod.splits sum.splits if_splits)+
qed

lemma CreateSession_wp:
  "wp (CreateSession a r) (\<lambda>x s'.
     case x of
       Inl e \<Rightarrow> True
     | Inr (session, sessionID) \<Rightarrow> \<exists>token t review. requestBearerToken r = Inr token \<and> reviewed a token t review
         \<and> session = \<lparr>sn_Authenticated = True, sn_Username = tr_Username t\<rparr>
         \<and> lw_log s' = lw_log s @ review @ [EvStore token (Inr sessionID)]) s"
proof (cases "requestBearerToken r")
  case (Inl e)
  then show ?thesis by (simp add: CreateSession_def wp_simps)
next
  case (Inr token)
  show ?thesis
  proof (cases "ac_Sessions a")
    case None
    with Inr show ?thesis by (simp add: CreateSession_def wp_simps)
  next
    case (Some st)
    have "wp (bindE (authenticate a token True) (\<lambda>user.
                      if pr_bootstrap user then throwError errForbidden
                      else bindE (mapErr sessionStoreAccessError (ask (st_Create st token) (\<lambda>x. [EvStore token x]))) (\<lambda>sessionID.
                        returnOk (\<lparr>sn_Authenticated = True, sn_Username = pr_name user\<rparr>, sessionID)))) (\<lambda>x s'.
     case x of
       Inl e \<Rightarrow> True
     | Inr (session, sessionID) \<Rightarrow> \<exists>token t review. requestBearerToken r = Inr token \<and> reviewed a token t review
         \<and> session = \<lparr>sn_Authenticated = True, sn_Username = tr_Username t\<rparr>
         \<and> lw_log s' = lw_log s @ review @ [EvStore token (Inr sessionID)]) s"
      unfolding wp_bindE
    proof (rule wp_mono [OF authenticate_wp], goal_cases)
      case (1 y s1)
      with Inr show ?case
        by (cases y) (fastforce simp: wp_simps split: prod.splits sum.splits if_splits)+
    qed
    with Inr Some show ?thesis by (simp add: CreateSession_def wp_simps split: option.splits)
  qed
qed


text \<open>The endpoint: what a response that sets the cookie says of the request.\<close>

definition cookieLawful :: "'w session_server \<Rightarrow> Request \<Rightarrow> access_event list \<Rightarrow> Response \<Rightarrow> bool" where
  "cookieLawful sv r calls resp \<longleftrightarrow>
     (case rp_Cookie resp of
        None \<Rightarrow> True
      | Some ck \<Rightarrow>
          ck_HttpOnly ck \<and> ck_SameSiteStrict ck \<and> ck_Path ck = ''/'' \<and> ck_Secure ck = (\<not> sv_allowInsecureSessions sv)
          \<and> ((rq_Method r = ''POST'' \<and> rp_Status resp = 200
                \<and> (sv_allowInsecureSessions sv \<or> map_option fst (effectiveRequestOrigin r (sv_trustProxy sv)) = Some ''https'')
                \<and> (\<exists>token review. requestBearerToken r = Inr token \<and> calls = review @ [EvStore token (Inr (ck_Value ck))]))
             \<or> (rq_Method r = ''DELETE'' \<and> rp_Status resp = 204 \<and> ck_Value ck = [] \<and> ck_MaxAge ck = - 1
                \<and> (case rq_Cookie r of None \<Rightarrow> calls = [] | Some i \<Rightarrow> sameOrigin sv r \<and> calls = [EvRevoke i None]))))"

definition cookieGuarded :: "'w session_server \<Rightarrow> Request \<Rightarrow> access_event list \<Rightarrow> Response \<Rightarrow> access_event list \<Rightarrow> bool" where
  "cookieGuarded sv r before resp after \<longleftrightarrow>
     rp_Cookie resp = None \<or> (\<exists>calls. after = before @ calls \<and> cookieLawful sv r calls resp)"

lemma problem_sets_no_cookie [simp]:
  "rp_Cookie (writeProblem n c t d) = None" "rp_Cookie (writeRESTAccessError e) = None" "rp_Cookie invalidOrigin = None"
  by (simp_all add: writeProblem_def writeRESTAccessError_def invalidOrigin_def)

lemma createSession_wp:
  assumes "rq_Method r = ''POST''"
  shows "wp (createSession sv a r) (\<lambda>resp s'. cookieGuarded sv r (lw_log s) resp (lw_log s')) s"
proof (cases "effectiveRequestOrigin r (sv_trustProxy sv)")
  case None
  then show ?thesis by (simp add: createSession_def wp_return cookieGuarded_def)
next
  case (Some p)
  obtain scheme host where p: "p = (scheme, host)" by force
  show ?thesis
  proof (cases "\<not> sv_allowInsecureSessions sv \<and> scheme \<noteq> ''https''")
    case True
    with Some p show ?thesis by (simp add: createSession_def wp_return cookieGuarded_def)
  next
    case False
    have "wp (ifErr (CreateSession a r) (\<lambda>e. ret (writeRESTAccessError e)) (\<lambda>(session, sessionID).
            ret \<lparr>rp_Status = 200, rp_Body = SessionBody session, rp_Cookie = Some (sessionCookie sv sessionID 0),
                 rp_Allow = [], rp_WWWAuthenticate = []\<rparr>))
          (\<lambda>resp s'. cookieGuarded sv r (lw_log s) resp (lw_log s')) s"
      unfolding wp_ifErr
    proof (rule wp_mono [OF CreateSession_wp], goal_cases)
      case (1 x s')
      show ?case
      proof (cases x)
        case (Inl e)
        then show ?thesis by (simp add: wp_return cookieGuarded_def)
      next
        case (Inr y)
        obtain session sessionID where y: "y = (session, sessionID)" by force
        with 1 Inr obtain token review where "requestBearerToken r = Inr token"
          "lw_log s' = lw_log s @ review @ [EvStore token (Inr sessionID)]" by auto
        moreover have "cookieLawful sv r (review @ [EvStore token (Inr sessionID)])
          \<lparr>rp_Status = 200, rp_Body = SessionBody session, rp_Cookie = Some (sessionCookie sv sessionID 0),
                 rp_Allow = [], rp_WWWAuthenticate = []\<rparr>"
          using assms Some p False calculation(1) by (auto simp: cookieLawful_def sessionCookie_def)
        ultimately show ?thesis using Inr y by (auto simp: wp_return cookieGuarded_def)
      qed
    qed
    with Some p False show ?thesis by (auto simp: createSession_def)
  qed
qed

lemma deleteSession_wp:
  assumes "rq_Method r = ''DELETE''"
  shows "wp (deleteSession sv a r) (\<lambda>resp s'. cookieGuarded sv r (lw_log s) resp (lw_log s')) s"
  using assms
  by (auto simp: deleteSession_def DeleteSession_def revokeSession_def wp_simps cookieGuarded_def cookieLawful_def sessionCookie_def
      split: option.splits prod.splits)

text \<open>The session endpoint sets the cookie only under guard. Whatever the request, a response that sets it makes it
  \<open>HttpOnly\<close> and same-site strict, and secure unless insecure sessions are allowed; it is set to a new session
  only by a POST over an effective HTTPS origin (or where insecure sessions are allowed) whose bearer token was
  stored, and cleared only by a DELETE that carried no session or came from the same origin and
  committed the revocation.\<close>

theorem session_cookie_guarded:
  "cookieGuarded sv r (lw_log s) (fst (run_state (handleSession sv r) s)) (lw_log (snd (run_state (handleSession sv r) s)))"
proof -
  have get: "wp (getSession a r) (\<lambda>resp s'. cookieGuarded sv r (lw_log s) resp (lw_log s')) s" for a
    unfolding getSession_def wp_ifErr cookieGuarded_def
    by (rule wp_mono [where Q = "\<lambda>_ _. True"]) (simp_all add: wp_def split: sum.split prod.split)
  have "wp (handleSession sv r) (\<lambda>resp s'. cookieGuarded sv r (lw_log s) resp (lw_log s')) s"
    using get by (auto simp: handleSession_def wp_return cookieGuarded_def [of sv r _ "writeProblem n c t d" for n c t d]
      intro: createSession_wp deleteSession_wp split: option.split) (simp_all add: cookieGuarded_def)
  then show ?thesis by (simp add: wp_run)
qed

section \<open>Revocation\<close>

text \<open>The part of the contract of \<open>SessionStore\<close> that logging out relies on, for a controller: deleting without an
  error revokes; what is revoked is refused as unauthenticated, and stays revoked whatever else is resolved,
  deleted or reviewed.\<close>

datatype access_request =
  AskAuthorize Request ResourceAccess bool
| AskCurrent Request
| AskLogout Request

fun serveAccess :: "'w KubernetesAccessController \<Rightarrow> access_request \<Rightarrow> ('w access_state, unit) state" where
  "serveAccess a (AskAuthorize r access b) = do { _ \<leftarrow> AuthorizePrincipal a r access b; ret () }"
| "serveAccess a (AskCurrent r) = do { _ \<leftarrow> CurrentSession a r; ret () }"
| "serveAccess a (AskLogout r) = do { _ \<leftarrow> DeleteSession a r; ret () }"

fun serveAll :: "'w KubernetesAccessController \<Rightarrow> access_request list \<Rightarrow> 'w access_state \<Rightarrow> 'w access_state" where
  "serveAll a [] s = s"
| "serveAll a (q # qs) s = serveAll a qs (snd (run_state (serveAccess a q) s))"

locale revocable_sessions =
  fixes a :: "'w KubernetesAccessController"
    and st :: "'w SessionStore"
    and revoked :: "string \<Rightarrow> 'w \<Rightarrow> bool"
  assumes configured: "ac_Sessions a = Some st"
    and delete_revokes: "run_state (st_Delete st i) w = (None, w') \<Longrightarrow> revoked i w'"
    and revoked_refused: "revoked i w \<Longrightarrow> \<exists>e. fst (run_state (st_Resolve st i) w) = Inl e \<and> sessionStoreAccessError e = errUnauthenticated"
    and revoked_resolve: "revoked i w \<Longrightarrow> revoked i (snd (run_state (st_Resolve st j) w))"
    and revoked_delete: "revoked i w \<Longrightarrow> revoked i (snd (run_state (st_Delete st j) w))"
    and revoked_review: "ac_Client a = Some c \<Longrightarrow> revoked i w \<Longrightarrow> revoked i (snd (run_state (kc_TokenReview c token audiences) w))"
    and revoked_access: "ac_Client a = Some c \<Longrightarrow> revoked i w \<Longrightarrow> revoked i (snd (run_state (kc_SubjectAccessReview c spec) w))"
begin

lemma authenticate_keeps:
  "revoked i (lw_world s) \<Longrightarrow> wp (authenticate a token bearer) (\<lambda>_ s'. revoked i (lw_world s')) s"
  using revoked_review [of _ i "lw_world s" token "[audienceOf a]"]
  by (auto simp: authenticate_def wp_simps split: option.split prod.splits)

lemma review_keeps:
  "ac_Client a = Some c \<Longrightarrow> run_state (kc_SubjectAccessReview c spec) w = (x, w') \<Longrightarrow> revoked i w \<Longrightarrow> revoked i w'"
  using revoked_access [of c i w spec] by simp

lemma resolveSession_keeps:
  "revoked i (lw_world s) \<Longrightarrow> wp (resolveSession st j) (\<lambda>_ s'. revoked i (lw_world s')) s"
  using revoked_resolve [of i "lw_world s" j] by (auto simp: resolveSession_def wp_simps split: prod.splits sum.split)

lemma revokeSession_keeps:
  "revoked i (lw_world s) \<Longrightarrow> wp (revokeSession st j) (\<lambda>_ s'. revoked i (lw_world s')) s"
  using revoked_delete [of i "lw_world s" j] by (auto simp: revokeSession_def wp_simps split: prod.splits)

lemma resolve_revoked:
  "revoked i (lw_world s) \<Longrightarrow> wp (resolveSession st i) (\<lambda>x s'. x = Inl errUnauthenticated) s"
  using revoked_refused [of i "lw_world s"] by (auto simp: resolveSession_def wp_simps split: prod.splits sum.split)

text \<open>Logging out revokes the session of the cookie.\<close>

lemma logout_revokes:
  assumes "rq_Cookie r = Some i" "run_state (DeleteSession a r) s = (None, s')"
  shows "revoked i (lw_world s')"
proof -
  have "wp (DeleteSession a r) (\<lambda>x s'. x = None \<longrightarrow> revoked i (lw_world s')) s"
    using assms(1) configured delete_revokes [of i "lw_world s"]
    by (auto simp: DeleteSession_def revokeSession_def wp_simps split: prod.splits)
  then show ?thesis using assms(2) by (auto dest: wp_runD)
qed

lemma serve_keeps:
  "revoked i (lw_world s) \<Longrightarrow> wp (serveAccess a q) (\<lambda>_ s'. revoked i (lw_world s')) s"
proof -
  assume start: "revoked i (lw_world s)"
  have reject: "wp (revokeRejected st j e) (\<lambda>_ s'. revoked i (lw_world s')) s1" if "revoked i (lw_world s1)" for j e s1
    using revokeSession_keeps [OF that] by (simp add: revokeRejected_def wp_bind wp_ret)
  have rejected: "wp (if c then do { x \<leftarrow> revokeRejected st j e; throwError x } else throwError e) (\<lambda>_ s'. revoked i (lw_world s')) s1"
    if "revoked i (lw_world s1)" for c j e s1
    using that reject [OF that] by (simp add: wp_bind wp_ret)
  have authenticated: "wp (ifErr (authenticate a token bearer)
       (\<lambda>e. if c e then do { x \<leftarrow> revokeRejected st j e; throwError x } else throwError e) (\<lambda>u. returnOk (g u)))
       (\<lambda>_ s'. revoked i (lw_world s')) s1"
    if "revoked i (lw_world s1)" for token bearer c j g s1
    unfolding wp_ifErr
    by (rule wp_mono [OF authenticate_keeps [OF that]]) (simp add: rejected wp_ret split: sum.split)
  have credential: "wp (requestCredential a r b) (\<lambda>_ s'. revoked i (lw_world s')) s1" if "revoked i (lw_world s1)" for r b s1
  proof -
    have "wp (bindE (resolveSession st j) (\<lambda>token. returnOk (token, False, j))) (\<lambda>_ s'. revoked i (lw_world s')) s1" for j
      unfolding wp_bindE by (rule wp_mono [OF resolveSession_keeps [OF that]]) (simp add: wp_ret split: sum.split)
    with that configured show ?thesis by (simp add: requestCredential_def wp_return split: option.split)
  qed
  have request: "wp (authenticateRequest a r b) (\<lambda>_ s'. revoked i (lw_world s')) s1" if "revoked i (lw_world s1)" for r b s1
    unfolding authenticateRequest_def wp_bindE
    by (rule wp_mono [OF credential [OF that]])
      (simp add: configured authenticated split: sum.split prod.split)
  show ?thesis
  proof (cases q)
    case (AskAuthorize r access b)
    have "wp (AuthorizePrincipal a r access b) (\<lambda>_ s'. revoked i (lw_world s')) s"
      unfolding AuthorizePrincipal_def wp_bindE
      by (rule wp_mono [OF request [OF start]])
        (auto simp: wp_simps split: sum.split option.split prod.split intro: review_keeps)
    with AskAuthorize show ?thesis by (simp add: wp_bind wp_ret)
  next
    case (AskCurrent r)
    have "wp (CurrentSession a r) (\<lambda>_ s'. revoked i (lw_world s')) s"
    proof (cases "rq_Cookie r")
      case None
      then show ?thesis using start by (simp add: CurrentSession_def wp_simps)
    next
      case (Some cookie)
      have "wp (bindE (resolveSession st cookie) (\<lambda>token.
            ifErr (authenticate a token False)
              (\<lambda>err. if isUnauthenticated err then do { e \<leftarrow> revokeRejected st cookie err; throwError e } else throwError err)
              (\<lambda>user. returnOk \<lparr>sn_Authenticated = True, sn_Username = pr_name user\<rparr>))) (\<lambda>_ s'. revoked i (lw_world s')) s"
        unfolding wp_bindE
        by (rule wp_mono [OF resolveSession_keeps [OF start]]) (simp add: authenticated split: sum.split)
      then show ?thesis using start Some configured by (simp add: CurrentSession_def wp_simps)
    qed
    with AskCurrent show ?thesis by (simp add: wp_bind wp_ret)
  next
    case (AskLogout r)
    then show ?thesis
      using start revokeSession_keeps [OF start] configured
      by (simp add: DeleteSession_def wp_bind wp_ret wp_return split: option.split)
  qed
qed

lemma serve_all_keeps: "revoked i (lw_world s) \<Longrightarrow> revoked i (lw_world (serveAll a qs s))"
proof (induction qs arbitrary: s)
  case (Cons q qs)
  then have "revoked i (lw_world (snd (run_state (serveAccess a q) s)))"
    using serve_keeps [of i s q] by (simp add: wp_run)
  with Cons.IH show ?case by simp
qed simp

lemma revoked_cookie_refused:
  assumes "revoked i (lw_world s)" "rq_Authorization r = []" "rq_Cookie r = Some i"
  shows "fst (run_state (AuthorizePrincipal a r access b) s) = Inl errUnauthenticated"
    and "fst (run_state (CurrentSession a r) s) = Inl errUnauthenticated"
proof -
  have "wp (requestCredential a r b) (\<lambda>x _. x = Inl errUnauthenticated) s"
    using wp_mono [OF resolve_revoked [OF assms(1)]] assms(2,3) configured
    by (simp add: requestCredential_def wp_return wp_bindE)
  then have "wp (authenticateRequest a r b) (\<lambda>x _. x = Inl errUnauthenticated) s"
    unfolding authenticateRequest_def wp_bindE by (rule wp_mono) simp
  then have "wp (AuthorizePrincipal a r access b) (\<lambda>x _. x = Inl errUnauthenticated) s"
    unfolding AuthorizePrincipal_def wp_bindE by (rule wp_mono) simp
  then show "fst (run_state (AuthorizePrincipal a r access b) s) = Inl errUnauthenticated" by (simp add: wp_run)
  have "wp (CurrentSession a r) (\<lambda>x _. x = Inl errUnauthenticated) s"
    using wp_mono [OF resolve_revoked [OF assms(1)]] assms(3) configured
    by (simp add: CurrentSession_def wp_return wp_bindE)
  then show "fst (run_state (CurrentSession a r) s) = Inl errUnauthenticated" by (simp add: wp_run)
qed

lemma logout_final:
  assumes "rq_Cookie r = Some i" "run_state (DeleteSession a r) s = (None, s1)" "rq_Authorization r' = []" "rq_Cookie r' = Some i"
  shows "fst (run_state (AuthorizePrincipal a r' access b) (serveAll a qs s1)) = Inl errUnauthenticated"
    and "fst (run_state (CurrentSession a r') (serveAll a qs s1)) = Inl errUnauthenticated"
  using revoked_cookie_refused [OF serve_all_keeps [OF logout_revokes [OF assms(1,2)]] assms(3,4)] by blast+

end

section \<open>The controller with the store in memory\<close>

text \<open>The world: the store, its random source and clock, and the API server, which only the client changes.\<close>

record ('h, 'r, 'x) session_world =
  sw_store :: "'h MemorySessionStore"
  sw_random :: 'r
  sw_clock :: "int list"
  sw_api :: 'x

text \<open>Readings of the clock, in order; the last one repeats.\<close>

fun readClock :: "int list \<Rightarrow> int \<times> int list" where
  "readClock [] = (0, [])"
| "readClock [t] = (t, [t])"
| "readClock (t # ts) = (t, ts)"

definition memorySessions :: "('h, 'r) session_env \<Rightarrow> ('h, 'r, 'x) session_world SessionStore" where
  "memorySessions env =
     \<lparr>st_ValidateToken = (\<lambda>token w. ValidateToken (sw_store w) token),
      st_Create = (\<lambda>token. State (\<lambda>w. case readClock (sw_clock w) of (now, clock') \<Rightarrow>
        case Create env now token (sw_store w) (sw_random w) of
          (a, s', r') \<Rightarrow> (a, w\<lparr>sw_store := s', sw_random := r', sw_clock := clock'\<rparr>))),
      st_Resolve = (\<lambda>i. State (\<lambda>w. case readClock (sw_clock w) of (now, clock') \<Rightarrow>
        case Resolve env now i (sw_store w) of (a, s') \<Rightarrow> (a, w\<lparr>sw_store := s', sw_clock := clock'\<rparr>))),
      st_Delete = (\<lambda>i. State (\<lambda>w. (None, w\<lparr>sw_store := Delete env i (sw_store w)\<rparr>)))\<rparr>"

definition onApi :: "('x, 'a) state \<Rightarrow> (('h, 'r, 'x) session_world, 'a) state" where
  "onApi m = State (\<lambda>w. case run_state m (sw_api w) of (a, x) \<Rightarrow> (a, w\<lparr>sw_api := x\<rparr>))"

definition apiClient :: "'x kube_client \<Rightarrow> ('h, 'r, 'x) session_world kube_client" where
  "apiClient c =
     \<lparr>kc_TokenReview = (\<lambda>token audiences. onApi (kc_TokenReview c token audiences)),
      kc_SubjectAccessReview = (\<lambda>spec. onApi (kc_SubjectAccessReview c spec))\<rparr>"

definition memoryController ::
  "('h, 'r) session_env \<Rightarrow> 'x kube_client option \<Rightarrow> string \<Rightarrow> string \<Rightarrow> ('h, 'r, 'x) session_world KubernetesAccessController" where
  "memoryController env c bootstrap audience =
     \<lparr>ac_Client = map_option apiClient c, ac_BootstrapToken = bootstrap, ac_Audience = audience,
      ac_Sessions = Some (memorySessions env)\<rparr>"

definition forgotten :: "('h, 'r) session_env \<Rightarrow> string \<Rightarrow> ('h, 'r, 'x) session_world \<Rightarrow> bool" where
  "forgotten env i w \<longleftrightarrow> map_of (sm_sessions (sw_store w)) (sx_hash env i) = None"

lemma forgotten_resolve:
  "forgotten env i w \<Longrightarrow> forgotten env i (w\<lparr>sw_store := snd (Resolve env now j (sw_store w)), sw_clock := c\<rparr>)"
  by (auto simp: forgotten_def Resolve_def Let_def split: option.split)

interpretation memory: revocable_sessions "memoryController env c bootstrap audience" "memorySessions env" "forgotten env"
  for env :: "('h, 'r) session_env" and c :: "'x kube_client option" and bootstrap audience
proof (unfold_locales, goal_cases)
  case (4 i w j)
  then show ?case
    using forgotten_resolve [OF 4] by (simp add: memorySessions_def split: prod.split) (metis snd_conv)
qed (auto simp: memoryController_def memorySessions_def forgotten_def Resolve_def Delete_def apiClient_def onApi_def
    sessionStoreAccessError_def split: prod.splits)


definition example_review :: TokenReviewStatus where
  "example_review =
     \<lparr>tr_Error = [], tr_Authenticated = True, tr_Audiences = [''swe-platform''], tr_Username = ''ann'', tr_UID = ''u1'',
      tr_Groups = [''dev''], tr_Extra = []\<rparr>"

definition example_kube :: "unit kube_client" where
  "example_kube =
     \<lparr>kc_TokenReview = (\<lambda>token _. State (\<lambda>w. (if token = ''tok'' then Inr example_review else Inl ''no'', w))),
      kc_SubjectAccessReview = (\<lambda>spec. State (\<lambda>w. (Inr \<lparr>ar_EvaluationError = [], ar_Allowed = (as_User spec = ''ann'')\<rparr>, w)))\<rparr>"

definition example_request :: Request where
  "example_request =
     \<lparr>rq_Method = ''GET'', rq_Authorization = [], rq_Cookie = Some ''c1'', rq_Origins = [], rq_TLS = True, rq_Host = ''h'',
      rq_ForwardedHosts = [], rq_ForwardedProtos = []\<rparr>"

definition example_access :: ResourceAccess where
  "example_access = \<lparr>ra_Namespace = ''ns'', ra_Verb = ''get'', ra_Resource = ''runs'', ra_Subresource = [], ra_Name = ''r''\<rparr>"

definition example_access_controller :: "(string, nat, unit) session_world KubernetesAccessController" where
  "example_access_controller = memoryController example_session_env (Some example_kube) ''boot'' []"

text \<open>A world in which the cookie \<open>c1\<close> stands for the token \<open>tok\<close>.\<close>

definition example_session_world :: "(string, nat, unit) session_world" where
  "example_session_world =
     \<lparr>sw_store = (NewMemorySessionStore example_session_options)
        \<lparr>sm_sessions := [(''c1'', \<lparr>se_token = ''tok'', se_createdAt = 0, se_expiresAt = 10\<rparr>)]\<rparr>,
      sw_random = 7, sw_clock = [1], sw_api = ()\<rparr>"



end
