(* ===== verification/Filesystem_Path.thy ===== *)
theory Filesystem_Path
  imports Base64
begin

text \<open>
  The pure part of the workspace file service (\<open>src/sandboxd/internal/server/filesystem.go\<close>): logical paths, page
  tokens and write headers. Package \<open>path\<close> is modelled on the components of a path.

  \<open>strings.ToLower\<close> and \<open>ToUpper\<close> are used for comparisons with ASCII text only. Besides ASCII letters, four runes have
  an ASCII letter as their other case (the dotted I, the Kelvin sign, the dotless i and the long s); every
  other rune stays outside ASCII and is left as it is here, which no such comparison can tell.
\<close>

section \<open>Status errors\<close>

datatype status_code =
  Canceled | Unknown | InvalidArgument | DeadlineExceeded | NotFound | PermissionDenied | ResourceExhausted
| FailedPrecondition | Aborted | OutOfRange | Internal | Unavailable

datatype status = Status status_code string

fun status_of :: "status \<Rightarrow> status_code" where
  "status_of (Status c _) = c"

section \<open>Case\<close>

fun lowerForAscii :: "string \<Rightarrow> string" where
  "lowerForAscii (a # b # c # s) =
     (if code a = 0xC4 \<and> code b = 0xB0 then CHR ''i'' # lowerForAscii (c # s)
      else if code a = 0xE2 \<and> code b = 0x84 \<and> code c = 0xAA then CHR ''k'' # lowerForAscii s
      else ascii_lower_char a # lowerForAscii (b # c # s))"
| "lowerForAscii [a, b] = (if code a = 0xC4 \<and> code b = 0xB0 then ''i'' else [ascii_lower_char a, ascii_lower_char b])"
| "lowerForAscii [a] = [ascii_lower_char a]"
| "lowerForAscii [] = []"

definition ascii_upper_char :: "char \<Rightarrow> char" where
  "ascii_upper_char c = (if 97 \<le> code c \<and> code c \<le> 122 then char_of (code c - 32) else c)"

fun upperForAscii :: "string \<Rightarrow> string" where
  "upperForAscii (a # b # s) =
     (if code a = 0xC4 \<and> code b = 0xB1 then CHR ''I'' # upperForAscii s
      else if code a = 0xC5 \<and> code b = 0xBF then CHR ''S'' # upperForAscii s
      else ascii_upper_char a # upperForAscii (b # s))"
| "upperForAscii [a] = [ascii_upper_char a]"
| "upperForAscii [] = []"

section \<open>Package path\<close>

text \<open>The components that \<open>path.Clean\<close> keeps, innermost first.\<close>

fun cleanParts :: "bool \<Rightarrow> string list \<Rightarrow> string list \<Rightarrow> string list" where
  "cleanParts rooted kept [] = kept"
| "cleanParts rooted kept (p # ps) =
     (if p = [] \<or> p = ''.'' then cleanParts rooted kept ps
      else if p = ''..'' then
        (if kept \<noteq> [] \<and> hd kept \<noteq> ''..'' then cleanParts rooted (tl kept) ps
         else if rooted then cleanParts rooted kept ps
         else cleanParts rooted (p # kept) ps)
      else cleanParts rooted (p # kept) ps)"

definition pathClean :: "string \<Rightarrow> string" where
  "pathClean s =
     (let rooted = has_prefix s ''/''; p = join_with CHR ''/'' (rev (cleanParts rooted [] (split_on CHR ''/'' s))) in
      if rooted then CHR ''/'' # p else if p = [] then ''.'' else p)"

text \<open>\<open>filepath.Dir\<close> and \<open>filepath.Base\<close>, with \<open>/\<close> as the separator.\<close>

definition pathDir :: "string \<Rightarrow> string" where
  "pathDir s = pathClean (rev (dropWhile (\<lambda>c. c \<noteq> CHR ''/'') (rev s)))"

definition pathBase :: "string \<Rightarrow> string" where
  "pathBase s =
     (if s = [] then ''.''
      else let r = rev (takeWhile (\<lambda>c. c \<noteq> CHR ''/'') (dropWhile (\<lambda>c. c = CHR ''/'') (rev s))) in
        if r = [] then ''/'' else r)"

section \<open>Logical paths\<close>

definition isReservedStagingComponent :: "string \<Rightarrow> bool" where
  "isReservedStagingComponent component \<longleftrightarrow> has_prefix (lowerForAscii component) ''.sandboxd-write-''"

definition reservedWindowsNames :: "string list" where
  "reservedWindowsNames = [''CON'', ''PRN'', ''AUX'', ''NUL'', ''CONIN$'', ''CONOUT$'']"

definition superscripts :: "string list" where
  "superscripts = [[CHR 0xC2, CHR 0xB9], [CHR 0xC2, CHR 0xB2], [CHR 0xC2, CHR 0xB3]]"

definition invalidWindowsComponent :: "string \<Rightarrow> bool" where
  "invalidWindowsComponent component =
     (if component = [] \<or> component = ''.'' then False
      else if list_ex (\<lambda>c. code c < 32 \<or> c \<in> set ''<>\"|?*'') component then True
      else if has_suffix component '' '' \<or> has_suffix component ''.'' then True
      else
        (let base = upperForAscii (takeWhile (\<lambda>c. c \<noteq> CHR ''.'') component);
             numbered = has_prefix base ''COM'' \<or> has_prefix base ''LPT'' in
         if base \<in> set reservedWindowsNames then True
         else if length base = 4 \<and> numbered \<and> 49 \<le> code (base ! 3) \<and> code (base ! 3) \<le> 57 then True
         else numbered \<and> trim_prefix (trim_prefix base ''COM'') ''LPT'' \<in> set superscripts))"

fun checkComponents :: "string list \<Rightarrow> status option" where
  "checkComponents [] = None"
| "checkComponents (component # rest) =
     (if component = ''..'' then Some (Status InvalidArgument ''path must not contain upward traversal'')
      else if isReservedStagingComponent component then Some (Status InvalidArgument ''path uses a reserved staging name'')
      else if invalidWindowsComponent component then Some (Status InvalidArgument ''path contains a non-portable component'')
      else checkComponents rest)"

definition normalizeWorkspacePath :: "string \<Rightarrow> bool \<Rightarrow> status + string" where
  "normalizeWorkspacePath value allowRoot =
     (if has_nul value \<or> CHR 0x5C \<in> set value \<or> CHR '':'' \<in> set value \<or> has_prefix value ''/''
      then Inl (Status InvalidArgument ''path must be a workspace-relative logical path'')
      else case checkComponents (split_on CHR ''/'' value) of
        Some e \<Rightarrow> Inl e
      | None \<Rightarrow>
          let cleaned = pathClean value; clean = (if cleaned = ''.'' then [] else cleaned) in
          if clean = [] \<and> \<not> allowRoot then Inl (Status InvalidArgument ''path must name a workspace entry'')
          else Inr clean)"

section \<open>Page tokens\<close>

definition pageTokenPrefix :: "(string \<Rightarrow> string) \<Rightarrow> string \<Rightarrow> string" where
  "pageTokenPrefix sha256 logical = hex_encode (take 8 (sha256 logical))"

definition encodePageToken :: "(string \<Rightarrow> string) \<Rightarrow> string \<Rightarrow> nat \<Rightarrow> string" where
  "encodePageToken sha256 logical offset = base64Encode (pageTokenPrefix sha256 logical @ CHR '':'' # format_nat offset)"

definition cutColon :: "string \<Rightarrow> (string \<times> string) option" where
  "cutColon s = (if CHR '':'' \<in> set s
     then Some (takeWhile (\<lambda>c. c \<noteq> CHR '':'') s, tl (dropWhile (\<lambda>c. c \<noteq> CHR '':'') s)) else None)"

definition decodePageToken :: "(string \<Rightarrow> string) \<Rightarrow> string \<Rightarrow> string \<Rightarrow> status + nat" where
  "decodePageToken sha256 logical token =
     (if token = [] then Inr 0
      else if 128 < length token then Inl (Status InvalidArgument ''invalid page token'')
      else case base64Decode token of
        None \<Rightarrow> Inl (Status InvalidArgument ''invalid page token'')
      | Some decoded \<Rightarrow>
          (case cutColon decoded of
             None \<Rightarrow> Inl (Status InvalidArgument ''page token does not match path'')
           | Some (start, value) \<Rightarrow>
               if start \<noteq> pageTokenPrefix sha256 logical then Inl (Status InvalidArgument ''page token does not match path'')
               else case parse_uint 64 value of
                 None \<Rightarrow> Inl (Status InvalidArgument ''invalid page token'')
               | Some offset \<Rightarrow> Inr offset))"

section \<open>Write headers\<close>

datatype WritePrecondition = PreconditionUnspecified | PreconditionAny | MustNotExist | MatchVersion

record WriteHeader =
  wh_Path :: string
  wh_Precondition :: WritePrecondition
  wh_ExpectedVersion :: string

definition isHexDigit :: "char \<Rightarrow> bool" where
  "isHexDigit c \<longleftrightarrow> is_digit c \<or> (97 \<le> code c \<and> code c \<le> 102) \<or> (65 \<le> code c \<and> code c \<le> 70)"

text \<open>\<open>hex.DecodeString\<close> accepts an even number of hexadecimal digits and returns half as many bytes.\<close>

definition validateWriteHeader :: "WriteHeader \<Rightarrow> status option" where
  "validateWriteHeader header =
     (case wh_Precondition header of
        PreconditionUnspecified \<Rightarrow> Some (Status InvalidArgument ''write precondition must be specified'')
      | MatchVersion \<Rightarrow>
          let value = wh_ExpectedVersion header in
          if \<not> (even (length value) \<and> list_all isHexDigit value) \<or> length value div 2 \<noteq> 32 \<or> value \<noteq> lowerForAscii value
          then Some (Status InvalidArgument ''expected_version must be a lowercase SHA-256 digest'') else None
      | _ \<Rightarrow> if wh_ExpectedVersion header \<noteq> []
             then Some (Status InvalidArgument ''expected_version is only valid with MATCH_VERSION'') else None)"

section \<open>Accepted paths stay inside the workspace\<close>

definition workspaceComponents :: "string \<Rightarrow> string list" where
  "workspaceComponents value = filter (\<lambda>p. p \<noteq> [] \<and> p \<noteq> ''.'') (split_on CHR ''/'' value)"

text \<open>A component that names an entry of its directory, and nothing else, on every platform.\<close>

definition plainComponent :: "string \<Rightarrow> bool" where
  "plainComponent c \<longleftrightarrow> c \<noteq> [] \<and> c \<noteq> ''.'' \<and> c \<noteq> ''..'' \<and> CHR ''/'' \<notin> set c \<and> CHR 0x5C \<notin> set c \<and> CHR '':'' \<notin> set c
     \<and> \<not> has_nul c \<and> \<not> isReservedStagingComponent c \<and> \<not> invalidWindowsComponent c"

lemma cleanParts_filter:
  "''..'' \<notin> set ps \<Longrightarrow> cleanParts rooted kept ps = rev (filter (\<lambda>p. p \<noteq> [] \<and> p \<noteq> ''.'') ps) @ kept"
  by (induction ps arbitrary: kept) auto

lemma checkComponents_None:
  "checkComponents cs = None \<longleftrightarrow> (\<forall>c \<in> set cs. c \<noteq> ''..'' \<and> \<not> isReservedStagingComponent c \<and> \<not> invalidWindowsComponent c)"
  by (induction cs) auto

lemma join_with_empty: "join_with c ws = [] \<longleftrightarrow> ws = [] \<or> ws = [[]]"
  by (cases "(c, ws)" rule: join_with.cases) auto

lemma set_join_with: "x \<in> set (join_with c ws) \<Longrightarrow> x = c \<or> (\<exists>w \<in> set ws. x \<in> set w)"
  by (induction ws rule: join_with.induct) auto

lemma join_with_head: "cs \<noteq> [] \<Longrightarrow> hd cs \<noteq> [] \<Longrightarrow> join_with c cs \<noteq> [] \<and> hd (join_with c cs) = hd (hd cs)"
  by (cases "(c, cs)" rule: join_with.cases) auto

lemma has_prefix_slash: "has_prefix s ''/'' \<longleftrightarrow> s \<noteq> [] \<and> hd s = CHR ''/''"
  by (cases s) (auto simp: has_prefix_def)

text \<open>A non-empty relative path of plain components.\<close>

lemma plain_head:
  assumes "\<forall>c \<in> set cs. plainComponent c" "cs \<noteq> []"
  shows "join_with CHR ''/'' cs \<noteq> []" "hd (join_with CHR ''/'' cs) \<noteq> CHR ''/''"
proof -
  have "plainComponent (hd cs)" using assms by (cases cs) auto
  then have "hd cs \<noteq> []" "hd (hd cs) \<noteq> CHR ''/''" by (auto simp: plainComponent_def dest: hd_in_set)
  with join_with_head [of cs "CHR ''/''"] assms(2)
  show "join_with CHR ''/'' cs \<noteq> []" "hd (join_with CHR ''/'' cs) \<noteq> CHR ''/''" by auto
qed

lemma workspaceComponents_join:
  assumes "\<forall>c \<in> set cs. plainComponent c"
  shows "workspaceComponents (join_with CHR ''/'' cs) = cs"
proof (cases "cs = []")
  case False
  have "split_on CHR ''/'' (join_with CHR ''/'' cs) = cs"
    using assms False by (intro split_on_join) (auto simp: plainComponent_def)
  moreover have "filter (\<lambda>p. p \<noteq> [] \<and> p \<noteq> ''.'') cs = cs"
    using assms by (simp add: filter_id_conv plainComponent_def)
  ultimately show ?thesis by (simp add: workspaceComponents_def)
qed (simp add: workspaceComponents_def)

lemma normalized_components:
  assumes "normalizeWorkspacePath v b = Inr p"
  shows "p = join_with CHR ''/'' (workspaceComponents v)" "\<forall>c \<in> set (workspaceComponents v). plainComponent c" "p = [] \<longrightarrow> b"
proof -
  let ?cs = "split_on CHR ''/'' v"
  from assms have chars: "\<not> has_nul v" "CHR 0x5C \<notin> set v" "CHR '':'' \<notin> set v" "\<not> has_prefix v ''/''"
    and ok: "checkComponents ?cs = None"
    by (auto simp: normalizeWorkspacePath_def Let_def split: if_splits option.splits)
  have clean: "pathClean v = (let q = join_with CHR ''/'' (workspaceComponents v) in if q = [] then ''.'' else q)"
    using ok chars(4) by (auto simp: pathClean_def cleanParts_filter checkComponents_None workspaceComponents_def Let_def)
  show plain: "\<forall>c \<in> set (workspaceComponents v). plainComponent c"
    using ok chars(1-3) split_on_no_sep [of _ "CHR ''/''" v] set_split_on [of _ "CHR ''/''" v]
    by (auto simp: workspaceComponents_def plainComponent_def checkComponents_None has_nul_def)
  have "join_with CHR ''/'' (workspaceComponents v) \<noteq> ''.''"
  proof
    assume "join_with CHR ''/'' (workspaceComponents v) = ''.''"
    then have "workspaceComponents v = workspaceComponents ''.''" using workspaceComponents_join [OF plain] by simp
    then show False using \<open>join_with CHR ''/'' (workspaceComponents v) = ''.''\<close> by (simp add: workspaceComponents_def)
  qed
  with clean assms ok chars show "p = join_with CHR ''/'' (workspaceComponents v)" "p = [] \<longrightarrow> b"
    by (auto simp: normalizeWorkspacePath_def Let_def split: if_splits)
qed

lemma normalized_again:
  assumes "\<forall>c \<in> set cs. plainComponent c" "cs = [] \<longrightarrow> b"
  shows "normalizeWorkspacePath (join_with CHR ''/'' cs) b = Inr (join_with CHR ''/'' cs)"
proof (cases "cs = []")
  case True
  with assms show ?thesis by (simp add: normalizeWorkspacePath_def pathClean_def has_nul_def has_prefix_def isReservedStagingComponent_def invalidWindowsComponent_def)
next
  case False
  let ?p = "join_with CHR ''/'' cs"
  have split: "split_on CHR ''/'' ?p = cs" using assms False by (intro split_on_join) (auto simp: plainComponent_def)
  have ok: "checkComponents cs = None" using assms by (auto simp: checkComponents_None plainComponent_def)
  have keep: "filter (\<lambda>p. p \<noteq> [] \<and> p \<noteq> ''.'') cs = cs"
    using assms by (simp add: filter_id_conv plainComponent_def)
  have other: "x \<notin> set ?p" if "x \<noteq> CHR ''/''" "\<forall>c \<in> set cs. x \<notin> set c" for x
    using that set_join_with [of x "CHR ''/''" cs] by blast
  have "char_of (0 :: nat) \<noteq> CHR ''/''" by code_simp
  then have chars: "\<not> has_nul ?p" "CHR 0x5C \<notin> set ?p" "CHR '':'' \<notin> set ?p"
    using assms(1) other [of "char_of (0 :: nat)"] other [of "CHR 0x5C"] other [of "CHR '':''"]
    by (simp_all add: has_nul_def plainComponent_def)
  have rooted: "\<not> has_prefix ?p ''/''"
    using plain_head [OF assms(1) False] by (simp add: has_prefix_slash)
  have "?p \<noteq> []" using plain_head [OF assms(1) False] by simp
  have "?p \<noteq> ''.''"
  proof
    assume "?p = ''.''"
    with split have "cs = [''.'']" by (simp add: split_on.simps)
    with assms(1) show False by (simp add: plainComponent_def)
  qed
  moreover note \<open>?p \<noteq> []\<close>
  moreover have "pathClean ?p = ?p"
  proof -
    have "''..'' \<notin> set cs" using assms(1) by (auto simp: plainComponent_def)
    with rooted split keep \<open>?p \<noteq> []\<close> show ?thesis by (simp add: pathClean_def cleanParts_filter)
  qed
  ultimately show ?thesis using chars rooted split ok by (simp add: normalizeWorkspacePath_def)
qed

lemma join_snoc: "ws \<noteq> [] \<Longrightarrow> join_with c (ws @ [w]) = join_with c ws @ c # w"
  by (induction ws rule: join_with.induct) auto

lemma base_of_path:
  assumes "\<forall>c \<in> set (cs @ [n]). plainComponent c"
  shows "pathBase (join_with CHR ''/'' (cs @ [n])) = n"
    and "pathDir (join_with CHR ''/'' (cs @ [n])) = (if cs = [] then ''.'' else join_with CHR ''/'' cs)"
proof -
  let ?s = "CHR ''/''"
  have n: "n \<noteq> []" "?s \<notin> set n" using assms by (auto simp: plainComponent_def)
  have take: "takeWhile (\<lambda>c. c \<noteq> ?s) (rev n @ rest) = rev n @ takeWhile (\<lambda>c. c \<noteq> ?s) rest"
    and drop: "dropWhile (\<lambda>c. c \<noteq> ?s) (rev n @ rest) = dropWhile (\<lambda>c. c \<noteq> ?s) rest" for rest
    using n(2) by (auto simp: takeWhile_append dropWhile_append)
  have lead: "dropWhile (\<lambda>c. c = ?s) (rev n @ rest) = rev n @ rest" for rest
  proof -
    obtain x xs where "rev n = x # xs" using n(1) by (meson neq_Nil_conv rev_is_Nil_conv)
    moreover from this have "x \<noteq> ?s" using n(2) by (metis list.set_intros(1) set_rev)
    ultimately show ?thesis by simp
  qed
  have clean: "pathClean (join_with ?s cs @ [?s]) = join_with ?s cs" if "cs \<noteq> []"
  proof -
    have plain: "\<forall>c \<in> set cs. plainComponent c" using assms by auto
    have "split_on ?s (join_with ?s (cs @ [[]])) = cs @ [[]]"
      using assms by (intro split_on_join) (auto simp: plainComponent_def)
    then have split: "split_on ?s (join_with ?s cs @ [?s]) = cs @ [[]]" using that by (simp add: join_snoc)
    have keep: "filter (\<lambda>p. p \<noteq> [] \<and> p \<noteq> ''.'') cs = cs"
      using plain by (simp add: filter_id_conv plainComponent_def)
    have up: "''..'' \<notin> set cs" using plain by (auto simp: plainComponent_def)
    have "join_with ?s cs \<noteq> []" "\<not> has_prefix (join_with ?s cs @ [?s]) ''/''"
      using plain_head [OF plain that] by (simp_all add: has_prefix_slash)
    with split keep up show ?thesis by (simp add: pathClean_def cleanParts_filter Let_def)
  qed
  show "pathBase (join_with ?s (cs @ [n])) = n"
  proof (cases "cs = []")
    case True
    have eq: "takeWhile (\<lambda>c. c \<noteq> ?s) (rev n) = rev n" using n(2) by (auto simp: takeWhile_eq_all_conv)
    show ?thesis using n lead [of "[]"] True by (simp add: pathBase_def eq)
  next
    case False
    then show ?thesis using n lead take by (simp add: pathBase_def join_snoc)
  qed
  have none: "dropWhile (\<lambda>c. c \<noteq> ?s) (rev n) = []" using n(2) by (auto simp: dropWhile_eq_Nil_conv)
  show "pathDir (join_with ?s (cs @ [n])) = (if cs = [] then ''.'' else join_with ?s cs)"
  proof (cases "cs = []")
    case True
    then show ?thesis by (simp add: pathDir_def none pathClean_def has_prefix_def)
  next
    case False
    then show ?thesis using drop clean by (simp add: pathDir_def join_snoc)
  qed
qed

text \<open>(C20) Accepted paths stay inside the workspace. A path is accepted only as the plain components it has, joined again: none
  is empty, a dot or a double dot, holds a separator, drive or NUL, is a staging name or is not portable. It
  is accepted unchanged the next time; and for a path that names an entry, the directory and the name that a write
  uses are its components but the last, and the last.\<close>

theorem workspace_path_confined:
  assumes "normalizeWorkspacePath v b = Inr p"
  shows "p = join_with CHR ''/'' (workspaceComponents v)
     \<and> (\<forall>c \<in> set (workspaceComponents v). plainComponent c)
     \<and> (workspaceComponents v = [] \<longrightarrow> b)
     \<and> normalizeWorkspacePath p b = Inr p
     \<and> (workspaceComponents v \<noteq> [] \<longrightarrow>
          pathBase p = last (workspaceComponents v)
          \<and> pathDir p = (if length (workspaceComponents v) = 1 then ''.'' else join_with CHR ''/'' (butlast (workspaceComponents v))))"
proof -
  note n = normalized_components [OF assms]
  have empty: "workspaceComponents v = [] \<longrightarrow> b" using n by simp
  moreover have "pathBase p = last (workspaceComponents v)
          \<and> pathDir p = (if length (workspaceComponents v) = 1 then ''.'' else join_with CHR ''/'' (butlast (workspaceComponents v)))"
    if "workspaceComponents v \<noteq> []"
  proof -
    from that obtain cs c where cs: "workspaceComponents v = cs @ [c]" by (metis append_butlast_last_id)
    with n(2) have "\<forall>c \<in> set (cs @ [c]). plainComponent c" by simp
    from base_of_path [OF this] n(1) cs show ?thesis by simp
  qed
  ultimately show ?thesis using n(1,2) normalized_again [OF n(2) empty] by simp
qed

theorem workspace_path_confined_witness:
  "normalizeWorkspacePath ''src//./main.go'' False = Inr ''src/main.go'' \<and> pathDir ''src/main.go'' = ''src''"
proof -
  have "normalizeWorkspacePath ''src//./main.go'' False = Inr ''src/main.go''" by code_simp
  moreover have "workspaceComponents ''src//./main.go'' = [''src'', ''main.go'']" by code_simp
  ultimately show ?thesis using workspace_path_confined [of "''src//./main.go''" False "''src/main.go''"] by simp
qed

section \<open>Page tokens are read back\<close>

lemma hexDigit_no_colon: "n < 16 \<Longrightarrow> hexDigit n \<noteq> CHR '':''"
proof -
  assume "n < 16"
  moreover have "\<forall>n \<in> set [0..<16]. hexDigit n \<noteq> CHR '':''" by code_simp
  ultimately show ?thesis by simp
qed

lemma format_nat_length: "n < 10 ^ k \<Longrightarrow> 0 < k \<Longrightarrow> length (format_nat n) \<le> k"
proof (induction k arbitrary: n)
  case (Suc k)
  show ?case
  proof (cases "n < 10")
    case False
    then have "0 < k" "n div 10 < 10 ^ k" using Suc.prems by (cases k; simp add: less_mult_imp_div_less mult.commute)+
    with False Suc.IH [of "n div 10"] show ?thesis by (subst format_nat.simps) simp
  qed (subst format_nat.simps, simp)
qed simp

lemma pageTokenPrefix_no_colon: "CHR '':'' \<notin> set (pageTokenPrefix sha256 logical)"
proof -
  have digits: "CHR '':'' \<noteq> hexDigit (code c div 16)" "CHR '':'' \<noteq> hexDigit (code c mod 16)" for c
    using code_less [of c] hexDigit_no_colon [of "code c div 16"] hexDigit_no_colon [of "code c mod 16"]
    by (auto simp: less_mult_imp_div_less)
  have "CHR '':'' \<notin> set (hex_encode s)" for s
    by (induction s) (simp_all add: hex_encode_def digits)
  then show ?thesis by (simp add: pageTokenPrefix_def)
qed

lemma length_pageTokenPrefix: "length (pageTokenPrefix sha256 logical) \<le> 16"
proof -
  have "length (hex_encode s) = 2 * length s" for s
    by (induction s) (simp_all add: hex_encode_def)
  then show ?thesis by (simp add: pageTokenPrefix_def)
qed

lemma cutColon_append: "CHR '':'' \<notin> set a \<Longrightarrow> cutColon (a @ CHR '':'' # b) = Some (a, b)"
  by (auto simp: cutColon_def takeWhile_append dropWhile_append)

text \<open>Page tokens are read back: the token of a path and a 64-bit offset is within the limit, decodes to that offset for its path,
  and is refused for every path with another digest prefix.\<close>

theorem page_token_round_trip:
  assumes "offset < 2 ^ 64"
  shows "length (encodePageToken sha256 logical offset) \<le> 50
     \<and> decodePageToken sha256 logical (encodePageToken sha256 logical offset) = Inr offset
     \<and> (pageTokenPrefix sha256 other \<noteq> pageTokenPrefix sha256 logical \<longrightarrow>
          decodePageToken sha256 other (encodePageToken sha256 logical offset)
            = Inl (Status InvalidArgument ''page token does not match path''))"
proof -
  have "length (format_nat offset) \<le> 20" using assms by (intro format_nat_length) simp_all
  with length_pageTokenPrefix [of sha256 logical] have "length (encodePageToken sha256 logical offset) \<le> 50"
    by (simp add: encodePageToken_def length_base64Encode)
  moreover from this have "\<not> 128 < length (encodePageToken sha256 logical offset)" by simp
  moreover have "encodePageToken sha256 logical offset \<noteq> []" by (simp add: encodePageToken_def)
  moreover have "base64Decode (encodePageToken sha256 logical offset) = Some (pageTokenPrefix sha256 logical @ CHR '':'' # format_nat offset)"
    by (simp add: encodePageToken_def)
  ultimately show ?thesis
    using assms by (simp add: decodePageToken_def cutColon_append [OF pageTokenPrefix_no_colon])
qed

theorem page_token_round_trip_witness:
  "decodePageToken (\<lambda>s. s) ''src'' (encodePageToken (\<lambda>s. s) ''src'' 257) = Inr 257
   \<and> decodePageToken (\<lambda>s. s) ''doc'' (encodePageToken (\<lambda>s. s) ''src'' 257) = Inl (Status InvalidArgument ''page token does not match path'')"
proof -
  have "pageTokenPrefix (\<lambda>s. s) ''doc'' \<noteq> pageTokenPrefix (\<lambda>s. s) ''src''" by code_simp
  then show ?thesis using page_token_round_trip [of 257 "\<lambda>s. s" "''src''" "''doc''"] by simp
qed

end
