(* ===== verification/Filesystem_Server.thy ===== *)
theory Filesystem_Server
  imports Filesystem_Path Ordered_Log
begin

text \<open>
  The workspace file service of sandboxd (\<open>src/sandboxd/internal/server/filesystem.go\<close>): bounded reads, paged listings
  and staged writes under a pinned root. The operating system behind \<open>os.Root\<close> and \<open>os.File\<close> is the record \<open>fs_host\<close>;
  directory handles, file handles and errors are its values. Every call that matters for a write is logged.

  A write receives its stream as the list of its messages and the error that ends it. The locks make the two
  critical sections of a write exclusive; what other goroutines do between the calls of the host is part of
  the host. \<open>filepath.FromSlash\<close> changes nothing where the separator is the slash. A loop over reads is given a number of
  turns; \<open>Diverges\<close> stands for a host that never ends it.
\<close>

section \<open>Host and state\<close>

record FileInfo =
  fi_Name :: string
  fi_Symlink :: bool
  fi_Regular :: bool
  fi_Dir :: bool
  fi_Size :: int
  fi_ModifiedMs :: int

text \<open>The error of a read: \<open>io.EOF\<close>, or another.\<close>

datatype 'k read_error = ReadEOF | ReadError 'k

record ('w, 'd, 'f, 'k) fs_host =
  fs_Abs :: "string \<Rightarrow> ('w, 'k + string) state"
  fs_OpenWorkspace :: "string \<Rightarrow> ('w, 'k + 'd) state"
  fs_OpenRoot :: "'d \<Rightarrow> string \<Rightarrow> ('w, 'k + 'd) state"
  fs_CloseRoot :: "'d \<Rightarrow> ('w, 'k option) state"
  fs_MkdirAll :: "'d \<Rightarrow> string \<Rightarrow> ('w, 'k option) state"
  fs_Stat :: "'d \<Rightarrow> string \<Rightarrow> ('w, 'k + FileInfo) state"
  fs_Lstat :: "'d \<Rightarrow> string \<Rightarrow> ('w, 'k + FileInfo) state"
  fs_Open :: "'d \<Rightarrow> string \<Rightarrow> ('w, 'k + 'f) state"
  fs_CreateExclusive :: "'d \<Rightarrow> string \<Rightarrow> ('w, 'k + 'f) state"
  fs_Remove :: "'d \<Rightarrow> string \<Rightarrow> ('w, 'k option) state"
  fs_Link :: "'d \<Rightarrow> string \<Rightarrow> string \<Rightarrow> ('w, 'k option) state"
  fs_Rename :: "'d \<Rightarrow> string \<Rightarrow> string \<Rightarrow> ('w, 'k option) state"
  fl_Stat :: "'f \<Rightarrow> ('w, 'k + FileInfo) state"
  fl_Seek :: "'f \<Rightarrow> nat \<Rightarrow> ('w, 'k option) state"
  fl_Read :: "'f \<Rightarrow> nat \<Rightarrow> ('w, string \<times> 'k read_error option) state"
  fl_Write :: "'f \<Rightarrow> string \<Rightarrow> ('w, 'k option) state"
  fl_Sync :: "'f \<Rightarrow> ('w, 'k option) state"
  fl_Close :: "'f \<Rightarrow> ('w, 'k option) state"
  fl_Readdirnames :: "'f \<Rightarrow> nat \<Rightarrow> ('w, string list \<times> 'k read_error option) state"
  fl_Readdir :: "'f \<Rightarrow> nat \<Rightarrow> ('w, FileInfo list \<times> 'k read_error option) state"
  fs_Random :: "('w, 'k + string) state"
  fs_Ctx :: "('w, status option) state"
  fs_Sha256 :: "string \<Rightarrow> string"
  fs_HashTurns :: nat
  er_Status :: "'k \<Rightarrow> status option"
  er_NotExist :: "'k \<Rightarrow> bool"
  er_Exist :: "'k \<Rightarrow> bool"
  er_Permission :: "'k \<Rightarrow> bool"
  er_Invalid :: "'k \<Rightarrow> bool"
  er_Chain :: "'k \<Rightarrow> string list"

record FilesystemServer =
  fv_Workspace :: string
  fv_MaxReadBytes :: nat
  fv_MaxPageSize :: nat
  fv_MaxWriteChunkBytes :: nat
  fv_MaxWriteBytes :: nat
  fv_MaxConcurrentWrites :: int

abbreviation "defaultReadBytes \<equiv> 65536 :: nat"
abbreviation "defaultMaxReadBytes \<equiv> 262144 :: nat"
abbreviation "defaultPageSize \<equiv> 256 :: nat"
abbreviation "defaultMaxPageSize \<equiv> 1000 :: nat"
abbreviation "defaultMaxWriteChunk \<equiv> 262144 :: nat"
abbreviation "defaultMaxWriteBytes \<equiv> 1073741824 :: nat"
abbreviation "defaultConcurrentWrites \<equiv> 16 :: int"
abbreviation "filesystemHashChunk \<equiv> 65536 :: nat"

datatype lookup = Present FileInfo | Absent | LookupFailed

datatype ('d, 'f) fs_event =
  EvMkdirAll 'd string bool
| EvOpenDir 'd string "'d option"
| EvCloseDir 'd
| EvLookup 'd string lookup
| EvOpenFile 'd string "'f option"
| EvStagingCreate 'd string "'f option"
| EvStage 'f string bool
| EvSync 'f bool
| EvCloseFile 'f bool
| EvHashed 'f string
| EvRemove 'd string
| EvLink 'd string string bool
| EvRename 'd string string bool

text \<open>\<open>fs_init\<close> is what \<open>initOnce\<close> left: nothing yet, an error, or the root with the number of write slots.\<close>

record ('w, 'd, 'f, 'k) fs_state = "('w, ('d, 'f) fs_event) logged" +
  fs_init :: "(string + 'd \<times> int) option"
  fs_closing :: bool
  fs_active :: nat
  fs_slots :: nat
  fs_closed :: "'k option option"

type_synonym ('w, 'd, 'f, 'k, 'a) fs_ctl = "(('w, 'd, 'f, 'k) fs_state, 'a) state"

datatype fs_fail = Failed status | Diverges | Panics

abbreviation "fails c message \<equiv> Failed (Status c message)"

text \<open>A call that is not logged, and one that answers with an error or nothing.\<close>

abbreviation calls :: "('w, 'a) state \<Rightarrow> ('w, 'd, 'f, 'k, 'a) fs_ctl" where
  "calls m \<equiv> ask m (\<lambda>_. [])"

section \<open>Errors\<close>

definition pathEscapesRoot :: "('w, 'd, 'f, 'k) fs_host \<Rightarrow> 'k \<Rightarrow> bool" where
  "pathEscapesRoot host e \<longleftrightarrow> list_ex (\<lambda>text. text = ''path escapes from parent'') (er_Chain host e)"

definition filesystemError :: "('w, 'd, 'f, 'k) fs_host \<Rightarrow> string \<Rightarrow> 'k \<Rightarrow> status" where
  "filesystemError host operation e =
     (case er_Status host e of
        Some s \<Rightarrow> s
      | None \<Rightarrow>
          if er_NotExist host e then Status NotFound (operation @ '': not found'')
          else if er_Exist host e then Status FailedPrecondition (operation @ '': path component has an incompatible type'')
          else if er_Permission host e then Status PermissionDenied (operation @ '': permission denied'')
          else if er_Invalid host e \<or> pathEscapesRoot host e
          then Status FailedPrecondition (operation @ '': path is not confined to the workspace'')
          else Status Internal (operation @ '': host I/O failure''))"

definition contextError :: "('w, 'd, 'f, 'k) fs_host \<Rightarrow> ('w, 'd, 'f, 'k, fs_fail + unit) fs_ctl" where
  "contextError host = do {
     e \<leftarrow> calls (fs_Ctx host);
     ret (case e of Some s \<Rightarrow> Inl (Failed s) | None \<Rightarrow> Inr ())
   }"

definition orFilesystemError ::
  "('w, 'd, 'f, 'k) fs_host \<Rightarrow> string \<Rightarrow> ('w, 'd, 'f, 'k, 'k + 'a) fs_ctl \<Rightarrow> ('w, 'd, 'f, 'k, fs_fail + 'a) fs_ctl" where
  "orFilesystemError host operation m = mapErr (\<lambda>e. Failed (filesystemError host operation e)) m"

definition orFilesystemFailure ::
  "('w, 'd, 'f, 'k) fs_host \<Rightarrow> string \<Rightarrow> ('w, 'd, 'f, 'k, 'k option) fs_ctl \<Rightarrow> ('w, 'd, 'f, 'k, fs_fail + unit) fs_ctl" where
  "orFilesystemFailure host operation m = do {
     e \<leftarrow> m;
     ret (case e of Some k \<Rightarrow> Inl (Failed (filesystemError host operation k)) | None \<Rightarrow> Inr ())
   }"

section \<open>Starting and closing\<close>

definition exceedsLimits :: "FilesystemServer \<Rightarrow> bool" where
  "exceedsLimits v \<longleftrightarrow>
     defaultMaxReadBytes < fv_MaxReadBytes v \<or> defaultMaxPageSize < fv_MaxPageSize v
     \<or> defaultMaxWriteChunk < fv_MaxWriteChunkBytes v \<or> defaultMaxWriteBytes < fv_MaxWriteBytes v
     \<or> defaultConcurrentWrites < fv_MaxConcurrentWrites v"

definition openWorkspace ::
  "('w, 'd, 'f, 'k) fs_host \<Rightarrow> FilesystemServer \<Rightarrow> ('w, 'd, 'f, 'k, string + 'd \<times> int) fs_ctl" where
  "openWorkspace host v =
     bindE (mapErr (\<lambda>_. ''workspace path'') (calls (fs_Abs host (fv_Workspace v)))) (\<lambda>root.
     bindE (mapErr (\<lambda>_. ''open workspace root'') (calls (fs_OpenWorkspace host root))) (\<lambda>d. do {
       info \<leftarrow> calls (fs_Stat host d ''.'');
       (if case info of Inl _ \<Rightarrow> True | Inr i \<Rightarrow> \<not> fi_Dir i
        then do { _ \<leftarrow> calls (fs_CloseRoot host d); throwError ''workspace root'' }
        else if exceedsLimits v
        then do { _ \<leftarrow> calls (fs_CloseRoot host d); throwError ''filesystem limit exceeds hard maximum'' }
        else returnOk (d, if fv_MaxConcurrentWrites v \<le> 0 then defaultConcurrentWrites else fv_MaxConcurrentWrites v))
     }))"

definition initialize ::
  "('w, 'd, 'f, 'k) fs_host \<Rightarrow> FilesystemServer \<Rightarrow> ('w, 'd, 'f, 'k, string + 'd \<times> int) fs_ctl" where
  "initialize host v = do {
     done_before \<leftarrow> reads fs_init;
     case done_before of
       Some r \<Rightarrow> ret r
     | None \<Rightarrow> do {
         r \<leftarrow> openWorkspace host v;
         _ \<leftarrow> modifies (\<lambda>s. s\<lparr>fs_init := Some r\<rparr>);
         ret r
       }
   }"

definition initialized ::
  "('w, 'd, 'f, 'k) fs_host \<Rightarrow> FilesystemServer \<Rightarrow> ('w, 'd, 'f, 'k, fs_fail + 'd \<times> int) fs_ctl" where
  "initialized host v = mapErr (\<lambda>_. fails Internal ''initialize filesystem'') (initialize host v)"

definition BeginShutdown :: "('w, 'd, 'f, 'k, unit) fs_ctl" where
  "BeginShutdown = modifies (\<lambda>s. s\<lparr>fs_closing := True\<rparr>)"

text \<open>\<open>CloseContext\<close> ends when its context does or when the last active write has left; until then it waits (\<open>None\<close>).\<close>

definition CloseContext ::
  "('w, 'd, 'f, 'k) fs_host \<Rightarrow> bool \<Rightarrow> ('w, 'd, 'f, 'k, (unit + 'k option) option) fs_ctl" where
  "CloseContext host cancelled = do {
     _ \<leftarrow> BeginShutdown;
     active \<leftarrow> reads fs_active;
     (if cancelled then ret (Some (Inl ()))
      else if 0 < active then ret None
      else do {
        closed \<leftarrow> reads fs_closed;
        root \<leftarrow> reads fs_init;
        (case closed of
           Some e \<Rightarrow> ret (Some (Inr e))
         | None \<Rightarrow> do {
             e \<leftarrow> (case root of Some (Inr (d, _)) \<Rightarrow> calls (fs_CloseRoot host d) | _ \<Rightarrow> ret None);
             _ \<leftarrow> modifies (\<lambda>s. s\<lparr>fs_closed := Some e\<rparr>);
             ret (Some (Inr e))
           })
      })
   }"

definition beginWrite :: "('w, 'd, 'f, 'k, fs_fail + unit) fs_ctl" where
  "beginWrite = do {
     closing \<leftarrow> reads fs_closing;
     (if closing then throwError (fails Unavailable ''filesystem is shutting down'')
      else do { _ \<leftarrow> modifies (\<lambda>s. s\<lparr>fs_active := fs_active s + 1\<rparr>); returnOk () })
   }"

section \<open>Reading\<close>

text \<open>\<open>hashFile\<close> from the start of the file: every turn checks the context and reads one chunk.\<close>

fun hashLoop ::
  "('w, 'd, 'f, 'k) fs_host \<Rightarrow> string \<Rightarrow> 'f \<Rightarrow> nat \<Rightarrow> string \<Rightarrow> ('w, 'd, 'f, 'k, fs_fail + string) fs_ctl" where
  "hashLoop host operation f 0 hashed = throwError Diverges"
| "hashLoop host operation f (Suc turns) hashed =
     bindE (contextError host) (\<lambda>_. do {
       (bytes, e) \<leftarrow> calls (fl_Read host f filesystemHashChunk);
       (case e of
          Some ReadEOF \<Rightarrow> returnOk (hex_encode (fs_Sha256 host (hashed @ bytes)))
        | Some (ReadError k) \<Rightarrow> throwError (Failed (filesystemError host operation k))
        | None \<Rightarrow> hashLoop host operation f turns (hashed @ bytes))
     })"

definition hashFile ::
  "('w, 'd, 'f, 'k) fs_host \<Rightarrow> string \<Rightarrow> 'f \<Rightarrow> ('w, 'd, 'f, 'k, fs_fail + string) fs_ctl" where
  "hashFile host operation f =
     bindE (orFilesystemFailure host operation (calls (fl_Seek host f 0))) (\<lambda>_. hashLoop host operation f (fs_HashTurns host) [])"

text \<open>\<open>io.ReadFull\<close>, with the answer of \<open>readChunk\<close>: \<open>Inl None\<close> when the file ended early.\<close>

fun readFull ::
  "('w, 'd, 'f, 'k) fs_host \<Rightarrow> 'f \<Rightarrow> nat \<Rightarrow> nat \<Rightarrow> string \<Rightarrow> ('w, 'd, 'f, 'k, 'k option + string option) fs_ctl" where
  "readFull host f turns n got =
     (if n \<le> length got then returnOk (Some got)
      else case turns of
        0 \<Rightarrow> returnOk None
      | Suc turns' \<Rightarrow> do {
          (bytes, e) \<leftarrow> calls (fl_Read host f (n - length got));
          (if n \<le> length (got @ bytes) then returnOk (Some (got @ bytes))
           else case e of
             Some ReadEOF \<Rightarrow> throwError None
           | Some (ReadError k) \<Rightarrow> throwError (Some k)
           | None \<Rightarrow> readFull host f turns' n (got @ bytes))
        })"

definition readChunk ::
  "('w, 'd, 'f, 'k) fs_host \<Rightarrow> 'f \<Rightarrow> nat \<Rightarrow> ('w, 'd, 'f, 'k, fs_fail + string) fs_ctl" where
  "readChunk host f n =
     ifErr (readFull host f n n [])
       (\<lambda>e. throwError (case e of
          None \<Rightarrow> fails Aborted ''workspace file changed during read''
        | Some k \<Rightarrow> Failed (filesystemError host ''read workspace file'' k)))
       (\<lambda>r. case r of None \<Rightarrow> throwError Diverges | Some bytes \<Rightarrow> returnOk bytes)"

record ReadRequest =
  rd_Path :: string
  rd_Offset :: nat
  rd_MaxBytes :: nat
  rd_IncludeVersion :: bool

record ReadResponse =
  rr_Data :: string
  rr_Offset :: nat
  rr_NextOffset :: nat
  rr_Size :: nat
  rr_Eof :: bool
  rr_Version :: string

text \<open>What is done with the open file; \<open>int64(offset)\<close> is the offset, which is at most the size.\<close>

definition readOpened ::
  "('w, 'd, 'f, 'k) fs_host \<Rightarrow> ReadRequest \<Rightarrow> nat \<Rightarrow> 'f \<Rightarrow> ('w, 'd, 'f, 'k, fs_fail + ReadResponse) fs_ctl" where
  "readOpened host req maxBytes f =
     bindE (orFilesystemError host ''inspect workspace file'' (calls (fl_Stat host f))) (\<lambda>info.
     if \<not> fi_Regular info then throwError (fails FailedPrecondition ''read path is not a regular file'')
     else let size = nat (fi_Size info mod 2 ^ 64) in
       if size < rd_Offset req
       then throwError (fails OutOfRange (''offset '' @ format_nat (rd_Offset req) @ '' exceeds file size '' @ format_nat size))
       else
         bindE (if rd_IncludeVersion req then hashFile host ''hash workspace file'' f else returnOk []) (\<lambda>version.
         bindE (orFilesystemFailure host ''seek workspace file'' (calls (fl_Seek host f (rd_Offset req)))) (\<lambda>_.
         bindE (readChunk host f (min maxBytes (size - rd_Offset req))) (\<lambda>bytes.
           let next = rd_Offset req + length bytes in
           returnOk \<lparr>rr_Data = bytes, rr_Offset = rd_Offset req, rr_NextOffset = next, rr_Size = size, rr_Eof = (next = size),
                     rr_Version = version\<rparr>))))"

text \<open>A deferred call runs whatever the body answered.\<close>

definition deferring ::
  "('w, 'd, 'f, 'k, 'a) fs_ctl \<Rightarrow> ('w, 'd, 'f, 'k, 'b) fs_ctl \<Rightarrow> ('w, 'd, 'f, 'k, 'b) fs_ctl" where
  "deferring cleanup body = do { r \<leftarrow> body; _ \<leftarrow> cleanup; ret r }"

definition Read ::
  "('w, 'd, 'f, 'k) fs_host \<Rightarrow> FilesystemServer \<Rightarrow> ReadRequest \<Rightarrow> ('w, 'd, 'f, 'k, fs_fail + ReadResponse) fs_ctl" where
  "Read host v req =
     bindE (initialized host v) (\<lambda>(root, _).
     case normalizeWorkspacePath (rd_Path req) False of
       Inl e \<Rightarrow> throwError (Failed e)
     | Inr logical \<Rightarrow>
         let limit = (if fv_MaxReadBytes v = 0 then defaultMaxReadBytes else fv_MaxReadBytes v);
             maxBytes = (if rd_MaxBytes req = 0 then min defaultReadBytes limit else rd_MaxBytes req) in
         if limit < maxBytes then throwError (fails InvalidArgument (''max_bytes exceeds '' @ format_nat limit))
         else
           bindE (contextError host) (\<lambda>_.
           bindE (orFilesystemError host ''open workspace file'' (calls (fs_Open host root logical))) (\<lambda>f.
             deferring (calls (fl_Close host f)) (readOpened host req maxBytes f))))"

section \<open>Writing\<close>

text \<open>The getters of a message: the header if it is one, the data if it is not \<open>nil\<close>.\<close>

record WriteRequest =
  wr_Header :: "WriteHeader option"
  wr_Data :: "string option"

text \<open>How the stream ends: \<open>io.EOF\<close>, or an error with its status code and text.\<close>

datatype recv_error = RecvEOF | RecvError status_code string

fun recvText :: "recv_error \<Rightarrow> string" where
  "recvText RecvEOF = ''EOF''"
| "recvText (RecvError c text) = text"

fun recvCode :: "recv_error \<Rightarrow> status_code" where
  "recvCode RecvEOF = Unknown"
| "recvCode (RecvError c text) = c"

definition recvFailed ::
  "('w, 'd, 'f, 'k) fs_host \<Rightarrow> status_code \<Rightarrow> string \<Rightarrow> recv_error \<Rightarrow> ('w, 'd, 'f, 'k, fs_fail + 'a) fs_ctl" where
  "recvFailed host c message e =
     bindE (contextError host) (\<lambda>_.
       throwError (if recvCode e \<noteq> Unknown then Failed (Status (recvCode e) (recvText e)) else fails c (message @ recvText e)))"

definition lookupOf :: "('w, 'd, 'f, 'k) fs_host \<Rightarrow> 'k + FileInfo \<Rightarrow> lookup" where
  "lookupOf host x = (case x of Inr i \<Rightarrow> Present i | Inl k \<Rightarrow> if er_NotExist host k then Absent else LookupFailed)"

definition lstat :: "('w, 'd, 'f, 'k) fs_host \<Rightarrow> 'd \<Rightarrow> string \<Rightarrow> ('w, 'd, 'f, 'k, 'k + FileInfo) fs_ctl" where
  "lstat host d name = ask (fs_Lstat host d name) (\<lambda>x. [EvLookup d name (lookupOf host x)])"

definition prepareWriteDirectory ::
  "('w, 'd, 'f, 'k) fs_host \<Rightarrow> 'd \<Rightarrow> string \<Rightarrow> ('w, 'd, 'f, 'k, fs_fail + 'd \<times> string) fs_ctl" where
  "prepareWriteDirectory host root logical =
     (let directory = pathDir logical in
      bindE (orFilesystemFailure host ''create workspace directory''
              (ask (fs_MkdirAll host root directory) (\<lambda>e. [EvMkdirAll root directory (e = None)]))) (\<lambda>_.
      bindE (orFilesystemError host ''open workspace directory''
              (ask (fs_OpenRoot host root directory) (\<lambda>x. [EvOpenDir root directory (case x of Inl _ \<Rightarrow> None | Inr d \<Rightarrow> Some d)])))
        (\<lambda>d. returnOk (d, pathBase logical))))"

fun stagingLoop ::
  "('w, 'd, 'f, 'k) fs_host \<Rightarrow> 'd \<Rightarrow> nat \<Rightarrow> ('w, 'd, 'f, 'k, fs_fail + 'f \<times> string) fs_ctl" where
  "stagingLoop host d 0 = throwError (fails ResourceExhausted ''could not allocate a staging name'')"
| "stagingLoop host d (Suc attempts) =
     ifErr (calls (fs_Random host)) (\<lambda>_. throwError (fails Internal ''generate staging name: host failure'')) (\<lambda>random.
       let name = ''.sandboxd-write-'' @ hex_encode random in
       ifErr (ask (fs_CreateExclusive host d name) (\<lambda>x. [EvStagingCreate d name (case x of Inl _ \<Rightarrow> None | Inr f \<Rightarrow> Some f)]))
         (\<lambda>k. if er_Exist host k then stagingLoop host d attempts
              else throwError (Failed (filesystemError host ''create staging file'' k)))
         (\<lambda>f. returnOk (f, name)))"

definition createStagingFile ::
  "('w, 'd, 'f, 'k) fs_host \<Rightarrow> 'd \<Rightarrow> ('w, 'd, 'f, 'k, fs_fail + 'f \<times> string) fs_ctl" where
  "createStagingFile host d = stagingLoop host d 100"

definition notRegular :: "FileInfo \<Rightarrow> bool" where
  "notRegular i \<longleftrightarrow> fi_Symlink i \<or> \<not> fi_Regular i"

definition checkDestination ::
  "('w, 'd, 'f, 'k) fs_host \<Rightarrow> 'd \<Rightarrow> string \<Rightarrow> ('w, 'd, 'f, 'k, fs_fail + bool) fs_ctl" where
  "checkDestination host d name =
     ifErr (lstat host d name)
       (\<lambda>k. if er_NotExist host k then returnOk False else throwError (Failed (filesystemError host ''inspect write destination'' k)))
       (\<lambda>i. if notRegular i then throwError (fails FailedPrecondition ''write destination is not a regular file'') else returnOk True)"

definition closeFile :: "('w, 'd, 'f, 'k) fs_host \<Rightarrow> 'f \<Rightarrow> ('w, 'd, 'f, 'k, 'k option) fs_ctl" where
  "closeFile host f = ask (fl_Close host f) (\<lambda>e. [EvCloseFile f (e = None)])"

definition matchVersion ::
  "('w, 'd, 'f, 'k) fs_host \<Rightarrow> 'd \<Rightarrow> string \<Rightarrow> string \<Rightarrow> ('w, 'd, 'f, 'k, fs_fail + unit) fs_ctl" where
  "matchVersion host d name expected =
     bindE (orFilesystemError host ''open write destination''
             (ask (fs_Open host d name) (\<lambda>x. [EvOpenFile d name (case x of Inl _ \<Rightarrow> None | Inr f \<Rightarrow> Some f)]))) (\<lambda>f.
       deferring (closeFile host f)
         (bindE (hashFile host ''hash write destination'' f) (\<lambda>version. do {
            _ \<leftarrow> note_event (EvHashed f version);
            (if version \<noteq> expected then throwError (fails FailedPrecondition ''write destination version changed'') else returnOk ())
          })))"

text \<open>The header was validated, so the last case is the code's panic, never reached.\<close>

definition checkWritePrecondition ::
  "('w, 'd, 'f, 'k) fs_host \<Rightarrow> 'd \<Rightarrow> string \<Rightarrow> WriteHeader \<Rightarrow> ('w, 'd, 'f, 'k, fs_fail + unit) fs_ctl" where
  "checkWritePrecondition host d name header =
     bindE (checkDestination host d name) (\<lambda>exists.
       case wh_Precondition header of
         PreconditionAny \<Rightarrow> returnOk ()
       | MustNotExist \<Rightarrow>
           if exists then throwError (fails FailedPrecondition ''write destination already exists'') else returnOk ()
       | MatchVersion \<Rightarrow>
           if \<not> exists then throwError (fails FailedPrecondition ''write destination does not exist'')
           else matchVersion host d name (wh_ExpectedVersion header)
       | PreconditionUnspecified \<Rightarrow> throwError Panics)"

text \<open>The receiving loop; the accumulator is what has been staged and hashed.\<close>

fun receiveLoop ::
  "('w, 'd, 'f, 'k) fs_host \<Rightarrow> nat \<Rightarrow> nat \<Rightarrow> 'f \<Rightarrow> recv_error \<Rightarrow> string \<Rightarrow> WriteRequest list
     \<Rightarrow> ('w, 'd, 'f, 'k, fs_fail + string) fs_ctl" where
  "receiveLoop host chunkLimit fileLimit f ending staged [] =
     (if ending = RecvEOF then returnOk staged else recvFailed host Unavailable ''write stream interrupted: '' ending)"
| "receiveLoop host chunkLimit fileLimit f ending staged (message # rest) =
     bindE (contextError host) (\<lambda>_.
       case wr_Data message of
         None \<Rightarrow> throwError (fails InvalidArgument ''write data messages must follow the single header'')
       | Some bytes \<Rightarrow>
           if wr_Header message \<noteq> None then throwError (fails InvalidArgument ''write data messages must follow the single header'')
           else if chunkLimit < length bytes
           then throwError (fails ResourceExhausted (''write chunk exceeds '' @ format_nat chunkLimit @ '' bytes''))
           else if fileLimit - length staged < length bytes
           then throwError (fails ResourceExhausted (''write exceeds '' @ format_nat fileLimit @ '' bytes''))
           else
             bindE (orFilesystemFailure host ''stage workspace file''
                     (ask (fl_Write host f bytes) (\<lambda>e. [EvStage f bytes (e = None)]))) (\<lambda>_.
               receiveLoop host chunkLimit fileLimit f ending (staged @ bytes) rest))"

definition commitStaged ::
  "('w, 'd, 'f, 'k) fs_host \<Rightarrow> 'd \<Rightarrow> string \<Rightarrow> string \<Rightarrow> WriteHeader \<Rightarrow> ('w, 'd, 'f, 'k, fs_fail + unit) fs_ctl" where
  "commitStaged host d stagedName destination header =
     (if wh_Precondition header = MustNotExist then do {
        e \<leftarrow> ask (fs_Link host d stagedName destination) (\<lambda>e. [EvLink d stagedName destination (e = None)]);
        (case e of
           None \<Rightarrow> returnOk ()
         | Some k \<Rightarrow>
             if er_Exist host k then throwError (fails FailedPrecondition ''write destination already exists'')
             else throwError (Failed (filesystemError host ''commit new workspace file'' k)))
      }
      else orFilesystemFailure host ''commit workspace file''
        (ask (fs_Rename host d stagedName destination) (\<lambda>e. [EvRename d stagedName destination (e = None)])))"

text \<open>From the first data message to the commit; the answer is the size and the version.\<close>

definition writeStaged ::
  "('w, 'd, 'f, 'k) fs_host \<Rightarrow> FilesystemServer \<Rightarrow> WriteHeader \<Rightarrow> 'd \<Rightarrow> string \<Rightarrow> 'f \<Rightarrow> string \<Rightarrow> WriteRequest list \<Rightarrow> recv_error
     \<Rightarrow> ('w, 'd, 'f, 'k, fs_fail + nat \<times> string) fs_ctl" where
  "writeStaged host v header d destination f stagedName messages ending =
     (let chunkLimit = (if fv_MaxWriteChunkBytes v = 0 then defaultMaxWriteChunk else fv_MaxWriteChunkBytes v);
          fileLimit = (if fv_MaxWriteBytes v = 0 then defaultMaxWriteBytes else fv_MaxWriteBytes v) in
      bindE (receiveLoop host chunkLimit fileLimit f ending [] messages) (\<lambda>staged.
      bindE (contextError host) (\<lambda>_.
      bindE (orFilesystemFailure host ''flush staging file'' (ask (fl_Sync host f) (\<lambda>e. [EvSync f (e = None)]))) (\<lambda>_.
      bindE (orFilesystemFailure host ''close staging file'' (closeFile host f)) (\<lambda>_.
      bindE (contextError host) (\<lambda>_.
      bindE (checkWritePrecondition host d destination header) (\<lambda>_.
      bindE (commitStaged host d stagedName destination header) (\<lambda>_.
        returnOk (length staged, hex_encode (fs_Sha256 host staged))))))))))"

definition closeDir :: "('w, 'd, 'f, 'k) fs_host \<Rightarrow> 'd \<Rightarrow> ('w, 'd, 'f, 'k, 'k option) fs_ctl" where
  "closeDir host d = ask (fs_CloseRoot host d) (\<lambda>_. [EvCloseDir d])"

definition writeOpened ::
  "('w, 'd, 'f, 'k) fs_host \<Rightarrow> FilesystemServer \<Rightarrow> 'd \<Rightarrow> string \<Rightarrow> WriteHeader \<Rightarrow> WriteRequest list \<Rightarrow> recv_error
     \<Rightarrow> ('w, 'd, 'f, 'k, fs_fail + nat \<times> string) fs_ctl" where
  "writeOpened host v root logical header messages ending =
     bindE (prepareWriteDirectory host root logical) (\<lambda>(d, destination).
       deferring (closeDir host d)
         (bindE (bindE (checkDestination host d destination) (\<lambda>_. createStagingFile host d)) (\<lambda>(f, stagedName).
            deferring (ask (fs_Remove host d stagedName) (\<lambda>_. [EvRemove d stagedName]))
              (deferring (closeFile host f)
                (writeStaged host v header d destination f stagedName messages ending)))))"

definition writeStream ::
  "('w, 'd, 'f, 'k) fs_host \<Rightarrow> FilesystemServer \<Rightarrow> 'd \<Rightarrow> WriteRequest list \<Rightarrow> recv_error \<Rightarrow> ('w, 'd, 'f, 'k, fs_fail + nat \<times> string) fs_ctl" where
  "writeStream host v root messages ending =
     (case messages of
        [] \<Rightarrow> recvFailed host InvalidArgument ''write header: '' ending
      | first # rest \<Rightarrow>
          (case wr_Header first of
             None \<Rightarrow> throwError (fails InvalidArgument ''first write message must be a header'')
           | Some header \<Rightarrow>
               (case normalizeWorkspacePath (wh_Path header) False of
                  Inl e \<Rightarrow> throwError (Failed e)
                | Inr logical \<Rightarrow>
                    (case validateWriteHeader header of
                       Some e \<Rightarrow> throwError (Failed e)
                     | None \<Rightarrow> writeOpened host v root logical header rest ending))))"

definition takingSlot ::
  "int \<Rightarrow> ('w, 'd, 'f, 'k, fs_fail + 'a) fs_ctl \<Rightarrow> ('w, 'd, 'f, 'k, fs_fail + 'a) fs_ctl" where
  "takingSlot capacity body = do {
     slots \<leftarrow> reads fs_slots;
     (if int slots < capacity
      then do {
        _ \<leftarrow> modifies (\<lambda>s. s\<lparr>fs_slots := fs_slots s + 1\<rparr>);
        deferring (modifies (\<lambda>s. s\<lparr>fs_slots := fs_slots s - 1\<rparr>)) body
      }
      else throwError (fails ResourceExhausted ''too many concurrent writes''))
   }"

text \<open>\<open>stream.SendAndClose\<close> of the response is left to the caller.\<close>

definition Write ::
  "('w, 'd, 'f, 'k) fs_host \<Rightarrow> FilesystemServer \<Rightarrow> WriteRequest list \<Rightarrow> recv_error \<Rightarrow> ('w, 'd, 'f, 'k, fs_fail + nat \<times> string) fs_ctl" where
  "Write host v messages ending =
     bindE (initialized host v) (\<lambda>(root, capacity).
     bindE beginWrite (\<lambda>_.
       deferring (modifies (\<lambda>s. s\<lparr>fs_active := fs_active s - 1\<rparr>))
         (takingSlot capacity (writeStream host v root messages ending))))"

section \<open>Listing\<close>

definition resolveExisting ::
  "('w, 'd, 'f, 'k) fs_host \<Rightarrow> 'd \<Rightarrow> string \<Rightarrow> ('w, 'd, 'f, 'k, 'k + string \<times> FileInfo) fs_ctl" where
  "resolveExisting host root logical =
     (let current = (if logical = [] then ''.'' else logical) in
      bindE (calls (fs_Stat host root current)) (\<lambda>info. returnOk (current, info)))"

text \<open>Skipping the entries of earlier pages: every turn reads at least one name or ends.\<close>

fun skipEntries ::
  "('w, 'd, 'f, 'k) fs_host \<Rightarrow> 'f \<Rightarrow> nat \<Rightarrow> nat \<Rightarrow> ('w, 'd, 'f, 'k, fs_fail + unit) fs_ctl" where
  "skipEntries host f turns remaining =
     (if remaining = 0 then returnOk ()
      else case turns of
        0 \<Rightarrow> throwError Diverges
      | Suc turns' \<Rightarrow>
          bindE (contextError host) (\<lambda>_. do {
            (names, e) \<leftarrow> calls (fl_Readdirnames host f (min remaining defaultPageSize));
            let left = remaining - length names in
            (case e of
               Some ReadEOF \<Rightarrow>
                 if 0 < left then throwError (fails InvalidArgument ''page token is past the end of the directory'')
                 else skipEntries host f turns' left
             | Some (ReadError k) \<Rightarrow> throwError (Failed (filesystemError host ''scan workspace directory'' k))
             | None \<Rightarrow> skipEntries host f turns' left)
          }))"

datatype EntryType = EntryOther | EntrySymlink | EntryFile | EntryDirectory

record Entry =
  ey_Name :: string
  ey_Type :: EntryType
  ey_Size :: nat
  ey_ModifiedUnixMs :: int

definition entryType :: "FileInfo \<Rightarrow> EntryType" where
  "entryType i = (if fi_Symlink i then EntrySymlink else if fi_Regular i then EntryFile else if fi_Dir i then EntryDirectory else EntryOther)"

definition entryOf :: "FileInfo \<Rightarrow> Entry" where
  "entryOf i =
     \<lparr>ey_Name = fi_Name i, ey_Type = entryType i,
      ey_Size = (if entryType i = EntryFile \<and> 0 < fi_Size i then nat (fi_Size i) else 0), ey_ModifiedUnixMs = fi_ModifiedMs i\<rparr>"

fun collectEntries ::
  "('w, 'd, 'f, 'k) fs_host \<Rightarrow> FileInfo list \<Rightarrow> Entry list \<Rightarrow> ('w, 'd, 'f, 'k, fs_fail + Entry list) fs_ctl" where
  "collectEntries host [] entries = returnOk entries"
| "collectEntries host (i # rest) entries =
     bindE (contextError host) (\<lambda>_.
       collectEntries host rest (if isReservedStagingComponent (fi_Name i) then entries else entries @ [entryOf i]))"

record ListRequest =
  lr_Path :: string
  lr_PageSize :: nat
  lr_PageToken :: string

record ListResponse =
  ls_Entries :: "Entry list"
  ls_NextPageToken :: string

definition listOpened ::
  "('w, 'd, 'f, 'k) fs_host \<Rightarrow> string \<Rightarrow> nat \<Rightarrow> nat \<Rightarrow> 'f \<Rightarrow> ('w, 'd, 'f, 'k, fs_fail + ListResponse) fs_ctl" where
  "listOpened host logical pageSize offset f =
     bindE (skipEntries host f offset offset) (\<lambda>_. do {
       (infos, e) \<leftarrow> calls (fl_Readdir host f (pageSize + 1));
       (case e of
          Some (ReadError k) \<Rightarrow> throwError (Failed (filesystemError host ''scan workspace directory'' k))
        | _ \<Rightarrow>
            let page = (if pageSize < length infos then take pageSize infos else infos) in
            bindE (collectEntries host page []) (\<lambda>entries.
              returnOk \<lparr>ls_Entries = entries,
                ls_NextPageToken = (if pageSize < length infos
                  then encodePageToken (fs_Sha256 host) logical (wrap_u64 (offset + length page)) else [])\<rparr>))
     })"

definition List ::
  "('w, 'd, 'f, 'k) fs_host \<Rightarrow> FilesystemServer \<Rightarrow> ListRequest \<Rightarrow> ('w, 'd, 'f, 'k, fs_fail + ListResponse) fs_ctl" where
  "List host v req =
     bindE (initialized host v) (\<lambda>(root, _).
     case normalizeWorkspacePath (lr_Path req) True of
       Inl e \<Rightarrow> throwError (Failed e)
     | Inr logical \<Rightarrow>
         let limit = (if fv_MaxPageSize v = 0 then defaultMaxPageSize else fv_MaxPageSize v);
             pageSize = (if lr_PageSize req = 0 then min defaultPageSize limit else lr_PageSize req) in
         if limit < pageSize then throwError (fails InvalidArgument (''page_size exceeds '' @ format_nat limit))
         else case decodePageToken (fs_Sha256 host) logical (lr_PageToken req) of
           Inl e \<Rightarrow> throwError (Failed e)
         | Inr offset \<Rightarrow>
             bindE (orFilesystemError host ''list workspace directory'' (resolveExisting host root logical)) (\<lambda>(hostPath, info).
             if \<not> fi_Dir info then throwError (fails FailedPrecondition ''list path is not a directory'')
             else bindE (orFilesystemError host ''open workspace directory'' (calls (fs_Open host root hostPath))) (\<lambda>f.
               deferring (calls (fl_Close host f)) (listOpened host logical pageSize offset f))))"

declare readFull.simps [simp del] skipEntries.simps [simp del]

lemma skipEntries_zero [simp]: "skipEntries host f turns 0 = returnOk ()"
  by (simp add: skipEntries.simps)

section \<open>What a program of the service does to its state\<close>

text \<open>The world changed, the events \<open>es\<close> were logged, and nothing else.\<close>

definition after :: "('w, 'd, 'f, 'k) fs_state \<Rightarrow> ('d, 'f) fs_event list \<Rightarrow> ('w, 'd, 'f, 'k) fs_state \<Rightarrow> bool" where
  "after s es s' \<longleftrightarrow> (\<exists>w. s' = s\<lparr>lw_world := w, lw_log := lw_log s @ es\<rparr>)"

lemma after_refl [simp]: "after s [] s"
  by (auto simp: after_def intro: exI [of _ "lw_world s"])

lemma after_trans: "after s es s1 \<Longrightarrow> after s1 es' s2 \<Longrightarrow> after s (es @ es') s2"
  by (auto simp: after_def)

lemma after_update [simp]: "after s es (s\<lparr>lw_world := w, lw_log := lw_log s @ es\<rparr>)" "after s [] (s\<lparr>lw_world := w\<rparr>)"
  by (auto simp: after_def)

lemma after_log: "after s es s' \<Longrightarrow> lw_log s' = lw_log s @ es"
  by (auto simp: after_def)

text \<open>\<open>does m R\<close>: the program logs events that are in \<open>R\<close> with its answer.\<close>

definition does :: "('w, 'd, 'f, 'k, 'a) fs_ctl \<Rightarrow> ('a \<Rightarrow> ('d, 'f) fs_event list \<Rightarrow> bool) \<Rightarrow> bool" where
  "does m R \<longleftrightarrow> (\<forall>s. wp m (\<lambda>x s'. \<exists>es. after s es s' \<and> R x es) s)"

lemma doesI: "(\<And>s. wp m (\<lambda>x s'. \<exists>es. after s es s' \<and> R x es) s) \<Longrightarrow> does m R"
  by (simp add: does_def)

lemma doesD: "does m R \<Longrightarrow> run_state m s = (x, s') \<Longrightarrow> \<exists>es. after s es s' \<and> R x es"
  unfolding does_def by (drule spec [of _ s]) (drule (1) wp_runD)

lemma does_mono:
  assumes "does m R" "\<And>x es. R x es \<Longrightarrow> R' x es"
  shows "does m R'"
proof (rule doesI)
  fix s
  show "wp m (\<lambda>x s'. \<exists>es. after s es s' \<and> R' x es) s"
    using assms(1) unfolding does_def by (rule allE) (rule wp_mono, assumption, use assms(2) in blast)
qed

lemma does_ret [simp]: "does (ret x :: ('w, 'd, 'f, 'k, 'a) fs_ctl) R \<longleftrightarrow> R x []"
proof
  assume "does (ret x :: ('w, 'd, 'f, 'k, 'a) fs_ctl) R"
  then have "wp (ret x) (\<lambda>x s'. \<exists>es. after s es s' \<and> R x es) s" for s :: "('w, 'd, 'f, 'k) fs_state" by (simp add: does_def)
  then obtain es where "after undefined es (undefined :: ('w, 'd, 'f, 'k) fs_state)" "R x es" by (auto simp: wp_return)
  then show "R x []" by (auto dest: after_log)
next
  assume "R x []"
  then show "does (ret x :: ('w, 'd, 'f, 'k, 'a) fs_ctl) R" by (intro doesI) (auto simp: wp_return intro: exI [of _ "[]"])
qed

lemma does_ask:
  fixes m :: "('w, 'a) state"
  assumes "\<And>x. R x (ev x)"
  shows "does (ask m ev :: ('w, 'd, 'f, 'k, 'a) fs_ctl) R"
proof (rule doesI)
  fix s :: "('w, 'd, 'f, 'k) fs_state"
  obtain x w where "run_state m (lw_world s) = (x, w)" by force
  then show "wp (ask m ev) (\<lambda>x s'. \<exists>es. after s es s' \<and> R x es) s"
    using assms [of x] by (auto simp: wp_ask intro!: exI [of _ "ev x"])
qed

lemma does_bind:
  assumes "does m R" "\<And>x es. R x es \<Longrightarrow> does (f x) (\<lambda>y es'. R' y (es @ es'))"
  shows "does (State_Monad.bind m f) R'"
proof (rule doesI)
  fix s
  obtain x s1 where m: "run_state m s = (x, s1)" by force
  obtain es where es: "after s es s1" "R x es" using doesD [OF assms(1) m] by auto
  obtain y s2 where f: "run_state (f x) s1 = (y, s2)" by force
  obtain es' where "after s1 es' s2" "R' y (es @ es')" using doesD [OF assms(2) [OF es(2)] f] by auto
  then show "wp (State_Monad.bind m f) (\<lambda>y s'. \<exists>es. after s es s' \<and> R' y es) s"
    using m f after_trans [OF es(1)] by (auto simp: wp_def)
qed

lemma does_bindE:
  assumes "does m R" "\<And>e es. R (Inl e) es \<Longrightarrow> R' (Inl e) es"
    and "\<And>x es. R (Inr x) es \<Longrightarrow> does (f x) (\<lambda>y es'. R' y (es @ es'))"
  shows "does (bindE m f) R'"
  unfolding bindE_def ifErr_def
  by (rule does_bind [OF assms(1)]) (auto split: sum.split intro: assms(2,3))

lemma does_ifErr:
  assumes "does m R" "\<And>e es. R (Inl e) es \<Longrightarrow> does (f e) (\<lambda>y es'. R' y (es @ es'))"
    and "\<And>x es. R (Inr x) es \<Longrightarrow> does (g x) (\<lambda>y es'. R' y (es @ es'))"
  shows "does (ifErr m f g) R'"
  unfolding ifErr_def by (rule does_bind [OF assms(1)]) (auto split: sum.split intro: assms(2,3))

lemma does_mapErr:
  assumes "does m R" "\<And>e es. R (Inl e) es \<Longrightarrow> R' (Inl (h e)) es" "\<And>x es. R (Inr x) es \<Longrightarrow> R' (Inr x) es"
  shows "does (mapErr h m) R'"
  unfolding mapErr_def by (rule does_ifErr [OF assms(1)]) (auto intro: assms(2,3))

lemma does_deferring:
  assumes "does m R" "\<And>x es. R x es \<Longrightarrow> does c (\<lambda>_ es'. R' x (es @ es'))"
  shows "does (deferring c m) R'"
  unfolding deferring_def
  by (rule does_bind [OF assms(1)]) (rule does_bind, erule assms(2), auto)

lemma does_orFilesystemError:
  "does m R \<Longrightarrow> (\<And>e es. R (Inl e) es \<Longrightarrow> R' (Inl (Failed (filesystemError host operation e))) es) \<Longrightarrow>
     (\<And>x es. R (Inr x) es \<Longrightarrow> R' (Inr x) es) \<Longrightarrow> does (orFilesystemError host operation m) R'"
  unfolding orFilesystemError_def by (rule does_mapErr)

lemma does_orFilesystemFailure:
  "does m R \<Longrightarrow> (\<And>e es. R (Some e) es \<Longrightarrow> R' (Inl (Failed (filesystemError host operation e))) es) \<Longrightarrow>
     (\<And>es. R None es \<Longrightarrow> R' (Inr ()) es) \<Longrightarrow> does (orFilesystemFailure host operation m) R'"
  unfolding orFilesystemFailure_def by (rule does_bind, assumption) (auto split: option.split)

text \<open>Programs that log nothing.\<close>

abbreviation silent :: "('w, 'd, 'f, 'k, 'a) fs_ctl \<Rightarrow> bool" where
  "silent m \<equiv> does m (\<lambda>_ es. es = [])"

lemma does_after_silent:
  assumes "silent m" "\<And>e. R (Inl e) []" "\<And>x. does (f x) R"
  shows "does (bindE m f) R"
  by (rule does_bindE [OF assms(1)]) (simp_all add: assms(2,3))

lemma does_ifErr_silent:
  assumes "silent m" "\<And>e. does (f e) R" "\<And>x. does (g x) R"
  shows "does (ifErr m f g) R"
  by (rule does_ifErr [OF assms(1)]) (simp_all add: assms(2,3))

lemma silent_contextError: "silent (contextError host)"
  unfolding contextError_def by (rule does_bind [OF does_ask [of "\<lambda>_ es. es = []"]]) auto

lemma silent_hashLoop: "silent (hashLoop host operation f turns hashed)"
proof (induction turns arbitrary: hashed)
  case (Suc turns)
  then show ?case
    by (auto intro!: does_bindE [OF silent_contextError] does_bind [OF does_ask [of "\<lambda>_ es. es = []"]]
        split: option.split read_error.split)
qed simp

lemma silent_hashFile: "silent (hashFile host operation f)"
  unfolding hashFile_def
  by (auto intro!: does_bindE [OF does_orFilesystemFailure [OF does_ask [of "\<lambda>_ es. es = []"], where R' = "\<lambda>_ es. es = []"]] silent_hashLoop)

section \<open>Writes commit whole files\<close>

text \<open>Events that change nothing in the workspace.\<close>

fun inspecting :: "('d, 'f) fs_event \<Rightarrow> bool" where
  "inspecting (EvLookup _ _ _) = True"
| "inspecting (EvOpenFile _ _ _) = True"
| "inspecting (EvHashed _ _) = True"
| "inspecting (EvCloseFile _ _) = True"
| "inspecting (EvSync _ _) = True"
| "inspecting _ = False"

fun committing :: "('d, 'f) fs_event \<Rightarrow> bool" where
  "committing (EvLink _ _ _ _) = True"
| "committing (EvRename _ _ _ _) = True"
| "committing _ = False"

text \<open>The precondition of a header was checked by the last events, on the destination itself.\<close>

definition vouched :: "WriteHeader \<Rightarrow> 'd \<Rightarrow> string \<Rightarrow> ('d, 'f) fs_event list \<Rightarrow> bool" where
  "vouched header d name h \<longleftrightarrow> (case wh_Precondition header of
     PreconditionUnspecified \<Rightarrow> False
   | PreconditionAny \<Rightarrow> (\<exists>h' r. h = h' @ [EvLookup d name r] \<and> (r = Absent \<or> (\<exists>i. r = Present i \<and> \<not> notRegular i)))
   | MustNotExist \<Rightarrow> (\<exists>h'. h = h' @ [EvLookup d name Absent])
   | MatchVersion \<Rightarrow> (\<exists>h' i f closed. \<not> notRegular i \<and>
       h = h' @ [EvLookup d name (Present i), EvOpenFile d name (Some f), EvHashed f (wh_ExpectedVersion header), EvCloseFile f closed]))"

lemma vouched_append: "vouched header d name es \<Longrightarrow> vouched header d name (h @ es)"
  unfolding vouched_def by (cases "wh_Precondition header") (simp_all, (metis append_assoc)+)

lemma does_lstat: "does (lstat host d name) (\<lambda>x es. es = [EvLookup d name (lookupOf host x)])"
  unfolding lstat_def by (rule does_ask) simp

lemma does_checkDestination:
  "does (checkDestination host d name) (\<lambda>x es. \<exists>r. es = [EvLookup d name r]
     \<and> (case x of Inl _ \<Rightarrow> True | Inr True \<Rightarrow> \<exists>i. r = Present i \<and> \<not> notRegular i | Inr False \<Rightarrow> r = Absent))"
  unfolding checkDestination_def
  by (rule does_ifErr [OF does_lstat]) (auto simp: lookupOf_def)

lemma does_closeFile: "does (closeFile host f) (\<lambda>x es. es = [EvCloseFile f (x = None)])"
  unfolding closeFile_def by (rule does_ask) simp

lemma does_note_event: "does (note_event e :: ('w, 'd, 'f, 'k, unit) fs_ctl) (\<lambda>_ es. es = [e])"
proof (rule doesI)
  fix s :: "('w, 'd, 'f, 'k) fs_state"
  have "after s [e] (s\<lparr>lw_log := lw_log s @ [e]\<rparr>)" by (auto simp: after_def intro!: exI [of _ "lw_world s"])
  then show "wp (note_event e) (\<lambda>_ s'. \<exists>es. after s es s' \<and> es = [e]) s" by (simp add: wp_note_event)
qed

lemma does_matchVersion:
  "does (matchVersion host d name expected) (\<lambda>x es. list_all inspecting es
     \<and> (x = Inr () \<longrightarrow> (\<exists>f closed. es = [EvOpenFile d name (Some f), EvHashed f expected, EvCloseFile f closed])))"
proof -
  have hash: "does (bindE (hashFile host ''hash write destination'' f) (\<lambda>version. do {
            _ \<leftarrow> note_event (EvHashed f version);
            (if version \<noteq> expected then throwError (fails FailedPrecondition ''write destination version changed'') else returnOk ())
          })) (\<lambda>x es. (\<exists>version. es = [] \<or> es = [EvHashed f version]) \<and> (x = Inr () \<longrightarrow> es = [EvHashed f expected]))" for f
    by (rule does_bindE [OF silent_hashFile]) (auto intro!: does_bind [OF does_note_event])
  have "does (deferring (closeFile host f) (bindE (hashFile host ''hash write destination'' f) (\<lambda>version. do {
            _ \<leftarrow> note_event (EvHashed f version);
            (if version \<noteq> expected then throwError (fails FailedPrecondition ''write destination version changed'') else returnOk ())
          }))) (\<lambda>x es. list_all inspecting es \<and> (x = Inr () \<longrightarrow> (\<exists>closed. es = [EvHashed f expected, EvCloseFile f closed])))" for f
    by (rule does_deferring [OF hash]) (rule does_mono [OF does_closeFile], auto)
  note rest = this
  show ?thesis
    unfolding matchVersion_def
  proof (rule does_bindE [where R = "\<lambda>x es. es = [EvOpenFile d name (case x of Inl _ \<Rightarrow> None | Inr f \<Rightarrow> Some f)]"])
    show "does (orFilesystemError host ''open write destination''
             (ask (fs_Open host d name) (\<lambda>x. [EvOpenFile d name (case x of Inl _ \<Rightarrow> None | Inr f \<Rightarrow> Some f)])))
       (\<lambda>x es. es = [EvOpenFile d name (case x of Inl _ \<Rightarrow> None | Inr f \<Rightarrow> Some f)])"
      by (rule does_orFilesystemError [OF does_ask [where R = "\<lambda>x es. es = [EvOpenFile d name (case x of Inl _ \<Rightarrow> None | Inr f \<Rightarrow> Some f)]"]]) auto
  qed (auto intro!: does_mono [OF rest])
qed

lemma does_checkWritePrecondition:
  "does (checkWritePrecondition host d name header) (\<lambda>x es. list_all inspecting es \<and> (x = Inr () \<longrightarrow> vouched header d name es))"
  unfolding checkWritePrecondition_def
proof (rule does_bindE [OF does_checkDestination], goal_cases)
  case (2 present es)
  then obtain r where r: "es = [EvLookup d name r]" "if present then \<exists>i. r = Present i \<and> \<not> notRegular i else r = Absent"
    by (auto split: bool.splits)
  show ?case
  proof (cases "wh_Precondition header")
    case MatchVersion
    with r show ?thesis
      by (auto simp: vouched_def intro!: does_mono [OF does_matchVersion])
  qed (use r in \<open>auto simp: vouched_def split: if_splits\<close>)
qed auto

fun stages :: "'f \<Rightarrow> ('d, 'f) fs_event \<Rightarrow> bool" where
  "stages f (EvStage g _ _) = (g = f)"
| "stages f _ = False"

text \<open>The data of the messages, as they were staged.\<close>

definition received :: "'f \<Rightarrow> WriteRequest list \<Rightarrow> string \<Rightarrow> ('d, 'f) fs_event list \<Rightarrow> bool" where
  "received f messages bytes es \<longleftrightarrow> (\<exists>chunks. map wr_Data messages = map Some chunks \<and> bytes = concat chunks
     \<and> es = map (\<lambda>b. EvStage f b True) chunks)"

lemma received_Cons:
  "wr_Data m = Some b \<Longrightarrow> received f ms bytes es \<Longrightarrow> received f (m # ms) (b @ bytes) (EvStage f b True # es)"
  unfolding received_def by (elim exE conjE, rule_tac x = "b # chunks" in exI) simp

lemma does_recvFailed: "does (recvFailed host c message e) (\<lambda>x es. es = [] \<and> (\<exists>fail. x = Inl fail))"
  unfolding recvFailed_def by (rule does_bindE [OF silent_contextError]) auto

lemma does_receiveLoop:
  assumes "length staged \<le> fileLimit"
  shows "does (receiveLoop host chunkLimit fileLimit f ending staged messages) (\<lambda>x es. list_all (stages f) es
     \<and> (case x of Inl _ \<Rightarrow> True
        | Inr staged' \<Rightarrow> ending = RecvEOF \<and> (\<exists>bytes. staged' = staged @ bytes \<and> received f messages bytes es) \<and> length staged' \<le> fileLimit))"
  using assms
proof (induction messages arbitrary: staged)
  case Nil
  then show ?case by (auto simp: received_def intro: does_mono [OF does_recvFailed])
next
  case (Cons m ms)
  have step: "does (bindE (orFilesystemFailure host ''stage workspace file''
           (ask (fl_Write host f bytes) (\<lambda>e. [EvStage f bytes (e = None)]))) (\<lambda>_.
         receiveLoop host chunkLimit fileLimit f ending (staged @ bytes) ms)) (\<lambda>x es. list_all (stages f) es
     \<and> (case x of Inl _ \<Rightarrow> True
        | Inr staged' \<Rightarrow> ending = RecvEOF \<and> (\<exists>bytes. staged' = staged @ bytes \<and> received f (m # ms) bytes es) \<and> length staged' \<le> fileLimit))"
    if "wr_Data m = Some bytes" "length (staged @ bytes) \<le> fileLimit" for bytes
  proof (rule does_bindE [where R = "\<lambda>x es. es = [EvStage f bytes (x = Inr ())]"], goal_cases)
    case 1
    show ?case by (rule does_orFilesystemFailure [OF does_ask [where R = "\<lambda>x es. es = [EvStage f bytes (x = None)]"]]) auto
  next
    case (3 x es)
    then show ?case
      using that by (intro does_mono [OF Cons.IH [OF that(2)]]) (auto split: sum.splits dest: received_Cons [OF that(1)])
  qed simp
  show ?case
    unfolding receiveLoop.simps
    by (rule does_after_silent [OF silent_contextError]) (use Cons.prems in \<open>auto split: option.split intro: step\<close>)
qed

lemma does_commitStaged:
  "does (commitStaged host d n m header) (\<lambda>x es.
     es = [if wh_Precondition header = MustNotExist then EvLink d n m (x = Inr ()) else EvRename d n m (x = Inr ())])"
proof (cases "wh_Precondition header = MustNotExist")
  case True
  then show ?thesis
    unfolding commitStaged_def
    by (simp, intro does_bind [OF does_ask [where R = "\<lambda>x es. es = [EvLink d n m (x = None)]"]]) (auto split: option.split)
next
  case False
  then show ?thesis
    unfolding commitStaged_def
    by (simp, intro does_orFilesystemFailure [OF does_ask [where R = "\<lambda>x es. es = [EvRename d n m (x = None)]"]]) auto
qed

text \<open>
  A committed write: the chunks received, staged in order, flushed and closed, the check of the precondition and then the commit.
  A write that failed did a part of it, in the same order.
\<close>

definition committed ::
  "('w, 'd, 'f, 'k) fs_host \<Rightarrow> WriteHeader \<Rightarrow> 'd \<Rightarrow> string \<Rightarrow> 'f \<Rightarrow> string \<Rightarrow> WriteRequest list \<Rightarrow> string \<Rightarrow> bool \<Rightarrow> ('d, 'f) fs_event list \<Rightarrow> bool" where
  "committed host header d destination f stagedName messages bytes ok es \<longleftrightarrow>
     (\<exists>es1 es2. es = es1 @ [EvSync f True, EvCloseFile f True] @ es2
        @ [if wh_Precondition header = MustNotExist then EvLink d stagedName destination ok else EvRename d stagedName destination ok]
        \<and> received f messages bytes es1 \<and> list_all inspecting es2 \<and> vouched header d destination es2)"

definition uncommitted :: "'f \<Rightarrow> ('d, 'f) fs_event list \<Rightarrow> bool" where
  "uncommitted f es \<longleftrightarrow> list_all (\<lambda>e. stages f e \<or> inspecting e) es"

definition wrote ::
  "('w, 'd, 'f, 'k) fs_host \<Rightarrow> FilesystemServer \<Rightarrow> WriteHeader \<Rightarrow> 'd \<Rightarrow> string \<Rightarrow> 'f \<Rightarrow> string \<Rightarrow> WriteRequest list \<Rightarrow> recv_error
     \<Rightarrow> fs_fail + nat \<times> string \<Rightarrow> ('d, 'f) fs_event list \<Rightarrow> bool" where
  "wrote host v header d destination f stagedName messages ending x es \<longleftrightarrow> (case x of
     Inl _ \<Rightarrow> uncommitted f es \<or> (\<exists>bytes ok. committed host header d destination f stagedName messages bytes ok es)
   | Inr (n, version) \<Rightarrow> \<exists>bytes. committed host header d destination f stagedName messages bytes True es
       \<and> ending = RecvEOF \<and> n = length bytes \<and> version = hex_encode (fs_Sha256 host bytes)
       \<and> n \<le> (if fv_MaxWriteBytes v = 0 then defaultMaxWriteBytes else fv_MaxWriteBytes v))"

lemma wrote_uncommitted: "uncommitted f es \<Longrightarrow> wrote host v header d destination f stagedName messages ending (Inl e) es"
  by (simp add: wrote_def)

lemma received_uncommitted: "received f messages bytes es \<Longrightarrow> uncommitted f es"
  by (auto simp: received_def uncommitted_def list_all_iff)

lemma uncommitted_append [simp]: "uncommitted f (es @ es') \<longleftrightarrow> uncommitted f es \<and> uncommitted f es'"
  by (simp add: uncommitted_def)

lemma inspecting_uncommitted: "list_all inspecting es \<Longrightarrow> uncommitted f es"
  by (simp add: uncommitted_def list_all_iff)

lemma does_commit:
  assumes "received f messages bytes es1" "list_all inspecting es2" "vouched header d destination es2" "ending = RecvEOF"
    and "length bytes \<le> (if fv_MaxWriteBytes v = 0 then defaultMaxWriteBytes else fv_MaxWriteBytes v)"
  shows "does (bindE (commitStaged host d stagedName destination header) (\<lambda>_. returnOk (length bytes, hex_encode (fs_Sha256 host bytes))))
     (\<lambda>x es. wrote host v header d destination f stagedName messages ending x ((es1 @ [EvSync f True, EvCloseFile f True] @ es2) @ es))"
proof (rule does_bindE [OF does_commitStaged], goal_cases)
  case (1 e es)
  have "committed host header d destination f stagedName messages bytes False ((es1 @ [EvSync f True, EvCloseFile f True] @ es2) @ es)"
    unfolding committed_def using assms 1 by (intro exI [of _ es1] exI [of _ es2]) simp
  then show ?case by (auto simp: wrote_def)
next
  case (2 u es)
  have "committed host header d destination f stagedName messages bytes True ((es1 @ [EvSync f True, EvCloseFile f True] @ es2) @ es)"
    unfolding committed_def using assms 2 by (intro exI [of _ es1] exI [of _ es2]) simp
  then show ?case unfolding does_ret wrote_def using assms(4,5) by auto
qed

lemma does_sync:
  "does (orFilesystemFailure host operation (ask (fl_Sync host f) (\<lambda>e. [EvSync f (e = None)]))) (\<lambda>x es. es = [EvSync f (x = Inr ())])"
  by (rule does_orFilesystemFailure [OF does_ask [where R = "\<lambda>x es. es = [EvSync f (x = None)]"]]) auto

lemma does_closeStaged:
  "does (orFilesystemFailure host operation (closeFile host f)) (\<lambda>x es. es = [EvCloseFile f (x = Inr ())])"
  by (rule does_orFilesystemFailure [OF does_closeFile]) auto

lemma does_writeStaged:
  "does (writeStaged host v header d destination f stagedName messages ending)
     (wrote host v header d destination f stagedName messages ending)"
  unfolding writeStaged_def Let_def
proof (rule does_bindE [OF does_receiveLoop], goal_cases)
  case (2 e es)
  then show ?case by (intro wrote_uncommitted) (auto simp: uncommitted_def list_all_iff)
next
  case (3 bytes es1)
  then have got: "received f messages bytes es1" "ending = RecvEOF"
    "length bytes \<le> (if fv_MaxWriteBytes v = 0 then defaultMaxWriteBytes else fv_MaxWriteBytes v)" by auto
  note u = received_uncommitted [OF got(1)]
  have fail: "wrote host v header d destination f stagedName messages ending (Inl e) (es1 @ es)" if "list_all inspecting es" for e es
    using u inspecting_uncommitted [OF that] by (intro wrote_uncommitted) simp
  have check: "does (bindE (checkWritePrecondition host d destination header) (\<lambda>_.
      bindE (commitStaged host d stagedName destination header) (\<lambda>_.
        returnOk (length bytes, hex_encode (fs_Sha256 host bytes)))))
      (\<lambda>x es. wrote host v header d destination f stagedName messages ending x ((es1 @ [EvSync f True, EvCloseFile f True]) @ es))"
    by (rule does_bindE [OF does_checkWritePrecondition])
      (use fail [of "EvSync f True # EvCloseFile f True # _"] does_commit [OF got(1) _ _ got(2,3)] in \<open>auto\<close>)
  have close: "does (bindE (orFilesystemFailure host ''close staging file'' (closeFile host f)) (\<lambda>_.
      bindE (contextError host) (\<lambda>_.
      bindE (checkWritePrecondition host d destination header) (\<lambda>_.
      bindE (commitStaged host d stagedName destination header) (\<lambda>_.
        returnOk (length bytes, hex_encode (fs_Sha256 host bytes)))))))
      (\<lambda>x es. wrote host v header d destination f stagedName messages ending x ((es1 @ [EvSync f True]) @ es))"
    by (rule does_bindE [OF does_closeStaged])
      (use fail [of "[EvSync f True, EvCloseFile f False]"] fail [of "[EvSync f True, EvCloseFile f True]"] check
       in \<open>auto intro!: does_after_silent [OF silent_contextError]\<close>)
  show ?case
    by (rule does_after_silent [OF silent_contextError], use fail [of "[]"] in simp, rule does_bindE [OF does_sync])
      (use fail [of "[EvSync f False]"] close in auto)
qed simp

section \<open>The trace of a write\<close>

definition stagingName :: "string \<Rightarrow> bool" where
  "stagingName n \<longleftrightarrow> has_prefix n ''.sandboxd-write-''"

text \<open>
  What a write does to the workspace, in order: it makes and opens the directory, looks the destination up, creates a staging file
  under a fresh reserved name, stages and perhaps commits, and cleans up whatever happened. An attempt that failed early did a
  prefix of it and closed what it had opened.
\<close>

definition writeTrace ::
  "('w, 'd, 'f, 'k) fs_host \<Rightarrow> FilesystemServer \<Rightarrow> 'd \<Rightarrow> string \<Rightarrow> WriteHeader \<Rightarrow> WriteRequest list \<Rightarrow> recv_error
     \<Rightarrow> fs_fail + nat \<times> string \<Rightarrow> ('d, 'f) fs_event list \<Rightarrow> bool" where
  "writeTrace host v root logical header messages ending x es \<longleftrightarrow>
     (\<exists>e. x = Inl e \<and> es = [EvMkdirAll root (pathDir logical) False])
     \<or> (\<exists>e. x = Inl e \<and> es = [EvMkdirAll root (pathDir logical) True, EvOpenDir root (pathDir logical) None])
     \<or> (\<exists>d r tries. es = [EvMkdirAll root (pathDir logical) True, EvOpenDir root (pathDir logical) (Some d), EvLookup d (pathBase logical) r]
            @ map (\<lambda>n. EvStagingCreate d n None) tries @ [EvCloseDir d]
          \<and> list_all stagingName tries \<and> (\<exists>e. x = Inl e))
     \<or> (\<exists>d r tries f n body closed. es = [EvMkdirAll root (pathDir logical) True, EvOpenDir root (pathDir logical) (Some d), EvLookup d (pathBase logical) r]
            @ map (\<lambda>n. EvStagingCreate d n None) tries @ [EvStagingCreate d n (Some f)] @ body
            @ [EvCloseFile f closed, EvRemove d n, EvCloseDir d]
          \<and> list_all stagingName tries \<and> stagingName n \<and> (r = Absent \<or> (\<exists>i. r = Present i \<and> \<not> notRegular i))
          \<and> wrote host v header d (pathBase logical) f n messages ending x body)"

lemma does_stagingLoop:
  "does (stagingLoop host d attempts) (\<lambda>x es. \<exists>tries. list_all stagingName tries \<and> (case x of
     Inl _ \<Rightarrow> es = map (\<lambda>n. EvStagingCreate d n None) tries
   | Inr (f, n) \<Rightarrow> stagingName n \<and> es = map (\<lambda>n. EvStagingCreate d n None) tries @ [EvStagingCreate d n (Some f)]))"
proof (induction attempts)
  case 0
  show ?case by (auto intro: exI [of _ "[]"])
next
  case (Suc attempts)
  have name: "stagingName (''.sandboxd-write-'' @ r)" for r by (simp add: stagingName_def has_prefix_def)
  have tried: "does (ifErr (ask (fs_CreateExclusive host d n) (\<lambda>x. [EvStagingCreate d n (case x of Inl _ \<Rightarrow> None | Inr f \<Rightarrow> Some f)]))
         (\<lambda>k. if er_Exist host k then stagingLoop host d attempts
              else throwError (Failed (filesystemError host ''create staging file'' k)))
         (\<lambda>f. returnOk (f, n))) (\<lambda>x es. \<exists>tries. list_all stagingName tries \<and> (case x of
     Inl _ \<Rightarrow> es = map (\<lambda>n. EvStagingCreate d n None) tries
   | Inr (f, n) \<Rightarrow> stagingName n \<and> es = map (\<lambda>n. EvStagingCreate d n None) tries @ [EvStagingCreate d n (Some f)]))"
    if n: "stagingName n" for n
  proof (rule does_ifErr [OF does_ask [where R = "\<lambda>x es. es = [EvStagingCreate d n (case x of Inl _ \<Rightarrow> None | Inr f \<Rightarrow> Some f)]"]], goal_cases)
    case (2 k es)
    show ?case
    proof (cases "er_Exist host k")
      case True
      show ?thesis
        using True 2 n
        by (simp, intro does_mono [OF Suc.IH]) (auto split: sum.splits intro: exI [of _ "n # _"])
    qed (use 2 n in \<open>auto intro!: exI [of _ "[n]"]\<close>)
  qed (use n in \<open>auto intro: exI [of _ "[]"]\<close>)
  show ?case
    unfolding stagingLoop.simps Let_def
    by (rule does_ifErr_silent [OF does_ask]) (simp, force, rule tried [OF name])
qed

lemma does_prepareWriteDirectory:
  "does (prepareWriteDirectory host root logical) (\<lambda>x es. case x of
     Inl _ \<Rightarrow> es = [EvMkdirAll root (pathDir logical) False]
       \<or> es = [EvMkdirAll root (pathDir logical) True, EvOpenDir root (pathDir logical) None]
   | Inr (d, n) \<Rightarrow> n = pathBase logical
       \<and> es = [EvMkdirAll root (pathDir logical) True, EvOpenDir root (pathDir logical) (Some d)])"
proof -
  let ?p = "pathDir logical"
  have mk: "does (orFilesystemFailure host ''create workspace directory''
      (ask (fs_MkdirAll host root ?p) (\<lambda>e. [EvMkdirAll root ?p (e = None)]))) (\<lambda>x es. es = [EvMkdirAll root ?p (x = Inr ())])"
    by (rule does_orFilesystemFailure [OF does_ask [where R = "\<lambda>x es. es = [EvMkdirAll root ?p (x = None)]"]]) auto
  have op: "does (orFilesystemError host ''open workspace directory''
      (ask (fs_OpenRoot host root ?p) (\<lambda>x. [EvOpenDir root ?p (case x of Inl _ \<Rightarrow> None | Inr d \<Rightarrow> Some d)])))
      (\<lambda>x es. es = [EvOpenDir root ?p (case x of Inl _ \<Rightarrow> None | Inr d \<Rightarrow> Some d)])"
    by (rule does_orFilesystemError [OF does_ask [where R = "\<lambda>x es. es = [EvOpenDir root ?p (case x of Inl _ \<Rightarrow> None | Inr d \<Rightarrow> Some d)]"]]) auto
  show ?thesis
    unfolding prepareWriteDirectory_def Let_def
    by (rule does_bindE [OF mk]) (auto intro!: does_bindE [OF op])
qed

lemma does_closeDir: "does (closeDir host d) (\<lambda>_ es. es = [EvCloseDir d])"
  unfolding closeDir_def by (rule does_ask) simp

text \<open>With the staging file created: stage, close, remove.\<close>

lemma does_staged:
  "does (deferring (ask (fs_Remove host d n) (\<lambda>_. [EvRemove d n])) (deferring (closeFile host f)
      (writeStaged host v header d destination f n messages ending)))
     (\<lambda>x es. \<exists>body closed. es = body @ [EvCloseFile f closed, EvRemove d n] \<and> wrote host v header d destination f n messages ending x body)"
proof (rule does_deferring)
  show "does (deferring (closeFile host f) (writeStaged host v header d destination f n messages ending))
     (\<lambda>x es. \<exists>body closed. es = body @ [EvCloseFile f closed] \<and> wrote host v header d destination f n messages ending x body)"
    by (rule does_deferring [OF does_writeStaged]) (rule does_mono [OF does_closeFile], blast)
qed (rule does_ask, auto)

lemma does_writeOpened:
  "does (writeOpened host v root logical header messages ending) (writeTrace host v root logical header messages ending)"
  unfolding writeOpened_def
proof (rule does_bindE [OF does_prepareWriteDirectory], goal_cases)
  case (1 e es)
  then show ?case by (auto simp: writeTrace_def)
next
  case (2 a es0)
  obtain d where a: "a = (d, pathBase logical)"
    and es0: "es0 = [EvMkdirAll root (pathDir logical) True, EvOpenDir root (pathDir logical) (Some d)]"
    using 2 by (cases a) auto
  define T where "T x es \<longleftrightarrow> writeTrace host v root logical header messages ending x (es0 @ es @ [EvCloseDir d])" for x es
  have early: "T (Inl e) (EvLookup d (pathBase logical) r # map (\<lambda>n. EvStagingCreate d n None) tries)" if "list_all stagingName tries" for e r tries
    unfolding T_def writeTrace_def es0 using that by auto
  have full: "T x (EvLookup d (pathBase logical) r # map (\<lambda>n. EvStagingCreate d n None) tries @ [EvStagingCreate d n (Some f)] @ body @ [EvCloseFile f closed, EvRemove d n])"
    if "list_all stagingName tries" "stagingName n" "r = Absent \<or> (\<exists>i. r = Present i \<and> \<not> notRegular i)"
      "wrote host v header d (pathBase logical) f n messages ending x body" for x r tries n f body closed
    unfolding T_def writeTrace_def es0 using that by (intro disjI2) (rule exI [of _ d], rule exI [of _ r], rule exI [of _ tries], rule exI [of _ f], rule exI [of _ n],
        rule exI [of _ body], rule exI [of _ closed], simp)
  have open_staging: "does (bindE (checkDestination host d (pathBase logical)) (\<lambda>_. createStagingFile host d))
    (\<lambda>x es. \<exists>r tries. list_all stagingName tries \<and> (case x of
       Inl _ \<Rightarrow> es = EvLookup d (pathBase logical) r # map (\<lambda>n. EvStagingCreate d n None) tries
     | Inr (f, n) \<Rightarrow> stagingName n \<and> (r = Absent \<or> (\<exists>i. r = Present i \<and> \<not> notRegular i))
         \<and> es = EvLookup d (pathBase logical) r # map (\<lambda>n. EvStagingCreate d n None) tries @ [EvStagingCreate d n (Some f)]))"
    unfolding createStagingFile_def
  proof (rule does_bindE [OF does_checkDestination], goal_cases)
    case (1 e es)
    then show ?case by (auto intro: exI [of _ "[]"])
  next
    case (2 present es)
    then obtain r where "es = [EvLookup d (pathBase logical) r]" "r = Absent \<or> (\<exists>i. r = Present i \<and> \<not> notRegular i)"
      by (auto split: bool.splits)
    then show ?case by (intro does_mono [OF does_stagingLoop]) (auto split: sum.splits, blast+)
  qed
  have "does (bindE (bindE (checkDestination host d (pathBase logical)) (\<lambda>_. createStagingFile host d)) (\<lambda>(f, stagedName).
            deferring (ask (fs_Remove host d stagedName) (\<lambda>_. [EvRemove d stagedName]))
              (deferring (closeFile host f)
                (writeStaged host v header d (pathBase logical) f stagedName messages ending)))) T"
  proof (rule does_bindE [OF open_staging], goal_cases)
    case (1 e es)
    then show ?case using early by auto
  next
    case (2 a es)
    then obtain f n r tries where "a = (f, n)" "list_all stagingName tries" "stagingName n" "r = Absent \<or> (\<exists>i. r = Present i \<and> \<not> notRegular i)"
      "es = EvLookup d (pathBase logical) r # map (\<lambda>n. EvStagingCreate d n None) tries @ [EvStagingCreate d n (Some f)]"
      by (cases a) auto
    with full show ?case by (auto intro!: does_mono [OF does_staged])
  qed
  then show ?case
    unfolding a prod.case by (rule does_deferring) (rule does_mono [OF does_closeDir], simp add: T_def)
qed

lemma does_writeStream:
  "does (writeStream host v root messages ending) (\<lambda>x es. (es = [] \<and> (\<exists>e. x = Inl e))
     \<or> (\<exists>m rest header logical. messages = m # rest \<and> wr_Header m = Some header \<and> normalizeWorkspacePath (wh_Path header) False = Inr logical
          \<and> validateWriteHeader header = None \<and> writeTrace host v root logical header rest ending x es))"
  unfolding writeStream_def
  by (auto split: list.split option.split sum.split intro: does_mono [OF does_recvFailed] does_mono [OF does_writeOpened])

lemma silent_openWorkspace: "silent (openWorkspace host v)"
  unfolding openWorkspace_def
  by (intro does_after_silent does_mapErr [OF does_ask, where R' = "\<lambda>_ es. es = []"] does_bind [OF does_ask [where R = "\<lambda>_ es. es = []"]])
    (auto intro!: does_bind [OF does_ask [where R = "\<lambda>_ es. es = []"]])

lemma initialized_wp:
  "wp (initialized host v) (\<lambda>x s'. lw_log s' = lw_log s \<and> fs_active s' = fs_active s \<and> fs_slots s' = fs_slots s
     \<and> fs_closing s' = fs_closing s \<and> (\<forall>rc. x = Inr rc \<longrightarrow> fs_init s' = Some (Inr rc))) s"
proof (cases "fs_init s")
  case None
  obtain r s1 where run: "run_state (openWorkspace host v) s = (r, s1)" by force
  from doesD [OF silent_openWorkspace run] have "\<exists>w. s1 = s\<lparr>lw_world := w\<rparr>" by (auto simp: after_def)
  with None run show ?thesis
    by (auto simp: initialized_def initialize_def wp_simps wp_def [of "openWorkspace host v"] split: sum.split)
next
  case (Some r)
  then show ?thesis by (auto simp: initialized_def initialize_def wp_simps split: sum.split)
qed

definition atMostTrace ::
  "('w, 'd, 'f, 'k) fs_host \<Rightarrow> FilesystemServer \<Rightarrow> WriteRequest list \<Rightarrow> recv_error \<Rightarrow> ('w, 'd, 'f, 'k) fs_state
     \<Rightarrow> fs_fail + nat \<times> string \<Rightarrow> ('w, 'd, 'f, 'k) fs_state \<Rightarrow> bool" where
  "atMostTrace host v messages ending s x s' \<longleftrightarrow> (\<exists>es. lw_log s' = lw_log s @ es \<and> fs_active s' = fs_active s \<and> fs_slots s' = fs_slots s
     \<and> fs_closing s' = fs_closing s
     \<and> ((es = [] \<and> (\<exists>e. x = Inl e))
        \<or> (\<exists>root capacity m rest header logical. \<not> fs_closing s \<and> fs_init s' = Some (Inr (root, capacity)) \<and> int (fs_slots s) < capacity
             \<and> messages = m # rest \<and> wr_Header m = Some header \<and> normalizeWorkspacePath (wh_Path header) False = Inr logical
             \<and> validateWriteHeader header = None \<and> writeTrace host v root logical header rest ending x es)))"

lemma Write_wp: "wp (Write host v messages ending) (atMostTrace host v messages ending s) s"
  unfolding Write_def wp_bindE
proof (rule wp_mono [OF initialized_wp], goal_cases)
  case (1 x s1)
  show ?case
  proof (cases x)
    case (Inl e)
    with 1 show ?thesis by (auto simp: atMostTrace_def)
  next
    case (Inr rc)
    obtain root capacity where rc: "rc = (root, capacity)" by force
    show ?thesis
    proof (cases "fs_closing s \<or> \<not> int (fs_slots s) < capacity")
      case True
      with 1 Inr rc show ?thesis
        by (auto simp: beginWrite_def takingSlot_def deferring_def wp_simps atMostTrace_def)
    next
      case False
      let ?s = "s1\<lparr>fs_active := fs_active s1 + 1, fs_slots := fs_slots s1 + 1\<rparr>"
      obtain y s2 where run: "run_state (writeStream host v root messages ending) ?s = (y, s2)" by force
      from doesD [OF does_writeStream run] obtain es where es: "after ?s es s2"
        "(es = [] \<and> (\<exists>e. y = Inl e)) \<or> (\<exists>m rest header logical. messages = m # rest \<and> wr_Header m = Some header
            \<and> normalizeWorkspacePath (wh_Path header) False = Inr logical
            \<and> validateWriteHeader header = None \<and> writeTrace host v root logical header rest ending y es)" by blast
      from es(1) obtain w where s2: "s2 = ?s\<lparr>lw_world := w, lw_log := lw_log s1 @ es\<rparr>" by (auto simp: after_def)
      have "atMostTrace host v messages ending s y (s2\<lparr>fs_slots := fs_slots s2 - 1, fs_active := fs_active s2 - 1\<rparr>)"
        unfolding atMostTrace_def using 1 Inr rc False es(2) by (intro exI [of _ es]) (auto simp: s2)
      with 1 Inr rc False run show ?thesis
        by (simp add: beginWrite_def takingSlot_def deferring_def wp_simps wp_def [of "writeStream host v root messages ending"])
    qed
  qed
qed

text \<open>(C19) A write commits whole files only. Whatever the host answers and however the stream ends, a write either touches nothing
  or follows \<open>writeTrace\<close> in the directory of its accepted path: the destination is changed only by one link or rename from the
  staging file, after all received bytes were staged in order, flushed and closed, and directly after the precondition was
  checked on the destination; the staging name is reserved and always removed, every handle is closed. It reports success
  exactly for a committed file with its size, within the limit, and its digest. Slots and active writes are given back,
  and nothing is touched while the server shuts down or all slots are taken.\<close>

theorem write_commits_whole_files:
  "atMostTrace host v messages ending s (fst (run_state (Write host v messages ending) s)) (snd (run_state (Write host v messages ending) s))"
  using Write_wp [of host v messages ending s] by (simp add: wp_run)

section \<open>Listings end\<close>

text \<open>What \<open>Readdirnames\<close> documents: asked for at least one name it returns one, or an error.\<close>

definition readdirProgress :: "('w, 'd, 'f, 'k) fs_host \<Rightarrow> bool" where
  "readdirProgress host \<longleftrightarrow> (\<forall>f n w names e w'. 0 < n \<longrightarrow> run_state (fl_Readdirnames host f n) w = ((names, e), w') \<longrightarrow> names = [] \<longrightarrow> e \<noteq> None)"

lemma contextError_wp: "wp (contextError host) (\<lambda>x _. x \<noteq> Inl Diverges) s"
  by (auto simp: contextError_def wp_simps split: prod.split option.split)

lemma wp_bindE_ends:
  assumes "wp m (\<lambda>x _. x \<noteq> Inl Diverges) s" "\<And>x s'. wp (f x) (\<lambda>x _. x \<noteq> Inl Diverges) s'"
  shows "wp (bindE m f) (\<lambda>x _. x \<noteq> Inl Diverges) s"
  unfolding wp_bindE by (rule wp_mono [OF assms(1)]) (auto split: sum.split intro: assms(2))

lemma mapErr_ends:
  assumes "\<And>e. h e \<noteq> Diverges"
  shows "wp (mapErr h m) (\<lambda>x _. x \<noteq> Inl Diverges) s"
  unfolding wp_mapErr by (rule wp_mono [of _ "\<lambda>_ _. True"]) (auto simp: wp_def assms split: sum.split prod.split)

lemma skipEntries_ends:
  assumes "readdirProgress host" "remaining \<le> turns"
  shows "wp (skipEntries host f turns remaining) (\<lambda>x _. x \<noteq> Inl Diverges) s"
  using assms(2)
proof (induction turns arbitrary: remaining s)
  case 0
  then show ?case by (simp add: wp_return)
next
  case (Suc turns)
  have step: "wp (skipEntries host f turns (remaining - length names)) (\<lambda>x _. x \<noteq> Inl Diverges) s'"
    if "names \<noteq> []" for names :: "string list" and s'
    using that Suc.prems by (intro Suc.IH) (cases names, auto)
  have empty: "wp (skipEntries host f turns 0) (\<lambda>x _. x \<noteq> Inl Diverges) s'" for s'
    by (simp add: wp_return)
  have nonempty: "names \<noteq> []"
    if "run_state (fl_Readdirnames host f n) w = ((names, None), w')" "0 < n" for n w names w'
    using assms(1) that unfolding readdirProgress_def by blast
  show ?case
  proof (cases "remaining = 0")
    case False
    have "wp (do {
            (names, e) \<leftarrow> calls (fl_Readdirnames host f (min remaining defaultPageSize));
            let left = remaining - length names in
            (case e of
               Some ReadEOF \<Rightarrow>
                 if 0 < left then throwError (fails InvalidArgument ''page token is past the end of the directory'')
                 else skipEntries host f turns left
             | Some (ReadError k) \<Rightarrow> throwError (Failed (filesystemError host ''scan workspace directory'' k))
             | None \<Rightarrow> skipEntries host f turns left)
          }) (\<lambda>x _. x \<noteq> Inl Diverges) s'" for s'
      using False nonempty [of "min remaining defaultPageSize"]
      by (auto simp: wp_bind wp_ask wp_return Let_def split: prod.split option.split read_error.split intro: step empty)
    then show ?thesis
      using False by (subst skipEntries.simps) (auto intro: wp_bindE_ends contextError_wp)
  qed (simp add: wp_return)
qed

lemma collectEntries_ends: "wp (collectEntries host infos entries) (\<lambda>x _. x \<noteq> Inl Diverges) s"
  by (induction infos arbitrary: entries s) (auto simp: wp_return intro: wp_bindE_ends contextError_wp)

lemma orFilesystemError_ends: "wp (orFilesystemError host operation m) (\<lambda>x _. x \<noteq> Inl Diverges) s"
  unfolding orFilesystemError_def by (rule mapErr_ends) simp

lemma listOpened_ends:
  assumes "readdirProgress host"
  shows "wp (listOpened host logical pageSize offset f) (\<lambda>x _. x \<noteq> Inl Diverges) s"
  unfolding listOpened_def
  by (rule wp_bindE_ends [OF skipEntries_ends [OF assms order_refl]])
    (auto simp: wp_bind wp_ask wp_return Let_def split: prod.split option.split read_error.split
      intro!: wp_bindE_ends collectEntries_ends)

text \<open>Every listing ends: with the documented progress of \<open>Readdirnames\<close>, whatever page token is presented and whatever the directory
  holds, skipping the earlier pages takes no more turns than the offset, and \<open>List\<close> answers a page or an error.\<close>

theorem list_terminates:
  assumes "readdirProgress host"
  shows "fst (run_state (List host v req) s) \<noteq> Inl Diverges"
proof -
  have "wp (initialized host v) (\<lambda>x _. x \<noteq> Inl Diverges) s"
    unfolding initialized_def by (rule mapErr_ends) simp
  then have "wp (List host v req) (\<lambda>x _. x \<noteq> Inl Diverges) s"
    unfolding List_def
    by (rule wp_bindE_ends)
      (auto simp: Let_def wp_return wp_case_prod deferring_def wp_bind wp_ask split: sum.split prod.split
        intro!: wp_bindE_ends orFilesystemError_ends wp_mono [OF listOpened_ends [OF assms]])
  then show ?thesis by (simp add: wp_run)
qed

section \<open>Pages are exact\<close>

text \<open>An open directory that does not change: \<open>at\<close> is how far it has been read, and the context stays alive.\<close>

definition directoryHolds :: "('w, 'd, 'f, 'k) fs_host \<Rightarrow> 'f \<Rightarrow> FileInfo list \<Rightarrow> ('w \<Rightarrow> nat) \<Rightarrow> bool" where
  "directoryHolds host f content at \<longleftrightarrow>
     (\<forall>w n names e w'. 0 < n \<longrightarrow> run_state (fl_Readdirnames host f n) w = ((names, e), w') \<longrightarrow>
        names = map fi_Name (take n (drop (at w) content)) \<and> e = (if length content \<le> at w then Some ReadEOF else None)
        \<and> at w' = at w + length names)
     \<and> (\<forall>w n infos e w'. 0 < n \<longrightarrow> run_state (fl_Readdir host f n) w = ((infos, e), w') \<longrightarrow>
        infos = take n (drop (at w) content) \<and> e = (if length content \<le> at w then Some ReadEOF else None))
     \<and> (\<forall>w e w'. run_state (fs_Ctx host) w = (e, w') \<longrightarrow> e = None \<and> at w' = at w)"

lemma live_context:
  assumes "directoryHolds host f content at" "\<And>w. at w = at (lw_world s) \<Longrightarrow> wp (g ()) Q (s\<lparr>lw_world := w\<rparr>)"
  shows "wp (bindE (contextError host) g) Q s"
proof -
  obtain e w where run: "run_state (fs_Ctx host) (lw_world s) = (e, w)" by force
  with assms(1) have "e = None" "at w = at (lw_world s)" unfolding directoryHolds_def by blast+
  with run assms(2) show ?thesis by (simp add: contextError_def wp_simps)
qed

lemma skip_exact:
  assumes "directoryHolds host f content at" "remaining \<le> turns" "at (lw_world s) \<le> length content"
  shows "wp (skipEntries host f turns remaining) (\<lambda>x s'.
     if at (lw_world s) + remaining \<le> length content then x = Inr () \<and> at (lw_world s') = at (lw_world s) + remaining
     else x = Inl (fails InvalidArgument ''page token is past the end of the directory'')) s"
  using assms(2,3)
proof (induction turns arbitrary: remaining s)
  case 0
  then show ?case by (simp add: wp_return)
next
  case (Suc turns)
  show ?case
  proof (cases "remaining = 0")
    case False
    let ?n = "min remaining defaultPageSize"
    have n: "0 < ?n" using False by simp
    show ?thesis
      using False
    proof (subst skipEntries.simps, simp only: if_False nat.case, intro live_context [OF assms(1)], goal_cases)
      case (1 w)
      obtain names e w' where run: "run_state (fl_Readdirnames host f ?n) w = ((names, e), w')" by (metis surj_pair)
      with assms(1) n have names: "names = map fi_Name (take ?n (drop (at w) content))"
        and e: "e = (if length content \<le> at w then Some ReadEOF else None)" and at': "at w' = at w + length names"
        unfolding directoryHolds_def by blast+
      have le: "length names \<le> remaining" "at w' \<le> length content" using names at' 1 Suc.prems by auto
      have "wp (skipEntries host f turns (remaining - length names)) (\<lambda>x s'.
     if at (lw_world s) + remaining \<le> length content then x = Inr () \<and> at (lw_world s') = at (lw_world s) + remaining
     else x = Inl (fails InvalidArgument ''page token is past the end of the directory'')) (s\<lparr>lw_world := w'\<rparr>)" if "at w < length content"
      proof -
        have "0 < length names" using that names n by auto
        then have "remaining - length names \<le> turns" using Suc.prems(1) by linarith
        from Suc.IH [OF this, of "s\<lparr>lw_world := w'\<rparr>"] le at' 1 show ?thesis by (auto elim!: wp_mono)
      qed
      moreover have "at w = length content \<Longrightarrow> names = []" using names by simp
      ultimately show ?case
        using run e False 1 Suc.prems(2) by (auto simp: wp_bind wp_ask wp_return Let_def)
    qed
  qed (use Suc.prems in \<open>simp add: wp_return\<close>)
qed

lemma collect_exact:
  assumes "directoryHolds host f content at"
  shows "wp (collectEntries host infos entries) (\<lambda>x _. x = Inr (entries @ map entryOf (filter (\<lambda>i. \<not> isReservedStagingComponent (fi_Name i)) infos))) s"
proof (induction infos arbitrary: entries s)
  case (Cons i infos)
  show ?case
    using Cons.IH [of entries] Cons.IH [of "entries @ [entryOf i]"] by (auto intro!: live_context [OF assms])
qed (simp add: wp_return)


section \<open>Reads are exact\<close>

text \<open>An open regular file that does not change: \<open>at\<close> is the position, reads return some of the bytes that are left.\<close>

definition fileHolds :: "('w, 'd, 'f, 'k) fs_host \<Rightarrow> 'f \<Rightarrow> string \<Rightarrow> ('w \<Rightarrow> nat) \<Rightarrow> bool" where
  "fileHolds host f content at \<longleftrightarrow>
     (\<forall>w x w'. run_state (fl_Stat host f) w = (x, w') \<longrightarrow> (\<exists>i. x = Inr i \<and> fi_Regular i \<and> fi_Size i = int (length content)))
     \<and> (\<forall>w n e w'. run_state (fl_Seek host f n) w = (e, w') \<longrightarrow> e = None \<and> at w' = n)
     \<and> (\<forall>w n bytes e w'. 0 < n \<longrightarrow> run_state (fl_Read host f n) w = ((bytes, e), w') \<longrightarrow>
          bytes = take (length bytes) (drop (at w) content) \<and> length bytes \<le> n \<and> at w' = at w + length bytes
          \<and> (if length content \<le> at w then e = Some ReadEOF else e = None \<and> bytes \<noteq> []))
     \<and> (\<forall>w e w'. run_state (fs_Ctx host) w = (e, w') \<longrightarrow> e = None \<and> at w' = at w)"

lemma file_read:
  assumes "fileHolds host f content at" "0 < n" "run_state (fl_Read host f n) w = ((bytes, e), w')"
  shows "bytes = take (length bytes) (drop (at w) content)" "length bytes \<le> n" "at w' = at w + length bytes"
    "if length content \<le> at w then e = Some ReadEOF else e = None \<and> bytes \<noteq> []"
  using assms unfolding fileHolds_def by blast+

lemma hash_exact:
  assumes "fileHolds host f content at" "length content - at (lw_world s) < turns" "at (lw_world s) \<le> length content"
  shows "wp (hashLoop host operation f turns (take (at (lw_world s)) content)) (\<lambda>x _. x = Inr (hex_encode (fs_Sha256 host content))) s"
  using assms(2,3)
proof (induction turns arbitrary: s)
  case (Suc turns)
  obtain c w where ctx: "run_state (fs_Ctx host) (lw_world s) = (c, w)" by force
  with assms(1) have c: "c = None" "at w = at (lw_world s)" unfolding fileHolds_def by blast+
  obtain bytes e w' where run: "run_state (fl_Read host f filesystemHashChunk) w = ((bytes, e), w')" by (metis surj_pair)
  note r = file_read [OF assms(1) _ run, simplified]
  show ?case
  proof (cases "length content \<le> at w")
    case True
    with r Suc.prems c have "bytes = []" "take (at (lw_world s)) content = content" by auto
    with True r ctx c run show ?thesis by (simp add: contextError_def wp_simps)
  next
    case False
    then have grown: "take (at (lw_world s)) content @ bytes = take (at w') content"
      using r(1,3) c by (metis take_add)
    have "length bytes \<le> length content - at w" using r(1) by (metis length_drop length_take min.cobounded1)
    moreover have "0 < length bytes" using False r(4) by simp
    ultimately have "length content - at w' < turns" "at w' \<le> length content"
      using r(3) c Suc.prems by linarith+
    from Suc.IH [of "s\<lparr>lw_world := w'\<rparr>", simplified, OF this] False r ctx c run grown show ?thesis
      by (simp add: contextError_def wp_simps)
  qed
qed simp

lemma readFull_exact:
  assumes "fileHolds host f content at" "p + n \<le> length content" "n \<le> length got + turns"
    and "at (lw_world s) = p + length got" "got = take (length got) (drop p content)" "length got \<le> n"
  shows "wp (readFull host f turns n got) (\<lambda>x _. x = Inr (Some (take n (drop p content)))) s"
  using assms(3-6)
proof (induction turns arbitrary: got s)
  case 0
  then show ?case by (subst readFull.simps) (simp add: wp_return)
next
  case (Suc turns)
  show ?case
  proof (cases "n \<le> length got")
    case True
    with Suc.prems show ?thesis by (subst readFull.simps) (simp add: wp_return)
  next
    case False
    obtain bytes e w where run: "run_state (fl_Read host f (n - length got)) (lw_world s) = ((bytes, e), w)" by (metis surj_pair)
    note r = file_read [OF assms(1) _ run]
    have pos: "0 < n - length got" "\<not> length content \<le> at (lw_world s)" using False Suc.prems assms(2) by auto
    have "bytes = take (length bytes) (drop (p + length got) content)" using r(1) [OF pos(1)] Suc.prems(2) by simp
    then have grown: "got @ bytes = take (length (got @ bytes)) (drop p content)"
      by (metis Suc.prems(3) add.commute drop_drop length_append take_add)
    have len: "length (got @ bytes) \<le> n" "bytes \<noteq> []" "e = None" "at w = p + length (got @ bytes)"
      using r(2-4) [OF pos(1)] pos Suc.prems(2) by auto
    have more: "n \<le> length (got @ bytes) + turns" using len(2) Suc.prems(1) by (cases bytes) auto
    show ?thesis
    proof (cases "n \<le> length (got @ bytes)")
      case True
      then have "length (got @ bytes) = n" using len(1) by linarith
      with grown have "got @ bytes = take n (drop p content)" by metis
      moreover have "n \<le> length got + length bytes" using True by simp
      ultimately show ?thesis using False run by (subst readFull.simps) (simp add: wp_bind wp_ask wp_return)
    next
      case False': False
      have ih: "wp (readFull host f turns n (got @ bytes)) (\<lambda>x _. x = Inr (Some (take n (drop p content)))) (s\<lparr>lw_world := w\<rparr>)"
        by (rule Suc.IH [OF more _ grown len(1)]) (simp add: len(4))
      have "\<not> n \<le> length got + length bytes" using False' by simp
      then show ?thesis using ih False run len(3) by (subst readFull.simps) (simp add: wp_bind wp_ask wp_return)
    qed
  qed
qed

text \<open>Reads are exact: of a regular file that does not change, below \<open>2 ^ 63\<close> bytes, a read from an offset within it returns the bytes
  from there, as many as asked for or left, with the next offset, the size, whether the end was reached, and, if asked for, the
  digest of the whole content; an offset beyond the end is refused. The digest needs no more turns than the file has bytes, and one.\<close>

theorem read_exact:
  assumes "fileHolds host f content at" "length content < 2 ^ 63" "length content < fs_HashTurns host"
  shows "fst (run_state (readOpened host req maxBytes f) s) =
     (if length content < rd_Offset req
      then Inl (fails OutOfRange (''offset '' @ format_nat (rd_Offset req) @ '' exceeds file size '' @ format_nat (length content)))
      else let bytes = take (min maxBytes (length content - rd_Offset req)) (drop (rd_Offset req) content); next = rd_Offset req + length bytes in
        Inr \<lparr>rr_Data = bytes, rr_Offset = rd_Offset req, rr_NextOffset = next, rr_Size = length content, rr_Eof = (next = length content),
             rr_Version = (if rd_IncludeVersion req then hex_encode (fs_Sha256 host content) else [])\<rparr>)" (is "_ = ?answer")
proof -
  let ?o = "rd_Offset req" let ?n = "min maxBytes (length content - rd_Offset req)"
  have seek: "wp (bindE (orFilesystemFailure host operation (calls (fl_Seek host f k))) g) Q s1"
    if "\<And>w. at w = k \<Longrightarrow> wp (g ()) Q (s1\<lparr>lw_world := w\<rparr>)" for operation k g Q s1
  proof -
    obtain e w where run: "run_state (fl_Seek host f k) (lw_world s1) = (e, w)" by force
    with assms(1) have "e = None" "at w = k" unfolding fileHolds_def by blast+
    with run that show ?thesis by (simp add: orFilesystemFailure_def wp_simps)
  qed
  have hash: "wp (if rd_IncludeVersion req then hashFile host ''hash workspace file'' f else returnOk [])
     (\<lambda>x _. x = Inr (if rd_IncludeVersion req then hex_encode (fs_Sha256 host content) else [])) s1" for s1
  proof (cases "rd_IncludeVersion req")
    case True
    have "wp (hashLoop host ''hash workspace file'' f (fs_HashTurns host) []) (\<lambda>x _. x = Inr (hex_encode (fs_Sha256 host content))) (s1\<lparr>lw_world := w\<rparr>)"
      if "at w = 0" for w
      using hash_exact [OF assms(1), of "s1\<lparr>lw_world := w\<rparr>" "fs_HashTurns host"] that assms(3) by simp
    with True show ?thesis unfolding hashFile_def by (simp, intro seek)
  qed (simp add: wp_return)
  have chunk: "wp (readChunk host f ?n) (\<lambda>x _. x = Inr (take ?n (drop ?o content))) s1"
    if "at (lw_world s1) = ?o" "?o \<le> length content" for s1
    unfolding readChunk_def wp_ifErr
    by (rule wp_mono [OF readFull_exact [OF assms(1), of ?o ?n]]) (use that in \<open>auto simp: wp_return\<close>)
  define ver where "ver = (if rd_IncludeVersion req then hex_encode (fs_Sha256 host content) else [])"
  define full where "full = (let bytes = take ?n (drop ?o content); next = ?o + length bytes in
     \<lparr>rr_Data = bytes, rr_Offset = ?o, rr_NextOffset = next, rr_Size = length content, rr_Eof = (next = length content), rr_Version = ver\<rparr>)"
  have rest: "wp (bindE (if rd_IncludeVersion req then hashFile host ''hash workspace file'' f else returnOk []) (\<lambda>version.
         bindE (orFilesystemFailure host ''seek workspace file'' (calls (fl_Seek host f ?o))) (\<lambda>_.
         bindE (readChunk host f ?n) (\<lambda>bytes.
           let next = ?o + length bytes in
           returnOk \<lparr>rr_Data = bytes, rr_Offset = ?o, rr_NextOffset = next, rr_Size = length content, rr_Eof = (next = length content),
                     rr_Version = version\<rparr>)))) (\<lambda>x _. x = Inr full) s1" if "?o \<le> length content" for s1
    unfolding wp_bindE [of "if _ then _ else _"]
  proof (rule wp_mono [OF hash [folded ver_def]], goal_cases)
    case (1 x s2)
    have "wp (bindE (readChunk host f ?n) (\<lambda>bytes.
           let next = ?o + length bytes in
           returnOk \<lparr>rr_Data = bytes, rr_Offset = ?o, rr_NextOffset = next, rr_Size = length content, rr_Eof = (next = length content),
                     rr_Version = ver\<rparr>)) (\<lambda>x _. x = Inr full) (s2\<lparr>lw_world := w\<rparr>)" if "at w = ?o" for w
      unfolding wp_bindE
      by (rule wp_mono [OF chunk]) (use that \<open>?o \<le> length content\<close> in \<open>simp_all add: wp_return full_def Let_def\<close>)
    then show ?case unfolding 1 sum.case by (rule seek)
  qed
  have answer: "?answer = (if length content < ?o then Inl (fails OutOfRange (''offset '' @ format_nat ?o @ '' exceeds file size '' @ format_nat (length content)))
     else Inr full)" by (simp add: full_def ver_def Let_def)
  obtain x w where run: "run_state (fl_Stat host f) (lw_world s) = (x, w)" by force
  with assms(1) obtain i where i: "x = Inr i" "fi_Regular i" "fi_Size i = int (length content)" unfolding fileHolds_def by blast
  have "nat (int (length content) mod 2 ^ 64) = length content" using assms(2) by simp
  then have "wp (readOpened host req maxBytes f) (\<lambda>x _. x = ?answer) s"
    unfolding answer using run i rest by (simp add: readOpened_def orFilesystemError_def wp_bindE [of "mapErr _ _"] wp_mapErr wp_ask wp_return Let_def)
  then show ?thesis by (simp add: wp_run)
qed

section \<open>An example\<close>

text \<open>A host whose world is the position in its one file and its one directory.\<close>

definition example_info :: "string \<Rightarrow> FileInfo" where
  "example_info n = \<lparr>fi_Name = n, fi_Symlink = False, fi_Regular = True, fi_Dir = False, fi_Size = 5, fi_ModifiedMs = 0\<rparr>"

definition example_content :: string where
  "example_content = ''hello''"

definition example_directory :: "FileInfo list" where
  "example_directory = map example_info [''a'', ''.sandboxd-write-0'', ''b'']"

definition example_host :: "(nat, unit, unit, unit) fs_host" where
  "example_host =
     \<lparr>fs_Abs = returnOk, fs_OpenWorkspace = (\<lambda>_. returnOk ()), fs_OpenRoot = (\<lambda>_ _. returnOk ()), fs_CloseRoot = (\<lambda>_. ret None),
      fs_MkdirAll = (\<lambda>_ _. ret None), fs_Stat = (\<lambda>_ n. returnOk ((example_info n)\<lparr>fi_Regular := False, fi_Dir := True\<rparr>)),
      fs_Lstat = (\<lambda>_ _. throwError ()), fs_Open = (\<lambda>_ _. returnOk ()), fs_CreateExclusive = (\<lambda>_ _. returnOk ()),
      fs_Remove = (\<lambda>_ _. ret None), fs_Link = (\<lambda>_ _ _. ret None), fs_Rename = (\<lambda>_ _ _. ret None),
      fl_Stat = (\<lambda>_. returnOk (example_info ''a'')), fl_Seek = (\<lambda>_ n. State (\<lambda>_. (None, n))),
      fl_Read = (\<lambda>_ n. State (\<lambda>w. ((take n (drop w example_content), if length example_content \<le> w then Some ReadEOF else None),
        w + length (take n (drop w example_content))))),
      fl_Write = (\<lambda>_ _. ret None), fl_Sync = (\<lambda>_. ret None), fl_Close = (\<lambda>_. ret None),
      fl_Readdirnames = (\<lambda>_ n. State (\<lambda>w. ((map fi_Name (take n (drop w example_directory)),
        if length example_directory \<le> w then Some ReadEOF else None), w + length (take n (drop w example_directory))))),
      fl_Readdir = (\<lambda>_ n. State (\<lambda>w. ((take n (drop w example_directory),
        if length example_directory \<le> w then Some ReadEOF else None), w + length (take n (drop w example_directory))))),
      fs_Random = returnOk [], fs_Ctx = ret None, fs_Sha256 = (\<lambda>s. s), fs_HashTurns = 6,
      er_Status = (\<lambda>_. None), er_NotExist = (\<lambda>_. True), er_Exist = (\<lambda>_. False), er_Permission = (\<lambda>_. False),
      er_Invalid = (\<lambda>_. False), er_Chain = (\<lambda>_. [])\<rparr>"

definition example_fs_state :: "(nat, unit, unit, unit) fs_state" where
  "example_fs_state = \<lparr>lw_world = 0, lw_log = [], fs_init = Some (Inr ((), 16)), fs_closing = False, fs_active = 0, fs_slots = 0, fs_closed = None\<rparr>"

definition example_server :: FilesystemServer where
  "example_server = \<lparr>fv_Workspace = ''/w'', fv_MaxReadBytes = 0, fv_MaxPageSize = 0, fv_MaxWriteChunkBytes = 8, fv_MaxWriteBytes = 16,
     fv_MaxConcurrentWrites = 0\<rparr>"

lemma example_directory_holds: "directoryHolds example_host () example_directory (\<lambda>w. w)" "readdirProgress example_host"
  by (auto simp: directoryHolds_def readdirProgress_def example_host_def example_directory_def)

lemma example_file_holds: "fileHolds example_host () example_content (\<lambda>w. w)"
  by (auto simp: fileHolds_def example_host_def example_content_def example_info_def min_def)

theorem list_terminates_witness:
  "fst (run_state (List example_host example_server \<lparr>lr_Path = ''src'', lr_PageSize = 0, lr_PageToken = []\<rparr>) example_fs_state) \<noteq> Inl Diverges"
  by (rule list_terminates [OF example_directory_holds(2)])


theorem read_exact_witness:
  "fst (run_state (readOpened example_host \<lparr>rd_Path = ''a'', rd_Offset = 1, rd_MaxBytes = 3, rd_IncludeVersion = True\<rparr> 3 ()) example_fs_state)
     = Inr \<lparr>rr_Data = ''ell'', rr_Offset = 1, rr_NextOffset = 4, rr_Size = 5, rr_Eof = False, rr_Version = hex_encode ''hello''\<rparr>"
  using read_exact [OF example_file_holds, of "\<lparr>rd_Path = ''a'', rd_Offset = 1, rd_MaxBytes = 3, rd_IncludeVersion = True\<rparr>" 3 example_fs_state]
  by (simp add: example_content_def example_host_def Let_def)

end
