(* ===== verification/Egress_Identity.thy ===== *)
theory Egress_Identity
  imports Egress_Config Go_Monad
begin

text \<open>
  The identity of one execution at the egress proxy (\<open>src/internal/egressidentity/identity.go\<close>): the claims, their
  canonical encoding and its strict parser, and the issuing of a client certificate bound to them.

  Library code is a parameter: the JSON codec and the DNS rules in \<open>identity_lib\<close>, keys, certificates and PEM in
  \<open>crypto_lib\<close>. Go ranges over a map in no fixed order, so where several fields are invalid the code may name any of
  them; the errors here name the group.
\<close>

section \<open>Claims\<close>

abbreviation "IdentityDomain \<equiv> ''swe.dev/egress-identity/v1''"
abbreviation "ClientCertificateKey \<equiv> ''client.crt''"
abbreviation "ClientPrivateKeyKey \<equiv> ''client.key''"
abbreviation "ClientTrustKey \<equiv> ''client-trust.crt''"
abbreviation "CanonicalClaimsKey \<equiv> ''identity.json''"

definition MaxCanonicalBytes :: nat where
  "MaxCanonicalBytes = 4096"

definition MaxRevisionBytes :: nat where
  "MaxRevisionBytes = 128"

record Claims =
  ic_InstallationNamespace :: string
  ic_InstallationName :: string
  ic_InstallationUID :: string
  ic_ProjectNamespace :: string
  ic_ProjectName :: string
  ic_ProjectUID :: string
  ic_EnvironmentNamespace :: string
  ic_EnvironmentName :: string
  ic_EnvironmentUID :: string
  ic_PodName :: string
  ic_PodUID :: string
  ic_ExecutionGeneration :: int
  ic_RuntimePolicyRevision :: string
  ic_ForwarderRevision :: string
  ic_CertificateFingerprint :: string

text \<open>\<open>canonicalClaims\<close>: the domain and the same fields.\<close>

record canonicalClaims =
  cc_Domain :: string
  cc_Claims :: Claims

text \<open>\<open>il_Decode\<close> is the strict decoder: an error, or the first value with whether the input ends after it.\<close>

record identity_lib =
  il_Decode :: "string \<Rightarrow> string + canonicalClaims \<times> bool"
  il_Marshal :: "canonicalClaims \<Rightarrow> string"
  il_Label :: "string \<Rightarrow> string list"
  il_Subdomain :: "string \<Rightarrow> string list"

datatype identity_error =
  InvalidNamespace | InvalidName | MissingUIDs | InvalidUID | InvalidGeneration | InvalidRevision
| FingerprintLength | FingerprintHex | TooLarge
| InvalidSize | IdentityDecode string | TrailingContent | UnsupportedDomain | NotCanonical

definition printable :: "string \<Rightarrow> bool" where
  "printable s \<longleftrightarrow> list_all (\<lambda>c. 33 \<le> code c \<and> code c \<le> 126) s"

definition validRevision :: "string \<Rightarrow> bool" where
  "validRevision value \<longleftrightarrow> 0 < length value \<and> length value \<le> MaxRevisionBytes \<and> printable value"

text \<open>\<open>hex.DecodeString\<close>, which accepts both cases.\<close>

fun hexDecode :: "string \<Rightarrow> string option" where
  "hexDecode [] = Some []"
| "hexDecode [c] = None"
| "hexDecode (c # d # s) =
     (case (hexValue c, hexValue d, hexDecode s) of
        (Some h, Some l, Some bytes) \<Rightarrow> Some (char_of (16 * h + l) # bytes)
      | _ \<Rightarrow> None)"

definition canonical :: "identity_lib \<Rightarrow> Claims \<Rightarrow> identity_error + canonicalClaims" where
  "canonical lib c =
     (if \<not> list_all (\<lambda>v. il_Label lib v = [])
           [ic_InstallationNamespace c, ic_ProjectNamespace c, ic_EnvironmentNamespace c]
      then Inl InvalidNamespace
      else if \<not> list_all (\<lambda>v. il_Subdomain lib v = [])
           [ic_InstallationName c, ic_ProjectName c, ic_EnvironmentName c, ic_PodName c]
      then Inl InvalidName
      else if ic_InstallationUID c = [] \<or> ic_ProjectUID c = [] \<or> ic_EnvironmentUID c = [] \<or> ic_PodUID c = []
      then Inl MissingUIDs
      else if \<not> list_all (\<lambda>v. length v \<le> 128 \<and> printable v)
           [ic_InstallationUID c, ic_ProjectUID c, ic_EnvironmentUID c, ic_PodUID c]
      then Inl InvalidUID
      else if ic_ExecutionGeneration c < 1 then Inl InvalidGeneration
      else if \<not> validRevision (ic_RuntimePolicyRevision c) \<or> \<not> validRevision (ic_ForwarderRevision c)
      then Inl InvalidRevision
      else if length (ic_CertificateFingerprint c) \<noteq> 64 then Inl FingerprintLength
      else if map_option hex_encode (hexDecode (ic_CertificateFingerprint c)) \<noteq> Some (ic_CertificateFingerprint c)
      then Inl FingerprintHex
      else Inr \<lparr>cc_Domain = IdentityDomain, cc_Claims = c\<rparr>)"

definition ClaimsBytes :: "identity_lib \<Rightarrow> Claims \<Rightarrow> identity_error + string" where
  "ClaimsBytes lib c =
     bind_result (canonical lib c) (\<lambda>cc.
       let b = il_Marshal lib cc in if MaxCanonicalBytes < length b then Inl TooLarge else Inr b)"

definition ParseIdentity :: "identity_lib \<Rightarrow> string \<Rightarrow> identity_error + Claims" where
  "ParseIdentity lib value =
     (if length value = 0 \<or> MaxCanonicalBytes < length value then Inl InvalidSize
      else case il_Decode lib value of
        Inl e \<Rightarrow> Inl (IdentityDecode e)
      | Inr (cc, atEnd) \<Rightarrow>
          if \<not> atEnd then Inl TrailingContent
          else if cc_Domain cc \<noteq> IdentityDomain then Inl UnsupportedDomain
          else bind_result (ClaimsBytes lib (cc_Claims cc)) (\<lambda>reencoded.
                 if value \<noteq> reencoded then Inl NotCanonical else Inr (cc_Claims cc)))"

section \<open>Certificates\<close>

record Material =
  mt_Certificate :: string
  mt_PrivateKey :: string
  mt_CA :: string
  mt_Fingerprint :: string

text \<open>\<open>clear\<close> overwrites bytes with zeros; a nil pointer is left alone.\<close>

definition zeroed :: "string \<Rightarrow> string" where
  "zeroed s = replicate (length s) (char_of (0::nat))"

definition ClearMaterial :: "Material option \<Rightarrow> Material option" where
  "ClearMaterial m = map_option (\<lambda>m. \<lparr>mt_Certificate = zeroed (mt_Certificate m), mt_PrivateKey = zeroed (mt_PrivateKey m),
     mt_CA = zeroed (mt_CA m), mt_Fingerprint = zeroed (mt_Fingerprint m)\<rparr>) m"

text \<open>The fields that \<open>IssueForClaims\<close> puts into the template of the certificate; times are in nanoseconds.\<close>

record certificate_template =
  ct_Serial :: nat
  ct_CommonName :: string
  ct_NotBefore :: int
  ct_NotAfter :: int
  ct_KeyUsage :: string
  ct_ExtKeyUsage :: "string list"

record ('w, 'k, 'key) crypto_lib =
  cr_GenerateKey :: "('w, 'k + 'key) state"
  cr_Serial :: "('w, 'k + nat) state"
  cr_CreateCertificate :: "certificate_template \<Rightarrow> 'key \<Rightarrow> ('w, 'k + string) state"
  cr_MarshalKey :: "'key \<Rightarrow> 'k + string"
  cr_EncodePem :: "string \<Rightarrow> string \<Rightarrow> string"
  cr_DecodePem :: "string \<Rightarrow> ((string \<times> string) \<times> string) option"
  cr_ParseCertificate :: "string \<Rightarrow> 'k option"
  cr_Sha256 :: "string \<Rightarrow> string"

datatype 'k issue_error = FingerprintGiven | Crypto 'k | BadClaims identity_error | BadPem

definition clientTemplate :: "int \<Rightarrow> nat \<Rightarrow> certificate_template" where
  "clientTemplate now serial =
     \<lparr>ct_Serial = serial, ct_CommonName = ''egress-client.swe.dev'', ct_NotBefore = now - 60 * 10 ^ 9,
      ct_NotAfter = now + 24 * 3600 * 10 ^ 9, ct_KeyUsage = ''digitalSignature'', ct_ExtKeyUsage = [''clientAuth'']\<rparr>"

definition IssueForClaims ::
  "identity_lib \<Rightarrow> ('w, 'k, 'key) crypto_lib \<Rightarrow> int \<Rightarrow> Claims \<Rightarrow> ('w, 'k issue_error + Claims \<times> Material) state" where
  "IssueForClaims lib cr now claims =
     (if ic_CertificateFingerprint claims \<noteq> [] then throwError FingerprintGiven
      else bindE (mapErr Crypto (cr_GenerateKey cr)) (\<lambda>key.
        bindE (mapErr Crypto (cr_Serial cr)) (\<lambda>serial.
          bindE (mapErr Crypto (cr_CreateCertificate cr (clientTemplate now serial) key)) (\<lambda>der.
            case cr_MarshalKey cr key of
              Inl e \<Rightarrow> throwError (Crypto e)
            | Inr keyDER \<Rightarrow>
                let certificate = cr_EncodePem cr ''CERTIFICATE'' der;
                    privateKey = cr_EncodePem cr ''PRIVATE KEY'' keyDER;
                    fingerprint = cr_Sha256 cr der;
                    issued = claims\<lparr>ic_CertificateFingerprint := hex_encode fingerprint\<rparr> in
                case ClaimsBytes lib issued of
                  Inl e \<Rightarrow> throwError (BadClaims e)
                | Inr _ \<Rightarrow> returnOk (issued, \<lparr>mt_Certificate = certificate, mt_PrivateKey = privateKey,
                                              mt_CA = certificate, mt_Fingerprint = fingerprint\<rparr>)))))"

definition FingerprintCertificate :: "('w, 'k, 'key) crypto_lib \<Rightarrow> string \<Rightarrow> 'k issue_error + string" where
  "FingerprintCertificate cr certificatePEM =
     (case cr_DecodePem cr certificatePEM of
        None \<Rightarrow> Inl BadPem
      | Some ((type, bytes), rest) \<Rightarrow>
          if type \<noteq> ''CERTIFICATE'' \<or> length rest \<noteq> 0 then Inl BadPem
          else case cr_ParseCertificate cr bytes of
            Some e \<Rightarrow> Inl (Crypto e)
          | None \<Rightarrow> Inr (cr_Sha256 cr bytes))"

section \<open>Round trips\<close>

lemma canonical_Inr: "canonical lib c = Inr cc \<Longrightarrow> cc = \<lparr>cc_Domain = IdentityDomain, cc_Claims = c\<rparr>"
  by (auto simp: canonical_def split: if_splits)

lemma ParseIdentity_sound:
  assumes "ParseIdentity lib value = Inr c"
  shows "ClaimsBytes lib c = Inr value"
  using assms by (auto simp: ParseIdentity_def bind_result_Inr split: if_splits sum.splits)

lemma ParseIdentity_complete:
  assumes "il_Decode lib (il_Marshal lib \<lparr>cc_Domain = IdentityDomain, cc_Claims = c\<rparr>) = Inr (\<lparr>cc_Domain = IdentityDomain, cc_Claims = c\<rparr>, True)"
    and "il_Marshal lib \<lparr>cc_Domain = IdentityDomain, cc_Claims = c\<rparr> \<noteq> []" and b: "ClaimsBytes lib c = Inr value"
  shows "ParseIdentity lib value = Inr c"
proof -
  obtain cc where cc: "canonical lib c = Inr cc" "value = il_Marshal lib cc" "length value \<le> MaxCanonicalBytes"
    using b by (auto simp: ClaimsBytes_def bind_result_Inr Let_def split: if_splits)
  then have "value = il_Marshal lib \<lparr>cc_Domain = IdentityDomain, cc_Claims = c\<rparr>" using canonical_Inr [of lib c cc] by simp
  with assms cc show ?thesis by (simp add: ParseIdentity_def)
qed

lemma hexValue_hexDigit: "n < 16 \<Longrightarrow> hexValue (hexDigit n) = Some n"
  by (simp add: hexValue_def hexDigit_def digit_of_def is_digit_def code_def)

lemma char_of_nibbles: "char_of (16 * (code c div 16) + code c mod 16) = c"
  by (simp add: code_def)

lemma code_nibble: "code c div 16 < 16"
  using code_less [of c] by linarith

lemma hexDecode_encode: "hexDecode (hex_encode s) = Some s"
  by (induction s) (simp_all add: hex_encode_def hexValue_hexDigit code_nibble char_of_nibbles)

lemma length_hex_encode: "length (hex_encode s) = 2 * length s"
  by (induction s) (simp_all add: hex_encode_def)

text \<open>The canonical encoding of an identity is exact: given that the JSON decoder reads back what the encoder wrote
  for these claims, a text is accepted as the claims precisely when it is their canonical encoding. So an identity
  has one spelling, an accepted one satisfies every check of the encoder, and an encoded one is always read back.\<close>

theorem identity_round_trip:
  assumes "il_Decode lib (il_Marshal lib \<lparr>cc_Domain = IdentityDomain, cc_Claims = c\<rparr>) = Inr (\<lparr>cc_Domain = IdentityDomain, cc_Claims = c\<rparr>, True)"
    and "il_Marshal lib \<lparr>cc_Domain = IdentityDomain, cc_Claims = c\<rparr> \<noteq> []"
  shows "ParseIdentity lib value = Inr c \<longleftrightarrow> ClaimsBytes lib c = Inr value"
  using ParseIdentity_sound ParseIdentity_complete [OF assms] by blast

text \<open>A concrete identity: the claims of the package's own tests, with a codec for them.\<close>

definition sample_claims :: Claims where
  "sample_claims = \<lparr>ic_InstallationNamespace = ''swe-system'', ic_InstallationName = ''main'', ic_InstallationUID = ''i-uid'',
     ic_ProjectNamespace = ''project-a'', ic_ProjectName = ''project'', ic_ProjectUID = ''p-uid'',
     ic_EnvironmentNamespace = ''project-a'', ic_EnvironmentName = ''environment'', ic_EnvironmentUID = ''e-uid'',
     ic_PodName = ''env-environment'', ic_PodUID = ''pod-uid'', ic_ExecutionGeneration = 7,
     ic_RuntimePolicyRevision = ''72'', ic_ForwarderRevision = ''1'',
     ic_CertificateFingerprint = hex_encode (replicate 32 (CHR ''b''))\<rparr>"

definition sample_identity_lib :: identity_lib where
  "sample_identity_lib =
     \<lparr>il_Decode = (\<lambda>s. if s = ''id'' then Inr (\<lparr>cc_Domain = IdentityDomain, cc_Claims = sample_claims\<rparr>, True) else Inl ''invalid''),
      il_Marshal = (\<lambda>c. if c = \<lparr>cc_Domain = IdentityDomain, cc_Claims = sample_claims\<rparr> then ''id'' else ''other''),
      il_Label = (\<lambda>s. []), il_Subdomain = (\<lambda>s. [])\<rparr>"

lemma sample_claims_encode: "ClaimsBytes sample_identity_lib sample_claims = Inr ''id''"
  by code_simp

lemma sample_codec:
  "il_Decode sample_identity_lib (il_Marshal sample_identity_lib \<lparr>cc_Domain = IdentityDomain, cc_Claims = sample_claims\<rparr>)
     = Inr (\<lparr>cc_Domain = IdentityDomain, cc_Claims = sample_claims\<rparr>, True)"
  "il_Marshal sample_identity_lib \<lparr>cc_Domain = IdentityDomain, cc_Claims = sample_claims\<rparr> \<noteq> []"
  by (simp_all add: sample_identity_lib_def)

theorem identity_round_trip_witness:
  "ParseIdentity sample_identity_lib ''id'' = Inr sample_claims \<and> ParseIdentity sample_identity_lib '' id'' \<noteq> Inr sample_claims"
  using identity_round_trip [OF sample_codec, of "''id''"] identity_round_trip [OF sample_codec, of "'' id''"]
    sample_claims_encode by simp

text \<open>What is issued: claims that differ from the request in the fingerprint only, whose fingerprint is the one of
  the issued certificate, that encode, and that carry the times and use of a client certificate.\<close>

lemma issued_bound:
  assumes "run_state (IssueForClaims lib cr now claims) w = (Inr (issued, m), w')"
    and pem: "\<And>t b. cr_DecodePem cr (cr_EncodePem cr t b) = Some ((t, b), [])"
    and "\<And>t key w der w'. run_state (cr_CreateCertificate cr t key) w = (Inr der, w') \<Longrightarrow> cr_ParseCertificate cr der = None"
  shows "issued = claims\<lparr>ic_CertificateFingerprint := hex_encode (mt_Fingerprint m)\<rparr>
    \<and> ic_CertificateFingerprint claims = [] \<and> is_ok (ClaimsBytes lib issued)
    \<and> FingerprintCertificate cr (mt_Certificate m) = Inr (mt_Fingerprint m) \<and> mt_CA m = mt_Certificate m"
  using assms
  by (auto simp: IssueForClaims_def ifErr_def bindE_def mapErr_def FingerprintCertificate_def Let_def
      split: if_splits sum.splits prod.splits)

end
