(* ===== verification/Egress_Authority.thy ===== *)
theory Egress_Authority
  imports Egress_Identity Egress_Resolve Tenancy
begin

text \<open>
  The proof of currentness (\<open>authorize\<close> in \<open>src/internal/egressproxy/currentness.go\<close>): which execution a presented
  certificate stands for, that its Installation, Namespace, Project, policy, Environment and Pod are current, that
  the effective policy admits the destination, and the second pass that finds all of them unchanged.

  The calls of the API reader and of the identity lookup are in \<open>authority_env\<close>, over an arbitrary world and with
  arbitrary errors; so is the expiry of the context. \<open>authorize\<close> of the source is \<open>prove\<close> here, in five parts.
\<close>

section \<open>The denied prefixes of an accepted policy\<close>



section \<open>Environment of the proof\<close>

text \<open>The fields of \<open>corev1.Pod\<close> that the proof reads.\<close>

record pod_view =
  pv_Meta :: ObjectMeta
  pv_RestartPolicy :: string

abbreviation "RestartPolicyNever \<equiv> ''Never''"
abbreviation "ExecutionGenerationAnnotation \<equiv> ''swe.dev/execution-generation''"
abbreviation "PolicyRevisionAnnotation \<equiv> ''swe.dev/egress-policy-revision''"
abbreviation "ForwarderRevisionAnnotation \<equiv> ''swe.dev/egress-forwarder-security-revision''"
abbreviation "CertificateFingerprintAnnotation \<equiv> ''swe.dev/egress-client-certificate-sha256''"
abbreviation "CurrentForwarderRevision \<equiv> ''1''"

record ('w, 'q, 'k) authority_env =
  av_Lookup :: "string \<Rightarrow> ('w, 'k + string) state"
  av_Installation :: "NamespacedName \<Rightarrow> ('w, 'k + ObjectMeta) state"
  av_Namespace :: "string \<Rightarrow> ('w, 'k + ObjectMeta) state"
  av_Projects :: "string \<Rightarrow> ('w, 'k + Project list) state"
  av_Project :: "NamespacedName \<Rightarrow> ('w, 'k + Project) state"
  av_ConfigMap :: "NamespacedName \<Rightarrow> ('w, 'k + ConfigMap) state"
  av_Environment :: "NamespacedName \<Rightarrow> ('w, 'k + 'q Environment) state"
  av_Pod :: "NamespacedName \<Rightarrow> ('w, 'k + pod_view) state"
  av_CtxErr :: "('w, 'k option) state"
  av_IdentityLib :: identity_lib
  av_ConfigLib :: config_lib
  av_RevisionMarshal :: "canonicalInputs \<Rightarrow> string"
  av_FindCondition :: find_condition
  av_GetControllerOf :: get_controller

text \<open>The configuration of a \<open>CurrentnessAuthorizer\<close>.\<close>

record authority_config =
  au_Installation :: InstallationIdentity
  au_PolicyConfigMap :: NamespacedName

record grant =
  gr_ExecutionKey :: string
  gr_ProjectKey :: string
  gr_DeniedPrefixes :: "Prefix list"

datatype 'k authority_error =
  AuthText string
| AuthReader string 'k
| AuthIdentity identity_error
| AuthConfig config_error
| AuthPolicy policy_error
| AuthTenancy "'k tenancy_error"
| AuthPanic

definition stable :: "ObjectMeta \<Rightarrow> bool" where
  "stable m \<longleftrightarrow> om_UID m \<noteq> [] \<and> \<not> deleting m"

definition verifierOf :: "('w, 'q, 'k) authority_env \<Rightarrow> authority_config \<Rightarrow> ('w, 'k) Verifier" where
  "verifierOf env conf =
     \<lparr>vf_Reader = Some \<lparr>tr_Installation = av_Installation env, tr_Namespace = av_Namespace env, tr_Projects = av_Projects env\<rparr>,
      vf_Installation = au_Installation conf, vf_Mode = ModeScoped\<rparr>"

text \<open>\<open>if err := get(); err != nil || bad { return errors.New(text) }\<close>.\<close>

definition require :: "string \<Rightarrow> ('w, 'x + 'a) state \<Rightarrow> ('a \<Rightarrow> bool) \<Rightarrow> ('w, 'k authority_error + 'a) state" where
  "require text m good =
     ifErr m (\<lambda>_. throwError (AuthText text)) (\<lambda>x. if good x then returnOk x else throwError (AuthText text))"

text \<open>\<open>if err := get(); err != nil { wrap }; if bad { return errors.New(text) }\<close>.\<close>

definition fetch ::
  "string \<Rightarrow> string \<Rightarrow> ('w, 'k + 'a) state \<Rightarrow> ('a \<Rightarrow> bool) \<Rightarrow> ('w, 'k authority_error + 'a) state" where
  "fetch what text m good =
     bindE (mapErr (AuthReader what) m) (\<lambda>x. if good x then returnOk x else throwError (AuthText text))"

section \<open>The first pass\<close>

definition identityMatches :: "authority_config \<Rightarrow> Claims \<Rightarrow> bool" where
  "identityMatches conf claims \<longleftrightarrow>
     ic_InstallationNamespace claims = fst (ii_Key (au_Installation conf))
     \<and> ic_InstallationName claims = snd (ii_Key (au_Installation conf))
     \<and> ic_InstallationUID claims = ii_UID (au_Installation conf)
     \<and> fst (au_PolicyConfigMap conf) = fst (ii_Key (au_Installation conf))"

definition proveIdentity ::
  "('w, 'q, 'k) authority_env \<Rightarrow> authority_config \<Rightarrow> string \<Rightarrow> string
     \<Rightarrow> ('w, 'k authority_error + string \<times> Claims) state" where
  "proveIdentity env conf fingerprint target =
     (if ParseHostname target \<noteq> Inr target then throwError (AuthText ''target is not a canonical egress hostname'')
      else bindE (mapErr (AuthReader ''resolve certificate identity'') (av_Lookup env fingerprint)) (\<lambda>bytes.
        case ParseIdentity (av_IdentityLib env) bytes of
          Inl e \<Rightarrow> throwError (AuthIdentity e)
        | Inr claims \<Rightarrow>
            if \<not> identityMatches conf claims
            then throwError (AuthText ''identity or policy ConfigMap does not match the configured Installation'')
            else if ic_ProjectNamespace claims = fst (ii_Key (au_Installation conf))
            then throwError (AuthText ''Project namespace must be distinct from the Installation system namespace'')
            else if ic_CertificateFingerprint claims \<noteq> hex_encode fingerprint
            then throwError (AuthText ''presented certificate fingerprint does not match canonical identity'')
            else returnOk (bytes, claims)))"

definition claimMatches :: "Claims \<Rightarrow> Claim \<Rightarrow> bool" where
  "claimMatches claims claim \<longleftrightarrow>
     cl_Lifecycle claim = LifecycleActive \<and> cl_ProjectName claim = ic_ProjectName claims
     \<and> cl_ProjectUID claim = ic_ProjectUID claims \<and> ic_EnvironmentNamespace claims = ic_ProjectNamespace claims"

definition proveScope ::
  "('w, 'q, 'k) authority_env \<Rightarrow> authority_config \<Rightarrow> Claims
     \<Rightarrow> ('w, 'k authority_error + ObjectMeta \<times> Claim \<times> ObjectMeta) state" where
  "proveScope env conf claims =
     bindE (fetch ''get Installation'' ''Installation identity is not current''
        (av_Installation env (ii_Key (au_Installation conf)))
        (\<lambda>i. om_UID i = ii_UID (au_Installation conf) \<and> stable i)) (\<lambda>installation.
     bindE (mapErr AuthTenancy (VerifyNamespace (verifierOf env conf) (ic_ProjectNamespace claims))) (\<lambda>claim.
       if \<not> claimMatches claims claim
       then throwError (AuthText ''active exact Namespace claim does not match identity'')
       else bindE (require ''Namespace identity is not current'' (av_Namespace env (ic_ProjectNamespace claims))
              (\<lambda>n. om_UID n = cl_NamespaceUID claim \<and> stable n)) (\<lambda>namespace.
         returnOk (installation, claim, namespace))))"

abbreviation "projectKey claims \<equiv> (ic_ProjectNamespace claims, ic_ProjectName claims)"
abbreviation "environmentKey claims \<equiv> (ic_EnvironmentNamespace claims, ic_EnvironmentName claims)"
abbreviation "podKey claims \<equiv> (ic_EnvironmentNamespace claims, ic_PodName claims)"

definition revisionInputs :: "ObjectMeta \<Rightarrow> ConfigMap \<Rightarrow> ParsedConfig \<Rightarrow> Project \<Rightarrow> RuntimeRevisionInputs" where
  "revisionInputs installation configMap config project =
     \<lparr>ri_InstallationUID = om_UID installation, ri_ConfigMapUID = om_UID (cm_Meta configMap),
      ri_ConfigMapContentSHA256 = pc_ContentSHA256 config, ri_ProjectUID = om_UID (pj_Meta project),
      ri_Ceiling = cf_Ceiling (pc_Config config), ri_Baseline = cf_Baseline (pc_Config config),
      ri_ProjectSelection = pj_EgressAllowlist (pj_Spec project)\<rparr>"

text \<open>What is asked of the policy: restricted mode, a destination inside the effective set, and the revision the
  identity names. The result is the profile.\<close>

definition admit ::
  "('w, 'q, 'k) authority_env \<Rightarrow> string \<Rightarrow> Claims \<Rightarrow> ObjectMeta \<Rightarrow> Project \<Rightarrow> ConfigMap \<Rightarrow> ParsedConfig
     \<Rightarrow> 'k authority_error + RestrictedProfile" where
  "admit env target claims installation project configMap config =
     (case (cf_Mode (pc_Config config) = ModeRestricted, cf_RestrictedProfile (pc_Config config)) of
        (True, Some profile) \<Rightarrow>
          (case Evaluate (cf_Ceiling (pc_Config config)) (cf_Baseline (pc_Config config))
                  (pj_EgressAllowlist (pj_Spec project)) of
             Inl e \<Rightarrow> Inl (AuthPolicy e)
           | Inr policy \<Rightarrow>
               if target \<notin> set (po_Effective policy)
               then Inl (AuthText ''destination is outside the effective policy'')
               else case Revision (ec_Sha256 (av_ConfigLib env)) (av_RevisionMarshal env)
                           (revisionInputs installation configMap config project) of
                 Inl e \<Rightarrow> Inl (AuthText ''runtime policy revision is not current'')
               | Inr revision \<Rightarrow>
                   if ic_RuntimePolicyRevision claims \<noteq> hex_encode revision
                   then Inl (AuthText ''runtime policy revision is not current'')
                   else Inr profile)
      | _ \<Rightarrow> Inl (AuthText ''currentness authorization requires restricted mode''))"

definition provePolicy ::
  "('w, 'q, 'k) authority_env \<Rightarrow> authority_config \<Rightarrow> string \<Rightarrow> Claims \<Rightarrow> ObjectMeta
     \<Rightarrow> ('w, 'k authority_error + Project \<times> ConfigMap \<times> ParsedConfig \<times> RestrictedProfile) state" where
  "provePolicy env conf target claims installation =
     bindE (fetch ''get Project'' ''Project identity is not current'' (av_Project env (projectKey claims))
        (\<lambda>p. om_UID (pj_Meta p) = ic_ProjectUID claims \<and> stable (pj_Meta p))) (\<lambda>project.
     bindE (mapErr (AuthReader ''get policy ConfigMap'') (av_ConfigMap env (au_PolicyConfigMap conf))) (\<lambda>configMap.
       case ParseConfigMap (av_ConfigLib env) (Some configMap) of
         Inl e \<Rightarrow> throwError (AuthConfig e)
       | Inr config \<Rightarrow>
           (case admit env target claims installation project configMap config of
              Inl e \<Rightarrow> throwError e
            | Inr profile \<Rightarrow> returnOk (project, configMap, config, profile))))"

definition environmentCurrent :: "find_condition \<Rightarrow> Claims \<Rightarrow> Project \<Rightarrow> 'q Environment \<Rightarrow> bool" where
  "environmentCurrent findCond claims project e \<longleftrightarrow>
     env_UID e = ic_EnvironmentUID claims \<and> stable (en_Meta e)
     \<and> sp_ProjectRef (en_Spec e) = om_Name (pj_Meta project)
     \<and> st_ExecutionGeneration (en_Status e) = ic_ExecutionGeneration claims
     \<and> st_PodName (en_Status e) = ic_PodName claims
     \<and> (case st_Provisioning (en_Status e) of
          None \<Rightarrow> False
        | Some s \<Rightarrow> (case ps_Project s of
            None \<Rightarrow> False
          | Some p \<Rightarrow> ps_ProjectVerified s \<and> pp_Name p = om_Name (pj_Meta project) \<and> pp_UID p = om_UID (pj_Meta project)))
     \<and> IsEnvironmentReady findCond e \<and> \<not> sp_Paused (en_Spec e) \<and> \<not> lst_Suspended (env_LStatus e)
     \<and> \<not> (case lsp_Hold (env_Lifecycle e) of None \<Rightarrow> False | Some h \<Rightarrow> hp_Enabled h)"

definition podCurrent :: "get_controller \<Rightarrow> Claims \<Rightarrow> 'q Environment \<Rightarrow> pod_view \<Rightarrow> bool" where
  "podCurrent getControllerOf claims e p \<longleftrightarrow>
     om_UID (pv_Meta p) = ic_PodUID claims \<and> stable (pv_Meta p) \<and> pv_RestartPolicy p = RestartPolicyNever
     \<and> controllerOwnerIs getControllerOf (pv_Meta p) platformGroupVersion ''Environment'' (om_Name (en_Meta e)) (env_UID e)
     \<and> meta_annotation (pv_Meta p) ExecutionGenerationAnnotation = format_int (ic_ExecutionGeneration claims)
     \<and> meta_annotation (pv_Meta p) PolicyRevisionAnnotation = ic_RuntimePolicyRevision claims
     \<and> meta_annotation (pv_Meta p) ForwarderRevisionAnnotation = ic_ForwarderRevision claims
     \<and> ic_ForwarderRevision claims = CurrentForwarderRevision
     \<and> meta_annotation (pv_Meta p) CertificateFingerprintAnnotation = ic_CertificateFingerprint claims"

definition proveExecution ::
  "('w, 'q, 'k) authority_env \<Rightarrow> Claims \<Rightarrow> Project \<Rightarrow> ('w, 'k authority_error + 'q Environment \<times> pod_view) state" where
  "proveExecution env claims project =
     bindE (fetch ''get Environment'' ''Environment execution or frozen Project is not current''
        (av_Environment env (environmentKey claims))
        (environmentCurrent (av_FindCondition env) claims project)) (\<lambda>environment.
     bindE (fetch ''get Pod'' ''Pod execution identity is not current'' (av_Pod env (podKey claims))
        (podCurrent (av_GetControllerOf env) claims environment)) (\<lambda>pod.
       returnOk (environment, pod)))"

section \<open>The second pass\<close>

definition unchanged :: "ObjectMeta \<Rightarrow> ObjectMeta \<Rightarrow> bool" where
  "unchanged m m' \<longleftrightarrow> om_UID m' = om_UID m \<and> om_ResourceVersion m' = om_ResourceVersion m \<and> stable m'"

definition recheckPolicy ::
  "('w, 'q, 'k) authority_env \<Rightarrow> authority_config \<Rightarrow> ConfigMap \<Rightarrow> ParsedConfig
     \<Rightarrow> ('w, 'k authority_error + ConfigMap) state" where
  "recheckPolicy env conf configMap config =
     fetch ''recheck policy ConfigMap'' ''policy ConfigMap changed during authorization''
       (av_ConfigMap env (au_PolicyConfigMap conf))
       (\<lambda>m. om_UID (cm_Meta m) = om_UID (cm_Meta configMap)
          \<and> om_ResourceVersion (cm_Meta m) = om_ResourceVersion (cm_Meta configMap)
          \<and> (case ParseConfigMap (av_ConfigLib env) (Some m) of
               Inl _ \<Rightarrow> False | Inr c \<Rightarrow> pc_ContentSHA256 c = pc_ContentSHA256 config))"

definition recheck ::
  "('w, 'q, 'k) authority_env \<Rightarrow> authority_config \<Rightarrow> string \<Rightarrow> string \<Rightarrow> Claims \<Rightarrow> ObjectMeta \<Rightarrow> Claim \<Rightarrow> ObjectMeta
     \<Rightarrow> Project \<Rightarrow> ConfigMap \<Rightarrow> ParsedConfig \<Rightarrow> 'q Environment \<Rightarrow> pod_view \<Rightarrow> ('w, 'k authority_error + unit) state" where
  "recheck env conf fingerprint bytes claims installation claim namespace project configMap config environment pod =
     bindE (recheckPolicy env conf configMap config) (\<lambda>_.
     bindE (require ''certificate identity changed during authorization'' (av_Lookup env fingerprint)
        (\<lambda>b. b = bytes)) (\<lambda>_.
     bindE (require ''Namespace claim changed during authorization''
        (VerifyNamespace (verifierOf env conf) (ic_ProjectNamespace claims))
        (\<lambda>c. c = claim \<and> cl_Lifecycle c = LifecycleActive)) (\<lambda>_.
     bindE (require ''Namespace changed during authorization'' (av_Namespace env (ic_ProjectNamespace claims))
        (unchanged namespace)) (\<lambda>_.
     bindE (require ''Project changed during authorization'' (av_Project env (projectKey claims))
        (\<lambda>p. unchanged (pj_Meta project) (pj_Meta p))) (\<lambda>_.
     bindE (require ''Environment changed during authorization'' (av_Environment env (environmentKey claims))
        (\<lambda>e. unchanged (en_Meta environment) (en_Meta e))) (\<lambda>_.
     bindE (require ''Pod changed during authorization'' (av_Pod env (podKey claims))
        (\<lambda>p. unchanged (pv_Meta pod) (pv_Meta p))) (\<lambda>_.
     bindE (require ''Installation changed during authorization'' (av_Installation env (ii_Key (au_Installation conf)))
        (unchanged installation)) (\<lambda>_.
       returnOk ()))))))))"

text \<open>The grant; the denied prefixes panic on a text that cannot be read.\<close>

definition grantOf :: "Claims \<Rightarrow> Project \<Rightarrow> 'q Environment \<Rightarrow> pod_view \<Rightarrow> Prefix list \<Rightarrow> grant" where
  "grantOf claims project environment pod denied =
     \<lparr>gr_ExecutionKey = env_UID environment @ ''/'' @ format_int (ic_ExecutionGeneration claims) @ ''/'' @ om_UID (pv_Meta pod),
      gr_ProjectKey = om_UID (pj_Meta project), gr_DeniedPrefixes = denied\<rparr>"

definition issueGrant ::
  "('w, 'q, 'k) authority_env \<Rightarrow> Claims \<Rightarrow> Project \<Rightarrow> 'q Environment \<Rightarrow> pod_view \<Rightarrow> RestrictedProfile
     \<Rightarrow> ('w, 'k authority_error + grant) state" where
  "issueGrant env claims project environment pod profile =
     do {
       expired \<leftarrow> av_CtxErr env;
       case expired of
         Some e \<Rightarrow> throwError (AuthReader ''currentness evaluation expired'' e)
       | None \<Rightarrow>
           (case deniedPrefixes profile of
              None \<Rightarrow> throwError AuthPanic
            | Some denied \<Rightarrow> returnOk (grantOf claims project environment pod denied))
     }"

definition prove ::
  "('w, 'q, 'k) authority_env \<Rightarrow> authority_config \<Rightarrow> string \<Rightarrow> string \<Rightarrow> ('w, 'k authority_error + grant) state" where
  "prove env conf fingerprint target =
     bindE (proveIdentity env conf fingerprint target) (\<lambda>(bytes, claims).
     bindE (proveScope env conf claims) (\<lambda>(installation, claim, namespace).
     bindE (provePolicy env conf target claims installation) (\<lambda>(project, configMap, config, profile).
     bindE (proveExecution env claims project) (\<lambda>(environment, pod).
     bindE (recheck env conf fingerprint bytes claims installation claim namespace project configMap config environment pod) (\<lambda>_.
       issueGrant env claims project environment pod profile)))))"

section \<open>What a proof read\<close>

lemma bindE_Inr:
  "run_state (bindE m f) w = (Inr x, w') \<longleftrightarrow> (\<exists>a w1. run_state m w = (Inr a, w1) \<and> run_state (f a) w1 = (Inr x, w'))"
  by (auto simp: bindE_def ifErr_def split: prod.splits sum.splits)

lemma mapErr_Inr: "run_state (mapErr h m) w = (Inr x, w') \<longleftrightarrow> run_state m w = (Inr x, w')"
  by (auto simp: mapErr_def ifErr_def split: prod.splits sum.splits)

lemma require_Inr: "run_state (require text m good) w = (Inr x, w') \<longleftrightarrow> run_state m w = (Inr x, w') \<and> good x"
  by (auto simp: require_def ifErr_def split: prod.splits sum.splits if_splits)

lemma fetch_Inr: "run_state (fetch what text m good) w = (Inr x, w') \<longleftrightarrow> run_state m w = (Inr x, w') \<and> good x"
  by (auto simp: fetch_def bindE_Inr mapErr_Inr split: if_splits)

lemma case_throw_Inr:
  "run_state (case x of Inl e \<Rightarrow> throwError (f e) | Inr a \<Rightarrow> g a) w = (Inr y, w')
     \<longleftrightarrow> (\<exists>a. x = Inr a \<and> run_state (g a) w = (Inr y, w'))"
  by (cases x) auto

lemma if_throw_Inr: "run_state (if b then throwError e else m) w = (Inr y, w') \<longleftrightarrow> \<not> b \<and> run_state m w = (Inr y, w')"
  by simp

lemmas read_simps = bindE_Inr mapErr_Inr require_Inr fetch_Inr case_throw_Inr if_throw_Inr

definition identityRead ::
  "('w, 'q, 'k) authority_env \<Rightarrow> authority_config \<Rightarrow> string \<Rightarrow> string \<Rightarrow> string \<Rightarrow> Claims \<Rightarrow> bool" where
  "identityRead env conf fingerprint target bytes claims \<longleftrightarrow>
     ParseHostname target = Inr target \<and> ParseIdentity (av_IdentityLib env) bytes = Inr claims
     \<and> identityMatches conf claims \<and> ic_ProjectNamespace claims \<noteq> fst (ii_Key (au_Installation conf))
     \<and> ic_CertificateFingerprint claims = hex_encode fingerprint"

lemma proveIdentity_ok:
  assumes "run_state (proveIdentity env conf fingerprint target) w = (Inr (bytes, claims), w')"
  shows "run_state (av_Lookup env fingerprint) w = (Inr bytes, w') \<and> identityRead env conf fingerprint target bytes claims"
  using assms by (auto simp: proveIdentity_def read_simps identityRead_def)

lemma proveScope_ok:
  assumes "run_state (proveScope env conf claims) w = (Inr (i, claim, n), w')"
  obtains w1 w2 where
    "run_state (av_Installation env (ii_Key (au_Installation conf))) w = (Inr i, w1)"
    "om_UID i = ii_UID (au_Installation conf)" "stable i"
    "run_state (VerifyNamespace (verifierOf env conf) (ic_ProjectNamespace claims)) w1 = (Inr claim, w2)"
    "claimMatches claims claim"
    "run_state (av_Namespace env (ic_ProjectNamespace claims)) w2 = (Inr n, w')"
    "om_UID n = cl_NamespaceUID claim" "stable n"
  using assms by (auto simp: proveScope_def read_simps)

lemma provePolicy_ok:
  fixes env :: "('w, 'q, 'k) authority_env"
  assumes "run_state (provePolicy env conf target claims i) w = (Inr (p, m, c, profile), w')"
  obtains w1 where
    "run_state (av_Project env (projectKey claims)) w = (Inr p, w1)"
    "om_UID (pj_Meta p) = ic_ProjectUID claims" "stable (pj_Meta p)"
    "run_state (av_ConfigMap env (au_PolicyConfigMap conf)) w1 = (Inr m, w')"
    "ParseConfigMap (av_ConfigLib env) (Some m) = Inr c"
    "admit env target claims i p m c = (Inr profile :: 'k authority_error + RestrictedProfile)"
  using assms by (auto simp: provePolicy_def read_simps)

lemma proveExecution_ok:
  assumes "run_state (proveExecution env claims p) w = (Inr (e, q), w')"
  obtains w1 where
    "run_state (av_Environment env (environmentKey claims)) w = (Inr e, w1)"
    "environmentCurrent (av_FindCondition env) claims p e"
    "run_state (av_Pod env (podKey claims)) w1 = (Inr q, w')"
    "podCurrent (av_GetControllerOf env) claims e q"
  using assms by (auto simp: proveExecution_def read_simps)

lemma recheck_ok:
  assumes "run_state (recheck env conf fingerprint bytes claims i claim n p m c e q) w = (Inr (), w')"
  obtains w1 w2 w3 w4 w5 w6 w7 m' n' p' e' q' i' where
    "run_state (av_ConfigMap env (au_PolicyConfigMap conf)) w = (Inr m', w1)"
    "om_UID (cm_Meta m') = om_UID (cm_Meta m)" "om_ResourceVersion (cm_Meta m') = om_ResourceVersion (cm_Meta m)"
    "run_state (av_Lookup env fingerprint) w1 = (Inr bytes, w2)"
    "run_state (VerifyNamespace (verifierOf env conf) (ic_ProjectNamespace claims)) w2 = (Inr claim, w3)"
    "run_state (av_Namespace env (ic_ProjectNamespace claims)) w3 = (Inr n', w4)" "unchanged n n'"
    "run_state (av_Project env (projectKey claims)) w4 = (Inr p', w5)" "unchanged (pj_Meta p) (pj_Meta p')"
    "run_state (av_Environment env (environmentKey claims)) w5 = (Inr e', w6)" "unchanged (en_Meta e) (en_Meta e')"
    "run_state (av_Pod env (podKey claims)) w6 = (Inr q', w7)" "unchanged (pv_Meta q) (pv_Meta q')"
    "run_state (av_Installation env (ii_Key (au_Installation conf))) w7 = (Inr i', w')" "unchanged i i'"
  using assms by (auto simp: recheck_def recheckPolicy_def read_simps)

lemma issueGrant_ok:
  assumes "run_state (issueGrant env claims p e q profile) w = (Inr g, w')"
  obtains ps where "run_state (av_CtxErr env) w = (None, w')" "deniedPrefixes profile = Some ps"
    "g = grantOf claims p e q ps"
  using assms by (auto simp: issueGrant_def split: prod.splits option.splits)

section \<open>Histories of the cluster\<close>

text \<open>The objects of a cluster at one instant.\<close>

record 'q cluster =
  hs_Installation :: "NamespacedName \<Rightarrow> ObjectMeta option"
  hs_Namespace :: "string \<Rightarrow> ObjectMeta option"
  hs_Project :: "NamespacedName \<Rightarrow> Project option"
  hs_ConfigMap :: "NamespacedName \<Rightarrow> ConfigMap option"
  hs_Environment :: "NamespacedName \<Rightarrow> 'q Environment option"
  hs_Pod :: "NamespacedName \<Rightarrow> pod_view option"

text \<open>An uncached read returns the object as it was at an instant between the call and the return; \<open>now\<close> is the
  time of a world, and no call goes back in time.\<close>

definition passes :: "('w \<Rightarrow> nat) \<Rightarrow> ('w, 'a) state \<Rightarrow> bool" where
  "passes now m \<longleftrightarrow> (\<forall>w. now w \<le> now (snd (run_state m w)))"

definition reads_at :: "(nat \<Rightarrow> 'o option) \<Rightarrow> ('w \<Rightarrow> nat) \<Rightarrow> ('w, 'k + 'o) state \<Rightarrow> bool" where
  "reads_at f now m \<longleftrightarrow> passes now m \<and>
     (\<forall>w x w'. run_state m w = (Inr x, w') \<longrightarrow> (\<exists>t. now w \<le> t \<and> t \<le> now w' \<and> f t = Some x))"

definition uncached :: "(nat \<Rightarrow> 'q cluster) \<Rightarrow> ('w \<Rightarrow> nat) \<Rightarrow> ('w, 'q, 'k) authority_env \<Rightarrow> bool" where
  "uncached h now env \<longleftrightarrow>
     (\<forall>k. reads_at (\<lambda>t. hs_Installation (h t) k) now (av_Installation env k))
     \<and> (\<forall>k. reads_at (\<lambda>t. hs_Namespace (h t) k) now (av_Namespace env k))
     \<and> (\<forall>k. reads_at (\<lambda>t. hs_Project (h t) k) now (av_Project env k))
     \<and> (\<forall>k. reads_at (\<lambda>t. hs_ConfigMap (h t) k) now (av_ConfigMap env k))
     \<and> (\<forall>k. reads_at (\<lambda>t. hs_Environment (h t) k) now (av_Environment env k))
     \<and> (\<forall>k. reads_at (\<lambda>t. hs_Pod (h t) k) now (av_Pod env k))
     \<and> (\<forall>k. passes now (av_Projects env k)) \<and> (\<forall>k. passes now (av_Lookup env k)) \<and> passes now (av_CtxErr env)"

text \<open>Resource versions: a version of an object is never restored, so an object that has the same identity and
  version at two instants was the same object throughout.\<close>

definition versioned :: "(nat \<Rightarrow> 'o option) \<Rightarrow> ('o \<Rightarrow> ObjectMeta) \<Rightarrow> bool" where
  "versioned f meta \<longleftrightarrow> (\<forall>t1 t t2 x y. t1 \<le> t \<and> t \<le> t2 \<and> f t1 = Some x \<and> f t2 = Some y
     \<and> om_UID (meta y) = om_UID (meta x) \<and> om_ResourceVersion (meta y) = om_ResourceVersion (meta x)
     \<longrightarrow> f t = Some x)"

definition versioned_history :: "(nat \<Rightarrow> 'q cluster) \<Rightarrow> bool" where
  "versioned_history h \<longleftrightarrow>
     (\<forall>k. versioned (\<lambda>t. hs_Installation (h t) k) (\<lambda>m. m))
     \<and> (\<forall>k. versioned (\<lambda>t. hs_Namespace (h t) k) (\<lambda>m. m))
     \<and> (\<forall>k. versioned (\<lambda>t. hs_Project (h t) k) pj_Meta)
     \<and> (\<forall>k. versioned (\<lambda>t. hs_ConfigMap (h t) k) cm_Meta)
     \<and> (\<forall>k. versioned (\<lambda>t. hs_Environment (h t) k) en_Meta)
     \<and> (\<forall>k. versioned (\<lambda>t. hs_Pod (h t) k) pv_Meta)"

lemma passesD: "passes now m \<Longrightarrow> run_state m w = (x, w') \<Longrightarrow> now w \<le> now w'"
  unfolding passes_def by (metis snd_conv)

lemma reads_atD: "reads_at f now m \<Longrightarrow> run_state m w = (Inr x, w') \<Longrightarrow> \<exists>t\<ge>now w. t \<le> now w' \<and> f t = Some x"
  unfolding reads_at_def by blast

lemma reads_at_passes: "reads_at f now m \<Longrightarrow> passes now m"
  by (simp add: reads_at_def)

lemma uncachedD:
  assumes "uncached h now env"
  shows "reads_at (\<lambda>t. hs_Installation (h t) k) now (av_Installation env k)"
    "reads_at (\<lambda>t. hs_Namespace (h t) n) now (av_Namespace env n)"
    "reads_at (\<lambda>t. hs_Project (h t) k) now (av_Project env k)"
    "reads_at (\<lambda>t. hs_ConfigMap (h t) k) now (av_ConfigMap env k)"
    "reads_at (\<lambda>t. hs_Environment (h t) k) now (av_Environment env k)"
    "reads_at (\<lambda>t. hs_Pod (h t) k) now (av_Pod env k)"
    "passes now (av_Projects env n)" "passes now (av_Lookup env n)" "passes now (av_CtxErr env)"
  using assms unfolding uncached_def by blast+

lemmas uncached_time = passesD [OF reads_at_passes, OF uncachedD(1)] passesD [OF reads_at_passes, OF uncachedD(2)]
  passesD [OF reads_at_passes, OF uncachedD(3)] passesD [OF reads_at_passes, OF uncachedD(4)]
  passesD [OF reads_at_passes, OF uncachedD(5)] passesD [OF reads_at_passes, OF uncachedD(6)]
  passesD [OF uncachedD(7)] passesD [OF uncachedD(8)] passesD [OF uncachedD(9)]

lemma versioned_historyD:
  assumes "versioned_history h"
  shows "versioned (\<lambda>t. hs_Installation (h t) k) (\<lambda>m. m)" "versioned (\<lambda>t. hs_Namespace (h t) n) (\<lambda>m. m)"
    "versioned (\<lambda>t. hs_Project (h t) k) pj_Meta" "versioned (\<lambda>t. hs_ConfigMap (h t) k) cm_Meta"
    "versioned (\<lambda>t. hs_Environment (h t) k) en_Meta" "versioned (\<lambda>t. hs_Pod (h t) k) pv_Meta"
  using assms unfolding versioned_history_def by blast+

text \<open>Two reads of one version: the object did not change from the end of the first to the start of the second.\<close>

lemma constant_between:
  assumes f: "reads_at f now m" and v: "versioned f meta"
    and r1: "run_state m w1 = (Inr x, w1')" and r2: "run_state m w2 = (Inr y, w2')"
    and same: "om_UID (meta y) = om_UID (meta x)" "om_ResourceVersion (meta y) = om_ResourceVersion (meta x)"
    and t: "now w1' \<le> t" "t \<le> now w2"
  shows "f t = Some x"
proof -
  obtain t1 where t1: "t1 \<le> now w1'" "f t1 = Some x" using reads_atD [OF f r1] by blast
  obtain t2 where t2: "now w2 \<le> t2" "f t2 = Some y" using reads_atD [OF f r2] by blast
  have "t1 \<le> t" "t \<le> t2" using t t1(1) t2(1) by linarith+
  with v t1(2) t2(2) same show ?thesis unfolding versioned_def by blast
qed

lemma VerifyNamespace_time:
  assumes u: "uncached h now env"
    and r: "run_state (VerifyNamespace (verifierOf env conf) n) w = (Inr claim, w')"
  obtains ns t where "now w \<le> t" "t \<le> now w'" "hs_Namespace (h t) n = Some ns"
    "claimedBy (au_Installation conf) ns" "claim = annotatedClaim ns"
proof -
  obtain w1 where "identityProved (verifierOf env conf) n claim w w1" "projectProved (verifierOf env conf) n claim w1 w'"
    using VerifyNamespace_ok [OF r] by blast
  then obtain inst ns w0 p where
    w: "run_state (av_Installation env (ii_Key (au_Installation conf))) w = (Inr inst, w0)"
       "run_state (av_Namespace env n) w0 = (Inr ns, w1)" "run_state (av_Projects env n) w1 = (Inr [p], w')"
    and ns: "claimedBy (au_Installation conf) ns" "claim = annotatedClaim ns"
    by (auto simp: identityProved_def projectProved_def verifierOf_def)
  have "now w \<le> now w0" "now w1 \<le> now w'"
    by (rule uncached_time [OF u] w)+
  moreover obtain t where "now w0 \<le> t" "t \<le> now w1" "hs_Namespace (h t) n = Some ns"
    using reads_atD [OF uncachedD(2) [OF u] w(2)] by blast
  ultimately show thesis using that [of t ns] ns by simp
qed

section \<open>The proof is a snapshot\<close>

text \<open>What it means that the execution behind a certificate may reach a destination, in one state of the cluster.\<close>

definition policyAdmits ::
  "('w, 'q, 'k) authority_env \<Rightarrow> string \<Rightarrow> Claims \<Rightarrow> ObjectMeta \<Rightarrow> Project \<Rightarrow> ConfigMap \<Rightarrow> RestrictedProfile \<Rightarrow> bool" where
  "policyAdmits env target claims i p m profile \<longleftrightarrow>
     (\<exists>c policy revision. ParseConfigMap (av_ConfigLib env) (Some m) = Inr c
        \<and> cf_Mode (pc_Config c) = ModeRestricted \<and> cf_RestrictedProfile (pc_Config c) = Some profile
        \<and> Evaluate (cf_Ceiling (pc_Config c)) (cf_Baseline (pc_Config c)) (pj_EgressAllowlist (pj_Spec p)) = Inr policy
        \<and> target \<in> set (po_Effective policy)
        \<and> Revision (ec_Sha256 (av_ConfigLib env)) (av_RevisionMarshal env) (revisionInputs i m c p) = Inr revision
        \<and> ic_RuntimePolicyRevision claims = hex_encode revision)"

definition authorized_at ::
  "('w, 'q, 'k) authority_env \<Rightarrow> authority_config \<Rightarrow> string \<Rightarrow> Claims \<Rightarrow> 'q cluster \<Rightarrow> grant \<Rightarrow> bool" where
  "authorized_at env conf target claims s g \<longleftrightarrow>
     (\<exists>i n p m profile e q.
        hs_Installation s (ii_Key (au_Installation conf)) = Some i \<and> om_UID i = ii_UID (au_Installation conf) \<and> stable i
        \<and> hs_Namespace s (ic_ProjectNamespace claims) = Some n \<and> stable n
        \<and> claimedBy (au_Installation conf) n \<and> claimMatches claims (annotatedClaim n)
        \<and> hs_Project s (projectKey claims) = Some p \<and> om_UID (pj_Meta p) = ic_ProjectUID claims \<and> stable (pj_Meta p)
        \<and> hs_ConfigMap s (au_PolicyConfigMap conf) = Some m \<and> policyAdmits env target claims i p m profile
        \<and> hs_Environment s (environmentKey claims) = Some e \<and> environmentCurrent (av_FindCondition env) claims p e
        \<and> hs_Pod s (podKey claims) = Some q \<and> podCurrent (av_GetControllerOf env) claims e q
        \<and> deniedPrefixes profile = Some (gr_DeniedPrefixes g) \<and> g = grantOf claims p e q (gr_DeniedPrefixes g))"

lemma admit_policyAdmits:
  assumes "ParseConfigMap (av_ConfigLib env) (Some m) = Inr c" and "admit env target claims i p m c = Inr profile"
  shows "policyAdmits env target claims i p m profile"
  using assms unfolding admit_def policyAdmits_def
  by (auto split: bool.splits option.splits sum.splits if_splits)

lemma verify_time:
  assumes "uncached h now env" and "run_state (VerifyNamespace (verifierOf env conf) n) w = (Inr claim, w')"
  shows "now w \<le> now w'"
  using VerifyNamespace_time [OF assms] by (metis order_trans)

text \<open>The first pass, with the worlds between its reads.\<close>

definition first_pass ::
  "('w, 'q, 'k) authority_env \<Rightarrow> authority_config \<Rightarrow> Claims \<Rightarrow> ObjectMeta \<Rightarrow> Claim \<Rightarrow> ObjectMeta \<Rightarrow> Project \<Rightarrow> ConfigMap
     \<Rightarrow> 'q Environment \<Rightarrow> pod_view \<Rightarrow> 'w \<Rightarrow> 'w \<Rightarrow> bool" where
  "first_pass env conf claims i claim n p m e q w w' \<longleftrightarrow>
     (\<exists>a2 a3 a4 a5 a6 a7. run_state (av_Installation env (ii_Key (au_Installation conf))) w = (Inr i, a2)
        \<and> run_state (VerifyNamespace (verifierOf env conf) (ic_ProjectNamespace claims)) a2 = (Inr claim, a3)
        \<and> run_state (av_Namespace env (ic_ProjectNamespace claims)) a3 = (Inr n, a4)
        \<and> run_state (av_Project env (projectKey claims)) a4 = (Inr p, a5)
        \<and> run_state (av_ConfigMap env (au_PolicyConfigMap conf)) a5 = (Inr m, a6)
        \<and> run_state (av_Environment env (environmentKey claims)) a6 = (Inr e, a7)
        \<and> run_state (av_Pod env (podKey claims)) a7 = (Inr q, w'))"

text \<open>A second pass that succeeds: at the instant between the passes every object was the one of the first pass, and
  the claim is the one of the Namespace at that instant.\<close>

lemma recheck_constant:
  assumes u: "uncached h now env" and v: "versioned_history h"
    and fp: "first_pass env conf claims i claim n p m e q a b"
    and rc: "run_state (recheck env conf fingerprint bytes claims i claim n p m c e q) b = (Inr (), b8)"
  shows "hs_Installation (h (now b)) (ii_Key (au_Installation conf)) = Some i"
    "hs_Project (h (now b)) (projectKey claims) = Some p" "hs_ConfigMap (h (now b)) (au_PolicyConfigMap conf) = Some m"
    "hs_Environment (h (now b)) (environmentKey claims) = Some e" "hs_Pod (h (now b)) (podKey claims) = Some q"
    "hs_Namespace (h (now b)) (ic_ProjectNamespace claims) = Some n"
    "claimedBy (au_Installation conf) n" "claim = annotatedClaim n" "now a \<le> now b" "now b \<le> now b8"
proof -
  obtain a2 a3 a4 a5 a6 a7 where s: "run_state (av_Installation env (ii_Key (au_Installation conf))) a = (Inr i, a2)"
      "run_state (VerifyNamespace (verifierOf env conf) (ic_ProjectNamespace claims)) a2 = (Inr claim, a3)"
      "run_state (av_Namespace env (ic_ProjectNamespace claims)) a3 = (Inr n, a4)"
      "run_state (av_Project env (projectKey claims)) a4 = (Inr p, a5)"
      "run_state (av_ConfigMap env (au_PolicyConfigMap conf)) a5 = (Inr m, a6)"
      "run_state (av_Environment env (environmentKey claims)) a6 = (Inr e, a7)"
      "run_state (av_Pod env (podKey claims)) a7 = (Inr q, b)"
    using fp unfolding first_pass_def by blast
  obtain b1 b2 b3 b4 b5 b6 b7 m' n' p' e' q' i' where
    y: "run_state (av_ConfigMap env (au_PolicyConfigMap conf)) b = (Inr m', b1)"
      "run_state (av_Lookup env fingerprint) b1 = (Inr bytes, b2)"
      "run_state (VerifyNamespace (verifierOf env conf) (ic_ProjectNamespace claims)) b2 = (Inr claim, b3)"
      "run_state (av_Namespace env (ic_ProjectNamespace claims)) b3 = (Inr n', b4)"
      "run_state (av_Project env (projectKey claims)) b4 = (Inr p', b5)"
      "run_state (av_Environment env (environmentKey claims)) b5 = (Inr e', b6)"
      "run_state (av_Pod env (podKey claims)) b6 = (Inr q', b7)"
      "run_state (av_Installation env (ii_Key (au_Installation conf))) b7 = (Inr i', b8)"
    and ym: "om_UID (cm_Meta m') = om_UID (cm_Meta m)" "om_ResourceVersion (cm_Meta m') = om_ResourceVersion (cm_Meta m)"
    and yi: "unchanged n n'" "unchanged (pj_Meta p) (pj_Meta p')" "unchanged (en_Meta e) (en_Meta e')"
      "unchanged (pv_Meta q) (pv_Meta q')" "unchanged i i'"
    by (rule recheck_ok [OF rc])
  have t: "now a \<le> now a2" "now a2 \<le> now a3" "now a3 \<le> now a4" "now a4 \<le> now a5" "now a5 \<le> now a6" "now a6 \<le> now a7"
    "now a7 \<le> now b" "now b \<le> now b1" "now b1 \<le> now b2" "now b2 \<le> now b3" "now b3 \<le> now b4" "now b4 \<le> now b5"
    "now b5 \<le> now b6" "now b6 \<le> now b7" "now b7 \<le> now b8"
    by (rule uncached_time [OF u] verify_time [OF u] s y)+
  then show "now a \<le> now b" "now b \<le> now b8" by simp_all
  note const = constant_between [OF uncachedD(1) [OF u] versioned_historyD(1) [OF v] s(1) y(8)]
    constant_between [OF uncachedD(3) [OF u] versioned_historyD(3) [OF v] s(4) y(5)]
    constant_between [OF uncachedD(4) [OF u] versioned_historyD(4) [OF v] s(5) y(1)]
    constant_between [OF uncachedD(5) [OF u] versioned_historyD(5) [OF v] s(6) y(6)]
    constant_between [OF uncachedD(6) [OF u] versioned_historyD(6) [OF v] s(7) y(7)]
  show "hs_Installation (h (now b)) (ii_Key (au_Installation conf)) = Some i"
    "hs_Project (h (now b)) (projectKey claims) = Some p" "hs_ConfigMap (h (now b)) (au_PolicyConfigMap conf) = Some m"
    "hs_Environment (h (now b)) (environmentKey claims) = Some e" "hs_Pod (h (now b)) (podKey claims) = Some q"
    by (rule const; use yi ym t in \<open>simp add: unchanged_def\<close>)+
  have nsat: "hs_Namespace (h t) (ic_ProjectNamespace claims) = Some n" if "now a4 \<le> t" "t \<le> now b3" for t
    using constant_between [OF uncachedD(2) [OF u] versioned_historyD(2) [OF v] s(3) y(4)] yi(1) that
    by (simp add: unchanged_def)
  then show "hs_Namespace (h (now b)) (ic_ProjectNamespace claims) = Some n" using t by simp
  obtain ns t' where ns: "now b2 \<le> t'" "t' \<le> now b3" "hs_Namespace (h t') (ic_ProjectNamespace claims) = Some ns"
      "claimedBy (au_Installation conf) ns" "claim = annotatedClaim ns"
    by (rule VerifyNamespace_time [OF u y(3)])
  moreover have "ns = n" using nsat [of t'] ns t by simp
  ultimately show "claimedBy (au_Installation conf) n" "claim = annotatedClaim n" by simp_all
qed

text \<open>(C5) The two passes of the proof are an atomic snapshot. Suppose the reader is uncached (each read returns the object as
  it was at some instant during the call) and the API server never restores a resource version. Then, whatever
  else happens to the cluster while the proof runs, a grant means that there was one instant, between the call and
  the return, at which everything held together: the configured Installation was live; the Namespace was claimed
  by it, active, for the Project of the identity; the immutable policy parsed, was restricted and admitted the
  destination for the Project's selection under the revision named in the identity; the Environment was ready,
  neither paused, suspended nor held, and frozen to that Project; and its Pod was the one of the identity, with the
  presented certificate. The grant carries the denied prefixes of that policy and the keys of that execution.\<close>

theorem currentness_proof_is_snapshot:
  fixes env :: "('w, 'q, 'k) authority_env"
  assumes u: "uncached h now env" and v: "versioned_history h"
    and run: "run_state (prove env conf fingerprint target) w = (Inr g, w')"
  shows "\<exists>t claims. now w \<le> t \<and> t \<le> now w' \<and> authorized_at env conf target claims (h t) g
    \<and> (\<exists>bytes w0 w1. run_state (av_Lookup env fingerprint) w0 = (Inr bytes, w1)
          \<and> identityRead env conf fingerprint target bytes claims)"
proof -
  obtain bytes claims i claim n p m c profile e q a1 a4 a6 b b8 where
    r: "run_state (proveIdentity env conf fingerprint target) w = (Inr (bytes, claims), a1)"
      "run_state (proveScope env conf claims) a1 = (Inr (i, claim, n), a4)"
      "run_state (provePolicy env conf target claims i) a4 = (Inr (p, m, c, profile), a6)"
      "run_state (proveExecution env claims p) a6 = (Inr (e, q), b)"
      "run_state (recheck env conf fingerprint bytes claims i claim n p m c e q) b = (Inr (), b8)"
      "run_state (issueGrant env claims p e q profile) b8 = (Inr g, w')"
    using run by (auto simp: prove_def bindE_Inr)
  note ri = proveIdentity_ok [OF r(1)]
  note si = proveScope_ok [OF r(2)] and oi = provePolicy_ok [OF r(3)] and xi = proveExecution_ok [OF r(4)]
  obtain ps where z: "run_state (av_CtxErr env) b8 = (None, w')" "deniedPrefixes profile = Some ps" "g = grantOf claims p e q ps"
    by (rule issueGrant_ok [OF r(6)])
  have fp: "first_pass env conf claims i claim n p m e q a1 b"
    unfolding first_pass_def using si oi xi by metis
  note now_b = recheck_constant [OF u v fp r(5)]
  have "policyAdmits env target claims i p m profile" using oi admit_policyAdmits by metis
  moreover have "om_UID i = ii_UID (au_Installation conf)" "stable i" "claimMatches claims claim" "stable n" using si by metis+
  moreover have "om_UID (pj_Meta p) = ic_ProjectUID claims" "stable (pj_Meta p)" using oi by metis+
  moreover have "environmentCurrent (av_FindCondition env) claims p e" "podCurrent (av_GetControllerOf env) claims e q"
    using xi by metis+
  ultimately have "authorized_at env conf target claims (h (now b)) g"
    unfolding authorized_at_def using now_b z(2,3) by (auto simp: grantOf_def)
  moreover have "now w \<le> now a1" "now b8 \<le> now w'" using ri z by (blast intro: uncached_time [OF u])+
  ultimately show ?thesis using ri now_b(9,10) by (meson order_trans)
qed

text \<open>A cluster in which the identity of the samples is current, and an uncached reader of it.\<close>

definition sample_installation :: ObjectMeta where
  "sample_installation = zero_meta\<lparr>om_Namespace := ''swe-system'', om_Name := ''main'', om_UID := ''i-uid'', om_ResourceVersion := ''1''\<rparr>"

definition sample_namespace :: ObjectMeta where
  "sample_namespace = zero_meta\<lparr>om_Name := ''project-a'', om_UID := ''ns-uid'', om_ResourceVersion := ''2'',
     om_Annotations := [(InstallationNamespaceAnnotation, ''swe-system''), (InstallationNameAnnotation, ''main''),
       (InstallationUIDAnnotation, ''i-uid''), (ProjectNameAnnotation, ''project''), (ProjectUIDAnnotation, ''p-uid''),
       (LifecycleAnnotation, LifecycleActive)]\<rparr>"

definition sample_project :: Project where
  "sample_project = \<lparr>pj_Meta = zero_meta\<lparr>om_Namespace := ''project-a'', om_Name := ''project'', om_UID := ''p-uid'', om_ResourceVersion := ''3''\<rparr>,
     pj_Spec = \<lparr>pj_Repositories = [], pj_TemplateRef = [], pj_ChangesWorkflow = [], pj_EgressAllowlist = [''api.example.com'']\<rparr>\<rparr>"

definition sample_provisioning :: "nat EnvironmentProvisioningSnapshot" where
  "sample_provisioning = \<lparr>ps_Template = \<lparr>pt_Name = [], pt_UID = [], pt_Generation = 1\<rparr>, ps_Backend = [], ps_Image = [], ps_Size = [],
     ps_Resources = [], ps_RuntimeClassName = [], ps_DiskSize = 0, ps_LegacyWorkspacePVCUID = [],
     ps_Project = Some \<lparr>pp_Name = ''project'', pp_UID = ''p-uid'', pp_Generation = 1, pp_Repository = []\<rparr>,
     ps_TemplateVerified = True, ps_ProjectVerified = True\<rparr>"

definition sample_environment :: "nat Environment" where
  "sample_environment = zero_environment
     \<lparr>en_Meta := zero_meta\<lparr>om_Namespace := ''project-a'', om_Name := ''environment'', om_UID := ''e-uid'', om_ResourceVersion := ''4''\<rparr>,
      en_Spec := zero_spec\<lparr>sp_ProjectRef := ''project''\<rparr>,
      en_Status := zero_status\<lparr>st_ExecutionGeneration := 7, st_PodName := ''env-environment'', st_Provisioning := Some sample_provisioning,
        st_Conditions := [\<lparr>cd_Type = EnvironmentConditionReady, cd_Status = ConditionTrue, cd_ObservedGeneration = 0,
          cd_LastTransitionTime = 0, cd_Reason = [], cd_Message = []\<rparr>]\<rparr>\<rparr>"

definition sample_pod :: pod_view where
  "sample_pod = \<lparr>pv_Meta = zero_meta\<lparr>om_Namespace := ''project-a'', om_Name := ''env-environment'', om_UID := ''pod-uid'', om_ResourceVersion := ''5'',
       om_OwnerReferences := [\<lparr>ow_APIVersion = platformGroupVersion, ow_Kind = ''Environment'', ow_Name = ''environment'',
         ow_UID = ''e-uid'', ow_Controller = Some True\<rparr>],
       om_Annotations := [(ExecutionGenerationAnnotation, ''7''), (PolicyRevisionAnnotation, ''72''), (ForwarderRevisionAnnotation, ''1''),
         (CertificateFingerprintAnnotation, ic_CertificateFingerprint sample_claims)]\<rparr>,
     pv_RestartPolicy = RestartPolicyNever\<rparr>"

definition sample_cluster :: "nat cluster" where
  "sample_cluster = \<lparr>hs_Installation = (\<lambda>_. Some sample_installation), hs_Namespace = (\<lambda>_. Some sample_namespace),
     hs_Project = (\<lambda>_. Some sample_project), hs_ConfigMap = (\<lambda>_. Some sample_map),
     hs_Environment = (\<lambda>_. Some sample_environment), hs_Pod = (\<lambda>_. Some sample_pod)\<rparr>"

text \<open>The world is the time; every call takes one unit of it.\<close>

definition tick :: "'a \<Rightarrow> (nat, 'a) state" where
  "tick a = State (\<lambda>t. (a, Suc t))"

definition sample_env :: "(nat, nat, string) authority_env" where
  "sample_env = \<lparr>av_Lookup = (\<lambda>_. tick (Inr ''id'')), av_Installation = (\<lambda>_. tick (Inr sample_installation)),
     av_Namespace = (\<lambda>_. tick (Inr sample_namespace)), av_Projects = (\<lambda>_. tick (Inr [sample_project])),
     av_Project = (\<lambda>_. tick (Inr sample_project)), av_ConfigMap = (\<lambda>_. tick (Inr sample_map)),
     av_Environment = (\<lambda>_. tick (Inr sample_environment)), av_Pod = (\<lambda>_. tick (Inr sample_pod)), av_CtxErr = tick None,
     av_IdentityLib = sample_identity_lib, av_ConfigLib = sample_lib, av_RevisionMarshal = (\<lambda>_. ''r''),
     av_FindCondition = (\<lambda>cs ty. find (\<lambda>c. cd_Type c = ty) cs),
     av_GetControllerOf = (\<lambda>m. find (\<lambda>r. ow_Controller r = Some True) (om_OwnerReferences m))\<rparr>"

definition sample_conf :: authority_config where
  "sample_conf = \<lparr>au_Installation = \<lparr>ii_Key = (''swe-system'', ''main''), ii_UID = ''i-uid''\<rparr>, au_PolicyConfigMap = (''swe-system'', ''policy'')\<rparr>"

definition sample_grant :: grant where
  "sample_grant = grantOf sample_claims sample_project sample_environment sample_pod (the (deniedPrefixes sample_profile))"

lemma sample_identity: "identityRead sample_env sample_conf (replicate 32 (CHR ''b'')) ''api.example.com'' ''id'' sample_claims"
proof -
  have "ParseHostname ''api.example.com'' = Inr ''api.example.com''" by code_simp
  moreover have "ParseIdentity sample_identity_lib ''id'' = Inr sample_claims"
    by (rule ParseIdentity_complete [OF sample_codec sample_claims_encode])
  ultimately show ?thesis
    by (simp add: identityRead_def identityMatches_def sample_env_def sample_conf_def sample_claims_def)
qed

lemma run_tick [simp]: "run_state (tick a) t = (a, Suc t)"
  by (simp add: tick_def)

lemma sample_verify:
  "run_state (VerifyNamespace (verifierOf sample_env sample_conf) ''project-a'') t = (Inr (annotatedClaim sample_namespace), t + 3)"
proof -
  have "checkClaim (annotatedClaim sample_namespace) = (Inr (annotatedClaim sample_namespace) :: string tenancy_error + Claim)"
    "TrimSpace ''project-a'' = ''project-a''"
    by code_simp+
  moreover have "cl_ProjectName (annotatedClaim sample_namespace) = ''project''" "cl_ProjectUID (annotatedClaim sample_namespace) = ''p-uid''"
    by code_simp+
  moreover have "claimedBy (au_Installation sample_conf) sample_namespace" by code_simp
  ultimately show ?thesis
    by (simp add: VerifyNamespace_def verifyNamespaceIdentity_def VerifyInstallation_def verifyProjectClaim_def verifierOf_def
        bindE_def ifErr_def mapErr_def sample_env_def sample_conf_def sample_installation_def sample_namespace_def
        sample_project_def zero_meta_def)
qed

lemma sample_claim: "claimMatches sample_claims (annotatedClaim sample_namespace)"
  "cl_Lifecycle (annotatedClaim sample_namespace) = LifecycleActive" "cl_NamespaceUID (annotatedClaim sample_namespace) = ''ns-uid''"
  by code_simp+

lemma sample_admitted:
  "admit sample_env ''api.example.com'' sample_claims sample_installation sample_project sample_map sample_parsed
     = (Inr sample_profile :: string authority_error + RestrictedProfile)"
proof -
  have e: "Evaluate [''api.example.com'', ''git.example.com''] [''git.example.com''] [''api.example.com''] =
     Inr \<lparr>po_Ceiling = [''api.example.com'', ''git.example.com''], po_Baseline = [''git.example.com''],
          po_ProjectSelection = [''api.example.com''], po_Effective = [''api.example.com'', ''git.example.com'']\<rparr>"
    by code_simp
  have "hex_encode ''r'' = ''72''" by code_simp
  moreover have "''{}'' \<noteq> replicate 32 (char_of (0::nat))" by (simp add: numeral_eq_Suc)
  ultimately show ?thesis
    by (simp add: admit_def revisionInputs_def Revision_def CanonicalBytes_def e sample_env_def sample_lib_def sample_parsed_def
        sample_config_def sample_project_def sample_claims_def sample_installation_def sample_map_def zero_meta_def)
qed

lemma sample_execution:
  "environmentCurrent (av_FindCondition sample_env) sample_claims sample_project sample_environment"
  "podCurrent (av_GetControllerOf sample_env) sample_claims sample_environment sample_pod"
proof -
  have "format_int 7 = ''7''" by code_simp
  then show "podCurrent (av_GetControllerOf sample_env) sample_claims sample_environment sample_pod"
    by (simp add: podCurrent_def controllerOwnerIs_def stable_def sample_env_def sample_pod_def sample_claims_def
        sample_environment_def annotation_def zero_defs)
qed (simp add: environmentCurrent_def IsEnvironmentReady_def stable_def sample_env_def sample_claims_def sample_project_def
    sample_environment_def sample_provisioning_def zero_defs)

lemma sample_stable:
  "stable sample_installation" "om_UID sample_installation = ''i-uid''" "stable sample_namespace" "om_UID sample_namespace = ''ns-uid''"
  "stable (pj_Meta sample_project)" "om_UID (pj_Meta sample_project) = ''p-uid''" "stable (en_Meta sample_environment)"
  "stable (pv_Meta sample_pod)"
  by code_simp+

lemma sample_reads:
  "av_Lookup sample_env k = tick (Inr ''id'')" "av_Installation sample_env x = tick (Inr sample_installation)"
  "av_Namespace sample_env k = tick (Inr sample_namespace)" "av_Project sample_env x = tick (Inr sample_project)"
  "av_ConfigMap sample_env x = tick (Inr sample_map)" "av_Environment sample_env x = tick (Inr sample_environment)"
  "av_Pod sample_env x = tick (Inr sample_pod)" "av_CtxErr sample_env = tick None"
  "av_ConfigLib sample_env = sample_lib"
  by (simp_all add: sample_env_def)

lemma sample_keys: "ic_ProjectNamespace sample_claims = ''project-a''" "ic_ProjectUID sample_claims = ''p-uid''"
  "ii_UID (au_Installation sample_conf) = ''i-uid''"
  by (simp_all add: sample_claims_def sample_conf_def)

lemma sample_run:
  "run_state (prove sample_env sample_conf (replicate 32 (CHR ''b'')) ''api.example.com'') 0 = (Inr sample_grant, 21)"
proof -
  obtain ps where "deniedPrefixes sample_profile = Some ps" using deniedPrefixes_valid [OF sample_profile_valid(1)] by blast
  with sample_identity show ?thesis
    by (simp add: prove_def proveIdentity_def proveScope_def provePolicy_def proveExecution_def recheck_def recheckPolicy_def
        issueGrant_def read_simps identityRead_def unchanged_def sample_reads sample_keys sample_verify sample_claim sample_accepted
        sample_admitted sample_execution sample_stable sample_grant_def)
qed

lemma sample_uncached: "uncached (\<lambda>_. sample_cluster) (\<lambda>t. t) sample_env"
  by (auto simp: uncached_def reads_at_def passes_def sample_env_def sample_cluster_def tick_def)

lemma sample_versioned: "versioned_history (\<lambda>_. sample_cluster)"
  by (auto simp: versioned_history_def versioned_def sample_cluster_def)

theorem currentness_proof_is_snapshot_witness:
  "\<exists>claims. authorized_at sample_env sample_conf ''api.example.com'' claims sample_cluster sample_grant
     \<and> (\<exists>bytes. identityRead sample_env sample_conf (replicate 32 (CHR ''b'')) ''api.example.com'' bytes claims)"
  using currentness_proof_is_snapshot [OF sample_uncached sample_versioned sample_run] by blast

text \<open>The addresses that such a grant leaves to dial are none that the policy names.\<close>

lemma authorized_denies:
  assumes "authorized_at env conf target claims s g"
  shows "\<exists>m profile c. hs_ConfigMap s (au_PolicyConfigMap conf) = Some m
    \<and> ParseConfigMap (av_ConfigLib env) (Some m) = Inr c \<and> cf_RestrictedProfile (pc_Config c) = Some profile
    \<and> (\<forall>a. ValidateAddress a (gr_DeniedPrefixes g) = None \<longrightarrow> \<not> named_by profile (Unmap a))"
proof -
  obtain m profile c where m: "hs_ConfigMap s (au_PolicyConfigMap conf) = Some m"
      "ParseConfigMap (av_ConfigLib env) (Some m) = Inr c" "cf_RestrictedProfile (pc_Config c) = Some profile"
      "deniedPrefixes profile = Some (gr_DeniedPrefixes g)"
    using assms unfolding authorized_at_def policyAdmits_def by blast
  have "valid_profile profile"
    using ParseConfigMap_sound [OF m(2)] m(3) by (auto simp: canonical_config_def canonical_mode_def)
  from deniedPrefixes_valid [OF this] m(4)
  have ps: "list_all masked (gr_DeniedPrefixes g)"
    "\<And>a. (\<exists>p\<in>set (gr_DeniedPrefixes g). inRange p a) \<longleftrightarrow> named_by profile a" by auto
  then have "\<not> named_by profile (Unmap a)" if "ValidateAddress a (gr_DeniedPrefixes g) = None" for a
    using that Contains_inRange by (auto simp: ValidateAddress_None_iff list_all_iff simp flip: ps(2))
  with m show ?thesis by blast
qed

text \<open>No proof panics: the profile of an accepted policy always gives prefixes.\<close>

lemma admit_profile_valid:
  assumes "ParseConfigMap lib (Some m) = Inr c" and "admit env target claims i p m c = Inr profile"
  shows "deniedPrefixes profile \<noteq> None"
proof -
  have "cf_RestrictedProfile (pc_Config c) = Some profile"
    using assms(2) by (auto simp: admit_def split: bool.splits option.splits sum.splits if_splits)
  then have "valid_profile profile"
    using ParseConfigMap_sound [OF assms(1)] by (auto simp: canonical_config_def canonical_mode_def)
  from deniedPrefixes_valid [OF this] show ?thesis by auto
qed

definition calm :: "('w, 'k authority_error + 'a) state \<Rightarrow> bool" where
  "calm m \<longleftrightarrow> (\<forall>w. fst (run_state m w) \<noteq> Inl AuthPanic)"

lemma calmD: "calm m \<Longrightarrow> fst (run_state m w) \<noteq> Inl AuthPanic"
  by (simp add: calm_def)

lemma bindE_panic:
  "fst (run_state (bindE m f) w) = Inl AuthPanic \<longleftrightarrow>
     fst (run_state m w) = Inl AuthPanic
     \<or> (\<exists>a w1. run_state m w = (Inr a, w1) \<and> fst (run_state (f a) w1) = Inl AuthPanic)"
  by (auto simp: bindE_def ifErr_def split: prod.splits sum.splits)

lemma calm_bindE: "calm m \<Longrightarrow> (\<And>a. calm (f a)) \<Longrightarrow> calm (bindE m f)"
  by (simp add: calm_def bindE_panic)

lemma calm_fetch: "calm (fetch what text m good)"
  by (auto simp: calm_def fetch_def bindE_def ifErr_def mapErr_def split: prod.split sum.split)

lemma calm_require: "calm (require text m good)"
  by (auto simp: calm_def require_def ifErr_def split: prod.split sum.split)

lemma calm_mapErr: "(\<And>e. h e \<noteq> AuthPanic) \<Longrightarrow> calm (mapErr h m)"
  by (auto simp: calm_def ifErr_def mapErr_def split: prod.split sum.split)

lemma calm_return: "r \<noteq> Inl AuthPanic \<Longrightarrow> calm (ret r)"
  by (simp add: calm_def)

lemma calm_if: "calm m \<Longrightarrow> calm m' \<Longrightarrow> calm (if b then m else m')"
  by simp

lemma calm_case: "(\<And>e. x = Inl e \<Longrightarrow> calm (f e)) \<Longrightarrow> (\<And>a. calm (g a)) \<Longrightarrow> calm (case x of Inl e \<Rightarrow> f e | Inr a \<Rightarrow> g a)"
  by (cases x) auto

lemmas calm_intros = calm_bindE calm_fetch calm_require calm_mapErr calm_return calm_if calm_case

lemma admit_calm: "admit env target claims i p m c \<noteq> Inl AuthPanic"
  by (auto simp: admit_def split: bool.split option.split sum.split)

lemma calm_provePolicy: "calm (provePolicy env conf target claims i)"
proof -
  have "e \<noteq> AuthPanic" if "admit env target claims i p m c = Inl e" for p m c e
    using that admit_calm [of env target claims i p m c] by auto
  then show ?thesis unfolding provePolicy_def by (intro calm_intros) auto
qed

lemma calm_parts:
  "calm (proveIdentity env conf fingerprint target)" "calm (proveScope env conf claims)"
  "calm (proveExecution env claims p)" "calm (recheck env conf fingerprint bytes claims i claim n p m c e q)"
  unfolding proveScope_def proveIdentity_def proveExecution_def recheck_def recheckPolicy_def
  by (intro calm_intros; simp)+

lemma prove_never_panics: "fst (run_state (prove env conf fingerprint target) w) \<noteq> Inl AuthPanic"
proof
  assume "fst (run_state (prove env conf fingerprint target) w) = Inl AuthPanic"
  then obtain claims i p m c profile w1 w2 e q w3 where
    r: "run_state (provePolicy env conf target claims i) w1 = (Inr (p, m, c, profile), w2)"
    and g: "fst (run_state (issueGrant env claims p e q profile) w3) = Inl AuthPanic"
    unfolding prove_def by (auto simp: bindE_panic calmD calm_parts calm_provePolicy)
  have "deniedPrefixes profile \<noteq> None" by (rule provePolicy_ok [OF r]) (rule admit_profile_valid)
  with g show False by (auto simp: issueGrant_def split: prod.splits option.splits)
qed

end
