(* ===== verification/Spec2Isabelle.thy ===== *)
theory Spec2Isabelle
  imports Lifecycle_Intent Environment_Lifecycle Environment_Status Environment_Recovery
    Transcript_Store Transcript_Gate Process_Output Process_Supervision
    Egress_Policy Egress_Protocol Egress_Resolve Egress_Quota Egress_Currentness Egress_Proxy
    Environment_Provisioning Tenancy Tenancy_Catalog Installation_Isolation Repository_Credential
    Run_Controller Run_Safety Run_Ownership Warm_Pool Session_Store Access_Control
    Filesystem_Path Filesystem_Server Netip Egress_Config Egress_Identity Egress_Authority
begin

text \<open>
  A verification of the core of the SWE platform, which runs coding agents in sandboxed Environments on
  Kubernetes.

  \<^bold>\<open>The program.\<close> The operator (\<open>src/internal/controllers\<close>) reconciles Environments: it publishes and consumes
  lifecycle intents, suspends and resumes the pod behind an Environment, restarts failed pods within a budget
  and reports status. Its Run controller turns a Run into one allocated Environment, hands it the credentials it may have,
  drives the agent's adapter and cleans up; tenancy and installation isolation decide what the operator may
  write and what may execute. The control plane (\<open>src/internal/controlplane\<close>) keeps the transcripts of runs and streams
  them to subscribers, and authenticates and authorizes its clients, by bearer or by browser session. Inside the sandbox, sandboxd (\<open>src/sandboxd\<close>) starts and supervises processes,
  buffers their output and serves the files of the workspace. Outgoing connections leave the sandbox through a forwarder and the egress proxy
  (\<open>src/internal/egresspolicy\<close>, \<open>src/internal/egressproxy\<close>), which admits a host name only under the effective policy
  and a currentness proof. The parts meet at the API objects (the two reconcilers, the intents and the claims), at the
  execution fence (Run controller and Environment), at the run
  identity (store and gate), at the process records (server, waiters, drains, timers) and on the wire (client,
  forwarder, proxy).

  \<^bold>\<open>Theories and sources.\<close>

  \<^item> \<open>Prelude\<close>: wrap-around of Go integers, Go strings and maps, counting lemmas, and the locales \<open>step_system\<close>
    and \<open>monotone_system\<close>, which lift an invariant, and an observation that never decreases, to every
    sequence of operations. The state machines below interpret them.
  \<^item> \<open>Api_Types\<close>: the records and enumerations of \<open>src/api/v1alpha1\<close>, and the API client as a parameter with its
    contract.
  \<^item> \<open>Lifecycle_Intent\<close>: \<open>src/internal/lifecycle/intent.go\<close> and \<open>execution_fence.go\<close>. Requests to wake, suspend and
    record activity are published under a fence with bounded retries; what returned was published, under the fence,
    and is read back.
  \<^item> \<open>Environment_Lifecycle\<close>: \<open>environment_lifecycle.go\<close> and the lifecycle gate of \<open>environment_reconcile.go\<close>. The
    suspension state machine: a hold dominates, resumption waits for the backend fence, requests are not replayed,
    the step is idempotent, the gate settles.
  \<^item> \<open>Environment_Status\<close>: \<open>environment_status.go\<close> and parts of \<open>environment_controller.go\<close>. The status synthesised from a
    pod, the reservation of execution generations, pausing, the names of children.
  \<^item> \<open>Environment_Recovery\<close>: \<open>environment_recovery.go\<close>. The restart budget, backoff and accounting of terminal pods.
  \<^item> \<open>Transcript_Types\<close>, \<open>Transcript_Store\<close>: \<open>transcript.go\<close>. The bounded in-memory store with cursors and
    subscribers: limits, contiguity, idempotent appends, gap-free delivery.
  \<^item> \<open>Transcript_Gate\<close>: \<open>transcript_gate.go\<close>. Admissions against exclusive cleanup.
  \<^item> \<open>Process_Output\<close>, \<open>Process_Server\<close>, \<open>Process_Supervision\<close>: \<open>src/sandboxd/internal/server/process.go\<close> and \<open>supervisor.go\<close>. The
    output ring and its equivalence with the tail of the whole output, the operations of the server, and the
    invariants of their interleavings.
  \<^item> \<open>Egress_Policy\<close>: \<open>egresspolicy/policy.go\<close>. Host names, the effective policy, its revision.
  \<^item> \<open>Egress_Protocol\<close>: \<open>protocol.go\<close> and the ClientHello reader of \<open>proxy.go\<close>. Round trip of the forward request, the exact
    form of accepted CONNECT requests and ClientHellos.
  \<^item> \<open>Egress_Resolve\<close>: \<open>egressproxy/policy.go\<close>. The address filter against address intervals, and the resolution
    against the history of the resolver's answers.
  \<^item> \<open>Egress_Quota\<close>: \<open>quota.go\<close>. Counters, limits and the token bucket.
  \<^item> \<open>Egress_Currentness\<close>: the records, leases and loops of \<open>currentness.go\<close> under every interleaving.
  \<^item> \<open>Netip\<close>, \<open>Egress_Config\<close>: \<open>egresspolicy/config.go\<close>. The texts of addresses and prefixes, the immutable policy document
    with its exact canonical form, and the prefixes denied under it.
  \<^item> \<open>Egress_Identity\<close>: \<open>src/internal/egressidentity/identity.go\<close>. Claims of an execution, their one canonical encoding, and the
    certificate issued for them.
  \<^item> \<open>Egress_Authority\<close>: the proof of currentness (\<open>authorize\<close> of \<open>currentness.go\<close>), which composes the theories of policy,
    identity, resolution and tenancy. Its two passes are an atomic snapshot of the cluster; it never panics, and the address filter of a
    grant is exact.
  \<^item> \<open>Egress_Proxy\<close>: the handlers of \<open>proxy.go\<close>, which compose the theories of policy, protocol, resolution and quotas; the properties that span them
    are stated there.

  \<^item> \<open>Environment_Provisioning\<close>: \<open>src/api/v1alpha1/environment_provisioning.go\<close>. Resolution, validation and comparison of provisioning
    snapshots.
  \<^item> \<open>Go_Monad\<close>: the state and error combinators of the reconcilers (early returns, logged calls) with their rules for
    weakest preconditions and logs.
  \<^item> \<open>Tenancy\<close>: \<open>src/internal/tenancy/authority.go\<close> and \<open>reconcile.go\<close>. Namespace claims, leases and the guarded client: every mutation that
    reaches the API server is mediated.
  \<^item> \<open>Tenancy_Catalog\<close>: \<open>src/internal/tenancy/catalog.go\<close>. A patch of the catalog binds a source of this Installation and changes nothing
    else; over bound sources nothing is patched.
  \<^item> \<open>Installation_Isolation\<close>: \<open>src/internal/isolation/contract.go\<close> and \<open>installation_isolation_controller.go\<close>. Authority to execute is
    published only behind an observed fence.
  \<^item> \<open>Repository_Credential\<close>: \<open>src/internal/repositorycredential\<close>. Active and pending credential Secrets round-trip and never stand for
    each other.
  \<^item> \<open>Run_Types\<close>, \<open>Run_State\<close>, \<open>Run_Execution\<close>, \<open>Run_Credential\<close>, \<open>Run_Allocation\<close>, \<open>Run_Repository\<close>, \<open>Run_Lease\<close>, \<open>Run_Controller\<close>:
    \<open>run_controller.go\<close>, \<open>run_changes.go\<close> and \<open>agent/adapter.go\<close>. One call of \<open>ReconcileRun\<close> is one reconcile of one Run, with every read,
    write and adapter call; an adapter is a script of dials and events, so the closures the code hands out are
    part of the model.
  \<^item> \<open>Ordered_Log\<close>, \<open>Run_Programs\<close>: the discipline of a log of calls as the locales \<open>discipline\<close> and \<open>run_program\<close>: what every
    operation of the Run controller keeps, given what its primitive calls keep.
  \<^item> \<open>Run_Safety\<close>, \<open>Run_Ownership\<close>: the interpretations of these locales for the order of adapter calls and for the ownership of
    writes; \<open>Run_Example\<close> holds the concrete server of the witnesses.
  \<^item> \<open>Warm_Pool\<close>: \<open>warmpool_controller.go\<close>. The whole reconcile: its writes are proved and exact, the filling loop ends, the surge is
    bounded.
  \<^item> \<open>Base64\<close>, \<open>Session_Store\<close>: \<open>src/internal/controlplane/session_store.go\<close>. The store of browser sessions refines an abstract table of
    grants.
  \<^item> \<open>Access_Control\<close>: \<open>auth.go\<close> and \<open>session.go\<close>. Access behind Kubernetes reviews, the session cookie, and the contract of a
    session store as the locale \<open>revocable_sessions\<close>, from which logging out is final.
  \<^item> \<open>Filesystem_Path\<close>, \<open>Filesystem_Server\<close>: \<open>src/sandboxd/internal/server/filesystem.go\<close>. Accepted paths stay in the workspace, page tokens are
    read back; the exact trace of a write, exact reads and pages, and listings that end.

  \<^bold>\<open>State and operations.\<close> A Go struct is a record with a prefix per type, a constant enumeration a datatype, a fallible
  function returns a sum or an option. Machine integers are numbers with the wrap-around written out
  (\<open>wrap_i64\<close>, \<open>wrap_u64\<close>) or proved within their width; addresses are words; \<open>float64\<close> is a rounded rational.
  Pointers the code hands out are indices into stores. A method that holds its mutex throughout is one step; a method
  with several critical sections is several, so that a run of a step function is an interleaving of the
  goroutines. Code outside the repository is an argument: the Kubernetes client, the JSON codec, the clock, the operating
  system, the network, DNS and hashing.

  \<^bold>\<open>Bounds.\<close> Loops are structural recursions or terminating functions. Where the code bounds a loop itself the
  bound is the code's: the retry counts of the intents, 66 header lines and 8193 bytes of a CONNECT request, 64
  records of a ClientHello, nine names, 18 queries and eight aliases of a resolution. The restart-delay and rounding
  loops terminate by a measure; the filling loop of a warm pool has as many turns as members can be missing, proved
  enough; skipping to a page takes at most as many turns as its offset.

  \<^bold>\<open>Not modelled.\<close> Pod construction and the remaining gates of the Environment reconciler, declared services, service observation and metrics; the GitHub
  provider of repository credentials; the HTTP routing, WebSocket and portal code of the control plane; the
  command line; generated deep copies. Of the egress proxy: the DNS packets, the
  accept loops with their configuration checks and the byte relay; the staged pod publication that no controller calls yet. Of the Run
  controller: metrics, the zeroing of memory and the registration of watches. Timeouts and cancellation appear as
  operations that fail. These parts call Kubernetes, HTTP or cloud interfaces with little decision of their own, or
  are generated.
\<close>

end
